(* ===== verification/Prelude.thy ===== *)
theory Prelude
  imports Main "HOL-Library.List_Lexorder" "HOL-Library.Char_ord" "HOL-Library.Sublist"
begin

text \<open>
  Shared vocabulary of the development: the theorem collections, the types that stand for
  Go's \<open>error\<close>, slices and strings, and the generic lemmas on lists that several
  components use.

  A Go \<open>string\<close> is a sequence of bytes and is modelled as the HOL type \<^typ>\<open>string\<close>, whose
  characters are bytes; Go compares strings bytewise, which is the lexicographic order of
  \<open>List_Lexorder\<close> over \<open>Char_ord\<close>. A Go function that returns \<open>error\<close> is modelled by a
  function into \<open>'e check\<close>, where \<^const>\<open>None\<close> is the nil error; a function that returns
  a value and an error is modelled by a function into \<open>'e + 'a\<close>, with \<open>Inl\<close> the error.
  A slice whose nil value the code distinguishes from the empty slice is an
  \<open>'a list option\<close>.
\<close>

type_synonym 'e check = "'e option"
type_synonym 'a slice = "'a list option"

named_theorems wf_simps "unfolding rules of the well-formedness predicates"
named_theorems step_simps "characteristic equations of the operations"

section \<open>Slices and errors\<close>

definition elems :: "'a slice \<Rightarrow> 'a list" where
  "elems s = (case s of None \<Rightarrow> [] | Some xs \<Rightarrow> xs)"

lemma elems_simps [simp]: "elems None = []" "elems (Some xs) = xs"
  by (simp_all add: elems_def)

text \<open>\<open>if err := check; err != nil { return fmt.Errorf(..., err) }\<close>\<close>

definition wrap :: "('e \<Rightarrow> 'f) \<Rightarrow> 'e check \<Rightarrow> 'f check" where
  "wrap f c = map_option f c"

definition orElse :: "'e check \<Rightarrow> 'e check \<Rightarrow> 'e check" where
  "orElse c d = (case c of None \<Rightarrow> d | Some e \<Rightarrow> Some e)"

lemma wrap_simps [simp]:
  "wrap f None = None" "wrap f (Some e) = Some (f e)" "(wrap f c = None) = (c = None)"
  by (simp_all add: wrap_def)

lemma orElse_simps [simp]:
  "orElse None d = d" "orElse (Some e) d = Some e"
  "(orElse c d = None) = (c = None \<and> d = None)"
  by (simp_all add: orElse_def split: option.splits)

text \<open>The first error of a loop whose body checks one element at a time.\<close>

fun firstErr :: "(nat \<Rightarrow> 'a \<Rightarrow> 'e check) \<Rightarrow> nat \<Rightarrow> 'a list \<Rightarrow> 'e check" where
  "firstErr f i [] = None"
| "firstErr f i (x # xs) = orElse (f i x) (firstErr f (Suc i) xs)"

lemma firstErr_None:
  "firstErr f i xs = None \<longleftrightarrow> (\<forall>k < length xs. f (i + k) (xs ! k) = None)"
proof (induction xs arbitrary: i)
  case Nil
  show ?case by simp
next
  case (Cons x xs)
  show ?case
    by (auto simp: Cons.IH All_less_Suc2)
qed

section \<open>Strictly sorted lists\<close>

text \<open>
  The code repeatedly checks that neighbouring elements are strictly increasing
  (\<open>index > 0 && values[index-1] >= value\<close> is an error). Neighbour checks are equivalent to
  the list being strictly sorted, hence sorted and without repetition.
\<close>

fun sortedUnique :: "('a \<Rightarrow> 'k::linorder) \<Rightarrow> 'a list \<Rightarrow> bool" where
  "sortedUnique k [] = True"
| "sortedUnique k [x] = True"
| "sortedUnique k (x # y # ys) = (k x < k y \<and> sortedUnique k (y # ys))"

lemma sortedUnique_iff: "sortedUnique k xs \<longleftrightarrow> sorted_wrt (<) (map k xs)"
proof (induction k xs rule: sortedUnique.induct)
  case (3 k x y ys)
  then show ?case by (auto dest: less_trans)
qed simp_all

lemma sorted_wrt_less_distinct: "sorted_wrt (<) (xs :: 'k::linorder list) \<Longrightarrow> distinct xs"
  by (induction xs) auto

lemma sortedUnique_distinct: "sortedUnique k xs \<Longrightarrow> distinct (map k xs)"
  using sorted_wrt_less_distinct by (auto simp: sortedUnique_iff)

lemma sorted_wrt_subseq: "subseq xs ys \<Longrightarrow> sorted_wrt P ys \<Longrightarrow> sorted_wrt P xs"
  by (induction rule: list_emb.induct) (auto dest: list_emb_set)

lemma sortedUnique_subseq:
  assumes "subseq xs ys" and "sortedUnique k ys"
  shows "sortedUnique k xs"
proof -
  have "subseq (map k xs) (map k ys)"
    using assms(1) by (rule subseq_map)
  then show ?thesis
    using assms(2) by (auto simp: sortedUnique_iff intro: sorted_wrt_subseq)
qed

text \<open>The neighbour check as the loops write it, with the previous element carried along.\<close>

fun increasing :: "('a \<Rightarrow> 'k::linorder) \<Rightarrow> 'a option \<Rightarrow> 'a list \<Rightarrow> bool" where
  "increasing k p [] = True"
| "increasing k p (x # xs) =
     ((case p of None \<Rightarrow> True | Some y \<Rightarrow> k y < k x) \<and> increasing k (Some x) xs)"

lemma increasing_Some: "increasing k (Some x) xs = sortedUnique k (x # xs)"
proof (induction xs arbitrary: x)
  case Nil
  show ?case by simp
next
  case (Cons y ys)
  show ?case
    by (subst increasing.simps(2)) (simp add: Cons.IH)
qed

lemma increasing_None: "increasing k None xs = sortedUnique k xs"
proof (cases xs)
  case Nil
  then show ?thesis by simp
next
  case (Cons a list)
  then show ?thesis by (simp add: increasing_Some)
qed

section \<open>Lists\<close>

lemma subseq_filter_keep: "subseq (filter P xs) xs"
  by (rule subseq_filter_left)

lemma distinct_subseq: "subseq xs ys \<Longrightarrow> distinct ys \<Longrightarrow> distinct xs"
  by (induction rule: list_emb.induct) (auto dest: list_emb_set)

lemma distinct_map_subseq: "subseq xs ys \<Longrightarrow> distinct (map f ys) \<Longrightarrow> distinct (map f xs)"
  by (rule distinct_subseq [OF subseq_map])

lemma takeWhile_eq_all_conv': "takeWhile P xs = xs \<longleftrightarrow> list_all P xs"
  by (auto simp: takeWhile_eq_all_conv list_all_iff)

lemma filter_takeWhile_dropWhile:
  assumes "xs = ys @ zs" "list_all P ys" "list_all (\<lambda>x. \<not> P x) zs"
  shows "filter P xs = ys"
  using assms by (simp add: filter_empty_conv list_all_iff)

section \<open>Three-way comparisons\<close>

text \<open>
  A comparison function that returns a negative, zero or positive \<open>int\<close> orders values as a
  key in a linear order; the clients of such a function reason about the keys.
\<close>

locale three_way =
  fixes cmp :: "'a \<Rightarrow> 'a \<Rightarrow> int" and key :: "'a \<Rightarrow> 'k::linorder"
  assumes less: "cmp l r < 0 \<longleftrightarrow> key l < key r" and equal: "cmp l r = 0 \<longleftrightarrow> key l = key r"
begin

lemma greater: "cmp l r > 0 \<longleftrightarrow> key r < key l"
  using less[of l r] equal[of l r] by (metis linorder_neqE_linordered_idom not_less_iff_gr_or_eq)

lemma compare_le: "cmp l r \<le> 0 \<longleftrightarrow> key l \<le> key r"
  using greater[of l r] by (simp add: not_less[symmetric])

lemma compare_ge: "cmp l r \<ge> 0 \<longleftrightarrow> key r \<le> key l"
  using less[of l r] by (simp add: not_less[symmetric])

lemma swapped: "cmp l r < 0 \<longleftrightarrow> cmp r l > 0"
  using less greater by blast

end

end
