(* ===== verification/GoText.thy ===== *)
theory GoText
  imports Prelude
begin

text \<open>
  The part of Go's standard library on text that the modelled code uses: UTF-8 decoding
  (\<open>unicode/utf8\<close>), the Unicode classes the validators test (\<open>unicode\<close>), trimming,
  splitting and prefixes (\<open>strings\<close>), decimal numbers (\<open>strconv\<close>) and Unix paths
  (\<open>path/filepath\<close> on Linux). Strings are byte sequences and runes are natural numbers.
\<close>

section \<open>UTF-8\<close>

abbreviation byteOf :: "char \<Rightarrow> nat" where
  "byteOf \<equiv> of_char"

definition runeError :: nat where
  "runeError = 0xFFFD"

definition contByte :: "nat \<Rightarrow> bool" where
  "contByte b \<longleftrightarrow> 0x80 \<le> b \<and> b \<le> 0xBF"

text \<open>
  \<open>utf8.DecodeRuneInString\<close>: the first rune and its width; an encoding error is
  \<open>(runeError, 1)\<close> and the empty string is \<open>(runeError, 0)\<close>. The accept ranges of the
  second byte exclude overlong forms, surrogates and values above U+10FFFF.
\<close>

definition acceptSecond :: "nat \<Rightarrow> nat \<Rightarrow> bool" where
  "acceptSecond b0 b1 \<longleftrightarrow>
     (if b0 = 0xE0 then 0xA0 \<le> b1 \<and> b1 \<le> 0xBF
      else if b0 = 0xED then 0x80 \<le> b1 \<and> b1 \<le> 0x9F
      else if b0 = 0xF0 then 0x90 \<le> b1 \<and> b1 \<le> 0xBF
      else if b0 = 0xF4 then 0x80 \<le> b1 \<and> b1 \<le> 0x8F
      else contByte b1)"

definition decodeRune :: "string \<Rightarrow> nat \<times> nat" where
  "decodeRune s =
     (case map byteOf s of
        [] \<Rightarrow> (runeError, 0)
      | b0 # bs \<Rightarrow>
          if b0 < 0x80 then (b0, 1)
          else if 0xC2 \<le> b0 \<and> b0 \<le> 0xDF then
            (case bs of
               b1 # _ \<Rightarrow> if acceptSecond b0 b1 then ((b0 - 0xC0) * 64 + (b1 - 0x80), 2) else (runeError, 1)
             | _ \<Rightarrow> (runeError, 1))
          else if 0xE0 \<le> b0 \<and> b0 \<le> 0xEF then
            (case bs of
               b1 # b2 # _ \<Rightarrow>
                 if acceptSecond b0 b1 \<and> contByte b2
                 then ((b0 - 0xE0) * 4096 + (b1 - 0x80) * 64 + (b2 - 0x80), 3) else (runeError, 1)
             | _ \<Rightarrow> (runeError, 1))
          else if 0xF0 \<le> b0 \<and> b0 \<le> 0xF4 then
            (case bs of
               b1 # b2 # b3 # _ \<Rightarrow>
                 if acceptSecond b0 b1 \<and> contByte b2 \<and> contByte b3
                 then ((b0 - 0xF0) * 262144 + (b1 - 0x80) * 4096 + (b2 - 0x80) * 64 + (b3 - 0x80), 4)
                 else (runeError, 1)
             | _ \<Rightarrow> (runeError, 1))
          else (runeError, 1))"

lemma decodeRune_width: "s \<noteq> [] \<Longrightarrow> 0 < snd (decodeRune s)"
  by (cases s) (auto simp: decodeRune_def split: list.splits if_splits)

text \<open>The runes that \<open>for _, r := range s\<close> visits, with their widths.\<close>

function runes :: "string \<Rightarrow> (nat \<times> nat) list" where
  "runes s = (if s = [] then [] else decodeRune s # runes (drop (snd (decodeRune s)) s))"
  by pat_completeness auto
termination
  by (relation "measure length") (auto simp: decodeRune_width)

declare runes.simps [simp del]

definition validString :: "string \<Rightarrow> bool" where
  "validString s \<longleftrightarrow> list_all (\<lambda>(r, w). \<not> (r = runeError \<and> w = 1)) (runes s)"

definition rangeAll :: "(nat \<Rightarrow> bool) \<Rightarrow> string \<Rightarrow> bool" where
  "rangeAll p s \<longleftrightarrow> list_all (\<lambda>(r, w). p r) (runes s)"

section \<open>Unicode classes\<close>

definition isSpace :: "nat \<Rightarrow> bool" where
  "isSpace r \<longleftrightarrow> (9 \<le> r \<and> r \<le> 13) \<or> r = 0x20 \<or> r = 0x85 \<or> r = 0xA0 \<or> r = 0x1680
     \<or> (0x2000 \<le> r \<and> r \<le> 0x200A) \<or> r = 0x2028 \<or> r = 0x2029 \<or> r = 0x202F \<or> r = 0x205F \<or> r = 0x3000"

definition isControl :: "nat \<Rightarrow> bool" where
  "isControl r \<longleftrightarrow> r < 0x20 \<or> (0x7F \<le> r \<and> r < 0xA0)"

text \<open>The general category \<open>Cf\<close> (format characters) of Unicode 15.\<close>

definition inCf :: "nat \<Rightarrow> bool" where
  "inCf r \<longleftrightarrow> list_ex (\<lambda>(lo, hi). lo \<le> r \<and> r \<le> hi)
     [(0xAD, 0xAD), (0x600, 0x605), (0x61C, 0x61C), (0x6DD, 0x6DD), (0x70F, 0x70F),
      (0x890, 0x891), (0x8E2, 0x8E2), (0x180E, 0x180E), (0x200B, 0x200F), (0x202A, 0x202E),
      (0x2060, 0x2064), (0x2066, 0x206F), (0xFEFF, 0xFEFF), (0xFFF9, 0xFFFB),
      (0x110BD, 0x110BD), (0x110CD, 0x110CD), (0x13430, 0x1343F), (0x1BCA0, 0x1BCA3),
      (0x1D173, 0x1D17A), (0xE0001, 0xE0001), (0xE0020, 0xE007F)]"

section \<open>Trimming, prefixes, splitting\<close>

function trimLeft :: "string \<Rightarrow> string" where
  "trimLeft s =
     (if s \<noteq> [] \<and> isSpace (fst (decodeRune s)) then trimLeft (drop (snd (decodeRune s)) s) else s)"
  by pat_completeness auto
termination
  by (relation "measure length") (auto simp: decodeRune_width)

declare trimLeft.simps [simp del]

text \<open>
  \<open>utf8.DecodeLastRuneInString\<close>: step back over at most three continuation bytes to a rune
  start and decode from there; if the decoded rune does not end at the end of the string the
  last byte is an encoding error.
\<close>

definition runeStart :: "char \<Rightarrow> bool" where
  "runeStart c \<longleftrightarrow> \<not> contByte (byteOf c)"

definition decodeLastRune :: "string \<Rightarrow> nat \<times> nat" where
  "decodeLastRune s =
     (case rev s of
        [] \<Rightarrow> (runeError, 0)
      | c # prev \<Rightarrow>
          if byteOf c < 0x80 then (byteOf c, 1)
          else
            let n = length (takeWhile (\<lambda>d. \<not> runeStart d) (take 3 prev));
                width = min (length s) (n + 2);
                tail = drop (length s - width) s;
                (r, size) = decodeRune tail
            in if size = width then (r, size) else (runeError, 1))"

lemma decodeLastRune_width: "s \<noteq> [] \<Longrightarrow> 0 < snd (decodeLastRune s)"
  by (cases "rev s") (auto simp: decodeLastRune_def Let_def min_def split: prod.splits if_splits)

function trimRight :: "string \<Rightarrow> string" where
  "trimRight s =
     (if s \<noteq> [] \<and> isSpace (fst (decodeLastRune s))
      then trimRight (take (length s - snd (decodeLastRune s)) s) else s)"
  by pat_completeness auto
termination
  by (relation "measure length") (auto simp: decodeLastRune_width)

declare trimRight.simps [simp del]

definition trimSpace :: "string \<Rightarrow> string" where
  "trimSpace s = trimRight (trimLeft s)"

definition hasPrefix :: "string \<Rightarrow> string \<Rightarrow> bool" where
  "hasPrefix s p \<longleftrightarrow> take (length p) s = p"

definition hasSuffix :: "string \<Rightarrow> string \<Rightarrow> bool" where
  "hasSuffix s p \<longleftrightarrow> length p \<le> length s \<and> drop (length s - length p) s = p"

text \<open>\<open>strings.Split\<close> and \<open>strings.Cut\<close> on a one-byte separator.\<close>

fun splitOn :: "char \<Rightarrow> string \<Rightarrow> string list" where
  "splitOn c [] = [[]]"
| "splitOn c (x # xs) =
     (if x = c then [] # splitOn c xs
      else (case splitOn c xs of [] \<Rightarrow> [[x]] | p # ps \<Rightarrow> (x # p) # ps))"

lemma splitOn_nonempty [simp]: "splitOn c s \<noteq> []"
  by (induction s) (auto split: list.splits)

definition cutOn :: "char \<Rightarrow> string \<Rightarrow> (string \<times> string) option" where
  "cutOn c s = (case dropWhile (\<lambda>x. x \<noteq> c) s of
                  [] \<Rightarrow> None
                | _ # after \<Rightarrow> Some (takeWhile (\<lambda>x. x \<noteq> c) s, after))"

text \<open>\<open>strings.Fields\<close>: the maximal runs of runes that are not white space; \<open>cur\<close> is the run being read.\<close>

function fieldsLoop :: "string \<Rightarrow> string \<Rightarrow> string list" where
  "fieldsLoop cur s =
     (if s = [] then (if cur = [] then [] else [cur])
      else
        let (r, w) = decodeRune s; after = drop w s
        in if isSpace r then (if cur = [] then fieldsLoop [] after else cur # fieldsLoop [] after)
           else fieldsLoop (cur @ take w s) after)"
  by pat_completeness auto
termination
proof (relation "measure (length \<circ> snd)")
  have shorter: "s \<noteq> [] \<Longrightarrow> (r, w) = decodeRune s \<Longrightarrow> length s - w < length s" for s r w
    using decodeRune_width[of s] by (cases "decodeRune s") auto
  show "\<And>cur s x r w after. s \<noteq> [] \<Longrightarrow> x = decodeRune s \<Longrightarrow> (r, w) = x \<Longrightarrow> after = drop w s \<Longrightarrow>
      \<not> isSpace r \<Longrightarrow> ((cur @ take w s, after), cur, s) \<in> measure (length \<circ> snd)"
    using shorter by simp
  show "\<And>cur s x r w after. s \<noteq> [] \<Longrightarrow> x = decodeRune s \<Longrightarrow> (r, w) = x \<Longrightarrow> after = drop w s \<Longrightarrow>
      isSpace r \<Longrightarrow> cur = [] \<Longrightarrow> (([], after), cur, s) \<in> measure (length \<circ> snd)"
    using shorter by simp
  show "\<And>cur s x r w after. s \<noteq> [] \<Longrightarrow> x = decodeRune s \<Longrightarrow> (r, w) = x \<Longrightarrow> after = drop w s \<Longrightarrow>
      isSpace r \<Longrightarrow> cur \<noteq> [] \<Longrightarrow> (([], after), cur, s) \<in> measure (length \<circ> snd)"
    using shorter by simp
qed simp

declare fieldsLoop.simps [simp del]

definition fieldsOf :: "string \<Rightarrow> string list" where
  "fieldsOf s = fieldsLoop [] s"

text \<open>\<open>strings.ContainsAny\<close> for a set of ASCII characters.\<close>

definition containsAny :: "string \<Rightarrow> string \<Rightarrow> bool" where
  "containsAny s chars \<longleftrightarrow> list_ex (\<lambda>c. c \<in> set chars) s"

text \<open>
  \<open>strings.ToLower(s) == t\<close> for an ASCII constant \<open>t\<close>: besides the ASCII letters only U+0130
  and U+212A have an ASCII lower case.
\<close>

definition lowerRune :: "nat \<Rightarrow> nat" where
  "lowerRune r = (if 65 \<le> r \<and> r \<le> 90 then r + 32
                  else if r = 0x130 then 0x69 else if r = 0x212A then 0x6B else r)"

definition lowerEquals :: "string \<Rightarrow> string \<Rightarrow> bool" where
  "lowerEquals s t \<longleftrightarrow> map (lowerRune \<circ> fst) (runes s) = map byteOf t"

section \<open>Printable ASCII\<close>

text \<open>On printable ASCII text without spaces decoding is bytewise and trimming changes nothing.\<close>

definition plainText :: "string \<Rightarrow> bool" where
  "plainText s \<longleftrightarrow> list_all (\<lambda>c. 33 \<le> byteOf c \<and> byteOf c \<le> 126) s"

lemma decodeRune_ascii: "byteOf c < 128 \<Longrightarrow> decodeRune (c # s) = (byteOf c, 1)"
  by (simp add: decodeRune_def)

lemma plainText_Cons: "plainText (c # s) \<longleftrightarrow> 33 \<le> byteOf c \<and> byteOf c \<le> 126 \<and> plainText s"
  by (simp add: plainText_def)

lemma runes_plain: "plainText s \<Longrightarrow> runes s = map (\<lambda>c. (byteOf c, 1)) s"
proof (induction s)
  case Nil
  then show ?case by (simp add: runes.simps)
next
  case (Cons c s)
  then show ?case
    by (subst runes.simps) (simp add: decodeRune_ascii plainText_Cons)
qed

lemma plain_not_space: "33 \<le> r \<Longrightarrow> r \<le> 126 \<Longrightarrow> \<not> isSpace r"
  by (auto simp: isSpace_def)

lemma trimLeft_plain: "plainText s \<Longrightarrow> trimLeft s = s"
  by (cases s; subst trimLeft.simps) (auto simp: plainText_Cons decodeRune_ascii plain_not_space)

lemma trimRight_plain: "plainText s \<Longrightarrow> trimRight s = s"
proof (cases "rev s")
  case (Cons c p)
  moreover assume "plainText s"
  then have "plainText (rev s)" by (simp add: plainText_def list_all_iff)
  ultimately show ?thesis
    by (subst trimRight.simps) (simp add: decodeLastRune_def plainText_Cons plain_not_space)
qed (subst trimRight.simps, simp)

lemma trimSpace_plain: "plainText s \<Longrightarrow> trimSpace s = s"
  by (simp add: trimSpace_def trimLeft_plain trimRight_plain)

lemma validString_plain: "plainText s \<Longrightarrow> validString s"
  by (auto simp: validString_def runes_plain list_all_iff plainText_def runeError_def)

section \<open>Anchored patterns\<close>

definition isDigit :: "char \<Rightarrow> bool" where
  "isDigit c \<longleftrightarrow> 48 \<le> byteOf c \<and> byteOf c \<le> 57"

definition isLower :: "char \<Rightarrow> bool" where
  "isLower c \<longleftrightarrow> 97 \<le> byteOf c \<and> byteOf c \<le> 122"

definition isUpper :: "char \<Rightarrow> bool" where
  "isUpper c \<longleftrightarrow> 65 \<le> byteOf c \<and> byteOf c \<le> 90"

definition isLowerHex :: "char \<Rightarrow> bool" where
  "isLowerHex c \<longleftrightarrow> isDigit c \<or> (97 \<le> byteOf c \<and> byteOf c \<le> 102)"

text \<open>The regular expression \<open>^prefix[0-9a-f]{n}$\<close>.\<close>

definition hexPattern :: "string \<Rightarrow> nat \<Rightarrow> string \<Rightarrow> bool" where
  "hexPattern p n s \<longleftrightarrow>
     hasPrefix s p \<and> length s = length p + n \<and> list_all isLowerHex (drop (length p) s)"

lemma hexPattern_disjoint:
  assumes "hexPattern p n s" and "hexPattern q m s"
    and "take (min (length p) (length q)) p \<noteq> take (min (length p) (length q)) q"
  shows False
proof -
  let ?k = "min (length p) (length q)"
  have "take ?k p = take ?k s"
    using assms(1) by (auto simp: hexPattern_def hasPrefix_def) (metis min.cobounded1 min.idem take_take min_def)
  moreover have "take ?k q = take ?k s"
    using assms(2) by (auto simp: hexPattern_def hasPrefix_def) (metis min.commute min_def take_take)
  ultimately show False using assms(3) by simp
qed

section \<open>Decimal numbers\<close>

fun digitsValue :: "nat \<Rightarrow> string \<Rightarrow> nat" where
  "digitsValue acc [] = acc"
| "digitsValue acc (c # cs) = digitsValue (acc * 10 + (byteOf c - 48)) cs"

text \<open>\<open>strconv.ParseUint(s, 10, 32)\<close>: \<^const>\<open>None\<close> is a syntax or range error.\<close>

definition parseUint32 :: "string \<Rightarrow> nat option" where
  "parseUint32 s =
     (if s = [] \<or> \<not> list_all isDigit s then None
      else if digitsValue 0 s < 2 ^ 32 then Some (digitsValue 0 s) else None)"

definition maxInt :: int where
  "maxInt = 2 ^ 63 - 1"

text \<open>\<open>strconv.Atoi\<close> on a 64-bit platform: an optional sign and decimal digits in range.\<close>

definition atoi :: "string \<Rightarrow> int option" where
  "atoi s =
     (let (neg, ds) = (case s of [] \<Rightarrow> (False, [])
                       | c # cs \<Rightarrow> if c = CHR ''-'' then (True, cs)
                                  else if c = CHR ''+'' then (False, cs) else (False, s));
          v = int (digitsValue 0 ds)
      in if ds = [] \<or> \<not> list_all isDigit ds then None
         else if neg then (if v \<le> maxInt + 1 then Some (- v) else None)
         else if v \<le> maxInt then Some v else None)"

text \<open>\<open>strconv.FormatUint(n, 10)\<close>.\<close>

function formatUint :: "nat \<Rightarrow> string" where
  "formatUint n = (if n < 10 then [char_of (48 + n)] else formatUint (n div 10) @ [char_of (48 + n mod 10)])"
  by pat_completeness auto
termination
  by (relation "measure id") auto

declare formatUint.simps [simp del]

lemma digitsValue_append: "digitsValue acc (xs @ ys) = digitsValue (digitsValue acc xs) ys"
  by (induction xs arbitrary: acc) auto

lemma byteOf_digit: "d < 10 \<Longrightarrow> byteOf (char_of (48 + d) :: char) = 48 + d"
  by simp

lemma formatUint_isDigit: "list_all isDigit (formatUint n)"
proof (induction n rule: formatUint.induct)
  case (1 n)
  then show ?case
    by (subst formatUint.simps) (auto simp: isDigit_def list_all_iff)
qed

lemma formatUint_nonempty [simp]: "formatUint n \<noteq> []"
  by (subst formatUint.simps) simp

lemma digitsValue_formatUint: "digitsValue 0 (formatUint n) = n"
proof (induction n rule: formatUint.induct)
  case (1 n)
  show ?case
  proof (cases "n < 10")
    case True
    then show ?thesis by (subst formatUint.simps) simp
  next
    case False
    with 1 have "digitsValue 0 (formatUint (n div 10)) = n div 10" by simp
    with False show ?thesis
      by (subst formatUint.simps) (simp add: digitsValue_append)
  qed
qed

lemma parseUint32_formatUint: "n < 2 ^ 32 \<Longrightarrow> parseUint32 (formatUint n) = Some n"
  by (simp add: parseUint32_def formatUint_isDigit digitsValue_formatUint)

lemma parseUint32_bound: "parseUint32 s = Some n \<Longrightarrow> n < 2 ^ 32"
  by (auto simp: parseUint32_def split: if_splits)

lemma digitsValue_pos: "list_all isDigit s \<Longrightarrow> 0 < acc \<Longrightarrow> 0 < digitsValue acc s"
  by (induction s arbitrary: acc) auto

lemma digit_byte: "isDigit c \<Longrightarrow> 48 \<le> byteOf c \<and> byteOf c \<le> 57"
  by (auto simp: isDigit_def)

lemma digit_char: "isDigit c \<Longrightarrow> char_of (48 + (byteOf c - 48)) = c"
  using digit_byte[of c] by simp

lemma formatUint_digitsValue:
  "list_all isDigit s \<Longrightarrow> s \<noteq> [] \<Longrightarrow> length s > 1 \<longrightarrow> hd s \<noteq> CHR ''0'' \<Longrightarrow> formatUint (digitsValue 0 s) = s"
proof (induction s rule: rev_induct)
  case (snoc c s)
  have c: "isDigit c" and s: "list_all isDigit s" using snoc.prems(1) by simp_all
  let ?d = "byteOf c - 48"
  have d: "?d < 10" using digit_byte[OF c] by linarith
  show ?case
  proof (cases "s = []")
    case True
    then show ?thesis using d digit_char[OF c] by (subst formatUint.simps) simp
  next
    case False
    then obtain a t where a: "s = a # t" by (cases s) auto
    have "a \<noteq> CHR ''0''" using snoc.prems(3) a by simp
    moreover have "char_of (48 :: nat) = CHR ''0''" by code_simp
    then have "byteOf a = 48 \<Longrightarrow> a = CHR ''0''" by (metis char_of_char)
    ultimately have "0 < digitsValue 0 s"
      using s a digit_byte[of a] digitsValue_pos[of t "byteOf a - 48"] by (cases "byteOf a = 48") auto
    then have big: "\<not> digitsValue 0 s * 10 + ?d < 10" by simp
    have rec: "formatUint (digitsValue 0 s) = s"
      using snoc.IH s False snoc.prems(3) a by auto
    show ?thesis
      unfolding digitsValue_append using big d rec digit_char[OF c]
      by (subst formatUint.simps) simp
  qed
qed simp

lemma formatUint_no_zero: "0 < n \<Longrightarrow> hd (formatUint n) \<noteq> CHR ''0''"
proof (induction n rule: formatUint.induct)
  case (1 n)
  show ?case
  proof (cases "n < 10")
    case True
    have "CHR ''0'' = char_of (48 :: nat)" by code_simp
    then show ?thesis using True 1(2) by (subst formatUint.simps) simp
  next
    case False
    then have "hd (formatUint (n div 10)) \<noteq> CHR ''0''" using 1(1) by simp
    then show ?thesis using False by (subst formatUint.simps) (simp add: formatUint_nonempty)
  qed
qed

lemma formatUint_leading: "\<not> (length (formatUint n) > 1 \<and> hd (formatUint n) = CHR ''0'')"
proof (cases "n = 0")
  case True
  then show ?thesis by (subst formatUint.simps) simp
next
  case False
  then show ?thesis using formatUint_no_zero by simp
qed

lemma splitOn_absent: "c \<notin> set s \<Longrightarrow> splitOn c s = [s]"
  by (induction s) auto

lemma splitOn_join: "c \<notin> set s \<Longrightarrow> splitOn c (s @ c # t) = s # splitOn c t"
  by (induction s) auto

lemma splitOn_parts: "p \<in> set (splitOn c s) \<Longrightarrow> c \<notin> set p"
  by (induction s arbitrary: p) (auto split: if_splits list.splits)

lemma atoi_formatUint: "int n \<le> maxInt \<Longrightarrow> atoi (formatUint n) = Some (int n)"
proof -
  assume n: "int n \<le> maxInt"
  obtain c cs where c: "formatUint n = c # cs" using formatUint_nonempty[of n] by (cases "formatUint n") auto
  have "isDigit c" using formatUint_isDigit[of n] c by simp
  then have "c \<noteq> CHR ''-''" "c \<noteq> CHR ''+''" by (auto simp: isDigit_def)
  then show ?thesis using n formatUint_isDigit[of n] digitsValue_formatUint[of n] by (simp add: atoi_def c)
qed

section \<open>Unix paths\<close>

definition isAbs :: "string \<Rightarrow> bool" where
  "isAbs s \<longleftrightarrow> hasPrefix s ''/''"

fun joinWith :: "string \<Rightarrow> string list \<Rightarrow> string" where
  "joinWith sep [] = []"
| "joinWith sep [x] = x"
| "joinWith sep (x # y # ys) = x @ sep @ joinWith sep (y # ys)"

lemma joinWith_splitOn: "joinWith [c] (splitOn c s) = s"
proof (induction s)
  case (Cons x s)
  obtain p ps where "splitOn c s = p # ps" using splitOn_nonempty[of c s] by (cases "splitOn c s") auto
  then show ?case using Cons by (cases ps) auto
qed simp

text \<open>The element stack of \<open>filepath.Clean\<close>, newest element first.\<close>

fun cleanElems :: "bool \<Rightarrow> string list \<Rightarrow> string list \<Rightarrow> string list" where
  "cleanElems rooted out [] = rev out"
| "cleanElems rooted out (e # es) =
     (if e = [] \<or> e = ''.'' then cleanElems rooted out es
      else if e = ''..'' then
        (case out of
           t # rest \<Rightarrow> if t \<noteq> ''..'' then cleanElems rooted rest es
                         else cleanElems rooted (if rooted then out else ''..'' # out) es
         | [] \<Rightarrow> cleanElems rooted (if rooted then [] else [''..'']) es)
      else cleanElems rooted (e # out) es)"

definition cleanPath :: "string \<Rightarrow> string" where
  "cleanPath s =
     (let rooted = isAbs s;
          body = joinWith ''/'' (cleanElems rooted [] (splitOn (CHR ''/'') s))
      in if rooted then CHR ''/'' # body else if body = [] then ''.'' else body)"

definition joinPath :: "string list \<Rightarrow> string" where
  "joinPath es = (case dropWhile (\<lambda>e. e = []) es of [] \<Rightarrow> [] | es' \<Rightarrow> cleanPath (joinWith ''/'' es'))"

definition dirPath :: "string \<Rightarrow> string" where
  "dirPath s = cleanPath (rev (dropWhile (\<lambda>c. c \<noteq> CHR ''/'') (rev s)))"

end
