(* ===== verification/LiveRunQueue.thy ===== *)
theory LiveRunQueue
  imports GoText
begin

text \<open>
  The live-run queue of a deployment: \<open>src/internal/deploy/live_run_queue.go\<close> with the text
  checks it calls in \<open>pending_build.go\<close> and \<open>boot_session.go\<close>. The queue holds the app and
  shell runs and the control markers of one deployment in admission order: first the active
  entries, then at most one ready reservation, then the waiting entries. The theory holds the
  records, the validators and the pure operations (admit, remove, activate, cancel, promote);
  \<open>LiveRunSpec\<close> proves them against an abstract scheduler and \<open>LiveRunStore\<close> models the
  operations of the operation lock that keep the queue on disk.

  Typed string constants are datatypes with one constructor for every other string. The
  boolean-like tests, the order of the checks and the early returns are those of the source.
\<close>

section \<open>Text checks\<close>

definition safeRecoveryIdentity :: "string \<Rightarrow> bool" where
  "safeRecoveryIdentity value \<longleftrightarrow>
     (if value = [] \<or> trimSpace value \<noteq> value \<or> hasPrefix value ''-'' \<or> \<not> validString value
      then False
      else rangeAll (\<lambda>r. \<not> (r < 0x20 \<or> r = 0x7F)) value)"

lemma safeRecoveryIdentity_plain:
  "plainText s \<Longrightarrow> s \<noteq> [] \<Longrightarrow> \<not> hasPrefix s ''-'' \<Longrightarrow> safeRecoveryIdentity s"
  by (auto simp: safeRecoveryIdentity_def trimSpace_plain validString_plain rangeAll_def runes_plain
      list_all_iff plainText_def)

definition maxBootSessionIDLengthV1 :: nat where
  "maxBootSessionIDLengthV1 = 128"

datatype text_error = BootSessionEmpty | BootSessionUnsafe

definition validateBootSessionIDV1 :: "string \<Rightarrow> text_error check" where
  "validateBootSessionIDV1 value =
     (if value = [] then Some BootSessionEmpty
      else if length value > maxBootSessionIDLengthV1 \<or> \<not> safeRecoveryIdentity value
      then Some BootSessionUnsafe else None)"

section \<open>Data\<close>

datatype LiveRunKindV1 =
    LiveRunKindAppV1 | LiveRunKindShellV1 | LiveRunKindControlV1 | LiveRunKindOther string

datatype LiveRunStatusV1 =
    LiveRunStatusActiveV1 | LiveRunStatusWaitingV1 | LiveRunStatusReadyV1
  | LiveRunStatusEmpty | LiveRunStatusOther string

datatype LiveRunRecoveryReasonV1 =
    LiveRunRecoveryAbandonedOwnerV1 | LiveRunRecoveryPriorSessionV1
  | LiveRunRecoveryLegacyEntryV1 | LiveRunRecoveryCleanupFailedV1
  | LiveRunRecoveryEmpty | LiveRunRecoveryOther string

type_synonym ControlOperationV1 = string

record LiveRunV1 =
  runID :: string
  runKind :: LiveRunKindV1
  runName :: string
  runGenerationReference :: string
  runBootSession :: string
  runStatus :: LiveRunStatusV1
  runExclusive :: bool
  runWritableMount :: string
  runWritablePaths :: "string list"
  runContainer :: string

record ControlledSessionContainerOwnershipV1 =
  coRole :: string
  coID :: string
  coName :: string
  coDeploymentID :: string
  coGenerationReference :: string
  coBuildIdentity :: string

record ControlledSessionOwnershipV1 =
  owLiveRunID :: string
  owBootSession :: string
  owSessionHandle :: string
  owDockerEndpoint :: string
  owControllerDeploymentDirectory :: string
  owWorkloadDeploymentDirectory :: string
  owChannelDirectory :: string
  owNetworkID :: string
  owNetworkName :: string
  owController :: ControlledSessionContainerOwnershipV1
  owWorkload :: ControlledSessionContainerOwnershipV1

record LiveRunContainerCleanupV1 =
  clContainer :: string
  clRunID :: string
  clKind :: LiveRunKindV1
  clName :: string
  clReason :: LiveRunRecoveryReasonV1

record LiveRunQueueV1 =
  qSchema :: string
  qRuns :: "LiveRunV1 slice"
  qControlledSessions :: "ControlledSessionOwnershipV1 list"
  qCleanup :: "LiveRunContainerCleanupV1 list"

record ControlMarkerV1 =
  cmID :: string
  cmOperation :: ControlOperationV1
  cmGenerationReference :: string
  cmBootSession :: string
  cmStatus :: LiveRunStatusV1

definition LiveRunQueueSchemaV1 :: string where
  "LiveRunQueueSchemaV1 = ''live-run-queue-v1''"

definition NewLiveRunQueueV1 :: LiveRunQueueV1 where
  "NewLiveRunQueueV1 =
     \<lparr>qSchema = LiveRunQueueSchemaV1, qRuns = Some [], qControlledSessions = [], qCleanup = []\<rparr>"

section \<open>Identifiers\<close>

definition liveRunIDPatternV1 :: "string \<Rightarrow> bool" where
  "liveRunIDPatternV1 = hexPattern ''run-'' 16"

definition controlMarkerIDPatternV1 :: "string \<Rightarrow> bool" where
  "controlMarkerIDPatternV1 = hexPattern ''control-'' 16"

definition controlledSessionHandlePatternV1 :: "string \<Rightarrow> bool" where
  "controlledSessionHandlePatternV1 = hexPattern ''session-'' 64"

definition controlledSessionContainerIDPatternV1 :: "string \<Rightarrow> bool" where
  "controlledSessionContainerIDPatternV1 = hexPattern '''' 64"

definition controlledSessionBuildIdentityPatternV1 :: "string \<Rightarrow> bool" where
  "controlledSessionBuildIdentityPatternV1 = hexPattern ''sha256:'' 64"

datatype id_error = RunIDInvalid | ControlMarkerIDInvalid

definition ValidateLiveRunIDV1 :: "string \<Rightarrow> id_error check" where
  "ValidateLiveRunIDV1 i = (if \<not> liveRunIDPatternV1 i then Some RunIDInvalid else None)"

definition ValidateControlMarkerIDV1 :: "string \<Rightarrow> id_error check" where
  "ValidateControlMarkerIDV1 i =
     (if \<not> controlMarkerIDPatternV1 i then Some ControlMarkerIDInvalid else None)"

text \<open>
  \<open>newOpaqueAdmissionIDV1\<close>: eight random bytes printed in lower-case hexadecimal after the
  prefix; a reader that cannot supply them is an error.
\<close>

datatype random_error = RandomnessRequired | RandomnessShort

definition hexDigit :: "nat \<Rightarrow> char" where
  "hexDigit d = (if d < 10 then char_of (48 + d) else char_of (87 + d))"

definition hexByte :: "char \<Rightarrow> string" where
  "hexByte c = [hexDigit (byteOf c div 16), hexDigit (byteOf c mod 16)]"

definition newOpaqueAdmissionIDV1 :: "string option \<Rightarrow> string \<Rightarrow> random_error + string" where
  "newOpaqueAdmissionIDV1 random prefx =
     (case random of
        None \<Rightarrow> Inl RandomnessRequired
      | Some stream \<Rightarrow>
          if length stream < 8 then Inl RandomnessShort
          else Inr (prefx @ ''-'' @ concat (map hexByte (take 8 stream))))"

definition newLiveRunIDV1 :: "string option \<Rightarrow> random_error + string" where
  "newLiveRunIDV1 random = newOpaqueAdmissionIDV1 random ''run''"

definition newControlMarkerIDV1 :: "string option \<Rightarrow> random_error + string" where
  "newControlMarkerIDV1 random = newOpaqueAdmissionIDV1 random ''control''"

section \<open>Validation of the entries\<close>

datatype ownership_error =
    OwnRunID id_error | OwnBootSession text_error | OwnHandle | OwnEndpointUnsafe | OwnEndpointRemote
  | OwnDirectoriesApart | OwnControllerDirectory | OwnWorkloadDirectory | OwnDirectoriesEqual
  | OwnChannelForeign | OwnChannelUnclean | OwnNetworkIDAlone | OwnNetworkName | OwnNetworkID
  | OwnController ownership_error | OwnWorkload ownership_error
  | OwnRole | OwnContainerID | OwnTextUnsafe | OwnBuildIdentity
  | OwnWorkloadBeforeController | OwnContainerBeforeNetwork | OwnSameContainer
  | OwnEndpointMissing | OwnDirectoriesMissing

definition validateControlledSessionDockerEndpointV1 :: "string \<Rightarrow> ownership_error check" where
  "validateControlledSessionDockerEndpointV1 endpoint =
     (if \<not> safeRecoveryIdentity endpoint then Some OwnEndpointUnsafe
      else case cutOn (CHR '':'') endpoint of
        None \<Rightarrow> Some OwnEndpointRemote
      | Some (scheme, _) \<Rightarrow>
          if \<not> lowerEquals scheme ''unix'' \<and> \<not> lowerEquals scheme ''npipe''
          then Some OwnEndpointRemote else None)"

text \<open>
  The three text fields are checked in the order of a Go map iteration, which is not fixed;
  the error does not say which of them failed.
\<close>

definition validateControlledSessionContainerOwnershipStateV1 ::
    "ControlledSessionContainerOwnershipV1 \<Rightarrow> string \<Rightarrow> ownership_error check" where
  "validateControlledSessionContainerOwnershipStateV1 c role =
     (if coRole c \<noteq> role then Some OwnRole
      else if coID c \<noteq> [] \<and> \<not> controlledSessionContainerIDPatternV1 (coID c) then Some OwnContainerID
      else if \<not> (safeRecoveryIdentity (coName c) \<and> safeRecoveryIdentity (coDeploymentID c)
                 \<and> safeRecoveryIdentity (coGenerationReference c)) then Some OwnTextUnsafe
      else if \<not> controlledSessionBuildIdentityPatternV1 (coBuildIdentity c) then Some OwnBuildIdentity
      else None)"

definition validateControlledSessionContainerOwnershipV1 ::
    "ControlledSessionContainerOwnershipV1 \<Rightarrow> string \<Rightarrow> ownership_error check" where
  "validateControlledSessionContainerOwnershipV1 c role =
     orElse (validateControlledSessionContainerOwnershipStateV1 c role)
       (if coID c = [] then Some OwnContainerID else None)"

definition cleanAbsolute :: "string \<Rightarrow> bool" where
  "cleanAbsolute p \<longleftrightarrow> isAbs p \<and> cleanPath p = p \<and> safeRecoveryIdentity p"

definition validateControlledSessionOwnershipV1 ::
    "ControlledSessionOwnershipV1 \<Rightarrow> ownership_error check" where
  "validateControlledSessionOwnershipV1 w =
     orElse (wrap OwnRunID (ValidateLiveRunIDV1 (owLiveRunID w)))
     (orElse (wrap OwnBootSession (validateBootSessionIDV1 (owBootSession w)))
     (orElse (if \<not> controlledSessionHandlePatternV1 (owSessionHandle w) then Some OwnHandle else None)
     (orElse (if owDockerEndpoint w \<noteq> []
              then validateControlledSessionDockerEndpointV1 (owDockerEndpoint w) else None)
     (orElse (if (owControllerDeploymentDirectory w = []) \<noteq> (owWorkloadDeploymentDirectory w = [])
              then Some OwnDirectoriesApart else None)
     (orElse (if owControllerDeploymentDirectory w \<noteq> [] then
                (if \<not> cleanAbsolute (owControllerDeploymentDirectory w) then Some OwnControllerDirectory
                 else if \<not> cleanAbsolute (owWorkloadDeploymentDirectory w) then Some OwnWorkloadDirectory
                 else if owControllerDeploymentDirectory w = owWorkloadDeploymentDirectory w
                 then Some OwnDirectoriesEqual
                 else if owChannelDirectory w \<noteq>
                      joinPath [owWorkloadDeploymentDirectory w, ''.reploy'', ''sessions'', owLiveRunID w]
                 then Some OwnChannelForeign else None)
              else None)
     (orElse (if \<not> cleanAbsolute (owChannelDirectory w) then Some OwnChannelUnclean else None)
     (orElse (if owNetworkName w = [] then
                (if owNetworkID w \<noteq> [] then Some OwnNetworkIDAlone else None)
              else if \<not> safeRecoveryIdentity (owNetworkName w) then Some OwnNetworkName
              else if owNetworkID w \<noteq> [] \<and> \<not> controlledSessionContainerIDPatternV1 (owNetworkID w)
              then Some OwnNetworkID else None)
     (orElse (wrap OwnController
                (validateControlledSessionContainerOwnershipStateV1 (owController w) ''controller''))
     (orElse (wrap OwnWorkload
                (validateControlledSessionContainerOwnershipStateV1 (owWorkload w) ''workload''))
     (if coID (owController w) = [] \<and> coID (owWorkload w) \<noteq> [] then Some OwnWorkloadBeforeController
      else if owNetworkName w \<noteq> [] \<and> owNetworkID w = []
              \<and> (coID (owController w) \<noteq> [] \<or> coID (owWorkload w) \<noteq> [])
      then Some OwnContainerBeforeNetwork
      else if coID (owController w) \<noteq> [] \<and> coID (owWorkload w) \<noteq> []
              \<and> coID (owController w) = coID (owWorkload w)
      then Some OwnSameContainer
      else None))))))))))"

definition validateCurrentControlledSessionOwnershipV1 ::
    "ControlledSessionOwnershipV1 \<Rightarrow> ownership_error check" where
  "validateCurrentControlledSessionOwnershipV1 w =
     (if owDockerEndpoint w = [] then Some OwnEndpointMissing
      else if owControllerDeploymentDirectory w = [] \<or> owWorkloadDeploymentDirectory w = []
      then Some OwnDirectoriesMissing
      else validateControlledSessionOwnershipV1 w)"

datatype cleanup_error =
    CleanupContainerUnsafe | CleanupRunID id_error | CleanupKind | CleanupName | CleanupReason

definition validateLiveRunContainerCleanupV1 :: "LiveRunContainerCleanupV1 \<Rightarrow> cleanup_error check" where
  "validateLiveRunContainerCleanupV1 c =
     (if \<not> safeRecoveryIdentity (clContainer c) then Some CleanupContainerUnsafe
      else orElse (wrap CleanupRunID (ValidateLiveRunIDV1 (clRunID c)))
        (if clKind c \<noteq> LiveRunKindAppV1 \<and> clKind c \<noteq> LiveRunKindShellV1 then Some CleanupKind
         else if \<not> safeRecoveryIdentity (clName c) then Some CleanupName
         else case clReason c of
             LiveRunRecoveryAbandonedOwnerV1 \<Rightarrow> None
           | LiveRunRecoveryPriorSessionV1 \<Rightarrow> None
           | LiveRunRecoveryLegacyEntryV1 \<Rightarrow> None
           | LiveRunRecoveryCleanupFailedV1 \<Rightarrow> None
           | _ \<Rightarrow> Some CleanupReason))"

datatype entry_error =
    EntryID id_error | EntryKind | EntryName | EntryGeneration | EntryBootSession text_error
  | EntryStatus | EntryMountConflict | EntryPathUnsafe | EntryPathsUnsorted | EntryContainerUnsafe
  | EntryPendingContainer | MarkerOperation | MarkerGeneration | MarkerStatus | MarkerExclusive
  | MarkerMount

fun validateWritablePaths :: "string option \<Rightarrow> string list \<Rightarrow> entry_error check" where
  "validateWritablePaths prev [] = None"
| "validateWritablePaths prev (p # ps) =
     (if \<not> safeRecoveryIdentity p then Some EntryPathUnsafe
      else if (case prev of None \<Rightarrow> False | Some q \<Rightarrow> q \<ge> p) then Some EntryPathsUnsorted
      else validateWritablePaths (Some p) ps)"

definition validateLiveRunV1 :: "LiveRunV1 \<Rightarrow> entry_error check" where
  "validateLiveRunV1 r =
     orElse (wrap EntryID (ValidateLiveRunIDV1 (runID r)))
     (if runKind r \<noteq> LiveRunKindAppV1 \<and> runKind r \<noteq> LiveRunKindShellV1 then Some EntryKind
      else if \<not> safeRecoveryIdentity (runName r) then Some EntryName
      else if \<not> safeRecoveryIdentity (runGenerationReference r) then Some EntryGeneration
      else orElse (if runBootSession r \<noteq> []
                   then wrap EntryBootSession (validateBootSessionIDV1 (runBootSession r)) else None)
      (if runStatus r \<noteq> LiveRunStatusActiveV1 \<and> runStatus r \<noteq> LiveRunStatusReadyV1
          \<and> runStatus r \<noteq> LiveRunStatusWaitingV1 then Some EntryStatus
       else if \<not> runExclusive r \<and> (runWritableMount r \<noteq> [] \<or> length (runWritablePaths r) \<noteq> 0)
       then Some EntryMountConflict
       else orElse (validateWritablePaths None (runWritablePaths r))
       (if runContainer r \<noteq> [] \<and> \<not> safeRecoveryIdentity (runContainer r) then Some EntryContainerUnsafe
        else if runStatus r \<noteq> LiveRunStatusActiveV1 \<and> runContainer r \<noteq> [] then Some EntryPendingContainer
        else None)))"

definition validControlOperationV1 :: "ControlOperationV1 \<Rightarrow> bool" where
  "validControlOperationV1 operation \<longleftrightarrow>
     List.member [''up'', ''stop'', ''restart'', ''install'', ''uninstall'', ''stage''] operation"

definition validateLiveQueueEntryV1 :: "LiveRunV1 \<Rightarrow> entry_error check" where
  "validateLiveQueueEntryV1 e =
     (if runKind e \<noteq> LiveRunKindControlV1 then validateLiveRunV1 e
      else orElse (wrap EntryID (ValidateControlMarkerIDV1 (runID e)))
      (if \<not> validControlOperationV1 (runName e) then Some MarkerOperation
       else if \<not> safeRecoveryIdentity (runGenerationReference e) then Some MarkerGeneration
       else orElse (if runBootSession e \<noteq> []
                    then wrap EntryBootSession (validateBootSessionIDV1 (runBootSession e)) else None)
       (if runStatus e \<noteq> LiveRunStatusActiveV1 \<and> runStatus e \<noteq> LiveRunStatusWaitingV1
           \<and> runStatus e \<noteq> LiveRunStatusReadyV1 then Some MarkerStatus
        else if \<not> runExclusive e then Some MarkerExclusive
        else if runWritableMount e \<noteq> [] \<or> length (runWritablePaths e) \<noteq> 0 \<or> runContainer e \<noteq> []
        then Some MarkerMount
        else None)))"

section \<open>Validation of the queue\<close>

datatype queue_error =
    QueueSchema | QueueRunsNil | QueueSession nat ownership_error | QueueSessionsUnsorted
  | QueueCleanup nat cleanup_error | QueueCleanupUnsorted | QueueEntry nat entry_error
  | QueueRepeatsID string | QueueRunnableAfterWaiting string | QueueActiveAfterReady string
  | QueueExclusiveNotAlone | QueueTwoReady | QueueIdle string
  | CandidateStatus | CandidateInvalid entry_error | IDExists string | LiveRunConflict
  | BadID id_error | LiveRunNotReady string | LiveRunNotOutstanding string
  | InvalidAfterActivate queue_error | InvalidAfterCancel queue_error

fun validateSessions ::
    "nat \<Rightarrow> ControlledSessionOwnershipV1 option \<Rightarrow> ControlledSessionOwnershipV1 list \<Rightarrow> queue_error check" where
  "validateSessions i prev [] = None"
| "validateSessions i prev (w # ws) =
     orElse (wrap (QueueSession i) (validateControlledSessionOwnershipV1 w))
     (if (case prev of None \<Rightarrow> False | Some v \<Rightarrow> owLiveRunID v \<ge> owLiveRunID w)
      then Some QueueSessionsUnsorted
      else validateSessions (Suc i) (Some w) ws)"

fun validateCleanups ::
    "nat \<Rightarrow> LiveRunContainerCleanupV1 option \<Rightarrow> LiveRunContainerCleanupV1 list \<Rightarrow> queue_error check" where
  "validateCleanups i prev [] = None"
| "validateCleanups i prev (c # cs) =
     orElse (wrap (QueueCleanup i) (validateLiveRunContainerCleanupV1 c))
     (if (case prev of None \<Rightarrow> False | Some d \<Rightarrow> clContainer d \<ge> clContainer c)
      then Some QueueCleanupUnsorted
      else validateCleanups (Suc i) (Some c) cs)"

text \<open>
  The counters of the loop over the entries: whether a waiting entry was seen, how many
  entries are runnable (active or ready), whether one of them is exclusive, and how many are
  ready.
\<close>

record run_counts =
  waitingSeen :: bool
  runnableCount :: nat
  runnableExclusive :: bool
  readyCount :: nat

definition noCounts :: run_counts where
  "noCounts = \<lparr>waitingSeen = False, runnableCount = 0, runnableExclusive = False, readyCount = 0\<rparr>"

fun validateRuns ::
    "nat \<Rightarrow> string list \<Rightarrow> run_counts \<Rightarrow> LiveRunV1 list \<Rightarrow> queue_error + run_counts" where
  "validateRuns i seen c [] = Inr c"
| "validateRuns i seen c (r # rs) =
     (case validateLiveQueueEntryV1 r of
        Some e \<Rightarrow> Inl (QueueEntry i e)
      | None \<Rightarrow>
          if runID r \<in> set seen then Inl (QueueRepeatsID (runID r))
          else (case runStatus r of
             LiveRunStatusActiveV1 \<Rightarrow>
               if waitingSeen c then Inl (QueueRunnableAfterWaiting (runID r))
               else if readyCount c \<noteq> 0 then Inl (QueueActiveAfterReady (runID r))
               else validateRuns (Suc i) (runID r # seen)
                 (c\<lparr>runnableCount := runnableCount c + 1,
                    runnableExclusive := runnableExclusive c \<or> runExclusive r\<rparr>) rs
           | LiveRunStatusReadyV1 \<Rightarrow>
               if waitingSeen c then Inl (QueueRunnableAfterWaiting (runID r))
               else validateRuns (Suc i) (runID r # seen)
                 (c\<lparr>runnableCount := runnableCount c + 1,
                    runnableExclusive := runnableExclusive c \<or> runExclusive r,
                    readyCount := readyCount c + 1\<rparr>) rs
           | LiveRunStatusWaitingV1 \<Rightarrow>
               validateRuns (Suc i) (runID r # seen) (c\<lparr>waitingSeen := True\<rparr>) rs
           | _ \<Rightarrow> validateRuns (Suc i) (runID r # seen) c rs))"

fun firstWaitingLiveRunV1 :: "LiveRunV1 list \<Rightarrow> LiveRunV1 option" where
  "firstWaitingLiveRunV1 [] = None"
| "firstWaitingLiveRunV1 (r # rs) =
     (if runStatus r = LiveRunStatusWaitingV1 then Some r else firstWaitingLiveRunV1 rs)"

definition checkRunCounts :: "run_counts \<Rightarrow> LiveRunV1 list \<Rightarrow> queue_error check" where
  "checkRunCounts c rs =
     (if runnableExclusive c \<and> runnableCount c \<noteq> 1 then Some QueueExclusiveNotAlone
      else if readyCount c > 1 then Some QueueTwoReady
      else case firstWaitingLiveRunV1 rs of
          None \<Rightarrow> None
        | Some w \<Rightarrow>
            if runnableCount c = 0 \<or> (readyCount c = 0 \<and> \<not> runnableExclusive c \<and> \<not> runExclusive w)
            then Some (QueueIdle (runID w)) else None)"

definition ValidateLiveRunQueueV1 :: "LiveRunQueueV1 \<Rightarrow> queue_error check" where
  "ValidateLiveRunQueueV1 q =
     (if qSchema q \<noteq> LiveRunQueueSchemaV1 then Some QueueSchema
      else case qRuns q of
          None \<Rightarrow> Some QueueRunsNil
        | Some rs \<Rightarrow>
            orElse (validateSessions 0 None (qControlledSessions q))
            (orElse (validateCleanups 0 None (qCleanup q))
            (case validateRuns 0 [] noCounts rs of
               Inl e \<Rightarrow> Some e
             | Inr c \<Rightarrow> checkRunCounts c rs)))"

section \<open>Operations\<close>

text \<open>Cloning copies the slices; only \<open>Runs\<close> becomes non-nil.\<close>

definition cloneLiveRunQueueV1 :: "LiveRunQueueV1 \<Rightarrow> LiveRunQueueV1" where
  "cloneLiveRunQueueV1 q = q\<lparr>qRuns := Some (elems (qRuns q))\<rparr>"

fun canStartLoop :: "nat \<Rightarrow> LiveRunV1 list \<Rightarrow> nat option" where
  "canStartLoop n [] = Some n"
| "canStartLoop n (r # rs) =
     (if runStatus r \<noteq> LiveRunStatusActiveV1 then None
      else if runExclusive r then None else canStartLoop (Suc n) rs)"

definition liveRunCanStartNowV1 :: "LiveRunQueueV1 \<Rightarrow> LiveRunV1 \<Rightarrow> bool" where
  "liveRunCanStartNowV1 q candidate =
     (case canStartLoop 0 (elems (qRuns q)) of
        None \<Rightarrow> False
      | Some activeCount \<Rightarrow> \<not> runExclusive candidate \<or> activeCount = 0)"

text \<open>
  The scan of \<open>promoteLiveRunsV1\<close>: the runnable entries before the first waiting one (count,
  whether one is exclusive, how many are ready) and the index of the first waiting entry.
\<close>

fun promoteScan :: "nat \<Rightarrow> bool \<Rightarrow> nat \<Rightarrow> nat \<Rightarrow> LiveRunV1 list \<Rightarrow> nat \<times> bool \<times> nat \<times> nat option" where
  "promoteScan n ex rd i [] = (n, ex, rd, None)"
| "promoteScan n ex rd i (r # rs) =
     (if runStatus r = LiveRunStatusWaitingV1 then (n, ex, rd, Some i)
      else promoteScan (Suc n) (ex \<or> runExclusive r)
             (if runStatus r = LiveRunStatusReadyV1 then Suc rd else rd) (Suc i) rs)"

definition setStatus :: "LiveRunStatusV1 \<Rightarrow> nat \<Rightarrow> LiveRunV1 list \<Rightarrow> LiveRunV1 list" where
  "setStatus st i rs = rs[i := (rs ! i)\<lparr>runStatus := st\<rparr>]"

definition promoteRuns :: "LiveRunV1 list \<Rightarrow> LiveRunV1 list" where
  "promoteRuns rs =
     (case promoteScan 0 False 0 0 rs of
        (n, ex, rd, first) \<Rightarrow>
          (case first of
             None \<Rightarrow> rs
           | Some i \<Rightarrow>
               if ex \<or> rd \<noteq> 0 then rs
               else if runExclusive (rs ! i)
               then (if n = 0 then setStatus LiveRunStatusReadyV1 i rs else rs)
               else setStatus LiveRunStatusReadyV1 i rs))"

definition promoteLiveRunsV1 :: "LiveRunQueueV1 \<Rightarrow> LiveRunQueueV1" where
  "promoteLiveRunsV1 q = q\<lparr>qRuns := map_option promoteRuns (qRuns q)\<rparr>"

definition admitLiveQueueEntryV1 ::
    "LiveRunQueueV1 \<Rightarrow> LiveRunV1 \<Rightarrow> bool \<Rightarrow> queue_error + LiveRunQueueV1 \<times> LiveRunStatusV1" where
  "admitLiveQueueEntryV1 q candidate wait =
     (if list_ex (\<lambda>e. runID e = runID candidate) (elems (qRuns q)) then Inl (IDExists (runID candidate))
      else
        let result = cloneLiveRunQueueV1 q in
        if liveRunCanStartNowV1 result candidate then
          (let active = candidate\<lparr>runStatus := LiveRunStatusActiveV1\<rparr>
           in Inr (result\<lparr>qRuns := Some (elems (qRuns result) @ [active])\<rparr>, LiveRunStatusActiveV1))
        else if \<not> wait then Inl LiveRunConflict
        else Inr (result\<lparr>qRuns := Some (elems (qRuns result) @ [candidate])\<rparr>, runStatus candidate))"

definition AdmitLiveRunV1 ::
    "LiveRunQueueV1 \<Rightarrow> LiveRunV1 \<Rightarrow> bool \<Rightarrow> queue_error + LiveRunQueueV1 \<times> LiveRunStatusV1" where
  "AdmitLiveRunV1 q candidate wait =
     (case ValidateLiveRunQueueV1 q of
        Some e \<Rightarrow> Inl e
      | None \<Rightarrow>
          if runStatus candidate \<noteq> LiveRunStatusEmpty then Inl CandidateStatus
          else
            let c = candidate\<lparr>runStatus := LiveRunStatusWaitingV1\<rparr> in
            (case validateLiveRunV1 c of
               Some e \<Rightarrow> Inl (CandidateInvalid e)
             | None \<Rightarrow> admitLiveQueueEntryV1 q c wait))"

definition controlEntry :: "ControlMarkerV1 \<Rightarrow> LiveRunV1" where
  "controlEntry m =
     \<lparr>runID = cmID m, runKind = LiveRunKindControlV1, runName = cmOperation m,
      runGenerationReference = cmGenerationReference m, runBootSession = cmBootSession m,
      runStatus = LiveRunStatusWaitingV1, runExclusive = True, runWritableMount = [],
      runWritablePaths = [], runContainer = []\<rparr>"

definition AdmitControlMarkerV1 ::
    "LiveRunQueueV1 \<Rightarrow> ControlMarkerV1 \<Rightarrow> bool \<Rightarrow> queue_error + LiveRunQueueV1 \<times> LiveRunStatusV1" where
  "AdmitControlMarkerV1 q candidate wait =
     (case ValidateLiveRunQueueV1 q of
        Some e \<Rightarrow> Inl e
      | None \<Rightarrow>
          if cmStatus candidate \<noteq> LiveRunStatusEmpty then Inl CandidateStatus
          else (case validateLiveQueueEntryV1 (controlEntry candidate) of
                  Some e \<Rightarrow> Inl (CandidateInvalid e)
                | None \<Rightarrow> admitLiveQueueEntryV1 q (controlEntry candidate) wait))"

fun removeFirst :: "(LiveRunV1 \<Rightarrow> bool) \<Rightarrow> LiveRunV1 list \<Rightarrow> LiveRunV1 list option" where
  "removeFirst p [] = None"
| "removeFirst p (r # rs) =
     (if p r then Some rs else map_option (\<lambda>rs'. r # rs') (removeFirst p rs))"

definition removeLiveQueueEntryV1 ::
    "LiveRunQueueV1 \<Rightarrow> string \<Rightarrow> LiveRunKindV1 list \<Rightarrow> LiveRunQueueV1 \<times> bool" where
  "removeLiveQueueEntryV1 q i kinds =
     (let result = cloneLiveRunQueueV1 q in
      case removeFirst (\<lambda>e. runID e = i \<and> List.member kinds (runKind e)) (elems (qRuns result)) of
        None \<Rightarrow> (result, False)
      | Some rs \<Rightarrow> (promoteLiveRunsV1 (result\<lparr>qRuns := Some rs\<rparr>), True))"

definition RemoveLiveRunV1 :: "LiveRunQueueV1 \<Rightarrow> string \<Rightarrow> queue_error + LiveRunQueueV1 \<times> bool" where
  "RemoveLiveRunV1 q i =
     (case ValidateLiveRunQueueV1 q of
        Some e \<Rightarrow> Inl e
      | None \<Rightarrow>
          (case ValidateLiveRunIDV1 i of
             Some e \<Rightarrow> Inl (BadID e)
           | None \<Rightarrow> Inr (removeLiveQueueEntryV1 q i [LiveRunKindAppV1, LiveRunKindShellV1])))"

definition RemoveControlMarkerV1 :: "LiveRunQueueV1 \<Rightarrow> string \<Rightarrow> queue_error + LiveRunQueueV1 \<times> bool" where
  "RemoveControlMarkerV1 q i =
     (case ValidateLiveRunQueueV1 q of
        Some e \<Rightarrow> Inl e
      | None \<Rightarrow>
          (case ValidateControlMarkerIDV1 i of
             Some e \<Rightarrow> Inl (BadID e)
           | None \<Rightarrow> Inr (removeLiveQueueEntryV1 q i [LiveRunKindControlV1])))"

fun findIndex :: "(LiveRunV1 \<Rightarrow> bool) \<Rightarrow> nat \<Rightarrow> LiveRunV1 list \<Rightarrow> nat option" where
  "findIndex p i [] = None"
| "findIndex p i (r # rs) = (if p r then Some i else findIndex p (Suc i) rs)"

definition ActivateReadyLiveRunV1 :: "LiveRunQueueV1 \<Rightarrow> string \<Rightarrow> queue_error + LiveRunQueueV1" where
  "ActivateReadyLiveRunV1 q i =
     (case ValidateLiveRunQueueV1 q of
        Some e \<Rightarrow> Inl e
      | None \<Rightarrow>
          (case ValidateLiveRunIDV1 i of
             Some e \<Rightarrow> Inl (BadID e)
           | None \<Rightarrow>
               let result = cloneLiveRunQueueV1 q; rs = elems (qRuns result) in
               (case findIndex (\<lambda>r. runID r = i \<and> runKind r \<noteq> LiveRunKindControlV1) 0 rs of
                  None \<Rightarrow> Inl (LiveRunNotOutstanding i)
                | Some k \<Rightarrow>
                    if runStatus (rs ! k) \<noteq> LiveRunStatusReadyV1 then Inl (LiveRunNotReady i)
                    else
                      let next = promoteLiveRunsV1 (result\<lparr>qRuns := Some (setStatus LiveRunStatusActiveV1 k rs)\<rparr>)
                      in (case ValidateLiveRunQueueV1 next of
                            Some e \<Rightarrow> Inl (InvalidAfterActivate e)
                          | None \<Rightarrow> Inr next))))"

definition CancelWaitingLiveRunsV1 :: "LiveRunQueueV1 \<Rightarrow> queue_error + LiveRunQueueV1 \<times> LiveRunV1 list" where
  "CancelWaitingLiveRunsV1 q =
     (case ValidateLiveRunQueueV1 q of
        Some e \<Rightarrow> Inl e
      | None \<Rightarrow>
          let result = cloneLiveRunQueueV1 q;
              pending = (\<lambda>e. runKind e \<noteq> LiveRunKindControlV1 \<and> runStatus e \<noteq> LiveRunStatusActiveV1);
              canceled = filter pending (elems (qRuns result));
              retained = filter (\<lambda>e. \<not> pending e) (elems (qRuns result));
              next = promoteLiveRunsV1 (result\<lparr>qRuns := Some retained\<rparr>)
          in (case ValidateLiveRunQueueV1 next of
                Some e \<Rightarrow> Inl (InvalidAfterCancel e)
              | None \<Rightarrow> Inr (next, canceled)))"

definition ControlMarkersV1 :: "LiveRunQueueV1 \<Rightarrow> ControlMarkerV1 list" where
  "ControlMarkersV1 q =
     map (\<lambda>e. \<lparr>cmID = runID e, cmOperation = runName e,
              cmGenerationReference = runGenerationReference e,
              cmBootSession = runBootSession e, cmStatus = runStatus e\<rparr>)
       (filter (\<lambda>e. runKind e = LiveRunKindControlV1) (elems (qRuns q)))"

end
