(* ===== verification/LiveRunSpec.thy ===== *)
theory LiveRunSpec
  imports LiveRunQueue
begin

text \<open>
  What the live-run queue promises. The first part turns the validator of the queue into a
  declarative predicate: the entries are laid out active, ready, waiting; at most one is
  ready; an exclusive runnable entry is alone; and no waiting entry is left that could start.
  The second part is an abstract scheduler without statuses (three lists and a promotion
  rule). The third part proves that every operation of the queue keeps the predicate and
  computes what the scheduler computes.
\<close>

section \<open>Layout of the entries\<close>

definition isActive :: "LiveRunV1 \<Rightarrow> bool" where
  "isActive r \<longleftrightarrow> runStatus r = LiveRunStatusActiveV1"

definition isReady :: "LiveRunV1 \<Rightarrow> bool" where
  "isReady r \<longleftrightarrow> runStatus r = LiveRunStatusReadyV1"

definition isWaiting :: "LiveRunV1 \<Rightarrow> bool" where
  "isWaiting r \<longleftrightarrow> runStatus r = LiveRunStatusWaitingV1"

lemmas status_defs = isActive_def isReady_def isWaiting_def

definition rank :: "LiveRunV1 \<Rightarrow> nat" where
  "rank r = (if isActive r then 0 else if isReady r then 1 else 2)"

definition laidOut :: "LiveRunV1 list \<Rightarrow> bool" where
  "laidOut rs \<longleftrightarrow> sorted (map rank rs) \<and> (\<forall>r \<in> set rs. isActive r \<or> isReady r \<or> isWaiting r)"

abbreviation actives :: "LiveRunV1 list \<Rightarrow> LiveRunV1 list" where
  "actives rs \<equiv> filter isActive rs"

abbreviation readies :: "LiveRunV1 list \<Rightarrow> LiveRunV1 list" where
  "readies rs \<equiv> filter isReady rs"

abbreviation waitings :: "LiveRunV1 list \<Rightarrow> LiveRunV1 list" where
  "waitings rs \<equiv> filter isWaiting rs"

definition runnable :: "LiveRunV1 list \<Rightarrow> LiveRunV1 list" where
  "runnable rs = filter (\<lambda>r. isActive r \<or> isReady r) rs"

lemma status_exclusive:
  "isActive r \<Longrightarrow> \<not> isReady r" "isActive r \<Longrightarrow> \<not> isWaiting r" "isReady r \<Longrightarrow> \<not> isWaiting r"
  "isReady r \<Longrightarrow> \<not> isActive r" "isWaiting r \<Longrightarrow> \<not> isActive r" "isWaiting r \<Longrightarrow> \<not> isReady r"
  by (auto simp: status_defs)

lemma laidOut_Nil [simp]: "laidOut []"
  by (simp add: laidOut_def)

lemma rank_ge: "1 \<le> rank y \<longleftrightarrow> \<not> isActive y" "Suc 0 \<le> rank y \<longleftrightarrow> \<not> isActive y"
  "2 \<le> rank y \<longleftrightarrow> \<not> isActive y \<and> \<not> isReady y"
  by (auto simp: rank_def)

lemma laidOut_Cons:
  "laidOut (x # xs) \<longleftrightarrow> laidOut xs \<and>
     (isActive x \<or> (isReady x \<and> actives xs = []) \<or> (isWaiting x \<and> runnable xs = []))"
proof (cases "runStatus x")
  case LiveRunStatusActiveV1
  then have "isActive x" "rank x = 0" by (simp_all add: isActive_def rank_def)
  then show ?thesis by (auto simp: laidOut_def)
next
  case LiveRunStatusReadyV1
  then have "\<not> isActive x" "isReady x" "\<not> isWaiting x" "rank x = 1"
    by (simp_all add: status_defs rank_def)
  then show ?thesis by (auto simp: laidOut_def rank_ge filter_empty_conv)
next
  case LiveRunStatusWaitingV1
  then have "\<not> isActive x" "\<not> isReady x" "isWaiting x" "rank x = 2"
    by (simp_all add: status_defs rank_def)
  then show ?thesis by (auto simp: laidOut_def rank_ge runnable_def filter_empty_conv)
qed (auto simp: laidOut_def status_defs)

lemma runnable_Nil_conv: "runnable xs = [] \<longleftrightarrow> actives xs = [] \<and> readies xs = []"
  by (auto simp: runnable_def filter_empty_conv)

lemma laidOut_split: "laidOut rs \<Longrightarrow> rs = actives rs @ readies rs @ waitings rs"
proof (induction rs)
  case Nil
  show ?case by simp
next
  case (Cons x xs)
  then have split: "xs = actives xs @ readies xs @ waitings xs"
    by (simp add: laidOut_Cons)
  from Cons.prems consider "isActive x" | "isReady x" "actives xs = []" | "isWaiting x" "runnable xs = []"
    by (auto simp: laidOut_Cons)
  then show ?case
  proof cases
    case 1
    then have "\<not> isReady x" "\<not> isWaiting x" by (rule status_exclusive)+
    with 1 split show ?thesis by simp
  next
    case 2
    then have "\<not> isActive x" "\<not> isWaiting x" by (auto dest: status_exclusive)
    with 2 split show ?thesis by simp
  next
    case 3
    then have "\<not> isActive x" "\<not> isReady x" by (auto dest: status_exclusive)
    with 3 split show ?thesis by (simp add: runnable_Nil_conv)
  qed
qed

lemma laidOut_subseq: "subseq xs ys \<Longrightarrow> laidOut ys \<Longrightarrow> laidOut xs"
  unfolding laidOut_def using sorted_wrt_subseq [OF subseq_map] by (auto dest: list_emb_set)

lemma laidOut_append:
  "laidOut (xs @ ys) \<longleftrightarrow> laidOut xs \<and> laidOut ys \<and>
     (\<forall>x \<in> set xs. \<forall>y \<in> set ys. rank x \<le> rank y)"
  by (auto simp: laidOut_def sorted_append)

section \<open>The validator as a predicate\<close>

definition entriesOK :: "LiveRunV1 list \<Rightarrow> bool" where
  "entriesOK rs \<longleftrightarrow> (\<forall>r \<in> set rs. validateLiveQueueEntryV1 r = None) \<and> distinct (map runID rs)"

definition disciplined :: "LiveRunV1 list \<Rightarrow> bool" where
  "disciplined rs \<longleftrightarrow> laidOut rs \<and> length (readies rs) \<le> 1 \<and>
     (list_ex runExclusive (runnable rs) \<longrightarrow> length (runnable rs) = 1)"

text \<open>Work conservation: the first waiting entry really has to wait.\<close>

definition noIdle :: "LiveRunV1 list \<Rightarrow> bool" where
  "noIdle rs \<longleftrightarrow> (case waitings rs of
      [] \<Rightarrow> True
    | w # _ \<Rightarrow> runnable rs \<noteq> [] \<and>
        (readies rs \<noteq> [] \<or> list_ex runExclusive (runnable rs) \<or> runExclusive w))"

definition sessionsOK :: "ControlledSessionOwnershipV1 list \<Rightarrow> bool" where
  "sessionsOK ws \<longleftrightarrow> (\<forall>w \<in> set ws. validateControlledSessionOwnershipV1 w = None)
     \<and> sortedUnique owLiveRunID ws"

definition cleanupsOK :: "LiveRunContainerCleanupV1 list \<Rightarrow> bool" where
  "cleanupsOK cs \<longleftrightarrow> (\<forall>c \<in> set cs. validateLiveRunContainerCleanupV1 c = None)
     \<and> sortedUnique clContainer cs"

definition queueOK :: "LiveRunQueueV1 \<Rightarrow> bool" where
  "queueOK q \<longleftrightarrow> qSchema q = LiveRunQueueSchemaV1 \<and> sessionsOK (qControlledSessions q)
     \<and> cleanupsOK (qCleanup q)
     \<and> (\<exists>rs. qRuns q = Some rs \<and> entriesOK rs \<and> disciplined rs \<and> noIdle rs)"

lemma validateSessions_iff:
  "validateSessions i p ws = None \<longleftrightarrow>
     (\<forall>w \<in> set ws. validateControlledSessionOwnershipV1 w = None) \<and> increasing owLiveRunID p ws"
  by (induction i p ws rule: validateSessions.induct) (auto simp: not_le split: option.splits)

lemma validateCleanups_iff:
  "validateCleanups i p cs = None \<longleftrightarrow>
     (\<forall>c \<in> set cs. validateLiveRunContainerCleanupV1 c = None) \<and> increasing clContainer p cs"
  by (induction i p cs rule: validateCleanups.induct) (auto simp: not_le split: option.splits)

lemma validateWritablePaths_iff:
  "validateWritablePaths p ps = None \<longleftrightarrow> (\<forall>x \<in> set ps. safeRecoveryIdentity x) \<and> increasing (\<lambda>x. x) p ps"
  by (induction p ps rule: validateWritablePaths.induct) (auto simp: not_le split: option.splits)

lemma validEntry_status:
  "validateLiveQueueEntryV1 r = None \<Longrightarrow> isActive r \<or> isReady r \<or> isWaiting r"
  by (auto simp: validateLiveQueueEntryV1_def validateLiveRunV1_def status_defs split: if_splits)

lemma validEntry_pending_container:
  "validateLiveQueueEntryV1 r = None \<Longrightarrow> \<not> isActive r \<Longrightarrow> runContainer r = []"
  by (auto simp: validateLiveQueueEntryV1_def validateLiveRunV1_def status_defs split: if_splits)

definition tally :: "run_counts \<Rightarrow> LiveRunV1 list \<Rightarrow> run_counts" where
  "tally c rs = c\<lparr>waitingSeen := waitingSeen c \<or> waitings rs \<noteq> [],
     runnableCount := runnableCount c + length (runnable rs),
     runnableExclusive := runnableExclusive c \<or> list_ex runExclusive (runnable rs),
     readyCount := readyCount c + length (readies rs)\<rparr>"

lemma validateRuns_Inr:
  "validateRuns i seen c rs = Inr c' \<longleftrightarrow>
     entriesOK rs \<and> (\<forall>r \<in> set rs. runID r \<notin> set seen) \<and> laidOut rs
     \<and> (waitingSeen c \<longrightarrow> runnable rs = []) \<and> (readyCount c \<noteq> 0 \<longrightarrow> actives rs = [])
     \<and> c' = tally c rs"
proof (induction rs arbitrary: i seen c)
  case Nil
  show ?case by (auto simp: entriesOK_def runnable_def tally_def)
next
  case (Cons r rs)
  show ?case
  proof (cases "validateLiveQueueEntryV1 r = None \<and> runID r \<notin> set seen")
    case True
    then consider "isActive r" | "isReady r" | "isWaiting r"
      using validEntry_status by blast
    then show ?thesis
    proof cases
      case 1
      then have "runStatus r = LiveRunStatusActiveV1" "\<not> isReady r" "\<not> isWaiting r"
        by (auto simp: status_defs)
      with True 1 show ?thesis
        by (auto simp: Cons.IH entriesOK_def laidOut_Cons runnable_def tally_def image_iff)
    next
      case 2
      then have "runStatus r = LiveRunStatusReadyV1" "\<not> isActive r" "\<not> isWaiting r"
        by (auto simp: status_defs)
      with True 2 show ?thesis
        by (auto simp: Cons.IH entriesOK_def laidOut_Cons runnable_def tally_def image_iff)
    next
      case 3
      then have "runStatus r = LiveRunStatusWaitingV1" "\<not> isActive r" "\<not> isReady r"
        by (auto simp: status_defs)
      with True 3 show ?thesis
        by (auto simp: Cons.IH entriesOK_def laidOut_Cons runnable_def tally_def image_iff)
    qed
  next
    case False
    then show ?thesis
      by (auto simp: entriesOK_def split: option.splits)
  qed
qed

lemma firstWaiting_eq: "firstWaitingLiveRunV1 rs = (case waitings rs of [] \<Rightarrow> None | w # _ \<Rightarrow> Some w)"
  by (induction rs) (auto simp: isWaiting_def)

theorem ValidateLiveRunQueueV1_iff: "ValidateLiveRunQueueV1 q = None \<longleftrightarrow> queueOK q"
proof (cases "qRuns q")
  case None
  then show ?thesis by (simp add: ValidateLiveRunQueueV1_def queueOK_def)
next
  case (Some rs)
  have counts: "checkRunCounts (tally noCounts rs) rs = None \<longleftrightarrow>
      length (readies rs) \<le> 1 \<and> (list_ex runExclusive (runnable rs) \<longrightarrow> length (runnable rs) = 1)
      \<and> noIdle rs"
    by (auto simp: checkRunCounts_def tally_def noCounts_def firstWaiting_eq noIdle_def not_less
          split: list.splits)
  have runs: "(case validateRuns 0 [] noCounts rs of Inl e \<Rightarrow> Some e | Inr c \<Rightarrow> checkRunCounts c rs) = None
      \<longleftrightarrow> entriesOK rs \<and> disciplined rs \<and> noIdle rs"
  proof (cases "validateRuns 0 [] noCounts rs")
    case (Inl e)
    then have "\<nexists>c. validateRuns 0 [] noCounts rs = Inr c" by simp
    then have "\<not> (entriesOK rs \<and> laidOut rs)"
      by (simp add: validateRuns_Inr) (auto simp: noCounts_def)
    with Inl show ?thesis by (auto simp: disciplined_def)
  next
    case (Inr c)
    then have "entriesOK rs \<and> laidOut rs \<and> c = tally noCounts rs"
      by (simp add: validateRuns_Inr)
    with Inr show ?thesis by (simp add: counts disciplined_def)
  qed
  show ?thesis
    using Some runs
    by (auto simp: ValidateLiveRunQueueV1_def queueOK_def sessionsOK_def cleanupsOK_def
          validateSessions_iff validateCleanups_iff increasing_None)
qed

lemma queueOK_valid: "queueOK q \<Longrightarrow> ValidateLiveRunQueueV1 q = None"
  by (simp add: ValidateLiveRunQueueV1_iff)

section \<open>Changing statuses\<close>

lemma validEntry_setStatus:
  assumes "validateLiveQueueEntryV1 r = None"
    and "st = LiveRunStatusActiveV1 \<or> (st = LiveRunStatusReadyV1 \<or> st = LiveRunStatusWaitingV1) \<and> runContainer r = []"
  shows "validateLiveQueueEntryV1 (r\<lparr>runStatus := st\<rparr>) = None"
  using assms
  by (auto simp: validateLiveQueueEntryV1_def validateLiveRunV1_def split: if_splits)

lemma promoteScan_eq:
  "promoteScan n ex rd i rs =
     (let pre = takeWhile (\<lambda>r. \<not> isWaiting r) rs
      in (n + length pre, ex \<or> list_ex runExclusive pre, rd + length (readies pre),
          if waitings rs = [] then None else Some (i + length pre)))"
  by (induction n ex rd i rs rule: promoteScan.induct)
    (auto simp: isWaiting_def isReady_def Let_def)

lemma takeWhile_waiting:
  assumes "laidOut rs"
  shows "takeWhile (\<lambda>r. \<not> isWaiting r) rs = runnable rs"
  using assms
proof (induction rs)
  case Nil
  show ?case by (simp add: runnable_def)
next
  case (Cons x xs)
  then have "laidOut xs" and "isWaiting x \<Longrightarrow> runnable xs = []"
    and "isActive x \<or> isReady x \<or> isWaiting x"
    by (auto simp: laidOut_Cons dest: status_exclusive)
  with Cons.IH show ?case
    by (auto simp: runnable_def status_defs)
qed

lemma laidOut_runnable: "laidOut rs \<Longrightarrow> runnable rs = actives rs @ readies rs"
proof -
  assume "laidOut rs"
  then have "runnable rs = runnable (actives rs @ readies rs @ waitings rs)"
    using laidOut_split by metis
  also have "\<dots> = runnable (actives rs) @ runnable (readies rs) @ runnable (waitings rs)"
    by (simp add: runnable_def)
  also have "\<dots> = actives rs @ readies rs"
  proof -
    have "runnable (actives rs) = actives rs" "runnable (readies rs) = readies rs"
      unfolding runnable_def by (subst filter_id_conv, simp)+
    moreover have "runnable (waitings rs) = []"
      by (auto simp: runnable_def filter_empty_conv status_defs)
    ultimately show ?thesis by simp
  qed
  finally show ?thesis .
qed

text \<open>What promotion does to a laid-out list.\<close>

lemma promoteRuns_eq:
  assumes "laidOut rs"
  shows "promoteRuns rs =
     (case waitings rs of
        [] \<Rightarrow> rs
      | w # ws \<Rightarrow>
          if list_ex runExclusive (runnable rs) \<or> readies rs \<noteq> [] \<or> (runExclusive w \<and> runnable rs \<noteq> [])
          then rs else actives rs @ w\<lparr>runStatus := LiveRunStatusReadyV1\<rparr> # ws)"
proof (cases "waitings rs")
  case Nil
  then show ?thesis by (simp add: promoteRuns_def promoteScan_eq Let_def)
next
  case (Cons w ws)
  have split: "rs = runnable rs @ w # ws"
    using laidOut_split [OF assms] laidOut_runnable [OF assms] Cons by simp
  then have nth: "rs ! length (runnable rs) = w"
    by (metis nth_append_length)
  have upd: "rs[length (runnable rs) := w\<lparr>runStatus := LiveRunStatusReadyV1\<rparr>]
      = runnable rs @ w\<lparr>runStatus := LiveRunStatusReadyV1\<rparr> # ws"
    using split by (metis list_update_length)
  have "readies (runnable rs) = readies rs"
    by (simp add: runnable_def) (metis (mono_tags, lifting) filter_cong)
  then show ?thesis
    using Cons nth upd assms
    by (auto simp: promoteRuns_def promoteScan_eq Let_def takeWhile_waiting setStatus_def
          laidOut_runnable)
qed

section \<open>The abstract scheduler\<close>

text \<open>
  A scheduler keeps the jobs that run, a reservation for at most one job that may start next,
  and the jobs that wait, in order. A job is an entry without its status.
\<close>

definition job :: "LiveRunV1 \<Rightarrow> LiveRunV1" where
  "job r = r\<lparr>runStatus := LiveRunStatusEmpty\<rparr>"

record sched =
  scActive :: "LiveRunV1 list"
  scReady :: "LiveRunV1 list"
  scWaiting :: "LiveRunV1 list"

definition absRuns :: "LiveRunV1 list \<Rightarrow> sched" where
  "absRuns rs = \<lparr>scActive = map job (actives rs), scReady = map job (readies rs),
                 scWaiting = map job (waitings rs)\<rparr>"

definition absQueue :: "LiveRunQueueV1 \<Rightarrow> sched" where
  "absQueue q = absRuns (elems (qRuns q))"

definition schedPromote :: "sched \<Rightarrow> sched" where
  "schedPromote s =
     (case scWaiting s of
        [] \<Rightarrow> s
      | w # ws \<Rightarrow>
          if scReady s \<noteq> [] \<or> list_ex runExclusive (scActive s) \<or> (runExclusive w \<and> scActive s \<noteq> [])
          then s else s\<lparr>scReady := [w], scWaiting := ws\<rparr>)"

definition schedAdmit :: "LiveRunV1 \<Rightarrow> bool \<Rightarrow> sched \<Rightarrow> sched option" where
  "schedAdmit c wait s =
     (if scReady s = [] \<and> scWaiting s = [] \<and> \<not> list_ex runExclusive (scActive s)
         \<and> (runExclusive c \<longrightarrow> scActive s = [])
      then Some (s\<lparr>scActive := scActive s @ [c]\<rparr>)
      else if wait then Some (s\<lparr>scWaiting := scWaiting s @ [c]\<rparr>) else None)"

definition schedFilter :: "(LiveRunV1 \<Rightarrow> bool) \<Rightarrow> sched \<Rightarrow> sched" where
  "schedFilter p s = \<lparr>scActive = filter p (scActive s), scReady = filter p (scReady s),
                      scWaiting = filter p (scWaiting s)\<rparr>"

definition schedRemove :: "string \<Rightarrow> sched \<Rightarrow> sched" where
  "schedRemove i s = schedPromote (schedFilter (\<lambda>j. runID j \<noteq> i) s)"

definition schedActivate :: "sched \<Rightarrow> sched" where
  "schedActivate s = schedPromote (s\<lparr>scActive := scActive s @ scReady s, scReady := []\<rparr>)"

definition schedCancel :: "sched \<Rightarrow> sched" where
  "schedCancel s = schedPromote
     (s\<lparr>scReady := filter (\<lambda>j. runKind j = LiveRunKindControlV1) (scReady s),
        scWaiting := filter (\<lambda>j. runKind j = LiveRunKindControlV1) (scWaiting s)\<rparr>)"

lemma job_simps [simp]:
  "runID (job r) = runID r" "runExclusive (job r) = runExclusive r" "runKind (job r) = runKind r"
  "job (r\<lparr>runStatus := st\<rparr>) = job r"
  by (simp_all add: job_def)

lemma list_ex_job [simp]: "list_ex runExclusive (map job rs) = list_ex runExclusive rs"
  by (induction rs) simp_all

lemma laidOut_all_active: "\<forall>r \<in> set rs. isActive r \<Longrightarrow> laidOut rs"
  by (induction rs) (auto simp: laidOut_Cons)

lemma laidOut_all_waiting: "\<forall>r \<in> set rs. isWaiting r \<Longrightarrow> laidOut rs"
  by (induction rs) (auto simp: laidOut_Cons runnable_def filter_empty_conv status_defs)

lemma promoted_filters:
  assumes "laidOut rs" and "waitings rs = w # ws" and "readies rs = []"
  defines "rs' \<equiv> actives rs @ w\<lparr>runStatus := LiveRunStatusReadyV1\<rparr> # ws"
  shows "actives rs' = actives rs" "readies rs' = [w\<lparr>runStatus := LiveRunStatusReadyV1\<rparr>]"
    "waitings rs' = ws" "laidOut rs'"
    "runnable rs' = actives rs @ [w\<lparr>runStatus := LiveRunStatusReadyV1\<rparr>]"
proof -
  have ws: "\<forall>x \<in> set (w # ws). isWaiting x"
    using assms(2) filter_set [of isWaiting rs] by auto
  then have ws': "waitings ws = ws" "actives ws = []" "readies ws = []"
    by (auto simp: filter_id_conv filter_empty_conv status_defs)
  have new: "isReady (w\<lparr>runStatus := LiveRunStatusReadyV1\<rparr>)"
    "\<not> isActive (w\<lparr>runStatus := LiveRunStatusReadyV1\<rparr>)" "\<not> isWaiting (w\<lparr>runStatus := LiveRunStatusReadyV1\<rparr>)"
    by (simp_all add: status_defs)
  have old: "readies (actives rs) = []" "waitings (actives rs) = []"
    by (auto simp: filter_empty_conv status_defs)
  show "actives rs' = actives rs" "readies rs' = [w\<lparr>runStatus := LiveRunStatusReadyV1\<rparr>]"
    "waitings rs' = ws"
    using ws' new old by (simp_all add: rs'_def)
  show laid: "laidOut rs'"
    using ws new
    unfolding rs'_def laidOut_append
    by (auto simp: laidOut_all_active laidOut_all_waiting laidOut_Cons rank_def runnable_def
          filter_empty_conv) (auto simp: status_defs)
  show "runnable rs' = actives rs @ [w\<lparr>runStatus := LiveRunStatusReadyV1\<rparr>]"
    using laidOut_runnable [OF laid] ws' new old by (simp add: rs'_def)
qed

section \<open>Promotion keeps the discipline\<close>

lemma promote_abs:
  assumes "laidOut rs"
  shows "absRuns (promoteRuns rs) = schedPromote (absRuns rs)"
proof (cases "waitings rs")
  case Nil
  then show ?thesis using assms by (simp add: promoteRuns_eq absRuns_def schedPromote_def)
next
  case (Cons w ws)
  then show ?thesis
    using assms promoted_filters [OF assms Cons]
    by (auto simp: promoteRuns_eq absRuns_def schedPromote_def laidOut_runnable)
qed

lemma promote_ids:
  assumes "laidOut rs"
  shows "map runID (promoteRuns rs) = map runID rs"
proof (cases "waitings rs")
  case Nil
  then show ?thesis using assms by (simp add: promoteRuns_eq)
next
  case (Cons w ws)
  have "map runID rs = map runID (actives rs @ readies rs @ w # ws)"
    using laidOut_split [OF assms] Cons by simp
  then show ?thesis
    using assms Cons by (auto simp: promoteRuns_eq)
qed

lemma promote_disciplined:
  assumes "disciplined rs"
  shows "disciplined (promoteRuns rs) \<and> noIdle (promoteRuns rs)"
proof (cases "waitings rs")
  case Nil
  then show ?thesis using assms by (simp add: disciplined_def noIdle_def promoteRuns_eq)
next
  case (Cons w ws)
  have laid: "laidOut rs" using assms by (simp add: disciplined_def)
  show ?thesis
  proof (cases "list_ex runExclusive (runnable rs) \<or> readies rs \<noteq> [] \<or> (runExclusive w \<and> runnable rs \<noteq> [])")
    case True
    then have "runnable rs \<noteq> []"
      using laidOut_runnable [OF laid] by auto
    with True Cons assms laid show ?thesis
      by (auto simp: promoteRuns_eq noIdle_def)
  next
    case False
    then have "readies rs = []" and "\<not> list_ex runExclusive (actives rs)"
      and "runExclusive w \<Longrightarrow> actives rs = []"
      using laidOut_runnable [OF laid] by auto
    with False Cons laid promoted_filters [OF laid Cons] show ?thesis
      by (auto simp: promoteRuns_eq disciplined_def noIdle_def split: list.splits)
  qed
qed

lemma promote_entries:
  assumes "laidOut rs" and "entriesOK rs"
  shows "entriesOK (promoteRuns rs)"
proof -
  have "validateLiveQueueEntryV1 r = None" if "r \<in> set (promoteRuns rs)" for r
  proof (cases "waitings rs")
    case Nil
    then show ?thesis using assms that by (simp add: promoteRuns_eq entriesOK_def)
  next
    case (Cons w ws)
    then have mem: "w \<in> set rs" "isWaiting w" "set ws \<subseteq> set rs"
      using filter_set [of isWaiting rs] by auto
    then have "validateLiveQueueEntryV1 (w\<lparr>runStatus := LiveRunStatusReadyV1\<rparr>) = None"
      using assms(2) validEntry_pending_container [of w]
      by (intro validEntry_setStatus) (auto simp: entriesOK_def dest: status_exclusive)
    then show ?thesis
      using that assms mem Cons by (auto simp: promoteRuns_eq entriesOK_def split: if_splits)
  qed
  then show ?thesis
    using assms promote_ids [OF assms(1)] by (simp add: entriesOK_def)
qed

lemma disciplined_subseq:
  assumes "subseq xs ys" and "disciplined ys"
  shows "disciplined xs"
proof -
  have sub: "subseq (readies xs) (readies ys)" "subseq (runnable xs) (runnable ys)"
    using assms(1) by (auto simp: runnable_def intro: subseq_filter)
  then have len: "length (readies xs) \<le> length (readies ys)" "length (runnable xs) \<le> length (runnable ys)"
    and mem: "set (runnable xs) \<subseteq> set (runnable ys)"
    by (auto dest: list_emb_length list_emb_set)
  have "length (runnable xs) = 1" if "list_ex runExclusive (runnable xs)"
  proof -
    have "list_ex runExclusive (runnable ys)"
      using that mem by (auto simp: list_ex_iff)
    then have "length (runnable ys) = 1"
      using assms(2) by (simp add: disciplined_def)
    moreover have "runnable xs \<noteq> []" using that by auto
    then have "length (runnable xs) \<noteq> 0" by simp
    ultimately show ?thesis using len by linarith
  qed
  then show ?thesis
    using assms len laidOut_subseq [OF assms(1)] by (auto simp: disciplined_def)
qed

lemma entriesOK_subseq: "subseq xs ys \<Longrightarrow> entriesOK ys \<Longrightarrow> entriesOK xs"
  by (auto simp: entriesOK_def dest: list_emb_set distinct_map_subseq)

text \<open>Dropping entries and promoting is safe whatever entries are dropped.\<close>

lemma queueOK_drop_promote:
  assumes "queueOK q" and "qRuns q = Some rs" and "subseq rs' rs"
  shows "queueOK (promoteLiveRunsV1 (q\<lparr>qRuns := Some rs'\<rparr>))"
proof -
  have "entriesOK rs'" "disciplined rs'"
    using assms entriesOK_subseq disciplined_subseq by (auto simp: queueOK_def)
  then show ?thesis
    using assms promote_disciplined promote_entries
    by (auto simp: queueOK_def promoteLiveRunsV1_def disciplined_def)
qed

lemma queueOK_same_runs:
  "queueOK q \<Longrightarrow> qRuns q = Some rs \<Longrightarrow> q\<lparr>qRuns := Some rs\<rparr> = q"
  by simp

lemma clone_OK: "queueOK q \<Longrightarrow> cloneLiveRunQueueV1 q = q"
  by (auto simp: queueOK_def cloneLiveRunQueueV1_def)

section \<open>The operations refine the scheduler\<close>

subsection \<open>Admission\<close>

lemma canStartLoop_eq:
  "canStartLoop n rs =
     (if list_all (\<lambda>r. isActive r \<and> \<not> runExclusive r) rs then Some (n + length rs) else None)"
  by (induction n rs rule: canStartLoop.induct) (auto simp: isActive_def)

lemma laidOut_all_active_iff:
  "laidOut rs \<Longrightarrow> list_all isActive rs \<longleftrightarrow> readies rs = [] \<and> waitings rs = []"
  using laidOut_split [of rs] by (auto simp: list_all_iff laidOut_def filter_empty_conv status_defs)

lemma canStart_iff:
  assumes "laidOut rs" and "qRuns q = Some rs"
  shows "liveRunCanStartNowV1 q c \<longleftrightarrow>
     readies rs = [] \<and> waitings rs = [] \<and> \<not> list_ex runExclusive (actives rs)
     \<and> (runExclusive c \<longrightarrow> actives rs = [])"
proof -
  have "list_all (\<lambda>r. isActive r \<and> \<not> runExclusive r) rs \<longleftrightarrow>
      readies rs = [] \<and> waitings rs = [] \<and> \<not> list_ex runExclusive (actives rs)"
    using laidOut_all_active_iff [OF assms(1)] by (auto simp: list_all_iff list_ex_iff)
  moreover have "rs = actives rs" if "readies rs = []" "waitings rs = []"
    using laidOut_split [OF assms(1)] that by simp
  ultimately show ?thesis
    using assms(2) by (auto simp: liveRunCanStartNowV1_def canStartLoop_eq)
qed

lemma entriesOK_snoc:
  "entriesOK rs \<Longrightarrow> validateLiveQueueEntryV1 c = None \<Longrightarrow> runID c \<notin> runID ` set rs \<Longrightarrow> entriesOK (rs @ [c])"
  by (auto simp: entriesOK_def)

lemma admit_now:
  assumes "queueOK q" "qRuns q = Some rs" "validateLiveQueueEntryV1 c = None"
    and "runID c \<notin> runID ` set rs" "liveRunCanStartNowV1 q c"
  defines "rs' \<equiv> rs @ [c\<lparr>runStatus := LiveRunStatusActiveV1\<rparr>]"
  shows "queueOK (q\<lparr>qRuns := Some rs'\<rparr>)"
    and "schedAdmit (job c) wait (absRuns rs) = Some (absRuns rs')"
proof -
  let ?a = "c\<lparr>runStatus := LiveRunStatusActiveV1\<rparr>"
  have ok: "entriesOK rs" "disciplined rs" "laidOut rs"
    using assms(1,2) by (auto simp: queueOK_def disciplined_def)
  note start = canStart_iff [OF ok(3) assms(2), THEN iffD1, OF assms(5)]
  then have rs: "rs = actives rs"
    using laidOut_split [OF ok(3)] by simp
  have a: "isActive ?a" "\<not> isReady ?a" "\<not> isWaiting ?a" by (simp_all add: status_defs)
  then have filters: "actives rs' = rs'" "readies rs' = []" "waitings rs' = []"
    using start rs by (simp_all add: rs'_def)
  then have laid: "laidOut rs'"
    by (intro laidOut_all_active) (metis filter_id_conv)
  have "disciplined rs'"
    using laid filters start a rs laidOut_runnable [OF laid] by (auto simp: disciplined_def rs'_def)
  moreover have "entriesOK rs'"
    unfolding rs'_def using assms(3,4) ok(1) by (intro entriesOK_snoc validEntry_setStatus) auto
  ultimately show "queueOK (q\<lparr>qRuns := Some rs'\<rparr>)"
    using assms(1) filters by (simp add: queueOK_def noIdle_def)
  show "schedAdmit (job c) wait (absRuns rs) = Some (absRuns rs')"
    using start filters rs by (simp add: schedAdmit_def absRuns_def rs'_def)
qed

lemma admit_later:
  assumes "queueOK q" "qRuns q = Some rs" "validateLiveQueueEntryV1 c = None" "isWaiting c"
    and "runID c \<notin> runID ` set rs" "\<not> liveRunCanStartNowV1 q c"
  defines "rs' \<equiv> rs @ [c]"
  shows "queueOK (q\<lparr>qRuns := Some rs'\<rparr>)"
    and "schedAdmit (job c) True (absRuns rs) = Some (absRuns rs')"
    and "schedAdmit (job c) False (absRuns rs) = None"
proof -
  have ok: "entriesOK rs" "disciplined rs" "laidOut rs" "noIdle rs"
    using assms(1,2) by (auto simp: queueOK_def disciplined_def)
  have busy: "\<not> (readies rs = [] \<and> waitings rs = [] \<and> \<not> list_ex runExclusive (actives rs)
      \<and> (runExclusive c \<longrightarrow> actives rs = []))"
    using canStart_iff [OF ok(3) assms(2)] assms(6) by simp
  have c: "\<not> isActive c" "\<not> isReady c" using assms(4) by (auto dest: status_exclusive)
  have filters: "actives rs' = actives rs" "readies rs' = readies rs" "waitings rs' = waitings rs @ [c]"
    "runnable rs' = runnable rs"
    using c assms(4) by (simp_all add: rs'_def runnable_def)
  have laid: "laidOut rs'"
    using ok(3) assms(4) c by (auto simp: rs'_def laidOut_append laidOut_Cons runnable_def rank_def)
  then have "disciplined rs'"
    using ok(2) filters by (simp add: disciplined_def)
  moreover have "noIdle rs'"
  proof (cases "waitings rs")
    case Nil
    then show ?thesis
      using busy filters laidOut_runnable [OF ok(3)] by (auto simp: noIdle_def)
  next
    case (Cons w ws)
    then show ?thesis using ok(4) filters by (simp add: noIdle_def)
  qed
  moreover have "entriesOK rs'"
    unfolding rs'_def using assms(3,5) ok(1) by (intro entriesOK_snoc)
  ultimately show "queueOK (q\<lparr>qRuns := Some rs'\<rparr>)"
    using assms(1) by (simp add: queueOK_def)
  show "schedAdmit (job c) True (absRuns rs) = Some (absRuns rs')"
    "schedAdmit (job c) False (absRuns rs) = None"
    using busy filters by (auto simp: schedAdmit_def absRuns_def)
qed

lemma admitEntry_cases:
  assumes "queueOK q" "qRuns q = Some rs" "validateLiveQueueEntryV1 c = None" "isWaiting c"
    and fresh: "runID c \<notin> runID ` set rs"
  obtains (start) q' where "admitLiveQueueEntryV1 q c wait = Inr (q', LiveRunStatusActiveV1)" "queueOK q'"
      "q' = q\<lparr>qRuns := Some (rs @ [c\<lparr>runStatus := LiveRunStatusActiveV1\<rparr>])\<rparr>"
      "schedAdmit (job c) wait (absQueue q) = Some (absQueue q')"
  | (queued) q' where "wait" "admitLiveQueueEntryV1 q c wait = Inr (q', LiveRunStatusWaitingV1)" "queueOK q'"
      "q' = q\<lparr>qRuns := Some (rs @ [c])\<rparr>" "schedAdmit (job c) wait (absQueue q) = Some (absQueue q')"
  | (conflict) "\<not> wait" "admitLiveQueueEntryV1 q c wait = Inl LiveRunConflict"
      "schedAdmit (job c) wait (absQueue q) = None"
proof -
  have no_dup: "\<not> list_ex (\<lambda>e. runID e = runID c) (elems (qRuns q))"
    using fresh assms(2) by (auto simp: list_ex_iff image_iff)
  note admit = admitLiveQueueEntryV1_def clone_OK [OF assms(1)]
  show thesis
  proof (cases "liveRunCanStartNowV1 q c")
    case True
    then show ?thesis
      using admit_now [OF assms(1-3) fresh True] no_dup assms(2)
      by (intro start [of "q\<lparr>qRuns := Some (rs @ [c\<lparr>runStatus := LiveRunStatusActiveV1\<rparr>])\<rparr>"]) (simp_all add: admit absQueue_def)
  next
    case False
    have st: "runStatus c = LiveRunStatusWaitingV1" using assms(4) by (simp add: isWaiting_def)
    show ?thesis
    proof (cases wait)
      case True
      then show ?thesis
        using admit_later [OF assms(1-4) fresh False] no_dup assms(2) False st
        by (intro queued [of "q\<lparr>qRuns := Some (rs @ [c])\<rparr>"]) (simp_all add: admit absQueue_def)
    next
      case no_wait: False
      then show ?thesis
        using admit_later [OF assms(1-4) fresh False] no_dup assms(2) False
        by (intro conflict) (simp_all add: admit absQueue_def)
    qed
  qed
qed

lemma admitEntry_repeated:
  assumes "qRuns q = Some rs" and "runID c \<in> runID ` set rs"
  shows "admitLiveQueueEntryV1 q c wait = Inl (IDExists (runID c))"
  using assms by (auto simp: admitLiveQueueEntryV1_def list_ex_iff)

subsection \<open>Removal, activation, cancellation\<close>

lemma removeFirst_eq:
  assumes "distinct (map runID rs)"
  shows "removeFirst (\<lambda>e. runID e = i \<and> K e) rs =
     (if \<exists>e \<in> set rs. runID e = i \<and> K e then Some (filter (\<lambda>e. runID e \<noteq> i) rs) else None)"
  using assms
proof (induction rs)
  case Nil
  show ?case by simp
next
  case (Cons x xs)
  have rest: "filter (\<lambda>e. runID e \<noteq> runID x) xs = xs"
    using Cons.prems by (auto simp: filter_id_conv image_iff)
  show ?case
    using Cons rest by (auto simp: filter_id_conv)
qed

lemma absRuns_filter:
  assumes "\<And>r. P (job r) = P r"
  shows "absRuns (filter P rs) = schedFilter P (absRuns rs)"
proof -
  have "map job (filter Q (filter P rs)) = filter P (map job (filter Q rs))" for Q
    by (induction rs) (auto simp: assms)
  then show ?thesis by (simp add: absRuns_def schedFilter_def)
qed

lemma remove_result:
  assumes "queueOK q" "qRuns q = Some rs"
  shows "removeLiveQueueEntryV1 q i kinds =
     (if \<exists>e \<in> set rs. runID e = i \<and> runKind e \<in> set kinds
      then (promoteLiveRunsV1 (q\<lparr>qRuns := Some (filter (\<lambda>e. runID e \<noteq> i) rs)\<rparr>), True) else (q, False))"
proof -
  have "distinct (map runID rs)"
    using assms by (auto simp: queueOK_def entriesOK_def)
  from removeFirst_eq [OF this, of i "\<lambda>e. runKind e \<in> set kinds"] show ?thesis
    using assms by (auto simp: removeLiveQueueEntryV1_def clone_OK)
qed

lemma drop_promote_abs:
  assumes "queueOK q" "qRuns q = Some rs" "subseq rs' rs"
  shows "absQueue (promoteLiveRunsV1 (q\<lparr>qRuns := Some rs'\<rparr>)) = schedPromote (absRuns rs')"
proof -
  have "laidOut rs'"
    using assms laidOut_subseq by (auto simp: queueOK_def disciplined_def)
  then show ?thesis
    by (simp add: absQueue_def promoteLiveRunsV1_def promote_abs)
qed

lemma remove_OK:
  assumes "queueOK q" and "removeLiveQueueEntryV1 q i kinds = (q', removed)"
  shows "queueOK q'" "removed \<Longrightarrow> absQueue q' = schedRemove i (absQueue q)" "\<not> removed \<Longrightarrow> q' = q"
proof -
  obtain rs where rs: "qRuns q = Some rs" using assms(1) by (auto simp: queueOK_def)
  note result = remove_result [OF assms(1) rs, of i kinds] assms(2)
  note drop = queueOK_drop_promote [OF assms(1) rs subseq_filter_keep]
    drop_promote_abs [OF assms(1) rs subseq_filter_keep]
  show "queueOK q'" using result drop assms(1) by (auto split: if_splits)
  show "absQueue q' = schedRemove i (absQueue q)" if removed
    using that result drop rs
    by (auto simp: schedRemove_def absQueue_def absRuns_filter split: if_splits)
  show "q' = q" if "\<not> removed" using that result by (auto split: if_splits)
qed

lemma findIndex_Some:
  "findIndex p i rs = Some k \<Longrightarrow> i \<le> k \<and> k < i + length rs \<and> p (rs ! (k - i))"
proof (induction rs arbitrary: i)
  case Nil
  then show ?case by simp
next
  case (Cons r rs)
  show ?case
  proof (cases "p r")
    case True
    with Cons.prems show ?thesis by simp
  next
    case False
    with Cons.prems have "findIndex p (Suc i) rs = Some k" by simp
    then have "Suc i \<le> k \<and> k < Suc i + length rs \<and> p (rs ! (k - Suc i))"
      by (rule Cons.IH)
    then show ?thesis by (auto simp: nth_Cons')
  qed
qed

lemma findIndex_None: "findIndex p i rs = None \<longleftrightarrow> (\<forall>r \<in> set rs. \<not> p r)"
  by (induction rs arbitrary: i) auto

lemma ready_position:
  assumes "laidOut rs" and "length (readies rs) \<le> 1" and "k < length rs" and "isReady (rs ! k)"
  shows "k = length (actives rs)" and "rs = actives rs @ rs ! k # waitings rs" and "readies rs = [rs ! k]"
proof -
  have "rs ! k \<in> set (readies rs)" using assms(3,4) by simp
  with assms(2) obtain r where r: "readies rs = [r]"
    by (cases "readies rs") auto
  have split: "rs = actives rs @ r # waitings rs"
    using laidOut_split [OF assms(1)] r by simp
  have not_before: "\<not> k < length (actives rs)"
  proof
    assume "k < length (actives rs)"
    then have "rs ! k \<in> set (actives rs)"
      using split by (metis nth_append nth_mem)
    then show False using assms(4) by (auto simp: status_defs)
  qed
  have not_after: "\<not> k > length (actives rs)"
  proof
    assume k: "k > length (actives rs)"
    then have "rs ! k = waitings rs ! (k - length (actives rs) - 1)"
      using split by (metis less_imp_not_less nth_Cons_pos nth_append zero_less_diff)
    moreover have "k - length (actives rs) - 1 < length (waitings rs)"
      using k assms(3) arg_cong [OF split, of length] by simp
    ultimately have "rs ! k \<in> set (waitings rs)" by (metis nth_mem)
    then show False using assms(4) by (auto simp: status_defs)
  qed
  show k: "k = length (actives rs)" using not_before not_after by simp
  then have "rs ! k = r" using split by (metis nth_append_length)
  then show "rs = actives rs @ rs ! k # waitings rs" "readies rs = [rs ! k]"
    using split r by simp_all
qed

lemma activate_runs:
  assumes "disciplined rs" "entriesOK rs" "k < length rs" "isReady (rs ! k)"
  defines "rs' \<equiv> setStatus LiveRunStatusActiveV1 k rs"
  shows "disciplined rs'" "entriesOK rs'"
    "absRuns rs' = (absRuns rs)\<lparr>scActive := scActive (absRuns rs) @ scReady (absRuns rs), scReady := []\<rparr>"
proof -
  let ?a = "(rs ! k)\<lparr>runStatus := LiveRunStatusActiveV1\<rparr>"
  have laid: "laidOut rs" and one: "length (readies rs) \<le> 1"
    using assms(1) by (auto simp: disciplined_def)
  note pos = ready_position [OF laid one assms(3,4)]
  have rs': "rs' = actives rs @ ?a # waitings rs"
    unfolding rs'_def setStatus_def using pos by (metis list_update_length)
  have a: "isActive ?a" "\<not> isReady ?a" "\<not> isWaiting ?a" by (simp_all add: status_defs)
  have old: "readies (actives rs) = []" "waitings (actives rs) = []" "actives (waitings rs) = []"
    "readies (waitings rs) = []"
    by (auto simp: filter_empty_conv status_defs)
  have filters: "actives rs' = actives rs @ [?a]" "readies rs' = []" "waitings rs' = waitings rs"
    using a old by (simp_all add: rs')
  have laid': "laidOut rs'"
    unfolding rs' laidOut_append
    using a by (auto simp: laidOut_all_active laidOut_all_waiting laidOut_Cons rank_def)
  have "list_ex runExclusive (runnable rs') = list_ex runExclusive (runnable rs)"
    "length (runnable rs') = length (runnable rs)"
    using laidOut_runnable [OF laid] laidOut_runnable [OF laid'] filters pos(3) by simp_all
  then show "disciplined rs'" using assms(1) laid' filters by (simp add: disciplined_def)
  have "map runID rs' = map runID rs"
    by (simp add: rs'_def setStatus_def map_update list_update_id)
      (metis list_update_id map_update)
  moreover have "validateLiveQueueEntryV1 ?a = None"
    using assms(2,3) by (intro validEntry_setStatus) (auto simp: entriesOK_def)
  ultimately show "entriesOK rs'"
    using assms(2,3) by (auto simp: entriesOK_def rs')
  show "absRuns rs' = (absRuns rs)\<lparr>scActive := scActive (absRuns rs) @ scReady (absRuns rs), scReady := []\<rparr>"
    using filters pos(3) by (simp add: absRuns_def)
qed

lemma eq_key_imp_eq_value_run:
  "distinct (map runID rs) \<Longrightarrow> x \<in> set rs \<Longrightarrow> y \<in> set rs \<Longrightarrow> runID x = runID y \<Longrightarrow> x = y"
  by (auto simp: distinct_map inj_on_def)

lemma activate_result:
  assumes "queueOK q" "ValidateLiveRunIDV1 i = None"
    and "r \<in> set (elems (qRuns q))" "runID r = i" "runKind r \<noteq> LiveRunKindControlV1" "isReady r"
  obtains q' where "ActivateReadyLiveRunV1 q i = Inr q'" "queueOK q'" "absQueue q' = schedActivate (absQueue q)"
proof -
  obtain rs where rs: "qRuns q = Some rs" "entriesOK rs" "disciplined rs"
    using assms(1) by (auto simp: queueOK_def)
  let ?p = "\<lambda>r. runID r = i \<and> runKind r \<noteq> LiveRunKindControlV1"
  obtain k where k: "findIndex ?p 0 rs = Some k"
    using assms(3-5) rs findIndex_None [of ?p 0 rs] by (cases "findIndex ?p 0 rs") auto
  then have k': "k < length rs" "runID (rs ! k) = i"
    using findIndex_Some [of ?p 0 rs k] by auto
  moreover have "distinct (map runID rs)" using rs by (simp add: entriesOK_def)
  ultimately have ready: "isReady (rs ! k)"
    using assms(3,4,6) rs eq_key_imp_eq_value_run [of rs r "rs ! k"] by simp
  let ?rs' = "setStatus LiveRunStatusActiveV1 k rs"
  let ?q' = "promoteLiveRunsV1 (q\<lparr>qRuns := Some ?rs'\<rparr>)"
  note act = activate_runs [OF rs(3,2) k'(1) ready]
  have "laidOut ?rs'" using act by (simp add: disciplined_def)
  then have ok: "queueOK ?q'" and abs: "absQueue ?q' = schedActivate (absQueue q)"
    using assms(1) rs act promote_disciplined promote_entries
    by (auto simp: queueOK_def promoteLiveRunsV1_def absQueue_def promote_abs schedActivate_def)
  have "ActivateReadyLiveRunV1 q i = Inr ?q'"
    using assms(1,2) k ready ok rs
    by (simp add: ActivateReadyLiveRunV1_def queueOK_valid clone_OK Let_def isReady_def)
  with ok abs that show thesis by blast
qed

lemma absRuns_cancel:
  "absRuns (filter (\<lambda>e. \<not> (runKind e \<noteq> LiveRunKindControlV1 \<and> runStatus e \<noteq> LiveRunStatusActiveV1)) rs)
     = (absRuns rs)\<lparr>scReady := filter (\<lambda>j. runKind j = LiveRunKindControlV1) (scReady (absRuns rs)),
                    scWaiting := filter (\<lambda>j. runKind j = LiveRunKindControlV1) (scWaiting (absRuns rs))\<rparr>"
  by (induction rs) (auto simp: absRuns_def status_defs)

lemma cancel_result:
  assumes "queueOK q"
  obtains q' canceled where "CancelWaitingLiveRunsV1 q = Inr (q', canceled)" "queueOK q'"
    "absQueue q' = schedCancel (absQueue q)"
    "canceled = filter (\<lambda>e. runKind e \<noteq> LiveRunKindControlV1 \<and> runStatus e \<noteq> LiveRunStatusActiveV1) (elems (qRuns q))"
proof -
  obtain rs where rs: "qRuns q = Some rs" using assms by (auto simp: queueOK_def)
  let ?keep = "filter (\<lambda>e. \<not> (runKind e \<noteq> LiveRunKindControlV1 \<and> runStatus e \<noteq> LiveRunStatusActiveV1)) rs"
  let ?q' = "promoteLiveRunsV1 (q\<lparr>qRuns := Some ?keep\<rparr>)"
  have ok: "queueOK ?q'" and "absQueue ?q' = schedPromote (absRuns ?keep)"
    using queueOK_drop_promote [OF assms rs subseq_filter_keep]
      drop_promote_abs [OF assms rs subseq_filter_keep] by auto
  then have "absQueue ?q' = schedCancel (absQueue q)"
    using rs by (simp only: absRuns_cancel schedCancel_def absQueue_def elems_simps)
  moreover have "CancelWaitingLiveRunsV1 q = Inr (?q',
      filter (\<lambda>e. runKind e \<noteq> LiveRunKindControlV1 \<and> runStatus e \<noteq> LiveRunStatusActiveV1) rs)"
    using assms rs ok by (simp add: CancelWaitingLiveRunsV1_def queueOK_valid clone_OK Let_def)
  ultimately show thesis using ok that rs by simp
qed

end
