(* ===== verification/LiveRunStore.thy ===== *)
theory LiveRunStore
  imports LiveRunSpec
begin

text \<open>
  The durable side of the live-run queue: the methods of the operation lock in
  \<open>src/internal/deploy/live_run_queue_file.go\<close>, the guards they call in
  \<open>terminal_removal_guard.go\<close>, and the ownership leases of \<open>control_lease.go\<close>.

  The state is one deployment directory as the held lock sees it: the decoded content of
  \<open>live-runs.json\<close> (absent or present), the lease files beside it with what an attempt to lock
  them would find, the terminal-removal guard of the state file, and the retirement state
  bound to the lock. Reading the queue validates it and writing validates it again, as the
  encoder and decoder do; the byte format itself, and with it the comparison of the file with its
  canonical bytes, is not modelled. The file system is reduced to two switches: a read that fails
  (whatever the cause) and a write that fails and leaves the old file; a replacement whose
  directory sync fails after the rename is not among the outcomes. \<open>lkBootSession\<close> is the boot
  session ID as read once, trimmed and cached. An operation is a function
  from the state to a new state and a result, so that a failure after a lease was removed
  keeps that effect.
\<close>

section \<open>State and errors\<close>

datatype lease = LeaseHeld | LeaseFree | LeaseIrregular

record operation_lock =
  lkHeld :: bool
  lkGuard :: "string option"
  lkRetirementState :: string
  lkDirectory :: string
  lkBootSession :: "string option"
  lkQueueFile :: "LiveRunQueueV1 option"
  lkLeases :: "(string \<times> lease) list"
  lkReadFails :: bool
  lkWriteFails :: bool

datatype store_error =
    LockNil | LockNotHeld | TerminalStateUnreadable | TerminalGuarded | TerminalBinding
  | QueueUnreadable | QueueFileInvalid queue_error | QueueRejected queue_error | QueueWriteFailed
  | BootSessionUnavailable | BootSessionBad text_error
  | StoreID id_error | StoreContainerUnsafe | StoreQueue queue_error
  | ContainerUnclaimed string | ContainerNamed string | NotOutstanding string
  | SessionNotActiveShell string | SessionHasContainer string | SessionInvalid ownership_error
  | SessionDirectory string | SessionGeneration string | SessionPlanChanged | SessionIDChanged
  | SessionMergeInvalid ownership_error | MarkerNotReady string | LeaseNotRegular string

type_synonym 'a op = "operation_lock \<Rightarrow> operation_lock \<times> (store_error + 'a)"

definition ret :: "'a \<Rightarrow> 'a op" where
  "ret x l = (l, Inr x)"

definition raise :: "store_error \<Rightarrow> 'a op" where
  "raise e l = (l, Inl e)"

definition bindOp :: "'a op \<Rightarrow> ('a \<Rightarrow> 'b op) \<Rightarrow> 'b op" where
  "bindOp f g l = (case f l of (l', Inl e) \<Rightarrow> (l', Inl e) | (l', Inr x) \<Rightarrow> g x l')"

definition lift :: "('e \<Rightarrow> store_error) \<Rightarrow> 'e + 'a \<Rightarrow> 'a op" where
  "lift w r l = (case r of Inl e \<Rightarrow> (l, Inl (w e)) | Inr x \<Rightarrow> (l, Inr x))"

definition need :: "('e \<Rightarrow> store_error) \<Rightarrow> 'e check \<Rightarrow> unit op" where
  "need w c l = (case c of Some e \<Rightarrow> (l, Inl (w e)) | None \<Rightarrow> (l, Inr ()))"

text \<open>Every method first rejects a nil receiver.\<close>

fun onLock :: "'a op \<Rightarrow> operation_lock option \<Rightarrow> operation_lock option \<times> (store_error + 'a)" where
  "onLock f None = (None, Inl LockNil)"
| "onLock f (Some l) = (case f l of (l', r) \<Rightarrow> (Some l', r))"

section \<open>Guards\<close>

definition requireHeldLocked :: "unit op" where
  "requireHeldLocked l = (if \<not> lkHeld l then (l, Inl LockNotHeld) else (l, Inr ()))"

text \<open>
  \<open>readTerminalStateV1\<close> yields the guarded state's bytes or nothing; \<open>lkGuard\<close> is \<^const>\<open>None\<close>
  when the state file cannot be read as an authority.
\<close>

definition terminalStateLocked :: "string op" where
  "terminalStateLocked = bindOp requireHeldLocked (\<lambda>_ l.
     case lkGuard l of None \<Rightarrow> (l, Inl TerminalStateUnreadable) | Some g \<Rightarrow> (l, Inr g))"

definition requireWritableLocked :: "unit op" where
  "requireWritableLocked = bindOp terminalStateLocked (\<lambda>g l.
     if length g \<noteq> 0 \<or> length (lkRetirementState l) \<noteq> 0 then (l, Inl TerminalGuarded) else (l, Inr ()))"

definition requireRetirementLocked :: "unit op" where
  "requireRetirementLocked = bindOp terminalStateLocked (\<lambda>g l.
     if length g = 0 \<and> length (lkRetirementState l) = 0 then (l, Inr ())
     else if length g = 0 \<or> g \<noteq> lkRetirementState l then (l, Inl TerminalBinding)
     else (l, Inr ()))"

section \<open>Reading and committing the queue\<close>

definition readLiveRunQueuePathV1 :: "(LiveRunQueueV1 \<times> bool) op" where
  "readLiveRunQueuePathV1 l =
     (case lkQueueFile l of
        None \<Rightarrow> (l, Inr (NewLiveRunQueueV1, False))
      | Some q \<Rightarrow>
          if lkReadFails l then (l, Inl QueueUnreadable)
          else case ValidateLiveRunQueueV1 q of
              Some e \<Rightarrow> (l, Inl (QueueFileInvalid e))
            | None \<Rightarrow> (l, Inr (q, True)))"

definition commitLiveRunQueuePathV1 :: "LiveRunQueueV1 \<Rightarrow> unit op" where
  "commitLiveRunQueuePathV1 q l =
     (case ValidateLiveRunQueueV1 q of
        Some e \<Rightarrow> (l, Inl (QueueRejected e))
      | None \<Rightarrow>
          if elems (qRuns q) = [] \<and> qControlledSessions q = [] \<and> qCleanup q = [] then
            (case lkQueueFile l of
               None \<Rightarrow> (l, Inr ())
             | Some _ \<Rightarrow> if lkWriteFails l then (l, Inl QueueWriteFailed)
                         else (l\<lparr>lkQueueFile := None\<rparr>, Inr ()))
          else if lkWriteFails l then (l, Inl QueueWriteFailed)
          else (l\<lparr>lkQueueFile := Some q\<rparr>, Inr ()))"

definition liveRunQueuePathLockedV1 :: "unit op" where
  "liveRunQueuePathLockedV1 = requireHeldLocked"

definition readQueue :: "LiveRunQueueV1 op" where
  "readQueue = bindOp liveRunQueuePathLockedV1 (\<lambda>_. bindOp readLiveRunQueuePathV1 (\<lambda>(q, _). ret q))"

definition ReadLiveRunQueueV1 :: "(LiveRunQueueV1 \<times> bool) op" where
  "ReadLiveRunQueueV1 = bindOp liveRunQueuePathLockedV1 (\<lambda>_. readLiveRunQueuePathV1)"

definition CommitLiveRunQueueV1 :: "LiveRunQueueV1 \<Rightarrow> unit op" where
  "CommitLiveRunQueueV1 q = bindOp requireWritableLocked (\<lambda>_.
     bindOp liveRunQueuePathLockedV1 (\<lambda>_. commitLiveRunQueuePathV1 q))"

text \<open>
  Terminal cleanup cancels queued work instead of promoting it: with a retirement state bound,
  only entries that were active before stay.
\<close>

definition retainActive :: "LiveRunV1 list \<Rightarrow> LiveRunV1 list \<Rightarrow> LiveRunV1 list" where
  "retainActive previous nextRuns =
     filter (\<lambda>r. list_ex (\<lambda>old. runID old = runID r \<and> runStatus old = LiveRunStatusActiveV1) previous) nextRuns"

definition removalQueue :: "operation_lock \<Rightarrow> LiveRunQueueV1 \<Rightarrow> LiveRunQueueV1 \<Rightarrow> LiveRunQueueV1" where
  "removalQueue l previous nextq =
     (if length (lkRetirementState l) \<noteq> 0
      then nextq\<lparr>qRuns := Some (retainActive (elems (qRuns previous)) (elems (qRuns nextq)))\<rparr> else nextq)"

text \<open>The committed queue is returned, since the source updates \<open>*next\<close>.\<close>

definition commitRemovalQueueLockedV1 :: "LiveRunQueueV1 \<Rightarrow> LiveRunQueueV1 \<Rightarrow> LiveRunQueueV1 op" where
  "commitRemovalQueueLockedV1 previous nextq l =
     (let q = removalQueue l previous nextq in bindOp (commitLiveRunQueuePathV1 q) (\<lambda>_. ret q) l)"

section \<open>Admission, containers and activation\<close>

definition CurrentBootSessionIDV1 :: "string op" where
  "CurrentBootSessionIDV1 l =
     (case lkBootSession l of
        None \<Rightarrow> (l, Inl BootSessionUnavailable)
      | Some s \<Rightarrow> (case validateBootSessionIDV1 s of
                     Some e \<Rightarrow> (l, Inl (BootSessionBad e)) | None \<Rightarrow> (l, Inr s)))"

definition lockAdmitLiveRunV1 :: "LiveRunV1 \<Rightarrow> bool \<Rightarrow> LiveRunStatusV1 op" where
  "lockAdmitLiveRunV1 candidate wait =
     bindOp requireWritableLocked (\<lambda>_.
     bindOp liveRunQueuePathLockedV1 (\<lambda>_.
     bindOp CurrentBootSessionIDV1 (\<lambda>session.
     bindOp readLiveRunQueuePathV1 (\<lambda>(q, _).
     bindOp (lift StoreQueue (AdmitLiveRunV1 q (candidate\<lparr>runBootSession := session\<rparr>) wait)) (\<lambda>(updated, status).
     bindOp (commitLiveRunQueuePathV1 updated) (\<lambda>_. ret status))))))"

definition lockAdmitControlMarkerV1 :: "ControlMarkerV1 \<Rightarrow> bool \<Rightarrow> LiveRunStatusV1 op" where
  "lockAdmitControlMarkerV1 candidate wait =
     bindOp requireWritableLocked (\<lambda>_.
     bindOp liveRunQueuePathLockedV1 (\<lambda>_.
     bindOp CurrentBootSessionIDV1 (\<lambda>session.
     bindOp readLiveRunQueuePathV1 (\<lambda>(q, _).
     bindOp (lift StoreQueue (AdmitControlMarkerV1 q (candidate\<lparr>cmBootSession := session\<rparr>) wait)) (\<lambda>(updated, status).
     bindOp (commitLiveRunQueuePathV1 updated) (\<lambda>_. ret status))))))"

definition RecordLiveRunContainerV1 :: "string \<Rightarrow> string \<Rightarrow> unit op" where
  "RecordLiveRunContainerV1 i container =
     bindOp (need StoreID (ValidateLiveRunIDV1 i)) (\<lambda>_.
     if \<not> safeRecoveryIdentity container then raise StoreContainerUnsafe else
     bindOp requireWritableLocked (\<lambda>_.
     bindOp readQueue (\<lambda>q.
     let rs = elems (qRuns q) in
     case findIndex (\<lambda>r. runID r = i) 0 rs of
       None \<Rightarrow> raise (NotOutstanding i)
     | Some k \<Rightarrow>
         if runStatus (rs ! k) \<noteq> LiveRunStatusActiveV1 then raise (ContainerUnclaimed i)
         else if runContainer (rs ! k) \<noteq> [] \<and> runContainer (rs ! k) \<noteq> container
         then raise (ContainerNamed (runContainer (rs ! k)))
         else commitLiveRunQueuePathV1 (q\<lparr>qRuns := Some (rs[k := (rs ! k)\<lparr>runContainer := container\<rparr>])\<rparr>))))"

definition lockActivateReadyLiveRunV1 :: "string \<Rightarrow> unit op" where
  "lockActivateReadyLiveRunV1 i =
     bindOp requireWritableLocked (\<lambda>_.
     bindOp readQueue (\<lambda>q.
     bindOp (lift StoreQueue (ActivateReadyLiveRunV1 q i)) commitLiveRunQueuePathV1))"

definition ActivateReadyControlMarkerV1 :: "string \<Rightarrow> unit op" where
  "ActivateReadyControlMarkerV1 i =
     bindOp (need StoreID (ValidateControlMarkerIDV1 i)) (\<lambda>_.
     bindOp requireWritableLocked (\<lambda>_.
     bindOp readQueue (\<lambda>q.
     let rs = elems (qRuns q) in
     case findIndex (\<lambda>e. runID e = i \<and> runKind e = LiveRunKindControlV1) 0 rs of
       None \<Rightarrow> raise (NotOutstanding i)
     | Some k \<Rightarrow>
         if runStatus (rs ! k) \<noteq> LiveRunStatusReadyV1 then raise (MarkerNotReady i)
         else commitLiveRunQueuePathV1 (q\<lparr>qRuns := Some (setStatus LiveRunStatusActiveV1 k rs)\<rparr>))))"

section \<open>Removal and cancellation\<close>

definition lockRemoveLiveRunV1 :: "string \<Rightarrow> (LiveRunQueueV1 \<times> bool) op" where
  "lockRemoveLiveRunV1 i =
     bindOp requireRetirementLocked (\<lambda>_.
     bindOp readQueue (\<lambda>q.
     bindOp (lift StoreQueue (RemoveLiveRunV1 q i)) (\<lambda>(updated, removed).
     if \<not> removed then ret (updated, removed)
     else bindOp (commitRemovalQueueLockedV1 q updated) (\<lambda>q'. ret (q', True)))))"

definition lockRemoveControlMarkerV1 :: "string \<Rightarrow> (LiveRunQueueV1 \<times> bool) op" where
  "lockRemoveControlMarkerV1 i =
     bindOp requireRetirementLocked (\<lambda>_.
     bindOp readQueue (\<lambda>q.
     bindOp (lift StoreQueue (RemoveControlMarkerV1 q i)) (\<lambda>(updated, removed).
     if \<not> removed then ret (updated, removed)
     else bindOp (commitRemovalQueueLockedV1 q updated) (\<lambda>q'. ret (q', True)))))"

definition lockCancelWaitingLiveRunsV1 :: "(LiveRunQueueV1 \<times> LiveRunV1 list) op" where
  "lockCancelWaitingLiveRunsV1 =
     bindOp requireRetirementLocked (\<lambda>_.
     bindOp readQueue (\<lambda>q.
     bindOp (lift StoreQueue (CancelWaitingLiveRunsV1 q)) (\<lambda>(updated, canceled).
     if canceled = [] then ret (updated, canceled)
     else bindOp (commitRemovalQueueLockedV1 q updated) (\<lambda>q'. ret (q', canceled)))))"

section \<open>Controlled-session ownership\<close>

text \<open>\<open>sort.Search\<close>: the loop that keeps \<open>f (i - 1) = False\<close> and \<open>f j = True\<close>.\<close>

function searchLoop :: "(nat \<Rightarrow> bool) \<Rightarrow> nat \<Rightarrow> nat \<Rightarrow> nat" where
  "searchLoop f i j =
     (if i < j then
        (let h = (i + j) div 2 in if \<not> f h then searchLoop f (h + 1) j else searchLoop f i h)
      else i)"
  by pat_completeness auto
termination
  by (relation "measure (\<lambda>(f, i, j). j - i)") auto

declare searchLoop.simps [simp del]

definition sortSearch :: "nat \<Rightarrow> (nat \<Rightarrow> bool) \<Rightarrow> nat" where
  "sortSearch n f = searchLoop f 0 n"

definition mergeID :: "string \<Rightarrow> string \<Rightarrow> store_error + string" where
  "mergeID current nextID =
     (if nextID = [] then Inr current
      else if current \<noteq> [] \<and> current \<noteq> nextID then Inl SessionIDChanged
      else Inr nextID)"

text \<open>The immutable resource plan of an ownership record: the record without its three IDs.\<close>

definition ownershipPlan :: "ControlledSessionOwnershipV1 \<Rightarrow> ControlledSessionOwnershipV1" where
  "ownershipPlan w = w\<lparr>owNetworkID := [], owController := (owController w)\<lparr>coID := []\<rparr>,
                       owWorkload := (owWorkload w)\<lparr>coID := []\<rparr>\<rparr>"

definition mergeControlledSessionOwnershipV1 ::
    "ControlledSessionOwnershipV1 \<Rightarrow> ControlledSessionOwnershipV1 \<Rightarrow> store_error + ControlledSessionOwnershipV1" where
  "mergeControlledSessionOwnershipV1 existing requested =
     (if ownershipPlan existing \<noteq> ownershipPlan requested then Inl SessionPlanChanged
      else case mergeID (owNetworkID existing) (owNetworkID requested) of
        Inl e \<Rightarrow> Inl e
      | Inr net \<Rightarrow>
         (case mergeID (coID (owController existing)) (coID (owController requested)) of
            Inl e \<Rightarrow> Inl e
          | Inr con \<Rightarrow>
             (case mergeID (coID (owWorkload existing)) (coID (owWorkload requested)) of
                Inl e \<Rightarrow> Inl e
              | Inr wl \<Rightarrow>
                 (let merged = existing\<lparr>owNetworkID := net,
                        owController := (owController existing)\<lparr>coID := con\<rparr>,
                        owWorkload := (owWorkload existing)\<lparr>coID := wl\<rparr>\<rparr>
                  in case validateCurrentControlledSessionOwnershipV1 merged of
                       Some e \<Rightarrow> Inl (SessionMergeInvalid e)
                     | None \<Rightarrow> Inr merged))))"

definition insertAt :: "nat \<Rightarrow> 'a \<Rightarrow> 'a list \<Rightarrow> 'a list" where
  "insertAt k x xs = take k xs @ x # drop k xs"

definition sessionParticipant ::
    "string \<Rightarrow> ControlledSessionOwnershipV1 \<Rightarrow> ControlledSessionContainerOwnershipV1 option" where
  "sessionParticipant directory w =
     (if directory = owControllerDeploymentDirectory w then Some (owController w)
      else if directory = owWorkloadDeploymentDirectory w then Some (owWorkload w) else None)"

definition storeOwnership :: "LiveRunQueueV1 \<Rightarrow> ControlledSessionOwnershipV1 \<Rightarrow> ControlledSessionOwnershipV1 op" where
  "storeOwnership q w =
     (let ws = qControlledSessions q;
          k = sortSearch (length ws) (\<lambda>index. owLiveRunID (ws ! index) \<ge> owLiveRunID w)
      in if k < length ws \<and> owLiveRunID (ws ! k) = owLiveRunID w then
           bindOp (lift (\<lambda>e. e) (mergeControlledSessionOwnershipV1 (ws ! k) w)) (\<lambda>merged.
             if merged = ws ! k then ret merged
             else bindOp (commitLiveRunQueuePathV1 (q\<lparr>qControlledSessions := ws[k := merged]\<rparr>)) (\<lambda>_. ret merged))
         else
           bindOp (commitLiveRunQueuePathV1 (q\<lparr>qControlledSessions := insertAt k w ws\<rparr>)) (\<lambda>_. ret w))"

definition RecordControlledSessionOwnershipV1 ::
    "ControlledSessionOwnershipV1 \<Rightarrow> ControlledSessionOwnershipV1 op" where
  "RecordControlledSessionOwnershipV1 ownership =
     bindOp (need StoreID (ValidateLiveRunIDV1 (owLiveRunID ownership))) (\<lambda>_.
     bindOp requireWritableLocked (\<lambda>_.
     bindOp readQueue (\<lambda>q.
     let rs = elems (qRuns q) in
     case findIndex (\<lambda>r. runID r = owLiveRunID ownership) 0 rs of
       None \<Rightarrow> raise (NotOutstanding (owLiveRunID ownership))
     | Some k \<Rightarrow>
         let admitted = rs ! k in
         if runStatus admitted \<noteq> LiveRunStatusActiveV1 \<or> runKind admitted \<noteq> LiveRunKindShellV1
         then raise (SessionNotActiveShell (owLiveRunID ownership))
         else if runContainer admitted \<noteq> [] then raise (SessionHasContainer (runContainer admitted))
         else
           let w = ownership\<lparr>owBootSession := runBootSession admitted\<rparr> in
           bindOp (need SessionInvalid (validateCurrentControlledSessionOwnershipV1 w)) (\<lambda>_ l.
             (case sessionParticipant (lkDirectory l) w of
                None \<Rightarrow> raise (SessionDirectory (lkDirectory l))
              | Some participant \<Rightarrow>
                  if runGenerationReference admitted \<noteq> coGenerationReference participant
                  then raise (SessionGeneration (owLiveRunID w))
                  else storeOwnership q w) l))))"

fun removeSession :: "string \<Rightarrow> ControlledSessionOwnershipV1 list \<Rightarrow> ControlledSessionOwnershipV1 list option" where
  "removeSession i [] = None"
| "removeSession i (w # ws) =
     (if owLiveRunID w = i then Some ws else map_option (\<lambda>ws'. w # ws') (removeSession i ws))"

definition CompleteControlledSessionV1 :: "string \<Rightarrow> bool op" where
  "CompleteControlledSessionV1 i =
     bindOp (need StoreID (ValidateLiveRunIDV1 i)) (\<lambda>_.
     bindOp requireRetirementLocked (\<lambda>_.
     bindOp readQueue (\<lambda>q.
     bindOp (lift StoreQueue (RemoveLiveRunV1 q i)) (\<lambda>(updated, runRemoved).
     case removeSession i (qControlledSessions updated) of
       None \<Rightarrow> if \<not> runRemoved then ret False
               else bindOp (commitRemovalQueueLockedV1 q updated) (\<lambda>_. ret True)
     | Some ws \<Rightarrow> bindOp (commitRemovalQueueLockedV1 q (updated\<lparr>qControlledSessions := ws\<rparr>)) (\<lambda>_. ret True)))))"

section \<open>Cleanup inventory\<close>

fun deduplicateFrom :: "LiveRunContainerCleanupV1 \<Rightarrow> LiveRunContainerCleanupV1 list \<Rightarrow> LiveRunContainerCleanupV1 list" where
  "deduplicateFrom prev [] = [prev]"
| "deduplicateFrom prev (c # cs) =
     (if clContainer c = clContainer prev then deduplicateFrom prev cs else prev # deduplicateFrom c cs)"

definition deduplicateLiveRunCleanupV1 :: "LiveRunContainerCleanupV1 list \<Rightarrow> LiveRunContainerCleanupV1 list" where
  "deduplicateLiveRunCleanupV1 cs = (case cs of [] \<Rightarrow> [] | c # cs' \<Rightarrow> deduplicateFrom c cs')"

text \<open>\<open>sort.Slice\<close> by container (the model's sort is stable), then the duplicates are dropped.\<close>

definition normalizeCleanup :: "LiveRunContainerCleanupV1 list \<Rightarrow> LiveRunContainerCleanupV1 list" where
  "normalizeCleanup cs = deduplicateLiveRunCleanupV1 (sort_key clContainer cs)"

fun removeCleanup :: "string \<Rightarrow> LiveRunContainerCleanupV1 list \<Rightarrow> LiveRunContainerCleanupV1 list option" where
  "removeCleanup i [] = None"
| "removeCleanup i (c # cs) =
     (if clContainer c = i then Some cs else map_option (\<lambda>cs'. c # cs') (removeCleanup i cs))"

definition CompleteLiveRunContainerCleanupV1 :: "string \<Rightarrow> bool op" where
  "CompleteLiveRunContainerCleanupV1 container =
     (if \<not> safeRecoveryIdentity container then raise StoreContainerUnsafe else
     bindOp requireRetirementLocked (\<lambda>_.
     bindOp readQueue (\<lambda>q.
     case removeCleanup container (qCleanup q) of
       None \<Rightarrow> ret False
     | Some cs \<Rightarrow> bindOp (commitLiveRunQueuePathV1 (q\<lparr>qCleanup := cs\<rparr>)) (\<lambda>_. ret True))))"

text \<open>The zero value of the Go struct.\<close>

definition zeroRun :: LiveRunV1 where
  "zeroRun = \<lparr>runID = [], runKind = LiveRunKindOther [], runName = [], runGenerationReference = [],
              runBootSession = [], runStatus = LiveRunStatusEmpty, runExclusive = False,
              runWritableMount = [], runWritablePaths = [], runContainer = []\<rparr>"

definition CompleteLiveRunWithContainerCleanupV1 :: "string \<Rightarrow> string \<Rightarrow> bool op" where
  "CompleteLiveRunWithContainerCleanupV1 i container =
     bindOp (need StoreID (ValidateLiveRunIDV1 i)) (\<lambda>_.
     if \<not> safeRecoveryIdentity container then raise StoreContainerUnsafe else
     bindOp requireRetirementLocked (\<lambda>_.
     bindOp readQueue (\<lambda>q.
     bindOp (lift StoreQueue (RemoveLiveRunV1 q i)) (\<lambda>(updated, removed).
     if \<not> removed then ret removed
     else
       let run = (case find (\<lambda>e. runID e = i \<and> runKind e \<noteq> LiveRunKindControlV1) (elems (qRuns q)) of
                    None \<Rightarrow> zeroRun | Some r \<Rightarrow> r)
       in if runContainer run \<noteq> [] \<and> runContainer run \<noteq> container then raise (ContainerNamed (runContainer run))
           else bindOp (commitRemovalQueueLockedV1 q
                  (updated\<lparr>qCleanup := normalizeCleanup (qCleanup updated @
                     [\<lparr>clContainer = container, clRunID = runID run, clKind = runKind run,
                       clName = runName run, clReason = LiveRunRecoveryCleanupFailedV1\<rparr>])\<rparr>)) (\<lambda>_. ret True)))))"

section \<open>Recovery\<close>

definition dropLease :: "string \<Rightarrow> (string \<times> lease) list \<Rightarrow> (string \<times> lease) list" where
  "dropLease i ls = filter (\<lambda>(j, _). j \<noteq> i) ls"

text \<open>
  A lease is abandoned when its file is absent or its lock can be taken; the file of a lock
  that could be taken is removed.
\<close>

definition queueEntryLeaseAbandonedV1 :: "string \<Rightarrow> bool op" where
  "queueEntryLeaseAbandonedV1 i l =
     (case map_of (lkLeases l) i of
        None \<Rightarrow> (l, Inr True)
      | Some LeaseHeld \<Rightarrow> (l, Inr False)
      | Some LeaseFree \<Rightarrow> (l\<lparr>lkLeases := dropLease i (lkLeases l)\<rparr>, Inr True)
      | Some LeaseIrregular \<Rightarrow> (l, Inl (LeaseNotRegular i)))"

definition removeQueueEntryLeasePathV1 :: "string \<Rightarrow> unit op" where
  "removeQueueEntryLeasePathV1 i l =
     (case map_of (lkLeases l) i of
        None \<Rightarrow> (l, Inr ())
      | Some LeaseIrregular \<Rightarrow> (l, Inl (LeaseNotRegular i))
      | Some _ \<Rightarrow> (l\<lparr>lkLeases := dropLease i (lkLeases l)\<rparr>, Inr ()))"

definition validateQueueEntryLeaseIDV1 :: "string \<Rightarrow> bool" where
  "validateQueueEntryLeaseIDV1 i \<longleftrightarrow> liveRunIDPatternV1 i \<or> controlMarkerIDPatternV1 i"

definition recoveryReason :: "string \<Rightarrow> LiveRunV1 \<Rightarrow> LiveRunRecoveryReasonV1 op" where
  "recoveryReason session entry =
     (if runBootSession entry = [] then ret LiveRunRecoveryLegacyEntryV1
      else if runBootSession entry \<noteq> session then ret LiveRunRecoveryPriorSessionV1
      else bindOp (queueEntryLeaseAbandonedV1 (runID entry)) (\<lambda>abandoned.
        ret (if abandoned then LiveRunRecoveryAbandonedOwnerV1 else LiveRunRecoveryEmpty)))"

record recovery_acc =
  raRuns :: "LiveRunV1 list"
  raCleanup :: "LiveRunContainerCleanupV1 list"
  raRemoved :: "(LiveRunV1 \<times> LiveRunRecoveryReasonV1) list"

definition recoverEntry :: "string \<Rightarrow> bool \<Rightarrow> recovery_acc \<Rightarrow> LiveRunV1 \<Rightarrow> recovery_acc op" where
  "recoverEntry session terminal acc entry =
     bindOp (recoveryReason session entry) (\<lambda>reason.
     if reason = LiveRunRecoveryEmpty then
       ret (if \<not> terminal \<or> runStatus entry = LiveRunStatusActiveV1
            then acc\<lparr>raRuns := raRuns acc @ [entry]\<rparr> else acc)
     else
       bindOp (if reason \<noteq> LiveRunRecoveryAbandonedOwnerV1
               then removeQueueEntryLeasePathV1 (runID entry) else ret ()) (\<lambda>_.
       let acc' = acc\<lparr>raRemoved := raRemoved acc @ [(entry, reason)]\<rparr> in
       ret (if runContainer entry \<noteq> [] then
              acc'\<lparr>raCleanup := raCleanup acc' @
                 [\<lparr>clContainer = runContainer entry, clRunID = runID entry, clKind = runKind entry,
                   clName = runName entry, clReason = reason\<rparr>]\<rparr>
            else acc')))"

fun recoverEntries :: "string \<Rightarrow> bool \<Rightarrow> recovery_acc \<Rightarrow> LiveRunV1 list \<Rightarrow> recovery_acc op" where
  "recoverEntries session terminal acc [] = ret acc"
| "recoverEntries session terminal acc (e # es) =
     bindOp (recoverEntry session terminal acc e) (\<lambda>acc'. recoverEntries session terminal acc' es)"

text \<open>
  The ownership records handed back for verified cleanup: those whose run is gone, unless the
  record belongs to the current boot session and its lease is still held.
\<close>

fun recoverSessions :: "string \<Rightarrow> string list \<Rightarrow> ControlledSessionOwnershipV1 list \<Rightarrow> ControlledSessionOwnershipV1 list op" where
  "recoverSessions session retained [] = ret []"
| "recoverSessions session retained (w # ws) =
     (if owLiveRunID w \<in> set retained then recoverSessions session retained ws
      else if owBootSession w = session then
        bindOp (queueEntryLeaseAbandonedV1 (owLiveRunID w)) (\<lambda>abandoned.
          if \<not> abandoned then recoverSessions session retained ws
          else bindOp (recoverSessions session retained ws) (\<lambda>rest. ret (w # rest)))
      else bindOp (recoverSessions session retained ws) (\<lambda>rest. ret (w # rest)))"

fun removeOrphans :: "string list \<Rightarrow> string list \<Rightarrow> unit op" where
  "removeOrphans retained [] = ret ()"
| "removeOrphans retained (i # ids) =
     (if \<not> validateQueueEntryLeaseIDV1 i \<or> i \<in> set retained then removeOrphans retained ids
      else bindOp (queueEntryLeaseAbandonedV1 i) (\<lambda>_. removeOrphans retained ids))"

definition removeOrphanedQueueEntryLeasesV1 :: "string list \<Rightarrow> unit op" where
  "removeOrphanedQueueEntryLeasesV1 retained l = removeOrphans retained (map fst (lkLeases l)) l"

record LiveRunRecoveryV1 =
  rvRemoved :: "(LiveRunV1 \<times> LiveRunRecoveryReasonV1) list"
  rvControlledSessions :: "ControlledSessionOwnershipV1 list"

definition recoveredQueue :: "bool \<Rightarrow> LiveRunQueueV1 \<Rightarrow> recovery_acc \<Rightarrow> LiveRunQueueV1" where
  "recoveredQueue terminal q acc =
     (let result = q\<lparr>qRuns := Some (raRuns acc), qCleanup := raCleanup acc\<rparr>;
          result = (if terminal then result else promoteLiveRunsV1 result)
      in result\<lparr>qCleanup := normalizeCleanup (qCleanup result)\<rparr>)"

definition recoverLiveRunQueuePathV1 :: "string \<Rightarrow> bool \<Rightarrow> LiveRunRecoveryV1 op" where
  "recoverLiveRunQueuePathV1 session terminal =
     bindOp (need BootSessionBad (validateBootSessionIDV1 session)) (\<lambda>_.
     bindOp readLiveRunQueuePathV1 (\<lambda>(q, _).
     bindOp (recoverEntries session terminal
               \<lparr>raRuns = [], raCleanup = qCleanup q, raRemoved = []\<rparr> (elems (qRuns q))) (\<lambda>acc.
     let result = recoveredQueue terminal q acc;
         retained = map runID (elems (qRuns result)) in
     bindOp (need QueueRejected (ValidateLiveRunQueueV1 result)) (\<lambda>_.
     bindOp (if raRemoved acc \<noteq> [] \<or> length (elems (qRuns result)) \<noteq> length (elems (qRuns q))
             then commitLiveRunQueuePathV1 result else ret ()) (\<lambda>_.
     bindOp (recoverSessions session retained (qControlledSessions result)) (\<lambda>sessions.
     bindOp (removeOrphanedQueueEntryLeasesV1 retained) (\<lambda>_.
     ret \<lparr>rvRemoved = raRemoved acc, rvControlledSessions = sessions\<rparr>)))))))"

definition RecoverLiveRunQueueV1 :: "LiveRunRecoveryV1 op" where
  "RecoverLiveRunQueueV1 =
     bindOp CurrentBootSessionIDV1 (\<lambda>session.
     bindOp requireRetirementLocked (\<lambda>_.
     bindOp liveRunQueuePathLockedV1 (\<lambda>_ l.
       recoverLiveRunQueuePathV1 session (length (lkRetirementState l) \<noteq> 0) l)))"

definition RecoverAbandonedControlMarkerV1 :: "ControlMarkerV1 option op" where
  "RecoverAbandonedControlMarkerV1 =
     bindOp RecoverLiveRunQueueV1 (\<lambda>recovery.
     ret (map_option (\<lambda>(r, _). \<lparr>cmID = runID r, cmOperation = runName r,
                           cmGenerationReference = runGenerationReference r,
                           cmBootSession = runBootSession r, cmStatus = runStatus r\<rparr>)
            (find (\<lambda>(r, _). runKind r = LiveRunKindControlV1) (rvRemoved recovery))))"

end
