(* ===== verification/LiveRunStoreProofs.thy ===== *)
theory LiveRunStoreProofs
  imports LiveRunStore
begin

text \<open>
  The store keeps a valid queue and never refuses its own work: every operation that reads the
  queue, changes it and commits it hands a valid queue to the commit, so the validation in the
  encoder is never what makes an operation fail. The two locales state the contracts the
  proofs rest on: \<open>op_contract\<close> is what an operation of the store promises, and
  \<open>queue_update\<close> is what a function on queues has to promise to be committed.
\<close>

section \<open>Lists of the queue\<close>

lemma searchLoop_spec:
  assumes "\<And>a b. a \<le> b \<Longrightarrow> f a \<Longrightarrow> f b" and "i \<le> j"
  shows "i \<le> searchLoop f i j \<and> searchLoop f i j \<le> j \<and> (\<forall>m. i \<le> m \<and> m < searchLoop f i j \<longrightarrow> \<not> f m)
     \<and> (searchLoop f i j < j \<longrightarrow> f (searchLoop f i j))"
  using assms
proof (induction f i j rule: searchLoop.induct)
  case (1 f i j)
  show ?case
  proof (cases "i < j")
    case False
    then have "searchLoop f i j = i" by (subst searchLoop.simps) simp
    with False "1.prems" show ?thesis by auto
  next
    case True
    define h where "h = (i + j) div 2"
    have h: "i \<le> h" "h < j" using True by (auto simp: h_def)
    show ?thesis
    proof (cases "f h")
      case True': True
      have "searchLoop f i j = searchLoop f i h"
        using True True' by (subst searchLoop.simps) (simp add: h_def)
      moreover have "i \<le> searchLoop f i h \<and> searchLoop f i h \<le> h
          \<and> (\<forall>m. i \<le> m \<and> m < searchLoop f i h \<longrightarrow> \<not> f m) \<and> (searchLoop f i h < h \<longrightarrow> f (searchLoop f i h))"
        using "1.IH"(2) [OF True h_def] True' h(1) "1.prems" by blast
      ultimately show ?thesis
        using h True' by (metis le_less less_imp_le_nat order.strict_trans1)
    next
      case False': False
      have eq: "searchLoop f i j = searchLoop f (h + 1) j"
        using True False' by (subst searchLoop.simps) (simp add: h_def)
      have "h + 1 \<le> searchLoop f (h + 1) j \<and> searchLoop f (h + 1) j \<le> j
          \<and> (\<forall>m. h + 1 \<le> m \<and> m < searchLoop f (h + 1) j \<longrightarrow> \<not> f m)
          \<and> (searchLoop f (h + 1) j < j \<longrightarrow> f (searchLoop f (h + 1) j))"
        using "1.IH"(1) [OF True h_def] False' h(2) "1.prems" by simp
      moreover have "\<not> f m" if "m \<le> h" for m
        using that False' "1.prems"(1) by blast
      moreover have "h + 1 \<le> m" if "\<not> m \<le> h" for m
        using that by simp
      ultimately show ?thesis
        unfolding eq using h by (meson le_trans le_add1)
    qed
  qed
qed

lemma deduplicateFrom_containers:
  "set (map clContainer (deduplicateFrom p cs)) = set (map clContainer (p # cs))"
  by (induction cs arbitrary: p) auto

lemma deduplicateFrom_subset: "set (deduplicateFrom p cs) \<subseteq> set (p # cs)"
  by (induction cs arbitrary: p) auto

lemma deduplicateFrom_hd: "\<exists>rest. deduplicateFrom p cs = p # rest"
  by (induction cs arbitrary: p) auto

lemma deduplicateFrom_sorted:
  "sorted (map clContainer (p # cs)) \<Longrightarrow> sortedUnique clContainer (deduplicateFrom p cs)"
proof (induction cs arbitrary: p)
  case Nil
  show ?case by simp
next
  case (Cons c cs)
  show ?case
  proof (cases "clContainer c = clContainer p")
    case True
    with Cons show ?thesis by simp
  next
    case False
    with Cons.prems have less: "clContainer p < clContainer c"
      by (simp add: order_less_le)
    obtain rest where rest: "deduplicateFrom c cs = c # rest"
      using deduplicateFrom_hd by blast
    have "sortedUnique clContainer (deduplicateFrom c cs)"
      using Cons by simp
    with False less rest show ?thesis by simp
  qed
qed

lemma normalizeCleanup_containers:
  "clContainer ` set (normalizeCleanup cs) = clContainer ` set cs"
proof -
  have "clContainer ` set (normalizeCleanup cs) = clContainer ` set (sort_key clContainer cs)"
    using deduplicateFrom_containers
    by (cases "sort_key clContainer cs") (simp_all add: normalizeCleanup_def deduplicateLiveRunCleanupV1_def)
  then show ?thesis by simp
qed

lemma normalizeCleanup_OK:
  assumes "\<forall>c \<in> set cs. validateLiveRunContainerCleanupV1 c = None"
  shows "cleanupsOK (normalizeCleanup cs)"
proof (cases "sort_key clContainer cs")
  case Nil
  then show ?thesis by (simp add: normalizeCleanup_def deduplicateLiveRunCleanupV1_def cleanupsOK_def)
next
  case (Cons c cs')
  have "set (c # cs') = set cs" using Cons set_sort by metis
  moreover have "sorted (map clContainer (c # cs'))"
    using Cons sorted_sort_key [of clContainer cs] by simp
  ultimately show ?thesis
    using Cons assms deduplicateFrom_sorted [of c cs'] deduplicateFrom_subset [of c cs']
    by (auto simp: normalizeCleanup_def deduplicateLiveRunCleanupV1_def cleanupsOK_def)
qed

lemma removeSession_subseq: "removeSession i ws = Some ws' \<Longrightarrow> subseq ws' ws"
  by (induction ws arbitrary: ws') (auto split: if_splits)

lemma removeCleanup_subseq: "removeCleanup i cs = Some cs' \<Longrightarrow> subseq cs' cs"
  by (induction cs arbitrary: cs') (auto split: if_splits)

lemma sessionsOK_subseq: "subseq xs ys \<Longrightarrow> sessionsOK ys \<Longrightarrow> sessionsOK xs"
  by (auto simp: sessionsOK_def dest: list_emb_set sortedUnique_subseq)

lemma cleanupsOK_subseq: "subseq xs ys \<Longrightarrow> cleanupsOK ys \<Longrightarrow> cleanupsOK xs"
  by (auto simp: cleanupsOK_def dest: list_emb_set sortedUnique_subseq)

lemma newQueue_OK: "queueOK NewLiveRunQueueV1"
  by (simp add: queueOK_def NewLiveRunQueueV1_def sessionsOK_def cleanupsOK_def entriesOK_def
      disciplined_def runnable_def noIdle_def)

section \<open>What a function on queues promises\<close>

text \<open>
  The errors of a queue function that blame the queue itself rather than the caller. A
  \<open>queue_update\<close> never reports one on a valid queue and returns a valid queue.
\<close>

fun internalError :: "queue_error \<Rightarrow> bool" where
  "internalError CandidateStatus = False"
| "internalError (CandidateInvalid _) = False"
| "internalError (IDExists _) = False"
| "internalError LiveRunConflict = False"
| "internalError (BadID _) = False"
| "internalError (LiveRunNotReady _) = False"
| "internalError (LiveRunNotOutstanding _) = False"
| "internalError _ = True"

locale queue_update =
  fixes update :: "LiveRunQueueV1 \<Rightarrow> queue_error + 'a" and queueOf :: "'a \<Rightarrow> LiveRunQueueV1"
  assumes update_valid: "queueOK q \<Longrightarrow> update q = Inr x \<Longrightarrow> queueOK (queueOf x)"
    and update_error: "queueOK q \<Longrightarrow> update q = Inl e \<Longrightarrow> \<not> internalError e"

lemma validRun_validEntry:
  assumes "validateLiveRunV1 r = None"
  shows "validateLiveQueueEntryV1 r = None"
proof -
  have "runKind r \<noteq> LiveRunKindControlV1"
    using assms by (simp add: validateLiveRunV1_def split: if_splits) auto
  with assms show ?thesis by (simp add: validateLiveQueueEntryV1_def)
qed

lemma admitEntry_update:
  assumes "queueOK q" "validateLiveQueueEntryV1 c = None" "isWaiting c"
  shows "case admitLiveQueueEntryV1 q c wait of Inl e \<Rightarrow> \<not> internalError e | Inr (q', _) \<Rightarrow> queueOK q'"
proof -
  obtain rs where rs: "qRuns q = Some rs" using assms(1) by (auto simp: queueOK_def)
  show ?thesis
  proof (cases "runID c \<in> runID ` set rs")
    case True
    then show ?thesis by (simp add: admitEntry_repeated [OF rs])
  next
    case False
    show ?thesis by (rule admitEntry_cases [OF assms(1) rs assms(2,3) False, of wait]) simp_all
  qed
qed

interpretation admitRun: queue_update "\<lambda>q. AdmitLiveRunV1 q c wait" fst for c wait
proof
  fix q e and x :: "LiveRunQueueV1 \<times> LiveRunStatusV1"
  assume ok: "queueOK q"
  note admit = admitEntry_update [OF ok, of "c\<lparr>runStatus := LiveRunStatusWaitingV1\<rparr>" wait]
  show "queueOK (fst x)" if "AdmitLiveRunV1 q c wait = Inr x"
    using that ok admit validRun_validEntry
    by (auto simp: AdmitLiveRunV1_def queueOK_valid Let_def isWaiting_def split: if_splits option.splits)
  show "\<not> internalError e" if "AdmitLiveRunV1 q c wait = Inl e"
    using that ok admit validRun_validEntry
    by (auto simp: AdmitLiveRunV1_def queueOK_valid Let_def isWaiting_def split: if_splits option.splits)
qed

interpretation admitMarker: queue_update "\<lambda>q. AdmitControlMarkerV1 q c wait" fst for c wait
proof
  fix q e and x :: "LiveRunQueueV1 \<times> LiveRunStatusV1"
  assume ok: "queueOK q"
  have waiting: "isWaiting (controlEntry c)" by (simp add: controlEntry_def isWaiting_def)
  note admit = admitEntry_update [OF ok _ waiting, of wait]
  show "queueOK (fst x)" if "AdmitControlMarkerV1 q c wait = Inr x"
    using that ok admit
    by (auto simp: AdmitControlMarkerV1_def queueOK_valid split: if_splits option.splits)
  show "\<not> internalError e" if "AdmitControlMarkerV1 q c wait = Inl e"
    using that ok admit
    by (auto simp: AdmitControlMarkerV1_def queueOK_valid split: if_splits option.splits)
qed

interpretation removeRun: queue_update "\<lambda>q. RemoveLiveRunV1 q i" fst for i
  by unfold_locales
    (auto simp: RemoveLiveRunV1_def queueOK_valid split: option.splits intro: remove_OK(1))

interpretation removeMarker: queue_update "\<lambda>q. RemoveControlMarkerV1 q i" fst for i
  by unfold_locales
    (auto simp: RemoveControlMarkerV1_def queueOK_valid split: option.splits intro: remove_OK(1))

interpretation activateRun: queue_update "\<lambda>q. ActivateReadyLiveRunV1 q i" "\<lambda>q. q" for i
proof
  fix q e q'
  assume ok: "queueOK q"
  then show "queueOK q'" if "ActivateReadyLiveRunV1 q i = Inr q'"
    using that
    by (auto simp: ActivateReadyLiveRunV1_def queueOK_valid Let_def ValidateLiveRunQueueV1_iff
        split: if_splits option.splits)
  show "\<not> internalError e" if e: "ActivateReadyLiveRunV1 q i = Inl e"
  proof (cases "ValidateLiveRunIDV1 i")
    case Some
    with ok e show ?thesis by (auto simp: ActivateReadyLiveRunV1_def queueOK_valid)
  next
    case None
    have "\<not> (\<exists>r \<in> set (elems (qRuns q)). runID r = i \<and> runKind r \<noteq> LiveRunKindControlV1 \<and> isReady r)"
      using activate_result [OF ok None] e by (metis Inl_Inr_False)
    then show ?thesis
      using ok e None findIndex_Some
      by (fastforce simp: ActivateReadyLiveRunV1_def queueOK_valid Let_def clone_OK isReady_def
          split: if_splits option.splits dest!: findIndex_Some)
  qed
qed

interpretation cancelRuns: queue_update CancelWaitingLiveRunsV1 fst
proof
  fix q e and x :: "LiveRunQueueV1 \<times> LiveRunV1 list"
  assume ok: "queueOK q"
  show "queueOK (fst x)" if "CancelWaitingLiveRunsV1 q = Inr x"
    by (rule cancel_result [OF ok]) (use that in auto)
  show "\<not> internalError e" if "CancelWaitingLiveRunsV1 q = Inl e"
    by (rule cancel_result [OF ok]) (use that in auto)
qed

text \<open>
  A removal moreover keeps every active entry active, which is what terminal cleanup relies
  on when it retains the entries that were active before.
\<close>

definition activesKept :: "LiveRunQueueV1 \<Rightarrow> LiveRunQueueV1 \<Rightarrow> bool" where
  "activesKept q q' \<longleftrightarrow> (\<forall>r \<in> set (elems (qRuns q')). \<forall>old \<in> set (elems (qRuns q)).
     runID old = runID r \<and> isActive old \<longrightarrow> isActive r)"

locale removal_update = queue_update +
  assumes update_actives: "queueOK q \<Longrightarrow> update q = Inr x \<Longrightarrow> activesKept q (queueOf x)"

lemma promoteRuns_members:
  assumes "laidOut rs" "r \<in> set (promoteRuns rs)"
  obtains "r \<in> set rs" | w where "w \<in> set rs" "isWaiting w" "r = w\<lparr>runStatus := LiveRunStatusReadyV1\<rparr>"
proof (cases "waitings rs")
  case Nil
  with assms that show thesis by (simp add: promoteRuns_eq)
next
  case (Cons w ws)
  then have "w \<in> set rs" "isWaiting w" "set ws \<subseteq> set rs" "set (actives rs) \<subseteq> set rs"
    using filter_set [of isWaiting rs] by auto
  with assms Cons that show thesis by (auto simp: promoteRuns_eq split: if_splits)
qed

lemma activesKept_drop_promote:
  assumes "queueOK q" "qRuns q = Some rs" "subseq rs' rs"
  shows "activesKept q (promoteLiveRunsV1 (q\<lparr>qRuns := Some rs'\<rparr>))"
  unfolding activesKept_def
proof (intro ballI impI, elim conjE)
  fix r old
  assume r: "r \<in> set (elems (qRuns (promoteLiveRunsV1 (q\<lparr>qRuns := Some rs'\<rparr>))))"
    and old: "old \<in> set (elems (qRuns q))" "runID old = runID r" "isActive old"
  have sub: "set rs' \<subseteq> set rs" using assms(3) by (auto dest: list_emb_set)
  have laid: "laidOut rs'" and dist: "distinct (map runID rs)"
    using assms laidOut_subseq by (auto simp: queueOK_def disciplined_def entriesOK_def)
  have "r \<in> set (promoteRuns rs')" using r by (simp add: promoteLiveRunsV1_def)
  with laid show "isActive r"
  proof (cases rule: promoteRuns_members)
    case 1
    with sub old assms(2) dist eq_key_imp_eq_value_run [of rs old r] show ?thesis by auto
  next
    case (2 w)
    with sub old assms(2) dist eq_key_imp_eq_value_run [of rs old w] have "old = w" by auto
    with 2 old show ?thesis by (auto dest: status_exclusive)
  qed
qed

lemma activesKept_refl: "queueOK q \<Longrightarrow> activesKept q q"
  using eq_key_imp_eq_value_run by (fastforce simp: activesKept_def queueOK_def entriesOK_def)

lemma remove_actives:
  assumes "queueOK q"
  shows "activesKept q (fst (removeLiveQueueEntryV1 q i kinds))"
proof -
  obtain rs where rs: "qRuns q = Some rs" using assms by (auto simp: queueOK_def)
  show ?thesis
    using assms activesKept_refl activesKept_drop_promote [OF assms rs subseq_filter_keep]
    by (simp add: remove_result [OF assms rs])
qed

lemma remove_actives_pair:
  "removeLiveQueueEntryV1 q i kinds = (q', removed) \<Longrightarrow> queueOK q \<Longrightarrow> activesKept q q'"
  using remove_actives [of q i kinds] by simp

interpretation removeRunActive: removal_update "\<lambda>q. RemoveLiveRunV1 q i" fst for i
  by unfold_locales
    (auto simp: RemoveLiveRunV1_def queueOK_valid split: option.splits dest: remove_actives_pair)

interpretation removeMarkerActive: removal_update "\<lambda>q. RemoveControlMarkerV1 q i" fst for i
  by unfold_locales
    (auto simp: RemoveControlMarkerV1_def queueOK_valid split: option.splits dest: remove_actives_pair)

interpretation cancelRunsActive: removal_update CancelWaitingLiveRunsV1 fst
proof
  fix q and x :: "LiveRunQueueV1 \<times> LiveRunV1 list"
  assume ok: "queueOK q" and x: "CancelWaitingLiveRunsV1 q = Inr x"
  obtain rs where rs: "qRuns q = Some rs" using ok by (auto simp: queueOK_def)
  show "activesKept q (fst x)"
    using ok x rs activesKept_drop_promote [OF ok rs subseq_filter_keep]
    by (auto simp: CancelWaitingLiveRunsV1_def queueOK_valid Let_def clone_OK split: option.splits)
qed

lemma retainActive_subseq: "subseq (retainActive previous rs) rs"
  by (simp add: retainActive_def subseq_filter_keep)

section \<open>Queues the operations build\<close>

text \<open>Entries that agree on identity, status and exclusiveness are interchangeable.\<close>

definition sameShape :: "LiveRunV1 \<Rightarrow> LiveRunV1 \<Rightarrow> bool" where
  "sameShape r s \<longleftrightarrow> runID r = runID s \<and> runStatus r = runStatus s \<and> runExclusive r = runExclusive s"

lemma sameShape_refl: "list_all2 sameShape rs rs"
  by (simp add: list_all2_refl sameShape_def)

lemma sameShape_filter:
  assumes "list_all2 sameShape rs ss" and "\<And>r s. runStatus r = runStatus s \<Longrightarrow> P r = P s"
  shows "list_all2 sameShape (filter P rs) (filter P ss)"
  using assms(1)
proof (induction rs ss rule: list_all2_induct)
  case (Cons r rs s ss)
  then have "P r = P s" by (intro assms(2)) (simp add: sameShape_def)
  with Cons show ?case by simp
qed simp

lemma sameShape_exclusive: "list_all2 sameShape rs ss \<Longrightarrow> list_ex runExclusive rs = list_ex runExclusive ss"
  by (induction rs ss rule: list_all2_induct) (auto simp: sameShape_def)

lemma sameShape_maps:
  "list_all2 sameShape rs ss \<Longrightarrow> map runID rs = map runID ss \<and> map rank rs = map rank ss"
  by (induction rs ss rule: list_all2_induct) (auto simp: sameShape_def rank_def status_defs)

lemma sameShape_status:
  "list_all2 sameShape rs ss \<Longrightarrow> (\<forall>r \<in> set rs. isActive r \<or> isReady r \<or> isWaiting r)
     \<longleftrightarrow> (\<forall>r \<in> set ss. isActive r \<or> isReady r \<or> isWaiting r)"
  by (induction rs ss rule: list_all2_induct) (auto simp: sameShape_def status_defs)

lemma sameShape_discipline:
  assumes "list_all2 sameShape rs ss"
  shows "disciplined rs = disciplined ss" "noIdle rs = noIdle ss"
proof -
  note filters = sameShape_filter [OF assms, of isReady] sameShape_filter [OF assms, of isWaiting]
    sameShape_filter [OF assms, of "\<lambda>r. isActive r \<or> isReady r"]
  have readies: "list_all2 sameShape (readies rs) (readies ss)"
    and waitings: "list_all2 sameShape (waitings rs) (waitings ss)"
    and runnable: "list_all2 sameShape (runnable rs) (runnable ss)"
    using filters by (simp_all add: status_defs runnable_def)
  note same = list_all2_lengthD [OF readies] list_all2_lengthD [OF runnable]
    sameShape_exclusive [OF runnable]
  have nil: "(readies rs = []) = (readies ss = [])" "(runnable rs = []) = (runnable ss = [])"
    using readies runnable by (auto simp: list_all2_Nil list_all2_Nil2)
  show "disciplined rs = disciplined ss"
    using same sameShape_maps [OF assms] sameShape_status [OF assms] by (simp add: disciplined_def laidOut_def)
  show "noIdle rs = noIdle ss"
    using waitings same nil
    by (cases "waitings rs"; cases "waitings ss") (auto simp: noIdle_def sameShape_def)
qed

lemma queueOK_update_entry:
  assumes "queueOK q" "qRuns q = Some rs" "k < length rs"
    and "sameShape r (rs ! k)" "validateLiveQueueEntryV1 r = None"
  shows "queueOK (q\<lparr>qRuns := Some (rs[k := r])\<rparr>)"
proof -
  have "list_all2 sameShape (rs[k := r]) (rs[k := rs ! k])"
    using assms(3,4) sameShape_refl by (intro list_all2_update_cong) auto
  then have shape: "list_all2 sameShape (rs[k := r]) rs" by simp
  have "entriesOK (rs[k := r])"
    using assms sameShape_maps [OF shape] set_update_subset_insert [of rs k r]
    by (fastforce simp: queueOK_def entriesOK_def)
  with assms(1,2) sameShape_discipline [OF shape] show ?thesis
    by (auto simp: queueOK_def)
qed

lemma validEntry_kind:
  assumes "validateLiveQueueEntryV1 r = None" "ValidateLiveRunIDV1 (runID r) = None"
  shows "validateLiveRunV1 r = None" "runKind r \<noteq> LiveRunKindControlV1"
proof -
  have "\<not> controlMarkerIDPatternV1 (runID r)"
    using assms(2) hexPattern_disjoint [of "''run-''" 16 "runID r" "''control-''" 16]
    by (auto simp: ValidateLiveRunIDV1_def liveRunIDPatternV1_def controlMarkerIDPatternV1_def
        hasPrefix_def split: if_splits)
  with assms(1) show kind: "runKind r \<noteq> LiveRunKindControlV1"
    by (auto simp: validateLiveQueueEntryV1_def ValidateControlMarkerIDV1_def)
  with assms(1) show "validateLiveRunV1 r = None"
    by (simp add: validateLiveQueueEntryV1_def)
qed

lemma validRun_container:
  assumes "validateLiveRunV1 r = None" "isActive r" "safeRecoveryIdentity c"
  shows "validateLiveRunV1 (r\<lparr>runContainer := c\<rparr>) = None"
  using assms by (simp add: validateLiveRunV1_def isActive_def split: if_splits) blast+

lemma queueOK_recordContainer:
  assumes "queueOK q" "qRuns q = Some rs" "k < length rs" "isActive (rs ! k)"
    and "ValidateLiveRunIDV1 (runID (rs ! k)) = None" "safeRecoveryIdentity c"
  shows "queueOK (q\<lparr>qRuns := Some (rs[k := (rs ! k)\<lparr>runContainer := c\<rparr>])\<rparr>)"
proof (rule queueOK_update_entry [OF assms(1-3)])
  have "validateLiveQueueEntryV1 (rs ! k) = None"
    using assms(1-3) by (auto simp: queueOK_def entriesOK_def)
  then have "validateLiveRunV1 (rs ! k) = None" by (rule validEntry_kind [OF _ assms(5)])
  then show "validateLiveQueueEntryV1 ((rs ! k)\<lparr>runContainer := c\<rparr>) = None"
    using assms(4,6) by (intro validRun_validEntry validRun_container)
qed (simp add: sameShape_def)

lemma validRun_parts:
  assumes "validateLiveRunV1 r = None"
  shows "ValidateLiveRunIDV1 (runID r) = None" "runKind r = LiveRunKindAppV1 \<or> runKind r = LiveRunKindShellV1"
    "safeRecoveryIdentity (runName r)" "runContainer r \<noteq> [] \<Longrightarrow> safeRecoveryIdentity (runContainer r)"
  using assms by (simp_all add: validateLiveRunV1_def split: if_splits)

lemma validRun_cleanup:
  assumes "validateLiveRunV1 r = None" "safeRecoveryIdentity c"
    and "reason \<in> {LiveRunRecoveryAbandonedOwnerV1, LiveRunRecoveryPriorSessionV1,
      LiveRunRecoveryLegacyEntryV1, LiveRunRecoveryCleanupFailedV1}"
  shows "validateLiveRunContainerCleanupV1 \<lparr>clContainer = c, clRunID = runID r, clKind = runKind r,
      clName = runName r, clReason = reason\<rparr> = None"
  using validRun_parts [OF assms(1)] assms(2,3)
  by (auto simp: validateLiveRunContainerCleanupV1_def)

text \<open>An exclusive marker is activated without promotion: nothing else may start beside it.\<close>

lemma queueOK_activateMarker:
  assumes "queueOK q" "qRuns q = Some rs" "k < length rs" "isReady (rs ! k)" "runExclusive (rs ! k)"
  shows "queueOK (q\<lparr>qRuns := Some (setStatus LiveRunStatusActiveV1 k rs)\<rparr>)"
proof -
  let ?rs' = "setStatus LiveRunStatusActiveV1 k rs"
  have old: "disciplined rs" "entriesOK rs" using assms(1,2) by (auto simp: queueOK_def)
  note new = activate_runs [OF old assms(3,4)]
  have "?rs' ! k \<in> set (runnable ?rs')"
    using assms(3) by (simp add: runnable_def isActive_def setStatus_def) (metis length_list_update nth_list_update_eq nth_mem)
  moreover have "runExclusive (?rs' ! k)"
    using assms(3,5) by (simp add: setStatus_def)
  ultimately have "list_ex runExclusive (runnable ?rs')" "runnable ?rs' \<noteq> []"
    by (auto simp: list_ex_iff)
  then have "noIdle ?rs'" by (auto simp: noIdle_def split: list.splits)
  with assms(1) new(1,2) show ?thesis by (auto simp: queueOK_def)
qed

lemma validMarker_exclusive:
  "validateLiveQueueEntryV1 r = None \<Longrightarrow> runKind r = LiveRunKindControlV1 \<Longrightarrow> runExclusive r"
  by (simp add: validateLiveQueueEntryV1_def split: if_splits)

text \<open>Terminal cleanup keeps active entries only, so it never leaves a waiting entry.\<close>

lemma queueOK_actives:
  assumes "queueOK q" "qRuns q = Some rs" "subseq rs' rs" "\<forall>r \<in> set rs'. isActive r"
  shows "queueOK (q\<lparr>qRuns := Some rs'\<rparr>)"
proof -
  have "waitings rs' = []"
    using assms(4) by (auto simp: filter_empty_conv status_defs)
  then have "noIdle rs'" by (simp add: noIdle_def)
  with assms(1-3) show ?thesis
    using entriesOK_subseq disciplined_subseq by (auto simp: queueOK_def)
qed

lemma queueOK_sessions:
  "queueOK q \<Longrightarrow> sessionsOK ws \<Longrightarrow> queueOK (q\<lparr>qControlledSessions := ws\<rparr>)"
  by (auto simp: queueOK_def)

lemma queueOK_cleanup:
  "queueOK q \<Longrightarrow> cleanupsOK cs \<Longrightarrow> queueOK (q\<lparr>qCleanup := cs\<rparr>)"
  by (auto simp: queueOK_def)

section \<open>Ownership records\<close>

lemma searchLoop_cong:
  "(\<And>m. m < j \<Longrightarrow> f m = g m) \<Longrightarrow> searchLoop f i j = searchLoop g i j"
proof (induction f i j rule: searchLoop.induct)
  case (1 f i j)
  show ?case
  proof (cases "i < j")
    case True
    then have "(i + j) div 2 < j" by simp
    with 1 True show ?thesis
      by (subst (1 2) searchLoop.simps) (simp add: Let_def)
  next
    case False
    then show ?thesis by (subst (1 2) searchLoop.simps) simp
  qed
qed

lemma sortSearch_sessions:
  fixes x :: string
  assumes "sortedUnique owLiveRunID ws"
  defines "k \<equiv> sortSearch (length ws) (\<lambda>index. owLiveRunID (ws ! index) \<ge> x)"
  shows "k \<le> length ws" "\<forall>w \<in> set (take k ws). owLiveRunID w < x" "\<forall>w \<in> set (drop k ws). x \<le> owLiveRunID w"
proof -
  have mono: "owLiveRunID (ws ! a) \<le> owLiveRunID (ws ! b)" if "a \<le> b" "b < length ws" for a b
    using assms(1) that sorted_wrt_nth_less [of "(<)" "map owLiveRunID ws" a b]
    by (cases "a = b") (auto simp: sortedUnique_iff)
  define f where "f = (\<lambda>index. index \<ge> length ws \<or> owLiveRunID (ws ! index) \<ge> x)"
  have same: "searchLoop (\<lambda>index. owLiveRunID (ws ! index) \<ge> x) 0 (length ws) = searchLoop f 0 (length ws)"
    by (rule searchLoop_cong) (simp add: f_def)
  have up: "f b" if "a \<le> b" "f a" for a b
    using that mono [of a b] unfolding f_def by (meson le_trans not_le order_trans)
  have k: "k = searchLoop f 0 (length ws)" using same by (simp add: k_def sortSearch_def)
  have spec: "k \<le> length ws \<and> (\<forall>m < k. \<not> f m) \<and> (k < length ws \<longrightarrow> f k)"
    unfolding k using searchLoop_spec [of f 0 "length ws"] up by (simp add: le0)
  then show "k \<le> length ws" by simp
  show "\<forall>w \<in> set (take k ws). owLiveRunID w < x"
    using spec by (auto simp: in_set_conv_nth f_def not_le)
  show "\<forall>w \<in> set (drop k ws). x \<le> owLiveRunID w"
  proof
    fix w assume "w \<in> set (drop k ws)"
    then obtain m where m: "k \<le> m" "m < length ws" "w = ws ! m"
      by (auto simp: in_set_conv_nth) (metis add.commute le_add1 less_diff_conv)
    then show "x \<le> owLiveRunID w"
      using spec mono [of k m] by (auto simp: f_def)
  qed
qed

lemma sessionsOK_insert:
  assumes "sessionsOK ws" "validateControlledSessionOwnershipV1 w = None"
  defines "k \<equiv> sortSearch (length ws) (\<lambda>index. owLiveRunID (ws ! index) \<ge> owLiveRunID w)"
  assumes "\<not> (k < length ws \<and> owLiveRunID (ws ! k) = owLiveRunID w)"
  shows "sessionsOK (insertAt k w ws)"
proof -
  have sorted: "sortedUnique owLiveRunID ws" using assms(1) by (simp add: sessionsOK_def)
  note pos = sortSearch_sessions [OF sorted, of "owLiveRunID w", folded k_def]
  have split: "sorted_wrt (<) (map owLiveRunID (take k ws)) \<and> sorted_wrt (<) (map owLiveRunID (drop k ws))
      \<and> (\<forall>a \<in> set (take k ws). \<forall>b \<in> set (drop k ws). owLiveRunID a < owLiveRunID b)"
    using sorted append_take_drop_id [of k ws] sorted_wrt_append [of "(<)" "map owLiveRunID (take k ws)" "map owLiveRunID (drop k ws)"]
    by (metis (no_types, lifting) image_eqI list.set_map map_append sortedUnique_iff)
  have "owLiveRunID w < owLiveRunID b" if "b \<in> set (drop k ws)" for b
  proof -
    have k: "k < length ws" using that by (cases "k < length ws") auto
    then have "drop k ws = ws ! k # drop (Suc k) ws" by (simp add: Cons_nth_drop_Suc)
    moreover from this have "owLiveRunID w < owLiveRunID (ws ! k)"
      using pos(3) assms(4) k by (auto simp: order_less_le)
    ultimately show ?thesis using that split by (auto intro: less_trans)
  qed
  with pos split have "sortedUnique owLiveRunID (insertAt k w ws)"
    by (auto simp: sortedUnique_iff insertAt_def sorted_wrt_append intro: less_trans)
  moreover have "set (insertAt k w ws) = insert w (set ws)"
    using append_take_drop_id [of k ws] by (metis insertAt_def list.simps(15) set_append Un_insert_right)
  ultimately show ?thesis using assms(1,2) by (auto simp: sessionsOK_def)
qed

lemma merge_result:
  assumes "mergeControlledSessionOwnershipV1 existing requested = Inr merged"
  shows "validateCurrentControlledSessionOwnershipV1 merged = None" "owLiveRunID merged = owLiveRunID existing"
    "ownershipPlan merged = ownershipPlan existing" "ownershipPlan merged = ownershipPlan requested"
  using assms
  by (auto simp: mergeControlledSessionOwnershipV1_def ownershipPlan_def Let_def split: if_splits sum.splits option.splits)

lemma sessionsOK_update:
  assumes "sessionsOK ws" "k < length ws" "owLiveRunID w = owLiveRunID (ws ! k)"
    and "validateControlledSessionOwnershipV1 w = None"
  shows "sessionsOK (ws[k := w])"
proof -
  have "map owLiveRunID (ws[k := w]) = map owLiveRunID ws"
    using assms(2,3) by (simp add: map_update) (metis list_update_id map_update)
  then show ?thesis
    using assms set_update_subset_insert [of ws k w] by (fastforce simp: sessionsOK_def sortedUnique_iff)
qed

lemma validCurrent_valid:
  "validateCurrentControlledSessionOwnershipV1 w = None \<Longrightarrow> validateControlledSessionOwnershipV1 w = None"
  by (simp add: validateCurrentControlledSessionOwnershipV1_def split: if_splits)

section \<open>What an operation of the store promises\<close>

text \<open>
  An invariant of the store survives the three kinds of writes there are: a valid queue is
  stored, the queue file is removed, a lease file is removed. \<open>keeps\<close> is the contract of an
  operation: started in the invariant it ends in it, reports none of the errors in \<open>bad\<close>,
  and a result satisfies \<open>P\<close>.
\<close>

definition keeps :: "(operation_lock \<Rightarrow> bool) \<Rightarrow> (store_error \<Rightarrow> bool) \<Rightarrow> ('a \<Rightarrow> bool) \<Rightarrow> 'a op \<Rightarrow> bool" where
  "keeps I bad P f \<longleftrightarrow> (\<forall>l. I l \<longrightarrow> I (fst (f l)) \<and>
     (case snd (f l) of Inl e \<Rightarrow> \<not> bad e | Inr x \<Rightarrow> P x))"

text \<open>The errors that blame the stored data or the code rather than the caller or the disk.\<close>

fun corrupt :: "store_error \<Rightarrow> bool" where
  "corrupt (QueueFileInvalid _) = True"
| "corrupt (QueueRejected _) = True"
| "corrupt (StoreQueue e) = internalError e"
| "corrupt _ = False"

locale lease_contract =
  fixes I :: "operation_lock \<Rightarrow> bool" and bad :: "store_error \<Rightarrow> bool"
  assumes released: "I l \<Longrightarrow> I (l\<lparr>lkLeases := dropLease i (lkLeases l)\<rparr>)"
    and readable: "I l \<Longrightarrow> lkQueueFile l = Some q \<Longrightarrow> bad (QueueFileInvalid e) \<Longrightarrow> queueOK q"
    and bad_corrupt: "bad err \<Longrightarrow> corrupt err"
begin

lemma keeps_ret: "P x \<Longrightarrow> keeps I bad P (ret x)"
  by (simp add: keeps_def ret_def)

lemma keeps_raise: "\<not> corrupt e \<Longrightarrow> keeps I bad P (raise e)"
  using bad_corrupt by (auto simp: keeps_def raise_def)

lemma keeps_bind:
  assumes "keeps I bad Q f" and "\<And>x. Q x \<Longrightarrow> keeps I bad P (g x)"
  shows "keeps I bad P (bindOp f g)"
  unfolding keeps_def
proof (intro allI impI)
  fix l assume "I l"
  with assms(1) have f: "I (fst (f l))" "case snd (f l) of Inl e \<Rightarrow> \<not> bad e | Inr x \<Rightarrow> Q x"
    by (auto simp: keeps_def)
  obtain l' r where fl: "f l = (l', r)" by (cases "f l")
  show "I (fst (bindOp f g l)) \<and> (case snd (bindOp f g l) of Inl e \<Rightarrow> \<not> bad e | Inr x \<Rightarrow> P x)"
  proof (cases r)
    case (Inl e)
    with f fl show ?thesis by (simp add: bindOp_def)
  next
    case (Inr x)
    with f fl assms(2) [of x] show ?thesis by (simp add: bindOp_def keeps_def)
  qed
qed

lemma keeps_lift:
  assumes "\<And>e. r = Inl e \<Longrightarrow> \<not> corrupt (w e)" and "\<And>x. r = Inr x \<Longrightarrow> P x"
  shows "keeps I bad P (lift w r)"
  using assms bad_corrupt by (cases r) (auto simp: keeps_def lift_def)

lemma keeps_need: "(\<And>e. c = Some e \<Longrightarrow> \<not> corrupt (w e)) \<Longrightarrow> keeps I bad (\<lambda>_. c = None) (need w c)"
  using bad_corrupt by (cases c) (auto simp: keeps_def need_def)

lemma keeps_state: "(\<And>l. keeps I bad P (f l)) \<Longrightarrow> keeps I bad P (\<lambda>l. f l l)"
  by (auto simp: keeps_def)

lemma keeps_held: "keeps I bad (\<lambda>_. True) requireHeldLocked"
  using bad_corrupt [of LockNotHeld] by (auto simp: keeps_def requireHeldLocked_def)

lemma keeps_path: "keeps I bad (\<lambda>_. True) liveRunQueuePathLockedV1"
  unfolding liveRunQueuePathLockedV1_def by (rule keeps_held)

lemma keeps_terminalState: "keeps I bad (\<lambda>_. True) terminalStateLocked"
  unfolding terminalStateLocked_def
  using bad_corrupt [of TerminalStateUnreadable]
  by (intro keeps_bind [OF keeps_held]) (auto simp: keeps_def split: option.splits)

lemma keeps_writable: "keeps I bad (\<lambda>_. True) requireWritableLocked"
  unfolding requireWritableLocked_def
  using bad_corrupt [of TerminalGuarded]
  by (intro keeps_bind [OF keeps_terminalState]) (auto simp: keeps_def)

lemma keeps_retirement: "keeps I bad (\<lambda>_. True) requireRetirementLocked"
  unfolding requireRetirementLocked_def
  using bad_corrupt [of TerminalBinding]
  by (intro keeps_bind [OF keeps_terminalState]) (auto simp: keeps_def)

lemma keeps_boot: "keeps I bad (\<lambda>s. validateBootSessionIDV1 s = None) CurrentBootSessionIDV1"
  using bad_corrupt [of BootSessionUnavailable] bad_corrupt [of "BootSessionBad _"]
  by (auto simp: keeps_def CurrentBootSessionIDV1_def split: option.splits)

lemma keeps_read: "keeps I bad (\<lambda>(q, _). queueOK q) readLiveRunQueuePathV1"
  using bad_corrupt [of QueueUnreadable] readable newQueue_OK
  by (auto simp: keeps_def readLiveRunQueuePathV1_def ValidateLiveRunQueueV1_iff queueOK_valid
      split: option.splits)

lemma keeps_readQueue: "keeps I bad queueOK readQueue"
  unfolding readQueue_def
  by (intro keeps_bind [OF keeps_path] keeps_bind [OF keeps_read]) (auto intro: keeps_ret)

lemma keeps_abandoned: "keeps I bad (\<lambda>_. True) (queueEntryLeaseAbandonedV1 i)"
  using released bad_corrupt [of "LeaseNotRegular i"]
  by (auto simp: keeps_def queueEntryLeaseAbandonedV1_def split: option.splits lease.splits)

lemma keeps_removeLease: "keeps I bad (\<lambda>_. True) (removeQueueEntryLeasePathV1 i)"
  using released bad_corrupt [of "LeaseNotRegular i"]
  by (auto simp: keeps_def removeQueueEntryLeasePathV1_def split: option.splits lease.splits)

lemmas keeps_intros = keeps_bind [OF keeps_writable] keeps_bind [OF keeps_retirement]
  keeps_bind [OF keeps_path] keeps_bind [OF keeps_boot] keeps_bind [OF keeps_readQueue]

lemma keeps_update:
  assumes "queue_update f w" "queueOK q"
    and "\<And>x. f q = Inr x \<Longrightarrow> queueOK (w x) \<Longrightarrow> keeps I bad P (g x)"
  shows "keeps I bad P (bindOp (lift StoreQueue (f q)) g)"
proof (rule keeps_bind)
  show "keeps I bad (\<lambda>x. f q = Inr x \<and> queueOK (w x)) (lift StoreQueue (f q))"
    using assms(1,2) by (intro keeps_lift) (auto simp: queue_update_def)
qed (use assms(3) in auto)

end

text \<open>An invariant that also survives every change of the queue.\<close>

locale store_contract = lease_contract +
  assumes stored: "I l \<Longrightarrow> queueOK q \<Longrightarrow> I (l\<lparr>lkQueueFile := Some q\<rparr>)"
    and cleared: "I l \<Longrightarrow> I (l\<lparr>lkQueueFile := None\<rparr>)"
begin

lemma keeps_commit: "queueOK q \<Longrightarrow> keeps I bad (\<lambda>_. True) (commitLiveRunQueuePathV1 q)"
  using stored cleared bad_corrupt [of QueueWriteFailed]
  by (auto simp: keeps_def commitLiveRunQueuePathV1_def queueOK_valid split: option.splits)

lemma keeps_commit_ret: "queueOK q \<Longrightarrow> P x \<Longrightarrow> keeps I bad P (bindOp (commitLiveRunQueuePathV1 q) (\<lambda>_. ret x))"
  by (intro keeps_bind [OF keeps_commit] keeps_ret)

end

end
