(* ===== verification/LiveRunStoreSafety.thy ===== *)
theory LiveRunStoreSafety
  imports LiveRunStoreProofs
begin

text \<open>
  The contract of every locked operation: started with a valid queue file (or none) it leaves
  a valid queue file (or none), and it never fails because a queue it read or built is
  invalid. The same derivations, interpreted for another invariant, show that no operation
  touches the terminal guard, the boot session or the retirement binding.
\<close>

lemma removed_run_cleanup:
  assumes "queueOK q" "RemoveLiveRunV1 q i = Inr (updated, True)" "safeRecoveryIdentity container"
  defines "run \<equiv> (case find (\<lambda>e. runID e = i \<and> runKind e \<noteq> LiveRunKindControlV1) (elems (qRuns q)) of
      None \<Rightarrow> zeroRun | Some r \<Rightarrow> r)"
  shows "validateLiveRunContainerCleanupV1 \<lparr>clContainer = container, clRunID = runID run,
    clKind = runKind run, clName = runName run, clReason = LiveRunRecoveryCleanupFailedV1\<rparr> = None"
proof -
  let ?p = "\<lambda>e. runID e = i \<and> runKind e \<noteq> LiveRunKindControlV1"
  obtain rs where rs: "qRuns q = Some rs" "entriesOK rs" using assms(1) by (auto simp: queueOK_def)
  have "removeLiveQueueEntryV1 q i [LiveRunKindAppV1, LiveRunKindShellV1] = (updated, True)"
    using assms(1,2) by (auto simp: RemoveLiveRunV1_def queueOK_valid split: option.splits)
  then have "\<exists>e \<in> set rs. ?p e"
    by (auto simp: remove_result [OF assms(1) rs(1)] split: if_splits)
  then obtain r where r: "find ?p rs = Some r"
    by (cases "find ?p rs") (auto simp: find_None_iff)
  then have mem: "r \<in> set rs" "runKind r \<noteq> LiveRunKindControlV1"
    by (auto simp: find_Some_iff)
  with rs have "validateLiveRunV1 r = None"
    by (auto simp: entriesOK_def validateLiveQueueEntryV1_def)
  moreover have "run = r" using r rs by (simp add: run_def)
  ultimately show ?thesis using assms(3) by (intro validRun_cleanup) auto
qed

section \<open>Operations that change the queue\<close>

context store_contract
begin

lemma keeps_removalCommit:
  assumes "queueOK q" "queueOK q'" "activesKept q q'"
  shows "keeps I bad queueOK (commitRemovalQueueLockedV1 q q')"
proof -
  have "queueOK (removalQueue l q q')" for l
  proof (cases "length (lkRetirementState l) \<noteq> 0")
    case True
    obtain rs where rs: "qRuns q' = Some rs" using assms(2) by (auto simp: queueOK_def)
    have "\<forall>r \<in> set (retainActive (elems (qRuns q)) rs). isActive r"
      using assms(3) rs by (auto simp: retainActive_def activesKept_def list_ex_iff isActive_def)
    with True rs show ?thesis
      using queueOK_actives [OF assms(2) rs retainActive_subseq] by (simp add: removalQueue_def)
  next
    case False
    then show ?thesis using assms(2) by (simp add: removalQueue_def)
  qed
  then have "keeps I bad queueOK (\<lambda>l. bindOp (commitLiveRunQueuePathV1 (removalQueue k q q')) (\<lambda>_. ret (removalQueue k q q')) l)" for k
    by (intro keeps_commit_ret)
  from keeps_state [OF this] show ?thesis
    by (simp add: commitRemovalQueueLockedV1_def Let_def [abs_def] keeps_def)
qed

lemma keeps_AdmitLiveRun: "keeps I bad (\<lambda>_. True) (lockAdmitLiveRunV1 c wait)"
  unfolding lockAdmitLiveRunV1_def
  by (intro keeps_intros keeps_bind [OF keeps_read])
    (auto intro!: keeps_update [OF admitRun.queue_update_axioms] keeps_commit_ret split: prod.splits)

lemma keeps_AdmitControlMarker: "keeps I bad (\<lambda>_. True) (lockAdmitControlMarkerV1 c wait)"
  unfolding lockAdmitControlMarkerV1_def
  by (intro keeps_intros keeps_bind [OF keeps_read])
    (auto intro!: keeps_update [OF admitMarker.queue_update_axioms] keeps_commit_ret split: prod.splits)

lemma keeps_ActivateReadyLiveRun: "keeps I bad (\<lambda>_. True) (lockActivateReadyLiveRunV1 i)"
  unfolding lockActivateReadyLiveRunV1_def
  by (intro keeps_intros) (auto intro!: keeps_update [OF activateRun.queue_update_axioms] keeps_commit)

lemma keeps_RemoveLiveRun: "keeps I bad (\<lambda>(q, _). queueOK q) (lockRemoveLiveRunV1 i)"
  unfolding lockRemoveLiveRunV1_def
proof (intro keeps_intros keeps_update [OF removeRun.queue_update_axioms])
  fix q x assume "queueOK q" "RemoveLiveRunV1 q i = Inr x" "queueOK (fst x)"
  moreover from this have "activesKept q (fst x)" by (auto intro: removeRunActive.update_actives)
  ultimately show "keeps I bad (\<lambda>(q, _). queueOK q)
      (case x of (updated, removed) \<Rightarrow> if \<not> removed then ret (updated, removed)
        else bindOp (commitRemovalQueueLockedV1 q updated) (\<lambda>q'. ret (q', True)))"
    by (cases x) (auto intro!: keeps_ret keeps_bind [OF keeps_removalCommit])
qed

lemma keeps_RemoveControlMarker: "keeps I bad (\<lambda>(q, _). queueOK q) (lockRemoveControlMarkerV1 i)"
  unfolding lockRemoveControlMarkerV1_def
proof (intro keeps_intros keeps_update [OF removeMarker.queue_update_axioms])
  fix q x assume "queueOK q" "RemoveControlMarkerV1 q i = Inr x" "queueOK (fst x)"
  moreover from this have "activesKept q (fst x)" by (auto intro: removeMarkerActive.update_actives)
  ultimately show "keeps I bad (\<lambda>(q, _). queueOK q)
      (case x of (updated, removed) \<Rightarrow> if \<not> removed then ret (updated, removed)
        else bindOp (commitRemovalQueueLockedV1 q updated) (\<lambda>q'. ret (q', True)))"
    by (cases x) (auto intro!: keeps_ret keeps_bind [OF keeps_removalCommit])
qed

lemma keeps_CancelWaiting: "keeps I bad (\<lambda>(q, _). queueOK q) lockCancelWaitingLiveRunsV1"
  unfolding lockCancelWaitingLiveRunsV1_def
proof (intro keeps_intros keeps_update [OF cancelRuns.queue_update_axioms])
  fix q x assume "queueOK q" "CancelWaitingLiveRunsV1 q = Inr x" "queueOK (fst x)"
  moreover from this have "activesKept q (fst x)" by (auto intro: cancelRunsActive.update_actives)
  ultimately show "keeps I bad (\<lambda>(q, _). queueOK q)
      (case x of (updated, canceled) \<Rightarrow> if canceled = [] then ret (updated, canceled)
        else bindOp (commitRemovalQueueLockedV1 q updated) (\<lambda>q'. ret (q', canceled)))"
    by (cases x) (auto intro!: keeps_ret keeps_bind [OF keeps_removalCommit])
qed


lemma keeps_RecordLiveRunContainer: "keeps I bad (\<lambda>_. True) (RecordLiveRunContainerV1 i container)"
  unfolding RecordLiveRunContainerV1_def Let_def
proof (intro keeps_bind [OF keeps_need] keeps_intros, goal_cases)
  case (2 _)
  have "keeps I bad (\<lambda>_. True) (commitLiveRunQueuePathV1
      (q\<lparr>qRuns := Some ((elems (qRuns q))[k := (elems (qRuns q) ! k)\<lparr>runContainer := container\<rparr>])\<rparr>))"
    if "queueOK q" "findIndex (\<lambda>r. runID r = i) 0 (elems (qRuns q)) = Some k"
      "runStatus (elems (qRuns q) ! k) = LiveRunStatusActiveV1" "safeRecoveryIdentity container" for q k
  proof -
    from that(1) obtain rs where "qRuns q = Some rs" by (auto simp: queueOK_def)
    with that 2 findIndex_Some [OF that(2)] show ?thesis
      by (auto intro!: keeps_commit queueOK_recordContainer simp: isActive_def)
  qed
  then show ?case
    by (auto intro!: keeps_raise keeps_intros split: option.splits)
qed simp

lemma keeps_ActivateReadyControlMarker: "keeps I bad (\<lambda>_. True) (ActivateReadyControlMarkerV1 i)"
  unfolding ActivateReadyControlMarkerV1_def Let_def
proof (intro keeps_bind [OF keeps_need] keeps_intros, goal_cases)
  case (2 _ _ q)
  have "keeps I bad (\<lambda>_. True) (commitLiveRunQueuePathV1
      (q\<lparr>qRuns := Some (setStatus LiveRunStatusActiveV1 k (elems (qRuns q)))\<rparr>))"
    if "findIndex (\<lambda>e. runID e = i \<and> runKind e = LiveRunKindControlV1) 0 (elems (qRuns q)) = Some k"
      "runStatus (elems (qRuns q) ! k) = LiveRunStatusReadyV1" for k
  proof -
    obtain rs where rs: "qRuns q = Some rs" "entriesOK rs" using 2 by (auto simp: queueOK_def)
    with that findIndex_Some [OF that(1)] have k: "k < length rs" "runKind (rs ! k) = LiveRunKindControlV1" by auto
    with rs have "runExclusive (rs ! k)"
      by (auto intro: validMarker_exclusive simp: entriesOK_def)
    with 2 rs k that show ?thesis
      by (auto intro!: keeps_commit queueOK_activateMarker simp: isReady_def)
  qed
  then show ?case by (auto intro!: keeps_raise split: option.splits)
qed simp

section \<open>Ownership and cleanup records\<close>

lemma keeps_storeOwnership:
  assumes "queueOK q" "validateCurrentControlledSessionOwnershipV1 w = None"
  shows "keeps I bad (\<lambda>m. validateCurrentControlledSessionOwnershipV1 m = None
     \<and> ownershipPlan m = ownershipPlan w) (storeOwnership q w)"
proof -
  let ?ws = "qControlledSessions q"
  define k where "k = sortSearch (length ?ws) (\<lambda>index. owLiveRunID (?ws ! index) \<ge> owLiveRunID w)"
  have ws: "sessionsOK ?ws" using assms(1) by (simp add: queueOK_def)
  show ?thesis
  proof (cases "k < length ?ws \<and> owLiveRunID (?ws ! k) = owLiveRunID w")
    case True
    have "keeps I bad (\<lambda>m. mergeControlledSessionOwnershipV1 (?ws ! k) w = Inr m)
        (lift (\<lambda>e. e) (mergeControlledSessionOwnershipV1 (?ws ! k) w))"
      by (intro keeps_lift)
        (auto simp: mergeControlledSessionOwnershipV1_def mergeID_def Let_def split: if_splits sum.splits option.splits)
    then have "keeps I bad (\<lambda>m. validateCurrentControlledSessionOwnershipV1 m = None \<and> ownershipPlan m = ownershipPlan w)
      (bindOp (lift (\<lambda>e. e) (mergeControlledSessionOwnershipV1 (?ws ! k) w)) (\<lambda>merged.
             if merged = ?ws ! k then ret merged
             else bindOp (commitLiveRunQueuePathV1 (q\<lparr>qControlledSessions := ?ws[k := merged]\<rparr>)) (\<lambda>_. ret merged)))"
    proof (rule keeps_bind)
      fix m assume "mergeControlledSessionOwnershipV1 (?ws ! k) w = Inr m"
      note merged = merge_result [OF this] validCurrent_valid [OF merge_result(1) [OF this]]
      show "keeps I bad (\<lambda>m. validateCurrentControlledSessionOwnershipV1 m = None \<and> ownershipPlan m = ownershipPlan w)
          (if m = ?ws ! k then ret m
           else bindOp (commitLiveRunQueuePathV1 (q\<lparr>qControlledSessions := ?ws[k := m]\<rparr>)) (\<lambda>_. ret m))"
        using assms(1) True ws merged
        by (auto intro!: keeps_ret keeps_commit_ret queueOK_sessions sessionsOK_update)
    qed
    with True show ?thesis unfolding storeOwnership_def Let_def k_def [symmetric] by simp
  next
    case False
    then have "sessionsOK (insertAt k w ?ws)"
      unfolding k_def using ws assms(2) validCurrent_valid by (intro sessionsOK_insert)
    with assms have "keeps I bad (\<lambda>m. validateCurrentControlledSessionOwnershipV1 m = None \<and> ownershipPlan m = ownershipPlan w)
        (bindOp (commitLiveRunQueuePathV1 (q\<lparr>qControlledSessions := insertAt k w ?ws\<rparr>)) (\<lambda>_. ret w))"
      by (intro keeps_commit_ret queueOK_sessions) auto
    with False show ?thesis unfolding storeOwnership_def Let_def k_def [symmetric] by (simp only: if_False)
  qed
qed


lemma keeps_RecordControlledSessionOwnership:
  "keeps I bad (\<lambda>m. validateCurrentControlledSessionOwnershipV1 m = None)
     (RecordControlledSessionOwnershipV1 ownership)"
  unfolding RecordControlledSessionOwnershipV1_def Let_def
proof (intro keeps_bind [OF keeps_need] keeps_intros, goal_cases)
  case (2 _ _ q)
  have store: "keeps I bad (\<lambda>m. validateCurrentControlledSessionOwnershipV1 m = None) (storeOwnership q w)"
    if "validateCurrentControlledSessionOwnershipV1 w = None" for w
    using keeps_storeOwnership [OF 2(3) that] by (auto simp: keeps_def split: sum.splits)
  have "keeps I bad (\<lambda>m. validateCurrentControlledSessionOwnershipV1 m = None)
     (\<lambda>l. (case sessionParticipant (lkDirectory l) w of
                None \<Rightarrow> raise (SessionDirectory (lkDirectory l))
              | Some participant \<Rightarrow>
                  if g \<noteq> coGenerationReference participant
                  then raise (SessionGeneration (owLiveRunID w))
                  else storeOwnership q w) l)"
    if "validateCurrentControlledSessionOwnershipV1 w = None" for w g
    by (rule keeps_state) (auto intro!: keeps_raise store [OF that] split: option.splits)
  then show ?case
    by (auto intro!: keeps_raise keeps_bind [OF keeps_need] split: option.split)
qed simp

lemma keeps_CompleteControlledSession: "keeps I bad (\<lambda>_. True) (CompleteControlledSessionV1 i)"
  unfolding CompleteControlledSessionV1_def
proof (intro keeps_bind [OF keeps_need] keeps_intros keeps_update [OF removeRun.queue_update_axioms], goal_cases)
  case (3 _ _ q x)
  moreover from this have "activesKept q (fst x)" by (auto intro: removeRunActive.update_actives)
  moreover have "sessionsOK ws" if "removeSession i (qControlledSessions (fst x)) = Some ws" for ws
    using that 3 by (auto simp: queueOK_def dest: removeSession_subseq sessionsOK_subseq)
  ultimately show ?case
    by (cases x) (auto intro!: keeps_ret keeps_bind [OF keeps_removalCommit] queueOK_sessions
        simp: activesKept_def split: option.splits)
qed simp_all

lemma keeps_CompleteLiveRunContainerCleanup:
  "keeps I bad (\<lambda>_. True) (CompleteLiveRunContainerCleanupV1 container)"
  unfolding CompleteLiveRunContainerCleanupV1_def
  by (auto intro!: keeps_raise keeps_intros keeps_ret keeps_commit_ret queueOK_cleanup split: option.splits)
    (auto simp: queueOK_def dest: removeCleanup_subseq cleanupsOK_subseq)

lemma keeps_CompleteLiveRunWithContainerCleanup:
  "keeps I bad (\<lambda>_. True) (CompleteLiveRunWithContainerCleanupV1 i container)"
  unfolding CompleteLiveRunWithContainerCleanupV1_def Let_def
proof (intro keeps_bind [OF keeps_need], goal_cases)
  case (2 _)
  let ?run = "\<lambda>q. case find (\<lambda>e. runID e = i \<and> runKind e \<noteq> LiveRunKindControlV1) (elems (qRuns q)) of
      None \<Rightarrow> zeroRun | Some r \<Rightarrow> r"
  let ?cleanup = "\<lambda>q. \<lparr>clContainer = container, clRunID = runID (?run q), clKind = runKind (?run q),
      clName = runName (?run q), clReason = LiveRunRecoveryCleanupFailedV1\<rparr>"
  have "keeps I bad (\<lambda>_. True) (bindOp (commitRemovalQueueLockedV1 q
          (updated\<lparr>qCleanup := normalizeCleanup (qCleanup updated @ [?cleanup q])\<rparr>)) (\<lambda>_. ret True))"
    if "queueOK q" "RemoveLiveRunV1 q i = Inr (updated, True)" "safeRecoveryIdentity container" for q updated
  proof -
    from that have up: "queueOK updated" "activesKept q updated"
      using removeRun.update_valid [OF that(1,2)] removeRunActive.update_actives [OF that(1,2)] by simp_all
    have "validateLiveRunContainerCleanupV1 (?cleanup q) = None"
      using removed_run_cleanup [OF that] .
    then have "cleanupsOK (normalizeCleanup (qCleanup updated @ [?cleanup q]))"
      using up by (intro normalizeCleanup_OK) (auto simp: queueOK_def cleanupsOK_def)
    with that(1) up show ?thesis
      by (intro keeps_bind [OF keeps_removalCommit] keeps_ret queueOK_cleanup) (auto simp: activesKept_def)
  qed
  then show ?case
    by (auto intro!: keeps_raise keeps_intros keeps_update [OF removeRun.queue_update_axioms] keeps_ret)
qed simp

end

section \<open>Recovery\<close>

text \<open>
  What the recovery loop knows after the entries \<open>seen\<close>: it kept a subsequence of them (only
  active ones under a terminal guard), every cleanup record is valid and none was lost, every
  removed entry's container is recorded for cleanup, and every entry is accounted for.
\<close>

definition recovered ::
    "bool \<Rightarrow> LiveRunContainerCleanupV1 list \<Rightarrow> LiveRunV1 list \<Rightarrow> recovery_acc \<Rightarrow> bool" where
  "recovered terminal cleanup seen acc \<longleftrightarrow>
     subseq (raRuns acc) seen \<and> (terminal \<longrightarrow> (\<forall>r \<in> set (raRuns acc). isActive r))
     \<and> (\<forall>c \<in> set (raCleanup acc). validateLiveRunContainerCleanupV1 c = None)
     \<and> set cleanup \<subseteq> set (raCleanup acc)
     \<and> (\<forall>(r, reason) \<in> set (raRemoved acc). r \<in> set seen \<and>
          (runContainer r \<noteq> [] \<longrightarrow> runContainer r \<in> clContainer ` set (raCleanup acc)))
     \<and> (\<forall>r \<in> set seen. r \<in> set (raRuns acc) \<or> r \<in> fst ` set (raRemoved acc) \<or> terminal \<and> \<not> isActive r)"

lemma recovered_keep:
  assumes "recovered terminal cleanup seen acc" "\<not> terminal \<or> isActive e"
  shows "recovered terminal cleanup (seen @ [e]) (acc\<lparr>raRuns := raRuns acc @ [e]\<rparr>)"
  using assms by (auto simp: recovered_def list_emb_append_mono)

lemma recovered_skip:
  assumes "recovered terminal cleanup seen acc" "terminal" "\<not> isActive e"
  shows "recovered terminal cleanup (seen @ [e]) acc"
  using assms by (auto simp: recovered_def intro: list_emb_append2 subseq_order.trans)

lemma recovered_remove:
  assumes "recovered terminal cleanup seen acc"
  shows "runContainer e = [] \<Longrightarrow>
      recovered terminal cleanup (seen @ [e]) (acc\<lparr>raRemoved := raRemoved acc @ [(e, reason)]\<rparr>)"
    and "validateLiveRunContainerCleanupV1 c = None \<Longrightarrow> clContainer c = runContainer e \<Longrightarrow>
      recovered terminal cleanup (seen @ [e]) (acc\<lparr>raRemoved := raRemoved acc @ [(e, reason)], raCleanup := raCleanup acc @ [c]\<rparr>)"
  using assms by (auto simp: recovered_def intro: subseq_rev_drop_many)

lemma validEntry_container:
  assumes "validateLiveQueueEntryV1 e = None" "runContainer e \<noteq> []"
    and "reason \<in> {LiveRunRecoveryAbandonedOwnerV1, LiveRunRecoveryPriorSessionV1, LiveRunRecoveryLegacyEntryV1}"
  shows "validateLiveRunContainerCleanupV1 \<lparr>clContainer = runContainer e, clRunID = runID e,
      clKind = runKind e, clName = runName e, clReason = reason\<rparr> = None"
proof -
  have "runKind e \<noteq> LiveRunKindControlV1"
    using assms(1,2) by (auto simp: validateLiveQueueEntryV1_def split: if_splits)
  with assms(1) have "validateLiveRunV1 e = None" by (simp add: validateLiveQueueEntryV1_def)
  with assms show ?thesis by (intro validRun_cleanup validRun_parts) auto
qed

context lease_contract
begin

lemma keeps_pass: "keeps I bad (\<lambda>_. True) (need w None)"
  by (simp add: keeps_def need_def)

lemma keeps_recoveryReason:
  "keeps I bad (\<lambda>reason. reason \<in> {LiveRunRecoveryEmpty, LiveRunRecoveryAbandonedOwnerV1,
      LiveRunRecoveryPriorSessionV1, LiveRunRecoveryLegacyEntryV1}) (recoveryReason session e)"
  unfolding recoveryReason_def
  by (auto intro!: keeps_ret keeps_bind [OF keeps_abandoned] split: if_splits)

lemma keeps_recoverEntry:
  assumes "recovered terminal cleanup seen acc" "validateLiveQueueEntryV1 e = None"
  shows "keeps I bad (recovered terminal cleanup (seen @ [e])) (recoverEntry session terminal acc e)"
  unfolding recoverEntry_def
proof (rule keeps_bind [OF keeps_recoveryReason])
  fix reason
  assume reason: "reason \<in> {LiveRunRecoveryEmpty, LiveRunRecoveryAbandonedOwnerV1,
      LiveRunRecoveryPriorSessionV1, LiveRunRecoveryLegacyEntryV1}"
  let ?acc = "acc\<lparr>raRemoved := raRemoved acc @ [(e, reason)]\<rparr>"
  let ?new = "if runContainer e \<noteq> [] then ?acc\<lparr>raCleanup := raCleanup ?acc @
                 [\<lparr>clContainer = runContainer e, clRunID = runID e, clKind = runKind e,
                   clName = runName e, clReason = reason\<rparr>]\<rparr> else ?acc"
  have "recovered terminal cleanup (seen @ [e]) ?new" if "reason \<noteq> LiveRunRecoveryEmpty"
  proof (cases "runContainer e = []")
    case True
    then show ?thesis using recovered_remove(1) [OF assms(1)] by simp
  next
    case False
    have "validateLiveRunContainerCleanupV1 \<lparr>clContainer = runContainer e, clRunID = runID e,
        clKind = runKind e, clName = runName e, clReason = reason\<rparr> = None"
      using reason that assms(2) False by (intro validEntry_container) auto
    with False show ?thesis using recovered_remove(2) [OF assms(1)] by simp
  qed
  then show "keeps I bad (recovered terminal cleanup (seen @ [e]))
     (if reason = LiveRunRecoveryEmpty then
       ret (if \<not> terminal \<or> runStatus e = LiveRunStatusActiveV1
            then acc\<lparr>raRuns := raRuns acc @ [e]\<rparr> else acc)
     else
       bindOp (if reason \<noteq> LiveRunRecoveryAbandonedOwnerV1
               then removeQueueEntryLeasePathV1 (runID e) else ret ()) (\<lambda>_. let acc' = ?acc in
       ret (if runContainer e \<noteq> [] then acc'\<lparr>raCleanup := raCleanup acc' @
                 [\<lparr>clContainer = runContainer e, clRunID = runID e, clKind = runKind e,
                   clName = runName e, clReason = reason\<rparr>]\<rparr> else acc')))"
    using recovered_keep [OF assms(1)] recovered_skip [OF assms(1)]
    unfolding Let_def
    by (auto simp: isActive_def intro!: keeps_ret keeps_bind [of "\<lambda>_. True"] keeps_removeLease)
qed

lemma keeps_recoverEntries:
  assumes "recovered terminal cleanup seen acc" "\<forall>e \<in> set es. validateLiveQueueEntryV1 e = None"
  shows "keeps I bad (recovered terminal cleanup (seen @ es)) (recoverEntries session terminal acc es)"
  using assms
proof (induction es arbitrary: seen acc)
  case Nil
  then show ?case by (simp add: keeps_ret)
next
  case (Cons e es)
  then have "keeps I bad (recovered terminal cleanup (seen @ [e])) (recoverEntry session terminal acc e)"
    by (intro keeps_recoverEntry) auto
  then have "keeps I bad (recovered terminal cleanup ((seen @ [e]) @ es))
      (bindOp (recoverEntry session terminal acc e) (\<lambda>acc'. recoverEntries session terminal acc' es))"
    by (rule keeps_bind, intro Cons.IH) (use Cons.prems in auto)
  then show ?case by simp
qed

lemma keeps_recoverSessions:
  "keeps I bad (\<lambda>ws'. subseq ws' ws) (recoverSessions session retained ws)"
proof (induction ws)
  case Nil
  then show ?case by (simp add: keeps_ret)
next
  case (Cons w ws)
  have keep: "keeps I bad (\<lambda>ws'. subseq ws' (w # ws)) (bindOp (recoverSessions session retained ws) (\<lambda>rest. ret (w # rest)))"
    by (intro keeps_bind [OF Cons.IH] keeps_ret) simp
  have drop: "keeps I bad (\<lambda>ws'. subseq ws' (w # ws)) (recoverSessions session retained ws)"
    using Cons.IH by (auto simp: keeps_def split: sum.splits)
  show ?case using keep drop
    by (auto intro!: keeps_bind [OF keeps_abandoned])
qed

lemma keeps_removeOrphans: "keeps I bad (\<lambda>_. True) (removeOrphans retained ids)"
  by (induction ids) (auto intro!: keeps_ret keeps_bind [OF keeps_abandoned])

lemma keeps_removeOrphaned: "keeps I bad (\<lambda>_. True) (removeOrphanedQueueEntryLeasesV1 retained)"
  using keeps_state [OF keeps_removeOrphans] unfolding removeOrphanedQueueEntryLeasesV1_def [abs_def] .

end


lemma recoveredQueue_eq:
  "recoveredQueue terminal q acc =
     (if terminal then q\<lparr>qRuns := Some (raRuns acc)\<rparr> else promoteLiveRunsV1 (q\<lparr>qRuns := Some (raRuns acc)\<rparr>))
       \<lparr>qCleanup := normalizeCleanup (raCleanup acc)\<rparr>"
  by (simp add: recoveredQueue_def promoteLiveRunsV1_def Let_def)

lemma recoveredQueue_OK:
  assumes "queueOK q" "qRuns q = Some rs" "recovered terminal (qCleanup q) rs acc"
  shows "queueOK (recoveredQueue terminal q acc)"
proof -
  have "cleanupsOK (normalizeCleanup (raCleanup acc))"
    using assms(3) by (intro normalizeCleanup_OK) (simp add: recovered_def)
  moreover have "queueOK (q\<lparr>qRuns := Some (raRuns acc)\<rparr>)" if terminal
    using assms that by (intro queueOK_actives [OF assms(1,2)]) (auto simp: recovered_def)
  moreover have "queueOK (promoteLiveRunsV1 (q\<lparr>qRuns := Some (raRuns acc)\<rparr>))"
    using assms(3) by (intro queueOK_drop_promote [OF assms(1,2)]) (simp add: recovered_def)
  ultimately show ?thesis
    unfolding recoveredQueue_eq by (auto intro: queueOK_cleanup)
qed

text \<open>The containers a queue names: those of its entries and those recorded for cleanup.\<close>

definition containersOf :: "LiveRunQueueV1 \<Rightarrow> string set" where
  "containersOf q = (runContainer ` set (elems (qRuns q)) \<union> clContainer ` set (qCleanup q)) - {[]}"

lemma promote_containers:
  assumes "laidOut rs"
  shows "runContainer ` set (promoteRuns rs) = runContainer ` set rs"
proof -
  have "map runContainer (promoteRuns rs) = map runContainer rs"
  proof (cases "waitings rs")
    case Nil
    with assms show ?thesis by (simp add: promoteRuns_eq)
  next
    case (Cons w ws)
    have "map runContainer rs = map runContainer (actives rs @ readies rs @ w # ws)"
      using laidOut_split [OF assms] Cons by simp
    with assms Cons show ?thesis by (auto simp: promoteRuns_eq)
  qed
  then show ?thesis by (metis list.set_map)
qed

lemma recoveredQueue_containers:
  assumes "queueOK q" "qRuns q = Some rs" "recovered terminal (qCleanup q) rs acc"
  shows "containersOf q \<subseteq> containersOf (recoveredQueue terminal q acc)"
proof
  fix c assume c: "c \<in> containersOf q"
  have sub: "subseq (raRuns acc) rs" using assms(3) by (simp add: recovered_def)
  have laid: "laidOut (raRuns acc)"
    using assms(1,2) laidOut_subseq [OF sub] by (auto simp: queueOK_def disciplined_def)
  have runs: "runContainer ` set (elems (qRuns (recoveredQueue terminal q acc))) = runContainer ` set (raRuns acc)"
    using promote_containers [OF laid] by (simp add: recoveredQueue_eq promoteLiveRunsV1_def)
  have cleanup: "clContainer ` set (qCleanup (recoveredQueue terminal q acc)) = clContainer ` set (raCleanup acc)"
    using normalizeCleanup_containers by (simp add: recoveredQueue_eq)
  have "c \<in> runContainer ` set (raRuns acc) \<union> clContainer ` set (raCleanup acc)"
  proof (cases "c \<in> clContainer ` set (qCleanup q)")
    case True
    with assms(3) show ?thesis by (auto simp: recovered_def)
  next
    case False
    with c assms(2) obtain r where r: "r \<in> set rs" "c = runContainer r" "runContainer r \<noteq> []"
      by (auto simp: containersOf_def)
    then have "isActive r"
      using assms(1,2) validEntry_pending_container [of r] by (auto simp: queueOK_def entriesOK_def)
    with r assms(3) show ?thesis by (fastforce simp: recovered_def)
  qed
  with c runs cleanup show "c \<in> containersOf (recoveredQueue terminal q acc)"
    by (auto simp: containersOf_def)
qed

context store_contract
begin

lemma keeps_recover: "keeps I bad (\<lambda>_. True) (recoverLiveRunQueuePathV1 session terminal)"
  unfolding recoverLiveRunQueuePathV1_def Let_def
proof (intro keeps_bind [OF keeps_need] keeps_bind [OF keeps_read], goal_cases)
  case (2 _ x)
  obtain q p where x: "x = (q, p)" by (cases x)
  obtain rs where rs: "qRuns q = Some rs" using 2 x by (auto simp: queueOK_def)
  let ?init = "\<lparr>raRuns = [], raCleanup = qCleanup q, raRemoved = []\<rparr>"
  have "recovered terminal (qCleanup q) [] ?init" "\<forall>e \<in> set rs. validateLiveQueueEntryV1 e = None"
    using 2 x rs by (auto simp: recovered_def queueOK_def cleanupsOK_def entriesOK_def)
  from keeps_recoverEntries [OF this, of session]
  have entries: "keeps I bad (recovered terminal (qCleanup q) rs) (recoverEntries session terminal ?init rs)" by simp
  have ok: "queueOK (recoveredQueue terminal q acc)" if "recovered terminal (qCleanup q) rs acc" for acc
    using 2 x recoveredQueue_OK [OF _ rs that] by simp
  show ?case
    unfolding x prod.case rs elems_simps
    by (rule keeps_bind [OF entries])
      (auto intro!: keeps_pass keeps_bind [of "\<lambda>_. True"] keeps_commit keeps_ret ok
        keeps_bind [OF keeps_recoverSessions] keeps_bind [OF keeps_removeOrphaned] simp: queueOK_valid [OF ok])
qed simp

lemma keeps_RecoverLiveRunQueue: "keeps I bad (\<lambda>_. True) RecoverLiveRunQueueV1"
  unfolding RecoverLiveRunQueueV1_def
proof (intro keeps_intros)
  fix session
  show "keeps I bad (\<lambda>_. True) (\<lambda>l. recoverLiveRunQueuePathV1 session (length (lkRetirementState l) \<noteq> 0) l)"
    using keeps_state [of _ "\<lambda>l. recoverLiveRunQueuePathV1 session (length (lkRetirementState l) \<noteq> 0)"]
      keeps_recover by blast
qed

lemma keeps_RecoverAbandonedControlMarker: "keeps I bad (\<lambda>_. True) RecoverAbandonedControlMarkerV1"
  unfolding RecoverAbandonedControlMarkerV1_def
  by (intro keeps_bind [OF keeps_RecoverLiveRunQueue] keeps_ret) simp

end

section \<open>The invariants of the store\<close>

definition storeOK :: "operation_lock \<Rightarrow> bool" where
  "storeOK l \<longleftrightarrow> (case lkQueueFile l of None \<Rightarrow> True | Some q \<Rightarrow> queueOK q)"

interpretation validStore: store_contract storeOK corrupt
  by unfold_locales (auto simp: storeOK_def split: option.splits)

text \<open>What no queue operation ever changes: the lock, the guard, the binding, the session.\<close>

definition sameLock :: "operation_lock \<Rightarrow> operation_lock \<Rightarrow> bool" where
  "sameLock l l' \<longleftrightarrow> lkHeld l' = lkHeld l \<and> lkGuard l' = lkGuard l
     \<and> lkRetirementState l' = lkRetirementState l \<and> lkDirectory l' = lkDirectory l
     \<and> lkBootSession l' = lkBootSession l \<and> lkReadFails l' = lkReadFails l \<and> lkWriteFails l' = lkWriteFails l"

interpretation lockFrame: store_contract "sameLock l" "\<lambda>_. False" for l
  by unfold_locales (auto simp: sameLock_def)

text \<open>What the operations that only take or release leases never change: the queue file.\<close>

definition sameQueue :: "LiveRunQueueV1 option \<Rightarrow> operation_lock \<Rightarrow> bool" where
  "sameQueue f l \<longleftrightarrow> lkQueueFile l = f"

interpretation queueFrame: lease_contract "sameQueue f" "\<lambda>_. False" for f
  by unfold_locales (auto simp: sameQueue_def)

end
