(* ===== verification/LiveRunProperties.thy ===== *)
theory LiveRunProperties
  imports LiveRunStoreSafety "HOL-Library.Multiset"
begin

text \<open>
  The properties of the live-run queue and of its store: each operation computes what the
  abstract scheduler computes, whole histories keep the discipline, and the store keeps its
  data. The samples at the start are the concrete inputs of the witnesses.
\<close>

section \<open>Samples\<close>

definition sampleRun :: "string \<Rightarrow> bool \<Rightarrow> LiveRunStatusV1 \<Rightarrow> LiveRunV1" where
  "sampleRun i exclusive status =
     \<lparr>runID = i, runKind = LiveRunKindShellV1, runName = ''shell'', runGenerationReference = ''generation-1'',
      runBootSession = ''boot-1'', runStatus = status, runExclusive = exclusive, runWritableMount = [],
      runWritablePaths = [], runContainer = []\<rparr>"

abbreviation runOne :: string where "runOne \<equiv> ''run-0000000000000001''"
abbreviation runTwo :: string where "runTwo \<equiv> ''run-0000000000000002''"

abbreviation runThree :: string where "runThree \<equiv> ''run-0000000000000003''"

definition busyQueue :: LiveRunQueueV1 where
  "busyQueue = NewLiveRunQueueV1\<lparr>qRuns := Some [sampleRun runOne True LiveRunStatusActiveV1,
     sampleRun runTwo False LiveRunStatusWaitingV1]\<rparr>"

definition readyQueue :: LiveRunQueueV1 where
  "readyQueue = NewLiveRunQueueV1\<lparr>qRuns := Some [sampleRun runTwo False LiveRunStatusReadyV1]\<rparr>"

definition pairQueue :: LiveRunQueueV1 where
  "pairQueue = NewLiveRunQueueV1\<lparr>qRuns := Some [sampleRun runOne False LiveRunStatusActiveV1,
     sampleRun runTwo False LiveRunStatusActiveV1]\<rparr>"

lemma sampleRun_simps [simp]:
  "runID (sampleRun i x st) = i" "runStatus (sampleRun i x st) = st" "runExclusive (sampleRun i x st) = x"
  "runKind (sampleRun i x st) = LiveRunKindShellV1" "runContainer (sampleRun i x st) = []"
  "runBootSession (sampleRun i x st) = ''boot-1''" "(sampleRun i x st)\<lparr>runStatus := st'\<rparr> = sampleRun i x st'"
  by (simp_all add: sampleRun_def)

lemma sampleQueue_simps [simp]:
  "qRuns busyQueue = Some [sampleRun runOne True LiveRunStatusActiveV1, sampleRun runTwo False LiveRunStatusWaitingV1]"
  "qRuns readyQueue = Some [sampleRun runTwo False LiveRunStatusReadyV1]"
  "qRuns pairQueue = Some [sampleRun runOne False LiveRunStatusActiveV1, sampleRun runTwo False LiveRunStatusActiveV1]"
  by (simp_all add: busyQueue_def readyQueue_def pairQueue_def)

lemma newRuns: "qRuns NewLiveRunQueueV1 = Some []"
  by (simp add: NewLiveRunQueueV1_def)

lemma sampleRun_valid:
  assumes "liveRunIDPatternV1 i"
    and "status \<in> {LiveRunStatusActiveV1, LiveRunStatusReadyV1, LiveRunStatusWaitingV1}"
  shows "validateLiveRunV1 (sampleRun i exclusive status) = None"
proof -
  have "safeRecoveryIdentity ''shell''" "safeRecoveryIdentity ''generation-1''" "safeRecoveryIdentity ''boot-1''"
    by (rule safeRecoveryIdentity_plain, simp_all add: plainText_def hasPrefix_def)+
  then show ?thesis
    using assms by (auto simp: validateLiveRunV1_def sampleRun_def ValidateLiveRunIDV1_def
        validateBootSessionIDV1_def maxBootSessionIDLengthV1_def)
qed

lemma sampleIDs:
  "liveRunIDPatternV1 runOne" "liveRunIDPatternV1 runTwo" "liveRunIDPatternV1 runThree"
  by (simp_all add: liveRunIDPatternV1_def hexPattern_def hasPrefix_def isLowerHex_def isDigit_def)

lemma samples_valid:
  "ValidateLiveRunQueueV1 busyQueue = None" "ValidateLiveRunQueueV1 readyQueue = None"
  "ValidateLiveRunQueueV1 NewLiveRunQueueV1 = None" "ValidateLiveRunQueueV1 pairQueue = None"
  using newQueue_OK
  by (auto simp: ValidateLiveRunQueueV1_iff queueOK_def busyQueue_def readyQueue_def pairQueue_def NewLiveRunQueueV1_def
      sessionsOK_def cleanupsOK_def entriesOK_def validRun_validEntry sampleRun_valid sampleIDs)
    (auto simp: disciplined_def laidOut_Cons runnable_def noIdle_def status_defs sampleRun_def)

section \<open>Operations of the queue\<close>

text \<open>
  C1. On a valid queue, admission of an acceptable candidate with a fresh ID does exactly what
  the scheduler does: it starts the run when nothing blocks it, appends it to the waiting
  entries when it may wait, and reports the conflict precisely when the scheduler refuses.
  The resulting queue is valid again and the returned status says which of the two happened.
\<close>

theorem AdmitLiveRunV1_refines:
  assumes "ValidateLiveRunQueueV1 q = None" and "runStatus c = LiveRunStatusEmpty"
    and "validateLiveRunV1 (c\<lparr>runStatus := LiveRunStatusWaitingV1\<rparr>) = None"
    and "runID c \<notin> runID ` set (elems (qRuns q))"
  shows "case schedAdmit (job c) wait (absQueue q) of
      None \<Rightarrow> AdmitLiveRunV1 q c wait = Inl LiveRunConflict
    | Some s \<Rightarrow> \<exists>q' status. AdmitLiveRunV1 q c wait = Inr (q', status) \<and> absQueue q' = s
        \<and> ValidateLiveRunQueueV1 q' = None
        \<and> elems (qRuns q') = elems (qRuns q) @ [c\<lparr>runStatus := status\<rparr>]
        \<and> (status = LiveRunStatusActiveV1 \<or> status = LiveRunStatusWaitingV1 \<and> wait)"
proof -
  let ?c = "c\<lparr>runStatus := LiveRunStatusWaitingV1\<rparr>"
  have ok: "queueOK q" using assms(1) by (simp add: ValidateLiveRunQueueV1_iff)
  then obtain rs where rs: "qRuns q = Some rs" by (auto simp: queueOK_def)
  have admit: "AdmitLiveRunV1 q c wait = admitLiveQueueEntryV1 q ?c wait"
    using assms(1-3) by (simp add: AdmitLiveRunV1_def)
  have "validateLiveQueueEntryV1 ?c = None" "isWaiting ?c" "runID ?c \<notin> runID ` set rs"
    using assms(3,4) rs by (simp_all add: validRun_validEntry isWaiting_def)
  from admitEntry_cases [OF ok rs this, of wait] show ?thesis
    unfolding admit using rs by cases (auto simp: queueOK_valid)
qed

theorem AdmitLiveRunV1_refines_witness:
  "AdmitLiveRunV1 busyQueue (sampleRun runThree True LiveRunStatusEmpty) False = Inl LiveRunConflict"
  using AdmitLiveRunV1_refines [of busyQueue "sampleRun runThree True LiveRunStatusEmpty" False]
  by (simp add: samples_valid sampleRun_valid sampleIDs absQueue_def absRuns_def
      status_defs schedAdmit_def job_def)

text \<open>
  C2. Removing a run from a valid queue under a well-formed ID removes exactly the run of that
  ID (control markers are out of reach of this operation), promotes as the scheduler does, and
  reports whether there was such a run; otherwise the queue is returned unchanged.
\<close>

theorem RemoveLiveRunV1_refines:
  assumes "ValidateLiveRunQueueV1 q = None" and "ValidateLiveRunIDV1 i = None"
  shows "\<exists>q'. RemoveLiveRunV1 q i = Inr (q', \<exists>r \<in> set (elems (qRuns q)). runID r = i)
    \<and> ValidateLiveRunQueueV1 q' = None
    \<and> absQueue q' = (if \<exists>r \<in> set (elems (qRuns q)). runID r = i then schedRemove i (absQueue q) else absQueue q)"
proof -
  have ok: "queueOK q" using assms(1) by (simp add: ValidateLiveRunQueueV1_iff)
  then obtain rs where rs: "qRuns q = Some rs" "entriesOK rs" by (auto simp: queueOK_def)
  have kinds: "runKind r = LiveRunKindAppV1 \<or> runKind r = LiveRunKindShellV1"
    if "r \<in> set rs" "runID r = i" for r
    using that rs(2) assms(2) validEntry_kind(1) [of r] validRun_parts(2) [of r] by (auto simp: entriesOK_def)
  obtain q' removed where q': "removeLiveQueueEntryV1 q i [LiveRunKindAppV1, LiveRunKindShellV1] = (q', removed)"
    by (cases "removeLiveQueueEntryV1 q i [LiveRunKindAppV1, LiveRunKindShellV1]")
  have removed: "removed \<longleftrightarrow> (\<exists>r \<in> set (elems (qRuns q)). runID r = i)"
    using q' kinds rs(1) by (auto simp: remove_result [OF ok rs(1)] split: if_splits)
  note result = remove_OK [OF ok q']
  show ?thesis
    using q' assms result removed queueOK_valid by (auto simp: RemoveLiveRunV1_def)
qed

theorem RemoveLiveRunV1_refines_witness:
  "\<exists>q'. RemoveLiveRunV1 busyQueue runOne = Inr (q', True) \<and> scWaiting (absQueue q') = []
     \<and> map runID (scReady (absQueue q')) = [runTwo]"
proof -
  have "absQueue busyQueue = \<lparr>scActive = [job (sampleRun runOne True LiveRunStatusActiveV1)], scReady = [],
      scWaiting = [job (sampleRun runTwo False LiveRunStatusWaitingV1)]\<rparr>"
    by (simp add: absQueue_def absRuns_def status_defs)
  then show ?thesis
    using RemoveLiveRunV1_refines [of busyQueue runOne]
    by (auto simp: samples_valid sampleIDs ValidateLiveRunIDV1_def schedRemove_def schedFilter_def schedPromote_def)
qed

text \<open>
  Activation of a run in a valid queue under a well-formed ID: it succeeds exactly when the
  run of that ID is ready, moves it behind the active entries and reserves the next run as the
  scheduler does; a run that is not ready and an unknown ID are the two errors, and the
  validation of the result never fails.
\<close>

theorem ActivateReadyLiveRunV1_total:
  assumes "ValidateLiveRunQueueV1 q = None" and "ValidateLiveRunIDV1 i = None"
  shows "case find (\<lambda>r. runID r = i) (elems (qRuns q)) of
      None \<Rightarrow> ActivateReadyLiveRunV1 q i = Inl (LiveRunNotOutstanding i)
    | Some r \<Rightarrow>
        if runStatus r \<noteq> LiveRunStatusReadyV1 then ActivateReadyLiveRunV1 q i = Inl (LiveRunNotReady i)
        else \<exists>q'. ActivateReadyLiveRunV1 q i = Inr q' \<and> ValidateLiveRunQueueV1 q' = None
               \<and> absQueue q' = schedActivate (absQueue q)"
proof -
  have ok: "queueOK q" using assms(1) by (simp add: ValidateLiveRunQueueV1_iff)
  then obtain rs where rs: "qRuns q = Some rs" "entriesOK rs" by (auto simp: queueOK_def)
  have kind: "runKind r \<noteq> LiveRunKindControlV1" if "r \<in> set rs" "runID r = i" for r
    using that rs(2) assms(2) validEntry_kind(2) [of r] by (auto simp: entriesOK_def)
  let ?p = "\<lambda>r. runID r = i \<and> runKind r \<noteq> LiveRunKindControlV1"
  show ?thesis
  proof (cases "find (\<lambda>r. runID r = i) rs")
    case None
    then have "findIndex ?p 0 rs = None" by (auto simp: find_None_iff findIndex_None)
    with None ok assms rs show ?thesis
      by (simp add: ActivateReadyLiveRunV1_def clone_OK)
  next
    case (Some r)
    then have r: "r \<in> set rs" "runID r = i" by (auto simp: find_Some_iff)
    show ?thesis
    proof (cases "isReady r")
      case True
      have "r \<in> set (elems (qRuns q))" using r rs by simp
      from activate_result [OF ok assms(2) this r(2) kind [OF r] True] obtain q' where
        "ActivateReadyLiveRunV1 q i = Inr q'" "queueOK q'" "absQueue q' = schedActivate (absQueue q)" .
      with True Some rs queueOK_valid show ?thesis by (simp add: isReady_def)
    next
      case False
      obtain k where k: "findIndex ?p 0 rs = Some k"
        using r kind findIndex_None [of ?p 0 rs] by (cases "findIndex ?p 0 rs") auto
      with findIndex_Some [OF k] r rs have "rs ! k = r"
        using eq_key_imp_eq_value_run [of rs r "rs ! k"] by (auto simp: entriesOK_def)
      with False k Some ok assms rs show ?thesis
        by (auto simp: ActivateReadyLiveRunV1_def clone_OK isReady_def Let_def)
    qed
  qed
qed

theorem ActivateReadyLiveRunV1_total_witness:
  "\<exists>q'. ActivateReadyLiveRunV1 readyQueue runTwo = Inr q' \<and> ValidateLiveRunQueueV1 q' = None
     \<and> absQueue q' = schedActivate (absQueue readyQueue)"
  using ActivateReadyLiveRunV1_total [of readyQueue runTwo]
  by (simp add: samples_valid sampleIDs ValidateLiveRunIDV1_def)

text \<open>
  C3. Cancelling the pending runs of a valid queue always succeeds: every run that is not
  active is returned, in queue order, the control markers and the active entries stay, and the
  first marker is promoted when nothing is left before it.
\<close>

theorem CancelWaitingLiveRunsV1_refines:
  assumes "ValidateLiveRunQueueV1 q = None"
  shows "\<exists>q'. CancelWaitingLiveRunsV1 q = Inr (q',
       filter (\<lambda>r. runKind r \<noteq> LiveRunKindControlV1 \<and> runStatus r \<noteq> LiveRunStatusActiveV1) (elems (qRuns q)))
     \<and> ValidateLiveRunQueueV1 q' = None \<and> absQueue q' = schedCancel (absQueue q)
     \<and> (\<forall>r \<in> set (elems (qRuns q')). runKind r \<noteq> LiveRunKindControlV1 \<longrightarrow> runStatus r = LiveRunStatusActiveV1)"
proof -
  have ok: "queueOK q" using assms by (simp add: ValidateLiveRunQueueV1_iff)
  from cancel_result [OF ok] obtain q' where q': "CancelWaitingLiveRunsV1 q = Inr (q',
       filter (\<lambda>r. runKind r \<noteq> LiveRunKindControlV1 \<and> runStatus r \<noteq> LiveRunStatusActiveV1) (elems (qRuns q)))"
    "queueOK q'" "absQueue q' = schedCancel (absQueue q)" by metis
  have "runStatus r = LiveRunStatusActiveV1"
    if "r \<in> set (elems (qRuns q'))" "runKind r \<noteq> LiveRunKindControlV1" for r
  proof -
    have status: "isActive r \<or> isReady r \<or> isWaiting r"
      using that(1) q'(2) validEntry_status [of r] by (auto simp: queueOK_def entriesOK_def)
    have "runKind j = LiveRunKindControlV1" if "j \<in> set (scReady (absQueue q') @ scWaiting (absQueue q'))" for j
      using that unfolding q'(3) schedCancel_def schedPromote_def
      by (auto split: list.splits if_splits dest!: arg_cong [where f = set] simp: filter_eq_Cons_iff)
    moreover have "job r \<in> set (scReady (absQueue q') @ scWaiting (absQueue q'))" if "isReady r \<or> isWaiting r"
      using that \<open>r \<in> set (elems (qRuns q'))\<close> by (auto simp: absQueue_def absRuns_def)
    ultimately show ?thesis using status \<open>runKind r \<noteq> LiveRunKindControlV1\<close>
      by (fastforce simp: isActive_def)
  qed
  with q' queueOK_valid show ?thesis by blast
qed

theorem CancelWaitingLiveRunsV1_refines_witness:
  "\<exists>q'. CancelWaitingLiveRunsV1 busyQueue = Inr (q', [sampleRun runTwo False LiveRunStatusWaitingV1])"
  using CancelWaitingLiveRunsV1_refines [OF samples_valid(1)] by auto

section \<open>Histories of the queue\<close>

text \<open>A step is one successful operation on the queue.\<close>

inductive queue_step :: "LiveRunQueueV1 \<Rightarrow> LiveRunQueueV1 \<Rightarrow> bool" where
  step_admit: "AdmitLiveRunV1 q c wait = Inr (q', status) \<Longrightarrow> queue_step q q'"
| step_marker: "AdmitControlMarkerV1 q m wait = Inr (q', status) \<Longrightarrow> queue_step q q'"
| step_remove: "RemoveLiveRunV1 q i = Inr (q', removed) \<Longrightarrow> queue_step q q'"
| step_removeMarker: "RemoveControlMarkerV1 q i = Inr (q', removed) \<Longrightarrow> queue_step q q'"
| step_activate: "ActivateReadyLiveRunV1 q i = Inr q' \<Longrightarrow> queue_step q q'"
| step_cancel: "CancelWaitingLiveRunsV1 q = Inr (q', canceled) \<Longrightarrow> queue_step q q'"

inductive_cases queue_stepE: "queue_step q q'"

lemma step_OK: "queue_step q q' \<Longrightarrow> queueOK q \<Longrightarrow> queueOK q'"
  by (elim queue_stepE)
    (auto dest: admitRun.update_valid admitMarker.update_valid removeRun.update_valid
      removeMarker.update_valid activateRun.update_valid cancelRuns.update_valid)

lemma history_OK: "queue_step\<^sup>*\<^sup>* q q' \<Longrightarrow> queueOK q \<Longrightarrow> queueOK q'"
  by (induction rule: rtranclp_induct) (auto intro: step_OK)

abbreviation idsOf :: "LiveRunQueueV1 \<Rightarrow> string list" where
  "idsOf q \<equiv> map runID (elems (qRuns q))"

lemma admitEntry_ids:
  "admitLiveQueueEntryV1 q c wait = Inr (q', status) \<Longrightarrow> idsOf q' = idsOf q @ [runID c]"
  by (auto simp: admitLiveQueueEntryV1_def cloneLiveRunQueueV1_def Let_def split: if_splits)

lemma promote_queue_ids:
  assumes "queueOK q" "qRuns q = Some rs" "subseq rs' rs"
  shows "idsOf (promoteLiveRunsV1 (q\<lparr>qRuns := Some rs'\<rparr>)) = map runID rs'"
proof -
  have "laidOut rs'" using assms laidOut_subseq by (auto simp: queueOK_def disciplined_def)
  then show ?thesis by (simp add: promoteLiveRunsV1_def promote_ids)
qed

lemma subseq_map_filter: "subseq (map f (filter P xs)) (map f xs)"
  by (rule subseq_map [OF subseq_filter_keep])

lemma remove_ids:
  assumes "queueOK q" "removeLiveQueueEntryV1 q i kinds = (q', removed)"
  shows "subseq (idsOf q') (idsOf q)"
proof -
  obtain rs where rs: "qRuns q = Some rs" using assms(1) by (auto simp: queueOK_def)
  show ?thesis
    using assms(2) rs promote_queue_ids [OF assms(1) rs subseq_filter_keep]
    by (auto simp: remove_result [OF assms(1) rs] subseq_map_filter split: if_splits)
qed

lemma activate_ids:
  assumes "queueOK q" "ActivateReadyLiveRunV1 q i = Inr q'"
  shows "idsOf q' = idsOf q"
proof -
  obtain rs where rs: "qRuns q = Some rs" "entriesOK rs" "disciplined rs" using assms(1) by (auto simp: queueOK_def)
  let ?p = "\<lambda>r. runID r = i \<and> runKind r \<noteq> LiveRunKindControlV1"
  obtain k where k: "findIndex ?p 0 rs = Some k" "isReady (rs ! k)"
    and q': "q' = promoteLiveRunsV1 (q\<lparr>qRuns := Some (setStatus LiveRunStatusActiveV1 k rs)\<rparr>)"
    using assms rs
    by (auto simp: ActivateReadyLiveRunV1_def queueOK_valid clone_OK Let_def isReady_def split: option.splits if_splits)
  have "k < length rs" using findIndex_Some [OF k(1)] by simp
  with activate_runs [OF rs(3,2) _ k(2)] have "laidOut (setStatus LiveRunStatusActiveV1 k rs)"
    by (simp add: disciplined_def)
  moreover have "map runID (setStatus LiveRunStatusActiveV1 k rs) = map runID rs"
    by (simp add: setStatus_def map_update) (metis list_update_id map_update)
  ultimately show ?thesis using rs by (simp add: q' promoteLiveRunsV1_def promote_ids)
qed

lemma cancel_ids:
  assumes "queueOK q" "CancelWaitingLiveRunsV1 q = Inr (q', canceled)"
  shows "subseq (idsOf q') (idsOf q)"
proof -
  obtain rs where rs: "qRuns q = Some rs" using assms(1) by (auto simp: queueOK_def)
  show ?thesis
    using assms rs promote_queue_ids [OF assms(1) rs subseq_filter_keep]
    by (auto simp: CancelWaitingLiveRunsV1_def queueOK_valid clone_OK Let_def subseq_map_filter
        split: option.splits)
qed

lemma subseq_two: "subseq [a, b] (as @ a # bs @ b # cs)"
  by (metis append_Cons append_Nil list_emb_append2 subseq_Cons2_iff subseq_singleton_left in_set_conv_decomp)

lemma subseq_distinct_filter: "subseq ys xs \<Longrightarrow> distinct xs \<Longrightarrow> ys = filter (\<lambda>x. x \<in> set ys) xs"
proof (induction rule: list_emb.induct)
  case (list_emb_Cons xs ys y)
  then have "y \<notin> set xs" by (auto dest: list_emb_set)
  with list_emb_Cons show ?case by simp
next
  case (list_emb_Cons2 x y xs ys)
  then have "filter (\<lambda>z. z \<in> set (x # xs)) ys = filter (\<lambda>z. z \<in> set xs) ys"
    by (intro filter_cong) auto
  with list_emb_Cons2 show ?case by simp
qed simp

lemma subseq_pair:
  assumes "subseq ys xs" "distinct xs" "xs = as @ a # bs @ b # cs" "a \<in> set ys" "b \<in> set ys"
  shows "subseq [a, b] ys"
proof -
  have "ys = filter (\<lambda>x. x \<in> set ys) (as @ a # bs @ b # cs)"
    using subseq_distinct_filter [OF assms(1,2)] assms(3) by simp
  then have "ys = filter (\<lambda>x. x \<in> set ys) as @ a # filter (\<lambda>x. x \<in> set ys) bs @ b # filter (\<lambda>x. x \<in> set ys) cs"
    using assms(4,5) by simp
  then show ?thesis by (metis subseq_two)
qed

lemma subseq_map_pair:
  assumes "subseq [a, b] (map f rs)"
  obtains xs x ys y zs where "rs = xs @ x # ys @ y # zs" "f x = a" "f y = b"
proof -
  from list_emb_ConsD [OF assms] obtain us vs where "map f rs = us @ a # vs" "subseq [b] vs" by auto
  moreover from this obtain ws ts where "vs = ws @ b # ts" by (auto simp: subseq_singleton_left in_set_conv_decomp)
  ultimately have "map f rs = us @ a # ws @ b # ts" by simp
  then show thesis using that by (auto simp: map_eq_append_conv map_eq_Cons_conv append_eq_map_conv Cons_eq_map_conv)
qed

text \<open>A step removes entries or appends one at the end; it never reorders.\<close>

lemma step_ids:
  assumes "queue_step q q'" "queueOK q"
  shows "subseq (idsOf q') (idsOf q) \<or> (\<exists>i. idsOf q' = idsOf q @ [i])"
  using assms(1)
proof (cases rule: queue_step.cases)
  case (step_admit c wait status)
  then show ?thesis
    using assms(2) admitEntry_ids by (auto simp: AdmitLiveRunV1_def queueOK_valid Let_def split: if_splits option.splits)
next
  case (step_marker m wait status)
  then show ?thesis
    using assms(2) admitEntry_ids by (auto simp: AdmitControlMarkerV1_def queueOK_valid split: if_splits option.splits)
next
  case (step_remove i removed)
  then show ?thesis
    using assms(2) remove_ids by (auto simp: RemoveLiveRunV1_def queueOK_valid split: option.splits)
next
  case (step_removeMarker i removed)
  then show ?thesis
    using assms(2) remove_ids by (auto simp: RemoveControlMarkerV1_def queueOK_valid split: option.splits)
next
  case (step_activate i)
  then show ?thesis using assms(2) activate_ids by auto
next
  case (step_cancel canceled)
  then show ?thesis using assms(2) cancel_ids by auto
qed

text \<open>Removal of one entry by the operation for its kind, and of several entries one after the other.\<close>

definition removeEntry :: "LiveRunQueueV1 \<Rightarrow> LiveRunV1 \<Rightarrow> queue_error + LiveRunQueueV1 \<times> bool" where
  "removeEntry q r = (if runKind r = LiveRunKindControlV1 then RemoveControlMarkerV1 q (runID r) else RemoveLiveRunV1 q (runID r))"

fun removeEntries :: "LiveRunQueueV1 \<Rightarrow> LiveRunV1 list \<Rightarrow> LiveRunQueueV1 option" where
  "removeEntries q [] = Some q"
| "removeEntries q (r # rs) = (case removeEntry q r of Inr (q', True) \<Rightarrow> removeEntries q' rs | _ \<Rightarrow> None)"

text \<open>What promotion may do to an entry: nothing, or make a waiting entry ready.\<close>

definition promoted :: "LiveRunV1 \<Rightarrow> LiveRunV1 \<Rightarrow> bool" where
  "promoted r r' \<longleftrightarrow> r' = r \<or> isWaiting r \<and> r' = r\<lparr>runStatus := LiveRunStatusReadyV1\<rparr>"

lemma promoted_fields: "promoted r r' \<Longrightarrow> runID r' = runID r \<and> runKind r' = runKind r"
  by (auto simp: promoted_def)

lemma promoted_trans: "promoted r s \<Longrightarrow> promoted s t \<Longrightarrow> promoted r t"
  by (auto simp: promoted_def status_defs)

lemma promoted_filter:
  assumes "list_all2 promoted rs rs'" "\<And>r r'. promoted r r' \<Longrightarrow> P r' = P r"
  shows "list_all2 promoted (filter P rs) (filter P rs')"
  using assms(1) by (induction rule: list_all2_induct) (auto simp: assms(2))

lemma promoteRuns_promoted:
  assumes "laidOut rs"
  shows "list_all2 promoted rs (promoteRuns rs)"
proof -
  have same: "list_all2 promoted xs xs" for xs by (simp add: list_all2_same promoted_def)
  show ?thesis
  proof (cases "waitings rs")
    case (Cons w ws)
    have "isWaiting w" using Cons by (metis filter_eq_Cons_iff)
    then have "list_all2 promoted (actives rs @ w # ws) (actives rs @ w\<lparr>runStatus := LiveRunStatusReadyV1\<rparr> # ws)"
      by (intro list_all2_appendI list.rel_intros same) (simp add: promoted_def)
    moreover have "readies rs = [] \<Longrightarrow> rs = actives rs @ w # ws" using laidOut_split [OF assms] Cons by simp
    ultimately show ?thesis using same by (auto simp: promoteRuns_eq [OF assms] Cons)
  qed (simp add: promoteRuns_eq [OF assms] same)
qed

lemma removeEntry_step:
  assumes "queueOK q" "qRuns q = Some rs" "e \<in> set rs" "runID e = runID r" "runKind e = runKind r"
  obtains q' rs' where "removeEntry q r = Inr (q', True)" "queueOK q'" "qRuns q' = Some rs'"
    "list_all2 promoted (filter (\<lambda>x. runID x \<noteq> runID r) rs) rs'"
proof -
  let ?rest = "filter (\<lambda>x. runID x \<noteq> runID r) rs"
  let ?q' = "promoteLiveRunsV1 (q\<lparr>qRuns := Some ?rest\<rparr>)"
  have e: "validateLiveQueueEntryV1 e = None" using assms(1-3) by (auto simp: queueOK_def entriesOK_def)
  have remove: "removeLiveQueueEntryV1 q (runID r) kinds = (?q', True)" if "runKind r \<in> set kinds" for kinds
    using that assms(3-5) by (auto simp: remove_result [OF assms(1,2)])
  have "removeEntry q r = Inr (?q', True)"
  proof (cases "runKind r = LiveRunKindControlV1")
    case True
    with e have "ValidateControlMarkerIDV1 (runID r) = None" using assms(4,5) by (simp add: validateLiveQueueEntryV1_def)
    with True assms(1) remove show ?thesis by (simp add: removeEntry_def RemoveControlMarkerV1_def queueOK_valid)
  next
    case False
    with e have "validateLiveRunV1 e = None" using assms(5) by (simp add: validateLiveQueueEntryV1_def)
    from validRun_parts [OF this] False assms(1,4,5) remove show ?thesis
      by (auto simp: removeEntry_def RemoveLiveRunV1_def queueOK_valid)
  qed
  moreover have "queueOK ?q'" by (rule queueOK_drop_promote [OF assms(1,2) subseq_filter_keep])
  moreover have "laidOut ?rest" using assms(1,2) laidOut_subseq [OF subseq_filter_keep] by (auto simp: queueOK_def disciplined_def)
  ultimately show ?thesis by (intro that [of ?q' "promoteRuns ?rest"]) (simp_all add: promoteLiveRunsV1_def promoteRuns_promoted)
qed

text \<open>Entries of the queue can be removed in any order; what is left are the others, promoted.\<close>

lemma removeEntries_others:
  assumes "queueOK q" "qRuns q = Some rs" "distinct (map runID gone)"
    "\<And>r. r \<in> set gone \<Longrightarrow> \<exists>e \<in> set rs. runID e = runID r \<and> runKind e = runKind r"
  shows "\<exists>q' rs'. removeEntries q gone = Some q' \<and> queueOK q' \<and> qRuns q' = Some rs'
    \<and> list_all2 promoted (filter (\<lambda>x. runID x \<notin> runID ` set gone) rs) rs'"
  using assms
proof (induction gone arbitrary: q rs)
  case Nil
  then show ?case by (simp add: list_all2_same promoted_def)
next
  case (Cons r gone)
  let ?rest = "filter (\<lambda>x. runID x \<noteq> runID r) rs"
  obtain e where "e \<in> set rs" "runID e = runID r" "runKind e = runKind r" using Cons.prems(4) by auto
  from removeEntry_step [OF Cons.prems(1,2) this] obtain q1 rs1 where
    q1: "removeEntry q r = Inr (q1, True)" "queueOK q1" "qRuns q1 = Some rs1" "list_all2 promoted ?rest rs1" .
  have there: "\<exists>e \<in> set rs1. runID e = runID x \<and> runKind e = runKind x" if x: "x \<in> set gone" for x
  proof -
    obtain e where e: "e \<in> set rs" "runID e = runID x" "runKind e = runKind x" using Cons.prems(4) x by auto
    moreover have "runID x \<in> runID ` set gone" using x by simp
    moreover from this have "runID x \<noteq> runID r" using Cons.prems(3) by auto
    ultimately have "e \<in> set ?rest" by simp
    then obtain e' where "e' \<in> set rs1" "promoted e e'" using q1(4) by (metis in_set_conv_nth list_all2_conv_all_nth)
    then show ?thesis using e promoted_fields by metis
  qed
  from Cons.IH [OF q1(2,3) _ there] Cons.prems(3) obtain q' rs' where
    q': "removeEntries q1 gone = Some q'" "queueOK q'" "qRuns q' = Some rs'"
      "list_all2 promoted (filter (\<lambda>x. runID x \<notin> runID ` set gone) rs1) rs'" by auto
  have "list_all2 promoted (filter (\<lambda>x. runID x \<notin> runID ` set gone) ?rest) (filter (\<lambda>x. runID x \<notin> runID ` set gone) rs1)"
    using q1(4) by (rule promoted_filter) (simp add: promoted_fields)
  from list_all2_trans [OF promoted_trans this q'(4)]
  have "list_all2 promoted (filter (\<lambda>x. runID x \<notin> runID ` set (r # gone)) rs) rs'"
    by (simp add: conj_commute)
  then show ?case using q1(1) q' by simp
qed

text \<open>
  C4. Exclusive runs are alone. In every queue that a history of operations produces from the
  empty queue, an exclusive entry that is active or ready is the only active or ready entry,
  there is at most one ready entry, and no ID occurs twice.
\<close>

theorem history_exclusive:
  assumes "queue_step\<^sup>*\<^sup>* NewLiveRunQueueV1 q"
  shows "(\<forall>r \<in> set (elems (qRuns q)). runStatus r \<in> {LiveRunStatusActiveV1, LiveRunStatusReadyV1} \<and> runExclusive r \<longrightarrow>
        filter (\<lambda>r. runStatus r \<in> {LiveRunStatusActiveV1, LiveRunStatusReadyV1}) (elems (qRuns q)) = [r])
     \<and> length (filter (\<lambda>r. runStatus r = LiveRunStatusReadyV1) (elems (qRuns q))) \<le> 1
     \<and> distinct (map runID (elems (qRuns q)))"
proof -
  have "queueOK q" using history_OK [OF assms newQueue_OK] .
  then obtain rs where rs: "qRuns q = Some rs" "entriesOK rs" "disciplined rs" by (auto simp: queueOK_def)
  have filters: "filter (\<lambda>r. runStatus r \<in> {LiveRunStatusActiveV1, LiveRunStatusReadyV1}) rs = runnable rs"
    "filter (\<lambda>r. runStatus r = LiveRunStatusReadyV1) rs = readies rs"
    unfolding runnable_def by (auto simp: status_defs intro: filter_cong)
  have "runnable rs = [r]" if "r \<in> set rs" "isActive r \<or> isReady r" "runExclusive r" for r
  proof -
    have mem: "r \<in> set (runnable rs)" using that by (simp add: runnable_def)
    then have "length (runnable rs) = 1"
      using that(3) rs(3) by (auto simp: disciplined_def list_ex_iff)
    with mem show ?thesis by (cases "runnable rs") auto
  qed
  with rs show ?thesis
    unfolding rs(1) elems_simps filters by (auto simp: disciplined_def entriesOK_def status_defs)
qed

theorem history_exclusive_witness:
  "\<exists>q. queue_step\<^sup>*\<^sup>* NewLiveRunQueueV1 q
     \<and> filter (\<lambda>r. runStatus r \<in> {LiveRunStatusActiveV1, LiveRunStatusReadyV1}) (elems (qRuns q))
         = [sampleRun runOne True LiveRunStatusActiveV1]"
proof -
  let ?q = "NewLiveRunQueueV1\<lparr>qRuns := Some [sampleRun runOne True LiveRunStatusActiveV1]\<rparr>"
  have "AdmitLiveRunV1 NewLiveRunQueueV1 (sampleRun runOne True LiveRunStatusEmpty) False = Inr (?q, LiveRunStatusActiveV1)"
    by (simp add: AdmitLiveRunV1_def samples_valid sampleRun_valid sampleIDs admitLiveQueueEntryV1_def
        cloneLiveRunQueueV1_def liveRunCanStartNowV1_def Let_def newRuns)
  then have "queue_step\<^sup>*\<^sup>* NewLiveRunQueueV1 ?q" by (intro r_into_rtranclp queue_step.step_admit)
  with history_exclusive [OF this] show ?thesis by (intro exI [of _ ?q]) simp
qed

text \<open>
  C5. First come, first served. If one entry stands before another in a valid queue and a step
  keeps both, then the later one is not runnable in the new queue unless the earlier one is.
\<close>

theorem queue_fifo:
  assumes "ValidateLiveRunQueueV1 q = None" and "queue_step q q'"
    and "map runID (elems (qRuns q)) = as @ runID r # bs @ runID s # cs"
    and "r \<in> set (elems (qRuns q'))" and "s \<in> set (elems (qRuns q'))"
    and "runStatus s \<noteq> LiveRunStatusWaitingV1"
  shows "runStatus r \<noteq> LiveRunStatusWaitingV1"
proof -
  have ok: "queueOK q" and ok': "queueOK q'"
    using assms(1,2) step_OK by (auto simp: ValidateLiveRunQueueV1_iff)
  then obtain rs where rs: "qRuns q' = Some rs" "entriesOK rs" "laidOut rs"
    by (auto simp: queueOK_def disciplined_def)
  have dist: "distinct (idsOf q)" using ok by (auto simp: queueOK_def entriesOK_def)
  have "subseq [runID r, runID s] (idsOf q')"
    using step_ids [OF assms(2) ok]
  proof
    assume sub: "subseq (idsOf q') (idsOf q)"
    have mem: "runID r \<in> set (idsOf q')" "runID s \<in> set (idsOf q')" using assms(4,5) by auto
    show ?thesis by (rule subseq_pair [OF sub dist assms(3) mem])
  next
    assume "\<exists>i. idsOf q' = idsOf q @ [i]"
    then obtain i where "idsOf q' = as @ runID r # bs @ runID s # cs @ [i]" using assms(3) by auto
    then show ?thesis by (simp add: subseq_two)
  qed
  then obtain xs x ys y zs where split: "rs = xs @ x # ys @ y # zs" "runID x = runID r" "runID y = runID s"
    unfolding rs(1) elems_simps by (rule subseq_map_pair)
  have "x = r" "y = s"
    using split rs assms(4,5) eq_key_imp_eq_value_run [of rs x r] eq_key_imp_eq_value_run [of rs y s]
    by (simp_all add: entriesOK_def)
  with split rs(3) have "rank r \<le> rank s" by (simp add: laidOut_def sorted_append)
  moreover have "isActive s \<or> isReady s \<or> isWaiting s" using assms(5) rs by (simp add: laidOut_def)
  then have "rank s < 2" using assms(6) by (auto simp: rank_def isWaiting_def)
  ultimately have "rank r < 2" by simp
  then show ?thesis by (auto simp: rank_def status_defs split: if_splits)
qed

theorem queue_fifo_witness:
  "\<exists>q'. queue_step pairQueue q' \<and> (\<forall>r \<in> set (elems (qRuns q')). runID r = runOne \<longrightarrow>
     runStatus r \<noteq> LiveRunStatusWaitingV1)"
proof -
  let ?r = "sampleRun runOne False LiveRunStatusActiveV1"
  let ?s = "sampleRun runTwo False LiveRunStatusActiveV1"
  have ok: "queueOK pairQueue" using samples_valid by (simp add: ValidateLiveRunQueueV1_iff)
  have "RemoveLiveRunV1 pairQueue runThree = Inr (pairQueue, False)"
    using ok by (simp add: RemoveLiveRunV1_def queueOK_valid ValidateLiveRunIDV1_def sampleIDs
        remove_result [OF ok sampleQueue_simps(3)])
  then have step: "queue_step pairQueue pairQueue" by (rule queue_step.step_remove)
  have "runStatus ?r \<noteq> LiveRunStatusWaitingV1"
    by (rule queue_fifo [OF samples_valid(4) step, of "[]" ?r "[]" ?s "[]"]) simp_all
  with step show ?thesis by (intro exI [of _ pairQueue]) simp
qed

text \<open>
  C6. No entry waits forever behind finished work. Take any entry of a valid queue and remove the
  entries that stand before it, in any order, each by the removal operation for its kind. Every
  removal succeeds; the resulting queue is valid; the entry stands first and is active or ready,
  being either the entry as it was or, if it was waiting, that entry made ready; and the entries
  behind it are the same, in the same order, except that promotion may have made one ready.
\<close>

theorem queue_progress:
  assumes "ValidateLiveRunQueueV1 q = None" "elems (qRuns q) = ahead @ r # rest" "mset gone = mset ahead"
  shows "\<exists>q' r' rest'. removeEntries q gone = Some q' \<and> ValidateLiveRunQueueV1 q' = None \<and> elems (qRuns q') = r' # rest'
     \<and> runStatus r' \<in> {LiveRunStatusActiveV1, LiveRunStatusReadyV1} \<and> promoted r r' \<and> list_all2 promoted rest rest'"
proof -
  have q: "queueOK q" using assms(1) by (simp add: ValidateLiveRunQueueV1_iff)
  then obtain rs where rs: "qRuns q = Some rs" "entriesOK rs" by (auto simp: queueOK_def)
  moreover from this have eq: "rs = ahead @ r # rest" using assms(2) by simp
  ultimately have runs: "qRuns q = Some (ahead @ r # rest)" and dist: "distinct (map runID (ahead @ r # rest))"
    unfolding entriesOK_def by (simp_all only: eq)
  have same: "set gone = set ahead" using assms(3) by (rule mset_eq_setD)
  have ids: "mset (map runID gone) = mset (map runID ahead)" using assms(3) by simp
  have "distinct (map runID ahead)" using dist by simp
  then have "distinct (map runID gone)" using mset_eq_imp_distinct_iff [OF ids] by blast
  from removeEntries_others [OF q runs this] same obtain q' rs' where
    q': "removeEntries q gone = Some q'" "queueOK q'" "qRuns q' = Some rs'"
      "list_all2 promoted (filter (\<lambda>x. runID x \<notin> runID ` set ahead) (ahead @ r # rest)) rs'" by auto
  have left: "filter (\<lambda>x. runID x \<notin> runID ` set ahead) (ahead @ r # rest) = r # rest"
    using dist by (auto simp: filter_empty_conv filter_id_conv)
  obtain r' rest' where rs': "rs' = r' # rest'" "promoted r r'" "list_all2 promoted rest rest'"
    using q'(4) unfolding left by (auto simp: list_all2_Cons1)
  have "laidOut (r' # rest')" "noIdle (r' # rest')" using q'(2,3) rs'(1) by (auto simp: queueOK_def disciplined_def)
  then have "isActive r' \<or> isReady r'" by (auto simp: laidOut_Cons noIdle_def runnable_def split: if_splits)
  then show ?thesis using q' rs' by (auto simp: status_defs ValidateLiveRunQueueV1_iff)
qed

theorem queue_progress_witness:
  "\<exists>q' r' rest'. removeEntries busyQueue [hd (elems (qRuns busyQueue))] = Some q' \<and> ValidateLiveRunQueueV1 q' = None
     \<and> elems (qRuns q') = r' # rest' \<and> runID r' = runTwo \<and> runStatus r' \<in> {LiveRunStatusActiveV1, LiveRunStatusReadyV1}"
proof -
  have runs: "elems (qRuns busyQueue) = [hd (elems (qRuns busyQueue))] @ hd (tl (elems (qRuns busyQueue))) # []"
    "runID (hd (tl (elems (qRuns busyQueue)))) = runTwo" by simp_all
  show ?thesis
    using queue_progress [OF samples_valid(1) runs(1) refl] runs(2) promoted_fields by metis
qed

end
