(* ===== verification/LiveRunStoreProperties.thy ===== *)
theory LiveRunStoreProperties
  imports LiveRunProperties
begin

text \<open>
  The properties of the durable store: whatever operations are run, the stored queue stays
  valid and is never the reason of a failure; a terminal guard stops new work; recovery loses
  no container and no live owner; ownership records are found again as they were recorded.
\<close>

section \<open>Commands\<close>

text \<open>The operations of the lock as data, so that histories are lists of commands.\<close>

datatype command =
    CmdAdmitLiveRun LiveRunV1 bool | CmdAdmitControlMarker ControlMarkerV1 bool
  | CmdRecordContainer string string | CmdActivateRun string | CmdActivateMarker string
  | CmdRemoveRun string | CmdRemoveMarker string | CmdCancelWaiting
  | CmdRecordOwnership ControlledSessionOwnershipV1 | CmdCompleteSession string
  | CmdCompleteCleanup string | CmdCompleteWithCleanup string string
  | CmdRecover | CmdRecoverMarker

definition forget :: "'a op \<Rightarrow> unit op" where
  "forget f = bindOp f (\<lambda>_. ret ())"

fun exec :: "command \<Rightarrow> unit op" where
  "exec (CmdAdmitLiveRun c wait) = forget (lockAdmitLiveRunV1 c wait)"
| "exec (CmdAdmitControlMarker m wait) = forget (lockAdmitControlMarkerV1 m wait)"
| "exec (CmdRecordContainer i c) = RecordLiveRunContainerV1 i c"
| "exec (CmdActivateRun i) = lockActivateReadyLiveRunV1 i"
| "exec (CmdActivateMarker i) = ActivateReadyControlMarkerV1 i"
| "exec (CmdRemoveRun i) = forget (lockRemoveLiveRunV1 i)"
| "exec (CmdRemoveMarker i) = forget (lockRemoveControlMarkerV1 i)"
| "exec CmdCancelWaiting = forget lockCancelWaitingLiveRunsV1"
| "exec (CmdRecordOwnership w) = forget (RecordControlledSessionOwnershipV1 w)"
| "exec (CmdCompleteSession i) = forget (CompleteControlledSessionV1 i)"
| "exec (CmdCompleteCleanup c) = forget (CompleteLiveRunContainerCleanupV1 c)"
| "exec (CmdCompleteWithCleanup i c) = forget (CompleteLiveRunWithContainerCleanupV1 i c)"
| "exec CmdRecover = forget RecoverLiveRunQueueV1"
| "exec CmdRecoverMarker = forget RecoverAbandonedControlMarkerV1"

text \<open>A caller goes on after a failed command.\<close>

fun execAll :: "command list \<Rightarrow> operation_lock \<Rightarrow> operation_lock \<times> (store_error + unit) list" where
  "execAll [] l = (l, [])"
| "execAll (c # cs) l = (case exec c l of (l', r) \<Rightarrow> (case execAll cs l' of (l'', rs) \<Rightarrow> (l'', r # rs)))"

context store_contract
begin

lemma keeps_forget: "keeps I bad P f \<Longrightarrow> keeps I bad (\<lambda>_. True) (forget f)"
  unfolding forget_def by (rule keeps_bind, assumption) (simp add: keeps_ret)

lemmas keeps_operations = keeps_AdmitLiveRun keeps_AdmitControlMarker keeps_RecordLiveRunContainer
  keeps_ActivateReadyLiveRun keeps_ActivateReadyControlMarker keeps_RemoveLiveRun keeps_RemoveControlMarker
  keeps_CancelWaiting keeps_RecordControlledSessionOwnership keeps_CompleteControlledSession
  keeps_CompleteLiveRunContainerCleanup keeps_CompleteLiveRunWithContainerCleanup
  keeps_RecoverLiveRunQueue keeps_RecoverAbandonedControlMarker

lemma keeps_exec: "keeps I bad (\<lambda>_. True) (exec c)"
  by (cases c) (auto intro: keeps_operations keeps_forget)

lemma keeps_execAll: "I l \<Longrightarrow> I (fst (execAll cs l)) \<and> (\<forall>e. Inl e \<in> set (snd (execAll cs l)) \<longrightarrow> \<not> bad e)"
proof (induction cs arbitrary: l)
  case Nil
  then show ?case by simp
next
  case (Cons c cs)
  obtain l' r where step: "exec c l = (l', r)" by (cases "exec c l")
  have "I l'" "\<forall>e. r = Inl e \<longrightarrow> \<not> bad e"
    using keeps_exec [of c] Cons.prems step by (cases r; auto simp: keeps_def dest!: spec [of _ l])+
  with Cons.IH [of l'] step show ?case by (auto split: prod.splits)
qed

end

text \<open>
  C7. The store never corrupts itself. Started without a queue file or with a valid one, any
  sequence of commands leaves no queue file or a valid one, and none of them fails because a
  queue that was read or built is invalid: every remaining error is a refusal of the request,
  a guard, or the file system. The lock, guard and session are left as they were.
\<close>

theorem store_never_corrupt:
  assumes "case lkQueueFile l of None \<Rightarrow> True | Some q \<Rightarrow> ValidateLiveRunQueueV1 q = None"
    and "execAll cs l = (l', results)"
  shows "(case lkQueueFile l' of None \<Rightarrow> True | Some q \<Rightarrow> ValidateLiveRunQueueV1 q = None)
     \<and> (\<forall>e. Inl (QueueFileInvalid e) \<notin> set results \<and> Inl (QueueRejected e) \<notin> set results
          \<and> Inl (StoreQueue (InvalidAfterActivate e)) \<notin> set results
          \<and> Inl (StoreQueue (InvalidAfterCancel e)) \<notin> set results)
     \<and> lkHeld l' = lkHeld l \<and> lkGuard l' = lkGuard l \<and> lkRetirementState l' = lkRetirementState l
     \<and> lkBootSession l' = lkBootSession l"
proof -
  have valid: "(case lkQueueFile k of None \<Rightarrow> True | Some q \<Rightarrow> ValidateLiveRunQueueV1 q = None) = storeOK k" for k
    by (simp add: storeOK_def ValidateLiveRunQueueV1_iff split: option.splits)
  have "storeOK l'" "\<forall>e. Inl e \<in> set results \<longrightarrow> \<not> corrupt e"
    using validStore.keeps_execAll [of l cs] assms valid by auto
  moreover have "sameLock l l'"
    using lockFrame.keeps_execAll [of l l cs] assms(2) by (auto simp: sameLock_def)
  ultimately show ?thesis
    unfolding valid by (fastforce simp: sameLock_def)
qed

definition sampleLock :: operation_lock where
  "sampleLock = \<lparr>lkHeld = True, lkGuard = Some [], lkRetirementState = [], lkDirectory = ''/srv/app'',
     lkBootSession = Some ''boot-1'', lkQueueFile = Some busyQueue,
     lkLeases = [(runOne, LeaseHeld), (runTwo, LeaseFree)], lkReadFails = False, lkWriteFails = False\<rparr>"

theorem store_never_corrupt_witness:
  "let l' = fst (execAll [CmdRecover, CmdRemoveRun runOne] sampleLock)
   in (case lkQueueFile l' of None \<Rightarrow> True | Some q \<Rightarrow> ValidateLiveRunQueueV1 q = None) \<and> lkHeld l'"
  using store_never_corrupt [of sampleLock "[CmdRecover, CmdRemoveRun runOne]" _ _, OF _ surjective_pairing]
  by (auto simp: Let_def sampleLock_def samples_valid)

section \<open>Guards\<close>

text \<open>The commands that begin or advance work need a writable deployment.\<close>

fun startsWork :: "command \<Rightarrow> bool" where
  "startsWork (CmdAdmitLiveRun _ _) = True"
| "startsWork (CmdAdmitControlMarker _ _) = True"
| "startsWork (CmdRecordContainer _ _) = True"
| "startsWork (CmdActivateRun _) = True"
| "startsWork (CmdActivateMarker _) = True"
| "startsWork (CmdRecordOwnership _) = True"
| "startsWork _ = False"

lemma bindOp_stop: "f l = (l', Inl e) \<Longrightarrow> bindOp f g l = (l', Inl e)"
  by (simp add: bindOp_def)

definition stops :: "'a op \<Rightarrow> operation_lock \<Rightarrow> bool" where
  "stops f l \<longleftrightarrow> fst (f l) = l \<and> isl (snd (f l))"

lemma stops_bind: "stops f l \<Longrightarrow> stops (bindOp f g) l"
  by (auto simp: stops_def bindOp_def isl_def split: prod.splits sum.splits)

lemma stops_later:
  assumes "fst (f l) = l" "\<And>x. stops (g x) l"
  shows "stops (bindOp f g) l"
  using assms by (auto simp: stops_def bindOp_def isl_def split: prod.splits sum.splits)

lemma need_state: "fst (need w c l) = l"
  by (simp add: need_def split: option.splits)

lemma boot_state: "fst (CurrentBootSessionIDV1 l) = l"
  by (simp add: CurrentBootSessionIDV1_def split: option.splits)

lemma stops_writable:
  assumes "\<not> (lkHeld l \<and> lkGuard l = Some [] \<and> lkRetirementState l = [])"
  shows "stops requireWritableLocked l"
  using assms
  by (auto simp: stops_def requireWritableLocked_def terminalStateLocked_def requireHeldLocked_def bindOp_def
      split: option.splits)

lemma stops_retirement:
  assumes "lkHeld l \<Longrightarrow> lkGuard l \<noteq> Some (lkRetirementState l)"
  shows "stops requireRetirementLocked l"
  using assms
  by (auto simp: stops_def requireRetirementLocked_def terminalStateLocked_def requireHeldLocked_def bindOp_def
      split: option.splits)

lemma stops_forget: "stops f l \<Longrightarrow> stops (forget f) l"
  unfolding forget_def by (rule stops_bind)

lemma stops_recover: "stops requireRetirementLocked l \<Longrightarrow> stops RecoverLiveRunQueueV1 l"
  unfolding RecoverLiveRunQueueV1_def by (rule stops_later [where f = CurrentBootSessionIDV1, OF boot_state]) (rule stops_bind)

lemmas stops_rules = stops_forget stops_recover stops_bind [of requireWritableLocked]
  stops_bind [of requireRetirementLocked] stops_bind [of RecoverLiveRunQueueV1] stops_later [where f = "need w c" for w c, OF need_state]

lemma stops_raise: "stops (raise e) l"
  by (simp add: stops_def raise_def)

text \<open>
  C8. The terminal-removal guard. A command that begins or advances work does nothing and fails
  unless the lock is held and neither the state file nor the lock carries a retirement; a
  command that removes or recovers does nothing and fails unless the lock is held and the
  retirement bound to it is exactly the one of the state file.
\<close>

theorem guard_stops_commands:
  assumes "\<not> (lkHeld l \<and> (if startsWork c then lkGuard l = Some [] \<and> lkRetirementState l = []
                          else lkGuard l = Some (lkRetirementState l)))"
  shows "\<exists>e. exec c l = (l, Inl e)"
proof -
  have w: "startsWork c \<Longrightarrow> stops requireWritableLocked l"
    using assms by (intro stops_writable) auto
  have r: "\<not> startsWork c \<Longrightarrow> stops requireRetirementLocked l"
    using assms by (intro stops_retirement) auto
  have "stops (exec c) l"
    using w r
    by (cases c)
      (auto simp: lockAdmitLiveRunV1_def lockAdmitControlMarkerV1_def RecordLiveRunContainerV1_def
        lockActivateReadyLiveRunV1_def ActivateReadyControlMarkerV1_def lockRemoveLiveRunV1_def
        lockRemoveControlMarkerV1_def lockCancelWaitingLiveRunsV1_def RecordControlledSessionOwnershipV1_def
        CompleteControlledSessionV1_def CompleteLiveRunContainerCleanupV1_def
        CompleteLiveRunWithContainerCleanupV1_def RecoverAbandonedControlMarkerV1_def
        intro!: stops_rules stops_raise)
  then show ?thesis by (cases "exec c l") (auto simp: stops_def isl_def)
qed

theorem guard_stops_commands_witness:
  "\<exists>e. exec (CmdActivateRun runTwo) (sampleLock\<lparr>lkGuard := Some ''retiring''\<rparr>) = (sampleLock\<lparr>lkGuard := Some ''retiring''\<rparr>, Inl e)"
  by (rule guard_stops_commands) (simp add: sampleLock_def)

section \<open>Recovery keeps what matters\<close>

definition storedQueue :: "operation_lock \<Rightarrow> LiveRunQueueV1" where
  "storedQueue l = (case lkQueueFile l of None \<Rightarrow> NewLiveRunQueueV1 | Some q \<Rightarrow> q)"

lemma bindOp_Inr: "bindOp f g l = (l', Inr y) \<longleftrightarrow> (\<exists>l1 x. f l = (l1, Inr x) \<and> g x l1 = (l', Inr y))"
  by (auto simp: bindOp_def split: prod.splits sum.splits)

lemma need_Inr: "need w c l = (l', Inr x) \<longleftrightarrow> l' = l \<and> c = None"
  by (auto simp: need_def split: option.splits)

lemma ret_Inr: "ret y l = (l', Inr x) \<longleftrightarrow> l' = l \<and> y = x"
  by (auto simp: ret_def)

lemma guards_Inr:
  "requireHeldLocked l = (l', Inr x) \<Longrightarrow> l' = l" "liveRunQueuePathLockedV1 l = (l', Inr x) \<Longrightarrow> l' = l"
  "requireRetirementLocked l = (l', Inr x) \<Longrightarrow> l' = l"
  by (auto simp: requireHeldLocked_def liveRunQueuePathLockedV1_def requireRetirementLocked_def
      terminalStateLocked_def bindOp_def split: option.splits if_splits)

lemma boot_Inr: "CurrentBootSessionIDV1 l = (l', Inr s) \<longleftrightarrow> l' = l \<and> lkBootSession l = Some s \<and> validateBootSessionIDV1 s = None"
  by (auto simp: CurrentBootSessionIDV1_def split: option.splits)

lemma read_Inr:
  assumes "readLiveRunQueuePathV1 l = (l', Inr (q, present))"
  shows "l' = l" "q = storedQueue l" "queueOK q"
  using assms newQueue_OK
  by (auto simp: readLiveRunQueuePathV1_def storedQueue_def ValidateLiveRunQueueV1_iff [symmetric] samples_valid
      split: option.splits if_splits)

lemma readQueue_Inr:
  assumes "readQueue l = (l', Inr q)"
  shows "l' = l" "q = storedQueue l" "queueOK q"
  using assms by (auto simp: readQueue_def bindOp_Inr ret_Inr dest: guards_Inr read_Inr)

lemma commit_Inr:
  assumes "commitLiveRunQueuePathV1 q l = (l', Inr x)"
  shows "containersOf (storedQueue l') = containersOf q"
    "qControlledSessions (storedQueue l') = qControlledSessions q"
    "elems (qRuns (storedQueue l')) = elems (qRuns q)" "lkLeases l' = lkLeases l"
  using assms
  by (auto simp: commitLiveRunQueuePathV1_def storedQueue_def containersOf_def NewLiveRunQueueV1_def
      split: option.splits if_splits)

lemma keeps_Inr: "keeps I bad P f \<Longrightarrow> I l \<Longrightarrow> f l = (l', Inr x) \<Longrightarrow> I l' \<and> P x"
  by (auto simp: keeps_def dest!: spec [of _ l])

lemma recover_steps:
  assumes "RecoverLiveRunQueueV1 l = (l', Inr rv)"
  defines "q \<equiv> storedQueue l" and "terminal \<equiv> lkRetirementState l \<noteq> []"
  obtains session l1 l2 l3 acc where "lkBootSession l = Some session" "queueOK q" "session \<noteq> []"
    "recoverEntries session terminal \<lparr>raRuns = [], raCleanup = qCleanup q, raRemoved = []\<rparr> (elems (qRuns q)) l = (l1, Inr acc)"
    "(if raRemoved acc \<noteq> [] \<or> length (elems (qRuns (recoveredQueue terminal q acc))) \<noteq> length (elems (qRuns q))
      then commitLiveRunQueuePathV1 (recoveredQueue terminal q acc) else ret ()) l1 = (l2, Inr ())"
    "recoverSessions session (idsOf (recoveredQueue terminal q acc)) (qControlledSessions q) l2 = (l3, Inr (rvControlledSessions rv))"
    "removeOrphanedQueueEntryLeasesV1 (idsOf (recoveredQueue terminal q acc)) l3 = (l', Inr ())"
    "rvRemoved rv = raRemoved acc"
proof -
  have sessions: "qControlledSessions (recoveredQueue terminal q acc) = qControlledSessions q" for acc
    by (simp add: recoveredQueue_eq promoteLiveRunsV1_def)
  from assms(1) obtain session where s: "lkBootSession l = Some session" "validateBootSessionIDV1 session = None"
    and rec: "recoverLiveRunQueuePathV1 session terminal l = (l', Inr rv)"
    by (auto simp: RecoverLiveRunQueueV1_def bindOp_Inr boot_Inr terminal_def dest!: guards_Inr)
  from rec obtain present where read: "readLiveRunQueuePathV1 l = (l, Inr (q, present))"
    unfolding recoverLiveRunQueuePathV1_def bindOp_Inr need_Inr q_def
    by (auto dest: read_Inr(1,2))
  have "session \<noteq> []" using s(2) by (auto simp: validateBootSessionIDV1_def)
  with s(1) read_Inr(3) [OF read] rec show thesis
    unfolding recoverLiveRunQueuePathV1_def bindOp_Inr need_Inr Let_def
    using that read sessions by (fastforce simp: bindOp_Inr need_Inr ret_Inr)
qed

lemma recovered_acc:
  assumes "queueOK q" "recoverEntries session terminal \<lparr>raRuns = [], raCleanup = qCleanup q, raRemoved = []\<rparr> (elems (qRuns q)) l = (l1, Inr acc)"
  shows "recovered terminal (qCleanup q) (elems (qRuns q)) acc" "lkQueueFile l1 = lkQueueFile l"
proof -
  have "recovered terminal (qCleanup q) [] \<lparr>raRuns = [], raCleanup = qCleanup q, raRemoved = []\<rparr>"
    "\<forall>e \<in> set (elems (qRuns q)). validateLiveQueueEntryV1 e = None"
    using assms(1) by (auto simp: recovered_def queueOK_def cleanupsOK_def entriesOK_def)
  from keeps_Inr [OF queueFrame.keeps_recoverEntries [OF this] _ assms(2), of "lkQueueFile l"]
  show "recovered terminal (qCleanup q) (elems (qRuns q)) acc" "lkQueueFile l1 = lkQueueFile l"
    by (simp_all add: sameQueue_def)
qed

lemma promoteRuns_keeps:
  assumes "laidOut rs" "r \<in> set rs"
  shows "\<exists>r' \<in> set (promoteRuns rs). runID r' = runID r \<and> (isActive r \<longrightarrow> r' = r)"
proof (cases "isActive r")
  case True
  then have "r \<in> set (actives rs)" using assms(2) by simp
  with assms show ?thesis by (auto simp: promoteRuns_eq split: list.splits)
next
  case False
  have "runID r \<in> set (map runID (promoteRuns rs))" using assms promote_ids by auto
  with False show ?thesis by auto
qed

definition recoveredLock :: operation_lock where
  "recoveredLock = sampleLock\<lparr>lkQueueFile := Some (NewLiveRunQueueV1\<lparr>qRuns := Some [sampleRun runOne True LiveRunStatusActiveV1]\<rparr>),
     lkLeases := [(runOne, LeaseHeld)]\<rparr>"

lemma recover_sample:
  "RecoverLiveRunQueueV1 sampleLock = (recoveredLock,
     Inr \<lparr>rvRemoved = [(sampleRun runTwo False LiveRunStatusWaitingV1, LiveRunRecoveryAbandonedOwnerV1)], rvControlledSessions = []\<rparr>)"
proof -
  have boot: "validateBootSessionIDV1 ''boot-1'' = None"
    using sampleRun_valid [OF sampleIDs(1), of LiveRunStatusActiveV1 True]
    by (auto simp: validateLiveRunV1_def sampleRun_def split: if_splits)
  let ?acc = "\<lparr>raRuns = [sampleRun runOne True LiveRunStatusActiveV1], raCleanup = [],
     raRemoved = [(sampleRun runTwo False LiveRunStatusWaitingV1, LiveRunRecoveryAbandonedOwnerV1)]\<rparr>"
  let ?l = "sampleLock\<lparr>lkLeases := [(runOne, LeaseHeld)]\<rparr>"
  let ?q = "NewLiveRunQueueV1\<lparr>qRuns := Some [sampleRun runOne True LiveRunStatusActiveV1]\<rparr>"
  have read: "readLiveRunQueuePathV1 sampleLock = (sampleLock, Inr (busyQueue, True))"
    by (simp add: readLiveRunQueuePathV1_def sampleLock_def samples_valid)
  have entries: "recoverEntries ''boot-1'' False \<lparr>raRuns = [], raCleanup = [], raRemoved = []\<rparr>
      [sampleRun runOne True LiveRunStatusActiveV1, sampleRun runTwo False LiveRunStatusWaitingV1] sampleLock = (?l, Inr ?acc)"
    by (simp add: recoverEntry_def recoveryReason_def bindOp_def ret_def queueEntryLeaseAbandonedV1_def sampleLock_def dropLease_def)
  have result: "recoveredQueue False busyQueue ?acc = ?q"
    by (simp add: recoveredQueue_def promoteLiveRunsV1_def promoteRuns_def busyQueue_def NewLiveRunQueueV1_def
        normalizeCleanup_def deduplicateLiveRunCleanupV1_def)
  have valid: "ValidateLiveRunQueueV1 ?q = None"
    by (auto simp: ValidateLiveRunQueueV1_iff queueOK_def NewLiveRunQueueV1_def
        sessionsOK_def cleanupsOK_def entriesOK_def validRun_validEntry sampleRun_valid sampleIDs
        disciplined_def laidOut_Cons runnable_def noIdle_def status_defs)
  have busy: "qCleanup busyQueue = []" "qControlledSessions ?q = []"
    by (simp_all add: busyQueue_def NewLiveRunQueueV1_def)
  have commit: "commitLiveRunQueuePathV1 ?q ?l = (recoveredLock, Inr ())"
    using valid by (simp add: commitLiveRunQueuePathV1_def recoveredLock_def sampleLock_def)
  have orphans: "removeOrphanedQueueEntryLeasesV1 [runOne] recoveredLock = (recoveredLock, Inr ())"
    by (simp add: removeOrphanedQueueEntryLeasesV1_def recoveredLock_def ret_def)
  have rec: "recoverLiveRunQueuePathV1 ''boot-1'' False sampleLock = (recoveredLock,
      Inr \<lparr>rvRemoved = raRemoved ?acc, rvControlledSessions = []\<rparr>)"
    unfolding recoverLiveRunQueuePathV1_def
    by (simp add: bindOp_def need_def boot read entries busy result valid commit orphans ret_def
        del: recoverEntries.simps)
  have "requireRetirementLocked sampleLock = (sampleLock, Inr ())" "liveRunQueuePathLockedV1 sampleLock = (sampleLock, Inr ())"
    "CurrentBootSessionIDV1 sampleLock = (sampleLock, Inr ''boot-1'')" "lkRetirementState sampleLock = []"
    by (simp_all add: requireRetirementLocked_def terminalStateLocked_def requireHeldLocked_def bindOp_def
        liveRunQueuePathLockedV1_def CurrentBootSessionIDV1_def sampleLock_def boot)
  with rec show ?thesis by (simp add: RecoverLiveRunQueueV1_def bindOp_def)
qed

text \<open>
  C9. Recovery loses nothing that must be cleaned up. After a successful recovery every
  container the old queue named, by an entry or by a cleanup record, is still named by the new
  one; the ownership records are all kept; the records handed out are among them; and every
  entry is still in the queue, or reported as removed, or a pending entry cancelled under
  terminal removal.
\<close>

theorem recovery_keeps_containers:
  assumes "RecoverLiveRunQueueV1 l = (l', Inr rv)"
  shows "containersOf (storedQueue l) \<subseteq> containersOf (storedQueue l')
     \<and> qControlledSessions (storedQueue l') = qControlledSessions (storedQueue l)
     \<and> subseq (rvControlledSessions rv) (qControlledSessions (storedQueue l))
     \<and> (\<forall>r \<in> set (elems (qRuns (storedQueue l))). runID r \<in> set (map runID (elems (qRuns (storedQueue l'))))
          \<or> r \<in> fst ` set (rvRemoved rv) \<or> lkRetirementState l \<noteq> [] \<and> runStatus r \<noteq> LiveRunStatusActiveV1)"
proof -
  let ?q = "storedQueue l" and ?t = "lkRetirementState l \<noteq> []"
  from assms obtain session l1 l2 l3 acc where steps: "queueOK ?q"
    "recoverEntries session ?t \<lparr>raRuns = [], raCleanup = qCleanup ?q, raRemoved = []\<rparr> (elems (qRuns ?q)) l = (l1, Inr acc)"
    "(if raRemoved acc \<noteq> [] \<or> length (elems (qRuns (recoveredQueue ?t ?q acc))) \<noteq> length (elems (qRuns ?q))
      then commitLiveRunQueuePathV1 (recoveredQueue ?t ?q acc) else ret ()) l1 = (l2, Inr ())"
    "recoverSessions session (idsOf (recoveredQueue ?t ?q acc)) (qControlledSessions ?q) l2 = (l3, Inr (rvControlledSessions rv))"
    "removeOrphanedQueueEntryLeasesV1 (idsOf (recoveredQueue ?t ?q acc)) l3 = (l', Inr ())"
    "rvRemoved rv = raRemoved acc" by (rule recover_steps)
  note acc = recovered_acc [OF steps(1,2)]
  have l3: "lkQueueFile l3 = lkQueueFile l2" "subseq (rvControlledSessions rv) (qControlledSessions ?q)"
    using keeps_Inr [OF queueFrame.keeps_recoverSessions _ steps(4), of "lkQueueFile l2"] by (simp_all add: sameQueue_def)
  have "lkQueueFile l' = lkQueueFile l3"
    using keeps_Inr [OF queueFrame.keeps_removeOrphaned _ steps(5), of "lkQueueFile l3"] by (simp add: sameQueue_def)
  with l3 have final: "storedQueue l' = storedQueue l2" by (simp add: storedQueue_def)
  obtain rs where rs: "qRuns ?q = Some rs" using steps(1) by (auto simp: queueOK_def)
  let ?n = "recoveredQueue ?t ?q acc"
  have ids: "idsOf ?n = map runID (raRuns acc)"
    using acc(1) rs steps(1) promote_queue_ids [OF steps(1) rs] by (auto simp: recoveredQueue_eq recovered_def)
  show ?thesis
  proof (cases "raRemoved acc \<noteq> [] \<or> length (elems (qRuns ?n)) \<noteq> length (elems (qRuns ?q))")
    case True
    then have "commitLiveRunQueuePathV1 ?n l1 = (l2, Inr ())" using steps(3) by simp
    note new = commit_Inr [OF this] recoveredQueue_containers [OF steps(1) rs] acc(1)
    show ?thesis
      using new l3(2) rs ids unfolding final
      by (auto simp: recoveredQueue_eq promoteLiveRunsV1_def recovered_def steps(6) isActive_def)
  next
    case False
    then have "storedQueue l2 = ?q" using steps(3) acc(2) by (simp add: ret_Inr storedQueue_def)
    with l3(2) show ?thesis unfolding final by simp
  qed
qed

theorem recovery_keeps_containers_witness:
  "RecoverLiveRunQueueV1 sampleLock = (recoveredLock,
     Inr \<lparr>rvRemoved = [(sampleRun runTwo False LiveRunStatusWaitingV1, LiveRunRecoveryAbandonedOwnerV1)], rvControlledSessions = []\<rparr>)
   \<and> containersOf (storedQueue sampleLock) \<subseteq> containersOf (storedQueue recoveredLock)"
  using recovery_keeps_containers [OF recover_sample] recover_sample by blast

lemma abandoned_held:
  assumes "map_of (lkLeases l) i = Some LeaseHeld" "queueEntryLeaseAbandonedV1 j l = (l', r)"
  shows "map_of (lkLeases l') i = Some LeaseHeld" "j = i \<Longrightarrow> r = Inr False"
proof -
  have drop: "map_of (dropLease j ls) i = (if i = j then None else map_of ls i)" for ls
    by (induction ls) (auto simp: dropLease_def)
  show "map_of (lkLeases l') i = Some LeaseHeld" "j = i \<Longrightarrow> r = Inr False"
    using assms by (auto simp: queueEntryLeaseAbandonedV1_def drop split: option.splits lease.splits)
qed

lemma removeLease_held:
  assumes "map_of (lkLeases l) i = Some LeaseHeld" "removeQueueEntryLeasePathV1 j l = (l', r)" "j \<noteq> i"
  shows "map_of (lkLeases l') i = Some LeaseHeld"
proof -
  have drop: "map_of (dropLease j ls) i = map_of ls i" for ls
    using assms(3) by (induction ls) (auto simp: dropLease_def)
  show ?thesis
    using assms by (auto simp: removeQueueEntryLeasePathV1_def drop split: option.splits lease.splits)
qed

lemma recoverEntry_other:
  assumes "map_of (lkLeases l) i = Some LeaseHeld" "runID x \<noteq> i"
    and "recoverEntry session terminal acc x l = (l', Inr acc')"
  shows "map_of (lkLeases l') i = Some LeaseHeld" "set (raRuns acc) \<subseteq> set (raRuns acc')"
proof -
  from assms(3) obtain l1 reason where r: "recoveryReason session x l = (l1, Inr reason)"
    by (auto simp: recoverEntry_def bindOp_Inr)
  then have held: "map_of (lkLeases l1) i = Some LeaseHeld"
    using assms(1) abandoned_held(1) by (auto simp: recoveryReason_def bindOp_Inr ret_Inr split: if_splits)
  show "map_of (lkLeases l') i = Some LeaseHeld" "set (raRuns acc) \<subseteq> set (raRuns acc')"
    using assms(2,3) r held removeLease_held [OF held]
    by (auto simp: recoverEntry_def bindOp_Inr ret_Inr Let_def split: if_splits)
qed

lemma recoverEntry_live:
  assumes "map_of (lkLeases l) (runID e) = Some LeaseHeld" "runBootSession e = session" "session \<noteq> []"
    and "\<not> terminal \<or> isActive e" "recoverEntry session terminal acc e l = (l', Inr acc')"
  shows "map_of (lkLeases l') (runID e) = Some LeaseHeld" "raRuns acc' = raRuns acc @ [e]"
proof -
  have "recoveryReason session e l = (l, Inr LiveRunRecoveryEmpty)"
    using assms(1-3) by (simp add: recoveryReason_def bindOp_def queueEntryLeaseAbandonedV1_def ret_def)
  then show "map_of (lkLeases l') (runID e) = Some LeaseHeld" "raRuns acc' = raRuns acc @ [e]"
    using assms by (auto simp: recoverEntry_def bindOp_Inr ret_Inr isActive_def)
qed

lemma recoverEntries_live:
  assumes "map_of (lkLeases l) (runID e) = Some LeaseHeld" "runBootSession e = session" "session \<noteq> []"
    and "\<not> terminal \<or> isActive e" "distinct (map runID es)"
    and "recoverEntries session terminal acc es l = (l', Inr acc')" "e \<in> set es \<or> e \<in> set (raRuns acc) \<and> runID e \<notin> runID ` set es"
  shows "map_of (lkLeases l') (runID e) = Some LeaseHeld \<and> e \<in> set (raRuns acc')"
  using assms
proof (induction es arbitrary: acc l)
  case Nil
  then show ?case by (auto simp: ret_Inr)
next
  case (Cons x es)
  from Cons.prems(6) obtain l1 acc1 where step: "recoverEntry session terminal acc x l = (l1, Inr acc1)"
    and rest: "recoverEntries session terminal acc1 es l1 = (l', Inr acc')"
    by (auto simp: bindOp_Inr)
  show ?case
  proof (cases "x = e")
    case True
    with recoverEntry_live [OF Cons.prems(1-4)] step Cons.prems(5) Cons.IH [OF _ Cons.prems(2-4) _ rest] show ?thesis
      by auto
  next
    case False
    then have other: "runID x \<noteq> runID e" using Cons.prems(5,7) by (auto simp: image_iff)
    note keep = recoverEntry_other [OF Cons.prems(1) other step]
    show ?thesis
      using Cons.IH [OF keep(1) Cons.prems(2-4) _ rest] Cons.prems(5,7) False keep(2) by auto
  qed
qed

lemma recoverSessions_held:
  "map_of (lkLeases l) i = Some LeaseHeld \<Longrightarrow> recoverSessions session retained ws l = (l', Inr xs) \<Longrightarrow>
     map_of (lkLeases l') i = Some LeaseHeld"
  by (induction ws arbitrary: l l' xs)
    (auto simp: ret_Inr bindOp_Inr dest: abandoned_held(1) split: if_splits)

lemma removeOrphans_held:
  "map_of (lkLeases l) i = Some LeaseHeld \<Longrightarrow> removeOrphans retained ids l = (l', Inr xs) \<Longrightarrow>
     map_of (lkLeases l') i = Some LeaseHeld"
  by (induction ids arbitrary: l l')
    (auto simp: ret_Inr bindOp_Inr dest: abandoned_held(1) split: if_splits)

text \<open>
  Recovery never takes a run from a live owner. An entry of the current boot session whose
  lease is held survives a successful recovery, and so does its lease; under terminal removal
  this holds of the active entries.
\<close>

theorem recovery_keeps_live_owner:
  assumes "RecoverLiveRunQueueV1 l = (l', Inr rv)" and "r \<in> set (elems (qRuns (storedQueue l)))"
    and "lkBootSession l = Some (runBootSession r)" and "map_of (lkLeases l) (runID r) = Some LeaseHeld"
    and "lkRetirementState l = [] \<or> runStatus r = LiveRunStatusActiveV1"
  shows "(\<exists>r' \<in> set (elems (qRuns (storedQueue l'))). runID r' = runID r
       \<and> (runStatus r = LiveRunStatusActiveV1 \<longrightarrow> r' = r))
     \<and> map_of (lkLeases l') (runID r) = Some LeaseHeld"
proof -
  let ?q = "storedQueue l" and ?t = "lkRetirementState l \<noteq> []"
  from assms(1) obtain session l1 l2 l3 acc where steps: "lkBootSession l = Some session" "queueOK ?q" "session \<noteq> []"
    "recoverEntries session ?t \<lparr>raRuns = [], raCleanup = qCleanup ?q, raRemoved = []\<rparr> (elems (qRuns ?q)) l = (l1, Inr acc)"
    "(if raRemoved acc \<noteq> [] \<or> length (elems (qRuns (recoveredQueue ?t ?q acc))) \<noteq> length (elems (qRuns ?q))
      then commitLiveRunQueuePathV1 (recoveredQueue ?t ?q acc) else ret ()) l1 = (l2, Inr ())"
    "recoverSessions session (idsOf (recoveredQueue ?t ?q acc)) (qControlledSessions ?q) l2 = (l3, Inr (rvControlledSessions rv))"
    "removeOrphanedQueueEntryLeasesV1 (idsOf (recoveredQueue ?t ?q acc)) l3 = (l', Inr ())"
    by (rule recover_steps)
  note acc = recovered_acc [OF steps(2,4)]
  have session: "runBootSession r = session" using assms(3) steps(1) by simp
  obtain rs where rs: "qRuns ?q = Some rs" "distinct (map runID rs)" using steps(2) by (auto simp: queueOK_def entriesOK_def)
  have live: "map_of (lkLeases l1) (runID r) = Some LeaseHeld \<and> r \<in> set (raRuns acc)"
    using recoverEntries_live [OF assms(4) session steps(3) _ _ steps(4)] assms(2,5) rs by (auto simp: isActive_def)
  have "lkLeases l2 = lkLeases l1"
    using steps(5) commit_Inr(4) by (auto simp: ret_Inr split: if_splits)
  with live have "map_of (lkLeases l3) (runID r) = Some LeaseHeld"
    using recoverSessions_held [OF _ steps(6)] by simp
  then have lease: "map_of (lkLeases l') (runID r) = Some LeaseHeld"
    using removeOrphans_held steps(7) by (simp add: removeOrphanedQueueEntryLeasesV1_def)
  have l3: "lkQueueFile l3 = lkQueueFile l2"
    using keeps_Inr [OF queueFrame.keeps_recoverSessions _ steps(6), of "lkQueueFile l2"] by (simp add: sameQueue_def)
  have "lkQueueFile l' = lkQueueFile l3"
    using keeps_Inr [OF queueFrame.keeps_removeOrphaned _ steps(7), of "lkQueueFile l3"] by (simp add: sameQueue_def)
  with l3 have final: "storedQueue l' = storedQueue l2" by (simp add: storedQueue_def)
  have runs: "elems (qRuns (storedQueue l2)) = elems (qRuns (recoveredQueue ?t ?q acc)) \<or> storedQueue l2 = ?q"
    using steps(5) commit_Inr(3) acc(2) by (auto simp: ret_Inr storedQueue_def split: if_splits)
  have sub: "subseq (raRuns acc) rs" using acc(1) rs by (simp add: recovered_def)
  have "laidOut (raRuns acc)" using steps(2) rs laidOut_subseq [OF sub] by (auto simp: queueOK_def disciplined_def)
  from promoteRuns_keeps [OF this] live
  have "\<exists>r' \<in> set (elems (qRuns (recoveredQueue ?t ?q acc))). runID r' = runID r \<and> (isActive r \<longrightarrow> r' = r)"
    by (auto simp: recoveredQueue_eq promoteLiveRunsV1_def)
  with runs assms(2) lease show ?thesis unfolding final by (auto simp: isActive_def)
qed

theorem recovery_keeps_live_owner_witness:
  "sampleRun runOne True LiveRunStatusActiveV1 \<in> set (elems (qRuns (storedQueue recoveredLock)))"
proof -
  have "sampleRun runOne True LiveRunStatusActiveV1 \<in> set (elems (qRuns (storedQueue sampleLock)))"
    by (simp add: storedQueue_def sampleLock_def)
  from recovery_keeps_live_owner [OF recover_sample this] show ?thesis
    by (simp add: sampleLock_def)
qed

section \<open>Terminal removal\<close>

lemma retainActive_members:
  assumes "distinct (map runID rs)" "set xs \<subseteq> set rs"
  shows "retainActive rs xs = actives xs"
  unfolding retainActive_def
proof (rule filter_cong)
  fix r assume "r \<in> set xs"
  with assms show "list_ex (\<lambda>old. runID old = runID r \<and> runStatus old = LiveRunStatusActiveV1) rs = isActive r"
    using eq_key_imp_eq_value_run [of rs _ r] by (auto simp: list_ex_iff isActive_def)
qed simp

lemma retainActive_promote:
  assumes "distinct (map runID rs)" "subseq xs rs" "laidOut xs"
  shows "retainActive rs (promoteRuns xs) = actives xs"
proof (cases "waitings xs")
  case Nil
  then show ?thesis
    using assms retainActive_members [of rs xs] by (auto simp: promoteRuns_eq dest: list_emb_set)
next
  case (Cons w ws)
  have sub: "set xs \<subseteq> set rs" using assms(2) by (auto dest: list_emb_set)
  have mem: "x \<in> set xs \<and> isWaiting x" if "x \<in> set (w # ws)" for x
    using that unfolding Cons [symmetric] by simp
  then have ws: "w \<in> set xs" "isWaiting w" "set ws \<subseteq> set xs" by auto
  have none: "actives ws = []" using mem by (auto simp: filter_empty_conv dest: status_exclusive)
  let ?w = "w\<lparr>runStatus := LiveRunStatusReadyV1\<rparr>"
  have "w \<in> set rs" using sub ws(1) by blast
  then have "retainActive rs [?w] = []"
    using ws(2) eq_key_imp_eq_value_run [OF assms(1) _ \<open>w \<in> set rs\<close>] by (fastforce simp: retainActive_def list_ex_iff status_defs)
  moreover have "retainActive rs (a @ b) = retainActive rs a @ retainActive rs b" for a b
    by (simp add: retainActive_def)
  ultimately have "retainActive rs (actives xs @ ?w # ws) = retainActive rs (actives xs) @ retainActive rs ws"
    by (metis append.left_neutral append_Cons append_Nil)
  also have "\<dots> = actives xs"
    using retainActive_members [OF assms(1), of "actives xs"] retainActive_members [OF assms(1), of ws] sub ws none
    by (auto simp: subset_iff)
  finally show ?thesis
    using Cons assms(3) retainActive_members [OF assms(1) sub] by (simp add: promoteRuns_eq)
qed

text \<open>
  Terminal removal cancels queued work instead of starting it. With a retirement bound,
  removing a run that is in the queue leaves exactly the other active entries, in order and
  unchanged: nothing that was waiting or ready is kept, and nothing is promoted.
\<close>

theorem terminal_removal_keeps_actives:
  assumes "lockRemoveLiveRunV1 i l = (l', Inr (q', True))" and "lkRetirementState l \<noteq> []"
  shows "elems (qRuns (storedQueue l')) =
    filter (\<lambda>r. runStatus r = LiveRunStatusActiveV1 \<and> runID r \<noteq> i) (elems (qRuns (storedQueue l)))"
proof -
  let ?q = "storedQueue l"
  from assms(1) obtain l0 x l1 q where guard: "requireRetirementLocked l = (l0, Inr x)"
    and read: "readQueue l0 = (l1, Inr q)"
    and rest: "bindOp (lift StoreQueue (RemoveLiveRunV1 q i)) (\<lambda>(updated, removed).
       if \<not> removed then ret (updated, removed)
       else bindOp (commitRemovalQueueLockedV1 q updated) (\<lambda>q'. ret (q', True))) l1 = (l', Inr (q', True))"
    unfolding lockRemoveLiveRunV1_def bindOp_Inr [of requireRetirementLocked] bindOp_Inr [of readQueue]
    by (elim exE conjE)
  have ok: "queueOK ?q" and q_eq: "q = ?q" and l1: "l1 = l"
    using readQueue_Inr [OF read] guards_Inr(3) [OF guard] by simp_all
  obtain updated removed where remove: "RemoveLiveRunV1 ?q i = Inr (updated, removed)"
    and commit: "(if \<not> removed then ret (updated, removed)
       else bindOp (commitRemovalQueueLockedV1 ?q updated) (\<lambda>q'. ret (q', True))) l = (l', Inr (q', True))"
    using rest unfolding q_eq l1 by (auto simp: bindOp_Inr lift_def split: sum.splits)
  have removed: removed using commit by (cases removed) (auto simp: ret_Inr)
  obtain rs where rs: "qRuns ?q = Some rs" "distinct (map runID rs)" "laidOut rs"
    using ok by (auto simp: queueOK_def entriesOK_def disciplined_def)
  let ?rs = "filter (\<lambda>e. runID e \<noteq> i) rs"
  have "updated = promoteLiveRunsV1 (?q\<lparr>qRuns := Some ?rs\<rparr>)"
    using remove removed ok by (auto simp: RemoveLiveRunV1_def queueOK_valid remove_result [OF ok rs(1)] split: option.splits if_splits)
  then have "elems (qRuns (removalQueue l ?q updated)) = retainActive rs (promoteRuns ?rs)"
    using assms(2) rs by (simp add: removalQueue_def promoteLiveRunsV1_def)
  also have "\<dots> = actives ?rs"
    using rs(2,3) by (intro retainActive_promote laidOut_subseq [OF subseq_filter_keep rs(3)]) auto
  also have "\<dots> = filter (\<lambda>r. runStatus r = LiveRunStatusActiveV1 \<and> runID r \<noteq> i) rs"
    by (auto simp: isActive_def intro: filter_cong)
  finally have runs: "elems (qRuns (removalQueue l ?q updated)) = filter (\<lambda>r. runStatus r = LiveRunStatusActiveV1 \<and> runID r \<noteq> i) rs" .
  have "commitLiveRunQueuePathV1 (removalQueue l ?q updated) l = (l', Inr ())"
    using commit removed by (auto simp: commitRemovalQueueLockedV1_def Let_def bindOp_Inr ret_Inr)
  with runs rs(1) commit_Inr(3) show ?thesis by simp
qed

definition retiringLock :: operation_lock where
  "retiringLock = sampleLock\<lparr>lkGuard := Some ''retiring'', lkRetirementState := ''retiring''\<rparr>"

theorem terminal_removal_keeps_actives_witness:
  "\<exists>l' q'. lockRemoveLiveRunV1 runOne retiringLock = (l', Inr (q', True)) \<and> elems (qRuns (storedQueue l')) = []"
proof -
  have guard: "requireRetirementLocked retiringLock = (retiringLock, Inr ())" "liveRunQueuePathLockedV1 retiringLock = (retiringLock, Inr ())"
    by (simp_all add: requireRetirementLocked_def terminalStateLocked_def requireHeldLocked_def bindOp_def
        liveRunQueuePathLockedV1_def retiringLock_def sampleLock_def)
  have read: "readQueue retiringLock = (retiringLock, Inr busyQueue)"
    by (simp add: readQueue_def bindOp_def guard readLiveRunQueuePathV1_def retiringLock_def sampleLock_def samples_valid ret_def
        liveRunQueuePathLockedV1_def requireHeldLocked_def)
  have ok: "queueOK busyQueue" using samples_valid by (simp add: ValidateLiveRunQueueV1_iff)
  let ?q = "promoteLiveRunsV1 (busyQueue\<lparr>qRuns := Some [sampleRun runTwo False LiveRunStatusWaitingV1]\<rparr>)"
  have remove: "RemoveLiveRunV1 busyQueue runOne = Inr (?q, True)"
    by (simp add: RemoveLiveRunV1_def samples_valid ValidateLiveRunIDV1_def sampleIDs remove_result [OF ok sampleQueue_simps(1)])
  have "removalQueue retiringLock busyQueue ?q = NewLiveRunQueueV1"
    by (simp add: removalQueue_def retiringLock_def retainActive_def promoteLiveRunsV1_def promoteRuns_def
        setStatus_def busyQueue_def NewLiveRunQueueV1_def)
  moreover have onDisk: "lkQueueFile retiringLock = Some busyQueue" "\<not> lkWriteFails retiringLock"
    "qControlledSessions NewLiveRunQueueV1 = []" "qCleanup NewLiveRunQueueV1 = []"
    by (simp_all add: retiringLock_def sampleLock_def NewLiveRunQueueV1_def)
  ultimately have "commitRemovalQueueLockedV1 busyQueue ?q retiringLock = (retiringLock\<lparr>lkQueueFile := None\<rparr>, Inr NewLiveRunQueueV1)"
    using onDisk by (simp add: commitRemovalQueueLockedV1_def bindOp_def commitLiveRunQueuePathV1_def samples_valid newRuns ret_def)
  then have result: "lockRemoveLiveRunV1 runOne retiringLock = (retiringLock\<lparr>lkQueueFile := None\<rparr>, Inr (NewLiveRunQueueV1, True))"
    by (simp add: lockRemoveLiveRunV1_def bindOp_def guard read lift_def remove ret_def)
  have "lkRetirementState retiringLock \<noteq> []" by (simp add: retiringLock_def)
  from terminal_removal_keeps_actives [OF result this] result show ?thesis
    by (auto simp: storedQueue_def retiringLock_def sampleLock_def)
qed

section \<open>Generated identities\<close>

lemma hexDigit_hex: "d < 16 \<Longrightarrow> isLowerHex (hexDigit d)"
  by (auto simp: hexDigit_def isLowerHex_def isDigit_def of_char_of take_bit_eq_mod)

lemma hexDigit_inject: "d < 16 \<Longrightarrow> e < 16 \<Longrightarrow> hexDigit d = hexDigit e \<Longrightarrow> d = e"
  by (auto simp: hexDigit_def char_of_eq_iff of_char_of take_bit_eq_mod split: if_splits dest!: arg_cong [where f = "of_char :: char \<Rightarrow> nat"])

lemma byte_bound: "(of_char c :: nat) < 256"
  using range_nat_of_char by (metis atLeastLessThan_iff rangeI)

lemma nibbles: "byteOf c div 16 < 16" "byteOf c mod 16 < 16"
  using byte_bound [of c] by (simp_all add: less_mult_imp_div_less)

lemma hexBytes_hex: "list_all isLowerHex (concat (map hexByte s))" "length (concat (map hexByte s)) = 2 * length s"
  by (induction s) (auto simp: hexByte_def hexDigit_hex nibbles)

lemma hexByte_inject: "hexByte c = hexByte d \<Longrightarrow> c = d"
proof -
  assume eq: "hexByte c = hexByte d"
  have "byteOf c div 16 = byteOf d div 16" "byteOf c mod 16 = byteOf d mod 16"
    using eq hexDigit_inject [OF nibbles(1) nibbles(1)] hexDigit_inject [OF nibbles(2) nibbles(2)]
    by (auto simp: hexByte_def)
  then have "byteOf c = byteOf d" by (metis mod_div_decomp)
  then show "c = d" by simp
qed

lemma hexBytes_inject: "concat (map hexByte s) = concat (map hexByte t) \<Longrightarrow> length s = length t \<Longrightarrow> s = t"
  by (induction s t rule: list_induct2') (auto simp: hexByte_def intro: hexByte_inject)

lemma newOpaque_pattern:
  assumes "newOpaqueAdmissionIDV1 random prefx = Inr i"
  shows "hexPattern (prefx @ ''-'') 16 i"
proof -
  from assms obtain s where s: "random = Some s" "8 \<le> length s" "i = prefx @ ''-'' @ concat (map hexByte (take 8 s))"
    by (auto simp: newOpaqueAdmissionIDV1_def split: option.splits if_splits)
  then show ?thesis
    using hexBytes_hex [of "take 8 s"] by (simp add: hexPattern_def hasPrefix_def)
qed

lemma newOpaque_Some:
  "newOpaqueAdmissionIDV1 (Some s) p = Inr i \<Longrightarrow> 8 \<le> length s \<and> i = p @ ''-'' @ concat (map hexByte (take 8 s))"
  by (simp add: newOpaqueAdmissionIDV1_def split: if_splits)

lemma newOpaque_inject:
  assumes "newOpaqueAdmissionIDV1 (Some s) p = Inr i" "newOpaqueAdmissionIDV1 (Some t) p = Inr i"
  shows "take 8 s = take 8 t"
proof -
  have "p @ ''-'' @ concat (map hexByte (take 8 s)) = p @ ''-'' @ concat (map hexByte (take 8 t))"
    using newOpaque_Some [OF assms(1)] newOpaque_Some [OF assms(2)] by metis
  then have eq: "concat (map hexByte (take 8 s)) = concat (map hexByte (take 8 t))" by simp
  have "length (take 8 s) = length (take 8 t)"
    using newOpaque_Some [OF assms(1), THEN conjunct1] newOpaque_Some [OF assms(2), THEN conjunct1] by simp
  with eq show ?thesis by (rule hexBytes_inject)
qed

text \<open>
  Generated IDs. An ID drawn for a run or a control marker always passes the validator of
  its own kind and never that of the other kind, and two draws for the same kind coincide only
  when the first eight random bytes do.
\<close>

theorem generated_ids:
  assumes "newLiveRunIDV1 (Some s) = Inr i" and "newLiveRunIDV1 (Some t) = Inr j"
    and "newControlMarkerIDV1 (Some u) = Inr k" and "newControlMarkerIDV1 (Some v) = Inr m"
  shows "ValidateLiveRunIDV1 i = None \<and> ValidateControlMarkerIDV1 i \<noteq> None
     \<and> ValidateControlMarkerIDV1 k = None \<and> ValidateLiveRunIDV1 k \<noteq> None
     \<and> (i = j \<longrightarrow> take 8 s = take 8 t) \<and> (k = m \<longrightarrow> take 8 u = take 8 v)"
proof -
  have run: "hexPattern ''run-'' 16 i" and control: "hexPattern ''control-'' 16 k"
    using newOpaque_pattern assms(1,3) by (fastforce simp: newLiveRunIDV1_def newControlMarkerIDV1_def)+
  then have "\<not> hexPattern ''control-'' 16 i" "\<not> hexPattern ''run-'' 16 k"
    using hexPattern_disjoint [of "''run-''" 16 i "''control-''" 16] hexPattern_disjoint [of "''run-''" 16 k "''control-''" 16]
    by (simp_all, blast+)
  moreover have "take 8 s = take 8 t" if "i = j"
    using newOpaque_inject [of s "''run''" i t] assms(1,2) that by (simp add: newLiveRunIDV1_def)
  moreover have "take 8 u = take 8 v" if "k = m"
    using newOpaque_inject [of u "''control''" k v] assms(3,4) that by (simp add: newControlMarkerIDV1_def)
  ultimately show ?thesis
    using run control by (simp add: ValidateLiveRunIDV1_def ValidateControlMarkerIDV1_def
        liveRunIDPatternV1_def controlMarkerIDPatternV1_def)
qed

theorem generated_ids_witness:
  "ValidateLiveRunIDV1 ''run-6162636465666768'' = None"
proof -
  have "newLiveRunIDV1 (Some ''abcdefgh'') = Inr ''run-6162636465666768''"
    "newControlMarkerIDV1 (Some ''abcdefgh'') = Inr ''control-6162636465666768''"
    by (simp_all add: newLiveRunIDV1_def newControlMarkerIDV1_def newOpaqueAdmissionIDV1_def hexByte_def hexDigit_def char_of_def bit_Suc_0_iff)
  from generated_ids [OF this(1) this(1) this(2) this(2)] show ?thesis by simp
qed

section \<open>Ownership records are found again\<close>

lemma find_distinct:
  "distinct (map f xs) \<Longrightarrow> x \<in> set xs \<Longrightarrow> find (\<lambda>y. f y = f x) xs = Some x"
  by (induction xs) auto

definition idKept :: "string \<Rightarrow> string \<Rightarrow> bool" where
  "idKept old new \<longleftrightarrow> old = [] \<or> new = old"

lemma merge_ids:
  assumes "mergeControlledSessionOwnershipV1 existing requested = Inr merged"
  shows "idKept (owNetworkID existing) (owNetworkID merged)"
    "idKept (coID (owController existing)) (coID (owController merged))"
    "idKept (coID (owWorkload existing)) (coID (owWorkload merged))"
  using assms
  by (auto simp: mergeControlledSessionOwnershipV1_def mergeID_def idKept_def Let_def
      split: if_splits sum.splits option.splits)

lemma writable_Inr: "requireWritableLocked l = (l', Inr x) \<Longrightarrow> l' = l"
  by (auto simp: requireWritableLocked_def terminalStateLocked_def requireHeldLocked_def bindOp_def
      split: option.splits if_splits)

lemma storeOwnership_steps:
  assumes "queueOK q" "validateCurrentControlledSessionOwnershipV1 w = None"
    and "storeOwnership q w l = (l', Inr m)" "q = storedQueue l"
  shows "qControlledSessions (storedQueue l') \<noteq> [] \<and> m \<in> set (qControlledSessions (storedQueue l'))
     \<and> owLiveRunID m = owLiveRunID w \<and> ownershipPlan m = ownershipPlan w
     \<and> {x \<in> set (qControlledSessions (storedQueue l')). owLiveRunID x \<noteq> owLiveRunID w}
         = {x \<in> set (qControlledSessions q). owLiveRunID x \<noteq> owLiveRunID w}
     \<and> elems (qRuns (storedQueue l')) = elems (qRuns q)
     \<and> (\<forall>x \<in> set (qControlledSessions q). owLiveRunID x = owLiveRunID w \<longrightarrow>
          idKept (owNetworkID x) (owNetworkID m) \<and> idKept (coID (owController x)) (coID (owController m))
          \<and> idKept (coID (owWorkload x)) (coID (owWorkload m)))"
proof -
  let ?ws = "qControlledSessions q"
  define k where "k = sortSearch (length ?ws) (\<lambda>index. owLiveRunID (?ws ! index) \<ge> owLiveRunID w)"
  have ok: "sessionsOK ?ws" and sorted: "sortedUnique owLiveRunID ?ws" and dist: "distinct (map owLiveRunID ?ws)"
    using assms(1) by (auto simp: queueOK_def sessionsOK_def sortedUnique_distinct)
  note pos = sortSearch_sessions [OF sorted, of "owLiveRunID w", folded k_def]
  note run = assms(3) [unfolded storeOwnership_def Let_def, folded k_def]
  show ?thesis
  proof (cases "k < length ?ws \<and> owLiveRunID (?ws ! k) = owLiveRunID w")
    case True
    have only: "x = ?ws ! k" if "x \<in> set ?ws" "owLiveRunID x = owLiveRunID w" for x
      using dist that True by (auto simp: distinct_map inj_on_def)
    from run True have m: "mergeControlledSessionOwnershipV1 (?ws ! k) w = Inr m"
      and stored: "m = ?ws ! k \<and> l' = l \<or> commitLiveRunQueuePathV1 (q\<lparr>qControlledSessions := ?ws[k := m]\<rparr>) l = (l', Inr ())"
      by (auto simp: bindOp_Inr lift_def ret_Inr split: sum.splits if_splits)
    have "qControlledSessions (storedQueue l') = ?ws[k := m] \<and> elems (qRuns (storedQueue l')) = elems (qRuns q)"
      using stored commit_Inr(2,3) [of "q\<lparr>qControlledSessions := ?ws[k := m]\<rparr>" l l'] assms(4) by auto
    moreover have "set (?ws[k := m]) = insert m (set ?ws - {?ws ! k})"
      using dist True by (intro set_update_distinct) (auto simp: distinct_map)
    ultimately show ?thesis
      using merge_result [OF m] merge_ids [OF m] only True by auto
  next
    case False
    with run have m: "m = w" and stored: "commitLiveRunQueuePathV1 (q\<lparr>qControlledSessions := insertAt k w ?ws\<rparr>) l = (l', Inr ())"
      by (auto simp: bindOp_Inr ret_Inr split: if_splits)
    have "set (insertAt k w ?ws) = insert w (set ?ws)"
      using append_take_drop_id [of k ?ws] by (metis insertAt_def list.simps(15) set_append Un_insert_right)
    moreover have "owLiveRunID x \<noteq> owLiveRunID w" if x: "x \<in> set ?ws" for x
    proof
      assume eq: "owLiveRunID x = owLiveRunID w"
      obtain j where j: "j < length ?ws" "x = ?ws ! j" using x by (auto simp: in_set_conv_nth)
      have "x \<in> set (take k ?ws) \<or> x \<in> set (drop k ?ws)"
        using x append_take_drop_id [of k ?ws] by (metis Un_iff set_append)
      then have "x \<in> set (drop k ?ws)" using pos(2) eq by auto
      then have "k < length ?ws" by (cases "k < length ?ws") auto
      then have split: "drop k ?ws = ?ws ! k # drop (Suc k) ?ws" by (simp add: Cons_nth_drop_Suc)
      have "sorted_wrt (<) (map owLiveRunID (drop k ?ws))"
        using sorted sortedUnique_subseq by (metis sortedUnique_iff drop_map sorted_wrt_drop)
      with \<open>x \<in> set (drop k ?ws)\<close> split eq pos(3) \<open>k < length ?ws\<close> False show False by force
    qed
    ultimately show ?thesis
      using commit_Inr(2,3) [OF stored] m by auto
  qed
qed

text \<open>
  Ownership records. After a controlled session's ownership was recorded, looking its run
  up in the stored records yields exactly the returned record; it has the resource plan that
  was requested, bound to the boot session of the admitted run, which is an active shell run
  without a container of its own; a container or network ID recorded before is never replaced;
  the records of all other runs and the queue entries are unchanged.
\<close>

theorem ownership_recorded:
  assumes "RecordControlledSessionOwnershipV1 w l = (l', Inr m)"
  shows "find (\<lambda>x. owLiveRunID x = owLiveRunID w) (qControlledSessions (storedQueue l')) = Some m
     \<and> (\<exists>r \<in> set (elems (qRuns (storedQueue l))). runID r = owLiveRunID w \<and> runKind r = LiveRunKindShellV1
          \<and> runStatus r = LiveRunStatusActiveV1 \<and> runContainer r = []
          \<and> ownershipPlan m = ownershipPlan (w\<lparr>owBootSession := runBootSession r\<rparr>))
     \<and> (\<forall>x \<in> set (qControlledSessions (storedQueue l)). owLiveRunID x = owLiveRunID w \<longrightarrow>
          idKept (owNetworkID x) (owNetworkID m) \<and> idKept (coID (owController x)) (coID (owController m))
          \<and> idKept (coID (owWorkload x)) (coID (owWorkload m)))
     \<and> {x \<in> set (qControlledSessions (storedQueue l')). owLiveRunID x \<noteq> owLiveRunID w}
         = {x \<in> set (qControlledSessions (storedQueue l)). owLiveRunID x \<noteq> owLiveRunID w}
     \<and> elems (qRuns (storedQueue l')) = elems (qRuns (storedQueue l))"
proof -
  let ?q = "storedQueue l" and ?i = "owLiveRunID w"
  from assms obtain l0 l1 q x where guard: "requireWritableLocked l = (l0, Inr x)" and read: "readQueue l0 = (l1, Inr q)"
    and rest: "(let rs = elems (qRuns q) in
     case findIndex (\<lambda>r. runID r = ?i) 0 rs of
       None \<Rightarrow> raise (NotOutstanding ?i)
     | Some k \<Rightarrow>
         let admitted = rs ! k in
         if runStatus admitted \<noteq> LiveRunStatusActiveV1 \<or> runKind admitted \<noteq> LiveRunKindShellV1
         then raise (SessionNotActiveShell ?i)
         else if runContainer admitted \<noteq> [] then raise (SessionHasContainer (runContainer admitted))
         else
           let w = w\<lparr>owBootSession := runBootSession admitted\<rparr> in
           bindOp (need SessionInvalid (validateCurrentControlledSessionOwnershipV1 w)) (\<lambda>_ l.
             (case sessionParticipant (lkDirectory l) w of
                None \<Rightarrow> raise (SessionDirectory (lkDirectory l))
              | Some participant \<Rightarrow>
                  if runGenerationReference admitted \<noteq> coGenerationReference participant
                  then raise (SessionGeneration (owLiveRunID w))
                  else storeOwnership q w) l)) l1 = (l', Inr m)"
    unfolding RecordControlledSessionOwnershipV1_def bindOp_Inr [of "need _ _"] need_Inr
      bindOp_Inr [of requireWritableLocked] bindOp_Inr [of readQueue]
    by (elim exE conjE) simp
  have q: "queueOK ?q" "q = ?q" "l1 = l"
    using readQueue_Inr [OF read] writable_Inr [OF guard] by simp_all
  from rest obtain k where k: "findIndex (\<lambda>r. runID r = ?i) 0 (elems (qRuns ?q)) = Some k"
    and r: "runStatus (elems (qRuns ?q) ! k) = LiveRunStatusActiveV1" "runKind (elems (qRuns ?q) ! k) = LiveRunKindShellV1"
      "runContainer (elems (qRuns ?q) ! k) = []"
    and valid: "validateCurrentControlledSessionOwnershipV1 (w\<lparr>owBootSession := runBootSession (elems (qRuns ?q) ! k)\<rparr>) = None"
    and store: "storeOwnership ?q (w\<lparr>owBootSession := runBootSession (elems (qRuns ?q) ! k)\<rparr>) l = (l', Inr m)"
    by (auto simp: q(2,3) Let_def bindOp_Inr need_Inr raise_def split: option.splits if_splits)
  note facts = storeOwnership_steps [OF q(1) valid store refl]
  have mem: "elems (qRuns ?q) ! k \<in> set (elems (qRuns ?q))" "runID (elems (qRuns ?q) ! k) = ?i"
    using findIndex_Some [OF k] by auto
  have "storeOK l" using q(1) by (auto simp: storeOK_def storedQueue_def split: option.splits)
  from keeps_Inr [OF validStore.keeps_RecordControlledSessionOwnership this assms] have "storeOK l'" by simp
  then have "queueOK (storedQueue l')" using newQueue_OK by (auto simp: storeOK_def storedQueue_def split: option.splits)
  then have "distinct (map owLiveRunID (qControlledSessions (storedQueue l')))"
    by (auto simp: queueOK_def sessionsOK_def sortedUnique_distinct)
  from find_distinct [OF this, of m] facts r mem show ?thesis by auto
qed

definition sampleContainer :: "string \<Rightarrow> ControlledSessionContainerOwnershipV1" where
  "sampleContainer role = \<lparr>coRole = role, coID = [], coName = role, coDeploymentID = ''d1'',
     coGenerationReference = ''generation-1'', coBuildIdentity = ''sha256:'' @ replicate 64 (CHR ''0'')\<rparr>"

definition sampleOwnership :: ControlledSessionOwnershipV1 where
  "sampleOwnership = \<lparr>owLiveRunID = runOne, owBootSession = ''boot-1'',
     owSessionHandle = ''session-'' @ replicate 64 (CHR ''0''), owDockerEndpoint = ''unix:///run/docker.sock'',
     owControllerDeploymentDirectory = ''/srv/ctl'', owWorkloadDeploymentDirectory = ''/srv/app'',
     owChannelDirectory = ''/srv/app/.reploy/sessions/run-0000000000000001'', owNetworkID = [], owNetworkName = [],
     owController = sampleContainer ''controller'', owWorkload = sampleContainer ''workload''\<rparr>"

lemma sampleTexts:
  "safeRecoveryIdentity ''boot-1''" "safeRecoveryIdentity ''unix:///run/docker.sock''" "safeRecoveryIdentity ''/srv/ctl''"
  "safeRecoveryIdentity ''/srv/app''" "safeRecoveryIdentity ''/srv/app/.reploy/sessions/run-0000000000000001''"
  "safeRecoveryIdentity ''controller''" "safeRecoveryIdentity ''workload''" "safeRecoveryIdentity ''d1''"
  "safeRecoveryIdentity ''generation-1''"
  by (rule safeRecoveryIdentity_plain, simp_all add: plainText_def hasPrefix_def)+

lemma sampleOwnership_valid: "validateCurrentControlledSessionOwnershipV1 sampleOwnership = None"
proof -
  have hex: "hexPattern p 64 (p @ replicate 64 (CHR ''0''))" for p
    by (simp add: hexPattern_def hasPrefix_def isLowerHex_def isDigit_def list_all_iff)
  have scheme: "lowerEquals ''unix'' ''unix''"
    by (simp add: lowerEquals_def runes_plain plainText_def lowerRune_def)
  have channel: "joinPath [''/srv/app'', ''.reploy'', ''sessions'', runOne] = ''/srv/app/.reploy/sessions/run-0000000000000001''"
    by (simp add: joinPath_def cleanPath_def isAbs_def hasPrefix_def Let_def)
  have clean: "cleanPath ''/srv/app'' = ''/srv/app''" "cleanPath ''/srv/ctl'' = ''/srv/ctl''"
    "cleanPath ''/srv/app/.reploy/sessions/run-0000000000000001'' = ''/srv/app/.reploy/sessions/run-0000000000000001''"
    by (simp_all add: cleanPath_def isAbs_def hasPrefix_def Let_def)
  have container: "validateControlledSessionContainerOwnershipStateV1 (sampleContainer role) role = None"
    if "safeRecoveryIdentity role" for role
    using that hex [of "''sha256:''"] by (simp add: validateControlledSessionContainerOwnershipStateV1_def sampleContainer_def sampleTexts
        controlledSessionBuildIdentityPatternV1_def)
  have endpoint: "validateControlledSessionDockerEndpointV1 ''unix:///run/docker.sock'' = None"
    by (simp add: validateControlledSessionDockerEndpointV1_def sampleTexts cutOn_def scheme)
  have handle: "controlledSessionHandlePatternV1 (''session-'' @ replicate 64 (CHR ''0''))"
    using hex by (simp only: controlledSessionHandlePatternV1_def)
  then have handle': "controlledSessionHandlePatternV1 (CHR ''s'' # CHR ''e'' # CHR ''s'' # CHR ''s'' # CHR ''i'' #
      CHR ''o'' # CHR ''n'' # CHR ''-'' # replicate 64 (CHR ''0''))" by simp
  have "coID (sampleContainer role) = []" for role by (simp add: sampleContainer_def)
  then show ?thesis
    by (simp add: validateCurrentControlledSessionOwnershipV1_def validateControlledSessionOwnershipV1_def
        sampleOwnership_def cleanAbsolute_def isAbs_def hasPrefix_def clean channel sampleTexts container endpoint handle'
        sampleIDs ValidateLiveRunIDV1_def validateBootSessionIDV1_def maxBootSessionIDLengthV1_def)
qed

theorem ownership_recorded_witness:
  "\<exists>l'. RecordControlledSessionOwnershipV1 sampleOwnership sampleLock = (l', Inr sampleOwnership)
     \<and> find (\<lambda>x. owLiveRunID x = runOne) (qControlledSessions (storedQueue l')) = Some sampleOwnership"
proof -
  let ?q = "busyQueue\<lparr>qControlledSessions := [sampleOwnership]\<rparr>"
  let ?l = "sampleLock\<lparr>lkQueueFile := Some ?q\<rparr>"
  have guard: "requireWritableLocked sampleLock = (sampleLock, Inr ())"
    by (simp add: requireWritableLocked_def terminalStateLocked_def requireHeldLocked_def bindOp_def sampleLock_def)
  have read: "readQueue sampleLock = (sampleLock, Inr busyQueue)"
    by (simp add: readQueue_def bindOp_def liveRunQueuePathLockedV1_def requireHeldLocked_def
        readLiveRunQueuePathV1_def sampleLock_def samples_valid ret_def)
  have ok: "queueOK busyQueue" using samples_valid by (simp add: ValidateLiveRunQueueV1_iff)
  then have "queueOK ?q"
    using validCurrent_valid [OF sampleOwnership_valid] by (intro queueOK_sessions) (auto simp: sessionsOK_def)
  then have "commitLiveRunQueuePathV1 ?q sampleLock = (?l, Inr ())"
    by (simp add: commitLiveRunQueuePathV1_def queueOK_valid sampleLock_def)
  moreover have "qControlledSessions busyQueue = []" by (simp add: busyQueue_def NewLiveRunQueueV1_def)
  ultimately have store: "storeOwnership busyQueue sampleOwnership sampleLock = (?l, Inr sampleOwnership)"
    by (simp add: storeOwnership_def sortSearch_def searchLoop.simps insertAt_def bindOp_def ret_def)
  have fields: "owLiveRunID sampleOwnership = runOne" "sampleOwnership\<lparr>owBootSession := ''boot-1''\<rparr> = sampleOwnership"
    "lkDirectory sampleLock = ''/srv/app''" "runGenerationReference (sampleRun runOne True LiveRunStatusActiveV1) = ''generation-1''"
    "sessionParticipant ''/srv/app'' sampleOwnership = Some (sampleContainer ''workload'')"
    "coGenerationReference (sampleContainer ''workload'') = ''generation-1''"
    by (simp_all add: sampleOwnership_def sampleLock_def sampleRun_def sessionParticipant_def sampleContainer_def)
  have result: "RecordControlledSessionOwnershipV1 sampleOwnership sampleLock = (?l, Inr sampleOwnership)"
    by (simp add: RecordControlledSessionOwnershipV1_def bindOp_def need_def ValidateLiveRunIDV1_def sampleIDs
        guard read fields Let_def sampleOwnership_valid store)
  from ownership_recorded [OF result] result fields(1) show ?thesis by auto
qed

end
