(* ===== verification/SessionModel.thy ===== *)
theory SessionModel
  imports LiveRunQueue
begin

text \<open>
  The data of a controlled session: the statuses and the result of
  \<open>src/internal/controlledsession/model.go\<close>, the authorization of \<open>authorization.go\<close>, and the
  identities it refers to (\<open>runtimeidentity/identity.go\<close>, \<open>endpointname/name.go\<close> and the digest
  grammar of \<open>canonical/canonical.go\<close>). A kind that is a Go string is a datatype with the
  declared constants and one constructor for every other string; the empty kind is a
  constructor of its own where the code tests for it.
\<close>

section \<open>Names and identities\<close>

text \<open>
  The pattern \<open>^[a-z0-9]+(?:(?:__|[._]|-+)[a-z0-9]+)*$\<close> as its automaton: inside a segment,
  after one underscore, after dashes, and where a segment has to start.
\<close>

datatype component_state = InSegment | AfterUnderscore | AfterDash | NeedSegment

definition isLowerAlnum :: "char \<Rightarrow> bool" where
  "isLowerAlnum c \<longleftrightarrow> isLower c \<or> isDigit c"

fun componentStep :: "component_state \<Rightarrow> char \<Rightarrow> component_state option" where
  "componentStep st c =
     (if isLowerAlnum c then Some InSegment
      else case st of
        InSegment \<Rightarrow>
          (if c = CHR ''.'' then Some NeedSegment
           else if c = CHR ''_'' then Some AfterUnderscore
           else if c = CHR ''-'' then Some AfterDash else None)
      | AfterUnderscore \<Rightarrow> (if c = CHR ''_'' then Some NeedSegment else None)
      | AfterDash \<Rightarrow> (if c = CHR ''-'' then Some AfterDash else None)
      | NeedSegment \<Rightarrow> None)"

fun componentRun :: "component_state \<Rightarrow> string \<Rightarrow> bool" where
  "componentRun st [] = (st = InSegment)"
| "componentRun st (c # cs) = (case componentStep st c of None \<Rightarrow> False | Some st' \<Rightarrow> componentRun st' cs)"

definition componentPattern :: "string \<Rightarrow> bool" where
  "componentPattern s \<longleftrightarrow> componentRun NeedSegment s"

definition maxLength :: nat where
  "maxLength = 128"

definition endpointnameValidate :: "string \<Rightarrow> bool" where
  "endpointnameValidate value \<longleftrightarrow> \<not> (length value = 0 \<or> length value > maxLength \<or> \<not> componentPattern value)"

definition ParseDigest :: "string \<Rightarrow> string option" where
  "ParseDigest value =
     (if \<not> hasPrefix value ''sha256:'' \<or> length value \<noteq> length ''sha256:'' + 32 * 2 then None
      else if \<not> list_all isLowerHex (drop (length ''sha256:'') value) then None
      else Some value)"

definition digestValidate :: "string \<Rightarrow> bool" where
  "digestValidate d \<longleftrightarrow> ParseDigest d \<noteq> None"

record IdentityV1 =
  idUsername :: string
  idUID :: string
  idGID :: string
  idSupplementaryGIDs :: "string slice"

datatype identity_error =
    UserNameLength | UserNameGrammar | IdentityUID | IdentityGID | RootUserName | NonRootUserName
  | NonRootPrimaryGroup | SupplementaryNil | SupplementaryGrammar string | SupplementaryPrimary
  | SupplementaryRoot | SupplementaryUnsorted

fun userNameLoop :: "nat \<Rightarrow> string \<Rightarrow> bool" where
  "userNameLoop index [] = True"
| "userNameLoop index (c # cs) =
     ((isLower c \<or> c = CHR ''_'' \<and> index = 0
       \<or> index > 0 \<and> (isDigit c \<or> c = CHR ''_'' \<or> c = CHR ''-'')) \<and> userNameLoop (Suc index) cs)"

definition ValidateUserName :: "string \<Rightarrow> identity_error check" where
  "ValidateUserName value =
     (if value = [] \<or> length value > 32 then Some UserNameLength
      else if \<not> userNameLoop 0 value then Some UserNameGrammar else None)"

definition credentialUnchangedSentinelV1 :: nat where
  "credentialUnchangedSentinelV1 = 4294967295"

definition canonicalUnsignedV1 :: "string \<Rightarrow> nat option" where
  "canonicalUnsignedV1 value =
     (if value = [] \<or> length value > 1 \<and> hd value = CHR ''0'' then None
      else case parseUint32 value of
        None \<Rightarrow> None
      | Some n \<Rightarrow> if n = credentialUnchangedSentinelV1 then None else Some n)"

fun supplementaryLoop :: "nat \<Rightarrow> nat \<Rightarrow> nat option \<Rightarrow> string list \<Rightarrow> identity_error check" where
  "supplementaryLoop uid primaryGID previous [] = None"
| "supplementaryLoop uid primaryGID previous (value # values) =
     (case canonicalUnsignedV1 value of
        None \<Rightarrow> Some (SupplementaryGrammar value)
      | Some gid \<Rightarrow>
          if gid = primaryGID then Some SupplementaryPrimary
          else if uid \<noteq> 0 \<and> gid = 0 then Some SupplementaryRoot
          else if (case previous of None \<Rightarrow> False | Some p \<Rightarrow> p \<ge> gid) then Some SupplementaryUnsorted
          else supplementaryLoop uid primaryGID (Some gid) values)"

definition ValidateIdentityV1 :: "IdentityV1 \<Rightarrow> identity_error check" where
  "ValidateIdentityV1 identity =
     orElse (ValidateUserName (idUsername identity))
     (case canonicalUnsignedV1 (idUID identity) of
        None \<Rightarrow> Some IdentityUID
      | Some uid \<Rightarrow>
         (case canonicalUnsignedV1 (idGID identity) of
            None \<Rightarrow> Some IdentityGID
          | Some primaryGID \<Rightarrow>
              if uid = 0 \<and> idUsername identity \<noteq> ''root'' then Some RootUserName
              else if uid \<noteq> 0 \<and> idUsername identity = ''root'' then Some NonRootUserName
              else if uid \<noteq> 0 \<and> primaryGID = 0 then Some NonRootPrimaryGroup
              else case idSupplementaryGIDs identity of
                None \<Rightarrow> Some SupplementaryNil
              | Some gids \<Rightarrow> supplementaryLoop uid primaryGID None gids))"

section \<open>Safe text\<close>

definition validateSafeTextV1 :: "string \<Rightarrow> bool" where
  "validateSafeTextV1 value \<longleftrightarrow>
     (if value = [] \<or> length value > 512 \<or> \<not> validString value \<or> trimSpace value \<noteq> value then False
      else rangeAll (\<lambda>character. \<not> (isControl character \<or> inCf character)) value)"

definition validateOptionalSafeTextV1 :: "string \<Rightarrow> bool" where
  "validateOptionalSafeTextV1 value \<longleftrightarrow> value = [] \<or> validateSafeTextV1 value"

definition validateRequiredSafeTextV1 :: "string \<Rightarrow> bool" where
  "validateRequiredSafeTextV1 value \<longleftrightarrow> value \<noteq> [] \<and> validateSafeTextV1 value"

section \<open>Authorization\<close>

datatype OperationV1 =
    OperationInputV1 | OperationResizeV1 | OperationTerminateV1 | OperationCompleteV1
  | OperationEmpty | OperationOther string

text \<open>The Go constants behind the constructors; the operations are compared as strings.\<close>

fun operationText :: "OperationV1 \<Rightarrow> string" where
  "operationText OperationInputV1 = ''input''"
| "operationText OperationResizeV1 = ''resize''"
| "operationText OperationTerminateV1 = ''terminate''"
| "operationText OperationCompleteV1 = ''complete''"
| "operationText OperationEmpty = []"
| "operationText (OperationOther s) = s"

record EnvironmentAuthorizationV1 =
  enDeploymentID :: string
  enGenerationReference :: string
  enBuildIdentity :: string
  enPlanDigest :: string
  enRuntimeIdentity :: IdentityV1

record AuthorizationV1 =
  auSchema :: string
  auHandle :: string
  auLiveRunID :: string
  auController :: EnvironmentAuthorizationV1
  auWorkload :: EnvironmentAuthorizationV1
  auOperations :: "OperationV1 slice"
  auEndpointIDs :: "string slice"

definition AuthorizationSchemaV1 :: string where
  "AuthorizationSchemaV1 = ''controlled-session-authorization-v1''"

definition sessionHandlePatternV1 :: "string \<Rightarrow> bool" where
  "sessionHandlePatternV1 = hexPattern ''session-'' 64"

definition newHandleV1 :: "string option \<Rightarrow> random_error + string" where
  "newHandleV1 random =
     (case random of
        None \<Rightarrow> Inl RandomnessRequired
      | Some stream \<Rightarrow>
          if length stream < 32 then Inl RandomnessShort
          else Inr (''session-'' @ concat (map hexByte (take 32 stream))))"

datatype authorization_error =
    AuthSchema | AuthHandle | AuthRunID id_error | AuthEnvironment string environment_error
  | AuthCollectionsNil | AuthOperation string | AuthOperationsUnsorted
  | AuthEndpoint string | AuthEndpointsUnsorted
and environment_error =
    EnvDeploymentID | EnvGeneration | EnvBuildIdentity | EnvPlanDigest | EnvRuntimeIdentity identity_error

definition validateEnvironmentAuthorizationV1 :: "EnvironmentAuthorizationV1 \<Rightarrow> environment_error check" where
  "validateEnvironmentAuthorizationV1 e =
     (if \<not> validateSafeTextV1 (enDeploymentID e) then Some EnvDeploymentID
      else if \<not> validateSafeTextV1 (enGenerationReference e) then Some EnvGeneration
      else if \<not> digestValidate (enBuildIdentity e) then Some EnvBuildIdentity
      else if \<not> digestValidate (enPlanDigest e) then Some EnvPlanDigest
      else wrap EnvRuntimeIdentity (ValidateIdentityV1 (enRuntimeIdentity e)))"

fun validateOperations :: "OperationV1 option \<Rightarrow> OperationV1 list \<Rightarrow> authorization_error check" where
  "validateOperations previous [] = None"
| "validateOperations previous (operation # operations) =
     (if operation \<notin> {OperationInputV1, OperationResizeV1, OperationTerminateV1, OperationCompleteV1}
      then Some (AuthOperation (operationText operation))
      else if (case previous of None \<Rightarrow> False | Some p \<Rightarrow> operationText p \<ge> operationText operation)
      then Some AuthOperationsUnsorted
      else validateOperations (Some operation) operations)"

fun validateEndpointIDs :: "string option \<Rightarrow> string list \<Rightarrow> authorization_error check" where
  "validateEndpointIDs previous [] = None"
| "validateEndpointIDs previous (endpointID # endpointIDs) =
     (if \<not> endpointnameValidate endpointID then Some (AuthEndpoint endpointID)
      else if (case previous of None \<Rightarrow> False | Some p \<Rightarrow> p \<ge> endpointID) then Some AuthEndpointsUnsorted
      else validateEndpointIDs (Some endpointID) endpointIDs)"

definition ValidateAuthorizationV1 :: "AuthorizationV1 \<Rightarrow> authorization_error check" where
  "ValidateAuthorizationV1 a =
     (if auSchema a \<noteq> AuthorizationSchemaV1 then Some AuthSchema
      else if \<not> sessionHandlePatternV1 (auHandle a) then Some AuthHandle
      else orElse (wrap AuthRunID (ValidateLiveRunIDV1 (auLiveRunID a)))
      (orElse (wrap (AuthEnvironment ''controller'') (validateEnvironmentAuthorizationV1 (auController a)))
      (orElse (wrap (AuthEnvironment ''workload'') (validateEnvironmentAuthorizationV1 (auWorkload a)))
      (if auOperations a = None \<or> auEndpointIDs a = None then Some AuthCollectionsNil
       else orElse (validateOperations None (elems (auOperations a)))
              (validateEndpointIDs None (elems (auEndpointIDs a)))))))"

text \<open>\<open>append([]string{}, xs...)\<close>: a copy that is never nil.\<close>

definition cloneSlice :: "'a slice \<Rightarrow> 'a slice" where
  "cloneSlice s = Some (elems s)"

definition cloneEnvironment :: "EnvironmentAuthorizationV1 \<Rightarrow> EnvironmentAuthorizationV1" where
  "cloneEnvironment e = e\<lparr>enRuntimeIdentity := (enRuntimeIdentity e)\<lparr>idSupplementaryGIDs :=
     cloneSlice (idSupplementaryGIDs (enRuntimeIdentity e))\<rparr>\<rparr>"

definition cloneAuthorizationV1 :: "AuthorizationV1 \<Rightarrow> AuthorizationV1" where
  "cloneAuthorizationV1 a = a\<lparr>auController := cloneEnvironment (auController a),
     auWorkload := cloneEnvironment (auWorkload a),
     auOperations := cloneSlice (auOperations a), auEndpointIDs := cloneSlice (auEndpointIDs a)\<rparr>"

definition containsOperationV1 :: "OperationV1 list \<Rightarrow> OperationV1 \<Rightarrow> bool" where
  "containsOperationV1 operations target \<longleftrightarrow> list_ex (\<lambda>operation. operation = target) operations"

section \<open>Statuses and results\<close>

datatype TerminationCauseV1 =
    CauseControllerTerminateV1 | CauseWorkloadExitV1 | CauseHostCancelV1 | CauseControllerLostV1
  | CauseRuntimeObservationLostV1 | CauseCleanupContainmentLostV1 | CauseStartupFailureV1
  | CauseEmpty | CauseOther string

datatype ProcessStatusKindV1 =
    ProcessStatusUnknownV1 | ProcessStatusExitedV1 | ProcessStatusTerminatedV1
  | ProcessStatusUnavailableV1 | ProcessStatusOther string

record ProcessStatusV1 =
  psKind :: ProcessStatusKindV1
  psCode :: "int option"
  psReason :: string

datatype ControllerFinalizationStatusKindV1 =
    ControllerFinalizationUnknownV1 | ControllerFinalizationActiveV1 | ControllerFinalizationCompletedV1
  | ControllerFinalizationLostV1 | ControllerFinalizationTimeoutV1
  | ControllerFinalizationNotCompletedV1 | ControllerFinalizationStartupFailedV1
  | ControllerFinalizationOther string

record ControllerFinalizationStatusV1 =
  cfKind :: ControllerFinalizationStatusKindV1
  cfReason :: string

datatype WorkloadOutputFinalizationStatusKindV1 =
    WorkloadOutputFinalizationDrainedV1 | WorkloadOutputFinalizationFailedV1
  | WorkloadOutputFinalizationEmpty | WorkloadOutputFinalizationOther string

record WorkloadOutputFinalizationStatusV1 =
  woKind :: WorkloadOutputFinalizationStatusKindV1
  woReason :: string

datatype RuntimeObservationStatusKindV1 =
    RuntimeObservationMaintainedV1 | RuntimeObservationLostV1 | RuntimeObservationOther string

record RuntimeObservationStatusV1 =
  roKind :: RuntimeObservationStatusKindV1
  roReason :: string

datatype CleanupStatusKindV1 = CleanupStatusSucceededV1 | CleanupStatusFailedV1 | CleanupStatusOther string

record CleanupStatusV1 =
  csKind :: CleanupStatusKindV1
  csMessage :: string

datatype RecoveryActionV1 =
  RecoveryNoneV1 | RecoveryRetryCleanupV1 | RecoveryReconcileNextOperationV1 | RecoveryOther string

record ResultV1 =
  rsCause :: TerminationCauseV1
  rsWorkloadStatus :: ProcessStatusV1
  rsWorkloadOutputs :: WorkloadOutputFinalizationStatusV1
  rsRuntimeObservation :: RuntimeObservationStatusV1
  rsController :: ControllerFinalizationStatusV1
  rsCleanup :: CleanupStatusV1
  rsRecovery :: RecoveryActionV1

datatype status_error =
    CauseInvalid | WorkloadUnknownShape | WorkloadExitedNoCode | WorkloadCode | WorkloadKind | WorkloadReason
  | WorkloadExitUnknown | OutputsDrainedReason | OutputsFailedReason | OutputsKind
  | ObservationMaintainedReason | ObservationLostReason | ObservationKindInvalid
  | ControllerKind | ControllerReason | CleanupSucceededMessage | CleanupSucceededRecovery
  | CleanupFailedMessage | CleanupFailedRecovery | CleanupKindInvalid
  | LossNeedsLostObservation | LossNeedsFailedOutputs | ControllerLossStatus | StartupFailureStatus

definition validTerminationCauseV1 :: "TerminationCauseV1 \<Rightarrow> bool" where
  "validTerminationCauseV1 cause \<longleftrightarrow> cause \<in> {CauseControllerTerminateV1, CauseWorkloadExitV1, CauseHostCancelV1,
     CauseControllerLostV1, CauseRuntimeObservationLostV1, CauseCleanupContainmentLostV1, CauseStartupFailureV1}"

definition validateRuntimeObservationStatusV1 :: "RuntimeObservationStatusV1 \<Rightarrow> status_error check" where
  "validateRuntimeObservationStatusV1 status =
     (case roKind status of
        RuntimeObservationMaintainedV1 \<Rightarrow> if roReason status \<noteq> [] then Some ObservationMaintainedReason else None
      | RuntimeObservationLostV1 \<Rightarrow>
          if \<not> validateOptionalSafeTextV1 (roReason status) then Some ObservationLostReason else None
      | _ \<Rightarrow> Some ObservationKindInvalid)"

definition validateWorkloadOutputFinalizationStatusV1 :: "WorkloadOutputFinalizationStatusV1 \<Rightarrow> status_error check" where
  "validateWorkloadOutputFinalizationStatusV1 status =
     (case woKind status of
        WorkloadOutputFinalizationDrainedV1 \<Rightarrow> if woReason status \<noteq> [] then Some OutputsDrainedReason else None
      | WorkloadOutputFinalizationFailedV1 \<Rightarrow>
          if \<not> validateRequiredSafeTextV1 (woReason status) then Some OutputsFailedReason else None
      | _ \<Rightarrow> Some OutputsKind)"

definition validateProcessStatusV1 :: "ProcessStatusV1 \<Rightarrow> bool \<Rightarrow> status_error check" where
  "validateProcessStatusV1 status allowUnknown =
     orElse
       (case psKind status of
          ProcessStatusUnknownV1 \<Rightarrow>
            if \<not> allowUnknown \<or> psCode status \<noteq> None \<or> psReason status \<noteq> [] then Some WorkloadUnknownShape else None
        | ProcessStatusExitedV1 \<Rightarrow> if psCode status = None then Some WorkloadExitedNoCode else None
        | ProcessStatusTerminatedV1 \<Rightarrow> if psCode status \<noteq> None then Some WorkloadCode else None
        | ProcessStatusUnavailableV1 \<Rightarrow> if psCode status \<noteq> None then Some WorkloadCode else None
        | ProcessStatusOther _ \<Rightarrow> Some WorkloadKind)
       (if \<not> validateOptionalSafeTextV1 (psReason status) then Some WorkloadReason else None)"

definition validateTerminalControllerFinalizationStatusV1 :: "ControllerFinalizationStatusV1 \<Rightarrow> status_error check" where
  "validateTerminalControllerFinalizationStatusV1 status =
     (if cfKind status \<notin> {ControllerFinalizationCompletedV1, ControllerFinalizationLostV1,
           ControllerFinalizationTimeoutV1, ControllerFinalizationNotCompletedV1,
           ControllerFinalizationStartupFailedV1} then Some ControllerKind
      else if \<not> validateOptionalSafeTextV1 (cfReason status) then Some ControllerReason else None)"

definition validateCleanupResultV1 :: "CleanupStatusV1 \<Rightarrow> RecoveryActionV1 \<Rightarrow> status_error check" where
  "validateCleanupResultV1 status recovery =
     (case csKind status of
        CleanupStatusSucceededV1 \<Rightarrow>
          if csMessage status \<noteq> [] then Some CleanupSucceededMessage
          else if recovery \<noteq> RecoveryNoneV1 then Some CleanupSucceededRecovery else None
      | CleanupStatusFailedV1 \<Rightarrow>
          if \<not> validateRequiredSafeTextV1 (csMessage status) then Some CleanupFailedMessage
          else if recovery \<noteq> RecoveryRetryCleanupV1 \<and> recovery \<noteq> RecoveryReconcileNextOperationV1
          then Some CleanupFailedRecovery else None
      | CleanupStatusOther _ \<Rightarrow> Some CleanupKindInvalid)"

definition validateResultConsistencyV1 :: "ResultV1 \<Rightarrow> status_error check" where
  "validateResultConsistencyV1 result =
     (if rsCause result = CauseRuntimeObservationLostV1 \<and> roKind (rsRuntimeObservation result) \<noteq> RuntimeObservationLostV1
      then Some LossNeedsLostObservation
      else if rsCause result = CauseRuntimeObservationLostV1
           \<and> woKind (rsWorkloadOutputs result) \<noteq> WorkloadOutputFinalizationFailedV1
      then Some LossNeedsFailedOutputs
      else if rsCause result = CauseControllerLostV1 \<and> cfKind (rsController result) \<noteq> ControllerFinalizationLostV1
      then Some ControllerLossStatus
      else if rsCause result = CauseStartupFailureV1 \<and> cfKind (rsController result) \<noteq> ControllerFinalizationStartupFailedV1
      then Some StartupFailureStatus
      else None)"

definition ValidateResultV1 :: "ResultV1 \<Rightarrow> status_error check" where
  "ValidateResultV1 result =
     (if \<not> validTerminationCauseV1 (rsCause result) then Some CauseInvalid
      else orElse (validateProcessStatusV1 (rsWorkloadStatus result) True)
      (if rsCause result = CauseWorkloadExitV1 \<and> psKind (rsWorkloadStatus result) = ProcessStatusUnknownV1
       then Some WorkloadExitUnknown
       else orElse (validateWorkloadOutputFinalizationStatusV1 (rsWorkloadOutputs result))
       (orElse (validateRuntimeObservationStatusV1 (rsRuntimeObservation result))
       (orElse (validateTerminalControllerFinalizationStatusV1 (rsController result))
       (orElse (validateCleanupResultV1 (rsCleanup result) (rsRecovery result))
         (validateResultConsistencyV1 result))))))"

end
