(* ===== verification/SessionProtocol.thy ===== *)
theory SessionProtocol
  imports SessionModel "HOL-Library.Word"
begin

text \<open>
  The wire protocol of a controlled session, \<open>src/internal/controlledsession/protocol.go\<close> and
  \<open>terminal_protocol.go\<close>: requests, events and their validators, the framing of both
  protocols and the request payloads. A reader is the byte string that is still to be read,
  so that a read returns the rest of the stream; a short stream is the error of
  \<open>io.ReadFull\<close>. The JSON payloads of the structured events are not modelled.
\<close>

section \<open>Requests\<close>

datatype RequestKindV1 =
    RequestInputV1 | RequestResizeV1 | RequestTerminateV1 | RequestCompleteV1
  | RequestAcknowledgeTerminatedV1 | RequestOther string

record RequestV1 =
  rqKind :: RequestKindV1
  rqBytes :: "char slice"
  rqColumns :: "32 word"
  rqRows :: "32 word"

datatype request_error =
    InputShape | ResizeShape | PayloadForbidden RequestKindV1 | RequestUnsupported RequestKindV1

definition validDimensionsV1 :: "32 word \<Rightarrow> 32 word \<Rightarrow> bool" where
  "validDimensionsV1 columns rows \<longleftrightarrow> columns \<ge> 1 \<and> columns \<le> 65535 \<and> rows \<ge> 1 \<and> rows \<le> 65535"

definition ValidateRequestV1 :: "RequestV1 \<Rightarrow> request_error check" where
  "ValidateRequestV1 request =
     (case rqKind request of
        RequestInputV1 \<Rightarrow>
          if rqBytes request = None \<or> rqColumns request \<noteq> 0 \<or> rqRows request \<noteq> 0 then Some InputShape else None
      | RequestResizeV1 \<Rightarrow>
          if rqBytes request \<noteq> None \<or> \<not> validDimensionsV1 (rqColumns request) (rqRows request)
          then Some ResizeShape else None
      | RequestOther s \<Rightarrow> Some (RequestUnsupported (RequestOther s))
      | kind \<Rightarrow>
          if rqBytes request \<noteq> None \<or> rqColumns request \<noteq> 0 \<or> rqRows request \<noteq> 0
          then Some (PayloadForbidden kind) else None)"

fun operationForRequestV1 :: "RequestKindV1 \<Rightarrow> OperationV1" where
  "operationForRequestV1 RequestInputV1 = OperationInputV1"
| "operationForRequestV1 RequestResizeV1 = OperationResizeV1"
| "operationForRequestV1 RequestTerminateV1 = OperationTerminateV1"
| "operationForRequestV1 RequestCompleteV1 = OperationCompleteV1"
| "operationForRequestV1 _ = OperationEmpty"

section \<open>Events\<close>

datatype EventKindV1 =
    EventOpenedV1 | EventReadyV1 | EventOutputV1 | EventWorkloadExitV1 | EventTerminatingV1
  | EventDiagnosticV1 | EventWorkloadOutputsFinalizedV1 | EventTerminatedV1 | EventOther string

record EndpointV1 =
  epID :: string
  epScheme :: string
  epHost :: string
  epPort :: "32 word"

record OpenedV1 =
  opAuthorization :: AuthorizationV1
  opEndpoints :: "EndpointV1 slice"
  opColumns :: "32 word"
  opRows :: "32 word"
  opOutputFinalizationTimeoutMilliseconds :: "32 word"

record DiagnosticV1 =
  dgCode :: string
  dgMessage :: string

record EventV1 =
  evKind :: EventKindV1
  evBytes :: "char slice"
  evOpened :: "OpenedV1 option"
  evWorkloadExit :: "ProcessStatusV1 option"
  evTerminating :: "TerminationCauseV1 option"
  evDiagnostic :: "DiagnosticV1 option"
  evWorkloadOutputsFinalized :: "WorkloadOutputFinalizationStatusV1 option"
  evTerminated :: "ResultV1 option"

text \<open>\<open>^[a-z][a-z0-9]*(?:_[a-z0-9]+)*$\<close>: the flag says that a character has to follow.\<close>

fun protocolCodeRun :: "bool \<Rightarrow> string \<Rightarrow> bool" where
  "protocolCodeRun needed [] = (\<not> needed)"
| "protocolCodeRun needed (c # cs) =
     (if isLowerAlnum c then protocolCodeRun False cs
      else c = CHR ''_'' \<and> \<not> needed \<and> protocolCodeRun True cs)"

definition protocolCodePatternV1 :: "string \<Rightarrow> bool" where
  "protocolCodePatternV1 s \<longleftrightarrow> (case s of [] \<Rightarrow> False | c # cs \<Rightarrow> isLower c \<and> protocolCodeRun False cs)"

definition maxProtocolCodeLengthV1 :: nat where
  "maxProtocolCodeLengthV1 = 63"

definition validateProtocolCodeV1 :: "string \<Rightarrow> bool" where
  "validateProtocolCodeV1 value \<longleftrightarrow>
     \<not> (length value = 0 \<or> length value > maxProtocolCodeLengthV1 \<or> \<not> protocolCodePatternV1 value)"

text \<open>\<open>^[A-Za-z][A-Za-z0-9+.-]*$\<close>\<close>

definition endpointSchemePatternV1 :: "string \<Rightarrow> bool" where
  "endpointSchemePatternV1 s \<longleftrightarrow>
     (case s of [] \<Rightarrow> False
      | c # cs \<Rightarrow> (isUpper c \<or> isLower c) \<and>
          list_all (\<lambda>d. isUpper d \<or> isLower d \<or> isDigit d \<or> d = CHR ''+'' \<or> d = CHR ''.'' \<or> d = CHR ''-'') cs)"

definition WorkloadEndpointHostV1 :: string where
  "WorkloadEndpointHostV1 = ''workload''"

datatype event_error =
    EventShape EventKindV1 | OpenedAuthorization authorization_error | OpenedDimensions | OpenedTimeout
  | EndpointsNil | EndpointsCount | EndpointMismatch nat | EndpointName string | EndpointScheme string
  | EndpointHost string | EndpointPort string | EventStatus status_error | EventCause
  | DiagnosticCode | DiagnosticMessage | EventUnsupported string

definition eventPayloadCountV1 :: "EventV1 \<Rightarrow> nat" where
  "eventPayloadCountV1 event =
     length (filter (\<lambda>present. present)
       [evBytes event \<noteq> None, evOpened event \<noteq> None, evWorkloadExit event \<noteq> None,
        evTerminating event \<noteq> None, evDiagnostic event \<noteq> None,
        evWorkloadOutputsFinalized event \<noteq> None, evTerminated event \<noteq> None])"

definition ValidateEndpointV1 :: "EndpointV1 \<Rightarrow> event_error check" where
  "ValidateEndpointV1 endpoint =
     (if \<not> endpointnameValidate (epID endpoint) then Some (EndpointName (epID endpoint))
      else if \<not> endpointSchemePatternV1 (epScheme endpoint) then Some (EndpointScheme (epID endpoint))
      else if epHost endpoint \<noteq> WorkloadEndpointHostV1 then Some (EndpointHost (epID endpoint))
      else if epPort endpoint = 0 \<or> epPort endpoint > 65535 then Some (EndpointPort (epID endpoint))
      else None)"

fun endpointsLoop :: "nat \<Rightarrow> EndpointV1 list \<Rightarrow> string list \<Rightarrow> event_error check" where
  "endpointsLoop index (endpoint # endpoints) (i # ids) =
     (if epID endpoint \<noteq> i then Some (EndpointMismatch index)
      else orElse (ValidateEndpointV1 endpoint) (endpointsLoop (Suc index) endpoints ids))"
| "endpointsLoop index _ _ = None"

definition validateOpenedEndpointsV1 :: "EndpointV1 slice \<Rightarrow> string list \<Rightarrow> event_error check" where
  "validateOpenedEndpointsV1 endpoints authorizedIDs =
     (case endpoints of
        None \<Rightarrow> Some EndpointsNil
      | Some es \<Rightarrow> if length es \<noteq> length authorizedIDs then Some EndpointsCount
                    else endpointsLoop 0 es authorizedIDs)"

definition ValidateEventV1 :: "EventV1 \<Rightarrow> event_error check" where
  "ValidateEventV1 event =
     (let count = eventPayloadCountV1 event; shape = Some (EventShape (evKind event)) in
      case evKind event of
        EventOpenedV1 \<Rightarrow>
          (case evOpened event of
             None \<Rightarrow> shape
           | Some opened \<Rightarrow>
               if count \<noteq> 1 then shape
               else orElse (wrap OpenedAuthorization (ValidateAuthorizationV1 (opAuthorization opened)))
               (orElse (validateOpenedEndpointsV1 (opEndpoints opened) (elems (auEndpointIDs (opAuthorization opened))))
               (if \<not> validDimensionsV1 (opColumns opened) (opRows opened) then Some OpenedDimensions
                else if opOutputFinalizationTimeoutMilliseconds opened = 0 then Some OpenedTimeout else None)))
      | EventReadyV1 \<Rightarrow> if count \<noteq> 0 then shape else None
      | EventOutputV1 \<Rightarrow> if evBytes event = None \<or> count \<noteq> 1 then shape else None
      | EventWorkloadExitV1 \<Rightarrow>
          (case evWorkloadExit event of
             None \<Rightarrow> shape
           | Some status \<Rightarrow> if count \<noteq> 1 then shape else wrap EventStatus (validateProcessStatusV1 status False))
      | EventTerminatingV1 \<Rightarrow>
          (case evTerminating event of
             None \<Rightarrow> shape
           | Some cause \<Rightarrow> if count \<noteq> 1 then shape
                            else if \<not> validTerminationCauseV1 cause then Some EventCause else None)
      | EventDiagnosticV1 \<Rightarrow>
          (case evDiagnostic event of
             None \<Rightarrow> shape
           | Some diagnostic \<Rightarrow>
               if count \<noteq> 1 then shape
               else if \<not> validateProtocolCodeV1 (dgCode diagnostic) then Some DiagnosticCode
               else if \<not> validateRequiredSafeTextV1 (dgMessage diagnostic) then Some DiagnosticMessage else None)
      | EventWorkloadOutputsFinalizedV1 \<Rightarrow>
          (case evWorkloadOutputsFinalized event of
             None \<Rightarrow> shape
           | Some status \<Rightarrow> if count \<noteq> 1 then shape
                             else wrap EventStatus (validateWorkloadOutputFinalizationStatusV1 status))
      | EventTerminatedV1 \<Rightarrow>
          (case evTerminated event of
             None \<Rightarrow> shape
           | Some result \<Rightarrow> if count \<noteq> 1 then shape else wrap EventStatus (ValidateResultV1 result))
      | EventOther kind \<Rightarrow> Some (EventUnsupported kind))"

section \<open>Frames\<close>

datatype protocol_error =
    PayloadTooLong | HeaderShort | MagicInvalid | VersionUnsupported nat | LengthTooLong | PayloadShort
  | RequestInvalid request_error | ResizePayload | PayloadNotEmpty RequestKindV1 | NotARequest nat
  | TerminalNotCarried RequestKindV1 | NotAnEvent nat | ReadyPayload | OutputNil

text \<open>\<open>binary.BigEndian.PutUint32\<close> and \<open>Uint32\<close>; \<open>char_of\<close> keeps the low eight bits.\<close>

definition putUint32 :: "32 word \<Rightarrow> string" where
  "putUint32 w = (let n = unat w in
     [char_of (n div 2 ^ 24), char_of (n div 2 ^ 16), char_of (n div 2 ^ 8), char_of n])"

definition getUint32 :: "string \<Rightarrow> 32 word" where
  "getUint32 bs = of_nat (((byteOf (bs ! 0) * 256 + byteOf (bs ! 1)) * 256 + byteOf (bs ! 2)) * 256 + byteOf (bs ! 3))"

definition ProtocolVersionV1 :: nat where
  "ProtocolVersionV1 = 1"

definition MaxFramePayloadV1 :: nat where
  "MaxFramePayloadV1 = 1048576"

definition frameHeaderSizeV1 :: nat where
  "frameHeaderSizeV1 = 10"

definition frameMagicV1 :: string where
  "frameMagicV1 = ''RPSN''"

definition terminalFrameMagicV1 :: string where
  "terminalFrameMagicV1 = ''RPTM''"

text \<open>
  The two protocols frame alike, with their own magic: four magic bytes, the version, the kind,
  the length of the payload, the payload.
\<close>

definition frameBytes :: "string \<Rightarrow> nat \<Rightarrow> string \<Rightarrow> protocol_error + string" where
  "frameBytes magic kind payload =
     (if length payload > MaxFramePayloadV1 then Inl PayloadTooLong
      else Inr (magic @ [char_of ProtocolVersionV1, char_of kind] @ putUint32 (of_nat (length payload)) @ payload))"

definition readFrame :: "string \<Rightarrow> string \<Rightarrow> protocol_error + (nat \<times> string) \<times> string" where
  "readFrame magic input =
     (if length input < frameHeaderSizeV1 then Inl HeaderShort
      else
        let header = take frameHeaderSizeV1 input; rest = drop frameHeaderSizeV1 input;
            len = getUint32 (drop 6 header)
        in if take 4 header \<noteq> magic then Inl MagicInvalid
           else if byteOf (header ! 4) \<noteq> ProtocolVersionV1 then Inl (VersionUnsupported (byteOf (header ! 4)))
           else if len > of_nat MaxFramePayloadV1 then Inl LengthTooLong
           else if length rest < unat len then Inl PayloadShort
           else Inr ((byteOf (header ! 5), take (unat len) rest), drop (unat len) rest))"

definition writeFrameV1 :: "nat \<Rightarrow> string \<Rightarrow> protocol_error + string" where
  "writeFrameV1 = frameBytes frameMagicV1"

definition readFrameV1 :: "string \<Rightarrow> protocol_error + (nat \<times> string) \<times> string" where
  "readFrameV1 = readFrame frameMagicV1"

definition writeTerminalFrameV1 :: "nat \<Rightarrow> string \<Rightarrow> protocol_error + string" where
  "writeTerminalFrameV1 = frameBytes terminalFrameMagicV1"

definition readTerminalFrameV1 :: "string \<Rightarrow> protocol_error + (nat \<times> string) \<times> string" where
  "readTerminalFrameV1 = readFrame terminalFrameMagicV1"

section \<open>Request frames\<close>

fun wireKindOfRequest :: "RequestKindV1 \<Rightarrow> nat option" where
  "wireKindOfRequest RequestInputV1 = Some 0x01"
| "wireKindOfRequest RequestResizeV1 = Some 0x02"
| "wireKindOfRequest RequestTerminateV1 = Some 0x03"
| "wireKindOfRequest RequestCompleteV1 = Some 0x04"
| "wireKindOfRequest RequestAcknowledgeTerminatedV1 = Some 0x05"
| "wireKindOfRequest (RequestOther _) = None"

text \<open>\<^const>\<open>None\<close> is the panic on an unsupported kind.\<close>

definition encodeRequestPayloadV1 :: "RequestV1 \<Rightarrow> (nat \<times> string) option" where
  "encodeRequestPayloadV1 request =
     map_option (\<lambda>kind. (kind,
       (case rqKind request of
          RequestInputV1 \<Rightarrow> elems (rqBytes request)
        | RequestResizeV1 \<Rightarrow> putUint32 (rqColumns request) @ putUint32 (rqRows request)
        | _ \<Rightarrow> []))) (wireKindOfRequest (rqKind request))"

definition requestOf :: "RequestKindV1 \<Rightarrow> RequestV1" where
  "requestOf kind = \<lparr>rqKind = kind, rqBytes = None, rqColumns = 0, rqRows = 0\<rparr>"

definition emptyRequest :: "RequestKindV1 \<Rightarrow> string \<Rightarrow> protocol_error + RequestV1" where
  "emptyRequest kind payload =
     (if length payload \<noteq> 0 then Inl (PayloadNotEmpty kind) else Inr (requestOf kind))"

definition decodeRequestPayloadV1 :: "nat \<Rightarrow> string \<Rightarrow> protocol_error + RequestV1" where
  "decodeRequestPayloadV1 kind payload =
     (if kind = 0x01 then Inr ((requestOf RequestInputV1)\<lparr>rqBytes := Some payload\<rparr>)
      else if kind = 0x02 then
        (if length payload \<noteq> 8 then Inl ResizePayload
         else Inr ((requestOf RequestResizeV1)\<lparr>rqColumns := getUint32 (take 4 payload), rqRows := getUint32 (drop 4 payload)\<rparr>))
      else if kind = 0x03 then emptyRequest RequestTerminateV1 payload
      else if kind = 0x04 then emptyRequest RequestCompleteV1 payload
      else if kind = 0x05 then emptyRequest RequestAcknowledgeTerminatedV1 payload
      else Inl (NotARequest kind))"

definition WriteRequestV1 :: "RequestV1 \<Rightarrow> (protocol_error + string) option" where
  "WriteRequestV1 request =
     (case ValidateRequestV1 request of
        Some e \<Rightarrow> Some (Inl (RequestInvalid e))
      | None \<Rightarrow> map_option (\<lambda>(kind, payload). writeFrameV1 kind payload) (encodeRequestPayloadV1 request))"

definition ReadRequestV1 :: "string \<Rightarrow> protocol_error + RequestV1 \<times> string" where
  "ReadRequestV1 input =
     (case readFrameV1 input of
        Inl e \<Rightarrow> Inl e
      | Inr ((kind, payload), rest) \<Rightarrow>
         (case decodeRequestPayloadV1 kind payload of
            Inl e \<Rightarrow> Inl e
          | Inr request \<Rightarrow> (case ValidateRequestV1 request of
                             Some e \<Rightarrow> Inl (RequestInvalid e) | None \<Rightarrow> Inr (request, rest))))"

section \<open>Terminal frames\<close>

definition WriteTerminalRequestV1 :: "RequestV1 \<Rightarrow> protocol_error + string" where
  "WriteTerminalRequestV1 request =
     (case ValidateRequestV1 request of
        Some e \<Rightarrow> Inl (RequestInvalid e)
      | None \<Rightarrow>
         (case rqKind request of
            RequestInputV1 \<Rightarrow> writeTerminalFrameV1 0x01 (elems (rqBytes request))
          | RequestResizeV1 \<Rightarrow> writeTerminalFrameV1 0x02 (putUint32 (rqColumns request) @ putUint32 (rqRows request))
          | kind \<Rightarrow> Inl (TerminalNotCarried kind)))"

definition ReadTerminalRequestV1 :: "string \<Rightarrow> protocol_error + RequestV1 \<times> string" where
  "ReadTerminalRequestV1 input =
     (case readTerminalFrameV1 input of
        Inl e \<Rightarrow> Inl e
      | Inr ((kind, payload), rest) \<Rightarrow>
          let checked = (\<lambda>request. case ValidateRequestV1 request of
                            Some e \<Rightarrow> Inl (RequestInvalid e) | None \<Rightarrow> Inr (request, rest))
          in if kind = 0x01 then checked ((requestOf RequestInputV1)\<lparr>rqBytes := Some payload\<rparr>)
             else if kind = 0x02 then
               (if length payload \<noteq> 8 then Inl ResizePayload
                else checked ((requestOf RequestResizeV1)\<lparr>rqColumns := getUint32 (take 4 payload), rqRows := getUint32 (drop 4 payload)\<rparr>))
             else Inl (NotARequest kind))"

definition WriteTerminalOutputV1 :: "char slice \<Rightarrow> protocol_error + string" where
  "WriteTerminalOutputV1 content =
     (case content of None \<Rightarrow> Inl OutputNil | Some bytes \<Rightarrow> writeTerminalFrameV1 0x81 bytes)"

section \<open>Writing through a partial writer\<close>

text \<open>
  \<open>writeAllV1\<close>: the writer is a parameter, a function that takes its state and the bytes and
  returns its new state, the count it reports and whether it failed.
\<close>

datatype write_result = WroteAll | WriteError | ShortWrite

function writeAllV1 ::
    "('w \<Rightarrow> string \<Rightarrow> 'w \<times> int \<times> bool) \<Rightarrow> 'w \<Rightarrow> string \<Rightarrow> 'w \<times> write_result" where
  "writeAllV1 writer w content =
     (if content = [] then (w, WroteAll)
      else case writer w content of (w', written, failed) \<Rightarrow>
        if failed then (w', WriteError)
        else if written \<le> 0 \<or> written > int (length content) then (w', ShortWrite)
        else writeAllV1 writer w' (drop (nat written) content))"
  by pat_completeness auto
termination
  by (relation "measure (\<lambda>(_, _, content). length content)") auto

declare writeAllV1.simps [simp del]

definition validWireJSONFieldNameV1 :: "string \<Rightarrow> bool" where
  "validWireJSONFieldNameV1 value \<longleftrightarrow>
     (case value of [] \<Rightarrow> False
      | c # cs \<Rightarrow> isLower c \<and> list_all (\<lambda>d. isLower d \<or> isDigit d \<or> d = CHR ''_'') cs)"

end
