(* ===== verification/SessionLifecycle.thy ===== *)
theory SessionLifecycle
  imports SessionProtocol
begin

text \<open>
  The lifecycle state machine of a controlled session,
  \<open>src/internal/controlledsession/lifecycle.go\<close>. The machine is a record of the fields of
  \<open>MachineV1\<close>; the mutex makes every operation atomic, so an operation is a function from a
  machine and its input to the new machine, the transition it reports and the error. The
  branches of the switch in \<open>Observe\<close> are definitions of their own, in the order of the code;
  a rejected observation returns the machine it was given.
\<close>

section \<open>Data\<close>

datatype StateV1 =
  StatePreparingV1 | StateActiveV1 | StateTerminatingV1 | StateTerminatedV1 | StateOther string

record FinishV1 =
  fiWorkloadStatus :: ProcessStatusV1
  fiWorkloadOutputs :: WorkloadOutputFinalizationStatusV1
  fiController :: ControllerFinalizationStatusV1
  fiCleanup :: CleanupStatusV1
  fiRecovery :: RecoveryActionV1

datatype ObservationKindV1 =
    ObservationActivatedV1 | ObservationWorkloadExitV1 | ObservationHostCancelV1
  | ObservationControllerLostV1 | ObservationRuntimeObservationLostV1
  | ObservationCleanupContainmentLostV1 | ObservationStartupFailureV1
  | ObservationWorkloadOutputsFinalizedV1 | ObservationWorkloadOutputsPublishedV1
  | ObservationWorkloadOutputFinalizationExpiredV1 | ObservationControllerFinalizationExpiredV1
  | ObservationFinishedV1 | ObservationResultDeliveredV1 | ObservationOther string

record ObservationV1 =
  obKind :: ObservationKindV1
  obWorkloadStatus :: "ProcessStatusV1 option"
  obWorkloadOutputs :: "WorkloadOutputFinalizationStatusV1 option"
  obWorkloadOutputPending :: bool
  obReason :: string
  obFinish :: "FinishV1 option"

record TransitionV1 =
  trBefore :: StateV1
  trAfter :: StateV1
  trCause :: TerminationCauseV1
  trCauseLatched :: bool
  trBeginTermination :: bool
  trWorkloadOutputs :: WorkloadOutputFinalizationStatusV1
  trAwaitingWorkloadOutputFinalization :: bool
  trAwaitingWorkloadOutputPublication :: bool
  trAwaitingControllerFinalization :: bool
  trAwaitingResultAcknowledgement :: bool
  trRequestAccepted :: bool
  trResultAcknowledged :: bool
  trResult :: "ResultV1 option"

record MachineV1 =
  maAuthorization :: AuthorizationV1
  maState :: StateV1
  maActivated :: bool
  maCause :: TerminationCauseV1
  maWorkload :: ProcessStatusV1
  maWorkloadOutputs :: WorkloadOutputFinalizationStatusV1
  maController :: ControllerFinalizationStatusV1
  maRuntimeObservation :: RuntimeObservationStatusV1
  maWaitingOutputs :: bool
  maWaitingPublication :: bool
  maWaitingFinalize :: bool
  maResultDelivered :: bool
  maResultAcknowledged :: bool
  maResult :: "ResultV1 option"

record SnapshotV1 =
  snState :: StateV1
  snCause :: TerminationCauseV1
  snWorkloadStatus :: ProcessStatusV1
  snWorkloadOutputs :: WorkloadOutputFinalizationStatusV1
  snRuntimeObservation :: RuntimeObservationStatusV1
  snController :: ControllerFinalizationStatusV1
  snAwaitingWorkloadOutputFinalization :: bool
  snAwaitingWorkloadOutputPublication :: bool
  snAwaitingControllerFinalization :: bool
  snAwaitingResultAcknowledgement :: bool
  snResultAcknowledged :: bool
  snResult :: "ResultV1 option"

datatype lifecycle_error =
    PendingOnlyForStartup | DeliveryInvalid | AlreadyTerminated | ActivationInvalid
  | WorkloadExitPayload | WorkloadExitAfterOutputs | WorkloadExitBeforeActivation | WorkloadExitConflict
  | CausePayload ObservationKindV1 | ReasonUnsafe | StatusInvalid status_error
  | StartupPayload | StartupAfterActivation | OutputsFinalizedShape | OutputsNeedWorkloadStatus
  | OutputsNeedFailed | PublishedInvalid | ExpiryShape | FinalizationExpiryInvalid
  | FinishPayload | FinishPending | FinishWorkloadConflict | FinishOutputsConflict
  | FinishControllerConflict | FinishControllerIncomplete | FinishControllerInvalid
  | ObservationUnsupported string
  | LifecycleRequestInvalid request_error | ResultNotDelivered | OperationNotGranted OperationV1
  | CompletionBeforeTermination | NotWhileTerminating RequestKindV1 | CompletionNotPending
  | RequestWhile StateV1 | StateInvalid string

section \<open>Construction and snapshot\<close>

definition noOutputs :: WorkloadOutputFinalizationStatusV1 where
  "noOutputs = \<lparr>woKind = WorkloadOutputFinalizationEmpty, woReason = []\<rparr>"

definition drainedOutputs :: WorkloadOutputFinalizationStatusV1 where
  "drainedOutputs = \<lparr>woKind = WorkloadOutputFinalizationDrainedV1, woReason = []\<rparr>"

definition failedOutputs :: "string \<Rightarrow> WorkloadOutputFinalizationStatusV1" where
  "failedOutputs reason = \<lparr>woKind = WorkloadOutputFinalizationFailedV1, woReason = reason\<rparr>"

definition unknownProcess :: ProcessStatusV1 where
  "unknownProcess = \<lparr>psKind = ProcessStatusUnknownV1, psCode = None, psReason = []\<rparr>"

definition controllerStatus :: "ControllerFinalizationStatusKindV1 \<Rightarrow> string \<Rightarrow> ControllerFinalizationStatusV1" where
  "controllerStatus kind reason = \<lparr>cfKind = kind, cfReason = reason\<rparr>"

definition NewMachineV1 :: "AuthorizationV1 \<Rightarrow> authorization_error + MachineV1" where
  "NewMachineV1 authorization =
     (case ValidateAuthorizationV1 authorization of
        Some e \<Rightarrow> Inl e
      | None \<Rightarrow> Inr \<lparr>maAuthorization = cloneAuthorizationV1 authorization, maState = StatePreparingV1,
          maActivated = False, maCause = CauseEmpty, maWorkload = unknownProcess,
          maWorkloadOutputs = noOutputs,
          maController = controllerStatus ControllerFinalizationUnknownV1 [],
          maRuntimeObservation = \<lparr>roKind = RuntimeObservationMaintainedV1, roReason = []\<rparr>,
          maWaitingOutputs = False, maWaitingPublication = False, maWaitingFinalize = False,
          maResultDelivered = False, maResultAcknowledged = False, maResult = None\<rparr>)"

definition snapshotLocked :: "MachineV1 \<Rightarrow> SnapshotV1" where
  "snapshotLocked m =
     \<lparr>snState = maState m, snCause = maCause m, snWorkloadStatus = maWorkload m,
      snWorkloadOutputs = maWorkloadOutputs m, snRuntimeObservation = maRuntimeObservation m,
      snController = maController m,
      snAwaitingWorkloadOutputFinalization = maWaitingOutputs m,
      snAwaitingWorkloadOutputPublication = maWaitingPublication m,
      snAwaitingControllerFinalization = maWaitingFinalize m,
      snAwaitingResultAcknowledgement = maResultDelivered m \<and> \<not> maResultAcknowledged m,
      snResultAcknowledged = maResultAcknowledged m, snResult = maResult m\<rparr>"

definition startTransition :: "MachineV1 \<Rightarrow> TransitionV1" where
  "startTransition m =
     \<lparr>trBefore = maState m, trAfter = maState m, trCause = maCause m, trCauseLatched = False,
      trBeginTermination = False, trWorkloadOutputs = noOutputs,
      trAwaitingWorkloadOutputFinalization = False, trAwaitingWorkloadOutputPublication = False,
      trAwaitingControllerFinalization = False, trAwaitingResultAcknowledgement = False,
      trRequestAccepted = False, trResultAcknowledged = False, trResult = None\<rparr>"

section \<open>Shared steps\<close>

definition latchLocked :: "TerminationCauseV1 \<Rightarrow> MachineV1 \<times> TransitionV1 \<Rightarrow> MachineV1 \<times> TransitionV1" where
  "latchLocked cause mt =
     (case mt of (m, t) \<Rightarrow>
        if maCause m \<noteq> CauseEmpty then (m, t)
        else
          (let m' = m\<lparr>maCause := cause, maState := StateTerminatingV1\<rparr>
           in (if trBefore t = StateActiveV1 then m'\<lparr>maWaitingOutputs := True\<rparr>
               else m'\<lparr>maWorkloadOutputs := drainedOutputs\<rparr>,
               t\<lparr>trCauseLatched := True, trBeginTermination := True\<rparr>)))"

definition completeOutputFinalizationLocked :: "WorkloadOutputFinalizationStatusV1 \<Rightarrow> MachineV1 \<Rightarrow> MachineV1" where
  "completeOutputFinalizationLocked status m =
     m\<lparr>maWorkloadOutputs := status, maWaitingOutputs := False,
       maWaitingPublication := (cfKind (maController m) = ControllerFinalizationActiveV1),
       maWaitingFinalize := False\<rparr>"

definition defaultLossReason :: string where
  "defaultLossReason = ''runtime observation was lost before workload output finalization completed''"

definition finalizePreActivationOutputsForRuntimeObservationLossLocked :: "string \<Rightarrow> MachineV1 \<Rightarrow> MachineV1" where
  "finalizePreActivationOutputsForRuntimeObservationLossLocked reason m =
     (if maActivated m \<or> maCause m \<noteq> CauseRuntimeObservationLostV1
         \<or> woKind (maWorkloadOutputs m) \<noteq> WorkloadOutputFinalizationDrainedV1 then m
      else completeOutputFinalizationLocked
             (failedOutputs (if reason = [] then defaultLossReason else reason)) m)"

definition equalProcessStatusV1 :: "ProcessStatusV1 \<Rightarrow> ProcessStatusV1 \<Rightarrow> bool" where
  "equalProcessStatusV1 left right \<longleftrightarrow>
     (if psKind left \<noteq> psKind right \<or> psReason left \<noteq> psReason right
         \<or> (psCode left = None) \<noteq> (psCode right = None) then False
      else psCode left = None \<or> the (psCode left) = the (psCode right))"

definition validateCauseObservationV1 :: "ObservationV1 \<Rightarrow> lifecycle_error check" where
  "validateCauseObservationV1 obs =
     (if obWorkloadStatus obs \<noteq> None \<or> obWorkloadOutputs obs \<noteq> None \<or> obFinish obs \<noteq> None
      then Some (CausePayload (obKind obs))
      else if \<not> validateOptionalSafeTextV1 (obReason obs) then Some ReasonUnsafe else None)"

definition validateFinishV1 :: "FinishV1 \<Rightarrow> status_error check" where
  "validateFinishV1 f =
     orElse (validateProcessStatusV1 (fiWorkloadStatus f) True)
     (orElse (validateWorkloadOutputFinalizationStatusV1 (fiWorkloadOutputs f))
     (orElse (validateTerminalControllerFinalizationStatusV1 (fiController f))
       (validateCleanupResultV1 (fiCleanup f) (fiRecovery f))))"

definition validateControllerFinishLocked :: "MachineV1 \<Rightarrow> ControllerFinalizationStatusV1 \<Rightarrow> lifecycle_error check" where
  "validateControllerFinishLocked m status =
     (if cfKind (maController m) \<in> {ControllerFinalizationCompletedV1, ControllerFinalizationLostV1,
           ControllerFinalizationTimeoutV1, ControllerFinalizationStartupFailedV1} then
        (if maController m \<noteq> status then Some FinishControllerConflict else None)
      else if cfKind (maController m) \<in> {ControllerFinalizationActiveV1, ControllerFinalizationUnknownV1} then
        (if cfKind status \<noteq> ControllerFinalizationNotCompletedV1 then Some FinishControllerIncomplete else None)
      else Some FinishControllerInvalid)"

section \<open>The branches of Observe\<close>

type_synonym branch = "MachineV1 \<Rightarrow> TransitionV1 \<Rightarrow> ObservationV1 \<Rightarrow> lifecycle_error + MachineV1 \<times> TransitionV1"

definition observeActivated :: branch where
  "observeActivated m t obs =
     (if obWorkloadStatus obs \<noteq> None \<or> obWorkloadOutputs obs \<noteq> None \<or> obReason obs \<noteq> [] \<or> obFinish obs \<noteq> None
         \<or> maState m \<noteq> StatePreparingV1 then Inl ActivationInvalid
      else Inr (m\<lparr>maState := StateActiveV1, maActivated := True,
                  maController := controllerStatus ControllerFinalizationActiveV1 []\<rparr>, t))"

definition observeWorkloadExit :: branch where
  "observeWorkloadExit m t obs =
     (case obWorkloadStatus obs of
        None \<Rightarrow> Inl WorkloadExitPayload
      | Some status \<Rightarrow>
          if obWorkloadOutputs obs \<noteq> None \<or> obReason obs \<noteq> [] \<or> obFinish obs \<noteq> None then Inl WorkloadExitPayload
          else if woKind (maWorkloadOutputs m) \<noteq> WorkloadOutputFinalizationEmpty \<and>
             \<not> (maActivated m \<and> maState m = StateTerminatingV1
                \<and> psKind (maWorkload m) = ProcessStatusUnknownV1
                \<and> woKind (maWorkloadOutputs m) = WorkloadOutputFinalizationFailedV1)
          then Inl WorkloadExitAfterOutputs
          else if maState m = StatePreparingV1 then Inl WorkloadExitBeforeActivation
          else case validateProcessStatusV1 status False of
              Some e \<Rightarrow> Inl (StatusInvalid e)
            | None \<Rightarrow>
                if psKind (maWorkload m) \<noteq> ProcessStatusUnknownV1 \<and> \<not> equalProcessStatusV1 (maWorkload m) status
                then Inl WorkloadExitConflict
                else
                  let m' = m\<lparr>maWorkload := status\<rparr>
                  in Inr (if maState m' = StateActiveV1 then latchLocked CauseWorkloadExitV1 (m', t) else (m', t)))"

definition observeHostCancel :: branch where
  "observeHostCancel m t obs =
     (case validateCauseObservationV1 obs of
        Some e \<Rightarrow> Inl e
      | None \<Rightarrow> Inr (latchLocked CauseHostCancelV1 (m, t)))"

definition observeControllerLost :: branch where
  "observeControllerLost m t obs =
     (if obWorkloadStatus obs \<noteq> None \<or> obWorkloadOutputs obs \<noteq> None \<or> obFinish obs \<noteq> None
      then Inl (CausePayload (obKind obs))
      else if \<not> validateOptionalSafeTextV1 (obReason obs) then Inl ReasonUnsafe
      else
        let m1 = (if cfKind (maController m) \<in> {ControllerFinalizationUnknownV1, ControllerFinalizationActiveV1}
                  then m\<lparr>maController := controllerStatus ControllerFinalizationLostV1 (obReason obs)\<rparr> else m);
            m2 = m1\<lparr>maWaitingFinalize := False, maWaitingPublication := False\<rparr>
        in Inr (latchLocked CauseControllerLostV1 (m2, t)))"

definition observeRuntimeObservationLost :: branch where
  "observeRuntimeObservationLost m t obs =
     (case validateCauseObservationV1 obs of
        Some e \<Rightarrow> Inl e
      | None \<Rightarrow>
          let m1 = (if roKind (maRuntimeObservation m) \<noteq> RuntimeObservationLostV1
                    then m\<lparr>maRuntimeObservation := \<lparr>roKind = RuntimeObservationLostV1, roReason = obReason obs\<rparr>\<rparr> else m)
          in (case latchLocked CauseRuntimeObservationLostV1 (m1, t) of (m2, t2) \<Rightarrow>
               Inr (finalizePreActivationOutputsForRuntimeObservationLossLocked (obReason obs) m2, t2)))"

definition observeCleanupContainmentLost :: branch where
  "observeCleanupContainmentLost m t obs =
     (case validateCauseObservationV1 obs of
        Some e \<Rightarrow> Inl e
      | None \<Rightarrow> Inr (latchLocked CauseCleanupContainmentLostV1 (m, t)))"

definition observeStartupFailure :: branch where
  "observeStartupFailure m t obs =
     (if obWorkloadStatus obs \<noteq> None \<or> obFinish obs \<noteq> None \<or> (obWorkloadOutputPending obs \<and> obWorkloadOutputs obs \<noteq> None)
      then Inl StartupPayload
      else if \<not> validateRequiredSafeTextV1 (obReason obs) then Inl ReasonUnsafe
      else case (case obWorkloadOutputs obs of None \<Rightarrow> None | Some status \<Rightarrow> validateWorkloadOutputFinalizationStatusV1 status) of
          Some e \<Rightarrow> Inl (StatusInvalid e)
        | None \<Rightarrow>
            if cfKind (maController m) \<noteq> ControllerFinalizationUnknownV1 then Inl StartupAfterActivation
            else
              (case latchLocked CauseStartupFailureV1
                      (m\<lparr>maController := controllerStatus ControllerFinalizationStartupFailedV1 (obReason obs)\<rparr>, t)
               of (m2, t2) \<Rightarrow>
                 Inr (if obWorkloadOutputPending obs then m2\<lparr>maWorkloadOutputs := noOutputs, maWaitingOutputs := True\<rparr>
                      else case obWorkloadOutputs obs of
                          None \<Rightarrow> m2
                        | Some status \<Rightarrow> completeOutputFinalizationLocked status m2, t2)))"

definition observeOutputsFinalized :: branch where
  "observeOutputsFinalized m t obs =
     (case obWorkloadOutputs obs of
        None \<Rightarrow> Inl OutputsFinalizedShape
      | Some status \<Rightarrow>
          if obWorkloadStatus obs \<noteq> None \<or> obReason obs \<noteq> [] \<or> obFinish obs \<noteq> None \<or> \<not> maWaitingOutputs m
          then Inl OutputsFinalizedShape
          else if maActivated m \<and> psKind (maWorkload m) = ProcessStatusUnknownV1 \<and>
             \<not> (roKind (maRuntimeObservation m) = RuntimeObservationLostV1
                \<and> woKind status = WorkloadOutputFinalizationFailedV1)
          then Inl OutputsNeedWorkloadStatus
          else case validateWorkloadOutputFinalizationStatusV1 status of
              Some e \<Rightarrow> Inl (StatusInvalid e)
            | None \<Rightarrow>
                if roKind (maRuntimeObservation m) = RuntimeObservationLostV1
                   \<and> woKind status = WorkloadOutputFinalizationDrainedV1
                then Inl OutputsNeedFailed
                else Inr (completeOutputFinalizationLocked status m, t))"

definition observeOutputsPublished :: branch where
  "observeOutputsPublished m t obs =
     (if obWorkloadStatus obs \<noteq> None \<or> obWorkloadOutputs obs \<noteq> None \<or> obReason obs \<noteq> [] \<or> obFinish obs \<noteq> None
         \<or> maState m \<noteq> StateTerminatingV1 \<or> maWaitingOutputs m
         \<or> woKind (maWorkloadOutputs m) = WorkloadOutputFinalizationEmpty \<or> \<not> maWaitingPublication m
      then Inl PublishedInvalid
      else Inr (m\<lparr>maWaitingPublication := False,
                  maWaitingFinalize := (cfKind (maController m) = ControllerFinalizationActiveV1
                    \<and> containsOperationV1 (elems (auOperations (maAuthorization m))) OperationCompleteV1)\<rparr>, t))"

definition observeOutputsExpired :: branch where
  "observeOutputsExpired m t obs =
     (if obWorkloadStatus obs \<noteq> None \<or> obWorkloadOutputs obs \<noteq> None \<or> obFinish obs \<noteq> None \<or> \<not> maWaitingOutputs m
      then Inl ExpiryShape
      else if \<not> validateRequiredSafeTextV1 (obReason obs) then Inl ReasonUnsafe
      else Inr (completeOutputFinalizationLocked (failedOutputs (obReason obs)) m, t))"

definition observeFinalizationExpired :: branch where
  "observeFinalizationExpired m t obs =
     (if obWorkloadStatus obs \<noteq> None \<or> obWorkloadOutputs obs \<noteq> None \<or> obFinish obs \<noteq> None \<or> obReason obs \<noteq> []
         \<or> \<not> maWaitingFinalize m then Inl FinalizationExpiryInvalid
      else Inr (m\<lparr>maWaitingFinalize := False,
                  maController := controllerStatus ControllerFinalizationTimeoutV1 []\<rparr>, t))"

definition finishResult :: "MachineV1 \<Rightarrow> FinishV1 \<Rightarrow> ResultV1" where
  "finishResult m f =
     \<lparr>rsCause = maCause m, rsWorkloadStatus = fiWorkloadStatus f, rsWorkloadOutputs = fiWorkloadOutputs f,
      rsRuntimeObservation = maRuntimeObservation m, rsController = fiController f,
      rsCleanup = fiCleanup f, rsRecovery = fiRecovery f\<rparr>"

definition observeFinished :: branch where
  "observeFinished m t obs =
     (case obFinish obs of
        None \<Rightarrow> Inl FinishPayload
      | Some f \<Rightarrow>
          if obWorkloadStatus obs \<noteq> None \<or> obWorkloadOutputs obs \<noteq> None \<or> obReason obs \<noteq> [] then Inl FinishPayload
          else if maState m \<noteq> StateTerminatingV1 \<or> maWaitingOutputs m \<or> maWaitingPublication m
             \<or> woKind (maWorkloadOutputs m) = WorkloadOutputFinalizationEmpty \<or> maWaitingFinalize m
          then Inl FinishPending
          else case validateFinishV1 f of
              Some e \<Rightarrow> Inl (StatusInvalid e)
            | None \<Rightarrow>
                if psKind (maWorkload m) \<noteq> ProcessStatusUnknownV1
                   \<and> \<not> equalProcessStatusV1 (maWorkload m) (fiWorkloadStatus f)
                then Inl FinishWorkloadConflict
                else if maWorkloadOutputs m \<noteq> fiWorkloadOutputs f then Inl FinishOutputsConflict
                else case validateControllerFinishLocked m (fiController f) of
                    Some e \<Rightarrow> Inl e
                  | None \<Rightarrow>
                      (case ValidateResultV1 (finishResult m f) of
                         Some e \<Rightarrow> Inl (StatusInvalid e)
                       | None \<Rightarrow> Inr (m\<lparr>maWorkload := fiWorkloadStatus f, maController := fiController f,
                                       maResult := Some (finishResult m f), maState := StateTerminatedV1\<rparr>, t)))"

fun observeKind :: "ObservationKindV1 \<Rightarrow> branch" where
  "observeKind ObservationActivatedV1 = observeActivated"
| "observeKind ObservationWorkloadExitV1 = observeWorkloadExit"
| "observeKind ObservationHostCancelV1 = observeHostCancel"
| "observeKind ObservationControllerLostV1 = observeControllerLost"
| "observeKind ObservationRuntimeObservationLostV1 = observeRuntimeObservationLost"
| "observeKind ObservationCleanupContainmentLostV1 = observeCleanupContainmentLost"
| "observeKind ObservationStartupFailureV1 = observeStartupFailure"
| "observeKind ObservationWorkloadOutputsFinalizedV1 = observeOutputsFinalized"
| "observeKind ObservationWorkloadOutputsPublishedV1 = observeOutputsPublished"
| "observeKind ObservationWorkloadOutputFinalizationExpiredV1 = observeOutputsExpired"
| "observeKind ObservationControllerFinalizationExpiredV1 = observeFinalizationExpired"
| "observeKind ObservationFinishedV1 = observeFinished"
| "observeKind ObservationResultDeliveredV1 = (\<lambda>_ _ _. Inl (ObservationUnsupported ''result-delivered''))"
| "observeKind (ObservationOther s) = (\<lambda>_ _ _. Inl (ObservationUnsupported s))"

section \<open>Observe and ApplyRequest\<close>

definition closeTransition :: "MachineV1 \<Rightarrow> TransitionV1 \<Rightarrow> TransitionV1" where
  "closeTransition m t =
     t\<lparr>trAfter := maState m, trCause := maCause m, trWorkloadOutputs := maWorkloadOutputs m,
       trAwaitingWorkloadOutputFinalization := maWaitingOutputs m,
       trAwaitingWorkloadOutputPublication := maWaitingPublication m,
       trAwaitingControllerFinalization := maWaitingFinalize m,
       trAwaitingResultAcknowledgement := (maResultDelivered m \<and> \<not> maResultAcknowledged m),
       trResultAcknowledged := maResultAcknowledged m\<rparr>"

definition Observe :: "MachineV1 \<Rightarrow> ObservationV1 \<Rightarrow> MachineV1 \<times> TransitionV1 \<times> lifecycle_error option" where
  "Observe m obs =
     (let t = startTransition m in
      if obWorkloadOutputPending obs \<and> obKind obs \<noteq> ObservationStartupFailureV1
      then (m, t, Some PendingOnlyForStartup)
      else if obKind obs = ObservationResultDeliveredV1 then
        (if obWorkloadStatus obs \<noteq> None \<or> obWorkloadOutputs obs \<noteq> None \<or> obReason obs \<noteq> [] \<or> obFinish obs \<noteq> None
            \<or> maState m \<noteq> StateTerminatedV1 \<or> maResult m = None
         then (m, t, Some DeliveryInvalid)
         else (m\<lparr>maResultDelivered := True\<rparr>,
               t\<lparr>trAwaitingResultAcknowledgement := (\<not> maResultAcknowledged m),
                 trResultAcknowledged := maResultAcknowledged m, trResult := maResult m\<rparr>, None))
      else if maState m = StateTerminatedV1 then (m, t, Some AlreadyTerminated)
      else case observeKind (obKind obs) m t obs of
          Inl e \<Rightarrow> (m, t, Some e)
        | Inr (m', t') \<Rightarrow> (m', (closeTransition m' t')\<lparr>trResult := maResult m'\<rparr>, None))"

text \<open>The requests of a session that is active or terminating; the flag is \<open>discarded\<close>.\<close>

definition requestActive :: "MachineV1 \<Rightarrow> TransitionV1 \<Rightarrow> RequestKindV1 \<Rightarrow> lifecycle_error + MachineV1 \<times> TransitionV1" where
  "requestActive m t kind =
     (case kind of
        RequestTerminateV1 \<Rightarrow> Inr (latchLocked CauseControllerTerminateV1 (m, t))
      | RequestCompleteV1 \<Rightarrow> Inl CompletionBeforeTermination
      | _ \<Rightarrow> Inr (m, t))"

definition requestComplete :: "MachineV1 \<Rightarrow> TransitionV1 \<Rightarrow> lifecycle_error + MachineV1 \<times> TransitionV1" where
  "requestComplete m t =
     (if maWaitingOutputs m \<or> \<not> maWaitingFinalize m
         \<or> cfKind (maController m) \<noteq> ControllerFinalizationActiveV1 then Inl CompletionNotPending
      else Inr (m\<lparr>maWaitingFinalize := False,
                  maController := controllerStatus ControllerFinalizationCompletedV1 []\<rparr>, t))"

definition applyRequestV1 :: "MachineV1 \<Rightarrow> RequestV1 \<Rightarrow> bool \<Rightarrow> MachineV1 \<times> TransitionV1 \<times> bool \<times> lifecycle_error option" where
  "applyRequestV1 m request discardTerminatingPTY =
     (let t = startTransition m; kind = rqKind request;
          accept = (\<lambda>(m', t'). (m', (closeTransition m' t')\<lparr>trRequestAccepted := True\<rparr>, False, None));
          answer = (\<lambda>r. case r of Inl e \<Rightarrow> (m, t, False, Some e) | Inr mt \<Rightarrow> accept mt) in
      case ValidateRequestV1 request of
        Some e \<Rightarrow> (m, t, False, Some (LifecycleRequestInvalid e))
      | None \<Rightarrow>
          if kind = RequestAcknowledgeTerminatedV1 then
            (if maState m \<noteq> StateTerminatedV1 \<or> maResult m = None \<or> \<not> maResultDelivered m
             then (m, t, False, Some ResultNotDelivered)
             else (m\<lparr>maResultAcknowledged := True\<rparr>,
                   t\<lparr>trRequestAccepted := True, trAwaitingResultAcknowledgement := False,
                     trResultAcknowledged := True, trResult := maResult m\<rparr>, False, None))
          else if \<not> containsOperationV1 (elems (auOperations (maAuthorization m))) (operationForRequestV1 kind)
          then (m, t, False, Some (OperationNotGranted (operationForRequestV1 kind)))
          else case maState m of
              StateActiveV1 \<Rightarrow> answer (requestActive m t kind)
            | StateTerminatingV1 \<Rightarrow>
                (if kind = RequestInputV1 \<or> kind = RequestResizeV1 then
                   (if discardTerminatingPTY then (m, t, True, None)
                    else (m, t, False, Some (NotWhileTerminating kind)))
                 else if kind = RequestTerminateV1 then accept (m, t)
                 else if kind = RequestCompleteV1 then answer (requestComplete m t)
                 else (m, t, False, Some (NotWhileTerminating kind)))
            | StateOther s \<Rightarrow> (m, t, False, Some (StateInvalid s))
            | st \<Rightarrow> (m, t, False, Some (RequestWhile st)))"

definition ApplyRequest :: "MachineV1 \<Rightarrow> RequestV1 \<Rightarrow> MachineV1 \<times> TransitionV1 \<times> lifecycle_error option" where
  "ApplyRequest m request = (case applyRequestV1 m request False of (m', t, _, e) \<Rightarrow> (m', t, e))"

definition ApplyRequestOrDiscardTerminatingPTYV1 ::
    "MachineV1 \<Rightarrow> RequestV1 \<Rightarrow> MachineV1 \<times> TransitionV1 \<times> bool \<times> lifecycle_error option" where
  "ApplyRequestOrDiscardTerminatingPTYV1 m request = applyRequestV1 m request True"

end
