(* ===== verification/SessionLifecycleProofs.thy ===== *)
theory SessionLifecycleProofs
  imports SessionLifecycle
begin

text \<open>
  The invariant of the session lifecycle machine. The invariant is stated field by field; each
  accepted observation is characterised by an inversion lemma, and each of them keeps the
  invariant. The locale lifts a relation that holds across every accepted operation to
  \<open>Observe\<close>, to \<open>applyRequestV1\<close> and to every sequence of them; its first interpretation is the
  invariant itself.
\<close>

section \<open>Printable text\<close>

definition printable :: "string \<Rightarrow> bool" where
  "printable s \<longleftrightarrow> list_all (\<lambda>c. 32 \<le> byteOf c \<and> byteOf c \<le> 126) s"

lemma runes_printable: "printable s \<Longrightarrow> runes s = map (\<lambda>c. (byteOf c, 1)) s"
proof (induction s)
  case Nil
  then show ?case by (simp add: runes.simps)
next
  case (Cons c s)
  then show ?case
    by (subst runes.simps) (simp add: decodeRune_ascii printable_def)
qed

lemma trimSpace_printable:
  assumes "printable s" "s \<noteq> []" "33 \<le> byteOf (hd s)" "33 \<le> byteOf (last s)"
  shows "trimSpace s = s"
proof -
  obtain c t where c: "s = c # t" using assms(2) by (cases s) auto
  obtain t' d where d: "s = t' @ [d]" using assms(2) by (cases s rule: rev_cases) auto
  have "trimLeft s = s"
    using assms(1,3) c by (subst trimLeft.simps) (simp add: printable_def decodeRune_ascii plain_not_space)
  moreover have "byteOf d < 128" "33 \<le> byteOf d" "byteOf d \<le> 126"
    using assms(1,4) d by (simp_all add: printable_def)
  then have "trimRight s = s"
    using d by (subst trimRight.simps) (simp add: decodeLastRune_def plain_not_space)
  ultimately show ?thesis by (simp add: trimSpace_def)
qed

lemma safeText_printable:
  assumes "printable s" "s \<noteq> []" "33 \<le> byteOf (hd s)" "33 \<le> byteOf (last s)" "length s \<le> 512"
  shows "validateSafeTextV1 s"
  using assms trimSpace_printable[OF assms(1-4)]
  by (auto simp: validateSafeTextV1_def validString_def rangeAll_def runes_printable list_all_iff printable_def
      runeError_def isControl_def inCf_def)

section \<open>The invariant\<close>

definition observedOK :: "ProcessStatusV1 \<Rightarrow> RuntimeObservationStatusV1 \<Rightarrow> ControllerFinalizationStatusV1 \<Rightarrow> bool" where
  "observedOK workload observation controller \<longleftrightarrow> validateProcessStatusV1 workload True = None
     \<and> validateRuntimeObservationStatusV1 observation = None \<and> validateOptionalSafeTextV1 (cfReason controller)"

text \<open>Before a cause is latched nothing has been recorded and nothing is awaited.\<close>

definition quietOK :: "MachineV1 \<Rightarrow> bool" where
  "quietOK m \<longleftrightarrow> maCause m = CauseEmpty \<and> maWorkload m = unknownProcess \<and> maWorkloadOutputs m = noOutputs
     \<and> maRuntimeObservation m = \<lparr>roKind = RuntimeObservationMaintainedV1, roReason = []\<rparr>
     \<and> \<not> maWaitingOutputs m \<and> \<not> maWaitingPublication m \<and> \<not> maWaitingFinalize m
     \<and> maController m = controllerStatus (if maActivated m then ControllerFinalizationActiveV1 else ControllerFinalizationUnknownV1) []"

text \<open>The outputs are awaited or finalized, and only an active controller is awaited.\<close>

definition outputsOK :: "bool \<Rightarrow> WorkloadOutputFinalizationStatusV1 \<Rightarrow> bool" where
  "outputsOK awaited outputs \<longleftrightarrow>
     (if awaited then outputs = noOutputs else validateWorkloadOutputFinalizationStatusV1 outputs = None)"

fun waitsOK :: "bool \<Rightarrow> bool \<Rightarrow> bool \<Rightarrow> bool \<Rightarrow> bool \<Rightarrow> bool" where
  "waitsOK outputs publication finalize active completeGranted \<longleftrightarrow>
     (publication \<longrightarrow> active \<and> \<not> outputs \<and> \<not> finalize) \<and> (finalize \<longrightarrow> active \<and> \<not> outputs \<and> completeGranted)"

definition controllerOK :: "bool \<Rightarrow> bool \<Rightarrow> ControllerFinalizationStatusKindV1 \<Rightarrow> bool" where
  "controllerOK activated awaited kind \<longleftrightarrow>
     (if activated then kind \<in> {ControllerFinalizationActiveV1, ControllerFinalizationCompletedV1,
        ControllerFinalizationLostV1, ControllerFinalizationTimeoutV1}
      else kind \<in> {ControllerFinalizationLostV1, ControllerFinalizationStartupFailedV1}
         \<or> kind = ControllerFinalizationUnknownV1 \<and> \<not> awaited)"

text \<open>The latched cause agrees with what was observed.\<close>

fun causeOK :: "TerminationCauseV1 \<Rightarrow> RuntimeObservationStatusKindV1 \<Rightarrow> bool \<Rightarrow> ControllerFinalizationStatusKindV1
    \<Rightarrow> ProcessStatusKindV1 \<Rightarrow> bool \<Rightarrow> bool" where
  "causeOK CauseRuntimeObservationLostV1 observation settled controller process terminateGranted \<longleftrightarrow>
     observation = RuntimeObservationLostV1 \<and> settled"
| "causeOK CauseControllerLostV1 observation settled controller process terminateGranted \<longleftrightarrow>
     controller = ControllerFinalizationLostV1"
| "causeOK CauseStartupFailureV1 observation settled controller process terminateGranted \<longleftrightarrow>
     controller = ControllerFinalizationStartupFailedV1"
| "causeOK CauseWorkloadExitV1 observation settled controller process terminateGranted \<longleftrightarrow>
     process \<noteq> ProcessStatusUnknownV1"
| "causeOK CauseControllerTerminateV1 observation settled controller process terminateGranted \<longleftrightarrow> terminateGranted"
| "causeOK CauseHostCancelV1 observation settled controller process terminateGranted \<longleftrightarrow> True"
| "causeOK CauseCleanupContainmentLostV1 observation settled controller process terminateGranted \<longleftrightarrow> True"
| "causeOK _ observation settled controller process terminateGranted \<longleftrightarrow> False"

definition granted :: "MachineV1 \<Rightarrow> OperationV1 \<Rightarrow> bool" where
  "granted m operation \<longleftrightarrow> containsOperationV1 (elems (auOperations (maAuthorization m))) operation"

text \<open>Once the runtime can no longer be observed, an activated workload's outputs count as failed.\<close>

definition settled :: "MachineV1 \<Rightarrow> bool" where
  "settled m \<longleftrightarrow> (maActivated m \<and> \<not> maWaitingOutputs m \<longrightarrow> woKind (maWorkloadOutputs m) = WorkloadOutputFinalizationFailedV1)"

definition latchedOK :: "MachineV1 \<Rightarrow> bool" where
  "latchedOK m \<longleftrightarrow> outputsOK (maWaitingOutputs m) (maWorkloadOutputs m)
     \<and> waitsOK (maWaitingOutputs m) (maWaitingPublication m) (maWaitingFinalize m)
         (cfKind (maController m) = ControllerFinalizationActiveV1) (granted m OperationCompleteV1)
     \<and> causeOK (maCause m) (roKind (maRuntimeObservation m)) (settled m) (cfKind (maController m))
         (psKind (maWorkload m)) (granted m OperationTerminateV1)
     \<and> (cfKind (maController m) = ControllerFinalizationCompletedV1 \<longrightarrow> granted m OperationCompleteV1)"

definition resultOK :: "MachineV1 \<Rightarrow> bool" where
  "resultOK m \<longleftrightarrow> (\<exists>cleanup recovery. maResult m = Some
       \<lparr>rsCause = maCause m, rsWorkloadStatus = maWorkload m, rsWorkloadOutputs = maWorkloadOutputs m,
        rsRuntimeObservation = maRuntimeObservation m, rsController = maController m,
        rsCleanup = cleanup, rsRecovery = recovery\<rparr>)
     \<and> ValidateResultV1 (the (maResult m)) = None"

definition machineOK :: "MachineV1 \<Rightarrow> bool" where
  "machineOK m \<longleftrightarrow> observedOK (maWorkload m) (maRuntimeObservation m) (maController m) \<and>
     (case maState m of
        StatePreparingV1 \<Rightarrow> \<not> maActivated m \<and> quietOK m
      | StateActiveV1 \<Rightarrow> maActivated m \<and> quietOK m
      | StateTerminatingV1 \<Rightarrow> latchedOK m \<and> controllerOK (maActivated m) (maWaitingOutputs m) (cfKind (maController m))
      | StateTerminatedV1 \<Rightarrow> latchedOK m \<and> resultOK m \<and> \<not> maWaitingOutputs m \<and> \<not> maWaitingPublication m \<and> \<not> maWaitingFinalize m
      | StateOther _ \<Rightarrow> False)
     \<and> (maState m \<noteq> StateTerminatedV1 \<longrightarrow> maResult m = None \<and> \<not> maResultDelivered m)
     \<and> (maResultAcknowledged m \<longrightarrow> maResultDelivered m)"

lemma latched_cause: "latchedOK m \<Longrightarrow> maCause m \<noteq> CauseEmpty"
  by (auto simp: latchedOK_def)

lemma machineOK_cases [consumes 2, case_names Preparing Active Terminating]:
  assumes "machineOK m" "maState m \<noteq> StateTerminatedV1"
  obtains "maState m = StatePreparingV1" "\<not> maActivated m" "quietOK m"
  | "maState m = StateActiveV1" "maActivated m" "quietOK m"
  | "maState m = StateTerminatingV1" "latchedOK m" "maCause m \<noteq> CauseEmpty"
      "controllerOK (maActivated m) (maWaitingOutputs m) (cfKind (maController m))"
  using assms that by (cases "maState m") (auto simp: machineOK_def dest: latched_cause)

lemma machineOK_running: "machineOK m \<Longrightarrow> maState m \<noteq> StateTerminatedV1 \<Longrightarrow>
   observedOK (maWorkload m) (maRuntimeObservation m) (maController m) \<and> maResult m = None \<and> \<not> maResultDelivered m \<and> \<not> maResultAcknowledged m"
  by (auto simp: machineOK_def)

lemma machineOK_terminating:
  assumes "maState m = StateTerminatingV1"
  shows "machineOK m \<longleftrightarrow> observedOK (maWorkload m) (maRuntimeObservation m) (maController m) \<and> latchedOK m
     \<and> controllerOK (maActivated m) (maWaitingOutputs m) (cfKind (maController m))
     \<and> maResult m = None \<and> \<not> maResultDelivered m \<and> \<not> maResultAcknowledged m"
  using assms by (auto simp: machineOK_def)

section \<open>Latching\<close>

lemma latch_first:
  "maCause m = CauseEmpty \<Longrightarrow> latchLocked cause (m, t) =
     (if trBefore t = StateActiveV1 then m\<lparr>maCause := cause, maState := StateTerminatingV1, maWaitingOutputs := True\<rparr>
      else m\<lparr>maCause := cause, maState := StateTerminatingV1, maWorkloadOutputs := drainedOutputs\<rparr>,
      t\<lparr>trCauseLatched := True, trBeginTermination := True\<rparr>)"
  by (simp add: latchLocked_def Let_def)

lemma latch_again: "maCause m \<noteq> CauseEmpty \<Longrightarrow> latchLocked cause (m, t) = (m, t)"
  by (simp add: latchLocked_def)

lemma equalProcess [simp]: "equalProcessStatusV1 a b \<longleftrightarrow> a = (b :: ProcessStatusV1)"
  by (cases a; cases b) (auto simp: equalProcessStatusV1_def)

lemma outputs_drained [simp]: "outputsOK False drainedOutputs" "outputsOK True noOutputs"
  by (simp_all add: outputsOK_def drainedOutputs_def validateWorkloadOutputFinalizationStatusV1_def)

lemma status_fields [simp]: "woKind noOutputs = WorkloadOutputFinalizationEmpty"
  "woKind drainedOutputs = WorkloadOutputFinalizationDrainedV1" "woKind (failedOutputs r) = WorkloadOutputFinalizationFailedV1"
  "woReason (failedOutputs r) = r" "cfKind (controllerStatus k r) = k" "cfReason (controllerStatus k r) = r"
  "psKind unknownProcess = ProcessStatusUnknownV1"
  by (simp_all add: noOutputs_def drainedOutputs_def failedOutputs_def controllerStatus_def unknownProcess_def)

definition latchable :: "MachineV1 \<Rightarrow> bool" where
  "latchable m \<longleftrightarrow> maState m = (if maActivated m then StateActiveV1 else StatePreparingV1)
     \<and> maCause m = CauseEmpty \<and> maWorkloadOutputs m = noOutputs
     \<and> \<not> maWaitingOutputs m \<and> \<not> maWaitingPublication m \<and> \<not> maWaitingFinalize m
     \<and> maResult m = None \<and> \<not> maResultDelivered m \<and> \<not> maResultAcknowledged m"

definition latchKinds :: "bool \<Rightarrow> ControllerFinalizationStatusKindV1 set" where
  "latchKinds activated = (if activated then {ControllerFinalizationActiveV1, ControllerFinalizationLostV1}
     else {ControllerFinalizationUnknownV1, ControllerFinalizationLostV1, ControllerFinalizationStartupFailedV1})"

lemma latch_OK:
  assumes "latchable m" "trBefore t = maState m"
    and "observedOK (maWorkload m) (maRuntimeObservation m) (maController m)"
    and "cfKind (maController m) \<in> latchKinds (maActivated m)"
    and "causeOK cause (roKind (maRuntimeObservation m)) True (cfKind (maController m)) (psKind (maWorkload m)) (granted m OperationTerminateV1)"
  shows "machineOK (fst (latchLocked cause (m, t)))"
proof -
  have "maCause m = CauseEmpty" using assms(1) by (simp add: latchable_def)
  then show ?thesis
    using assms by (cases "maActivated m")
      (auto simp: latch_first machineOK_terminating latchedOK_def latchable_def latchKinds_def controllerOK_def settled_def granted_def)
qed

lemma quiet_latchable:
  assumes "machineOK m" "maState m \<noteq> StateTerminatedV1" "maState m \<noteq> StateTerminatingV1"
  shows "latchable m" "cfKind (maController m) \<in> latchKinds (maActivated m)"
    "cfKind (maController m) \<in> {ControllerFinalizationUnknownV1, ControllerFinalizationActiveV1}"
    "psKind (maWorkload m) = ProcessStatusUnknownV1"
  using assms(1,2) by (cases rule: machineOK_cases;
    use assms machineOK_running[OF assms(1,2)] in \<open>simp add: latchable_def quietOK_def latchKinds_def\<close>)+

lemma cause_latch_OK:
  assumes "machineOK m" "maState m \<noteq> StateTerminatedV1" "trBefore t = maState m"
    and "cause \<in> {CauseHostCancelV1, CauseCleanupContainmentLostV1} \<or> cause = CauseControllerTerminateV1 \<and> granted m OperationTerminateV1"
  shows "machineOK (fst (latchLocked cause (m, t)))"
proof (cases "maState m = StateTerminatingV1")
  case True
  then have "maCause m \<noteq> CauseEmpty"
    using assms(1) latched_cause by (simp add: machineOK_terminating)
  then show ?thesis using assms(1) by (simp add: latch_again)
next
  case False
  show ?thesis
    using assms(4) machineOK_running[OF assms(1,2)]
    by (intro latch_OK quiet_latchable[OF assms(1,2) False] assms(3)) auto
qed


section \<open>What an accepted observation does\<close>

lemma observeActivated_Inr:
  "observeActivated m t obs = Inr (m', t') \<Longrightarrow> maState m = StatePreparingV1 \<and> t' = t
     \<and> m' = m\<lparr>maState := StateActiveV1, maActivated := True, maController := controllerStatus ControllerFinalizationActiveV1 []\<rparr>"
  by (auto simp: observeActivated_def split: if_splits)

lemma observeWorkloadExit_Inr:
  assumes "observeWorkloadExit m t obs = Inr (m', t')"
  obtains status where "obWorkloadStatus obs = Some status" "validateProcessStatusV1 status False = None"
    "maState m \<noteq> StatePreparingV1"
    "psKind (maWorkload m) = ProcessStatusUnknownV1 \<or> maWorkload m = status"
    "(m', t') = (if maState m = StateActiveV1 then latchLocked CauseWorkloadExitV1 (m\<lparr>maWorkload := status\<rparr>, t)
       else (m\<lparr>maWorkload := status\<rparr>, t))"
  using assms that by (auto simp: observeWorkloadExit_def Let_def split: option.splits if_splits)

lemma observeHostCancel_Inr:
  "observeHostCancel m t obs = Inr mt \<Longrightarrow> mt = latchLocked CauseHostCancelV1 (m, t)"
  by (auto simp: observeHostCancel_def split: option.splits)

lemma observeControllerLost_Inr:
  assumes "observeControllerLost m t obs = Inr mt"
  obtains m1 where "validateOptionalSafeTextV1 (obReason obs)" "mt = latchLocked CauseControllerLostV1 (m1, t)"
    "m1 = m\<lparr>maController := if cfKind (maController m) \<in> {ControllerFinalizationUnknownV1, ControllerFinalizationActiveV1}
                       then controllerStatus ControllerFinalizationLostV1 (obReason obs) else maController m,
            maWaitingFinalize := False, maWaitingPublication := False\<rparr>"
proof -
  have "m\<lparr>maController := maController m\<rparr> = m" by simp
  then show thesis
    using assms that by (auto simp: observeControllerLost_def Let_def split: if_splits)
qed

lemma observeRuntimeObservationLost_Inr:
  assumes "observeRuntimeObservationLost m t obs = Inr (m', t')"
  obtains m1 m2 where "validateOptionalSafeTextV1 (obReason obs)" "latchLocked CauseRuntimeObservationLostV1 (m1, t) = (m2, t')"
    "m1 = m\<lparr>maRuntimeObservation := if roKind (maRuntimeObservation m) = RuntimeObservationLostV1 then maRuntimeObservation m
             else \<lparr>roKind = RuntimeObservationLostV1, roReason = obReason obs\<rparr>\<rparr>"
    "m' = finalizePreActivationOutputsForRuntimeObservationLossLocked (obReason obs) m2"
  using assms that by (auto simp: observeRuntimeObservationLost_def Let_def validateCauseObservationV1_def
      split: if_splits option.splits prod.splits)

lemma observeCleanupContainmentLost_Inr:
  "observeCleanupContainmentLost m t obs = Inr mt \<Longrightarrow> mt = latchLocked CauseCleanupContainmentLostV1 (m, t)"
  by (auto simp: observeCleanupContainmentLost_def split: option.splits)

lemma observeStartupFailure_Inr:
  assumes "observeStartupFailure m t obs = Inr (m', t')"
  obtains m2 where "validateRequiredSafeTextV1 (obReason obs)" "cfKind (maController m) = ControllerFinalizationUnknownV1"
    "latchLocked CauseStartupFailureV1 (m\<lparr>maController := controllerStatus ControllerFinalizationStartupFailedV1 (obReason obs)\<rparr>, t) = (m2, t')"
    "m' = m2\<lparr>maWorkloadOutputs := noOutputs, maWaitingOutputs := True\<rparr> \<or> m' = m2 \<or>
     (\<exists>status. validateWorkloadOutputFinalizationStatusV1 status = None \<and> m' = completeOutputFinalizationLocked status m2)"
  using assms that by (auto simp: observeStartupFailure_def split: if_splits option.splits prod.splits)

lemma observeOutputsFinalized_Inr:
  assumes "observeOutputsFinalized m t obs = Inr (m', t')"
  obtains status where "obWorkloadOutputs obs = Some status" "maWaitingOutputs m" "t' = t"
    "maActivated m \<and> psKind (maWorkload m) = ProcessStatusUnknownV1 \<longrightarrow>
       roKind (maRuntimeObservation m) = RuntimeObservationLostV1 \<and> woKind status = WorkloadOutputFinalizationFailedV1"
    "validateWorkloadOutputFinalizationStatusV1 status = None"
    "roKind (maRuntimeObservation m) = RuntimeObservationLostV1 \<longrightarrow> woKind status = WorkloadOutputFinalizationFailedV1"
    "m' = completeOutputFinalizationLocked status m"
  using assms that by (auto simp: observeOutputsFinalized_def validateWorkloadOutputFinalizationStatusV1_def
      split: if_splits option.splits WorkloadOutputFinalizationStatusKindV1.splits)

lemma observeOutputsPublished_Inr:
  "observeOutputsPublished m t obs = Inr (m', t') \<Longrightarrow> maState m = StateTerminatingV1 \<and> \<not> maWaitingOutputs m
     \<and> maWaitingPublication m \<and> t' = t
     \<and> m' = m\<lparr>maWaitingPublication := False, maWaitingFinalize :=
          (cfKind (maController m) = ControllerFinalizationActiveV1 \<and> granted m OperationCompleteV1)\<rparr>"
  by (auto simp: observeOutputsPublished_def granted_def split: if_splits)

lemma observeOutputsExpired_Inr:
  "observeOutputsExpired m t obs = Inr (m', t') \<Longrightarrow> maWaitingOutputs m \<and> validateRequiredSafeTextV1 (obReason obs) \<and> t' = t
     \<and> m' = completeOutputFinalizationLocked (failedOutputs (obReason obs)) m"
  by (auto simp: observeOutputsExpired_def split: if_splits)

lemma observeFinalizationExpired_Inr:
  "observeFinalizationExpired m t obs = Inr (m', t') \<Longrightarrow> maWaitingFinalize m \<and> t' = t
     \<and> m' = m\<lparr>maWaitingFinalize := False, maController := controllerStatus ControllerFinalizationTimeoutV1 []\<rparr>"
  by (auto simp: observeFinalizationExpired_def split: if_splits)

lemma observeFinished_Inr:
  assumes "observeFinished m t obs = Inr (m', t')"
  obtains f where "obFinish obs = Some f" "maState m = StateTerminatingV1" "\<not> maWaitingOutputs m"
    "\<not> maWaitingPublication m" "\<not> maWaitingFinalize m" "validateFinishV1 f = None"
    "psKind (maWorkload m) = ProcessStatusUnknownV1 \<or> fiWorkloadStatus f = maWorkload m"
    "fiWorkloadOutputs f = maWorkloadOutputs m" "validateControllerFinishLocked m (fiController f) = None"
    "ValidateResultV1 (finishResult m f) = None" "t' = t"
    "m' = m\<lparr>maWorkload := fiWorkloadStatus f, maController := fiController f,
           maResult := Some (finishResult m f), maState := StateTerminatedV1\<rparr>"
  using assms that by (auto simp: observeFinished_def split: if_splits option.splits)


section \<open>Every operation keeps the invariant\<close>

lemma observeActivated_OK:
  assumes "machineOK m" "observeActivated m t obs = Inr (m', t')"
  shows "machineOK m'"
  using assms(1) observeActivated_Inr[OF assms(2)]
  by (auto simp: machineOK_def quietOK_def observedOK_def validateOptionalSafeTextV1_def)

lemma observeWorkloadExit_OK:
  assumes "machineOK m" "trBefore t = maState m" "maState m \<noteq> StateTerminatedV1" "observeWorkloadExit m t obs = Inr (m', t')"
  shows "machineOK m'"
proof -
  from assms(4) obtain status where s: "validateProcessStatusV1 status False = None" "maState m \<noteq> StatePreparingV1"
    "psKind (maWorkload m) = ProcessStatusUnknownV1 \<or> maWorkload m = status"
    "(m', t') = (if maState m = StateActiveV1 then latchLocked CauseWorkloadExitV1 (m\<lparr>maWorkload := status\<rparr>, t)
       else (m\<lparr>maWorkload := status\<rparr>, t))"
    by (rule observeWorkloadExit_Inr)
  have known: "psKind status \<noteq> ProcessStatusUnknownV1" "validateProcessStatusV1 status True = None"
    using s(1) by (auto simp: validateProcessStatusV1_def split: ProcessStatusKindV1.splits if_splits)
  note running = machineOK_running[OF assms(1,3)]
  from assms(1,3) show ?thesis
  proof (cases rule: machineOK_cases)
    case Preparing
    then show ?thesis using s(2) by simp
  next
    case Active
    then have "machineOK (fst (latchLocked CauseWorkloadExitV1 (m\<lparr>maWorkload := status\<rparr>, t)))"
      using running known assms(2)
      by (intro latch_OK) (auto simp: latchable_def quietOK_def latchKinds_def observedOK_def)
    then show ?thesis using s(4) Active(1) by (metis fst_conv)
  next
    case Terminating
    have "causeOK (maCause m) r b c (psKind (maWorkload m)) g \<Longrightarrow> causeOK (maCause m) r b c (psKind status) g" for r b c g
      using s(3) known(1) by (cases "maCause m") auto
    then show ?thesis
      using s(4) Terminating running known(2)
      by (simp add: machineOK_terminating latchedOK_def observedOK_def settled_def granted_def)
  qed
qed

lemma observeControllerLost_OK:
  assumes "machineOK m" "trBefore t = maState m" "maState m \<noteq> StateTerminatedV1" "observeControllerLost m t obs = Inr (m', t')"
  shows "machineOK m'"
proof -
  from assms(4) obtain m1 where s: "validateOptionalSafeTextV1 (obReason obs)" "(m', t') = latchLocked CauseControllerLostV1 (m1, t)"
    "m1 = m\<lparr>maController := if cfKind (maController m) \<in> {ControllerFinalizationUnknownV1, ControllerFinalizationActiveV1}
                       then controllerStatus ControllerFinalizationLostV1 (obReason obs) else maController m,
            maWaitingFinalize := False, maWaitingPublication := False\<rparr>"
    by (rule observeControllerLost_Inr)
  note running = machineOK_running[OF assms(1,3)]
  have m': "m' = fst (latchLocked CauseControllerLostV1 (m1, t))" using s(2) by (metis fst_conv)
  show ?thesis
  proof (cases "maState m = StateTerminatingV1")
    case True
    then have t: "latchedOK m" "controllerOK (maActivated m) (maWaitingOutputs m) (cfKind (maController m))"
      using assms(1) by (simp_all add: machineOK_terminating)
    have "causeOK (maCause m) r b k p g \<Longrightarrow> k = ControllerFinalizationUnknownV1 \<or> k = ControllerFinalizationActiveV1 \<Longrightarrow>
        causeOK (maCause m) r b ControllerFinalizationLostV1 p g" for r b k p g
      by (cases "maCause m") auto
    then have "machineOK m1"
      using True t running s(1)
      by (auto simp: s(3) machineOK_terminating latchedOK_def observedOK_def settled_def granted_def controllerOK_def)
    moreover have "maCause m1 \<noteq> CauseEmpty" using latched_cause[OF t(1)] s(3) by simp
    ultimately show ?thesis by (simp add: m' latch_again)
  next
    case False
    note q = quiet_latchable[OF assms(1,3) False]
    show ?thesis
      unfolding m' using q running s(1) assms(2)
      by (intro latch_OK) (auto simp: s(3) latchable_def latchKinds_def observedOK_def)
  qed
qed

lemma completeOutput_OK:
  assumes "machineOK m" "maState m = StateTerminatingV1" "validateWorkloadOutputFinalizationStatusV1 status = None"
    "maActivated m \<Longrightarrow> maCause m = CauseRuntimeObservationLostV1 \<Longrightarrow> woKind status = WorkloadOutputFinalizationFailedV1"
    "cfKind (maController m) \<noteq> ControllerFinalizationUnknownV1 \<or> \<not> maActivated m"
  shows "machineOK (completeOutputFinalizationLocked status m)"
proof -
  have "causeOK (maCause m) r (settled m) k p g \<Longrightarrow>
      causeOK (maCause m) r (settled (completeOutputFinalizationLocked status m)) k p g" for r k p g
    using assms(4) by (cases "maCause m") (auto simp: settled_def completeOutputFinalizationLocked_def)
  then show ?thesis
    using assms(1,2,3,5)
    by (auto simp: machineOK_terminating completeOutputFinalizationLocked_def latchedOK_def outputsOK_def controllerOK_def granted_def split: if_splits)
qed

lemma observeOutputsPublished_OK:
  assumes "machineOK m" "observeOutputsPublished m t obs = Inr (m', t')"
  shows "machineOK m'"
  using assms(1) observeOutputsPublished_Inr[OF assms(2)]
  by (auto simp: machineOK_terminating latchedOK_def granted_def settled_def)

lemma observeFinalizationExpired_OK:
  assumes "machineOK m" "maState m \<noteq> StateTerminatedV1" "observeFinalizationExpired m t obs = Inr (m', t')"
  shows "machineOK m'"
proof -
  note e = observeFinalizationExpired_Inr[OF assms(3)]
  note running = machineOK_running[OF assms(1,2)]
  from assms(1,2) show ?thesis
  proof (cases rule: machineOK_cases)
    case Terminating
    have "causeOK (maCause m) r b ControllerFinalizationActiveV1 p g \<Longrightarrow> causeOK (maCause m) r b ControllerFinalizationTimeoutV1 p g" for r b p g
      by (cases "maCause m") auto
    then show ?thesis
      using Terminating e running by (auto simp: machineOK_terminating latchedOK_def observedOK_def settled_def granted_def
          controllerOK_def validateOptionalSafeTextV1_def split: if_splits)
  qed (use e in \<open>simp_all add: quietOK_def\<close>)
qed


lemma defaultLossReason_safe: "validateRequiredSafeTextV1 defaultLossReason"
  unfolding validateRequiredSafeTextV1_def
  by (rule conjI[OF _ safeText_printable]) (simp_all add: defaultLossReason_def printable_def)

lemma observeOutputsFinalized_OK:
  assumes "machineOK m" "maState m \<noteq> StateTerminatedV1" "observeOutputsFinalized m t obs = Inr (m', t')"
  shows "machineOK m'"
proof -
  from assms(3) obtain status where s: "maWaitingOutputs m" "validateWorkloadOutputFinalizationStatusV1 status = None"
    "roKind (maRuntimeObservation m) = RuntimeObservationLostV1 \<longrightarrow> woKind status = WorkloadOutputFinalizationFailedV1"
    "m' = completeOutputFinalizationLocked status m"
    by (rule observeOutputsFinalized_Inr)
  from assms(1,2) show ?thesis
  proof (cases rule: machineOK_cases)
    case Terminating
    then have "maCause m = CauseRuntimeObservationLostV1 \<Longrightarrow> roKind (maRuntimeObservation m) = RuntimeObservationLostV1"
      by (simp add: latchedOK_def)
    then show ?thesis
      unfolding s(4) using Terminating s by (intro completeOutput_OK assms(1)) (auto simp: controllerOK_def)
  qed (use s(1) in \<open>simp_all add: quietOK_def\<close>)
qed

lemma observeOutputsExpired_OK:
  assumes "machineOK m" "maState m \<noteq> StateTerminatedV1" "observeOutputsExpired m t obs = Inr (m', t')"
  shows "machineOK m'"
proof -
  note e = observeOutputsExpired_Inr[OF assms(3)]
  from assms(1,2) show ?thesis
  proof (cases rule: machineOK_cases)
    case Terminating
    then show ?thesis
      using e by (auto intro!: completeOutput_OK assms(1) simp: validateWorkloadOutputFinalizationStatusV1_def controllerOK_def)
  qed (use e in \<open>simp_all add: quietOK_def\<close>)
qed

lemma observeRuntimeObservationLost_OK:
  assumes "machineOK m" "trBefore t = maState m" "maState m \<noteq> StateTerminatedV1" "observeRuntimeObservationLost m t obs = Inr (m', t')"
  shows "machineOK m'"
proof -
  let ?ro = "if roKind (maRuntimeObservation m) = RuntimeObservationLostV1 then maRuntimeObservation m
             else \<lparr>roKind = RuntimeObservationLostV1, roReason = obReason obs\<rparr>"
  from assms(4) obtain m1 m2 where s: "validateOptionalSafeTextV1 (obReason obs)"
    "latchLocked CauseRuntimeObservationLostV1 (m1, t) = (m2, t')" "m1 = m\<lparr>maRuntimeObservation := ?ro\<rparr>"
    "m' = finalizePreActivationOutputsForRuntimeObservationLossLocked (obReason obs) m2"
    by (rule observeRuntimeObservationLost_Inr)
  note running = machineOK_running[OF assms(1,3)]
  have ro: "roKind ?ro = RuntimeObservationLostV1" "validateRuntimeObservationStatusV1 ?ro = None"
    using s(1) running by (auto simp: validateRuntimeObservationStatusV1_def observedOK_def split: if_splits)
  have m2: "m2 = fst (latchLocked CauseRuntimeObservationLostV1 (m1, t))" using s(2) by simp
  have "machineOK m2 \<and> maState m2 = StateTerminatingV1"
  proof (cases "maState m = StateTerminatingV1")
    case True
    then have l: "latchedOK m" using assms(1) by (simp add: machineOK_terminating)
    have "causeOK (maCause m) r b c p g \<Longrightarrow> causeOK (maCause m) RuntimeObservationLostV1 b c p g" for r b c p g
      by (cases "maCause m") auto
    then have "causeOK (maCause m) RuntimeObservationLostV1 (settled m) (cfKind (maController m)) (psKind (maWorkload m))
        (granted m OperationTerminateV1)"
      using l by (auto simp: latchedOK_def)
    then have "machineOK m1"
      using True l assms(1) running ro
      by (simp add: s(3) machineOK_terminating latchedOK_def observedOK_def settled_def granted_def)
    moreover have "maCause m1 \<noteq> CauseEmpty" using latched_cause[OF l] s(3) by simp
    ultimately show ?thesis using True by (simp add: m2 latch_again s(3))
  next
    case False
    note q = quiet_latchable[OF assms(1,3) False]
    have "machineOK m2"
      unfolding m2 using q running ro assms(2)
      by (intro latch_OK) (auto simp: s(3) latchable_def latchKinds_def observedOK_def)
    moreover have "maCause m1 = CauseEmpty" using q(1) s(3) by (simp add: latchable_def)
    ultimately show ?thesis by (simp add: m2 latch_first)
  qed
  then show ?thesis
    using s(1,4) defaultLossReason_safe
    by (auto simp: finalizePreActivationOutputsForRuntimeObservationLossLocked_def validateOptionalSafeTextV1_def
        validateRequiredSafeTextV1_def validateWorkloadOutputFinalizationStatusV1_def intro!: completeOutput_OK)
qed

lemma observeStartupFailure_OK:
  assumes "machineOK m" "trBefore t = maState m" "maState m \<noteq> StateTerminatedV1" "observeStartupFailure m t obs = Inr (m', t')"
  shows "machineOK m'"
proof -
  from assms(4) obtain m2 where s: "validateRequiredSafeTextV1 (obReason obs)" "cfKind (maController m) = ControllerFinalizationUnknownV1"
    "latchLocked CauseStartupFailureV1 (m\<lparr>maController := controllerStatus ControllerFinalizationStartupFailedV1 (obReason obs)\<rparr>, t) = (m2, t')"
    "m' = m2\<lparr>maWorkloadOutputs := noOutputs, maWaitingOutputs := True\<rparr> \<or> m' = m2 \<or>
     (\<exists>status. validateWorkloadOutputFinalizationStatusV1 status = None \<and> m' = completeOutputFinalizationLocked status m2)"
    by (rule observeStartupFailure_Inr)
  let ?m1 = "m\<lparr>maController := controllerStatus ControllerFinalizationStartupFailedV1 (obReason obs)\<rparr>"
  note running = machineOK_running[OF assms(1,3)]
  have m2: "m2 = fst (latchLocked CauseStartupFailureV1 (?m1, t))" using s(3) by simp
  have unactivated: "\<not> maActivated m"
    using assms(1,3) by (cases rule: machineOK_cases) (use s(2) in \<open>auto simp: quietOK_def controllerOK_def\<close>)
  have safe: "validateOptionalSafeTextV1 (obReason obs)"
    using s(1) by (simp add: validateRequiredSafeTextV1_def validateOptionalSafeTextV1_def)
  have "machineOK m2 \<and> maState m2 = StateTerminatingV1 \<and> \<not> maActivated m2 \<and> \<not> maWaitingPublication m2 \<and> \<not> maWaitingFinalize m2
    \<and> cfKind (maController m2) = ControllerFinalizationStartupFailedV1"
  proof (cases "maState m = StateTerminatingV1")
    case True
    then have l: "latchedOK m" using assms(1) by (simp add: machineOK_terminating)
    have "causeOK (maCause m) r b ControllerFinalizationUnknownV1 p g \<Longrightarrow>
        causeOK (maCause m) r b ControllerFinalizationStartupFailedV1 p g" for r b p g
      by (cases "maCause m") auto
    then have "machineOK ?m1"
      using True l assms(1) running unactivated s(2) safe
      by (simp add: machineOK_terminating latchedOK_def observedOK_def settled_def granted_def controllerOK_def)
    moreover have "maCause ?m1 \<noteq> CauseEmpty" using latched_cause[OF l] by simp
    moreover have "\<not> maWaitingPublication m \<and> \<not> maWaitingFinalize m" using l s(2) by (auto simp: latchedOK_def)
    ultimately show ?thesis using True unactivated by (simp add: m2 latch_again)
  next
    case False
    note q = quiet_latchable[OF assms(1,3) False]
    have "machineOK m2"
      unfolding m2 using q running assms(2) unactivated safe
      by (intro latch_OK) (auto simp: latchable_def latchKinds_def observedOK_def)
    moreover have "maCause ?m1 = CauseEmpty" using q(1) by (simp add: latchable_def)
    ultimately show ?thesis using q(1) unactivated by (simp add: m2 latch_first latchable_def)
  qed
  then show ?thesis
    using s(4) by (auto simp: machineOK_terminating latchedOK_def settled_def granted_def controllerOK_def intro!: completeOutput_OK)
qed

lemma observeFinished_OK:
  assumes "machineOK m" "observeFinished m t obs = Inr (m', t')"
  shows "machineOK m'"
proof -
  from assms(2) obtain f where f: "maState m = StateTerminatingV1" "\<not> maWaitingOutputs m"
    "\<not> maWaitingPublication m" "\<not> maWaitingFinalize m" "validateFinishV1 f = None"
    "psKind (maWorkload m) = ProcessStatusUnknownV1 \<or> fiWorkloadStatus f = maWorkload m"
    "fiWorkloadOutputs f = maWorkloadOutputs m" "validateControllerFinishLocked m (fiController f) = None"
    "ValidateResultV1 (finishResult m f) = None"
    "m' = m\<lparr>maWorkload := fiWorkloadStatus f, maController := fiController f,
           maResult := Some (finishResult m f), maState := StateTerminatedV1\<rparr>"
    by (rule observeFinished_Inr)
  have l: "latchedOK m" and obs: "observedOK (maWorkload m) (maRuntimeObservation m) (maController m)"
    using assms(1) f(1) by (simp_all add: machineOK_terminating)
  have controller: "fiController f = maController m \<or>
      cfKind (maController m) \<in> {ControllerFinalizationActiveV1, ControllerFinalizationUnknownV1} \<and>
      cfKind (fiController f) = ControllerFinalizationNotCompletedV1"
    using f(8) by (auto simp: validateControllerFinishLocked_def split: if_splits)
  have "observedOK (fiWorkloadStatus f) (maRuntimeObservation m) (fiController f)"
    using f(5) obs by (auto simp: validateFinishV1_def observedOK_def validateTerminalControllerFinalizationStatusV1_def split: if_splits)
  moreover have "causeOK (maCause m) r b (cfKind (maController m)) (psKind (maWorkload m)) g \<Longrightarrow>
      causeOK (maCause m) r b (cfKind (fiController f)) (psKind (fiWorkloadStatus f)) g" for r b g
    using f(6) controller by (cases "maCause m") auto
  then have "latchedOK m'"
    using l f controller by (auto simp: latchedOK_def settled_def granted_def)
  moreover have "resultOK m'"
    using f(7,9,10) by (auto simp: resultOK_def finishResult_def)
  ultimately show ?thesis
    using f machineOK_running[OF assms(1)] by (simp add: machineOK_def)
qed


lemma observeHostCancel_OK:
  assumes "machineOK m" "trBefore t = maState m" "maState m \<noteq> StateTerminatedV1" "observeHostCancel m t obs = Inr (m', t')"
  shows "machineOK m'"
  using cause_latch_OK[OF assms(1,3,2), of CauseHostCancelV1] observeHostCancel_Inr[OF assms(4)] by (metis fst_conv insertI1)

lemma observeCleanupContainmentLost_OK:
  assumes "machineOK m" "trBefore t = maState m" "maState m \<noteq> StateTerminatedV1" "observeCleanupContainmentLost m t obs = Inr (m', t')"
  shows "machineOK m'"
  using cause_latch_OK[OF assms(1,3,2), of CauseCleanupContainmentLostV1] observeCleanupContainmentLost_Inr[OF assms(4)]
  by (metis fst_conv insertCI)

lemma observeKind_OK:
  assumes "machineOK m" "trBefore t = maState m" "maState m \<noteq> StateTerminatedV1" "observeKind kind m t obs = Inr (m', t')"
  shows "machineOK m'"
  using assms(4)
  by (cases kind; simp; elim observeActivated_OK[OF assms(1)] observeWorkloadExit_OK[OF assms(1-3)]
      observeHostCancel_OK[OF assms(1-3)] observeControllerLost_OK[OF assms(1-3)]
      observeRuntimeObservationLost_OK[OF assms(1-3)] observeCleanupContainmentLost_OK[OF assms(1-3)]
      observeStartupFailure_OK[OF assms(1-3)] observeOutputsFinalized_OK[OF assms(1,3)]
      observeOutputsPublished_OK[OF assms(1)] observeOutputsExpired_OK[OF assms(1,3)]
      observeFinalizationExpired_OK[OF assms(1,3)] observeFinished_OK[OF assms(1)])

section \<open>Steps\<close>

text \<open>One operation on the machine: an observation, or a request with or without the discard of terminal input.\<close>

datatype event = Observed ObservationV1 | Requested RequestV1 bool

fun stepped :: "MachineV1 \<Rightarrow> event \<Rightarrow> MachineV1" where
  "stepped m (Observed obs) = fst (Observe m obs)"
| "stepped m (Requested r discard) = fst (applyRequestV1 m r discard)"

inductive evolves :: "MachineV1 \<Rightarrow> MachineV1 \<Rightarrow> bool" where
  rest: "evolves m m"
| more: "evolves m m' \<Longrightarrow> evolves m (stepped m' event)"

definition reachable :: "MachineV1 \<Rightarrow> bool" where
  "reachable m \<longleftrightarrow> (\<exists>authorization m0. NewMachineV1 authorization = Inr m0 \<and> evolves m0 m)"

text \<open>
  What holds between the machines before and after every operation follows from what holds for
  each accepted one; a refused operation leaves the machine as it is.
\<close>

locale machine_relation =
  fixes R :: "MachineV1 \<Rightarrow> MachineV1 \<Rightarrow> bool"
  assumes refl: "R m m"
    and trans: "R m1 m2 \<Longrightarrow> R m2 m3 \<Longrightarrow> R m1 m3"
    and observed: "machineOK m \<Longrightarrow> maState m \<noteq> StateTerminatedV1 \<Longrightarrow>
      observeKind kind m (startTransition m) obs = Inr (m', t') \<Longrightarrow> R m m'"
    and delivered: "machineOK m \<Longrightarrow> maState m = StateTerminatedV1 \<Longrightarrow> R m (m\<lparr>maResultDelivered := True\<rparr>)"
    and acknowledged: "machineOK m \<Longrightarrow> maState m = StateTerminatedV1 \<Longrightarrow> maResultDelivered m \<Longrightarrow> R m (m\<lparr>maResultAcknowledged := True\<rparr>)"
    and terminated: "machineOK m \<Longrightarrow> maState m = StateActiveV1 \<Longrightarrow> granted m OperationTerminateV1 \<Longrightarrow>
      R m (fst (latchLocked CauseControllerTerminateV1 (m, startTransition m)))"
    and completed: "machineOK m \<Longrightarrow> maState m = StateTerminatingV1 \<Longrightarrow> maWaitingFinalize m \<Longrightarrow> granted m OperationCompleteV1 \<Longrightarrow>
      R m (m\<lparr>maWaitingFinalize := False, maController := controllerStatus ControllerFinalizationCompletedV1 []\<rparr>)"
begin

lemma Observe_step: "machineOK m \<Longrightarrow> R m (fst (Observe m obs))"
  using refl observed[of m "obKind obs" obs] delivered
  by (auto simp: Observe_def Let_def split: sum.splits prod.splits)

lemma request_step:
  assumes "machineOK m"
  shows "R m (fst (applyRequestV1 m r discard))"
proof -
  have active: "requestActive m (startTransition m) (rqKind r) = Inr (m', t') \<Longrightarrow> maState m = StateActiveV1 \<Longrightarrow>
      granted m (operationForRequestV1 (rqKind r)) \<Longrightarrow> R m m'" for m' t'
    using refl terminated[OF assms] by (cases "rqKind r") (auto simp: requestActive_def prod_eq_iff)
  have complete: "requestComplete m (startTransition m) = Inr (m', t') \<Longrightarrow> maState m = StateTerminatingV1 \<Longrightarrow>
      granted m OperationCompleteV1 \<Longrightarrow> R m m'" for m' t'
    using completed[OF assms] by (auto simp: requestComplete_def split: if_splits)
  show ?thesis
    using refl acknowledged[OF assms] active complete
    by (auto simp: applyRequestV1_def Let_def granted_def split: option.splits sum.splits StateV1.splits prod.splits)
qed

lemma step: "machineOK m \<Longrightarrow> R m (stepped m event)"
  using Observe_step request_step by (cases event) auto

end

interpretation invariant: machine_relation "\<lambda>m m'. machineOK m \<longrightarrow> machineOK m'"
proof
  show "machineOK m \<longrightarrow> machineOK m'"
    if "machineOK m" "maState m \<noteq> StateTerminatedV1" "observeKind kind m (startTransition m) obs = Inr (m', t')" for m kind obs m' t'
    using that observeKind_OK[of m "startTransition m" kind obs m' t'] by (simp add: startTransition_def)
  show "machineOK m \<longrightarrow> machineOK (fst (latchLocked CauseControllerTerminateV1 (m, startTransition m)))"
    if "machineOK m" "maState m = StateActiveV1" "granted m OperationTerminateV1" for m
    using that by (intro impI cause_latch_OK) (auto simp: startTransition_def)
  show "machineOK m \<longrightarrow> machineOK (m\<lparr>maWaitingFinalize := False, maController := controllerStatus ControllerFinalizationCompletedV1 []\<rparr>)"
    if "machineOK m" "maState m = StateTerminatingV1" "maWaitingFinalize m" "granted m OperationCompleteV1" for m
  proof -
    have "causeOK (maCause m) r b ControllerFinalizationActiveV1 p g \<Longrightarrow> causeOK (maCause m) r b ControllerFinalizationCompletedV1 p g" for r b p g
      by (cases "maCause m") auto
    then show ?thesis
      using that by (auto simp: machineOK_terminating latchedOK_def observedOK_def settled_def granted_def controllerOK_def
          validateOptionalSafeTextV1_def split: if_splits)
  qed
qed (auto simp: machineOK_def latchedOK_def resultOK_def settled_def granted_def)

lemma evolves_OK: "evolves m m' \<Longrightarrow> machineOK m \<Longrightarrow> machineOK m'"
  by (induction rule: evolves.induct) (auto dest: invariant.step)

lemma NewMachine_OK: "NewMachineV1 a = Inr m \<Longrightarrow> machineOK m"
  by (auto simp: NewMachineV1_def machineOK_def observedOK_def quietOK_def validateProcessStatusV1_def unknownProcess_def
      validateRuntimeObservationStatusV1_def validateOptionalSafeTextV1_def split: option.splits)

lemma reachable_OK: "reachable m \<Longrightarrow> machineOK m"
  using evolves_OK NewMachine_OK by (auto simp: reachable_def)

context machine_relation
begin

lemma evolves_rel: "evolves m m' \<Longrightarrow> machineOK m \<Longrightarrow> R m m'"
  by (induction rule: evolves.induct) (auto intro: refl trans step dest: evolves_OK)

end

end
