(* ===== verification/SessionLifecycleOrder.thy ===== *)
theory SessionLifecycleOrder
  imports SessionLifecycleProofs
begin

text \<open>
  Relations between the machines before and after an operation: what is recorded once stays, and
  the lifecycle only moves forward. Both are interpretations of the locale of
  \<open>SessionLifecycleProofs\<close>. The last section shows that a session can be brought to its end
  from every state: the controller and the runtime are given up, the outputs expire, and the
  machine accepts the finish.
\<close>

section \<open>What is recorded stays\<close>

definition factsKept :: "MachineV1 \<Rightarrow> MachineV1 \<Rightarrow> bool" where
  "factsKept m m' \<longleftrightarrow> maAuthorization m' = maAuthorization m
     \<and> (maActivated m \<longrightarrow> maActivated m')
     \<and> (maCause m \<noteq> CauseEmpty \<longrightarrow> maCause m' = maCause m)
     \<and> (psKind (maWorkload m) \<noteq> ProcessStatusUnknownV1 \<longrightarrow> maWorkload m' = maWorkload m)
     \<and> (roKind (maRuntimeObservation m) = RuntimeObservationLostV1 \<longrightarrow> maRuntimeObservation m' = maRuntimeObservation m)
     \<and> (maResult m \<noteq> None \<longrightarrow> maResult m' = maResult m)"

lemma factsKept_refl: "factsKept m m"
  by (simp add: factsKept_def)

lemma factsKept_trans: "factsKept m1 m2 \<Longrightarrow> factsKept m2 m3 \<Longrightarrow> factsKept m1 m3"
  by (auto simp: factsKept_def)

lemma factsKept_latch: "factsKept m (fst (latchLocked cause (m, t)))"
  by (simp add: factsKept_def latchLocked_def Let_def)

lemma factsKept_latched: "factsKept m m1 \<Longrightarrow> mt = latchLocked cause (m1, t) \<Longrightarrow> factsKept m (fst mt)"
  using factsKept_latch factsKept_trans by blast

lemma factsKept_latch_pair: "latchLocked cause (m1, t) = (m2, t') \<Longrightarrow> factsKept m m1 \<Longrightarrow> factsKept m m2"
  using factsKept_latched[of m m1 "(m2, t')" cause t] by simp

lemma factsKept_complete: "factsKept m (completeOutputFinalizationLocked status m)"
  by (simp add: factsKept_def completeOutputFinalizationLocked_def)

lemma observeKind_facts:
  assumes "maResult m = None" "observeKind kind m t obs = Inr (m', t')"
  shows "factsKept m m'"
proof (cases kind)
  case ObservationActivatedV1
  then show ?thesis using assms(2) by (auto dest!: observeActivated_Inr simp: factsKept_def)
next
  case ObservationWorkloadExitV1
  with assms(2) obtain status where s: "psKind (maWorkload m) = ProcessStatusUnknownV1 \<or> maWorkload m = status"
    "(m', t') = (if maState m = StateActiveV1 then latchLocked CauseWorkloadExitV1 (m\<lparr>maWorkload := status\<rparr>, t)
       else (m\<lparr>maWorkload := status\<rparr>, t))"
    by (auto elim: observeWorkloadExit_Inr)
  have "factsKept m (m\<lparr>maWorkload := status\<rparr>)" using s(1) by (auto simp: factsKept_def)
  then show ?thesis using s(2) factsKept_latched by (metis fst_conv)
next
  case ObservationHostCancelV1
  then show ?thesis using assms(2) factsKept_latch by (metis observeHostCancel_Inr observeKind.simps(3) fst_conv)
next
  case ObservationCleanupContainmentLostV1
  then show ?thesis using assms(2) factsKept_latch by (metis observeCleanupContainmentLost_Inr observeKind.simps(6) fst_conv)
next
  case ObservationControllerLostV1
  then have "observeControllerLost m t obs = Inr (m', t')" using assms(2) by simp
  then show ?thesis
    by (rule observeControllerLost_Inr) (auto dest!: factsKept_latched[rotated, where m = m] simp: factsKept_def)
next
  case ObservationRuntimeObservationLostV1
  then have "observeRuntimeObservationLost m t obs = Inr (m', t')" using assms(2) by simp
  then obtain m1 m2 where "latchLocked CauseRuntimeObservationLostV1 (m1, t) = (m2, t')" "factsKept m m1"
    "m' = finalizePreActivationOutputsForRuntimeObservationLossLocked (obReason obs) m2"
    by (rule observeRuntimeObservationLost_Inr) (auto simp: factsKept_def)
  then have "factsKept m m2" "factsKept m2 m'"
    using factsKept_latch_pair factsKept_complete factsKept_refl
    by (blast, simp add: finalizePreActivationOutputsForRuntimeObservationLossLocked_def)
  then show ?thesis by (rule factsKept_trans)
next
  case ObservationStartupFailureV1
  then have "observeStartupFailure m t obs = Inr (m', t')" using assms(2) by simp
  then obtain m2 where s:
    "latchLocked CauseStartupFailureV1 (m\<lparr>maController := controllerStatus ControllerFinalizationStartupFailedV1 (obReason obs)\<rparr>, t) = (m2, t')"
    "m' = m2\<lparr>maWorkloadOutputs := noOutputs, maWaitingOutputs := True\<rparr> \<or> m' = m2 \<or>
     (\<exists>status. validateWorkloadOutputFinalizationStatusV1 status = None \<and> m' = completeOutputFinalizationLocked status m2)"
    by (rule observeStartupFailure_Inr)
  have "factsKept m m2" by (rule factsKept_latch_pair[OF s(1)]) (simp add: factsKept_def)
  moreover have "factsKept m2 m'"
    using s(2) by (auto simp: factsKept_def completeOutputFinalizationLocked_def)
  ultimately show ?thesis by (rule factsKept_trans)
next
  case ObservationWorkloadOutputsFinalizedV1
  then show ?thesis using assms(2) factsKept_complete by (auto elim: observeOutputsFinalized_Inr)
next
  case ObservationWorkloadOutputFinalizationExpiredV1
  then show ?thesis using assms(2) factsKept_complete by (auto dest!: observeOutputsExpired_Inr)
next
  case ObservationFinishedV1
  then have "observeFinished m t obs = Inr (m', t')" using assms(2) by simp
  then show ?thesis by (rule observeFinished_Inr) (use assms(1) in \<open>auto simp: factsKept_def\<close>)
qed (use assms(2) in \<open>auto dest!: observeOutputsPublished_Inr observeFinalizationExpired_Inr simp: factsKept_def\<close>)

interpretation facts: machine_relation factsKept
proof
  show "factsKept m m'"
    if "machineOK m" "maState m \<noteq> StateTerminatedV1" "observeKind kind m (startTransition m) obs = Inr (m', t')" for m kind obs m' t'
    using that machineOK_running observeKind_facts by blast
  show "factsKept m1 m3" if "factsKept m1 m2" "factsKept m2 m3" for m1 m2 m3
    using that by (rule factsKept_trans)
qed (simp_all add: factsKept_refl factsKept_latch, simp_all add: factsKept_def)

section \<open>The order of the lifecycle\<close>

text \<open>
  The stage a session has reached: preparing, active, terminating before the controller is
  accounted for, outputs, publication and the controller's completion awaited, ready to finish,
  terminated, delivered, acknowledged.
\<close>

definition stage :: "MachineV1 \<Rightarrow> nat" where
  "stage m =
     (case maState m of
        StatePreparingV1 \<Rightarrow> 0
      | StateActiveV1 \<Rightarrow> 1
      | StateTerminatingV1 \<Rightarrow>
          (if maWaitingOutputs m then 3 else if maWaitingPublication m then 4 else if maWaitingFinalize m then 5
           else if cfKind (maController m) = ControllerFinalizationUnknownV1 then 2 else 6)
      | StateTerminatedV1 \<Rightarrow> (if maResultAcknowledged m then 9 else if maResultDelivered m then 8 else 7)
      | StateOther _ \<Rightarrow> 0)"

lemma latch_state: "maState (fst (latchLocked cause (m, t))) \<in> {maState m, StateTerminatingV1}"
  by (simp add: latchLocked_def Let_def)

lemma latch_state_pair: "latchLocked cause (m, t) = (m', t') \<Longrightarrow> maState m' \<in> {maState m, StateTerminatingV1}"
  using latch_state by (metis fst_conv)

lemma complete_state [simp]: "maState (completeOutputFinalizationLocked status m) = maState m"
  by (simp add: completeOutputFinalizationLocked_def)

lemma observeKind_state:
  assumes "observeKind kind m t obs = Inr (m', t')" "maState m = StateActiveV1"
  shows "maState m' \<in> {StateActiveV1, StateTerminatingV1}"
proof (cases kind)
  case ObservationWorkloadExitV1
  then have "observeWorkloadExit m t obs = Inr (m', t')" using assms(1) by simp
  then show ?thesis by (rule observeWorkloadExit_Inr) (use assms(2) in \<open>auto dest!: latch_state_pair[OF sym]\<close>)
next
  case ObservationControllerLostV1
  then have "observeControllerLost m t obs = Inr (m', t')" using assms(1) by simp
  then show ?thesis by (rule observeControllerLost_Inr) (use assms(2) in \<open>auto dest!: latch_state_pair[OF sym]\<close>)
next
  case ObservationRuntimeObservationLostV1
  then have "observeRuntimeObservationLost m t obs = Inr (m', t')" using assms(1) by simp
  then show ?thesis
    by (rule observeRuntimeObservationLost_Inr)
      (use assms(2) in \<open>auto dest!: latch_state_pair simp: finalizePreActivationOutputsForRuntimeObservationLossLocked_def\<close>)
next
  case ObservationStartupFailureV1
  then have "observeStartupFailure m t obs = Inr (m', t')" using assms(1) by simp
  then show ?thesis by (rule observeStartupFailure_Inr) (use assms(2) in \<open>auto dest!: latch_state_pair\<close>)
next
  case ObservationWorkloadOutputsFinalizedV1
  then have "observeOutputsFinalized m t obs = Inr (m', t')" using assms(1) by simp
  then show ?thesis by (rule observeOutputsFinalized_Inr) (use assms(2) in simp)
next
  case ObservationFinishedV1
  then have "observeFinished m t obs = Inr (m', t')" using assms(1) by simp
  then show ?thesis by (rule observeFinished_Inr) (use assms(2) in simp)
qed (use assms in \<open>auto dest!: observeActivated_Inr observeHostCancel_Inr observeCleanupContainmentLost_Inr
  observeOutputsPublished_Inr observeOutputsExpired_Inr observeFinalizationExpired_Inr dest: latch_state_pair[OF sym]\<close>)

lemma stage_complete:
  assumes "maState m = StateTerminatingV1" "cfKind (maController m) \<noteq> ControllerFinalizationUnknownV1"
  shows "4 \<le> stage (completeOutputFinalizationLocked status m)"
  using assms by (simp add: stage_def completeOutputFinalizationLocked_def)

lemma stage_preActivation:
  assumes "maState m = StateTerminatingV1" "latchedOK m" "controllerOK (maActivated m) (maWaitingOutputs m) (cfKind (maController m))"
  shows "stage m \<le> stage (finalizePreActivationOutputsForRuntimeObservationLossLocked reason m)"
proof (cases "maActivated m \<or> woKind (maWorkloadOutputs m) \<noteq> WorkloadOutputFinalizationDrainedV1")
  case True
  then show ?thesis by (auto simp: finalizePreActivationOutputsForRuntimeObservationLossLocked_def)
next
  case False
  then have "cfKind (maController m) \<noteq> ControllerFinalizationActiveV1" "\<not> maWaitingOutputs m"
    using assms(2,3) by (auto simp: controllerOK_def latchedOK_def outputsOK_def)
  then show ?thesis
    using assms(1,2) by (simp add: finalizePreActivationOutputsForRuntimeObservationLossLocked_def stage_def
        completeOutputFinalizationLocked_def latchedOK_def)
qed

lemma stage_terminating:
  assumes "machineOK m" "maState m = StateTerminatingV1" "observeKind kind m t obs = Inr (m', t')"
  shows "stage m \<le> stage m'"
proof -
  have l: "latchedOK m" "controllerOK (maActivated m) (maWaitingOutputs m) (cfKind (maController m))"
    using assms(1,2) by (simp_all add: machineOK_terminating)
  have c: "maCause m \<noteq> CauseEmpty" using l(1) by (rule latched_cause)
  have awaited: "maWaitingOutputs m \<Longrightarrow> stage m = 3 \<and> cfKind (maController m) \<noteq> ControllerFinalizationUnknownV1"
    using l(2) assms(2) by (auto simp: stage_def controllerOK_def split: if_splits)
  show ?thesis
  proof (cases kind)
    case ObservationWorkloadExitV1
    then have "observeWorkloadExit m t obs = Inr (m', t')" using assms(3) by simp
    then show ?thesis by (rule observeWorkloadExit_Inr) (use assms(2) in \<open>simp add: stage_def\<close>)
  next
    case ObservationControllerLostV1
    then have "observeControllerLost m t obs = Inr (m', t')" using assms(3) by simp
    then show ?thesis by (rule observeControllerLost_Inr) (use assms(2) c in \<open>simp add: latch_again stage_def\<close>)
  next
    case ObservationRuntimeObservationLostV1
    then have "observeRuntimeObservationLost m t obs = Inr (m', t')" using assms(3) by simp
    then obtain ro where m': "m' = finalizePreActivationOutputsForRuntimeObservationLossLocked (obReason obs) (m\<lparr>maRuntimeObservation := ro\<rparr>)"
        "roKind ro = RuntimeObservationLostV1"
      by (rule observeRuntimeObservationLost_Inr) (use c in \<open>auto simp: latch_again split: if_splits\<close>)
    let ?m1 = "m\<lparr>maRuntimeObservation := ro\<rparr>"
    have "causeOK (maCause m) r b k p g \<Longrightarrow> causeOK (maCause m) (roKind ro) b k p g" for r b k p g
      using m'(2) by (cases "maCause m") auto
    then have "latchedOK ?m1" using l(1) by (auto simp: latchedOK_def settled_def granted_def)
    then have "stage ?m1 \<le> stage m'" unfolding m'(1) using assms(2) l(2) by (intro stage_preActivation) simp_all
    moreover have "stage ?m1 = stage m" by (simp add: stage_def)
    ultimately show ?thesis by simp
  next
    case ObservationStartupFailureV1
    then have "observeStartupFailure m t obs = Inr (m', t')" using assms(3) by simp
    then obtain m2 where s: "cfKind (maController m) = ControllerFinalizationUnknownV1"
      "latchLocked CauseStartupFailureV1 (m\<lparr>maController := controllerStatus ControllerFinalizationStartupFailedV1 (obReason obs)\<rparr>, t) = (m2, t')"
      "m' = m2\<lparr>maWorkloadOutputs := noOutputs, maWaitingOutputs := True\<rparr> \<or> m' = m2 \<or>
       (\<exists>status. validateWorkloadOutputFinalizationStatusV1 status = None \<and> m' = completeOutputFinalizationLocked status m2)"
      by (rule observeStartupFailure_Inr)
    have m2: "m2 = m\<lparr>maController := controllerStatus ControllerFinalizationStartupFailedV1 (obReason obs)\<rparr>"
      using s(2) c by (simp add: latch_again)
    have "stage m = 2" using l assms(2) s(1) by (auto simp: stage_def latchedOK_def controllerOK_def split: if_splits)
    moreover have "3 \<le> stage m'"
      using s(3) assms(2) m2 by (auto simp: stage_def completeOutputFinalizationLocked_def)
    ultimately show ?thesis by simp
  next
    case ObservationWorkloadOutputsFinalizedV1
    then have "observeOutputsFinalized m t obs = Inr (m', t')" using assms(3) by simp
    then obtain status where "maWaitingOutputs m" "m' = completeOutputFinalizationLocked status m"
      by (rule observeOutputsFinalized_Inr)
    then show ?thesis using awaited stage_complete[OF assms(2), of status] by simp
  next
    case ObservationWorkloadOutputFinalizationExpiredV1
    then show ?thesis
      using assms(3) awaited stage_complete[OF assms(2), of "failedOutputs (obReason obs)"] by (auto dest!: observeOutputsExpired_Inr)
  next
    case ObservationFinishedV1
    then have "observeFinished m t obs = Inr (m', t')" using assms(3) by simp
    then show ?thesis by (rule observeFinished_Inr) (simp add: stage_def)
  next
    case ObservationHostCancelV1
    then show ?thesis using assms(3) observeHostCancel_Inr[of m t obs "(m', t')"] c by (simp add: latch_again)
  next
    case ObservationCleanupContainmentLostV1
    then show ?thesis using assms(3) observeCleanupContainmentLost_Inr[of m t obs "(m', t')"] c by (simp add: latch_again)
  next
    case ObservationWorkloadOutputsPublishedV1
    then show ?thesis using assms(3) observeOutputsPublished_Inr[of m t obs m' t'] l(1) by (auto simp: stage_def latchedOK_def)
  next
    case ObservationControllerFinalizationExpiredV1
    then show ?thesis
      using assms(3) observeFinalizationExpired_Inr[of m t obs m' t'] l(1) assms(2) by (auto simp: stage_def latchedOK_def)
  next
    case ObservationActivatedV1
    then show ?thesis using assms(2,3) observeActivated_Inr[of m t obs m' t'] by simp
  qed (use assms(3) in simp_all)
qed

lemma stage_least:
  assumes "maState m \<in> {StateActiveV1, StateTerminatingV1, StateTerminatedV1}"
  shows "1 \<le> stage m"
  using assms by (auto simp: stage_def)

lemma observeKind_stage:
  assumes "machineOK m" "maState m \<noteq> StateTerminatedV1" "observeKind kind m t obs = Inr (m', t')"
  shows "stage m \<le> stage m'"
  using assms(1,2)
proof (cases rule: machineOK_cases)
  case Preparing
  then show ?thesis by (simp add: stage_def)
next
  case Active
  then have "stage m = 1" "1 \<le> stage m'"
    using observeKind_state[OF assms(3)] by (auto intro: stage_least simp: stage_def)
  then show ?thesis by simp
next
  case Terminating
  then show ?thesis using stage_terminating assms by blast
qed

interpretation order: machine_relation "\<lambda>m m'. stage m \<le> stage m'"
proof
  show "stage m \<le> stage m'"
    if "machineOK m" "maState m \<noteq> StateTerminatedV1" "observeKind kind m (startTransition m) obs = Inr (m', t')" for m kind obs m' t'
    using that by (rule observeKind_stage)
  show "stage m \<le> stage (fst (latchLocked CauseControllerTerminateV1 (m, startTransition m)))"
    if "machineOK m" "maState m = StateActiveV1" "granted m OperationTerminateV1" for m
    using that latch_state[of CauseControllerTerminateV1 m "startTransition m"] stage_least by (auto simp: stage_def)
qed (auto simp: stage_def machineOK_terminating latchedOK_def)


section \<open>Termination is always possible\<close>

definition observation :: "ObservationKindV1 \<Rightarrow> string \<Rightarrow> ObservationV1" where
  "observation kind reason = \<lparr>obKind = kind, obWorkloadStatus = None, obWorkloadOutputs = None,
     obWorkloadOutputPending = False, obReason = reason, obFinish = None\<rparr>"

definition finishing :: "FinishV1 \<Rightarrow> ObservationV1" where
  "finishing f = (observation ObservationFinishedV1 [])\<lparr>obFinish := Some f\<rparr>"

definition finishOf :: "MachineV1 \<Rightarrow> FinishV1" where
  "finishOf m = \<lparr>fiWorkloadStatus = maWorkload m, fiWorkloadOutputs = maWorkloadOutputs m, fiController = maController m,
     fiCleanup = \<lparr>csKind = CleanupStatusSucceededV1, csMessage = []\<rparr>, fiRecovery = RecoveryNoneV1\<rparr>"

definition observeAll :: "MachineV1 \<Rightarrow> ObservationV1 list \<Rightarrow> MachineV1" where
  "observeAll m obss = foldl (\<lambda>m' obs. fst (Observe m' obs)) m obss"

definition abandonment :: "ObservationV1 list" where
  "abandonment = [observation ObservationControllerLostV1 [], observation ObservationRuntimeObservationLostV1 [],
     observation ObservationWorkloadOutputFinalizationExpiredV1 ''expired'']"

lemma Observe_OK: "machineOK m \<Longrightarrow> machineOK (fst (Observe m obs))"
  using invariant.Observe_step by blast

lemma Observe_running:
  assumes "maState m \<noteq> StateTerminatedV1" "obKind obs \<noteq> ObservationResultDeliveredV1" "\<not> obWorkloadOutputPending obs"
  shows "fst (Observe m obs) = (case observeKind (obKind obs) m (startTransition m) obs of Inl _ \<Rightarrow> m | Inr (m', t') \<Rightarrow> m')"
  using assms by (simp add: Observe_def Let_def split: sum.splits prod.splits)

text \<open>The steps of the abandonment, one by one.\<close>

definition controllerSettled :: "MachineV1 \<Rightarrow> bool" where
  "controllerSettled m \<longleftrightarrow> maState m = StateTerminatingV1 \<and> \<not> maWaitingPublication m \<and> \<not> maWaitingFinalize m
     \<and> cfKind (maController m) \<notin> {ControllerFinalizationUnknownV1, ControllerFinalizationActiveV1}"

lemma abandon_controller:
  assumes "machineOK m" "maState m \<noteq> StateTerminatedV1"
  shows "controllerSettled (fst (Observe m (observation ObservationControllerLostV1 [])))"
proof -
  let ?m' = "fst (Observe m (observation ObservationControllerLostV1 []))"
  have "observeControllerLost m (startTransition m) (observation ObservationControllerLostV1 []) \<noteq> Inl e" for e
    by (simp add: observeControllerLost_def observation_def validateOptionalSafeTextV1_def Let_def)
  then obtain m' t' where acc: "observeControllerLost m (startTransition m) (observation ObservationControllerLostV1 []) = Inr (m', t')"
    by (metis sum.exhaust surj_pair)
  have m': "?m' = m'"
    using acc assms(2) by (subst Observe_running) (auto simp: observation_def)
  from acc obtain m1 where m1: "(m', t') = latchLocked CauseControllerLostV1 (m1, startTransition m)"
     "m1 = m\<lparr>maController := if cfKind (maController m) \<in> {ControllerFinalizationUnknownV1, ControllerFinalizationActiveV1}
                       then controllerStatus ControllerFinalizationLostV1 (obReason (observation ObservationControllerLostV1 [])) else maController m,
            maWaitingFinalize := False, maWaitingPublication := False\<rparr>"
    by (rule observeControllerLost_Inr)
  have "maState m' = StateTerminatingV1"
    using assms by (cases rule: machineOK_cases) (use m1 in \<open>auto simp: quietOK_def latchLocked_def Let_def split: if_splits\<close>)
  moreover have "m' = fst (latchLocked CauseControllerLostV1 (m1, startTransition m))" using m1(1) by (metis fst_conv)
  then have "maWaitingPublication m' = maWaitingPublication m1" "maWaitingFinalize m' = maWaitingFinalize m1" "maController m' = maController m1"
    by (simp_all add: latchLocked_def Let_def)
  ultimately show ?thesis
    unfolding m' controllerSettled_def using m1(2) by auto
qed

lemma abandon_runtime:
  assumes "machineOK m" "controllerSettled m"
  shows "controllerSettled (fst (Observe m (observation ObservationRuntimeObservationLostV1 [])))"
    "let m' = fst (Observe m (observation ObservationRuntimeObservationLostV1 [])) in
       maCause m' = CauseRuntimeObservationLostV1 \<and> \<not> maWaitingOutputs m' \<longrightarrow> woKind (maWorkloadOutputs m') = WorkloadOutputFinalizationFailedV1"
proof -
  let ?obs = "observation ObservationRuntimeObservationLostV1 []"
  have st: "maState m = StateTerminatingV1" using assms(2) by (simp add: controllerSettled_def)
  have l: "latchedOK m" using assms(1) st by (simp add: machineOK_terminating)
  have c: "maCause m \<noteq> CauseEmpty" using l by (rule latched_cause)
  have ev: "fst (Observe m ?obs) = finalizePreActivationOutputsForRuntimeObservationLossLocked []
     (m\<lparr>maRuntimeObservation := if roKind (maRuntimeObservation m) = RuntimeObservationLostV1 then maRuntimeObservation m
             else \<lparr>roKind = RuntimeObservationLostV1, roReason = []\<rparr>\<rparr>)"
    using st c by (subst Observe_running) (auto simp: observation_def observeRuntimeObservationLost_def
        validateCauseObservationV1_def validateOptionalSafeTextV1_def latch_again Let_def)
  show "controllerSettled (fst (Observe m ?obs))"
    using assms(2) by (simp add: ev controllerSettled_def finalizePreActivationOutputsForRuntimeObservationLossLocked_def
        completeOutputFinalizationLocked_def)
  have "woKind (maWorkloadOutputs m) \<noteq> WorkloadOutputFinalizationDrainedV1 \<and> \<not> maWaitingOutputs m \<Longrightarrow>
      woKind (maWorkloadOutputs m) = WorkloadOutputFinalizationFailedV1"
    using l by (auto simp: latchedOK_def outputsOK_def validateWorkloadOutputFinalizationStatusV1_def
        split: WorkloadOutputFinalizationStatusKindV1.splits)
  then show "let m' = fst (Observe m ?obs) in
       maCause m' = CauseRuntimeObservationLostV1 \<and> \<not> maWaitingOutputs m' \<longrightarrow> woKind (maWorkloadOutputs m') = WorkloadOutputFinalizationFailedV1"
    using l by (auto simp: ev finalizePreActivationOutputsForRuntimeObservationLossLocked_def
        completeOutputFinalizationLocked_def latchedOK_def settled_def)
qed

lemma abandon_outputs:
  assumes "controllerSettled m"
    and "maCause m = CauseRuntimeObservationLostV1 \<and> \<not> maWaitingOutputs m \<longrightarrow> woKind (maWorkloadOutputs m) = WorkloadOutputFinalizationFailedV1"
  shows "let m' = fst (Observe m (observation ObservationWorkloadOutputFinalizationExpiredV1 ''expired'')) in
     controllerSettled m' \<and> \<not> maWaitingOutputs m'
     \<and> (maCause m' = CauseRuntimeObservationLostV1 \<longrightarrow> woKind (maWorkloadOutputs m') = WorkloadOutputFinalizationFailedV1)"
proof -
  have safe: "validateRequiredSafeTextV1 ''expired''"
    unfolding validateRequiredSafeTextV1_def by (rule conjI[OF _ safeText_printable]) (simp_all add: printable_def)
  have "fst (Observe m (observation ObservationWorkloadOutputFinalizationExpiredV1 ''expired'')) =
      (if maWaitingOutputs m then completeOutputFinalizationLocked (failedOutputs ''expired'') m else m)"
    using assms(1) safe by (subst Observe_running) (auto simp: observation_def observeOutputsExpired_def controllerSettled_def)
  then show ?thesis
    using assms by (simp add: controllerSettled_def completeOutputFinalizationLocked_def)
qed

lemma finish_ready:
  assumes "machineOK m" "controllerSettled m" "\<not> maWaitingOutputs m"
    and "maCause m = CauseRuntimeObservationLostV1 \<longrightarrow> woKind (maWorkloadOutputs m) = WorkloadOutputFinalizationFailedV1"
  shows "maState (fst (Observe m (finishing (finishOf m)))) = StateTerminatedV1"
proof -
  have st: "maState m = StateTerminatingV1" using assms(2) by (simp add: controllerSettled_def)
  have ok: "latchedOK m" "controllerOK (maActivated m) (maWaitingOutputs m) (cfKind (maController m))"
      "observedOK (maWorkload m) (maRuntimeObservation m) (maController m)"
    using assms(1) st by (simp_all add: machineOK_terminating)
  have terminal: "validateTerminalControllerFinalizationStatusV1 (maController m) = None"
      "validateControllerFinishLocked m (maController m) = None"
    using ok(2,3) assms(2) by (auto simp: validateTerminalControllerFinalizationStatusV1_def observedOK_def controllerOK_def
        controllerSettled_def validateControllerFinishLocked_def split: if_splits)
  have outputs: "validateWorkloadOutputFinalizationStatusV1 (maWorkloadOutputs m) = None"
    using ok(1) assms(3) by (simp add: latchedOK_def outputsOK_def)
  then have present: "woKind (maWorkloadOutputs m) \<noteq> WorkloadOutputFinalizationEmpty"
    by (auto simp: validateWorkloadOutputFinalizationStatusV1_def)
  have cleanup: "validateCleanupResultV1 \<lparr>csKind = CleanupStatusSucceededV1, csMessage = []\<rparr> RecoveryNoneV1 = None"
    by (simp add: validateCleanupResultV1_def)
  have finish: "validateFinishV1 (finishOf m) = None"
    using ok(3) terminal(1) outputs cleanup by (simp add: validateFinishV1_def finishOf_def observedOK_def)
  have cause: "validTerminationCauseV1 (maCause m)" "validateResultConsistencyV1 (finishResult m (finishOf m)) = None"
      "\<not> (maCause m = CauseWorkloadExitV1 \<and> psKind (maWorkload m) = ProcessStatusUnknownV1)"
    using ok(1) assms(4) by (cases "maCause m"; auto simp: latchedOK_def validTerminationCauseV1_def
        validateResultConsistencyV1_def finishResult_def finishOf_def)+
  have "ValidateResultV1 (finishResult m (finishOf m)) = None"
    using cause ok(3) outputs terminal(1) cleanup by (simp add: ValidateResultV1_def observedOK_def) (simp add: finishResult_def finishOf_def)
  then have "observeFinished m (startTransition m) (finishing (finishOf m)) = Inr (m\<lparr>maWorkload := maWorkload m,
      maController := maController m, maResult := Some (finishResult m (finishOf m)), maState := StateTerminatedV1\<rparr>, startTransition m)"
    using st assms(2,3) present finish terminal(2)
    by (simp add: observeFinished_def finishing_def observation_def controllerSettled_def) (simp add: finishOf_def)
  then show ?thesis
    using st by (subst Observe_running) (simp_all add: finishing_def observation_def)
qed

lemma abandoned:
  assumes "machineOK m" "maState m \<noteq> StateTerminatedV1"
  shows "let m' = observeAll m abandonment in maState (fst (Observe m' (finishing (finishOf m')))) = StateTerminatedV1"
proof -
  let ?m1 = "fst (Observe m (observation ObservationControllerLostV1 []))"
  let ?m2 = "fst (Observe ?m1 (observation ObservationRuntimeObservationLostV1 []))"
  have 1: "machineOK ?m1" "controllerSettled ?m1" using assms by (simp_all add: Observe_OK abandon_controller)
  have 2: "machineOK ?m2" using 1(1) by (rule Observe_OK)
  have "controllerSettled ?m2" using 1 by (rule abandon_runtime(1))
  moreover note abandon_runtime(2)[OF 1]
  ultimately show ?thesis
    using abandon_outputs[of ?m2] finish_ready Observe_OK[OF 2]
    by (simp add: observeAll_def abandonment_def Let_def)
qed

end
