(* ===== verification/SessionProtocolProofs.thy ===== *)
theory SessionProtocolProofs
  imports SessionProtocol
begin

text \<open>
  Lemmas on the wire protocol: big-endian integers are read back as written, in both
  directions, a frame is read back with the rest of the stream, and a request is read exactly
  when it was written. The locale states the contract of a framing and derives what follows
  from it for any such framing; it is interpreted on the session protocol and on the terminal
  protocol. The last section is about writing through a writer that takes the bytes in pieces.
\<close>

section \<open>Big-endian integers\<close>

lemma char_of_bytes: "n mod 256 = byteOf c \<Longrightarrow> char_of n = c"
  by (metis char_of_char char_of_mod_256)

lemma split_bytes:
  fixes n :: nat
  shows "((n div 16777216 mod 256 * 256 + n div 65536 mod 256) * 256 + n div 256 mod 256) * 256 + n mod 256
     = n mod 4294967296"
proof -
  have a: "n mod 65536 = 256 * (n div 256 mod 256) + n mod 256"
    using mod_mult2_eq[of n 256 256] by simp
  have b: "n mod 16777216 = 65536 * (n div 65536 mod 256) + n mod 65536"
    using mod_mult2_eq[of n 65536 256] by simp
  have c: "n mod 4294967296 = 16777216 * (n div 16777216 mod 256) + n mod 16777216"
    using mod_mult2_eq[of n 16777216 256] by simp
  show ?thesis unfolding c b a by simp
qed

lemma join_bytes:
  fixes a b c d :: nat
  assumes "a < 256" "b < 256" "c < 256" "d < 256"
  defines "n \<equiv> ((a * 256 + b) * 256 + c) * 256 + d"
  shows "n < 4294967296" "n div 16777216 mod 256 = a" "n div 65536 mod 256 = b"
    "n div 256 mod 256 = c" "n mod 256 = d"
proof -
  have d1: "n div 256 = (a * 256 + b) * 256 + c"
    unfolding n_def using assms(4) by simp
  have "n div 65536 = n div 256 div 256" "n div 16777216 = n div 256 div 256 div 256"
    by (simp_all flip: div_mult2_eq)
  then have d2: "n div 65536 = a * 256 + b" and d3: "n div 16777216 = a"
    using assms(2,3) by (simp_all add: d1)
  show "n < 4294967296"
    using assms(1-4) unfolding n_def by simp
  show "n div 16777216 mod 256 = a" "n div 65536 mod 256 = b"
    using assms(1,2) by (simp_all add: d2 d3)
  show "n div 256 mod 256 = c"
    unfolding d1 using assms(3) by (simp only: mod_mult_self3 mod_less)
  show "n mod 256 = d"
    unfolding n_def using assms(4) by (simp only: mod_mult_self3 mod_less)
qed

lemma getUint32_putUint32 [simp]: "getUint32 (putUint32 w) = w"
proof -
  let ?n = "unat w"
  have "?n < 2 ^ LENGTH(32)" by (rule unsigned_less)
  then have small: "?n < 4294967296" by simp
  have "getUint32 (putUint32 w) =
      of_nat (((?n div 16777216 mod 256 * 256 + ?n div 65536 mod 256) * 256 + ?n div 256 mod 256) * 256 + ?n mod 256)"
    by (simp add: getUint32_def putUint32_def Let_def)
  also have "\<dots> = of_nat ?n"
    using small by (simp only: split_bytes) simp
  finally show ?thesis by simp
qed

lemma length_putUint32 [simp]: "length (putUint32 w) = 4"
  by (simp add: putUint32_def Let_def)

lemma byteOf_less: "byteOf c < 256"
  by simp

lemma putUint32_getUint32:
  assumes "length bs = 4"
  shows "putUint32 (getUint32 bs) = bs"
proof -
  obtain a b c d where bs: "bs = [a, b, c, d]"
    using assms by (auto simp: length_Suc_conv numeral_eq_Suc)
  let ?n = "((byteOf a * 256 + byteOf b) * 256 + byteOf c) * 256 + byteOf d"
  note digits = join_bytes[OF byteOf_less[of a] byteOf_less[of b] byteOf_less[of c] byteOf_less[of d]]
  have n: "unat (getUint32 bs) = ?n"
    using digits(1) unfolding getUint32_def
    by (subst unsigned_of_nat) (simp add: bs take_bit_nat_eq_self)
  show ?thesis
    unfolding putUint32_def Let_def n unfolding bs
    using char_of_bytes[OF digits(2)] char_of_bytes[OF digits(3)]
      char_of_bytes[OF digits(4)] char_of_bytes[OF digits(5)]
    by simp
qed

section \<open>Framings\<close>

text \<open>The interface of a framing: what is written is read back, with the rest of the stream
  untouched, and only what can be written is read.\<close>

locale wire_codec =
  fixes encode :: "'m \<Rightarrow> string option"
    and decode :: "string \<Rightarrow> ('m \<times> string) option"
  assumes decode_encode: "encode x = Some bytes \<Longrightarrow> decode (bytes @ rest) = Some (x, rest)"
    and encode_decode: "decode input = Some (x, rest) \<Longrightarrow> \<exists>bytes. encode x = Some bytes \<and> input = bytes @ rest"
    and encode_nonempty: "encode x \<noteq> Some []"
begin

lemma prefix_free:
  assumes "encode x = Some bs" "encode y = Some cs" "bs @ r = cs @ r'"
  shows "x = y \<and> r = r'"
  using decode_encode[OF assms(1), of r] decode_encode[OF assms(2), of r'] assms(3) by simp

lemma decode_iff: "decode input = Some (x, rest) \<longleftrightarrow> (\<exists>bytes. encode x = Some bytes \<and> input = bytes @ rest)"
  using decode_encode encode_decode by blast

lemma proper_prefix_undecodable:
  assumes "encode x = Some bytes" "n < length bytes"
  shows "decode (take n bytes) = None"
proof (rule ccontr)
  assume "decode (take n bytes) \<noteq> None"
  then obtain y r where "decode (take n bytes) = Some (y, r)" by auto
  then obtain cs where cs: "encode y = Some cs" "take n bytes = cs @ r"
    using encode_decode by blast
  have "bytes = cs @ (r @ drop n bytes)"
    by (metis append.assoc append_take_drop_id cs(2))
  then have "r @ drop n bytes = []"
    using prefix_free[OF assms(1) cs(1), of "[]" "r @ drop n bytes"] by simp
  then show False using assms(2) by simp
qed

lemma uniquely_decodable:
  assumes "map encode xs = map Some bss" "map encode ys = map Some css" "concat bss = concat css"
  shows "xs = ys"
  using assms
proof (induction xs arbitrary: ys bss css)
  case Nil
  then have "bss = []" by simp
  with Nil.prems(3) have "\<forall>cs \<in> set css. cs = []" by simp
  moreover have "\<forall>cs \<in> set css. cs \<noteq> []"
    using Nil.prems(2) encode_nonempty by (metis in_set_conv_nth length_map nth_map)
  ultimately have "css = []" by (cases css) auto
  then show ?case using Nil.prems(2) by simp
next
  case (Cons x xs)
  obtain bs bss' where bss: "bss = bs # bss'" and x: "encode x = Some bs" and xs: "map encode xs = map Some bss'"
    using Cons.prems(1) by (cases bss) auto
  have "bs \<noteq> []" using x encode_nonempty by metis
  then have "css \<noteq> []" using Cons.prems(3) bss by auto
  then obtain cs css' y ys' where css: "css = cs # css'" "ys = y # ys'"
      and y: "encode y = Some cs" and ys: "map encode ys' = map Some css'"
    using Cons.prems(2) by (cases css; cases ys) auto
  have "bs @ concat bss' = cs @ concat css'"
    using Cons.prems(3) bss css by simp
  from prefix_free[OF x y this] have "x = y" "concat bss' = concat css'" by simp_all
  then show ?case using Cons.IH[OF xs ys] css by simp
qed

end

section \<open>Frames\<close>

lemma MaxFramePayload_word: "n \<le> MaxFramePayloadV1 \<Longrightarrow> unat (word_of_nat n :: 32 word) = n"
  by (simp add: MaxFramePayloadV1_def unsigned_of_nat take_bit_nat_eq_self)

lemma MaxFramePayload_word_less: "n \<le> MaxFramePayloadV1 \<Longrightarrow> \<not> (word_of_nat n :: 32 word) > of_nat MaxFramePayloadV1"
  by (simp add: word_less_nat_alt MaxFramePayload_word)

lemma frame_header:
  assumes "length magic = 4"
  shows "take 4 (magic @ v # k # putUint32 n) = magic" "(magic @ v # k # putUint32 n) ! 4 = v"
    "(magic @ v # k # putUint32 n) ! 5 = k" "drop 6 (magic @ v # k # putUint32 n) = putUint32 n"
    "length (magic @ v # k # putUint32 n) = frameHeaderSizeV1"
  using assms by (simp_all add: nth_append frameHeaderSizeV1_def)

lemma readFrame_header:
  assumes "length h = frameHeaderSizeV1"
  shows "readFrame magic (h @ tail) =
     (let len = getUint32 (drop 6 h) in
      if take 4 h \<noteq> magic then Inl MagicInvalid
      else if byteOf (h ! 4) \<noteq> ProtocolVersionV1 then Inl (VersionUnsupported (byteOf (h ! 4)))
      else if len > of_nat MaxFramePayloadV1 then Inl LengthTooLong
      else if length tail < unat len then Inl PayloadShort
      else Inr ((byteOf (h ! 5), take (unat len) tail), drop (unat len) tail))"
  using assms by (simp add: readFrame_def Let_def)

lemma frameBytes_Inr:
  "frameBytes magic kind payload = Inr bytes \<longleftrightarrow>
     length payload \<le> MaxFramePayloadV1 \<and>
     bytes = (magic @ char_of ProtocolVersionV1 # char_of kind # putUint32 (of_nat (length payload))) @ payload"
  by (auto simp: frameBytes_def)

lemma readFrame_frameBytes:
  assumes "length magic = 4" "kind < 256" "frameBytes magic kind payload = Inr bytes"
  shows "readFrame magic (bytes @ rest) = Inr ((kind, payload), rest)"
proof -
  let ?h = "magic @ char_of ProtocolVersionV1 # char_of kind # putUint32 (of_nat (length payload))"
  have len: "length payload \<le> MaxFramePayloadV1" and bytes: "bytes @ rest = ?h @ payload @ rest"
    using assms(3) by (auto simp: frameBytes_Inr)
  show ?thesis
    unfolding bytes readFrame_header[OF frame_header(5)[OF assms(1)]] frame_header[OF assms(1)]
    using assms(2) len MaxFramePayload_word_less[OF len]
    by (simp add: MaxFramePayload_word ProtocolVersionV1_def)
qed

lemma header_parts:
  assumes "length h = frameHeaderSizeV1"
  shows "h = take 4 h @ h ! 4 # h ! 5 # drop 6 h" "length (drop 6 h) = 4"
proof -
  have "drop 4 h = h ! 4 # drop 5 h" "drop 5 h = h ! 5 # drop 6 h"
    using assms by (simp_all add: frameHeaderSizeV1_def Cons_nth_drop_Suc numeral_eq_Suc)
  then show "h = take 4 h @ h ! 4 # h ! 5 # drop 6 h"
    by (metis append_take_drop_id)
  show "length (drop 6 h) = 4"
    using assms by (simp add: frameHeaderSizeV1_def)
qed

lemma readFrame_Inr:
  assumes "readFrame magic input = Inr ((kind, payload), rest)"
  shows "\<exists>bytes. frameBytes magic kind payload = Inr bytes \<and> input = bytes @ rest \<and> kind < 256"
proof -
  define h tail where "h = take frameHeaderSizeV1 input" and "tail = drop frameHeaderSizeV1 input"
  have input: "input = h @ tail" by (simp add: h_def tail_def)
  have "\<not> length input < frameHeaderSizeV1" using assms by (auto simp: readFrame_def)
  then have lh: "length h = frameHeaderSizeV1" by (simp add: h_def)
  define len where "len = getUint32 (drop 6 h)"
  have h: "take 4 h = magic" "byteOf (h ! 4) = ProtocolVersionV1" "\<not> len > of_nat MaxFramePayloadV1"
      "unat len \<le> length tail" "kind = byteOf (h ! 5)" "payload = take (unat len) tail" "rest = drop (unat len) tail"
    using assms unfolding input readFrame_header[OF lh] Let_def
    by (auto simp: len_def split: if_splits)
  have size: "length payload = unat len" using h(4,6) by simp
  have "unat len \<le> MaxFramePayloadV1"
    using h(3) by (simp add: word_less_nat_alt MaxFramePayload_word)
  moreover have "char_of ProtocolVersionV1 = h ! 4"
    using h(2) by (metis char_of_char)
  then have "h = magic @ char_of ProtocolVersionV1 # char_of kind # putUint32 (of_nat (length payload))"
    using header_parts[OF lh] h(1,5) putUint32_getUint32[of "drop 6 h"]
    by (simp add: size len_def)
  ultimately show ?thesis
    using h(5,6,7) size by (auto simp: frameBytes_Inr input)
qed

lemma frameBytes_nonempty: "frameBytes magic kind payload \<noteq> Inr []"
  by (simp add: frameBytes_Inr)


section \<open>Request payloads\<close>

lemma decode_encode_payload:
  assumes "ValidateRequestV1 r = None"
  shows "\<exists>kind payload. encodeRequestPayloadV1 r = Some (kind, payload) \<and> kind < 256
    \<and> decodeRequestPayloadV1 kind payload = Inr r"
  using assms
  by (cases "rqKind r"; cases r)
    (auto simp: ValidateRequestV1_def encodeRequestPayloadV1_def decodeRequestPayloadV1_def
      emptyRequest_def requestOf_def split: if_splits)

lemma encode_decode_payload:
  assumes "decodeRequestPayloadV1 kind payload = Inr r"
  shows "encodeRequestPayloadV1 r = Some (kind, payload)"
proof -
  have "length payload = 8 \<Longrightarrow> putUint32 (getUint32 (take 4 payload)) @ putUint32 (getUint32 (drop 4 payload)) = payload"
    by (simp add: putUint32_getUint32)
  then show ?thesis
    using assms by (auto simp: encodeRequestPayloadV1_def decodeRequestPayloadV1_def emptyRequest_def
        requestOf_def split: if_splits)
qed

definition toOption :: "'e + 'a \<Rightarrow> 'a option" where
  "toOption r = (case r of Inl _ \<Rightarrow> None | Inr x \<Rightarrow> Some x)"

lemma toOption_Some [simp]: "toOption r = Some x \<longleftrightarrow> r = Inr x"
  by (simp add: toOption_def split: sum.splits)

lemma magic_lengths [simp]: "length frameMagicV1 = 4" "length terminalFrameMagicV1 = 4"
  by (simp_all add: frameMagicV1_def terminalFrameMagicV1_def)

lemma WriteRequestV1_bytes:
  "WriteRequestV1 r = Some (Inr bytes) \<longleftrightarrow> ValidateRequestV1 r = None \<and>
     (\<exists>kind payload. encodeRequestPayloadV1 r = Some (kind, payload) \<and> frameBytes frameMagicV1 kind payload = Inr bytes)"
  by (auto simp: WriteRequestV1_def writeFrameV1_def split: option.splits)

lemma ReadRequestV1_Inr:
  "ReadRequestV1 input = Inr (r, rest) \<longleftrightarrow> ValidateRequestV1 r = None \<and>
     (\<exists>kind payload. readFrame frameMagicV1 input = Inr ((kind, payload), rest)
        \<and> decodeRequestPayloadV1 kind payload = Inr r)"
  by (auto simp: ReadRequestV1_def readFrameV1_def split: sum.splits option.splits prod.splits)

lemma read_written_request:
  assumes "WriteRequestV1 r = Some (Inr bytes)"
  shows "ReadRequestV1 (bytes @ rest) = Inr (r, rest)"
proof -
  obtain kind payload where w: "ValidateRequestV1 r = None" "encodeRequestPayloadV1 r = Some (kind, payload)"
      "frameBytes frameMagicV1 kind payload = Inr bytes"
    using assms by (auto simp: WriteRequestV1_bytes)
  have "kind < 256" "decodeRequestPayloadV1 kind payload = Inr r"
    using decode_encode_payload[OF w(1)] w(2) by auto
  then show ?thesis
    using w readFrame_frameBytes[OF _ _ w(3), of rest] by (auto simp: ReadRequestV1_Inr)
qed

lemma written_read_request:
  assumes "ReadRequestV1 input = Inr (r, rest)"
  shows "\<exists>bytes. WriteRequestV1 r = Some (Inr bytes) \<and> input = bytes @ rest"
proof -
  obtain kind payload where r: "ValidateRequestV1 r = None"
      "readFrame frameMagicV1 input = Inr ((kind, payload), rest)" "decodeRequestPayloadV1 kind payload = Inr r"
    using assms by (auto simp: ReadRequestV1_Inr)
  show ?thesis
    using readFrame_Inr[OF r(2)] encode_decode_payload[OF r(3)] r(1) by (auto simp: WriteRequestV1_bytes)
qed

definition requestBytes :: "RequestV1 \<Rightarrow> string option" where
  "requestBytes r = Option.bind (WriteRequestV1 r) toOption"

lemma requestBytes_Some [simp]: "requestBytes r = Some bytes \<longleftrightarrow> WriteRequestV1 r = Some (Inr bytes)"
  by (auto simp: requestBytes_def bind_eq_Some_conv)

interpretation sessionWire: wire_codec requestBytes "\<lambda>input. toOption (ReadRequestV1 input)"
proof
  show "requestBytes x \<noteq> Some []" for x
    using frameBytes_nonempty by (auto simp: WriteRequestV1_bytes)
qed (use read_written_request written_read_request in auto)

text \<open>The terminal protocol carries the two requests of a terminal, with the same payloads.\<close>

lemma WriteTerminalRequestV1_bytes:
  "WriteTerminalRequestV1 r = Inr bytes \<longleftrightarrow> ValidateRequestV1 r = None \<and> rqKind r \<in> {RequestInputV1, RequestResizeV1} \<and>
     (\<exists>kind payload. encodeRequestPayloadV1 r = Some (kind, payload) \<and> frameBytes terminalFrameMagicV1 kind payload = Inr bytes)"
  by (auto simp: WriteTerminalRequestV1_def writeTerminalFrameV1_def encodeRequestPayloadV1_def
      split: option.splits RequestKindV1.splits)

lemma ReadTerminalRequestV1_decoded:
  assumes "readFrame terminalFrameMagicV1 input = Inr ((kind, payload), rest')"
  shows "ReadTerminalRequestV1 input = Inr (r, rest) \<longleftrightarrow> ValidateRequestV1 r = None
    \<and> rqKind r \<in> {RequestInputV1, RequestResizeV1} \<and> rest' = rest \<and> decodeRequestPayloadV1 kind payload = Inr r"
proof -
  have "decodeRequestPayloadV1 kind payload = Inr r \<and> rqKind r \<in> {RequestInputV1, RequestResizeV1} \<longleftrightarrow>
      (kind = 1 \<and> r = (requestOf RequestInputV1)\<lparr>rqBytes := Some payload\<rparr>) \<or>
      (kind = 2 \<and> length payload = 8 \<and> r = (requestOf RequestResizeV1)\<lparr>rqColumns := getUint32 (take 4 payload), rqRows := getUint32 (drop 4 payload)\<rparr>)"
    by (auto simp: decodeRequestPayloadV1_def emptyRequest_def requestOf_def split: if_splits)
  then show ?thesis
    using assms by (auto simp: ReadTerminalRequestV1_def readTerminalFrameV1_def Let_def split: option.splits if_splits)
qed

lemma ReadTerminalRequestV1_Inr:
  "ReadTerminalRequestV1 input = Inr (r, rest) \<longleftrightarrow> ValidateRequestV1 r = None \<and> rqKind r \<in> {RequestInputV1, RequestResizeV1} \<and>
     (\<exists>kind payload. readFrame terminalFrameMagicV1 input = Inr ((kind, payload), rest)
        \<and> decodeRequestPayloadV1 kind payload = Inr r)"
proof (cases "readFrame terminalFrameMagicV1 input")
  case (Inl e)
  then show ?thesis by (simp add: ReadTerminalRequestV1_def readTerminalFrameV1_def)
next
  case (Inr p)
  obtain kind payload rest' where "p = ((kind, payload), rest')" by (metis surj_pair)
  then show ?thesis using Inr ReadTerminalRequestV1_decoded[of input kind payload rest' r rest] by auto
qed

lemma read_written_terminal:
  assumes "WriteTerminalRequestV1 r = Inr bytes"
  shows "ReadTerminalRequestV1 (bytes @ rest) = Inr (r, rest)"
proof -
  obtain kind payload where w: "ValidateRequestV1 r = None" "rqKind r \<in> {RequestInputV1, RequestResizeV1}"
      "encodeRequestPayloadV1 r = Some (kind, payload)" "frameBytes terminalFrameMagicV1 kind payload = Inr bytes"
    using assms by (auto simp: WriteTerminalRequestV1_bytes)
  have "kind < 256" "decodeRequestPayloadV1 kind payload = Inr r"
    using decode_encode_payload[OF w(1)] w(3) by auto
  then show ?thesis
    using w readFrame_frameBytes[OF _ _ w(4), of rest] by (auto simp: ReadTerminalRequestV1_Inr)
qed

lemma written_read_terminal:
  assumes "ReadTerminalRequestV1 input = Inr (r, rest)"
  shows "\<exists>bytes. WriteTerminalRequestV1 r = Inr bytes \<and> input = bytes @ rest"
proof -
  obtain kind payload where r: "ValidateRequestV1 r = None" "rqKind r \<in> {RequestInputV1, RequestResizeV1}"
      "readFrame terminalFrameMagicV1 input = Inr ((kind, payload), rest)" "decodeRequestPayloadV1 kind payload = Inr r"
    using assms by (auto simp: ReadTerminalRequestV1_Inr)
  show ?thesis
    using readFrame_Inr[OF r(3)] encode_decode_payload[OF r(4)] r(1,2) by (auto simp: WriteTerminalRequestV1_bytes)
qed

interpretation terminalWire: wire_codec "\<lambda>r. toOption (WriteTerminalRequestV1 r)" "\<lambda>input. toOption (ReadTerminalRequestV1 input)"
proof
  show "toOption (WriteTerminalRequestV1 x) \<noteq> Some []" for x
    using frameBytes_nonempty by (auto simp: WriteTerminalRequestV1_bytes)
qed (use read_written_terminal written_read_terminal in auto)


section \<open>Writing through a partial writer\<close>

text \<open>
  What \<open>io.Writer\<close> documents: a write reports how many of the bytes it took, and those bytes
  are what reached the sink.
\<close>

definition writerContract :: "('w \<Rightarrow> string \<Rightarrow> 'w \<times> int \<times> bool) \<Rightarrow> ('w \<Rightarrow> string) \<Rightarrow> bool" where
  "writerContract take_in sink \<longleftrightarrow> (\<forall>w bytes w' n failed. take_in w bytes = (w', n, failed) \<longrightarrow>
     0 \<le> n \<and> n \<le> int (length bytes) \<and> sink w' = sink w @ take (nat n) bytes)"

lemma writerContract_counts:
  "writerContract take_in sink \<Longrightarrow> take_in w bytes = (w', n, failed) \<Longrightarrow> 0 \<le> n \<and> n \<le> int (length bytes)"
  unfolding writerContract_def by blast

lemma writerContract_appends:
  "writerContract take_in sink \<Longrightarrow> take_in w bytes = (w', n, failed) \<Longrightarrow> sink w' = sink w @ take (nat n) bytes"
  unfolding writerContract_def by blast

lemma writeAll_sink:
  assumes "writerContract take_in sink" "writeAllV1 take_in w content = (w', r)"
  shows "\<exists>k \<le> length content. sink w' = sink w @ take k content \<and> (r = WroteAll \<longrightarrow> k = length content)"
  using assms(2)
proof (induction "length content" arbitrary: w content rule: less_induct)
  case less
  show ?case
  proof (cases "content = []")
    case True
    then show ?thesis using less.prems by (subst (asm) writeAllV1.simps) simp
  next
    case False
    obtain w1 n failed where w: "take_in w content = (w1, n, failed)" by (metis surj_pair)
    note n = writerContract_counts[OF assms(1) w] and sink1 = writerContract_appends[OF assms(1) w]
    have stop: ?thesis if "w' = w1" "r \<noteq> WroteAll"
      using that n sink1 by (intro exI[of _ "nat n"]) auto
    show ?thesis
    proof (cases "failed \<or> n \<le> 0 \<or> n > int (length content)")
      case True
      then show ?thesis
        using less.prems False w stop by (subst (asm) writeAllV1.simps) (auto split: if_splits)
    next
      case go: False
      have rec: "writeAllV1 take_in w1 (drop (nat n) content) = (w', r)"
        using less.prems False w go by (subst (asm) writeAllV1.simps) simp
      have "length (drop (nat n) content) < length content" using go False by auto
      from less.hyps[OF this rec] obtain k where
        k: "k \<le> length (drop (nat n) content)" "sink w' = sink w1 @ take k (drop (nat n) content)"
          "r = WroteAll \<longrightarrow> k = length (drop (nat n) content)" by blast
      show ?thesis
        using k sink1 go by (intro exI[of _ "nat n + k"]) (auto simp: take_add)
    qed
  qed
qed

lemma writeAll_completes:
  assumes "writerContract take_in sink" "\<And>w bytes. bytes \<noteq> [] \<Longrightarrow> \<exists>w' n. take_in w bytes = (w', n, False) \<and> 0 < n"
  shows "snd (writeAllV1 take_in w content) = WroteAll"
proof (induction "length content" arbitrary: w content rule: less_induct)
  case less
  show ?case
  proof (cases "content = []")
    case True
    then show ?thesis by (subst writeAllV1.simps) simp
  next
    case False
    obtain w' n where w: "take_in w content = (w', n, False)" "0 < n" using assms(2)[OF False] by blast
    then show ?thesis
      using less.hyps[of "drop (nat n) content" w'] writerContract_counts[OF assms(1) w(1)] False
      by (subst writeAllV1.simps) simp
  qed
qed

end
