(* ===== verification/SessionNames.thy ===== *)
theory SessionNames
  imports SessionProtocol
begin

text \<open>
  Lemmas on the names and numbers of an authorization: the automaton of endpoint names accepts
  the language its pattern describes, canonical decimal numbers are the texts that
  \<open>strconv.FormatUint\<close> prints, and the supplementary groups of an identity are the printed
  form of a strictly increasing list.
\<close>

section \<open>Endpoints of an opened session\<close>

lemma endpointsLoop_None:
  "length es = length ids \<Longrightarrow> endpointsLoop k es ids = None \<longleftrightarrow>
     map epID es = ids \<and> (\<forall>e \<in> set es. ValidateEndpointV1 e = None)"
proof (induction es arbitrary: k ids)
  case (Cons e es)
  then show ?case by (cases ids) auto
qed simp

section \<open>The grammar of component names\<close>

inductive nameTail :: "string \<Rightarrow> bool" where
  nil: "nameTail []"
| segment: "separator = ''__'' \<or> separator = ''.'' \<or> separator = ''_'' \<or> (\<exists>n. separator = replicate (Suc n) CHR ''-'') \<Longrightarrow>
    name \<noteq> [] \<Longrightarrow> list_all isLowerAlnum name \<Longrightarrow> nameTail rest \<Longrightarrow> nameTail (separator @ name @ rest)"

definition componentName :: "string \<Rightarrow> bool" where
  "componentName s \<longleftrightarrow> (\<exists>name rest. name \<noteq> [] \<and> list_all isLowerAlnum name \<and> nameTail rest \<and> s = name @ rest)"

lemma separators_not_alnum [simp]:
  "\<not> isLowerAlnum CHR ''.''" "\<not> isLowerAlnum CHR ''_''" "\<not> isLowerAlnum CHR ''-''"
  by (simp_all add: isLowerAlnum_def isLower_def isDigit_def)

lemma run_name: "list_all isLowerAlnum name \<Longrightarrow> componentRun InSegment (name @ rest) = componentRun InSegment rest"
  by (induction name) auto

lemma run_starts: "name \<noteq> [] \<Longrightarrow> list_all isLowerAlnum name \<Longrightarrow> componentRun st (name @ rest) = componentRun InSegment rest"
  by (cases name) (auto simp: run_name)

lemma run_dashes: "componentRun AfterDash (replicate n CHR ''-'' @ s) = componentRun AfterDash s"
  by (induction n) auto

lemma nameTail_run: "nameTail s \<Longrightarrow> componentRun InSegment s"
proof (induction rule: nameTail.induct)
  case (segment separator name rest)
  then show ?case by (auto simp: run_starts run_dashes simp del: append_assoc)
qed simp

text \<open>What is left to read in each state of the automaton.\<close>

fun awaits :: "component_state \<Rightarrow> string \<Rightarrow> bool" where
  "awaits InSegment s = (\<exists>name rest. list_all isLowerAlnum name \<and> nameTail rest \<and> s = name @ rest)"
| "awaits NeedSegment s = componentName s"
| "awaits AfterUnderscore s = (componentName s \<or> (\<exists>t. s = CHR ''_'' # t \<and> componentName t))"
| "awaits AfterDash s = (\<exists>n t. s = replicate n CHR ''-'' @ t \<and> componentName t)"

lemma awaits_alnum: "isLowerAlnum c \<Longrightarrow> awaits InSegment s \<Longrightarrow> componentName (c # s)"
proof -
  assume c: "isLowerAlnum c" and "awaits InSegment s"
  then obtain name rest where "list_all isLowerAlnum name" "nameTail rest" "s = name @ rest" by auto
  then show ?thesis
    unfolding componentName_def using c by (intro exI[of _ "c # name"] exI[of _ rest]) simp
qed

lemma componentName_tail:
  assumes "componentName s" "separator = ''__'' \<or> separator = ''.'' \<or> separator = ''_'' \<or> (\<exists>n. separator = replicate (Suc n) CHR ''-'')"
  shows "nameTail (separator @ s)"
  using assms(1) nameTail.segment[OF assms(2)] by (auto simp: componentName_def)

lemma run_awaits: "componentRun st s \<Longrightarrow> awaits st s"
proof (induction s arbitrary: st)
  case Nil
  then show ?case by (auto intro: nameTail.nil)
next
  case (Cons c s)
  show ?case
  proof (cases "isLowerAlnum c")
    case True
    then have name: "componentName (c # s)" using Cons.IH[of InSegment] Cons.prems awaits_alnum by simp
    moreover have "awaits InSegment (c # s)" using name by (auto simp: componentName_def)
    moreover have "awaits AfterDash (c # s)" using name by (simp, intro exI[of _ 0] exI[of _ "c # s"]) simp
    ultimately show ?thesis by (cases st) auto
  next
    case False
    show ?thesis
    proof (cases st)
      case InSegment
      then consider "c = CHR ''.''" "componentRun NeedSegment s" | "c = CHR ''_''" "componentRun AfterUnderscore s"
        | "c = CHR ''-''" "componentRun AfterDash s"
        using Cons.prems False by (auto split: if_splits)
      then have "nameTail (c # s)"
      proof cases
        case 1
        then show ?thesis using Cons.IH[OF 1(2)] componentName_tail[of s "''.''"] by simp
      next
        case 2
        then show ?thesis using Cons.IH[OF 2(2)] componentName_tail[of s "''_''"] componentName_tail[of _ "''__''"] by auto
      next
        case 3
        then obtain n t where "s = replicate n CHR ''-'' @ t" "componentName t" using Cons.IH[OF 3(2)] by auto
        then show ?thesis using 3(1) componentName_tail[of t "replicate (Suc n) CHR ''-''"] by auto
      qed
      then have "list_all isLowerAlnum [] \<and> nameTail (c # s) \<and> c # s = [] @ c # s" by simp
      then show ?thesis using InSegment awaits.simps(1) by blast
    next
      case AfterUnderscore
      then have "c = CHR ''_''" "componentRun NeedSegment s" using Cons.prems False by (auto split: if_splits)
      then show ?thesis using AfterUnderscore Cons.IH[of NeedSegment] by simp
    next
      case AfterDash
      then have "c = CHR ''-''" "componentRun AfterDash s" using Cons.prems False by (auto split: if_splits)
      moreover from this(2) have "awaits AfterDash s" by (rule Cons.IH)
      ultimately obtain n t where "c # s = replicate (Suc n) CHR ''-'' @ t" "componentName t" by auto
      then show ?thesis using AfterDash awaits.simps(4) by blast
    next
      case NeedSegment
      then show ?thesis using Cons.prems False by simp
    qed
  qed
qed

lemma componentPattern_grammar: "componentPattern s \<longleftrightarrow> componentName s"
proof
  show "componentPattern s \<Longrightarrow> componentName s"
    using run_awaits[of NeedSegment s] by (simp add: componentPattern_def)
  show "componentName s \<Longrightarrow> componentPattern s"
    by (auto simp: componentName_def componentPattern_def run_starts nameTail_run)
qed


section \<open>Canonical numbers\<close>

lemma canonicalUnsigned_iff:
  "canonicalUnsignedV1 s = Some n \<longleftrightarrow> s = formatUint n \<and> n < 4294967295"
proof
  assume a: "canonicalUnsignedV1 s = Some n"
  then have p: "parseUint32 s = Some n" "n \<noteq> credentialUnchangedSentinelV1" "s \<noteq> []" "length s > 1 \<longrightarrow> hd s \<noteq> CHR ''0''"
    by (auto simp: canonicalUnsignedV1_def split: if_splits option.splits)
  then have "digitsValue 0 s = n" "list_all isDigit s" by (auto simp: parseUint32_def split: if_splits)
  then have "formatUint n = s" using formatUint_digitsValue[of s] p by simp
  moreover have "n < 4294967295" using parseUint32_bound[OF p(1)] p(2) by (simp add: credentialUnchangedSentinelV1_def)
  ultimately show "s = formatUint n \<and> n < 4294967295" by simp
next
  assume a: "s = formatUint n \<and> n < 4294967295"
  have "\<not> (length (formatUint n) > 1 \<and> hd (formatUint n) = CHR ''0'')" by (rule formatUint_leading)
  then show "canonicalUnsignedV1 s = Some n"
    using a parseUint32_formatUint[of n] by (auto simp: canonicalUnsignedV1_def credentialUnchangedSentinelV1_def)
qed

lemma supplementaryLoop_None:
  "supplementaryLoop uid g p texts = None \<longleftrightarrow>
     (\<exists>gids. texts = map formatUint gids \<and> (\<forall>x \<in> set gids. x < 4294967295 \<and> x \<noteq> g \<and> (uid \<noteq> 0 \<longrightarrow> x \<noteq> 0))
        \<and> sorted_wrt (<) ((case p of None \<Rightarrow> [] | Some x \<Rightarrow> [x]) @ gids))"
proof (induction texts arbitrary: p)
  case (Cons v vs)
  show ?case
  proof (cases "canonicalUnsignedV1 v")
    case None
    then have "v \<noteq> formatUint x \<or> \<not> x < 4294967295" for x using canonicalUnsigned_iff[of v x] by auto
    then show ?thesis using None by (auto simp: Cons_eq_map_conv)
  next
    case (Some x)
    then have v: "v = formatUint x" "x < 4294967295" using canonicalUnsigned_iff by auto
    have same: "formatUint x = formatUint y \<longleftrightarrow> x = y" for y by (metis digitsValue_formatUint)
    let ?good = "\<lambda>y. y < 4294967295 \<and> y \<noteq> g \<and> (uid \<noteq> 0 \<longrightarrow> y \<noteq> 0)"
    let ?after = "\<lambda>xs. sorted_wrt (<) ((case p of None \<Rightarrow> [] | Some y \<Rightarrow> [y]) @ xs)"
    have loop: "supplementaryLoop uid g p (v # vs) = None \<longleftrightarrow>
        ?good x \<and> ?after [x] \<and> supplementaryLoop uid g (Some x) vs = None"
      using Some v(2) by (auto split: option.splits)
    have chain: "?after [x] \<and> sorted_wrt (<) (x # gs) \<longleftrightarrow> ?after (x # gs)" for gs
      by (cases p) (auto dest: less_trans)
    have "(\<exists>gids. v # vs = map formatUint gids \<and> (\<forall>y \<in> set gids. ?good y) \<and> ?after gids) \<longleftrightarrow>
        (\<exists>gs. vs = map formatUint gs \<and> ?good x \<and> (\<forall>y \<in> set gs. ?good y) \<and> ?after (x # gs))"
      unfolding v(1) Cons_eq_map_conv using same by fastforce
    also have "\<dots> \<longleftrightarrow> (\<exists>gs. vs = map formatUint gs \<and> ?good x \<and> (\<forall>y \<in> set gs. ?good y) \<and> ?after [x] \<and> sorted_wrt (<) (x # gs))"
      by (simp only: chain)
    also have "\<dots> \<longleftrightarrow> ?good x \<and> ?after [x] \<and> supplementaryLoop uid g (Some x) vs = None"
      unfolding Cons.IH[of "Some x"] by auto
    finally show ?thesis unfolding loop by (rule sym)
  qed
qed (auto split: option.splits)

end
