(* ===== verification/SessionProperties.thy ===== *)
theory SessionProperties
  imports SessionLifecycleOrder SessionProtocolProofs SessionNames
begin

text \<open>
  The properties of controlled sessions: the lifecycle machine, the wire protocols, and the
  grammars of the names and identities an authorization carries.
\<close>

section \<open>A sample session\<close>

definition sampleIdentity :: IdentityV1 where
  "sampleIdentity = \<lparr>idUsername = ''dev'', idUID = ''1000'', idGID = ''1000'', idSupplementaryGIDs = Some [''1001'']\<rparr>"

definition sampleDigest :: string where
  "sampleDigest = ''sha256:'' @ replicate 64 CHR ''a''"

definition sampleEnvironment :: EnvironmentAuthorizationV1 where
  "sampleEnvironment = \<lparr>enDeploymentID = ''deployment-1'', enGenerationReference = ''generation-1'',
     enBuildIdentity = sampleDigest, enPlanDigest = sampleDigest, enRuntimeIdentity = sampleIdentity\<rparr>"

definition sampleAuthorization :: AuthorizationV1 where
  "sampleAuthorization = \<lparr>auSchema = AuthorizationSchemaV1, auHandle = ''session-'' @ replicate 64 CHR ''0'',
     auLiveRunID = ''run-'' @ replicate 16 CHR ''1'', auController = sampleEnvironment, auWorkload = sampleEnvironment,
     auOperations = Some [OperationCompleteV1, OperationInputV1, OperationTerminateV1], auEndpointIDs = Some [''web'']\<rparr>"

definition sampleMachine :: MachineV1 where
  "sampleMachine = \<lparr>maAuthorization = sampleAuthorization, maState = StatePreparingV1,
          maActivated = False, maCause = CauseEmpty, maWorkload = unknownProcess,
          maWorkloadOutputs = noOutputs,
          maController = controllerStatus ControllerFinalizationUnknownV1 [],
          maRuntimeObservation = \<lparr>roKind = RuntimeObservationMaintainedV1, roReason = []\<rparr>,
          maWaitingOutputs = False, maWaitingPublication = False, maWaitingFinalize = False,
          maResultDelivered = False, maResultAcknowledged = False, maResult = None\<rparr>"

lemma safeText_plain: "plainText s \<Longrightarrow> s \<noteq> [] \<Longrightarrow> length s \<le> 512 \<Longrightarrow> validateSafeTextV1 s"
  by (rule safeText_printable) (auto simp: plainText_def printable_def list_all_iff)

lemma sampleIdentity_valid: "ValidateIdentityV1 sampleIdentity = None"
  by (simp add: ValidateIdentityV1_def sampleIdentity_def ValidateUserName_def isLower_def isDigit_def canonicalUnsignedV1_def
      parseUint32_def credentialUnchangedSentinelV1_def)

lemma sampleEnvironment_valid: "validateEnvironmentAuthorizationV1 sampleEnvironment = None"
proof -
  have "validateSafeTextV1 ''deployment-1''" "validateSafeTextV1 ''generation-1''"
    by (rule safeText_plain, simp_all add: plainText_def)+
  moreover have "digestValidate sampleDigest"
    by (simp add: digestValidate_def ParseDigest_def sampleDigest_def hasPrefix_def isLowerHex_def isDigit_def list_all_iff)
  ultimately show ?thesis
    by (simp add: validateEnvironmentAuthorizationV1_def sampleEnvironment_def sampleIdentity_valid)
qed

lemma sampleAuthorization_valid: "ValidateAuthorizationV1 sampleAuthorization = None"
proof -
  have "sessionHandlePatternV1 (''session-'' @ replicate 64 CHR ''0'')"
    by (simp add: sessionHandlePatternV1_def hexPattern_def hasPrefix_def isLowerHex_def isDigit_def list_all_iff)
  moreover have "ValidateLiveRunIDV1 (''run-'' @ replicate 16 CHR ''1'') = None"
    by (simp add: ValidateLiveRunIDV1_def liveRunIDPatternV1_def hexPattern_def hasPrefix_def isLowerHex_def isDigit_def list_all_iff)
  moreover have "validateOperations None [OperationCompleteV1, OperationInputV1, OperationTerminateV1] = None"
    by (simp add: less_eq_char_def)
  moreover have "endpointnameValidate ''web''"
    by (simp add: endpointnameValidate_def maxLength_def componentPattern_def isLowerAlnum_def isLower_def)
  ultimately show ?thesis
    by (simp add: ValidateAuthorizationV1_def sampleAuthorization_def sampleEnvironment_valid)
qed

lemma sampleMachine_new: "NewMachineV1 sampleAuthorization = Inr sampleMachine"
proof -
  have "cloneAuthorizationV1 sampleAuthorization = sampleAuthorization"
    by (simp add: cloneAuthorizationV1_def sampleAuthorization_def cloneEnvironment_def sampleEnvironment_def sampleIdentity_def cloneSlice_def)
  then show ?thesis
    by (simp add: NewMachineV1_def sampleAuthorization_valid sampleMachine_def)
qed

lemma sampleMachine_reachable: "reachable sampleMachine"
  using sampleMachine_new rest by (auto simp: reachable_def)


section \<open>The machine\<close>

lemma only_finish_terminates:
  assumes "maState m \<noteq> StateTerminatedV1" "observeKind kind m t obs = Inr (m', t')" "kind \<noteq> ObservationFinishedV1"
  shows "maState m' \<noteq> StateTerminatedV1"
proof (cases kind)
  case ObservationWorkloadExitV1
  then have "observeWorkloadExit m t obs = Inr (m', t')" using assms(2) by simp
  then show ?thesis by (rule observeWorkloadExit_Inr) (use assms(1) in \<open>auto dest!: latch_state_pair[OF sym] split: if_splits\<close>)
next
  case ObservationControllerLostV1
  then have "observeControllerLost m t obs = Inr (m', t')" using assms(2) by simp
  then show ?thesis by (rule observeControllerLost_Inr) (use assms(1) in \<open>auto dest!: latch_state_pair[OF sym]\<close>)
next
  case ObservationRuntimeObservationLostV1
  then have "observeRuntimeObservationLost m t obs = Inr (m', t')" using assms(2) by simp
  then show ?thesis
    by (rule observeRuntimeObservationLost_Inr)
      (use assms(1) in \<open>auto dest!: latch_state_pair simp: finalizePreActivationOutputsForRuntimeObservationLossLocked_def\<close>)
next
  case ObservationStartupFailureV1
  then have "observeStartupFailure m t obs = Inr (m', t')" using assms(2) by simp
  then show ?thesis by (rule observeStartupFailure_Inr) (use assms(1) in \<open>auto dest!: latch_state_pair\<close>)
next
  case ObservationWorkloadOutputsFinalizedV1
  then have "observeOutputsFinalized m t obs = Inr (m', t')" using assms(2) by simp
  then show ?thesis by (rule observeOutputsFinalized_Inr) (use assms(1) in simp)
qed (use assms in \<open>auto dest!: observeActivated_Inr observeHostCancel_Inr observeCleanupContainmentLost_Inr
  observeOutputsPublished_Inr observeOutputsExpired_Inr observeFinalizationExpired_Inr dest: latch_state_pair[OF sym]\<close>)

lemma requests_never_terminate:
  assumes "maState m \<noteq> StateTerminatedV1"
  shows "maState (fst (applyRequestV1 m r discard)) \<noteq> StateTerminatedV1"
  using assms by (auto simp: applyRequestV1_def requestActive_def requestComplete_def Let_def latchLocked_def
      split: option.splits sum.splits prod.splits if_splits StateV1.splits RequestKindV1.splits)

lemma request_refusal:
  assumes "applyRequestV1 m r discard = (m', t, discarded, err)"
  shows "err \<noteq> None \<Longrightarrow> m' = m \<and> \<not> trRequestAccepted t \<and> \<not> discarded"
    "discarded \<Longrightarrow> m' = m \<and> discard \<and> \<not> trRequestAccepted t \<and> maState m = StateTerminatingV1
       \<and> rqKind r \<in> {RequestInputV1, RequestResizeV1}"
  using assms by (auto simp: applyRequestV1_def Let_def startTransition_def
      split: if_splits sum.splits prod.splits option.splits StateV1.splits)

lemma finish_barrier:
  assumes "machineOK m" "maState m \<noteq> StateTerminatedV1" "maState (stepped m event) = StateTerminatedV1"
  shows "maState m = StateTerminatingV1 \<and> \<not> maWaitingOutputs m \<and> \<not> maWaitingPublication m \<and> \<not> maWaitingFinalize m
    \<and> validateWorkloadOutputFinalizationStatusV1 (maWorkloadOutputs m) = None
    \<and> (\<exists>obs f. event = Observed obs \<and> obFinish obs = Some f \<and> maResult (stepped m event) = Some (finishResult m f))"
proof (cases event)
  case (Requested r discard)
  then show ?thesis using requests_never_terminate[OF assms(2)] assms(3) by simp
next
  case (Observed obs)
  then obtain m' t' where acc: "observeKind (obKind obs) m (startTransition m) obs = Inr (m', t')" "stepped m event = m'"
    using assms(2,3) by (auto simp: Observe_def Let_def split: if_splits sum.splits prod.splits)
  then have "obKind obs = ObservationFinishedV1"
    using only_finish_terminates[OF assms(2) acc(1)] assms(3) by auto
  then have "observeFinished m (startTransition m) obs = Inr (m', t')" using acc(1) by simp
  then show ?thesis
  proof (rule observeFinished_Inr)
    fix f assume f: "obFinish obs = Some f" "maState m = StateTerminatingV1" "\<not> maWaitingOutputs m"
      "\<not> maWaitingPublication m" "\<not> maWaitingFinalize m"
      "m' = m\<lparr>maWorkload := fiWorkloadStatus f, maController := fiController f,
           maResult := Some (finishResult m f), maState := StateTerminatedV1\<rparr>"
    have "validateWorkloadOutputFinalizationStatusV1 (maWorkloadOutputs m) = None"
      using assms(1) f(2,3) by (simp add: machineOK_terminating latchedOK_def outputsOK_def)
    then show ?thesis using f acc(2) Observed by auto
  qed
qed

text \<open>
  C10. Every machine that operations reach from a new one is in one of the four states; a cause is
  latched exactly once termination has begun; a result exists exactly in the terminated state,
  is valid, and reports the latched cause, the recorded workload status, the finalized outputs,
  the runtime observation and the controller's status; a result is delivered only after
  termination and acknowledged only after delivery.
\<close>

theorem session_invariant:
  assumes "reachable m"
  shows "maState m \<in> {StatePreparingV1, StateActiveV1, StateTerminatingV1, StateTerminatedV1}
    \<and> (maCause m = CauseEmpty) = (maState m \<in> {StatePreparingV1, StateActiveV1})
    \<and> (case maResult m of None \<Rightarrow> maState m \<noteq> StateTerminatedV1
       | Some r \<Rightarrow> maState m = StateTerminatedV1 \<and> ValidateResultV1 r = None \<and> rsCause r = maCause m
           \<and> rsWorkloadStatus r = maWorkload m \<and> rsWorkloadOutputs r = maWorkloadOutputs m
           \<and> rsRuntimeObservation r = maRuntimeObservation m \<and> rsController r = maController m)
    \<and> (maResultAcknowledged m \<longrightarrow> maResultDelivered m) \<and> (maResultDelivered m \<longrightarrow> maState m = StateTerminatedV1)"
proof (intro conjI)
  have ok: "machineOK m" using assms by (rule reachable_OK)
  then show states: "maState m \<in> {StatePreparingV1, StateActiveV1, StateTerminatingV1, StateTerminatedV1}"
    by (cases "maState m") (auto simp: machineOK_def)
  show "(maCause m = CauseEmpty) = (maState m \<in> {StatePreparingV1, StateActiveV1})"
    using ok states by (auto simp: machineOK_def quietOK_def dest: latched_cause)
  show "case maResult m of None \<Rightarrow> maState m \<noteq> StateTerminatedV1
       | Some r \<Rightarrow> maState m = StateTerminatedV1 \<and> ValidateResultV1 r = None \<and> rsCause r = maCause m
           \<and> rsWorkloadStatus r = maWorkload m \<and> rsWorkloadOutputs r = maWorkloadOutputs m
           \<and> rsRuntimeObservation r = maRuntimeObservation m \<and> rsController r = maController m"
    using ok by (cases "maState m = StateTerminatedV1") (auto simp: machineOK_def resultOK_def split: option.splits)
  show "maResultAcknowledged m \<longrightarrow> maResultDelivered m" "maResultDelivered m \<longrightarrow> maState m = StateTerminatedV1"
    using ok by (auto simp: machineOK_def)
qed

theorem session_invariant_witness:
  "reachable sampleMachine \<and> maCause sampleMachine = CauseEmpty \<and> maResult sampleMachine = None"
  using session_invariant[OF sampleMachine_reachable] sampleMachine_reachable by (simp add: sampleMachine_def)

text \<open>
  C11. A session only moves forward through its stages, whatever observations and requests arrive
  in whatever order.
\<close>

theorem session_order:
  assumes "reachable m" "evolves m m'"
  shows "stage m \<le> stage m'"
  using assms by (simp add: order.evolves_rel reachable_OK)

theorem session_order_witness:
  "stage sampleMachine \<le> stage (stepped sampleMachine (Observed (observation ObservationHostCancelV1 [])))"
  using session_order[OF sampleMachine_reachable more[OF rest]] by blast

text \<open>
  C12. The first termination cause is latched for good; so are the workload's exit status, the loss
  of the runtime observation, the authorization and, once there is one, the result.
\<close>

theorem session_facts_kept:
  assumes "reachable m" "evolves m m'"
  shows "maAuthorization m' = maAuthorization m
    \<and> (maCause m \<noteq> CauseEmpty \<longrightarrow> maCause m' = maCause m)
    \<and> (psKind (maWorkload m) \<noteq> ProcessStatusUnknownV1 \<longrightarrow> maWorkload m' = maWorkload m)
    \<and> (roKind (maRuntimeObservation m) = RuntimeObservationLostV1 \<longrightarrow> maRuntimeObservation m' = maRuntimeObservation m)
    \<and> (maResult m \<noteq> None \<longrightarrow> maResult m' = maResult m)"
  using facts.evolves_rel[OF assms(2) reachable_OK[OF assms(1)]] by (simp add: factsKept_def)

theorem session_facts_kept_witness:
  "maAuthorization (stepped sampleMachine (Observed (observation ObservationHostCancelV1 []))) = maAuthorization sampleMachine"
  using session_facts_kept[OF sampleMachine_reachable more[OF rest]] by blast

text \<open>
  C13. The controller's authority is what was granted: a session ended by the controller was granted
  termination, a controller that completed was granted completion, and a well-formed request
  whose operation is not granted is refused and changes nothing.
\<close>

theorem session_authority:
  assumes "reachable m"
  shows "(maCause m = CauseControllerTerminateV1 \<longrightarrow> containsOperationV1 (elems (auOperations (maAuthorization m))) OperationTerminateV1)
    \<and> (cfKind (maController m) = ControllerFinalizationCompletedV1 \<longrightarrow>
        containsOperationV1 (elems (auOperations (maAuthorization m))) OperationCompleteV1)
    \<and> (\<forall>r. ValidateRequestV1 r = None \<and> rqKind r \<noteq> RequestAcknowledgeTerminatedV1
        \<and> \<not> containsOperationV1 (elems (auOperations (maAuthorization m))) (operationForRequestV1 (rqKind r)) \<longrightarrow>
        (\<exists>t. ApplyRequest m r = (m, t, Some (OperationNotGranted (operationForRequestV1 (rqKind r))))))"
proof (intro conjI)
  have ok: "machineOK m" using assms by (rule reachable_OK)
  show "maCause m = CauseControllerTerminateV1 \<longrightarrow> containsOperationV1 (elems (auOperations (maAuthorization m))) OperationTerminateV1"
    using ok by (cases "maState m") (auto simp: machineOK_def quietOK_def latchedOK_def granted_def)
  show "cfKind (maController m) = ControllerFinalizationCompletedV1 \<longrightarrow>
      containsOperationV1 (elems (auOperations (maAuthorization m))) OperationCompleteV1"
    using ok by (cases "maState m") (auto simp: machineOK_def quietOK_def latchedOK_def granted_def)
qed (simp add: ApplyRequest_def applyRequestV1_def Let_def)

theorem session_authority_witness:
  "\<exists>t. ApplyRequest sampleMachine \<lparr>rqKind = RequestResizeV1, rqBytes = None, rqColumns = 80, rqRows = 24\<rparr>
     = (sampleMachine, t, Some (OperationNotGranted OperationResizeV1))"
proof -
  let ?r = "\<lparr>rqKind = RequestResizeV1, rqBytes = None, rqColumns = 80, rqRows = 24\<rparr> :: RequestV1"
  have "ValidateRequestV1 ?r = None" "rqKind ?r \<noteq> RequestAcknowledgeTerminatedV1"
      "\<not> containsOperationV1 (elems (auOperations (maAuthorization sampleMachine))) (operationForRequestV1 (rqKind ?r))"
    by (simp_all add: ValidateRequestV1_def validDimensionsV1_def sampleMachine_def sampleAuthorization_def containsOperationV1_def)
  then show ?thesis using session_authority[OF sampleMachine_reachable] by fastforce
qed

text \<open>
  A refused operation leaves the machine as it was and reports no change of state: an observation
  or request that returns an error, and terminal input that is discarded while terminating.
\<close>

theorem session_refusal:
  "(case Observe m obs of (m', t, err) \<Rightarrow> err \<noteq> None \<longrightarrow> m' = m \<and> trAfter t = trBefore t \<and> \<not> trCauseLatched t)
   \<and> (case applyRequestV1 m r discard of (m', t, discarded, err) \<Rightarrow>
        (err \<noteq> None \<longrightarrow> m' = m \<and> \<not> trRequestAccepted t \<and> \<not> discarded) \<and>
        (discarded \<longrightarrow> m' = m \<and> discard \<and> \<not> trRequestAccepted t \<and> maState m = StateTerminatingV1
           \<and> rqKind r \<in> {RequestInputV1, RequestResizeV1}))"
proof
  show "case Observe m obs of (m', t, err) \<Rightarrow> err \<noteq> None \<longrightarrow> m' = m \<and> trAfter t = trBefore t \<and> \<not> trCauseLatched t"
    by (simp add: Observe_def Let_def startTransition_def split: sum.splits prod.splits)
  show "case applyRequestV1 m r discard of (m', t, discarded, err) \<Rightarrow>
        (err \<noteq> None \<longrightarrow> m' = m \<and> \<not> trRequestAccepted t \<and> \<not> discarded) \<and>
        (discarded \<longrightarrow> m' = m \<and> discard \<and> \<not> trRequestAccepted t \<and> maState m = StateTerminatingV1
           \<and> rqKind r \<in> {RequestInputV1, RequestResizeV1})"
    using request_refusal[of m r discard] by (auto split: prod.splits)
qed

theorem session_refusal_witness:
  "fst (Observe sampleMachine (observation ObservationWorkloadOutputsPublishedV1 [])) = sampleMachine"
proof -
  have "Observe sampleMachine (observation ObservationWorkloadOutputsPublishedV1 []) =
      (sampleMachine, startTransition sampleMachine, Some PublishedInvalid)"
    by (simp add: Observe_def observation_def sampleMachine_def observeOutputsPublished_def)
  then show ?thesis
    using session_refusal[of sampleMachine "observation ObservationWorkloadOutputsPublishedV1 []"] by simp
qed

text \<open>
  C14. No session is stuck: from every machine that has not terminated, giving up the controller and
  the runtime observation and letting the outputs expire leads to a machine that accepts the
  finish and terminates.
\<close>

theorem session_can_terminate:
  assumes "reachable m" "maState m \<noteq> StateTerminatedV1"
  shows "let m' = observeAll m abandonment in maState (fst (Observe m' (finishing (finishOf m')))) = StateTerminatedV1"
  using assms by (intro abandoned reachable_OK)

theorem session_can_terminate_witness:
  "let m' = observeAll sampleMachine abandonment in maState (fst (Observe m' (finishing (finishOf m')))) = StateTerminatedV1"
  by (rule session_can_terminate[OF sampleMachine_reachable]) (simp add: sampleMachine_def)

text \<open>
  Only a finish terminates a session, and only when nothing is awaited: the outputs are finalized
  and published, and the controller is no longer awaited.
\<close>

theorem session_finish_barrier:
  assumes "reachable m" "maState m \<noteq> StateTerminatedV1" "maState (stepped m event) = StateTerminatedV1"
  shows "maState m = StateTerminatingV1 \<and> \<not> maWaitingOutputs m \<and> \<not> maWaitingPublication m \<and> \<not> maWaitingFinalize m
    \<and> validateWorkloadOutputFinalizationStatusV1 (maWorkloadOutputs m) = None
    \<and> (\<exists>obs f. event = Observed obs \<and> obFinish obs = Some f \<and> maResult (stepped m event) = Some (finishResult m f))"
  by (rule finish_barrier[OF reachable_OK[OF assms(1)] assms(2,3)])


definition cancelledMachine :: MachineV1 where
  "cancelledMachine = sampleMachine\<lparr>maCause := CauseHostCancelV1, maState := StateTerminatingV1, maWorkloadOutputs := drainedOutputs\<rparr>"

definition cancelledFinish :: FinishV1 where
  "cancelledFinish = (finishOf cancelledMachine)\<lparr>fiController := controllerStatus ControllerFinalizationNotCompletedV1 []\<rparr>"

lemma cancelledMachine_reachable: "reachable cancelledMachine"
proof -
  have "stepped sampleMachine (Observed (observation ObservationHostCancelV1 [])) = cancelledMachine"
    by (simp add: Observe_def observation_def sampleMachine_def observeHostCancel_def validateCauseObservationV1_def
        validateOptionalSafeTextV1_def latchLocked_def startTransition_def cancelledMachine_def)
  then show ?thesis
    using more[OF rest, of sampleMachine "Observed (observation ObservationHostCancelV1 [])"] sampleMachine_new
    by (auto simp: reachable_def)
qed

lemma cancelledMachine_finishes: "maState (stepped cancelledMachine (Observed (finishing cancelledFinish))) = StateTerminatedV1"
  by (simp add: Observe_def finishing_def observation_def cancelledMachine_def sampleMachine_def observeFinished_def
      cancelledFinish_def finishOf_def validateFinishV1_def validateProcessStatusV1_def unknownProcess_def drainedOutputs_def
      validateWorkloadOutputFinalizationStatusV1_def validateTerminalControllerFinalizationStatusV1_def validateOptionalSafeTextV1_def
      validateCleanupResultV1_def validateControllerFinishLocked_def ValidateResultV1_def finishResult_def validTerminationCauseV1_def
      validateRuntimeObservationStatusV1_def validateResultConsistencyV1_def)

theorem session_finish_barrier_witness:
  "\<not> maWaitingOutputs cancelledMachine \<and> maResult (stepped cancelledMachine (Observed (finishing cancelledFinish))) =
     Some (finishResult cancelledMachine cancelledFinish)"
  using session_finish_barrier[OF cancelledMachine_reachable _ cancelledMachine_finishes]
  by (simp add: cancelledMachine_def finishing_def)

section \<open>The protocols\<close>

text \<open>
  C15. The reader of the session protocol accepts exactly what the writer writes: it returns a request
  and the rest of the stream if and only if the stream begins with the bytes of that request;
  and every valid request whose payload fits a frame is written.
\<close>

theorem request_roundtrip:
  "(ReadRequestV1 input = Inr (r, rest) \<longleftrightarrow> (\<exists>bytes. WriteRequestV1 r = Some (Inr bytes) \<and> input = bytes @ rest))
   \<and> (ValidateRequestV1 r = None \<and> length (elems (rqBytes r)) \<le> MaxFramePayloadV1 \<longrightarrow> (\<exists>bytes. WriteRequestV1 r = Some (Inr bytes)))"
proof
  show "ReadRequestV1 input = Inr (r, rest) \<longleftrightarrow> (\<exists>bytes. WriteRequestV1 r = Some (Inr bytes) \<and> input = bytes @ rest)"
    using sessionWire.decode_iff[of input r rest] by simp
  show "ValidateRequestV1 r = None \<and> length (elems (rqBytes r)) \<le> MaxFramePayloadV1 \<longrightarrow> (\<exists>bytes. WriteRequestV1 r = Some (Inr bytes))"
    by (cases "rqKind r") (auto simp: WriteRequestV1_bytes encodeRequestPayloadV1_def frameBytes_Inr MaxFramePayloadV1_def
        ValidateRequestV1_def)
qed

definition sampleRequest :: RequestV1 where
  "sampleRequest = \<lparr>rqKind = RequestInputV1, rqBytes = Some ''ls'', rqColumns = 0, rqRows = 0\<rparr>"

definition sampleRequestBytes :: string where
  "sampleRequestBytes = ''RPSN'' @ map char_of [1, 1, 0, 0, 0, 2 :: nat] @ ''ls''"

lemma sampleRequest_written: "WriteRequestV1 sampleRequest = Some (Inr sampleRequestBytes)"
  by (simp add: WriteRequestV1_def sampleRequest_def ValidateRequestV1_def encodeRequestPayloadV1_def writeFrameV1_def frameBytes_def
      MaxFramePayloadV1_def frameMagicV1_def ProtocolVersionV1_def putUint32_def sampleRequestBytes_def)

theorem request_roundtrip_witness:
  "ReadRequestV1 (sampleRequestBytes @ ''tail'') = Inr (sampleRequest, ''tail'')"
  using request_roundtrip[of "sampleRequestBytes @ ''tail''" sampleRequest "''tail''"] sampleRequest_written by simp

text \<open>
  A stream of requests has one reading: two sequences of requests that are written as the same
  bytes are the same sequence.
\<close>

theorem requests_uniquely_decodable:
  assumes "map WriteRequestV1 xs = map (\<lambda>bs. Some (Inr bs)) bss" "map WriteRequestV1 ys = map (\<lambda>bs. Some (Inr bs)) css"
    "concat bss = concat css"
  shows "xs = ys"
proof -
  have bytes: "map WriteRequestV1 zs = map (\<lambda>bs. Some (Inr bs)) dss \<Longrightarrow> map requestBytes zs = map Some dss" for zs dss
    by (induction zs arbitrary: dss) (auto simp: Cons_eq_map_conv)
  show ?thesis by (rule sessionWire.uniquely_decodable[OF bytes[OF assms(1)] bytes[OF assms(2)] assms(3)])
qed

theorem requests_uniquely_decodable_witness:
  "map WriteRequestV1 [sampleRequest, sampleRequest] = map (\<lambda>bs. Some (Inr bs)) [sampleRequestBytes, sampleRequestBytes]
   \<and> [sampleRequest, sampleRequest] = [sampleRequest] @ [sampleRequest]"
proof -
  have w: "map WriteRequestV1 [sampleRequest, sampleRequest] = map (\<lambda>bs. Some (Inr bs)) [sampleRequestBytes, sampleRequestBytes]"
    by (simp add: sampleRequest_written)
  moreover have "map WriteRequestV1 ([sampleRequest] @ [sampleRequest]) = map (\<lambda>bs. Some (Inr bs)) [sampleRequestBytes, sampleRequestBytes]"
    by (simp add: sampleRequest_written)
  ultimately show ?thesis using requests_uniquely_decodable by blast
qed

text \<open>
  The terminal protocol reads exactly what it writes, and refuses every proper prefix of a frame,
  so that a truncated stream is never taken for a request.
\<close>

theorem terminal_roundtrip:
  "(ReadTerminalRequestV1 input = Inr (r, rest) \<longleftrightarrow> (\<exists>bytes. WriteTerminalRequestV1 r = Inr bytes \<and> input = bytes @ rest))
   \<and> (WriteTerminalRequestV1 r = Inr frame \<and> n < length frame \<longrightarrow> (\<exists>e. ReadTerminalRequestV1 (take n frame) = Inl e))"
proof
  show "ReadTerminalRequestV1 input = Inr (r, rest) \<longleftrightarrow> (\<exists>bytes. WriteTerminalRequestV1 r = Inr bytes \<and> input = bytes @ rest)"
    using terminalWire.decode_iff[of input r rest] by simp
  show "WriteTerminalRequestV1 r = Inr frame \<and> n < length frame \<longrightarrow> (\<exists>e. ReadTerminalRequestV1 (take n frame) = Inl e)"
    using terminalWire.proper_prefix_undecodable[of r frame n] by (auto simp: toOption_def split: sum.splits)
qed

theorem terminal_roundtrip_witness:
  "\<exists>e. ReadTerminalRequestV1 (take 9 (''RPTM'' @ map char_of [1, 1, 0, 0, 0, 2 :: nat] @ ''ls'')) = Inl e"
proof -
  have "WriteTerminalRequestV1 sampleRequest = Inr (''RPTM'' @ map char_of [1, 1, 0, 0, 0, 2 :: nat] @ ''ls'')"
    by (simp add: WriteTerminalRequestV1_def sampleRequest_def ValidateRequestV1_def writeTerminalFrameV1_def frameBytes_def
        MaxFramePayloadV1_def terminalFrameMagicV1_def ProtocolVersionV1_def putUint32_def)
  then show ?thesis
    using terminal_roundtrip[of _ sampleRequest _ "''RPTM'' @ map char_of [1, 1, 0, 0, 0, 2 :: nat] @ ''ls''" 9] by simp
qed

text \<open>
  C16. Writing through a writer that may take the bytes in pieces: what reaches the sink is always a
  prefix of the bytes, all of them when the write reports success, and it does succeed when
  every write makes progress without failing.
\<close>

theorem write_all:
  assumes "writerContract take_in sink"
  shows "(\<exists>k \<le> length content. sink (fst (writeAllV1 take_in w content)) = sink w @ take k content
      \<and> (snd (writeAllV1 take_in w content) = WroteAll \<longrightarrow> k = length content))
    \<and> ((\<forall>v bytes. bytes \<noteq> [] \<longrightarrow> (\<exists>v' n. take_in v bytes = (v', n, False) \<and> 0 < n)) \<longrightarrow>
        snd (writeAllV1 take_in w content) = WroteAll)"
proof
  show "\<exists>k \<le> length content. sink (fst (writeAllV1 take_in w content)) = sink w @ take k content
      \<and> (snd (writeAllV1 take_in w content) = WroteAll \<longrightarrow> k = length content)"
    using writeAll_sink[OF assms, of w content] by (cases "writeAllV1 take_in w content") simp
  show "(\<forall>v bytes. bytes \<noteq> [] \<longrightarrow> (\<exists>v' n. take_in v bytes = (v', n, False) \<and> 0 < n)) \<longrightarrow>
        snd (writeAllV1 take_in w content) = WroteAll"
    using writeAll_completes[OF assms] by blast
qed

definition pairWriter :: "string \<Rightarrow> string \<Rightarrow> string \<times> int \<times> bool" where
  "pairWriter w bytes = (w @ take 2 bytes, int (min 2 (length bytes)), False)"

theorem write_all_witness: "writeAllV1 pairWriter [] ''hello'' = (''hello'', WroteAll)"
proof -
  have contract: "writerContract pairWriter (\<lambda>w. w)"
    by (auto simp: writerContract_def pairWriter_def min_def)
  have "\<forall>v bytes. bytes \<noteq> [] \<longrightarrow> (\<exists>v' n. pairWriter v bytes = (v', n, False) \<and> 0 < n)"
    by (simp add: pairWriter_def)
  then show ?thesis
    using write_all[OF contract, of "''hello''" "[]"] by (cases "writeAllV1 pairWriter [] ''hello''") auto
qed


section \<open>Names, numbers and events\<close>

text \<open>
  A valid opened event announces exactly the endpoints its authorization names, in that order,
  each on the workload host with a usable port, and a usable terminal size.
\<close>

theorem opened_event_endpoints:
  assumes "ValidateEventV1 event = None" "evKind event = EventOpenedV1"
  shows "\<exists>opened endpoints. evOpened event = Some opened \<and> opEndpoints opened = Some endpoints
    \<and> ValidateAuthorizationV1 (opAuthorization opened) = None
    \<and> map epID endpoints = elems (auEndpointIDs (opAuthorization opened))
    \<and> list_all (\<lambda>e. epHost e = WorkloadEndpointHostV1 \<and> unat (epPort e) \<in> {1..65535}) endpoints
    \<and> unat (opColumns opened) \<in> {1..65535} \<and> unat (opRows opened) \<in> {1..65535}"
proof -
  from assms obtain opened where o: "evOpened event = Some opened" "ValidateAuthorizationV1 (opAuthorization opened) = None"
      "validateOpenedEndpointsV1 (opEndpoints opened) (elems (auEndpointIDs (opAuthorization opened))) = None"
      "validDimensionsV1 (opColumns opened) (opRows opened)"
    by (auto simp: ValidateEventV1_def Let_def split: option.splits if_splits)
  from o(3) obtain es where es: "opEndpoints opened = Some es" "map epID es = elems (auEndpointIDs (opAuthorization opened))"
      "\<forall>e \<in> set es. ValidateEndpointV1 e = None"
    by (auto simp: validateOpenedEndpointsV1_def endpointsLoop_None split: option.splits if_splits)
  have port: "w \<noteq> 0 \<and> \<not> w > 65535 \<longleftrightarrow> unat w \<in> {1..65535}" for w :: "32 word"
    by (auto simp: word_less_nat_alt unat_gt_0 Suc_le_eq simp flip: unat_gt_0)
  have size: "w \<ge> 1 \<and> w \<le> 65535 \<longleftrightarrow> unat w \<in> {1..65535}" for w :: "32 word"
    by (simp add: word_le_nat_alt)
  have "list_all (\<lambda>e. epHost e = WorkloadEndpointHostV1 \<and> unat (epPort e) \<in> {1..65535}) es"
    using es(3) unfolding list_all_iff port[symmetric] by (auto simp: ValidateEndpointV1_def split: if_splits)
  moreover have "unat (opColumns opened) \<in> {1..65535} \<and> unat (opRows opened) \<in> {1..65535}"
    using o(4) unfolding validDimensionsV1_def size[symmetric] by simp
  ultimately show ?thesis using o(1,2) es(1,2) by blast
qed

definition sampleOpened :: EventV1 where
  "sampleOpened = \<lparr>evKind = EventOpenedV1, evBytes = None, evOpened = Some \<lparr>opAuthorization = sampleAuthorization,
     opEndpoints = Some [\<lparr>epID = ''web'', epScheme = ''http'', epHost = ''workload'', epPort = 8080\<rparr>],
     opColumns = 80, opRows = 24, opOutputFinalizationTimeoutMilliseconds = 500\<rparr>, evWorkloadExit = None, evTerminating = None,
     evDiagnostic = None, evWorkloadOutputsFinalized = None, evTerminated = None\<rparr>"

theorem opened_event_endpoints_witness: "ValidateEventV1 sampleOpened = None \<and> (\<exists>opened. evOpened sampleOpened = Some opened)"
proof -
  have "endpointnameValidate ''web''"
    by (simp add: endpointnameValidate_def maxLength_def componentPattern_def isLowerAlnum_def isLower_def)
  then have "ValidateEndpointV1 \<lparr>epID = ''web'', epScheme = ''http'', epHost = ''workload'', epPort = 8080\<rparr> = None"
    by (simp add: ValidateEndpointV1_def endpointSchemePatternV1_def isLower_def isUpper_def WorkloadEndpointHostV1_def)
  then have "ValidateEventV1 sampleOpened = None"
    by (simp add: ValidateEventV1_def sampleOpened_def eventPayloadCountV1_def sampleAuthorization_valid validateOpenedEndpointsV1_def
        validDimensionsV1_def) (simp add: sampleAuthorization_def)
  moreover have "evKind sampleOpened = EventOpenedV1" by (simp add: sampleOpened_def)
  ultimately show ?thesis using opened_event_endpoints by blast
qed

text \<open>
  The validator of endpoint names accepts exactly the non-empty names of at most 128 bytes that
  consist of lower-case alphanumeric segments joined by one dot, one or two underscores, or
  dashes.
\<close>

theorem endpoint_name_language: "endpointnameValidate s = (length s \<le> 128 \<and> componentName s)"
  using componentPattern_grammar[of s] by (auto simp: endpointnameValidate_def maxLength_def componentName_def)

text \<open>
  A valid identity is the canonical text of numeric identities: its user and group IDs are the
  printed form of numbers below the unchanged sentinel, the name root belongs to ID 0 alone,
  a non-root user has no root group, and the supplementary groups are strictly increasing and
  exclude the primary group.
\<close>

theorem identity_canonical:
  "ValidateIdentityV1 i = None \<longleftrightarrow> ValidateUserName (idUsername i) = None \<and>
     (\<exists>uid gid gids. idUID i = formatUint uid \<and> idGID i = formatUint gid \<and> idSupplementaryGIDs i = Some (map formatUint gids)
        \<and> uid < 2 ^ 32 - 1 \<and> gid < 2 ^ 32 - 1 \<and> (uid = 0) = (idUsername i = ''root'') \<and> (uid \<noteq> 0 \<longrightarrow> gid \<noteq> 0)
        \<and> list_all (\<lambda>g. g < 2 ^ 32 - 1 \<and> g \<noteq> gid \<and> (uid \<noteq> 0 \<longrightarrow> g \<noteq> 0)) gids \<and> sorted_wrt (<) gids)"
proof (cases "canonicalUnsignedV1 (idUID i)")
  case None
  then have "idUID i \<noteq> formatUint n \<or> \<not> n < 2 ^ 32 - 1" for n using canonicalUnsigned_iff[of "idUID i" n] by auto
  then show ?thesis using None by (auto simp: ValidateIdentityV1_def)
next
  case uid: (Some uid)
  show ?thesis
  proof (cases "canonicalUnsignedV1 (idGID i)")
    case None
    then have "idGID i \<noteq> formatUint n \<or> \<not> n < 2 ^ 32 - 1" for n using canonicalUnsigned_iff[of "idGID i" n] by auto
    then show ?thesis using None uid by (auto simp: ValidateIdentityV1_def)
  next
    case gid: (Some gid)
    have ids: "idUID i = formatUint uid" "uid < 2 ^ 32 - 1" "idGID i = formatUint gid" "gid < 2 ^ 32 - 1"
      using uid gid by (simp_all add: canonicalUnsigned_iff)
    have same: "formatUint x = formatUint y \<longleftrightarrow> x = y" for x y by (metis digitsValue_formatUint)
    have "ValidateIdentityV1 i = None \<longleftrightarrow> ValidateUserName (idUsername i) = None \<and> (uid = 0) = (idUsername i = ''root'')
        \<and> (uid \<noteq> 0 \<longrightarrow> gid \<noteq> 0) \<and> (\<exists>texts. idSupplementaryGIDs i = Some texts \<and> supplementaryLoop uid gid None texts = None)"
      using uid gid by (auto simp: ValidateIdentityV1_def split: option.splits)
    also have "\<dots> \<longleftrightarrow> ValidateUserName (idUsername i) = None \<and> (uid = 0) = (idUsername i = ''root'') \<and> (uid \<noteq> 0 \<longrightarrow> gid \<noteq> 0)
        \<and> (\<exists>gids. idSupplementaryGIDs i = Some (map formatUint gids)
            \<and> list_all (\<lambda>g. g < 2 ^ 32 - 1 \<and> g \<noteq> gid \<and> (uid \<noteq> 0 \<longrightarrow> g \<noteq> 0)) gids \<and> sorted_wrt (<) gids)"
      unfolding supplementaryLoop_None list_all_iff by simp blast
    finally show ?thesis using ids by (auto simp: same)
  qed
qed

theorem identity_canonical_witness: "ValidateIdentityV1 sampleIdentity = None \<and> (\<exists>uid. idUID sampleIdentity = formatUint uid)"
  using identity_canonical[of sampleIdentity] sampleIdentity_valid by blast

end
