(* ===== verification/IdentityGeometry.thy ===== *)
theory IdentityGeometry
  imports Prelude "HOL-Library.Word" "HOL-Library.Product_Lexorder"
begin

text \<open>
  The mapping geometry of \<open>src/internal/identitymapping/geometry.go\<close> and the intervals and host
  spans of \<open>host.go\<close>. An interval keeps its fields at 32 bits. The code adds two of them as
  \<open>uint64\<close>, which cannot wrap, and the model adds them as natural numbers; the conversion
  back to \<open>uint32\<close> in \<open>combineReservations\<close> is a conversion to \<^typ>\<open>32 word\<close>, which can.
\<close>

section \<open>Intervals and spans\<close>

record Interval =
  ivContainerStart :: "32 word"
  ivHostStart :: "32 word"
  ivCount :: "32 word"

record span =
  spStart :: nat
  spCount :: nat

definition maxUint32 :: nat where
  "maxUint32 = 4294967295"

datatype geometry_error =
    IntervalUnusable | SpansEmpty | HostRoot | HostOverlap | ProfileUnknown
  | IntervalCount string | GeometryInterval string geometry_error | ContainerOverlap string | AssignmentChanged
  | ProposedInvalid geometry_error | RetainedInvalid geometry_error | ProfileChanged | BoundedChanged

definition spanEnd :: "span \<Rightarrow> nat" where
  "spanEnd s = spStart s + spCount s"

definition overlaps :: "span \<Rightarrow> span \<Rightarrow> bool" where
  "overlaps s t \<longleftrightarrow> spStart s < spanEnd t \<and> spStart t < spanEnd s"

definition ValidateInterval :: "Interval \<Rightarrow> geometry_error check" where
  "ValidateInterval v =
     (if ivCount v = 0 \<or> unat (ivContainerStart v) + unat (ivCount v) > maxUint32
         \<or> unat (ivHostStart v) + unat (ivCount v) > maxUint32 then Some IntervalUnusable else None)"

definition containerEnd :: "Interval \<Rightarrow> nat" where
  "containerEnd v = unat (ivContainerStart v) + unat (ivCount v)"

definition bindingOffset :: "Interval \<Rightarrow> int" where
  "bindingOffset v = int (unat (ivHostStart v)) - int (unat (ivContainerStart v))"

definition sortSpans :: "span list \<Rightarrow> span list" where
  "sortSpans = sort_key (\<lambda>s. (spStart s, spCount s))"

fun spanLoop :: "Interval list \<Rightarrow> geometry_error + span list" where
  "spanLoop [] = Inr []"
| "spanLoop (v # vs) =
     (case ValidateInterval v of
        Some e \<Rightarrow> Inl e
      | None \<Rightarrow>
          if ivHostStart v = 0 then Inl HostRoot
          else (case spanLoop vs of
                  Inl e \<Rightarrow> Inl e
                | Inr ss \<Rightarrow> Inr (\<lparr>spStart = unat (ivHostStart v), spCount = unat (ivCount v)\<rparr> # ss)))"

fun neighboursOverlap :: "span list \<Rightarrow> bool" where
  "neighboursOverlap (s # t # ss) = (overlaps s t \<or> neighboursOverlap (t # ss))"
| "neighboursOverlap _ = False"

definition hostSpans :: "Interval list \<Rightarrow> geometry_error + span list" where
  "hostSpans vs =
     (if vs = [] then Inl SpansEmpty
      else case spanLoop vs of
        Inl e \<Rightarrow> Inl e
      | Inr ss \<Rightarrow> (let ordered = sortSpans ss in if neighboursOverlap ordered then Inl HostOverlap else Inr ordered))"

section \<open>Geometry\<close>

record Geometry =
  gmProfile :: string
  gmUIDs :: "Interval list"
  gmGIDs :: "Interval list"

text \<open>
  \<open>slices.SortFunc\<close> returns a sorted permutation and promises no order among equal container
  starts; \<^const>\<open>sort_key\<close> is one such permutation. The properties show that the results do
  not depend on the choice.
\<close>

definition sortContainerIntervals :: "Interval list \<Rightarrow> Interval list" where
  "sortContainerIntervals = sort_key ivContainerStart"

text \<open>The loop of \<open>combineReservations\<close>, with the result reversed: its last element is the head.\<close>

fun combineLoop :: "Interval list \<Rightarrow> Interval list \<Rightarrow> geometry_error + Interval list" where
  "combineLoop acc [] = Inr (rev acc)"
| "combineLoop [] (v # vs) = combineLoop [v] vs"
| "combineLoop (tip # acc) (v # vs) =
     (let overlapping = unat (ivContainerStart v) < containerEnd tip;
          adjacent = (unat (ivContainerStart v) = containerEnd tip);
          sameBinding = (bindingOffset v = bindingOffset tip)
      in if overlapping \<and> \<not> sameBinding then Inl AssignmentChanged
         else if sameBinding \<and> (overlapping \<or> adjacent) then
           combineLoop (tip\<lparr>ivCount := of_nat (max (containerEnd tip) (containerEnd v) - unat (ivContainerStart tip))\<rparr> # acc) vs
         else combineLoop (v # tip # acc) vs)"

definition combineReservations :: "Interval list \<Rightarrow> geometry_error + Interval list" where
  "combineReservations vs = combineLoop [] vs"

fun containerLoop :: "string \<Rightarrow> Interval option \<Rightarrow> Interval list \<Rightarrow> geometry_error check" where
  "containerLoop kind previous [] = None"
| "containerLoop kind previous (v # vs) =
     (case ValidateInterval v of
        Some e \<Rightarrow> Some (GeometryInterval kind e)
      | None \<Rightarrow>
          if (case previous of None \<Rightarrow> False | Some p \<Rightarrow> unat (ivContainerStart v) < containerEnd p)
          then Some (ContainerOverlap kind)
          else containerLoop kind (Some v) vs)"

text \<open>One iteration of the loop over the two collision domains.\<close>

definition validateDomain :: "string \<Rightarrow> string \<Rightarrow> Interval list \<Rightarrow> geometry_error + Interval list" where
  "validateDomain profile kind values =
     (if values = [] \<or> profile = ''bounded'' \<and> length values \<noteq> 1 then Inl (IntervalCount kind)
      else
        let ordered = sortContainerIntervals values
        in case containerLoop kind None ordered of
             Some e \<Rightarrow> Inl e
           | None \<Rightarrow>
               (case hostSpans ordered of
                  Inl e \<Rightarrow> Inl (GeometryInterval kind e)
                | Inr _ \<Rightarrow> combineReservations ordered))"

definition ValidateGeometry :: "Geometry \<Rightarrow> geometry_error + Geometry" where
  "ValidateGeometry value =
     (if gmProfile value \<noteq> ''exact'' \<and> gmProfile value \<noteq> ''bounded'' then Inl ProfileUnknown
      else case validateDomain (gmProfile value) ''UID'' (gmUIDs value) of
        Inl e \<Rightarrow> Inl e
      | Inr uids \<Rightarrow>
          (case validateDomain (gmProfile value) ''GID'' (gmGIDs value) of
             Inl e \<Rightarrow> Inl e
           | Inr gids \<Rightarrow> Inr \<lparr>gmProfile = gmProfile value, gmUIDs = uids, gmGIDs = gids\<rparr>))"

definition retainDomain :: "string \<Rightarrow> Interval list \<Rightarrow> Interval list \<Rightarrow> geometry_error + Interval list" where
  "retainDomain kind protected values =
     (case combineReservations (sortContainerIntervals (protected @ values)) of
        Inl e \<Rightarrow> Inl (GeometryInterval kind e)
      | Inr reserved \<Rightarrow>
          (case hostSpans reserved of
             Inl e \<Rightarrow> Inl (GeometryInterval kind e)
           | Inr _ \<Rightarrow> Inr reserved))"

definition RetainGeometry :: "Geometry \<Rightarrow> Geometry option \<Rightarrow> geometry_error + Geometry" where
  "RetainGeometry proposed retained =
     (case ValidateGeometry proposed of
        Inl e \<Rightarrow> Inl (ProposedInvalid e)
      | Inr candidate \<Rightarrow>
          (case retained of
             None \<Rightarrow> Inr candidate
           | Some r \<Rightarrow>
               (case ValidateGeometry r of
                  Inl e \<Rightarrow> Inl (RetainedInvalid e)
                | Inr previous \<Rightarrow>
                    if gmProfile candidate \<noteq> gmProfile previous then Inl ProfileChanged
                    else if gmProfile candidate = ''bounded'' then
                      (if gmUIDs candidate \<noteq> gmUIDs previous \<or> gmGIDs candidate \<noteq> gmGIDs previous
                       then Inl BoundedChanged else Inr previous)
                    else case retainDomain ''UID'' (gmUIDs previous) (gmUIDs candidate) of
                        Inl e \<Rightarrow> Inl e
                      | Inr uids \<Rightarrow>
                          (case retainDomain ''GID'' (gmGIDs previous) (gmGIDs candidate) of
                             Inl e \<Rightarrow> Inl e
                           | Inr gids \<Rightarrow> Inr \<lparr>gmProfile = gmProfile candidate, gmUIDs = uids, gmGIDs = gids\<rparr>))))"

end
