(* ===== verification/IdentityGeometryProofs.thy ===== *)
theory IdentityGeometryProofs
  imports IdentityGeometry "HOL-Library.Multiset"
begin

text \<open>
  The lemmas on mapping geometry. An interval list denotes an assignment of container IDs to
  host IDs, a relation; \<open>combineReservations\<close> computes the canonical list of a relation that
  assigns each container ID once, and a canonical list is determined by what it denotes.
\<close>

declare of_nat_unat [simp del]

section \<open>What intervals denote\<close>

definition assigns :: "Interval \<Rightarrow> (nat \<times> nat) set" where
  "assigns v = {(unat (ivContainerStart v) + k, unat (ivHostStart v) + k) | k. k < unat (ivCount v)}"

definition assignment :: "Interval list \<Rightarrow> (nat \<times> nat) set" where
  "assignment vs = (\<Union>v \<in> set vs. assigns v)"

lemma assigns_iff: "(c, h) \<in> assigns v \<longleftrightarrow>
   unat (ivContainerStart v) \<le> c \<and> c < containerEnd v \<and> int h = int c + bindingOffset v"
proof
  assume "unat (ivContainerStart v) \<le> c \<and> c < containerEnd v \<and> int h = int c + bindingOffset v"
  then have "c = unat (ivContainerStart v) + (c - unat (ivContainerStart v))" "c - unat (ivContainerStart v) < unat (ivCount v)"
      "h = unat (ivHostStart v) + (c - unat (ivContainerStart v))"
    unfolding containerEnd_def bindingOffset_def by linarith+
  then show "(c, h) \<in> assigns v" unfolding assigns_def by blast
qed (auto simp: assigns_def containerEnd_def bindingOffset_def)

definition usable :: "Interval \<Rightarrow> bool" where
  "usable v \<longleftrightarrow> ValidateInterval v = None"

lemma usable_iff: "usable v \<longleftrightarrow> 0 < unat (ivCount v) \<and> containerEnd v \<le> maxUint32 \<and> unat (ivHostStart v) + unat (ivCount v) \<le> maxUint32"
  by (auto simp: usable_def ValidateInterval_def containerEnd_def unat_gt_0)

text \<open>The denotation of a usable interval determines it.\<close>

lemma usable_start: "usable v \<Longrightarrow> unat (ivContainerStart v) < containerEnd v"
  by (simp add: usable_iff containerEnd_def)

text \<open>Reservations in canonical form: increasing, disjoint, and merged wherever the binding allows it.\<close>

fun canonicalChain :: "Interval list \<Rightarrow> bool" where
  "canonicalChain (u # v # vs) = (containerEnd u \<le> unat (ivContainerStart v)
     \<and> \<not> (containerEnd u = unat (ivContainerStart v) \<and> bindingOffset u = bindingOffset v) \<and> canonicalChain (v # vs))"
| "canonicalChain _ = True"

definition reservations :: "Interval list \<Rightarrow> bool" where
  "reservations vs \<longleftrightarrow> list_all usable vs \<and> canonicalChain vs"

text \<open>Two intervals disagree when they send one container ID to different host IDs.\<close>

definition conflict :: "Interval \<Rightarrow> Interval \<Rightarrow> bool" where
  "conflict u v \<longleftrightarrow> (\<exists>c h h'. (c, h) \<in> assigns u \<and> (c, h') \<in> assigns v \<and> h \<noteq> h')"

definition merged :: "Interval \<Rightarrow> Interval \<Rightarrow> Interval" where
  "merged u v = u\<lparr>ivCount := of_nat (max (containerEnd u) (containerEnd v) - unat (ivContainerStart u))\<rparr>"

lemma unat_of_nat_small: "n \<le> maxUint32 \<Longrightarrow> unat (of_nat n :: 32 word) = n"
  by (simp add: unsigned_of_nat take_bit_nat_eq_self maxUint32_def)

lemma merged_fields:
  assumes "usable u" "usable v"
  shows "unat (ivContainerStart (merged u v)) = unat (ivContainerStart u)"
    "containerEnd (merged u v) = max (containerEnd u) (containerEnd v)" "bindingOffset (merged u v) = bindingOffset u"
proof -
  have le: "max (containerEnd u) (containerEnd v) \<le> maxUint32" using assms by (simp add: usable_iff)
  then have "unat (of_nat (max (containerEnd u) (containerEnd v) - unat (ivContainerStart u)) :: 32 word)
      = max (containerEnd u) (containerEnd v) - unat (ivContainerStart u)"
    by (intro unat_of_nat_small) linarith
  moreover have "unat (ivContainerStart u) \<le> max (containerEnd u) (containerEnd v)"
    by (simp add: containerEnd_def)
  ultimately show "containerEnd (merged u v) = max (containerEnd u) (containerEnd v)"
    by (simp add: merged_def containerEnd_def)
qed (simp_all add: merged_def bindingOffset_def)

lemma merged_usable:
  assumes "usable u" "usable v" "bindingOffset u = bindingOffset v" 
  shows "usable (merged u v)"
proof -
  note f = merged_fields[OF assms(1,2)]
  have count: "unat (ivCount w) = containerEnd w - unat (ivContainerStart w)" for w by (simp add: containerEnd_def)
  have host: "int (unat (ivHostStart w) + unat (ivCount w)) = int (containerEnd w) + bindingOffset w" for w
    by (simp add: containerEnd_def bindingOffset_def)
  have "int (unat (ivHostStart (merged u v)) + unat (ivCount (merged u v))) \<le> int maxUint32"
    using assms host[of u] host[of v] unfolding host[of "merged u v"] f usable_iff
    by (cases "containerEnd u \<le> containerEnd v") (simp only: max.absorb2 max.absorb1 linear, linarith)+
  moreover have "0 < unat (ivCount (merged u v))"
    unfolding count[of "merged u v"] f using usable_start[OF assms(1)] by simp
  moreover have "containerEnd (merged u v) \<le> maxUint32" unfolding f using assms by (simp add: usable_iff)
  ultimately show ?thesis unfolding usable_iff by linarith
qed

lemma merged_assigns:
  assumes "usable u" "usable v" "bindingOffset u = bindingOffset v"
    "unat (ivContainerStart u) \<le> unat (ivContainerStart v)" "unat (ivContainerStart v) \<le> containerEnd u"
  shows "assigns (merged u v) = assigns u \<union> assigns v"
proof -
  have "(c, h) \<in> assigns (merged u v) \<longleftrightarrow> (c, h) \<in> assigns u \<union> assigns v" for c h
    unfolding Un_iff assigns_iff merged_fields[OF assms(1,2)] using assms(3-5) by (auto simp: max_def split: if_splits)
  then show ?thesis by auto
qed

lemma assigns_total:
  assumes "unat (ivContainerStart v) \<le> c" "c < containerEnd v"
  obtains h where "(c, h) \<in> assigns v" "int h = int c + bindingOffset v"
proof
  have "0 \<le> int c + bindingOffset v" using assms(1) by (simp add: bindingOffset_def)
  then show "int (nat (int c + bindingOffset v)) = int c + bindingOffset v" by simp
  then show "(c, nat (int c + bindingOffset v)) \<in> assigns v" using assms by (simp add: assigns_iff)
qed

lemma conflict_overlap:
  assumes "usable v" "unat (ivContainerStart u) \<le> unat (ivContainerStart v)"
  shows "conflict u v \<longleftrightarrow> unat (ivContainerStart v) < containerEnd u \<and> bindingOffset u \<noteq> bindingOffset v"
proof
  assume "conflict u v"
  then show "unat (ivContainerStart v) < containerEnd u \<and> bindingOffset u \<noteq> bindingOffset v"
    by (auto simp: conflict_def assigns_iff)
next
  assume a: "unat (ivContainerStart v) < containerEnd u \<and> bindingOffset u \<noteq> bindingOffset v"
  let ?c = "unat (ivContainerStart v)"
  obtain h where h: "(?c, h) \<in> assigns u" "int h = int ?c + bindingOffset u"
    using assigns_total[OF assms(2)] a by blast
  obtain h' where "(?c, h') \<in> assigns v" "int h' = int ?c + bindingOffset v"
    using assigns_total[of v ?c] usable_start[OF assms(1)] by blast
  then show "conflict u v" using h a unfolding conflict_def by (intro exI[of _ ?c] exI[of _ h] exI[of _ h']) auto
qed

section \<open>Combining reservations\<close>

text \<open>The state of the loop: the reversed accumulator is canonical and its head ends last.\<close>

definition ordered :: "Interval list \<Rightarrow> bool" where
  "ordered vs \<longleftrightarrow> sorted (map (\<lambda>v. unat (ivContainerStart v)) vs)"

lemma ordered_Cons: "ordered (v # vs) \<longleftrightarrow> (\<forall>w \<in> set vs. unat (ivContainerStart v) \<le> unat (ivContainerStart w)) \<and> ordered vs"
  by (auto simp: ordered_def)

lemma canonicalChain_append:
  "canonicalChain (us @ [u, v]) \<longleftrightarrow> canonicalChain (us @ [u]) \<and> containerEnd u \<le> unat (ivContainerStart v)
     \<and> \<not> (containerEnd u = unat (ivContainerStart v) \<and> bindingOffset u = bindingOffset v)"
proof (induction us)
  case (Cons w us)
  then show ?case by (cases us) auto
qed simp

lemma canonicalChain_replace_last:
  assumes "canonicalChain (us @ [u])" "ivContainerStart w = ivContainerStart u" "bindingOffset w = bindingOffset u"
  shows "canonicalChain (us @ [w])"
proof (cases us rule: rev_cases)
  case (snoc ts t)
  then show ?thesis using assms by (simp add: canonicalChain_append)
qed simp

lemma chain_starts:
  assumes "canonicalChain vs" "list_all usable vs"
  shows "sorted_wrt (\<lambda>u v. containerEnd u \<le> unat (ivContainerStart v)) vs"
  using assms
proof (induction vs rule: canonicalChain.induct)
  case (1 u v vs)
  then have "sorted_wrt (\<lambda>u v. containerEnd u \<le> unat (ivContainerStart v)) (v # vs)" by simp
  moreover have "containerEnd u \<le> unat (ivContainerStart w)" if "w \<in> set (v # vs)" for w
    using 1 that calculation usable_start[of v] by fastforce
  ultimately show ?case by simp
qed simp_all

lemma assignment_simps [simp]: "assignment [] = {}" "assignment (v # vs) = assigns v \<union> assignment vs"
    "assignment (us @ vs) = assignment us \<union> assignment vs" "assignment (rev vs) = assignment vs"
  by (auto simp: assignment_def)

lemma assigns_single_valued: "single_valued (assigns v)"
  by (auto simp: single_valued_def assigns_iff)

lemma single_valued_Un_disjoint:
  "single_valued R \<Longrightarrow> single_valued S \<Longrightarrow> Domain R \<inter> Domain S = {} \<Longrightarrow> single_valued (R \<union> S)"
  unfolding single_valued_def by blast

lemma reservations_single_valued:
  assumes "reservations vs"
  shows "single_valued (assignment vs)"
proof -
  have "sorted_wrt (\<lambda>u v. containerEnd u \<le> unat (ivContainerStart v)) vs"
    using assms chain_starts by (simp add: reservations_def)
  then show ?thesis
  proof (induction vs)
    case (Cons v vs)
    have "Domain (assigns v) \<inter> Domain (assignment vs) = {}"
      using Cons.prems by (force simp: assignment_def assigns_iff)
    then show ?case using Cons single_valued_Un_disjoint[OF assigns_single_valued] by simp
  qed simp
qed

lemma conflict_not_single_valued:
  "conflict u v \<Longrightarrow> assigns u \<subseteq> R \<Longrightarrow> assigns v \<subseteq> R \<Longrightarrow> \<not> single_valued R"
  unfolding conflict_def single_valued_def by blast

definition combined :: "(nat \<times> nat) set \<Rightarrow> geometry_error + Interval list \<Rightarrow> bool" where
  "combined R outcome \<longleftrightarrow> (case outcome of
      Inr r \<Rightarrow> reservations r \<and> assignment r = R
    | Inl e \<Rightarrow> e = AssignmentChanged \<and> \<not> single_valued R)"

lemma combineLoop_spec:
  assumes "reservations (rev acc)" "list_all usable vs" "ordered vs"
    "\<And>u v. u \<in> set acc \<Longrightarrow> v \<in> set vs \<Longrightarrow> unat (ivContainerStart u) \<le> unat (ivContainerStart v)"
  shows "combined (assignment acc \<union> assignment vs) (combineLoop acc vs)"
  using assms
proof (induction acc vs rule: combineLoop.induct)
  case (1 acc)
  then show ?case by (simp add: combined_def)
next
  case (2 v vs)
  have "combined (assignment [v] \<union> assignment vs) (combineLoop [v] vs)"
    using 2 by (intro 2(1)) (auto simp: reservations_def ordered_Cons)
  then show ?case by simp
next
  case (3 tip acc v vs)
  let ?o = "unat (ivContainerStart v) < containerEnd tip" and ?a = "unat (ivContainerStart v) = containerEnd tip"
    and ?b = "bindingOffset v = bindingOffset tip"
  have tip: "usable tip" "list_all usable (rev acc)" "canonicalChain (rev acc @ [tip])"
    using "3.prems"(1) by (simp_all add: reservations_def)
  have v: "usable v" "list_all usable vs" "ordered vs" "\<And>w. w \<in> set vs \<Longrightarrow> unat (ivContainerStart v) \<le> unat (ivContainerStart w)"
    using "3.prems"(2,3) by (auto simp: ordered_Cons)
  have le: "unat (ivContainerStart tip) \<le> unat (ivContainerStart v)" using "3.prems"(4) by simp
  consider (clash) "?o" "\<not> ?b" | (merge) "?b" "?o \<or> ?a" | (append) "\<not> ?o" "\<not> (?b \<and> ?a)" by blast
  then show ?case
  proof cases
    case clash
    then have "conflict tip v" using conflict_overlap[OF v(1) le] by simp
    then have "\<not> single_valued (assignment (tip # acc) \<union> assignment (v # vs))"
      by (rule conflict_not_single_valued) auto
    then show ?thesis using clash by (simp add: combined_def)
  next
    case merge
    have b: "bindingOffset tip = bindingOffset v" using merge(1) by simp
    have m: "usable (merged tip v)" "assigns (merged tip v) = assigns tip \<union> assigns v"
      using merged_usable[OF tip(1) v(1) b] merged_assigns[OF tip(1) v(1) b le] merge(2) by auto
    have start: "ivContainerStart (merged tip v) = ivContainerStart tip" by (simp add: merged_def)
    have "combined (assignment (merged tip v # acc) \<union> assignment vs) (combineLoop (merged tip v # acc) vs)"
    proof -
      have "reservations (rev (merged tip v # acc))"
        using m(1) tip(2) canonicalChain_replace_last[OF tip(3) start] merged_fields(3)[OF tip(1) v(1)]
        by (simp add: reservations_def)
      moreover have "\<And>u w. u \<in> set (merged tip v # acc) \<Longrightarrow> w \<in> set vs \<Longrightarrow> unat (ivContainerStart u) \<le> unat (ivContainerStart w)"
        using "3.prems"(4) start by auto
      ultimately show ?thesis
        using "3.IH"(1)[OF refl refl refl] merge v(2,3) unfolding merged_def by auto
    qed
    moreover have "combineLoop (tip # acc) (v # vs) = combineLoop (merged tip v # acc) vs"
      using merge by (simp add: merged_def Let_def)
    ultimately show ?thesis using m(2) by (simp add: Un_assoc Un_left_commute Un_commute)
  next
    case append
    have "reservations (rev (v # tip # acc))"
      using tip v(1) append by (auto simp: reservations_def canonicalChain_append)
    moreover have "\<And>u w. u \<in> set (v # tip # acc) \<Longrightarrow> w \<in> set vs \<Longrightarrow> unat (ivContainerStart u) \<le> unat (ivContainerStart w)"
      using "3.prems"(4) v(4) by auto
    ultimately have "combined (assignment (v # tip # acc) \<union> assignment vs) (combineLoop (v # tip # acc) vs)"
      using "3.IH"(2)[OF refl refl refl] append v(2,3) by auto
    moreover have "combineLoop (tip # acc) (v # vs) = combineLoop (v # tip # acc) vs"
      using append by (auto simp: Let_def)
    ultimately show ?thesis by (simp add: Un_assoc Un_left_commute Un_commute)
  qed
qed

lemma combineReservations_spec:
  "list_all usable vs \<Longrightarrow> ordered vs \<Longrightarrow> combined (assignment vs) (combineReservations vs)"
  using combineLoop_spec[of "[]" vs] by (simp add: combineReservations_def reservations_def)

lemma combined_cases:
  assumes "combined R outcome"
  shows "single_valued R \<Longrightarrow> \<exists>r. outcome = Inr r \<and> reservations r \<and> assignment r = R"
    and "outcome = Inr r \<Longrightarrow> reservations r \<and> assignment r = R \<and> single_valued R"
  using assms reservations_single_valued by (auto simp: combined_def split: sum.splits)


section \<open>The canonical form is unique\<close>

lemma reservations_sorted: "reservations vs \<Longrightarrow> sorted_wrt (\<lambda>u v. containerEnd u \<le> unat (ivContainerStart v)) vs"
  using chain_starts by (simp add: reservations_def)

lemma assignment_starts:
  assumes "reservations (v # vs)" "(c, h) \<in> assignment vs"
  shows "containerEnd v \<le> c"
proof -
  have "sorted_wrt (\<lambda>u v. containerEnd u \<le> unat (ivContainerStart v)) (v # vs)"
    using assms(1) by (rule reservations_sorted)
  then show ?thesis using assms(2) by (fastforce simp: assignment_def assigns_iff)
qed

lemma reservations_Cons: "reservations (v # vs) \<Longrightarrow> usable v \<and> reservations vs"
  by (cases vs) (auto simp: reservations_def)

lemma first_start:
  assumes "reservations (u # us)"
  shows "\<exists>h. (unat (ivContainerStart u), h) \<in> assignment (u # us)"
    and "(c, h) \<in> assignment (u # us) \<Longrightarrow> unat (ivContainerStart u) \<le> c"
proof -
  have u: "usable u" using assms reservations_Cons by blast
  show "\<exists>h. (unat (ivContainerStart u), h) \<in> assignment (u # us)"
    using assigns_total[of u "unat (ivContainerStart u)"] usable_start[OF u] by auto
  show "(c, h) \<in> assignment (u # us) \<Longrightarrow> unat (ivContainerStart u) \<le> c"
    using assignment_starts[OF assms, of c h] usable_start[OF u] by (auto simp: assigns_iff)
qed

lemma first_end:
  assumes "reservations (u # us)"
  shows "\<not> (\<exists>h. (containerEnd u, h) \<in> assignment (u # us) \<and> int h = int (containerEnd u) + bindingOffset u)"
proof
  assume "\<exists>h. (containerEnd u, h) \<in> assignment (u # us) \<and> int h = int (containerEnd u) + bindingOffset u"
  then obtain h v where v: "v \<in> set us" "(containerEnd u, h) \<in> assigns v" "int h = int (containerEnd u) + bindingOffset u"
    by (auto simp: assignment_def assigns_iff)
  obtain w ws where us: "us = w # ws" using v(1) by (cases us) auto
  have sorted: "sorted_wrt (\<lambda>u v. containerEnd u \<le> unat (ivContainerStart v)) (u # us)"
    using assms by (rule reservations_sorted)
  have start: "unat (ivContainerStart v) = containerEnd u" using sorted v(1,2) by (auto simp: assigns_iff)
  have "v = w"
  proof (rule ccontr)
    assume "v \<noteq> w"
    then have "containerEnd w \<le> unat (ivContainerStart v)" "containerEnd u \<le> unat (ivContainerStart w)"
      using sorted v(1) us by auto
    moreover have "unat (ivContainerStart w) < containerEnd w"
      using assms us usable_start by (simp add: reservations_def)
    ultimately show False using start by simp
  qed
  moreover have "bindingOffset v = bindingOffset u" using v(2,3) by (simp add: assigns_iff)
  ultimately show False using assms us start by (simp add: reservations_def)
qed

lemma interval_eq:
  assumes "ivContainerStart u = ivContainerStart v" "containerEnd u = containerEnd v" "bindingOffset u = bindingOffset v"
  shows "(u :: Interval) = v"
proof -
  have "unat (ivCount u) = unat (ivCount v)" "unat (ivHostStart u) = unat (ivHostStart v)"
    using assms by (simp_all add: containerEnd_def bindingOffset_def)
  then have "ivCount u = ivCount v" "ivHostStart u = ivHostStart v" by (simp_all add: word_unat_eq_iff)
  then show ?thesis using assms(1) by (cases u; cases v) simp
qed

lemma first_equal:
  assumes "reservations (u # us)" "reservations (v # vs)" "assignment (u # us) = assignment (v # vs)"
  shows "ivContainerStart u = ivContainerStart v" "bindingOffset u = bindingOffset v" "containerEnd u \<le> containerEnd v"
proof -
  have s: "unat (ivContainerStart u) = unat (ivContainerStart v)"
    using first_start[OF assms(1)] first_start[OF assms(2)] assms(3) by (metis le_antisym)
  then show "ivContainerStart u = ivContainerStart v" by (simp add: word_unat_eq_iff)
  have u: "usable u" "usable v" using assms reservations_Cons by blast+
  obtain h where h: "(unat (ivContainerStart u), h) \<in> assigns u" "int h = int (unat (ivContainerStart u)) + bindingOffset u"
    using assigns_total[of u "unat (ivContainerStart u)"] usable_start[OF u(1)] by blast
  obtain h' where h': "(unat (ivContainerStart u), h') \<in> assigns v" "int h' = int (unat (ivContainerStart u)) + bindingOffset v"
    using assigns_total[of v "unat (ivContainerStart u)"] usable_start[OF u(2)] s by auto
  have "h = h'"
    using reservations_single_valued[OF assms(1)] h(1) h'(1) assms(3) by (auto simp: single_valued_def)
  then show b: "bindingOffset u = bindingOffset v" using h(2) h'(2) by simp
  show "containerEnd u \<le> containerEnd v"
  proof (rule ccontr)
    assume "\<not> containerEnd u \<le> containerEnd v"
    then obtain k where "(containerEnd v, k) \<in> assigns u" "int k = int (containerEnd v) + bindingOffset u"
      using assigns_total[of u "containerEnd v"] s usable_start[OF u(2)] by auto
    then show False using first_end[OF assms(2)] assms(3) b by auto
  qed
qed

lemma canonical_unique:
  assumes "reservations us" "reservations vs" "assignment us = assignment vs"
  shows "us = vs"
  using assms
proof (induction us arbitrary: vs)
  case Nil
  then show ?case using first_start(1) by (cases vs) fastforce+
next
  case (Cons u us)
  obtain v vs' where vs: "vs = v # vs'"
    using Cons.prems first_start(1)[OF Cons.prems(1)] by (cases vs) auto
  note f = first_equal[OF Cons.prems(1), of v vs'] first_equal[OF _ Cons.prems(1), of v vs']
  have same: "u = v"
    using f Cons.prems vs by (intro interval_eq) auto
  have r: "reservations us" "reservations vs'" using Cons.prems vs reservations_Cons by blast+
  have tail: "reservations (u # ws) \<Longrightarrow> assignment ws = {(c, h) \<in> assignment (u # ws). containerEnd u \<le> c}" for ws
    using assignment_starts by (fastforce simp: assigns_iff)
  have "assignment us = assignment vs'"
    using tail[of us] tail[of vs'] Cons.prems vs same by metis
  then show ?case using Cons.IH[OF r] same vs by simp
qed


section \<open>Pairwise apart\<close>

lemma sorted_wrt_symp:
  assumes "symp P"
  shows "sorted_wrt P xs \<longleftrightarrow> (\<forall>x \<in> set xs. \<forall>y \<in> set xs. x \<noteq> y \<longrightarrow> P x y) \<and> (\<forall>x. 2 \<le> count (mset xs) x \<longrightarrow> P x x)"
proof (induction xs)
  case (Cons a xs)
  have "2 \<le> count (mset (a # xs)) x \<longleftrightarrow> 2 \<le> count (mset xs) x \<or> x = a \<and> a \<in> set xs" for x
  proof (cases "x = a")
    case True
    have "a \<in> set xs" if "Suc 0 < count (mset xs) a"
    proof -
      have "0 < count (mset xs) a" using that by linarith
      then show ?thesis by simp
    qed
    then show ?thesis using True by (auto simp: numeral_2_eq_2 Suc_le_eq)
  qed simp
  then show ?case using assms by (auto simp: Cons.IH symp_def)
qed simp

lemma sorted_wrt_perm: "symp P \<Longrightarrow> mset xs = mset ys \<Longrightarrow> sorted_wrt P xs = sorted_wrt P ys"
  using mset_eq_setD[of xs ys] by (simp add: sorted_wrt_symp)

definition apart :: "span \<Rightarrow> span \<Rightarrow> bool" where
  "apart s t \<longleftrightarrow> \<not> overlaps s t"

lemma apart_symp: "symp apart"
  by (auto simp: symp_def apart_def overlaps_def)

lemma neighbours_apart:
  assumes "sorted (map (\<lambda>s. (spStart s, spCount s)) ss)" "list_all (\<lambda>s. 0 < spCount s) ss"
  shows "\<not> neighboursOverlap ss \<longleftrightarrow> sorted_wrt apart ss"
  using assms
proof (induction ss rule: neighboursOverlap.induct)
  case (1 s t ss)
  have IH: "\<not> neighboursOverlap (t # ss) \<longleftrightarrow> sorted_wrt apart (t # ss)" using 1 by simp
  have "apart s w" if a: "apart s t" and w: "w \<in> set ss" for w
  proof -
    have "spStart s \<le> spStart t" "spStart t \<le> spStart w" "0 < spCount s" "0 < spCount t"
      using 1(2,3) w by (auto simp: less_eq_prod_def)
    then show ?thesis using a by (auto simp: apart_def overlaps_def spanEnd_def)
  qed
  moreover have "overlaps s t \<longleftrightarrow> \<not> apart s t" by (simp add: apart_def)
  ultimately show ?case using IH by auto
qed simp_all

definition hostSpan :: "Interval \<Rightarrow> span" where
  "hostSpan v = \<lparr>spStart = unat (ivHostStart v), spCount = unat (ivCount v)\<rparr>"

lemma spanLoop_good: "list_all (\<lambda>v. usable v \<and> ivHostStart v \<noteq> 0) vs \<Longrightarrow> spanLoop vs = Inr (map hostSpan vs)"
  by (induction vs) (auto simp: usable_def hostSpan_def)

lemma spanLoop_bad: "\<not> list_all (\<lambda>v. usable v \<and> ivHostStart v \<noteq> 0) vs \<Longrightarrow> \<exists>e. spanLoop vs = Inl e"
  by (induction vs) (auto simp: usable_def split: option.splits)

definition hostsApart :: "Interval list \<Rightarrow> bool" where
  "hostsApart vs \<longleftrightarrow> sorted_wrt (\<lambda>u v. apart (hostSpan u) (hostSpan v)) vs"

lemma hostSpans_Inr:
  "(\<exists>ss. hostSpans vs = Inr ss) \<longleftrightarrow> vs \<noteq> [] \<and> list_all (\<lambda>v. usable v \<and> ivHostStart v \<noteq> 0) vs \<and> hostsApart vs"
proof -
  have "\<not> neighboursOverlap (sortSpans (map hostSpan vs)) \<longleftrightarrow> hostsApart vs" if "list_all usable vs"
  proof -
    have "list_all (\<lambda>s. 0 < spCount s) (sortSpans (map hostSpan vs))"
      using that by (auto simp: sortSpans_def list_all_iff hostSpan_def usable_iff)
    then have "\<not> neighboursOverlap (sortSpans (map hostSpan vs)) \<longleftrightarrow> sorted_wrt apart (sortSpans (map hostSpan vs))"
      by (intro neighbours_apart) (simp_all add: sortSpans_def)
    also have "\<dots> \<longleftrightarrow> sorted_wrt apart (map hostSpan vs)"
      by (intro sorted_wrt_perm apart_symp) (simp add: sortSpans_def)
    finally show ?thesis by (simp add: hostsApart_def sorted_wrt_map)
  qed
  moreover have "list_all (\<lambda>v. usable v \<and> ivHostStart v \<noteq> 0) vs \<Longrightarrow> list_all usable vs" by (simp add: list_all_iff)
  ultimately show ?thesis
    using spanLoop_good[of vs] spanLoop_bad[of vs]
    by (cases "list_all (\<lambda>v. usable v \<and> ivHostStart v \<noteq> 0) vs") (auto simp: hostSpans_def Let_def)
qed

lemma hosts_injective:
  assumes "hostsApart vs"
  shows "single_valued ((assignment vs)\<inverse>)"
  using assms unfolding hostsApart_def
proof (induction vs)
  case (Cons v vs)
  have one: "single_valued ((assigns v)\<inverse>)" by (auto simp: single_valued_def assigns_iff)
  have host: "(c, h) \<in> assigns w \<Longrightarrow> unat (ivHostStart w) \<le> h \<and> h < unat (ivHostStart w) + unat (ivCount w)" for c h w
    by (auto simp: assigns_def)
  have "Domain ((assigns v)\<inverse>) \<inter> Domain ((assignment vs)\<inverse>) = {}"
    using Cons.prems by (fastforce simp: assignment_def apart_def overlaps_def spanEnd_def hostSpan_def dest!: host)
  from single_valued_Un_disjoint[OF one _ this] show ?case using Cons by (simp add: converse_Un)
qed simp

end
