(* ===== verification/IdentityGeometrySpec.thy ===== *)
theory IdentityGeometrySpec
  imports IdentityGeometryProofs
begin

text \<open>
  What the geometry operations accept and return, stated on the assignments: a domain is
  acceptable when its intervals are usable, disjoint in the container and together a mapping
  (one host ID per container ID, one container ID per host ID, never host ID 0).
\<close>

section \<open>Acceptable domains\<close>

definition containersApart :: "Interval list \<Rightarrow> bool" where
  "containersApart = sorted_wrt (\<lambda>u v. Domain (assigns u) \<inter> Domain (assigns v) = {})"

definition mappingOK :: "(nat \<times> nat) set \<Rightarrow> bool" where
  "mappingOK R \<longleftrightarrow> single_valued R \<and> single_valued (R\<inverse>) \<and> (\<forall>c. (c, 0) \<notin> R)"

definition domainOK :: "string \<Rightarrow> Interval list \<Rightarrow> bool" where
  "domainOK profile vs \<longleftrightarrow> vs \<noteq> [] \<and> \<not> (profile = ''bounded'' \<and> length vs \<noteq> 1) \<and> list_all usable vs
     \<and> containersApart vs \<and> mappingOK (assignment vs)"

lemma Domain_assigns: "Domain (assigns v) = {unat (ivContainerStart v) ..< containerEnd v}"
proof (intro set_eqI iffI)
  fix c assume "c \<in> {unat (ivContainerStart v) ..< containerEnd v}"
  then show "c \<in> Domain (assigns v)" using assigns_total[of v c] by auto
qed (auto simp: assigns_iff)

lemma Range_assigns: "Range (assigns v) = {unat (ivHostStart v) ..< spanEnd (hostSpan v)}"
proof (intro set_eqI iffI)
  fix h assume h: "h \<in> {unat (ivHostStart v) ..< spanEnd (hostSpan v)}"
  then have "h = unat (ivHostStart v) + (h - unat (ivHostStart v))" "h - unat (ivHostStart v) < unat (ivCount v)"
    by (auto simp: spanEnd_def hostSpan_def)
  then show "h \<in> Range (assigns v)" unfolding assigns_def by blast
qed (auto simp: assigns_def spanEnd_def hostSpan_def)

lemma containerLoop_None:
  "containerLoop kind previous vs = None \<longleftrightarrow> list_all usable vs
     \<and> sorted_wrt (\<lambda>u v. containerEnd u \<le> unat (ivContainerStart v)) ((case previous of None \<Rightarrow> [] | Some p \<Rightarrow> [p]) @ vs)"
proof (induction vs arbitrary: previous)
  case (Cons v vs)
  have le: "unat (ivContainerStart w) \<le> containerEnd w" for w by (simp add: containerEnd_def)
  have trans: "containerEnd p \<le> unat (ivContainerStart x)"
    if "\<not> unat (ivContainerStart v) < containerEnd p" "containerEnd v \<le> unat (ivContainerStart x)" for p x
    using that le[of v] by linarith
  show ?case by (auto simp: usable_def Cons.IH split: option.splits dest: trans)
qed (simp split: option.splits)

lemma apart_containers:
  assumes "usable u" "usable v" "unat (ivContainerStart u) \<le> unat (ivContainerStart v)"
  shows "Domain (assigns u) \<inter> Domain (assigns v) = {} \<longleftrightarrow> containerEnd u \<le> unat (ivContainerStart v)"
  using usable_start[OF assms(1)] usable_start[OF assms(2)] assms(3)
  unfolding Domain_assigns by (auto simp: disjoint_iff not_less not_le)

lemma containersApart_symp: "symp (\<lambda>u v. Domain (assigns u) \<inter> Domain (assigns v) = {})"
  by (auto simp: symp_def)

lemma ordered_sort: "ordered (sortContainerIntervals vs)"
proof -
  have "sorted (map ivContainerStart (sortContainerIntervals vs))" by (simp add: sortContainerIntervals_def)
  then show ?thesis by (simp add: ordered_def sorted_map word_le_nat_alt)
qed

lemma mset_sort: "mset (sortContainerIntervals vs) = mset vs" "set (sortContainerIntervals vs) = set vs"
    "length (sortContainerIntervals vs) = length vs"
  by (simp_all add: sortContainerIntervals_def)

lemma list_all_set: "set us = set vs \<Longrightarrow> list_all P us = list_all P vs"
  by (simp add: list_all_iff)

lemma assignment_sort: "assignment (sortContainerIntervals vs) = assignment vs"
  by (simp add: assignment_def mset_sort)

lemma ordered_apart:
  assumes "ordered vs" "list_all usable vs"
  shows "sorted_wrt (\<lambda>u v. containerEnd u \<le> unat (ivContainerStart v)) vs \<longleftrightarrow> containersApart vs"
  using assms
proof (induction vs)
  case (Cons v vs)
  have "containerEnd v \<le> unat (ivContainerStart w) \<longleftrightarrow> Domain (assigns v) \<inter> Domain (assigns w) = {}" if "w \<in> set vs" for w
    using that Cons.prems apart_containers[of v w] by (auto simp: ordered_Cons list_all_iff)
  then show ?case using Cons by (simp add: containersApart_def ordered_Cons)
qed (simp add: containersApart_def)

lemma containersApart_sort: "containersApart (sortContainerIntervals vs) \<longleftrightarrow> containersApart vs"
  unfolding containersApart_def by (intro sorted_wrt_perm containersApart_symp) (simp add: mset_sort)

lemma containersApart_single_valued: "containersApart vs \<Longrightarrow> single_valued (assignment vs)"
proof (induction vs)
  case (Cons v vs)
  have "Domain (assigns v) \<inter> Domain (assignment vs) = {}"
    using Cons.prems by (auto simp: containersApart_def assignment_def disjoint_iff)
  then show ?case
    using Cons single_valued_Un_disjoint[OF assigns_single_valued] by (simp add: containersApart_def)
qed simp

lemma injective_hosts:
  assumes "containersApart vs" "list_all usable vs" "single_valued ((assignment vs)\<inverse>)"
  shows "hostsApart vs"
  using assms
proof (induction vs)
  case (Cons v vs)
  have "apart (hostSpan v) (hostSpan w)" if w: "w \<in> set vs" for w
  proof (rule ccontr)
    assume "\<not> apart (hostSpan v) (hostSpan w)"
    then have "max (unat (ivHostStart v)) (unat (ivHostStart w)) \<in> Range (assigns v) \<inter> Range (assigns w)"
      using Cons.prems(2) w
      by (auto simp: apart_def overlaps_def Range_assigns hostSpan_def spanEnd_def list_all_iff usable_iff)
    then obtain h c c' where h: "(c, h) \<in> assigns v" "(c', h) \<in> assigns w" by auto
    have "c = c'"
      using Cons.prems(3) h w by (auto simp: single_valued_def assignment_def)
    moreover have "Domain (assigns v) \<inter> Domain (assigns w) = {}" using Cons.prems(1) w by (simp add: containersApart_def)
    ultimately show False using h by (auto simp: disjoint_iff)
  qed
  moreover have "single_valued ((assignment vs)\<inverse>)"
    using Cons.prems(3) by (auto simp: single_valued_def)
  ultimately show ?case using Cons by (simp add: hostsApart_def containersApart_def)
qed (simp add: hostsApart_def)

lemma no_host_root:
  assumes "list_all usable vs"
  shows "(\<forall>c. (c, 0) \<notin> assignment vs) \<longleftrightarrow> list_all (\<lambda>v. ivHostStart v \<noteq> 0) vs"
proof -
  have "(\<forall>c. (c, 0) \<notin> assigns v) \<longleftrightarrow> ivHostStart v \<noteq> 0" if "usable v" for v
  proof -
    have "(\<forall>c. (c, 0) \<notin> assigns v) \<longleftrightarrow> 0 \<notin> Range (assigns v)" by auto
    also have "\<dots> \<longleftrightarrow> unat (ivHostStart v) \<noteq> 0"
      using that by (auto simp: Range_assigns spanEnd_def hostSpan_def usable_iff)
    finally show ?thesis by (simp add: unat_eq_zero)
  qed
  then show ?thesis using assms by (auto simp: assignment_def list_all_iff)
qed

lemma hostSpans_ok:
  assumes "list_all usable vs" "containersApart vs"
  shows "(\<exists>ss. hostSpans vs = Inr ss) \<longleftrightarrow> vs \<noteq> [] \<and> mappingOK (assignment vs)"
  using assms injective_hosts[of vs] hosts_injective[of vs] containersApart_single_valued[of vs] no_host_root[of vs]
  unfolding hostSpans_Inr mappingOK_def by (auto simp: list_all_iff)

lemma reservations_apart: "reservations vs \<Longrightarrow> list_all usable vs \<and> containersApart vs"
proof -
  assume r: "reservations vs"
  have s: "sorted_wrt (\<lambda>u v. containerEnd u \<le> unat (ivContainerStart v)) vs" using r by (rule reservations_sorted)
  moreover have "ordered vs"
    unfolding ordered_def sorted_map by (rule sorted_wrt_mono_rel[OF _ s]) (simp add: containerEnd_def)
  ultimately show "list_all usable vs \<and> containersApart vs"
    using ordered_apart r by (simp add: reservations_def)
qed

lemma validateDomain_Inr:
  "validateDomain profile kind vs = Inr r \<longleftrightarrow> domainOK profile vs \<and> reservations r \<and> assignment r = assignment vs"
proof -
  let ?s = "sortContainerIntervals vs"
  have loop: "containerLoop kind None ?s = None \<longleftrightarrow> list_all usable vs \<and> containersApart vs"
    using ordered_apart[OF ordered_sort] list_all_set[OF mset_sort(2)]
    by (auto simp: containerLoop_None containersApart_sort)
  have ne: "?s \<noteq> [] \<longleftrightarrow> vs \<noteq> []" using mset_sort(3)[of vs] by auto
  have hosts: "(\<exists>ss. hostSpans ?s = Inr ss) \<longleftrightarrow> vs \<noteq> [] \<and> mappingOK (assignment vs)"
    if "list_all usable vs" "containersApart vs"
    using hostSpans_ok[of ?s] that ne by (simp add: containersApart_sort assignment_sort list_all_set[OF mset_sort(2)])
  have comb: "combineReservations ?s = Inr r \<longleftrightarrow> reservations r \<and> assignment r = assignment vs"
    if "list_all usable vs" "containersApart vs"
  proof -
    have c: "combined (assignment vs) (combineReservations ?s)"
      using combineReservations_spec[of ?s] that ordered_sort by (simp add: assignment_sort list_all_set[OF mset_sort(2)])
    have sv: "single_valued (assignment vs)" using containersApart_single_valued that(2) by blast
    obtain q where "combineReservations ?s = Inr q" "reservations q" "assignment q = assignment vs"
      using combined_cases(1)[OF c sv] by metis
    then show ?thesis using canonical_unique by auto
  qed
  consider "\<not> (list_all usable vs \<and> containersApart vs)" | "list_all usable vs" "containersApart vs" by blast
  then show ?thesis
  proof cases
    case 1
    then have "containerLoop kind None ?s \<noteq> None" using loop by simp
    then show ?thesis using 1 by (auto simp: validateDomain_def domainOK_def Let_def)
  next
    case 2
    show ?thesis using hosts[OF 2] comb[OF 2] loop 2
      by (cases "hostSpans ?s") (auto simp: validateDomain_def domainOK_def Let_def)
  qed
qed

lemma retainDomain_Inr:
  assumes "reservations us" "reservations vs" "us \<noteq> []"
  shows "retainDomain kind us vs = Inr r \<longleftrightarrow>
    mappingOK (assignment us \<union> assignment vs) \<and> reservations r \<and> assignment r = assignment us \<union> assignment vs"
proof -
  let ?s = "sortContainerIntervals (us @ vs)" and ?R = "assignment us \<union> assignment vs"
  have "list_all usable ?s"
    using assms reservations_apart by (simp add: list_all_set[OF mset_sort(2)])
  then have c: "combined ?R (combineReservations ?s)"
    using combineReservations_spec[OF _ ordered_sort, of "us @ vs"] by (simp add: assignment_sort)
  have ne: "?R \<noteq> {}" using assms(1,3) first_start(1) by (cases us) fastforce+
  have hosts: "(\<exists>ss. hostSpans q = Inr ss) \<longleftrightarrow> mappingOK ?R" if q: "reservations q" "assignment q = ?R" for q
  proof -
    have "q \<noteq> []" using q(2) ne by auto
    then show ?thesis using hostSpans_ok[of q] reservations_apart[OF q(1)] q(2) by simp
  qed
  show ?thesis
  proof (cases "combineReservations ?s")
    case (Inl e)
    then have "\<not> single_valued ?R" using c by (simp add: combined_def)
    then show ?thesis using Inl by (simp add: retainDomain_def mappingOK_def)
  next
    case (Inr q)
    then have q: "reservations q" "assignment q = ?R" using combined_cases(2)[OF c] by blast+
    have "q = r \<longleftrightarrow> reservations r \<and> assignment r = ?R" using canonical_unique q by auto
    then show ?thesis using hosts[OF q] Inr by (cases "hostSpans q") (auto simp: retainDomain_def)
  qed
qed

section \<open>Whole geometries\<close>

definition denotes :: "Geometry \<Rightarrow> (nat \<times> nat) set \<Rightarrow> (nat \<times> nat) set \<Rightarrow> bool" where
  "denotes g R S \<longleftrightarrow> reservations (gmUIDs g) \<and> assignment (gmUIDs g) = R
     \<and> reservations (gmGIDs g) \<and> assignment (gmGIDs g) = S"

definition geometryOK :: "Geometry \<Rightarrow> bool" where
  "geometryOK g \<longleftrightarrow> gmProfile g \<in> {''exact'', ''bounded''}
     \<and> domainOK (gmProfile g) (gmUIDs g) \<and> domainOK (gmProfile g) (gmGIDs g)"

lemma ValidateGeometry_Inr:
  "ValidateGeometry g = Inr g' \<longleftrightarrow> geometryOK g \<and> gmProfile g' = gmProfile g
     \<and> denotes g' (assignment (gmUIDs g)) (assignment (gmGIDs g))"
proof -
  have "ValidateGeometry g = Inr g' \<longleftrightarrow> gmProfile g \<in> {''exact'', ''bounded''} \<and> gmProfile g' = gmProfile g
      \<and> validateDomain (gmProfile g) ''UID'' (gmUIDs g) = Inr (gmUIDs g')
      \<and> validateDomain (gmProfile g) ''GID'' (gmGIDs g) = Inr (gmGIDs g')"
    by (cases g') (auto simp: ValidateGeometry_def split: sum.splits)
  then show ?thesis unfolding validateDomain_Inr geometryOK_def denotes_def by blast
qed

lemma reservations_single: "usable v \<Longrightarrow> reservations [v]"
  by (simp add: reservations_def)

lemma domainOK_canonical:
  assumes "domainOK profile vs" "reservations r" "assignment r = assignment vs"
  shows "domainOK profile r"
proof -
  have "r \<noteq> []"
  proof -
    obtain v ws where vs: "vs = v # ws" using assms(1) by (cases vs) (auto simp: domainOK_def)
    then have "Domain (assigns v) \<noteq> {}" using assms(1) by (auto simp: domainOK_def Domain_assigns dest: usable_start)
    then show ?thesis using assms(3) vs by auto
  qed
  moreover have "length r = 1" if b: "profile = ''bounded''"
  proof -
    obtain v where v: "vs = [v]" using assms(1) b by (cases vs) (auto simp: domainOK_def)
    then have "reservations vs" using assms(1) reservations_single by (simp add: domainOK_def)
    then have "r = vs" using canonical_unique assms(2,3) by blast
    then show ?thesis using v by simp
  qed
  ultimately show ?thesis using assms reservations_apart[OF assms(2)] by (auto simp: domainOK_def)
qed

lemma geometryOK_canonical:
  assumes "ValidateGeometry g = Inr g'"
  shows "geometryOK g'" "reservations (gmUIDs g')" "reservations (gmGIDs g')"
    "assignment (gmUIDs g') = assignment (gmUIDs g)" "assignment (gmGIDs g') = assignment (gmGIDs g)"
    "gmProfile g' = gmProfile g"
  using assms domainOK_canonical unfolding ValidateGeometry_Inr geometryOK_def denotes_def by auto

lemma domainOK_perm: "mset us = mset vs \<Longrightarrow> domainOK profile us = domainOK profile vs"
  using sorted_wrt_perm[OF containersApart_symp, of us vs] mset_eq_setD[of us vs] mset_eq_length[of us vs]
  by (auto simp: domainOK_def containersApart_def assignment_def list_all_iff)

lemma canonical_fixpoint:
  assumes "geometryOK g" "reservations (gmUIDs g)" "reservations (gmGIDs g)"
  shows "ValidateGeometry g = Inr g"
  using assms unfolding ValidateGeometry_Inr denotes_def by simp

lemma domain_canonical:
  assumes "domainOK profile vs"
  obtains r where "reservations r" "assignment r = assignment vs"
proof -
  have usable: "list_all usable (sortContainerIntervals vs)"
    using assms by (simp add: domainOK_def list_all_set[OF mset_sort(2)])
  have c: "combined (assignment vs) (combineReservations (sortContainerIntervals vs))"
    using combineReservations_spec[OF usable ordered_sort] by (simp add: assignment_sort)
  have "single_valued (assignment vs)" using assms by (simp add: domainOK_def mappingOK_def)
  from combined_cases(1)[OF c this] show ?thesis using that by blast
qed

lemma geometry_accepted:
  assumes "geometryOK g"
  obtains g' where "ValidateGeometry g = Inr g'"
proof -
  obtain us where us: "reservations us" "assignment us = assignment (gmUIDs g)"
    using assms domain_canonical unfolding geometryOK_def by metis
  obtain vs where vs: "reservations vs" "assignment vs = assignment (gmGIDs g)"
    using assms domain_canonical unfolding geometryOK_def by metis
  have "ValidateGeometry g = Inr \<lparr>gmProfile = gmProfile g, gmUIDs = us, gmGIDs = vs\<rparr>"
    using assms us vs by (simp add: ValidateGeometry_Inr denotes_def)
  then show ?thesis by (rule that)
qed

lemma geometryOK_nonempty: "geometryOK g \<Longrightarrow> gmUIDs g \<noteq> [] \<and> gmGIDs g \<noteq> []"
  by (simp add: geometryOK_def domainOK_def)

text \<open>The retained geometry, by the two profiles, once both arguments are canonical.\<close>

lemma RetainGeometry_canonical:
  assumes "ValidateGeometry p = Inr p'" "ValidateGeometry r = Inr r'"
  shows "RetainGeometry p (Some r) = Inr g \<longleftrightarrow> gmProfile p' = gmProfile r' \<and>
    (if gmProfile r' = ''bounded'' then gmUIDs p' = gmUIDs r' \<and> gmGIDs p' = gmGIDs r' \<and> g = r'
     else gmProfile g = gmProfile r'
       \<and> retainDomain ''UID'' (gmUIDs r') (gmUIDs p') = Inr (gmUIDs g) \<and> retainDomain ''GID'' (gmGIDs r') (gmGIDs p') = Inr (gmGIDs g))"
  using assms by (cases g) (auto simp: RetainGeometry_def split: sum.splits)

lemma geometry_eq: "gmProfile g = gmProfile h \<Longrightarrow> gmUIDs g = gmUIDs h \<Longrightarrow> gmGIDs g = gmGIDs h \<Longrightarrow> (g :: Geometry) = h"
  by (cases g; cases h) simp

lemma denotes_unique: "denotes g R S \<Longrightarrow> denotes h R S \<Longrightarrow> gmProfile g = gmProfile h \<Longrightarrow> g = h"
  unfolding denotes_def using canonical_unique by (intro geometry_eq) auto

definition retainable :: "Geometry \<Rightarrow> Geometry \<Rightarrow> bool" where
  "retainable p r \<longleftrightarrow> geometryOK p \<and> geometryOK r \<and> gmProfile p = gmProfile r
     \<and> (if gmProfile r = ''bounded''
        then assignment (gmUIDs p) = assignment (gmUIDs r) \<and> assignment (gmGIDs p) = assignment (gmGIDs r)
        else mappingOK (assignment (gmUIDs r) \<union> assignment (gmUIDs p)) \<and> mappingOK (assignment (gmGIDs r) \<union> assignment (gmGIDs p)))"

lemma RetainGeometry_Inr:
  "RetainGeometry p (Some r) = Inr g \<longleftrightarrow> retainable p r \<and> gmProfile g = gmProfile r
     \<and> denotes g (assignment (gmUIDs r) \<union> assignment (gmUIDs p)) (assignment (gmGIDs r) \<union> assignment (gmGIDs p))"
proof (cases "geometryOK p \<and> geometryOK r")
  case False
  then have "\<And>p' r'. ValidateGeometry p = Inr p' \<Longrightarrow> ValidateGeometry r \<noteq> Inr r'" unfolding ValidateGeometry_Inr by blast
  then have "RetainGeometry p (Some r) \<noteq> Inr g" by (auto simp: RetainGeometry_def split: sum.splits)
  moreover have "\<not> retainable p r" using False by (auto simp: retainable_def)
  ultimately show ?thesis by blast
next
  case True
  obtain p' r' where v: "ValidateGeometry p = Inr p'" "ValidateGeometry r = Inr r'"
    using True geometry_accepted by metis
  note p = geometryOK_canonical[OF v(1)] and r = geometryOK_canonical[OF v(2)]
  have same: "gmUIDs p' = gmUIDs r' \<longleftrightarrow> assignment (gmUIDs p') = assignment (gmUIDs r')"
      "gmGIDs p' = gmGIDs r' \<longleftrightarrow> assignment (gmGIDs p') = assignment (gmGIDs r')"
    using canonical_unique p(2,3) r(2,3) by auto
  have ne: "gmUIDs r' \<noteq> []" "gmGIDs r' \<noteq> []" using geometryOK_nonempty[OF r(1)] by auto
  note retain = retainDomain_Inr[OF r(2) p(2) ne(1)] retainDomain_Inr[OF r(3) p(3) ne(2)]
  show ?thesis
  proof (cases "gmProfile r = ''bounded''")
    case bounded: True
    have "g = r' \<longleftrightarrow> gmProfile g = gmProfile r \<and> denotes g (assignment (gmUIDs r)) (assignment (gmGIDs r))"
      using denotes_unique[of g _ _ r'] r by (auto simp: denotes_def)
    then show ?thesis
      unfolding RetainGeometry_canonical[OF v] same retainable_def p(4-6) r(4-6) using True bounded by auto
  next
    case False
    then show ?thesis
      unfolding RetainGeometry_canonical[OF v] retain retainable_def denotes_def p(4-6) r(4-6) using True by auto
  qed
qed

lemma retainable_accepted:
  assumes "retainable p r"
  obtains g where "RetainGeometry p (Some r) = Inr g"
proof -
  have ok: "geometryOK p" "geometryOK r" using assms by (auto simp: retainable_def)
  obtain p' where v: "ValidateGeometry p = Inr p'" using geometry_accepted[OF ok(1)] .
  obtain r' where w: "ValidateGeometry r = Inr r'" using geometry_accepted[OF ok(2)] .
  have ex: "\<exists>q. reservations q \<and> assignment q = assignment us \<union> assignment vs"
    if "reservations us" "reservations vs" "single_valued (assignment us \<union> assignment vs)" for us vs
  proof -
    have u: "list_all usable (sortContainerIntervals (us @ vs))"
      using that reservations_apart by (simp add: list_all_set[OF mset_sort(2)])
    have "combined (assignment us \<union> assignment vs) (combineReservations (sortContainerIntervals (us @ vs)))"
      using combineReservations_spec[OF u ordered_sort] by (simp add: assignment_sort)
    from combined_cases(1)[OF this that(3)] show ?thesis by blast
  qed
  have sv: "single_valued (assignment (gmUIDs r) \<union> assignment (gmUIDs p))"
      "single_valued (assignment (gmGIDs r) \<union> assignment (gmGIDs p))"
    using assms by (auto simp: retainable_def geometryOK_def domainOK_def mappingOK_def split: if_splits)
  note p = geometryOK_canonical[OF v] and r = geometryOK_canonical[OF w]
  obtain us vs where "reservations us" "assignment us = assignment (gmUIDs r) \<union> assignment (gmUIDs p)"
      "reservations vs" "assignment vs = assignment (gmGIDs r) \<union> assignment (gmGIDs p)"
    using ex[OF r(2) p(2)] ex[OF r(3) p(3)] sv unfolding p(4,5) r(4,5) by metis
  then have "RetainGeometry p (Some r) = Inr \<lparr>gmProfile = gmProfile r, gmUIDs = us, gmGIDs = vs\<rparr>"
    using assms by (simp add: RetainGeometry_Inr denotes_def)
  then show ?thesis by (rule that)
qed

section \<open>A history of proposals\<close>

fun retainAll :: "Geometry \<Rightarrow> Geometry list \<Rightarrow> geometry_error + Geometry" where
  "retainAll g [] = Inr g"
| "retainAll g (p # ps) = (case RetainGeometry p (Some g) of Inl e \<Rightarrow> Inl e | Inr g' \<Rightarrow> retainAll g' ps)"

definition extends :: "Geometry \<Rightarrow> Geometry \<Rightarrow> bool" where
  "extends g h \<longleftrightarrow> gmProfile h = gmProfile g \<and> assignment (gmUIDs g) \<subseteq> assignment (gmUIDs h)
     \<and> assignment (gmGIDs g) \<subseteq> assignment (gmGIDs h)"

lemma extends_refl: "extends g g"
  by (simp add: extends_def)

lemma extends_trans: "extends f g \<Longrightarrow> extends g h \<Longrightarrow> extends f h"
  by (auto simp: extends_def)

lemma domainOK_mapping: "domainOK profile vs \<Longrightarrow> mappingOK (assignment vs)"
  by (simp add: domainOK_def)

lemma RetainGeometry_extends:
  assumes "RetainGeometry p (Some r) = Inr g"
  shows "extends r g" "extends p g" "geometryOK g" "ValidateGeometry g = Inr g"
proof -
  have d: "retainable p r" "gmProfile g = gmProfile r"
      "reservations (gmUIDs g)" "assignment (gmUIDs g) = assignment (gmUIDs r) \<union> assignment (gmUIDs p)"
      "reservations (gmGIDs g)" "assignment (gmGIDs g) = assignment (gmGIDs r) \<union> assignment (gmGIDs p)"
    using assms unfolding RetainGeometry_Inr denotes_def by auto
  then show "extends r g" "extends p g" by (auto simp: extends_def retainable_def)
  have ok: "domainOK (gmProfile r) us"
    if "domainOK (gmProfile r) vs" "reservations us" "assignment us = assignment vs \<union> assignment ws"
      "if gmProfile r = ''bounded'' then assignment ws = assignment vs else mappingOK (assignment vs \<union> assignment ws)" for us vs ws
  proof (cases "gmProfile r = ''bounded''")
    case True
    then show ?thesis using that domainOK_canonical by simp
  next
    case False
    have "us \<noteq> []"
    proof
      assume "us = []"
      then have "assignment vs = {}" using that(3) by simp
      then have "domainOK (gmProfile r) []" using domainOK_canonical[OF that(1), of "[]"] by (simp add: reservations_def)
      then show False by (simp add: domainOK_def)
    qed
    then show ?thesis using False that(3,4) reservations_apart[OF that(2)] by (simp add: domainOK_def)
  qed
  have r: "geometryOK r" using d(1) by (simp add: retainable_def)
  have "domainOK (gmProfile r) (gmUIDs g)"
    using d(1) r by (intro ok[OF _ d(3,4)]) (auto simp: retainable_def geometryOK_def split: if_splits)
  moreover have "domainOK (gmProfile r) (gmGIDs g)"
    using d(1) r by (intro ok[OF _ d(5,6)]) (auto simp: retainable_def geometryOK_def split: if_splits)
  ultimately show g: "geometryOK g" using r d(2) by (simp add: geometryOK_def)
  show "ValidateGeometry g = Inr g" using canonical_fixpoint[OF g d(3,5)] .
qed

lemma retainAll_Inr:
  assumes "retainAll g ps = Inr h" "geometryOK g"
  shows "geometryOK h \<and> extends g h \<and> (\<forall>p \<in> set ps. extends p h)"
  using assms
proof (induction ps arbitrary: g)
  case (Cons p ps)
  then obtain g' where g': "RetainGeometry p (Some g) = Inr g'" "retainAll g' ps = Inr h"
    by (auto split: sum.splits)
  note e = RetainGeometry_extends[OF g'(1)]
  show ?case using Cons.IH[OF g'(2) e(3)] e(1,2) extends_trans by (auto intro: extends_trans)
qed (simp add: extends_refl)

end
