(* ===== verification/IdentityGeometryProperties.thy ===== *)
theory IdentityGeometryProperties
  imports IdentityGeometrySpec
begin

text \<open>
  The properties of mapping geometry, \<open>src/internal/identitymapping/geometry.go\<close>.
\<close>

definition sampleRange :: "32 word \<Rightarrow> 32 word \<Rightarrow> 32 word \<Rightarrow> Interval" where
  "sampleRange c h n = \<lparr>ivContainerStart = c, ivHostStart = h, ivCount = n\<rparr>"

definition sampleGeometry :: Geometry where
  "sampleGeometry = \<lparr>gmProfile = ''exact'', gmUIDs = [sampleRange 0 1000 10], gmGIDs = [sampleRange 0 1000 10]\<rparr>"

definition sampleProposal :: Geometry where
  "sampleProposal = \<lparr>gmProfile = ''exact'', gmUIDs = [sampleRange 20 5000 4, sampleRange 10 1010 5], gmGIDs = [sampleRange 8 1008 1]\<rparr>"

definition sampleUnion :: Geometry where
  "sampleUnion = \<lparr>gmProfile = ''exact'', gmUIDs = [sampleRange 0 1000 15, sampleRange 20 5000 4], gmGIDs = [sampleRange 0 1000 10]\<rparr>"

lemmas geometry_eval = sampleRange_def sampleGeometry_def sampleProposal_def sampleUnion_def
  ValidateGeometry_def validateDomain_def RetainGeometry_def retainDomain_def sortContainerIntervals_def
  sortSpans_def hostSpans_def ValidateInterval_def combineReservations_def containerEnd_def bindingOffset_def
  spanEnd_def overlaps_def maxUint32_def Let_def insort_key.simps sort_key_def

lemma sample_valid: "ValidateGeometry sampleGeometry = Inr sampleGeometry"
  by (simp add: geometry_eval)

lemma sample_retained: "RetainGeometry sampleProposal (Some sampleGeometry) = Inr sampleUnion"
  by (simp add: geometry_eval)

lemma sample_OK: "geometryOK sampleGeometry"
  using sample_valid by (simp add: ValidateGeometry_Inr)

text \<open>
  C17. Validation decides exactly whether a geometry is a mapping and returns its canonical
  form. It accepts a geometry if and only if the profile is known, each domain has intervals
  (one, when bounded), every interval is usable within 32 bits, no two intervals of a domain
  share a container ID, and the assignment they denote gives each container ID one host ID,
  each host ID one container ID, and never uses host ID 0; the result keeps the profile and
  denotes the same assignments with sorted, disjoint, maximally merged intervals.
\<close>

theorem validate_geometry:
  "((\<exists>g'. ValidateGeometry g = Inr g') \<longleftrightarrow> geometryOK g)
   \<and> (ValidateGeometry g = Inr g' \<longleftrightarrow> geometryOK g \<and> gmProfile g' = gmProfile g
        \<and> denotes g' (assignment (gmUIDs g)) (assignment (gmGIDs g)))"
  using geometry_accepted[of g] by (auto simp: ValidateGeometry_Inr)

text \<open>
  The canonical geometry is a normal form: it validates to itself, and two geometries that
  list the same intervals in different orders validate to the same result, whatever permutation
  the unstable sort of the library chooses.
\<close>

theorem validate_geometry_normal_form:
  assumes "ValidateGeometry g = Inr g'" "gmProfile h = gmProfile g"
    "mset (gmUIDs h) = mset (gmUIDs g)" "mset (gmGIDs h) = mset (gmGIDs g)"
  shows "ValidateGeometry h = Inr g' \<and> ValidateGeometry g' = Inr g'"
proof
  have "assignment (gmUIDs h) = assignment (gmUIDs g)" "assignment (gmGIDs h) = assignment (gmGIDs g)"
    using assms(3,4)[THEN mset_eq_setD] by (simp_all add: assignment_def)
  then show "ValidateGeometry h = Inr g'"
    using assms domainOK_perm unfolding ValidateGeometry_Inr geometryOK_def by metis
  show "ValidateGeometry g' = Inr g'"
    by (rule canonical_fixpoint) (rule geometryOK_canonical[OF assms(1)])+
qed

theorem validate_geometry_normal_form_witness:
  "ValidateGeometry (sampleUnion\<lparr>gmUIDs := rev (gmUIDs sampleUnion)\<rparr>) = Inr sampleUnion"
proof -
  have "ValidateGeometry sampleUnion = Inr sampleUnion" by (simp add: geometry_eval)
  then show ?thesis
    using validate_geometry_normal_form[of sampleUnion sampleUnion "sampleUnion\<lparr>gmUIDs := rev (gmUIDs sampleUnion)\<rparr>"] by simp
qed

text \<open>
  C18. Retaining a proposal over protected reservations succeeds exactly when both geometries
  are valid, of one profile, and compatible: a bounded proposal denotes the same assignments,
  and an exact proposal together with the reservations is still a mapping. The result is then
  the canonical geometry of the union: nothing reserved is released and nothing else appears.
\<close>

theorem retain_geometry:
  "((\<exists>g. RetainGeometry p (Some r) = Inr g) \<longleftrightarrow> retainable p r)
   \<and> (RetainGeometry p (Some r) = Inr g \<longleftrightarrow> retainable p r \<and> gmProfile g = gmProfile r
        \<and> denotes g (assignment (gmUIDs r) \<union> assignment (gmUIDs p)) (assignment (gmGIDs r) \<union> assignment (gmGIDs p)))"
  using retainable_accepted[of p r] by (auto simp: RetainGeometry_Inr)

text \<open>
  Assignments are permanent. After any sequence of accepted proposals over a valid
  geometry, the reservations are a valid canonical geometry that contains the assignments of
  the first geometry and of every proposal, so that no container ID of any of them is bound to
  another host ID and no host ID of any of them is bound to another container ID.
\<close>

theorem geometry_history:
  assumes "geometryOK g" "retainAll g ps = Inr h" "p \<in> set (g # ps)" "(c, n) \<in> assignment (gmUIDs p)"
  shows "geometryOK h \<and> (c, n) \<in> assignment (gmUIDs h)
    \<and> (\<forall>n'. (c, n') \<in> assignment (gmUIDs h) \<longrightarrow> n' = n) \<and> (\<forall>c'. (c', n) \<in> assignment (gmUIDs h) \<longrightarrow> c' = c)"
proof -
  have h: "geometryOK h" "extends p h" using retainAll_Inr[OF assms(2,1)] assms(3) by auto
  have m: "single_valued (assignment (gmUIDs h))" "single_valued ((assignment (gmUIDs h))\<inverse>)"
    using h(1) by (simp_all add: geometryOK_def domainOK_def mappingOK_def)
  have cn: "(c, n) \<in> assignment (gmUIDs h)" using h(2) assms(4) unfolding extends_def by blast
  have "n' = n" if "(c, n') \<in> assignment (gmUIDs h)" for n'
    using single_valuedD[OF m(1) that cn] .
  moreover have "c' = c" if "(c', n) \<in> assignment (gmUIDs h)" for c'
    using single_valuedD[OF m(2), of n c' c] that cn by simp
  ultimately show ?thesis using h(1) cn by blast
qed

theorem geometry_history_witness:
  "(12, 1012) \<in> assignment (gmUIDs sampleUnion)
   \<and> (12, 1013) \<notin> assignment (gmUIDs sampleUnion) \<and> (13, 1012) \<notin> assignment (gmUIDs sampleUnion)"
proof -
  have r: "retainAll sampleGeometry [sampleProposal] = Inr sampleUnion" by (simp add: sample_retained)
  have m: "(12, 1012) \<in> assignment (gmUIDs sampleProposal)"
    by (simp add: sampleProposal_def assigns_iff containerEnd_def bindingOffset_def sampleRange_def)
  have p: "sampleProposal \<in> set [sampleGeometry, sampleProposal]" by simp
  have ne: "(1013 :: nat) \<noteq> 1012" "(13 :: nat) \<noteq> 12" by simp_all
  from geometry_history[OF sample_OK r p m] show ?thesis using ne by blast
qed

end
