(* ===== verification/IdentityHost.thy ===== *)
theory IdentityHost
  imports GoText IdentityGeometry
begin

text \<open>
  The host check of \<open>src/internal/identitymapping/host.go\<close>: the inventories of accounts and
  subordinate delegations, the checks of a proposed mapping against them, and \<open>checkHost\<close>,
  which reads the inventories through a backend. The backend's \<open>read\<close> and \<open>run\<close> (files and
  commands of the operating system) are arguments that thread a state of the outside world, so
  that two reads of one path may differ; the context's \<open>Err\<close> is a function of that state.
  IDs are \<open>uint32\<close> values kept as natural numbers: the code only compares them and adds them
  as \<open>uint64\<close>.
\<close>

section \<open>Inventories\<close>

record HostIdentity =
  hiUsername :: string
  hiUID :: nat
  hiGID :: nat

datatype host_error =
    ContextNil | ContextDone | SpansInvalid geometry_error | CallerUnusable | ReadFailed | RunFailed
  | NoncanonicalID | InventoryMalformed | NotFilesBacked string | SourcesUnproved
  | PasswdMalformed | PasswdIDsInvalid | DelegationMalformed | DelegationRangeInvalid | NoDelegation
  | DelegationAmbiguous | OutsideDelegation | OverlapsDelegation | PrincipalNamesAmbiguous | OwnerTokenForeign
  | ActiveMalformed | ActiveRangeInvalid | PasswdNamesAmbiguous | OperatorChanged | AliasesPasswd
  | OperatorAbsent | GroupIncomplete | GroupMalformed | AliasesGroup | OperatorUnresolved | OperatorDiffers
  | DelegationDisagrees string | AuthorityChanged

definition number :: "string \<Rightarrow> nat option" where
  "number value =
     (case parseUint32 value of
        None \<Rightarrow> None
      | Some n \<Rightarrow> if n = maxUint32 \<or> formatUint n \<noteq> value then None else Some n)"

definition inventoryLines :: "string \<Rightarrow> host_error + string list" where
  "inventoryLines content =
     (if containsAny content [CHR 0x00, CHR 0x0D] \<or> content \<noteq> [] \<and> \<not> hasSuffix content [CHR 0x0A]
      then Inl InventoryMalformed
      else Inr (filter (\<lambda>line. \<not> hasPrefix line ''#'' \<and> line \<noteq> []) (map trimSpace (splitOn (CHR 0x0A) content))))"

definition nssKeys :: "string list" where
  "nssKeys = [''passwd'', ''group'', ''subid'', ''initgroups'']"

text \<open>The loop of \<open>filesOnly\<close>; \<open>seen\<close> lists the keys of the map.\<close>

fun filesLoop :: "string list \<Rightarrow> string list \<Rightarrow> host_error + string list" where
  "filesLoop seen [] = Inr seen"
| "filesLoop seen (raw # rest) =
     (let line = takeWhile (\<lambda>c. c \<noteq> CHR ''#'') raw;
          (key0, value, ok) = (case cutOn (CHR '':'') line of None \<Rightarrow> (line, [], False) | Some (k, v) \<Rightarrow> (k, v, True));
          key = trimSpace key0
      in if key \<notin> set nssKeys then filesLoop seen rest
         else if \<not> ok \<or> key \<in> set seen \<or> trimSpace value \<noteq> ''files'' then Inl (NotFilesBacked key)
         else filesLoop (key # seen) rest)"

definition filesOnly :: "string \<Rightarrow> host_error check" where
  "filesOnly content =
     (case inventoryLines content of
        Inl e \<Rightarrow> Some e
      | Inr lines \<Rightarrow>
          (case filesLoop [] lines of
             Inl e \<Rightarrow> Some e
           | Inr seen \<Rightarrow> if ''passwd'' \<notin> set seen \<or> ''group'' \<notin> set seen then Some SourcesUnproved else None))"

definition account :: "string \<Rightarrow> host_error + HostIdentity" where
  "account line =
     (case splitOn (CHR '':'') line of
        [f0, f1, f2, f3, f4, f5, f6] \<Rightarrow>
          if f0 = [] \<or> containsAny f0 [CHR '' '', CHR 0x09, CHR 0x5C] \<or> hasPrefix f0 ''-'' \<or> hasPrefix f0 ''+''
             \<or> containsAny line [CHR 0x0A, CHR 0x00] then Inl PasswdMalformed
          else (case (number f2, number f3) of
                  (Some uid, Some gid) \<Rightarrow> Inr \<lparr>hiUsername = f0, hiUID = uid, hiGID = gid\<rparr>
                | _ \<Rightarrow> Inl PasswdIDsInvalid)
      | _ \<Rightarrow> Inl PasswdMalformed)"

section \<open>Delegations\<close>

definition delegationRange :: "string \<Rightarrow> string \<Rightarrow> span option" where
  "delegationRange first second =
     (case (number first, number second) of
        (Some start, Some count) \<Rightarrow>
          if count = 0 \<or> start + count > maxUint32 then None else Some \<lparr>spStart = start, spCount = count\<rparr>
      | _ \<Rightarrow> None)"

definition ownToken :: "HostIdentity \<Rightarrow> string \<Rightarrow> bool" where
  "ownToken caller owner \<longleftrightarrow> owner = hiUsername caller \<or> owner = formatUint (hiUID caller)"

fun delegatedLoop :: "HostIdentity \<Rightarrow> string list \<Rightarrow> host_error + (span list \<times> span list \<times> string list)" where
  "delegatedLoop caller [] = Inr ([], [], [])"
| "delegatedLoop caller (line # rest) =
     (case splitOn (CHR '':'') line of
        [f0, f1, f2] \<Rightarrow>
          if f0 = [] then Inl DelegationMalformed
          else (case delegationRange f1 f2 of
                  None \<Rightarrow> Inl DelegationRangeInvalid
                | Some s \<Rightarrow>
                    (case delegatedLoop caller rest of
                       Inl e \<Rightarrow> Inl e
                     | Inr (own, foreign, owners) \<Rightarrow>
                         if ownToken caller f0 then Inr (s # own, foreign, f0 # owners)
                         else Inr (own, s # foreign, owners)))
      | _ \<Rightarrow> Inl DelegationMalformed)"

definition delegated :: "string \<Rightarrow> HostIdentity \<Rightarrow> host_error + (span list \<times> span list \<times> string list)" where
  "delegated content caller =
     (case inventoryLines content of
        Inl e \<Rightarrow> Inl e
      | Inr lines \<Rightarrow>
          (case delegatedLoop caller lines of
             Inl e \<Rightarrow> Inl e
           | Inr (own, foreign, owners) \<Rightarrow>
               let ordered = sortSpans own
               in if ordered = [] then Inl NoDelegation
                  else if neighboursOverlap ordered then Inl DelegationAmbiguous
                  else Inr (ordered, foreign, owners)))"

text \<open>The inner loop of \<open>checkDelegation\<close>: the first ID that the delegation does not cover.\<close>

fun advance :: "nat \<Rightarrow> span list \<Rightarrow> nat" where
  "advance cursor [] = cursor"
| "advance cursor (available # rest) =
     advance (if spStart available \<le> cursor \<and> spanEnd available > cursor then spanEnd available else cursor) rest"

fun checkDelegation :: "span list \<Rightarrow> span list \<Rightarrow> span list \<Rightarrow> host_error check" where
  "checkDelegation [] own foreign = None"
| "checkDelegation (wanted # rest) own foreign =
     (if advance (spStart wanted) own < spanEnd wanted then Some OutsideDelegation
      else if list_ex (overlaps wanted) foreign then Some OverlapsDelegation
      else checkDelegation rest own foreign)"

section \<open>Owner tokens\<close>

record ownerPrincipal =
  opName :: string
  opID :: nat

record ownerInventory =
  oiByName :: "string \<Rightarrow> ownerPrincipal option"
  oiByID :: "nat \<Rightarrow> ownerPrincipal list"

definition addOwnerPrincipal :: "ownerInventory \<Rightarrow> ownerPrincipal \<Rightarrow> host_error + ownerInventory" where
  "addOwnerPrincipal inventory owner =
     (if oiByName inventory (opName owner) \<noteq> None then Inl PrincipalNamesAmbiguous
      else Inr \<lparr>oiByName = (oiByName inventory)(opName owner \<mapsto> owner),
                oiByID = (oiByID inventory)(opID owner := oiByID inventory (opID owner) @ [owner])\<rparr>)"

fun ownerLoop :: "ownerInventory \<Rightarrow> string list \<Rightarrow> host_error + ownerInventory" where
  "ownerLoop inventory [] = Inr inventory"
| "ownerLoop inventory (line # rest) =
     (case account line of
        Inl e \<Rightarrow> Inl e
      | Inr entry \<Rightarrow>
          (case addOwnerPrincipal inventory \<lparr>opName = hiUsername entry, opID = hiUID entry\<rparr> of
             Inl e \<Rightarrow> Inl e
           | Inr inventory' \<Rightarrow> ownerLoop inventory' rest))"

definition passwdOwnerInventory :: "string \<Rightarrow> host_error + ownerInventory" where
  "passwdOwnerInventory content =
     (case inventoryLines content of
        Inl e \<Rightarrow> Inl e
      | Inr lines \<Rightarrow> ownerLoop \<lparr>oiByName = (\<lambda>_. None), oiByID = (\<lambda>_. [])\<rparr> lines)"

definition numericOwnerID :: "string \<Rightarrow> nat option" where
  "numericOwnerID value =
     (if value = [] \<or> \<not> rangeAll (\<lambda>r. 48 \<le> r \<and> r \<le> 57) value then None
      else case parseUint32 value of
        None \<Rightarrow> None
      | Some n \<Rightarrow> if n = maxUint32 then None else Some n)"

definition foreignPrincipal :: "string \<Rightarrow> nat \<Rightarrow> ownerPrincipal \<Rightarrow> bool" where
  "foreignPrincipal callerName callerID owner \<longleftrightarrow> opName owner \<noteq> callerName \<or> opID owner \<noteq> callerID"

fun checkOwnerTokens :: "string list \<Rightarrow> string \<Rightarrow> nat \<Rightarrow> ownerInventory \<Rightarrow> host_error check" where
  "checkOwnerTokens [] callerName callerID inventory = None"
| "checkOwnerTokens (owner # rest) callerName callerID inventory =
     (if (case oiByName inventory owner of None \<Rightarrow> False | Some p \<Rightarrow> foreignPrincipal callerName callerID p)
      then Some OwnerTokenForeign
      else case numericOwnerID owner of
        None \<Rightarrow> checkOwnerTokens rest callerName callerID inventory
      | Some numeric \<Rightarrow>
          if list_ex (foreignPrincipal callerName callerID) (oiByID inventory numeric) then Some OwnerTokenForeign
          else checkOwnerTokens rest callerName callerID inventory)"

section \<open>Active delegations and principals\<close>

fun activeLoop :: "HostIdentity \<Rightarrow> nat \<Rightarrow> string list \<Rightarrow> host_error + span list" where
  "activeLoop caller i [] = Inr []"
| "activeLoop caller i (line # rest) =
     (case fieldsOf line of
        [f0, f1, f2, f3] \<Rightarrow>
          if f0 \<noteq> formatUint i @ '':'' \<or> \<not> ownToken caller f1 then Inl ActiveMalformed
          else (case delegationRange f2 f3 of
                  None \<Rightarrow> Inl ActiveRangeInvalid
                | Some s \<Rightarrow> (case activeLoop caller (Suc i) rest of Inl e \<Rightarrow> Inl e | Inr ss \<Rightarrow> Inr (s # ss)))
      | _ \<Rightarrow> Inl ActiveMalformed)"

definition activeRanges :: "string \<Rightarrow> HostIdentity \<Rightarrow> host_error + span list" where
  "activeRanges content caller =
     (case inventoryLines content of
        Inl e \<Rightarrow> Inl e
      | Inr lines \<Rightarrow> (case activeLoop caller 0 lines of Inl e \<Rightarrow> Inl e | Inr ss \<Rightarrow> Inr (sortSpans ss)))"

definition collides :: "nat \<Rightarrow> span list \<Rightarrow> bool" where
  "collides n ranges \<longleftrightarrow> list_ex (\<lambda>r. n \<ge> spStart r \<and> n < spanEnd r) ranges"

text \<open>The two loops of \<open>checkPrincipals\<close>; \<open>found\<close> counts the accounts with the caller's UID.\<close>

fun passwdLoop :: "HostIdentity \<Rightarrow> span list \<Rightarrow> span list \<Rightarrow> nat \<Rightarrow> string list \<Rightarrow> string list \<Rightarrow> host_error + nat" where
  "passwdLoop caller uids gids found names [] = Inr found"
| "passwdLoop caller uids gids found names (line # rest) =
     (case account line of
        Inl e \<Rightarrow> Inl e
      | Inr entry \<Rightarrow>
          if hiUsername entry \<in> set names then Inl PasswdNamesAmbiguous
          else if hiUID entry = hiUID caller \<and> entry \<noteq> caller then Inl OperatorChanged
          else if collides (hiUID entry) uids \<or> collides (hiGID entry) gids then Inl AliasesPasswd
          else passwdLoop caller uids gids (if hiUID entry = hiUID caller then Suc found else found)
                 (hiUsername entry # names) rest)"

fun groupLoop :: "span list \<Rightarrow> string list \<Rightarrow> string list \<Rightarrow> host_error check" where
  "groupLoop gids names [] = None"
| "groupLoop gids names (line # rest) =
     (case splitOn (CHR '':'') line of
        [f0, f1, f2, f3] \<Rightarrow>
          if f0 = [] \<or> f0 \<in> set names then Some GroupMalformed
          else (case number f2 of
                  None \<Rightarrow> Some NoncanonicalID
                | Some gid \<Rightarrow> if collides gid gids then Some AliasesGroup else groupLoop gids (f0 # names) rest)
      | _ \<Rightarrow> Some GroupMalformed)"

definition checkPrincipals :: "string \<Rightarrow> string \<Rightarrow> HostIdentity \<Rightarrow> span list \<Rightarrow> span list \<Rightarrow> host_error check" where
  "checkPrincipals passwd groupText caller uids gids =
     (case inventoryLines passwd of
        Inl e \<Rightarrow> Some e
      | Inr lines \<Rightarrow>
          (case passwdLoop caller uids gids 0 [] lines of
             Inl e \<Rightarrow> Some e
           | Inr found \<Rightarrow>
               if found \<noteq> 1 then Some OperatorAbsent
               else (case inventoryLines groupText of
                       Inl e \<Rightarrow> Some e
                     | Inr groups \<Rightarrow> if groups = [] then Some GroupIncomplete else groupLoop gids [] groups)))"

section \<open>The host check\<close>

record 'w hostBackend =
  hbUid :: int
  hbEuid :: int
  hbGid :: int
  hbEgid :: int
  hbSudo :: bool
  hbRead :: "'w \<Rightarrow> string \<Rightarrow> string option \<times> 'w"
  hbRun :: "'w \<Rightarrow> string list \<Rightarrow> string option \<times> 'w"

text \<open>A computation over the outside world and the snapshot, with an early return on error.\<close>

type_synonym snapshot = "(string \<times> string) list"
type_synonym ('w, 'a) host = "'w \<times> snapshot \<Rightarrow> (host_error + 'a) \<times> 'w \<times> snapshot"

definition yields :: "'a \<Rightarrow> ('w, 'a) host" where
  "yields x = (\<lambda>s. (Inr x, s))"

definition fails :: "host_error \<Rightarrow> ('w, 'a) host" where
  "fails e = (\<lambda>s. (Inl e, s))"

definition andThen :: "('w, 'a) host \<Rightarrow> ('a \<Rightarrow> ('w, 'b) host) \<Rightarrow> ('w, 'b) host" where
  "andThen m k = (\<lambda>s. case m s of (Inl e, s') \<Rightarrow> (Inl e, s') | (Inr x, s') \<Rightarrow> k x s')"

definition tries :: "host_error + 'a \<Rightarrow> ('w, 'a) host" where
  "tries r = (case r of Inl e \<Rightarrow> fails e | Inr x \<Rightarrow> yields x)"

definition checks :: "host_error check \<Rightarrow> ('w, unit) host" where
  "checks c = (case c of Some e \<Rightarrow> fails e | None \<Rightarrow> yields ())"

text \<open>\<open>b.read\<close>, the closure \<open>read\<close> that records the snapshot (its five paths are distinct), and \<open>b.run\<close>.\<close>

definition backendRead :: "'w hostBackend \<Rightarrow> string \<Rightarrow> ('w, string) host" where
  "backendRead b path = (\<lambda>(w, snap). case hbRead b w path of
      (None, w') \<Rightarrow> (Inl ReadFailed, w', snap)
    | (Some v, w') \<Rightarrow> (Inr v, w', snap))"

definition readRecorded :: "'w hostBackend \<Rightarrow> string \<Rightarrow> ('w, string) host" where
  "readRecorded b path = andThen (backendRead b path) (\<lambda>v (w, snap). (Inr v, w, snap @ [(path, v)]))"

definition backendRun :: "'w hostBackend \<Rightarrow> string list \<Rightarrow> ('w, string) host" where
  "backendRun b command = (\<lambda>(w, snap). case hbRun b w command of
      (None, w') \<Rightarrow> (Inl RunFailed, w', snap)
    | (Some v, w') \<Rightarrow> (Inr v, w', snap))"

definition contextLive :: "('w \<Rightarrow> bool) \<Rightarrow> ('w, unit) host" where
  "contextLive done = (\<lambda>(w, snap). (if done w then Inl ContextDone else Inr (), w, snap))"

text \<open>One iteration of the loop over the two kinds of ID; it returns the owner tokens.\<close>

definition delegationStep :: "'w hostBackend \<Rightarrow> HostIdentity \<Rightarrow> string \<Rightarrow> string list \<Rightarrow> span list \<Rightarrow> ('w, string list) host" where
  "delegationStep b caller kind args proposed =
     andThen (readRecorded b (''/etc/sub'' @ kind)) (\<lambda>text.
     andThen (tries (delegated text caller)) (\<lambda>(own, foreign, owners).
     andThen (checks (checkDelegation proposed own foreign)) (\<lambda>_.
     andThen (backendRun b (''getsubids'' # args)) (\<lambda>output.
       if activeRanges output caller = Inr own then yields owners else fails (DelegationDisagrees kind)))))"

fun rereadLoop :: "'w hostBackend \<Rightarrow> snapshot \<Rightarrow> ('w, unit) host" where
  "rereadLoop b [] = yields ()"
| "rereadLoop b ((path, previous) # rest) =
     andThen (backendRead b path) (\<lambda>after. if after \<noteq> previous then fails AuthorityChanged else rereadLoop b rest)"

definition resolveCaller :: "'w hostBackend \<Rightarrow> string \<Rightarrow> ('w, HostIdentity) host" where
  "resolveCaller b lookup =
     (case inventoryLines lookup of
        Inr [line] \<Rightarrow>
          (case account line of
             Inr caller \<Rightarrow>
               if int (hiUID caller) \<noteq> hbUid b \<or> int (hiGID caller) \<noteq> hbGid b then fails OperatorDiffers else yields caller
           | Inl _ \<Rightarrow> fails OperatorDiffers)
      | _ \<Rightarrow> fails OperatorUnresolved)"

text \<open>
  \<open>checkHost\<close>. The context is \<^const>\<open>None\<close> when nil; \<open>visit\<close> is the order in which the
  iteration over the snapshot map visits its entries, which Go leaves unspecified.
\<close>

definition checkHost :: "(snapshot \<Rightarrow> snapshot) \<Rightarrow> ('w \<Rightarrow> bool) option \<Rightarrow> 'w hostBackend \<Rightarrow> int \<Rightarrow> int
    \<Rightarrow> Interval list \<Rightarrow> Interval list \<Rightarrow> ('w, HostIdentity) host" where
  "checkHost visit ctx b ownerUID ownerGID uids gids =
     (case ctx of
        None \<Rightarrow> fails ContextNil
      | Some done \<Rightarrow>
          andThen (contextLive done) (\<lambda>_.
          andThen (tries (map_sum SpansInvalid (\<lambda>x. x) (hostSpans uids))) (\<lambda>u.
          andThen (tries (map_sum SpansInvalid (\<lambda>x. x) (hostSpans gids))) (\<lambda>g.
          if hbUid b \<le> 0 \<or> hbGid b \<le> 0 \<or> hbUid b \<noteq> hbEuid b \<or> hbGid b \<noteq> hbEgid b \<or> hbSudo b
             \<or> hbUid b \<noteq> ownerUID \<or> hbGid b \<noteq> ownerGID then fails CallerUnusable
          else
            andThen (readRecorded b ''/etc/nsswitch.conf'') (\<lambda>nss.
            andThen (checks (filesOnly nss)) (\<lambda>_.
            andThen (backendRun b [''getent'', ''passwd'', formatUint (nat (hbUid b))]) (\<lambda>lookup.
            andThen (resolveCaller b lookup) (\<lambda>caller.
            andThen (delegationStep b caller ''uid'' [hiUsername caller] u) (\<lambda>uidOwners.
            andThen (delegationStep b caller ''gid'' [''-g'', hiUsername caller] g) (\<lambda>gidOwners.
            andThen (readRecorded b ''/etc/passwd'') (\<lambda>passwd.
            andThen (readRecorded b ''/etc/group'') (\<lambda>groupText.
            andThen (tries (passwdOwnerInventory passwd)) (\<lambda>inventory.
            andThen (checks (checkOwnerTokens uidOwners (hiUsername caller) (hiUID caller) inventory)) (\<lambda>_.
            andThen (checks (checkOwnerTokens gidOwners (hiUsername caller) (hiUID caller) inventory)) (\<lambda>_.
            andThen (checks (checkPrincipals passwd groupText caller u g)) (\<lambda>_.
            andThen (\<lambda>(w, snap). rereadLoop b (visit snap) (w, snap)) (\<lambda>_.
            andThen (contextLive done) (\<lambda>_. yields caller))))))))))))))))))"

end
