(* ===== verification/IdentityHostProofs.thy ===== *)
theory IdentityHostProofs
  imports IdentityHost IdentityGeometrySpec
begin

text \<open>
  The lemmas on the host check: what the inventories list, that the scan over a delegation
  decides inclusion of sets of IDs, and what a successful run has read and checked.
\<close>

section \<open>Sets of IDs\<close>

definition spanIDs :: "span list \<Rightarrow> nat set" where
  "spanIDs ss = (\<Union>s \<in> set ss. {spStart s ..< spanEnd s})"

lemma spanIDs_simps [simp]: "spanIDs [] = {}" "spanIDs (s # ss) = {spStart s ..< spanEnd s} \<union> spanIDs ss"
  by (simp_all add: spanIDs_def)

lemma spanIDs_sort [simp]: "spanIDs (sortSpans ss) = spanIDs ss"
  by (simp add: spanIDs_def sortSpans_def)

lemma collides_iff: "collides n ss \<longleftrightarrow> n \<in> spanIDs ss"
  by (auto simp: collides_def spanIDs_def list_ex_iff)

lemma hostSpans_result:
  assumes "hostSpans vs = Inr ss"
  shows "spanIDs ss = Range (assignment vs)" "\<And>s. s \<in> set ss \<Longrightarrow> 0 < spCount s"
proof -
  have good: "list_all (\<lambda>v. usable v \<and> ivHostStart v \<noteq> 0) vs" using hostSpans_Inr assms by blast
  then have ss: "ss = sortSpans (map hostSpan vs)"
    using assms spanLoop_good[OF good] by (auto simp: hostSpans_def Let_def split: if_splits)
  have "Range (assigns v) = {spStart (hostSpan v) ..< spanEnd (hostSpan v)}" for v
    by (simp add: Range_assigns hostSpan_def)
  then have "Range (assignment vs) = spanIDs (map hostSpan vs)"
    by (induction vs) (simp_all add: Range_Un_eq)
  then show "spanIDs ss = Range (assignment vs)" by (simp add: ss)
  show "\<And>s. s \<in> set ss \<Longrightarrow> 0 < spCount s"
    using good by (auto simp: ss sortSpans_def hostSpan_def list_all_iff usable_iff)
qed

section \<open>Delegations\<close>

lemma advance_below: "list_all (\<lambda>s. c < spStart s) ss \<Longrightarrow> advance c ss = c"
  by (induction ss) auto

text \<open>The cursor stops at the first ID that the delegation does not contain.\<close>

lemma advance_least:
  assumes "sorted (map spStart ss)"
  shows "c \<le> advance c ss \<and> {c ..< advance c ss} \<subseteq> spanIDs ss \<and> advance c ss \<notin> spanIDs ss"
  using assms
proof (induction ss arbitrary: c)
  case (Cons s ss)
  consider (covered) "spStart s \<le> c" "c < spanEnd s" | (passed) "spanEnd s \<le> c" | (ahead) "c < spStart s" by linarith
  then show ?case
  proof cases
    case covered
    have IH: "spanEnd s \<le> advance (spanEnd s) ss" "{spanEnd s ..< advance (spanEnd s) ss} \<subseteq> spanIDs ss"
        "advance (spanEnd s) ss \<notin> spanIDs ss"
      using Cons.IH[of "spanEnd s"] Cons.prems by simp_all
    have "{c ..< advance (spanEnd s) ss} \<subseteq> {spStart s ..< spanEnd s} \<union> {spanEnd s ..< advance (spanEnd s) ss}"
      using covered by auto
    then show ?thesis using covered IH by auto
  next
    case passed
    then show ?thesis using Cons.IH[of c] Cons.prems by (auto simp: subset_iff)
  next
    case ahead
    then have "advance c ss = c" using Cons.prems by (intro advance_below) (force simp: list_all_iff)
    then show ?thesis using ahead Cons.IH[of c] Cons.prems by auto
  qed
qed simp

lemma advance_covers:
  assumes "sorted (map spStart ss)"
  shows "\<not> advance (spStart w) ss < spanEnd w \<longleftrightarrow> {spStart w ..< spanEnd w} \<subseteq> spanIDs ss"
proof -
  note a = advance_least[OF assms, of "spStart w"]
  show ?thesis
  proof
    assume "\<not> advance (spStart w) ss < spanEnd w"
    then have "{spStart w ..< spanEnd w} \<subseteq> {spStart w ..< advance (spStart w) ss}" by auto
    then show "{spStart w ..< spanEnd w} \<subseteq> spanIDs ss" using a by blast
  next
    assume "{spStart w ..< spanEnd w} \<subseteq> spanIDs ss"
    then show "\<not> advance (spStart w) ss < spanEnd w" using a by auto
  qed
qed

lemma overlaps_iff:
  assumes "0 < spCount s" "0 < spCount t"
  shows "overlaps s t \<longleftrightarrow> {spStart s ..< spanEnd s} \<inter> {spStart t ..< spanEnd t} \<noteq> {}"
proof
  assume "overlaps s t"
  then have "max (spStart s) (spStart t) \<in> {spStart s ..< spanEnd s} \<inter> {spStart t ..< spanEnd t}"
    using assms by (auto simp: overlaps_def spanEnd_def)
  then show "{spStart s ..< spanEnd s} \<inter> {spStart t ..< spanEnd t} \<noteq> {}" by blast
qed (auto simp: overlaps_def)

lemma checkDelegation_None:
  assumes "sorted (map spStart own)" "\<And>s. s \<in> set proposed \<Longrightarrow> 0 < spCount s" "\<And>s. s \<in> set foreign \<Longrightarrow> 0 < spCount s"
  shows "checkDelegation proposed own foreign = None \<longleftrightarrow> spanIDs proposed \<subseteq> spanIDs own \<and> spanIDs proposed \<inter> spanIDs foreign = {}"
  using assms(2)
proof (induction proposed)
  case (Cons w ws)
  have "list_ex (overlaps w) foreign \<longleftrightarrow> {spStart w ..< spanEnd w} \<inter> spanIDs foreign \<noteq> {}"
  proof -
    have "overlaps w t \<longleftrightarrow> {spStart w ..< spanEnd w} \<inter> {spStart t ..< spanEnd t} \<noteq> {}" if "t \<in> set foreign" for t
      using Cons.prems assms(3)[OF that] by (intro overlaps_iff) simp_all
    then show ?thesis unfolding list_ex_iff spanIDs_def by blast
  qed
  then show ?case
    using Cons.IH Cons.prems advance_covers[OF assms(1), of w] by (simp add: Un_subset_iff Int_Un_distrib2) blast
qed simp

definition entryIn :: "string list \<Rightarrow> string \<Rightarrow> span \<Rightarrow> bool" where
  "entryIn lines owner s \<longleftrightarrow> (\<exists>line \<in> set lines. \<exists>f1 f2. splitOn (CHR '':'') line = [owner, f1, f2] \<and> delegationRange f1 f2 = Some s)"

lemma entryIn_simps [simp]: "\<not> entryIn [] owner s"
  by (simp add: entryIn_def)

lemma entryIn_Cons:
  "entryIn (line # rest) owner s \<longleftrightarrow>
     (\<exists>f1 f2. splitOn (CHR '':'') line = [owner, f1, f2] \<and> delegationRange f1 f2 = Some s) \<or> entryIn rest owner s"
  by (auto simp: entryIn_def)

lemma delegatedLoop_Inr:
  assumes "delegatedLoop caller lines = Inr (own, foreign, owners)"
  shows "set own = {s. \<exists>owner. entryIn lines owner s \<and> ownToken caller owner}
    \<and> set foreign = {s. \<exists>owner. entryIn lines owner s \<and> \<not> ownToken caller owner}
    \<and> set owners = {owner. \<exists>s. entryIn lines owner s \<and> ownToken caller owner}"
  using assms
proof (induction lines arbitrary: own foreign owners)
  case (Cons line rest)
  then obtain f0 f1 f2 s own' foreign' owners' where split: "splitOn (CHR '':'') line = [f0, f1, f2]"
      "delegationRange f1 f2 = Some s" "delegatedLoop caller rest = Inr (own', foreign', owners')"
      "(own, foreign, owners) = (if ownToken caller f0 then (s # own', foreign', f0 # owners') else (own', s # foreign', owners'))"
    by (auto split: list.splits option.splits sum.splits if_splits)
  have e: "entryIn (line # rest) owner t \<longleftrightarrow> (owner = f0 \<and> t = s) \<or> entryIn rest owner t" for owner t
    using split(1,2) by (auto simp: entryIn_Cons)
  show ?case
    using Cons.IH[OF split(3)] split(4) unfolding e by (auto split: if_splits)
qed simp

definition delegates :: "string \<Rightarrow> string \<Rightarrow> span \<Rightarrow> bool" where
  "delegates text owner s \<longleftrightarrow> (\<exists>lines. inventoryLines text = Inr lines \<and> entryIn lines owner s)"

definition delegatedIDs :: "string \<Rightarrow> (string \<Rightarrow> bool) \<Rightarrow> nat set" where
  "delegatedIDs text P = {n. \<exists>owner s. delegates text owner s \<and> P owner \<and> spStart s \<le> n \<and> n < spanEnd s}"

lemma spanIDs_delegated:
  assumes "inventoryLines text = Inr lines" "set ss = {s. \<exists>owner. entryIn lines owner s \<and> P owner}"
  shows "spanIDs ss = delegatedIDs text P"
proof -
  have "n \<in> spanIDs ss \<longleftrightarrow> (\<exists>s. (\<exists>owner. entryIn lines owner s \<and> P owner) \<and> spStart s \<le> n \<and> n < spanEnd s)" for n
    by (simp add: spanIDs_def assms(2))
  moreover have "n \<in> delegatedIDs text P \<longleftrightarrow> (\<exists>owner s. entryIn lines owner s \<and> P owner \<and> spStart s \<le> n \<and> n < spanEnd s)" for n
    using assms(1) by (simp add: delegatedIDs_def delegates_def)
  ultimately show ?thesis by blast
qed

lemma delegationRange_count: "delegationRange f1 f2 = Some s \<Longrightarrow> 0 < spCount s"
  by (auto simp: delegationRange_def split: option.splits if_splits)

lemma delegated_Inr:
  assumes "delegated text caller = Inr (own, foreign, owners)"
  shows "sorted (map spStart own)" "\<And>s. s \<in> set foreign \<Longrightarrow> 0 < spCount s"
    "spanIDs own = delegatedIDs text (ownToken caller)" "spanIDs foreign = delegatedIDs text (\<lambda>owner. \<not> ownToken caller owner)"
    "set owners = {owner. \<exists>s. delegates text owner s \<and> ownToken caller owner}"
proof -
  obtain lines own' where loop: "inventoryLines text = Inr lines" "delegatedLoop caller lines = Inr (own', foreign, owners)"
      "own = sortSpans own'"
    using assms by (auto simp: delegated_def Let_def split: sum.splits if_splits)
  note e = delegatedLoop_Inr[OF loop(2)]
  have "sorted (map (\<lambda>s. (spStart s, spCount s)) own)" by (simp add: loop(3) sortSpans_def)
  then show "sorted (map spStart own)"
    unfolding sorted_map by (rule sorted_wrt_mono_rel[rotated]) (auto simp: less_eq_prod_def)
  show "\<And>s. s \<in> set foreign \<Longrightarrow> 0 < spCount s"
    using e delegationRange_count by (auto simp: entryIn_def)
  show "spanIDs own = delegatedIDs text (ownToken caller)"
    unfolding loop(3) spanIDs_sort using e by (intro spanIDs_delegated[OF loop(1)]) blast
  show "spanIDs foreign = delegatedIDs text (\<lambda>owner. \<not> ownToken caller owner)"
    using e by (intro spanIDs_delegated[OF loop(1)]) blast
  show "set owners = {owner. \<exists>s. delegates text owner s \<and> ownToken caller owner}"
    using e loop(1) by (simp add: delegates_def)
qed

lemma delegation_decides:
  assumes "hostSpans vs = Inr proposed" "delegated content caller = Inr (own, foreign, owners)"
  shows "checkDelegation proposed own foreign = None \<longleftrightarrow>
    Range (assignment vs) \<subseteq> delegatedIDs content (ownToken caller)
    \<and> Range (assignment vs) \<inter> delegatedIDs content (\<lambda>owner. \<not> ownToken caller owner) = {}"
proof -
  have "checkDelegation proposed own foreign = None \<longleftrightarrow> spanIDs proposed \<subseteq> spanIDs own \<and> spanIDs proposed \<inter> spanIDs foreign = {}"
    by (intro checkDelegation_None delegated_Inr(1)[OF assms(2)]) (fact hostSpans_result(2)[OF assms(1)] delegated_Inr(2)[OF assms(2)])+
  then show ?thesis unfolding hostSpans_result(1)[OF assms(1)] delegated_Inr(3,4)[OF assms(2)] .
qed

section \<open>Principals\<close>

definition accountIn :: "string list \<Rightarrow> HostIdentity \<Rightarrow> bool" where
  "accountIn lines entry \<longleftrightarrow> (\<exists>line \<in> set lines. account line = Inr entry)"

definition listsAccount :: "string \<Rightarrow> HostIdentity \<Rightarrow> bool" where
  "listsAccount text entry \<longleftrightarrow> (\<exists>lines. inventoryLines text = Inr lines \<and> accountIn lines entry)"

definition groupEntry :: "string list \<Rightarrow> nat \<Rightarrow> bool" where
  "groupEntry rows gid \<longleftrightarrow> (\<exists>line \<in> set rows. \<exists>f0 f1 f2 f3. splitOn (CHR '':'') line = [f0, f1, f2, f3] \<and> number f2 = Some gid)"

definition listsGroup :: "string \<Rightarrow> nat \<Rightarrow> bool" where
  "listsGroup text gid \<longleftrightarrow> (\<exists>rows. inventoryLines text = Inr rows \<and> groupEntry rows gid)"

lemma accountIn_Cons: "accountIn (line # rest) entry \<longleftrightarrow> account line = Inr entry \<or> accountIn rest entry"
  by (auto simp: accountIn_def)

lemma passwdLoop_Inr:
  assumes "passwdLoop caller uids gids found names rows = Inr k"
  shows "(\<forall>entry. accountIn rows entry \<longrightarrow> (hiUID entry = hiUID caller \<longrightarrow> entry = caller)
      \<and> hiUID entry \<notin> spanIDs uids \<and> hiGID entry \<notin> spanIDs gids)
    \<and> (found < k \<longrightarrow> accountIn rows caller)"
  using assms
proof (induction rows arbitrary: found names)
  case (Cons line rest)
  then obtain entry where entry: "account line = Inr entry" "hiUID entry = hiUID caller \<Longrightarrow> entry = caller"
      "hiUID entry \<notin> spanIDs uids" "hiGID entry \<notin> spanIDs gids"
      "passwdLoop caller uids gids (if hiUID entry = hiUID caller then Suc found else found) (hiUsername entry # names) rest = Inr k"
    by (auto simp: collides_iff split: sum.splits if_splits)
  show ?case
    using Cons.IH[OF entry(5)] entry(1-4) by (auto simp: accountIn_Cons split: if_splits)
qed (simp add: accountIn_def)

lemma groupEntry_Cons:
  "groupEntry (line # rest) gid \<longleftrightarrow>
     (\<exists>f0 f1 f2 f3. splitOn (CHR '':'') line = [f0, f1, f2, f3] \<and> number f2 = Some gid) \<or> groupEntry rest gid"
  by (auto simp: groupEntry_def)

lemma groupLoop_None:
  "groupLoop gids names rows = None \<Longrightarrow> groupEntry rows gid \<Longrightarrow> gid \<notin> spanIDs gids"
proof (induction rows arbitrary: names)
  case (Cons line rest)
  obtain f0 f1 f2 f3 n where line: "splitOn (CHR '':'') line = [f0, f1, f2, f3]" "number f2 = Some n" "n \<notin> spanIDs gids"
      "groupLoop gids (f0 # names) rest = None"
    using Cons.prems(1) by (auto simp: collides_iff split: list.splits option.splits if_splits)
  show ?case using Cons.IH[OF line(4)] Cons.prems(2) line(1-3) by (auto simp: groupEntry_Cons)
qed (simp add: groupEntry_def)

lemma checkPrincipals_None:
  assumes "checkPrincipals passwd groupText caller uids gids = None"
  shows "listsAccount passwd caller" "listsAccount passwd entry \<Longrightarrow> hiUID entry = hiUID caller \<Longrightarrow> entry = caller"
    "listsAccount passwd entry \<Longrightarrow> hiUID entry \<notin> spanIDs uids" "listsAccount passwd entry \<Longrightarrow> hiGID entry \<notin> spanIDs gids"
    "listsGroup groupText gid \<Longrightarrow> gid \<notin> spanIDs gids"
proof -
  obtain rows grows where rows: "inventoryLines passwd = Inr rows" "passwdLoop caller uids gids 0 [] rows = Inr 1"
      "inventoryLines groupText = Inr grows" "groupLoop gids [] grows = None"
    using assms by (auto simp: checkPrincipals_def split: sum.splits if_splits)
  note p = passwdLoop_Inr[OF rows(2)]
  show "listsAccount passwd caller" using p rows(1) by (simp add: listsAccount_def)
  show "listsAccount passwd entry \<Longrightarrow> hiUID entry = hiUID caller \<Longrightarrow> entry = caller"
    "listsAccount passwd entry \<Longrightarrow> hiUID entry \<notin> spanIDs uids" "listsAccount passwd entry \<Longrightarrow> hiGID entry \<notin> spanIDs gids"
    using p rows(1) by (simp_all add: listsAccount_def)
  show "listsGroup groupText gid \<Longrightarrow> gid \<notin> spanIDs gids"
    using groupLoop_None[OF rows(4)] rows(3) by (simp add: listsGroup_def)
qed

section \<open>Owner tokens\<close>

definition known :: "ownerInventory \<Rightarrow> string \<Rightarrow> nat \<Rightarrow> bool" where
  "known inventory name n \<longleftrightarrow> oiByName inventory name = Some \<lparr>opName = name, opID = n\<rparr> \<and> \<lparr>opName = name, opID = n\<rparr> \<in> set (oiByID inventory n)"

lemma ownerLoop_Inr:
  assumes "ownerLoop inventory rows = Inr result"
  shows "(\<forall>name n. known inventory name n \<longrightarrow> known result name n)
    \<and> (\<forall>entry. accountIn rows entry \<longrightarrow> known result (hiUsername entry) (hiUID entry))"
  using assms
proof (induction rows arbitrary: inventory)
  case (Cons line rest)
  then obtain entry next' where entry: "account line = Inr entry"
      "addOwnerPrincipal inventory \<lparr>opName = hiUsername entry, opID = hiUID entry\<rparr> = Inr next'" "ownerLoop next' rest = Inr result"
    by (auto split: sum.splits)
  have keep: "known inventory name n \<Longrightarrow> known next' name n" "known next' (hiUsername entry) (hiUID entry)" for name n
    using entry(2) by (auto simp: addOwnerPrincipal_def known_def split: if_splits)
  show ?case using Cons.IH[OF entry(3)] keep entry(1) by (auto simp: accountIn_Cons)
qed (simp add: accountIn_def)

lemma checkOwnerTokens_None:
  assumes "checkOwnerTokens owners name uid inventory = None" "owner \<in> set owners" "known inventory n m"
    "n = owner \<or> numericOwnerID owner = Some m"
  shows "n = name \<and> m = uid"
  using assms
proof (induction owners)
  case (Cons o' rest)
  show ?case
  proof (cases "owner = o'")
    case True
    have "\<not> foreignPrincipal name uid \<lparr>opName = n, opID = m\<rparr>"
      using Cons.prems True by (auto simp: known_def list_ex_iff split: option.splits if_splits)
    then show ?thesis by (simp add: foreignPrincipal_def)
  next
    case False
    then show ?thesis using Cons by (auto split: option.splits if_splits)
  qed
qed simp

lemma passwdOwnerInventory_known:
  "passwdOwnerInventory text = Inr inventory \<Longrightarrow> listsAccount text entry \<Longrightarrow> known inventory (hiUsername entry) (hiUID entry)"
  using ownerLoop_Inr by (auto simp: passwdOwnerInventory_def listsAccount_def split: sum.splits)

section \<open>Runs of the host check\<close>

lemma andThen_Inr: "andThen m k s = (Inr y, s') \<longleftrightarrow> (\<exists>x t. m s = (Inr x, t) \<and> k x t = (Inr y, s'))"
  by (auto simp: andThen_def split: prod.splits sum.splits)

lemma step_Inr:
  "yields x s = (Inr y, s') \<longleftrightarrow> y = x \<and> s' = s" "fails e s \<noteq> (Inr y, s')"
  "tries r s = (Inr y, s') \<longleftrightarrow> r = Inr y \<and> s' = s" "checks c s = (Inr u, s') \<longleftrightarrow> c = None \<and> s' = s"
  "contextLive done s = (Inr u, s') \<longleftrightarrow> \<not> done (fst s) \<and> s' = s"
  by (cases s; auto simp: yields_def fails_def tries_def checks_def contextLive_def split: sum.splits option.splits)+

lemma io_Inr:
  "backendRead b path s = (Inr v, s') \<longleftrightarrow> (\<exists>w'. hbRead b (fst s) path = (Some v, w') \<and> s' = (w', snd s))"
  "readRecorded b path s = (Inr v, s') \<longleftrightarrow> (\<exists>w'. hbRead b (fst s) path = (Some v, w') \<and> s' = (w', snd s @ [(path, v)]))"
  "backendRun b command s = (Inr v, s') \<longleftrightarrow> (\<exists>w'. hbRun b (fst s) command = (Some v, w') \<and> s' = (w', snd s))"
  by (cases s; auto simp: backendRead_def readRecorded_def backendRun_def andThen_def split: prod.splits option.splits sum.splits)+

lemma rereadLoop_snapshot: "rereadLoop b entries s = (Inr u, s') \<Longrightarrow> snd s' = snd s"
proof (induction entries arbitrary: s)
  case (Cons entry rest)
  then show ?case by (cases entry) (auto simp: andThen_Inr io_Inr step_Inr split: if_splits)
qed (simp add: step_Inr)

lemma delegationStep_Inr:
  assumes "delegationStep b caller kind args proposed s = (Inr owners, s')"
  obtains content own foreign where "snd s' = snd s @ [(''/etc/sub'' @ kind, content)]"
    "delegated content caller = Inr (own, foreign, owners)" "checkDelegation proposed own foreign = None"
  using assms by (auto simp: delegationStep_def andThen_Inr io_Inr step_Inr split: if_splits)

lemma resolveCaller_Inr:
  "resolveCaller b lookup s = (Inr caller, s') \<Longrightarrow> int (hiUID caller) = hbUid b \<and> int (hiGID caller) = hbGid b \<and> s' = s"
  by (auto simp: resolveCaller_def step_Inr split: sum.splits list.splits if_splits)

lemma map_sum_Inr: "map_sum f (\<lambda>x. x) r = Inr y \<longleftrightarrow> r = Inr y"
  by (cases r) auto

text \<open>What a successful run read and checked.\<close>

definition inspected :: "HostIdentity \<Rightarrow> span list \<Rightarrow> span list \<Rightarrow> string \<Rightarrow> string \<Rightarrow> string \<Rightarrow> string \<Rightarrow> bool" where
  "inspected caller u g subuid subgid passwd groupText \<longleftrightarrow>
     (\<exists>own foreign owners own' foreign' owners' inventory.
        delegated subuid caller = Inr (own, foreign, owners) \<and> checkDelegation u own foreign = None
      \<and> delegated subgid caller = Inr (own', foreign', owners') \<and> checkDelegation g own' foreign' = None
      \<and> passwdOwnerInventory passwd = Inr inventory
      \<and> checkOwnerTokens owners (hiUsername caller) (hiUID caller) inventory = None
      \<and> checkOwnerTokens owners' (hiUsername caller) (hiUID caller) inventory = None
      \<and> checkPrincipals passwd groupText caller u g = None)"

lemma checkHost_Inr:
  assumes "checkHost visit ctx b ownerUID ownerGID uids gids (w, []) = (Inr caller, w', snap)"
  obtains u g nss subuid subgid passwd groupText where "hostSpans uids = Inr u" "hostSpans gids = Inr g"
    "0 < hbUid b" "0 < hbGid b" "\<not> hbSudo b" "hbEuid b = hbUid b" "hbEgid b = hbGid b" "ownerUID = hbUid b" "ownerGID = hbGid b"
    "int (hiUID caller) = hbUid b" "int (hiGID caller) = hbGid b" "filesOnly nss = None"
    "snap = [(''/etc/nsswitch.conf'', nss), (''/etc/subuid'', subuid), (''/etc/subgid'', subgid),
             (''/etc/passwd'', passwd), (''/etc/group'', groupText)]"
    "inspected caller u g subuid subgid passwd groupText"
proof -
  obtain live where ctx: "ctx = Some live" using assms by (cases ctx) (auto simp: checkHost_def step_Inr)
  obtain u g where spans: "hostSpans uids = Inr u" "hostSpans gids = Inr g"
    using assms by (auto simp: checkHost_def ctx andThen_Inr step_Inr map_sum_Inr)
  have ids: "0 < hbUid b" "0 < hbGid b" "\<not> hbSudo b" "hbEuid b = hbUid b" "hbEgid b = hbGid b" "ownerUID = hbUid b" "ownerGID = hbGid b"
    using assms by (auto simp: checkHost_def ctx andThen_Inr step_Inr map_sum_Inr split: if_splits)
  have positive: "\<not> hbUid b \<le> 0" "\<not> hbGid b \<le> 0" using ids by simp_all
  obtain nss lookup s0 s1 s2 uo s3 go s4 passwd groupText inventory where run:
      "filesOnly nss = None" "resolveCaller b lookup s0 = (Inr caller, s1)" "snd s0 = [(''/etc/nsswitch.conf'', nss)]"
      "delegationStep b caller ''uid'' [hiUsername caller] u s1 = (Inr uo, s2)"
      "delegationStep b caller ''gid'' [''-g'', hiUsername caller] g s2 = (Inr go, s3)"
      "snd s4 = snd s3 @ [(''/etc/passwd'', passwd), (''/etc/group'', groupText)]"
      "passwdOwnerInventory passwd = Inr inventory"
      "checkOwnerTokens uo (hiUsername caller) (hiUID caller) inventory = None"
      "checkOwnerTokens go (hiUsername caller) (hiUID caller) inventory = None"
      "checkPrincipals passwd groupText caller u g = None"
      "rereadLoop b (visit (snd s4)) s4 = (Inr (), w', snap)"
    using assms ids positive
    by (clarsimp simp: checkHost_def ctx andThen_Inr step_Inr map_sum_Inr spans io_Inr case_prod_unfold)
  have caller: "int (hiUID caller) = hbUid b" "int (hiGID caller) = hbGid b" "s1 = s0" using resolveCaller_Inr[OF run(2)] by auto
  obtain subuid own foreign where uid: "snd s2 = snd s1 @ [(''/etc/subuid'', subuid)]"
      "delegated subuid caller = Inr (own, foreign, uo)" "checkDelegation u own foreign = None"
    using delegationStep_Inr[OF run(4)] by auto
  obtain subgid own' foreign' where gid: "snd s3 = snd s2 @ [(''/etc/subgid'', subgid)]"
      "delegated subgid caller = Inr (own', foreign', go)" "checkDelegation g own' foreign' = None"
    using delegationStep_Inr[OF run(5)] by auto
  have "snap = snd s4" using rereadLoop_snapshot[OF run(11)] by simp
  then have "snap = [(''/etc/nsswitch.conf'', nss), (''/etc/subuid'', subuid), (''/etc/subgid'', subgid),
             (''/etc/passwd'', passwd), (''/etc/group'', groupText)]"
    using run(3,6) uid(1) gid(1) caller(3) by simp
  moreover have "inspected caller u g subuid subgid passwd groupText"
    unfolding inspected_def using uid gid run(7-10) by blast
  ultimately show ?thesis using that spans ids caller run(1) by blast
qed

section \<open>Safety of what was inspected\<close>

definition safeUIDs :: "HostIdentity \<Rightarrow> nat set \<Rightarrow> string \<Rightarrow> string \<Rightarrow> bool" where
  "safeUIDs caller ns subuid passwd \<longleftrightarrow> (\<forall>n \<in> ns. n \<in> delegatedIDs subuid (ownToken caller)
     \<and> n \<notin> delegatedIDs subuid (\<lambda>owner. \<not> ownToken caller owner) \<and> \<not> (\<exists>entry. listsAccount passwd entry \<and> hiUID entry = n))"

definition safeGIDs :: "HostIdentity \<Rightarrow> nat set \<Rightarrow> string \<Rightarrow> string \<Rightarrow> string \<Rightarrow> bool" where
  "safeGIDs caller ns subgid passwd groups \<longleftrightarrow> (\<forall>n \<in> ns. n \<in> delegatedIDs subgid (ownToken caller)
     \<and> n \<notin> delegatedIDs subgid (\<lambda>owner. \<not> ownToken caller owner) \<and> \<not> (\<exists>entry. listsAccount passwd entry \<and> hiGID entry = n)
     \<and> \<not> listsGroup groups n)"

definition safeTokens :: "HostIdentity \<Rightarrow> string \<Rightarrow> string \<Rightarrow> string \<Rightarrow> bool" where
  "safeTokens caller subuid subgid passwd \<longleftrightarrow>
     (\<forall>owner s entry. (delegates subuid owner s \<or> delegates subgid owner s) \<and> ownToken caller owner \<and> listsAccount passwd entry
         \<and> (hiUsername entry = owner \<or> numericOwnerID owner = Some (hiUID entry))
         \<longrightarrow> hiUsername entry = hiUsername caller \<and> hiUID entry = hiUID caller)"

lemma inspected_safe:
  assumes "inspected caller u g subuid subgid passwd groups" "hostSpans uids = Inr u" "hostSpans gids = Inr g"
  shows "listsAccount passwd caller" "\<forall>entry. listsAccount passwd entry \<and> hiUID entry = hiUID caller \<longrightarrow> entry = caller"
    "safeUIDs caller (Range (assignment uids)) subuid passwd" "safeGIDs caller (Range (assignment gids)) subgid passwd groups"
    "safeTokens caller subuid subgid passwd"
proof -
  obtain own foreign owners own' foreign' owners' inventory where i:
      "delegated subuid caller = Inr (own, foreign, owners)" "checkDelegation u own foreign = None"
      "delegated subgid caller = Inr (own', foreign', owners')" "checkDelegation g own' foreign' = None"
      "passwdOwnerInventory passwd = Inr inventory"
      "checkOwnerTokens owners (hiUsername caller) (hiUID caller) inventory = None"
      "checkOwnerTokens owners' (hiUsername caller) (hiUID caller) inventory = None"
      "checkPrincipals passwd groups caller u g = None"
    using assms(1) unfolding inspected_def by blast
  note p = checkPrincipals_None[OF i(8)] and u = hostSpans_result[OF assms(2)] and g = hostSpans_result[OF assms(3)]
  note du = delegated_Inr[OF i(1)] and dg = delegated_Inr[OF i(3)]
  show "listsAccount passwd caller" by (rule p(1))
  show "\<forall>entry. listsAccount passwd entry \<and> hiUID entry = hiUID caller \<longrightarrow> entry = caller" using p(2) by blast
  have "Range (assignment uids) \<subseteq> delegatedIDs subuid (ownToken caller)"
      "Range (assignment uids) \<inter> delegatedIDs subuid (\<lambda>owner. \<not> ownToken caller owner) = {}"
    using i(2) unfolding delegation_decides[OF assms(2) i(1)] by blast+
  then show "safeUIDs caller (Range (assignment uids)) subuid passwd"
    using p(3) unfolding safeUIDs_def u(1) by blast
  have "Range (assignment gids) \<subseteq> delegatedIDs subgid (ownToken caller)"
      "Range (assignment gids) \<inter> delegatedIDs subgid (\<lambda>owner. \<not> ownToken caller owner) = {}"
    using i(4) unfolding delegation_decides[OF assms(3) i(3)] by blast+
  then show "safeGIDs caller (Range (assignment gids)) subgid passwd groups"
    using p(4,5) unfolding safeGIDs_def g(1) by blast
  have token: "hiUsername entry = hiUsername caller \<and> hiUID entry = hiUID caller"
    if "owner \<in> set owners \<or> owner \<in> set owners'" "listsAccount passwd entry" "hiUsername entry = owner \<or> numericOwnerID owner = Some (hiUID entry)"
    for owner entry
    using that checkOwnerTokens_None[OF i(6)] checkOwnerTokens_None[OF i(7)] passwdOwnerInventory_known[OF i(5) that(2)] by blast
  then show "safeTokens caller subuid subgid passwd"
    unfolding safeTokens_def du(5) dg(5) by blast
qed

end
