(* ===== verification/IdentityHostProperties.thy ===== *)
theory IdentityHostProperties
  imports IdentityHostProofs
begin

text \<open>
  The properties of the host check, \<open>src/internal/identitymapping/host.go\<close>.
\<close>

section \<open>A sample host\<close>

definition samplePasswd :: string where
  "samplePasswd = ''op:x:7:7:::'' @ [CHR 0x0A]"

definition sampleGroup :: string where
  "sampleGroup = ''op:x:7:'' @ [CHR 0x0A]"

definition sampleSubid :: string where
  "sampleSubid = ''op:20:5'' @ [CHR 0x0A] @ ''x:25:3'' @ [CHR 0x0A]"

definition sampleCaller :: HostIdentity where
  "sampleCaller = \<lparr>hiUsername = ''op'', hiUID = 7, hiGID = 7\<rparr>"

definition sampleMapping :: "Interval list" where
  "sampleMapping = [\<lparr>ivContainerStart = 0, ivHostStart = 20, ivCount = 4\<rparr>]"

definition sampleSpan :: "nat \<Rightarrow> nat \<Rightarrow> span" where
  "sampleSpan s n = \<lparr>spStart = s, spCount = n\<rparr>"

definition sampleFiles :: "string \<Rightarrow> string option" where
  "sampleFiles path =
     (if path = ''/etc/nsswitch.conf'' then Some (''passwd:files'' @ [CHR 0x0A] @ ''group:files'' @ [CHR 0x0A])
      else if path = ''/etc/passwd'' then Some samplePasswd
      else if path = ''/etc/group'' then Some sampleGroup
      else Some sampleSubid)"

definition sampleBackend :: "unit hostBackend" where
  "sampleBackend = \<lparr>hbUid = 7, hbEuid = 7, hbGid = 7, hbEgid = 7, hbSudo = False,
     hbRead = (\<lambda>_ path. (sampleFiles path, ())),
     hbRun = (\<lambda>_ command. (if hd command = ''getent'' then Some samplePasswd else Some (''0: op 20 5'' @ [CHR 0x0A]), ()))\<rparr>"

lemma trimSpace_edges:
  assumes "plainText [c]" "plainText [d]"
  shows "trimSpace (c # s @ [d]) = c # s @ [d]"
proof -
  have "trimLeft (c # s @ [d]) = c # s @ [d]"
    using assms by (subst trimLeft.simps) (simp add: plainText_Cons decodeRune_ascii plain_not_space)
  moreover have "trimRight (c # s @ [d]) = c # s @ [d]"
    using assms by (subst trimRight.simps) (simp add: plainText_Cons decodeLastRune_def plain_not_space)
  ultimately show ?thesis by (simp add: trimSpace_def)
qed

lemmas text_eval = inventoryLines_def containsAny_def hasSuffix_def hasPrefix_def trimSpace_plain plainText_def

lemma number_eval [simp]: "number ''7'' = Some 7" "number ''20'' = Some 20" "number ''25'' = Some 25" "number ''5'' = Some 5"
    "number ''3'' = Some 3" "formatUint 7 = ''7''" "formatUint 0 = ''0''"
  by (simp_all add: number_def parseUint32_def isDigit_def maxUint32_def formatUint.simps char_of_def bit_0)

lemma trim_empty: "trimSpace [] = []"
  by (simp add: trimSpace_def trimLeft.simps trimRight.simps)

lemma sample_lines:
  "inventoryLines samplePasswd = Inr [''op:x:7:7:::'']" "inventoryLines sampleGroup = Inr [''op:x:7:'']"
  "inventoryLines sampleSubid = Inr [''op:20:5'', ''x:25:3'']"
  by (simp_all add: samplePasswd_def sampleGroup_def sampleSubid_def text_eval)

lemma sample_active_lines: "inventoryLines (''0: op 20 5'' @ [CHR 0x0A]) = Inr [''0: op 20 5'']"
  using trimSpace_edges[of "CHR ''0''" "CHR ''5''" "'': op 20 ''"] by (simp add: text_eval trim_empty)

lemma sample_fields: "fieldsOf ''0: op 20 5'' = [''0:'', ''op'', ''20'', ''5'']"
  by (simp add: fieldsOf_def fieldsLoop.simps decodeRune_ascii isSpace_def)

lemma sample_account: "account ''op:x:7:7:::'' = Inr sampleCaller"
  by (simp add: account_def containsAny_def hasPrefix_def sampleCaller_def)

lemma sample_spans: "hostSpans sampleMapping = Inr [sampleSpan 20 4]"
  by (simp add: sampleMapping_def hostSpans_def ValidateInterval_def maxUint32_def sortSpans_def sampleSpan_def)

lemma sample_delegated: "delegated sampleSubid sampleCaller = Inr ([sampleSpan 20 5], [sampleSpan 25 3], [''op''])"
  by (simp add: delegated_def sample_lines delegationRange_def maxUint32_def ownToken_def sampleCaller_def sampleSpan_def sortSpans_def)

lemma sample_delegation: "checkDelegation [sampleSpan 20 4] [sampleSpan 20 5] [sampleSpan 25 3] = None"
  by (simp add: sampleSpan_def spanEnd_def overlaps_def)

lemma sample_active: "activeRanges (''0: op 20 5'' @ [CHR 0x0A]) sampleCaller = Inr [sampleSpan 20 5]"
  unfolding activeRanges_def sample_active_lines
  by (simp add: sample_fields ownToken_def delegationRange_def maxUint32_def sampleCaller_def sampleSpan_def sortSpans_def)

lemma sample_files: "filesOnly (''passwd:files'' @ [CHR 0x0A] @ ''group:files'' @ [CHR 0x0A]) = None"
  by (simp add: filesOnly_def text_eval cutOn_def nssKeys_def)

lemma sample_principals: "checkPrincipals samplePasswd sampleGroup sampleCaller [sampleSpan 20 4] [sampleSpan 20 4] = None"
  by (simp add: checkPrincipals_def sample_lines sample_account collides_def sampleCaller_def sampleSpan_def spanEnd_def)

lemma sample_tokens:
  "\<exists>inventory. passwdOwnerInventory samplePasswd = Inr inventory \<and> checkOwnerTokens [''op''] ''op'' 7 inventory = None"
proof -
  have "\<not> rangeAll (\<lambda>r. 48 \<le> r \<and> r \<le> 57) ''op''"
    by (simp add: rangeAll_def runes_plain plainText_def)
  then show ?thesis
    by (simp add: passwdOwnerInventory_def sample_lines sample_account sampleCaller_def addOwnerPrincipal_def
        foreignPrincipal_def numericOwnerID_def)
qed

lemma sample_check:
  "\<exists>snap. checkHost (\<lambda>snap. snap) (Some (\<lambda>_. False)) sampleBackend 7 7 sampleMapping sampleMapping ((), []) = (Inr sampleCaller, (), snap)"
proof -
  obtain inventory where tokens: "passwdOwnerInventory samplePasswd = Inr inventory" "checkOwnerTokens [''op''] ''op'' 7 inventory = None"
    using sample_tokens by blast
  have ids: "hbUid sampleBackend = 7" "hbGid sampleBackend = 7" "hbEuid sampleBackend = 7" "hbEgid sampleBackend = 7"
      "\<not> hbSudo sampleBackend" "hiUsername sampleCaller = ''op''" "hiUID sampleCaller = 7" "hiGID sampleCaller = 7"
    by (simp_all add: sampleBackend_def sampleCaller_def)
  have io: "hbRead sampleBackend () path = (sampleFiles path, ())"
      "hbRun sampleBackend () (command # args) = (if command = ''getent'' then Some samplePasswd else Some (''0: op 20 5'' @ [CHR 0x0A]), ())" for path command args
    by (simp_all add: sampleBackend_def)
  have step: "delegationStep sampleBackend sampleCaller kind args [sampleSpan 20 4] ((), snap)
      = (Inr [''op''], (), snap @ [(''/etc/sub'' @ kind, sampleSubid)])" if "kind = ''uid'' \<or> kind = ''gid''" for kind args snap
    using that sample_active
    by (auto simp: delegationStep_def andThen_def readRecorded_def backendRead_def backendRun_def io tries_def checks_def yields_def
        sampleFiles_def sample_delegated sample_delegation simp del: checkDelegation.simps)
  show ?thesis
    by (simp add: checkHost_def andThen_def contextLive_def tries_def checks_def yields_def fails_def sample_spans readRecorded_def
        backendRead_def backendRun_def io step ids sampleFiles_def sample_files[simplified] resolveCaller_def sample_lines sample_account
        tokens sample_principals del: checkOwnerTokens.simps)
qed

section \<open>Properties\<close>

text \<open>
  C28. The scan of the delegations decides inclusion. For a proposed mapping and a readable
  subordinate inventory, the check passes exactly when every host ID of the mapping is
  delegated to the caller (by name or by UID) and none is delegated to another owner, although
  it compares interval ends only and never enumerates IDs.
\<close>

theorem check_delegation_exact:
  assumes "hostSpans vs = Inr proposed" "delegated content caller = Inr (own, foreign, owners)"
  shows "checkDelegation proposed own foreign = None \<longleftrightarrow>
    Range (assignment vs) \<subseteq> delegatedIDs content (ownToken caller)
    \<and> Range (assignment vs) \<inter> delegatedIDs content (\<lambda>owner. \<not> ownToken caller owner) = {}"
  by (rule delegation_decides[OF assms])

theorem check_delegation_exact_witness:
  "Range (assignment sampleMapping) \<subseteq> delegatedIDs sampleSubid (ownToken sampleCaller)"
  using check_delegation_exact[OF sample_spans sample_delegated] sample_delegation by blast

text \<open>
  A mapping that the host check accepts is safe. On success the caller is the non-root
  owner of the deployment, acting without substitution, and is listed under its UID exactly as
  resolved; every host UID of the mapping is delegated to the caller in \<open>/etc/subuid\<close>, to
  nobody else, and is no account's UID; every host GID is delegated in \<open>/etc/subgid\<close> to the
  caller only and is neither an account's primary GID nor a group's GID; and no owner token
  that the delegations rest on, read as a name or as a number, means another account.
\<close>

theorem check_host_safe:
  assumes "checkHost visit ctx b ownerUID ownerGID uids gids (w, []) = (Inr caller, w', snap)"
  shows "\<exists>subuid subgid passwd groups. {(''/etc/subuid'', subuid), (''/etc/subgid'', subgid), (''/etc/passwd'', passwd), (''/etc/group'', groups)} \<subseteq> set snap
    \<and> 0 < ownerUID \<and> int (hiUID caller) = ownerUID \<and> int (hiGID caller) = ownerGID \<and> hbEuid b = ownerUID \<and> hbEgid b = ownerGID \<and> \<not> hbSudo b
    \<and> listsAccount passwd caller \<and> (\<forall>entry. listsAccount passwd entry \<and> hiUID entry = hiUID caller \<longrightarrow> entry = caller)
    \<and> (\<forall>n \<in> Range (assignment uids). n \<in> delegatedIDs subuid (ownToken caller) \<and> n \<notin> delegatedIDs subuid (\<lambda>owner. \<not> ownToken caller owner)
         \<and> \<not> (\<exists>entry. listsAccount passwd entry \<and> hiUID entry = n))
    \<and> (\<forall>n \<in> Range (assignment gids). n \<in> delegatedIDs subgid (ownToken caller) \<and> n \<notin> delegatedIDs subgid (\<lambda>owner. \<not> ownToken caller owner)
         \<and> \<not> (\<exists>entry. listsAccount passwd entry \<and> hiGID entry = n) \<and> \<not> listsGroup groups n)
    \<and> (\<forall>owner s entry. (delegates subuid owner s \<or> delegates subgid owner s) \<and> ownToken caller owner \<and> listsAccount passwd entry
         \<and> (hiUsername entry = owner \<or> numericOwnerID owner = Some (hiUID entry))
         \<longrightarrow> hiUsername entry = hiUsername caller \<and> hiUID entry = hiUID caller)"
proof -
  obtain u g nss subuid subgid passwd groups where run: "hostSpans uids = Inr u" "hostSpans gids = Inr g"
      "0 < hbUid b" "0 < hbGid b" "\<not> hbSudo b" "hbEuid b = hbUid b" "hbEgid b = hbGid b" "ownerUID = hbUid b" "ownerGID = hbGid b"
      "int (hiUID caller) = hbUid b" "int (hiGID caller) = hbGid b" "filesOnly nss = None"
      "snap = [(''/etc/nsswitch.conf'', nss), (''/etc/subuid'', subuid), (''/etc/subgid'', subgid),
             (''/etc/passwd'', passwd), (''/etc/group'', groups)]"
      "inspected caller u g subuid subgid passwd groups"
    by (rule checkHost_Inr[OF assms])
  note safe = inspected_safe[OF run(14,1,2)]
  have "{(''/etc/subuid'', subuid), (''/etc/subgid'', subgid), (''/etc/passwd'', passwd), (''/etc/group'', groups)} \<subseteq> set snap"
    unfolding run(13) by simp
  moreover have "0 < ownerUID \<and> int (hiUID caller) = ownerUID \<and> int (hiGID caller) = ownerGID \<and> hbEuid b = ownerUID
      \<and> hbEgid b = ownerGID \<and> \<not> hbSudo b"
    using run(3-11) by simp
  ultimately show ?thesis using safe unfolding safeUIDs_def safeGIDs_def safeTokens_def by blast
qed

theorem check_host_safe_witness:
  "22 \<in> Range (assignment sampleMapping) \<and> (\<exists>subuid. 22 \<in> delegatedIDs subuid (ownToken sampleCaller))"
proof -
  obtain snap where run: "checkHost (\<lambda>snap. snap) (Some (\<lambda>_. False)) sampleBackend 7 7 sampleMapping sampleMapping ((), []) = (Inr sampleCaller, (), snap)"
    using sample_check by blast
  have "22 \<in> Range (assignment sampleMapping)"
    by (simp add: sampleMapping_def Range_assigns spanEnd_def hostSpan_def)
  with check_host_safe[OF run] show ?thesis by blast
qed

end
