(* ===== verification/PythonClaim.thy ===== *)
theory PythonClaim
  imports GoText "HOL-Library.Product_Lexorder"
begin

text \<open>
  Supported-interpreter claims: \<open>src/internal/providers/python_claim.go\<close> and the validator it
  calls in \<open>src/internal/portabletool/record_validate.go\<close>. A component of a version is a
  nonnegative \<open>int\<close> that \<open>strconv.Atoi\<close> accepted, kept as a natural number.
\<close>

section \<open>One claim\<close>

record SupportedPythonClaimV1 =
  pcMajor :: nat
  pcMinor :: nat
  pcPatch :: nat
  pcExact :: bool

datatype python_error =
    InterpreterShape string | InterpreterNotCanonical string | InterpreterOutOfRange string
  | RequiresPythonUnsupported string | NoMinorSuccessor string | ConstraintUnsupported string | NotNormalizedRelease string

fun interpreterParts :: "string \<Rightarrow> string list \<Rightarrow> python_error check" where
  "interpreterParts value [] = None"
| "interpreterParts value (part # rest) =
     (if part = [] \<or> length part > 1 \<and> hd part = CHR ''0'' then Some (InterpreterNotCanonical value)
      else if \<not> rangeAll (\<lambda>r. 48 \<le> r \<and> r \<le> 57) part then Some (InterpreterNotCanonical value)
      else if atoi part = None then Some (InterpreterOutOfRange value)
      else interpreterParts value rest)"

definition ValidatePythonInterpreterVersionV1 :: "string \<Rightarrow> python_error check" where
  "ValidatePythonInterpreterVersionV1 value =
     (let parts = splitOn (CHR ''.'') value
      in if length parts < 2 \<or> length parts > 3 then Some (InterpreterShape value) else interpreterParts value parts)"

text \<open>\<open>major, _ := strconv.Atoi(part)\<close>: the zero value on an error, which the validation excludes.\<close>

definition componentOf :: "string \<Rightarrow> nat" where
  "componentOf part = (case atoi part of Some v \<Rightarrow> nat v | None \<Rightarrow> 0)"

definition ParseSupportedPythonClaimV1 :: "string \<Rightarrow> python_error + SupportedPythonClaimV1" where
  "ParseSupportedPythonClaimV1 value =
     (case ValidatePythonInterpreterVersionV1 value of
        Some e \<Rightarrow> Inl e
      | None \<Rightarrow>
          (let parts = splitOn (CHR ''.'') value;
               exact = (length parts = 3)
           in Inr \<lparr>pcMajor = componentOf (parts ! 0), pcMinor = componentOf (parts ! 1),
                   pcPatch = (if exact then componentOf (parts ! 2) else 0), pcExact = exact\<rparr>))"

definition claimString :: "SupportedPythonClaimV1 \<Rightarrow> string" where
  "claimString claim =
     (if pcExact claim then formatUint (pcMajor claim) @ ''.'' @ formatUint (pcMinor claim) @ ''.'' @ formatUint (pcPatch claim)
      else formatUint (pcMajor claim) @ ''.'' @ formatUint (pcMinor claim))"

definition compareSupportedPythonClaimsV1 :: "SupportedPythonClaimV1 \<Rightarrow> SupportedPythonClaimV1 \<Rightarrow> int" where
  "compareSupportedPythonClaimsV1 left right =
     (if pcMajor left \<noteq> pcMajor right then (if pcMajor left < pcMajor right then -1 else 1)
      else if pcMinor left \<noteq> pcMinor right then (if pcMinor left < pcMinor right then -1 else 1)
      else if pcExact left \<noteq> pcExact right then (if \<not> pcExact left then -1 else 1)
      else if \<not> pcExact left \<or> pcPatch left = pcPatch right then 0
      else if pcPatch left < pcPatch right then -1 else 1)"

definition sameSupportedPythonMinorV1 :: "SupportedPythonClaimV1 \<Rightarrow> SupportedPythonClaimV1 \<Rightarrow> bool" where
  "sameSupportedPythonMinorV1 left right \<longleftrightarrow> pcMajor left = pcMajor right \<and> pcMinor left = pcMinor right"

section \<open>Sets of claims\<close>

fun parseClaims :: "string list \<Rightarrow> python_error + SupportedPythonClaimV1 list" where
  "parseClaims [] = Inr []"
| "parseClaims (value # rest) =
     (case ParseSupportedPythonClaimV1 value of
        Inl e \<Rightarrow> Inl e
      | Inr claim \<Rightarrow> (case parseClaims rest of Inl e \<Rightarrow> Inl e | Inr claims \<Rightarrow> Inr (claim # claims)))"

text \<open>
  \<open>sort.Slice\<close> with \<open>compare < 0\<close>. Claims that compare equal are equal once parsed (a series
  claim has patch 0), so that the unstable sort has one result; the key is the tuple that
  \<open>compare\<close> orders by.
\<close>

definition claimKey :: "SupportedPythonClaimV1 \<Rightarrow> nat \<times> nat \<times> bool \<times> nat" where
  "claimKey claim = (pcMajor claim, pcMinor claim, pcExact claim, pcPatch claim)"

definition sortClaims :: "SupportedPythonClaimV1 list \<Rightarrow> SupportedPythonClaimV1 list" where
  "sortClaims = sort_key claimKey"

text \<open>The loop of the normalization: the previous claim and the minor series seen so far.\<close>

fun normalizeLoop :: "SupportedPythonClaimV1 option \<Rightarrow> (nat \<times> nat) list \<Rightarrow> SupportedPythonClaimV1 list \<Rightarrow> SupportedPythonClaimV1 list" where
  "normalizeLoop previous seriesByMinor [] = []"
| "normalizeLoop previous seriesByMinor (claim # rest) =
     (if previous = Some claim then normalizeLoop (Some claim) seriesByMinor rest
      else
        let minorKey = (pcMajor claim, pcMinor claim)
        in if \<not> pcExact claim then claim # normalizeLoop (Some claim) (minorKey # seriesByMinor) rest
           else if minorKey \<in> set seriesByMinor then normalizeLoop (Some claim) seriesByMinor rest
           else claim # normalizeLoop (Some claim) seriesByMinor rest)"

definition NormalizeSupportedPythonClaimsV1 :: "string list \<Rightarrow> python_error + string list" where
  "NormalizeSupportedPythonClaimsV1 values =
     (case parseClaims values of
        Inl e \<Rightarrow> Inl e
      | Inr claims \<Rightarrow> Inr (map claimString (normalizeLoop None [] (sortClaims claims))))"

function intersectLoop :: "SupportedPythonClaimV1 list \<Rightarrow> SupportedPythonClaimV1 list \<Rightarrow> string list" where
  "intersectLoop [] right = []"
| "intersectLoop (l # left) [] = []"
| "intersectLoop (l # left) (r # right) =
     (if \<not> sameSupportedPythonMinorV1 l r then
        (if compareSupportedPythonClaimsV1 l r < 0 then intersectLoop left (r # right) else intersectLoop (l # left) right)
      else if \<not> pcExact l \<and> pcExact r then claimString r # intersectLoop (l # left) right
      else if pcExact l \<and> \<not> pcExact r then claimString l # intersectLoop left (r # right)
      else if \<not> pcExact l \<and> \<not> pcExact r then claimString l # intersectLoop left right
      else if pcPatch l = pcPatch r then claimString l # intersectLoop left right
      else if pcPatch l < pcPatch r then intersectLoop left (r # right)
      else intersectLoop (l # left) right)"
  by pat_completeness auto
termination
  by (relation "measure (\<lambda>(l, r). length l + length r)") auto

text \<open>\<open>leftClaims[index], _ = ParseSupportedPythonClaimV1(value)\<close>: the zero claim on an error.\<close>

definition reparse :: "string \<Rightarrow> SupportedPythonClaimV1" where
  "reparse value = (case ParseSupportedPythonClaimV1 value of
      Inr claim \<Rightarrow> claim
    | Inl _ \<Rightarrow> \<lparr>pcMajor = 0, pcMinor = 0, pcPatch = 0, pcExact = False\<rparr>)"

definition IntersectSupportedPythonClaimsV1 :: "string list \<Rightarrow> string list \<Rightarrow> python_error + string list" where
  "IntersectSupportedPythonClaimsV1 left right =
     (case NormalizeSupportedPythonClaimsV1 left of
        Inl e \<Rightarrow> Inl e
      | Inr leftNormalized \<Rightarrow>
          (case NormalizeSupportedPythonClaimsV1 right of
             Inl e \<Rightarrow> Inl e
           | Inr rightNormalized \<Rightarrow>
               NormalizeSupportedPythonClaimsV1 (intersectLoop (map reparse leftNormalized) (map reparse rightNormalized))))"

end
