(* ===== verification/PythonVersion.thy ===== *)
theory PythonVersion
  imports PythonClaim
begin

text \<open>
  Release constraints of Python interpreters and packages:
  \<open>src/internal/providers/python/version.go\<close>. A release is the list of its components,
  nonnegative \<open>int\<close>s that \<open>strconv.Atoi\<close> accepted, kept as natural numbers; the two places
  that increment a component test it against the greatest \<open>int\<close> first, and so does the model.
  A nil slice is \<^const>\<open>None\<close>. The functions that call the PEP 440 package are not part of the
  model.
\<close>

definition maxIntValue :: nat where
  "maxIntValue = 9223372036854775807"

section \<open>Releases\<close>

definition pythonReleaseComponentV1 :: "nat list \<Rightarrow> nat \<Rightarrow> nat" where
  "pythonReleaseComponentV1 release index = (if index < length release then release ! index else 0)"

fun compareReleaseVersions :: "nat list \<Rightarrow> nat list \<Rightarrow> int" where
  "compareReleaseVersions [] [] = 0"
| "compareReleaseVersions (l # ls) [] = (if l > 0 then 1 else compareReleaseVersions ls [])"
| "compareReleaseVersions [] (r # rs) = (if 0 < r then -1 else compareReleaseVersions [] rs)"
| "compareReleaseVersions (l # ls) (r # rs) = (if l < r then -1 else if l > r then 1 else compareReleaseVersions ls rs)"

definition releaseHasPrefix :: "nat list \<Rightarrow> nat list \<Rightarrow> bool" where
  "releaseHasPrefix version pre \<longleftrightarrow> list_all (\<lambda>i. pythonReleaseComponentV1 version i = pre ! i) [0..<length pre]"

definition releaseHasLiteralPrefixV1 :: "nat list \<Rightarrow> nat list \<Rightarrow> bool" where
  "releaseHasLiteralPrefixV1 version pre \<longleftrightarrow>
     \<not> length pre > length version \<and> list_all (\<lambda>i. version ! i = pre ! i) [0..<length pre]"

fun releaseParts :: "string list \<Rightarrow> nat list option" where
  "releaseParts [] = Some []"
| "releaseParts (part # rest) =
     (if part = [] then None
      else case atoi part of
        None \<Rightarrow> None
      | Some v \<Rightarrow>
          if v < 0 then None
          else (case releaseParts rest of None \<Rightarrow> None | Some vs \<Rightarrow> Some (nat v # vs)))"

definition parseReleaseVersion :: "string \<Rightarrow> nat list option" where
  "parseReleaseVersion value0 =
     (let value1 = trimSpace value0;
          afterEpoch = (case cutOn (CHR ''!'') value1 of
             None \<Rightarrow> Some value1
           | Some (epoch, rest) \<Rightarrow> if atoi epoch = Some 0 then Some rest else None)
      in case afterEpoch of
           None \<Rightarrow> None
         | Some value2 \<Rightarrow> releaseParts (splitOn (CHR ''.'') (takeWhile (\<lambda>c. c \<noteq> CHR ''+'') value2)))"

definition nextReleasePrefixV1 :: "nat list \<Rightarrow> nat list option" where
  "nextReleasePrefixV1 pre =
     (if pre = [] \<or> last pre = maxIntValue then None else Some (butlast pre @ [last pre + 1]))"

definition specifierOperators :: "string list" where
  "specifierOperators = [''==='', ''~='', ''=='', ''!='', ''<='', ''>='', ''<'', ''>'']"

definition splitVersionSpecifier :: "string \<Rightarrow> (string \<times> string) option" where
  "splitVersionSpecifier value =
     (case filter (hasPrefix value) specifierOperators of
        [] \<Rightarrow> None
      | operator # _ \<Rightarrow>
          (let expected = trimSpace (drop (length operator) value)
           in if expected = [] then None else Some (operator, expected)))"

section \<open>Constraints\<close>

record pythonReleaseBoundV1 =
  bVersion :: "nat list"
  bInclusive :: bool
  bSet :: bool

record pythonReleaseConstraintV1 =
  cLower :: pythonReleaseBoundV1
  cUpper :: pythonReleaseBoundV1
  cEquality :: "nat list option"
  cEqualityPrefix :: bool
  cStrict :: string
  cExcludedExact :: "nat list list"
  cExcludedPrefixes :: "nat list list"
  cUnsatisfiable :: bool

definition initialConstraint :: pythonReleaseConstraintV1 where
  "initialConstraint = \<lparr>cLower = \<lparr>bVersion = [0], bInclusive = True, bSet = True\<rparr>,
     cUpper = \<lparr>bVersion = [], bInclusive = False, bSet = False\<rparr>,
     cEquality = None, cEqualityPrefix = False, cStrict = [], cExcludedExact = [], cExcludedPrefixes = [],
     cUnsatisfiable = False\<rparr>"

definition pythonExactReleaseMatchesPrefixV1 :: "nat list \<Rightarrow> nat list \<Rightarrow> bool" where
  "pythonExactReleaseMatchesPrefixV1 exact pre \<longleftrightarrow>
     list_all (\<lambda>v. v = 0) (drop 3 exact)
     \<and> releaseHasPrefix [pythonReleaseComponentV1 exact 0, pythonReleaseComponentV1 exact 1, pythonReleaseComponentV1 exact 2] pre"

definition constrainPythonEqualityV1 :: "pythonReleaseConstraintV1 \<Rightarrow> nat list \<Rightarrow> bool \<Rightarrow> bool \<times> pythonReleaseConstraintV1" where
  "constrainPythonEqualityV1 c expected isPrefix =
     (case cEquality c of
        None \<Rightarrow> (True, c\<lparr>cEquality := Some expected, cEqualityPrefix := isPrefix\<rparr>)
      | Some current \<Rightarrow>
          if \<not> cEqualityPrefix c \<and> \<not> isPrefix then (compareReleaseVersions current expected = 0, c)
          else if \<not> cEqualityPrefix c \<and> isPrefix then (pythonExactReleaseMatchesPrefixV1 current expected, c)
          else if cEqualityPrefix c \<and> \<not> isPrefix then
            (if \<not> pythonExactReleaseMatchesPrefixV1 expected current then (False, c)
             else (True, c\<lparr>cEquality := Some expected, cEqualityPrefix := False\<rparr>))
          else if releaseHasLiteralPrefixV1 current expected then (True, c)
          else if releaseHasLiteralPrefixV1 expected current then (True, c\<lparr>cEquality := Some expected\<rparr>)
          else (False, c))"

definition lowerBound :: "pythonReleaseBoundV1 \<Rightarrow> nat list \<Rightarrow> bool \<Rightarrow> pythonReleaseBoundV1" where
  "lowerBound b version inclusive =
     (if \<not> bSet b \<or> compareReleaseVersions version (bVersion b) > 0
      then \<lparr>bVersion = version, bInclusive = inclusive, bSet = True\<rparr>
      else if compareReleaseVersions version (bVersion b) = 0 then b\<lparr>bInclusive := bInclusive b \<and> inclusive\<rparr>
      else b)"

definition upperBound :: "pythonReleaseBoundV1 \<Rightarrow> nat list \<Rightarrow> bool \<Rightarrow> pythonReleaseBoundV1" where
  "upperBound b version inclusive =
     (if \<not> bSet b \<or> compareReleaseVersions version (bVersion b) < 0
      then \<lparr>bVersion = version, bInclusive = inclusive, bSet = True\<rparr>
      else if compareReleaseVersions version (bVersion b) = 0 then b\<lparr>bInclusive := bInclusive b \<and> inclusive\<rparr>
      else b)"

definition constrainPythonLowerV1 :: "pythonReleaseConstraintV1 \<Rightarrow> nat list \<Rightarrow> bool \<Rightarrow> pythonReleaseConstraintV1" where
  "constrainPythonLowerV1 c version inclusive = c\<lparr>cLower := lowerBound (cLower c) version inclusive\<rparr>"

definition constrainPythonUpperV1 :: "pythonReleaseConstraintV1 \<Rightarrow> nat list \<Rightarrow> bool \<Rightarrow> pythonReleaseConstraintV1" where
  "constrainPythonUpperV1 c version inclusive = c\<lparr>cUpper := upperBound (cUpper c) version inclusive\<rparr>"

definition constrainPythonPrefixV1 :: "pythonReleaseConstraintV1 \<Rightarrow> nat list \<Rightarrow> pythonReleaseConstraintV1 option" where
  "constrainPythonPrefixV1 c pre =
     (case nextReleasePrefixV1 pre of
        None \<Rightarrow> None
      | Some succ \<Rightarrow> Some (constrainPythonUpperV1 (constrainPythonLowerV1 c pre True) succ False))"

definition pythonConstraintIntervalEmptyV1 :: "pythonReleaseConstraintV1 \<Rightarrow> bool" where
  "pythonConstraintIntervalEmptyV1 c =
     (let byEquality =
        (case cEquality c of
           None \<Rightarrow> False
         | Some e \<Rightarrow>
             if cEqualityPrefix c then
               (case nextReleasePrefixV1 e of
                  None \<Rightarrow> True
                | Some succ \<Rightarrow>
                    bSet (cLower c) \<and> compareReleaseVersions succ (bVersion (cLower c)) \<le> 0
                  \<or> bSet (cUpper c) \<and> (compareReleaseVersions e (bVersion (cUpper c)) > 0
                      \<or> compareReleaseVersions e (bVersion (cUpper c)) = 0 \<and> \<not> bInclusive (cUpper c)))
             else
               bSet (cLower c) \<and> (compareReleaseVersions e (bVersion (cLower c)) < 0
                   \<or> compareReleaseVersions e (bVersion (cLower c)) = 0 \<and> \<not> bInclusive (cLower c))
             \<or> bSet (cUpper c) \<and> (compareReleaseVersions e (bVersion (cUpper c)) > 0
                   \<or> compareReleaseVersions e (bVersion (cUpper c)) = 0 \<and> \<not> bInclusive (cUpper c)));
          comparison = compareReleaseVersions (bVersion (cLower c)) (bVersion (cUpper c))
      in byEquality
         \<or> bSet (cUpper c) \<and> (comparison > 0 \<or> comparison = 0 \<and> (\<not> bInclusive (cLower c) \<or> \<not> bInclusive (cUpper c))))"

text \<open>The \<open>switch\<close> on the operator, for a specifier other than \<open>===\<close>.\<close>

definition applyOperator :: "pythonReleaseConstraintV1 \<Rightarrow> string \<Rightarrow> nat list \<Rightarrow> bool \<Rightarrow> pythonReleaseConstraintV1 option" where
  "applyOperator c operator expected wildcard =
     (if operator = ''=='' then
        (let (ok, c') = constrainPythonEqualityV1 c expected wildcard
         in Some (if ok then c' else c'\<lparr>cUnsatisfiable := True\<rparr>))
      else if operator = ''!='' then
        Some (if wildcard then c\<lparr>cExcludedPrefixes := cExcludedPrefixes c @ [expected]\<rparr>
              else c\<lparr>cExcludedExact := cExcludedExact c @ [expected]\<rparr>)
      else if operator = ''>='' then Some (constrainPythonLowerV1 c expected True)
      else if operator = ''>'' then Some (constrainPythonLowerV1 c expected False)
      else if operator = ''<='' then Some (constrainPythonUpperV1 c expected True)
      else if operator = ''<'' then Some (constrainPythonUpperV1 c expected False)
      else if operator = ''~='' then
        (if length expected < 2 then None
         else constrainPythonPrefixV1 (constrainPythonLowerV1 c expected True) (butlast expected))
      else None)"

definition applyStrict :: "pythonReleaseConstraintV1 \<Rightarrow> string \<Rightarrow> pythonReleaseConstraintV1 option" where
  "applyStrict c expectedText =
     (if containsAny expectedText ''+-*'' then None
      else case parseReleaseVersion expectedText of
        None \<Rightarrow> None
      | Some expected \<Rightarrow>
          (let c1 = (if cStrict c \<noteq> [] \<and> cStrict c \<noteq> expectedText then c\<lparr>cUnsatisfiable := True\<rparr> else c);
               (ok, c2) = constrainPythonEqualityV1 c1 expected False;
               c3 = (if ok then c2 else c2\<lparr>cUnsatisfiable := True\<rparr>)
           in Some (c3\<lparr>cStrict := expectedText\<rparr>)))"

definition applySpecifier :: "pythonReleaseConstraintV1 \<Rightarrow> string \<Rightarrow> pythonReleaseConstraintV1 option" where
  "applySpecifier c raw =
     (let specifier = trimSpace raw
      in if specifier = [] then None
         else case splitVersionSpecifier specifier of
           None \<Rightarrow> None
         | Some (operator, expectedText) \<Rightarrow>
             if operator = ''==='' then applyStrict c expectedText
             else if CHR ''+'' \<in> set expectedText then None
             else
               let wildcard = hasSuffix expectedText ''.*'';
                   releaseText = (if wildcard then take (length expectedText - 2) expectedText else expectedText)
               in if wildcard \<and> operator \<noteq> ''=='' \<and> operator \<noteq> ''!='' then None
                  else case parseReleaseVersion releaseText of
                    None \<Rightarrow> None
                  | Some expected \<Rightarrow> if expected = [] then None else applyOperator c operator expected wildcard)"

fun specifierLoop :: "pythonReleaseConstraintV1 \<Rightarrow> string list \<Rightarrow> pythonReleaseConstraintV1 option" where
  "specifierLoop c [] = Some c"
| "specifierLoop c (raw # rest) = (case applySpecifier c raw of None \<Rightarrow> None | Some c' \<Rightarrow> specifierLoop c' rest)"

definition parsePythonReleaseConstraintV1 :: "string \<Rightarrow> pythonReleaseConstraintV1 option" where
  "parsePythonReleaseConstraintV1 specifiers =
     (if trimSpace specifiers = [] then Some initialConstraint
      else case specifierLoop initialConstraint (splitOn (CHR '','') specifiers) of
        None \<Rightarrow> None
      | Some c \<Rightarrow> Some (c\<lparr>cUnsatisfiable := cUnsatisfiable c \<or> pythonConstraintIntervalEmptyV1 c\<rparr>))"

definition aboveLower :: "pythonReleaseBoundV1 \<Rightarrow> nat list \<Rightarrow> bool" where
  "aboveLower b actual \<longleftrightarrow> (bSet b \<longrightarrow>
     \<not> (compareReleaseVersions actual (bVersion b) < 0 \<or> compareReleaseVersions actual (bVersion b) = 0 \<and> \<not> bInclusive b))"

definition belowUpper :: "pythonReleaseBoundV1 \<Rightarrow> nat list \<Rightarrow> bool" where
  "belowUpper b actual \<longleftrightarrow> (bSet b \<longrightarrow>
     \<not> (compareReleaseVersions actual (bVersion b) > 0 \<or> compareReleaseVersions actual (bVersion b) = 0 \<and> \<not> bInclusive b))"

definition allows :: "pythonReleaseConstraintV1 \<Rightarrow> nat list \<Rightarrow> string \<Rightarrow> bool" where
  "allows c actual raw \<longleftrightarrow>
     \<not> cUnsatisfiable c
     \<and> \<not> (cStrict c \<noteq> [] \<and> raw \<noteq> cStrict c)
     \<and> (case cEquality c of
          None \<Rightarrow> True
        | Some e \<Rightarrow> if cEqualityPrefix c then releaseHasPrefix actual e else compareReleaseVersions actual e = 0)
     \<and> aboveLower (cLower c) actual \<and> belowUpper (cUpper c) actual
     \<and> list_all (\<lambda>e. compareReleaseVersions actual e \<noteq> 0) (cExcludedExact c)
     \<and> list_all (\<lambda>e. \<not> releaseHasPrefix actual e) (cExcludedPrefixes c)"

section \<open>Versions against constraints\<close>

definition versionSpecifiersAllowVersion :: "string \<Rightarrow> string \<Rightarrow> bool \<times> bool" where
  "versionSpecifiersAllowVersion specifiers version =
     (case parsePythonReleaseConstraintV1 specifiers of
        None \<Rightarrow> (False, False)
      | Some c \<Rightarrow>
          (case parseReleaseVersion version of
             None \<Rightarrow> (False, False)
           | Some actual \<Rightarrow> (allows c actual version, True)))"

definition InterpreterVersionSatisfies :: "string \<Rightarrow> string \<Rightarrow> python_error + bool" where
  "InterpreterVersionSatisfies constraint0 version =
     (let constraint = trimSpace constraint0
      in if constraint = [] then
           (if parseReleaseVersion version = None then Inl (NotNormalizedRelease version) else Inr True)
         else
           (let (matches, supported) = versionSpecifiersAllowVersion constraint version
            in if \<not> supported then Inl (ConstraintUnsupported constraint) else Inr matches))"

text \<open>The loop of \<open>packageVersionSpecifiersAllowVersion\<close>: a verdict, or the specifiers that remain.\<close>

fun arbitraryEqualityLoop :: "string \<Rightarrow> string list \<Rightarrow> (bool \<times> bool) + string list" where
  "arbitraryEqualityLoop version [] = Inr []"
| "arbitraryEqualityLoop version (raw # rest) =
     (let specifier = trimSpace raw
      in case splitVersionSpecifier specifier of
           None \<Rightarrow> Inl (False, False)
         | Some (operator, expectedText) \<Rightarrow>
             if operator \<noteq> ''==='' then
               (case arbitraryEqualityLoop version rest of Inl v \<Rightarrow> Inl v | Inr remaining \<Rightarrow> Inr (specifier # remaining))
             else if version \<noteq> expectedText then Inl (False, True)
             else arbitraryEqualityLoop version rest)"

definition packageVersionSpecifiersAllowVersion :: "string \<Rightarrow> string \<Rightarrow> bool \<times> bool" where
  "packageVersionSpecifiersAllowVersion specifiers version =
     (case arbitraryEqualityLoop version (splitOn (CHR '','') specifiers) of
        Inl verdict \<Rightarrow> verdict
      | Inr [] \<Rightarrow> (True, True)
      | Inr remaining \<Rightarrow> versionSpecifiersAllowVersion (joinWith '','' remaining) version)"

text \<open>\<open>requirementNamePattern.FindString\<close> for \<open>^[A-Za-z0-9][A-Za-z0-9_.-]*\<close>.\<close>

definition isAlnum :: "char \<Rightarrow> bool" where
  "isAlnum c \<longleftrightarrow> isDigit c \<or> isLower c \<or> isUpper c"

definition requirementName :: "string \<Rightarrow> string" where
  "requirementName s =
     (case s of
        [] \<Rightarrow> []
      | c # cs \<Rightarrow> if isAlnum c then c # takeWhile (\<lambda>d. isAlnum d \<or> d \<in> set ''_.-'') cs else [])"

definition requirementAllowsVersion :: "string \<Rightarrow> string \<Rightarrow> bool \<times> bool" where
  "requirementAllowsVersion requirement version =
     (let name = requirementName (trimSpace requirement);
          remainder0 = trimSpace (drop (length name) (trimSpace requirement));
          remainder1 = (if hasPrefix remainder0 ''['' then
                          (case cutOn (CHR '']'') remainder0 of None \<Rightarrow> None | Some (_, after) \<Rightarrow> Some (trimSpace after))
                        else Some remainder0)
      in if name = [] then (False, False)
         else case remainder1 of
           None \<Rightarrow> (False, False)
         | Some r1 \<Rightarrow>
             (let remainder = (if CHR '';'' \<in> set r1 then trimSpace (takeWhile (\<lambda>c. c \<noteq> CHR '';'') r1) else r1)
              in if remainder = [] \<or> hasPrefix remainder ''@'' then (True, True)
                 else packageVersionSpecifiersAllowVersion remainder version))"

section \<open>Constraints against claims\<close>

record pythonReleaseIntervalV1 =
  rLower :: pythonReleaseBoundV1
  rUpper :: pythonReleaseBoundV1

definition pythonIntervalEmptyV1 :: "pythonReleaseIntervalV1 \<Rightarrow> bool" where
  "pythonIntervalEmptyV1 interval =
     (let comparison = compareReleaseVersions (bVersion (rLower interval)) (bVersion (rUpper interval))
      in bSet (rUpper interval)
         \<and> (comparison > 0 \<or> comparison = 0 \<and> (\<not> bInclusive (rLower interval) \<or> \<not> bInclusive (rUpper interval))))"

definition pythonIntervalConstrainLowerV1 :: "pythonReleaseIntervalV1 \<Rightarrow> nat list \<Rightarrow> bool \<Rightarrow> pythonReleaseIntervalV1" where
  "pythonIntervalConstrainLowerV1 interval version inclusive = interval\<lparr>rLower := lowerBound (rLower interval) version inclusive\<rparr>"

definition pythonIntervalConstrainUpperV1 :: "pythonReleaseIntervalV1 \<Rightarrow> nat list \<Rightarrow> bool \<Rightarrow> pythonReleaseIntervalV1" where
  "pythonIntervalConstrainUpperV1 interval version inclusive = interval\<lparr>rUpper := upperBound (rUpper interval) version inclusive\<rparr>"

text \<open>The interval of the bounds and the equality, before the test for emptiness.\<close>

definition narrowedInterval :: "pythonReleaseConstraintV1 \<Rightarrow> pythonReleaseIntervalV1 option" where
  "narrowedInterval c =
     (let whole = \<lparr>rLower = cLower c, rUpper = cUpper c\<rparr>
      in case cEquality c of
           None \<Rightarrow> Some whole
         | Some e \<Rightarrow>
             if cEqualityPrefix c then
               (case nextReleasePrefixV1 e of
                  None \<Rightarrow> None
                | Some succ \<Rightarrow> Some (pythonIntervalConstrainUpperV1 (pythonIntervalConstrainLowerV1 whole e True) succ False))
             else Some (pythonIntervalConstrainUpperV1 (pythonIntervalConstrainLowerV1 whole e True) e True))"

definition pythonConstraintIntervalV1 :: "pythonReleaseConstraintV1 \<Rightarrow> pythonReleaseIntervalV1 option" where
  "pythonConstraintIntervalV1 c =
     (if cUnsatisfiable c then None
      else case narrowedInterval c of
        None \<Rightarrow> None
      | Some interval \<Rightarrow> if pythonIntervalEmptyV1 interval then None else Some interval)"

definition pythonCanonicalInterpreterPatchV1 :: "nat list \<Rightarrow> nat \<Rightarrow> nat \<Rightarrow> nat option" where
  "pythonCanonicalInterpreterPatchV1 release major minor =
     (if pythonReleaseComponentV1 release 0 \<noteq> major \<or> pythonReleaseComponentV1 release 1 \<noteq> minor then None
      else if \<not> list_all (\<lambda>v. v = 0) (drop 3 release) then None
      else Some (pythonReleaseComponentV1 release 2))"

definition pythonCanonicalInterpreterReleaseV1 :: "nat \<Rightarrow> nat \<Rightarrow> nat \<Rightarrow> nat list \<times> string" where
  "pythonCanonicalInterpreterReleaseV1 major minor patch =
     ([major, minor, patch], formatUint major @ ''.'' @ formatUint minor @ ''.'' @ formatUint patch)"

text \<open>The set of excluded patches, or \<^const>\<open>None\<close> when the whole series is excluded.\<close>

fun excludedPrefixLoop :: "nat \<Rightarrow> nat \<Rightarrow> nat list list \<Rightarrow> nat set option" where
  "excludedPrefixLoop major minor [] = Some {}"
| "excludedPrefixLoop major minor (pre # rest) =
     (if length pre = 1 \<and> pre ! 0 = major then None
      else if length pre = 2 \<and> pre ! 0 = major \<and> pre ! 1 = minor then None
      else case excludedPrefixLoop major minor rest of
        None \<Rightarrow> None
      | Some ps \<Rightarrow>
          if length pre = 1 \<or> length pre = 2 then Some ps
          else (case pythonCanonicalInterpreterPatchV1 pre major minor of None \<Rightarrow> Some ps | Some p \<Rightarrow> Some (insert p ps)))"

definition pythonExcludedSeriesPatchesV1 :: "pythonReleaseConstraintV1 \<Rightarrow> nat \<Rightarrow> nat \<Rightarrow> nat set option" where
  "pythonExcludedSeriesPatchesV1 c major minor =
     (case excludedPrefixLoop major minor (cExcludedPrefixes c) of
        None \<Rightarrow> None
      | Some ps \<Rightarrow> Some (set (List.map_filter (\<lambda>r. pythonCanonicalInterpreterPatchV1 r major minor) (cExcludedExact c)) \<union> ps))"

definition pythonMinimumSeriesPatchV1 :: "pythonReleaseBoundV1 \<Rightarrow> nat \<Rightarrow> nat \<Rightarrow> nat option" where
  "pythonMinimumSeriesPatchV1 lower major minor =
     (let comparison = compareReleaseVersions [major, minor, 0] (bVersion lower);
          patch = pythonReleaseComponentV1 (bVersion lower) 2;
          comparison' = compareReleaseVersions [major, minor, patch] (bVersion lower)
      in if \<not> bSet lower then Some 0
         else if comparison > 0 then Some 0
         else if comparison = 0 then (if bInclusive lower then Some 0 else Some 1)
         else if pythonReleaseComponentV1 (bVersion lower) 0 \<noteq> major \<or> pythonReleaseComponentV1 (bVersion lower) 1 \<noteq> minor then None
         else if comparison' > 0 \<or> comparison' = 0 \<and> bInclusive lower then Some patch
         else if patch = maxIntValue then None
         else Some (patch + 1))"

text \<open>The last loop of \<open>pythonConstraintHasSeriesReleaseV1\<close>, with \<open>remaining + 1\<close> iterations left.\<close>

fun patchLoop :: "pythonReleaseConstraintV1 \<Rightarrow> nat \<Rightarrow> nat \<Rightarrow> nat set \<Rightarrow> nat \<Rightarrow> nat \<Rightarrow> bool" where
  "patchLoop c major minor excluded 0 patch = False"
| "patchLoop c major minor excluded (Suc n) patch =
     (if patch \<notin> excluded then
        (let (candidate, raw) = pythonCanonicalInterpreterReleaseV1 major minor patch in allows c candidate raw)
      else if patch = maxIntValue then False
      else patchLoop c major minor excluded n (patch + 1))"

text \<open>The patch at which the search starts, after the equality has been taken into account.\<close>

definition equalityStart :: "pythonReleaseConstraintV1 \<Rightarrow> nat \<Rightarrow> nat \<Rightarrow> nat \<Rightarrow> nat option" where
  "equalityStart c major minor patch =
     (case cEquality c of
        None \<Rightarrow> Some patch
      | Some e \<Rightarrow>
          if cEqualityPrefix c \<and> length e = 1 then (if e ! 0 \<noteq> major then None else Some patch)
          else if cEqualityPrefix c \<and> length e = 2 then (if e ! 0 \<noteq> major \<or> e ! 1 \<noteq> minor then None else Some patch)
          else (case pythonCanonicalInterpreterPatchV1 e major minor of
                  None \<Rightarrow> None
                | Some p \<Rightarrow> if p < patch then None else Some p))"

definition pythonConstraintHasSeriesReleaseV1 :: "pythonReleaseConstraintV1 \<Rightarrow> nat \<Rightarrow> nat \<Rightarrow> bool" where
  "pythonConstraintHasSeriesReleaseV1 c major minor =
     (if cUnsatisfiable c then False
      else if cStrict c \<noteq> [] then
        (case pythonCanonicalInterpreterPatchV1 (case cEquality c of None \<Rightarrow> [] | Some e \<Rightarrow> e) major minor of
           None \<Rightarrow> False
         | Some patch \<Rightarrow>
             (let (candidate, raw) = pythonCanonicalInterpreterReleaseV1 major minor patch
              in raw = cStrict c \<and> allows c candidate raw))
      else case pythonMinimumSeriesPatchV1 (cLower c) major minor of
        None \<Rightarrow> False
      | Some lowest \<Rightarrow>
          (case equalityStart c major minor lowest of
             None \<Rightarrow> False
           | Some patch \<Rightarrow>
               (case pythonExcludedSeriesPatchesV1 c major minor of
                  None \<Rightarrow> False
                | Some excluded \<Rightarrow> patchLoop c major minor excluded (card excluded + 1) patch)))"

definition PythonRequiresPythonIntersectsClaimV1 :: "string \<Rightarrow> string \<Rightarrow> python_error + bool" where
  "PythonRequiresPythonIntersectsClaimV1 requiresPython claim =
     (case parsePythonReleaseConstraintV1 (trimSpace requiresPython) of
        None \<Rightarrow> Inl (RequiresPythonUnsupported requiresPython)
      | Some parsed \<Rightarrow>
          (case ParseSupportedPythonClaimV1 claim of
             Inl e \<Rightarrow> Inl e
           | Inr p \<Rightarrow>
               if pcExact p then Inr (allows parsed [pcMajor p, pcMinor p, pcPatch p] (claimString p))
               else if nextReleasePrefixV1 [pcMajor p, pcMinor p] = None then Inl (NoMinorSuccessor claim)
               else Inr (pythonConstraintHasSeriesReleaseV1 parsed (pcMajor p) (pcMinor p))))"

text \<open>The interval proof of \<open>PythonRequiresPythonCoversClaimV1\<close> for a series with a minor successor.\<close>

definition coversSeries :: "pythonReleaseConstraintV1 \<Rightarrow> nat \<Rightarrow> nat \<Rightarrow> nat list \<Rightarrow> bool" where
  "coversSeries parsed major minor minorSuccessor =
     (case pythonConstraintIntervalV1 parsed of
        None \<Rightarrow> False
      | Some allowed \<Rightarrow>
          (let low = compareReleaseVersions (bVersion (rLower allowed)) [major, minor];
               high = compareReleaseVersions (bVersion (rUpper allowed)) minorSuccessor
           in if low > 0 \<or> low = 0 \<and> \<not> bInclusive (rLower allowed) then False
              else if bSet (rUpper allowed) \<and> high < 0 then False
              else case pythonExcludedSeriesPatchesV1 parsed major minor of
                None \<Rightarrow> False
              | Some excluded \<Rightarrow> \<not> card excluded > 0))"

definition PythonRequiresPythonCoversClaimV1 :: "string \<Rightarrow> string \<Rightarrow> python_error + bool" where
  "PythonRequiresPythonCoversClaimV1 requiresPython claim =
     (case parsePythonReleaseConstraintV1 (trimSpace requiresPython) of
        None \<Rightarrow> Inl (RequiresPythonUnsupported requiresPython)
      | Some parsed \<Rightarrow>
          (case ParseSupportedPythonClaimV1 claim of
             Inl e \<Rightarrow> Inl e
           | Inr p \<Rightarrow>
               if pcExact p then Inr (allows parsed [pcMajor p, pcMinor p, pcPatch p] (claimString p))
               else if cStrict parsed \<noteq> [] \<or> cEquality parsed \<noteq> None \<and> \<not> cEqualityPrefix parsed then Inr False
               else case nextReleasePrefixV1 [pcMajor p, pcMinor p] of
                 None \<Rightarrow> Inl (NoMinorSuccessor claim)
               | Some succ \<Rightarrow> Inr (coversSeries parsed (pcMajor p) (pcMinor p) succ)))"

end
