(* ===== verification/PythonVersionProofs.thy ===== *)
theory PythonVersionProofs
  imports PythonVersion
begin

text \<open>
  The lemmas on release constraints: releases are ordered as their lists without trailing
  zeros, a prefix is an interval of that order, and each specifier conjoins its own meaning
  to the constraint that the loop accumulates.
\<close>

section \<open>The order of releases\<close>

text \<open>A release without its trailing zeros; the lexicographic order of these lists orders releases.\<close>

definition trimZeros :: "nat list \<Rightarrow> nat list" where
  "trimZeros r = rev (dropWhile (\<lambda>v. v = 0) (rev r))"

abbreviation component :: "nat list \<Rightarrow> nat \<Rightarrow> nat" where
  "component \<equiv> pythonReleaseComponentV1"

lemma comp_simps [simp]: "component [] i = 0" "component (x # xs) 0 = x" "component (x # xs) (Suc i) = component xs i"
  by (simp_all add: pythonReleaseComponentV1_def)

lemma trimZeros_Nil [simp]: "trimZeros [] = []"
  by (simp add: trimZeros_def)

lemma trimZeros_Cons: "trimZeros (x # xs) = (if x = 0 \<and> trimZeros xs = [] then [] else x # trimZeros xs)"
proof (cases "list_all (\<lambda>v. v = 0) xs")
  case True
  then have "dropWhile (\<lambda>v. v = 0) (rev xs) = []" by (simp add: list_all_iff)
  then show ?thesis by (auto simp: trimZeros_def dropWhile_append)
next
  case False
  then have "dropWhile (\<lambda>v. v = 0) (rev xs) \<noteq> []" by (auto simp: list_all_iff)
  then show ?thesis by (auto simp: trimZeros_def dropWhile_append)
qed

lemma trimZeros_empty: "trimZeros r = [] \<longleftrightarrow> list_all (\<lambda>v. v = 0) r"
  by (induction r) (auto simp: trimZeros_Cons)

lemma compare_values: "compareReleaseVersions l r \<in> {-1, 0, 1}"
  by (induction l r rule: compareReleaseVersions.induct) auto

lemma compare_trim:
  "(compareReleaseVersions l r < 0 \<longleftrightarrow> trimZeros l < trimZeros r) \<and> (compareReleaseVersions l r = 0 \<longleftrightarrow> trimZeros l = trimZeros r)"
proof (induction l r rule: compareReleaseVersions.induct)
  case (2 l ls)
  then show ?case by (auto simp: trimZeros_Cons)
next
  case (3 r rs)
  then show ?case by (cases "trimZeros rs") (auto simp: trimZeros_Cons)
next
  case (4 l ls r rs)
  then show ?case by (cases "trimZeros rs"; cases "trimZeros ls") (auto simp: trimZeros_Cons)
qed simp

interpretation releases: three_way compareReleaseVersions trimZeros
  by unfold_locales (use compare_trim in auto)

lemma trimZeros_comp: "component (trimZeros r) = component r"
proof (induction r)
  case (Cons x xs)
  have "component (trimZeros (x # xs)) i = component (x # xs) i" for i
    using Cons by (cases i) (auto simp: trimZeros_Cons fun_eq_iff)
  then show ?case by auto
qed simp

lemma trimZeros_eq: "trimZeros l = trimZeros r \<longleftrightarrow> component l = component r"
proof
  assume "component l = component r"
  then have "compareReleaseVersions l r = 0"
  proof (induction l r rule: compareReleaseVersions.induct)
    case (2 l ls)
    then have "component (l # ls) i = 0" for i by simp
    from this[of 0] this[of "Suc _"] have "l = 0" "component ls = component []" by (auto simp: fun_eq_iff)
    then show ?case using 2 by simp
  next
    case (3 r rs)
    then have "component (r # rs) i = 0" for i by (metis comp_simps(1))
    from this[of 0] this[of "Suc _"] have "r = 0" "component [] = component rs" by (auto simp: fun_eq_iff)
    then show ?case using 3 by simp
  next
    case (4 l ls r rs)
    then have "l = r" "component ls = component rs" by (metis comp_simps(2), metis comp_simps(3) ext)
    then show ?case using 4 by simp
  qed simp
  then show "trimZeros l = trimZeros r" by (simp add: releases.equal)
qed (metis trimZeros_comp)

lemma compare_step:
  "compareReleaseVersions l r = (if component l 0 < component r 0 then -1 else if component l 0 > component r 0 then 1 else compareReleaseVersions (tl l) (tl r))"
  by (cases l; cases r) auto

section \<open>Prefixes are intervals\<close>

lemma hasPrefix_iff: "releaseHasPrefix v ps \<longleftrightarrow> (\<forall>i < length ps. component v i = ps ! i)"
  by (auto simp: releaseHasPrefix_def list_all_iff)

lemma comp_tl: "component (tl v) i = component v (Suc i)"
  by (cases v) auto

lemma hasPrefix_Cons: "releaseHasPrefix v (p # ps) \<longleftrightarrow> component v 0 = p \<and> releaseHasPrefix (tl v) ps"
  by (auto simp: hasPrefix_iff comp_tl less_Suc_eq_0_disj)

lemma nil_least: "compareReleaseVersions [] v \<le> 0" "compareReleaseVersions v [] \<ge> 0"
  by (simp_all add: releases.compare_le releases.compare_ge)

lemma prefix_interval:
  assumes "nextReleasePrefixV1 ps = Some succ"
  shows "releaseHasPrefix v ps \<longleftrightarrow> compareReleaseVersions ps v \<le> 0 \<and> compareReleaseVersions v succ < 0"
proof -
  have main: "releaseHasPrefix v (qs @ [q]) \<longleftrightarrow> compareReleaseVersions (qs @ [q]) v \<le> 0 \<and> compareReleaseVersions v (qs @ [q + 1]) < 0" for qs q
  proof (induction qs arbitrary: v)
    case Nil
    show ?case
      using nil_least[of "tl v"] by (auto simp: hasPrefix_Cons compare_step[of "[_]"] compare_step[of v] releaseHasPrefix_def)
  next
    case (Cons p qs)
    then show ?case by (auto simp: hasPrefix_Cons compare_step[of "_ # _"] compare_step[of v])
  qed
  have "ps \<noteq> []" "succ = butlast ps @ [last ps + 1]" using assms by (auto simp: nextReleasePrefixV1_def split: if_splits)
  then show ?thesis using main[of "butlast ps" "last ps"] by simp
qed

section \<open>Bounds\<close>

definition admits :: "pythonReleaseBoundV1 \<Rightarrow> pythonReleaseBoundV1 \<Rightarrow> nat list \<Rightarrow> bool" where
  "admits lo hi v \<longleftrightarrow> aboveLower lo v \<and> belowUpper hi v"

lemma aboveLower_iff: "aboveLower b v \<longleftrightarrow> (bSet b \<longrightarrow> (if bInclusive b then trimZeros (bVersion b) \<le> trimZeros v else trimZeros (bVersion b) < trimZeros v))"
  by (auto simp: aboveLower_def releases.less releases.equal)

lemma belowUpper_iff: "belowUpper b v \<longleftrightarrow> (bSet b \<longrightarrow> (if bInclusive b then trimZeros v \<le> trimZeros (bVersion b) else trimZeros v < trimZeros (bVersion b)))"
  by (auto simp: belowUpper_def releases.greater releases.equal)

definition atLeast :: "nat list \<Rightarrow> bool \<Rightarrow> nat list \<Rightarrow> bool" where
  "atLeast r inclusive v \<longleftrightarrow> (if inclusive then trimZeros r \<le> trimZeros v else trimZeros r < trimZeros v)"

definition atMost :: "nat list \<Rightarrow> bool \<Rightarrow> nat list \<Rightarrow> bool" where
  "atMost r inclusive v \<longleftrightarrow> (if inclusive then trimZeros v \<le> trimZeros r else trimZeros v < trimZeros r)"

lemma lowerBound_iff: "aboveLower (lowerBound b r inclusive) v \<longleftrightarrow> aboveLower b v \<and> atLeast r inclusive v"
  unfolding aboveLower_iff lowerBound_def atLeast_def releases.greater releases.equal by auto

lemma upperBound_iff: "belowUpper (upperBound b r inclusive) v \<longleftrightarrow> belowUpper b v \<and> atMost r inclusive v"
  unfolding belowUpper_iff upperBound_def atMost_def releases.less releases.equal by auto

section \<open>Equalities\<close>

text \<open>Interpreter releases have at most three components that matter.\<close>

definition interpreterRelease :: "nat list \<Rightarrow> bool" where
  "interpreterRelease v \<longleftrightarrow> list_all (\<lambda>x. x = 0) (drop 3 v)"

definition equalTo :: "nat list \<Rightarrow> bool \<Rightarrow> nat list \<Rightarrow> bool" where
  "equalTo e isPrefix v \<longleftrightarrow> (if isPrefix then releaseHasPrefix v e else compareReleaseVersions v e = 0)"

definition equalityHolds :: "pythonReleaseConstraintV1 \<Rightarrow> nat list \<Rightarrow> bool" where
  "equalityHolds c v \<longleftrightarrow> (case cEquality c of None \<Rightarrow> True | Some e \<Rightarrow> equalTo e (cEqualityPrefix c) v)"

lemma interpreterRelease_iff: "interpreterRelease v \<longleftrightarrow> (\<forall>i \<ge> 3. component v i = 0)"
proof -
  have "component v i = 0" if "list_all (\<lambda>x. x = 0) (drop 3 v)" "3 \<le> i" for i
    using that nth_mem[of "i - 3" "drop 3 v"] by (auto simp: list_all_iff pythonReleaseComponentV1_def)
  moreover have "list_all (\<lambda>x. x = 0) (drop 3 v)" if all: "\<forall>i \<ge> 3. component v i = 0"
  proof -
    have "drop 3 v ! i = 0" if "i < length (drop 3 v)" for i
      using all[rule_format, of "3 + i"] that by (simp add: pythonReleaseComponentV1_def less_diff_conv add.commute)
    then show ?thesis by (auto simp: list_all_iff in_set_conv_nth)
  qed
  ultimately show ?thesis unfolding interpreterRelease_def by blast
qed

lemma exactMatchesPrefix:
  assumes "interpreterRelease v" "compareReleaseVersions v e = 0"
  shows "pythonExactReleaseMatchesPrefixV1 e ps \<longleftrightarrow> releaseHasPrefix v ps"
proof -
  have same: "component e = component v" using assms(2) by (simp add: releases.equal trimZeros_eq)
  then have zero: "list_all (\<lambda>x. x = 0) (drop 3 e)"
    using assms(1) interpreterRelease_iff[of e] interpreterRelease_iff[of v] by (simp add: interpreterRelease_def)
  have "component [component e 0, component e 1, component e 2] i = component v i" for i
  proof (cases "i < 3")
    case True
    then have "i = 0 \<or> i = Suc 0 \<or> i = Suc (Suc 0)" by auto
    then show ?thesis using same by (auto simp: numeral_2_eq_2)
  next
    case False
    then show ?thesis using assms(1) interpreterRelease_iff[of v] by (simp add: pythonReleaseComponentV1_def)
  qed
  then show ?thesis unfolding pythonExactReleaseMatchesPrefixV1_def hasPrefix_iff using zero by simp
qed

lemma literalPrefix:
  assumes "releaseHasLiteralPrefixV1 v ps" "releaseHasPrefix w v"
  shows "releaseHasPrefix w ps"
  using assms by (auto simp: releaseHasLiteralPrefixV1_def hasPrefix_iff list_all_iff)

lemma literalPrefix_comparable:
  assumes "releaseHasPrefix w v" "releaseHasPrefix w ps"
  shows "releaseHasLiteralPrefixV1 v ps \<or> releaseHasLiteralPrefixV1 ps v"
  using assms by (cases "length ps \<le> length v") (auto simp: releaseHasLiteralPrefixV1_def hasPrefix_iff list_all_iff)

lemma constrainEquality:
  assumes "constrainPythonEqualityV1 c e isPrefix = (ok, c')" "interpreterRelease v"
  shows "ok \<and> equalityHolds c' v \<longleftrightarrow> equalityHolds c v \<and> equalTo e isPrefix v"
proof (cases "cEquality c")
  case None
  then show ?thesis using assms(1) by (auto simp: constrainPythonEqualityV1_def equalityHolds_def)
next
  case (Some d)
  note m = exactMatchesPrefix[OF assms(2)]
  consider (ee) "\<not> cEqualityPrefix c" "\<not> isPrefix" | (ep) "\<not> cEqualityPrefix c" "isPrefix"
    | (pe) "cEqualityPrefix c" "\<not> isPrefix" | (pp) "cEqualityPrefix c" "isPrefix" by blast
  then show ?thesis
  proof cases
    case ee
    then show ?thesis using assms(1) Some
      by (auto simp: constrainPythonEqualityV1_def equalityHolds_def equalTo_def releases.equal)
  next
    case ep
    then show ?thesis using assms(1) Some m[of d e] by (auto simp: constrainPythonEqualityV1_def equalityHolds_def equalTo_def)
  next
    case pe
    then show ?thesis using assms(1) Some m[of e d]
      by (auto simp: constrainPythonEqualityV1_def equalityHolds_def equalTo_def split: if_splits)
  next
    case pp
    then show ?thesis using assms(1) Some literalPrefix[of d e v] literalPrefix[of e d v] literalPrefix_comparable[of v d e]
      by (auto simp: constrainPythonEqualityV1_def equalityHolds_def equalTo_def split: if_splits)
  qed
qed

section \<open>One specifier\<close>

definition operatorHolds :: "string \<Rightarrow> nat list \<Rightarrow> bool \<Rightarrow> nat list \<Rightarrow> bool" where
  "operatorHolds operator e wildcard v =
     (if operator = ''=='' then equalTo e wildcard v
      else if operator = ''!='' then \<not> equalTo e wildcard v
      else if operator = ''>='' then compareReleaseVersions v e \<ge> 0
      else if operator = ''>'' then compareReleaseVersions v e > 0
      else if operator = ''<='' then compareReleaseVersions v e \<le> 0
      else if operator = ''<'' then compareReleaseVersions v e < 0
      else compareReleaseVersions v e \<ge> 0 \<and> releaseHasPrefix v (butlast e))"

definition excludes :: "pythonReleaseConstraintV1 \<Rightarrow> nat list \<Rightarrow> bool" where
  "excludes c v \<longleftrightarrow> \<not> (list_all (\<lambda>e. compareReleaseVersions v e \<noteq> 0) (cExcludedExact c)
     \<and> list_all (\<lambda>e. \<not> releaseHasPrefix v e) (cExcludedPrefixes c))"

definition strictOK :: "pythonReleaseConstraintV1 \<Rightarrow> string \<Rightarrow> bool" where
  "strictOK c raw \<longleftrightarrow> cStrict c = [] \<or> raw = cStrict c"

lemma allows_iff: "allows c v raw \<longleftrightarrow> \<not> cUnsatisfiable c \<and> strictOK c raw \<and> equalityHolds c v
    \<and> aboveLower (cLower c) v \<and> belowUpper (cUpper c) v \<and> \<not> excludes c v"
  by (cases "cEquality c") (auto simp: allows_def strictOK_def equalityHolds_def equalTo_def excludes_def)

lemma frame_simps [simp]:
  "equalityHolds (c\<lparr>cLower := b\<rparr>) = equalityHolds c" "equalityHolds (c\<lparr>cUpper := b\<rparr>) = equalityHolds c"
  "equalityHolds (c\<lparr>cStrict := t\<rparr>) = equalityHolds c" "equalityHolds (c\<lparr>cUnsatisfiable := u\<rparr>) = equalityHolds c"
  "equalityHolds (c\<lparr>cExcludedExact := rs\<rparr>) = equalityHolds c" "equalityHolds (c\<lparr>cExcludedPrefixes := rs\<rparr>) = equalityHolds c"
  "excludes (c\<lparr>cLower := b\<rparr>) = excludes c" "excludes (c\<lparr>cUpper := b\<rparr>) = excludes c"
  "excludes (c\<lparr>cStrict := t\<rparr>) = excludes c" "excludes (c\<lparr>cUnsatisfiable := u\<rparr>) = excludes c"
  "strictOK (c\<lparr>cLower := b\<rparr>) = strictOK c" "strictOK (c\<lparr>cUpper := b\<rparr>) = strictOK c" "strictOK (c\<lparr>cUnsatisfiable := u\<rparr>) = strictOK c"
  "strictOK (c\<lparr>cExcludedExact := rs\<rparr>) = strictOK c" "strictOK (c\<lparr>cExcludedPrefixes := rs\<rparr>) = strictOK c"
  by (simp_all add: fun_eq_iff equalityHolds_def excludes_def strictOK_def split: option.splits)

text \<open>An equality changes the equality of a constraint only.\<close>

lemma constrainEquality_frame:
  assumes "constrainPythonEqualityV1 c e isPrefix = (ok, c')"
  shows "cUnsatisfiable c' = cUnsatisfiable c" "cStrict c' = cStrict c" "cLower c' = cLower c" "cUpper c' = cUpper c"
    "cExcludedExact c' = cExcludedExact c" "cExcludedPrefixes c' = cExcludedPrefixes c"
  using assms by (auto simp: constrainPythonEqualityV1_def split: option.splits if_splits)

lemma equality_step:
  assumes "constrainPythonEqualityV1 c e isPrefix = (ok, c')" "interpreterRelease v"
  shows "allows (if ok then c' else c'\<lparr>cUnsatisfiable := True\<rparr>) v raw \<longleftrightarrow> allows c v raw \<and> equalTo e isPrefix v"
  using constrainEquality[OF assms] constrainEquality_frame[OF assms(1)]
  by (cases ok) (auto simp: allows_iff strictOK_def excludes_def)

lemma lower_step: "allows (constrainPythonLowerV1 c r inclusive) v raw \<longleftrightarrow> allows c v raw \<and> atLeast r inclusive v"
  by (auto simp: allows_iff constrainPythonLowerV1_def lowerBound_iff)

lemma upper_step: "allows (constrainPythonUpperV1 c r inclusive) v raw \<longleftrightarrow> allows c v raw \<and> atMost r inclusive v"
  by (auto simp: allows_iff constrainPythonUpperV1_def upperBound_iff)

lemma prefix_step:
  assumes "constrainPythonPrefixV1 c ps = Some c'"
  shows "allows c' v raw \<longleftrightarrow> allows c v raw \<and> releaseHasPrefix v ps"
proof -
  obtain succ where succ: "nextReleasePrefixV1 ps = Some succ" "c' = constrainPythonUpperV1 (constrainPythonLowerV1 c ps True) succ False"
    using assms by (auto simp: constrainPythonPrefixV1_def split: option.splits)
  show ?thesis
    unfolding succ(2) upper_step lower_step prefix_interval[OF succ(1)] atLeast_def atMost_def
    by (auto simp: releases.less releases.compare_le)
qed

lemma exclude_step:
  "allows (c\<lparr>cExcludedPrefixes := cExcludedPrefixes c @ [e]\<rparr>) v raw \<longleftrightarrow> allows c v raw \<and> \<not> releaseHasPrefix v e"
  "allows (c\<lparr>cExcludedExact := cExcludedExact c @ [e]\<rparr>) v raw \<longleftrightarrow> allows c v raw \<and> compareReleaseVersions v e \<noteq> 0"
  by (auto simp: allows_iff excludes_def)

lemma operator_step:
  assumes "applyOperator c operator e wildcard = Some c'" "interpreterRelease v"
  shows "allows c' v raw \<longleftrightarrow> allows c v raw \<and> operatorHolds operator e wildcard v"
proof -
  consider (eq) "operator = ''==''" | (ne) "operator = ''!=''" | (cmp) "operator \<in> {''>='', ''>'', ''<='', ''<''}"
    | (compatible) "operator = ''~=''"
    using assms(1) by (auto simp: applyOperator_def split: if_splits)
  then show ?thesis
  proof cases
    case eq
    obtain ok d where d: "constrainPythonEqualityV1 c e wildcard = (ok, d)" by fastforce
    have "c' = (if ok then d else d\<lparr>cUnsatisfiable := True\<rparr>)" using assms(1) eq d by (simp add: applyOperator_def)
    then show ?thesis using equality_step[OF d assms(2), of raw] eq by (simp add: operatorHolds_def)
  next
    case ne
    then have c': "c' = (if wildcard then c\<lparr>cExcludedPrefixes := cExcludedPrefixes c @ [e]\<rparr> else c\<lparr>cExcludedExact := cExcludedExact c @ [e]\<rparr>)"
      using assms(1) by (simp add: applyOperator_def)
    show ?thesis unfolding c' using ne exclude_step[of c e v raw] by (simp add: operatorHolds_def equalTo_def)
  next
    case cmp
    then show ?thesis using assms(1)
      by (auto simp: applyOperator_def operatorHolds_def lower_step upper_step atLeast_def atMost_def releases.less
          releases.greater releases.compare_le releases.compare_ge)
  next
    case compatible
    then have p: "constrainPythonPrefixV1 (constrainPythonLowerV1 c e True) (butlast e) = Some c'"
      using assms(1) by (auto simp: applyOperator_def split: if_splits)
    show ?thesis unfolding prefix_step[OF p] lower_step
      using compatible by (simp add: operatorHolds_def atLeast_def releases.compare_ge)
  qed
qed

lemma strict_step:
  assumes "applyStrict c expectedText = Some c'" "interpreterRelease v" "parseReleaseVersion raw = Some v" "expectedText \<noteq> []"
  shows "allows c' v raw \<longleftrightarrow> allows c v raw \<and> raw = expectedText"
proof -
  let ?c1 = "if cStrict c \<noteq> [] \<and> cStrict c \<noteq> expectedText then c\<lparr>cUnsatisfiable := True\<rparr> else c"
  obtain e where e: "parseReleaseVersion expectedText = Some e"
    using assms(1) by (auto simp: applyStrict_def split: if_splits option.splits)
  obtain ok d where d: "constrainPythonEqualityV1 ?c1 e False = (ok, d)" by fastforce
  let ?c3 = "if ok then d else d\<lparr>cUnsatisfiable := True\<rparr>"
  have c': "c' = ?c3\<lparr>cStrict := expectedText\<rparr>"
    using assms(1) e d by (auto simp: applyStrict_def Let_def split: if_splits)
  have step: "allows ?c3 v raw \<longleftrightarrow> allows ?c1 v raw \<and> equalTo e False v" by (rule equality_step[OF d assms(2)])
  have same: "equalTo e False v" if "raw = expectedText"
    using that e assms(3) by (simp add: equalTo_def releases.equal)
  have frame: "cUnsatisfiable d = cUnsatisfiable ?c1" "cStrict d = cStrict c"
    using constrainEquality_frame(1,2)[OF d] by simp_all
  have relaxed: "allows c' v raw \<longleftrightarrow> allows (?c3\<lparr>cStrict := []\<rparr>) v raw \<and> raw = expectedText"
    using assms(4) unfolding c' by (auto simp: allows_iff strictOK_def)
  show ?thesis
  proof (cases "cStrict c = [] \<or> cStrict c = expectedText")
    case True
    have "allows ?c3 v raw \<longleftrightarrow> allows (?c3\<lparr>cStrict := []\<rparr>) v raw \<and> strictOK c raw"
      using frame(2) by (simp add: allows_iff strictOK_def) blast
    moreover have "raw = expectedText \<Longrightarrow> strictOK c raw" using True by (auto simp: strictOK_def)
    moreover have c1: "?c1 = c" using True by auto
    have "allows ?c3 v raw \<longleftrightarrow> allows c v raw \<and> equalTo e False v" using step unfolding c1 .
    ultimately show ?thesis using relaxed same by blast
  next
    case False
    then have "cUnsatisfiable ?c3" using frame(1) by simp
    then have "\<not> allows (?c3\<lparr>cStrict := []\<rparr>) v raw" by (simp add: allows_iff)
    moreover have "\<not> (allows c v raw \<and> raw = expectedText)" using False by (auto simp: allows_iff strictOK_def)
    ultimately show ?thesis using relaxed by blast
  qed
qed

section \<open>The whole constraint\<close>

text \<open>A specifier read on its own, by the rules of version specifiers.\<close>

definition specifierRelease :: "string \<Rightarrow> string" where
  "specifierRelease expectedText = (if hasSuffix expectedText ''.*'' then take (length expectedText - 2) expectedText else expectedText)"

definition specifierHolds :: "string \<Rightarrow> nat list \<Rightarrow> string \<Rightarrow> bool" where
  "specifierHolds raw v version =
     (case splitVersionSpecifier (trimSpace raw) of
        None \<Rightarrow> False
      | Some (operator, expectedText) \<Rightarrow>
          if operator = ''==='' then version = expectedText
          else case parseReleaseVersion (specifierRelease expectedText) of
            None \<Rightarrow> False
          | Some e \<Rightarrow> operatorHolds operator e (hasSuffix expectedText ''.*'') v)"

lemma split_nonempty: "splitVersionSpecifier s = Some (operator, expectedText) \<Longrightarrow> expectedText \<noteq> []"
  by (auto simp: splitVersionSpecifier_def Let_def split: list.splits if_splits)

lemma applySpecifier_cases:
  assumes "applySpecifier c raw = Some c'"
  obtains (strict) expectedText where "splitVersionSpecifier (trimSpace raw) = Some (''==='', expectedText)" "expectedText \<noteq> []"
      "applyStrict c expectedText = Some c'"
  | (ordinary) operator expectedText e where "splitVersionSpecifier (trimSpace raw) = Some (operator, expectedText)" "operator \<noteq> ''===''"
      "parseReleaseVersion (specifierRelease expectedText) = Some e" "e \<noteq> []"
      "applyOperator c operator e (hasSuffix expectedText ''.*'') = Some c'"
  using assms split_nonempty[of "trimSpace raw"]
  by (auto simp: applySpecifier_def specifierRelease_def Let_def split: if_splits option.splits)

lemma specifier_step:
  assumes "applySpecifier c raw = Some c'" "interpreterRelease v" "parseReleaseVersion version = Some v"
  shows "allows c' v version \<longleftrightarrow> allows c v version \<and> specifierHolds raw v version"
  using assms(1)
proof (cases rule: applySpecifier_cases)
  case (strict expectedText)
  then show ?thesis using strict_step[OF _ assms(2,3)] by (simp add: specifierHolds_def)
next
  case (ordinary operator expectedText e)
  then show ?thesis using operator_step[OF _ assms(2)] by (simp add: specifierHolds_def)
qed

lemma loop_step:
  assumes "specifierLoop c raws = Some c'" "interpreterRelease v" "parseReleaseVersion version = Some v"
  shows "allows c' v version \<longleftrightarrow> allows c v version \<and> (\<forall>raw \<in> set raws. specifierHolds raw v version)"
  using assms(1)
proof (induction raws arbitrary: c)
  case (Cons raw raws)
  then obtain d where "applySpecifier c raw = Some d" "specifierLoop d raws = Some c'"
    by (auto split: option.splits)
  then show ?case using Cons.IH specifier_step[OF _ assms(2,3)] by auto
qed simp

lemma initial_allows: "allows initialConstraint v raw"
  by (simp add: allows_iff initialConstraint_def strictOK_def equalityHolds_def excludes_def aboveLower_iff belowUpper_iff trimZeros_Cons)

text \<open>What every operation keeps of a constraint.\<close>

definition wfConstraint :: "pythonReleaseConstraintV1 \<Rightarrow> bool" where
  "wfConstraint c \<longleftrightarrow> bSet (cLower c) \<and> list_all (\<lambda>e. e \<noteq> []) (cExcludedPrefixes c) \<and> cEquality c \<noteq> Some []
     \<and> (cStrict c \<noteq> [] \<and> \<not> cUnsatisfiable c \<longrightarrow> cEquality c \<noteq> None \<and> \<not> cEqualityPrefix c)"

definition representable :: "pythonReleaseConstraintV1 \<Rightarrow> bool" where
  "representable c \<longleftrightarrow> (\<forall>e. cEquality c = Some e \<and> cEqualityPrefix c \<longrightarrow> nextReleasePrefixV1 e \<noteq> None)"

lemma releaseParts_empty: "releaseParts ps = Some [] \<longleftrightarrow> ps = []"
  by (cases ps) (auto split: if_splits option.splits)

lemma parseReleaseVersion_nonempty: "parseReleaseVersion s = Some e \<Longrightarrow> e \<noteq> []"
  by (auto simp: parseReleaseVersion_def Let_def releaseParts_empty split: option.splits if_splits)

lemma constrainEquality_wf:
  assumes "constrainPythonEqualityV1 c e isPrefix = (ok, c')" "wfConstraint c" "e \<noteq> []"
  shows "wfConstraint (if ok then c' else c'\<lparr>cUnsatisfiable := True\<rparr>)"
    and "ok \<Longrightarrow> \<not> isPrefix \<Longrightarrow> cEquality c' \<noteq> None \<and> \<not> cEqualityPrefix c'"
  using assms by (auto simp: constrainPythonEqualityV1_def wfConstraint_def split: option.splits if_splits)

lemma lowerBound_set [simp]: "bSet b \<Longrightarrow> bSet (lowerBound b r inclusive)"
  by (simp add: lowerBound_def)

lemma applyOperator_wf:
  assumes "applyOperator c operator e wildcard = Some c'" "wfConstraint c" "e \<noteq> []"
  shows "wfConstraint c'"
proof (cases "operator = ''==''")
  case True
  obtain ok d where d: "constrainPythonEqualityV1 c e wildcard = (ok, d)" by fastforce
  then show ?thesis using constrainEquality_wf(1)[OF d assms(2,3)] True assms(1) by (simp add: applyOperator_def)
next
  case False
  then show ?thesis using assms
    by (auto simp: applyOperator_def wfConstraint_def constrainPythonLowerV1_def constrainPythonUpperV1_def constrainPythonPrefixV1_def
        split: if_splits option.splits)
qed

lemma applyStrict_wf:
  assumes "applyStrict c expectedText = Some c'" "wfConstraint c"
  shows "wfConstraint c'"
proof -
  let ?c1 = "if cStrict c \<noteq> [] \<and> cStrict c \<noteq> expectedText then c\<lparr>cUnsatisfiable := True\<rparr> else c"
  obtain e where e: "parseReleaseVersion expectedText = Some e"
    using assms(1) by (auto simp: applyStrict_def split: if_splits option.splits)
  obtain ok d where d: "constrainPythonEqualityV1 ?c1 e False = (ok, d)" by fastforce
  have c': "c' = (if ok then d else d\<lparr>cUnsatisfiable := True\<rparr>)\<lparr>cStrict := expectedText\<rparr>"
    using assms(1) e d by (auto simp: applyStrict_def Let_def split: if_splits)
  have "wfConstraint ?c1" using assms(2) by (simp add: wfConstraint_def)
  note w = constrainEquality_wf[OF d this parseReleaseVersion_nonempty[OF e]]
  show ?thesis unfolding c' using w by (cases ok) (auto simp: wfConstraint_def)
qed

lemma loop_wf: "specifierLoop c raws = Some c' \<Longrightarrow> wfConstraint c \<Longrightarrow> wfConstraint c'"
proof (induction raws arbitrary: c)
  case (Cons raw raws)
  then obtain d where d: "applySpecifier c raw = Some d" "specifierLoop d raws = Some c'"
    by (auto split: option.splits)
  have "wfConstraint d"
    using d(1) by (cases rule: applySpecifier_cases) (use applyStrict_wf applyOperator_wf Cons.prems(2) in blast)+
  then show ?case using Cons.IH d(2) by blast
qed simp

lemma interval_empty_sound:
  assumes "pythonConstraintIntervalEmptyV1 c" "representable c" "bSet (cLower c)"
  shows "\<not> (equalityHolds c v \<and> aboveLower (cLower c) v \<and> belowUpper (cUpper c) v)"
proof
  assume v: "equalityHolds c v \<and> aboveLower (cLower c) v \<and> belowUpper (cUpper c) v"
  let ?k = trimZeros
  have lower: "if bInclusive (cLower c) then ?k (bVersion (cLower c)) \<le> ?k v else ?k (bVersion (cLower c)) < ?k v"
    using v assms(3) by (simp add: aboveLower_iff)
  have upper: "bSet (cUpper c) \<Longrightarrow> if bInclusive (cUpper c) then ?k v \<le> ?k (bVersion (cUpper c)) else ?k v < ?k (bVersion (cUpper c))"
    using v by (simp add: belowUpper_iff)
  have bounds: "\<not> (bSet (cUpper c) \<and> (?k (bVersion (cUpper c)) < ?k (bVersion (cLower c))
      \<or> ?k (bVersion (cLower c)) = ?k (bVersion (cUpper c)) \<and> (\<not> bInclusive (cLower c) \<or> \<not> bInclusive (cUpper c))))"
    using lower upper by (auto split: if_splits)
  then obtain e where e: "cEquality c = Some e" "equalTo e (cEqualityPrefix c) v"
    using assms(1) v by (auto simp: pythonConstraintIntervalEmptyV1_def Let_def releases.greater releases.equal equalityHolds_def split: option.splits)
  show False
  proof (cases "cEqualityPrefix c")
    case True
    then obtain succ where succ: "nextReleasePrefixV1 e = Some succ" using assms(2) e(1) by (auto simp: representable_def)
    have "?k e \<le> ?k v" "?k v < ?k succ"
      using e(2) True prefix_interval[OF succ, of v] by (simp_all add: equalTo_def releases.compare_le releases.less)
    then show False
      using assms(1) bounds lower upper True e(1) succ
      by (auto simp: pythonConstraintIntervalEmptyV1_def Let_def releases.greater releases.equal releases.compare_le split: if_splits)
  next
    case False
    then have "?k v = ?k e" using e(2) by (simp add: equalTo_def releases.equal)
    then show False
      using assms(1) bounds lower upper False e(1)
      by (auto simp: pythonConstraintIntervalEmptyV1_def Let_def releases.greater releases.less releases.equal split: if_splits)
  qed
qed

lemma parse_wf:
  assumes "parsePythonReleaseConstraintV1 specifiers = Some c"
  shows "wfConstraint c" "\<not> cUnsatisfiable c \<Longrightarrow> representable c"
proof -
  have init: "wfConstraint initialConstraint" "representable initialConstraint"
    by (simp_all add: wfConstraint_def representable_def initialConstraint_def)
  have "wfConstraint c \<and> (\<not> cUnsatisfiable c \<longrightarrow> representable c)"
  proof (cases "trimSpace specifiers = []")
    case True
    then show ?thesis using assms init by (simp add: parsePythonReleaseConstraintV1_def)
  next
    case False
    then obtain d where d: "specifierLoop initialConstraint (splitOn (CHR '','') specifiers) = Some d"
        "c = d\<lparr>cUnsatisfiable := cUnsatisfiable d \<or> pythonConstraintIntervalEmptyV1 d\<rparr>"
      using assms by (auto simp: parsePythonReleaseConstraintV1_def split: option.splits)
    have "pythonConstraintIntervalEmptyV1 d" if "\<not> representable d"
      using that by (auto simp: representable_def pythonConstraintIntervalEmptyV1_def)
    then show ?thesis using loop_wf[OF d(1) init(1)] unfolding d(2) by (auto simp: wfConstraint_def representable_def)
  qed
  then show "wfConstraint c" "\<not> cUnsatisfiable c \<Longrightarrow> representable c" by auto
qed

lemma representable_unsat [simp]: "representable (c\<lparr>cUnsatisfiable := u\<rparr>) = representable c"
  by (simp add: representable_def)

lemma parse_conjunction:
  assumes "parsePythonReleaseConstraintV1 specifiers = Some c" "trimSpace specifiers \<noteq> []" "representable c"
    "parseReleaseVersion version = Some v" "interpreterRelease v"
  shows "allows c v version \<longleftrightarrow> (\<forall>raw \<in> set (splitOn (CHR '','') specifiers). specifierHolds raw v version)"
proof -
  obtain d where d: "specifierLoop initialConstraint (splitOn (CHR '','') specifiers) = Some d"
      "c = d\<lparr>cUnsatisfiable := cUnsatisfiable d \<or> pythonConstraintIntervalEmptyV1 d\<rparr>"
    using assms(1,2) by (auto simp: parsePythonReleaseConstraintV1_def split: option.splits)
  have "wfConstraint initialConstraint" by (simp add: wfConstraint_def initialConstraint_def)
  then have "bSet (cLower d)" using loop_wf[OF d(1)] by (simp add: wfConstraint_def)
  then have "\<not> (pythonConstraintIntervalEmptyV1 d \<and> allows d v version)"
    using interval_empty_sound[of d v] assms(3) d(2) by (auto simp: allows_iff)
  then have "allows c v version \<longleftrightarrow> allows d v version" unfolding d(2) by (auto simp: allows_iff)
  then show ?thesis using loop_step[OF d(1) assms(5,4)] initial_allows by simp
qed

end
