(* ===== verification/PythonSeriesProofs.thy ===== *)
theory PythonSeriesProofs
  imports PythonVersionProofs
begin

text \<open>
  The lemmas on minor series: the interval proof that a constraint covers a series, and the
  search that decides whether it admits some release of a series.
\<close>

section \<open>Series\<close>

lemma series_interpreter: "interpreterRelease [major, minor, patch]"
  by (simp add: interpreterRelease_def)

lemma component_series: "component [a, b, p] i = (if i = 0 then a else if i = 1 then b else if i = 2 then p else 0)"
  by (auto simp: pythonReleaseComponentV1_def nth_Cons split: nat.splits)

lemma canonicalPatch_iff: "pythonCanonicalInterpreterPatchV1 r a b = Some p \<longleftrightarrow> compareReleaseVersions [a, b, p] r = 0"
proof -
  have "compareReleaseVersions [a, b, p] r = 0 \<longleftrightarrow> (\<forall>i. component [a, b, p] i = component r i)"
    by (simp add: releases.equal trimZeros_eq fun_eq_iff)
  also have "\<dots> \<longleftrightarrow> component r 0 = a \<and> component r 1 = b \<and> component r 2 = p \<and> (\<forall>i \<ge> 3. component r i = 0)"
  proof
    assume all: "\<forall>i. component [a, b, p] i = component r i"
    show "component r 0 = a \<and> component r 1 = b \<and> component r 2 = p \<and> (\<forall>i \<ge> 3. component r i = 0)"
      using all[rule_format, symmetric] by (simp add: component_series)
  next
    assume "component r 0 = a \<and> component r 1 = b \<and> component r 2 = p \<and> (\<forall>i \<ge> 3. component r i = 0)"
    then show "\<forall>i. component [a, b, p] i = component r i"
      by (auto simp: component_series)
  qed
  also have "\<dots> \<longleftrightarrow> pythonCanonicalInterpreterPatchV1 r a b = Some p"
    using interpreterRelease_iff[of r] by (auto simp: pythonCanonicalInterpreterPatchV1_def interpreterRelease_def)
  finally show ?thesis by simp
qed

text \<open>A prefix of three or more components fixes the patch, shorter ones the series.\<close>

lemma prefix_series:
  assumes "ps \<noteq> []"
  shows "releaseHasPrefix [a, b, p] ps \<longleftrightarrow>
    (if length ps = 1 then ps ! 0 = a else if length ps = 2 then ps ! 0 = a \<and> ps ! 1 = b
     else pythonCanonicalInterpreterPatchV1 ps a b = Some p)"
proof -
  consider x where "ps = [x]" | x y where "ps = [x, y]" | (long) "3 \<le> length ps"
    using assms that by (cases ps; cases "tl ps"; cases "tl (tl ps)") auto
  then show ?thesis
  proof cases
    case long
    have "releaseHasPrefix [a, b, p] ps \<longleftrightarrow> (\<forall>i. component [a, b, p] i = component ps i)"
    proof
      assume h: "releaseHasPrefix [a, b, p] ps"
      show "\<forall>i. component [a, b, p] i = component ps i"
      proof
        fix i show "component [a, b, p] i = component ps i"
          using h long by (cases "i < length ps") (auto simp: hasPrefix_iff pythonReleaseComponentV1_def)
      qed
    qed (auto simp: hasPrefix_iff pythonReleaseComponentV1_def)
    then show ?thesis using long by (simp add: canonicalPatch_iff releases.equal trimZeros_eq fun_eq_iff)
  qed (auto simp: hasPrefix_Cons releaseHasPrefix_def)
qed

lemma series_order: "trimZeros [a, b, p] \<le> trimZeros [a, b, q] \<longleftrightarrow> p \<le> q"
  by (simp add: releases.compare_le[symmetric])

lemma excludedPrefixLoop_None:
  assumes "list_all (\<lambda>e. e \<noteq> []) pss" "excludedPrefixLoop a b pss = None"
  shows "list_ex (\<lambda>e. releaseHasPrefix [a, b, p] e) pss"
  using assms by (induction pss) (auto simp: prefix_series split: if_splits option.splits)

lemma excludedPrefixLoop_Some:
  assumes "list_all (\<lambda>e. e \<noteq> []) pss" "excludedPrefixLoop a b pss = Some ps"
  shows "finite ps \<and> (p \<in> ps \<longleftrightarrow> list_ex (\<lambda>e. releaseHasPrefix [a, b, p] e) pss)"
  using assms
proof (induction pss arbitrary: ps)
  case (Cons e pss)
  then obtain qs where qs: "excludedPrefixLoop a b pss = Some qs" by (auto split: if_splits option.splits)
  have e: "e \<noteq> []" "list_all (\<lambda>e. e \<noteq> []) pss" using Cons.prems(1) by auto
  show ?case using Cons.IH[OF e(2) qs] Cons.prems(2) qs prefix_series[OF e(1), of a b p]
    by (auto split: if_splits option.splits)
qed auto

lemma excluded_None:
  assumes "wfConstraint c" "pythonExcludedSeriesPatchesV1 c a b = None"
  shows "excludes c [a, b, p]"
  using assms excludedPrefixLoop_None[of "cExcludedPrefixes c" a b p]
  by (auto simp: pythonExcludedSeriesPatchesV1_def excludes_def wfConstraint_def list_ex_iff list_all_iff split: option.splits)

lemma excluded_Some:
  assumes "wfConstraint c" "pythonExcludedSeriesPatchesV1 c a b = Some ex"
  shows "finite ex" "p \<in> ex \<longleftrightarrow> excludes c [a, b, p]"
proof -
  obtain ps where ps: "excludedPrefixLoop a b (cExcludedPrefixes c) = Some ps"
      "ex = set (List.map_filter (\<lambda>r. pythonCanonicalInterpreterPatchV1 r a b) (cExcludedExact c)) \<union> ps"
    using assms(2) by (auto simp: pythonExcludedSeriesPatchesV1_def split: option.splits)
  have w: "list_all (\<lambda>e. e \<noteq> []) (cExcludedPrefixes c)" using assms(1) by (simp add: wfConstraint_def)
  note e = excludedPrefixLoop_Some[OF w ps(1)]
  show "finite ex" using e ps(2) by simp
  have "p \<in> set (List.map_filter (\<lambda>r. pythonCanonicalInterpreterPatchV1 r a b) rs) \<longleftrightarrow> list_ex (\<lambda>r. compareReleaseVersions [a, b, p] r = 0) rs" for rs
    by (auto simp: map_filter_def list_ex_iff canonicalPatch_iff[symmetric] image_iff)
  then show "p \<in> ex \<longleftrightarrow> excludes c [a, b, p]" using e ps(2) by (auto simp: excludes_def list_ex_iff list_all_iff)
qed

section \<open>Covering a series\<close>

lemma narrowed:
  assumes "representable c"
  obtains n where "narrowedInterval c = Some n" "bSet (cLower c) \<Longrightarrow> bSet (rLower n)"
    "\<And>v. aboveLower (rLower n) v \<and> belowUpper (rUpper n) v \<longleftrightarrow> equalityHolds c v \<and> aboveLower (cLower c) v \<and> belowUpper (cUpper c) v"
proof -
  have eq: "compareReleaseVersions v e = 0 \<longleftrightarrow> atLeast e True v \<and> atMost e True v" for v e
    by (auto simp: atLeast_def atMost_def releases.equal)
  have pre: "releaseHasPrefix v e \<longleftrightarrow> atLeast e True v \<and> atMost succ False v" if "nextReleasePrefixV1 e = Some succ" for v e succ
    using prefix_interval[OF that] by (simp add: atLeast_def atMost_def releases.less releases.compare_le)
  have "narrowedInterval c \<noteq> None"
    using assms by (auto simp: narrowedInterval_def Let_def representable_def split: option.splits)
  then obtain n where n: "narrowedInterval c = Some n" by blast
  show ?thesis
    using n assms by (intro that[of n]) (auto simp: narrowedInterval_def Let_def pythonIntervalConstrainUpperV1_def
        pythonIntervalConstrainLowerV1_def lowerBound_iff upperBound_iff equalityHolds_def equalTo_def eq pre split: option.splits if_splits)
qed

lemma interval_exact:
  assumes "representable c" "bSet (cLower c)" "\<not> cUnsatisfiable c"
  shows "pythonConstraintIntervalV1 c = Some i \<Longrightarrow>
      (aboveLower (rLower i) v \<and> belowUpper (rUpper i) v \<longleftrightarrow> equalityHolds c v \<and> aboveLower (cLower c) v \<and> belowUpper (cUpper c) v) \<and> bSet (rLower i)"
    and "pythonConstraintIntervalV1 c = None \<Longrightarrow> \<not> (equalityHolds c v \<and> aboveLower (cLower c) v \<and> belowUpper (cUpper c) v)"
proof -
  obtain n where n: "narrowedInterval c = Some n" "bSet (cLower c) \<Longrightarrow> bSet (rLower n)"
    "\<And>v. aboveLower (rLower n) v \<and> belowUpper (rUpper n) v \<longleftrightarrow> equalityHolds c v \<and> aboveLower (cLower c) v \<and> belowUpper (cUpper c) v"
    using narrowed[OF assms(1)] by blast
  have empty: "\<not> (pythonIntervalEmptyV1 n \<and> bSet (rLower n) \<and> aboveLower (rLower n) v \<and> belowUpper (rUpper n) v)"
    by (auto simp: pythonIntervalEmptyV1_def Let_def aboveLower_iff belowUpper_iff releases.greater releases.equal split: if_splits)
  show "pythonConstraintIntervalV1 c = Some i \<Longrightarrow>
      (aboveLower (rLower i) v \<and> belowUpper (rUpper i) v \<longleftrightarrow> equalityHolds c v \<and> aboveLower (cLower c) v \<and> belowUpper (cUpper c) v) \<and> bSet (rLower i)"
    using n assms by (auto simp: pythonConstraintIntervalV1_def split: if_splits)
  show "pythonConstraintIntervalV1 c = None \<Longrightarrow> \<not> (equalityHolds c v \<and> aboveLower (cLower c) v \<and> belowUpper (cUpper c) v)"
    using n assms empty by (auto simp: pythonConstraintIntervalV1_def split: if_splits)
qed

text \<open>An upper bound below the next series stops some patch of the series.\<close>

lemma upper_in_series:
  assumes "nextReleasePrefixV1 [a, b] = Some succ" "trimZeros u < trimZeros succ"
  shows "\<exists>p. trimZeros u < trimZeros [a, b, p]"
proof (rule ccontr)
  assume "\<not> ?thesis"
  then have le: "trimZeros [a, b, p] \<le> trimZeros u" for p by (simp add: not_less)
  have "trimZeros [a, b] = trimZeros [a, b, 0]" by (simp add: trimZeros_Cons)
  then have "releaseHasPrefix u [a, b]"
    using prefix_interval[OF assms(1)] assms(2) le[of 0] by (simp add: releases.less releases.compare_le)
  then have u: "component u 0 = a" "component (tl u) 0 = b" by (simp_all add: hasPrefix_Cons)
  have "compareReleaseVersions [a, b, Suc (component (tl (tl u)) 0)] u > 0"
    using u by (simp add: compare_step[of "_ # _"])
  then show False using le[of "Suc (component (tl (tl u)) 0)"] by (simp add: releases.greater)
qed

lemma below_in_series:
  assumes "nextReleasePrefixV1 [a, b] = Some succ"
  shows "trimZeros [a, b, p] < trimZeros succ" "trimZeros [a, b] \<le> trimZeros [a, b, p]"
proof -
  have "releaseHasPrefix [a, b, p] [a, b]" by (simp add: hasPrefix_Cons releaseHasPrefix_def)
  then show "trimZeros [a, b, p] < trimZeros succ" "trimZeros [a, b] \<le> trimZeros [a, b, p]"
    using prefix_interval[OF assms, of "[a, b, p]"] by (simp_all only: releases.less releases.compare_le)
qed

lemma bounds_cover:
  assumes "nextReleasePrefixV1 [a, b] = Some succ" "bSet lo"
  shows "(\<forall>p. aboveLower lo [a, b, p] \<and> belowUpper hi [a, b, p]) \<longleftrightarrow>
    \<not> (trimZeros (bVersion lo) > trimZeros [a, b] \<or> trimZeros (bVersion lo) = trimZeros [a, b] \<and> \<not> bInclusive lo)
    \<and> \<not> (bSet hi \<and> trimZeros (bVersion hi) < trimZeros succ)"
proof -
  note s = below_in_series[OF assms(1)]
  have zero: "trimZeros [a, b] = trimZeros [a, b, 0]" by (simp add: trimZeros_Cons)
  have low: "(\<forall>p. aboveLower lo [a, b, p]) \<longleftrightarrow>
      \<not> (trimZeros (bVersion lo) > trimZeros [a, b] \<or> trimZeros (bVersion lo) = trimZeros [a, b] \<and> \<not> bInclusive lo)"
  proof
    assume "\<forall>p. aboveLower lo [a, b, p]"
    then have "aboveLower lo [a, b, 0]" by blast
    then show "\<not> (trimZeros (bVersion lo) > trimZeros [a, b] \<or> trimZeros (bVersion lo) = trimZeros [a, b] \<and> \<not> bInclusive lo)"
      using assms(2) unfolding zero by (auto simp: aboveLower_iff split: if_splits)
  next
    assume l: "\<not> (trimZeros (bVersion lo) > trimZeros [a, b] \<or> trimZeros (bVersion lo) = trimZeros [a, b] \<and> \<not> bInclusive lo)"
    show "\<forall>p. aboveLower lo [a, b, p]"
    proof
      fix p show "aboveLower lo [a, b, p]" using l s(2)[of p] by (auto simp: aboveLower_iff)
    qed
  qed
  have high: "(\<forall>p. belowUpper hi [a, b, p]) \<longleftrightarrow> \<not> (bSet hi \<and> trimZeros (bVersion hi) < trimZeros succ)"
  proof
    assume all: "\<forall>p. belowUpper hi [a, b, p]"
    show "\<not> (bSet hi \<and> trimZeros (bVersion hi) < trimZeros succ)"
    proof
      assume h: "bSet hi \<and> trimZeros (bVersion hi) < trimZeros succ"
      then obtain p where "trimZeros (bVersion hi) < trimZeros [a, b, p]" using upper_in_series[OF assms(1)] by blast
      then show False using h all[rule_format, of p] by (auto simp: belowUpper_iff split: if_splits)
    qed
  next
    assume h: "\<not> (bSet hi \<and> trimZeros (bVersion hi) < trimZeros succ)"
    show "\<forall>p. belowUpper hi [a, b, p]"
    proof
      fix p show "belowUpper hi [a, b, p]" using h s(1)[of p] by (auto simp: belowUpper_iff)
    qed
  qed
  show ?thesis using low high by blast
qed

lemma coversSeries_iff:
  assumes "wfConstraint c" "\<not> cUnsatisfiable c \<Longrightarrow> representable c" "nextReleasePrefixV1 [a, b] = Some succ" "cStrict c = []"
  shows "coversSeries c a b succ \<longleftrightarrow> (\<forall>p. allows c [a, b, p] (raw p))"
proof (cases "cUnsatisfiable c")
  case True
  then show ?thesis by (simp add: coversSeries_def pythonConstraintIntervalV1_def allows_iff)
next
  case False
  have lo: "bSet (cLower c)" using assms(1) by (simp add: wfConstraint_def)
  note exact = interval_exact[OF assms(2)[OF False] lo False]
  have allowed: "allows c v (raw p) \<longleftrightarrow> (equalityHolds c v \<and> aboveLower (cLower c) v \<and> belowUpper (cUpper c) v) \<and> \<not> excludes c v" for v p
    using False assms(4) by (auto simp: allows_iff strictOK_def)
  have ex: "(\<forall>p. \<not> excludes c [a, b, p]) \<longleftrightarrow> (case pythonExcludedSeriesPatchesV1 c a b of None \<Rightarrow> False | Some ex \<Rightarrow> \<not> card ex > 0)"
  proof (cases "pythonExcludedSeriesPatchesV1 c a b")
    case None
    then show ?thesis using excluded_None[OF assms(1)] by simp
  next
    case (Some ex)
    then show ?thesis using excluded_Some[OF assms(1) Some] by (auto simp: card_gt_0_iff)
  qed
  show ?thesis
  proof (cases "pythonConstraintIntervalV1 c")
    case None
    then have "\<not> allows c [a, b, 0] (raw 0)" using exact(2) allowed by blast
    then show ?thesis using None by (auto simp: coversSeries_def)
  next
    case (Some i)
    note e = exact(1)[OF Some]
    have "(\<forall>p. allows c [a, b, p] (raw p)) \<longleftrightarrow>
        (\<forall>p. aboveLower (rLower i) [a, b, p] \<and> belowUpper (rUpper i) [a, b, p]) \<and> (\<forall>p. \<not> excludes c [a, b, p])"
      using e allowed by auto
    also have "\<dots> \<longleftrightarrow> coversSeries c a b succ"
      unfolding bounds_cover[OF assms(3) conjunct2[OF e]] ex
      by (auto simp: coversSeries_def Some Let_def releases.greater releases.equal releases.less split: option.splits)
    finally show ?thesis by simp
  qed
qed

section \<open>Meeting a series\<close>

lemma compare_series:
  "compareReleaseVersions [a, b, p] r =
     (if a < component r 0 then -1 else if a > component r 0 then 1
      else if b < component r 1 then -1 else if b > component r 1 then 1
      else if p < component r 2 then -1 else if p > component r 2 then 1 else compareReleaseVersions [] (drop 3 r))"
  by (simp add: compare_step[of "_ # _"] comp_tl numeral_2_eq_2 tl_drop[symmetric] numeral_3_eq_3 drop_Suc)

lemma minimum_patch:
  assumes "bSet lower"
  shows "case pythonMinimumSeriesPatchV1 lower a b of
      None \<Rightarrow> \<forall>p \<le> maxIntValue. \<not> aboveLower lower [a, b, p]
    | Some m \<Rightarrow> \<forall>p. aboveLower lower [a, b, p] \<longleftrightarrow> m \<le> p"
proof -
  note d = pythonMinimumSeriesPatchV1_def Let_def aboveLower_def compare_series
  have tail: "compareReleaseVersions [] (drop 3 (bVersion lower)) = 0 \<or> compareReleaseVersions [] (drop 3 (bVersion lower)) = -1"
    using compare_values[of "[]" "drop 3 (bVersion lower)"] nil_least(1)[of "drop 3 (bVersion lower)"] by auto
  consider "a \<noteq> component (bVersion lower) 0 \<or> b \<noteq> component (bVersion lower) 1"
    | "a = component (bVersion lower) 0" "b = component (bVersion lower) 1" by blast
  then show ?thesis
  proof cases
    case 1
    then show ?thesis using assms by (auto simp: d)
  next
    case 2
    then show ?thesis using assms tail by (auto simp: d)
  qed
qed

lemma equality_start:
  assumes "wfConstraint c"
  shows "case equalityStart c a b m of
      None \<Rightarrow> \<forall>p \<ge> m. \<not> equalityHolds c [a, b, p]
    | Some s \<Rightarrow> m \<le> s \<and> (s = m \<and> (\<forall>p. equalityHolds c [a, b, p]) \<or> (\<forall>p. equalityHolds c [a, b, p] \<longleftrightarrow> p = s))"
proof (cases "cEquality c")
  case None
  then show ?thesis by (simp add: equalityStart_def equalityHolds_def)
next
  case (Some e)
  have e: "e \<noteq> []" using assms Some by (simp add: wfConstraint_def)
  have holds: "equalityHolds c [a, b, p] \<longleftrightarrow> (if cEqualityPrefix c \<and> length e = 1 then e ! 0 = a
      else if cEqualityPrefix c \<and> length e = 2 then e ! 0 = a \<and> e ! 1 = b
      else pythonCanonicalInterpreterPatchV1 e a b = Some p)" for p
    using prefix_series[OF e, of a b p] by (auto simp: equalityHolds_def Some equalTo_def canonicalPatch_iff)
  show ?thesis unfolding holds using Some by (auto simp: equalityStart_def split: option.splits)
qed

lemma patchLoop_iff:
  assumes "finite ex" "card (ex \<inter> {patch..}) < n" "patch \<le> maxIntValue"
  shows "patchLoop c a b ex n patch \<longleftrightarrow>
    (\<exists>q. patch \<le> q \<and> q \<le> maxIntValue \<and> q \<notin> ex \<and> {patch ..< q} \<subseteq> ex \<and> allows c [a, b, q] (snd (pythonCanonicalInterpreterReleaseV1 a b q)))"
    (is "_ \<longleftrightarrow> (\<exists>q. ?found patch q)")
  using assms(2,3)
proof (induction n arbitrary: patch)
  case (Suc n)
  let ?found = "\<lambda>patch q. patch \<le> q \<and> q \<le> maxIntValue \<and> q \<notin> ex \<and> {patch ..< q} \<subseteq> ex
      \<and> allows c [a, b, q] (snd (pythonCanonicalInterpreterReleaseV1 a b q))"
  show ?case
  proof (cases "patch \<in> ex")
    case False
    have "q = patch" if "?found patch q" for q
    proof (rule ccontr)
      assume "q \<noteq> patch"
      then have "patch \<in> {patch ..< q}" using that by simp
      then show False using that False by blast
    qed
    then have "(\<exists>q. ?found patch q) \<longleftrightarrow> ?found patch patch" by metis
    then show ?thesis using False Suc.prems(2) by (simp add: pythonCanonicalInterpreterReleaseV1_def)
  next
    case True
    have later: "?found patch q \<longleftrightarrow> ?found (Suc patch) q" if "patch < maxIntValue" for q
    proof -
      have "patch \<le> q \<and> q \<notin> ex \<longleftrightarrow> Suc patch \<le> q \<and> q \<notin> ex" using True by (cases "q = patch") auto
      moreover have "{patch ..< q} \<subseteq> ex \<longleftrightarrow> {Suc patch ..< q} \<subseteq> ex" if "Suc patch \<le> q"
      proof -
        have "{patch ..< q} = insert patch {Suc patch ..< q}" using that by auto
        then show ?thesis using True by simp
      qed
      ultimately show ?thesis by blast
    qed
    show ?thesis
    proof (cases "patch = maxIntValue")
      case max: True
      then show ?thesis using True by (auto dest: le_antisym)
    next
      case False
      have "ex \<inter> {patch..} = insert patch (ex \<inter> {Suc patch..})" using True by auto
      then have "card (ex \<inter> {Suc patch..}) < n" using Suc.prems(1) assms(1) by simp
      then have "patchLoop c a b ex n (Suc patch) \<longleftrightarrow> (\<exists>q. ?found (Suc patch) q)"
        using Suc.prems(2) False by (intro Suc.IH) auto
      then show ?thesis using True False Suc.prems(2) later by simp
    qed
  qed
qed simp

text \<open>The components of a parsed constraint are \<open>int\<close> values.\<close>

definition boundedConstraint :: "pythonReleaseConstraintV1 \<Rightarrow> bool" where
  "boundedConstraint c \<longleftrightarrow> list_all (\<lambda>x. x \<le> maxIntValue) (bVersion (cLower c))
     \<and> (\<forall>e. cEquality c = Some e \<longrightarrow> list_all (\<lambda>x. x \<le> maxIntValue) e)"

lemma releaseParts_bounded: "releaseParts ps = Some e \<Longrightarrow> list_all (\<lambda>x. x \<le> maxIntValue) e"
proof (induction ps arbitrary: e)
  case (Cons p ps)
  then obtain v vs where v: "atoi p = Some v" "0 \<le> v" "releaseParts ps = Some vs" "e = nat v # vs"
    by (auto split: if_splits option.splits)
  have "v \<le> maxInt" using v(1) by (auto simp: atoi_def Let_def maxInt_def split: list.splits if_splits)
  then have "nat v \<le> maxIntValue" by (simp add: maxInt_def maxIntValue_def)
  then show ?case using Cons.IH[OF v(3)] v(4) by simp
qed auto

lemma parse_bounded_release: "parseReleaseVersion s = Some e \<Longrightarrow> list_all (\<lambda>x. x \<le> maxIntValue) e"
  by (auto simp: parseReleaseVersion_def Let_def dest: releaseParts_bounded split: option.splits if_splits)

lemma lowerBound_bounded:
  "list_all P (bVersion b) \<Longrightarrow> list_all P r \<Longrightarrow> list_all P (bVersion (lowerBound b r inclusive))"
  by (simp add: lowerBound_def)

lemma constrainEquality_bounded:
  "constrainPythonEqualityV1 c e isPrefix = (ok, c') \<Longrightarrow> boundedConstraint c \<Longrightarrow> list_all (\<lambda>x. x \<le> maxIntValue) e \<Longrightarrow> boundedConstraint c'"
  by (auto simp: constrainPythonEqualityV1_def boundedConstraint_def split: option.splits if_splits)

lemma bounded_updates [simp]:
  "boundedConstraint (c\<lparr>cUnsatisfiable := u\<rparr>) = boundedConstraint c" "boundedConstraint (c\<lparr>cStrict := t\<rparr>) = boundedConstraint c"
  "boundedConstraint (c\<lparr>cUpper := b\<rparr>) = boundedConstraint c" "boundedConstraint (c\<lparr>cExcludedExact := rs\<rparr>) = boundedConstraint c"
  "boundedConstraint (c\<lparr>cExcludedPrefixes := rs\<rparr>) = boundedConstraint c"
  by (simp_all add: boundedConstraint_def)

lemma lower_bounded:
  "boundedConstraint c \<Longrightarrow> list_all (\<lambda>x. x \<le> maxIntValue) r \<Longrightarrow> boundedConstraint (constrainPythonLowerV1 c r inclusive)"
  by (simp add: boundedConstraint_def constrainPythonLowerV1_def lowerBound_bounded)

lemma applyOperator_bounded:
  assumes "applyOperator c operator e wildcard = Some c'" "boundedConstraint c" "list_all (\<lambda>x. x \<le> maxIntValue) e"
  shows "boundedConstraint c'"
proof -
  have "list_all (\<lambda>x. x \<le> maxIntValue) (butlast e)" using assms(3) by (auto simp: list_all_iff dest: in_set_butlastD)
  then show ?thesis using assms lower_bounded constrainEquality_bounded
    by (auto simp: applyOperator_def constrainPythonUpperV1_def constrainPythonPrefixV1_def split: if_splits option.splits prod.splits)
qed

lemma loop_bounded: "specifierLoop c raws = Some c' \<Longrightarrow> boundedConstraint c \<Longrightarrow> boundedConstraint c'"
proof (induction raws arbitrary: c)
  case (Cons raw raws)
  then obtain d where d: "applySpecifier c raw = Some d" "specifierLoop d raws = Some c'"
    by (auto split: option.splits)
  from d(1) have "boundedConstraint d"
  proof (cases rule: applySpecifier_cases)
    case (strict expectedText)
    let ?c1 = "if cStrict c \<noteq> [] \<and> cStrict c \<noteq> expectedText then c\<lparr>cUnsatisfiable := True\<rparr> else c"
    have "boundedConstraint ?c1" using Cons.prems(2) by simp
    then show ?thesis using strict(3) constrainEquality_bounded[of ?c1] parse_bounded_release[of expectedText]
      by (auto simp: applyStrict_def Let_def split: if_splits option.splits prod.splits)
  next
    case (ordinary operator expectedText e)
    then show ?thesis using applyOperator_bounded[OF ordinary(5) Cons.prems(2)] parse_bounded_release by blast
  qed
  then show ?case using Cons.IH d(2) by blast
qed simp

lemma parse_bounded:
  assumes "parsePythonReleaseConstraintV1 specifiers = Some c"
  shows "boundedConstraint c"
proof -
  have "boundedConstraint initialConstraint" by (simp add: boundedConstraint_def initialConstraint_def)
  then show ?thesis using assms loop_bounded by (auto simp: parsePythonReleaseConstraintV1_def split: if_splits option.splits)
qed

lemma component_bounded: "list_all (\<lambda>x. x \<le> n) r \<Longrightarrow> component r i \<le> n"
  by (auto simp: pythonReleaseComponentV1_def list_all_length)

lemma start_bounded:
  assumes "boundedConstraint c" "pythonMinimumSeriesPatchV1 (cLower c) a b = Some m" "equalityStart c a b m = Some s"
  shows "s \<le> maxIntValue"
proof -
  have "component (bVersion (cLower c)) 2 \<le> maxIntValue"
    using assms(1) component_bounded by (simp add: boundedConstraint_def)
  then have "m \<le> maxIntValue"
    using assms(2) by (auto simp: pythonMinimumSeriesPatchV1_def Let_def maxIntValue_def split: if_splits)
  moreover have "component e 2 \<le> maxIntValue" if "cEquality c = Some e" for e
    using assms(1) that component_bounded by (simp add: boundedConstraint_def)
  ultimately show ?thesis
    using assms(3) by (auto simp: equalityStart_def pythonCanonicalInterpreterPatchV1_def split: option.splits if_splits)
qed

abbreviation releaseText :: "nat \<Rightarrow> nat \<Rightarrow> nat \<Rightarrow> string" where
  "releaseText a b p \<equiv> snd (pythonCanonicalInterpreterReleaseV1 a b p)"

lemma upper_downward: "belowUpper hi [a, b, p] \<Longrightarrow> q \<le> p \<Longrightarrow> belowUpper hi [a, b, q]"
  using series_order[of a b q p] by (auto simp: belowUpper_iff split: if_splits)

lemma strict_series:
  assumes "wfConstraint c" "boundedConstraint c" "\<not> cUnsatisfiable c" "cStrict c \<noteq> []"
  shows "pythonConstraintHasSeriesReleaseV1 c a b \<longleftrightarrow> (\<exists>p \<le> maxIntValue. allows c [a, b, p] (releaseText a b p))"
proof -
  obtain e where e: "cEquality c = Some e" "\<not> cEqualityPrefix c" using assms by (auto simp: wfConstraint_def)
  have patch: "pythonCanonicalInterpreterPatchV1 e a b = Some p \<and> releaseText a b p = cStrict c" if "allows c [a, b, p] (releaseText a b p)" for p
    using that e assms(4) by (auto simp: allows_iff equalityHolds_def equalTo_def canonicalPatch_iff strictOK_def)
  have small: "p \<le> maxIntValue" if "pythonCanonicalInterpreterPatchV1 e a b = Some p" for p
    using that component_bounded[of maxIntValue e 2] assms(2) e(1)
    by (auto simp: pythonCanonicalInterpreterPatchV1_def boundedConstraint_def split: if_splits)
  have "pythonConstraintHasSeriesReleaseV1 c a b \<longleftrightarrow>
      (\<exists>p. pythonCanonicalInterpreterPatchV1 e a b = Some p \<and> releaseText a b p = cStrict c \<and> allows c [a, b, p] (releaseText a b p))"
    using assms(3,4) e by (auto simp: pythonConstraintHasSeriesReleaseV1_def pythonCanonicalInterpreterReleaseV1_def split: option.splits)
  then show ?thesis using patch small by blast
qed

lemma searched_series:
  assumes "wfConstraint c" "boundedConstraint c" "\<not> cUnsatisfiable c" "cStrict c = []"
    "pythonMinimumSeriesPatchV1 (cLower c) a b = Some m" "equalityStart c a b m = Some s" "pythonExcludedSeriesPatchesV1 c a b = Some ex"
  shows "patchLoop c a b ex (card ex + 1) s \<longleftrightarrow> (\<exists>p \<le> maxIntValue. allows c [a, b, p] (releaseText a b p))"
proof -
  have lower: "aboveLower (cLower c) [a, b, p] \<longleftrightarrow> m \<le> p" for p
    using minimum_patch[of "cLower c" a b] assms(1,5) by (simp add: wfConstraint_def)
  have start: "m \<le> s" "s = m \<and> (\<forall>p. equalityHolds c [a, b, p]) \<or> (\<forall>p. equalityHolds c [a, b, p] \<longleftrightarrow> p = s)"
    using equality_start[OF assms(1), of m a b] assms(6) by simp_all
  note ex = excluded_Some[OF assms(1,7)]
  have allowed: "allows c [a, b, p] (releaseText a b p) \<longleftrightarrow> equalityHolds c [a, b, p] \<and> m \<le> p \<and> belowUpper (cUpper c) [a, b, p] \<and> p \<notin> ex" for p
    using assms(3,4) ex(2) lower by (auto simp: allows_iff strictOK_def)
  have "card (ex \<inter> {s..}) < card ex + 1" using card_mono[OF ex(1), of "ex \<inter> {s..}"] by simp
  note loop = patchLoop_iff[OF ex(1) this start_bounded[OF assms(2,5,6)]]
  show ?thesis
  proof
    assume "patchLoop c a b ex (card ex + 1) s"
    then show "\<exists>p \<le> maxIntValue. allows c [a, b, p] (releaseText a b p)" unfolding loop by blast
  next
    assume "\<exists>p \<le> maxIntValue. allows c [a, b, p] (releaseText a b p)"
    then obtain p where p: "p \<le> maxIntValue" "equalityHolds c [a, b, p]" "m \<le> p" "belowUpper (cUpper c) [a, b, p]" "p \<notin> ex"
      using allowed by blast
    have "s \<le> p" using start p(2,3) by auto
    define q where "q = (LEAST q. s \<le> q \<and> q \<notin> ex)"
    have q: "s \<le> q" "q \<notin> ex" using LeastI[of "\<lambda>q. s \<le> q \<and> q \<notin> ex" p] \<open>s \<le> p\<close> p(5) by (auto simp: q_def)
    have "q \<le> p" unfolding q_def using \<open>s \<le> p\<close> p(5) by (intro Least_le) simp
    have "r \<in> ex" if "s \<le> r" "r < q" for r using not_less_Least[of r "\<lambda>q. s \<le> q \<and> q \<notin> ex"] that by (auto simp: q_def)
    then have gap: "{s ..< q} \<subseteq> ex" by auto
    from start(2) have "equalityHolds c [a, b, q]"
    proof
      assume pinned: "\<forall>p. equalityHolds c [a, b, p] \<longleftrightarrow> p = s"
      then have "p = s" using p(2) by blast
      then show ?thesis using q(1) \<open>q \<le> p\<close> p(2) le_antisym by metis
    qed blast
    then have "allows c [a, b, q] (releaseText a b q)"
      unfolding allowed using q start(1) upper_downward[OF p(4) \<open>q \<le> p\<close>] by simp
    then show "patchLoop c a b ex (card ex + 1) s"
      unfolding loop using q gap \<open>q \<le> p\<close> p(1) by (intro exI[of _ q]) simp
  qed
qed

lemma hasSeries_iff:
  assumes "wfConstraint c" "boundedConstraint c"
  shows "pythonConstraintHasSeriesReleaseV1 c a b \<longleftrightarrow> (\<exists>p \<le> maxIntValue. allows c [a, b, p] (releaseText a b p))"
proof -
  have lo: "bSet (cLower c)" using assms(1) by (simp add: wfConstraint_def)
  have parts: "\<not> cUnsatisfiable c \<and> equalityHolds c [a, b, p] \<and> aboveLower (cLower c) [a, b, p] \<and> \<not> excludes c [a, b, p]"
    if "allows c [a, b, p] raw" for p raw using that by (simp add: allows_iff)
  consider (unsat) "cUnsatisfiable c" | (strict) "\<not> cUnsatisfiable c" "cStrict c \<noteq> []"
    | (low) "\<not> cUnsatisfiable c" "cStrict c = []" "pythonMinimumSeriesPatchV1 (cLower c) a b = None"
    | (eq) m where "\<not> cUnsatisfiable c" "cStrict c = []" "pythonMinimumSeriesPatchV1 (cLower c) a b = Some m" "equalityStart c a b m = None"
    | (series) m s where "\<not> cUnsatisfiable c" "cStrict c = []" "pythonMinimumSeriesPatchV1 (cLower c) a b = Some m" "equalityStart c a b m = Some s"
        "pythonExcludedSeriesPatchesV1 c a b = None"
    | (search) m s ex where "\<not> cUnsatisfiable c" "cStrict c = []" "pythonMinimumSeriesPatchV1 (cLower c) a b = Some m"
        "equalityStart c a b m = Some s" "pythonExcludedSeriesPatchesV1 c a b = Some ex"
    by (metis option.exhaust)
  then show ?thesis
  proof cases
    case low
    then show ?thesis using minimum_patch[OF lo, of a b] parts by (auto simp: pythonConstraintHasSeriesReleaseV1_def)
  next
    case eq
    have "\<forall>p \<ge> m. \<not> equalityHolds c [a, b, p]" "\<And>p. aboveLower (cLower c) [a, b, p] \<longleftrightarrow> m \<le> p"
      using equality_start[OF assms(1), of m a b] minimum_patch[OF lo, of a b] eq by simp_all
    then show ?thesis using eq parts by (auto simp: pythonConstraintHasSeriesReleaseV1_def)
  next
    case series
    then show ?thesis using excluded_None[OF assms(1)] parts by (auto simp: pythonConstraintHasSeriesReleaseV1_def)
  next
    case search
    then show ?thesis using searched_series[OF assms search] by (simp add: pythonConstraintHasSeriesReleaseV1_def)
  qed (use strict_series[OF assms] in \<open>auto simp: pythonConstraintHasSeriesReleaseV1_def allows_iff\<close>)
qed

end
