(* ===== verification/PythonClaimProofs.thy ===== *)
theory PythonClaimProofs
  imports PythonClaim
begin

text \<open>
  The lemmas on interpreter claims: a claim denotes a set of releases, normalization keeps the
  union of the sets and makes the claims disjoint, and the linear pass over two sorted lists
  computes the intersection.
\<close>

section \<open>Well-formed claims\<close>

definition wfClaim :: "SupportedPythonClaimV1 \<Rightarrow> bool" where
  "wfClaim c \<longleftrightarrow> int (pcMajor c) \<le> maxInt \<and> int (pcMinor c) \<le> maxInt \<and> int (pcPatch c) \<le> maxInt \<and> (\<not> pcExact c \<longrightarrow> pcPatch c = 0)"

lemma digits_range: "list_all isDigit s \<Longrightarrow> rangeAll (\<lambda>r. 48 \<le> r \<and> r \<le> 57) s"
proof -
  assume d: "list_all isDigit s"
  then have "plainText s" by (auto simp: plainText_def list_all_iff isDigit_def)
  then show ?thesis using d by (auto simp: rangeAll_def runes_plain list_all_iff isDigit_def)
qed

lemma formatUint_no_dot: "CHR ''.'' \<notin> set (formatUint n)"
  using formatUint_isDigit[of n] by (auto simp: list_all_iff isDigit_def)

lemma interpreterParts_format:
  "(\<forall>n \<in> set ns. int n \<le> maxInt) \<Longrightarrow> interpreterParts value (map formatUint ns) = None"
  using formatUint_leading by (induction ns) (auto simp: digits_range formatUint_isDigit atoi_formatUint)

lemma componentOf_format: "int n \<le> maxInt \<Longrightarrow> componentOf (formatUint n) = n"
  by (simp add: componentOf_def atoi_formatUint)

lemma claimString_parts:
  "splitOn (CHR ''.'') (claimString c) = map formatUint (if pcExact c then [pcMajor c, pcMinor c, pcPatch c] else [pcMajor c, pcMinor c])"
  by (simp add: claimString_def splitOn_join splitOn_absent formatUint_no_dot)

lemma parse_claimString:
  assumes "wfClaim c"
  shows "ParseSupportedPythonClaimV1 (claimString c) = Inr c"
proof -
  have "ValidatePythonInterpreterVersionV1 (claimString c) = None"
    unfolding ValidatePythonInterpreterVersionV1_def claimString_parts Let_def
    using assms by (auto simp: wfClaim_def simp del: list.map intro!: interpreterParts_format)
  then show ?thesis
    using assms by (simp add: ParseSupportedPythonClaimV1_def claimString_parts wfClaim_def componentOf_format)
qed

lemma componentOf_bound: "int (componentOf s) \<le> maxInt"
  by (auto simp: componentOf_def atoi_def Let_def maxInt_def split: option.splits if_splits list.splits)

lemma parse_wf_claim: "ParseSupportedPythonClaimV1 value = Inr c \<Longrightarrow> wfClaim c"
  using componentOf_bound by (auto simp: ParseSupportedPythonClaimV1_def Let_def wfClaim_def maxInt_def split: option.splits)

lemma reparse_claimString: "wfClaim c \<Longrightarrow> reparse (claimString c) = c"
  by (simp add: reparse_def parse_claimString)

section \<open>What claims denote\<close>

definition releasesOf :: "SupportedPythonClaimV1 \<Rightarrow> (nat \<times> nat \<times> nat) set" where
  "releasesOf c = {(pcMajor c, pcMinor c, p) | p. pcExact c \<longrightarrow> p = pcPatch c}"

definition claimed :: "SupportedPythonClaimV1 list \<Rightarrow> (nat \<times> nat \<times> nat) set" where
  "claimed cs = (\<Union>c \<in> set cs. releasesOf c)"

lemma claimed_simps [simp]: "claimed [] = {}" "claimed (c # cs) = releasesOf c \<union> claimed cs"
  by (simp_all add: claimed_def)

definition seriesReleases :: "(nat \<times> nat) list \<Rightarrow> (nat \<times> nat \<times> nat) set" where
  "seriesReleases ms = {(a, b, p). (a, b) \<in> set ms}"

lemma normalizeLoop_claimed:
  assumes "seriesReleases ms \<subseteq> E" "\<And>c. previous = Some c \<Longrightarrow> releasesOf c \<subseteq> E"
  shows "claimed (normalizeLoop previous ms cs) \<union> E = claimed cs \<union> E"
  using assms
proof (induction previous ms cs arbitrary: E rule: normalizeLoop.induct)
  case (2 previous ms c rest)
  consider (dup) "previous = Some c" | (series) "previous \<noteq> Some c" "\<not> pcExact c"
    | (subsumed) "previous \<noteq> Some c" "pcExact c" "(pcMajor c, pcMinor c) \<in> set ms"
    | (exact) "previous \<noteq> Some c" "pcExact c" "(pcMajor c, pcMinor c) \<notin> set ms" by blast
  then show ?case
  proof cases
    case dup
    then have "releasesOf c \<subseteq> E" using 2(6) by blast
    then show ?thesis using dup 2(1)[OF dup 2(5)] by auto
  next
    case series
    have "seriesReleases ((pcMajor c, pcMinor c) # ms) \<subseteq> E \<union> releasesOf c"
      using 2(5) series(2) by (auto simp: seriesReleases_def releasesOf_def)
    from 2(2)[OF series(1) refl series(2) this] show ?thesis using series by (auto simp: Un_ac)
  next
    case subsumed
    have "releasesOf c \<subseteq> E" using 2(5) subsumed(3) by (auto simp: seriesReleases_def releasesOf_def)
    then show ?thesis using 2(3)[OF subsumed(1) refl _ subsumed(3) 2(5)] subsumed by auto
  next
    case exact
    from 2(4)[OF exact(1) refl _ exact(3), of "E \<union> releasesOf c"] show ?thesis using exact 2(5) by (auto simp: Un_ac)
  qed
qed simp

section \<open>The order of claims\<close>

lemma claimKey_inject: "claimKey c = claimKey d \<longleftrightarrow> c = d"
  by (cases c; cases d) (auto simp: claimKey_def)

definition claimOrder :: "SupportedPythonClaimV1 \<Rightarrow> nat \<times> nat \<times> bool \<times> nat" where
  "claimOrder c = (pcMajor c, pcMinor c, pcExact c, if pcExact c then pcPatch c else 0)"

interpretation claims: three_way compareSupportedPythonClaimsV1 claimOrder
  by unfold_locales (auto simp: compareSupportedPythonClaimsV1_def claimOrder_def less_prod_def)

lemma claimOrder_wf: "wfClaim c \<Longrightarrow> claimOrder c = claimKey c"
  by (simp add: claimOrder_def claimKey_def wfClaim_def)

lemma compare_key:
  assumes "wfClaim c" "wfClaim d"
  shows "compareSupportedPythonClaimsV1 c d < 0 \<longleftrightarrow> claimKey c < claimKey d" "compareSupportedPythonClaimsV1 c d = 0 \<longleftrightarrow> claimKey c = claimKey d"
  using claims.less[of c d] claims.equal[of c d] assms by (simp_all add: claimOrder_wf)

lemma normalizeLoop_sorted:
  assumes "sorted (map claimKey cs)" "\<And>p. previous = Some p \<Longrightarrow> \<forall>c \<in> set cs. claimKey p \<le> claimKey c"
  shows "sorted_wrt (<) (map claimKey (normalizeLoop previous ms cs))
    \<and> set (normalizeLoop previous ms cs) \<subseteq> set cs
    \<and> (\<forall>p. previous = Some p \<longrightarrow> (\<forall>c \<in> set (normalizeLoop previous ms cs). claimKey p < claimKey c))"
  using assms
proof (induction previous ms cs rule: normalizeLoop.induct)
  case (2 previous ms c rest)
  have sorted: "sorted (map claimKey rest)" "\<And>p. Some c = Some p \<Longrightarrow> \<forall>d \<in> set rest. claimKey p \<le> claimKey d" using 2(5) by auto
  consider (dup) "previous = Some c" | (series) "previous \<noteq> Some c" "\<not> pcExact c"
    | (subsumed) "previous \<noteq> Some c" "pcExact c" "(pcMajor c, pcMinor c) \<in> set ms"
    | (exact) "previous \<noteq> Some c" "pcExact c" "(pcMajor c, pcMinor c) \<notin> set ms" by blast
  then show ?case
  proof cases
    case dup
    then show ?thesis using 2(1)[OF dup sorted] by auto
  next
    case series
    have "claimKey p < claimKey c" if "previous = Some p" for p
      using 2(6)[OF that] that series(1) claimKey_inject by (auto simp: le_less)
    then show ?thesis using 2(2)[OF series(1) refl series(2) sorted] series by (fastforce intro: less_trans)
  next
    case subsumed
    have "claimKey p < claimKey c" if "previous = Some p" for p
      using 2(6)[OF that] that subsumed(1) claimKey_inject by (auto simp: le_less)
    then show ?thesis using 2(3)[OF subsumed(1) refl _ subsumed(3) sorted] subsumed by (fastforce intro: less_trans)
  next
    case exact
    have "claimKey p < claimKey c" if "previous = Some p" for p
      using 2(6)[OF that] that exact(1) claimKey_inject by (auto simp: le_less)
    then show ?thesis using 2(4)[OF exact(1) refl _ exact(3) sorted] exact by (fastforce intro: less_trans)
  qed
qed simp

lemma normalizeLoop_irredundant:
  assumes "sorted (map claimKey cs)" "\<And>p. previous = Some p \<Longrightarrow> \<not> pcExact p \<Longrightarrow> (pcMajor p, pcMinor p) \<in> set ms"
    "r \<in> set (normalizeLoop previous ms cs)" "pcExact r"
  shows "(pcMajor r, pcMinor r) \<notin> set ms \<and> (\<forall>c \<in> set cs. \<not> pcExact c \<longrightarrow> \<not> sameSupportedPythonMinorV1 c r)"
  using assms(1-3)
proof (induction previous ms cs rule: normalizeLoop.induct)
  case (2 previous ms c rest)
  have sorted: "sorted (map claimKey rest)" "\<forall>d \<in> set rest. claimKey c \<le> claimKey d" using 2(5) by auto
  note same = sameSupportedPythonMinorV1_def
  consider (dup) "previous = Some c" | (series) "previous \<noteq> Some c" "\<not> pcExact c"
    | (subsumed) "previous \<noteq> Some c" "pcExact c" "(pcMajor c, pcMinor c) \<in> set ms"
    | (exact) "previous \<noteq> Some c" "pcExact c" "(pcMajor c, pcMinor c) \<notin> set ms" by blast
  then show ?case
  proof cases
    case dup
    then show ?thesis using 2(1)[OF dup sorted(1)] 2(6,7) by (auto simp: same)
  next
    case series
    then have "r \<in> set (normalizeLoop (Some c) ((pcMajor c, pcMinor c) # ms) rest)" using 2(7) assms(4) by auto
    then show ?thesis using 2(2)[OF series(1) refl series(2) sorted(1)] series(2) by (auto simp: same)
  next
    case subsumed
    then show ?thesis using 2(3)[OF subsumed(1) refl _ subsumed(3) sorted(1)] 2(7) by (auto simp: same)
  next
    case exact
    show ?thesis
    proof (cases "r = c")
      case True
      have "\<not> sameSupportedPythonMinorV1 d r" if "d \<in> set rest" "\<not> pcExact d" for d
        using sorted(2) that True exact(2) by (auto simp: same claimKey_def)
      then show ?thesis using True exact by auto
    next
      case False
      then show ?thesis using 2(4)[OF exact(1) refl _ exact(3) sorted(1)] 2(7) exact by auto
    qed
  qed
qed simp

section \<open>Normal forms\<close>

definition normalClaims :: "SupportedPythonClaimV1 list \<Rightarrow> bool" where
  "normalClaims cs \<longleftrightarrow> list_all wfClaim cs \<and> sorted_wrt (<) (map claimKey cs)
     \<and> (\<forall>c \<in> set cs. \<forall>d \<in> set cs. c \<noteq> d \<longrightarrow> releasesOf c \<inter> releasesOf d = {})"

lemma releases_disjoint:
  assumes "wfClaim c" "wfClaim d"
  shows "releasesOf c \<inter> releasesOf d = {} \<longleftrightarrow>
    \<not> sameSupportedPythonMinorV1 c d \<or> pcExact c \<and> pcExact d \<and> pcPatch c \<noteq> pcPatch d"
  by (auto simp: releasesOf_def sameSupportedPythonMinorV1_def)

lemma normalizeLoop_normal:
  assumes "list_all wfClaim cs"
  shows "normalClaims (normalizeLoop None [] (sortClaims cs))" "claimed (normalizeLoop None [] (sortClaims cs)) = claimed cs"
proof -
  let ?n = "normalizeLoop None [] (sortClaims cs)"
  have s: "sorted (map claimKey (sortClaims cs))" "set (sortClaims cs) = set cs" by (simp_all add: sortClaims_def)
  note n = normalizeLoop_sorted[OF s(1), of None "[]", simplified]
  have sub: "set ?n \<subseteq> set cs" using n s(2) by simp
  have "releasesOf c \<inter> releasesOf d = {}" if cd: "c \<in> set ?n" "d \<in> set ?n" "c \<noteq> d" for c d
  proof -
    have wf: "wfClaim c" "wfClaim d" using assms sub cd by (auto simp: list_all_iff)
    have ser: "\<not> sameSupportedPythonMinorV1 y x" if "x \<in> set ?n" "pcExact x" "y \<in> set ?n" "\<not> pcExact y" for x y
      using normalizeLoop_irredundant[OF s(1) _ that(1,2)] that(3,4) n by auto
    have "\<not> (pcExact c = pcExact d \<and> sameSupportedPythonMinorV1 c d \<and> pcPatch c = pcPatch d)"
      using cd(3) claimKey_inject[of c d] by (auto simp: claimKey_def sameSupportedPythonMinorV1_def)
    then show ?thesis
      using ser[of c d] ser[of d c] cd wf
      by (cases "pcExact c"; cases "pcExact d") (auto simp: releases_disjoint wfClaim_def sameSupportedPythonMinorV1_def)
  qed
  then show "normalClaims ?n" using n sub assms by (auto simp: normalClaims_def list_all_iff)
  show "claimed ?n = claimed cs"
    using normalizeLoop_claimed[of "[]" "{}" None "sortClaims cs"] s(2) by (simp add: seriesReleases_def claimed_def)
qed

lemma normalizeLoop_fix:
  assumes "sorted_wrt (<) (map claimKey cs)" "\<And>p. previous = Some p \<Longrightarrow> \<forall>c \<in> set cs. claimKey p < claimKey c"
    "\<forall>c \<in> set cs. pcExact c \<longrightarrow> (pcMajor c, pcMinor c) \<notin> set ms"
    "\<forall>c \<in> set cs. \<forall>d \<in> set cs. pcExact c \<and> \<not> pcExact d \<longrightarrow> \<not> sameSupportedPythonMinorV1 d c"
  shows "normalizeLoop previous ms cs = cs"
  using assms
proof (induction cs arbitrary: previous ms)
  case (Cons c cs)
  have "previous \<noteq> Some c" using Cons.prems(2) by fastforce
  moreover have "\<And>p. Some c = Some p \<Longrightarrow> \<forall>d \<in> set cs. claimKey p < claimKey d" using Cons.prems(1) by simp
  moreover have "\<forall>d \<in> set cs. pcExact d \<longrightarrow> (pcMajor d, pcMinor d) \<noteq> (pcMajor c, pcMinor c)" if "\<not> pcExact c"
    using Cons.prems(4) that by (auto simp: sameSupportedPythonMinorV1_def)
  ultimately show ?case
    using Cons.prems Cons.IH[of "Some c" "(pcMajor c, pcMinor c) # ms"] Cons.IH[of "Some c" ms]
    by (cases "pcExact c") (auto simp: Let_def)
qed simp

lemma normal_fix:
  assumes "normalClaims cs"
  shows "normalizeLoop None [] (sortClaims cs) = cs"
proof -
  have s: "sorted_wrt (<) (map claimKey cs)" using assms by (simp add: normalClaims_def)
  then have "sorted (map claimKey cs)" using strict_sorted_imp_sorted by blast
  then have sort: "sortClaims cs = cs" by (simp add: sortClaims_def sorted_sort_id sort_key_id_if_sorted)
  have "\<not> sameSupportedPythonMinorV1 d c" if "c \<in> set cs" "d \<in> set cs" "pcExact c" "\<not> pcExact d" for c d
    using assms that releases_disjoint[of d c] by (fastforce simp: normalClaims_def list_all_iff)
  then show ?thesis unfolding sort by (intro normalizeLoop_fix) (use s in auto)
qed

lemma parseClaims_strings: "list_all wfClaim cs \<Longrightarrow> parseClaims (map claimString cs) = Inr cs"
  by (induction cs) (auto simp: parse_claimString)

lemma parseClaims_wf: "parseClaims values = Inr cs \<Longrightarrow> list_all wfClaim cs"
  by (induction "values" arbitrary: cs) (auto simp: parse_wf_claim split: sum.splits)

section \<open>Intersections\<close>

lemma minor_before:
  assumes "sorted (map claimKey (d # ds))" "claimKey c < claimKey d" "\<not> sameSupportedPythonMinorV1 c d"
  shows "releasesOf c \<inter> claimed (d # ds) = {}"
proof -
  have "releasesOf c \<inter> releasesOf e = {}" if "e \<in> set (d # ds)" for e
  proof -
    have "claimKey d \<le> claimKey e" using assms(1) that by auto
    then show ?thesis using assms(2,3)
      by (auto simp: releasesOf_def claimKey_def sameSupportedPythonMinorV1_def less_prod_def less_eq_prod_def)
  qed
  then show ?thesis unfolding claimed_def by blast
qed

lemma patch_before:
  assumes "sorted (map claimKey (d # ds))" "pcExact c" "pcExact d" "sameSupportedPythonMinorV1 c d" "pcPatch c < pcPatch d"
  shows "releasesOf c \<inter> claimed (d # ds) = {}"
proof -
  have "releasesOf c \<inter> releasesOf e = {}" if "e \<in> set (d # ds)" for e
  proof -
    have "claimKey d \<le> claimKey e" using assms(1) that by auto
    then show ?thesis using assms(2-5)
      by (auto simp: releasesOf_def claimKey_def sameSupportedPythonMinorV1_def less_prod_def less_eq_prod_def)
  qed
  then show ?thesis unfolding claimed_def by blast
qed

lemma releases_subset: "sameSupportedPythonMinorV1 c d \<Longrightarrow> \<not> pcExact c \<Longrightarrow> releasesOf d \<subseteq> releasesOf c"
  by (auto simp: releasesOf_def sameSupportedPythonMinorV1_def)

lemma releases_equal:
  "sameSupportedPythonMinorV1 c d \<Longrightarrow> pcExact c = pcExact d \<Longrightarrow> pcExact c \<longrightarrow> pcPatch c = pcPatch d \<Longrightarrow> releasesOf c = releasesOf d"
  by (auto simp: releasesOf_def sameSupportedPythonMinorV1_def)

lemma same_sym: "sameSupportedPythonMinorV1 c d = sameSupportedPythonMinorV1 d c"
  by (auto simp: sameSupportedPythonMinorV1_def)

definition meets :: "string list \<Rightarrow> (nat \<times> nat \<times> nat) set \<Rightarrow> bool" where
  "meets out R \<longleftrightarrow> (\<exists>ks. out = map claimString ks \<and> list_all wfClaim ks \<and> claimed ks = R)"

lemma meets_Cons: "wfClaim c \<Longrightarrow> meets out R \<Longrightarrow> meets (claimString c # out) (releasesOf c \<union> R)"
  unfolding meets_def by (elim exE, rule_tac x = "c # ks" in exI) auto

lemma intersectLoop_meets:
  assumes "list_all wfClaim ls" "list_all wfClaim rs" "sorted (map claimKey ls)" "sorted (map claimKey rs)"
  shows "meets (intersectLoop ls rs) (claimed ls \<inter> claimed rs)"
  using assms
proof (induction ls rs rule: intersectLoop.induct)
  case (3 l ls r rs)
  have wf: "wfClaim l" "wfClaim r" "list_all wfClaim ls" "list_all wfClaim rs" "sorted (map claimKey ls)" "sorted (map claimKey rs)"
    using "3.prems" by auto
  let ?L = "claimed (l # ls)" and ?R = "claimed (r # rs)"
  note key = compare_key[OF wf(1,2)]
  consider (left) "\<not> sameSupportedPythonMinorV1 l r" "claimKey l < claimKey r" | (right) "\<not> sameSupportedPythonMinorV1 l r" "claimKey r < claimKey l"
    | (exactRight) "sameSupportedPythonMinorV1 l r" "\<not> pcExact l" "pcExact r" | (exactLeft) "sameSupportedPythonMinorV1 l r" "pcExact l" "\<not> pcExact r"
    | (equal) "sameSupportedPythonMinorV1 l r" "pcExact l = pcExact r" "pcExact l \<longrightarrow> pcPatch l = pcPatch r"
    | (less) "sameSupportedPythonMinorV1 l r" "pcExact l" "pcExact r" "pcPatch l < pcPatch r"
    | (greater) "sameSupportedPythonMinorV1 l r" "pcExact l" "pcExact r" "pcPatch r < pcPatch l"
    using claimKey_inject[of l r]
    by (cases "sameSupportedPythonMinorV1 l r"; cases "pcExact l"; cases "pcExact r"; cases "pcPatch l" "pcPatch r" rule: linorder_cases)
      (auto simp: sameSupportedPythonMinorV1_def neq_iff)
  then show ?case
  proof cases
    case left
    have "?L \<inter> ?R = claimed ls \<inter> ?R" using minor_before[OF "3.prems"(4) left(2,1)] by auto
    then show ?thesis using left key 3(1)[OF left(1)] "3.prems"(2,4) wf by simp
  next
    case right
    have "?L \<inter> ?R = ?L \<inter> claimed rs" using minor_before[OF "3.prems"(3) right(2)] right(1) same_sym by auto
    moreover have "\<not> claimKey l < claimKey r" using right(2) by simp
    ultimately show ?thesis using right key 3(2)[OF right(1)] "3.prems"(1,3) wf by simp
  next
    case exactRight
    have "?L \<inter> ?R = releasesOf r \<union> (?L \<inter> claimed rs)" using releases_subset[OF exactRight(1,2)] by auto
    then show ?thesis using exactRight meets_Cons[OF wf(2)] 3(3) "3.prems"(1,3) wf by simp
  next
    case exactLeft
    have "?L \<inter> ?R = releasesOf l \<union> (claimed ls \<inter> ?R)" using releases_subset[of r l] exactLeft same_sym by auto
    then show ?thesis using exactLeft meets_Cons[OF wf(1)] 3(4) "3.prems"(2,4) wf by simp
  next
    case equal
    have "?L \<inter> ?R = releasesOf l \<union> (claimed ls \<inter> claimed rs)" using releases_equal[OF equal] by auto
    moreover have "meets (intersectLoop ls rs) (claimed ls \<inter> claimed rs)"
      using equal 3(5,6) wf by (cases "pcExact l") auto
    ultimately show ?thesis using equal meets_Cons[OF wf(1)] by (cases "pcExact l") auto
  next
    case less
    have "?L \<inter> ?R = claimed ls \<inter> ?R" using patch_before[OF "3.prems"(4) less(2,3,1,4)] by auto
    then show ?thesis using less 3(7) "3.prems"(2,4) wf by simp
  next
    case greater
    have "?L \<inter> ?R = ?L \<inter> claimed rs" using patch_before[OF "3.prems"(3) greater(3,2)] greater same_sym by auto
    then show ?thesis using greater "3.IH"(8) "3.prems"(1,3) wf by simp
  qed
qed (auto simp: meets_def)

section \<open>Lists of texts\<close>

definition claimedBy :: "string list \<Rightarrow> (nat \<times> nat \<times> nat) set" where
  "claimedBy values = (case parseClaims values of Inl _ \<Rightarrow> {} | Inr cs \<Rightarrow> claimed cs)"

definition normalTexts :: "string list \<Rightarrow> bool" where
  "normalTexts out \<longleftrightarrow> (\<exists>cs. out = map claimString cs \<and> normalClaims cs)"

lemma normalClaims_wf: "normalClaims cs \<Longrightarrow> list_all wfClaim cs"
  by (simp add: normalClaims_def)

lemma Normalize_Inr:
  assumes "NormalizeSupportedPythonClaimsV1 values = Inr out"
  obtains cs where "out = map claimString cs" "normalClaims cs" "claimed cs = claimedBy values"
proof -
  obtain cs where cs: "parseClaims values = Inr cs" "out = map claimString (normalizeLoop None [] (sortClaims cs))"
    using assms by (auto simp: NormalizeSupportedPythonClaimsV1_def split: sum.splits)
  note n = normalizeLoop_normal[OF parseClaims_wf[OF cs(1)]]
  show ?thesis using that[OF cs(2) n(1)] n(2) cs(1) by (simp add: claimedBy_def)
qed

lemma claimedBy_strings: "list_all wfClaim cs \<Longrightarrow> claimedBy (map claimString cs) = claimed cs"
  by (simp add: claimedBy_def parseClaims_strings)

lemma Normalize_fix: "normalClaims cs \<Longrightarrow> NormalizeSupportedPythonClaimsV1 (map claimString cs) = Inr (map claimString cs)"
  by (simp add: NormalizeSupportedPythonClaimsV1_def parseClaims_strings normalClaims_wf normal_fix)

lemma reparse_strings: "list_all wfClaim cs \<Longrightarrow> map reparse (map claimString cs) = cs"
  by (induction cs) (auto simp: reparse_claimString)

lemma Intersect_meets:
  assumes "normalClaims ls" "normalClaims rs"
  shows "\<exists>out. NormalizeSupportedPythonClaimsV1 (intersectLoop ls rs) = Inr out \<and> normalTexts out \<and> claimedBy out = claimed ls \<inter> claimed rs"
proof -
  have "sorted (map claimKey ls)" "sorted (map claimKey rs)"
    using assms strict_sorted_imp_sorted by (auto simp: normalClaims_def)
  then obtain ks where ks: "intersectLoop ls rs = map claimString ks" "list_all wfClaim ks" "claimed ks = claimed ls \<inter> claimed rs"
    using intersectLoop_meets[OF normalClaims_wf[OF assms(1)] normalClaims_wf[OF assms(2)]] unfolding meets_def by blast
  note n = normalizeLoop_normal[OF ks(2)]
  show ?thesis
    using n ks by (auto simp: NormalizeSupportedPythonClaimsV1_def parseClaims_strings normalTexts_def claimedBy_strings normalClaims_wf)
qed

lemma Intersect_Inr:
  assumes "NormalizeSupportedPythonClaimsV1 left = Inr ls" "NormalizeSupportedPythonClaimsV1 right = Inr rs"
  shows "\<exists>out. IntersectSupportedPythonClaimsV1 left right = Inr out \<and> normalTexts out \<and> claimedBy out = claimedBy left \<inter> claimedBy right"
proof -
  obtain l where l: "ls = map claimString l" "normalClaims l" "claimed l = claimedBy left" using Normalize_Inr[OF assms(1)] .
  obtain r where r: "rs = map claimString r" "normalClaims r" "claimed r = claimedBy right" using Normalize_Inr[OF assms(2)] .
  have "IntersectSupportedPythonClaimsV1 left right = NormalizeSupportedPythonClaimsV1 (intersectLoop l r)"
    using assms l(1,2) r(1,2) normalClaims_wf by (simp add: IntersectSupportedPythonClaimsV1_def reparse_strings del: map_map)
  then show ?thesis using Intersect_meets[OF l(2) r(2)] l(3) r(3) by simp
qed

end
