(* ===== verification/PythonPackageProofs.thy ===== *)
theory PythonPackageProofs
  imports PythonVersionProofs
begin

text \<open>
  The decimal text of a release and the equality specifiers built from it, for the package
  requirements of \<open>src/internal/providers/python/version.go\<close>: parsing such a text gives the
  release back, and the specifiers \<open>==1.2\<close> and \<open>==1.2.*\<close> reach the constraint as an exact
  release and as a prefix.
\<close>

section \<open>The text of a release\<close>

definition versionText :: "nat list \<Rightarrow> string" where
  "versionText r = joinWith ''.'' (map formatUint r)"

lemma versionText_simps [simp]:
  "versionText [] = []" "versionText [x] = formatUint x"
  "versionText (x # y # ys) = formatUint x @ CHR ''.'' # versionText (y # ys)"
  by (simp_all add: versionText_def)

definition versionChar :: "char \<Rightarrow> bool" where
  "versionChar c \<longleftrightarrow> isDigit c \<or> c = CHR ''.''"

lemma versionText_chars: "list_all versionChar (versionText r)"
proof (induction r rule: induct_list012)
  case (2 x)
  then show ?case using formatUint_isDigit[of x] by (auto simp: list_all_iff versionChar_def)
next
  case (3 x y zs)
  then show ?case using formatUint_isDigit[of x] by (auto simp: list_all_iff versionChar_def)
qed simp

lemma versionText_avoids: "\<not> versionChar c \<Longrightarrow> c \<notin> set (versionText r)"
  using versionText_chars[of r] by (auto simp: list_all_iff)

lemma versionText_plain: "plainText (versionText r)"
  using versionText_chars[of r] by (auto simp: list_all_iff plainText_def versionChar_def isDigit_def)

lemma versionText_head:
  assumes "r \<noteq> []"
  obtains c cs where "versionText r = c # cs" "isDigit c"
proof -
  obtain x ys where r: "r = x # ys" using assms by (cases r) auto
  obtain c cs where c: "formatUint x = c # cs" using formatUint_nonempty[of x] by (cases "formatUint x") auto
  then have "isDigit c" using formatUint_isDigit[of x] by simp
  moreover have "\<exists>cs. versionText r = c # cs" using r c by (cases ys) auto
  ultimately show ?thesis using that by blast
qed

lemma splitOn_versionText: "r \<noteq> [] \<Longrightarrow> splitOn (CHR ''.'') (versionText r) = map formatUint r"
proof (induction r rule: induct_list012)
  case (2 x)
  then show ?case using formatUint_isDigit[of x] by (intro splitOn_absent[THEN trans]) (auto simp: list_all_iff isDigit_def)
next
  case (3 x y zs)
  moreover have "CHR ''.'' \<notin> set (formatUint x)" using formatUint_isDigit[of x] by (auto simp: list_all_iff isDigit_def)
  ultimately show ?case by (simp add: splitOn_join del: splitOn.simps)
qed simp

lemma releaseParts_format: "list_all (\<lambda>x. x \<le> maxIntValue) r \<Longrightarrow> releaseParts (map formatUint r) = Some r"
  by (induction r) (simp_all add: atoi_formatUint maxInt_def maxIntValue_def)

lemma parse_versionText:
  assumes "r \<noteq> []" "list_all (\<lambda>x. x \<le> maxIntValue) r"
  shows "parseReleaseVersion (versionText r) = Some r"
proof -
  have "CHR ''!'' \<notin> set (versionText r)" "CHR ''+'' \<notin> set (versionText r)"
    by (intro versionText_avoids; simp add: versionChar_def isDigit_def)+
  moreover from this have "dropWhile (\<lambda>x. x \<noteq> CHR ''!'') (versionText r) = []" by auto
  ultimately have "cutOn (CHR ''!'') (versionText r) = None" and all: "takeWhile (\<lambda>x. x \<noteq> CHR ''+'') (versionText r) = versionText r"
    by (simp_all only: cutOn_def list.case) (auto simp: takeWhile_eq_all_conv)
  moreover have "releaseParts (splitOn (CHR ''.'') (takeWhile (\<lambda>x. x \<noteq> CHR ''+'') (versionText r))) = Some r"
    unfolding all using assms by (simp add: splitOn_versionText releaseParts_format)
  ultimately show ?thesis by (simp add: parseReleaseVersion_def trimSpace_plain versionText_plain Let_def)
qed

section \<open>Equality specifiers\<close>

text \<open>The specifiers \<open>==r\<close> and \<open>==r.*\<close>.\<close>

definition equalitySpecifier :: "nat list \<Rightarrow> bool \<Rightarrow> string" where
  "equalitySpecifier r wildcard = ''=='' @ versionText r @ (if wildcard then ''.*'' else [])"

lemma equalitySpecifier_plain: "plainText (equalitySpecifier r wildcard)"
  using versionText_plain[of r] by (simp add: equalitySpecifier_def plainText_def)

lemma split_equality:
  assumes "r \<noteq> []"
  shows "splitVersionSpecifier (equalitySpecifier r wildcard) = Some (''=='', versionText r @ (if wildcard then ''.*'' else []))"
proof -
  obtain c cs where c: "versionText r = c # cs" "isDigit c" using versionText_head[OF assms] .
  have "c \<noteq> CHR ''=''" using c(2) by (auto simp: isDigit_def)
  moreover have "plainText (c # cs @ (if wildcard then ''.*'' else []))" using versionText_plain[of r] c(1) by (simp add: plainText_def)
  ultimately show ?thesis
    by (simp add: splitVersionSpecifier_def equalitySpecifier_def specifierOperators_def hasPrefix_def c(1) trimSpace_plain Let_def)
qed

lemma apply_equality:
  assumes "r \<noteq> []" "list_all (\<lambda>x. x \<le> maxIntValue) r"
  shows "applySpecifier c (equalitySpecifier r wildcard) = applyOperator c ''=='' r wildcard"
proof -
  have chars: "CHR ''+'' \<notin> set (versionText r)" "CHR ''*'' \<notin> set (versionText r)"
    by (intro versionText_avoids; simp add: versionChar_def isDigit_def)+
  have "\<not> hasSuffix (versionText r) ''.*''"
  proof
    assume "hasSuffix (versionText r) ''.*''"
    then have "CHR ''*'' \<in> set (drop (length (versionText r) - Suc (Suc 0)) (versionText r))" by (simp add: hasSuffix_def)
    then show False using chars(2) in_set_dropD by fast
  qed
  moreover have "hasSuffix (versionText r @ ''.*'') ''.*''" by (simp add: hasSuffix_def)
  moreover have "equalitySpecifier r wildcard \<noteq> []" by (simp add: equalitySpecifier_def)
  ultimately show ?thesis
    using chars assms
    by (cases wildcard) (simp_all add: applySpecifier_def trimSpace_plain equalitySpecifier_plain split_equality parse_versionText Let_def)
qed

section \<open>A list of specifiers\<close>

lemma splitOn_comma: "list_all (\<lambda>s. CHR '','' \<notin> set s) ss \<Longrightarrow> ss \<noteq> [] \<Longrightarrow> splitOn (CHR '','') (joinWith '','' ss) = ss"
  by (induction ss rule: induct_list012) (simp_all add: splitOn_join splitOn_absent del: splitOn.simps)

lemma equalitySpecifier_comma: "CHR '','' \<notin> set (equalitySpecifier r wildcard)"
  using versionText_avoids[of "CHR '',''" r] by (simp add: equalitySpecifier_def versionChar_def isDigit_def)

text \<open>When the constraint that the loop builds allows the release, the interval check does not object.\<close>

lemma versionSpecifiers_verdict:
  assumes "specifierLoop initialConstraint (splitOn (CHR '','') specifiers) = Some c" "trimSpace specifiers \<noteq> []"
    "representable c" "parseReleaseVersion version = Some v"
  shows "versionSpecifiersAllowVersion specifiers version = (allows c v version, True)"
proof -
  have "wfConstraint initialConstraint" by (simp add: wfConstraint_def initialConstraint_def)
  then have "bSet (cLower c)" using loop_wf[OF assms(1)] by (simp add: wfConstraint_def)
  then have "\<not> (pythonConstraintIntervalEmptyV1 c \<and> allows c v version)"
    using interval_empty_sound[of c v] assms(3) by (auto simp: allows_iff)
  then have "allows (c\<lparr>cUnsatisfiable := cUnsatisfiable c \<or> pythonConstraintIntervalEmptyV1 c\<rparr>) v version = allows c v version"
    by (auto simp: allows_iff)
  then show ?thesis using assms(1,2,4) by (simp add: versionSpecifiersAllowVersion_def parsePythonReleaseConstraintV1_def)
qed

definition equalityTexts :: "(nat list \<times> bool) list \<Rightarrow> string list" where
  "equalityTexts es = map (\<lambda>(e, wildcard). equalitySpecifier e wildcard) es"

lemma equalityTexts_joined: "es \<noteq> [] \<Longrightarrow> joinWith '','' (equalityTexts es) \<noteq> [] \<and> plainText (joinWith '','' (equalityTexts es))"
proof (induction es rule: induct_list012)
  case (2 x)
  then show ?case using equalitySpecifier_plain by (cases x) (simp add: equalityTexts_def equalitySpecifier_def)
next
  case (3 x y zs)
  then show ?case using equalitySpecifier_plain by (cases x) (simp add: equalityTexts_def equalitySpecifier_def plainText_def)
qed simp

text \<open>The verdict on a list of equality specifiers is that of the constraint built from them in turn.\<close>

fun equalityLoop :: "pythonReleaseConstraintV1 \<Rightarrow> (nat list \<times> bool) list \<Rightarrow> pythonReleaseConstraintV1" where
  "equalityLoop c [] = c"
| "equalityLoop c ((e, wildcard) # es) =
     (let (ok, d) = constrainPythonEqualityV1 c e wildcard in equalityLoop (if ok then d else d\<lparr>cUnsatisfiable := True\<rparr>) es)"

definition readable :: "nat list \<times> bool \<Rightarrow> bool" where
  "readable x \<longleftrightarrow> fst x \<noteq> [] \<and> list_all (\<lambda>x. x \<le> maxIntValue) (fst x)"

lemma equalityLoop_specifiers: "list_all readable es \<Longrightarrow> specifierLoop c (equalityTexts es) = Some (equalityLoop c es)"
  by (induction c es rule: equalityLoop.induct)
    (auto simp: equalityTexts_def readable_def apply_equality applyOperator_def Let_def split: prod.splits)

lemma package_verdict:
  assumes "es \<noteq> []" "list_all readable es" "representable (equalityLoop initialConstraint es)" "readable (r, w)"
  shows "packageVersionSpecifiersAllowVersion (joinWith '','' (equalityTexts es)) (versionText r)
    = (allows (equalityLoop initialConstraint es) r (versionText r), True)"
proof -
  let ?s = "joinWith '','' (equalityTexts es)"
  have loop: "arbitraryEqualityLoop version (equalityTexts es) = Inr (equalityTexts es)" for version
    using assms(2) unfolding equalityTexts_def
    by (induction es) (auto simp: readable_def trimSpace_plain equalitySpecifier_plain split_equality)
  have split: "splitOn (CHR '','') ?s = equalityTexts es"
    using assms(1) by (intro splitOn_comma) (auto simp: list_all_iff equalityTexts_def equalitySpecifier_comma)
  have texts: "equalityTexts es \<noteq> []" "?s \<noteq> []" "plainText ?s"
    using assms(1) equalityTexts_joined[of es] by (simp_all add: equalityTexts_def)
  have "packageVersionSpecifiersAllowVersion ?s (versionText r) = versionSpecifiersAllowVersion ?s (versionText r)"
    using texts(1) by (simp add: packageVersionSpecifiersAllowVersion_def split loop split: list.splits)
  also have "\<dots> = (allows (equalityLoop initialConstraint es) r (versionText r), True)"
    using assms(2-4) texts by (intro versionSpecifiers_verdict) (simp_all add: split equalityLoop_specifiers trimSpace_plain parse_versionText readable_def)
  finally show ?thesis .
qed

end
