(* ===== verification/PythonProperties.thy ===== *)
theory PythonProperties
  imports PythonSeriesProofs PythonClaimProofs PythonPackageProofs
begin

text \<open>
  The properties of Python release constraints and interpreter claims,
  \<open>src/internal/providers/python/version.go\<close> and \<open>src/internal/providers/python_claim.go\<close>.
\<close>

section \<open>Evaluation of samples\<close>

lemmas version_eval = parsePythonReleaseConstraintV1_def applySpecifier_def splitVersionSpecifier_def specifierOperators_def
  hasPrefix_def hasSuffix_def trimSpace_plain plainText_def parseReleaseVersion_def cutOn_def atoi_def isDigit_def maxInt_def Let_def
  applyOperator_def constrainPythonLowerV1_def constrainPythonUpperV1_def lowerBound_def upperBound_def initialConstraint_def
  pythonConstraintIntervalEmptyV1_def constrainPythonEqualityV1_def pythonExactReleaseMatchesPrefixV1_def
  pythonReleaseComponentV1_def releaseHasPrefix_def

definition sampleConstraint :: pythonReleaseConstraintV1 where
  "sampleConstraint = initialConstraint\<lparr>cLower := \<lparr>bVersion = [3, 8], bInclusive = True, bSet = True\<rparr>,
     cUpper := \<lparr>bVersion = [4], bInclusive = False, bSet = True\<rparr>\<rparr>"

lemma sample_constraint: "parsePythonReleaseConstraintV1 ''>=3.8,<4'' = Some sampleConstraint"
  by (simp add: version_eval sampleConstraint_def)

lemma sample_release: "parseReleaseVersion ''3.9.1'' = Some [3, 9, 1]"
  by (simp add: version_eval)

definition sampleSeries :: SupportedPythonClaimV1 where
  "sampleSeries = \<lparr>pcMajor = 3, pcMinor = 9, pcPatch = 0, pcExact = False\<rparr>"

lemma format_eval: "formatUint 3 = ''3''" "formatUint 9 = ''9''" "formatUint 1 = ''1''" "formatUint 8 = ''8''"
  by (simp_all add: formatUint.simps char_of_def bit_0)

lemma sample_claim: "ParseSupportedPythonClaimV1 ''3.9'' = Inr sampleSeries"
proof -
  have "claimString sampleSeries = ''3.9''" "wfClaim sampleSeries"
    by (simp_all add: claimString_def sampleSeries_def format_eval wfClaim_def maxInt_def)
  then show ?thesis using parse_claimString[of sampleSeries] by simp
qed

section \<open>Releases of a claim\<close>

lemma maxInt_nat: "int n \<le> maxInt \<longleftrightarrow> n \<le> maxIntValue"
  by (simp add: maxInt_def maxIntValue_def)

lemma releaseText_inject: "releaseText a b p = releaseText a b q \<Longrightarrow> p = q"
proof -
  assume "releaseText a b p = releaseText a b q"
  then have "formatUint p = formatUint q" by (simp add: pythonCanonicalInterpreterReleaseV1_def)
  then show "p = q" using digitsValue_formatUint by metis
qed

lemma exact_text: "pcExact p \<Longrightarrow> claimString p = releaseText (pcMajor p) (pcMinor p) (pcPatch p)"
  by (simp add: claimString_def pythonCanonicalInterpreterReleaseV1_def)

definition allowsRelease :: "pythonReleaseConstraintV1 \<Rightarrow> nat \<times> nat \<times> nat \<Rightarrow> bool" where
  "allowsRelease c r = (case r of (a, b, p) \<Rightarrow> allows c [a, b, p] (releaseText a b p))"

lemma exact_releases: "pcExact p \<Longrightarrow> releasesOf p = {(pcMajor p, pcMinor p, pcPatch p)}"
  by (auto simp: releasesOf_def)

lemma series_releases: "\<not> pcExact p \<Longrightarrow> releasesOf p = {(pcMajor p, pcMinor p, q) | q. True}"
  by (auto simp: releasesOf_def)

lemma pinned_not_covered:
  assumes "wfConstraint c" "cStrict c \<noteq> [] \<or> cEquality c \<noteq> None \<and> \<not> cEqualityPrefix c"
  shows "\<exists>q. \<not> allows c [a, b, q] (releaseText a b q)"
proof (rule ccontr)
  assume "\<not> ?thesis"
  then have all: "allows c [a, b, 0] (releaseText a b 0)" "allows c [a, b, 1] (releaseText a b 1)" by blast+
  show False
  proof (cases "cStrict c = []")
    case True
    then obtain e where e: "cEquality c = Some e" "\<not> cEqualityPrefix c" using assms(2) by auto
    then have "pythonCanonicalInterpreterPatchV1 e a b = Some 0" "pythonCanonicalInterpreterPatchV1 e a b = Some 1"
      using all unfolding canonicalPatch_iff by (auto simp: allows_iff equalityHolds_def equalTo_def)
    then show False by simp
  next
    case False
    then have "releaseText a b 0 = releaseText a b 1" using all by (auto simp: allows_iff strictOK_def)
    then show False using releaseText_inject[of a b 0 1] by simp
  qed
qed

section \<open>Properties\<close>

text \<open>
  The accumulated constraint means the conjunction of its specifiers. For a nonempty list of
  specifiers in the supported subset and an interpreter release (no nonzero component after
  the third), the check accepts the version exactly when every specifier, read on its own,
  accepts it: merging bounds, merging equalities and the early detection of contradictions
  lose nothing. The prefix of an equality must have a successor, that is, not end in the
  greatest integer.
\<close>

theorem specifiers_conjunction:
  assumes "parsePythonReleaseConstraintV1 specifiers = Some c" "trimSpace specifiers \<noteq> []" "representable c"
    "parseReleaseVersion version = Some v" "interpreterRelease v"
  shows "versionSpecifiersAllowVersion specifiers version
    = (\<forall>raw \<in> set (splitOn (CHR '','') specifiers). specifierHolds raw v version, True)"
  using parse_conjunction[OF assms] assms(1,4) by (simp add: versionSpecifiersAllowVersion_def)

theorem specifiers_conjunction_witness:
  "versionSpecifiersAllowVersion ''>=3.8,<4'' ''3.9.1''
    = (specifierHolds ''>=3.8'' [3, 9, 1] ''3.9.1'' \<and> specifierHolds ''<4'' [3, 9, 1] ''3.9.1'', True)"
proof -
  have "trimSpace ''>=3.8,<4'' \<noteq> []" by (simp add: trimSpace_plain plainText_def)
  moreover have "representable sampleConstraint" by (simp add: representable_def sampleConstraint_def initialConstraint_def)
  moreover have "interpreterRelease [3, 9, 1]" by (simp add: interpreterRelease_def)
  ultimately show ?thesis using specifiers_conjunction[OF sample_constraint _ _ sample_release] by simp
qed

text \<open>
  C29. The interval proof of coverage is exact. When \<open>PythonRequiresPythonCoversClaimV1\<close> returns
  an answer, the answer is true if and only if the constraint allows every release of the
  claim, each patch of a minor series included, although no patch is enumerated.
\<close>

theorem requires_python_covers:
  assumes "PythonRequiresPythonCoversClaimV1 requirement claim = Inr covered"
    "parsePythonReleaseConstraintV1 (trimSpace requirement) = Some c" "ParseSupportedPythonClaimV1 claim = Inr p"
  shows "covered \<longleftrightarrow> (\<forall>r \<in> releasesOf p. allowsRelease c r)"
proof (cases "pcExact p")
  case True
  then show ?thesis
    using assms by (simp add: PythonRequiresPythonCoversClaimV1_def exact_releases allowsRelease_def exact_text)
next
  case False
  note wf = parse_wf[OF assms(2)]
  have series: "(\<forall>r \<in> releasesOf p. allowsRelease c r) \<longleftrightarrow> (\<forall>q. allows c [pcMajor p, pcMinor p, q] (releaseText (pcMajor p) (pcMinor p) q))"
    using False by (auto simp: series_releases allowsRelease_def)
  show ?thesis
  proof (cases "cStrict c \<noteq> [] \<or> cEquality c \<noteq> None \<and> \<not> cEqualityPrefix c")
    case True
    then have "\<not> covered" using assms False by (auto simp: PythonRequiresPythonCoversClaimV1_def)
    then show ?thesis using pinned_not_covered[OF wf(1) True] series by blast
  next
    case free: False
    obtain succ where succ: "nextReleasePrefixV1 [pcMajor p, pcMinor p] = Some succ" "covered = coversSeries c (pcMajor p) (pcMinor p) succ"
      using assms False free by (auto simp: PythonRequiresPythonCoversClaimV1_def split: option.splits if_splits)
    show ?thesis unfolding succ(2) series using free by (intro coversSeries_iff wf succ(1)) auto
  qed
qed

lemma sample_covers: "PythonRequiresPythonCoversClaimV1 ''>=3.8,<4'' ''3.9'' = Inr True"
proof -
  have "coversSeries sampleConstraint 3 9 [3, 10]"
    by (simp add: coversSeries_def pythonConstraintIntervalV1_def narrowedInterval_def pythonIntervalEmptyV1_def Let_def sampleConstraint_def
        initialConstraint_def pythonExcludedSeriesPatchesV1_def map_filter_def)
  then show ?thesis
    using sample_constraint sample_claim
    by (simp add: PythonRequiresPythonCoversClaimV1_def trimSpace_plain plainText_def sampleSeries_def nextReleasePrefixV1_def maxIntValue_def
        sampleConstraint_def initialConstraint_def)
qed

theorem requires_python_covers_witness: "allowsRelease sampleConstraint (3, 9, 17)"
proof -
  have "parsePythonReleaseConstraintV1 (trimSpace ''>=3.8,<4'') = Some sampleConstraint"
    using sample_constraint by (simp add: trimSpace_plain plainText_def)
  from requires_python_covers[OF sample_covers this sample_claim] show ?thesis
    by (simp add: series_releases sampleSeries_def)
qed

text \<open>
  C30. The bounded search for an overlap is exact. When
  \<open>PythonRequiresPythonIntersectsClaimV1\<close> returns an answer, it is true if and only if the
  constraint allows some release of the claim whose patch is a representable integer; the
  search over a series stops after one more step than there are excluded patches.
\<close>

theorem requires_python_intersects:
  assumes "PythonRequiresPythonIntersectsClaimV1 requirement claim = Inr meeting"
    "parsePythonReleaseConstraintV1 (trimSpace requirement) = Some c" "ParseSupportedPythonClaimV1 claim = Inr p"
  shows "meeting \<longleftrightarrow> (\<exists>r \<in> releasesOf p. snd (snd r) \<le> maxIntValue \<and> allowsRelease c r)"
proof (cases "pcExact p")
  case True
  have "pcPatch p \<le> maxIntValue" using parse_wf_claim[OF assms(3)] by (simp add: wfClaim_def maxInt_nat)
  then show ?thesis
    using assms True by (simp add: PythonRequiresPythonIntersectsClaimV1_def exact_releases allowsRelease_def exact_text)
next
  case False
  have "meeting = pythonConstraintHasSeriesReleaseV1 c (pcMajor p) (pcMinor p)"
    using assms False by (auto simp: PythonRequiresPythonIntersectsClaimV1_def split: if_splits)
  then show ?thesis
    unfolding hasSeries_iff[OF parse_wf(1)[OF assms(2)] parse_bounded[OF assms(2)]]
    using False by (auto simp: series_releases allowsRelease_def)
qed

theorem requires_python_intersects_witness:
  "\<exists>q. q \<le> maxIntValue \<and> allowsRelease sampleConstraint (3, 9, q)"
proof -
  have c: "parsePythonReleaseConstraintV1 (trimSpace ''>=3.8,<4'') = Some sampleConstraint"
    using sample_constraint by (simp add: trimSpace_plain plainText_def)
  have "PythonRequiresPythonIntersectsClaimV1 ''>=3.8,<4'' ''3.9'' = Inr (pythonConstraintHasSeriesReleaseV1 sampleConstraint 3 9)"
    using c sample_claim by (simp add: PythonRequiresPythonIntersectsClaimV1_def sampleSeries_def nextReleasePrefixV1_def maxIntValue_def)
  moreover have "pythonConstraintHasSeriesReleaseV1 sampleConstraint 3 9"
    by (simp add: pythonConstraintHasSeriesReleaseV1_def sampleConstraint_def initialConstraint_def pythonMinimumSeriesPatchV1_def
        equalityStart_def pythonExcludedSeriesPatchesV1_def map_filter_def pythonCanonicalInterpreterReleaseV1_def allows_def
        aboveLower_def belowUpper_def)
  ultimately show ?thesis
    using requires_python_intersects[OF _ c sample_claim] by (auto simp: series_releases sampleSeries_def)
qed

text \<open>
  Normalization keeps the claimed releases and reaches a normal form: the result claims
  exactly the releases of the input, in strictly increasing order, with no two claims that
  share a release (so that no exact release of a claimed series remains), and it normalizes to
  itself.
\<close>

theorem normalize_claims:
  assumes "NormalizeSupportedPythonClaimsV1 given = Inr out"
  shows "claimedBy out = claimedBy given \<and> normalTexts out \<and> NormalizeSupportedPythonClaimsV1 out = Inr out"
proof -
  obtain cs where "out = map claimString cs" "normalClaims cs" "claimed cs = claimedBy given" using Normalize_Inr[OF assms] .
  then show ?thesis using claimedBy_strings normalClaims_wf Normalize_fix unfolding normalTexts_def by metis
qed

lemma sample_normalize: "NormalizeSupportedPythonClaimsV1 [claimString sampleSeries] = Inr [claimString sampleSeries]"
  using sample_claim by (simp add: NormalizeSupportedPythonClaimsV1_def claimString_def sampleSeries_def format_eval sortClaims_def)

theorem normalize_claims_witness: "normalTexts [claimString sampleSeries]"
  using normalize_claims[OF sample_normalize] by blast

text \<open>
  C31. The linear pass intersects. For two lists of valid claims, the intersection succeeds and
  its result is a normal form that claims exactly the releases claimed by both.
\<close>

theorem intersect_claims:
  assumes "NormalizeSupportedPythonClaimsV1 left = Inr ls" "NormalizeSupportedPythonClaimsV1 right = Inr rs"
  shows "\<exists>out. IntersectSupportedPythonClaimsV1 left right = Inr out \<and> normalTexts out \<and> claimedBy out = claimedBy left \<inter> claimedBy right"
  by (rule Intersect_Inr[OF assms])

theorem intersect_claims_witness:
  "\<exists>out. IntersectSupportedPythonClaimsV1 [claimString sampleSeries] [claimString sampleSeries] = Inr out
    \<and> claimedBy out = claimedBy [claimString sampleSeries]"
  using intersect_claims[OF sample_normalize sample_normalize] by auto

section \<open>Package versions\<close>

text \<open>
  C32. The same constraints serve package requirements, where releases may have more than three
  components. Take any release and any prefix of it, with components that are machine integers
  and a last component of the prefix below the largest one. The release satisfies the equality
  specifier with its own text, and it satisfies the prefix specifier. Whether it satisfies both
  together, in either order, depends on its length: the conjunction accepts it if and only if its
  components after the third are all zero.
\<close>

theorem package_equality_and_prefix:
  assumes "r \<noteq> []" "pre \<noteq> []" "list_all (\<lambda>x. x \<le> maxIntValue) (r @ pre)" "last pre < maxIntValue" "releaseHasPrefix r pre"
  shows "packageVersionSpecifiersAllowVersion (''=='' @ versionText r) (versionText r) = (True, True)
    \<and> packageVersionSpecifiersAllowVersion (''=='' @ versionText pre @ ''.*'') (versionText r) = (True, True)
    \<and> packageVersionSpecifiersAllowVersion (''=='' @ versionText r @ '',=='' @ versionText pre @ ''.*'') (versionText r)
        = (list_all (\<lambda>x. x = 0) (drop 3 r), True)
    \<and> packageVersionSpecifiersAllowVersion (''=='' @ versionText pre @ ''.*,=='' @ versionText r) (versionText r)
        = (list_all (\<lambda>x. x = 0) (drop 3 r), True)"
proof -
  have read: "readable (r, w)" "readable (pre, w)" for w using assms(1-3) by (simp_all add: readable_def)
  have succ: "nextReleasePrefixV1 pre = Some (butlast pre @ [last pre + 1])" using assms(2,4) by (simp add: nextReleasePrefixV1_def)
  have match: "pythonExactReleaseMatchesPrefixV1 r pre \<longleftrightarrow> list_all (\<lambda>x. x = 0) (drop 3 r)"
    using exactMatchesPrefix[of r r pre] assms(5)
    by (auto simp: interpreterRelease_def releases.equal pythonExactReleaseMatchesPrefixV1_def)
  have lower: "aboveLower (cLower initialConstraint) r" "belowUpper (cUpper initialConstraint) r"
    using initial_allows[of r] by (simp_all add: allows_iff)
  have verdict: "packageVersionSpecifiersAllowVersion (joinWith '','' (equalityTexts es)) (versionText r) = (b, True)"
    if "es \<noteq> []" "list_all readable es" "representable (equalityLoop initialConstraint es)"
      "allows (equalityLoop initialConstraint es) r (versionText r) = b" for es b
    using package_verdict[OF that(1-3) read(1)] that(4) by simp
  note eval = constrainPythonEqualityV1_def initialConstraint_def representable_def allows_def releases.equal assms(5) succ match
    lower[unfolded initialConstraint_def, simplified] read
  have "packageVersionSpecifiersAllowVersion (joinWith '','' (equalityTexts [(r, False)])) (versionText r) = (True, True)"
    by (rule verdict) (simp_all add: eval)
  moreover have "packageVersionSpecifiersAllowVersion (joinWith '','' (equalityTexts [(pre, True)])) (versionText r) = (True, True)"
    by (rule verdict) (simp_all add: eval)
  moreover have "packageVersionSpecifiersAllowVersion (joinWith '','' (equalityTexts [(r, False), (pre, True)])) (versionText r)
      = (list_all (\<lambda>x. x = 0) (drop 3 r), True)"
    by (rule verdict) (simp_all add: eval)
  moreover have "packageVersionSpecifiersAllowVersion (joinWith '','' (equalityTexts [(pre, True), (r, False)])) (versionText r)
      = (list_all (\<lambda>x. x = 0) (drop 3 r), True)"
    by (rule verdict) (simp_all add: eval)
  ultimately show ?thesis by (simp add: equalityTexts_def equalitySpecifier_def)
qed

theorem package_equality_and_prefix_witness:
  "packageVersionSpecifiersAllowVersion ''==1.2.3.4'' ''1.2.3.4'' = (True, True)
   \<and> packageVersionSpecifiersAllowVersion ''==1.2.*'' ''1.2.3.4'' = (True, True)
   \<and> packageVersionSpecifiersAllowVersion ''==1.2.3.4,==1.2.*'' ''1.2.3.4'' = (False, True)"
proof -
  have digits: "formatUint 1 = ''1''" "formatUint 2 = ''2''" "formatUint 3 = ''3''" "formatUint 4 = ''4''"
    by (simp_all add: formatUint.simps char_of_def bit_0)
  have "releaseHasPrefix [1, 2, 3, 4] [1, 2]" by (simp add: releaseHasPrefix_def pythonReleaseComponentV1_def upt_rec)
  then show ?thesis
    using package_equality_and_prefix[of "[1, 2, 3, 4]" "[1, 2]"] digits by (simp add: maxIntValue_def)
qed

end
