(* ===== verification/GoSha256.thy ===== *)
theory GoSha256
  imports GoText "HOL-Library.Word"
begin

text \<open>
  SHA-256 as Go's \<open>crypto/sha256\<close> computes it (FIPS 180-4), on byte strings. The modelled code
  uses it for content identities; the lemma shows that a digest has 32 bytes.
\<close>

unbundle bit_operations_syntax

definition roundConstants :: "32 word list" where
  "roundConstants =
     [0x428A2F98, 0x71374491, 0xB5C0FBCF, 0xE9B5DBA5, 0x3956C25B, 0x59F111F1,
      0x923F82A4, 0xAB1C5ED5, 0xD807AA98, 0x12835B01, 0x243185BE, 0x550C7DC3,
      0x72BE5D74, 0x80DEB1FE, 0x9BDC06A7, 0xC19BF174, 0xE49B69C1, 0xEFBE4786,
      0x0FC19DC6, 0x240CA1CC, 0x2DE92C6F, 0x4A7484AA, 0x5CB0A9DC, 0x76F988DA,
      0x983E5152, 0xA831C66D, 0xB00327C8, 0xBF597FC7, 0xC6E00BF3, 0xD5A79147,
      0x06CA6351, 0x14292967, 0x27B70A85, 0x2E1B2138, 0x4D2C6DFC, 0x53380D13,
      0x650A7354, 0x766A0ABB, 0x81C2C92E, 0x92722C85, 0xA2BFE8A1, 0xA81A664B,
      0xC24B8B70, 0xC76C51A3, 0xD192E819, 0xD6990624, 0xF40E3585, 0x106AA070,
      0x19A4C116, 0x1E376C08, 0x2748774C, 0x34B0BCB5, 0x391C0CB3, 0x4ED8AA4A,
      0x5B9CCA4F, 0x682E6FF3, 0x748F82EE, 0x78A5636F, 0x84C87814, 0x8CC70208,
      0x90BEFFFA, 0xA4506CEB, 0xBEF9A3F7, 0xC67178F2]"

definition initialHash :: "32 word list" where
  "initialHash =
     [0x6A09E667, 0xBB67AE85, 0x3C6EF372, 0xA54FF53A,
      0x510E527F, 0x9B05688C, 0x1F83D9AB, 0x5BE0CD19]"

definition rotr :: "nat \<Rightarrow> 32 word \<Rightarrow> 32 word" where
  "rotr n w = drop_bit n w OR push_bit (32 - n) w"

text \<open>The padded message and its blocks of sixteen big-endian words.\<close>

definition bigEndian :: "nat \<Rightarrow> nat \<Rightarrow> string" where
  "bigEndian width n = map (\<lambda>i. char_of (n div 256 ^ (width - 1 - i) mod 256)) [0..<width]"

definition padMessage :: "string \<Rightarrow> string" where
  "padMessage msg =
     msg @ [CHR 0x80] @ replicate ((119 - length msg mod 64) mod 64) (CHR 0x00) @ bigEndian 8 (8 * length msg mod 2 ^ 64)"

fun wordsOf :: "string \<Rightarrow> 32 word list" where
  "wordsOf (a # b # c # d # rest) =
     word_of_nat (((byteOf a * 256 + byteOf b) * 256 + byteOf c) * 256 + byteOf d) # wordsOf rest"
| "wordsOf _ = []"

function blocksOf :: "32 word list \<Rightarrow> 32 word list list" where
  "blocksOf ws = (if ws = [] then [] else take 16 ws # blocksOf (drop 16 ws))"
  by pat_completeness auto
termination by (relation "measure length") auto

declare blocksOf.simps [simp del]

text \<open>The message schedule, latest word first, and the rounds.\<close>

definition scheduleStep :: "32 word list \<Rightarrow> 32 word list" where
  "scheduleStep ws =
     (let w2 = ws ! 1; w7 = ws ! 6; w15 = ws ! 14; w16 = ws ! 15;
          s0 = rotr 7 w15 XOR rotr 18 w15 XOR drop_bit 3 w15;
          s1 = rotr 17 w2 XOR rotr 19 w2 XOR drop_bit 10 w2
      in (w16 + s0 + w7 + s1) # ws)"

definition schedule :: "32 word list \<Rightarrow> 32 word list" where
  "schedule block = rev ((scheduleStep ^^ 48) (rev block))"

record digestState =
  ha :: "32 word"
  hb :: "32 word"
  hc :: "32 word"
  h3 :: "32 word"
  he :: "32 word"
  hf :: "32 word"
  hg :: "32 word"
  hh :: "32 word"

definition roundStep :: "32 word \<times> 32 word \<Rightarrow> digestState \<Rightarrow> digestState" where
  "roundStep kw s =
     (let t1 = hh s + (rotr 6 (he s) XOR rotr 11 (he s) XOR rotr 25 (he s)) + ((he s AND hf s) XOR (NOT (he s) AND hg s)) + fst kw + snd kw;
          t2 = (rotr 2 (ha s) XOR rotr 13 (ha s) XOR rotr 22 (ha s)) + ((ha s AND hb s) XOR (ha s AND hc s) XOR (hb s AND hc s))
      in \<lparr>ha = t1 + t2, hb = ha s, hc = hb s, h3 = hc s, he = h3 s + t1, hf = he s, hg = hf s, hh = hg s\<rparr>)"

definition hashWords :: "digestState \<Rightarrow> 32 word list" where
  "hashWords s = [ha s, hb s, hc s, h3 s, he s, hf s, hg s, hh s]"

definition hashState :: "32 word list \<Rightarrow> digestState" where
  "hashState ws = \<lparr>ha = ws ! 0, hb = ws ! 1, hc = ws ! 2, h3 = ws ! 3, he = ws ! 4, hf = ws ! 5, hg = ws ! 6, hh = ws ! 7\<rparr>"

definition compressBlock :: "32 word list \<Rightarrow> 32 word list \<Rightarrow> 32 word list" where
  "compressBlock block hash =
     map (\<lambda>(x, y). x + y) (zip hash (hashWords (fold roundStep (zip roundConstants (schedule block)) (hashState hash))))"

definition sha256 :: "string \<Rightarrow> string" where
  "sha256 msg = concat (map (bigEndian 4 \<circ> unat) (fold compressBlock (blocksOf (wordsOf (padMessage msg))) initialHash))"

lemma compressBlock_length: "length hash = 8 \<Longrightarrow> length (compressBlock block hash) = 8"
  by (simp add: compressBlock_def hashWords_def)

lemma sha256_length: "length (sha256 msg) = 32"
proof -
  have "length hash = 8 \<Longrightarrow> length (fold compressBlock blocks hash) = 8" for blocks and hash :: "32 word list"
    by (induction blocks arbitrary: hash) (simp_all add: compressBlock_length)
  then have "length (fold compressBlock blocks initialHash) = 8" for blocks by (simp add: initialHash_def)
  moreover have "length (concat (map (bigEndian 4 \<circ> unat) ws)) = 4 * length ws" for ws :: "32 word list"
    by (induction ws) (simp_all add: bigEndian_def)
  ultimately show ?thesis by (simp add: sha256_def)
qed

end
