(* ===== verification/Canonical.thy ===== *)
theory Canonical
  imports GoSha256 "HOL-Library.Multiset"
begin

text \<open>
  The canonical JSON service of \<open>src/internal/canonical/canonical.go\<close>: the encoder of
  \<open>Marshal\<close>, the digest grammar and the identity tokens.

  \<open>Marshal\<close> walks a Go value by reflection. The values it can meet are the datatype
  \<open>goValue\<close>; pointers, slices and maps refer to a heap by address, where 0 is nil, so that
  shared and cyclic values are values of the model too. \<open>encoder.active\<close> is the list of the
  references being visited: \<open>leave\<close> always removes exactly what \<open>enter\<close> added, so the model
  passes the list down and needs no update on return. The encoder is total: every reference it
  follows is one that is not active, and the heap is finite. A reference to an address the heap
  does not hold cannot occur in Go and is the error \<open>Dangling\<close>. The heap holds one value per
  kind and address, so a pointer into the interior of another value (a struct and its first
  field at one address) has no counterpart in the model.
\<close>

section \<open>Values\<close>

type_synonym addr = nat

datatype kind = PointerKind | SliceKind | MapKind

datatype 'v structFieldInfo = StructFieldInfo (fieldName: string) (fieldExported: bool) (fieldTag: string) (fieldValue: 'v)

datatype goValue =
    Invalid
  | Interface "goValue option"
  | PointerTo addr
  | BoolValue bool
  | StringValue string
  | SliceValue addr nat
  | ArrayValue "goValue list"
  | MapValue bool addr
  | StructValue "goValue structFieldInfo list"
  | NumberValue
  | UnsupportedValue

text \<open>
  \<open>SliceValue a n\<close> is the slice of the first \<open>n\<close> elements at \<open>a\<close>; \<open>MapValue str a\<close> is the map
  at \<open>a\<close>, whose key type is a string type when \<open>str\<close>. The entries of a map are in the order in
  which \<open>MapKeys\<close> happens to return them.
\<close>

record heap =
  pointees :: "(addr \<times> goValue) list"
  arrays :: "(addr \<times> goValue list) list"
  maps :: "(addr \<times> (string \<times> goValue) list) list"

type_synonym visit = "kind \<times> addr"

datatype canonical_error =
    InvalidUTF8 string
  | InvalidKey string
  | InvalidFieldName string
  | UnsupportedKeyType string
  | UnsupportedNumber string
  | UnsupportedType string
  | Cycle string
  | DuplicateField string string
  | DuplicateTagOption string
  | UnsupportedTagOption string
  | FieldError string string canonical_error
  | InvalidDigest string
  | EmptyToken string
  | InvalidToken string string
  | Dangling addr

section \<open>Strings\<close>

text \<open>\<open>utf8.AppendRune\<close> and \<open>utf16.Encode\<close>.\<close>

definition byteChar :: "nat \<Rightarrow> char" where
  "byteChar b = char_of b"

definition encodeRune :: "nat \<Rightarrow> string" where
  "encodeRune r =
     (if r < 0x80 then [byteChar r]
      else if r < 0x800 then [byteChar (0xC0 + r div 64), byteChar (0x80 + r mod 64)]
      else if (0xD800 \<le> r \<and> r \<le> 0xDFFF) \<or> 0x10FFFF < r then [byteChar 0xEF, byteChar 0xBF, byteChar 0xBD]
      else if r < 0x10000 then
        [byteChar (0xE0 + r div 4096), byteChar (0x80 + r div 64 mod 64), byteChar (0x80 + r mod 64)]
      else
        [byteChar (0xF0 + r div 262144), byteChar (0x80 + r div 4096 mod 64),
         byteChar (0x80 + r div 64 mod 64), byteChar (0x80 + r mod 64)])"

definition utf16Rune :: "nat \<Rightarrow> nat list" where
  "utf16Rune r =
     (if r < 0xD800 \<or> (0xE000 \<le> r \<and> r < 0x10000) then [r]
      else if 0x10000 \<le> r \<and> r \<le> 0x10FFFF then [0xD800 + (r - 0x10000) div 1024, 0xDC00 + (r - 0x10000) mod 1024]
      else [runeError])"

definition utf16Units :: "string \<Rightarrow> nat list" where
  "utf16Units s = concat (map (utf16Rune \<circ> fst) (runes s))"

fun compareUnits :: "nat list \<Rightarrow> nat list \<Rightarrow> int" where
  "compareUnits [] [] = 0"
| "compareUnits [] (r # rs) = -1"
| "compareUnits (l # ls) [] = 1"
| "compareUnits (l # ls) (r # rs) = (if l < r then -1 else if l > r then 1 else compareUnits ls rs)"

definition compareUTF16 :: "string \<Rightarrow> string \<Rightarrow> int" where
  "compareUTF16 left right = compareUnits (utf16Units left) (utf16Units right)"

definition hexChar :: "nat \<Rightarrow> char" where
  "hexChar d = char_of (if d < 10 then 48 + d else 87 + d)"

definition writeRune :: "nat \<Rightarrow> string" where
  "writeRune char =
     (if char = 34 \<or> char = 92 then CHR 0x5C # encodeRune char
      else if char = 8 then [CHR 0x5C, CHR ''b'']
      else if char = 9 then [CHR 0x5C, CHR ''t'']
      else if char = 10 then [CHR 0x5C, CHR ''n'']
      else if char = 12 then [CHR 0x5C, CHR ''f'']
      else if char = 13 then [CHR 0x5C, CHR ''r'']
      else if char < 0x20 then [CHR 0x5C, CHR ''u'', CHR ''0'', CHR ''0'', hexChar (char div 16), hexChar (char mod 16)]
      else encodeRune char)"

definition writeString :: "string \<Rightarrow> string \<Rightarrow> canonical_error + string" where
  "writeString str path =
     (if \<not> validString str then Inl (InvalidUTF8 path)
      else Inr (CHR 0x22 # concat (map (writeRune \<circ> fst) (runes str)) @ [CHR 0x22]))"

section \<open>Struct fields\<close>

fun tagOptions :: "bool \<Rightarrow> string list \<Rightarrow> canonical_error + bool" where
  "tagOptions omitEmpty [] = Inr omitEmpty"
| "tagOptions omitEmpty (opt # rest) =
     (if opt = ''omitempty'' then (if omitEmpty then Inl (DuplicateTagOption opt) else tagOptions True rest)
      else Inl (UnsupportedTagOption opt))"

definition parseJSONTag :: "string \<Rightarrow> canonical_error + (string \<times> bool)" where
  "parseJSONTag tag =
     (let parts = splitOn (CHR '','') tag
      in case tagOptions False (tl parts) of
           Inl e \<Rightarrow> Inl e
         | Inr omitEmpty \<Rightarrow> Inr (hd parts, omitEmpty))"

definition mapEntries :: "heap \<Rightarrow> addr \<Rightarrow> (string \<times> goValue) list" where
  "mapEntries h a = (case map_of (maps h) a of None \<Rightarrow> [] | Some es \<Rightarrow> es)"

fun isEmptyValue :: "heap \<Rightarrow> goValue \<Rightarrow> bool" where
  "isEmptyValue h (ArrayValue vs) = (vs = [])"
| "isEmptyValue h (MapValue str a) = (a = 0 \<or> mapEntries h a = [])"
| "isEmptyValue h (SliceValue a n) = (a = 0 \<or> n = 0)"
| "isEmptyValue h (StringValue s) = (s = [])"
| "isEmptyValue h (BoolValue b) = (\<not> b)"
| "isEmptyValue h (Interface i) = (i = None)"
| "isEmptyValue h (PointerTo a) = (a = 0)"
| "isEmptyValue h v = False"

fun structFields :: "heap \<Rightarrow> string \<Rightarrow> string list \<Rightarrow> (string \<times> goValue) list \<Rightarrow> goValue structFieldInfo list \<Rightarrow>
    canonical_error + (string \<times> goValue) list" where
  "structFields h path seen acc [] = Inr acc"
| "structFields h path seen acc (info # rest) =
     (if \<not> fieldExported info then structFields h path seen acc rest
      else case parseJSONTag (fieldTag info) of
        Inl e \<Rightarrow> Inl (FieldError path (fieldName info) e)
      | Inr (tagName, omitEmpty) \<Rightarrow>
          (if tagName = ''-'' then structFields h path seen acc rest
           else let name = (if tagName = [] then fieldName info else tagName)
                in if \<not> validString name then Inl (InvalidFieldName path)
                   else if omitEmpty \<and> isEmptyValue h (fieldValue info) then structFields h path seen acc rest
                   else if name \<in> set seen then Inl (DuplicateField path name)
                   else structFields h path (name # seen) (acc @ [(name, fieldValue info)]) rest))"

definition sortNamed :: "(string \<times> 'v) list \<Rightarrow> (string \<times> 'v) list" where
  "sortNamed = sort_key (utf16Units \<circ> fst)"

section \<open>The encoder\<close>

definition enter :: "visit list \<Rightarrow> visit \<Rightarrow> string \<Rightarrow> canonical_error + visit list" where
  "enter active key path =
     (if snd key = 0 then Inr active
      else if key \<in> set active then Inl (Cycle path)
      else Inr (key # active))"

definition indexPath :: "string \<Rightarrow> nat \<Rightarrow> string" where
  "indexPath path index = path @ ''['' @ formatUint index @ '']''"

definition namePath :: "string \<Rightarrow> string \<Rightarrow> string" where
  "namePath path name = path @ ''.'' @ name"

text \<open>The references of a heap, and how many of them are not active: what ends the recursion.\<close>

definition heapKeys :: "heap \<Rightarrow> visit set" where
  "heapKeys h = Pair PointerKind ` fst ` set (pointees h) \<union> Pair SliceKind ` fst ` set (arrays h) \<union> Pair MapKind ` fst ` set (maps h)"

definition freshKeys :: "heap \<Rightarrow> visit list \<Rightarrow> nat" where
  "freshKeys h active = card (heapKeys h - set active)"

definition namedSize :: "(string \<times> goValue) list \<Rightarrow> nat" where
  "namedSize named = sum_list (map (\<lambda>(n, v). Suc (size v)) named)"

lemma enter_fresh:
  assumes "enter active key path = Inr active'" "snd key \<noteq> 0" "key \<in> heapKeys h"
  shows "freshKeys h active' < freshKeys h active"
proof -
  have "finite (heapKeys h)" by (simp add: heapKeys_def)
  moreover have "active' = key # active" "key \<notin> set active" using assms(1,2) by (auto simp: enter_def split: if_splits)
  ultimately show ?thesis using assms(3) unfolding freshKeys_def by (intro psubset_card_mono) auto
qed

lemma heapKeys_lookup:
  "map_of (pointees h) a = Some v \<Longrightarrow> (PointerKind, a) \<in> heapKeys h"
  "map_of (arrays h) a = Some vs \<Longrightarrow> (SliceKind, a) \<in> heapKeys h"
  "map_of (maps h) a = Some es \<Longrightarrow> (MapKind, a) \<in> heapKeys h"
  by (force simp: heapKeys_def dest: map_of_SomeD)+

lemma namedSize_sortNamed: "namedSize (sortNamed named) = namedSize named"
proof -
  have "mset (map (\<lambda>(n, v). Suc (size v)) (sortNamed named)) = mset (map (\<lambda>(n, v). Suc (size v)) named)"
    by (simp add: sortNamed_def)
  from arg_cong[OF this, of sum_mset] show ?thesis by (simp only: namedSize_def sum_mset_sum_list)
qed

lemma structFields_size:
  "structFields h path seen acc infos = Inr named \<Longrightarrow>
     namedSize named \<le> namedSize acc + size_list (size_structFieldInfo size) infos"
proof (induction infos arbitrary: seen acc)
  case (Cons info infos)
  then show ?case
    by (cases info) (fastforce simp: namedSize_def Let_def split: sum.splits if_splits prod.splits)
qed simp

lemma namedSize_simps [simp]:
  "namedSize [] = 0" "namedSize ((name, v) # named) = Suc (size v) + namedSize named"
  by (simp_all add: namedSize_def)

lemma structFields_sorted_size:
  "structFields h path [] [] infos = Inr named \<Longrightarrow>
     namedSize (sortNamed named) < Suc (size_list (size_structFieldInfo size) infos)"
  by (auto simp: namedSize_sortNamed dest!: structFields_size)

function writeValue :: "heap \<Rightarrow> visit list \<Rightarrow> string \<Rightarrow> goValue \<Rightarrow> canonical_error + string"
  and writeElems :: "heap \<Rightarrow> visit list \<Rightarrow> string \<Rightarrow> nat \<Rightarrow> goValue list \<Rightarrow> canonical_error + string"
  and writeNamed :: "heap \<Rightarrow> visit list \<Rightarrow> string \<Rightarrow> bool \<Rightarrow> (string \<times> goValue) list \<Rightarrow> canonical_error + string" where
  "writeValue h active path Invalid = Inr ''null''"
| "writeValue h active path (Interface None) = Inr ''null''"
| "writeValue h active path (Interface (Some v)) = writeValue h active path v"
| "writeValue h active path (PointerTo a) =
     (if a = 0 then Inr ''null''
      else case enter active (PointerKind, a) path of
        Inl e \<Rightarrow> Inl e
      | Inr active' \<Rightarrow>
          (case map_of (pointees h) a of None \<Rightarrow> Inl (Dangling a) | Some v \<Rightarrow> writeValue h active' path v))"
| "writeValue h active path (BoolValue b) = Inr (if b then ''true'' else ''false'')"
| "writeValue h active path (StringValue s) = writeString s path"
| "writeValue h active path (SliceValue a n) =
     (if a = 0 then Inr ''null''
      else case enter active (SliceKind, a) path of
        Inl e \<Rightarrow> Inl e
      | Inr active' \<Rightarrow>
          (case map_of (arrays h) a of
             None \<Rightarrow> Inl (Dangling a)
           | Some cells \<Rightarrow> map_sum (\<lambda>e. e) (\<lambda>out. ''['' @ out @ '']'') (writeElems h active' path 0 (take n cells))))"
| "writeValue h active path (ArrayValue vs) = map_sum (\<lambda>e. e) (\<lambda>out. ''['' @ out @ '']'') (writeElems h active path 0 vs)"
| "writeValue h active path (MapValue stringKeys a) =
     (if a = 0 then Inr ''null''
      else if \<not> stringKeys then Inl (UnsupportedKeyType path)
      else case enter active (MapKind, a) path of
        Inl e \<Rightarrow> Inl e
      | Inr active' \<Rightarrow>
          (case map_of (maps h) a of
             None \<Rightarrow> Inl (Dangling a)
           | Some entries \<Rightarrow>
               map_sum (\<lambda>e. e) (\<lambda>out. ''{'' @ out @ ''}'') (writeNamed h active' path True (sortNamed entries))))"
| "writeValue h active path (StructValue infos) =
     (case structFields h path [] [] infos of
        Inl e \<Rightarrow> Inl e
      | Inr named \<Rightarrow>
          map_sum (\<lambda>e. e) (\<lambda>out. ''{'' @ out @ ''}'') (writeNamed h active path True (sortNamed named)))"
| "writeValue h active path NumberValue = Inl (UnsupportedNumber path)"
| "writeValue h active path UnsupportedValue = Inl (UnsupportedType path)"
| "writeElems h active path index [] = Inr []"
| "writeElems h active path index (v # vs) =
     (case writeValue h active (indexPath path index) v of
        Inl e \<Rightarrow> Inl e
      | Inr out \<Rightarrow>
          map_sum (\<lambda>e. e) (\<lambda>rest. (if index > 0 then '','' else []) @ out @ rest) (writeElems h active path (Suc index) vs))"
| "writeNamed h active path first [] = Inr []"
| "writeNamed h active path first ((name, v) # named) =
     (if \<not> validString name then Inl (InvalidKey path)
      else case writeString name path of
        Inl e \<Rightarrow> Inl e
      | Inr key \<Rightarrow>
          (case writeValue h active (namePath path name) v of
             Inl e \<Rightarrow> Inl e
           | Inr out \<Rightarrow>
               map_sum (\<lambda>e. e) (\<lambda>rest. (if first then [] else '','') @ key @ '':'' @ out @ rest)
                 (writeNamed h active path False named)))"
  by pat_completeness auto

definition writeRank :: "heap \<times> visit list \<times> string \<times> goValue +
    heap \<times> visit list \<times> string \<times> nat \<times> goValue list +
    heap \<times> visit list \<times> string \<times> bool \<times> (string \<times> goValue) list \<Rightarrow> nat \<times> nat" where
  "writeRank call = (case call of
       Inl (h, active, path, v) \<Rightarrow> (freshKeys h active, size v)
     | Inr (Inl (h, active, path, index, vs)) \<Rightarrow> (freshKeys h active, size_list size vs)
     | Inr (Inr (h, active, path, first, named)) \<Rightarrow> (freshKeys h active, namedSize named))"

termination writeValue
proof (relation "inv_image (less_than <*lex*> less_than) writeRank", goal_cases)
  case 1 then show ?case by auto
qed (auto simp: writeRank_def enter_fresh heapKeys_lookup structFields_sorted_size)

definition Marshal :: "heap \<Rightarrow> goValue \<Rightarrow> canonical_error + string" where
  "Marshal h v = writeValue h [] ''$'' v"

section \<open>Digests and identities\<close>

definition ParseDigest :: "string \<Rightarrow> canonical_error + string" where
  "ParseDigest digest =
     (if \<not> hasPrefix digest ''sha256:'' \<or> length digest \<noteq> 7 + 32 * 2 then Inl (InvalidDigest digest)
      else if \<not> rangeAll (\<lambda>char. \<not> ((char < 48 \<or> char > 57) \<and> (char < 97 \<or> char > 102))) (drop 7 digest)
      then Inl (InvalidDigest digest)
      else Inr digest)"

definition validateDigest :: "string \<Rightarrow> canonical_error check" where
  "validateDigest digest = (case ParseDigest digest of Inl e \<Rightarrow> Some e | Inr _ \<Rightarrow> None)"

definition validateIdentityToken :: "string \<Rightarrow> string \<Rightarrow> canonical_error check" where
  "validateIdentityToken field token =
     (if token = [] then Some (EmptyToken field)
      else if \<not> rangeAll (\<lambda>char. \<not> ((char < 97 \<or> char > 122) \<and> (char < 48 \<or> char > 57) \<and> char \<noteq> 45)) token
      then Some (InvalidToken field token)
      else None)"

text \<open>The bytes that \<open>Sum\<close> writes to the hash.\<close>

definition identityMessage :: "string \<Rightarrow> string \<Rightarrow> string \<Rightarrow> string" where
  "identityMessage kind schema payload = ''reploy:'' @ kind @ '':'' @ schema @ [CHR 0x00] @ payload"

definition hexEncode :: "string \<Rightarrow> string" where
  "hexEncode bytes = concat (map (\<lambda>c. [hexChar (byteOf c div 16), hexChar (byteOf c mod 16)]) bytes)"

definition Sum :: "heap \<Rightarrow> string \<Rightarrow> string \<Rightarrow> goValue \<Rightarrow> canonical_error + string" where
  "Sum h kind schema v =
     (case validateIdentityToken ''kind'' kind of
        Some e \<Rightarrow> Inl e
      | None \<Rightarrow>
          (case validateIdentityToken ''schema'' schema of
             Some e \<Rightarrow> Inl e
           | None \<Rightarrow>
               (case Marshal h v of
                  Inl e \<Rightarrow> Inl e
                | Inr payload \<Rightarrow> Inr (''sha256:'' @ hexEncode (sha256 (identityMessage kind schema payload))))))"

end
