(* ===== verification/CanonicalText.thy ===== *)
theory CanonicalText
  imports Canonical
begin

text \<open>
  The text layer of the canonical encoding: UTF-8 and UTF-16 are injective on valid strings, and
  the escaped form of a string can be read back from the front of any continuation.
\<close>

section \<open>UTF-8 round trips\<close>

definition scalarRune :: "nat \<Rightarrow> bool" where
  "scalarRune r \<longleftrightarrow> r < 0xD800 \<or> (0xE000 \<le> r \<and> r \<le> 0x10FFFF)"

lemma byteOf_byteChar [simp]: "b < 256 \<Longrightarrow> byteOf (byteChar b) = b"
  by (simp add: byteChar_def)

lemma byteChar_byteOf [simp]: "byteChar (byteOf c) = c"
  by (simp add: byteChar_def)

lemma decodeRune_two:
  "0xC2 \<le> b0 \<Longrightarrow> b0 \<le> 0xDF \<Longrightarrow> contByte b1 \<Longrightarrow>
     decodeRune (byteChar b0 # byteChar b1 # s) = ((b0 - 0xC0) * 64 + (b1 - 0x80), 2)"
  by (simp add: decodeRune_def acceptSecond_def contByte_def)

lemma decodeRune_three:
  "0xE0 \<le> b0 \<Longrightarrow> b0 \<le> 0xEF \<Longrightarrow> acceptSecond b0 b1 \<Longrightarrow> b1 < 256 \<Longrightarrow> contByte b2 \<Longrightarrow>
     decodeRune (byteChar b0 # byteChar b1 # byteChar b2 # s) = ((b0 - 0xE0) * 4096 + (b1 - 0x80) * 64 + (b2 - 0x80), 3)"
  by (simp add: decodeRune_def contByte_def)

lemma decodeRune_four:
  "0xF0 \<le> b0 \<Longrightarrow> b0 \<le> 0xF4 \<Longrightarrow> acceptSecond b0 b1 \<Longrightarrow> b1 < 256 \<Longrightarrow> contByte b2 \<Longrightarrow> contByte b3 \<Longrightarrow>
     decodeRune (byteChar b0 # byteChar b1 # byteChar b2 # byteChar b3 # s) =
       ((b0 - 0xF0) * 262144 + (b1 - 0x80) * 4096 + (b2 - 0x80) * 64 + (b3 - 0x80), 4)"
  by (simp add: decodeRune_def contByte_def)

lemma decode_encodeRune:
  assumes "scalarRune r"
  shows "decodeRune (encodeRune r @ s) = (r, length (encodeRune r))"
proof -
  define q0 where "q0 = r mod 64"
  define q1 where "q1 = r div 64 mod 64"
  define q2 where "q2 = r div 4096 mod 64"
  have q: "q0 < 64" "q1 < 64" "q2 < 64" by (simp_all add: q0_def q1_def q2_def)
  have r1: "r = r div 64 * 64 + q0" by (simp add: q0_def)
  have "r div 64 = r div 64 div 64 * 64 + q1" by (simp add: q1_def)
  then have r2: "r = r div 4096 * 4096 + q1 * 64 + q0" using r1 by (simp add: div_mult2_eq[symmetric])
  have "r div 4096 = r div 4096 div 64 * 64 + q2" by (simp add: q2_def)
  then have r3: "r = r div 262144 * 262144 + q2 * 4096 + q1 * 64 + q0" using r2 by (simp add: div_mult2_eq[symmetric])
  consider "r < 0x80" | "0x80 \<le> r" "r < 0x800" | "0x800 \<le> r" "r < 0x10000" | "0x10000 \<le> r" "r \<le> 0x10FFFF"
    using assms by (fastforce simp: scalarRune_def)
  then show ?thesis
  proof cases
    case 1
    then show ?thesis by (simp add: encodeRune_def decodeRune_def)
  next
    case 2
    then have "2 \<le> r div 64" "r div 64 \<le> 31" by auto
    with 2 show ?thesis using decodeRune_two[of "0xC0 + r div 64" "0x80 + q0" s] r1 q
      by (simp add: encodeRune_def q0_def[symmetric] contByte_def)
  next
    case 3
    let ?a = "r div 4096"
    have "?a < 16" using 3 by auto
    moreover have "acceptSecond (0xE0 + ?a) (0x80 + q1)"
      using 3 assms r2 q by (auto simp: acceptSecond_def contByte_def scalarRune_def)
    ultimately show ?thesis
      using 3 assms decodeRune_three[of "0xE0 + ?a" "0x80 + q1" "0x80 + q0" s] r2 q
      by (auto simp: encodeRune_def q0_def[symmetric] q1_def[symmetric] contByte_def scalarRune_def)
  next
    case 4
    let ?a = "r div 262144"
    have "?a < 5" using 4 by auto
    moreover have "acceptSecond (0xF0 + ?a) (0x80 + q2)"
      using 4 r3 q by (auto simp: acceptSecond_def contByte_def)
    ultimately show ?thesis
      using 4 decodeRune_four[of "0xF0 + ?a" "0x80 + q2" "0x80 + q1" "0x80 + q0" s] r3 q
      by (auto simp: encodeRune_def q0_def[symmetric] q1_def[symmetric] q2_def[symmetric] contByte_def)
  qed
qed

text \<open>The four shapes of a decoding that succeeds.\<close>

lemma decodeRune_cases:
  assumes "decodeRune (c # s) = (r, w)" "\<not> (r = runeError \<and> w = 1)"
  obtains (one) "byteOf c < 0x80" "r = byteOf c" "w = 1"
  | (two) c1 t where "s = c1 # t" "0xC2 \<le> byteOf c" "byteOf c \<le> 0xDF" "contByte (byteOf c1)"
      "r = (byteOf c - 0xC0) * 64 + (byteOf c1 - 0x80)" "w = 2"
  | (three) c1 c2 t where "s = c1 # c2 # t" "0xE0 \<le> byteOf c" "byteOf c \<le> 0xEF"
      "acceptSecond (byteOf c) (byteOf c1)" "contByte (byteOf c2)"
      "r = (byteOf c - 0xE0) * 4096 + (byteOf c1 - 0x80) * 64 + (byteOf c2 - 0x80)" "w = 3"
  | (four) c1 c2 c3 t where "s = c1 # c2 # c3 # t" "0xF0 \<le> byteOf c" "byteOf c \<le> 0xF4"
      "acceptSecond (byteOf c) (byteOf c1)" "contByte (byteOf c2)" "contByte (byteOf c3)"
      "r = (byteOf c - 0xF0) * 262144 + (byteOf c1 - 0x80) * 4096 + (byteOf c2 - 0x80) * 64 + (byteOf c3 - 0x80)" "w = 4"
proof -
  consider "byteOf c < 0x80" | "0xC2 \<le> byteOf c" "byteOf c \<le> 0xDF" | "0xE0 \<le> byteOf c" "byteOf c \<le> 0xEF"
    | "0xF0 \<le> byteOf c" "byteOf c \<le> 0xF4"
  proof -
    have "decodeRune (c # s) = (runeError, 1)"
      if "\<not> byteOf c < 0x80" "\<not> (0xC2 \<le> byteOf c \<and> byteOf c \<le> 0xDF)" "\<not> (0xE0 \<le> byteOf c \<and> byteOf c \<le> 0xEF)"
        "\<not> (0xF0 \<le> byteOf c \<and> byteOf c \<le> 0xF4)"
      using that unfolding decodeRune_def by (simp only: list.map list.case if_False)
    then show thesis using assms that by auto
  qed
  then show thesis
  proof cases
    case 1
    then have "r = byteOf c" "w = 1" using assms(1) by (simp_all add: decodeRune_def)
    with 1 show ?thesis by (rule one)
  next
    case 2
    have accept: "acceptSecond (byteOf c) b \<longleftrightarrow> contByte b" for b using 2 by (simp add: acceptSecond_def)
    obtain c1 t where s: "s = c1 # t" using assms 2 by (cases s) (auto simp: decodeRune_def)
    have d: "decodeRune (c # s) = (if contByte (byteOf c1) then ((byteOf c - 0xC0) * 64 + (byteOf c1 - 0x80), 2) else (runeError, 1))"
      using 2 unfolding decodeRune_def s by (simp add: accept)
    then have "contByte (byteOf c1)" using assms by (auto split: if_splits)
    with assms(1) d s 2 show ?thesis by (intro two[of c1 t]) auto
  next
    case 3
    obtain c1 c2 t where s: "s = c1 # c2 # t" using assms 3
      by (cases s; cases "tl s") (auto simp: decodeRune_def)
    have d: "decodeRune (c # s) = (if acceptSecond (byteOf c) (byteOf c1) \<and> contByte (byteOf c2)
        then ((byteOf c - 0xE0) * 4096 + (byteOf c1 - 0x80) * 64 + (byteOf c2 - 0x80), 3) else (runeError, 1))"
      using 3 unfolding decodeRune_def s by simp
    then have "acceptSecond (byteOf c) (byteOf c1)" "contByte (byteOf c2)" using assms by (auto split: if_splits)
    with assms(1) d s 3 show ?thesis by (intro three[of c1 c2 t]) auto
  next
    case 4
    obtain c1 c2 c3 t where s: "s = c1 # c2 # c3 # t" using assms 4
      by (cases s; cases "tl s"; cases "tl (tl s)") (auto simp: decodeRune_def)
    have d: "decodeRune (c # s) = (if acceptSecond (byteOf c) (byteOf c1) \<and> contByte (byteOf c2) \<and> contByte (byteOf c3)
        then ((byteOf c - 0xF0) * 262144 + (byteOf c1 - 0x80) * 4096 + (byteOf c2 - 0x80) * 64 + (byteOf c3 - 0x80), 4)
        else (runeError, 1))"
      using 4 unfolding decodeRune_def s by simp
    then have "acceptSecond (byteOf c) (byteOf c1)" "contByte (byteOf c2)" "contByte (byteOf c3)"
      using assms by (auto split: if_splits)
    with assms(1) d s 4 show ?thesis by (intro four[of c1 c2 c3 t]) auto
  qed
qed

lemma digit64: "z < 64 \<Longrightarrow> (q * 64 + z) div 64 = q" "z < 64 \<Longrightarrow> (q * 64 + z) mod 64 = (z :: nat)"
  by simp_all

lemma byteChar_eq: "byteOf c = b \<Longrightarrow> byteChar b = c"
  by auto

lemma encode_decodeRune:
  assumes "decodeRune (c # s) = (r, w)" "\<not> (r = runeError \<and> w = 1)"
  shows "scalarRune r \<and> take w (c # s) = encodeRune r"
  using assms
proof (cases rule: decodeRune_cases)
  case one
  then show ?thesis by (simp add: scalarRune_def encodeRune_def)
next
  case (two c1 t)
  define x where "x = byteOf c - 0xC0"
  define y where "y = byteOf c1 - 0x80"
  have b: "byteOf c = 0xC0 + x" "byteOf c1 = 0x80 + y" "2 \<le> x" "x < 32" "y < 64"
    using two by (auto simp: x_def y_def contByte_def)
  then have r: "r = x * 64 + y" using two by simp
  then have "r div 64 = x" "r mod 64 = y" "0x80 \<le> r" "r < 0x800" using b by simp_all
  moreover have "byteChar (0xC0 + x) = c" "byteChar (0x80 + y) = c1" using b byteChar_eq by blast+
  ultimately show ?thesis using two by (simp add: scalarRune_def encodeRune_def)
next
  case (three c1 c2 t)
  define x where "x = byteOf c - 0xE0"
  define y where "y = byteOf c1 - 0x80"
  define z where "z = byteOf c2 - 0x80"
  have b: "byteOf c = 0xE0 + x" "byteOf c1 = 0x80 + y" "byteOf c2 = 0x80 + z" "x < 16" "y < 64" "z < 64"
    "x = 0 \<Longrightarrow> 32 \<le> y" "x = 13 \<Longrightarrow> y < 32"
    using three by (auto simp: x_def y_def z_def contByte_def acceptSecond_def split: if_splits)
  then have r: "r = x * 4096 + y * 64 + z" using three by simp
  then have "r = (x * 64 + y) * 64 + z" by simp
  then have "r div 64 = x * 64 + y" "r mod 64 = z"
    using digit64[OF b(6), of "x * 64 + y"] by (simp_all only:)
  moreover from this have "r div 4096 = x" "r div 64 mod 64 = y"
    using b div_mult2_eq[of r 64 64] by simp_all
  moreover have "0x800 \<le> r" using r b by (cases "x = 0") auto
  moreover have "r < 0x10000" using r b by simp
  moreover have "scalarRune r" using r b by (cases x "13 :: nat" rule: linorder_cases) (auto simp: scalarRune_def)
  moreover have "byteChar (0xE0 + x) = c" "byteChar (0x80 + y) = c1" "byteChar (0x80 + z) = c2" using b byteChar_eq by blast+
  ultimately show ?thesis using three(1,7) by (auto simp: scalarRune_def encodeRune_def)
next
  case (four c1 c2 c3 t)
  define x where "x = byteOf c - 0xF0"
  define y where "y = byteOf c1 - 0x80"
  define z where "z = byteOf c2 - 0x80"
  define u where "u = byteOf c3 - 0x80"
  have b: "byteOf c = 0xF0 + x" "byteOf c1 = 0x80 + y" "byteOf c2 = 0x80 + z" "byteOf c3 = 0x80 + u"
    "x < 5" "y < 64" "z < 64" "u < 64" "x = 0 \<Longrightarrow> 16 \<le> y" "x = 4 \<Longrightarrow> y < 16"
    using four by (auto simp: x_def y_def z_def u_def contByte_def acceptSecond_def split: if_splits)
  then have r: "r = x * 262144 + y * 4096 + z * 64 + u" using four by simp
  then have "r = ((x * 64 + y) * 64 + z) * 64 + u" by simp
  then have "r div 64 = (x * 64 + y) * 64 + z" "r mod 64 = u"
    using digit64[OF b(8), of "(x * 64 + y) * 64 + z"] by (simp_all only:)
  moreover have "r div 4096 = r div 64 div 64" using div_mult2_eq[of r 64 64] by simp
  ultimately have q: "r div 64 = (x * 64 + y) * 64 + z" "r mod 64 = u" "r div 4096 = x * 64 + y" "r div 64 mod 64 = z"
    using digit64[OF b(7), of "x * 64 + y"] by (simp_all only:)
  then have "r div 262144 = x" "r div 4096 mod 64 = y"
    using b div_mult2_eq[of r 4096 64] by simp_all
  moreover have "0x10000 \<le> r" using r b by (cases "x = 0") auto
  moreover have "r \<le> 0x10FFFF" using r b by (cases "x = 4") auto
  moreover have "byteChar (0xF0 + x) = c" "byteChar (0x80 + y) = c1" "byteChar (0x80 + z) = c2" "byteChar (0x80 + u) = c3"
    using b byteChar_eq by blast+
  ultimately show ?thesis using four(1,8) q by (auto simp: scalarRune_def encodeRune_def)
qed

section \<open>Prefix codes\<close>

text \<open>
  A code is a prefix code on the values that satisfy \<open>ok\<close> when a code word can be read back from
  the front of any continuation. Sequences of code words are then uniquely readable.
\<close>

fun sepBy :: "'b \<Rightarrow> 'b list list \<Rightarrow> 'b list" where
  "sepBy sep [] = []"
| "sepBy sep (x # xs) = x @ concat (map ((#) sep) xs)"

locale prefix_code =
  fixes code :: "'a \<Rightarrow> 'b list" and ok :: "'a \<Rightarrow> bool"
  assumes nonempty: "ok x \<Longrightarrow> code x \<noteq> []"
    and unique: "ok x \<Longrightarrow> ok y \<Longrightarrow> code x @ s = code y @ t \<Longrightarrow> x = y"
begin

lemma cancel: "ok x \<Longrightarrow> ok y \<Longrightarrow> code x @ s = code y @ t \<Longrightarrow> x = y \<and> s = t"
  using unique[of x y s t] by auto

lemma concat_inj:
  "list_all ok xs \<Longrightarrow> list_all ok ys \<Longrightarrow> concat (map code xs) = concat (map code ys) \<Longrightarrow> xs = ys"
proof (induction xs arbitrary: ys)
  case Nil
  then show ?case using nonempty by (cases ys) auto
next
  case (Cons x xs)
  obtain y ys' where ys: "ys = y # ys'" using Cons.prems nonempty[of x] by (cases ys) auto
  have ok: "ok x" "ok y" "list_all ok xs" "list_all ok ys'" using Cons.prems(1,2) ys by simp_all
  have "code x @ concat (map code xs) = code y @ concat (map code ys')" using Cons.prems(3) ys by simp
  from cancel[OF ok(1,2) this] Cons.IH[OF ok(3,4)] ys show ?case by blast
qed

lemma stops: "ok x \<Longrightarrow> code x @ s = c # t \<Longrightarrow> hd (code x) = c"
  using nonempty[of x] by (cases "code x") auto

lemma terminated:
  assumes stop: "\<And>x. ok x \<Longrightarrow> hd (code x) \<noteq> c"
  shows "list_all ok xs \<Longrightarrow> list_all ok ys \<Longrightarrow> concat (map code xs) @ c # s = concat (map code ys) @ c # t \<Longrightarrow>
    xs = ys \<and> s = t"
proof (induction xs arbitrary: ys)
  case Nil
  show ?case
  proof (cases ys)
    case (Cons y ys')
    then show ?thesis using Nil stop[of y] stops[of y "concat (map code ys') @ c # t" c s] by auto
  qed (use Nil in simp)
next
  case (Cons x xs)
  have x: "ok x" "list_all ok xs" using Cons.prems(1) by simp_all
  obtain y ys' where ys: "ys = y # ys'"
    using Cons.prems(3) x(1) stop[of x] stops[of x "concat (map code xs) @ c # s" c t] by (cases ys) auto
  have y: "ok y" "list_all ok ys'" using Cons.prems(2) ys by simp_all
  have "code x @ (concat (map code xs) @ c # s) = code y @ (concat (map code ys') @ c # t)" using Cons.prems(3) ys by simp
  from cancel[OF x(1) y(1) this] Cons.IH[OF x(2) y(2)] ys show ?case by blast
qed

text \<open>The rest of a separated sequence: each further code word follows a separator.\<close>

lemma separated_rest:
  assumes "sep \<noteq> c"
  shows "list_all ok xs \<Longrightarrow> list_all ok ys \<Longrightarrow>
    concat (map (\<lambda>x. sep # code x) xs) @ c # s = concat (map (\<lambda>x. sep # code x) ys) @ c # t \<Longrightarrow> xs = ys \<and> s = t"
proof (induction xs arbitrary: ys)
  case Nil
  then show ?case using assms by (cases ys) auto
next
  case (Cons x xs)
  let ?rest = "\<lambda>zs. concat (map (\<lambda>x. sep # code x) zs)"
  obtain y ys' where ys: "ys = y # ys'" using Cons.prems(3) assms by (cases ys) auto
  have ok: "ok x" "ok y" "list_all ok xs" "list_all ok ys'" using Cons.prems(1,2) ys by simp_all
  have "code x @ (?rest xs @ c # s) = code y @ (?rest ys' @ c # t)" using Cons.prems(3) ys by simp
  from cancel[OF ok(1,2) this] Cons.IH[OF ok(3,4)] ys show ?case by blast
qed

lemma separated:
  assumes "sep \<noteq> c" and stop: "\<And>x. ok x \<Longrightarrow> hd (code x) \<noteq> c" and ok: "list_all ok xs" "list_all ok ys"
    and eq: "sepBy sep (map code xs) @ c # s = sepBy sep (map code ys) @ c # t"
  shows "xs = ys \<and> s = t"
proof -
  have join: "sepBy sep (map code (z # zs)) = code z @ concat (map (\<lambda>x. sep # code x) zs)" for z zs
    by (simp add: comp_def)
  let ?rest = "\<lambda>zs. concat (map (\<lambda>x. sep # code x) zs)"
  show ?thesis
  proof (cases "xs = [] \<or> ys = []")
    case True
    then consider "xs = []" "ys = []" | y ys' where "xs = []" "ys = y # ys'" | x xs' where "ys = []" "xs = x # xs'"
      by (meson list.exhaust)
    then show ?thesis
    proof cases
      case (2 y ys')
      then show ?thesis using eq ok stop[of y] stops[of y "?rest ys' @ c # t" c s] by (simp add: join del: list.map(2))
    next
      case (3 x xs')
      then show ?thesis using eq ok stop[of x] stops[of x "?rest xs' @ c # s" c t] by (simp add: join del: list.map(2))
    qed (use eq in simp)
  next
    case False
    then obtain x xs' y ys' where xs: "xs = x # xs'" "ys = y # ys'" by (meson list.exhaust)
    then have "code x @ (?rest xs' @ c # s) = code y @ (?rest ys' @ c # t)" using eq by (simp add: join del: list.map(2))
    from cancel[OF _ _ this] separated_rest[OF assms(1), of xs' ys' s t] ok xs show ?thesis by simp
  qed
qed

end

section \<open>Runes of valid strings\<close>

lemma encodeRune_nonempty [simp]: "encodeRune r \<noteq> []"
  by (simp add: encodeRune_def)

lemma runes_Nil [simp]: "runes [] = []"
  by (simp add: runes.simps)

lemma validString_Nil [simp]: "validString []"
  by (simp add: validString_def)

lemma runes_encodeRune: "scalarRune r \<Longrightarrow> runes (encodeRune r @ s) = (r, length (encodeRune r)) # runes s"
  by (subst runes.simps) (simp add: decode_encodeRune)

lemma validString_split:
  assumes "validString s" "s \<noteq> []"
  obtains r t where "s = encodeRune r @ t" "scalarRune r" "validString t"
proof -
  obtain c u where s: "s = c # u" using assms(2) by (cases s) auto
  obtain r w where d: "decodeRune (c # u) = (r, w)" by fastforce
  have runes: "runes (c # u) = (r, w) # runes (drop w (c # u))" by (subst runes.simps) (simp add: d)
  then have ok: "\<not> (r = runeError \<and> w = 1)" "validString (drop w (c # u))"
    using assms(1) unfolding s validString_def by simp_all
  have "s = encodeRune r @ drop w (c # u)" using encode_decodeRune[OF d ok(1)] append_take_drop_id[of w "c # u"] s by simp
  with encode_decodeRune[OF d ok(1)] ok(2) show thesis by (intro that) auto
qed

lemma validString_induct [consumes 1, case_names Nil rune]:
  assumes "validString s" and "P []"
    and "\<And>r t. scalarRune r \<Longrightarrow> validString t \<Longrightarrow> P t \<Longrightarrow> P (encodeRune r @ t)"
  shows "P s"
  using assms(1)
proof (induction s rule: length_induct)
  case (1 s)
  show ?case
  proof (cases "s = []")
    case False
    obtain r t where rt: "s = encodeRune r @ t" "scalarRune r" "validString t" using validString_split[OF 1(2) False] .
    then have "length t < length s" by (cases "encodeRune r") auto
    then show ?thesis using 1(1) assms(3) rt by blast
  qed (simp add: assms(2))
qed

definition runesOf :: "string \<Rightarrow> nat list" where
  "runesOf s = map fst (runes s)"

lemma runesOf_simps [simp]:
  "runesOf [] = []" "scalarRune r \<Longrightarrow> runesOf (encodeRune r @ s) = r # runesOf s"
  by (simp_all add: runesOf_def runes_encodeRune)

lemma runesOf_scalar: "validString s \<Longrightarrow> list_all scalarRune (runesOf s)"
  by (induction rule: validString_induct) simp_all

lemma encode_runesOf: "validString s \<Longrightarrow> concat (map encodeRune (runesOf s)) = s"
  by (induction rule: validString_induct) simp_all

lemma runesOf_inj: "validString s \<Longrightarrow> validString t \<Longrightarrow> runesOf s = runesOf t \<Longrightarrow> s = t"
  using encode_runesOf by metis

section \<open>UTF-16 order\<close>

interpretation utf16: prefix_code utf16Rune scalarRune
proof
  fix r r' :: nat and s t
  assume ok: "scalarRune r" "scalarRune r'" and eq: "utf16Rune r @ s = utf16Rune r' @ t"
  have pair: "x div 1024 = y div 1024 \<Longrightarrow> x mod 1024 = y mod 1024 \<Longrightarrow> x = (y :: nat)" for x y
    by (metis div_mult_mod_eq)
  show "r = r'"
  proof (cases "r < 0x10000"; cases "r' < 0x10000")
    assume "\<not> r < 0x10000" "\<not> r' < 0x10000"
    then show ?thesis using ok eq pair[of "r - 0x10000" "r' - 0x10000"] by (auto simp: utf16Rune_def scalarRune_def)
  qed (use ok eq in \<open>auto simp: utf16Rune_def scalarRune_def split: if_splits\<close>)
qed (simp add: utf16Rune_def)

lemma utf16Units_runesOf: "utf16Units s = concat (map utf16Rune (runesOf s))"
  by (simp add: utf16Units_def runesOf_def)

lemma utf16Units_inj: "validString s \<Longrightarrow> validString t \<Longrightarrow> utf16Units s = utf16Units t \<Longrightarrow> s = t"
  using utf16.concat_inj[OF runesOf_scalar runesOf_scalar] runesOf_inj by (metis utf16Units_runesOf)

lemma compareUnits_iff: "compareUnits l r < 0 \<longleftrightarrow> l < r" "compareUnits l r = 0 \<longleftrightarrow> l = r"
  by (induction l r rule: compareUnits.induct) auto

interpretation named: three_way compareUTF16 utf16Units
  by unfold_locales (simp_all add: compareUTF16_def compareUnits_iff)

section \<open>Escaped strings\<close>

definition encodeString :: "string \<Rightarrow> string" where
  "encodeString str = CHR 0x22 # concat (map writeRune (runesOf str)) @ [CHR 0x22]"

lemma writeString_Inr: "writeString str path = Inr out \<longleftrightarrow> validString str \<and> out = encodeString str"
  by (auto simp: writeString_def encodeString_def runesOf_def comp_def)

interpretation utf8: prefix_code encodeRune scalarRune
proof
  fix r r' :: nat and s t
  assume "scalarRune r" "scalarRune r'" "encodeRune r @ s = encodeRune r' @ t"
  then show "r = r'" using decode_encodeRune[of r s] decode_encodeRune[of r' t] by simp
qed simp

definition escapedRune :: "nat \<Rightarrow> bool" where
  "escapedRune r \<longleftrightarrow> r < 0x20 \<or> r = 34 \<or> r = 92"

lemma writeRune_plain: "\<not> escapedRune r \<Longrightarrow> writeRune r = encodeRune r"
  by (auto simp: writeRune_def escapedRune_def)

lemma encodeRune_hd: "scalarRune r \<Longrightarrow> byteOf (hd (encodeRune r)) = r \<or> 0x80 \<le> byteOf (hd (encodeRune r))"
  by (auto simp: encodeRune_def scalarRune_def byteChar_def)

lemma hexChar_inj: "d < 16 \<Longrightarrow> e < 16 \<Longrightarrow> hexChar d = hexChar e \<Longrightarrow> d = e"
  using arg_cong[of "hexChar d" "hexChar e" byteOf] by (auto simp: hexChar_def split: if_splits)

lemma writeRune_escape_cases:
  assumes "escapedRune r"
  obtains c where "writeRune r = [CHR 0x5C, c]" "(c, r) \<in> {(CHR 0x22, 34), (CHR 0x5C, 92), (CHR ''b'', 8), (CHR ''t'', 9), (CHR ''n'', 10), (CHR ''f'', 12), (CHR ''r'', 13)}"
  | "writeRune r = [CHR 0x5C, CHR ''u'', CHR ''0'', CHR ''0'', hexChar (r div 16), hexChar (r mod 16)]" "r < 0x20"
proof (cases "r \<in> {34, 92, 8, 9, 10, 12, 13}")
  case True
  then show thesis using that(1) by (auto simp: writeRune_def encodeRune_def byteChar_def char_of_def bit_0)
next
  case False
  then show thesis using that(2) assms by (auto simp: writeRune_def escapedRune_def)
qed

lemma writeRune_escape_inj:
  assumes "escapedRune r" "escapedRune r'" "writeRune r @ s = writeRune r' @ t"
  shows "r = r'"
  using assms(1)
proof (cases rule: writeRune_escape_cases)
  case (1 c)
  from assms(2) show ?thesis by (cases rule: writeRune_escape_cases) (use 1 assms(3) in auto)
next
  case u: 2
  from assms(2) show ?thesis
  proof (cases rule: writeRune_escape_cases)
    case (1 c)
    then show ?thesis using u assms(3) by auto
  next
    case 2
    then have "r div 16 = r' div 16" "r mod 16 = r' mod 16" using u assms(3) by (auto intro!: hexChar_inj)
    then show ?thesis by (metis div_mult_mod_eq)
  qed
qed

lemma writeRune_hd: "scalarRune r \<Longrightarrow> hd (writeRune r) \<noteq> CHR 0x22" "scalarRune r \<Longrightarrow> hd (writeRune r) = CHR 0x5C \<longleftrightarrow> escapedRune r"
proof -
  assume r: "scalarRune r"
  have *: "hd (writeRune r) = CHR 0x5C" if "escapedRune r" using that by (cases rule: writeRune_escape_cases) auto
  have "byteOf (hd (encodeRune r)) \<noteq> 0x22 \<and> byteOf (hd (encodeRune r)) \<noteq> 0x5C" if "\<not> escapedRune r"
    using encodeRune_hd[OF r] that by (auto simp: escapedRune_def)
  then have "hd (writeRune r) \<noteq> CHR 0x22 \<and> hd (writeRune r) \<noteq> CHR 0x5C" if "\<not> escapedRune r"
    using that by (auto simp: writeRune_plain)
  with * show "hd (writeRune r) \<noteq> CHR 0x22" "hd (writeRune r) = CHR 0x5C \<longleftrightarrow> escapedRune r"
    by (cases "escapedRune r"; simp)+
qed

interpretation escaped: prefix_code writeRune scalarRune
proof
  show nonempty: "writeRune r \<noteq> []" for r by (simp add: writeRune_def)
  fix r r' :: nat and s t
  assume ok: "scalarRune r" "scalarRune r'" and eq: "writeRune r @ s = writeRune r' @ t"
  have "hd (writeRune r) = hd (writeRune r')"
    using arg_cong[OF eq, of hd] nonempty by simp
  then have "escapedRune r \<longleftrightarrow> escapedRune r'" using writeRune_hd(2)[OF ok(1)] writeRune_hd(2)[OF ok(2)] by simp
  then show "r = r'"
    using writeRune_escape_inj[OF _ _ eq] utf8.unique[OF ok] eq by (cases "escapedRune r") (simp_all add: writeRune_plain)
qed

interpretation quoted: prefix_code encodeString validString
proof
  fix s t :: string and u v
  assume ok: "validString s" "validString t" and "encodeString s @ u = encodeString t @ v"
  then have "concat (map writeRune (runesOf s)) @ CHR 0x22 # u = concat (map writeRune (runesOf t)) @ CHR 0x22 # v"
    by (simp add: encodeString_def)
  from escaped.terminated[OF writeRune_hd(1) runesOf_scalar[OF ok(1)] runesOf_scalar[OF ok(2)] this]
  show "s = t" using runesOf_inj[OF ok] by blast
qed (simp add: encodeString_def)

end
