(* ===== verification/CanonicalProofs.thy ===== *)
theory CanonicalProofs
  imports CanonicalText
begin

text \<open>
  The JSON values that canonical bytes stand for. \<open>encode\<close> writes a JSON value; it is a prefix
  code on well-formed values. \<open>denotes\<close> relates a Go value to the JSON value it represents, and
  whatever \<open>Marshal\<close> returns is the encoding of a well-formed JSON value that the Go value denotes.
\<close>

section \<open>JSON values\<close>

datatype json = JNull | JBool bool | JString string | JArray "json list" | JObject "(string \<times> json) list"

fun encode :: "json \<Rightarrow> string" where
  "encode JNull = ''null''"
| "encode (JBool b) = (if b then ''true'' else ''false'')"
| "encode (JString s) = encodeString s"
| "encode (JArray js) = CHR 0x5B # sepBy (CHR '','') (map encode js) @ [CHR 0x5D]"
| "encode (JObject members) = CHR 0x7B # sepBy (CHR '','') (map (\<lambda>(k, j). encodeString k @ CHR '':'' # encode j) members) @ [CHR 0x7D]"

text \<open>Strings are valid UTF-8 and the keys of an object strictly increase in UTF-16 order.\<close>

fun wfJson :: "json \<Rightarrow> bool" where
  "wfJson (JString s) = validString s"
| "wfJson (JArray js) = list_all wfJson js"
| "wfJson (JObject members) =
     (list_all (\<lambda>(k, j). validString k \<and> wfJson j) members \<and> sorted_wrt (\<lambda>a b. compareUTF16 (fst a) (fst b) < 0) members)"
| "wfJson _ = True"

definition encodeMember :: "string \<times> json \<Rightarrow> string" where
  "encodeMember m = encodeString (fst m) @ CHR '':'' # encode (snd m)"

lemma encode_JObject: "encode (JObject members) = CHR 0x7B # sepBy (CHR '','') (map encodeMember members) @ [CHR 0x7D]"
  by (simp add: encodeMember_def[abs_def] case_prod_unfold)

declare encode.simps(5) [simp del]

lemma encode_hd: "encode j \<noteq> []" "hd (encode j) \<noteq> CHR 0x5D" "hd (encode j) \<noteq> CHR 0x7D"
  by (cases j; simp add: encodeString_def encode_JObject)+

lemma encodeMember_hd: "encodeMember m \<noteq> []" "hd (encodeMember m) \<noteq> CHR 0x7D"
  by (simp_all add: encodeMember_def encodeString_def)

lemma encode_head:
  assumes "encode j @ s = encode k @ t"
  shows "(case j of JNull \<Rightarrow> k = JNull | JBool b \<Rightarrow> k = JBool b | JString _ \<Rightarrow> \<exists>x. k = JString x
    | JArray _ \<Rightarrow> \<exists>x. k = JArray x | JObject _ \<Rightarrow> \<exists>x. k = JObject x)"
  using assms by (cases j; cases k) (auto simp: encodeString_def encode_JObject split: if_splits)

lemma member_size: "m \<in> set members \<Longrightarrow> size (snd m) < size_list (size_prod (\<lambda>x. 0) size) members"
  by (induction members) auto

definition wfBelow :: "nat \<Rightarrow> json \<Rightarrow> bool" where
  "wfBelow n j \<longleftrightarrow> wfJson j \<and> size j < n"

lemma encodeMember_code:
  assumes "prefix_code encode (wfBelow n)"
  shows "prefix_code encodeMember (\<lambda>m. validString (fst m) \<and> wfBelow n (snd m))"
proof
  fix l m and s t
  assume ok: "validString (fst l) \<and> wfBelow n (snd l)" "validString (fst m) \<and> wfBelow n (snd m)"
    and "encodeMember l @ s = encodeMember m @ t"
  then have eq: "encodeString (fst l) @ CHR '':'' # encode (snd l) @ s = encodeString (fst m) @ CHR '':'' # encode (snd m) @ t"
    by (simp add: encodeMember_def)
  have "fst l = fst m" "encode (snd l) @ s = encode (snd m) @ t" using quoted.cancel[OF _ _ eq] ok by auto
  then show "l = m" using prefix_code.unique[OF assms] ok by (simp add: prod_eq_iff)
qed (simp add: encodeMember_hd)

lemma encode_code: "prefix_code encode (wfBelow n)"
proof (induction n)
  case 0
  show ?case by unfold_locales (simp_all add: wfBelow_def)
next
  case (Suc n)
  show ?case
  proof
    fix j k s t
    assume ok: "wfBelow (Suc n) j" "wfBelow (Suc n) k" and eq: "encode j @ s = encode k @ t"
    show "j = k"
    proof (cases j)
      case (JString x)
      then obtain y where "k = JString y" using encode_head[OF eq] by auto
      with JString ok eq show ?thesis using quoted.unique[of x y s t] by (simp add: wfBelow_def)
    next
      case (JArray xs)
      then obtain ys where k: "k = JArray ys" using encode_head[OF eq] by auto
      have "list_all (wfBelow n) xs" "list_all (wfBelow n) ys"
        using ok JArray k by (auto simp: wfBelow_def list_all_iff dest: size_list_estimation'[of _ _ _ size, OF _ order_refl])
      then show ?thesis
        using prefix_code.separated[OF Suc, of "CHR '',''" "CHR 0x5D" xs ys s t] eq JArray k encode_hd by simp
    next
      case (JObject xs)
      then obtain ys where k: "k = JObject ys" using encode_head[OF eq] by auto
      have "list_all (\<lambda>m. validString (fst m) \<and> wfBelow n (snd m)) xs" "list_all (\<lambda>m. validString (fst m) \<and> wfBelow n (snd m)) ys"
        using ok JObject k member_size[of _ xs] member_size[of _ ys] by (fastforce simp: wfBelow_def list_all_iff)+
      then show ?thesis
        using prefix_code.separated[OF encodeMember_code[OF Suc], of "CHR '',''" "CHR 0x7D" xs ys s t] eq JObject k encodeMember_hd
        by (simp add: encode_JObject)
    qed (use encode_head[OF eq] in auto)
  qed (simp add: encode_hd)
qed

interpretation json: prefix_code encode wfJson
proof
  fix j k s t
  assume "wfJson j" "wfJson k" "encode j @ s = encode k @ t"
  then show "j = k"
    using prefix_code.unique[OF encode_code[of "Suc (max (size j) (size k))"], of j k s t] by (simp add: wfBelow_def)
qed (simp add: encode_hd)

section \<open>What a Go value denotes\<close>

inductive denotes :: "heap \<Rightarrow> goValue \<Rightarrow> json \<Rightarrow> bool" for h where
  invalid: "denotes h Invalid JNull"
| nilInterface: "denotes h (Interface None) JNull"
| inside: "denotes h v j \<Longrightarrow> denotes h (Interface (Some v)) j"
| nilPointer: "denotes h (PointerTo 0) JNull"
| pointee: "a \<noteq> 0 \<Longrightarrow> map_of (pointees h) a = Some v \<Longrightarrow> denotes h v j \<Longrightarrow> denotes h (PointerTo a) j"
| boolean: "denotes h (BoolValue b) (JBool b)"
| str: "denotes h (StringValue s) (JString s)"
| nilSlice: "denotes h (SliceValue 0 n) JNull"
| slice: "a \<noteq> 0 \<Longrightarrow> map_of (arrays h) a = Some cells \<Longrightarrow> list_all2 (denotes h) (take n cells) js \<Longrightarrow>
    denotes h (SliceValue a n) (JArray js)"
| array: "list_all2 (denotes h) vs js \<Longrightarrow> denotes h (ArrayValue vs) (JArray js)"
| nilMap: "denotes h (MapValue stringKeys 0) JNull"
| mapped: "a \<noteq> 0 \<Longrightarrow> map_of (maps h) a = Some entries \<Longrightarrow> mset named = mset entries \<Longrightarrow>
    list_all2 (\<lambda>e m. fst e = fst m \<and> denotes h (snd e) (snd m)) named members \<Longrightarrow>
    denotes h (MapValue True a) (JObject members)"
| struct: "structFields h path [] [] infos = Inr entries \<Longrightarrow> mset named = mset entries \<Longrightarrow>
    list_all2 (\<lambda>e m. fst e = fst m \<and> denotes h (snd e) (snd m)) named members \<Longrightarrow>
    denotes h (StructValue infos) (JObject members)"

text \<open>A Go map holds each key once.\<close>

definition mapsDistinct :: "heap \<Rightarrow> bool" where
  "mapsDistinct h \<longleftrightarrow> list_all (\<lambda>(a, entries). distinct (map fst entries)) (maps h)"

lemma structFields_step:
  assumes "structFields h path seen acc (info # infos) = Inr named"
  obtains "structFields h path seen acc infos = Inr named"
  | name where "name \<notin> set seen" "structFields h path (name # seen) (acc @ [(name, fieldValue info)]) infos = Inr named"
  using assms by (auto simp: Let_def split: if_splits sum.splits prod.splits)

lemma structFields_distinct:
  "structFields h path seen acc infos = Inr named \<Longrightarrow> distinct (map fst acc) \<Longrightarrow> set (map fst acc) \<subseteq> set seen \<Longrightarrow>
     distinct (map fst named)"
proof (induction infos arbitrary: seen acc)
  case (Cons info infos)
  from Cons.prems(1) show ?case
  proof (cases rule: structFields_step)
    case 1
    then show ?thesis using Cons.IH[OF 1] Cons.prems(2,3) by blast
  next
    case (2 name)
    then have "name \<notin> set (map fst acc)" using Cons.prems(3) by blast
    then show ?thesis using Cons.IH[OF 2(2)] Cons.prems(2,3) by auto
  qed
qed simp

lemma sortNamed_strict:
  assumes "distinct (map fst entries)" "list_all (validString \<circ> fst) (sortNamed entries)"
  shows "sorted_wrt (\<lambda>a b. compareUTF16 (fst a) (fst b) < 0) (sortNamed entries)"
proof -
  let ?s = "sortNamed entries"
  have "distinct (map fst ?s)"
    using assms(1) mset_eq_imp_distinct_iff[of "map fst ?s" "map fst entries"] by (simp add: sortNamed_def)
  moreover have "inj_on utf16Units (set (map fst ?s))"
  proof (rule inj_onI)
    fix k l
    assume "k \<in> set (map fst ?s)" "l \<in> set (map fst ?s)" "utf16Units k = utf16Units l"
    then show "k = l" using assms(2) by (intro utf16Units_inj) (auto simp: list_all_iff)
  qed
  ultimately have "distinct (map utf16Units (map fst ?s))" unfolding distinct_map by blast
  then have "distinct (map (utf16Units \<circ> fst) ?s)" by simp
  moreover have "sorted (map (utf16Units \<circ> fst) ?s)" by (simp add: sortNamed_def)
  ultimately have "sorted_wrt (<) (map (utf16Units \<circ> fst) ?s)" by (simp add: strict_sorted_iff)
  then show ?thesis by (simp add: sorted_wrt_map named.less)
qed

section \<open>Marshal writes what its argument denotes\<close>

lemma map_sum_Inr_iff: "map_sum (\<lambda>e. e) f r = Inr out \<longleftrightarrow> (\<exists>x. r = Inr x \<and> out = f x)"
  by (cases r) auto

lemma mapsDistinct_entries: "mapsDistinct h \<Longrightarrow> map_of (maps h) a = Some entries \<Longrightarrow> distinct (map fst entries)"
  unfolding mapsDistinct_def list_all_iff by (fastforce dest: map_of_SomeD)

lemma wf_members:
  assumes "distinct (map fst entries)" "list_all2 (\<lambda>e m. fst e = fst m \<and> denotes h (snd e) (snd m)) (sortNamed entries) members"
    "list_all (\<lambda>m. validString (fst m) \<and> wfJson (snd m)) members"
  shows "wfJson (JObject members)"
proof -
  have keys: "map fst members = map fst (sortNamed entries)"
    using assms(2) by (induction rule: list_all2_induct) auto
  have "list_all (validString \<circ> fst) (sortNamed entries)"
    using assms(3) arg_cong[OF keys, of "list_all validString"] by (auto simp: list.pred_map list_all_iff)
  from sortNamed_strict[OF assms(1) this] have "sorted_wrt (\<lambda>a b. compareUTF16 a b < 0) (map fst members)"
    unfolding keys by (simp add: sorted_wrt_map)
  then show ?thesis using assms(3) by (simp add: sorted_wrt_map case_prod_unfold)
qed

abbreviation restOf :: "bool \<Rightarrow> string list \<Rightarrow> string" where
  "restOf first words \<equiv> (if first then sepBy (CHR '','') words else concat (map ((#) (CHR '','')) words))"

definition encodes :: "heap \<Rightarrow> goValue \<Rightarrow> string \<Rightarrow> bool" where
  "encodes h v out \<longleftrightarrow> (\<exists>j. wfJson j \<and> denotes h v j \<and> out = encode j)"

definition encodesElems :: "heap \<Rightarrow> bool \<Rightarrow> goValue list \<Rightarrow> string \<Rightarrow> bool" where
  "encodesElems h first vs out \<longleftrightarrow>
     (\<exists>js. list_all wfJson js \<and> list_all2 (denotes h) vs js \<and> out = restOf first (map encode js))"

definition encodesNamed :: "heap \<Rightarrow> bool \<Rightarrow> (string \<times> goValue) list \<Rightarrow> string \<Rightarrow> bool" where
  "encodesNamed h first named out \<longleftrightarrow>
     (\<exists>members. list_all (\<lambda>m. validString (fst m) \<and> wfJson (snd m)) members \<and>
        list_all2 (\<lambda>e m. fst e = fst m \<and> denotes h (snd e) (snd m)) named members \<and> out = restOf first (map encodeMember members))"

lemma encodes_null:
  "encodes h Invalid ''null''" "encodes h (Interface None) ''null''" "encodes h (PointerTo 0) ''null''"
  "encodes h (SliceValue 0 n) ''null''" "encodes h (MapValue k 0) ''null''"
  unfolding encodes_def by (rule exI[of _ JNull], simp add: denotes.intros)+

lemma encodes_bool: "encodes h (BoolValue b) (if b then ''true'' else ''false'')"
  unfolding encodes_def by (rule exI[of _ "JBool b"]) (simp add: denotes.intros)

lemma encodes_string: "validString s \<Longrightarrow> encodes h (StringValue s) (encodeString s)"
  unfolding encodes_def by (rule exI[of _ "JString s"]) (simp add: denotes.intros)

lemma encodes_refs:
  "encodes h v out \<Longrightarrow> encodes h (Interface (Some v)) out"
  "a \<noteq> 0 \<Longrightarrow> map_of (pointees h) a = Some v \<Longrightarrow> encodes h v out \<Longrightarrow> encodes h (PointerTo a) out"
  unfolding encodes_def by (blast intro: denotes.intros)+

lemma encodes_array:
  "encodesElems h True vs out \<Longrightarrow> encodes h (ArrayValue vs) (''['' @ out @ '']'')"
  "a \<noteq> 0 \<Longrightarrow> map_of (arrays h) a = Some cells \<Longrightarrow> encodesElems h True (take n cells) out \<Longrightarrow>
     encodes h (SliceValue a n) (''['' @ out @ '']'')"
  unfolding encodes_def encodesElems_def
  by (elim exE, rule_tac x="JArray js" in exI, simp add: denotes.intros)+

lemma encodes_map:
  assumes "mapsDistinct h" "a \<noteq> 0" "map_of (maps h) a = Some entries" "encodesNamed h True (sortNamed entries) out"
  shows "encodes h (MapValue True a) (''{'' @ out @ ''}'')"
proof -
  from assms(4) obtain members where m: "list_all (\<lambda>m. validString (fst m) \<and> wfJson (snd m)) members"
    "list_all2 (\<lambda>e m. fst e = fst m \<and> denotes h (snd e) (snd m)) (sortNamed entries) members"
    "out = sepBy (CHR '','') (map encodeMember members)" by (auto simp: encodesNamed_def)
  have "denotes h (MapValue True a) (JObject members)"
    using denotes.mapped[OF assms(2,3) _ m(2)] by (simp add: sortNamed_def)
  then show ?thesis using wf_members[OF mapsDistinct_entries[OF assms(1,3)] m(2,1)] m(3)
    unfolding encodes_def by (intro exI[of _ "JObject members"]) (simp add: encode_JObject)
qed

lemma encodes_struct:
  assumes "structFields h path [] [] infos = Inr entries" "encodesNamed h True (sortNamed entries) out"
  shows "encodes h (StructValue infos) (''{'' @ out @ ''}'')"
proof -
  from assms(2) obtain members where m: "list_all (\<lambda>m. validString (fst m) \<and> wfJson (snd m)) members"
    "list_all2 (\<lambda>e m. fst e = fst m \<and> denotes h (snd e) (snd m)) (sortNamed entries) members"
    "out = sepBy (CHR '','') (map encodeMember members)" by (auto simp: encodesNamed_def)
  have "denotes h (StructValue infos) (JObject members)"
    using denotes.struct[OF assms(1) _ m(2)] by (simp add: sortNamed_def)
  then show ?thesis using wf_members[OF structFields_distinct[OF assms(1)] m(2,1)] m(3)
    unfolding encodes_def by (intro exI[of _ "JObject members"]) (simp add: encode_JObject)
qed

lemma encodesElems_simps:
  "encodesElems h first [] []"
  "encodes h v out \<Longrightarrow> encodesElems h False vs rest \<Longrightarrow> encodesElems h first (v # vs) ((if first then [] else '','') @ out @ rest)"
proof -
  show "encodesElems h first [] []" by (simp add: encodesElems_def)
  assume "encodes h v out" "encodesElems h False vs rest"
  then obtain j js where "wfJson j" "denotes h v j" "out = encode j"
    "list_all wfJson js" "list_all2 (denotes h) vs js" "rest = restOf False (map encode js)"
    by (auto simp: encodes_def encodesElems_def)
  then show "encodesElems h first (v # vs) ((if first then [] else '','') @ out @ rest)"
    unfolding encodesElems_def by (intro exI[of _ "j # js"]) auto
qed

lemma encodesNamed_simps:
  "encodesNamed h first [] []"
  "validString name \<Longrightarrow> encodes h v out \<Longrightarrow> encodesNamed h False named rest \<Longrightarrow>
     encodesNamed h first ((name, v) # named) ((if first then [] else '','') @ encodeString name @ '':'' @ out @ rest)"
proof -
  show "encodesNamed h first [] []" by (simp add: encodesNamed_def)
  assume name: "validString name" and "encodes h v out" "encodesNamed h False named rest"
  then obtain j members where "wfJson j" "denotes h v j" "out = encode j"
    "list_all (\<lambda>m. validString (fst m) \<and> wfJson (snd m)) members"
    "list_all2 (\<lambda>e m. fst e = fst m \<and> denotes h (snd e) (snd m)) named members" "rest = restOf False (map encodeMember members)"
    by (auto simp: encodes_def encodesNamed_def)
  with name show "encodesNamed h first ((name, v) # named) ((if first then [] else '','') @ encodeString name @ '':'' @ out @ rest)"
    unfolding encodesNamed_def by (intro exI[of _ "(name, j) # members"]) (auto simp: encodeMember_def)
qed

lemmas encodes_intros = encodes_null encodes_bool encodes_string encodes_refs encodes_array encodes_struct
  encodesElems_simps(1) encodesNamed_simps(1)

lemma write_encodes:
  "mapsDistinct h \<Longrightarrow> writeValue h active path v = Inr out \<Longrightarrow> encodes h v out"
  "mapsDistinct h \<Longrightarrow> writeElems h active path index vs = Inr out \<Longrightarrow> encodesElems h (index = 0) vs out"
  "mapsDistinct h \<Longrightarrow> writeNamed h active path first named = Inr out \<Longrightarrow> encodesNamed h first named out"
proof (induction h active path v and h active path index vs and h active path first named
    arbitrary: out and out and out rule: writeValue_writeElems_writeNamed.induct)
  case (4 h active path a)
  then show ?case by (cases "a = 0") (auto simp: encodes_null intro: encodes_refs split: sum.splits option.splits)
next
  case (9 h active path stringKeys a)
  then show ?case
    by (cases "a = 0"; cases stringKeys)
       (auto simp: map_sum_Inr_iff encodes_null intro!: encodes_map[simplified] split: sum.splits option.splits)
next
  case (14 h active path index v vs)
  from 14(4) obtain one rest where "writeValue h active (indexPath path index) v = Inr one"
    "writeElems h active path (Suc index) vs = Inr rest" and out: "out = (if index > 0 then '','' else []) @ one @ rest"
    by (auto simp: map_sum_Inr_iff split: sum.splits)
  then show ?case using 14(1,2,3) encodesElems_simps(2)[of h v one vs rest "index = 0"] by (cases index) auto
next
  case (16 h active path first name v named)
  from 16(4) obtain one rest where "validString name" "writeString name path = Inr (encodeString name)"
    "writeValue h active (namePath path name) v = Inr one" "writeNamed h active path False named = Inr rest"
    and out: "out = (if first then [] else '','') @ encodeString name @ '':'' @ one @ rest"
    by (auto simp: map_sum_Inr_iff writeString_Inr split: sum.splits if_splits)
  then show ?case using 16(1,2,3) encodesNamed_simps(2)[of name h v one named rest first] by auto
qed (auto simp: map_sum_Inr_iff writeString_Inr encodes_null encodes_bool[of _ True, simplified] encodes_bool[of _ False, simplified]
  intro!: encodes_string encodes_refs encodes_array[simplified] encodes_struct[simplified] encodesElems_simps(1) encodesNamed_simps(1)
  split: sum.splits option.splits if_splits)

lemma Marshal_encodes: "mapsDistinct h \<Longrightarrow> Marshal h v = Inr out \<Longrightarrow> \<exists>j. wfJson j \<and> denotes h v j \<and> out = encode j"
  using write_encodes(1) unfolding Marshal_def encodes_def by blast

section \<open>The order of map entries does not matter\<close>

text \<open>Two heaps that differ only in the order in which the entries of their maps are listed.\<close>

definition sameHeap :: "heap \<Rightarrow> heap \<Rightarrow> bool" where
  "sameHeap h h' \<longleftrightarrow> pointees h = pointees h' \<and> arrays h = arrays h' \<and>
     list_all2 (\<lambda>(a, es) (b, es'). a = b \<and> mset es = mset es') (maps h) (maps h')"

lemma sameHeap_map_of:
  assumes "sameHeap h h'"
  shows "(map_of (maps h) a = None \<and> map_of (maps h') a = None) \<or>
    (\<exists>es es'. map_of (maps h) a = Some es \<and> map_of (maps h') a = Some es' \<and> mset es = mset es')"
proof -
  have "list_all2 (\<lambda>(a, es) (b, es'). a = b \<and> mset es = mset es') (maps h) (maps h')" using assms by (simp add: sameHeap_def)
  then show ?thesis by (induction rule: list_all2_induct) auto
qed

lemma sortNamed_mset:
  assumes "mset es = mset es'" "distinct (map fst es)" "list_all (validString \<circ> fst) es"
  shows "sortNamed es = sortNamed es'"
proof -
  have "inj_on (utf16Units \<circ> fst) (set es)"
  proof (rule inj_onI)
    fix x y
    assume *: "x \<in> set es" "y \<in> set es" "(utf16Units \<circ> fst) x = (utf16Units \<circ> fst) y"
    then have "fst x = fst y" using assms(3) by (intro utf16Units_inj) (auto simp: list_all_iff)
    with * assms(2) show "x = y" by (auto simp: distinct_map inj_on_def)
  qed
  moreover have "set es' = set es" "distinct es" "distinct es'"
    using assms(1,2) mset_eq_setD mset_eq_imp_distinct_iff[of es es'] by (auto simp: distinct_map)
  ultimately show ?thesis unfolding sortNamed_def
    by (intro map_sorted_distinct_set_unique[of "utf16Units \<circ> fst"]) (auto simp: distinct_map)
qed

lemma sameHeap_isEmptyValue: "sameHeap h h' \<Longrightarrow> isEmptyValue h' v = isEmptyValue h v"
proof (cases v)
  case (MapValue k a)
  assume "sameHeap h h'"
  from sameHeap_map_of[OF this, of a] show ?thesis by (auto simp: MapValue mapEntries_def)
qed auto

lemma sameHeap_structFields: "sameHeap h h' \<Longrightarrow> structFields h' path seen acc infos = structFields h path seen acc infos"
  by (induction infos arbitrary: seen acc)
     (auto simp: sameHeap_isEmptyValue Let_def split: sum.splits prod.splits)

lemma writeNamed_valid: "writeNamed h active path first named = Inr out \<Longrightarrow> list_all (validString \<circ> fst) named"
  by (induction named arbitrary: first out) (auto simp: map_sum_Inr_iff split: sum.splits if_splits)

lemma sameHeap_sortNamed:
  assumes "sameHeap h h'" "mapsDistinct h" "map_of (maps h) a = Some es"
    "writeNamed h active path first (sortNamed es) = Inr out"
  shows "\<exists>es'. map_of (maps h') a = Some es' \<and> sortNamed es' = sortNamed es"
proof -
  obtain es' where es': "map_of (maps h') a = Some es'" "mset es = mset es'"
    using sameHeap_map_of[OF assms(1), of a] assms(3) by auto
  have "list_all (validString \<circ> fst) es"
    using writeNamed_valid[OF assms(4)] by (simp add: list_all_iff sortNamed_def)
  then show ?thesis using es' sortNamed_mset[OF es'(2) mapsDistinct_entries[OF assms(2,3)]] by auto
qed

lemma write_sameHeap:
  "sameHeap h h' \<Longrightarrow> mapsDistinct h \<Longrightarrow> writeValue h active path v = Inr out \<Longrightarrow> writeValue h' active path v = Inr out"
  "sameHeap h h' \<Longrightarrow> mapsDistinct h \<Longrightarrow> writeElems h active path index vs = Inr out \<Longrightarrow> writeElems h' active path index vs = Inr out"
  "sameHeap h h' \<Longrightarrow> mapsDistinct h \<Longrightarrow> writeNamed h active path first named = Inr out \<Longrightarrow> writeNamed h' active path first named = Inr out"
proof (induction h active path v and h active path index vs and h active path first named
    arbitrary: out and out and out rule: writeValue_writeElems_writeNamed.induct)
  case (4 h active path a)
  then have "pointees h' = pointees h" by (simp add: sameHeap_def)
  with 4 show ?case by (cases "a = 0") (auto split: sum.splits option.splits)
next
  case (7 h active path a n)
  then have "arrays h' = arrays h" by (simp add: sameHeap_def)
  with 7 show ?case by (cases "a = 0") (auto simp: map_sum_Inr_iff split: sum.splits option.splits)
next
  case (9 h active path stringKeys a)
  show ?case
  proof (cases "a = 0")
    case False
    with 9(4) obtain active' es body where step: stringKeys "enter active (MapKind, a) path = Inr active'" "map_of (maps h) a = Some es"
      "writeNamed h active' path True (sortNamed es) = Inr body" "out = ''{'' @ body @ ''}''"
      by (auto simp: map_sum_Inr_iff split: sum.splits option.splits if_splits)
    obtain es' where "map_of (maps h') a = Some es'" "sortNamed es' = sortNamed es"
      using sameHeap_sortNamed[OF 9(2,3) step(3,4)] by blast
    then show ?thesis using 9(1)[OF False _ step(2,3) 9(2,3) step(4)] step(1,2,5) False by (simp add: map_sum_Inr_iff)
  qed (use 9 in simp)
qed (auto simp: map_sum_Inr_iff sameHeap_structFields split: sum.splits if_splits)

lemma Marshal_sameHeap: "sameHeap h h' \<Longrightarrow> mapsDistinct h \<Longrightarrow> Marshal h v = Inr out \<Longrightarrow> Marshal h' v = Inr out"
  unfolding Marshal_def by (rule write_sameHeap(1))

lemma sameHeap_sym: "sameHeap h h' \<Longrightarrow> sameHeap h' h"
  by (auto simp: sameHeap_def list_all2_conv_all_nth case_prod_unfold)

lemma sameHeap_mapsDistinct: "sameHeap h h' \<Longrightarrow> mapsDistinct h \<Longrightarrow> mapsDistinct h'"
proof -
  assume same: "sameHeap h h'" and dist: "mapsDistinct h"
  from same have "list_all2 (\<lambda>(a, es) (b, es'). a = b \<and> mset es = mset es') (maps h) (maps h')" by (simp add: sameHeap_def)
  then show ?thesis using dist unfolding mapsDistinct_def
  proof (induction rule: list_all2_induct)
    case (Cons x xs y ys)
    then show ?case using mset_eq_imp_distinct_iff[of "map fst (snd x)" "map fst (snd y)"] by (auto simp: case_prod_unfold)
  qed simp
qed

section \<open>Acyclic heaps\<close>

text \<open>The references in a value, and the references that the content of a reference holds.\<close>

lemma field_size [termination_simp]:
  "info \<in> set infos \<Longrightarrow> size (fieldValue info) < Suc (size_list (size_structFieldInfo size) infos)"
proof (induction infos)
  case (Cons x infos)
  then show ?case by (cases x) auto
qed simp

fun refs :: "goValue \<Rightarrow> visit set" where
  "refs (Interface (Some v)) = refs v"
| "refs (PointerTo a) = (if a = 0 then {} else {(PointerKind, a)})"
| "refs (SliceValue a n) = (if a = 0 then {} else {(SliceKind, a)})"
| "refs (MapValue k a) = (if a = 0 then {} else {(MapKind, a)})"
| "refs (ArrayValue vs) = (\<Union>v \<in> set vs. refs v)"
| "refs (StructValue infos) = (\<Union>info \<in> set infos. refs (fieldValue info))"
| "refs _ = {}"

definition heapEdges :: "heap \<Rightarrow> (visit \<times> visit) set" where
  "heapEdges h =
     {((PointerKind, a), r) | a v r. map_of (pointees h) a = Some v \<and> r \<in> refs v} \<union>
     {((SliceKind, a), r) | a vs v r. map_of (arrays h) a = Some vs \<and> v \<in> set vs \<and> r \<in> refs v} \<union>
     {((MapKind, a), r) | a es e r. map_of (maps h) a = Some es \<and> e \<in> set es \<and> r \<in> refs (snd e)}"

definition clear :: "heap \<Rightarrow> visit list \<Rightarrow> visit set \<Rightarrow> bool" where
  "clear h active rs \<longleftrightarrow> (\<forall>r \<in> rs. \<forall>k \<in> set active. (r, k) \<notin> (heapEdges h)\<^sup>*)"

lemma clear_subset: "clear h active rs \<Longrightarrow> rs' \<subseteq> rs \<Longrightarrow> clear h active rs'"
  by (auto simp: clear_def)

lemma clear_enter:
  assumes "acyclic (heapEdges h)" "clear h active {key}" "snd key \<noteq> 0" "\<And>r. r \<in> rs \<Longrightarrow> (key, r) \<in> heapEdges h"
  shows "enter active key path = Inr (key # active)" "clear h (key # active) rs"
proof -
  show "enter active key path = Inr (key # active)" using assms(2,3) by (auto simp: clear_def enter_def)
  show "clear h (key # active) rs" unfolding clear_def
  proof (intro ballI notI)
    fix r k
    assume r: "r \<in> rs" and k: "k \<in> set (key # active)" and reach: "(r, k) \<in> (heapEdges h)\<^sup>*"
    note edge = assms(4)[OF r]
    have "(key, key) \<notin> (heapEdges h)\<^sup>+" using assms(1) unfolding acyclic_def by blast
    then have "k \<noteq> key" using rtrancl_into_trancl2[OF edge reach] by blast
    then show False using k assms(2) converse_rtrancl_into_rtrancl[OF edge reach] by (auto simp: clear_def)
  qed
qed

lemma writeElems_total:
  assumes "list_all2 (\<lambda>v j. \<forall>path. writeValue h active path v = Inr (encode j)) vs js"
  shows "writeElems h active path index vs = Inr (restOf (index = 0) (map encode js))"
  using assms by (induction vs js arbitrary: index rule: list_all2_induct) auto

lemma writeNamed_total:
  assumes "list_all2 (\<lambda>e m. fst e = fst m \<and> (\<forall>path. writeValue h active path (snd e) = Inr (encode (snd m)))) named members"
    "list_all (\<lambda>m. validString (fst m)) members"
  shows "writeNamed h active path first named = Inr (restOf first (map encodeMember members))"
  using assms
proof (induction named members arbitrary: first rule: list_all2_induct)
  case (Cons e named m members)
  then show ?case by (cases e; cases m) (simp add: writeString_def encodeString_def runesOf_def comp_def encodeMember_def)
qed simp

lemma sorted_members:
  assumes "mset named = mset entries" "list_all2 (\<lambda>e m. fst e = fst m \<and> Q e m) named members" "wfJson (JObject members)"
  shows "named = sortNamed entries"
proof -
  have keys: "map fst members = map fst named" using assms(2) by (induction rule: list_all2_induct) auto
  have "sorted_wrt (\<lambda>a b. compareUTF16 a b < 0) (map fst members)" using assms(3) by (simp add: sorted_wrt_map)
  then have strict: "sorted_wrt (<) (map (utf16Units \<circ> fst) named)" unfolding keys by (simp add: sorted_wrt_map named.less)
  then have "sorted (map (utf16Units \<circ> fst) named)" "distinct (map (utf16Units \<circ> fst) named)"
    by (simp_all only: strict_sorted_iff)
  moreover have "set (sortNamed entries) = set named" "mset (sortNamed entries) = mset named"
    using mset_eq_setD[OF assms(1)] assms(1) by (simp_all add: sortNamed_def)
  moreover have "distinct (map (utf16Units \<circ> fst) (sortNamed entries))"
    using calculation(2,4) by (metis mset_eq_imp_distinct_iff mset_map)
  ultimately show ?thesis
    by (intro map_sorted_distinct_set_unique[of "utf16Units \<circ> fst"]) (auto simp: distinct_map sortNamed_def)
qed

lemma structFields_path: "structFields h path seen acc infos = Inr named \<Longrightarrow> structFields h path' seen acc infos = Inr named"
  by (induction infos arbitrary: seen acc) (auto simp: Let_def split: sum.splits prod.splits if_splits)

lemma structFields_values:
  "structFields h path seen acc infos = Inr named \<Longrightarrow> e \<in> set named \<Longrightarrow> e \<in> set acc \<or> snd e \<in> fieldValue ` set infos"
proof (induction infos arbitrary: seen acc)
  case (Cons info infos)
  from Cons.prems(1) show ?case
    by (cases rule: structFields_step) (use Cons.IH Cons.prems(2) in fastforce)+
qed simp

lemma enter_content:
  assumes acyc: "acyclic (heapEdges h)" and cl: "clear h active {key}" "snd key \<noteq> 0"
    and content: "\<And>v. v \<in> vs \<Longrightarrow> \<forall>r \<in> refs v. (key, r) \<in> heapEdges h"
  shows "enter active key path = Inr (key # active)" "v \<in> vs \<Longrightarrow> clear h (key # active) (refs v)"
  using clear_enter[OF acyc cl, of "\<Union> (refs ` vs)"] content by (auto intro: clear_subset)

lemma write_total:
  assumes acyc: "acyclic (heapEdges h)"
  shows "denotes h v j \<Longrightarrow> wfJson j \<Longrightarrow> clear h active (refs v) \<Longrightarrow> writeValue h active path v = Inr (encode j)"
proof (induction arbitrary: active path rule: denotes.induct)
  case (pointee a v j)
  let ?key = "(PointerKind, a)"
  have "\<forall>r \<in> refs u. (?key, r) \<in> heapEdges h" if "u \<in> {v}" for u
    using pointee(2) that by (auto simp: heapEdges_def)
  note content = enter_content[OF acyc, where active=active and key="?key" and vs="{v}", OF _ _ this]
  show ?case using pointee content(1)[where path=path] content(2)[of v] by simp
next
  case (str s)
  then show ?case by (simp add: writeString_def encodeString_def runesOf_def comp_def)
next
  case (slice a cells n js)
  let ?key = "(SliceKind, a)"
  have "\<forall>r \<in> refs v. (?key, r) \<in> heapEdges h" if "v \<in> set cells" for v
    using slice(2) that by (auto simp: heapEdges_def)
  note content = enter_content[OF acyc, where active=active and key="?key" and vs="set cells", OF _ _ this]
  have "list_all2 (\<lambda>v j. \<forall>path. writeValue h (?key # active) path v = Inr (encode j)) (take n cells) js"
    using slice(1,3,4,5) content(2)
    by (elim list.rel_mono_strong) (auto simp: list_all_iff dest: in_set_takeD)
  then show ?case using slice(1,2,5) content(1)[where path=path] writeElems_total by simp
next
  case (array vs js)
  have "list_all2 (\<lambda>v j. \<forall>path. writeValue h active path v = Inr (encode j)) vs js"
    using array by (elim list.rel_mono_strong) (auto simp: list_all_iff intro: clear_subset)
  then show ?case using writeElems_total by simp
next
  case (mapped a entries named members)
  let ?key = "(MapKind, a)"
  have "\<forall>r \<in> refs v. (?key, r) \<in> heapEdges h" if "v \<in> snd ` set entries" for v
    using mapped(2) that by (fastforce simp: heapEdges_def)
  note content = enter_content[OF acyc, where active=active and key="?key" and vs="snd ` set entries", OF _ _ this]
  have set: "set named = set entries" using mset_eq_setD[OF mapped(3)] .
  have sorted: "named = sortNamed entries" by (rule sorted_members[OF mapped(3,4,5)])
  have "clear h (?key # active) (refs (snd e))" if "e \<in> set named" for e
    using content(2)[of "snd e"] mapped(1,6) set that by auto
  then have "list_all2 (\<lambda>e m. fst e = fst m \<and> (\<forall>path. writeValue h (?key # active) path (snd e) = Inr (encode (snd m)))) named members"
    using mapped(4,5) by (elim list.rel_mono_strong) (auto simp: list_all_iff)
  moreover have "list_all (\<lambda>m. validString (fst m)) members" using mapped(5) by (auto simp: list_all_iff)
  ultimately show ?case using mapped(1,2,6) content(1)[where path=path] sorted writeNamed_total by (simp add: encode_JObject)
next
  case (struct path' infos entries named members)
  have set: "set named = set entries" using mset_eq_setD[OF struct(2)] .
  have sorted: "named = sortNamed entries" by (rule sorted_members[OF struct(2,3,4)])
  have "clear h active (refs (snd e))" if "e \<in> set named" for e
    using structFields_values[OF struct(1), of e] that set struct(5) by (auto simp: clear_def)
  then have "list_all2 (\<lambda>e m. fst e = fst m \<and> (\<forall>path. writeValue h active path (snd e) = Inr (encode (snd m)))) named members"
    using struct(3,4) by (elim list.rel_mono_strong) (auto simp: list_all_iff)
  moreover have "list_all (\<lambda>m. validString (fst m)) members" using struct(4) by (auto simp: list_all_iff)
  ultimately show ?case using structFields_path[OF struct(1), of path] sorted writeNamed_total by (simp add: encode_JObject)
qed auto

theorem Marshal_iff:
  assumes "acyclic (heapEdges h)" "mapsDistinct h"
  shows "Marshal h v = Inr out \<longleftrightarrow> (\<exists>j. wfJson j \<and> denotes h v j \<and> out = encode j)"
  using Marshal_encodes[OF assms(2)] write_total[OF assms(1), of v _ "[]"] by (auto simp: Marshal_def clear_def)

end
