(* ===== verification/CanonicalIdentity.thy ===== *)
theory CanonicalIdentity
  imports CanonicalProofs
begin

text \<open>
  Identities: a digest has the grammar that \<open>ParseDigest\<close> accepts, and the message that \<open>Sum\<close>
  hashes determines the kind, the schema and the payload.
\<close>

lemma byte_nibble [simp]: "byteOf c div 16 < 16"
  using nat_of_char_less_256[of c] by (intro less_mult_imp_div_less) simp

section \<open>Tokens\<close>

lemma decodeRune_below: "fst (decodeRune (c # s)) < 0x80 \<Longrightarrow> byteOf c < 0x80 \<and> decodeRune (c # s) = (byteOf c, 1)"
proof -
  assume low: "fst (decodeRune (c # s)) < 0x80"
  obtain r w where d: "decodeRune (c # s) = (r, w)" by fastforce
  then have "r < 0x80" using low by simp
  then have "\<not> (r = runeError \<and> w = 1)" by (auto simp: runeError_def)
  from encode_decodeRune[OF d this] have "take w (c # s) = [byteChar r]" using \<open>r < 0x80\<close> by (simp add: encodeRune_def)
  then have "c = byteChar r" by (cases w) auto
  then have "byteOf c < 0x80" using \<open>r < 0x80\<close> by simp
  then show ?thesis by (simp add: decodeRune_ascii)
qed

lemma rangeAll_ascii:
  assumes "rangeAll p s" "\<And>r. p r \<Longrightarrow> r < 0x80"
  shows "list_all (p \<circ> byteOf) s"
  using assms(1)
proof (induction s)
  case (Cons c s)
  have runes: "runes (c # s) = decodeRune (c # s) # runes (drop (snd (decodeRune (c # s))) (c # s))" by (subst runes.simps) simp
  then have "p (fst (decodeRune (c # s)))" using Cons.prems by (simp add: rangeAll_def case_prod_unfold)
  with decodeRune_below[of c s] assms(2) have "decodeRune (c # s) = (byteOf c, 1)" "p (byteOf c)" by auto
  then show ?case using Cons runes by (simp add: rangeAll_def)
qed simp

lemma rangeAll_bytes:
  assumes "list_all (\<lambda>c. byteOf c < 0x80 \<and> p (byteOf c)) s"
  shows "rangeAll p s"
  using assms
proof (induction s)
  case (Cons c s)
  then have "runes (c # s) = (byteOf c, 1) # runes s" by (subst runes.simps) (simp add: decodeRune_ascii)
  with Cons show ?case by (simp add: rangeAll_def)
qed (simp add: rangeAll_def)

lemma validateIdentityToken_chars:
  "validateIdentityToken field token = None \<Longrightarrow> CHR '':'' \<notin> set token \<and> CHR 0x00 \<notin> set token"
proof -
  assume "validateIdentityToken field token = None"
  then have "rangeAll (\<lambda>char. \<not> ((char < 97 \<or> char > 122) \<and> (char < 48 \<or> char > 57) \<and> char \<noteq> 45)) token"
    by (auto simp: validateIdentityToken_def split: if_splits)
  then have "list_all ((\<lambda>char. \<not> ((char < 97 \<or> char > 122) \<and> (char < 48 \<or> char > 57) \<and> char \<noteq> 45)) \<circ> byteOf) token"
    by (rule rangeAll_ascii) auto
  then show ?thesis by (auto simp: list_all_iff)
qed

lemma append_separator: "c \<notin> set xs \<Longrightarrow> c \<notin> set ys \<Longrightarrow> xs @ c # s = ys @ c # t \<Longrightarrow> xs = ys \<and> s = t"
proof (induction xs arbitrary: ys)
  case Nil
  then show ?case by (cases ys) auto
next
  case (Cons x xs)
  then show ?case by (cases ys) auto
qed

lemma identityMessage_inj:
  assumes "validateIdentityToken f kind = None" "validateIdentityToken g schema = None"
    "validateIdentityToken f' kind' = None" "validateIdentityToken g' schema' = None"
    "identityMessage kind schema payload = identityMessage kind' schema' payload'"
  shows "kind = kind' \<and> schema = schema' \<and> payload = payload'"
proof -
  have "kind @ CHR '':'' # (schema @ CHR 0x00 # payload) = kind' @ CHR '':'' # (schema' @ CHR 0x00 # payload')"
    using assms(5) by (simp add: identityMessage_def)
  with assms validateIdentityToken_chars append_separator[of "CHR '':''" kind kind'] append_separator[of "CHR 0x00" schema schema']
  show ?thesis by metis
qed

section \<open>Digests\<close>

lemma hexEncode_length: "length (hexEncode bytes) = 2 * length bytes"
  unfolding hexEncode_def by (induction bytes) simp_all

lemma hexChar_range: "d < 16 \<Longrightarrow> let b = byteOf (hexChar d) in b < 0x80 \<and> \<not> ((b < 48 \<or> b > 57) \<and> (b < 97 \<or> b > 102))"
  by (auto simp: hexChar_def Let_def)

lemma hexEncode_chars: "list_all (\<lambda>c. byteOf c < 0x80 \<and> \<not> ((byteOf c < 48 \<or> byteOf c > 57) \<and> (byteOf c < 97 \<or> byteOf c > 102))) (hexEncode bytes)"
proof (induction bytes)
  case (Cons c bytes)
  have "byteOf c div 16 < 16" "byteOf c mod 16 < 16" by simp_all
  from this[THEN hexChar_range] Cons show ?case by (simp add: hexEncode_def Let_def)
qed (simp add: hexEncode_def)

lemma hexEncode_inj: "hexEncode xs = hexEncode ys \<Longrightarrow> xs = ys"
proof (induction xs arbitrary: ys)
  case Nil
  then show ?case by (cases ys) (simp_all add: hexEncode_def)
next
  case (Cons x xs)
  obtain y ys' where ys: "ys = y # ys'" using Cons.prems by (cases ys) (simp_all add: hexEncode_def)
  have "hexChar (byteOf x div 16) = hexChar (byteOf y div 16)" "hexChar (byteOf x mod 16) = hexChar (byteOf y mod 16)"
    and rest: "hexEncode xs = hexEncode ys'" using Cons.prems ys by (simp_all add: hexEncode_def)
  then have "byteOf x div 16 = byteOf y div 16" "byteOf x mod 16 = byteOf y mod 16" by (auto intro!: hexChar_inj)
  then have "byteOf x = byteOf y" by (metis div_mult_mod_eq)
  then show ?case using Cons.IH[OF rest] ys by simp
qed

lemma digest_grammar: "length bytes = 32 \<Longrightarrow> ParseDigest (''sha256:'' @ hexEncode bytes) = Inr (''sha256:'' @ hexEncode bytes)"
  using rangeAll_bytes[OF hexEncode_chars[of bytes]] by (simp add: ParseDigest_def hasPrefix_def hexEncode_length)

lemma Sum_Inr:
  "Sum h kind schema v = Inr digest \<longleftrightarrow> validateIdentityToken ''kind'' kind = None \<and> validateIdentityToken ''schema'' schema = None \<and>
     (\<exists>payload. Marshal h v = Inr payload \<and> digest = ''sha256:'' @ hexEncode (sha256 (identityMessage kind schema payload)))"
  by (auto simp: Sum_def split: option.splits sum.splits)

end
