(* ===== verification/CanonicalSamples.thy ===== *)
theory CanonicalSamples
  imports CanonicalIdentity
begin

text \<open>
  Evaluation of \<open>Marshal\<close> on concrete values whose texts are plain ASCII, for the examples of the
  properties.
\<close>

lemma runesOf_plain: "plainText s \<Longrightarrow> runesOf s = map byteOf s"
  by (simp add: runesOf_def runes_plain comp_def)

lemma utf16Units_plain: "plainText s \<Longrightarrow> utf16Units s = map byteOf s"
proof -
  assume plain: "plainText s"
  then have "concat (map utf16Rune (map byteOf s)) = map byteOf s"
    by (induction s) (auto simp: plainText_Cons utf16Rune_def)
  then show ?thesis using plain by (simp add: utf16Units_runesOf runesOf_plain)
qed

lemma writeString_plain:
  "plainText s \<Longrightarrow> CHR 0x22 \<notin> set s \<Longrightarrow> CHR 0x5C \<notin> set s \<Longrightarrow> writeString s path = Inr (CHR 0x22 # s @ [CHR 0x22])"
proof -
  assume s: "plainText s" "CHR 0x22 \<notin> set s" "CHR 0x5C \<notin> set s"
  have "byteOf c \<noteq> 34 \<and> byteOf c \<noteq> 92" if "c \<in> set s" for c
  proof -
    have "c \<noteq> CHR 0x22" "c \<noteq> CHR 0x5C" using s(2,3) that by auto
    moreover have "byteOf (CHR 0x22) = 34" "byteOf (CHR 0x5C) = 92" by simp_all
    ultimately show ?thesis by (metis of_char_eq_iff)
  qed
  then have "concat (map writeRune (map byteOf s)) = s"
    using s(1) by (induction s) (auto simp: plainText_Cons writeRune_def encodeRune_def)
  then show ?thesis using s(1) by (simp add: writeString_Inr validString_plain encodeString_def runesOf_plain)
qed

lemmas marshal_eval = Marshal_def enter_def sortNamed_def writeString_plain utf16Units_plain plainText_def validString_plain Let_def

end
