(* ===== verification/CanonicalGrammar.thy ===== *)
theory CanonicalGrammar
  imports CanonicalProofs
begin

text \<open>
  The grammar of JSON texts (RFC 8259) without white space, independent of the encoder: which bytes
  are a text of which JSON value. The encoding of a well-formed value is such a text.
\<close>

section \<open>The grammar\<close>

definition hexValue :: "char \<Rightarrow> nat option" where
  "hexValue c =
     (let b = byteOf c
      in if 48 \<le> b \<and> b \<le> 57 then Some (b - 48)
         else if 97 \<le> b \<and> b \<le> 102 then Some (b - 87)
         else if 65 \<le> b \<and> b \<le> 70 then Some (b - 55)
         else None)"

definition unitOf :: "char \<Rightarrow> char \<Rightarrow> char \<Rightarrow> char \<Rightarrow> nat option" where
  "unitOf a b c d =
     (case (hexValue a, hexValue b, hexValue c, hexValue d) of
        (Some w, Some x, Some y, Some z) \<Rightarrow> Some (w * 4096 + x * 256 + y * 16 + z)
      | _ \<Rightarrow> None)"

definition shortEscapes :: "(char \<times> nat) list" where
  "shortEscapes = [(CHR 0x22, 0x22), (CHR 0x5C, 0x5C), (CHR ''/'', 0x2F), (CHR ''b'', 8), (CHR ''f'', 12), (CHR ''n'', 10), (CHR ''r'', 13), (CHR ''t'', 9)]"

inductive jsonChar :: "string \<Rightarrow> nat \<Rightarrow> bool" where
  unescaped: "scalarRune r \<Longrightarrow> 0x20 \<le> r \<Longrightarrow> r \<noteq> 0x22 \<Longrightarrow> r \<noteq> 0x5C \<Longrightarrow> jsonChar (encodeRune r) r"
| short: "(c, r) \<in> set shortEscapes \<Longrightarrow> jsonChar [CHR 0x5C, c] r"
| unit: "unitOf a b c d = Some r \<Longrightarrow> scalarRune r \<Longrightarrow> jsonChar [CHR 0x5C, CHR ''u'', a, b, c, d] r"
| pair: "unitOf a b c d = Some high \<Longrightarrow> unitOf e f g h = Some low \<Longrightarrow> utf16Rune r = [high, low] \<Longrightarrow>
    jsonChar [CHR 0x5C, CHR ''u'', a, b, c, d, CHR 0x5C, CHR ''u'', e, f, g, h] r"

inductive jsonChars :: "string \<Rightarrow> string \<Rightarrow> bool" where
  none: "jsonChars [] []"
| more: "jsonChar s r \<Longrightarrow> jsonChars t str \<Longrightarrow> jsonChars (s @ t) (encodeRune r @ str)"

definition jsonString :: "string \<Rightarrow> string \<Rightarrow> bool" where
  "jsonString t str \<longleftrightarrow> (\<exists>s. t = CHR 0x22 # s @ [CHR 0x22] \<and> jsonChars s str)"

inductive jsonText :: "string \<Rightarrow> json \<Rightarrow> bool"
  and jsonElements :: "string \<Rightarrow> json list \<Rightarrow> bool"
  and jsonMembers :: "string \<Rightarrow> (string \<times> json) list \<Rightarrow> bool" where
  null: "jsonText ''null'' JNull"
| true: "jsonText ''true'' (JBool True)"
| false: "jsonText ''false'' (JBool False)"
| str: "jsonString t s \<Longrightarrow> jsonText t (JString s)"
| emptyArray: "jsonText [CHR 0x5B, CHR 0x5D] (JArray [])"
| array: "jsonElements t js \<Longrightarrow> jsonText (CHR 0x5B # t @ [CHR 0x5D]) (JArray js)"
| emptyObject: "jsonText [CHR 0x7B, CHR 0x7D] (JObject [])"
| obj: "jsonMembers t ms \<Longrightarrow> jsonText (CHR 0x7B # t @ [CHR 0x7D]) (JObject ms)"
| element: "jsonText t j \<Longrightarrow> jsonElements t [j]"
| elements: "jsonText t j \<Longrightarrow> jsonElements u js \<Longrightarrow> jsonElements (t @ CHR '','' # u) (j # js)"
| member: "jsonString k s \<Longrightarrow> jsonText t j \<Longrightarrow> jsonMembers (k @ CHR '':'' # t) [(s, j)]"
| members: "jsonString k s \<Longrightarrow> jsonText t j \<Longrightarrow> jsonMembers u ms \<Longrightarrow>
    jsonMembers (k @ CHR '':'' # t @ CHR '','' # u) ((s, j) # ms)"

section \<open>Encodings are JSON texts\<close>

lemma hexValue_hexChar: "d < 16 \<Longrightarrow> hexValue (hexChar d) = Some d"
  by (auto simp: hexValue_def hexChar_def Let_def)

lemma writeRune_jsonChar:
  assumes "scalarRune r"
  shows "jsonChar (writeRune r) r"
proof -
  have esc: "jsonChar [CHR 0x5C, c] q" if "(c, q) \<in> set shortEscapes" for c q using jsonChar.short[OF that] .
  consider "r = 34" | "r = 92" | "r \<in> {8, 9, 10, 12, 13}" | "r < 0x20" "r \<notin> {8, 9, 10, 12, 13}" | "0x20 \<le> r" "r \<noteq> 34" "r \<noteq> 92" by force
  then show ?thesis
  proof cases
    case 1
    have "byteChar 34 = CHR 0x22" by (simp add: byteChar_def char_of_def bit_0)
    then show ?thesis using 1 esc[of "CHR 0x22" 34] by (simp add: writeRune_def encodeRune_def shortEscapes_def)
  next
    case 2
    have "byteChar 92 = CHR 0x5C" by (simp add: byteChar_def char_of_def bit_0)
    then show ?thesis using 2 esc[of "CHR 0x5C" 92] by (simp add: writeRune_def encodeRune_def shortEscapes_def)
  next
    case 3
    then have "\<exists>c. writeRune r = [CHR 0x5C, c] \<and> (c, r) \<in> set shortEscapes" by (elim insertE) (simp_all add: writeRune_def shortEscapes_def)
    then show ?thesis using esc by metis
  next
    case 4
    then have "r div 16 < 16" "r mod 16 < 16" by simp_all
    moreover have "hexValue (CHR ''0'') = Some 0" by (simp add: hexValue_def)
    moreover have "r div 16 * 16 + r mod 16 = r" by simp
    ultimately have "unitOf (CHR ''0'') (CHR ''0'') (hexChar (r div 16)) (hexChar (r mod 16)) = Some r"
      by (simp only: unitOf_def hexValue_hexChar option.case prod.case) simp
    then show ?thesis using jsonChar.unit[OF _ assms] 4 by (auto simp: writeRune_def)
  next
    case 5
    then show ?thesis using jsonChar.unescaped[OF assms] by (simp add: writeRune_def)
  qed
qed

lemma encodeString_jsonString: "validString s \<Longrightarrow> jsonString (encodeString s) s"
proof -
  assume s: "validString s"
  have "jsonChars (concat (map writeRune (runesOf s))) s" using s
  proof (induction s rule: validString_induct)
    case (rune r t)
    then show ?case using jsonChars.more[OF writeRune_jsonChar] by simp
  qed (simp add: jsonChars.none)
  then show ?thesis by (simp add: jsonString_def encodeString_def)
qed


lemma sepBy_Cons2: "sepBy sep (x # y # ys) = x @ sep # sepBy sep (y # ys)"
  by simp

lemma encodeMember_jsonMembers:
  assumes "list_all (\<lambda>(k, j). validString k \<and> jsonText (encode j) j) ms" "ms \<noteq> []"
  shows "jsonMembers (sepBy (CHR '','') (map encodeMember ms)) ms"
  using assms
proof (induction ms rule: induct_list012)
  case (2 m)
  obtain k j where m: "m = (k, j)" by (cases m)
  show ?case using 2 jsonText_jsonElements_jsonMembers.member[OF encodeString_jsonString[of k], of "encode j" j]
    by (simp add: m encodeMember_def)
next
  case (3 m n ms)
  obtain k j where m: "m = (k, j)" by (cases m)
  have ok: "validString k" "jsonText (encode j) j" using 3(3) by (simp_all add: m)
  have "jsonMembers (sepBy (CHR '','') (map encodeMember (n # ms))) (n # ms)" using 3 by simp
  from jsonText_jsonElements_jsonMembers.members[OF encodeString_jsonString[OF ok(1)] ok(2) this] show ?case
    unfolding list.map(2) sepBy_Cons2 by (simp add: m encodeMember_def)
qed simp

lemma encode_jsonElements:
  assumes "list_all (\<lambda>j. jsonText (encode j) j) js" "js \<noteq> []"
  shows "jsonElements (sepBy (CHR '','') (map encode js)) js"
  using assms
proof (induction js rule: induct_list012)
  case (2 j)
  then show ?case by (simp add: jsonText_jsonElements_jsonMembers.element)
next
  case (3 j k js)
  have "jsonElements (sepBy (CHR '','') (map encode (k # js))) (k # js)" using 3 by simp
  with 3(3) show ?case unfolding list.map(2) sepBy_Cons2
    using jsonText_jsonElements_jsonMembers.elements[of "encode j" j] by simp
qed simp

lemma encode_jsonText: "wfJson j \<Longrightarrow> jsonText (encode j) j"
proof (induction j)
  case (JBool b)
  show ?case by (cases b) (simp_all add: jsonText_jsonElements_jsonMembers.true jsonText_jsonElements_jsonMembers.false)
next
  case (JArray js)
  then have "list_all (\<lambda>j. jsonText (encode j) j) js" by (simp add: list_all_iff)
  then show ?case using encode_jsonElements[of js]
    by (cases "js = []") (simp_all add: jsonText_jsonElements_jsonMembers.emptyArray jsonText_jsonElements_jsonMembers.array)
next
  case (JObject ms)
  then have "list_all (\<lambda>(k, j). validString k \<and> jsonText (encode j) j) ms" by (fastforce simp: list_all_iff)
  then show ?case using encodeMember_jsonMembers[of ms] unfolding encode_JObject
    by (cases "ms = []") (simp_all add: jsonText_jsonElements_jsonMembers.emptyObject jsonText_jsonElements_jsonMembers.obj)
qed (simp_all add: jsonText_jsonElements_jsonMembers.null jsonText_jsonElements_jsonMembers.str encodeString_jsonString)

end
