(* ===== verification/CanonicalProperties.thy ===== *)
theory CanonicalProperties
  imports CanonicalSamples CanonicalGrammar
begin

text \<open>
  The properties of canonical encoding and content identities, \<open>src/internal/canonical/canonical.go\<close>.
\<close>

section \<open>Evaluation of samples\<close>

text \<open>A map of two entries, listed in both orders, and a struct with the same fields.\<close>

definition sampleEntries :: "(string \<times> goValue) list" where
  "sampleEntries = [(''b'', Interface (Some (BoolValue True))), (''a'', Interface (Some (StringValue ''x'')))]"

definition sampleHeap :: heap where
  "sampleHeap = \<lparr>pointees = [], arrays = [], maps = [(1, sampleEntries)]\<rparr>"

definition swappedHeap :: heap where
  "swappedHeap = \<lparr>pointees = [], arrays = [], maps = [(1, rev sampleEntries)]\<rparr>"

definition sampleStruct :: goValue where
  "sampleStruct = StructValue
     [StructFieldInfo ''B'' True ''b'' (BoolValue True), StructFieldInfo ''skipped'' False '''' NumberValue,
      StructFieldInfo ''A'' True ''a,omitempty'' (StringValue ''x'')]"

definition sampleBytes :: string where
  "sampleBytes = [CHR 0x7B, CHR 0x22, CHR ''a'', CHR 0x22, CHR '':'', CHR 0x22, CHR ''x'', CHR 0x22, CHR '','',
     CHR 0x22, CHR ''b'', CHR 0x22, CHR '':''] @ ''true'' @ [CHR 0x7D]"

lemmas sample_eval = marshal_eval sampleEntries_def sampleBytes_def

lemma sample_marshal: "Marshal sampleHeap (MapValue True 1) = Inr sampleBytes"
  by (simp add: sample_eval sampleHeap_def)

lemma sample_struct: "Marshal sampleHeap sampleStruct = Inr sampleBytes"
  by (simp add: sample_eval sampleStruct_def parseJSONTag_def)

lemma sample_heaps: "mapsDistinct sampleHeap" "acyclic (heapEdges sampleHeap)" "sameHeap sampleHeap swappedHeap"
proof -
  show "mapsDistinct sampleHeap" "sameHeap sampleHeap swappedHeap"
    by (simp_all add: mapsDistinct_def sameHeap_def sampleHeap_def swappedHeap_def sampleEntries_def)
  have "heapEdges sampleHeap = {}" by (auto simp: heapEdges_def sampleHeap_def sampleEntries_def split: if_splits)
  then show "acyclic (heapEdges sampleHeap)" by (simp add: acyclic_def)
qed

section \<open>Encoding\<close>

text \<open>
  C33. \<open>Marshal\<close> writes exactly the JSON value that a Go value denotes. For a heap without
  reference cycles, in which each map holds each key once, it returns some bytes if and only if
  they are the encoding of a JSON value that the Go value denotes, with valid UTF-8 strings and
  with object keys strictly increasing in UTF-16 order. So numbers, unsupported kinds, invalid
  text and duplicate fields are refused, everything else is written, and the cycle check refuses
  nothing that is acyclic.
\<close>

theorem marshal_exact:
  assumes "acyclic (heapEdges h)" "mapsDistinct h"
  shows "Marshal h v = Inr out \<longleftrightarrow> (\<exists>j. wfJson j \<and> denotes h v j \<and> out = encode j)"
  by (rule Marshal_iff[OF assms])

theorem marshal_exact_witness:
  "\<exists>j. wfJson j \<and> denotes sampleHeap (MapValue True 1) j \<and> sampleBytes = encode j"
  using marshal_exact[OF sample_heaps(2,1), of "MapValue True 1" sampleBytes] sample_marshal by blast

text \<open>
  C34. The bytes that \<open>Marshal\<close> returns are a JSON text, in the grammar of RFC 8259 and without
  white space, of a JSON value that the Go value denotes: strings are quoted with the escapes
  the grammar demands, and elements and members are separated as it demands.
\<close>

theorem marshal_json:
  assumes "mapsDistinct h" "Marshal h v = Inr out"
  shows "\<exists>j. denotes h v j \<and> jsonText out j"
  using Marshal_encodes[OF assms] encode_jsonText by blast

theorem marshal_json_witness: "\<exists>j. denotes sampleHeap sampleStruct j \<and> jsonText sampleBytes j"
  by (rule marshal_json[OF sample_heaps(1) sample_struct])

text \<open>
  Canonical bytes have one meaning: two Go values, in any two heaps, whose canonical bytes
  are equal up to whatever follows them denote the same JSON value, and what follows is equal.
\<close>

theorem marshal_injective:
  assumes "mapsDistinct h" "mapsDistinct h'" "Marshal h v = Inr out" "Marshal h' v' = Inr out'" "out @ rest = out' @ rest'"
  shows "\<exists>j. wfJson j \<and> denotes h v j \<and> denotes h' v' j \<and> out = encode j \<and> out' = encode j \<and> rest = rest'"
proof -
  obtain j j' where "wfJson j" "denotes h v j" "out = encode j" "wfJson j'" "denotes h' v' j'" "out' = encode j'"
    using Marshal_encodes[OF assms(1,3)] Marshal_encodes[OF assms(2,4)] by blast
  then show ?thesis using json.cancel[of j j' rest rest'] assms(5) by blast
qed

theorem marshal_injective_witness:
  "\<exists>j. wfJson j \<and> denotes sampleHeap (MapValue True 1) j \<and> denotes sampleHeap sampleStruct j \<and>
     sampleBytes = encode j \<and> sampleBytes = encode j \<and> ''rest'' = ''rest''"
  by (rule marshal_injective[OF sample_heaps(1) sample_heaps(1) sample_marshal sample_struct refl])

text \<open>
  The encoding does not depend on the order in which Go happens to iterate over maps: for
  two heaps that differ only in the order of the entries of their maps, \<open>Marshal\<close> succeeds on
  both or on neither, with the same bytes.
\<close>

theorem marshal_map_order:
  assumes "sameHeap h h'" "mapsDistinct h"
  shows "Marshal h v = Inr out \<longleftrightarrow> Marshal h' v = Inr out"
  using Marshal_sameHeap[OF assms] Marshal_sameHeap[OF sameHeap_sym[OF assms(1)] sameHeap_mapsDistinct[OF assms]] by blast

theorem marshal_map_order_witness:
  "sameHeap sampleHeap swappedHeap \<and> sampleHeap \<noteq> swappedHeap \<and> Marshal swappedHeap (MapValue True 1) = Inr sampleBytes"
  using marshal_map_order[OF sample_heaps(3,1), of "MapValue True 1" sampleBytes] sample_marshal sample_heaps(3)
  by (simp add: sampleHeap_def swappedHeap_def sampleEntries_def)

section \<open>Identities\<close>

text \<open>
  C35. The digest that \<open>Sum\<close> returns is one that \<open>ParseDigest\<close> accepts unchanged: the prefix
  sha256 and 64 lowercase hexadecimal digits.
\<close>

theorem sum_digest:
  assumes "Sum h kind schema v = Inr digest"
  shows "ParseDigest digest = Inr digest"
  using assms digest_grammar[OF sha256_length] by (auto simp: Sum_Inr)

lemma plan_tokens: "validateIdentityToken ''kind'' ''plan'' = None" "validateIdentityToken ''schema'' ''plan-v1'' = None"
  by (simp_all add: validateIdentityToken_def rangeAll_def runes_plain plainText_def)

lemma sample_sum:
  "Sum sampleHeap ''plan'' ''plan-v1'' (MapValue True 1) =
     Inr (''sha256:'' @ hexEncode (sha256 (identityMessage ''plan'' ''plan-v1'' sampleBytes)))"
  "Sum sampleHeap ''plan'' ''plan-v1'' sampleStruct =
     Inr (''sha256:'' @ hexEncode (sha256 (identityMessage ''plan'' ''plan-v1'' sampleBytes)))"
  unfolding Sum_Inr using plan_tokens sample_marshal sample_struct by blast+

theorem sum_digest_witness:
  "\<exists>digest. Sum sampleHeap ''plan'' ''plan-v1'' sampleStruct = Inr digest \<and> ParseDigest digest = Inr digest"
  using sum_digest[OF sample_sum(2)] sample_sum(2) by blast

text \<open>
  An identity separates kinds, schemas and values: if \<open>Sum\<close> returns the same digest twice
  and SHA-256 does not collide on the two messages it hashed, then the kinds, the schemas and the
  JSON values are the same.
\<close>

theorem sum_identity:
  assumes "mapsDistinct h" "mapsDistinct h'" "Marshal h v = Inr payload" "Marshal h' v' = Inr payload'"
    and "inj_on sha256 {identityMessage kind schema payload, identityMessage kind' schema' payload'}"
    and "Sum h kind schema v = Inr digest" "Sum h' kind' schema' v' = Inr digest"
  shows "kind = kind' \<and> schema = schema' \<and> (\<exists>j. wfJson j \<and> denotes h v j \<and> denotes h' v' j)"
proof -
  have tokens: "validateIdentityToken ''kind'' kind = None" "validateIdentityToken ''schema'' schema = None"
    "validateIdentityToken ''kind'' kind' = None" "validateIdentityToken ''schema'' schema' = None"
    and hex: "hexEncode (sha256 (identityMessage kind schema payload)) = hexEncode (sha256 (identityMessage kind' schema' payload'))"
    using assms(3,4,6,7) by (auto simp: Sum_Inr)
  have "identityMessage kind schema payload = identityMessage kind' schema' payload'"
    using inj_onD[OF assms(5) hexEncode_inj[OF hex]] by simp
  from identityMessage_inj[OF tokens this] have same: "kind = kind'" "schema = schema'" "payload = payload'" by auto
  obtain j j' where j: "wfJson j" "denotes h v j" "payload = encode j" "wfJson j'" "denotes h' v' j'" "payload' = encode j'"
    using Marshal_encodes[OF assms(1,3)] Marshal_encodes[OF assms(2,4)] by blast
  then have "j = j'" using same(3) json.unique[of j j' "[]" "[]"] by simp
  with j same show ?thesis by blast
qed

theorem sum_identity_witness:
  "''plan'' = ''plan'' \<and> ''plan-v1'' = ''plan-v1'' \<and>
     (\<exists>j. wfJson j \<and> denotes sampleHeap (MapValue True 1) j \<and> denotes sampleHeap sampleStruct j)"
  by (rule sum_identity[OF sample_heaps(1) sample_heaps(1) sample_marshal sample_struct _ sample_sum]) simp

end
