(* ===== verification/ProviderGraph.thy ===== *)
theory ProviderGraph
  imports Prelude "HOL-Library.Product_Lexorder"
begin

text \<open>
  The initialization order of provider graphs: \<open>StableProviderNodeOrder\<close> and its comparison in
  \<open>src/internal/providers/graph.go\<close>. The map of indegrees is an association list, so that the
  loop over the ready nodes is a total function: it ends because a node becomes ready only when
  its indegree falls from one to zero. The iteration over the map that collects the first ready
  nodes has no order in Go; the ready nodes are sorted before one is taken, and the properties
  show that the result does not depend on the order of nodes and edges.
\<close>

section \<open>Nodes and edges\<close>

type_synonym NodeID = string

record QualifiedOutput =
  qoComponent :: string
  qoName :: string

record ProviderEdgeV1 =
  edSupplier :: NodeID
  edConsumer :: NodeID
  edRequirementID :: string
  edOutput :: QualifiedOutput

datatype graph_error =
    DuplicateNode NodeID | SupplierMissing NodeID | ConsumerMissing NodeID | NoCompleteOrder

definition nodeInitializationPriority :: "NodeID \<Rightarrow> nat" where
  "nodeInitializationPriority node = (if node = ''base'' then 0 else if node = ''apt'' then 1 else 2)"

definition compareReadyNodes :: "NodeID \<Rightarrow> NodeID \<Rightarrow> int" where
  "compareReadyNodes left right =
     (if nodeInitializationPriority left < nodeInitializationPriority right then -1
      else if nodeInitializationPriority left > nodeInitializationPriority right then 1
      else if left < right then -1
      else if left > right then 1
      else 0)"

text \<open>The key that \<open>compareReadyNodes\<close> orders by, for \<open>sort.Slice\<close>.\<close>

definition readyKey :: "NodeID \<Rightarrow> nat \<times> NodeID" where
  "readyKey node = (nodeInitializationPriority node, node)"

definition sortReady :: "NodeID list \<Rightarrow> NodeID list" where
  "sortReady = sort_key readyKey"

section \<open>The order\<close>

type_synonym indegrees = "(NodeID \<times> int) list"

definition addIndegree :: "NodeID \<Rightarrow> int \<Rightarrow> indegrees \<Rightarrow> indegrees" where
  "addIndegree node delta = map (\<lambda>(k, d). (k, if k = node then d + delta else d))"

fun nodeLoop :: "indegrees \<Rightarrow> NodeID list \<Rightarrow> graph_error + indegrees" where
  "nodeLoop indegree [] = Inr indegree"
| "nodeLoop indegree (node # rest) =
     (if map_of indegree node \<noteq> None then Inl (DuplicateNode node) else nodeLoop (indegree @ [(node, 0)]) rest)"

fun edgeLoop :: "indegrees \<Rightarrow> ProviderEdgeV1 list \<Rightarrow> graph_error + indegrees" where
  "edgeLoop indegree [] = Inr indegree"
| "edgeLoop indegree (edge # rest) =
     (if map_of indegree (edSupplier edge) = None then Inl (SupplierMissing (edSupplier edge))
      else if map_of indegree (edConsumer edge) = None then Inl (ConsumerMissing (edConsumer edge))
      else edgeLoop (addIndegree (edConsumer edge) 1 indegree) rest)"

text \<open>\<open>adjacency[node]\<close> after the loop over the edges.\<close>

definition consumersOf :: "ProviderEdgeV1 list \<Rightarrow> NodeID \<Rightarrow> NodeID list" where
  "consumersOf edges node = map edConsumer (filter (\<lambda>e. edSupplier e = node) edges)"

fun releaseLoop :: "indegrees \<Rightarrow> NodeID list \<Rightarrow> NodeID list \<Rightarrow> indegrees \<times> NodeID list" where
  "releaseLoop indegree ready [] = (indegree, ready)"
| "releaseLoop indegree ready (consumer # rest) =
     (let indegree' = addIndegree consumer (-1) indegree
      in releaseLoop indegree' (if map_of indegree' consumer = Some 0 then ready @ [consumer] else ready) rest)"

definition pendingCount :: "indegrees \<Rightarrow> nat" where
  "pendingCount indegree = length (filter (\<lambda>(k, d). d > 0) indegree)"

lemma addIndegree_pending:
  "pendingCount (addIndegree node (-1) indegree) \<le> pendingCount indegree"
  "map_of (addIndegree node (-1) indegree) node = Some 0 \<Longrightarrow> pendingCount (addIndegree node (-1) indegree) < pendingCount indegree"
proof -
  show le: "pendingCount (addIndegree node (-1) indegree) \<le> pendingCount indegree" for indegree
    by (induction indegree) (auto simp: pendingCount_def addIndegree_def split: if_splits)
  show "map_of (addIndegree node (-1) indegree) node = Some 0 \<Longrightarrow> pendingCount (addIndegree node (-1) indegree) < pendingCount indegree"
  proof (induction indegree)
    case (Cons e indegree)
    then show ?case using le[of indegree] by (cases e) (auto simp: pendingCount_def addIndegree_def split: if_splits)
  qed (simp add: addIndegree_def)
qed

lemma releaseLoop_measure:
  "length (snd (releaseLoop indegree ready consumers)) + pendingCount (fst (releaseLoop indegree ready consumers)) \<le> length ready + pendingCount indegree"
proof (induction consumers arbitrary: indegree ready)
  case (Cons c consumers)
  let ?i = "addIndegree c (-1) indegree" and ?r = "if map_of (addIndegree c (-1) indegree) c = Some 0 then ready @ [c] else ready"
  have "length ?r + pendingCount ?i \<le> length ready + pendingCount indegree"
    using addIndegree_pending[of c indegree] by auto
  then show ?case using Cons[of ?i ?r] by (simp add: Let_def)
qed simp

function orderLoop :: "ProviderEdgeV1 list \<Rightarrow> indegrees \<Rightarrow> NodeID list \<Rightarrow> NodeID list \<Rightarrow> NodeID list" where
  "orderLoop edges indegree ready order =
     (case sortReady ready of
        [] \<Rightarrow> order
      | node # rest \<Rightarrow>
          (let released = releaseLoop indegree rest (consumersOf edges node)
           in orderLoop edges (fst released) (snd released) (order @ [node])))"
  by pat_completeness simp
termination
proof (relation "measure (\<lambda>(edges, indegree, ready, order). length ready + pendingCount indegree)")
  fix edges :: "ProviderEdgeV1 list" and indegree ready order node rest released
  assume sorted: "sortReady ready = node # rest"
    and released: "released = releaseLoop indegree rest (consumersOf edges node)"
  have "length ready = Suc (length rest)"
    using arg_cong[OF sorted, of length] by (simp add: sortReady_def)
  then show "((edges, fst released, snd released, order @ [node]), edges, indegree, ready, order)
      \<in> measure (\<lambda>(edges, indegree, ready, order). length ready + pendingCount indegree)"
    using releaseLoop_measure[of indegree rest "consumersOf edges node"] released by simp
qed simp

declare orderLoop.simps [simp del]

definition StableProviderNodeOrder :: "NodeID list \<Rightarrow> ProviderEdgeV1 list \<Rightarrow> graph_error + NodeID list" where
  "StableProviderNodeOrder nodes edges =
     (case nodeLoop [] nodes of
        Inl e \<Rightarrow> Inl e
      | Inr zero \<Rightarrow>
          (case edgeLoop zero edges of
             Inl e \<Rightarrow> Inl e
           | Inr indegree \<Rightarrow>
               (let ready = map fst (filter (\<lambda>(k, d). d = 0) indegree);
                    order = orderLoop edges indegree ready []
                in if length order \<noteq> length nodes then Inl NoCompleteOrder else Inr order)))"

end
