(* ===== verification/BlueprintNames.thy ===== *)
theory BlueprintNames
  imports GoText
begin

text \<open>
  Names and ownership identifiers of blueprints: \<open>src/internal/blueprint/name.go\<close> and the
  identifier functions of \<open>src/internal/blueprint/ownership.go\<close>. The \<open>field\<close> parameter of the
  validators appears in their error messages only; it is part of the errors.
\<close>

section \<open>Names\<close>

datatype name_error =
    NotPortable string
  | PlatformReserved string string
  | NotProviderIdentifier string
  | NotPythonDistribution string
  | ReservedRoot string
  | NotContribution string
  | UnsupportedContributionProvider string string

definition isAlnum :: "char \<Rightarrow> bool" where
  "isAlnum c \<longleftrightarrow> isLower c \<or> isUpper c \<or> isDigit c"

definition isNameChar :: "char \<Rightarrow> bool" where
  "isNameChar c \<longleftrightarrow> isAlnum c \<or> c \<in> {CHR ''.'', CHR ''_'', CHR ''-''}"

text \<open>The patterns \<open>portableNamePattern\<close>, \<open>providerIdentifierPattern\<close> and \<open>pythonDistributionNamePattern\<close>.\<close>

fun portableNamePattern :: "string \<Rightarrow> bool" where
  "portableNamePattern [] = False"
| "portableNamePattern (c # s) = (isAlnum c \<and> list_all isNameChar s)"

fun providerIdentifierPattern :: "string \<Rightarrow> bool" where
  "providerIdentifierPattern [] = False"
| "providerIdentifierPattern (c # s) = (isLower c \<and> list_all (\<lambda>c. isLower c \<or> isDigit c \<or> c \<in> {CHR ''_'', CHR ''-''}) s)"

fun pythonDistributionNamePattern :: "string \<Rightarrow> bool" where
  "pythonDistributionNamePattern [] = False"
| "pythonDistributionNamePattern (c # s) =
     (isAlnum c \<and> (s = [] \<or> (list_all isNameChar (butlast s) \<and> isAlnum (List.last s))))"

definition windowsReservedNames :: "string list" where
  "windowsReservedNames =
     [''CON'', ''PRN'', ''AUX'', ''NUL'',
      ''COM1'', ''COM2'', ''COM3'', ''COM4'', ''COM5'', ''COM6'', ''COM7'', ''COM8'', ''COM9'',
      ''LPT1'', ''LPT2'', ''LPT3'', ''LPT4'', ''LPT5'', ''LPT6'', ''LPT7'', ''LPT8'', ''LPT9'']"

text \<open>\<open>strings.ToUpper\<close> on the ASCII names that the pattern lets through.\<close>

definition upperChar :: "char \<Rightarrow> char" where
  "upperChar c = (if isLower c then char_of (byteOf c - 32) else c)"

definition stemOf :: "string \<Rightarrow> string" where
  "stemOf name = (case cutOn (CHR ''.'') name of None \<Rightarrow> name | Some (stem, _) \<Rightarrow> stem)"

definition validatePortableName :: "string \<Rightarrow> string \<Rightarrow> name_error check" where
  "validatePortableName field name =
     (if \<not> portableNamePattern name \<or> hasSuffix name ''.'' then Some (NotPortable field)
      else if map upperChar (stemOf name) \<in> set windowsReservedNames then Some (PlatformReserved field name)
      else None)"

definition ValidateEnvironmentID :: "string \<Rightarrow> string \<Rightarrow> name_error check" where
  "ValidateEnvironmentID field name = validatePortableName field name"

definition DefaultControlScriptName :: string where
  "DefaultControlScriptName = ''appctl''"

definition resolveNames :: "string \<Rightarrow> string \<Rightarrow> name_error + (string \<times> string)" where
  "resolveNames environmentID environmentControlScript =
     (let ident = trimSpace environmentID
      in case validatePortableName ''environment.id'' ident of
           Some e \<Rightarrow> Inl e
         | None \<Rightarrow>
             (let trimmed = trimSpace environmentControlScript;
                  controlScript = (if trimmed = [] then DefaultControlScriptName else trimmed)
              in case validatePortableName ''environment.control_script'' controlScript of
                   Some e \<Rightarrow> Inl e
                 | None \<Rightarrow> Inr (ident, controlScript)))"

definition validateProviderIdentifier :: "string \<Rightarrow> string \<Rightarrow> name_error check" where
  "validateProviderIdentifier field name = (if \<not> providerIdentifierPattern name then Some (NotProviderIdentifier field) else None)"

definition ValidateProviderIdentifier :: "string \<Rightarrow> string \<Rightarrow> name_error check" where
  "ValidateProviderIdentifier field name = validateProviderIdentifier field name"

definition ValidatePythonDistributionName :: "string \<Rightarrow> string \<Rightarrow> name_error check" where
  "ValidatePythonDistributionName field name =
     (if \<not> pythonDistributionNamePattern name then Some (NotPythonDistribution field) else None)"

definition validateNonBaseComponentIdentifier :: "string \<Rightarrow> string \<Rightarrow> name_error check" where
  "validateNonBaseComponentIdentifier field name =
     (case validateProviderIdentifier field name of
        Some e \<Rightarrow> Some e
      | None \<Rightarrow> if name = ''base'' then Some (ReservedRoot field) else None)"

section \<open>Ownership identifiers\<close>

definition EnvironmentContributionID :: "string \<Rightarrow> string" where
  "EnvironmentContributionID provider = ''environment/'' @ provider"

definition ApplicationID :: "string \<Rightarrow> string" where
  "ApplicationID application = ''application/'' @ application"

definition ApplicationContributionID :: "string \<Rightarrow> string \<Rightarrow> string" where
  "ApplicationContributionID application provider = ApplicationID application @ ''/'' @ provider"

definition ApplicationExecutableID :: "string \<Rightarrow> string \<Rightarrow> string" where
  "ApplicationExecutableID application executable = ApplicationID application @ ''/executable/'' @ executable"

definition ApplicationContributionOwner :: "string \<Rightarrow> string \<Rightarrow> string option" where
  "ApplicationContributionOwner ident provider =
     (case splitOn (CHR ''/'') ident of
        [a, application, p] \<Rightarrow>
          if a \<noteq> ''application'' \<or> p \<noteq> provider then None
          else if validateProviderIdentifier ''application contribution'' application \<noteq> None then None
          else Some application
      | _ \<Rightarrow> None)"

definition ContributionRuntimeOwner :: "string \<Rightarrow> string \<Rightarrow> string" where
  "ContributionRuntimeOwner ident provider =
     (case ApplicationContributionOwner ident provider of Some application \<Rightarrow> ApplicationID application | None \<Rightarrow> ident)"

definition validateContributionProvider :: "string \<Rightarrow> string \<Rightarrow> name_error check" where
  "validateContributionProvider field provider =
     (if provider = ''os'' \<or> provider = ''python'' then None else Some (UnsupportedContributionProvider field provider))"

definition ValidateContributionID :: "string \<Rightarrow> string \<Rightarrow> name_error check" where
  "ValidateContributionID field ident =
     (case splitOn (CHR ''/'') ident of
        [a] \<Rightarrow> if a = ''base'' then None else Some (NotContribution field)
      | [a, provider] \<Rightarrow> if a = ''environment'' then validateContributionProvider field provider else Some (NotContribution field)
      | [a, application, provider] \<Rightarrow>
          if a = ''application'' then
            (case validateProviderIdentifier (field @ '' application'') application of
               Some e \<Rightarrow> Some e
             | None \<Rightarrow> validateContributionProvider field provider)
          else Some (NotContribution field)
      | _ \<Rightarrow> Some (NotContribution field))"

definition ValidateContributionReference :: "string \<Rightarrow> string \<Rightarrow> name_error check" where
  "ValidateContributionReference field ident =
     (if ValidateContributionID field ident = None then None else validateProviderIdentifier field ident)"

lemma identifier_chars: "providerIdentifierPattern name \<Longrightarrow> CHR ''/'' \<notin> set name \<and> CHR 0x00 \<notin> set name"
  by (cases name) (auto simp: list_all_iff isLower_def isDigit_def)

lemma application_owner:
  assumes "providerIdentifierPattern application" "CHR ''/'' \<notin> set provider"
  shows "ApplicationContributionOwner (ApplicationContributionID application provider) provider = Some application"
proof -
  have "splitOn (CHR ''/'') (''application'' @ CHR ''/'' # (application @ CHR ''/'' # provider)) = [''application'', application, provider]"
    using identifier_chars[OF assms(1)] assms(2) splitOn_join[of "CHR ''/''" "''application''"] splitOn_join[of "CHR ''/''" application]
      splitOn_absent[of "CHR ''/''" provider] by (simp del: splitOn.simps)
  then show ?thesis using assms(1)
    by (simp add: ApplicationContributionOwner_def ApplicationContributionID_def ApplicationID_def validateProviderIdentifier_def del: splitOn.simps)
qed

lemma reference_cases:
  assumes "ValidateContributionReference field ident = None"
  shows "providerIdentifierPattern ident \<or> ident = EnvironmentContributionID ''os'' \<or> ident = EnvironmentContributionID ''python'' \<or>
    (\<exists>application. providerIdentifierPattern application \<and>
       (ident = ApplicationContributionID application ''os'' \<or> ident = ApplicationContributionID application ''python''))"
proof -
  have base: "providerIdentifierPattern ''base''" by (simp add: isLower_def)
  consider "ValidateContributionID field ident = None" | "validateProviderIdentifier field ident = None"
    using assms by (auto simp: ValidateContributionReference_def split: if_splits)
  then show ?thesis
  proof cases
    case 1
    have join: "joinWith ''/'' (splitOn (CHR ''/'') ident) = ident" by (rule joinWith_splitOn)
    from 1 consider "splitOn (CHR ''/'') ident = [''base'']"
      | p where "splitOn (CHR ''/'') ident = [''environment'', p]" "p = ''os'' \<or> p = ''python''"
      | a p where "splitOn (CHR ''/'') ident = [''application'', a, p]" "providerIdentifierPattern a" "p = ''os'' \<or> p = ''python''"
      unfolding ValidateContributionID_def
      by (auto simp: validateContributionProvider_def validateProviderIdentifier_def split: list.splits if_splits option.splits)
    then show ?thesis
    proof cases
      case 1
      with join have "ident = ''base''" by simp
      with base show ?thesis by simp
    next
      case (2 p)
      with join have "ident = EnvironmentContributionID p" by (simp add: EnvironmentContributionID_def)
      with 2 show ?thesis by auto
    next
      case (3 a p)
      with join have "ident = ApplicationContributionID a p" by (simp add: ApplicationContributionID_def ApplicationID_def)
      with 3 show ?thesis by auto
    qed
  next
    case 2
    then show ?thesis by (simp add: validateProviderIdentifier_def split: if_splits)
  qed
qed

lemma reference_no_nul: "ValidateContributionReference field ident = None \<Longrightarrow> CHR 0x00 \<notin> set ident"
  using reference_cases[of field ident] identifier_chars
  by (auto simp: EnvironmentContributionID_def ApplicationContributionID_def ApplicationID_def)

end
