(* ===== verification/ProviderPlan.thy ===== *)
theory ProviderPlan
  imports ProviderGraph BlueprintNames Canonical
begin

text \<open>
  Provider plans: the data of \<open>src/internal/providers/plan.go\<close>, the validators of nodes and
  requirement declarations, and the validators of a plan and of the edges selected at run time.

  A Go map that is filled in a loop is a map; where the code ranges over a map only to report an
  error, the key in the error is the first in the order of insertion. Provider data are
  canonical objects in the heap of \<open>Canonical\<close>, given by the address of their map.
\<close>

section \<open>Data\<close>

type_synonym ComponentType = string

record CanonicalProviderRequest =
  rqSchema :: string
  rqProvider :: ComponentType
  rqValue :: addr

record CanonicalProviderData =
  pdSchema :: string
  pdValue :: addr

record OutputDeclaration =
  odSupplierComponent :: string
  odName :: string
  odKind :: string
  odCandidatePath :: string
  odProvenance :: CanonicalProviderData

record ExecutableRequirement =
  erID :: string
  erCommand :: string
  erVersionConstraint :: string
  erSupplier :: string
  erValidationPolicy :: string

record FileRequirement =
  frID :: string
  frPath :: string
  frKind :: string
  frExpectedSHA256 :: string
  frValidationPolicy :: string

record RequirementDeclaration =
  rdExecutables :: "ExecutableRequirement slice"
  rdFiles :: "FileRequirement slice"
  rdProviderData :: CanonicalProviderData

record NodeSpec =
  nsID :: NodeID
  nsProvider :: ComponentType
  nsComponents :: "string slice"
  nsRequest :: CanonicalProviderRequest
  nsOutputDeclarations :: "OutputDeclaration slice"
  nsRequirements :: RequirementDeclaration

record ProviderPlanV1 =
  ppSchema :: string
  ppNodes :: "NodeSpec slice"
  ppEdges :: "ProviderEdgeV1 slice"

datatype plan_error =
    PlanSchema
  | PlanArrays
  | NodesUnsorted
  | NodeInvalid NodeID plan_error
  | ComponentTwice string NodeID NodeID
  | BaseRoot
  | EdgesUnsorted
  | UnknownNode NodeID NodeID
  | SelfEdge string
  | BaseConsumes
  | NotExplicit string
  | WrongSupplier string
  | WrongOutput string
  | UndeclaredOutput string QualifiedOutput
  | MultipleEdges string NodeID
  | NoEdge string
  | StructuralCycle NodeID
  | SelectedInvalid NodeID NodeID
  | SelectedMismatch string
  | SelectedNotEarlier string
  | SelectedCycle plan_error
  | UnsupportedProvider ComponentType
  | NodeIDMismatch
  | ReservedBase
  | NodeArrays
  | NameInvalid name_error
  | ComponentsUnsorted
  | RequestProvider
  | RequestSchema
  | RequestValue
  | RequestEncoding canonical_error
  | OutputsUnsorted
  | OutputForeignComponent string string
  | OutputKind string
  | NotLinuxPath string string
  | DataIncomplete string
  | DataEncoding string canonical_error
  | RequirementArrays
  | RequirementsUnsorted
  | RequirementTwice string
  | ValidationPolicy
  | RequirementPolicy string
  | RequirementDigest string canonical_error
  | OrderError graph_error

definition ofName :: "name_error check \<Rightarrow> plan_error check" where
  "ofName = wrap NameInvalid"

section \<open>Nodes\<close>

definition validateComponentProvider :: "ComponentType \<Rightarrow> plan_error check" where
  "validateComponentProvider provider =
     (if provider \<in> {''base'', ''apt'', ''python''} then None else Some (UnsupportedProvider provider))"

definition requestValue :: "CanonicalProviderRequest \<Rightarrow> goValue" where
  "requestValue request = StructValue
     [StructFieldInfo ''Schema'' True ''schema'' (StringValue (rqSchema request)),
      StructFieldInfo ''Provider'' True ''provider'' (StringValue (rqProvider request)),
      StructFieldInfo ''Value'' True ''value'' (MapValue True (rqValue request))]"

definition CanonicalProviderRequestBytes :: "heap \<Rightarrow> CanonicalProviderRequest \<Rightarrow> plan_error + string" where
  "CanonicalProviderRequestBytes h request =
     (case validateComponentProvider (rqProvider request) of
        Some e \<Rightarrow> Inl e
      | None \<Rightarrow>
          if rqSchema request = [] then Inl RequestSchema
          else if rqValue request = 0 then Inl RequestValue
          else (case Marshal h (requestValue request) of Inl e \<Rightarrow> Inl (RequestEncoding e) | Inr encoded \<Rightarrow> Inr encoded))"

definition dataValue :: "CanonicalProviderData \<Rightarrow> goValue" where
  "dataValue envelope = StructValue
     [StructFieldInfo ''Schema'' True ''schema'' (StringValue (pdSchema envelope)),
      StructFieldInfo ''Value'' True ''value'' (MapValue True (pdValue envelope))]"

definition validateCanonicalProviderData :: "heap \<Rightarrow> string \<Rightarrow> CanonicalProviderData \<Rightarrow> plan_error check" where
  "validateCanonicalProviderData h field envelope =
     (if pdSchema envelope = [] \<or> pdValue envelope = 0 then Some (DataIncomplete field)
      else (case Marshal h (dataValue envelope) of Inl e \<Rightarrow> Some (DataEncoding field e) | Inr _ \<Rightarrow> None))"

definition validateAbsoluteLinuxPath :: "string \<Rightarrow> string \<Rightarrow> plan_error check" where
  "validateAbsoluteLinuxPath field path =
     (if path = [] \<or> \<not> isAbs path \<or> cleanPath path \<noteq> path \<or> CHR 0x5C \<in> set path then Some (NotLinuxPath field path) else None)"

definition validateValidationPolicy :: "string \<Rightarrow> plan_error check" where
  "validateValidationPolicy policy = (if policy \<noteq> ''compatible'' \<and> policy \<noteq> ''unchanged'' then Some ValidationPolicy else None)"

definition validateNodeID :: "NodeID \<Rightarrow> ComponentType \<Rightarrow> string list \<Rightarrow> plan_error check" where
  "validateNodeID node provider components =
     (case validateComponentProvider provider of
        Some e \<Rightarrow> Some e
      | None \<Rightarrow>
          if provider = ''base'' then
            (if node \<noteq> ''base'' \<or> length components \<noteq> 1 \<or> components ! 0 \<noteq> ''base'' then Some NodeIDMismatch else None)
          else if provider = ''apt'' then
            (if node \<noteq> ''apt'' \<or> components = [] then Some NodeIDMismatch
             else if ''base'' \<in> set components then Some ReservedBase
             else None)
          else
            (case components of
               [component] \<Rightarrow>
                 (let expected = (case ApplicationContributionOwner component ''python'' of
                                    Some application \<Rightarrow> ''python/'' @ ApplicationID application
                                  | None \<Rightarrow> ''python/'' @ component)
                  in if node \<noteq> expected then Some NodeIDMismatch
                     else if component = ''base'' then Some ReservedBase
                     else None)
             | _ \<Rightarrow> Some NodeIDMismatch))"

definition compareOutputDeclarations :: "OutputDeclaration \<Rightarrow> OutputDeclaration \<Rightarrow> int" where
  "compareOutputDeclarations left right =
     (if odSupplierComponent left < odSupplierComponent right then -1
      else if odSupplierComponent left > odSupplierComponent right then 1
      else if odName left < odName right then -1
      else if odName left > odName right then 1
      else 0)"

fun componentsLoop :: "string option \<Rightarrow> string list \<Rightarrow> plan_error check" where
  "componentsLoop prev [] = None"
| "componentsLoop prev (component # rest) =
     orElse (ofName (ValidateContributionReference ''contribution'' component))
       (if (case prev of None \<Rightarrow> False | Some p \<Rightarrow> p \<ge> component) then Some ComponentsUnsorted
        else componentsLoop (Some component) rest)"

fun outputsLoop :: "heap \<Rightarrow> string list \<Rightarrow> OutputDeclaration option \<Rightarrow> OutputDeclaration list \<Rightarrow> plan_error check" where
  "outputsLoop h components prev [] = None"
| "outputsLoop h components prev (out # rest) =
     (if (case prev of None \<Rightarrow> False | Some p \<Rightarrow> compareOutputDeclarations p out \<ge> 0) then Some OutputsUnsorted
      else if odSupplierComponent out \<notin> set components then Some (OutputForeignComponent (odName out) (odSupplierComponent out))
      else orElse (ofName (ValidateProviderIdentifier ''output name'' (odName out)))
        (if odKind out \<noteq> ''executable'' then Some (OutputKind (odName out))
         else orElse (validateAbsoluteLinuxPath ''output candidate path'' (odCandidatePath out))
           (orElse (validateCanonicalProviderData h ''output provenance'' (odProvenance out))
             (outputsLoop h components (Some out) rest))))"

section \<open>Requirement declarations\<close>

definition validateRequirementID :: "string \<Rightarrow> string list \<Rightarrow> plan_error check" where
  "validateRequirementID ident seen =
     orElse (ofName (ValidateProviderIdentifier ''requirement ID'' ident))
       (if ident \<in> set seen then Some (RequirementTwice ident) else None)"

fun executablesLoop :: "string option \<Rightarrow> string list \<Rightarrow> ExecutableRequirement list \<Rightarrow> plan_error + string list" where
  "executablesLoop prev seen [] = Inr seen"
| "executablesLoop prev seen (r # rest) =
     (if (case prev of None \<Rightarrow> False | Some p \<Rightarrow> p \<ge> erID r) then Inl RequirementsUnsorted
      else case orElse (validateRequirementID (erID r) seen)
          (orElse (ofName (ValidateProviderIdentifier ''executable command'' (erCommand r)))
            (orElse (if erSupplier r \<noteq> [] then ofName (ValidateContributionReference ''executable supplier contribution'' (erSupplier r)) else None)
              (if validateValidationPolicy (erValidationPolicy r) \<noteq> None then Some (RequirementPolicy (erID r)) else None))) of
        Some e \<Rightarrow> Inl e
      | None \<Rightarrow> executablesLoop (Some (erID r)) (erID r # seen) rest)"

fun fileRequirementsLoop :: "string option \<Rightarrow> string list \<Rightarrow> FileRequirement list \<Rightarrow> plan_error check" where
  "fileRequirementsLoop prev seen [] = None"
| "fileRequirementsLoop prev seen (r # rest) =
     (if (case prev of None \<Rightarrow> False | Some p \<Rightarrow> p \<ge> frID r) then Some RequirementsUnsorted
      else orElse (validateRequirementID (frID r) seen)
        (orElse (validateAbsoluteLinuxPath ''file requirement path'' (frPath r))
          (orElse (ofName (ValidateProviderIdentifier ''file requirement kind'' (frKind r)))
            (orElse (if frExpectedSHA256 r \<noteq> [] then wrap (RequirementDigest (frID r)) (validateDigest (frExpectedSHA256 r)) else None)
              (orElse (if validateValidationPolicy (frValidationPolicy r) \<noteq> None then Some (RequirementPolicy (frID r)) else None)
                (fileRequirementsLoop (Some (frID r)) (frID r # seen) rest))))))"

definition ValidateRequirementDeclaration :: "heap \<Rightarrow> RequirementDeclaration \<Rightarrow> plan_error check" where
  "ValidateRequirementDeclaration h declaration =
     (if rdExecutables declaration = None \<or> rdFiles declaration = None then Some RequirementArrays
      else orElse (validateCanonicalProviderData h ''requirement provider data'' (rdProviderData declaration))
        (case executablesLoop None [] (elems (rdExecutables declaration)) of
           Inl e \<Rightarrow> Some e
         | Inr seen \<Rightarrow> fileRequirementsLoop None seen (elems (rdFiles declaration))))"

definition ValidateNodeSpec :: "heap \<Rightarrow> NodeSpec \<Rightarrow> plan_error check" where
  "ValidateNodeSpec h node =
     orElse (validateNodeID (nsID node) (nsProvider node) (elems (nsComponents node)))
       (if nsComponents node = None \<or> nsOutputDeclarations node = None \<or> rdExecutables (nsRequirements node) = None \<or>
           rdFiles (nsRequirements node) = None then Some NodeArrays
        else orElse (componentsLoop None (elems (nsComponents node)))
          (if rqProvider (nsRequest node) \<noteq> nsProvider node then Some RequestProvider
           else case CanonicalProviderRequestBytes h (nsRequest node) of
             Inl e \<Rightarrow> Some e
           | Inr _ \<Rightarrow>
               orElse (outputsLoop h (elems (nsComponents node)) None (elems (nsOutputDeclarations node)))
                 (ValidateRequirementDeclaration h (nsRequirements node))))"

section \<open>The cycle check\<close>

datatype visitMark = Unseen | Visiting | Done

type_synonym marks = "NodeID \<Rightarrow> visitMark"

definition edgeNodes :: "ProviderEdgeV1 list \<Rightarrow> NodeID set" where
  "edgeNodes edges = edSupplier ` set edges \<union> edConsumer ` set edges"

definition unseenCount :: "ProviderEdgeV1 list \<Rightarrow> marks \<Rightarrow> nat" where
  "unseenCount edges state = card {n \<in> edgeNodes edges. state n = Unseen}"

text \<open>
  The closure \<open>visit\<close> and its loop over the consumers. The adjacency lists are those of the
  edges of the plan, all of which the caller has recorded.
\<close>

function (domintros) visit :: "ProviderEdgeV1 list \<Rightarrow> marks \<Rightarrow> NodeID \<Rightarrow> plan_error + marks"
  and visitAll :: "ProviderEdgeV1 list \<Rightarrow> marks \<Rightarrow> NodeID list \<Rightarrow> plan_error + marks" where
  "visit edges state node =
     (case state node of
        Visiting \<Rightarrow> Inl (StructuralCycle node)
      | Done \<Rightarrow> Inr state
      | Unseen \<Rightarrow>
          (case visitAll edges (state(node := Visiting)) (consumersOf edges node) of
             Inl e \<Rightarrow> Inl e
           | Inr state' \<Rightarrow> Inr (state'(node := Done))))"
| "visitAll edges state [] = Inr state"
| "visitAll edges state (consumer # rest) =
     (case visit edges state consumer of Inl e \<Rightarrow> Inl e | Inr state' \<Rightarrow> visitAll edges state' rest)"
  by pat_completeness auto

lemma visit_grows:
  "visit_visitAll_dom (Inl (edges, state, node)) \<Longrightarrow> visit edges state node = Inr state' \<Longrightarrow> state n \<noteq> Unseen \<Longrightarrow> state' n \<noteq> Unseen"
  "visit_visitAll_dom (Inr (edges, state, nodes)) \<Longrightarrow> visitAll edges state nodes = Inr state' \<Longrightarrow> state n \<noteq> Unseen \<Longrightarrow> state' n \<noteq> Unseen"
proof (induction edges state node and edges state nodes arbitrary: state' and state' rule: visit_visitAll.pinduct)
  case (1 edges state node)
  show ?case
  proof (cases "state node")
    case Unseen
    then obtain mid where mid: "visitAll edges (state(node := Visiting)) (consumersOf edges node) = Inr mid" "state' = mid(node := Done)"
      using 1(1,3) by (auto simp: visit.psimps split: sum.splits)
    have "(state(node := Visiting)) n \<noteq> Unseen" using 1(4) by simp
    from 1(2)[OF Unseen mid(1) this] mid(2) show ?thesis by simp
  qed (use 1 in \<open>auto simp: visit.psimps\<close>)
qed (auto simp: visitAll.psimps split: sum.splits)

lemma unseenCount_mono: "(\<And>n. state n \<noteq> Unseen \<Longrightarrow> state' n \<noteq> Unseen) \<Longrightarrow> unseenCount edges state' \<le> unseenCount edges state"
  unfolding unseenCount_def by (intro card_mono) (auto simp: edgeNodes_def)

definition visitRank :: "ProviderEdgeV1 list \<times> marks \<times> NodeID + ProviderEdgeV1 list \<times> marks \<times> NodeID list \<Rightarrow> nat \<times> nat" where
  "visitRank call = (case call of
       Inl (edges, state, node) \<Rightarrow> (unseenCount edges state, 1)
     | Inr (edges, state, nodes) \<Rightarrow> (unseenCount edges state, 2 * length nodes))"

lemma visit_enter_rank:
  assumes "state node = Unseen"
  shows "(unseenCount edges (state(node := Visiting)), 2 * length (consumersOf edges node)) <
    (unseenCount edges state, 1)"
proof (cases "node \<in> edgeNodes edges")
  case True
  have "{n \<in> edgeNodes edges. (state(node := Visiting)) n = Unseen} \<subset> {n \<in> edgeNodes edges. state n = Unseen}"
    using True assms by auto
  then have "unseenCount edges (state(node := Visiting)) < unseenCount edges state"
    unfolding unseenCount_def by (intro psubset_card_mono) (auto simp: edgeNodes_def)
  then show ?thesis by simp
next
  case False
  then have "consumersOf edges node = []" by (auto simp: consumersOf_def edgeNodes_def filter_empty_conv)
  moreover have "unseenCount edges (state(node := Visiting)) \<le> unseenCount edges state"
    by (rule unseenCount_mono) simp
  ultimately show ?thesis by auto
qed

termination visit
proof (relation "inv_image {(x, y). x < y} visitRank", goal_cases)
  case 1
  show ?case by (rule wf_inv_image) (rule wf)
next
  case (2 edges state node)
  then show ?case using visit_enter_rank by (simp add: visitRank_def)
next
  case (3 edges state consumer rest)
  then show ?case by (simp add: visitRank_def)
next
  case (4 edges state consumer rest state')
  have "unseenCount edges state' \<le> unseenCount edges state"
    using visit_grows(1)[OF 4(2) 4(1)] by (rule unseenCount_mono)
  then show ?case by (auto simp: visitRank_def)
qed

fun rootsLoop :: "ProviderEdgeV1 list \<Rightarrow> marks \<Rightarrow> NodeID list \<Rightarrow> plan_error check" where
  "rootsLoop edges state [] = None"
| "rootsLoop edges state (node # rest) =
     (case visit edges state node of Inl e \<Rightarrow> Some e | Inr state' \<Rightarrow> rootsLoop edges state' rest)"

definition rejectProviderPlanCycles :: "NodeSpec list \<Rightarrow> ProviderEdgeV1 list \<Rightarrow> plan_error check" where
  "rejectProviderPlanCycles nodes edges = rootsLoop edges (\<lambda>_. Unseen) (map nsID nodes)"

section \<open>Plans\<close>

definition compareProviderEdges :: "ProviderEdgeV1 \<Rightarrow> ProviderEdgeV1 \<Rightarrow> int" where
  "compareProviderEdges left right =
     (if edSupplier left < edSupplier right then -1
      else if edSupplier left > edSupplier right then 1
      else if edConsumer left < edConsumer right then -1
      else if edConsumer left > edConsumer right then 1
      else if edRequirementID left < edRequirementID right then -1
      else if edRequirementID left > edRequirementID right then 1
      else 0)"

definition edgeRequirementKey :: "NodeID \<Rightarrow> string \<Rightarrow> string" where
  "edgeRequirementKey consumer requirementID = consumer @ [CHR 0x00] @ requirementID"

definition nodeDeclaresOutput :: "NodeSpec \<Rightarrow> QualifiedOutput \<Rightarrow> bool" where
  "nodeDeclaresOutput node qualified =
     list_ex (\<lambda>out. odSupplierComponent out = qoComponent qualified \<and> odName out = qoName qualified) (elems (nsOutputDeclarations node))"

text \<open>The loop over the nodes fills \<open>nodes\<close> and \<open>componentNodes\<close> and counts the base roots.\<close>

record planTables =
  ptNodes :: "NodeID \<rightharpoonup> NodeSpec"
  ptComponents :: "string \<rightharpoonup> NodeID"
  ptBaseCount :: nat

fun claimComponents :: "NodeID \<Rightarrow> (string \<rightharpoonup> NodeID) \<Rightarrow> string list \<Rightarrow> plan_error + (string \<rightharpoonup> NodeID)" where
  "claimComponents node componentNodes [] = Inr componentNodes"
| "claimComponents node componentNodes (component # rest) =
     (case componentNodes component of
        Some previous \<Rightarrow> Inl (ComponentTwice component previous node)
      | None \<Rightarrow> claimComponents node (componentNodes(component \<mapsto> node)) rest)"

fun planNodesLoop :: "heap \<Rightarrow> NodeID option \<Rightarrow> planTables \<Rightarrow> NodeSpec list \<Rightarrow> plan_error + planTables" where
  "planNodesLoop h prev tables [] = Inr tables"
| "planNodesLoop h prev tables (node # rest) =
     (if (case prev of None \<Rightarrow> False | Some p \<Rightarrow> p \<ge> nsID node) then Inl NodesUnsorted
      else case ValidateNodeSpec h node of
        Some e \<Rightarrow> Inl (NodeInvalid (nsID node) e)
      | None \<Rightarrow>
          (case claimComponents (nsID node) (ptComponents tables) (elems (nsComponents node)) of
             Inl e \<Rightarrow> Inl e
           | Inr componentNodes \<Rightarrow>
               planNodesLoop h (Some (nsID node))
                 \<lparr>ptNodes = (ptNodes tables)(nsID node \<mapsto> node), ptComponents = componentNodes,
                  ptBaseCount = (if nsID node = ''base'' then Suc (ptBaseCount tables) else ptBaseCount tables)\<rparr> rest))"

text \<open>The requirements of all nodes under their keys, latest first; \<open>explicitRequirements\<close> keeps those with a supplier.\<close>

definition requirementTable :: "NodeSpec list \<Rightarrow> (string \<times> ExecutableRequirement) list" where
  "requirementTable nodes =
     rev (concat (map (\<lambda>node. map (\<lambda>r. (edgeRequirementKey (nsID node) (erID r), r)) (elems (rdExecutables (nsRequirements node)))) nodes))"

definition explicitTable :: "NodeSpec list \<Rightarrow> (string \<times> ExecutableRequirement) list" where
  "explicitTable nodes = filter (\<lambda>(key, r). erSupplier r \<noteq> []) (requirementTable nodes)"

fun planEdgesLoop :: "planTables \<Rightarrow> (string \<times> ExecutableRequirement) list \<Rightarrow> ProviderEdgeV1 option \<Rightarrow> string list \<Rightarrow>
    ProviderEdgeV1 list \<Rightarrow> plan_error + string list" where
  "planEdgesLoop tables explicit prev seen [] = Inr seen"
| "planEdgesLoop tables explicit prev seen (edge # rest) =
     (if (case prev of None \<Rightarrow> False | Some p \<Rightarrow> compareProviderEdges p edge \<ge> 0) then Inl EdgesUnsorted
      else case ptNodes tables (edSupplier edge) of
        None \<Rightarrow> Inl (UnknownNode (edSupplier edge) (edConsumer edge))
      | Some supplier \<Rightarrow>
          if ptNodes tables (edConsumer edge) = None then Inl (UnknownNode (edSupplier edge) (edConsumer edge))
          else if edSupplier edge = edConsumer edge then Inl (SelfEdge (edRequirementID edge))
          else if edConsumer edge = ''base'' then Inl BaseConsumes
          else (let key = edgeRequirementKey (edConsumer edge) (edRequirementID edge)
                in case map_of explicit key of
                     None \<Rightarrow> Inl (NotExplicit (edRequirementID edge))
                   | Some requirement \<Rightarrow>
                       if ptComponents tables (erSupplier requirement) \<noteq> Some (edSupplier edge) then Inl (WrongSupplier (edRequirementID edge))
                       else if qoComponent (edOutput edge) \<noteq> erSupplier requirement \<or> qoName (edOutput edge) \<noteq> erCommand requirement
                       then Inl (WrongOutput (edRequirementID edge))
                       else if \<not> nodeDeclaresOutput supplier (edOutput edge)
                       then Inl (UndeclaredOutput (edRequirementID edge) (edOutput edge))
                       else if key \<in> set seen then Inl (MultipleEdges (edRequirementID edge) (edConsumer edge))
                       else planEdgesLoop tables explicit (Some edge) (key # seen) rest))"

fun missingEdge :: "string list \<Rightarrow> (string \<times> 'r) list \<Rightarrow> plan_error check" where
  "missingEdge seen [] = None"
| "missingEdge seen ((key, r) # rest) = (if key \<notin> set seen then Some (NoEdge key) else missingEdge seen rest)"

definition emptyTables :: planTables where
  "emptyTables = \<lparr>ptNodes = Map.empty, ptComponents = Map.empty, ptBaseCount = 0\<rparr>"

definition ValidateProviderPlanV1 :: "heap \<Rightarrow> ProviderPlanV1 \<Rightarrow> plan_error check" where
  "ValidateProviderPlanV1 h plan =
     (if ppSchema plan \<noteq> ''provider-plan-v1'' then Some PlanSchema
      else if ppNodes plan = None \<or> ppEdges plan = None then Some PlanArrays
      else case planNodesLoop h None emptyTables (elems (ppNodes plan)) of
        Inl e \<Rightarrow> Some e
      | Inr tables \<Rightarrow>
          if ptBaseCount tables \<noteq> 1 then Some BaseRoot
          else (let explicit = explicitTable (elems (ppNodes plan))
                in case planEdgesLoop tables explicit None [] (elems (ppEdges plan)) of
                     Inl e \<Rightarrow> Some e
                   | Inr seen \<Rightarrow>
                       orElse (missingEdge seen explicit)
                         (rejectProviderPlanCycles (elems (ppNodes plan)) (elems (ppEdges plan)))))"

definition StableProviderInitializationOrder :: "heap \<Rightarrow> ProviderPlanV1 \<Rightarrow> plan_error + NodeID list" where
  "StableProviderInitializationOrder h plan =
     (case ValidateProviderPlanV1 h plan of
        Some e \<Rightarrow> Inl e
      | None \<Rightarrow>
          (case StableProviderNodeOrder (map nsID (elems (ppNodes plan))) (elems (ppEdges plan)) of
             Inl e \<Rightarrow> Inl (OrderError e)
           | Inr order \<Rightarrow> Inr order))"

definition edgeKey :: "ProviderEdgeV1 \<Rightarrow> string \<times> string \<times> string" where
  "edgeKey edge = (edSupplier edge, edConsumer edge, edRequirementID edge)"

definition NormalizeProviderPlanV1 :: "ProviderPlanV1 \<Rightarrow> ProviderPlanV1" where
  "NormalizeProviderPlanV1 plan =
     plan\<lparr>ppNodes := Some (sort_key nsID (elems (ppNodes plan))), ppEdges := Some (sort_key edgeKey (elems (ppEdges plan)))\<rparr>"

section \<open>Selected edges\<close>

text \<open>The rank of a node is its position in the initialization order; a missing key of the Go map reads 0.\<close>

definition rankOf :: "NodeID list \<Rightarrow> NodeID \<Rightarrow> nat" where
  "rankOf order node = (if node \<in> set order then length (takeWhile (\<lambda>n. n \<noteq> node) order) else 0)"

definition structuralTable :: "ProviderEdgeV1 list \<Rightarrow> (string \<times> ProviderEdgeV1) list" where
  "structuralTable edges = rev (map (\<lambda>edge. (edgeRequirementKey (edConsumer edge) (edRequirementID edge), edge)) edges)"

fun selectedLoop :: "(NodeID \<rightharpoonup> NodeSpec) \<Rightarrow> (string \<times> ExecutableRequirement) list \<Rightarrow> (string \<times> ProviderEdgeV1) list \<Rightarrow> (NodeID \<Rightarrow> nat) \<Rightarrow>
    ProviderEdgeV1 option \<Rightarrow> string list \<Rightarrow> ProviderEdgeV1 list \<Rightarrow> plan_error + string list" where
  "selectedLoop nodes requirements structural rank prev seen [] = Inr seen"
| "selectedLoop nodes requirements structural rank prev seen (edge # rest) =
     (if (case prev of None \<Rightarrow> False | Some p \<Rightarrow> compareProviderEdges p edge \<ge> 0) then Inl EdgesUnsorted
      else if nodes (edSupplier edge) = None \<or> nodes (edConsumer edge) = None \<or> edSupplier edge = edConsumer edge \<or> edConsumer edge = ''base''
      then Inl (SelectedInvalid (edSupplier edge) (edConsumer edge))
      else (let key = edgeRequirementKey (edConsumer edge) (edRequirementID edge)
            in case map_of requirements key of
                 None \<Rightarrow> Inl (NotExplicit (edRequirementID edge))
               | Some requirement \<Rightarrow>
                   if key \<in> set seen then Inl (MultipleEdges (edRequirementID edge) (edConsumer edge))
                   else if qoName (edOutput edge) \<noteq> erCommand requirement \<or>
                     erSupplier requirement \<noteq> [] \<and> qoComponent (edOutput edge) \<noteq> erSupplier requirement
                   then Inl (WrongOutput (edRequirementID edge))
                   else if \<not> nodeDeclaresOutput (the (nodes (edSupplier edge))) (edOutput edge)
                   then Inl (UndeclaredOutput (edRequirementID edge) (edOutput edge))
                   else if (case map_of structural key of None \<Rightarrow> False | Some expected \<Rightarrow> edge \<noteq> expected)
                   then Inl (SelectedMismatch (edRequirementID edge))
                   else if rank (edSupplier edge) \<ge> rank (edConsumer edge) then Inl (SelectedNotEarlier (edRequirementID edge))
                   else selectedLoop nodes requirements structural rank (Some edge) (key # seen) rest))"

definition nodeTable :: "NodeSpec list \<Rightarrow> NodeID \<rightharpoonup> NodeSpec" where
  "nodeTable nodes = map_of (rev (map (\<lambda>node. (nsID node, node)) nodes))"

definition ValidateProviderSelectedEdgesV1 :: "heap \<Rightarrow> ProviderPlanV1 \<Rightarrow> ProviderEdgeV1 slice \<Rightarrow> plan_error check" where
  "ValidateProviderSelectedEdgesV1 h plan selected =
     (case ValidateProviderPlanV1 h plan of
        Some e \<Rightarrow> Some e
      | None \<Rightarrow>
          if selected = None then Some PlanArrays
          else case StableProviderInitializationOrder h plan of
            Inl e \<Rightarrow> Some e
          | Inr order \<Rightarrow>
              (let requirements = requirementTable (elems (ppNodes plan))
               in case selectedLoop (nodeTable (elems (ppNodes plan))) requirements (structuralTable (elems (ppEdges plan)))
                    (rankOf order) None [] (elems selected) of
                    Inl e \<Rightarrow> Some e
                  | Inr seen \<Rightarrow>
                      orElse (missingEdge seen requirements)
                        (wrap SelectedCycle (rejectProviderPlanCycles (elems (ppNodes plan)) (elems selected)))))"

end
