(* ===== verification/ProviderEvidence.thy ===== *)
theory ProviderEvidence
  imports ProviderPlan
begin

text \<open>
  Evidence about executables and files, the validators of \<open>src/internal/providers/profile.go\<close>,
  and the realized outputs of \<open>src/internal/providers/bundle.go\<close>. A nil pointer is \<^const>\<open>None\<close>.
\<close>

section \<open>Evidence\<close>

record OwnerEvidence =
  oeProvider :: string
  oeData :: CanonicalProviderData

record FileEvidence =
  feSchema :: string
  feRequirementID :: string
  fePath :: string
  feKind :: string
  feMode :: string
  feSize :: string
  feSHA256 :: string
  feOwner :: "OwnerEvidence option"

record LinkEvidence =
  lePath :: string
  leTarget :: string
  leResolvedPath :: string
  leKind :: string
  leOwner :: "OwnerEvidence option"
  leProviderDetail :: "CanonicalProviderData option"

record AccessPathEvidence =
  apPath :: string
  apKind :: string
  apMode :: string
  apRequired :: string

record PortableAccessEvidence =
  paSchema :: string
  paProfile :: string
  paPaths :: "AccessPathEvidence slice"

record ExecutableEvidence =
  eeSchema :: string
  eeRequirementID :: string
  eeOutput :: QualifiedOutput
  eeInvocationPath :: string
  eeLinkChain :: "LinkEvidence slice"
  eeTerminal :: FileEvidence
  eeAccess :: PortableAccessEvidence
  eeFacts :: CanonicalProviderData

record ExecutableCandidate =
  ecInvocationPath :: string
  ecProvenance :: CanonicalProviderData

record RealizedOutput =
  roSupplierComponent :: string
  roSupplierNode :: NodeID
  roName :: string
  roCandidate :: ExecutableCandidate
  roEvidence :: ExecutableEvidence

datatype evidence_error =
    EvidencePlan plan_error
  | EvidenceName name_error
  | FileSchema string
  | FileMode string
  | FileSize string
  | FileDigest canonical_error
  | LinkTarget
  | LinkKind
  | AccessSchema
  | AccessProfile
  | AccessArray
  | AccessUnsorted
  | AccessMode string
  | AccessDirectory string
  | AccessTerminal string
  | AccessRequired string
  | WrongOutputName string string
  | WrongComponent string string
  | EvidenceSchema string
  | LinkChainArray string
  | LinkError string evidence_error
  | DuplicateLink string string
  | LinkResolution string string
  | InvocationChain string
  | TerminalRequirement string
  | TerminalKind string
  | TerminalAccess string
  | FinalRequirement
  | SupplierNodeMissing
  | InvocationDiffers
  | OutputDiffers
  | CatalogEvidence
  | WrongRequirementID string string
  | CandidateMismatch string

definition evPlan :: "plan_error check \<Rightarrow> evidence_error check" where
  "evPlan = wrap EvidencePlan"

definition evName :: "name_error check \<Rightarrow> evidence_error check" where
  "evName = wrap EvidenceName"

definition isCanonicalMode :: "string \<Rightarrow> bool" where
  "isCanonicalMode mode = (if length mode \<noteq> 4 then False else rangeAll (\<lambda>char. \<not> (char < 48 \<or> char > 55)) mode)"

definition isCanonicalDecimal :: "string \<Rightarrow> bool" where
  "isCanonicalDecimal dec =
     (if dec = ''0'' then True
      else case dec of
        [] \<Rightarrow> False
      | c # rest \<Rightarrow> if byteOf c < 49 \<or> byteOf c > 57 then False else rangeAll (\<lambda>char. \<not> (char < 48 \<or> char > 57)) rest)"

definition validateOwnerEvidence :: "heap \<Rightarrow> OwnerEvidence \<Rightarrow> evidence_error check" where
  "validateOwnerEvidence h evidence =
     orElse (evName (ValidateProviderIdentifier ''owner provider'' (oeProvider evidence)))
       (evPlan (validateCanonicalProviderData h ''owner data'' (oeData evidence)))"

definition validateFileEvidence :: "heap \<Rightarrow> FileEvidence \<Rightarrow> bool \<Rightarrow> evidence_error check" where
  "validateFileEvidence h evidence allowEmptyRequirement =
     (if feSchema evidence \<noteq> ''file-evidence-v1'' then Some (FileSchema (feRequirementID evidence))
      else orElse (if \<not> allowEmptyRequirement \<or> feRequirementID evidence \<noteq> []
                   then evName (ValidateProviderIdentifier ''file evidence requirement ID'' (feRequirementID evidence)) else None)
        (orElse (evPlan (validateAbsoluteLinuxPath ''file evidence path'' (fePath evidence)))
          (orElse (evName (ValidateProviderIdentifier ''file evidence kind'' (feKind evidence)))
            (if \<not> isCanonicalMode (feMode evidence) then Some (FileMode (feMode evidence))
             else if \<not> isCanonicalDecimal (feSize evidence) then Some (FileSize (feSize evidence))
             else orElse (wrap FileDigest (validateDigest (feSHA256 evidence)))
               (case feOwner evidence of None \<Rightarrow> None | Some owner \<Rightarrow> validateOwnerEvidence h owner)))))"

definition validateLinkEvidence :: "heap \<Rightarrow> LinkEvidence \<Rightarrow> evidence_error check" where
  "validateLinkEvidence h evidence =
     orElse (evPlan (validateAbsoluteLinuxPath ''link evidence path'' (lePath evidence)))
       (if leTarget evidence = [] then Some LinkTarget
        else orElse (evPlan (validateAbsoluteLinuxPath ''link evidence resolved path'' (leResolvedPath evidence)))
          (if leKind evidence \<noteq> ''ordinary'' \<and> leKind evidence \<noteq> ''alternative'' then Some LinkKind
           else orElse (case leOwner evidence of None \<Rightarrow> None | Some owner \<Rightarrow> validateOwnerEvidence h owner)
             (case leProviderDetail evidence of None \<Rightarrow> None
              | Some detail \<Rightarrow> evPlan (validateCanonicalProviderData h ''link provider detail'' detail))))"

definition accessProves :: "AccessPathEvidence \<Rightarrow> evidence_error check" where
  "accessProves item =
     (let digit = byteOf (apMode item ! 3)
      in if apRequired item = ''other-search'' then
           (if apKind item \<noteq> ''directory'' \<or> digit < 49 \<or> digit = 50 \<or> digit = 52 \<or> digit = 54 then Some (AccessDirectory (apPath item)) else None)
         else if apRequired item = ''other-read-execute'' then
           (if apKind item \<noteq> ''regular'' \<or> digit \<noteq> 53 \<and> digit \<noteq> 55 then Some (AccessTerminal (apPath item)) else None)
         else Some (AccessRequired (apRequired item)))"

fun accessLoop :: "string option \<Rightarrow> AccessPathEvidence list \<Rightarrow> evidence_error check" where
  "accessLoop prev [] = None"
| "accessLoop prev (item # rest) =
     (if (case prev of None \<Rightarrow> False | Some p \<Rightarrow> p \<ge> apPath item) then Some AccessUnsorted
      else orElse (evPlan (validateAbsoluteLinuxPath ''portable access path'' (apPath item)))
        (orElse (evName (ValidateProviderIdentifier ''portable access kind'' (apKind item)))
          (if \<not> isCanonicalMode (apMode item) then Some (AccessMode (apMode item))
           else orElse (accessProves item) (accessLoop (Some (apPath item)) rest))))"

definition validatePortableAccessEvidence :: "PortableAccessEvidence \<Rightarrow> evidence_error check" where
  "validatePortableAccessEvidence evidence =
     (if paSchema evidence \<noteq> ''portable-access-evidence-v1'' then Some AccessSchema
      else if paProfile evidence \<noteq> ''portable-output-access-v1'' then Some AccessProfile
      else if paPaths evidence = None then Some AccessArray
      else accessLoop None (elems (paPaths evidence)))"

text \<open>The loop over the link chain: each link resolves to the next one, the last to the terminal file.\<close>

fun linkLoop :: "heap \<Rightarrow> string \<Rightarrow> string \<Rightarrow> string list \<Rightarrow> LinkEvidence list \<Rightarrow> evidence_error check" where
  "linkLoop h requirementID terminal seen [] = None"
| "linkLoop h requirementID terminal seen (link # rest) =
     orElse (wrap (LinkError requirementID) (validateLinkEvidence h link))
       (if lePath link \<in> set seen then Some (DuplicateLink requirementID (lePath link))
        else if leResolvedPath link \<noteq> (case rest of [] \<Rightarrow> terminal | next # _ \<Rightarrow> lePath next)
        then Some (LinkResolution requirementID (lePath link))
        else linkLoop h requirementID terminal (lePath link # seen) rest)"

definition validateExecutableEvidenceStructure :: "heap \<Rightarrow> ExecutableEvidence \<Rightarrow> bool \<Rightarrow> evidence_error check" where
  "validateExecutableEvidenceStructure h evidence allowEmptyRequirement =
     (let ident = eeRequirementID evidence; terminal = eeTerminal evidence
      in if eeSchema evidence \<noteq> ''executable-evidence-v1'' then Some (EvidenceSchema ident)
         else orElse (evName (ValidateContributionReference ''executable evidence contribution'' (qoComponent (eeOutput evidence))))
           (orElse (evName (ValidateProviderIdentifier ''executable evidence output'' (qoName (eeOutput evidence))))
             (orElse (evPlan (validateAbsoluteLinuxPath ''executable invocation path'' (eeInvocationPath evidence)))
               (if eeLinkChain evidence = None then Some (LinkChainArray ident)
                else orElse (linkLoop h ident (fePath terminal) [] (elems (eeLinkChain evidence)))
                  (if eeInvocationPath evidence \<noteq> (case elems (eeLinkChain evidence) of [] \<Rightarrow> fePath terminal | link # _ \<Rightarrow> lePath link)
                   then Some (InvocationChain ident)
                   else if feRequirementID terminal \<noteq> ident then Some (TerminalRequirement ident)
                   else orElse (validateFileEvidence h terminal allowEmptyRequirement)
                     (if feKind terminal \<noteq> ''regular'' then Some (TerminalKind ident)
                      else orElse (validatePortableAccessEvidence (eeAccess evidence))
                        (if \<not> list_ex (\<lambda>item. apPath item = fePath terminal \<and> apKind item = ''regular'' \<and> apRequired item = ''other-read-execute'')
                             (elems (paPaths (eeAccess evidence)))
                         then Some (TerminalAccess ident)
                         else evPlan (validateCanonicalProviderData h ''executable evidence facts'' (eeFacts evidence)))))))))"

definition validateExecutableEvidence :: "heap \<Rightarrow> ExecutableEvidence \<Rightarrow> ExecutableRequirement \<Rightarrow> evidence_error check" where
  "validateExecutableEvidence h evidence requirement =
     (if qoName (eeOutput evidence) \<noteq> erCommand requirement then Some (WrongOutputName (eeRequirementID evidence) (qoName (eeOutput evidence)))
      else if erSupplier requirement \<noteq> [] \<and> qoComponent (eeOutput evidence) \<noteq> erSupplier requirement
      then Some (WrongComponent (eeRequirementID evidence) (qoComponent (eeOutput evidence)))
      else validateExecutableEvidenceStructure h evidence False)"

definition ValidateFinalExecutableEvidence :: "heap \<Rightarrow> ExecutableEvidence \<Rightarrow> evidence_error check" where
  "ValidateFinalExecutableEvidence h evidence =
     (if eeRequirementID evidence \<noteq> [] then Some FinalRequirement else validateExecutableEvidenceStructure h evidence True)"

definition validateRealizedCatalogOutput :: "heap \<Rightarrow> RealizedOutput \<Rightarrow> evidence_error check" where
  "validateRealizedCatalogOutput h out =
     (if roSupplierNode out = [] then Some SupplierNodeMissing
      else orElse (evName (ValidateContributionReference ''catalog output contribution'' (roSupplierComponent out)))
        (orElse (evName (ValidateProviderIdentifier ''catalog output name'' (roName out)))
          (orElse (evPlan (validateAbsoluteLinuxPath ''catalog output invocation path'' (ecInvocationPath (roCandidate out))))
            (orElse (evPlan (validateCanonicalProviderData h ''catalog output provenance'' (ecProvenance (roCandidate out))))
              (if ecInvocationPath (roCandidate out) \<noteq> eeInvocationPath (roEvidence out) then Some InvocationDiffers
               else if eeOutput (roEvidence out) \<noteq> \<lparr>qoComponent = roSupplierComponent out, qoName = roName out\<rparr> then Some OutputDiffers
               else if eeSchema (roEvidence out) \<noteq> ''executable-evidence-v1'' \<or> eeRequirementID (roEvidence out) \<noteq> [] then Some CatalogEvidence
               else ValidateFinalExecutableEvidence h (roEvidence out))))))"

definition validateFrozenEvidence :: "heap \<Rightarrow> ExecutableRequirement \<Rightarrow> RealizedOutput \<Rightarrow> ExecutableEvidence \<Rightarrow> evidence_error check" where
  "validateFrozenEvidence h requirement out evidence =
     (if eeRequirementID evidence \<noteq> erID requirement then Some (WrongRequirementID (eeRequirementID evidence) (erID requirement))
      else if eeOutput evidence \<noteq> \<lparr>qoComponent = roSupplierComponent out, qoName = roName out\<rparr> \<or>
        eeInvocationPath evidence \<noteq> ecInvocationPath (roCandidate out) then Some (CandidateMismatch (erID requirement))
      else validateExecutableEvidence h evidence requirement)"

section \<open>What evidence proves\<close>

text \<open>
  The invocation path leads through the links, each path once, to the terminal file, and an access
  entry shows that file readable and executable for everyone: the last octal digit is 5 or 7.
\<close>

definition linkedTo :: "string \<Rightarrow> LinkEvidence list \<Rightarrow> string \<Rightarrow> bool" where
  "linkedTo start links terminal \<longleftrightarrow> distinct (map lePath links) \<and> map lePath links @ [terminal] = start # map leResolvedPath links"

definition publicExecutable :: "AccessPathEvidence list \<Rightarrow> string \<Rightarrow> bool" where
  "publicExecutable items path \<longleftrightarrow>
     (\<exists>item \<in> set items. apPath item = path \<and> apKind item = ''regular'' \<and> length (apMode item) = 4 \<and> apMode item ! 3 \<in> {CHR ''5'', CHR ''7''})"

lemma linkLoop_None:
  "linkLoop h ident terminal seen links = None \<Longrightarrow>
     distinct (map lePath links) \<and> lePath ` set links \<inter> set seen = {} \<and>
     map lePath links @ [terminal] = (case links of [] \<Rightarrow> terminal | link # _ \<Rightarrow> lePath link) # map leResolvedPath links"
proof (induction links arbitrary: seen)
  case (Cons link links)
  then have rest: "linkLoop h ident terminal (lePath link # seen) links = None" "lePath link \<notin> set seen"
    "leResolvedPath link = (case links of [] \<Rightarrow> terminal | next # _ \<Rightarrow> lePath next)"
    by (auto split: if_splits)
  from Cons.IH[OF rest(1)] rest(2,3) show ?case by auto
qed simp

lemma accessLoop_None:
  "accessLoop prev items = None \<Longrightarrow> item \<in> set items \<Longrightarrow> isCanonicalMode (apMode item) \<and> accessProves item = None"
  by (induction items arbitrary: prev) (auto split: if_splits)

lemma accessProves_terminal:
  assumes "accessProves item = None" "apRequired item = ''other-read-execute''"
  shows "apMode item ! 3 \<in> {CHR ''5'', CHR ''7''}"
proof -
  have "byteOf (apMode item ! 3) = 53 \<or> byteOf (apMode item ! 3) = 55"
    using assms by (auto simp: accessProves_def Let_def split: if_splits)
  moreover have "byteOf (CHR ''5'') = 53" "byteOf (CHR ''7'') = 55" by simp_all
  ultimately show ?thesis by (metis insertI1 insertI2 of_char_eq_iff)
qed

lemma structure_None:
  assumes "validateExecutableEvidenceStructure h evidence allow = None"
  shows "linkedTo (eeInvocationPath evidence) (elems (eeLinkChain evidence)) (fePath (eeTerminal evidence))"
    "publicExecutable (elems (paPaths (eeAccess evidence))) (fePath (eeTerminal evidence))"
    "feKind (eeTerminal evidence) = ''regular''" "feRequirementID (eeTerminal evidence) = eeRequirementID evidence"
    "validateDigest (feSHA256 (eeTerminal evidence)) = None"
proof -
  let ?links = "elems (eeLinkChain evidence)" and ?terminal = "eeTerminal evidence" and ?items = "elems (paPaths (eeAccess evidence))"
  have loop: "linkLoop h (eeRequirementID evidence) (fePath ?terminal) [] ?links = None"
    and start: "eeInvocationPath evidence = (case ?links of [] \<Rightarrow> fePath ?terminal | link # _ \<Rightarrow> lePath link)"
    and fileOK: "feRequirementID ?terminal = eeRequirementID evidence" "validateFileEvidence h ?terminal allow = None" "feKind ?terminal = ''regular''"
    and access: "validatePortableAccessEvidence (eeAccess evidence) = None"
    and item: "list_ex (\<lambda>item. apPath item = fePath ?terminal \<and> apKind item = ''regular'' \<and> apRequired item = ''other-read-execute'') ?items"
    using assms by (auto simp: validateExecutableEvidenceStructure_def Let_def split: if_splits)
  show "linkedTo (eeInvocationPath evidence) ?links (fePath ?terminal)"
    using linkLoop_None[OF loop] start by (simp add: linkedTo_def)
  from item obtain i where i: "i \<in> set ?items" "apPath i = fePath ?terminal" "apKind i = ''regular''" "apRequired i = ''other-read-execute''"
    by (auto simp: list_ex_iff)
  have "accessLoop None ?items = None" using access by (auto simp: validatePortableAccessEvidence_def split: if_splits)
  from accessLoop_None[OF this i(1)] accessProves_terminal i
  show "publicExecutable ?items (fePath ?terminal)" unfolding publicExecutable_def isCanonicalMode_def by (metis (full_types))
  show "feKind ?terminal = ''regular''" "feRequirementID ?terminal = eeRequirementID evidence" using fileOK by simp_all
  show "validateDigest (feSHA256 ?terminal) = None"
    using fileOK(2) by (auto simp: validateFileEvidence_def wrap_def split: if_splits option.splits)
qed

end
