(* ===== verification/ProviderGraphProofs.thy ===== *)
theory ProviderGraphProofs
  imports ProviderGraph "HOL-Library.Multiset"
begin

text \<open>
  The specification of the initialization order and the proof that \<open>StableProviderNodeOrder\<close>
  computes it: a node may be placed when all its suppliers are, the least such node in the order of
  \<open>compareReadyNodes\<close> is placed next, and this greedy order is unique.
\<close>

section \<open>The greedy order\<close>

definition unplaced :: "NodeID list \<Rightarrow> ProviderEdgeV1 list \<Rightarrow> NodeID list \<Rightarrow> NodeID set" where
  "unplaced nodes edges placed =
     {n \<in> set nodes. n \<notin> set placed \<and> (\<forall>e \<in> set edges. edConsumer e = n \<longrightarrow> edSupplier e \<in> set placed)}"

inductive greedyOrder :: "NodeID list \<Rightarrow> ProviderEdgeV1 list \<Rightarrow> NodeID list \<Rightarrow> bool" for nodes edges where
  empty: "greedyOrder nodes edges []"
| place: "greedyOrder nodes edges placed \<Longrightarrow> node \<in> unplaced nodes edges placed \<Longrightarrow>
    (\<And>other. other \<in> unplaced nodes edges placed \<Longrightarrow> compareReadyNodes node other \<le> 0) \<Longrightarrow>
    greedyOrder nodes edges (placed @ [node])"

definition edgesWithin :: "NodeID list \<Rightarrow> ProviderEdgeV1 list \<Rightarrow> bool" where
  "edgesWithin nodes edges \<longleftrightarrow> (\<forall>e \<in> set edges. edSupplier e \<in> set nodes \<and> edConsumer e \<in> set nodes)"

definition supplies :: "ProviderEdgeV1 list \<Rightarrow> (NodeID \<times> NodeID) set" where
  "supplies edges = (\<lambda>e. (edSupplier e, edConsumer e)) ` set edges"

interpretation ready: three_way compareReadyNodes readyKey
  by unfold_locales (auto simp: compareReadyNodes_def readyKey_def)

lemma compareReadyNodes_antisym:
  "compareReadyNodes a b \<le> 0 \<Longrightarrow> compareReadyNodes b a \<le> 0 \<Longrightarrow> a = b"
  by (auto simp: compareReadyNodes_def split: if_splits)

lemma unplaced_iff:
  "n \<in> unplaced nodes edges placed \<longleftrightarrow>
     n \<in> set nodes \<and> n \<notin> set placed \<and> (\<forall>e \<in> set edges. edConsumer e = n \<longrightarrow> edSupplier e \<in> set placed)"
  by (simp add: unplaced_def)

inductive_cases greedyOrder_snocE: "greedyOrder nodes edges (placed @ [node])"

lemma greedyOrder_distinct: "greedyOrder nodes edges order \<Longrightarrow> distinct order \<and> set order \<subseteq> set nodes"
  by (induction rule: greedyOrder.induct) (auto simp: unplaced_iff)

lemma greedyOrder_prefix: "greedyOrder nodes edges (xs @ ys) \<Longrightarrow> greedyOrder nodes edges xs"
proof (induction ys rule: rev_induct)
  case (snoc y ys)
  then show ?case using greedyOrder_snocE[of nodes edges "xs @ ys" y] by auto
qed simp

lemma greedyOrder_unique:
  assumes "greedyOrder nodes edges xs" "greedyOrder nodes edges ys" "length xs = length ys"
  shows "xs = ys"
  using assms
proof (induction arbitrary: ys rule: greedyOrder.induct)
  case (place placed node)
  from place.prems(2) obtain ps n where ys: "ys = ps @ [n]" "length ps = length placed"
    by (cases ys rule: rev_cases) auto
  with place.prems(1) have n: "greedyOrder nodes edges ps" "n \<in> unplaced nodes edges ps"
    "\<And>other. other \<in> unplaced nodes edges ps \<Longrightarrow> compareReadyNodes n other \<le> 0"
    by (auto elim: greedyOrder_snocE)
  from place.IH[OF n(1)] ys(2) have "ps = placed" by simp
  with n place.hyps show ?case using compareReadyNodes_antisym[of n node] ys(1) by auto
qed simp

text \<open>Suppliers come before their consumers.\<close>

lemma greedyOrder_topological:
  "greedyOrder nodes edges order \<Longrightarrow> e \<in> set edges \<Longrightarrow> order = xs @ edConsumer e # ys \<Longrightarrow> edSupplier e \<in> set xs"
proof -
  assume *: "greedyOrder nodes edges order" "e \<in> set edges" "order = xs @ edConsumer e # ys"
  then have "greedyOrder nodes edges (xs @ [edConsumer e])"
    using greedyOrder_prefix[of nodes edges "xs @ [edConsumer e]" ys] by simp
  with *(2) show ?thesis by (auto elim!: greedyOrder_snocE simp: unplaced_iff)
qed

section \<open>Complete orders and cycles\<close>

lemma complete_order_acyclic:
  assumes order: "greedyOrder nodes edges order" "set order = set nodes" and edges: "edgesWithin nodes edges"
  shows "acyclic (supplies edges)"
proof -
  define index where "index n = (THE i. i < length order \<and> order ! i = n)" for n
  have dist: "distinct order" using greedyOrder_distinct[OF order(1)] by simp
  have index: "index (order ! i) = i" if "i < length order" for i
    unfolding index_def using that dist by (auto intro!: the_equality simp: nth_eq_iff_index_eq)
  have "index (edSupplier e) < index (edConsumer e)" if e: "e \<in> set edges" for e
  proof -
    from e edges order(2) have "edConsumer e \<in> set order" by (simp add: edgesWithin_def)
    then obtain j where j: "j < length order" "order ! j = edConsumer e" by (auto simp: in_set_conv_nth)
    then have "edSupplier e \<in> set (take j order)"
      using greedyOrder_topological[OF order(1) e, of "take j order" "drop (Suc j) order"] id_take_nth_drop[OF j(1)] by simp
    then obtain i where "i < j" "order ! i = edSupplier e" using j(1) by (auto simp: in_set_conv_nth)
    with j show ?thesis using index[of i] index[of j] by simp
  qed
  then have "supplies edges \<subseteq> measure index" by (auto simp: supplies_def)
  then show ?thesis using acyclic_subset[OF wf_acyclic[OF wf_measure]] by blast
qed

lemma acyclic_unplaced:
  assumes "acyclic (supplies edges)" "edgesWithin nodes edges" "n \<in> set nodes" "n \<notin> set placed"
  shows "unplaced nodes edges placed \<noteq> {}"
proof -
  have "wf (supplies edges)" using assms(1) by (intro finite_acyclic_wf) (simp_all add: supplies_def)
  then obtain m where m: "m \<in> set nodes - set placed" "\<And>y. (y, m) \<in> supplies edges \<Longrightarrow> y \<notin> set nodes - set placed"
    using assms(3,4) by (elim wfE_min[of _ n "set nodes - set placed"]) auto
  have "m \<in> unplaced nodes edges placed"
    using m(1) m(2) assms(2) by (fastforce simp: unplaced_iff supplies_def edgesWithin_def)
  then show ?thesis by blast
qed

section \<open>The loops\<close>

lemma map_of_addIndegree:
  "map_of (addIndegree node delta indegree) k = map_option (\<lambda>d. if k = node then d + delta else d) (map_of indegree k)"
  unfolding addIndegree_def by (induction indegree) auto

lemma map_of_keyed: "map_of (map (\<lambda>(k, d). (k, f k d)) xs) k = map_option (f k) (map_of xs k)"
  by (induction xs) auto

lemma keys_addIndegree [simp]: "map fst (addIndegree node delta indegree) = map fst indegree"
  by (simp add: addIndegree_def case_prod_unfold)

lemma map_of_absent: "map_of xs k = None \<longleftrightarrow> k \<notin> set (map fst xs)"
  by (simp add: map_of_eq_None_iff)

lemma nodeLoop_Inr:
  "nodeLoop indegree nodes = Inr indegree' \<longleftrightarrow>
     distinct nodes \<and> set nodes \<inter> set (map fst indegree) = {} \<and> indegree' = indegree @ map (\<lambda>n. (n, 0)) nodes"
  by (induction nodes arbitrary: indegree) (auto simp: map_of_absent)

lemma nodeLoop_Inl: "nodeLoop indegree nodes = Inl e \<Longrightarrow> \<exists>n \<in> set nodes. e = DuplicateNode n"
  by (induction nodes arbitrary: indegree) (auto split: if_splits)

lemma edgeLoop_Inr:
  "edgeLoop indegree edges = Inr indegree' \<longleftrightarrow> edgesWithin (map fst indegree) edges \<and>
     map fst indegree' = map fst indegree \<and>
     indegree' = map (\<lambda>(k, d). (k, d + int (count_list (map edConsumer edges) k))) indegree"
proof (induction edges arbitrary: indegree)
  case (Cons e edges)
  have eq: "map (\<lambda>(k, d). (k, d + int (count_list (map edConsumer edges) k))) (addIndegree (edConsumer e) 1 indegree)
      = map (\<lambda>(k, d). (k, d + int (count_list (map edConsumer (e # edges)) k))) indegree"
    by (auto simp: addIndegree_def)
  show ?case unfolding edgeLoop.simps map_of_absent
    using Cons[of "addIndegree (edConsumer e) 1 indegree"] eq by (auto simp: edgesWithin_def)
qed (auto simp: edgesWithin_def case_prod_unfold)

lemma releaseLoop_indegree:
  "fst (releaseLoop indegree ready consumers) = map (\<lambda>(k, d). (k, d - int (count_list consumers k))) indegree"
proof (induction consumers arbitrary: indegree ready)
  case (Cons c consumers)
  show ?case by (auto simp: Let_def Cons addIndegree_def)
qed (simp add: case_prod_unfold)

lemma releaseLoop_ready:
  assumes "\<And>n. n \<in> set consumers \<Longrightarrow> \<exists>d. map_of indegree n = Some d \<and> int (count_list consumers n) \<le> d"
  shows "\<exists>released. snd (releaseLoop indegree ready consumers) = ready @ released \<and> distinct released \<and>
    set released = {n \<in> set consumers. map_of indegree n = Some (int (count_list consumers n))}"
  using assms
proof (induction consumers arbitrary: indegree ready)
  case (Cons c consumers)
  let ?i = "addIndegree c (-1) indegree"
  obtain d where d: "map_of indegree c = Some d" "int (count_list consumers c) + 1 \<le> d"
    using Cons.prems[of c] by auto
  then have c: "map_of ?i c = Some (d - 1)" by (simp add: map_of_addIndegree)
  have other: "map_of ?i n = map_of indegree n" if "n \<noteq> c" for n
    using that by (cases "map_of indegree n") (simp_all add: map_of_addIndegree)
  have "\<exists>d. map_of ?i n = Some d \<and> int (count_list consumers n) \<le> d" if "n \<in> set consumers" for n
    using Cons.prems[of n] that c d other[of n] by (cases "n = c") auto
  from Cons.IH[of ?i "if map_of ?i c = Some 0 then ready @ [c] else ready", OF this] obtain released where
    released: "snd (releaseLoop indegree ready (c # consumers)) = (if d = 1 then ready @ [c] else ready) @ released"
      "distinct released" "set released = {n \<in> set consumers. map_of ?i n = Some (int (count_list consumers n))}"
    by (auto simp: Let_def c)
  have zero: "count_list consumers c = 0" if "d = 1" using that d by simp
  let ?new = "(if d = 1 then [c] else []) @ released"
  have "c \<notin> set consumers" if "d = 1" using zero[OF that] by (simp add: count_list_0_iff)
  then have dist: "distinct ?new" using released(2,3) by auto
  have mem: "n \<in> set ?new \<longleftrightarrow> n \<in> set (c # consumers) \<and> map_of indegree n = Some (int (count_list (c # consumers) n))" for n
  proof (cases "n = c")
    case True
    have "n \<in> set released \<longleftrightarrow> c \<in> set consumers \<and> d = int (count_list consumers c) + 1"
      using True released(3) c by auto
    moreover have "c \<notin> set consumers \<Longrightarrow> count_list consumers c = 0" by (simp add: count_list_0_iff)
    ultimately show ?thesis using True d(1) zero by (cases "c \<in> set consumers") auto
  next
    case False
    then show ?thesis using released(3) other[of n] by auto
  qed
  have "snd (releaseLoop indegree ready (c # consumers)) = ready @ ?new" using released(1) by simp
  moreover have "set ?new = {n \<in> set (c # consumers). map_of indegree n = Some (int (count_list (c # consumers) n))}"
    using mem by (intro set_eqI) (simp only: mem_Collect_eq)
  ultimately show ?case using dist by (intro exI[of _ ?new] conjI)
qed simp

section \<open>The invariant of the order loop\<close>

definition openEdges :: "ProviderEdgeV1 list \<Rightarrow> NodeID list \<Rightarrow> NodeID \<Rightarrow> nat" where
  "openEdges edges placed n = length (filter (\<lambda>e. edConsumer e = n \<and> edSupplier e \<notin> set placed) edges)"

lemma openEdges_0: "openEdges edges placed n = 0 \<longleftrightarrow> (\<forall>e \<in> set edges. edConsumer e = n \<longrightarrow> edSupplier e \<in> set placed)"
  by (auto simp: openEdges_def filter_empty_conv)

lemma unplaced_open: "n \<in> unplaced nodes edges placed \<longleftrightarrow> n \<in> set nodes \<and> n \<notin> set placed \<and> openEdges edges placed n = 0"
  by (simp add: unplaced_iff openEdges_0)

lemma openEdges_Nil: "openEdges edges [] n = count_list (map edConsumer edges) n"
  unfolding openEdges_def by (induction edges) auto

lemma openEdges_step:
  "node \<notin> set placed \<Longrightarrow> openEdges edges placed n = openEdges edges (placed @ [node]) n + count_list (consumersOf edges node) n"
  unfolding openEdges_def consumersOf_def by (induction edges) auto

definition orderInv :: "NodeID list \<Rightarrow> ProviderEdgeV1 list \<Rightarrow> indegrees \<Rightarrow> NodeID list \<Rightarrow> NodeID list \<Rightarrow> bool" where
  "orderInv nodes edges indegree ready order \<longleftrightarrow>
     map fst indegree = nodes \<and> (\<forall>n \<in> set nodes. map_of indegree n = Some (int (openEdges edges order n))) \<and>
     distinct ready \<and> set ready = unplaced nodes edges order \<and> greedyOrder nodes edges order"

lemma placed_closed:
  assumes "greedyOrder nodes edges order" "n \<in> set order"
  shows "openEdges edges order n = 0"
proof -
  obtain xs ys where "order = xs @ n # ys" using split_list[OF assms(2)] by blast
  then show ?thesis using greedyOrder_topological[OF assms(1)] by (fastforce simp: openEdges_0)
qed

lemma unplaced_step:
  assumes greedy: "greedyOrder nodes edges order" and node: "node \<in> unplaced nodes edges order"
    and edges: "edgesWithin nodes edges"
  shows "unplaced nodes edges (order @ [node]) =
    (unplaced nodes edges order - {node}) \<union> {n \<in> set (consumersOf edges node). openEdges edges order n = count_list (consumersOf edges node) n}"
proof (rule set_eqI)
  fix n
  have fresh: "node \<notin> set order" "openEdges edges order node = 0" using node by (auto simp: unplaced_open)
  have sum: "openEdges edges order n = openEdges edges (order @ [node]) n + count_list (consumersOf edges node) n"
    by (rule openEdges_step[OF fresh(1)])
  show "n \<in> unplaced nodes edges (order @ [node]) \<longleftrightarrow> n \<in> (unplaced nodes edges order - {node}) \<union>
      {n \<in> set (consumersOf edges node). openEdges edges order n = count_list (consumersOf edges node) n}"
  proof (cases "n \<in> set (consumersOf edges node)")
    case True
    then have "count_list (consumersOf edges node) n > 0" using count_list_0_iff[of _ n] by (metis neq0_conv)
    then have "openEdges edges order n \<noteq> 0" using sum by simp
    moreover from True edges have "n \<in> set nodes" by (auto simp: consumersOf_def edgesWithin_def)
    ultimately show ?thesis using True sum fresh placed_closed[OF greedy, of n] by (auto simp: unplaced_open)
  next
    case False
    then have "openEdges edges order n = openEdges edges (order @ [node]) n" using sum by (simp add: count_list_0_iff[THEN iffD2])
    then show ?thesis using False by (auto simp: unplaced_open)
  qed
qed

lemma sortReady_Cons:
  assumes "sortReady ready = node # rest" "distinct ready"
  shows "node \<in> set ready" "set rest = set ready - {node}" "distinct rest"
    "m \<in> set ready \<Longrightarrow> compareReadyNodes node m \<le> 0"
proof -
  have set: "set (node # rest) = set ready" and "distinct (node # rest)" and sorted: "sorted (map readyKey (node # rest))"
    unfolding assms(1)[symmetric] by (simp_all add: sortReady_def assms(2))
  then show "node \<in> set ready" "set rest = set ready - {node}" "distinct rest" by auto
  show "compareReadyNodes node m \<le> 0" if "m \<in> set ready"
    using that set sorted by (auto simp: ready.compare_le)
qed

lemma orderInv_step:
  assumes inv: "orderInv nodes edges indegree ready order" and edges: "edgesWithin nodes edges"
    and sorted: "sortReady ready = node # rest"
  shows "orderInv nodes edges (fst (releaseLoop indegree rest (consumersOf edges node)))
    (snd (releaseLoop indegree rest (consumersOf edges node))) (order @ [node])"
proof -
  let ?cs = "consumersOf edges node"
  note I = inv[unfolded orderInv_def]
  have ready: "distinct ready" "set ready = unplaced nodes edges order" using I by auto
  note head = sortReady_Cons[OF sorted ready(1), unfolded ready(2)]
  have fresh: "node \<notin> set order" using head(1) by (simp add: unplaced_open)
  have cs: "n \<in> set nodes" if "n \<in> set ?cs" for n using that edges by (auto simp: consumersOf_def edgesWithin_def)
  have dom: "map_of indegree n = Some (int (openEdges edges order n))" if "n \<in> set nodes" for n using I that by blast
  have bound: "\<exists>d. map_of indegree n = Some d \<and> int (count_list ?cs n) \<le> d" if "n \<in> set ?cs" for n
    using dom[OF cs[OF that]] openEdges_step[OF fresh, of edges n] by simp
  obtain released where rel: "snd (releaseLoop indegree rest ?cs) = rest @ released" "distinct released"
    "set released = {n \<in> set ?cs. map_of indegree n = Some (int (count_list ?cs n))}"
    using releaseLoop_ready[of ?cs indegree rest, OF bound] by blast
  have set: "set released = {n \<in> set ?cs. openEdges edges order n = count_list ?cs n}" using rel(3) dom cs by auto
  have disj: "set rest \<inter> set released = {}"
    unfolding set head(2) by (auto simp: unplaced_open count_list_0_iff)
  have keys: "map fst (fst (releaseLoop indegree rest ?cs)) = nodes"
    using I by (simp add: releaseLoop_indegree case_prod_unfold comp_def)
  have "map_of (fst (releaseLoop indegree rest ?cs)) n = Some (int (openEdges edges (order @ [node]) n))" if "n \<in> set nodes" for n
    using dom[OF that] openEdges_step[OF fresh, of edges n]
    by (simp add: releaseLoop_indegree map_of_keyed)
  moreover have "greedyOrder nodes edges (order @ [node])" using I head by (intro greedyOrder.place) auto
  ultimately show ?thesis
    using keys rel(1,2) disj head(2,3) set unplaced_step[OF _ head(1) edges] I by (simp add: orderInv_def)
qed

lemma orderLoop_complete:
  assumes "orderInv nodes edges indegree ready order" "edgesWithin nodes edges"
  shows "greedyOrder nodes edges (orderLoop edges indegree ready order) \<and>
    unplaced nodes edges (orderLoop edges indegree ready order) = {}"
  using assms
proof (induction edges indegree ready order rule: orderLoop.induct)
  case (1 edges indegree ready order)
  show ?case
  proof (cases "sortReady ready")
    case Nil
    then have "set ready = {}" using set_sort[of readyKey ready] by (simp add: sortReady_def)
    moreover have "orderLoop edges indegree ready order = order" by (simp add: orderLoop.simps[of edges indegree ready] Nil)
    ultimately show ?thesis using 1(2) by (simp add: orderInv_def)
  next
    case (Cons node rest)
    show ?thesis
      using 1(1)[OF Cons refl orderInv_step[OF 1(2,3) Cons] 1(3)]
      by (simp add: orderLoop.simps[of edges indegree ready] Cons Let_def)
  qed
qed

section \<open>The result\<close>

lemma greedyOrder_complete:
  assumes "greedyOrder nodes edges order" "distinct nodes"
  shows "length order = length nodes \<longleftrightarrow> set order = set nodes"
proof -
  have "distinct order" "set order \<subseteq> set nodes" using greedyOrder_distinct[OF assms(1)] by auto
  then show ?thesis using assms(2) by (metis List.finite_set card_subset_eq distinct_card)
qed

lemma StableProviderNodeOrder_run:
  assumes "distinct nodes" "edgesWithin nodes edges"
  obtains order where "greedyOrder nodes edges order" "unplaced nodes edges order = {}"
    "StableProviderNodeOrder nodes edges = (if set order = set nodes then Inr order else Inl NoCompleteOrder)"
proof -
  let ?zero = "map (\<lambda>n. (n, 0 :: int)) nodes"
  let ?ind = "map (\<lambda>(k, d). (k, d + int (count_list (map edConsumer edges) k))) ?zero"
  let ?ready = "map fst (filter (\<lambda>(k, d). d = 0) ?ind)"
  let ?order = "orderLoop edges ?ind ?ready []"
  have keys: "map fst ?zero = nodes" "map fst ?ind = nodes" by (simp_all add: comp_def)
  have node: "nodeLoop [] nodes = Inr ?zero" using assms(1) by (simp add: nodeLoop_Inr)
  have edge: "edgeLoop ?zero edges = Inr ?ind" using assms(2) by (simp add: edgeLoop_Inr keys comp_def)
  have zero: "map_of ?zero n = Some 0" if "n \<in> set nodes" for n using that by (induction nodes) auto
  have "map_of ?ind n = Some (int (openEdges edges [] n))" if "n \<in> set nodes" for n
    unfolding map_of_keyed using zero[OF that] by (simp add: openEdges_Nil)
  moreover have "?ready = filter (\<lambda>n. openEdges edges [] n = 0) nodes"
    by (simp add: openEdges_Nil filter_map comp_def)
  ultimately have inv: "orderInv nodes edges ?ind ?ready []"
    using keys assms(1) by (auto simp: orderInv_def unplaced_open intro: greedyOrder.empty)
  have "greedyOrder nodes edges ?order" "unplaced nodes edges ?order = {}"
    using orderLoop_complete[OF inv assms(2)] by auto
  moreover have "StableProviderNodeOrder nodes edges = (if set ?order = set nodes then Inr ?order else Inl NoCompleteOrder)"
    unfolding StableProviderNodeOrder_def node sum.case edge Let_def
    using greedyOrder_complete[OF calculation(1) assms(1)] by auto
  ultimately show thesis by (rule that)
qed

lemma StableProviderNodeOrder_Inr_input:
  assumes "StableProviderNodeOrder nodes edges = Inr order"
  shows "distinct nodes" "edgesWithin nodes edges"
  using assms by (auto simp: StableProviderNodeOrder_def nodeLoop_Inr edgeLoop_Inr Let_def comp_def split: sum.splits if_splits)

lemma StableProviderNodeOrder_Inr:
  "StableProviderNodeOrder nodes edges = Inr order \<longleftrightarrow>
     distinct nodes \<and> edgesWithin nodes edges \<and> greedyOrder nodes edges order \<and> set order = set nodes"
proof
  assume L: "StableProviderNodeOrder nodes edges = Inr order"
  note input = StableProviderNodeOrder_Inr_input[OF L]
  from StableProviderNodeOrder_run[OF input] L
  show "distinct nodes \<and> edgesWithin nodes edges \<and> greedyOrder nodes edges order \<and> set order = set nodes"
    using input by (metis Inr_inject sum.distinct(1))
next
  assume R: "distinct nodes \<and> edgesWithin nodes edges \<and> greedyOrder nodes edges order \<and> set order = set nodes"
  then obtain run where run: "greedyOrder nodes edges run" "unplaced nodes edges run = {}"
    "StableProviderNodeOrder nodes edges = (if set run = set nodes then Inr run else Inl NoCompleteOrder)"
    using StableProviderNodeOrder_run by blast
  have "set run = set nodes"
  proof (rule ccontr)
    assume "set run \<noteq> set nodes"
    then obtain n where "n \<in> set nodes" "n \<notin> set run" using greedyOrder_distinct[OF run(1)] by blast
    then show False using acyclic_unplaced[of edges nodes n run] complete_order_acyclic[of nodes edges order] R run(2) by blast
  qed
  moreover from this have "length run = length order"
    using R greedyOrder_complete[of nodes edges] run(1) by metis
  ultimately show "StableProviderNodeOrder nodes edges = Inr order"
    using run(1,3) greedyOrder_unique[of nodes edges run order] R by simp
qed

lemma StableProviderNodeOrder_total:
  "(\<exists>order. StableProviderNodeOrder nodes edges = Inr order) \<longleftrightarrow>
     distinct nodes \<and> edgesWithin nodes edges \<and> acyclic (supplies edges)"
proof
  assume "\<exists>order. StableProviderNodeOrder nodes edges = Inr order"
  then show "distinct nodes \<and> edgesWithin nodes edges \<and> acyclic (supplies edges)"
    using complete_order_acyclic by (auto simp: StableProviderNodeOrder_Inr)
next
  assume R: "distinct nodes \<and> edgesWithin nodes edges \<and> acyclic (supplies edges)"
  then obtain run where run: "greedyOrder nodes edges run" "unplaced nodes edges run = {}"
    "StableProviderNodeOrder nodes edges = (if set run = set nodes then Inr run else Inl NoCompleteOrder)"
    using StableProviderNodeOrder_run by blast
  have "set run = set nodes"
    using R run(2) greedyOrder_distinct[OF run(1)] acyclic_unplaced[of edges nodes _ run] by blast
  with run(3) show "\<exists>order. StableProviderNodeOrder nodes edges = Inr order" by simp
qed

end
