(* ===== verification/ProviderPlanProofs.thy ===== *)
theory ProviderPlanProofs
  imports ProviderPlan ProviderGraphProofs CanonicalIdentity
begin

text \<open>
  The depth-first cycle check of provider plans decides whether the edges are acyclic, and the
  declarative form of the plan validator.
\<close>

section \<open>The cycle check\<close>

abbreviation markedAs :: "visitMark \<Rightarrow> marks \<Rightarrow> NodeID set" where
  "markedAs m state \<equiv> {n. state n = m}"

lemma consumersOf_iff: "c \<in> set (consumersOf edges n) \<longleftrightarrow> (n, c) \<in> supplies edges"
  by (force simp: consumersOf_def supplies_def)

lemma visit_unseen:
  assumes "visit edges state node = Inr state'" "state node = Unseen"
  obtains mid where "visitAll edges (state(node := Visiting)) (consumersOf edges node) = Inr mid" "state' = mid(node := Done)"
  using assms by (auto split: sum.splits)

text \<open>A completed visit leaves the nodes being visited as they were.\<close>

lemma visit_stack:
  "visit edges state node = Inr state' \<Longrightarrow> markedAs Visiting state' = markedAs Visiting state"
  "visitAll edges state nodes = Inr state' \<Longrightarrow> markedAs Visiting state' = markedAs Visiting state"
proof (induction edges state node and edges state nodes arbitrary: state' and state' rule: visit_visitAll.induct)
  case (1 edges state node)
  show ?case
  proof (cases "state node")
    case Unseen
    obtain mid where mid: "visitAll edges (state(node := Visiting)) (consumersOf edges node) = Inr mid" "state' = mid(node := Done)"
      using visit_unseen[OF 1(2) Unseen] .
    from 1(1)[OF Unseen mid(1)] have "mid n = Visiting \<longleftrightarrow> n = node \<or> state n = Visiting" for n by (auto split: if_splits)
    then show ?thesis using mid(2) Unseen by auto
  qed (use 1 in auto)
qed (auto split: sum.splits)

text \<open>A cycle is reported only when there is one.\<close>

lemma visit_sound:
  "visit edges state node = Inl e \<Longrightarrow> \<forall>v \<in> markedAs Visiting state. (v, node) \<in> (supplies edges)\<^sup>+ \<Longrightarrow> \<not> acyclic (supplies edges)"
  "visitAll edges state nodes = Inl e \<Longrightarrow> \<forall>v \<in> markedAs Visiting state. \<forall>n \<in> set nodes. (v, n) \<in> (supplies edges)\<^sup>+ \<Longrightarrow>
     \<not> acyclic (supplies edges)"
proof (induction edges state node and edges state nodes arbitrary: e and e rule: visit_visitAll.induct)
  case (1 edges state node)
  show ?case
  proof (cases "state node")
    case Unseen
    with 1(2) have all: "visitAll edges (state(node := Visiting)) (consumersOf edges node) = Inl e" by (simp split: sum.splits)
    have "(v, n) \<in> (supplies edges)\<^sup>+" if "(state(node := Visiting)) v = Visiting" "n \<in> set (consumersOf edges node)" for v n
    proof (cases "v = node")
      case True
      with that(2) show ?thesis by (auto simp: consumersOf_iff)
    next
      case False
      with that(1) 1(3) have "(v, node) \<in> (supplies edges)\<^sup>+" by simp
      with that(2) show ?thesis by (auto simp: consumersOf_iff intro: trancl_into_trancl)
    qed
    with 1(1)[OF Unseen all] show ?thesis by blast
  next
    case Visiting
    with 1(3) show ?thesis unfolding acyclic_def by blast
  qed (use 1 in simp)
next
  case (3 edges state consumer rest)
  show ?case
  proof (cases "visit edges state consumer")
    case (Inl e')
    with 3(1)[OF Inl] 3(4) show ?thesis by simp
  next
    case (Inr state')
    with 3(3) have "visitAll edges state' rest = Inl e" by simp
    from 3(2)[OF Inr this] 3(4) visit_stack(1)[OF Inr] show ?thesis by simp
  qed
qed simp

text \<open>The nodes that are done are closed under consumers, and no cycle passes through them.\<close>

definition doneClosed :: "ProviderEdgeV1 list \<Rightarrow> marks \<Rightarrow> bool" where
  "doneClosed edges state \<longleftrightarrow>
     (\<forall>n c. state n = Done \<and> (n, c) \<in> supplies edges \<longrightarrow> state c = Done) \<and>
     acyclic {(n, c) \<in> supplies edges. state n = Done}"

lemma acyclic_extend:
  assumes "acyclic {(a, b) \<in> S. a \<in> D}" "\<And>a b. (a, b) \<in> S \<Longrightarrow> a \<in> D \<or> a = n \<Longrightarrow> b \<in> D" "n \<notin> D"
  shows "acyclic {(a, b) \<in> S. a \<in> insert n D}"
proof (rule acyclicI, intro allI notI)
  fix x
  assume cycle: "(x, x) \<in> {(a, b) \<in> S. a \<in> insert n D}\<^sup>+"
  have "y \<in> D \<and> (x \<in> D \<longrightarrow> (x, y) \<in> {(a, b) \<in> S. a \<in> D}\<^sup>+)" if "(x, y) \<in> {(a, b) \<in> S. a \<in> insert n D}\<^sup>+" for x y
    using that
  proof (induction rule: trancl_induct)
    case (base y)
    then show ?case using assms(2) by auto
  next
    case (step y z)
    then have "(y, z) \<in> {(a, b) \<in> S. a \<in> D}" "z \<in> D" using assms(2) by auto
    with step show ?case by (auto intro: trancl_into_trancl)
  qed
  from this[OF cycle] assms(1) show False unfolding acyclic_def by blast
qed

lemma visit_complete:
  "visit edges state node = Inr state' \<Longrightarrow> doneClosed edges state \<Longrightarrow>
     doneClosed edges state' \<and> state' node = Done \<and> (\<forall>n. state n = Done \<longrightarrow> state' n = Done)"
  "visitAll edges state nodes = Inr state' \<Longrightarrow> doneClosed edges state \<Longrightarrow>
     doneClosed edges state' \<and> (\<forall>n \<in> set nodes. state' n = Done) \<and> (\<forall>n. state n = Done \<longrightarrow> state' n = Done)"
proof (induction edges state node and edges state nodes arbitrary: state' and state' rule: visit_visitAll.induct)
  case (1 edges state node)
  show ?case
  proof (cases "state node")
    case Unseen
    obtain mid where mid: "visitAll edges (state(node := Visiting)) (consumersOf edges node) = Inr mid" "state' = mid(node := Done)"
      using visit_unseen[OF 1(2) Unseen] .
    have same: "(state(node := Visiting)) n = Done \<longleftrightarrow> state n = Done" for n using Unseen by auto
    then have "doneClosed edges (state(node := Visiting))" using 1(3) by (simp add: doneClosed_def)
    from 1(1)[OF Unseen mid(1) this] have after: "doneClosed edges mid" "\<And>c. (node, c) \<in> supplies edges \<Longrightarrow> mid c = Done"
      "\<And>n. state n = Done \<Longrightarrow> mid n = Done" by (auto simp: consumersOf_iff same simp del: fun_upd_apply)
    have visiting: "mid node = Visiting" using visit_stack(2)[OF mid(1)] by (auto split: if_splits)
    have done': "state' n = Done \<longleftrightarrow> n \<in> insert node (markedAs Done mid)" for n using mid(2) by auto
    have "acyclic {(a, b) \<in> supplies edges. a \<in> insert node (markedAs Done mid)}"
      using after visiting by (intro acyclic_extend) (auto simp: doneClosed_def)
    then have "doneClosed edges state'" using after visiting unfolding doneClosed_def done' by auto
    moreover have "state' node = Done \<and> (\<forall>n. state n = Done \<longrightarrow> state' n = Done)" using after(3) by (simp add: done')
    ultimately show ?thesis by blast
  qed (use 1 in auto)
next
  case (3 edges state consumer rest)
  from 3(3) obtain mid where mid: "visit edges state consumer = Inr mid" "visitAll edges mid rest = Inr state'" by (auto split: sum.splits)
  from 3(1)[OF mid(1) 3(4)] 3(2)[OF mid(1) mid(2)] show ?case by auto
qed auto

lemma rootsLoop_exact:
  assumes "doneClosed edges state" "markedAs Visiting state = {}"
  shows "rootsLoop edges state nodes = None \<Longrightarrow>
      \<exists>state'. doneClosed edges state' \<and> (\<forall>n. n \<in> set nodes \<or> state n = Done \<longrightarrow> state' n = Done)"
    and "rootsLoop edges state nodes = Some e \<Longrightarrow> \<not> acyclic (supplies edges)"
  using assms
proof (induction nodes arbitrary: state)
  case (Cons node nodes)
  {
    case 1
    then obtain mid where mid: "visit edges state node = Inr mid" "rootsLoop edges mid nodes = None" by (auto split: sum.splits)
    note step = visit_complete(1)[OF mid(1) 1(2)]
    with visit_stack(1)[OF mid(1)] 1(3) Cons(1)[OF mid(2)] show ?case by auto
  next
    case 2
    then consider e' where "visit edges state node = Inl e'" | mid where "visit edges state node = Inr mid" "rootsLoop edges mid nodes = Some e"
      by (auto split: sum.splits)
    then show ?case
    proof cases
      case (1 e')
      then show ?thesis using visit_sound(1)[OF 1] 2(3) by blast
    next
      case (2 mid)
      then show ?thesis using Cons(2)[OF 2(2)] visit_complete(1)[OF 2(1)] visit_stack(1)[OF 2(1)] \<open>doneClosed edges state\<close> \<open>markedAs Visiting state = {}\<close> by auto
    qed
  }
qed auto

lemma rejectProviderPlanCycles_iff:
  assumes "edgesWithin (map nsID nodes) edges"
  shows "rejectProviderPlanCycles nodes edges = None \<longleftrightarrow> acyclic (supplies edges)"
proof -
  have start: "doneClosed edges (\<lambda>_. Unseen)" "markedAs Visiting (\<lambda>_. Unseen) = {}" by (simp_all add: doneClosed_def acyclic_def)
  show ?thesis
  proof
    assume "rejectProviderPlanCycles nodes edges = None"
    then obtain state' where state': "doneClosed edges state'" "\<And>n. n \<in> nsID ` set nodes \<Longrightarrow> state' n = Done"
      using rootsLoop_exact(1)[OF start, of "map nsID nodes"] by (auto simp: rejectProviderPlanCycles_def)
    have "{(n, c) \<in> supplies edges. state' n = Done} = supplies edges"
      using assms state'(2) by (auto simp: supplies_def edgesWithin_def)
    with state'(1) show "acyclic (supplies edges)" by (simp add: doneClosed_def)
  next
    assume "acyclic (supplies edges)"
    then show "rejectProviderPlanCycles nodes edges = None"
      using rootsLoop_exact(2)[OF start, of "map nsID nodes"] by (cases "rejectProviderPlanCycles nodes edges") (auto simp: rejectProviderPlanCycles_def)
  qed
qed

end
