(* ===== verification/ProviderPlanSpec.thy ===== *)
theory ProviderPlanSpec
  imports ProviderPlanProofs
begin

text \<open>
  What a valid provider plan is, without the loops and tables of the validator, and the proof
  that \<open>ValidateProviderPlanV1\<close> accepts exactly the valid plans.
\<close>

section \<open>Valid plans\<close>

definition componentsOf :: "NodeSpec \<Rightarrow> string list" where
  "componentsOf node = elems (nsComponents node)"

definition executablesOf :: "NodeSpec \<Rightarrow> ExecutableRequirement list" where
  "executablesOf node = elems (rdExecutables (nsRequirements node))"

definition edgeMatches :: "NodeSpec list \<Rightarrow> ProviderEdgeV1 \<Rightarrow> bool" where
  "edgeMatches nodes edge \<longleftrightarrow>
     (\<exists>supplier \<in> set nodes. \<exists>consumer \<in> set nodes. \<exists>requirement \<in> set (executablesOf consumer).
        nsID supplier = edSupplier edge \<and> nsID consumer = edConsumer edge \<and> nsID supplier \<noteq> nsID consumer \<and> nsID consumer \<noteq> ''base'' \<and>
        erID requirement = edRequirementID edge \<and> erSupplier requirement \<noteq> [] \<and> erSupplier requirement \<in> set (componentsOf supplier) \<and>
        edOutput edge = \<lparr>qoComponent = erSupplier requirement, qoName = erCommand requirement\<rparr> \<and> nodeDeclaresOutput supplier (edOutput edge))"

definition edgeFor :: "NodeID \<Rightarrow> string \<Rightarrow> ProviderEdgeV1 \<Rightarrow> bool" where
  "edgeFor consumer requirementID edge \<longleftrightarrow> edConsumer edge = consumer \<and> edRequirementID edge = requirementID"

definition requirementsCovered :: "NodeSpec list \<Rightarrow> ProviderEdgeV1 list \<Rightarrow> bool" where
  "requirementsCovered nodes edges \<longleftrightarrow>
     (\<forall>consumer \<in> set nodes. \<forall>requirement \<in> set (executablesOf consumer). erSupplier requirement \<noteq> [] \<longrightarrow>
        (\<exists>!edge. edge \<in> set edges \<and> edgeFor (nsID consumer) (erID requirement) edge))"

definition planNodesOK :: "heap \<Rightarrow> NodeSpec list \<Rightarrow> bool" where
  "planNodesOK h nodes \<longleftrightarrow>
     sorted_wrt (<) (map nsID nodes) \<and> (\<forall>node \<in> set nodes. ValidateNodeSpec h node = None) \<and>
     distinct (concat (map componentsOf nodes)) \<and> ''base'' \<in> nsID ` set nodes"

definition planOK :: "heap \<Rightarrow> ProviderPlanV1 \<Rightarrow> bool" where
  "planOK h plan \<longleftrightarrow>
     ppSchema plan = ''provider-plan-v1'' \<and> ppNodes plan \<noteq> None \<and> ppEdges plan \<noteq> None \<and>
     (let nodes = elems (ppNodes plan); edges = elems (ppEdges plan)
      in planNodesOK h nodes \<and> sorted_wrt (<) (map edgeKey edges) \<and> (\<forall>edge \<in> set edges. edgeMatches nodes edge) \<and>
         requirementsCovered nodes edges \<and> acyclic (supplies edges))"

section \<open>The tables of the validator\<close>

lemma claimComponents_Inr:
  "claimComponents node m components = Inr m' \<longleftrightarrow>
     distinct components \<and> (\<forall>c \<in> set components. m c = None) \<and> m' = (\<lambda>c. if c \<in> set components then Some node else m c)"
proof (induction components arbitrary: m)
  case (Cons c components)
  show ?case
  proof (cases "m c")
    case None
    have eq: "(\<lambda>d. if d \<in> set components then Some node else (m(c \<mapsto> node)) d) = (\<lambda>d. if d \<in> set (c # components) then Some node else m d)"
      by auto
    have step: "claimComponents node m (c # components) = claimComponents node (m(c \<mapsto> node)) components" by (simp add: None)
    have "(\<forall>d \<in> set components. (m(c \<mapsto> node)) d = None) \<longleftrightarrow> c \<notin> set components \<and> (\<forall>d \<in> set components. m d = None)" by auto
    then show ?thesis unfolding step Cons eq using None by auto
  qed auto
qed auto

fun tablesAfter :: "planTables \<Rightarrow> NodeSpec list \<Rightarrow> planTables" where
  "tablesAfter tables [] = tables"
| "tablesAfter tables (node # rest) =
     tablesAfter \<lparr>ptNodes = (ptNodes tables)(nsID node \<mapsto> node),
       ptComponents = (\<lambda>c. if c \<in> set (componentsOf node) then Some (nsID node) else ptComponents tables c),
       ptBaseCount = (if nsID node = ''base'' then Suc (ptBaseCount tables) else ptBaseCount tables)\<rparr> rest"

lemma planNodesLoop_Inr:
  "planNodesLoop h prev tables nodes = Inr tables' \<longleftrightarrow>
     increasing (\<lambda>x. x) prev (map nsID nodes) \<and> (\<forall>node \<in> set nodes. ValidateNodeSpec h node = None) \<and>
     distinct (concat (map componentsOf nodes)) \<and> (\<forall>c \<in> set (concat (map componentsOf nodes)). ptComponents tables c = None) \<and>
     tables' = tablesAfter tables nodes"
proof (induction nodes arbitrary: prev tables)
  case (Cons node nodes)
  define t where "t = \<lparr>ptNodes = (ptNodes tables)(nsID node \<mapsto> node),
       ptComponents = (\<lambda>c. if c \<in> set (componentsOf node) then Some (nsID node) else ptComponents tables c),
       ptBaseCount = (if nsID node = ''base'' then Suc (ptBaseCount tables) else ptBaseCount tables)\<rparr>"
  let ?bad = "case prev of None \<Rightarrow> False | Some p \<Rightarrow> p \<ge> nsID node"
  let ?claim = "claimComponents (nsID node) (ptComponents tables) (componentsOf node)"
  let ?free = "distinct (componentsOf node) \<and> (\<forall>c \<in> set (componentsOf node). ptComponents tables c = None)"
  have upd: "t\<lparr>ptComponents := m\<rparr> = \<lparr>ptNodes = (ptNodes tables)(nsID node \<mapsto> node), ptComponents = m,
       ptBaseCount = (if nsID node = ''base'' then Suc (ptBaseCount tables) else ptBaseCount tables)\<rparr>" for m
    by (simp add: t_def)
  have unfold: "planNodesLoop h prev tables (node # nodes) =
      (if ?bad then Inl NodesUnsorted
       else case ValidateNodeSpec h node of
         Some e \<Rightarrow> Inl (NodeInvalid (nsID node) e)
       | None \<Rightarrow> (case ?claim of Inl e \<Rightarrow> Inl e | Inr m \<Rightarrow> planNodesLoop h (Some (nsID node)) (t\<lparr>ptComponents := m\<rparr>) nodes))"
    by (simp only: planNodesLoop.simps upd componentsOf_def)
  have "?claim = Inr (ptComponents t)" if ?free using that by (simp add: claimComponents_Inr t_def)
  moreover have "\<exists>e. ?claim = Inl e" if "\<not> ?free"
  proof (cases ?claim)
    case (Inr m)
    then show ?thesis using that claimComponents_Inr[of "nsID node" "ptComponents tables" "componentsOf node" m] by blast
  qed auto
  moreover have "t\<lparr>ptComponents := ptComponents t\<rparr> = t" by simp
  ultimately have "planNodesLoop h prev tables (node # nodes) = Inr tables' \<longleftrightarrow>
      \<not> ?bad \<and> ValidateNodeSpec h node = None \<and> ?free \<and> planNodesLoop h (Some (nsID node)) t nodes = Inr tables'"
    unfolding unfold by (cases ?free; cases "ValidateNodeSpec h node") auto
  moreover have "increasing (\<lambda>x. x) prev (map nsID (node # nodes)) \<longleftrightarrow>
      \<not> ?bad \<and> increasing (\<lambda>x. x) (Some (nsID node)) (map nsID nodes)"
    by (auto split: option.splits)
  moreover have "tablesAfter tables (node # nodes) = tablesAfter t nodes" by (simp add: t_def)
  moreover have "ptComponents t c = None \<longleftrightarrow> c \<notin> set (componentsOf node) \<and> ptComponents tables c = None" for c by (simp add: t_def)
  ultimately show ?case unfolding Cons[of "Some (nsID node)" t] by auto
qed auto

lemma tablesAfter_nodes:
  assumes "distinct (map nsID nodes)"
  shows "ptNodes (tablesAfter tables nodes) n = Some node \<longleftrightarrow>
    (node \<in> set nodes \<and> nsID node = n) \<or> (n \<notin> nsID ` set nodes \<and> ptNodes tables n = Some node)"
  using assms by (induction nodes arbitrary: tables) (auto split: if_splits)

lemma tablesAfter_components:
  assumes "distinct (concat (map componentsOf nodes))"
  shows "ptComponents (tablesAfter tables nodes) c = Some n \<longleftrightarrow>
    (\<exists>node \<in> set nodes. nsID node = n \<and> c \<in> set (componentsOf node)) \<or>
    (c \<notin> set (concat (map componentsOf nodes)) \<and> ptComponents tables c = Some n)"
  using assms by (induction nodes arbitrary: tables) auto

lemma tablesAfter_base: "ptBaseCount (tablesAfter tables nodes) = ptBaseCount tables + count_list (map nsID nodes) ''base''"
  by (induction nodes arbitrary: tables) auto

interpretation edges: three_way compareProviderEdges edgeKey
  by unfold_locales (auto simp: compareProviderEdges_def edgeKey_def)

definition tableKey :: "ProviderEdgeV1 \<Rightarrow> string" where
  "tableKey edge = edgeRequirementKey (edConsumer edge) (edRequirementID edge)"

definition edgeAccepted :: "planTables \<Rightarrow> (string \<times> ExecutableRequirement) list \<Rightarrow> ProviderEdgeV1 \<Rightarrow> bool" where
  "edgeAccepted tables explicit edge \<longleftrightarrow>
     (\<exists>supplier requirement. ptNodes tables (edSupplier edge) = Some supplier \<and> ptNodes tables (edConsumer edge) \<noteq> None \<and>
        edSupplier edge \<noteq> edConsumer edge \<and> edConsumer edge \<noteq> ''base'' \<and> map_of explicit (tableKey edge) = Some requirement \<and>
        ptComponents tables (erSupplier requirement) = Some (edSupplier edge) \<and>
        qoComponent (edOutput edge) = erSupplier requirement \<and> qoName (edOutput edge) = erCommand requirement \<and>
        nodeDeclaresOutput supplier (edOutput edge))"

lemma planEdgesLoop_step:
  "planEdgesLoop tables explicit prev seen (edge # rest) = Inr seen' \<longleftrightarrow>
     (case prev of None \<Rightarrow> True | Some p \<Rightarrow> edgeKey p < edgeKey edge) \<and> edgeAccepted tables explicit edge \<and> tableKey edge \<notin> set seen \<and>
     planEdgesLoop tables explicit (Some edge) (tableKey edge # seen) rest = Inr seen'"
proof -
  have bad: "(case prev of None \<Rightarrow> False | Some p \<Rightarrow> compareProviderEdges p edge \<ge> 0) \<longleftrightarrow>
      \<not> (case prev of None \<Rightarrow> True | Some p \<Rightarrow> edgeKey p < edgeKey edge)"
    by (auto simp: edges.compare_ge split: option.splits)
  show ?thesis unfolding planEdgesLoop.simps bad edgeAccepted_def tableKey_def Let_def
    by (cases "ptNodes tables (edSupplier edge)";
        cases "map_of explicit (edgeRequirementKey (edConsumer edge) (edRequirementID edge))") auto
qed

lemma planEdgesLoop_Inr:
  "planEdgesLoop tables explicit prev seen edges = Inr seen' \<longleftrightarrow>
     increasing edgeKey prev edges \<and> (\<forall>edge \<in> set edges. edgeAccepted tables explicit edge) \<and>
     distinct (map tableKey edges) \<and> tableKey ` set edges \<inter> set seen = {} \<and> seen' = rev (map tableKey edges) @ seen"
proof (induction edges arbitrary: prev seen)
  case (Cons edge edges)
  show ?case unfolding planEdgesLoop_step Cons by auto
qed auto

lemma missingEdge_None: "missingEdge seen table = None \<longleftrightarrow> fst ` set table \<subseteq> set seen"
  by (induction seen table rule: missingEdge.induct) auto

section \<open>Requirement keys\<close>

lemma ofName_None [simp]: "ofName c = None \<longleftrightarrow> c = None"
  by (cases c) (simp_all add: ofName_def)

lemma validNode:
  assumes "ValidateNodeSpec h node = None"
  shows "validateNodeID (nsID node) (nsProvider node) (componentsOf node) = None" "componentsLoop None (componentsOf node) = None"
    "ValidateRequirementDeclaration h (nsRequirements node) = None"
  using assms by (auto simp: ValidateNodeSpec_def componentsOf_def split: if_splits sum.splits)

lemma componentsLoop_reference: "componentsLoop prev components = None \<Longrightarrow> c \<in> set components \<Longrightarrow> ValidateContributionReference ''contribution'' c = None"
  by (induction components arbitrary: prev) (auto split: if_splits)

lemma validNode_no_nul:
  assumes "ValidateNodeSpec h node = None"
  shows "CHR 0x00 \<notin> set (nsID node)"
proof (cases "nsProvider node = ''python''")
  case True
  with validNode(1)[OF assms] obtain component where comps: "componentsOf node = [component]"
    and ident: "nsID node = (case ApplicationContributionOwner component ''python'' of
      Some application \<Rightarrow> ''python/'' @ ApplicationID application | None \<Rightarrow> ''python/'' @ component)"
    by (auto simp: validateNodeID_def validateComponentProvider_def Let_def split: list.splits if_splits)
  have "CHR 0x00 \<notin> set component" using componentsLoop_reference[OF validNode(2)[OF assms], of component] comps reference_no_nul by simp
  moreover have "CHR 0x00 \<notin> set application" if "ApplicationContributionOwner component ''python'' = Some application" for application
    using that identifier_chars
    by (auto simp: ApplicationContributionOwner_def validateProviderIdentifier_def split: list.splits if_splits)
  ultimately show ?thesis unfolding ident by (auto simp: ApplicationID_def split: option.splits)
next
  case False
  with validNode(1)[OF assms] have "nsID node = ''base'' \<or> nsID node = ''apt''"
    by (auto simp: validateNodeID_def validateComponentProvider_def split: if_splits)
  then show ?thesis by auto
qed

lemma executablesLoop_distinct:
  "executablesLoop prev seen rs = Inr seen' \<Longrightarrow> distinct (map erID rs) \<and> erID ` set rs \<inter> set seen = {}"
proof (induction rs arbitrary: prev seen)
  case (Cons r rs)
  then have "erID r \<notin> set seen" and rest: "executablesLoop (Some (erID r)) (erID r # seen) rs = Inr seen'"
    by (auto simp: validateRequirementID_def split: if_splits option.splits)
  with Cons.IH[OF rest] show ?case by auto
qed simp

lemma validNode_requirements: "ValidateNodeSpec h node = None \<Longrightarrow> distinct (map erID (executablesOf node))"
  using executablesLoop_distinct validNode(3)[of h node]
  by (auto simp: ValidateRequirementDeclaration_def executablesOf_def split: if_splits sum.splits)

lemma edgeRequirementKey_inj:
  "CHR 0x00 \<notin> set n \<Longrightarrow> CHR 0x00 \<notin> set m \<Longrightarrow> edgeRequirementKey n r = edgeRequirementKey m q \<longleftrightarrow> n = m \<and> r = q"
  using append_separator[of "CHR 0x00" n m r q] by (auto simp: edgeRequirementKey_def)

lemma requirementTable_mem:
  "(k, r) \<in> set (requirementTable nodes) \<longleftrightarrow> (\<exists>node \<in> set nodes. r \<in> set (executablesOf node) \<and> k = edgeRequirementKey (nsID node) (erID r))"
  by (auto simp: requirementTable_def executablesOf_def)

lemma requirementTable_distinct:
  assumes "distinct (map nsID nodes)" "\<forall>node \<in> set nodes. ValidateNodeSpec h node = None"
  shows "distinct (map fst (requirementTable nodes))"
proof -
  let ?keys = "\<lambda>nodes. concat (map (\<lambda>node. map (\<lambda>r. edgeRequirementKey (nsID node) (erID r)) (executablesOf node)) nodes)"
  have "distinct (?keys nodes)" using assms
  proof (induction nodes)
    case (Cons node nodes)
    have key: "edgeRequirementKey (nsID node) r = edgeRequirementKey (nsID m) q \<longleftrightarrow> nsID node = nsID m \<and> r = q"
      if "m \<in> set (node # nodes)" for m r q
      using that Cons.prems(2) validNode_no_nul[of h] by (intro edgeRequirementKey_inj) auto
    have "distinct (map (\<lambda>r. edgeRequirementKey (nsID node) (erID r)) (executablesOf node))"
      using validNode_requirements[of h node] Cons.prems(2) key[of node] by (auto simp: distinct_map inj_on_def)
    moreover have "edgeRequirementKey (nsID node) r \<noteq> edgeRequirementKey (nsID m) q" if "m \<in> set nodes" for m r q
      using key[of m r q] that Cons.prems(1) by auto
    ultimately show ?case using Cons by (auto simp: disjoint_iff)
  qed simp
  then have "distinct (rev (?keys nodes))" by simp
  moreover have "map fst (requirementTable nodes) = rev (?keys nodes)"
    by (simp add: requirementTable_def rev_map[symmetric] map_concat comp_def executablesOf_def)
  ultimately show ?thesis by simp
qed

lemma explicit_lookup:
  assumes "distinct (map nsID nodes)" "\<forall>node \<in> set nodes. ValidateNodeSpec h node = None"
  shows "map_of (explicitTable nodes) k = Some r \<longleftrightarrow>
    (\<exists>node \<in> set nodes. r \<in> set (executablesOf node) \<and> k = edgeRequirementKey (nsID node) (erID r) \<and> erSupplier r \<noteq> [])"
proof -
  have "distinct (map fst (explicitTable nodes))"
    using requirementTable_distinct[OF assms] unfolding explicitTable_def by (rule distinct_map_filter)
  then have "map_of (explicitTable nodes) k = Some r \<longleftrightarrow> (k, r) \<in> set (explicitTable nodes)" by simp
  then show ?thesis by (auto simp: explicitTable_def requirementTable_mem)
qed

section \<open>The validator is exact\<close>

lemma planNodesOK_facts:
  assumes "planNodesOK h nodes"
  shows "distinct (map nsID nodes)" "\<forall>node \<in> set nodes. ValidateNodeSpec h node = None" "distinct (concat (map componentsOf nodes))"
  using assms sorted_wrt_less_distinct[of "map nsID nodes"] by (auto simp: planNodesOK_def)

lemma node_unique: "distinct (map nsID nodes) \<Longrightarrow> n \<in> set nodes \<Longrightarrow> m \<in> set nodes \<Longrightarrow> nsID n = nsID m \<Longrightarrow> n = m"
  by (auto simp: distinct_map inj_on_def)

lemma edgeAccepted_iff:
  assumes ok: "planNodesOK h nodes"
  shows "edgeAccepted (tablesAfter emptyTables nodes) (explicitTable nodes) edge \<longleftrightarrow> edgeMatches nodes edge"
proof -
  note facts = planNodesOK_facts[OF ok]
  have N: "ptNodes (tablesAfter emptyTables nodes) n = Some node \<longleftrightarrow> node \<in> set nodes \<and> nsID node = n" for n node
    using tablesAfter_nodes[OF facts(1)] by (simp add: emptyTables_def)
  have C: "ptComponents (tablesAfter emptyTables nodes) c = Some n \<longleftrightarrow> (\<exists>node \<in> set nodes. nsID node = n \<and> c \<in> set (componentsOf node))" for c n
    using tablesAfter_components[OF facts(3)] by (simp add: emptyTables_def)
  have known: "ptNodes (tablesAfter emptyTables nodes) n \<noteq> None \<longleftrightarrow> n \<in> nsID ` set nodes" for n
    using N by (fastforce simp: not_None_eq)
  have key: "tableKey edge = edgeRequirementKey (nsID node) r \<longleftrightarrow> edConsumer edge = nsID node \<and> edRequirementID edge = r"
    if "node \<in> set nodes" "edConsumer edge \<in> nsID ` set nodes" for node r
    unfolding tableKey_def using that facts(2) validNode_no_nul[of h] by (intro edgeRequirementKey_inj) auto
  show ?thesis
  proof
    assume "edgeAccepted (tablesAfter emptyTables nodes) (explicitTable nodes) edge"
    then obtain supplier requirement consumer owner where e: "supplier \<in> set nodes" "nsID supplier = edSupplier edge"
      "edConsumer edge \<in> nsID ` set nodes" "edSupplier edge \<noteq> edConsumer edge" "edConsumer edge \<noteq> ''base''"
      "consumer \<in> set nodes" "requirement \<in> set (executablesOf consumer)" "tableKey edge = edgeRequirementKey (nsID consumer) (erID requirement)"
      "erSupplier requirement \<noteq> []" "owner \<in> set nodes" "nsID owner = edSupplier edge" "erSupplier requirement \<in> set (componentsOf owner)"
      "qoComponent (edOutput edge) = erSupplier requirement" "qoName (edOutput edge) = erCommand requirement" "nodeDeclaresOutput supplier (edOutput edge)"
      unfolding edgeAccepted_def N C known explicit_lookup[OF facts(1,2)] by blast
    have "owner = supplier" using node_unique[OF facts(1) e(10,1)] e(2,11) by simp
    moreover have "edConsumer edge = nsID consumer" "edRequirementID edge = erID requirement" using e(8) key[OF e(6,3)] by blast+
    moreover have "edOutput edge = \<lparr>qoComponent = erSupplier requirement, qoName = erCommand requirement\<rparr>"
      using e(13,14) by (simp add: QualifiedOutput.equality)
    ultimately show "edgeMatches nodes edge"
      unfolding edgeMatches_def using e(2,4,5,9,12,15)
      by (intro bexI[OF _ e(1)] bexI[OF _ e(6)] bexI[OF _ e(7)] conjI) simp_all
  next
    assume "edgeMatches nodes edge"
    then obtain supplier consumer requirement where e: "supplier \<in> set nodes" "consumer \<in> set nodes" "requirement \<in> set (executablesOf consumer)"
      "nsID supplier = edSupplier edge" "nsID consumer = edConsumer edge" "nsID supplier \<noteq> nsID consumer" "nsID consumer \<noteq> ''base''"
      "erID requirement = edRequirementID edge" "erSupplier requirement \<noteq> []" "erSupplier requirement \<in> set (componentsOf supplier)"
      "edOutput edge = \<lparr>qoComponent = erSupplier requirement, qoName = erCommand requirement\<rparr>" "nodeDeclaresOutput supplier (edOutput edge)"
      unfolding edgeMatches_def by blast
    have "edConsumer edge \<in> nsID ` set nodes" using e(2,5) by force
    moreover have "\<exists>node \<in> set nodes. requirement \<in> set (executablesOf node) \<and>
        tableKey edge = edgeRequirementKey (nsID node) (erID requirement) \<and> erSupplier requirement \<noteq> []"
      using e by (intro bexI[OF _ e(2)]) (simp add: tableKey_def)
    moreover have "\<exists>node \<in> set nodes. nsID node = edSupplier edge \<and> erSupplier requirement \<in> set (componentsOf node)"
      using e by (intro bexI[OF _ e(1)]) simp
    ultimately show "edgeAccepted (tablesAfter emptyTables nodes) (explicitTable nodes) edge"
      unfolding edgeAccepted_def N C known explicit_lookup[OF facts(1,2)] using e
      by (intro exI[of _ supplier] exI[of _ requirement] conjI) simp_all
  qed
qed

lemma edges_within:
  assumes "\<forall>edge \<in> set edges. edgeMatches nodes edge"
  shows "edgesWithin (map nsID nodes) edges"
proof -
  have "edSupplier e \<in> nsID ` set nodes \<and> edConsumer e \<in> nsID ` set nodes" if "edgeMatches nodes e" for e
    using that unfolding edgeMatches_def by (metis imageI)
  with assms show ?thesis by (simp add: edgesWithin_def)
qed

lemma edgeMatches_owner:
  "edgeMatches nodes edge \<Longrightarrow>
     \<exists>consumer \<in> set nodes. \<exists>r \<in> set (executablesOf consumer). erSupplier r \<noteq> [] \<and> edgeFor (nsID consumer) (erID r) edge"
  unfolding edgeMatches_def edgeFor_def by metis

text \<open>Every requirement that \<open>sel\<close> picks has exactly one edge: the check by keys and its meaning.\<close>

lemma requirements_covered:
  assumes ok: "planNodesOK h nodes"
    and owner: "\<And>edge. edge \<in> set edges \<Longrightarrow> \<exists>consumer \<in> set nodes. \<exists>r \<in> set (executablesOf consumer). sel r \<and> edgeFor (nsID consumer) (erID r) edge"
  shows "distinct (map tableKey edges) \<and> fst ` set (filter (\<lambda>(k, r). sel r) (requirementTable nodes)) \<subseteq> tableKey ` set edges \<longleftrightarrow>
    distinct edges \<and> (\<forall>consumer \<in> set nodes. \<forall>r \<in> set (executablesOf consumer). sel r \<longrightarrow>
      (\<exists>!edge. edge \<in> set edges \<and> edgeFor (nsID consumer) (erID r) edge))"
proof -
  let ?keys = "distinct (map tableKey edges) \<and> fst ` set (filter (\<lambda>(k, r). sel r) (requirementTable nodes)) \<subseteq> tableKey ` set edges"
  let ?one = "\<lambda>consumer r. \<exists>!edge. edge \<in> set edges \<and> edgeFor (nsID consumer) (erID r) edge"
  note facts = planNodesOK_facts[OF ok]
  have nul: "CHR 0x00 \<notin> set (nsID node)" if "node \<in> set nodes" for node using that validNode_no_nul[of h] facts(2) by blast
  have nul': "CHR 0x00 \<notin> set (edConsumer edge)" if "edge \<in> set edges" for edge
    using owner[OF that] nul by (auto simp: edgeFor_def)
  have key: "tableKey edge = edgeRequirementKey (nsID node) r \<longleftrightarrow> edgeFor (nsID node) r edge" if "node \<in> set nodes" "edge \<in> set edges" for node edge r
    unfolding tableKey_def edgeFor_def using nul[OF that(1)] nul'[OF that(2)] by (rule edgeRequirementKey_inj[rotated])
  have inj: "tableKey e = tableKey f \<longleftrightarrow> edConsumer e = edConsumer f \<and> edRequirementID e = edRequirementID f" if "e \<in> set edges" "f \<in> set edges" for e f
    unfolding tableKey_def using nul'[OF that(1)] nul'[OF that(2)] by (rule edgeRequirementKey_inj)
  have mem: "k \<in> fst ` set (filter (\<lambda>(k, r). sel r) (requirementTable nodes)) \<longleftrightarrow>
      (\<exists>consumer \<in> set nodes. \<exists>r \<in> set (executablesOf consumer). sel r \<and> k = edgeRequirementKey (nsID consumer) (erID r))" for k
    by (force simp: requirementTable_mem)
  show ?thesis
  proof
    assume L: ?keys
    then have unique: "e = f" if "e \<in> set edges" "f \<in> set edges" "tableKey e = tableKey f" for e f
      using that by (auto simp: distinct_map inj_on_def)
    have "?one consumer r" if "consumer \<in> set nodes" "r \<in> set (executablesOf consumer)" "sel r" for consumer r
    proof -
      have "edgeRequirementKey (nsID consumer) (erID r) \<in> tableKey ` set edges" using L mem that by blast
      then obtain edge where "edge \<in> set edges" "tableKey edge = edgeRequirementKey (nsID consumer) (erID r)" by force
      then show ?thesis using key[OF that(1)] unique by metis
    qed
    then show "distinct edges \<and> (\<forall>consumer \<in> set nodes. \<forall>r \<in> set (executablesOf consumer). sel r \<longrightarrow> ?one consumer r)"
      using L by (simp add: distinct_map)
  next
    assume R: "distinct edges \<and> (\<forall>consumer \<in> set nodes. \<forall>r \<in> set (executablesOf consumer). sel r \<longrightarrow> ?one consumer r)"
    have "e = f" if ef: "e \<in> set edges" "f \<in> set edges" "tableKey e = tableKey f" for e f
    proof -
      obtain consumer r where c: "consumer \<in> set nodes" "r \<in> set (executablesOf consumer)" "sel r" "edgeFor (nsID consumer) (erID r) e"
        using owner[OF ef(1)] by blast
      moreover have "edgeFor (nsID consumer) (erID r) f" using c(4) inj[OF ef(1,2)] ef(3) by (simp add: edgeFor_def)
      ultimately show ?thesis using R ef(1,2) by blast
    qed
    then have "distinct (map tableKey edges)" using R by (auto simp: distinct_map inj_on_def)
    moreover have "fst ` set (filter (\<lambda>(k, r). sel r) (requirementTable nodes)) \<subseteq> tableKey ` set edges"
    proof
      fix k
      assume "k \<in> fst ` set (filter (\<lambda>(k, r). sel r) (requirementTable nodes))"
      then obtain consumer r where c: "consumer \<in> set nodes" "r \<in> set (executablesOf consumer)" "sel r"
        "k = edgeRequirementKey (nsID consumer) (erID r)" using mem by blast
      then obtain edge where "edge \<in> set edges" "edgeFor (nsID consumer) (erID r) edge" using R by blast
      then show "k \<in> tableKey ` set edges" using key[OF c(1)] c(4) by (metis imageI)
    qed
    ultimately show ?keys by blast
  qed
qed

lemma explicit_covered:
  assumes "planNodesOK h nodes" "\<forall>edge \<in> set edges. edgeMatches nodes edge"
  shows "distinct (map tableKey edges) \<and> fst ` set (explicitTable nodes) \<subseteq> tableKey ` set edges \<longleftrightarrow>
    distinct edges \<and> requirementsCovered nodes edges"
  unfolding requirementsCovered_def explicitTable_def using assms(2)
  by (intro requirements_covered[OF assms(1)] edgeMatches_owner) blast

lemma base_count:
  assumes "distinct (map nsID nodes)"
  shows "count_list (map nsID nodes) ''base'' = 1 \<longleftrightarrow> ''base'' \<in> nsID ` set nodes"
proof -
  have "count_list xs x = 1 \<longleftrightarrow> x \<in> set xs" if "distinct xs" for xs and x :: string
    using that by (induction xs) (auto simp: count_list_0_iff)
  from this[OF assms] show ?thesis by simp
qed

lemma nodes_table:
  "(\<exists>tables. planNodesLoop h None emptyTables nodes = Inr tables \<and> ptBaseCount tables = 1) \<longleftrightarrow> planNodesOK h nodes"
  using base_count[of nodes] sorted_wrt_less_distinct[of "map nsID nodes"]
  by (auto simp: planNodesLoop_Inr planNodesOK_def increasing_None sortedUnique_iff tablesAfter_base emptyTables_def)

theorem ValidateProviderPlanV1_iff: "ValidateProviderPlanV1 h plan = None \<longleftrightarrow> planOK h plan"
proof (cases "ppSchema plan = ''provider-plan-v1'' \<and> ppNodes plan \<noteq> None \<and> ppEdges plan \<noteq> None \<and> planNodesOK h (elems (ppNodes plan))")
  case False
  then show ?thesis using nodes_table[of h "elems (ppNodes plan)"]
    by (auto simp: ValidateProviderPlanV1_def planOK_def Let_def split: sum.splits if_splits)
next
  case True
  define nodes edges where "nodes = elems (ppNodes plan)" and "edges = elems (ppEdges plan)"
  note valid = True[folded nodes_def]
  then have ok: "planNodesOK h nodes" by simp
  have tables: "planNodesLoop h None emptyTables nodes = Inr (tablesAfter emptyTables nodes)"
    "ptBaseCount (tablesAfter emptyTables nodes) = 1"
    using nodes_table[of h nodes] ok by (auto simp: planNodesLoop_Inr)
  have "ValidateProviderPlanV1 h plan = None \<longleftrightarrow>
      (\<exists>seen. planEdgesLoop (tablesAfter emptyTables nodes) (explicitTable nodes) None [] edges = Inr seen \<and>
         missingEdge seen (explicitTable nodes) = None \<and> rejectProviderPlanCycles nodes edges = None)"
    using True tables by (auto simp: ValidateProviderPlanV1_def nodes_def edges_def Let_def split: sum.splits)
  also have "\<dots> \<longleftrightarrow> sorted_wrt (<) (map edgeKey edges) \<and> (\<forall>edge \<in> set edges. edgeMatches nodes edge) \<and>
      (distinct (map tableKey edges) \<and> fst ` set (explicitTable nodes) \<subseteq> tableKey ` set edges) \<and> rejectProviderPlanCycles nodes edges = None"
    by (auto simp: planEdgesLoop_Inr edgeAccepted_iff[OF ok] increasing_None sortedUnique_iff missingEdge_None)
  also have "\<dots> \<longleftrightarrow> planOK h plan"
  proof (cases "sorted_wrt (<) (map edgeKey edges) \<and> (\<forall>edge \<in> set edges. edgeMatches nodes edge)")
    case True
    then have "distinct edges" using sorted_wrt_less_distinct[of "map edgeKey edges"] by (simp add: distinct_map)
    with True show ?thesis
      using explicit_covered[OF ok, of edges] rejectProviderPlanCycles_iff[OF edges_within[of edges nodes]]
        valid unfolding planOK_def nodes_def[symmetric] edges_def[symmetric] Let_def by simp
  next
    case False
    then show ?thesis unfolding planOK_def nodes_def[symmetric] edges_def[symmetric] Let_def by blast
  qed
  finally show ?thesis .
qed

section \<open>The order of a valid plan\<close>

lemma planOK_order:
  assumes "planOK h plan"
  obtains order where "StableProviderInitializationOrder h plan = Inr order"
    "greedyOrder (map nsID (elems (ppNodes plan))) (elems (ppEdges plan)) order" "set order = nsID ` set (elems (ppNodes plan))"
proof -
  let ?nodes = "map nsID (elems (ppNodes plan))" and ?edges = "elems (ppEdges plan)"
  have ok: "planNodesOK h (elems (ppNodes plan))" "\<forall>edge \<in> set ?edges. edgeMatches (elems (ppNodes plan)) edge" "acyclic (supplies ?edges)"
    using assms by (simp_all add: planOK_def Let_def)
  then obtain order where order: "StableProviderNodeOrder ?nodes ?edges = Inr order"
    using StableProviderNodeOrder_total[of ?nodes ?edges] planNodesOK_facts(1)[OF ok(1)] edges_within[OF ok(2)] by blast
  moreover have "ValidateProviderPlanV1 h plan = None" using assms by (simp add: ValidateProviderPlanV1_iff)
  ultimately have "StableProviderInitializationOrder h plan = Inr order" by (simp add: StableProviderInitializationOrder_def)
  moreover have "greedyOrder ?nodes ?edges order" "set order = nsID ` set (elems (ppNodes plan))"
    using order by (simp_all add: StableProviderNodeOrder_Inr)
  ultimately show thesis by (rule that)
qed

lemma base_first:
  assumes "planOK h plan" "StableProviderInitializationOrder h plan = Inr order"
  shows "\<exists>rest. order = ''base'' # rest"
proof -
  let ?nodes = "map nsID (elems (ppNodes plan))" and ?edges = "elems (ppEdges plan)"
  have greedy: "greedyOrder ?nodes ?edges order" "set order = set ?nodes" using planOK_order[OF assms(1)] assms(2) by auto
  have base: "''base'' \<in> set ?nodes" using assms(1) by (auto simp: planOK_def planNodesOK_def Let_def)
  then obtain n rest where order: "order = n # rest" using greedy(2) by (cases order) auto
  have consumer: "edConsumer e \<noteq> ''base''" if "e \<in> set ?edges" for e
    using assms(1) that by (fastforce simp: planOK_def edgeMatches_def Let_def)
  then have "''base'' \<in> unplaced ?nodes ?edges []" using base by (auto simp: unplaced_iff)
  moreover have "greedyOrder ?nodes ?edges ([] @ [n])" using greedyOrder_prefix[of ?nodes ?edges "[n]" rest] greedy(1) order by simp
  ultimately have "compareReadyNodes n ''base'' \<le> 0" by (auto elim!: greedyOrder_snocE[of _ _ "[]" n, simplified])
  then have "n = ''base''" by (auto simp: compareReadyNodes_def nodeInitializationPriority_def split: if_splits)
  with order show ?thesis by blast
qed

end
