(* ===== verification/ProviderSelection.thy ===== *)
theory ProviderSelection
  imports ProviderPlanSpec
begin

text \<open>
  The edges selected at run time: \<open>ValidateProviderSelectedEdgesV1\<close> accepts a selection exactly
  when every executable requirement of the plan has one edge, from an earlier node that declares
  the output, and the explicit requirements keep their structural edges.
\<close>

definition selectionMatches :: "ProviderPlanV1 \<Rightarrow> NodeID list \<Rightarrow> ProviderEdgeV1 \<Rightarrow> bool" where
  "selectionMatches plan order edge \<longleftrightarrow>
     (\<exists>supplier \<in> set (elems (ppNodes plan)). \<exists>consumer \<in> set (elems (ppNodes plan)). \<exists>requirement \<in> set (executablesOf consumer).
        nsID supplier = edSupplier edge \<and> nsID consumer = edConsumer edge \<and> edConsumer edge \<noteq> ''base'' \<and>
        erID requirement = edRequirementID edge \<and> qoName (edOutput edge) = erCommand requirement \<and> nodeDeclaresOutput supplier (edOutput edge) \<and>
        (erSupplier requirement \<noteq> [] \<longrightarrow> edge \<in> set (elems (ppEdges plan))) \<and>
        rankOf order (edSupplier edge) < rankOf order (edConsumer edge))"

definition allRequirementsCovered :: "NodeSpec list \<Rightarrow> ProviderEdgeV1 list \<Rightarrow> bool" where
  "allRequirementsCovered nodes edges \<longleftrightarrow>
     (\<forall>consumer \<in> set nodes. \<forall>requirement \<in> set (executablesOf consumer).
        \<exists>!edge. edge \<in> set edges \<and> edgeFor (nsID consumer) (erID requirement) edge)"

definition selectionOK :: "heap \<Rightarrow> ProviderPlanV1 \<Rightarrow> ProviderEdgeV1 slice \<Rightarrow> bool" where
  "selectionOK h plan selected \<longleftrightarrow>
     planOK h plan \<and> selected \<noteq> None \<and>
     (\<exists>order. StableProviderInitializationOrder h plan = Inr order \<and> sorted_wrt (<) (map edgeKey (elems selected)) \<and>
        (\<forall>edge \<in> set (elems selected). selectionMatches plan order edge) \<and> allRequirementsCovered (elems (ppNodes plan)) (elems selected))"

section \<open>The loop\<close>

definition selectionAccepted :: "(NodeID \<rightharpoonup> NodeSpec) \<Rightarrow> (string \<times> ExecutableRequirement) list \<Rightarrow> (string \<times> ProviderEdgeV1) list \<Rightarrow>
    (NodeID \<Rightarrow> nat) \<Rightarrow> ProviderEdgeV1 \<Rightarrow> bool" where
  "selectionAccepted nodes requirements structural rank edge \<longleftrightarrow>
     (\<exists>supplier requirement. nodes (edSupplier edge) = Some supplier \<and> nodes (edConsumer edge) \<noteq> None \<and> edSupplier edge \<noteq> edConsumer edge \<and>
        edConsumer edge \<noteq> ''base'' \<and> map_of requirements (tableKey edge) = Some requirement \<and> qoName (edOutput edge) = erCommand requirement \<and>
        (erSupplier requirement \<noteq> [] \<longrightarrow> qoComponent (edOutput edge) = erSupplier requirement) \<and> nodeDeclaresOutput supplier (edOutput edge) \<and>
        (\<forall>expected. map_of structural (tableKey edge) = Some expected \<longrightarrow> edge = expected) \<and> rank (edSupplier edge) < rank (edConsumer edge))"

lemma selectedLoop_step:
  "selectedLoop nodes requirements structural rank prev seen (edge # rest) = Inr seen' \<longleftrightarrow>
     (case prev of None \<Rightarrow> True | Some p \<Rightarrow> edgeKey p < edgeKey edge) \<and> selectionAccepted nodes requirements structural rank edge \<and>
     tableKey edge \<notin> set seen \<and> selectedLoop nodes requirements structural rank (Some edge) (tableKey edge # seen) rest = Inr seen'"
proof -
  have bad: "(case prev of None \<Rightarrow> False | Some p \<Rightarrow> compareProviderEdges p edge \<ge> 0) \<longleftrightarrow>
      \<not> (case prev of None \<Rightarrow> True | Some p \<Rightarrow> edgeKey p < edgeKey edge)"
    by (auto simp: edges.compare_ge split: option.splits)
  show ?thesis unfolding selectedLoop.simps bad selectionAccepted_def tableKey_def[symmetric] Let_def
    by (cases "nodes (edSupplier edge)"; cases "map_of requirements (tableKey edge)"; cases "map_of structural (tableKey edge)")
       (auto simp: not_less)
qed

lemma selectedLoop_Inr:
  "selectedLoop nodes requirements structural rank prev seen edges = Inr seen' \<longleftrightarrow>
     increasing edgeKey prev edges \<and> (\<forall>edge \<in> set edges. selectionAccepted nodes requirements structural rank edge) \<and>
     distinct (map tableKey edges) \<and> tableKey ` set edges \<inter> set seen = {} \<and> seen' = rev (map tableKey edges) @ seen"
proof (induction edges arbitrary: prev seen)
  case (Cons edge edges)
  show ?case unfolding selectedLoop_step Cons by auto
qed auto

lemma requirement_lookup:
  assumes "distinct (map nsID nodes)" "\<forall>node \<in> set nodes. ValidateNodeSpec h node = None"
  shows "map_of (requirementTable nodes) k = Some r \<longleftrightarrow>
    (\<exists>node \<in> set nodes. r \<in> set (executablesOf node) \<and> k = edgeRequirementKey (nsID node) (erID r))"
  using requirementTable_distinct[OF assms] by (simp add: requirementTable_mem)

lemma nodeTable_lookup:
  assumes "distinct (map nsID nodes)"
  shows "nodeTable nodes n = Some node \<longleftrightarrow> node \<in> set nodes \<and> nsID node = n"
proof -
  have "distinct (map fst (rev (map (\<lambda>node. (nsID node, node)) nodes)))" using assms by (simp add: rev_map[symmetric] comp_def)
  then show ?thesis unfolding nodeTable_def by (subst map_of_eq_Some_iff) auto
qed

lemma structural_lookup:
  assumes "distinct (map tableKey edges)"
  shows "map_of (structuralTable edges) k = Some e \<longleftrightarrow> e \<in> set edges \<and> tableKey e = k"
proof -
  have eq: "structuralTable edges = rev (map (\<lambda>edge. (tableKey edge, edge)) edges)" by (simp add: structuralTable_def tableKey_def)
  have "distinct (map fst (structuralTable edges))" using assms by (simp add: eq rev_map[symmetric] comp_def)
  then show ?thesis by (subst map_of_eq_Some_iff) (auto simp: eq)
qed

lemma rank_acyclic: "(\<And>e. e \<in> set edges \<Longrightarrow> rank (edSupplier e) < (rank (edConsumer e) :: nat)) \<Longrightarrow> acyclic (supplies edges)"
proof -
  assume "\<And>e. e \<in> set edges \<Longrightarrow> rank (edSupplier e) < rank (edConsumer e)"
  then have "supplies edges \<subseteq> measure rank" by (auto simp: supplies_def)
  then show ?thesis using acyclic_subset[OF wf_acyclic[OF wf_measure]] by blast
qed

section \<open>The validator is exact\<close>

lemma planOK_facts:
  assumes "planOK h plan"
  shows "planNodesOK h (elems (ppNodes plan))" "\<forall>edge \<in> set (elems (ppEdges plan)). edgeMatches (elems (ppNodes plan)) edge"
    "requirementsCovered (elems (ppNodes plan)) (elems (ppEdges plan))" "distinct (map tableKey (elems (ppEdges plan)))"
proof -
  show *: "planNodesOK h (elems (ppNodes plan))" "\<forall>edge \<in> set (elems (ppEdges plan)). edgeMatches (elems (ppNodes plan)) edge"
    "requirementsCovered (elems (ppNodes plan)) (elems (ppEdges plan))"
    using assms by (simp_all add: planOK_def Let_def)
  have "sorted_wrt (<) (map edgeKey (elems (ppEdges plan)))" using assms by (simp add: planOK_def Let_def)
  then have "distinct (elems (ppEdges plan))"
    using sorted_wrt_less_distinct[of "map edgeKey (elems (ppEdges plan))"] by (simp add: distinct_map)
  then show "distinct (map tableKey (elems (ppEdges plan)))" using explicit_covered[OF *(1,2)] *(3) by blast
qed

text \<open>
  For an edge of some requirement, the comparison with the structural edge and the check of the
  supplier component together say: an explicit requirement keeps its structural edge.
\<close>

lemma structural_choice:
  assumes ok: "planNodesOK h nodes" "\<forall>edge \<in> set edges. edgeMatches nodes edge" "requirementsCovered nodes edges" "distinct (map tableKey edges)"
    and c: "consumer \<in> set nodes" "r \<in> set (executablesOf consumer)" "edgeFor (nsID consumer) (erID r) edge"
  shows "(\<forall>expected. map_of (structuralTable edges) (tableKey edge) = Some expected \<longrightarrow> edge = expected) \<and>
      (erSupplier r \<noteq> [] \<longrightarrow> qoComponent (edOutput edge) = erSupplier r) \<longleftrightarrow> (erSupplier r \<noteq> [] \<longrightarrow> edge \<in> set edges)"
proof -
  note facts = planNodesOK_facts[OF ok(1)]
  have nul: "CHR 0x00 \<notin> set (nsID node)" if "node \<in> set nodes" for node using that validNode_no_nul[of h] facts(2) by blast
  have same: "edgeFor (nsID consumer) (erID r) e" if "e \<in> set edges" "tableKey e = tableKey edge" for e
    using ok(2) c nul that edgeRequirementKey_inj[of "edConsumer e" "nsID consumer"] unfolding edgeMatches_def edgeFor_def tableKey_def by metis
  have req: "r' = r" if "consumer' \<in> set nodes" "r' \<in> set (executablesOf consumer')" "nsID consumer' = nsID consumer" "erID r' = erID r" for consumer' r'
    using that c node_unique[OF facts(1)] validNode_requirements[of h consumer] facts(2) by (metis inj_onD distinct_map)
  have out: "erSupplier r \<noteq> [] \<and> qoComponent (edOutput e) = erSupplier r" if e: "e \<in> set edges" "edgeFor (nsID consumer) (erID r) e" for e
  proof -
    from ok(2) e(1) obtain consumer' r' where m: "consumer' \<in> set nodes" "r' \<in> set (executablesOf consumer')" "nsID consumer' = edConsumer e"
      "erID r' = edRequirementID e" "erSupplier r' \<noteq> []" "edOutput e = \<lparr>qoComponent = erSupplier r', qoName = erCommand r'\<rparr>"
      unfolding edgeMatches_def by blast
    then have "r' = r" using req e(2) by (simp add: edgeFor_def)
    with m show ?thesis by simp
  qed
  show ?thesis
  proof (cases "erSupplier r = []")
    case True
    have "e \<notin> set edges" if "tableKey e = tableKey edge" for e using same[of e] out[of e] that True by blast
    then show ?thesis using True structural_lookup[OF ok(4), of "tableKey edge"] by auto
  next
    case False
    then obtain e where e: "e \<in> set edges" "edgeFor (nsID consumer) (erID r) e" using ok(3) c(1,2) unfolding requirementsCovered_def by blast
    have keyEq: "tableKey e = tableKey edge" using e(2) c(3) by (simp add: edgeFor_def tableKey_def)
    then have lookup: "map_of (structuralTable edges) (tableKey edge) = Some e" using structural_lookup[OF ok(4)] e(1) by blast
    have "edge \<in> set edges \<longleftrightarrow> edge = e" using keyEq e(1) ok(4) by (auto simp: distinct_map inj_on_def)
    with lookup out[OF e] False show ?thesis by auto
  qed
qed

lemma accepted_iff:
  assumes plan: "planOK h plan"
  shows "selectionAccepted (nodeTable (elems (ppNodes plan))) (requirementTable (elems (ppNodes plan))) (structuralTable (elems (ppEdges plan)))
      (rankOf order) edge \<longleftrightarrow> selectionMatches plan order edge"
proof -
  define nodes edges where "nodes = elems (ppNodes plan)" and "edges = elems (ppEdges plan)"
  note ok = planOK_facts[OF plan, folded nodes_def edges_def]
  note facts = planNodesOK_facts[OF ok(1)]
  have nul: "CHR 0x00 \<notin> set (nsID node)" if "node \<in> set nodes" for node using that validNode_no_nul[of h] facts(2) by blast
  have N: "nodeTable nodes n = Some node \<longleftrightarrow> node \<in> set nodes \<and> nsID node = n" for n node by (rule nodeTable_lookup[OF facts(1)])
  have known: "nodeTable nodes n \<noteq> None \<longleftrightarrow> (\<exists>node \<in> set nodes. nsID node = n)" for n using N by (auto simp: not_None_eq)
  have key: "tableKey edge = edgeRequirementKey (nsID node) r \<longleftrightarrow> edgeFor (nsID node) r edge"
    if "node \<in> set nodes" "\<exists>node \<in> set nodes. nsID node = edConsumer edge" for node r
  proof -
    have "CHR 0x00 \<notin> set (edConsumer edge)" using that(2) nul by metis
    then show ?thesis unfolding tableKey_def edgeFor_def using nul[OF that(1)] by (rule edgeRequirementKey_inj)
  qed
  note choice = structural_choice[OF ok]
  note lookups = N known requirement_lookup[OF facts(1,2)]
  show ?thesis unfolding nodes_def[symmetric] edges_def[symmetric]
  proof
    assume "selectionAccepted (nodeTable nodes) (requirementTable nodes) (structuralTable edges) (rankOf order) edge"
    then obtain supplier r consumer where a: "supplier \<in> set nodes" "nsID supplier = edSupplier edge" "\<exists>node \<in> set nodes. nsID node = edConsumer edge"
      "edConsumer edge \<noteq> ''base''" "consumer \<in> set nodes" "r \<in> set (executablesOf consumer)" "tableKey edge = edgeRequirementKey (nsID consumer) (erID r)"
      "qoName (edOutput edge) = erCommand r" "erSupplier r \<noteq> [] \<longrightarrow> qoComponent (edOutput edge) = erSupplier r" "nodeDeclaresOutput supplier (edOutput edge)"
      "\<forall>expected. map_of (structuralTable edges) (tableKey edge) = Some expected \<longrightarrow> edge = expected" "rankOf order (edSupplier edge) < rankOf order (edConsumer edge)"
      unfolding selectionAccepted_def lookups by blast
    have ef: "edgeFor (nsID consumer) (erID r) edge" using key[OF a(5,3)] a(7) by blast
    then have "nsID consumer = edConsumer edge" "erID r = edRequirementID edge" by (simp_all add: edgeFor_def)
    moreover have "erSupplier r \<noteq> [] \<longrightarrow> edge \<in> set edges" using choice[OF a(5,6) ef] a(9,11) by blast
    ultimately show "selectionMatches plan order edge"
      unfolding selectionMatches_def nodes_def[symmetric] edges_def[symmetric] using a(2,4,8,10,12)
      by (intro bexI[of _ supplier, OF _ a(1)] bexI[of _ consumer, OF _ a(5)] bexI[of _ r, OF _ a(6)] conjI) simp_all
  next
    assume "selectionMatches plan order edge"
    then obtain supplier consumer r where a: "supplier \<in> set nodes" "consumer \<in> set nodes" "r \<in> set (executablesOf consumer)"
      "nsID supplier = edSupplier edge" "nsID consumer = edConsumer edge" "edConsumer edge \<noteq> ''base''" "erID r = edRequirementID edge"
      "qoName (edOutput edge) = erCommand r" "nodeDeclaresOutput supplier (edOutput edge)" "erSupplier r \<noteq> [] \<longrightarrow> edge \<in> set edges"
      "rankOf order (edSupplier edge) < rankOf order (edConsumer edge)"
      unfolding selectionMatches_def nodes_def[symmetric] edges_def[symmetric] by blast
    then have ef: "edgeFor (nsID consumer) (erID r) edge" by (simp add: edgeFor_def)
    have "\<exists>node \<in> set nodes. r \<in> set (executablesOf node) \<and> tableKey edge = edgeRequirementKey (nsID node) (erID r)"
      using a by (intro bexI[OF _ a(2)]) (simp add: tableKey_def)
    moreover have "\<exists>node \<in> set nodes. nsID node = edConsumer edge" using a(2,5) by blast
    moreover have "edSupplier edge \<noteq> edConsumer edge" using a(11) by auto
    moreover have "(\<forall>expected. map_of (structuralTable edges) (tableKey edge) = Some expected \<longrightarrow> edge = expected)"
      "erSupplier r \<noteq> [] \<longrightarrow> qoComponent (edOutput edge) = erSupplier r" using choice[OF a(2,3) ef] a(10) by blast+
    ultimately show "selectionAccepted (nodeTable nodes) (requirementTable nodes) (structuralTable edges) (rankOf order) edge"
      unfolding selectionAccepted_def lookups using a(1,4,6,8,9,11) by (intro exI[of _ supplier] exI[of _ r] conjI) simp_all
  qed
qed

lemma selectionMatches_owner:
  "selectionMatches plan order edge \<Longrightarrow>
     \<exists>consumer \<in> set (elems (ppNodes plan)). \<exists>r \<in> set (executablesOf consumer). True \<and> edgeFor (nsID consumer) (erID r) edge"
  unfolding selectionMatches_def edgeFor_def by metis

lemma selectionMatches_edges:
  assumes "\<forall>edge \<in> set edges. selectionMatches plan order edge"
  shows "rejectProviderPlanCycles (elems (ppNodes plan)) edges = None"
proof -
  have "edSupplier e \<in> nsID ` set (elems (ppNodes plan)) \<and> edConsumer e \<in> nsID ` set (elems (ppNodes plan)) \<and>
      rankOf order (edSupplier e) < rankOf order (edConsumer e)" if "e \<in> set edges" for e
    using assms that unfolding selectionMatches_def by (metis imageI)
  then show ?thesis
    using rejectProviderPlanCycles_iff[of "elems (ppNodes plan)" edges] rank_acyclic[of edges "rankOf order"] by (simp add: edgesWithin_def)
qed

theorem ValidateProviderSelectedEdgesV1_iff: "ValidateProviderSelectedEdgesV1 h plan selected = None \<longleftrightarrow> selectionOK h plan selected"
proof (cases "planOK h plan \<and> selected \<noteq> None")
  case False
  then show ?thesis by (auto simp: ValidateProviderSelectedEdgesV1_def selectionOK_def ValidateProviderPlanV1_iff[symmetric] split: option.splits)
next
  case True
  define edges where "edges = elems selected"
  let ?nodes = "elems (ppNodes plan)"
  obtain order where order: "StableProviderInitializationOrder h plan = Inr order" using planOK_order True by blast
  have "ValidateProviderSelectedEdgesV1 h plan selected = None \<longleftrightarrow>
      (\<exists>seen. selectedLoop (nodeTable ?nodes) (requirementTable ?nodes) (structuralTable (elems (ppEdges plan))) (rankOf order) None [] edges = Inr seen \<and>
         missingEdge seen (requirementTable ?nodes) = None \<and> rejectProviderPlanCycles ?nodes edges = None)"
    using True order ValidateProviderPlanV1_iff[of h plan]
    by (auto simp: ValidateProviderSelectedEdgesV1_def edges_def Let_def wrap_def split: sum.splits)
  also have "\<dots> \<longleftrightarrow> sorted_wrt (<) (map edgeKey edges) \<and> (\<forall>edge \<in> set edges. selectionMatches plan order edge) \<and>
      (distinct (map tableKey edges) \<and> fst ` set (requirementTable ?nodes) \<subseteq> tableKey ` set edges)"
    using selectionMatches_edges[of edges plan order] True
    by (auto simp: selectedLoop_Inr accepted_iff increasing_None sortedUnique_iff missingEdge_None)
  also have "\<dots> \<longleftrightarrow> sorted_wrt (<) (map edgeKey edges) \<and> (\<forall>edge \<in> set edges. selectionMatches plan order edge) \<and> allRequirementsCovered ?nodes edges"
  proof (cases "sorted_wrt (<) (map edgeKey edges) \<and> (\<forall>edge \<in> set edges. selectionMatches plan order edge)")
    case matches: True
    then have "distinct edges" using sorted_wrt_less_distinct[of "map edgeKey edges"] by (simp add: distinct_map)
    moreover have "filter (\<lambda>(k, r). True) (requirementTable ?nodes) = requirementTable ?nodes" by (simp add: case_prod_unfold)
    moreover have "planNodesOK h ?nodes" using planOK_facts(1) True by blast
    ultimately show ?thesis
      using matches requirements_covered[of h ?nodes edges "\<lambda>_. True"] selectionMatches_owner[of plan order]
      unfolding allRequirementsCovered_def by simp
  qed blast
  finally show ?thesis using True order by (auto simp: selectionOK_def edges_def)
qed

end
