(* ===== verification/ProviderCandidates.thy ===== *)
theory ProviderCandidates
  imports ProviderEvidence ProviderSelection
begin

text \<open>
  Candidates for executable requirements and their frozen selection: \<open>BuildRequirementCandidates\<close>,
  \<open>FreezeExecutableSelections\<close> and \<open>ValidateFrozenExecutableSelections\<close> of
  \<open>src/internal/providers/graph.go\<close>. The candidate validator is supplied by the provider; a
  nil validator is \<^const>\<open>None\<close>.
\<close>

section \<open>Candidates\<close>

record RequirementCandidatesV1 =
  rcRequirementID :: string
  rcOutputs :: "RealizedOutput slice"

record FrozenExecutableSelection =
  fsRequirementID :: string
  fsOutput :: RealizedOutput
  fsEvidence :: ExecutableEvidence

datatype candidate_error =
    CandidatePlan plan_error
  | ConsumerUnknown NodeID
  | ConsumerNotResolving NodeID
  | UnknownSupplierNode nat NodeID
  | ConsumerInCatalog NodeID
  | LaterNode NodeID NodeID
  | CatalogUnsorted
  | CatalogOutput nat evidence_error
  | ValidatorMissing
  | GroupsMismatch
  | GroupMismatch nat string
  | ValidatorFailed string string
  | EvidenceRejected evidence_error
  | ExplicitWithoutOutput string string string
  | NoCompatibleOutput string string
  | SelectionsMismatch
  | SelectionMismatch nat string
  | SelectionChanged string string

definition compareRealizedCatalogOutputs :: "RealizedOutput \<Rightarrow> RealizedOutput \<Rightarrow> int" where
  "compareRealizedCatalogOutputs left right =
     (if roSupplierComponent left < roSupplierComponent right then -1
      else if roSupplierComponent left > roSupplierComponent right then 1
      else if roName left < roName right then -1
      else if roName left > roName right then 1
      else 0)"

fun catalogLoop :: "heap \<Rightarrow> NodeID set \<Rightarrow> (NodeID \<Rightarrow> nat) \<Rightarrow> NodeID \<Rightarrow> nat \<Rightarrow> RealizedOutput option \<Rightarrow> RealizedOutput list \<Rightarrow> candidate_error check" where
  "catalogLoop h nodes rank consumerID index prev [] = None"
| "catalogLoop h nodes rank consumerID index prev (out # rest) =
     (if roSupplierNode out \<notin> nodes then Some (UnknownSupplierNode index (roSupplierNode out))
      else if roSupplierNode out = consumerID then Some (ConsumerInCatalog consumerID)
      else if rank (roSupplierNode out) \<ge> rank consumerID then Some (LaterNode (roSupplierNode out) consumerID)
      else if (case prev of None \<Rightarrow> False | Some p \<Rightarrow>
          rank (roSupplierNode p) > rank (roSupplierNode out) \<or>
          rank (roSupplierNode p) = rank (roSupplierNode out) \<and> compareRealizedCatalogOutputs p out \<ge> 0) then Some CatalogUnsorted
      else orElse (wrap (CatalogOutput index) (validateRealizedCatalogOutput h out))
        (catalogLoop h nodes rank consumerID (Suc index) (Some out) rest))"

definition candidateFor :: "ExecutableRequirement \<Rightarrow> RealizedOutput \<Rightarrow> bool" where
  "candidateFor requirement out \<longleftrightarrow>
     roName out = erCommand requirement \<and> (erSupplier requirement = [] \<or> roSupplierComponent out = erSupplier requirement)"

definition BuildRequirementCandidates :: "heap \<Rightarrow> ProviderPlanV1 \<Rightarrow> NodeID \<Rightarrow> RealizedOutput list \<Rightarrow> candidate_error + RequirementCandidatesV1 list" where
  "BuildRequirementCandidates h plan consumerID earlierCatalog =
     (case ValidateProviderPlanV1 h plan of
        Some e \<Rightarrow> Inl (CandidatePlan e)
      | None \<Rightarrow>
          (case StableProviderInitializationOrder h plan of
             Inl e \<Rightarrow> Inl (CandidatePlan e)
           | Inr order \<Rightarrow>
               if consumerID \<notin> set order then Inl (ConsumerUnknown consumerID)
               else (case nodeTable (elems (ppNodes plan)) consumerID of
                       None \<Rightarrow> Inl (ConsumerNotResolving consumerID)
                     | Some consumer \<Rightarrow>
                         if consumerID = ''base'' then Inl (ConsumerNotResolving consumerID)
                         else (case catalogLoop h (nsID ` set (elems (ppNodes plan))) (rankOf order) consumerID 0 None earlierCatalog of
                                 Some e \<Rightarrow> Inl e
                               | None \<Rightarrow>
                                   Inr (map (\<lambda>requirement. \<lparr>rcRequirementID = erID requirement,
                                          rcOutputs = Some (filter (candidateFor requirement) earlierCatalog)\<rparr>)
                                        (elems (rdExecutables (nsRequirements consumer))))))))"

section \<open>Frozen selections\<close>

type_synonym candidateValidator = "ExecutableRequirement \<Rightarrow> RealizedOutput \<Rightarrow> string + (ExecutableEvidence \<times> bool)"

fun chooseLoop :: "heap \<Rightarrow> candidateValidator \<Rightarrow> ExecutableRequirement \<Rightarrow> RealizedOutput list \<Rightarrow> candidate_error + FrozenExecutableSelection" where
  "chooseLoop h validate requirement [] =
     Inl (if erSupplier requirement \<noteq> [] then ExplicitWithoutOutput (erSupplier requirement) (erCommand requirement) (erID requirement)
          else NoCompatibleOutput (erCommand requirement) (erID requirement))"
| "chooseLoop h validate requirement (out # rest) =
     (case validate requirement out of
        Inl e \<Rightarrow> Inl (ValidatorFailed (erID requirement) e)
      | Inr (evidence, compatible) \<Rightarrow>
          if \<not> compatible then chooseLoop h validate requirement rest
          else (case validateFrozenEvidence h requirement out evidence of
                  Some e \<Rightarrow> Inl (EvidenceRejected e)
                | None \<Rightarrow> Inr \<lparr>fsRequirementID = erID requirement, fsOutput = out, fsEvidence = evidence\<rparr>))"

fun freezeLoop :: "heap \<Rightarrow> candidateValidator \<Rightarrow> nat \<Rightarrow> ExecutableRequirement list \<Rightarrow> RequirementCandidatesV1 list \<Rightarrow>
    candidate_error + FrozenExecutableSelection list" where
  "freezeLoop h validate index (requirement # requirements) (grp # groups) =
     (if rcRequirementID grp \<noteq> erID requirement \<or> rcOutputs grp = None then Inl (GroupMismatch index (erID requirement))
      else case chooseLoop h validate requirement (elems (rcOutputs grp)) of
        Inl e \<Rightarrow> Inl e
      | Inr selection \<Rightarrow> map_sum (\<lambda>e. e) ((#) selection) (freezeLoop h validate (Suc index) requirements groups))"
| "freezeLoop h validate index _ _ = Inr []"

definition FreezeExecutableSelections :: "heap \<Rightarrow> NodeSpec \<Rightarrow> RequirementCandidatesV1 list \<Rightarrow> candidateValidator option \<Rightarrow>
    candidate_error + FrozenExecutableSelection list" where
  "FreezeExecutableSelections h node groups validator =
     (case ValidateNodeSpec h node of
        Some e \<Rightarrow> Inl (CandidatePlan e)
      | None \<Rightarrow>
          (case validator of
             None \<Rightarrow> Inl ValidatorMissing
           | Some validate \<Rightarrow>
               if length groups \<noteq> length (executablesOf node) then Inl GroupsMismatch
               else freezeLoop h validate 0 (executablesOf node) groups))"

fun frozenLoop :: "heap \<Rightarrow> (ExecutableRequirement \<Rightarrow> FrozenExecutableSelection \<Rightarrow> string check) \<Rightarrow> nat \<Rightarrow> ExecutableRequirement list \<Rightarrow>
    FrozenExecutableSelection list \<Rightarrow> candidate_error check" where
  "frozenLoop h validate index (requirement # requirements) (selection # selections) =
     (if fsRequirementID selection \<noteq> erID requirement then Some (SelectionMismatch index (erID requirement))
      else orElse (wrap EvidenceRejected (validateFrozenEvidence h requirement (fsOutput selection) (fsEvidence selection)))
        (orElse (wrap (SelectionChanged (erID requirement)) (validate requirement selection))
          (frozenLoop h validate (Suc index) requirements selections)))"
| "frozenLoop h validate index _ _ = None"

definition ValidateFrozenExecutableSelections :: "heap \<Rightarrow> NodeSpec \<Rightarrow> FrozenExecutableSelection list \<Rightarrow>
    (ExecutableRequirement \<Rightarrow> FrozenExecutableSelection \<Rightarrow> string check) option \<Rightarrow> candidate_error check" where
  "ValidateFrozenExecutableSelections h node selections validator =
     (case ValidateNodeSpec h node of
        Some e \<Rightarrow> Some (CandidatePlan e)
      | None \<Rightarrow>
          (case validator of
             None \<Rightarrow> Some ValidatorMissing
           | Some validate \<Rightarrow>
               if length selections \<noteq> length (executablesOf node) then Some SelectionsMismatch
               else frozenLoop h validate 0 (executablesOf node) selections))"

section \<open>The first compatible candidate\<close>

definition firstCompatible :: "heap \<Rightarrow> candidateValidator \<Rightarrow> ExecutableRequirement \<Rightarrow> RealizedOutput list \<Rightarrow> FrozenExecutableSelection \<Rightarrow> bool" where
  "firstCompatible h validate requirement outputs selection \<longleftrightarrow>
     (\<exists>skipped rest evidence. outputs = skipped @ fsOutput selection # rest \<and>
        (\<forall>out \<in> set skipped. \<exists>ev. validate requirement out = Inr (ev, False)) \<and>
        validate requirement (fsOutput selection) = Inr (evidence, True) \<and>
        validateFrozenEvidence h requirement (fsOutput selection) evidence = None \<and>
        selection = \<lparr>fsRequirementID = erID requirement, fsOutput = fsOutput selection, fsEvidence = evidence\<rparr>)"

lemma firstCompatible_Cons:
  "firstCompatible h validate requirement (out # outputs) selection \<longleftrightarrow>
      (\<exists>ev. validate requirement out = Inr (ev, False) \<and> firstCompatible h validate requirement outputs selection) \<or>
      (\<exists>ev. validate requirement out = Inr (ev, True) \<and> validateFrozenEvidence h requirement out ev = None \<and>
         selection = \<lparr>fsRequirementID = erID requirement, fsOutput = out, fsEvidence = ev\<rparr>)" (is "?L \<longleftrightarrow> ?A \<or> ?B")
proof
  assume ?L
  then obtain skipped rest evidence where f: "out # outputs = skipped @ fsOutput selection # rest"
    "\<forall>out \<in> set skipped. \<exists>ev. validate requirement out = Inr (ev, False)" "validate requirement (fsOutput selection) = Inr (evidence, True)"
    "validateFrozenEvidence h requirement (fsOutput selection) evidence = None"
    "selection = \<lparr>fsRequirementID = erID requirement, fsOutput = fsOutput selection, fsEvidence = evidence\<rparr>"
    unfolding firstCompatible_def by blast
  show "?A \<or> ?B"
  proof (cases skipped)
    case Nil
    then have "out = fsOutput selection" using f(1) by simp
    then have ?B using f(3,4,5) by auto
    then show ?thesis ..
  next
    case (Cons s skipped')
    then have ?A using f unfolding firstCompatible_def by auto
    then show ?thesis ..
  qed
next
  assume "?A \<or> ?B"
  then show ?L
  proof
    assume ?A
    then obtain skipped rest evidence ev where "validate requirement out = Inr (ev, False)" "outputs = skipped @ fsOutput selection # rest"
      "\<forall>out \<in> set skipped. \<exists>ev. validate requirement out = Inr (ev, False)" "validate requirement (fsOutput selection) = Inr (evidence, True)"
      "validateFrozenEvidence h requirement (fsOutput selection) evidence = None"
      "selection = \<lparr>fsRequirementID = erID requirement, fsOutput = fsOutput selection, fsEvidence = evidence\<rparr>"
      unfolding firstCompatible_def by blast
    then show ?L unfolding firstCompatible_def by (intro exI[of _ "out # skipped"] exI[of _ rest] exI[of _ evidence]) simp
  next
    assume ?B
    then obtain ev where "validate requirement out = Inr (ev, True)" "validateFrozenEvidence h requirement out ev = None"
      "selection = \<lparr>fsRequirementID = erID requirement, fsOutput = out, fsEvidence = ev\<rparr>" by blast
    then show ?L unfolding firstCompatible_def by (intro exI[of _ "[]"] exI[of _ outputs] exI[of _ ev]) simp
  qed
qed

lemma chooseLoop_Inr: "chooseLoop h validate requirement outputs = Inr selection \<longleftrightarrow> firstCompatible h validate requirement outputs selection"
proof (induction outputs)
  case Nil
  show ?case by (simp add: firstCompatible_def)
next
  case (Cons out outputs)
  show ?case unfolding firstCompatible_Cons Cons[symmetric] by (auto split: sum.splits option.splits if_splits prod.splits)
qed

lemma freezeLoop_Inr:
  "length groups = length requirements \<Longrightarrow>
   freezeLoop h validate index requirements groups = Inr selections \<longleftrightarrow>
     length selections = length requirements \<and>
     (\<forall>i < length requirements. rcRequirementID (groups ! i) = erID (requirements ! i) \<and> rcOutputs (groups ! i) \<noteq> None \<and>
        firstCompatible h validate (requirements ! i) (elems (rcOutputs (groups ! i))) (selections ! i))"
proof (induction requirements arbitrary: groups index selections)
  case (Cons requirement requirements)
  then obtain grp groups' where g: "groups = grp # groups'" "length groups' = length requirements" by (cases groups) auto
  show ?case
  proof (cases selections)
    case Nil
    then show ?thesis using g by (auto split: sum.splits) (auto simp: map_sum_def split: sum.splits)
  next
    case (Cons s ss)
    have "freezeLoop h validate index (requirement # requirements) groups = Inr selections \<longleftrightarrow>
        rcRequirementID grp = erID requirement \<and> rcOutputs grp \<noteq> None \<and> chooseLoop h validate requirement (elems (rcOutputs grp)) = Inr s \<and>
        freezeLoop h validate (Suc index) requirements groups' = Inr ss"
      unfolding g(1) Cons by (auto simp: map_sum_def split: sum.splits)
    then show ?thesis unfolding Cons.IH[OF g(2)] chooseLoop_Inr unfolding g(1) Cons
      by (auto simp: less_Suc_eq_0_disj)
  qed
qed auto

section \<open>Candidates come from earlier nodes\<close>

lemma catalogLoop_None:
  "catalogLoop h nodes rank consumerID index prev outputs = None \<Longrightarrow> out \<in> set outputs \<Longrightarrow>
     roSupplierNode out \<in> nodes \<and> rank (roSupplierNode out) < rank consumerID \<and> validateRealizedCatalogOutput h out = None"
  by (induction outputs arbitrary: index prev) (auto simp: wrap_def not_le split: if_splits option.splits)

lemma BuildRequirementCandidates_Inr:
  assumes "BuildRequirementCandidates h plan consumerID catalog = Inr groups"
  obtains order consumer where "StableProviderInitializationOrder h plan = Inr order" "consumer \<in> set (elems (ppNodes plan))" "nsID consumer = consumerID"
    "planOK h plan" "catalogLoop h (nsID ` set (elems (ppNodes plan))) (rankOf order) consumerID 0 None catalog = None"
    "groups = map (\<lambda>r. \<lparr>rcRequirementID = erID r, rcOutputs = Some (filter (candidateFor r) catalog)\<rparr>) (executablesOf consumer)"
proof -
  have ok: "planOK h plan" using assms by (auto simp: BuildRequirementCandidates_def ValidateProviderPlanV1_iff[symmetric] split: option.splits)
  note facts = planNodesOK_facts[OF planOK_facts(1)[OF ok]]
  from assms obtain order consumer where f: "StableProviderInitializationOrder h plan = Inr order"
    "nodeTable (elems (ppNodes plan)) consumerID = Some consumer"
    "catalogLoop h (nsID ` set (elems (ppNodes plan))) (rankOf order) consumerID 0 None catalog = None"
    "groups = map (\<lambda>r. \<lparr>rcRequirementID = erID r, rcOutputs = Some (filter (candidateFor r) catalog)\<rparr>) (executablesOf consumer)"
    unfolding BuildRequirementCandidates_def executablesOf_def by (auto split: option.splits sum.splits if_splits)
  with nodeTable_lookup[OF facts(1)] ok show thesis by (intro that[of order consumer]) auto
qed

end
