(* ===== verification/ProviderProperties.thy ===== *)
theory ProviderProperties
  imports ProviderCandidates CanonicalSamples
begin

text \<open>
  The properties of provider plans, \<open>src/internal/providers/plan.go\<close> and \<open>graph.go\<close>: the order in
  which nodes are initialized, the plans that are accepted, the edges selected at run time, the
  executables chosen for requirements, and the evidence about them.
\<close>

section \<open>A sample plan\<close>

text \<open>
  The base image supplies a shell to the APT node. The shell is a link to another file.
\<close>

definition planHeap :: heap where
  "planHeap = \<lparr>pointees = [], arrays = [], maps = [(1, [])]\<rparr>"

definition planData :: CanonicalProviderData where
  "planData = \<lparr>pdSchema = ''data'', pdValue = 1\<rparr>"

definition shellOutput :: QualifiedOutput where
  "shellOutput = \<lparr>qoComponent = ''base'', qoName = ''sh''\<rparr>"

definition baseNode :: NodeSpec where
  "baseNode = \<lparr>nsID = ''base'', nsProvider = ''base'', nsComponents = Some [''base''],
     nsRequest = \<lparr>rqSchema = ''request'', rqProvider = ''base'', rqValue = 1\<rparr>,
     nsOutputDeclarations = Some [\<lparr>odSupplierComponent = ''base'', odName = ''sh'', odKind = ''executable'',
       odCandidatePath = ''/bin/sh'', odProvenance = planData\<rparr>],
     nsRequirements = \<lparr>rdExecutables = Some [], rdFiles = Some [], rdProviderData = planData\<rparr>\<rparr>"

definition shellRequirement :: ExecutableRequirement where
  "shellRequirement = \<lparr>erID = ''shell'', erCommand = ''sh'', erVersionConstraint = '''', erSupplier = ''base'', erValidationPolicy = ''compatible''\<rparr>"

definition aptNode :: NodeSpec where
  "aptNode = \<lparr>nsID = ''apt'', nsProvider = ''apt'', nsComponents = Some [''environment/os''],
     nsRequest = \<lparr>rqSchema = ''request'', rqProvider = ''apt'', rqValue = 1\<rparr>,
     nsOutputDeclarations = Some [],
     nsRequirements = \<lparr>rdExecutables = Some [shellRequirement], rdFiles = Some [], rdProviderData = planData\<rparr>\<rparr>"

definition shellEdge :: ProviderEdgeV1 where
  "shellEdge = \<lparr>edSupplier = ''base'', edConsumer = ''apt'', edRequirementID = ''shell'', edOutput = shellOutput\<rparr>"

definition samplePlan :: ProviderPlanV1 where
  "samplePlan = \<lparr>ppSchema = ''provider-plan-v1'', ppNodes = Some [aptNode, baseNode], ppEdges = Some [shellEdge]\<rparr>"

definition shellDigest :: string where
  "shellDigest = ''sha256:'' @ hexEncode (sha256 [])"

definition shellEvidence :: "string \<Rightarrow> ExecutableEvidence" where
  "shellEvidence ident = \<lparr>eeSchema = ''executable-evidence-v1'', eeRequirementID = ident, eeOutput = shellOutput,
     eeInvocationPath = ''/bin/sh'',
     eeLinkChain = Some [\<lparr>lePath = ''/bin/sh'', leTarget = ''dash'', leResolvedPath = ''/bin/dash'', leKind = ''ordinary'',
       leOwner = None, leProviderDetail = None\<rparr>],
     eeTerminal = \<lparr>feSchema = ''file-evidence-v1'', feRequirementID = ident, fePath = ''/bin/dash'', feKind = ''regular'',
       feMode = ''0755'', feSize = ''10'', feSHA256 = shellDigest, feOwner = None\<rparr>,
     eeAccess = \<lparr>paSchema = ''portable-access-evidence-v1'', paProfile = ''portable-output-access-v1'',
       paPaths = Some [\<lparr>apPath = ''/bin'', apKind = ''directory'', apMode = ''0755'', apRequired = ''other-search''\<rparr>,
         \<lparr>apPath = ''/bin/dash'', apKind = ''regular'', apMode = ''0755'', apRequired = ''other-read-execute''\<rparr>]\<rparr>,
     eeFacts = planData\<rparr>"

definition shellRealized :: RealizedOutput where
  "shellRealized = \<lparr>roSupplierComponent = ''base'', roSupplierNode = ''base'', roName = ''sh'',
     roCandidate = \<lparr>ecInvocationPath = ''/bin/sh'', ecProvenance = planData\<rparr>, roEvidence = shellEvidence ''''\<rparr>"

definition acceptShell :: candidateValidator where
  "acceptShell requirement out = Inr (shellEvidence (erID requirement), True)"

lemmas plan_eval = marshal_eval parseJSONTag_def planHeap_def

lemma sample_data: "validateCanonicalProviderData planHeap field planData = None"
  by (simp add: validateCanonicalProviderData_def planData_def dataValue_def plan_eval)

lemma sample_request:
  "\<exists>out. CanonicalProviderRequestBytes planHeap \<lparr>rqSchema = ''request'', rqProvider = ''base'', rqValue = 1\<rparr> = Inr out"
  "\<exists>out. CanonicalProviderRequestBytes planHeap \<lparr>rqSchema = ''request'', rqProvider = ''apt'', rqValue = 1\<rparr> = Inr out"
  by (simp_all add: CanonicalProviderRequestBytes_def validateComponentProvider_def requestValue_def plan_eval)

lemma sample_names:
  "ValidateProviderIdentifier field ''sh'' = None" "ValidateProviderIdentifier field ''shell'' = None"
  "ValidateProviderIdentifier field ''regular'' = None" "ValidateProviderIdentifier field ''directory'' = None"
  "ValidateContributionReference field ''base'' = None" "ValidateContributionReference field ''environment/os'' = None"
  by (simp_all add: ValidateProviderIdentifier_def validateProviderIdentifier_def ValidateContributionReference_def
      ValidateContributionID_def validateContributionProvider_def isLower_def)

lemma sample_paths:
  "validateAbsoluteLinuxPath field ''/bin'' = None" "validateAbsoluteLinuxPath field ''/bin/sh'' = None"
  "validateAbsoluteLinuxPath field ''/bin/dash'' = None"
  by (simp_all add: validateAbsoluteLinuxPath_def isAbs_def hasPrefix_def cleanPath_def)

lemma sample_nodes: "ValidateNodeSpec planHeap baseNode = None" "ValidateNodeSpec planHeap aptNode = None"
  using sample_request
  by (auto simp: ValidateNodeSpec_def baseNode_def aptNode_def shellRequirement_def validateNodeID_def validateComponentProvider_def
      ValidateRequirementDeclaration_def validateRequirementID_def validateValidationPolicy_def sample_names sample_paths sample_data ofName_def
      split: sum.splits)

lemma sample_ids: "nsID baseNode = ''base''" "nsID aptNode = ''apt''" "componentsOf baseNode = [''base'']" "componentsOf aptNode = [''environment/os'']"
  "executablesOf baseNode = []" "executablesOf aptNode = [shellRequirement]"
  by (simp_all add: baseNode_def aptNode_def componentsOf_def executablesOf_def)

lemma sample_plan: "ValidateProviderPlanV1 planHeap samplePlan = None"
proof -
  have base: "nodeDeclaresOutput baseNode shellOutput" by (simp add: nodeDeclaresOutput_def baseNode_def shellOutput_def)
  have nodes: "planNodesOK planHeap [aptNode, baseNode]" by (simp add: planNodesOK_def sample_nodes sample_ids)
  have edge: "edgeMatches [aptNode, baseNode] shellEdge"
    unfolding edgeMatches_def using base
    by (intro bexI[of _ baseNode] bexI[of _ aptNode] bexI[of _ shellRequirement])
      (simp_all add: sample_ids shellEdge_def shellRequirement_def shellOutput_def)
  have covered: "requirementsCovered [aptNode, baseNode] [shellEdge]"
    by (auto simp: requirementsCovered_def sample_ids edgeFor_def shellEdge_def shellRequirement_def)
  have acyclic: "acyclic (supplies [shellEdge])" by (rule rank_acyclic[where rank = "\<lambda>n. if n = ''apt'' then 1 else 0"]) (simp add: shellEdge_def)
  show ?thesis unfolding ValidateProviderPlanV1_iff planOK_def
    using nodes edge covered acyclic by (simp add: samplePlan_def)
qed

lemma sample_order: "StableProviderNodeOrder [''apt'', ''base''] [shellEdge] = Inr [''base'', ''apt'']"
  by (simp add: StableProviderNodeOrder_def shellEdge_def addIndegree_def Let_def orderLoop.simps sortReady_def consumersOf_def)

lemma greedyOrder_cong:
  assumes "set nodes = set nodes'" "set edges = set edges'"
  shows "greedyOrder nodes edges order \<longleftrightarrow> greedyOrder nodes' edges' order"
proof -
  have half: "greedyOrder nodes edges order \<Longrightarrow> set nodes = set nodes' \<Longrightarrow> set edges = set edges' \<Longrightarrow> greedyOrder nodes' edges' order"
    for nodes nodes' edges edges' order
  proof (induction rule: greedyOrder.induct)
    case (place placed node)
    have same: "unplaced nodes' edges' placed = unplaced nodes edges placed" using place.prems by (simp add: unplaced_def)
    show ?case
    proof (rule greedyOrder.place)
      show "greedyOrder nodes' edges' placed" using place.IH place.prems by blast
      show "node \<in> unplaced nodes' edges' placed" using place.hyps(2) unfolding same .
      show "compareReadyNodes node other \<le> 0" if "other \<in> unplaced nodes' edges' placed" for other
        using place.hyps(3) that unfolding same .
    qed
  qed (rule greedyOrder.empty)
  show ?thesis using half[of nodes edges order nodes' edges'] half[of nodes' edges' order nodes edges] assms by blast
qed

section \<open>Initialization order\<close>

text \<open>
  C36. \<open>StableProviderNodeOrder\<close> returns the greedy order. It succeeds with an order exactly when
  the nodes are distinct, the edges stay within them, and the order holds all nodes, each placed
  as the least by priority and name of the nodes whose suppliers were all placed before.
\<close>

theorem node_order_exact:
  "StableProviderNodeOrder nodes edges = Inr order \<longleftrightarrow>
     distinct nodes \<and> edgesWithin nodes edges \<and> greedyOrder nodes edges order \<and> set order = set nodes"
  by (rule StableProviderNodeOrder_Inr)

text \<open>
  An order is found exactly when there is one to find: the nodes are distinct, the edges stay
  within them and supply has no cycle.
\<close>

theorem node_order_exists:
  "(\<exists>order. StableProviderNodeOrder nodes edges = Inr order) \<longleftrightarrow>
     distinct nodes \<and> edgesWithin nodes edges \<and> acyclic (supplies edges)"
  by (rule StableProviderNodeOrder_total)

text \<open>
  The order is stable: it depends only on which nodes and edges there are, not on the order
  in which they are listed, nor on repeated edges. On failure both calls fail.
\<close>

theorem node_order_stable:
  assumes "mset nodes = mset nodes'" "set edges = set edges'"
  shows "StableProviderNodeOrder nodes edges = Inr order \<longleftrightarrow> StableProviderNodeOrder nodes' edges' = Inr order"
proof -
  have nodes: "distinct nodes = distinct nodes'" "set nodes = set nodes'"
    by (rule mset_eq_imp_distinct_iff[OF assms(1)], rule mset_eq_setD[OF assms(1)])
  have "greedyOrder nodes edges order \<longleftrightarrow> greedyOrder nodes' edges' order"
    by (rule greedyOrder_cong[OF nodes(2) assms(2)])
  then show ?thesis unfolding StableProviderNodeOrder_Inr using nodes assms(2) by (simp add: edgesWithin_def)
qed

theorem node_order_stable_witness:
  "StableProviderNodeOrder [''base'', ''apt''] [shellEdge, shellEdge] = Inr [''base'', ''apt'']"
  using node_order_stable[of "[''apt'', ''base'']" "[''base'', ''apt'']" "[shellEdge]" "[shellEdge, shellEdge]" "[''base'', ''apt'']"] sample_order
  by simp

section \<open>Plans\<close>

text \<open>
  C37. \<open>ValidateProviderPlanV1\<close> accepts exactly the valid plans: sorted valid nodes whose components
  are disjoint, one of them the base; sorted edges, each from the node of the component that an
  explicit requirement of its consumer names, for an output the supplier declares; one edge for
  every explicit requirement; and no cycle of supply.
\<close>

theorem plan_validation_exact: "ValidateProviderPlanV1 h plan = None \<longleftrightarrow> planOK h plan"
  by (rule ValidateProviderPlanV1_iff)

text \<open>
  A plan that validates can be initialized: the order exists, begins with the base, holds every
  node once, and has each supplier before its consumers.
\<close>

theorem plan_initialization:
  assumes "ValidateProviderPlanV1 h plan = None"
  shows "\<exists>rest. StableProviderInitializationOrder h plan = Inr (''base'' # rest) \<and> distinct (''base'' # rest) \<and>
    set (''base'' # rest) = nsID ` set (elems (ppNodes plan)) \<and>
    (\<forall>e xs ys. e \<in> set (elems (ppEdges plan)) \<and> ''base'' # rest = xs @ edConsumer e # ys \<longrightarrow> edSupplier e \<in> set xs)"
proof -
  have ok: "planOK h plan" using assms by (simp add: ValidateProviderPlanV1_iff)
  obtain order where order: "StableProviderInitializationOrder h plan = Inr order"
    "greedyOrder (map nsID (elems (ppNodes plan))) (elems (ppEdges plan)) order" "set order = nsID ` set (elems (ppNodes plan))"
    using planOK_order[OF ok] .
  obtain rest where "order = ''base'' # rest" using base_first[OF ok order(1)] by blast
  moreover have "\<forall>e xs ys. e \<in> set (elems (ppEdges plan)) \<and> order = xs @ edConsumer e # ys \<longrightarrow> edSupplier e \<in> set xs"
    using greedyOrder_topological[OF order(2)] by blast
  ultimately show ?thesis using order(1,3) greedyOrder_distinct[OF order(2)] by (intro exI[of _ rest]) simp
qed

theorem plan_initialization_witness:
  "\<exists>rest. StableProviderInitializationOrder planHeap samplePlan = Inr (''base'' # rest) \<and> distinct (''base'' # rest) \<and> set rest = {''apt''}"
proof -
  obtain rest where rest: "StableProviderInitializationOrder planHeap samplePlan = Inr (''base'' # rest)" "distinct (''base'' # rest)"
    "set (''base'' # rest) = nsID ` set (elems (ppNodes samplePlan))"
    using plan_initialization[OF sample_plan] by (elim exE conjE)
  have "nsID ` set (elems (ppNodes samplePlan)) = {''apt'', ''base''}" by (simp add: samplePlan_def sample_ids)
  then have "insert ''base'' (set rest) = {''apt'', ''base''}" "''base'' \<notin> set rest" using rest(2,3) by simp_all
  then have "set rest = {''apt'', ''base''} - {''base''}" by (metis Diff_insert_absorb)
  then have "set rest = {''apt''}" by (simp add: insert_Diff_if)
  with rest(1,2) show ?thesis by (intro exI[of _ rest]) simp
qed

text \<open>
  C38. \<open>ValidateProviderSelectedEdgesV1\<close> accepts exactly the complete selections for a valid plan:
  sorted edges, one for every executable requirement, each with an output of the command that its
  supplier declares, from a node earlier in the order; explicit requirements keep their edges. The
  cycle check at its end refuses nothing more.
\<close>

theorem selection_validation_exact: "ValidateProviderSelectedEdgesV1 h plan selected = None \<longleftrightarrow> selectionOK h plan selected"
  by (rule ValidateProviderSelectedEdgesV1_iff)

section \<open>Executables\<close>

lemma sample_digest: "validateDigest shellDigest = None"
  by (simp only: validateDigest_def shellDigest_def digest_grammar[OF sha256_length] sum.case)

lemma sample_evidence:
  "ident = [] \<and> allow \<or> ident = ''shell'' \<Longrightarrow> validateExecutableEvidenceStructure planHeap (shellEvidence ident) allow = None"
  by (auto simp: validateExecutableEvidenceStructure_def shellEvidence_def shellOutput_def Let_def sample_names sample_paths sample_data sample_digest
      validateLinkEvidence_def validateFileEvidence_def validatePortableAccessEvidence_def accessProves_def isCanonicalMode_def isCanonicalDecimal_def
      evName_def evPlan_def rangeAll_def runes_plain plainText_def)

lemma sample_build:
  "BuildRequirementCandidates planHeap samplePlan ''apt'' [shellRealized] =
     Inr [\<lparr>rcRequirementID = ''shell'', rcOutputs = Some [shellRealized]\<rparr>]"
proof -
  have order: "StableProviderInitializationOrder planHeap samplePlan = Inr [''base'', ''apt'']"
    using sample_plan sample_order by (simp add: StableProviderInitializationOrder_def samplePlan_def sample_ids)
  have "validateRealizedCatalogOutput planHeap shellRealized = None"
    using sample_evidence[of "[]" True]
    by (simp add: validateRealizedCatalogOutput_def shellRealized_def ValidateFinalExecutableEvidence_def sample_names sample_paths sample_data
        evName_def evPlan_def shellEvidence_def shellOutput_def)
  then have catalog: "catalogLoop planHeap {''apt'', ''base''} (rankOf [''base'', ''apt'']) ''apt'' 0 None [shellRealized] = None"
    by (simp add: rankOf_def shellRealized_def)
  have "elems (ppNodes samplePlan) = [aptNode, baseNode]" by (simp add: samplePlan_def)
  then show ?thesis using sample_plan order catalog
    by (simp add: BuildRequirementCandidates_def sample_ids nodeTable_def candidateFor_def executablesOf_def[symmetric]
        shellRequirement_def shellRealized_def)
qed

lemma freeze_build:
  assumes build: "BuildRequirementCandidates h plan consumerID catalog = Inr groups"
    and consumer: "consumer \<in> set (elems (ppNodes plan))" "nsID consumer = consumerID"
  shows "FreezeExecutableSelections h consumer groups (Some validate) = Inr selections \<longleftrightarrow>
    list_all2 (\<lambda>r s. firstCompatible h validate r (filter (candidateFor r) catalog) s) (executablesOf consumer) selections"
proof -
  obtain found where f: "found \<in> set (elems (ppNodes plan))" "nsID found = consumerID" "planOK h plan"
    "groups = map (\<lambda>r. \<lparr>rcRequirementID = erID r, rcOutputs = Some (filter (candidateFor r) catalog)\<rparr>) (executablesOf found)"
    by (rule BuildRequirementCandidates_Inr[OF build]) (rule that, assumption+)
  have nodes: "distinct (map nsID (elems (ppNodes plan)))" "ValidateNodeSpec h consumer = None"
    using planNodesOK_facts[OF planOK_facts(1)[OF f(3)]] consumer(1) by auto
  have "found = consumer" using node_unique[OF nodes(1) f(1) consumer(1)] f(2) consumer(2) by simp
  then have groups: "groups = map (\<lambda>r. \<lparr>rcRequirementID = erID r, rcOutputs = Some (filter (candidateFor r) catalog)\<rparr>) (executablesOf consumer)"
    using f(4) by simp
  then have len: "length groups = length (executablesOf consumer)" by simp
  show ?thesis using nodes(2) len freezeLoop_Inr[OF len, of h validate 0 selections]
    by (auto simp: FreezeExecutableSelections_def groups list_all2_conv_all_nth)
qed

text \<open>
  Freezing the candidates of a node chooses, for each of its requirements in turn, the first
  output of the catalog that fits the command and the named supplier and that the provider finds
  compatible with acceptable evidence; nothing else is chosen, and whenever there is such an
  output for every requirement the selection succeeds.
\<close>

theorem freeze_first_compatible:
  assumes "BuildRequirementCandidates h plan (nsID consumer) catalog = Inr groups" "consumer \<in> set (elems (ppNodes plan))"
  shows "FreezeExecutableSelections h consumer groups (Some validate) = Inr selections \<longleftrightarrow>
    list_all2 (\<lambda>r s. firstCompatible h validate r (filter (candidateFor r) catalog) s) (executablesOf consumer) selections"
  by (rule freeze_build[OF assms refl])

lemma sample_frozen: "validateFrozenEvidence planHeap shellRequirement shellRealized (shellEvidence ''shell'') = None"
  using sample_evidence[of "''shell''" False]
  by (simp add: validateFrozenEvidence_def validateExecutableEvidence_def shellRequirement_def shellRealized_def shellEvidence_def shellOutput_def)

lemma sample_freeze:
  "FreezeExecutableSelections planHeap aptNode [\<lparr>rcRequirementID = ''shell'', rcOutputs = Some [shellRealized]\<rparr>] (Some acceptShell) =
     Inr [\<lparr>fsRequirementID = ''shell'', fsOutput = shellRealized, fsEvidence = shellEvidence ''shell''\<rparr>]"
  using sample_frozen by (simp add: FreezeExecutableSelections_def sample_nodes sample_ids acceptShell_def shellRequirement_def)

theorem freeze_first_compatible_witness:
  "firstCompatible planHeap acceptShell shellRequirement [shellRealized]
     \<lparr>fsRequirementID = ''shell'', fsOutput = shellRealized, fsEvidence = shellEvidence ''shell''\<rparr>"
  using freeze_first_compatible[of planHeap samplePlan aptNode "[shellRealized]"
      "[\<lparr>rcRequirementID = ''shell'', rcOutputs = Some [shellRealized]\<rparr>]" acceptShell
      "[\<lparr>fsRequirementID = ''shell'', fsOutput = shellRealized, fsEvidence = shellEvidence ''shell''\<rparr>]"] sample_build sample_freeze
  by (simp add: sample_ids samplePlan_def candidateFor_def shellRequirement_def shellRealized_def)

text \<open>
  C39. What is frozen is safe to use. Each selected output fits its requirement and comes from a
  node of the plan that is initialized before the consumer, and its evidence leads from the
  invocation path through links without repetition to a regular file that everyone may read and
  execute.
\<close>

theorem frozen_selection_safe:
  assumes "BuildRequirementCandidates h plan (nsID consumer) catalog = Inr groups" "consumer \<in> set (elems (ppNodes plan))"
    and "FreezeExecutableSelections h consumer groups (Some validate) = Inr selections" "s \<in> set selections"
  shows "\<exists>r \<in> set (executablesOf consumer). \<exists>order. StableProviderInitializationOrder h plan = Inr order \<and>
    fsRequirementID s = erID r \<and> candidateFor r (fsOutput s) \<and> roSupplierNode (fsOutput s) \<in> nsID ` set (elems (ppNodes plan)) \<and>
    rankOf order (roSupplierNode (fsOutput s)) < rankOf order (nsID consumer) \<and>
    linkedTo (ecInvocationPath (roCandidate (fsOutput s))) (elems (eeLinkChain (fsEvidence s))) (fePath (eeTerminal (fsEvidence s))) \<and>
    publicExecutable (elems (paPaths (eeAccess (fsEvidence s)))) (fePath (eeTerminal (fsEvidence s)))"
proof -
  obtain order where order: "StableProviderInitializationOrder h plan = Inr order"
    "catalogLoop h (nsID ` set (elems (ppNodes plan))) (rankOf order) (nsID consumer) 0 None catalog = None"
    by (rule BuildRequirementCandidates_Inr[OF assms(1)]) (rule that, assumption+)
  have chosen: "list_all2 (\<lambda>r s. firstCompatible h validate r (filter (candidateFor r) catalog) s) (executablesOf consumer) selections"
    using assms(3) freeze_build[OF assms(1,2) refl] by blast
  from assms(4) obtain i where i: "i < length selections" "s = selections ! i" by (auto simp: in_set_conv_nth)
  obtain r where r: "r \<in> set (executablesOf consumer)" "firstCompatible h validate r (filter (candidateFor r) catalog) s"
    using list_all2_nthD2[OF chosen i(1)] i list_all2_lengthD[OF chosen] by (intro that[of "executablesOf consumer ! i"]) simp_all
  then obtain skipped rest where split: "filter (candidateFor r) catalog = skipped @ fsOutput s # rest"
    and evidence: "validateFrozenEvidence h r (fsOutput s) (fsEvidence s) = None" "fsRequirementID s = erID r"
    unfolding firstCompatible_def by (metis FrozenExecutableSelection.select_convs(1,3))
  have "fsOutput s \<in> set (filter (candidateFor r) catalog)" unfolding split by simp
  then have out: "fsOutput s \<in> set catalog" "candidateFor r (fsOutput s)" by simp_all
  have "validateExecutableEvidenceStructure h (fsEvidence s) False = None"
    "eeInvocationPath (fsEvidence s) = ecInvocationPath (roCandidate (fsOutput s))"
    using evidence(1) by (auto simp: validateFrozenEvidence_def validateExecutableEvidence_def split: if_splits)
  with structure_None(1,2)[of h "fsEvidence s" False] catalogLoop_None[OF order(2) out(1)] order(1) r(1) out(2) evidence(2)
  show ?thesis by (intro bexI[of _ r] exI[of _ order]) simp_all
qed

theorem frozen_selection_safe_witness:
  "\<exists>order. StableProviderInitializationOrder planHeap samplePlan = Inr order \<and> rankOf order ''base'' < rankOf order ''apt'' \<and>
     linkedTo ''/bin/sh'' (elems (eeLinkChain (shellEvidence ''shell''))) ''/bin/dash''"
proof -
  have "aptNode \<in> set (elems (ppNodes samplePlan))" by (simp add: samplePlan_def)
  note safe = frozen_selection_safe[OF _ this sample_freeze, of "[shellRealized]"
      "\<lparr>fsRequirementID = ''shell'', fsOutput = shellRealized, fsEvidence = shellEvidence ''shell''\<rparr>"]
  show ?thesis using safe sample_build by (auto simp: sample_ids shellRealized_def shellEvidence_def)
qed

end
