(* ===== verification/BlueprintPlatform.thy ===== *)
theory BlueprintPlatform
  imports GoText
begin

text \<open>
  Target platforms of blueprints, \<open>src/internal/blueprint/platform.go\<close>: parsing, validation of
  records that cross a boundary, the declared compatibility set and the selection from it.
\<close>

section \<open>Platforms\<close>

record Platform =
  pOS :: string
  pArchitecture :: string
  pVariant :: string
  pCanonical :: string

datatype platform_error =
    PlatformText string
  | PlatformForm string
  | PlatformPart string
  | CanonicalMismatch string string
  | SelectedPlatform platform_error
  | NoPlatforms
  | DeclaredPlatform platform_error
  | PlatformsUnsorted
  | NotDeclared string
  | MultipleDeclared string
  | CompatibilityEmpty
  | CompatibilityInvalid nat platform_error
  | CompatibilityDuplicate string

fun platformPartLoop :: "bool \<Rightarrow> (nat \<times> nat) list \<Rightarrow> bool" where
  "platformPartLoop first [] = True"
| "platformPartLoop first ((char, w) # rest) =
     (if (97 \<le> char \<and> char \<le> 122) \<or> (48 \<le> char \<and> char \<le> 57) then platformPartLoop False rest
      else if \<not> first \<and> (char = 46 \<or> char = 95 \<or> char = 45) then platformPartLoop False rest
      else False)"

definition isCanonicalPlatformPart :: "string \<Rightarrow> bool" where
  "isCanonicalPlatformPart part = (if part = [] then False else platformPartLoop True (runes part))"

definition platformText :: "string \<Rightarrow> string \<Rightarrow> string \<Rightarrow> string" where
  "platformText os architecture variant =
     os @ ''/'' @ architecture @ (if variant \<noteq> [] then ''/'' @ variant else [])"

definition ParsePlatform :: "string \<Rightarrow> platform_error + Platform" where
  "ParsePlatform str =
     (if str = [] \<or> trimSpace str \<noteq> str then Inl (PlatformText str)
      else let parts = splitOn (CHR ''/'') str
           in if length parts < 2 \<or> length parts > 3 then Inl (PlatformForm str)
              else if \<not> list_all isCanonicalPlatformPart parts then Inl (PlatformPart str)
              else let os = parts ! 0; architecture = parts ! 1; variant = (if length parts = 3 then parts ! 2 else [])
                   in Inr \<lparr>pOS = os, pArchitecture = architecture, pVariant = variant, pCanonical = platformText os architecture variant\<rparr>)"

definition validatePlatform :: "Platform \<Rightarrow> platform_error check" where
  "validatePlatform platform =
     (case ParsePlatform (platformText (pOS platform) (pArchitecture platform) (pVariant platform)) of
        Inl e \<Rightarrow> Some e
      | Inr parsed \<Rightarrow>
          if pCanonical platform \<noteq> pCanonical parsed then Some (CanonicalMismatch (pCanonical platform) (pCanonical parsed)) else None)"

definition covers :: "Platform \<Rightarrow> Platform \<Rightarrow> bool" where
  "covers declared selected \<longleftrightarrow>
     pOS declared = pOS selected \<and> pArchitecture declared = pArchitecture selected \<and> (pVariant declared = [] \<or> pVariant declared = pVariant selected)"

fun matchesLoop :: "Platform \<Rightarrow> Platform option \<Rightarrow> nat \<Rightarrow> Platform list \<Rightarrow> platform_error + nat" where
  "matchesLoop selected prev matches [] = Inr matches"
| "matchesLoop selected prev matches (declared # rest) =
     (case validatePlatform declared of
        Some e \<Rightarrow> Inl (DeclaredPlatform e)
      | None \<Rightarrow>
          if (case prev of None \<Rightarrow> False | Some p \<Rightarrow> pCanonical p \<ge> pCanonical declared) then Inl PlatformsUnsorted
          else matchesLoop selected (Some declared) (if covers declared selected then Suc matches else matches) rest)"

definition ValidateSelectedPlatform :: "Platform list \<Rightarrow> Platform \<Rightarrow> platform_error check" where
  "ValidateSelectedPlatform platforms selected =
     (case validatePlatform selected of
        Some e \<Rightarrow> Some (SelectedPlatform e)
      | None \<Rightarrow>
          if platforms = [] then Some NoPlatforms
          else case matchesLoop selected None 0 platforms of
            Inl e \<Rightarrow> Some e
          | Inr matches \<Rightarrow>
              if matches = 0 then Some (NotDeclared (pCanonical selected))
              else if matches \<noteq> 1 then Some (MultipleDeclared (pCanonical selected))
              else None)"

fun compatibilityLoop :: "nat \<Rightarrow> string list \<Rightarrow> Platform list \<Rightarrow> string list \<Rightarrow> platform_error + Platform list" where
  "compatibilityLoop index seen platforms [] = Inr platforms"
| "compatibilityLoop index seen platforms (str # rest) =
     (case ParsePlatform str of
        Inl e \<Rightarrow> Inl (CompatibilityInvalid index e)
      | Inr platform \<Rightarrow>
          if pCanonical platform \<in> set seen then Inl (CompatibilityDuplicate (pCanonical platform))
          else compatibilityLoop (Suc index) (pCanonical platform # seen) (platforms @ [platform]) rest)"

definition ParseCompatibility :: "string list \<Rightarrow> platform_error + Platform list" where
  "ParseCompatibility texts =
     (if texts = [] then Inl CompatibilityEmpty
      else map_sum (\<lambda>e. e) (sort_key pCanonical) (compatibilityLoop 0 [] [] texts))"

section \<open>Parsing\<close>

definition slashFree :: "Platform \<Rightarrow> bool" where
  "slashFree p \<longleftrightarrow> CHR ''/'' \<notin> set (pOS p) \<and> CHR ''/'' \<notin> set (pArchitecture p) \<and> CHR ''/'' \<notin> set (pVariant p)"

lemma splitOn_platformText:
  assumes "CHR ''/'' \<notin> set os" "CHR ''/'' \<notin> set arch" "CHR ''/'' \<notin> set variant"
  shows "splitOn (CHR ''/'') (platformText os arch variant) = os # arch # (if variant \<noteq> [] then [variant] else [])"
  using assms splitOn_join[of "CHR ''/''" os] splitOn_join[of "CHR ''/''" arch] splitOn_absent[of "CHR ''/''"]
  by (simp add: platformText_def del: splitOn.simps)

lemma ParsePlatform_text:
  assumes "ParsePlatform str = Inr p"
  shows "slashFree p \<and> platformText (pOS p) (pArchitecture p) (pVariant p) = str \<and> pCanonical p = str"
proof -
  let ?parts = "splitOn (CHR ''/'') str"
  have len: "length ?parts = 2 \<or> length ?parts = 3" and ok: "list_all isCanonicalPlatformPart ?parts"
    and p: "p = \<lparr>pOS = ?parts ! 0, pArchitecture = ?parts ! 1, pVariant = (if length ?parts = 3 then ?parts ! 2 else []),
      pCanonical = platformText (?parts ! 0) (?parts ! 1) (if length ?parts = 3 then ?parts ! 2 else [])\<rparr>"
    using assms by (auto simp: ParsePlatform_def Let_def split: if_splits)
  have join: "joinWith ''/'' ?parts = str" by (rule joinWith_splitOn)
  from len consider a b where "?parts = [a, b]" | a b c where "?parts = [a, b, c]"
    by (auto simp: length_Suc_conv numeral_2_eq_2 numeral_3_eq_3)
  then show ?thesis
  proof cases
    case (1 a b)
    then have "str = platformText a b []" using join by (simp add: platformText_def)
    then show ?thesis using 1 p splitOn_parts[of _ "CHR ''/''" str] by (simp add: slashFree_def)
  next
    case (2 a b c)
    then have "c \<noteq> []" using ok by (auto simp: isCanonicalPlatformPart_def)
    then have "str = platformText a b c" using 2 join by (simp add: platformText_def)
    then show ?thesis using 2 p splitOn_parts[of _ "CHR ''/''" str] by (simp add: slashFree_def)
  qed
qed

lemma parse_slashFree:
  assumes "slashFree p" "ParsePlatform (platformText (pOS p) (pArchitecture p) (pVariant p)) = Inr q"
  shows "pOS q = pOS p \<and> pArchitecture q = pArchitecture p \<and> pVariant q = pVariant p"
  using assms splitOn_platformText[of "pOS p" "pArchitecture p" "pVariant p"]
  by (auto simp: ParsePlatform_def slashFree_def Let_def split: if_splits)

lemma ParsePlatform_iff: "ParsePlatform str = Inr p \<longleftrightarrow> slashFree p \<and> validatePlatform p = None \<and> pCanonical p = str"
proof
  assume "ParsePlatform str = Inr p"
  then show "slashFree p \<and> validatePlatform p = None \<and> pCanonical p = str"
    using ParsePlatform_text[of str p] by (simp add: validatePlatform_def)
next
  assume R: "slashFree p \<and> validatePlatform p = None \<and> pCanonical p = str"
  then obtain q where q: "ParsePlatform (platformText (pOS p) (pArchitecture p) (pVariant p)) = Inr q" "pCanonical p = pCanonical q"
    by (auto simp: validatePlatform_def split: sum.splits if_splits)
  then have "q = p" using parse_slashFree[of p q] R by simp
  moreover have "platformText (pOS p) (pArchitecture p) (pVariant p) = str" using ParsePlatform_text[OF q(1)] q(2) R by simp
  ultimately show "ParsePlatform str = Inr p" using q(1) by simp
qed

section \<open>Compatibility sets\<close>

lemma compatibilityLoop_Inr:
  "compatibilityLoop index seen platforms texts = Inr result \<longleftrightarrow>
     (\<exists>parsed. list_all2 (\<lambda>t p. ParsePlatform t = Inr p) texts parsed \<and> distinct texts \<and> set texts \<inter> set seen = {} \<and> result = platforms @ parsed)"
proof (induction texts arbitrary: index seen platforms)
  case (Cons t texts)
  show ?case
  proof (cases "ParsePlatform t")
    case (Inr p)
    then have "pCanonical p = t" using ParsePlatform_text by blast
    then show ?thesis using Cons Inr by (auto simp: list_all2_Cons1)
  qed (auto simp: list_all2_Cons1)
qed auto

lemma matchesLoop_Inr:
  "matchesLoop selected prev matches platforms = Inr n \<longleftrightarrow>
     (\<forall>p \<in> set platforms. validatePlatform p = None) \<and> increasing pCanonical prev platforms \<and>
     n = matches + length (filter (\<lambda>d. covers d selected) platforms)"
  by (induction platforms arbitrary: prev matches) (auto split: option.splits)

lemma ValidateSelectedPlatform_iff:
  "ValidateSelectedPlatform platforms selected = None \<longleftrightarrow>
     validatePlatform selected = None \<and> (\<forall>p \<in> set platforms. validatePlatform p = None) \<and> sorted_wrt (<) (map pCanonical platforms) \<and>
     (\<exists>!p. p \<in> set platforms \<and> covers p selected)"
proof -
  have one: "length (filter P xs) = 1 \<longleftrightarrow> (\<exists>!x. x \<in> set xs \<and> P x)" if "distinct xs" for P and xs :: "Platform list"
  proof -
    have "length (filter P xs) = card {x \<in> set xs. P x}" using distinct_card[of "filter P xs"] that by (simp add: set_filter)
    moreover have "(\<exists>x. A = {x}) \<longleftrightarrow> (\<exists>!x. x \<in> A)" for A :: "Platform set" by (metis empty_iff insert_iff equalityI subsetI)
    ultimately show ?thesis using card_1_singleton_iff[of "{x \<in> set xs. P x}"] by simp
  qed
  have dist: "distinct platforms" if "sorted_wrt (<) (map pCanonical platforms)"
    using sorted_wrt_less_distinct[OF that] by (simp add: distinct_map)
  show ?thesis
  proof (cases "matchesLoop selected None 0 platforms")
    case (Inl e)
    then have "\<nexists>n. matchesLoop selected None 0 platforms = Inr n" by simp
    then show ?thesis using Inl unfolding matchesLoop_Inr
      by (auto simp: ValidateSelectedPlatform_def increasing_None sortedUnique_iff split: option.splits)
  next
    case (Inr n)
    note facts = Inr[unfolded matchesLoop_Inr increasing_None sortedUnique_iff]
    then show ?thesis using Inr one[OF dist, of "\<lambda>d. covers d selected"]
      by (auto simp: ValidateSelectedPlatform_def split: option.splits)
  qed
qed

end
