(* ===== verification/BlueprintProperties.thy ===== *)
theory BlueprintProperties
  imports BlueprintPlatform "HOL-Library.Multiset"
begin

text \<open>
  The properties of target platforms, \<open>src/internal/blueprint/platform.go\<close>.
\<close>

section \<open>Platforms\<close>

text \<open>The parsed platform of a text that parses.\<close>

definition parsedPlatform :: "string \<Rightarrow> Platform" where
  "parsedPlatform str = projr (ParsePlatform str)"

text \<open>A record whose first part holds a slash.\<close>

definition slashedPlatform :: Platform where
  "slashedPlatform = \<lparr>pOS = ''linux/arm64'', pArchitecture = ''v8'', pVariant = [], pCanonical = ''linux/arm64/v8''\<rparr>"

text \<open>
  Parsing and canonical text are inverse: \<open>ParsePlatform\<close> returns a platform for a text exactly
  when the platform has no slash in its parts, validates, and has the text as its canonical form.
\<close>

theorem parse_platform_roundtrip:
  "ParsePlatform str = Inr p \<longleftrightarrow> slashFree p \<and> validatePlatform p = None \<and> pCanonical p = str"
  by (rule ParsePlatform_iff)

lemma ParsePlatform_canonical: "ParsePlatform str = Inr p \<Longrightarrow> pCanonical p = str"
  using ParsePlatform_text by blast

lemma list_all2_parse:
  "list_all2 (\<lambda>t p. ParsePlatform t = Inr p) texts parsed \<longleftrightarrow>
     (\<forall>t \<in> set texts. ParsePlatform t = Inr (parsedPlatform t)) \<and> parsed = map parsedPlatform texts"
  by (induction texts arbitrary: parsed) (auto simp: list_all2_Cons1 parsedPlatform_def)

lemma ParseCompatibility_Inr:
  "ParseCompatibility texts = Inr platforms \<longleftrightarrow>
     texts \<noteq> [] \<and> distinct texts \<and> (\<forall>t \<in> set texts. ParsePlatform t = Inr (parsedPlatform t)) \<and>
     platforms = sort_key pCanonical (map parsedPlatform texts)"
proof (cases "compatibilityLoop 0 [] [] texts")
  case (Inl e)
  then have "\<nexists>r. compatibilityLoop 0 [] [] texts = Inr r" by simp
  then show ?thesis using Inl unfolding compatibilityLoop_Inr list_all2_parse by (auto simp: ParseCompatibility_def)
next
  case (Inr r)
  note facts = Inr[unfolded compatibilityLoop_Inr list_all2_parse]
  then show ?thesis using Inr by (auto simp: ParseCompatibility_def)
qed

text \<open>
  A declared compatibility set is the parsed texts in canonical order: parsing succeeds exactly
  for a non-empty list of distinct texts that all parse, and the result is strictly sorted by
  canonical text, has exactly these canonical texts, and each platform is what its text parses to.
\<close>

theorem parse_compatibility_exact:
  "ParseCompatibility texts = Inr platforms \<longleftrightarrow>
     texts \<noteq> [] \<and> distinct texts \<and> sorted_wrt (<) (map pCanonical platforms) \<and> pCanonical ` set platforms = set texts \<and>
     list_all (\<lambda>p. ParsePlatform (pCanonical p) = Inr p) platforms"
  (is "?L \<longleftrightarrow> ?R")
proof
  assume ?L
  then have f: "texts \<noteq> []" "distinct texts" "\<forall>t \<in> set texts. ParsePlatform t = Inr (parsedPlatform t)"
    "platforms = sort_key pCanonical (map parsedPlatform texts)" by (simp_all add: ParseCompatibility_Inr)
  have canonical: "pCanonical (parsedPlatform t) = t" if "t \<in> set texts" for t using f(3) that ParsePlatform_canonical by blast
  have keys: "set (map pCanonical platforms) = set texts" using canonical by (force simp: f(4))
  have "distinct (map pCanonical (map parsedPlatform texts))" using f(2) canonical by (simp add: distinct_map inj_on_def)
  then have "distinct (map pCanonical platforms)" unfolding f(4) using mset_sort[of pCanonical "map parsedPlatform texts"]
    by (metis mset_eq_imp_distinct_iff mset_map)
  then have "sorted_wrt (<) (map pCanonical platforms)" using sorted_sort_key[of pCanonical] by (simp add: strict_sorted_iff f(4))
  moreover have "list_all (\<lambda>p. ParsePlatform (pCanonical p) = Inr p) platforms" using f(3) canonical by (auto simp: list_all_iff f(4))
  ultimately show ?R using f(1,2) keys by simp
next
  assume R: ?R
  have parsed: "parsedPlatform (pCanonical p) = p" "ParsePlatform (pCanonical p) = Inr p" if "p \<in> set platforms" for p
    using R that by (auto simp: list_all_iff parsedPlatform_def)
  have texts: "\<exists>p \<in> set platforms. t = pCanonical p" if "t \<in> set texts" for t using R that by auto
  have same: "set (map parsedPlatform texts) = set platforms" using R parsed(1) by force
  have dist: "distinct (map parsedPlatform texts)" using R texts parsed(1) by (auto simp: distinct_map inj_on_def) metis
  have "distinct platforms" using R sorted_wrt_less_distinct[of "map pCanonical platforms"] by (simp add: distinct_map)
  with same dist have "mset (map parsedPlatform texts) = mset platforms" by (metis set_eq_iff_mset_eq_distinct)
  moreover have "inj_on pCanonical (set (map parsedPlatform texts))" unfolding same using parsed(1) by (metis inj_onI)
  moreover have "sorted (map pCanonical platforms)" using R by (simp add: strict_sorted_iff)
  ultimately have "sort_key pCanonical (map parsedPlatform texts) = platforms" by (rule sort_key_inj_key_eq)
  moreover have "\<forall>t \<in> set texts. ParsePlatform t = Inr (parsedPlatform t)" using texts parsed by metis
  ultimately show ?L using R by (simp add: ParseCompatibility_Inr)
qed

text \<open>
  A selected platform is accepted exactly when it and all declared platforms validate, the
  declared ones are strictly sorted, and exactly one of them covers it: the same operating system
  and architecture, and its variant if it declares one.
\<close>

theorem selected_platform_exact:
  "ValidateSelectedPlatform platforms selected = None \<longleftrightarrow>
     validatePlatform selected = None \<and> list_all (\<lambda>p. validatePlatform p = None) platforms \<and> sorted_wrt (<) (map pCanonical platforms) \<and>
     (\<exists>!p. p \<in> set platforms \<and> covers p selected)"
  unfolding ValidateSelectedPlatform_iff by (simp add: list_all_iff)

text \<open>
  The condition on slashes in \<open>parse_platform_roundtrip\<close> is needed: validation compares texts and
  not parts. The record \<^const>\<open>slashedPlatform\<close> validates, since its canonical text is the text of its parts and
  parses, but parsing that text gives other parts.
\<close>

lemma validate_platform_slash:
  "\<exists>parsed. validatePlatform slashedPlatform = None \<and> ParsePlatform (pCanonical slashedPlatform) = Inr parsed \<and> parsed \<noteq> slashedPlatform"
proof -
  define parsed where "parsed = \<lparr>pOS = ''linux'', pArchitecture = ''arm64'', pVariant = ''v8'', pCanonical = ''linux/arm64/v8''\<rparr>"
  have "ParsePlatform ''linux/arm64/v8'' = Inr parsed"
    by (simp add: ParsePlatform_def parsed_def trimSpace_plain plainText_def isCanonicalPlatformPart_def runes_plain platformText_def Let_def)
  then show ?thesis by (simp add: validatePlatform_def slashedPlatform_def platformText_def parsed_def)
qed

text \<open>A parsed platform covers another exactly when its text is the other's, with or without the variant.\<close>

lemma covers_text:
  assumes "ParsePlatform (pCanonical p) = Inr p" "ParsePlatform str = Inr selected"
  shows "covers p selected \<longleftrightarrow> pCanonical p \<in> {str, platformText (pOS selected) (pArchitecture selected) []}"
proof
  note p = ParsePlatform_text[OF assms(1)] and selected = ParsePlatform_text[OF assms(2)]
  assume "covers p selected"
  then show "pCanonical p \<in> {str, platformText (pOS selected) (pArchitecture selected) []}"
    using p selected by (auto simp: covers_def)
next
  note p = ParsePlatform_text[OF assms(1)] and selected = ParsePlatform_text[OF assms(2)]
  assume "pCanonical p \<in> {str, platformText (pOS selected) (pArchitecture selected) []}"
  then consider (same) "pCanonical p = str" | (base) "pCanonical p = platformText (pOS selected) (pArchitecture selected) []" by blast
  then show "covers p selected"
  proof cases
    case same
    then have "p = selected" using assms by simp
    then show ?thesis by (simp add: covers_def)
  next
    case base
    then have "splitOn (CHR ''/'') (platformText (pOS p) (pArchitecture p) (pVariant p)) = [pOS selected, pArchitecture selected]"
      using p selected splitOn_platformText[of "pOS selected" "pArchitecture selected" "[]"] by (simp add: slashFree_def)
    then show ?thesis
      using p splitOn_platformText[of "pOS p" "pArchitecture p" "pVariant p"] by (auto simp: slashFree_def covers_def split: if_splits)
  qed
qed

lemma Ex1_image:
  assumes "inj_on f A"
  shows "(\<exists>!x. x \<in> A \<and> P (f x)) \<longleftrightarrow> (\<exists>!y. y \<in> f ` A \<and> P y)"
proof
  assume "\<exists>!x. x \<in> A \<and> P (f x)"
  then obtain x where x: "x \<in> A" "P (f x)" and only: "\<forall>z. z \<in> A \<and> P (f z) \<longrightarrow> z = x" by (elim ex1E) blast
  show "\<exists>!y. y \<in> f ` A \<and> P y"
  proof (rule ex1I[of _ "f x"])
    fix y assume "y \<in> f ` A \<and> P y"
    then obtain z where "y = f z" "z \<in> A" "P (f z)" by blast
    then show "y = f x" using only by simp
  qed (simp add: x)
next
  assume "\<exists>!y. y \<in> f ` A \<and> P y"
  then obtain y where y: "y \<in> f ` A" "P y" and only: "\<forall>z. z \<in> f ` A \<and> P z \<longrightarrow> z = y" by (elim ex1E) blast
  obtain x where x: "x \<in> A" "y = f x" using y(1) by blast
  show "\<exists>!x. x \<in> A \<and> P (f x)"
  proof (rule ex1I[of _ x])
    fix z assume "z \<in> A \<and> P (f z)"
    then show "z = x" using only x inj_onD[OF assms, of z x] by simp
  qed (use x y(2) in simp)
qed

text \<open>
  C40. Selection against a declared compatibility set, from the texts on. Let the declared texts
  parse to a compatibility set and another text to the selected platform. The selection is accepted
  if and only if exactly one of two texts is among the declared ones: the selected text itself, or
  its operating system and architecture without the variant. So a blueprint may declare a
  platform with or without its variant, and declaring both makes the selection ambiguous and
  refused; no other declared text has an influence.
\<close>

theorem selection_from_declared:
  assumes "ParseCompatibility texts = Inr platforms" "ParsePlatform str = Inr selected"
  shows "ValidateSelectedPlatform platforms selected = None \<longleftrightarrow>
    (\<exists>!t. t \<in> set texts \<and> t \<in> {str, platformText (pOS selected) (pArchitecture selected) []})"
proof -
  have ps: "sorted_wrt (<) (map pCanonical platforms)" "pCanonical ` set platforms = set texts"
    "\<And>p. p \<in> set platforms \<Longrightarrow> ParsePlatform (pCanonical p) = Inr p"
    using assms(1) by (simp_all add: parse_compatibility_exact list_all_iff)
  have valid: "validatePlatform selected = None" "\<forall>p \<in> set platforms. validatePlatform p = None"
    using assms(2) ps(3) ParsePlatform_iff by blast+
  have inj: "inj_on pCanonical (set platforms)" using ps(3) by (metis inj_onI Inr_inject)
  let ?C = "\<lambda>t. t \<in> {str, platformText (pOS selected) (pArchitecture selected) []}"
  have "(\<exists>!p. p \<in> set platforms \<and> covers p selected) \<longleftrightarrow> (\<exists>!p. p \<in> set platforms \<and> ?C (pCanonical p))"
    using covers_text[OF ps(3) assms(2)] by (auto cong: conj_cong)
  also have "\<dots> \<longleftrightarrow> (\<exists>!t. t \<in> pCanonical ` set platforms \<and> ?C t)"
    by (rule Ex1_image[OF inj])
  finally show ?thesis using valid ps(1,2) by (simp add: ValidateSelectedPlatform_iff)
qed

theorem selection_from_declared_witness:
  "\<exists>platforms selected. ParseCompatibility [''linux/arm64'', ''linux/amd64''] = Inr platforms
     \<and> ParsePlatform ''linux/arm64/v8'' = Inr selected \<and> ValidateSelectedPlatform platforms selected = None"
proof -
  let ?p = "\<lambda>arch. \<lparr>pOS = ''linux'', pArchitecture = arch, pVariant = [], pCanonical = ''linux/'' @ arch\<rparr>"
  let ?s = "\<lparr>pOS = ''linux'', pArchitecture = ''arm64'', pVariant = ''v8'', pCanonical = ''linux/arm64/v8''\<rparr>"
  note eval = ParsePlatform_def trimSpace_plain plainText_def isCanonicalPlatformPart_def runes_plain platformText_def Let_def
  have "ParsePlatform ''linux/arm64'' = Inr (?p ''arm64'')" "ParsePlatform ''linux/amd64'' = Inr (?p ''amd64'')"
    by (simp_all add: eval)
  then have c: "ParseCompatibility [''linux/arm64'', ''linux/amd64''] = Inr (sort_key pCanonical [?p ''arm64'', ?p ''amd64''])"
    by (simp add: ParseCompatibility_def)
  have s: "ParsePlatform ''linux/arm64/v8'' = Inr ?s" by (simp add: eval)
  have "ValidateSelectedPlatform (sort_key pCanonical [?p ''arm64'', ?p ''amd64'']) ?s = None"
    unfolding selection_from_declared[OF c s] by (rule ex1I[of _ "''linux/arm64''"]) (auto simp: platformText_def)
  with c s show ?thesis by blast
qed

end
