(* ===== verification/GoNumbers.thy ===== *)
theory GoNumbers
  imports GoText
begin

text \<open>
  \<open>strconv.ParseUint(s, 10, bits)\<close> with the value it returns beside an error, which callers that
  drop the error go on with: 0 for a syntax error, the largest value of the width when a prefix
  of digits is already out of range.
\<close>

fun parseUintLoop :: "nat \<Rightarrow> nat \<Rightarrow> string \<Rightarrow> nat \<times> bool" where
  "parseUintLoop maxVal n [] = (n, True)"
| "parseUintLoop maxVal n (c # cs) =
     (if \<not> isDigit c then (0, False)
      else if n * 10 + (byteOf c - 48) > maxVal then (maxVal, False)
      else parseUintLoop maxVal (n * 10 + (byteOf c - 48)) cs)"

definition parseUint :: "nat \<Rightarrow> string \<Rightarrow> nat \<times> bool" where
  "parseUint bits s = (if s = [] then (0, False) else parseUintLoop (2 ^ bits - 1) 0 s)"

lemma digitsValue_grows: "acc \<le> digitsValue acc s"
proof (induction s arbitrary: acc)
  case (Cons c s)
  show ?case using Cons.IH[of "acc * 10 + (byteOf c - 48)"] by simp
qed simp

lemma parseUintLoop_ok:
  "n \<le> m \<Longrightarrow> parseUintLoop m n s = (k, True) \<longleftrightarrow> list_all isDigit s \<and> digitsValue n s = k \<and> k \<le> m"
proof (induction s arbitrary: n)
  case (Cons c s)
  show ?case
  proof (cases "n * 10 + (byteOf c - 48) > m")
    case True
    then show ?thesis using digitsValue_grows[of "n * 10 + (byteOf c - 48)" s] by auto
  qed (auto simp: Cons.IH)
qed auto

lemma parseUint_ok:
  "parseUint bits s = (k, True) \<longleftrightarrow> s \<noteq> [] \<and> list_all isDigit s \<and> digitsValue 0 s = k \<and> k < 2 ^ bits"
proof -
  have "k \<le> 2 ^ bits - 1 \<longleftrightarrow> k < 2 ^ bits" by (cases "2 ^ bits :: nat") auto
  then show ?thesis by (auto simp: parseUint_def parseUintLoop_ok)
qed

lemma parseUint_bound: "fst (parseUint bits s) < 2 ^ bits"
proof -
  have "n \<le> m \<Longrightarrow> fst (parseUintLoop m n s) \<le> m" for n m
    by (induction m n s rule: parseUintLoop.induct) auto
  from this[of 0 "2 ^ bits - 1"] show ?thesis
    by (simp add: parseUint_def less_Suc_eq_le[symmetric])
qed

lemma parseUint_formatUint: "n < 2 ^ bits \<Longrightarrow> parseUint bits (formatUint n) = (n, True)"
  by (simp add: parseUint_ok formatUint_isDigit digitsValue_formatUint)

lemma formatUint_inject [simp]: "formatUint m = formatUint n \<longleftrightarrow> m = n"
  by (metis digitsValue_formatUint)

text \<open>The canonical decimal strings of a width: those that print the number they parse to.\<close>

definition canonicalUint :: "nat \<Rightarrow> string \<Rightarrow> bool" where
  "canonicalUint bits s \<longleftrightarrow> snd (parseUint bits s) \<and> formatUint (fst (parseUint bits s)) = s"

lemma canonicalUint_iff: "canonicalUint bits s \<longleftrightarrow> (\<exists>n < 2 ^ bits. s = formatUint n)"
proof
  assume "canonicalUint bits s"
  then show "\<exists>n < 2 ^ bits. s = formatUint n"
    using parseUint_bound[of bits s] by (intro exI[of _ "fst (parseUint bits s)"]) (simp add: canonicalUint_def)
qed (auto simp: canonicalUint_def parseUint_formatUint)

end
