(* ===== verification/IdentityPolicy.thy ===== *)
theory IdentityPolicy
  imports GoNumbers SessionModel Canonical BlueprintPlatform
begin

text \<open>
  Portable identity policies and what an image says of them: the policy and its validator in
  \<open>src/internal/blueprint/identity_policy.go\<close>, and the evidence that an image's account files
  agree with it, \<open>src/internal/deploy/image_identity_evidence.go\<close>, \<open>image_identity_files.go\<close> and
  \<open>identity_policy_lock.go\<close>.

  A Go map is an association list with distinct keys; the order of the list is the order in
  which a \<open>range\<close> loop happens to visit the map, so a statement about every such list is a
  statement about every iteration order.
\<close>

section \<open>Policies\<close>

type_synonym 'v goMap = "(string \<times> 'v) list"

abbreviation lookup :: "'v goMap \<Rightarrow> string \<Rightarrow> 'v option" where
  "lookup m k \<equiv> map_of m k"

text \<open>Reading a string-valued map: the zero value of an absent key is the empty string.\<close>

definition stringAt :: "string goMap \<Rightarrow> string \<Rightarrow> string" where
  "stringAt m k = (case lookup m k of None \<Rightarrow> [] | Some v \<Rightarrow> v)"

record IdentityPolicyUserV1 =
  puUID :: string
  puFullName :: "string option"
  puPrimaryGroup :: string
  puSupplementaryGroups :: "string slice"

record IdentityPolicyRoleV1 =
  prUser :: string
  prCapabilities :: "string slice"

record IdentityPolicyV1 =
  plSchema :: string
  plUsers :: "IdentityPolicyUserV1 goMap"
  plGroups :: "string goMap"
  plRoles :: "IdentityPolicyRoleV1 goMap"

definition IdentityPolicySchemaV1 :: string where
  "IdentityPolicySchemaV1 = ''identity-policy-v1''"

datatype policy_error =
    PolicySchema | PolicyCounts | PolicyGroup | PolicyDuplicateUID | PolicyPrimaryGroup string
  | PolicyFullName string | PolicySupplementary string | PolicyAdditional string
  | PolicyIdentity string identity_error | PolicyRoleName | PolicyRoleUser string
  | PolicyCapabilities string | PolicyCapability string

definition policyID :: "string \<Rightarrow> bool" where
  "policyID value \<longleftrightarrow> (let (n, ok) = parseUint 32 value in ok \<and> n < 4294967295 \<and> formatUint n = value)"

definition linuxCapabilityNameV1 :: "string \<Rightarrow> bool" where
  "linuxCapabilityNameV1 name \<longleftrightarrow> name \<in> set
     [''CAP_CHOWN'', ''CAP_DAC_OVERRIDE'', ''CAP_DAC_READ_SEARCH'', ''CAP_FOWNER'', ''CAP_FSETID'', ''CAP_KILL'',
      ''CAP_SETGID'', ''CAP_SETUID'', ''CAP_SETPCAP'', ''CAP_LINUX_IMMUTABLE'', ''CAP_NET_BIND_SERVICE'',
      ''CAP_NET_BROADCAST'', ''CAP_NET_ADMIN'', ''CAP_NET_RAW'', ''CAP_IPC_LOCK'', ''CAP_IPC_OWNER'',
      ''CAP_SYS_MODULE'', ''CAP_SYS_RAWIO'', ''CAP_SYS_CHROOT'', ''CAP_SYS_PTRACE'', ''CAP_SYS_PACCT'',
      ''CAP_SYS_ADMIN'', ''CAP_SYS_BOOT'', ''CAP_SYS_NICE'', ''CAP_SYS_RESOURCE'', ''CAP_SYS_TIME'',
      ''CAP_SYS_TTY_CONFIG'', ''CAP_MKNOD'', ''CAP_LEASE'', ''CAP_AUDIT_WRITE'', ''CAP_AUDIT_CONTROL'',
      ''CAP_SETFCAP'', ''CAP_MAC_OVERRIDE'', ''CAP_MAC_ADMIN'', ''CAP_SYSLOG'', ''CAP_WAKE_ALARM'',
      ''CAP_BLOCK_SUSPEND'', ''CAP_AUDIT_READ'', ''CAP_PERFMON'', ''CAP_BPF'', ''CAP_CHECKPOINT_RESTORE'']"

text \<open>\<open>slices.SortFunc\<close> by the parsed number; the identities it sorts have distinct numbers.\<close>

definition idNumber :: "string \<Rightarrow> nat" where
  "idNumber value = fst (parseUint 32 value)"

definition sortIDs :: "string list \<Rightarrow> string list" where
  "sortIDs = sort_key idNumber"

fun policyGroupsLoop :: "string list \<Rightarrow> string goMap \<Rightarrow> policy_error check" where
  "policyGroupsLoop gids [] = None"
| "policyGroupsLoop gids ((name, gid) # rest) =
     (if ValidateUserName name \<noteq> None \<or> \<not> policyID gid \<or> gid \<in> set gids then Some PolicyGroup
      else policyGroupsLoop (gid # gids) rest)"

text \<open>The loop over the supplementary groups of one user: the error, or the group IDs.\<close>

fun additionalLoop :: "string \<Rightarrow> string goMap \<Rightarrow> string \<Rightarrow> string option \<Rightarrow> string list \<Rightarrow> policy_error + string list" where
  "additionalLoop name groups primary previous [] = Inr []"
| "additionalLoop name groups primary previous (grp # rest) =
     (case lookup groups grp of
        None \<Rightarrow> Inl (PolicyAdditional name)
      | Some gid \<Rightarrow>
          if grp = primary \<or> previous = Some grp then Inl (PolicyAdditional name)
          else (case additionalLoop name groups primary (Some grp) rest of
                  Inl e \<Rightarrow> Inl e
                | Inr extra \<Rightarrow> Inr (gid # extra)))"

definition policyUser :: "string goMap \<Rightarrow> string \<Rightarrow> IdentityPolicyUserV1 \<Rightarrow> policy_error check" where
  "policyUser groups name user =
     (case lookup groups (puPrimaryGroup user) of
        None \<Rightarrow> Some (PolicyPrimaryGroup name)
      | Some gid \<Rightarrow>
          if (case puFullName user of None \<Rightarrow> False
              | Some full \<Rightarrow> \<not> validString full \<or> length full > 256 \<or> containsAny full [CHR 0x00, CHR 0x0D, CHR 0x0A])
          then Some (PolicyFullName name)
          else case puSupplementaryGroups user of
            None \<Rightarrow> Some (PolicySupplementary name)
          | Some supplementary \<Rightarrow>
              if length supplementary > 64 \<or> \<not> sorted supplementary then Some (PolicySupplementary name)
              else case additionalLoop name groups (puPrimaryGroup user) None supplementary of
                Inl e \<Rightarrow> Some e
              | Inr extra \<Rightarrow>
                  wrap (PolicyIdentity name)
                    (ValidateIdentityV1 \<lparr>idUsername = name, idUID = puUID user, idGID = gid, idSupplementaryGIDs = Some (sortIDs extra)\<rparr>))"

fun policyUsersLoop :: "string goMap \<Rightarrow> string list \<Rightarrow> IdentityPolicyUserV1 goMap \<Rightarrow> policy_error check" where
  "policyUsersLoop groups uids [] = None"
| "policyUsersLoop groups uids ((name, user) # rest) =
     (if puUID user \<in> set uids then Some PolicyDuplicateUID
      else orElse (policyUser groups name user) (policyUsersLoop groups (puUID user # uids) rest))"

fun capabilityLoop :: "string \<Rightarrow> string option \<Rightarrow> string list \<Rightarrow> policy_error check" where
  "capabilityLoop name previous [] = None"
| "capabilityLoop name previous (capability # rest) =
     (if \<not> linuxCapabilityNameV1 capability \<or> previous = Some capability then Some (PolicyCapability name)
      else capabilityLoop name (Some capability) rest)"

definition policyRole :: "IdentityPolicyUserV1 goMap \<Rightarrow> string \<Rightarrow> IdentityPolicyRoleV1 \<Rightarrow> policy_error check" where
  "policyRole users name role =
     (if ValidateUserName name \<noteq> None then Some PolicyRoleName
      else if lookup users (prUser role) = None then Some (PolicyRoleUser name)
      else case prCapabilities role of
        None \<Rightarrow> Some (PolicyCapabilities name)
      | Some capabilities \<Rightarrow>
          if \<not> sorted capabilities then Some (PolicyCapabilities name)
          else capabilityLoop name None capabilities)"

fun policyRolesLoop :: "IdentityPolicyUserV1 goMap \<Rightarrow> IdentityPolicyRoleV1 goMap \<Rightarrow> policy_error check" where
  "policyRolesLoop users [] = None"
| "policyRolesLoop users ((name, role) # rest) = orElse (policyRole users name role) (policyRolesLoop users rest)"

text \<open>The validator; a nil policy is valid.\<close>

definition validatePolicy :: "IdentityPolicyV1 option \<Rightarrow> policy_error check" where
  "validatePolicy pointer =
     (case pointer of
        None \<Rightarrow> None
      | Some policy \<Rightarrow>
          if plSchema policy \<noteq> IdentityPolicySchemaV1 then Some PolicySchema
          else if plUsers policy = [] \<or> plGroups policy = [] \<or> plRoles policy = []
                  \<or> length (plUsers policy) + length (plGroups policy) + length (plRoles policy) > 1024
          then Some PolicyCounts
          else orElse (policyGroupsLoop [] (plGroups policy))
              (orElse (policyUsersLoop (plGroups policy) [] (plUsers policy))
                 (policyRolesLoop (plUsers policy) (plRoles policy))))"

end
