(* ===== verification/ImageAccounts.thy ===== *)
theory ImageAccounts
  imports IdentityPolicy
begin

text \<open>
  The account files of an image (\<open>src/internal/deploy/image_identity_files.go\<close>), the evidence
  that they agree with an identity policy (\<open>image_identity_evidence.go\<close>) and the lock that binds
  the two (\<open>identity_policy_lock.go\<close>). The bytes of the files are an argument, as in the code.
\<close>

section \<open>Account files\<close>

record imageAccountV1 =
  acUID :: string
  acGID :: string

record imageGroupV1 =
  igGID :: string
  igMembers :: "string list"

definition imageIdentityFileLimitV1 :: nat where
  "imageIdentityFileLimitV1 = 2 ^ 20"

definition imageIdentityLineLimitV1 :: nat where
  "imageIdentityLineLimitV1 = 64 * 2 ^ 10"

definition imageIdentityPathsV1 :: "string list" where
  "imageIdentityPathsV1 = [''etc/passwd'', ''etc/group'', ''etc/nsswitch.conf'']"

definition imageAccountIDV1 :: "string \<Rightarrow> bool" where
  "imageAccountIDV1 value \<longleftrightarrow> (let (n, ok) = parseUint 32 value in ok \<and> n < 4294967295 \<and> formatUint n = value)"

definition imageAccountNameV1 :: "string \<Rightarrow> bool" where
  "imageAccountNameV1 name \<longleftrightarrow>
     (if name = [] \<or> hasPrefix name ''+'' \<or> hasPrefix name ''-'' \<or> \<not> validString name then False
      else rangeAll (\<lambda>character. \<not> (character \<le> 32 \<or> character = 127 \<or> character = 58)) name)"

definition separators :: "char set" where
  "separators = {CHR '' '', CHR 0x09, CHR 0x0B, CHR 0x0C}"

definition trimLeftSet :: "char set \<Rightarrow> string \<Rightarrow> string" where
  "trimLeftSet chars s = dropWhile (\<lambda>c. c \<in> chars) s"

definition trimRightSet :: "char set \<Rightarrow> string \<Rightarrow> string" where
  "trimRightSet chars s = rev (dropWhile (\<lambda>c. c \<in> chars) (rev s))"

text \<open>
  \<open>bufio.Scanner\<close> with \<open>ScanLines\<close>: the pieces between newlines, and what follows the last one
  when it is not empty. A line that does not fit the buffer of \<open>imageIdentityLineLimitV1 + 2\<close>
  bytes makes the scanner fail, a line that fits but is over the limit is refused by the loop;
  both end with the result false.
\<close>

definition scanLines :: "string \<Rightarrow> string list" where
  "scanLines content =
     (let pieces = splitOn (CHR 0x0A) content
      in if last pieces = [] then butlast pieces else pieces)"

fun accountLoop :: "(string \<Rightarrow> 's \<Rightarrow> 's option) \<Rightarrow> string list \<Rightarrow> 's \<Rightarrow> 's option" where
  "accountLoop visitLine [] s = Some s"
| "accountLoop visitLine (line # rest) s =
     (if length line > imageIdentityLineLimitV1 then None
      else let trimmed = trimLeftSet separators line
           in if trimmed \<noteq> [] \<and> \<not> hasPrefix trimmed ''#''
              then (case visitLine line s of None \<Rightarrow> None | Some s' \<Rightarrow> accountLoop visitLine rest s')
              else accountLoop visitLine rest s)"

definition imageAccountLinesV1 :: "string \<Rightarrow> (string \<Rightarrow> 's \<Rightarrow> 's option) \<Rightarrow> 's \<Rightarrow> 's option" where
  "imageAccountLinesV1 content visitLine s =
     (if CHR 0x0D \<in> set content then None else accountLoop visitLine (scanLines content) s)"

text \<open>The three visitors; the state of each is the maps it fills.\<close>

type_synonym accounts = "imageAccountV1 goMap"
type_synonym accountGroups = "imageGroupV1 goMap"

definition passwdLine :: "string \<Rightarrow> accounts \<times> string list \<Rightarrow> (accounts \<times> string list) option" where
  "passwdLine line st =
     (let (users, uids) = st; parts = splitOn (CHR '':'') line
      in if length parts \<noteq> 7 \<or> \<not> imageAccountNameV1 (parts ! 0) \<or> \<not> imageAccountIDV1 (parts ! 2)
            \<or> \<not> imageAccountIDV1 (parts ! 3) \<or> parts ! 2 \<in> set uids then None
         else if lookup users (parts ! 0) \<noteq> None then None
         else Some (users @ [(parts ! 0, \<lparr>acUID = parts ! 2, acGID = parts ! 3\<rparr>)], parts ! 2 # uids))"

fun memberLoop :: "accounts \<Rightarrow> string list \<Rightarrow> string list \<Rightarrow> string list option" where
  "memberLoop users members [] = Some members"
| "memberLoop users members (name # rest) =
     (if \<not> imageAccountNameV1 name \<or> name \<in> set members then None
      else if lookup users name = None then None
      else memberLoop users (members @ [name]) rest)"

definition groupLine :: "accounts \<Rightarrow> string \<Rightarrow> accountGroups \<times> string list \<Rightarrow> (accountGroups \<times> string list) option" where
  "groupLine users line st =
     (let (groups, gids) = st; parts = splitOn (CHR '':'') line
      in if length parts \<noteq> 4 \<or> \<not> imageAccountNameV1 (parts ! 0) \<or> \<not> imageAccountIDV1 (parts ! 2) \<or> parts ! 2 \<in> set gids then None
         else if lookup groups (parts ! 0) \<noteq> None then None
         else case (if parts ! 3 \<noteq> [] then memberLoop users [] (splitOn (CHR '','') (parts ! 3)) else Some []) of
           None \<Rightarrow> None
         | Some members \<Rightarrow>
             Some (groups @ [(parts ! 0, \<lparr>igGID = parts ! 2, igMembers = members\<rparr>)], parts ! 2 # gids))"

definition nsswitchLine :: "string \<Rightarrow> string list \<times> bool \<Rightarrow> (string list \<times> bool) option" where
  "nsswitchLine whole st =
     (let (seen, previousContinued) = st;
          uncommented = takeWhile (\<lambda>c. c \<noteq> CHR ''#'') whole;
          continued = hasSuffix (trimRightSet separators uncommented) [CHR 0x5C];
          line = trimLeftSet separators uncommented;
          stop = (\<lambda>c. c = CHR '':'' \<or> c \<in> separators);
          key = takeWhile (\<lambda>c. \<not> stop c) line
      in if key \<noteq> ''passwd'' \<and> key \<noteq> ''group'' then Some (seen, continued)
         else let rest = trimLeftSet separators (dropWhile (\<lambda>c. \<not> stop c) line)
              in if \<not> hasPrefix rest '':'' \<or> previousContinued \<or> key \<in> set seen
                    \<or> trimRightSet separators (trimLeftSet separators (drop 1 rest)) \<noteq> ''files'' then None
                 else Some (key # seen, continued))"

definition bytesAt :: "string goMap \<Rightarrow> string \<Rightarrow> string" where
  "bytesAt files path = (case lookup files path of None \<Rightarrow> [] | Some content \<Rightarrow> content)"

definition parseImageAccountsV1 :: "string goMap \<Rightarrow> (accounts \<times> accountGroups) option" where
  "parseImageAccountsV1 files =
     (case imageAccountLinesV1 (bytesAt files ''etc/passwd'') passwdLine ([], []) of
        None \<Rightarrow> None
      | Some (users, uids) \<Rightarrow>
          (case imageAccountLinesV1 (bytesAt files ''etc/group'') (groupLine users) ([], []) of
             None \<Rightarrow> None
           | Some (groups, gids) \<Rightarrow>
               if \<not> list_all (\<lambda>(name, user). acGID user \<in> set gids) users then None
               else case imageAccountLinesV1 (bytesAt files ''etc/nsswitch.conf'') nsswitchLine ([], False) of
                 None \<Rightarrow> None
               | Some (seen, continued) \<Rightarrow>
                   if ''passwd'' \<notin> set seen \<or> ''group'' \<notin> set seen then None else Some (users, groups)))"

section \<open>Evidence\<close>

record RealizedImageV1 =
  riDigest :: string
  riConfigDigest :: string
  riRootFSSubject :: string

definition validateRealizedImage :: "RealizedImageV1 \<Rightarrow> canonical_error check" where
  "validateRealizedImage img =
     orElse (validateDigest (riDigest img))
       (orElse (validateDigest (riConfigDigest img)) (validateDigest (riRootFSSubject img)))"

record ImageIdentityFileV1 =
  ifDigest :: string
  ifSize :: string

record ImageIdentityEvidenceV1 =
  ieSchema :: string
  ieImage :: RealizedImageV1
  iePlatform :: Platform
  iePolicyDigest :: string
  ieFiles :: "ImageIdentityFileV1 goMap"
  ieUsers :: "IdentityV1 list"
  ieGroups :: "string goMap"

definition ImageIdentityEvidenceSchemaV1 :: string where
  "ImageIdentityEvidenceSchemaV1 = ''image-identity-evidence-v1''"

datatype image_error =
    EvidencePolicy | EvidenceImage | EvidenceDigest canonical_error | EvidenceSources | EvidenceBinding | LockSchema

text \<open>
  The policy as a Go value in a heap of its own, for \<open>canonical.Sum\<close>: the policy at address 1,
  its maps at 2, 3 and 4, the slice and the full name of the \<open>i\<close>-th user at \<open>5 + 2i\<close> and
  \<open>6 + 2i\<close>, the slices of the roles after them.
\<close>

definition sliceAt :: "addr \<Rightarrow> string slice \<Rightarrow> goValue" where
  "sliceAt a s = SliceValue (if s = None then 0 else a) (length (elems s))"

definition policyUserValue :: "addr \<Rightarrow> IdentityPolicyUserV1 \<Rightarrow> goValue" where
  "policyUserValue a user = StructValue
     [StructFieldInfo ''UID'' True ''uid'' (StringValue (puUID user)),
      StructFieldInfo ''FullName'' True ''full_name,omitempty'' (PointerTo (if puFullName user = None then 0 else a + 1)),
      StructFieldInfo ''PrimaryGroup'' True ''primary_group'' (StringValue (puPrimaryGroup user)),
      StructFieldInfo ''SupplementaryGroups'' True ''supplementary_groups'' (sliceAt a (puSupplementaryGroups user))]"

definition policyRoleValue :: "addr \<Rightarrow> IdentityPolicyRoleV1 \<Rightarrow> goValue" where
  "policyRoleValue a role = StructValue
     [StructFieldInfo ''User'' True ''user'' (StringValue (prUser role)),
      StructFieldInfo ''Capabilities'' True ''capabilities'' (sliceAt a (prCapabilities role))]"

definition policyHeap :: "IdentityPolicyV1 \<Rightarrow> heap" where
  "policyHeap policy =
     (let users = zip (map (\<lambda>i. 5 + 2 * i) [0..<length (plUsers policy)]) (plUsers policy);
          roles = zip (map (\<lambda>j. 5 + 2 * length (plUsers policy) + j) [0..<length (plRoles policy)]) (plRoles policy)
      in \<lparr>pointees = (1, StructValue
             [StructFieldInfo ''Schema'' True ''schema'' (StringValue (plSchema policy)),
              StructFieldInfo ''Users'' True ''users'' (MapValue True 2),
              StructFieldInfo ''Groups'' True ''groups'' (MapValue True 3),
              StructFieldInfo ''Roles'' True ''roles'' (MapValue True 4)])
           # concat (map (\<lambda>(a, n, u). case puFullName u of None \<Rightarrow> [] | Some full \<Rightarrow> [(a + 1, StringValue full)]) users),
          arrays = map (\<lambda>(a, n, u). (a, map StringValue (elems (puSupplementaryGroups u)))) users
            @ map (\<lambda>(a, n, r). (a, map StringValue (elems (prCapabilities r)))) roles,
          maps = [(2, map (\<lambda>(a, n, u). (n, policyUserValue a u)) users),
                  (3, map (\<lambda>(n, gid). (n, StringValue gid)) (plGroups policy)),
                  (4, map (\<lambda>(a, n, r). (n, policyRoleValue a r)) roles)]\<rparr>)"

definition imageIdentityInputsV1 :: "IdentityPolicyV1 option \<Rightarrow> RealizedImageV1 \<Rightarrow> Platform \<Rightarrow> image_error + string" where
  "imageIdentityInputsV1 pointer img platform =
     (case pointer of
        None \<Rightarrow> Inl EvidencePolicy
      | Some policy \<Rightarrow>
          if validatePolicy pointer \<noteq> None then Inl EvidencePolicy
          else if validateRealizedImage img \<noteq> None \<or> validatePlatform platform \<noteq> None \<or> pOS platform \<noteq> ''linux''
          then Inl EvidenceImage
          else case Sum (policyHeap policy) ''identity-policy'' IdentityPolicySchemaV1 (PointerTo 1) of
            Inl e \<Rightarrow> Inl (EvidenceDigest e)
          | Inr digest \<Rightarrow> Inr digest)"

definition evidenceFileOK :: "ImageIdentityFileV1 goMap \<Rightarrow> string \<Rightarrow> bool" where
  "evidenceFileOK files path =
     (case lookup files path of
        None \<Rightarrow> False
      | Some entry \<Rightarrow>
          (let (size, ok) = parseUint 32 (ifSize entry)
           in validateDigest (ifDigest entry) = None \<and> ok \<and> size \<noteq> 0 \<and> size \<le> imageIdentityFileLimitV1
              \<and> formatUint size = ifSize entry))"

definition compareImageIDsV1 :: "string \<Rightarrow> string \<Rightarrow> int" where
  "compareImageIDsV1 a b = (let x = idNumber a; y = idNumber b in if x < y then -1 else if x > y then 1 else 0)"

text \<open>\<open>reflect.DeepEqual\<close> on maps.\<close>

definition sameMap :: "'v goMap \<Rightarrow> 'v goMap \<Rightarrow> bool" where
  "sameMap l r \<longleftrightarrow> length l = length r \<and> list_all (\<lambda>(k, v). lookup r k = Some v) l"

text \<open>\<open>slices.Equal\<close> compares the elements, so a nil slice equals an empty one.\<close>

definition evidenceUserOK :: "IdentityPolicyV1 \<Rightarrow> IdentityV1 option \<Rightarrow> IdentityV1 \<Rightarrow> bool" where
  "evidenceUserOK policy previous user =
     (case lookup (plUsers policy) (idUsername user) of
        None \<Rightarrow> False
      | Some declared \<Rightarrow>
          ValidateIdentityV1 user = None \<and> idUID user = puUID declared
          \<and> idGID user = stringAt (plGroups policy) (puPrimaryGroup declared)
          \<and> (case previous of None \<Rightarrow> True | Some p \<Rightarrow> compareImageIDsV1 (idUID p) (idUID user) < 0)
          \<and> elems (idSupplementaryGIDs user) = sortIDs (map (stringAt (plGroups policy)) (elems (puSupplementaryGroups declared))))"

fun evidenceUsersLoop :: "IdentityPolicyV1 \<Rightarrow> IdentityV1 option \<Rightarrow> IdentityV1 list \<Rightarrow> bool" where
  "evidenceUsersLoop policy previous [] = True"
| "evidenceUsersLoop policy previous (user # rest) =
     (evidenceUserOK policy previous user \<and> evidenceUsersLoop policy (Some user) rest)"

definition ValidateImageIdentityEvidenceV1 ::
    "ImageIdentityEvidenceV1 \<Rightarrow> IdentityPolicyV1 option \<Rightarrow> RealizedImageV1 \<Rightarrow> Platform \<Rightarrow> image_error check" where
  "ValidateImageIdentityEvidenceV1 evidence pointer img platform =
     (case imageIdentityInputsV1 pointer img platform of
        Inl e \<Rightarrow> Some e
      | Inr digest \<Rightarrow>
          (case pointer of
             None \<Rightarrow> Some EvidenceBinding
           | Some policy \<Rightarrow>
               if ieSchema evidence \<noteq> ImageIdentityEvidenceSchemaV1 \<or> ieImage evidence \<noteq> img \<or> iePlatform evidence \<noteq> platform
                  \<or> iePolicyDigest evidence \<noteq> digest \<or> length (ieFiles evidence) \<noteq> 3
                  \<or> length (ieUsers evidence) \<noteq> length (plUsers policy) \<or> \<not> sameMap (ieGroups evidence) (plGroups policy)
               then Some EvidenceBinding
               else if \<not> list_all (evidenceFileOK (ieFiles evidence)) imageIdentityPathsV1 then Some EvidenceBinding
               else if \<not> evidenceUsersLoop policy None (ieUsers evidence) then Some EvidenceBinding
               else None))"

text \<open>\<open>VerifyImageIdentityFilesV1\<close>: the evidence that supplied account files give for a policy.\<close>

fun evidenceFiles :: "string goMap \<Rightarrow> string list \<Rightarrow> ImageIdentityFileV1 goMap option" where
  "evidenceFiles files [] = Some []"
| "evidenceFiles files (path # rest) =
     (let content = bytesAt files path
      in if content = [] \<or> length content > imageIdentityFileLimitV1 \<or> CHR 0x00 \<in> set content then None
         else case evidenceFiles files rest of
           None \<Rightarrow> None
         | Some entries \<Rightarrow>
             Some ((path, \<lparr>ifDigest = ''sha256:'' @ hexEncode (sha256 content), ifSize = formatUint (length content)\<rparr>) # entries))"

fun evidenceGroups :: "accountGroups \<Rightarrow> string goMap \<Rightarrow> string goMap option" where
  "evidenceGroups groups [] = Some []"
| "evidenceGroups groups ((name, gid) # rest) =
     (case lookup groups name of
        None \<Rightarrow> None
      | Some grp \<Rightarrow>
          (case evidenceGroups groups rest of None \<Rightarrow> None | Some entries \<Rightarrow> Some ((name, igGID grp) # entries)))"

definition evidenceIdentity :: "accountGroups \<Rightarrow> string \<Rightarrow> imageAccountV1 \<Rightarrow> IdentityV1" where
  "evidenceIdentity groups name user =
     \<lparr>idUsername = name, idUID = acUID user, idGID = acGID user,
      idSupplementaryGIDs = Some (sortIDs (map (igGID \<circ> snd)
        (filter (\<lambda>(g, grp). name \<in> set (igMembers grp) \<and> igGID grp \<noteq> acGID user) groups)))\<rparr>"

fun evidenceUsers :: "accounts \<Rightarrow> accountGroups \<Rightarrow> IdentityPolicyUserV1 goMap \<Rightarrow> IdentityV1 list option" where
  "evidenceUsers users groups [] = Some []"
| "evidenceUsers users groups ((name, declared) # rest) =
     (case lookup users name of
        None \<Rightarrow> None
      | Some user \<Rightarrow>
          (case evidenceUsers users groups rest of
             None \<Rightarrow> None
           | Some identities \<Rightarrow> Some (evidenceIdentity groups name user # identities)))"

definition VerifyImageIdentityFilesV1 ::
    "IdentityPolicyV1 option \<Rightarrow> RealizedImageV1 \<Rightarrow> Platform \<Rightarrow> string goMap \<Rightarrow> image_error + ImageIdentityEvidenceV1" where
  "VerifyImageIdentityFilesV1 pointer img platform files =
     (case imageIdentityInputsV1 pointer img platform of
        Inl e \<Rightarrow> Inl e
      | Inr digest \<Rightarrow>
          if length files \<noteq> length imageIdentityPathsV1 then Inl EvidenceSources
          else case (pointer, evidenceFiles files imageIdentityPathsV1, parseImageAccountsV1 files) of
            (Some policy, Some entries, Some (users, groups)) \<Rightarrow>
              (case (evidenceGroups groups (plGroups policy), evidenceUsers users groups (plUsers policy)) of
                 (Some gids, Some identities) \<Rightarrow>
                   (let evidence = \<lparr>ieSchema = ImageIdentityEvidenceSchemaV1, ieImage = img, iePlatform = platform,
                        iePolicyDigest = digest, ieFiles = entries, ieUsers = sort_key (idNumber \<circ> idUID) identities,
                        ieGroups = gids\<rparr>
                    in case ValidateImageIdentityEvidenceV1 evidence pointer img platform of
                         Some e \<Rightarrow> Inl EvidenceSources
                       | None \<Rightarrow> Inr evidence)
               | _ \<Rightarrow> Inl EvidenceSources)
          | _ \<Rightarrow> Inl EvidenceSources)"

section \<open>The policy lock\<close>

record IdentityPolicyLockV1 =
  lkSchema :: string
  lkPolicy :: IdentityPolicyV1
  lkEvidence :: ImageIdentityEvidenceV1

definition IdentityPolicyLockSchemaV1 :: string where
  "IdentityPolicyLockSchemaV1 = ''identity-policy-lock-v1''"

definition ValidateIdentityPolicyLockV1 :: "IdentityPolicyLockV1 option \<Rightarrow> RealizedImageV1 \<Rightarrow> Platform \<Rightarrow> image_error check" where
  "ValidateIdentityPolicyLockV1 pointer img platform =
     (case pointer of
        None \<Rightarrow> None
      | Some lock \<Rightarrow>
          if lkSchema lock \<noteq> IdentityPolicyLockSchemaV1 then Some LockSchema
          else ValidateImageIdentityEvidenceV1 (lkEvidence lock) (Some (lkPolicy lock)) img platform)"

end
