(* ===== verification/ExecutionPlan.thy ===== *)
theory ExecutionPlan
  imports ImageAccounts IdentityGeometry
begin

text \<open>
  Execution plans of mapped identities: \<open>src/internal/deploy/identity_policy_coverage.go\<close>, which
  checks that every declared identity is reserved, and \<open>identity_execution_plan.go\<close>, which
  splits the identities of a generation into active and dormant ones.
\<close>

section \<open>Coverage\<close>

record missingID =
  miKind :: string
  miPath :: string
  miID :: nat

datatype coverage_error =
    CoverageInputs | CoverageLock image_error | CoverageReservations geometry_error
  | CoverageMissing string "missingID list"

definition policyPath :: string where
  "policyPath = ''environment.runtime.identity_policy.''"

definition coveredBy :: "nat \<Rightarrow> Interval list \<Rightarrow> bool" where
  "coveredBy n intervals \<longleftrightarrow> list_ex (\<lambda>v. unat (ivContainerStart v) \<le> n \<and> n < containerEnd v) intervals"

definition coverageCheck :: "string \<Rightarrow> string \<Rightarrow> string \<Rightarrow> Interval list \<Rightarrow> missingID list" where
  "coverageCheck kind str path intervals =
     (let n = idNumber str in if coveredBy n intervals then [] else [\<lparr>miKind = kind, miPath = path, miID = n\<rparr>])"

definition userMissing :: "string goMap \<Rightarrow> Geometry \<Rightarrow> string \<times> IdentityPolicyUserV1 \<Rightarrow> missingID list" where
  "userMissing groups reserved entry =
     (let (name, user) = entry; path = policyPath @ ''users.'' @ name;
          supplementary = elems (puSupplementaryGroups user)
      in coverageCheck ''UID'' (puUID user) (path @ ''.uid'') (gmUIDs reserved)
         @ coverageCheck ''GID'' (stringAt groups (puPrimaryGroup user)) (path @ ''.primary_group'') (gmGIDs reserved)
         @ concat (map (\<lambda>i. coverageCheck ''GID'' (stringAt groups (supplementary ! i))
                              (path @ ''.supplementary_groups['' @ formatUint i @ '']'') (gmGIDs reserved))
                     [0..<length supplementary]))"

definition groupMissing :: "Geometry \<Rightarrow> string \<times> string \<Rightarrow> missingID list" where
  "groupMissing reserved entry =
     (let (name, gid) = entry in coverageCheck ''GID'' gid (policyPath @ ''groups.'' @ name) (gmGIDs reserved))"

definition ValidateIdentityPolicyCoverageV1 :: "IdentityPolicyLockV1 option \<Rightarrow> Geometry \<Rightarrow> string \<Rightarrow> coverage_error check" where
  "ValidateIdentityPolicyCoverageV1 pointer geometry generation =
     (case pointer of
        None \<Rightarrow> Some CoverageInputs
      | Some lock \<Rightarrow>
          if validateDigest generation \<noteq> None then Some CoverageInputs
          else case ValidateIdentityPolicyLockV1 pointer (ieImage (lkEvidence lock)) (iePlatform (lkEvidence lock)) of
            Some e \<Rightarrow> Some (CoverageLock e)
          | None \<Rightarrow>
              (case ValidateGeometry geometry of
                 Inl e \<Rightarrow> Some (CoverageReservations e)
               | Inr reserved \<Rightarrow>
                   let groups = plGroups (lkPolicy lock);
                       missing = sort_key (\<lambda>m. (miKind m, miID m, miPath m))
                         (concat (map (userMissing groups reserved) (plUsers (lkPolicy lock)))
                          @ concat (map (groupMissing reserved) groups))
                   in if missing = [] then None else Some (CoverageMissing generation missing)))"

section \<open>Interval arithmetic\<close>

definition sameExecutionGeometryV1 :: "Geometry \<Rightarrow> Geometry \<Rightarrow> bool" where
  "sameExecutionGeometryV1 a b \<longleftrightarrow> gmProfile a = gmProfile b \<and> gmUIDs a = gmUIDs b \<and> gmGIDs a = gmGIDs b"

text \<open>
  The loop of \<open>projectExecutionIDsV1\<close> over the ordered IDs; the interval index only moves
  forward, so the loop carries the rest of the intervals. An index past the last interval is a
  run-time panic, \<^const>\<open>None\<close>.
\<close>

fun projectLoop :: "Interval list \<Rightarrow> nat list \<Rightarrow> Interval list option" where
  "projectLoop intervals [] = Some []"
| "projectLoop intervals (n # ids) =
     (case dropWhile (\<lambda>v. n \<ge> containerEnd v) intervals of
        [] \<Rightarrow> None
      | v # rest \<Rightarrow>
          (case projectLoop (v # rest) ids of
             None \<Rightarrow> None
           | Some result \<Rightarrow>
               Some (\<lparr>ivContainerStart = of_nat n, ivHostStart = ivHostStart v + (of_nat n - ivContainerStart v), ivCount = 1\<rparr> # result)))"

definition projectExecutionIDsV1 :: "Interval list \<Rightarrow> nat list \<Rightarrow> Interval list option" where
  "projectExecutionIDsV1 intervals ids = projectLoop intervals (sort (remdups ids))"

definition appendSpan :: "Interval \<Rightarrow> nat \<Rightarrow> nat \<Rightarrow> Interval list" where
  "appendSpan v lo hi =
     (if lo < hi
      then [\<lparr>ivContainerStart = of_nat lo, ivHostStart = ivHostStart v + of_nat (lo - unat (ivContainerStart v)), ivCount = of_nat (hi - lo)\<rparr>]
      else [])"

text \<open>
  The inner loop of \<open>subtractExecutionIntervalsV1\<close> for one interval that ends at \<open>stop\<close>: the spans
  appended for it, and the cuts that are left.
\<close>

fun cutLoop :: "Interval \<Rightarrow> nat \<Rightarrow> nat \<Rightarrow> Interval list \<Rightarrow> Interval list \<times> Interval list" where
  "cutLoop v stop start [] = (appendSpan v start stop, [])"
| "cutLoop v stop start (r # remove) =
     (if unat (ivContainerStart r) < stop then
        let spans = appendSpan v start (min stop (unat (ivContainerStart r)));
            start' = max start (containerEnd r)
        in if start' \<ge> stop then (spans @ appendSpan v start' stop, r # remove)
           else (case cutLoop v stop start' remove of (later, left) \<Rightarrow> (spans @ later, left))
      else (appendSpan v start stop, r # remove))"

fun subtractExecutionIntervalsV1 :: "Interval list \<Rightarrow> Interval list \<Rightarrow> Interval list" where
  "subtractExecutionIntervalsV1 [] remove = []"
| "subtractExecutionIntervalsV1 (v # from) remove =
     (let start = unat (ivContainerStart v); stop = containerEnd v
      in case cutLoop v stop start (dropWhile (\<lambda>r. containerEnd r \<le> start) remove) of
           (spans, left) \<Rightarrow> spans @ subtractExecutionIntervalsV1 from left)"

section \<open>Plans\<close>

record IdentityExecutionInputV1 =
  xiGeneration :: string
  xiPolicy :: "IdentityPolicyLockV1 option"
  xiCandidate :: Geometry
  xiReservations :: "Geometry option"
  xiAccepted :: "Geometry option"
  xiRuntimeUsers :: "string list"
  xiRuntimeGroups :: "string list"

record IdentityExecutionPlanV1 =
  xpActive :: Geometry
  xpProspectiveReservations :: Geometry
  xpProspectiveAccepted :: Geometry
  xpDormantUIDs :: "Interval list"
  xpDormantGIDs :: "Interval list"

datatype execution_error =
    PlanCoverage coverage_error | PlanReserved geometry_error | PlanAcceptedAlone | PlanPrevious geometry_error
  | PlanAcceptedForeign | PlanRuntimeUser | PlanRuntimeGroup | PlanActive geometry_error | PlanProspective geometry_error
  | PlanSurplus | PlanPanic

definition emptyGeometry :: Geometry where
  "emptyGeometry = \<lparr>gmProfile = [], gmUIDs = [], gmGIDs = []\<rparr>"

text \<open>\<open>value, _ := identitymapping.ValidateGeometry(g)\<close>\<close>

definition canonicalOf :: "Geometry \<Rightarrow> Geometry" where
  "canonicalOf g = (case ValidateGeometry g of Inl _ \<Rightarrow> emptyGeometry | Inr c \<Rightarrow> c)"

definition acceptedHistory :: "Geometry option \<Rightarrow> Geometry option \<Rightarrow> execution_error + Geometry option" where
  "acceptedHistory accepted reservations =
     (case accepted of
        None \<Rightarrow> Inr None
      | Some history \<Rightarrow>
          (case reservations of
             None \<Rightarrow> Inl PlanAcceptedAlone
           | Some r \<Rightarrow>
               (case ValidateGeometry r of
                  Inl e \<Rightarrow> Inl (PlanPrevious e)
                | Inr previous \<Rightarrow>
                    (case RetainGeometry history (Some previous) of
                       Inl e \<Rightarrow> Inl PlanAcceptedForeign
                     | Inr both \<Rightarrow>
                         if \<not> sameExecutionGeometryV1 both previous then Inl PlanAcceptedForeign
                         else Inr (Some (canonicalOf history))))))"

definition activeGeometry :: "IdentityPolicyV1 \<Rightarrow> Geometry \<Rightarrow> execution_error + Geometry" where
  "activeGeometry policy candidate =
     (if gmProfile candidate = ''exact'' then
        let uids = map (idNumber \<circ> puUID \<circ> snd) (plUsers policy); gids = map (idNumber \<circ> snd) (plGroups policy)
        in case (projectExecutionIDsV1 (gmUIDs candidate) uids, projectExecutionIDsV1 (gmGIDs candidate) gids) of
             (Some us, Some gs) \<Rightarrow>
               (case ValidateGeometry \<lparr>gmProfile = gmProfile candidate, gmUIDs = us, gmGIDs = gs\<rparr> of
                  Inl e \<Rightarrow> Inl (PlanActive e)
                | Inr active \<Rightarrow> Inr active)
           | _ \<Rightarrow> Inl PlanPanic
      else Inr candidate)"

definition partitionPlan :: "Geometry \<Rightarrow> Geometry \<Rightarrow> Geometry \<Rightarrow> Geometry option \<Rightarrow> execution_error + IdentityExecutionPlanV1" where
  "partitionPlan candidate reserved active accepted =
     (case RetainGeometry active accepted of
        Inl e \<Rightarrow> Inl (PlanProspective e)
      | Inr prospective \<Rightarrow>
          (case RetainGeometry candidate (Some prospective) of
             Inl e \<Rightarrow> Inl PlanSurplus
           | Inr both \<Rightarrow>
               if \<not> sameExecutionGeometryV1 both prospective then Inl PlanSurplus
               else Inr \<lparr>xpActive = active, xpProspectiveReservations = reserved, xpProspectiveAccepted = prospective,
                 xpDormantUIDs = subtractExecutionIntervalsV1 (gmUIDs prospective) (gmUIDs active),
                 xpDormantGIDs = subtractExecutionIntervalsV1 (gmGIDs prospective) (gmGIDs active)\<rparr>))"

definition PlanIdentityExecutionV1 :: "IdentityExecutionInputV1 \<Rightarrow> execution_error + IdentityExecutionPlanV1" where
  "PlanIdentityExecutionV1 input =
     (case ValidateIdentityPolicyCoverageV1 (xiPolicy input) (xiCandidate input) (xiGeneration input) of
        Some e \<Rightarrow> Inl (PlanCoverage e)
      | None \<Rightarrow>
          let candidate = canonicalOf (xiCandidate input)
          in case RetainGeometry candidate (xiReservations input) of
               Inl e \<Rightarrow> Inl (PlanReserved e)
             | Inr reserved \<Rightarrow>
                 (case acceptedHistory (xiAccepted input) (xiReservations input) of
                    Inl e \<Rightarrow> Inl e
                  | Inr accepted \<Rightarrow>
                      (case xiPolicy input of
                         None \<Rightarrow> Inl PlanPanic
                       | Some lock \<Rightarrow>
                           let policy = lkPolicy lock
                           in if \<not> list_all (\<lambda>name. lookup (plUsers policy) name \<noteq> None) (xiRuntimeUsers input) then Inl PlanRuntimeUser
                              else if \<not> list_all (\<lambda>name. lookup (plGroups policy) name \<noteq> None) (xiRuntimeGroups input) then Inl PlanRuntimeGroup
                              else (case activeGeometry policy candidate of
                                      Inl e \<Rightarrow> Inl e
                                    | Inr active \<Rightarrow> partitionPlan candidate reserved active accepted))))"

end
