(* ===== verification/ImageAccountsProofs.thy ===== *)
theory ImageAccountsProofs
  imports ImageAccounts "HOL-Library.Multiset"
begin

text \<open>
  What the account files of an image must contain to be accepted: the parsers are exact readers
  of the data lines, and verified evidence ties every declared user to its lines.
\<close>

section \<open>Data lines\<close>

definition dataLine :: "string \<Rightarrow> bool" where
  "dataLine line \<longleftrightarrow> trimLeftSet separators line \<noteq> [] \<and> \<not> hasPrefix (trimLeftSet separators line) ''#''"

definition dataLines :: "string \<Rightarrow> string list" where
  "dataLines content = filter dataLine (scanLines content)"

fun visitAll :: "(string \<Rightarrow> 's \<Rightarrow> 's option) \<Rightarrow> string list \<Rightarrow> 's \<Rightarrow> 's option" where
  "visitAll v [] s = Some s"
| "visitAll v (line # rest) s = (case v line s of None \<Rightarrow> None | Some s' \<Rightarrow> visitAll v rest s')"

lemma accountLoop_Some:
  "accountLoop v lines s = Some s' \<longleftrightarrow>
     list_all (\<lambda>l. length l \<le> imageIdentityLineLimitV1) lines \<and> visitAll v (filter dataLine lines) s = Some s'"
  by (induction v lines s rule: accountLoop.induct) (auto simp: dataLine_def Let_def split: option.splits)

lemma imageAccountLinesV1_Some:
  "imageAccountLinesV1 content v s = Some s' \<longleftrightarrow> CHR 0x0D \<notin> set content
     \<and> list_all (\<lambda>l. length l \<le> imageIdentityLineLimitV1) (scanLines content) \<and> visitAll v (dataLines content) s = Some s'"
  by (simp add: imageAccountLinesV1_def accountLoop_Some dataLines_def)

lemma visitAll_append:
  "visitAll v (ls @ [l]) s = (case visitAll v ls s of None \<Rightarrow> None | Some s' \<Rightarrow> v l s')"
  by (induction ls arbitrary: s) (simp_all split: option.splits)

section \<open>The fields of a line\<close>

definition field :: "nat \<Rightarrow> string \<Rightarrow> string" where
  "field i line = splitOn (CHR '':'') line ! i"

definition passwdOK :: "string \<Rightarrow> bool" where
  "passwdOK line \<longleftrightarrow> length (splitOn (CHR '':'') line) = 7 \<and> imageAccountNameV1 (field 0 line)
     \<and> imageAccountIDV1 (field 2 line) \<and> imageAccountIDV1 (field 3 line)"

definition accountOf :: "string \<Rightarrow> string \<times> imageAccountV1" where
  "accountOf line = (field 0 line, \<lparr>acUID = field 2 line, acGID = field 3 line\<rparr>)"

lemma map_of_accounts: "map_of (map accountOf ls) n = None \<longleftrightarrow> n \<notin> field 0 ` set ls"
  by (auto simp: map_of_eq_None_iff accountOf_def image_image)

lemma passwd_lines:
  "visitAll passwdLine ls ([], []) = Some (users, uids) \<longleftrightarrow>
     list_all passwdOK ls \<and> distinct (map (field 0) ls) \<and> distinct (map (field 2) ls)
     \<and> users = map accountOf ls \<and> uids = rev (map (field 2) ls)"
proof (induction ls arbitrary: users uids rule: rev_induct)
  case (snoc l ls)
  have step: "passwdLine l (map accountOf ls, rev (map (field 2) ls)) = Some (users, uids) \<longleftrightarrow>
      passwdOK l \<and> field 0 l \<notin> field 0 ` set ls \<and> field 2 l \<notin> field 2 ` set ls
      \<and> users = map accountOf (ls @ [l]) \<and> uids = rev (map (field 2) (ls @ [l]))"
    using map_of_accounts[of ls "field 0 l"]
    by (auto simp: passwdLine_def passwdOK_def field_def[symmetric] accountOf_def Let_def split: if_splits)
  show ?case
  proof (cases "visitAll passwdLine ls ([], [])")
    case None
    then have "\<not> (list_all passwdOK ls \<and> distinct (map (field 0) ls) \<and> distinct (map (field 2) ls))" using snoc by auto
    then show ?thesis using None by (auto simp: visitAll_append)
  next
    case (Some st)
    obtain us ns where st: "st = (us, ns)" by fastforce
    note known = snoc[of us ns]
    have eq: "list_all passwdOK ls" "distinct (map (field 0) ls)" "distinct (map (field 2) ls)"
      "us = map accountOf ls" "ns = rev (map (field 2) ls)" using known Some st by auto
    have "visitAll passwdLine (ls @ [l]) ([], []) = passwdLine l (map accountOf ls, rev (map (field 2) ls))"
      using Some st eq by (simp add: visitAll_append)
    then show ?thesis using step eq(1-3) by auto
  qed
qed auto

definition membersOf :: "string \<Rightarrow> string list" where
  "membersOf line = (if field 3 line = [] then [] else splitOn (CHR '','') (field 3 line))"

definition groupOK :: "accounts \<Rightarrow> string \<Rightarrow> bool" where
  "groupOK users line \<longleftrightarrow> length (splitOn (CHR '':'') line) = 4 \<and> imageAccountNameV1 (field 0 line)
     \<and> imageAccountIDV1 (field 2 line) \<and> distinct (membersOf line)
     \<and> list_all (\<lambda>n. imageAccountNameV1 n \<and> n \<in> fst ` set users) (membersOf line)"

definition groupOf :: "string \<Rightarrow> string \<times> imageGroupV1" where
  "groupOf line = (field 0 line, \<lparr>igGID = field 2 line, igMembers = membersOf line\<rparr>)"

lemma memberLoop_Some:
  "distinct acc \<Longrightarrow> memberLoop users acc names = Some ms \<longleftrightarrow> ms = acc @ names \<and> distinct (acc @ names)
     \<and> list_all (\<lambda>n. imageAccountNameV1 n \<and> n \<in> fst ` set users) names"
proof (induction users acc names rule: memberLoop.induct)
  case (2 users acc n names)
  have known: "map_of users n = None \<longleftrightarrow> n \<notin> fst ` set users" by (rule map_of_eq_None_iff)
  show ?case
  proof (cases "\<not> imageAccountNameV1 n \<or> n \<in> set acc \<or> n \<notin> fst ` set users")
    case True
    then show ?thesis using known by auto
  next
    case False
    then have "memberLoop users acc (n # names) = memberLoop users (acc @ [n]) names" using known by auto
    also have "\<dots> = Some ms \<longleftrightarrow> ms = (acc @ [n]) @ names \<and> distinct ((acc @ [n]) @ names)
        \<and> list_all (\<lambda>n. imageAccountNameV1 n \<and> n \<in> fst ` set users) names"
      using False known 2 by simp
    finally show ?thesis using False by simp
  qed
qed auto

lemma map_of_groups: "map_of (map groupOf ls) n = None \<longleftrightarrow> n \<notin> field 0 ` set ls"
  by (auto simp: map_of_eq_None_iff groupOf_def image_image)

lemma groupLine_Some:
  "groupLine users l (map groupOf ls, rev (map (field 2) ls)) = Some (groups, gids) \<longleftrightarrow>
     groupOK users l \<and> field 0 l \<notin> field 0 ` set ls \<and> field 2 l \<notin> field 2 ` set ls
     \<and> groups = map groupOf (ls @ [l]) \<and> gids = rev (map (field 2) (ls @ [l]))"
proof -
  have members: "(if field 3 l \<noteq> [] then memberLoop users [] (splitOn (CHR '','') (field 3 l)) else Some []) = Some ms \<longleftrightarrow>
      ms = membersOf l \<and> distinct (membersOf l) \<and> list_all (\<lambda>n. imageAccountNameV1 n \<and> n \<in> fst ` set users) (membersOf l)" for ms
    by (auto simp: membersOf_def memberLoop_Some)
  let ?bad = "length (splitOn (CHR '':'') l) \<noteq> 4 \<or> \<not> imageAccountNameV1 (field 0 l) \<or> \<not> imageAccountIDV1 (field 2 l)
    \<or> field 2 l \<in> field 2 ` set ls \<or> field 0 l \<in> field 0 ` set ls"
  let ?ms = "if field 3 l \<noteq> [] then memberLoop users [] (splitOn (CHR '','') (field 3 l)) else Some []"
  have line: "groupLine users l (map groupOf ls, rev (map (field 2) ls)) =
      (if ?bad then None else case ?ms of None \<Rightarrow> None
       | Some ms \<Rightarrow> Some (map groupOf ls @ [(field 0 l, \<lparr>igGID = field 2 l, igMembers = ms\<rparr>)], field 2 l # rev (map (field 2) ls)))"
    unfolding groupLine_def Let_def prod.case field_def[symmetric]
    using map_of_groups[of ls "field 0 l"] by (simp del: memberLoop.simps)
  let ?fine = "distinct (membersOf l) \<and> list_all (\<lambda>n. imageAccountNameV1 n \<and> n \<in> fst ` set users) (membersOf l)"
  have ms: "?ms = (if ?fine then Some (membersOf l) else None)"
    using members[of "membersOf l"] members[of "the ?ms"] by (cases ?ms) auto
  show ?thesis unfolding line ms by (auto simp: groupOK_def groupOf_def)
qed

lemma group_lines:
  "visitAll (groupLine users) ls ([], []) = Some (groups, gids) \<longleftrightarrow>
     list_all (groupOK users) ls \<and> distinct (map (field 0) ls) \<and> distinct (map (field 2) ls)
     \<and> groups = map groupOf ls \<and> gids = rev (map (field 2) ls)"
proof (induction ls arbitrary: groups gids rule: rev_induct)
  case (snoc l ls)
  show ?case
  proof (cases "visitAll (groupLine users) ls ([], [])")
    case None
    then have "\<not> (list_all (groupOK users) ls \<and> distinct (map (field 0) ls) \<and> distinct (map (field 2) ls))" using snoc by auto
    then show ?thesis using None by (auto simp: visitAll_append)
  next
    case (Some st)
    obtain gs ns where st: "st = (gs, ns)" by fastforce
    note known = snoc[of gs ns]
    have eq: "list_all (groupOK users) ls" "distinct (map (field 0) ls)" "distinct (map (field 2) ls)"
      "gs = map groupOf ls" "ns = rev (map (field 2) ls)" using known Some st by auto
    have "visitAll (groupLine users) (ls @ [l]) ([], []) = groupLine users l (map groupOf ls, rev (map (field 2) ls))"
      using Some st eq by (simp add: visitAll_append)
    then show ?thesis using groupLine_Some[of users l ls groups gids] eq(1-3) by auto
  qed
qed auto

section \<open>Verified evidence\<close>

lemma parsed_lines:
  assumes "parseImageAccountsV1 files = Some (users, groups)"
  defines "us \<equiv> dataLines (bytesAt files ''etc/passwd'')" and "gs \<equiv> dataLines (bytesAt files ''etc/group'')"
  shows "users = map accountOf us" "groups = map groupOf gs" "distinct (map (field 0) us)" "distinct (map (field 2) us)"
    "distinct (map (field 0) gs)" "distinct (map (field 2) gs)" "list_all (\<lambda>l. field 3 l \<in> field 2 ` set gs) us"
proof -
  obtain uids gids where p: "imageAccountLinesV1 (bytesAt files ''etc/passwd'') passwdLine ([], []) = Some (users, uids)"
      and g: "imageAccountLinesV1 (bytesAt files ''etc/group'') (groupLine users) ([], []) = Some (groups, gids)"
      and member: "list_all (\<lambda>(name, user). acGID user \<in> set gids) users"
    using assms(1) by (auto simp: parseImageAccountsV1_def split: option.splits if_splits)
  have P: "visitAll passwdLine us ([], []) = Some (users, uids)" using p by (simp add: imageAccountLinesV1_Some us_def)
  have G: "visitAll (groupLine users) gs ([], []) = Some (groups, gids)" using g by (simp add: imageAccountLinesV1_Some gs_def)
  show "users = map accountOf us" "distinct (map (field 0) us)" "distinct (map (field 2) us)"
    using P unfolding passwd_lines by simp_all
  show "groups = map groupOf gs" "distinct (map (field 0) gs)" "distinct (map (field 2) gs)"
    using G unfolding group_lines by simp_all
  show "list_all (\<lambda>l. field 3 l \<in> field 2 ` set gs) us"
    using member P G unfolding passwd_lines group_lines by (auto simp: list_all_iff accountOf_def)
qed

lemma evidenceGroups_Some:
  "evidenceGroups groups entries = Some gids \<Longrightarrow> (name, gid) \<in> set entries \<Longrightarrow>
     \<exists>grp. lookup groups name = Some grp \<and> (name, igGID grp) \<in> set gids"
  by (induction groups entries arbitrary: gids rule: evidenceGroups.induct) (fastforce split: option.splits)+

lemma evidenceUsers_Some:
  "evidenceUsers users groups entries = Some identities \<Longrightarrow> (name, declared) \<in> set entries \<Longrightarrow>
     \<exists>user. lookup users name = Some user \<and> evidenceIdentity groups name user \<in> set identities"
  by (induction users groups entries arbitrary: identities rule: evidenceUsers.induct) (fastforce split: option.splits)+

lemma evidenceUsersLoop_member:
  "evidenceUsersLoop policy previous users \<Longrightarrow> user \<in> set users \<Longrightarrow> \<exists>p. evidenceUserOK policy p user"
  by (induction policy previous users rule: evidenceUsersLoop.induct) auto

lemma policyUsersLoop_member:
  "policyUsersLoop groups uids users = None \<Longrightarrow> (name, user) \<in> set users \<Longrightarrow> policyUser groups name user = None"
  by (induction groups uids users rule: policyUsersLoop.induct) (auto split: if_splits)

lemma additionalLoop_declared:
  "additionalLoop name groups primary previous gs = Inr extra \<Longrightarrow>
     list_all (\<lambda>g. lookup groups g \<noteq> None \<and> g \<noteq> primary) gs \<and> extra = map (stringAt groups) gs"
  by (induction name groups primary previous gs arbitrary: extra rule: additionalLoop.induct)
    (auto simp: stringAt_def split: option.splits if_splits sum.splits)

lemma policyUser_groups:
  assumes "policyUser groups name user = None"
  shows "lookup groups (puPrimaryGroup user) = Some (stringAt groups (puPrimaryGroup user))"
    "list_all (\<lambda>g. lookup groups g = Some (stringAt groups g)) (elems (puSupplementaryGroups user))"
    "puPrimaryGroup user \<notin> set (elems (puSupplementaryGroups user))"
  using assms additionalLoop_declared[of name groups "puPrimaryGroup user" None]
  by (auto simp: policyUser_def stringAt_def list_all_iff split: option.splits if_splits sum.splits)

lemma evidence_parts:
  assumes "VerifyImageIdentityFilesV1 (Some policy) img platform files = Inr evidence"
  obtains users groups gids identities where "parseImageAccountsV1 files = Some (users, groups)"
    "evidenceGroups groups (plGroups policy) = Some gids" "evidenceUsers users groups (plUsers policy) = Some identities"
    "set (ieUsers evidence) = set identities" "ieGroups evidence = gids"
    "ValidateImageIdentityEvidenceV1 evidence (Some policy) img platform = None"
  using assms that by (auto simp: VerifyImageIdentityFilesV1_def Let_def split: sum.splits option.splits if_splits prod.splits)

lemma evidence_bindings:
  assumes "ValidateImageIdentityEvidenceV1 evidence (Some policy) img platform = None"
  shows "sameMap (ieGroups evidence) (plGroups policy)" "evidenceUsersLoop policy None (ieUsers evidence)"
    "validatePolicy (Some policy) = None"
  using assms
  by (auto simp: ValidateImageIdentityEvidenceV1_def imageIdentityInputsV1_def split: sum.splits option.splits if_splits)

lemma group_line_unique:
  "distinct (map (field 2) gs) \<Longrightarrow> l \<in> set gs \<Longrightarrow> m \<in> set gs \<Longrightarrow> field 2 l = field 2 m \<Longrightarrow> l = m"
  by (simp add: distinct_map inj_on_def)

lemma lookup_lines:
  assumes "map_of (map f ls) n = Some v"
  obtains l where "l \<in> set ls" "f l = (n, v)"
  using assms that by (auto dest!: map_of_SomeD)

text \<open>The gid of a declared group is the one in its line of the group file.\<close>

lemma declared_group_line:
  assumes "VerifyImageIdentityFilesV1 (Some policy) img platform files = Inr evidence" "lookup (plGroups policy) g = Some gid"
  obtains l where "l \<in> set (dataLines (bytesAt files ''etc/group''))" "field 0 l = g" "field 2 l = gid"
proof -
  from assms(1) obtain users groups gids identities where v: "parseImageAccountsV1 files = Some (users, groups)"
    "evidenceGroups groups (plGroups policy) = Some gids" "ieGroups evidence = gids"
    "ValidateImageIdentityEvidenceV1 evidence (Some policy) img platform = None" by (rule evidence_parts)
  obtain grp where grp: "lookup groups g = Some grp" "(g, igGID grp) \<in> set gids"
    using evidenceGroups_Some[OF v(2) map_of_SomeD[OF assms(2)]] by blast
  have "lookup (plGroups policy) g = Some (igGID grp)"
    using evidence_bindings(1)[OF v(4)] grp(2) v(3) by (auto simp: sameMap_def list_all_iff)
  then have gid: "igGID grp = gid" using assms(2) by simp
  obtain l where "l \<in> set (dataLines (bytesAt files ''etc/group''))" "groupOf l = (g, grp)"
    using grp(1) lookup_lines unfolding parsed_lines(2)[OF v(1)] by metis
  then show ?thesis using gid by (intro that[of l]) (auto simp: groupOf_def)
qed

definition listedIn :: "string goMap \<Rightarrow> string \<Rightarrow> string set" where
  "listedIn files name = {field 0 l | l. l \<in> set (dataLines (bytesAt files ''etc/group'')) \<and> name \<in> set (membersOf l)}"

lemma verified_user:
  assumes ok: "VerifyImageIdentityFilesV1 (Some policy) img platform files = Inr evidence"
    and declared: "lookup (plUsers policy) name = Some user"
  obtains l where "l \<in> set (dataLines (bytesAt files ''etc/passwd''))" "field 0 l = name" "field 2 l = puUID user"
    "field 3 l = stringAt (plGroups policy) (puPrimaryGroup user)"
    "field 2 ` {m \<in> set (dataLines (bytesAt files ''etc/group'')). name \<in> set (membersOf m) \<and> field 2 m \<noteq> field 3 l}
      = stringAt (plGroups policy) ` set (elems (puSupplementaryGroups user))"
proof -
  from ok obtain users groups gids identities where v: "parseImageAccountsV1 files = Some (users, groups)"
    "evidenceUsers users groups (plUsers policy) = Some identities" "set (ieUsers evidence) = set identities"
    "ValidateImageIdentityEvidenceV1 evidence (Some policy) img platform = None" by (rule evidence_parts)
  obtain acct where acct: "lookup users name = Some acct" "evidenceIdentity groups name acct \<in> set (ieUsers evidence)"
    using evidenceUsers_Some[OF v(2) map_of_SomeD[OF declared]] v(3) by blast
  obtain p where "evidenceUserOK policy p (evidenceIdentity groups name acct)"
    using evidenceUsersLoop_member[OF evidence_bindings(2)[OF v(4)] acct(2)] by blast
  then have id: "acUID acct = puUID user" "acGID acct = stringAt (plGroups policy) (puPrimaryGroup user)"
      and supp: "sortIDs (map (igGID \<circ> snd) (filter (\<lambda>(g, grp). name \<in> set (igMembers grp) \<and> igGID grp \<noteq> acGID acct) groups))
        = sortIDs (map (stringAt (plGroups policy)) (elems (puSupplementaryGroups user)))"
    using declared by (auto simp: evidenceUserOK_def evidenceIdentity_def)
  obtain l where l: "l \<in> set (dataLines (bytesAt files ''etc/passwd''))" "accountOf l = (name, acct)"
    using acct(1) lookup_lines unfolding parsed_lines(1)[OF v(1)] by metis
  then have f: "field 0 l = name" "field 2 l = acUID acct" "field 3 l = acGID acct" by (auto simp: accountOf_def)
  have "(igGID \<circ> snd) ` {x \<in> set groups. case x of (g, grp) \<Rightarrow> name \<in> set (igMembers grp) \<and> igGID grp \<noteq> acGID acct}
      = stringAt (plGroups policy) ` set (elems (puSupplementaryGroups user))"
    using arg_cong[OF supp, of set] by (simp add: sortIDs_def)
  moreover have "(igGID \<circ> snd) ` {x \<in> set groups. case x of (g, grp) \<Rightarrow> name \<in> set (igMembers grp) \<and> igGID grp \<noteq> acGID acct}
      = field 2 ` {m \<in> set (dataLines (bytesAt files ''etc/group'')). name \<in> set (membersOf m) \<and> field 2 m \<noteq> acGID acct}"
    unfolding parsed_lines(2)[OF v(1)] by (force simp: groupOf_def)
  ultimately show ?thesis using l(1) f id by (intro that[of l]) simp_all
qed

lemma verified_membership:
  assumes ok: "VerifyImageIdentityFilesV1 (Some policy) img platform files = Inr evidence"
    and declared: "lookup (plUsers policy) name = Some user"
  shows "set (elems (puSupplementaryGroups user)) \<subseteq> listedIn files name"
    "listedIn files name \<subseteq> insert (puPrimaryGroup user) (set (elems (puSupplementaryGroups user)))"
proof -
  let ?gs = "set (dataLines (bytesAt files ''etc/group''))" and ?gid = "stringAt (plGroups policy)"
  from ok obtain users groups where v: "parseImageAccountsV1 files = Some (users, groups)"
    "ValidateImageIdentityEvidenceV1 evidence (Some policy) img platform = None" by (rule evidence_parts)
  from ok declared obtain l where l: "field 3 l = ?gid (puPrimaryGroup user)"
      "field 2 ` {m \<in> ?gs. name \<in> set (membersOf m) \<and> field 2 m \<noteq> field 3 l} = ?gid ` set (elems (puSupplementaryGroups user))"
    by (rule verified_user)
  have "policyUser (plGroups policy) name user = None"
    using evidence_bindings(3)[OF v(2)] policyUsersLoop_member[OF _ map_of_SomeD[OF declared]]
    by (auto simp: validatePolicy_def split: if_splits)
  note groups = policyUser_groups[OF this]
  have same: "field 0 m = g" if m: "m \<in> ?gs" "field 2 m = ?gid g" and g: "lookup (plGroups policy) g = Some (?gid g)" for m g
  proof -
    from ok g obtain n where "n \<in> ?gs" "field 0 n = g" "field 2 n = ?gid g" by (rule declared_group_line)
    then show ?thesis using group_line_unique[OF parsed_lines(6)[OF v(1)], of m n] m by simp
  qed
  show "set (elems (puSupplementaryGroups user)) \<subseteq> listedIn files name"
  proof
    fix g assume g: "g \<in> set (elems (puSupplementaryGroups user))"
    then have "?gid g \<in> field 2 ` {m \<in> ?gs. name \<in> set (membersOf m) \<and> field 2 m \<noteq> field 3 l}" unfolding l(2) by simp
    then obtain m where m: "m \<in> ?gs" "name \<in> set (membersOf m)" "field 2 m = ?gid g" by auto
    then have "field 0 m = g" using same g groups(2) by (auto simp: list_all_iff)
    then show "g \<in> listedIn files name" using m unfolding listedIn_def by blast
  qed
  show "listedIn files name \<subseteq> insert (puPrimaryGroup user) (set (elems (puSupplementaryGroups user)))"
  proof
    fix g assume "g \<in> listedIn files name"
    then obtain m where m: "m \<in> ?gs" "name \<in> set (membersOf m)" "g = field 0 m" unfolding listedIn_def by blast
    show "g \<in> insert (puPrimaryGroup user) (set (elems (puSupplementaryGroups user)))"
    proof (cases "field 2 m = field 3 l")
      case True
      then show ?thesis using same[OF m(1) _ groups(1)] l(1) m(3) by simp
    next
      case False
      then have "field 2 m \<in> ?gid ` set (elems (puSupplementaryGroups user))" using m(1,2) unfolding l(2)[symmetric] by blast
      then obtain s where "s \<in> set (elems (puSupplementaryGroups user))" "field 2 m = ?gid s" by blast
      then show ?thesis using same[OF m(1)] groups(2) m(3) by (auto simp: list_all_iff)
    qed
  qed
qed

end
