(* ===== verification/ExecutionPlanProofs.thy ===== *)
theory ExecutionPlanProofs
  imports ExecutionPlan IdentityGeometrySpec ImageAccountsProofs
begin

text \<open>
  The interval arithmetic of execution plans, on what intervals denote: subtraction computes the
  canonical intervals of a difference of assignments, projection the restriction to a set of IDs.
\<close>

declare of_nat_unat [simp del]

section \<open>Pieces of an interval\<close>

definition follows :: "Interval \<Rightarrow> Interval \<Rightarrow> bool" where
  "follows u v \<longleftrightarrow> containerEnd u \<le> unat (ivContainerStart v)
     \<and> \<not> (containerEnd u = unat (ivContainerStart v) \<and> bindingOffset u = bindingOffset v)"

lemma reservations_follows: "reservations vs \<longleftrightarrow> list_all usable vs \<and> sorted_wrt follows vs"
proof (induction vs rule: canonicalChain.induct)
  case (1 u v vs)
  have later: "follows u w" if "containerEnd u \<le> unat (ivContainerStart v)" "usable v" "follows v w" for w
    using that usable_start[of v] by (simp add: follows_def)
  show ?case using 1 later by (auto simp: reservations_def follows_def)
qed (simp_all add: reservations_def)

definition pieceOf :: "Interval \<Rightarrow> Interval \<Rightarrow> bool" where
  "pieceOf v p \<longleftrightarrow> usable p \<and> unat (ivContainerStart v) \<le> unat (ivContainerStart p) \<and> containerEnd p \<le> containerEnd v
     \<and> bindingOffset p = bindingOffset v"

lemma appendSpan_fields:
  assumes v: "usable v" and lo: "unat (ivContainerStart v) \<le> lo" and hi: "hi \<le> containerEnd v" and lt: "lo < hi"
  obtains p where "appendSpan v lo hi = [p]" "pieceOf v p" "unat (ivContainerStart p) = lo" "containerEnd p = hi"
proof -
  define p where "p = \<lparr>ivContainerStart = (of_nat lo :: 32 word),
    ivHostStart = ivHostStart v + of_nat (lo - unat (ivContainerStart v)), ivCount = of_nat (hi - lo)\<rparr>"
  have bound: "hi \<le> maxUint32" "unat (ivHostStart v) + unat (ivCount v) \<le> maxUint32" using v hi by (auto simp: usable_iff)
  have count: "lo - unat (ivContainerStart v) < unat (ivCount v)" using hi lt lo by (simp add: containerEnd_def)
  have s: "unat (ivContainerStart p) = lo" using bound(1) lt by (simp add: p_def unat_of_nat_small)
  have c: "unat (ivCount p) = hi - lo" using bound(1) by (simp add: p_def unat_of_nat_small)
  have d: "unat (of_nat (lo - unat (ivContainerStart v)) :: 32 word) = lo - unat (ivContainerStart v)"
    using bound(1) lt by (intro unat_of_nat_small) linarith
  have h: "unat (ivHostStart p) = unat (ivHostStart v) + (lo - unat (ivContainerStart v))"
  proof -
    have "unat (ivHostStart v) + unat (of_nat (lo - unat (ivContainerStart v)) :: 32 word) < 2 ^ LENGTH(32)"
      using d count bound(2) by (simp add: maxUint32_def)
    from unat_add_lem[THEN iffD1, OF this] show ?thesis by (simp add: p_def d)
  qed
  have e: "containerEnd p = hi" using s c lt by (simp add: containerEnd_def)
  have "bindingOffset p = bindingOffset v" using s h lo by (simp add: bindingOffset_def)
  moreover have "usable p" using s c h e lt lo bound count hi by (simp add: usable_iff containerEnd_def)
  ultimately have "pieceOf v p" using s e lo hi by (simp add: pieceOf_def)
  moreover have "appendSpan v lo hi = [p]" using lt by (simp add: appendSpan_def p_def)
  ultimately show ?thesis using s e by (intro that)
qed

lemma appendSpan_spec:
  assumes "usable v" "unat (ivContainerStart v) \<le> lo" "hi \<le> containerEnd v"
  shows "list_all (pieceOf v) (appendSpan v lo hi)" "assignment (appendSpan v lo hi) = {(c, h) \<in> assigns v. lo \<le> c \<and> c < hi}"
    "list_all (\<lambda>p. unat (ivContainerStart p) = lo \<and> containerEnd p = hi) (appendSpan v lo hi)"
    "sorted_wrt (\<lambda>p q. containerEnd p < unat (ivContainerStart q)) (appendSpan v lo hi)"
proof (atomize (full), goal_cases)
  case 1
  show ?case
  proof (cases "lo < hi")
    case True
    from assms True obtain p where p: "appendSpan v lo hi = [p]" "pieceOf v p" "unat (ivContainerStart p) = lo" "containerEnd p = hi"
      by (rule appendSpan_fields)
    have "(c, h) \<in> assigns p \<longleftrightarrow> (c, h) \<in> assigns v \<and> lo \<le> c \<and> c < hi" for c h
      using p(2-4) unfolding assigns_iff pieceOf_def by auto
    then show ?thesis using p by auto
  next
    case False
    then show ?thesis by (auto simp: appendSpan_def)
  qed
qed

section \<open>Subtraction\<close>

text \<open>The spans of one interval, from \<open>start\<close> on, outside the cuts.\<close>

definition outside :: "Interval \<Rightarrow> nat \<Rightarrow> Interval list \<Rightarrow> (nat \<times> nat) set" where
  "outside v start remove = {(c, h) \<in> assigns v. start \<le> c \<and> c \<notin> Domain (assignment remove)}"

lemma Domain_assignment: "Domain (assignment vs) = (\<Union>v \<in> set vs. {unat (ivContainerStart v) ..< containerEnd v})"
  by (auto simp: assignment_def Domain_assigns[symmetric])

lemma before_cuts: "list_all (\<lambda>r. x \<le> unat (ivContainerStart r)) rs \<Longrightarrow> c < x \<Longrightarrow> c \<notin> Domain (assignment rs)"
  unfolding Domain_assignment by (force simp: list_all_iff)

lemma outside_before:
  assumes "list_all (\<lambda>r. containerEnd v \<le> unat (ivContainerStart r)) remove"
  shows "outside v start remove = {(c, h) \<in> assigns v. start \<le> c \<and> c < containerEnd v}"
  using before_cuts[OF assms] by (auto simp: outside_def assigns_iff)

lemma outside_Cons:
  assumes "list_all (\<lambda>w. containerEnd r \<le> unat (ivContainerStart w)) remove" "start < containerEnd r"
  shows "outside v start (r # remove) =
    {(c, h) \<in> assigns v. start \<le> c \<and> c < min (containerEnd v) (unat (ivContainerStart r))} \<union> outside v (containerEnd r) remove"
proof -
  have "(c, h) \<in> outside v start (r # remove) \<longleftrightarrow> (c, h) \<in> assigns v \<and>
      (start \<le> c \<and> c < min (containerEnd v) (unat (ivContainerStart r)) \<or> containerEnd r \<le> c \<and> c \<notin> Domain (assignment remove))" for c h
  proof (cases "c < containerEnd r")
    case True
    then show ?thesis using before_cuts[OF assms(1) True] by (auto simp: outside_def Domain_assigns assigns_iff Domain_Un_eq)
  next
    case False
    then show ?thesis using assms(2) usable_start
      by (auto simp: outside_def Domain_assigns Domain_Un_eq containerEnd_def)
  qed
  then show ?thesis by (auto simp: outside_def)
qed

definition cutResult :: "Interval \<Rightarrow> nat \<Rightarrow> Interval list \<Rightarrow> Interval list \<times> Interval list \<Rightarrow> bool" where
  "cutResult v start remove res \<longleftrightarrow> list_all (pieceOf v) (fst res)
    \<and> sorted_wrt (\<lambda>p q. containerEnd p < unat (ivContainerStart q)) (fst res)
    \<and> list_all (\<lambda>p. start \<le> unat (ivContainerStart p)) (fst res) \<and> assignment (fst res) = outside v start remove
    \<and> (\<exists>past. remove = past @ snd res \<and> list_all (\<lambda>r. containerEnd r \<le> containerEnd v) past)"

lemma cutResult_step:
  assumes "cutResult v (containerEnd r) remove (spans, left)"
    "list_all (pieceOf v) a" "assignment a = {(c, h) \<in> assigns v. start \<le> c \<and> c < min (containerEnd v) (unat (ivContainerStart r))}"
    "list_all (\<lambda>p. unat (ivContainerStart p) = start \<and> containerEnd p = min (containerEnd v) (unat (ivContainerStart r))) a"
    "sorted_wrt (\<lambda>p q. containerEnd p < unat (ivContainerStart q)) a"
    "start < containerEnd r \<and> containerEnd r \<le> containerEnd v" "unat (ivContainerStart r) < containerEnd r"
    "outside v start (r # remove) = {(c, h) \<in> assigns v. start \<le> c \<and> c < min (containerEnd v) (unat (ivContainerStart r))}
       \<union> outside v (containerEnd r) remove"
  shows "cutResult v start (r # remove) (a @ spans, left)"
proof -
  obtain past where past: "remove = past @ left" "list_all (\<lambda>r. containerEnd r \<le> containerEnd v) past"
    using assms(1) by (auto simp: cutResult_def)
  have spans: "list_all (pieceOf v) spans" "sorted_wrt (\<lambda>p q. containerEnd p < unat (ivContainerStart q)) spans"
      "list_all (\<lambda>p. containerEnd r \<le> unat (ivContainerStart p)) spans" "assignment spans = outside v (containerEnd r) remove"
    using assms(1) by (simp_all add: cutResult_def)
  have "containerEnd p < unat (ivContainerStart q)" if "p \<in> set a" "q \<in> set spans" for p q
    using that assms(4,7) spans(3) by (fastforce simp: list_all_iff)
  then have "sorted_wrt (\<lambda>p q. containerEnd p < unat (ivContainerStart q)) (a @ spans)"
    using assms(5) spans(2) by (simp add: sorted_wrt_append)
  moreover have "list_all (\<lambda>p. start \<le> unat (ivContainerStart p)) (a @ spans)"
    using assms(4,6) spans(3) by (fastforce simp: list_all_iff)
  moreover have "assignment (a @ spans) = outside v start (r # remove)"
    unfolding assms(8) spans(4)[symmetric] assms(3)[symmetric] by (auto simp: assignment_def)
  moreover have "\<exists>past. r # remove = past @ left \<and> list_all (\<lambda>r. containerEnd r \<le> containerEnd v) past"
    using past assms(6) by (intro exI[of _ "r # past"]) simp
  ultimately show ?thesis using assms(2) spans(1) by (simp add: cutResult_def)
qed

lemma cutLoop_spec:
  assumes v: "usable v"
  shows "unat (ivContainerStart v) \<le> start \<Longrightarrow> start < containerEnd v \<Longrightarrow> list_all usable remove \<Longrightarrow>
    sorted_wrt (\<lambda>u w. containerEnd u \<le> unat (ivContainerStart w)) remove \<Longrightarrow> list_all (\<lambda>r. start < containerEnd r) remove \<Longrightarrow>
    cutResult v start remove (cutLoop v (containerEnd v) start remove)"
proof (induction remove arbitrary: start)
  case Nil
  note span = appendSpan_spec[OF v Nil(1) le_refl]
  have "assignment (appendSpan v start (containerEnd v)) = outside v start []"
    using span(2) outside_before[of v "[]" start] by simp
  then show ?case using span by (auto simp: cutResult_def list_all_iff)
next
  case (Cons r remove)
  let ?stop = "containerEnd v" and ?from = "unat (ivContainerStart r)"
  note span = appendSpan_spec[OF v Cons.prems(1)]
  show ?case
  proof (cases "?from < ?stop")
    case False
    have "list_all (\<lambda>w. ?stop \<le> unat (ivContainerStart w)) (r # remove)"
      using False Cons.prems(3,4) usable_start[of r] by (auto simp: list_all_iff)
    from outside_before[OF this] show ?thesis
      using False span[of ?stop] by (auto simp: cutResult_def list_all_iff)
  next
    case True
    have start': "max start (containerEnd r) = containerEnd r" using Cons.prems(5) by simp
    note first = span[of "min ?stop ?from"]
    have later: "list_all (\<lambda>w. containerEnd r \<le> unat (ivContainerStart w)) remove" using Cons.prems(4) by (simp add: list_all_iff)
    note head = outside_Cons[OF later, of start v]
    have begun: "start < containerEnd r" using Cons.prems(5) by simp
    show ?thesis
    proof (cases "containerEnd r \<ge> ?stop")
      case stop: True
      have "outside v (containerEnd r) remove = {}" using stop by (auto simp: outside_def assigns_iff)
      then show ?thesis
        using True stop first head Cons.prems(5) unfolding cutResult_def by (auto simp: start' appendSpan_def[of v "containerEnd r"] list_all_iff)
    next
      case False
      have "unat (ivContainerStart v) \<le> containerEnd r" using Cons.prems(1,5) by simp
      moreover have "list_all (\<lambda>w. containerEnd r < containerEnd w) remove"
        using later Cons.prems(3) usable_start by (fastforce simp: list_all_iff)
      ultimately have IH: "cutResult v (containerEnd r) remove (cutLoop v ?stop (containerEnd r) remove)"
        using False Cons.prems(3,4) by (intro Cons.IH) simp_all
      obtain spans left where c: "cutLoop v ?stop (containerEnd r) remove = (spans, left)" by fastforce
      have "cutLoop v ?stop start (r # remove) = (appendSpan v start (min ?stop ?from) @ spans, left)"
        using True False c by (simp add: start')
      then show ?thesis
        using cutResult_step[OF IH[unfolded c] first _ _ head[OF begun]] Cons.prems(3,5) usable_start[of r] False by simp
    qed
  qed
qed

lemma sorted_dropWhile_all:
  assumes "sorted_wrt (\<lambda>u w. containerEnd u \<le> unat (ivContainerStart w)) rs"
  shows "list_all (\<lambda>r. x < containerEnd r) (dropWhile (\<lambda>r. containerEnd r \<le> x) rs)"
  using assms
proof (induction rs)
  case (Cons r rs)
  show ?case
  proof (cases "containerEnd r \<le> x")
    case False
    have "x < containerEnd w" if "w \<in> set rs" for w
    proof -
      have "containerEnd r \<le> unat (ivContainerStart w)" using Cons.prems that by simp
      also have "\<dots> \<le> containerEnd w" by (simp add: containerEnd_def)
      finally show ?thesis using False by simp
    qed
    then show ?thesis using False by (simp add: list_all_iff)
  qed (use Cons in simp)
qed simp

lemma past_cuts:
  assumes "list_all (\<lambda>r. containerEnd r \<le> x) past" "x \<le> c"
  shows "c \<in> Domain (assignment (past @ rest)) \<longleftrightarrow> c \<in> Domain (assignment rest)"
proof -
  have "c \<notin> Domain (assignment past)"
  proof
    assume "c \<in> Domain (assignment past)"
    then obtain r where "r \<in> set past" "c < containerEnd r" unfolding Domain_assignment by auto
    then show False using assms by (auto simp: list_all_iff)
  qed
  then show ?thesis by (auto simp: assignment_def)
qed

lemma follows_pieces: "follows v w \<Longrightarrow> pieceOf v p \<Longrightarrow> pieceOf w q \<Longrightarrow> follows p q"
  by (auto simp: follows_def pieceOf_def)

text \<open>Cuts that end before every interval of \<open>from\<close> do not matter.\<close>

definition without :: "Interval list \<Rightarrow> Interval list \<Rightarrow> (nat \<times> nat) set" where
  "without from remove = {(c, h) \<in> assignment from. c \<notin> Domain (assignment remove)}"

lemma without_past:
  assumes "list_all (\<lambda>r. containerEnd r \<le> x) past" "list_all (\<lambda>v. x \<le> unat (ivContainerStart v)) from"
  shows "without from (past @ rest) = without from rest"
proof -
  have "x \<le> c" if "(c, h) \<in> assignment from" for c h
    using that assms(2) by (fastforce simp: assignment_def list_all_iff assigns_iff)
  then have "c \<in> Domain (assignment (past @ rest)) \<longleftrightarrow> c \<in> Domain (assignment rest)" if "(c, h) \<in> assignment from" for c h
    using that by (intro past_cuts[OF assms(1)])
  then show ?thesis unfolding without_def by blast
qed

definition subtracted :: "Interval list \<Rightarrow> Interval list \<Rightarrow> Interval list \<Rightarrow> bool" where
  "subtracted from remove res \<longleftrightarrow> reservations res \<and> assignment res = without from remove
     \<and> list_all (\<lambda>p. \<exists>v \<in> set from. pieceOf v p) res"

lemma subtract_spec:
  assumes "reservations from" "list_all usable remove" "sorted_wrt (\<lambda>u w. containerEnd u \<le> unat (ivContainerStart w)) remove"
  shows "subtracted from remove (subtractExecutionIntervalsV1 from remove)"
  using assms
proof (induction "from" arbitrary: remove)
  case Nil
  show ?case by (simp add: subtracted_def reservations_def without_def)
next
  case (Cons v "from")
  let ?start = "unat (ivContainerStart v)" and ?rs = "dropWhile (\<lambda>r. containerEnd r \<le> unat (ivContainerStart v)) remove"
  have v: "usable v" "reservations from" "list_all (follows v) from"
    using Cons.prems(1) by (auto simp: reservations_follows list_all_iff)
  obtain past where past: "remove = past @ ?rs" "list_all (\<lambda>r. containerEnd r \<le> ?start) past"
    using takeWhile_dropWhile_id[of "\<lambda>r. containerEnd r \<le> ?start" remove] set_takeWhileD[of _ "\<lambda>r. containerEnd r \<le> ?start" remove]
    by (metis list_all_iff)
  have rs: "list_all usable ?rs" "sorted_wrt (\<lambda>u w. containerEnd u \<le> unat (ivContainerStart w)) ?rs"
    using Cons.prems(2,3) past(1) by (metis list_all_append, metis sorted_wrt_append)
  obtain spans left where c: "cutLoop v (containerEnd v) ?start ?rs = (spans, left)" by fastforce
  have cut: "cutResult v ?start ?rs (spans, left)"
    using cutLoop_spec[OF v(1) le_refl usable_start[OF v(1)] rs sorted_dropWhile_all[OF Cons.prems(3)]] c by simp
  then obtain gone where gone: "?rs = gone @ left" "list_all (\<lambda>r. containerEnd r \<le> containerEnd v) gone"
    by (auto simp: cutResult_def)
  have IH: "subtracted from left (subtractExecutionIntervalsV1 from left)"
    using rs v(2) unfolding gone(1) by (intro Cons.IH) (simp_all add: sorted_wrt_append)
  have starts: "list_all (\<lambda>w. containerEnd v \<le> unat (ivContainerStart w)) from" "list_all (\<lambda>w. ?start \<le> unat (ivContainerStart w)) (v # from)"
    using v(3) usable_start[OF v(1)] by (auto simp: follows_def list_all_iff)
  have left: "without from ?rs = without from left" unfolding gone(1) by (rule without_past[OF gone(2) starts(1)])
  have all: "without (v # from) remove = without (v # from) ?rs"
    using without_past[OF past(2) starts(2), of ?rs] past(1) by simp
  have "without (v # from) ?rs = outside v ?start ?rs \<union> without from ?rs"
    by (auto simp: without_def outside_def assigns_iff)
  then have assigned: "assignment (spans @ subtractExecutionIntervalsV1 from left) = without (v # from) remove"
    using cut IH left all by (auto simp: cutResult_def subtracted_def assignment_def)
  have pieces: "list_all (pieceOf v) spans" "sorted_wrt (\<lambda>p q. containerEnd p < unat (ivContainerStart q)) spans"
    using cut by (simp_all add: cutResult_def)
  have "sorted_wrt follows spans" using pieces(2) by (rule sorted_wrt_mono_rel[rotated]) (auto simp: follows_def)
  then have "reservations (spans @ subtractExecutionIntervalsV1 from left)"
    using IH pieces(1) v(3) follows_pieces
    unfolding reservations_follows subtracted_def by (fastforce simp: sorted_wrt_append list_all_iff pieceOf_def)
  then show ?case
    using c assigned pieces(1) IH by (auto simp: subtracted_def Let_def list_all_iff)
qed

section \<open>Projection\<close>

definition singleOf :: "Interval \<Rightarrow> nat \<Rightarrow> Interval" where
  "singleOf v n = \<lparr>ivContainerStart = of_nat n, ivHostStart = ivHostStart v + (of_nat n - ivContainerStart v), ivCount = 1\<rparr>"

lemma singleOf_span:
  assumes "usable v" "unat (ivContainerStart v) \<le> n" "n < containerEnd v"
  shows "appendSpan v n (Suc n) = [singleOf v n]"
proof -
  have small: "unat (of_nat n :: 32 word) = n" using assms by (intro unat_of_nat_small) (simp add: usable_iff)
  have start: "of_nat (unat (ivContainerStart v)) = ivContainerStart v" by (simp add: word_of_nat_eq_iff take_bit_nat_eq_self of_nat_unat)
  have "of_nat (n - unat (ivContainerStart v)) = (of_nat n :: 32 word) - ivContainerStart v"
    using assms(2) start by (simp add: of_nat_diff)
  then show ?thesis by (simp add: appendSpan_def singleOf_def)
qed

lemma singleOf_spec:
  assumes "usable v" "unat (ivContainerStart v) \<le> n" "n < containerEnd v"
  shows "usable (singleOf v n)" "assigns (singleOf v n) = {(c, h) \<in> assigns v. c = n}" "unat (ivContainerStart (singleOf v n)) = n"
proof -
  have hi: "Suc n \<le> containerEnd v" using assms(3) by simp
  note spec = appendSpan_spec[OF assms(1,2) hi, unfolded singleOf_span[OF assms]]
  show "usable (singleOf v n)" "unat (ivContainerStart (singleOf v n)) = n" using spec(1,3) by (simp_all add: pieceOf_def)
  show "assigns (singleOf v n) = {(c, h) \<in> assigns v. c = n}" using spec(2) by auto
qed

abbreviation ascending :: "Interval list \<Rightarrow> bool" where
  "ascending \<equiv> sorted_wrt (\<lambda>u w. containerEnd u \<le> unat (ivContainerStart w))"

lemma first_covering:
  assumes "list_all usable vs" "ascending vs" "n \<in> Domain (assignment vs)"
  obtains v past rest where "vs = past @ v # rest" "dropWhile (\<lambda>v. n \<ge> containerEnd v) vs = v # rest"
    "unat (ivContainerStart v) \<le> n" "n < containerEnd v" "list_all (\<lambda>u. containerEnd u \<le> n) past"
    "list_all (\<lambda>w. n < unat (ivContainerStart w)) rest"
proof -
  let ?p = "\<lambda>v. n \<ge> containerEnd v"
  obtain w where w: "w \<in> set vs" "unat (ivContainerStart w) \<le> n" "n < containerEnd w"
    using assms(3) unfolding Domain_assignment by auto
  have "w \<in> set (dropWhile ?p vs)"
    using w(1,3) takeWhile_dropWhile_id[of ?p vs] by (metis Un_iff set_append set_takeWhileD not_less)
  then obtain v rest where v: "dropWhile ?p vs = v # rest" by (cases "dropWhile ?p vs") auto
  have split: "vs = takeWhile ?p vs @ v # rest" using takeWhile_dropWhile_id[of ?p vs] v by simp
  have end': "n < containerEnd v" using hd_dropWhile[of ?p vs] v by simp
  have later: "containerEnd v \<le> unat (ivContainerStart u)" if "u \<in> set rest" for u
    using assms(2) that by (subst (asm) split) (simp add: sorted_wrt_append)
  have "w = v" using \<open>w \<in> set (dropWhile ?p vs)\<close> later[of w] w(2) end' unfolding v by auto
  moreover have "list_all (\<lambda>u. containerEnd u \<le> n) (takeWhile ?p vs)" by (auto simp: list_all_iff dest: set_takeWhileD)
  moreover have "list_all (\<lambda>w. n < unat (ivContainerStart w)) rest" using later end' by (fastforce simp: list_all_iff)
  ultimately show ?thesis using split v w(2) end' by (intro that[of "takeWhile ?p vs" v rest]) auto
qed

definition restricted :: "Interval list \<Rightarrow> nat set \<Rightarrow> (nat \<times> nat) set" where
  "restricted vs N = {(c, h) \<in> assignment vs. c \<in> N}"

definition projected :: "Interval list \<Rightarrow> nat list \<Rightarrow> Interval list \<Rightarrow> bool" where
  "projected vs ids res \<longleftrightarrow> list_all usable res \<and> assignment res = restricted vs (set ids)
     \<and> map (unat \<circ> ivContainerStart) res = ids \<and> list_all (\<lambda>v. ivCount v = 1) res"

lemma projectLoop_spec:
  assumes "list_all usable vs" "ascending vs" "sorted_wrt (<) ids" "set ids \<subseteq> Domain (assignment vs)"
  shows "\<exists>res. projectLoop vs ids = Some res \<and> projected vs ids res"
  using assms
proof (induction ids arbitrary: vs)
  case Nil
  then show ?case by (simp add: projected_def restricted_def)
next
  case (Cons n ids)
  have n: "n \<in> Domain (assignment vs)" using Cons.prems(4) by simp
  from Cons.prems(1,2) n obtain v past rest where v: "vs = past @ v # rest" "dropWhile (\<lambda>v. n \<ge> containerEnd v) vs = v # rest"
    "unat (ivContainerStart v) \<le> n" "n < containerEnd v" "list_all (\<lambda>u. containerEnd u \<le> n) past"
    "list_all (\<lambda>w. n < unat (ivContainerStart w)) rest" by (rule first_covering)
  have u: "usable v" "list_all usable (v # rest)" "ascending (v # rest)"
    using Cons.prems(1,2) unfolding v(1) by (simp_all add: sorted_wrt_append)
  have past: "c \<in> Domain (assignment vs) \<longleftrightarrow> c \<in> Domain (assignment (v # rest))" if "n \<le> c" for c
    unfolding v(1) by (rule past_cuts[OF v(5) that])
  have above: "n < c" if "c \<in> set ids" for c using Cons.prems(3) that by simp
  have "set ids \<subseteq> Domain (assignment (v # rest))"
  proof
    fix c assume c: "c \<in> set ids"
    then have "c \<in> Domain (assignment vs)" using Cons.prems(4) by auto
    then show "c \<in> Domain (assignment (v # rest))" using past[OF less_imp_le[OF above[OF c]]] by simp
  qed
  then obtain res where res: "projectLoop (v # rest) ids = Some res" "projected (v # rest) ids res"
    using Cons.IH[OF u(2,3)] Cons.prems(3) by auto
  note single = singleOf_spec[OF u(1) v(3,4)]
  have "(c, h) \<in> assignment past \<Longrightarrow> c < n" for c h using v(5) by (fastforce simp: assignment_def list_all_iff assigns_iff)
  moreover have "(c, h) \<in> assignment rest \<Longrightarrow> n < c" for c h using v(6) by (fastforce simp: assignment_def list_all_iff assigns_iff)
  ultimately have "restricted vs {n} = assigns (singleOf v n)" "restricted vs (set ids) = restricted (v # rest) (set ids)"
    using above unfolding single(2) restricted_def v(1) by (auto dest: less_asym) (metis less_asym)
  moreover have "restricted vs (set (n # ids)) = restricted vs {n} \<union> restricted vs (set ids)" by (auto simp: restricted_def)
  ultimately have "projected vs (n # ids) (singleOf v n # res)"
    using res(2) single by (simp add: projected_def) (simp add: singleOf_def)
  then show ?case using v(2) res(1) by (simp add: singleOf_def)
qed

lemma mappingOK_subset: "mappingOK R \<Longrightarrow> S \<subseteq> R \<Longrightarrow> mappingOK S"
  unfolding mappingOK_def single_valued_def by blast

lemma projected_domain:
  assumes "projected vs ids res" "mappingOK (assignment vs)" "ids \<noteq> []" "sorted_wrt (<) ids"
  shows "domainOK ''exact'' res"
proof -
  have starts: "sorted_wrt (\<lambda>u w. unat (ivContainerStart u) < unat (ivContainerStart w)) res"
    using assms(1,4) by (auto simp: projected_def sorted_wrt_map comp_def)
  have ends: "containerEnd u = Suc (unat (ivContainerStart u))" if "u \<in> set res" for u
    using assms(1) that by (simp add: projected_def list_all_iff containerEnd_def)
  have "ascending res" using starts by (rule sorted_wrt_mono_rel[rotated]) (simp add: ends)
  moreover have "ordered res" unfolding ordered_def sorted_map using starts by (rule sorted_wrt_mono_rel[rotated]) simp
  ultimately have "containersApart res" using ordered_apart[of res] assms(1) by (simp add: projected_def)
  moreover have "mappingOK (assignment res)"
    using assms(1,2) mappingOK_subset[of "assignment vs" "assignment res"] by (auto simp: projected_def restricted_def)
  moreover have "res \<noteq> []" using assms(1,3) by (auto simp: projected_def)
  ultimately show ?thesis using assms(1) by (simp add: domainOK_def projected_def)
qed

lemma project_spec:
  assumes "reservations vs" "set ids \<subseteq> Domain (assignment vs)" "mappingOK (assignment vs)" "ids \<noteq> []"
  obtains res where "projectExecutionIDsV1 vs ids = Some res" "domainOK ''exact'' res" "assignment res = restricted vs (set ids)"
proof -
  have sorted: "sorted_wrt (<) (sort (remdups ids))" by (simp add: strict_sorted_iff)
  have "list_all usable vs" "ascending vs" using assms(1) reservations_sorted by (auto simp: reservations_def)
  then obtain res where res: "projectLoop vs (sort (remdups ids)) = Some res" "projected vs (sort (remdups ids)) res"
    using projectLoop_spec[OF _ _ sorted] assms(2) by fastforce
  have "sort (remdups ids) \<noteq> []" using assms(4) by (metis set_empty set_remdups set_sort)
  then have "domainOK ''exact'' res" using projected_domain[OF res(2) assms(3) _ sorted] by simp
  then show ?thesis using res by (intro that[of res]) (simp_all add: projectExecutionIDsV1_def projected_def)
qed

section \<open>Coverage\<close>

lemma coveredBy_Domain: "coveredBy n vs \<longleftrightarrow> n \<in> Domain (assignment vs)"
  unfolding Domain_assignment by (auto simp: coveredBy_def list_ex_iff)

lemma coverageCheck_empty: "coverageCheck kind str path vs = [] \<longleftrightarrow> idNumber str \<in> Domain (assignment vs)"
  by (simp add: coverageCheck_def Let_def coveredBy_Domain)

definition declaredUIDs :: "IdentityPolicyV1 \<Rightarrow> nat set" where
  "declaredUIDs policy = idNumber ` puUID ` snd ` set (plUsers policy)"

definition declaredGIDs :: "IdentityPolicyV1 \<Rightarrow> nat set" where
  "declaredGIDs policy = idNumber ` snd ` set (plGroups policy)"

definition lockValid :: "IdentityPolicyLockV1 \<Rightarrow> bool" where
  "lockValid lock \<longleftrightarrow> ValidateIdentityPolicyLockV1 (Some lock) (ieImage (lkEvidence lock)) (iePlatform (lkEvidence lock)) = None"

lemma lockValid_policy: "lockValid lock \<Longrightarrow> validatePolicy (Some (lkPolicy lock)) = None"
  using evidence_bindings(3)[of "lkEvidence lock" "lkPolicy lock"] by (auto simp: lockValid_def ValidateIdentityPolicyLockV1_def split: if_splits)

lemma user_groups_declared:
  assumes "validatePolicy (Some policy) = None" "(name, user) \<in> set (plUsers policy)" "g \<in> insert (puPrimaryGroup user) (set (elems (puSupplementaryGroups user)))"
  shows "idNumber (stringAt (plGroups policy) g) \<in> declaredGIDs policy"
proof -
  have "policyUser (plGroups policy) name user = None"
    using assms(1) policyUsersLoop_member[OF _ assms(2)] by (auto simp: validatePolicy_def split: if_splits)
  from policyUser_groups[OF this] have "lookup (plGroups policy) g = Some (stringAt (plGroups policy) g)"
    using assms(3) by (auto simp: list_all_iff)
  then have "stringAt (plGroups policy) g \<in> snd ` set (plGroups policy)" by (force dest: map_of_SomeD)
  then show ?thesis unfolding declaredGIDs_def by blast
qed

lemma userMissing_empty:
  assumes "validatePolicy (Some policy) = None" "(name, user) \<in> set (plUsers policy)" "declaredGIDs policy \<subseteq> Domain (assignment (gmGIDs g))"
  shows "userMissing (plGroups policy) g (name, user) = [] \<longleftrightarrow> idNumber (puUID user) \<in> Domain (assignment (gmUIDs g))"
  using user_groups_declared[OF assms(1,2)] assms(3)
  by (auto simp: userMissing_def Let_def coverageCheck_empty)

lemma coverage_None:
  "ValidateIdentityPolicyCoverageV1 (Some lock) g generation = None \<longleftrightarrow>
     validateDigest generation = None \<and> lockValid lock \<and> geometryOK g
     \<and> declaredUIDs (lkPolicy lock) \<subseteq> Domain (assignment (gmUIDs g)) \<and> declaredGIDs (lkPolicy lock) \<subseteq> Domain (assignment (gmGIDs g))"
proof (cases "validateDigest generation = None \<and> lockValid lock \<and> geometryOK g")
  case False
  then show ?thesis using ValidateGeometry_Inr[of g]
    by (auto simp: ValidateIdentityPolicyCoverageV1_def lockValid_def split: option.splits sum.splits)
next
  case True
  let ?p = "lkPolicy lock"
  obtain r where r: "ValidateGeometry g = Inr r" using True geometry_accepted by blast
  note same = geometryOK_canonical(4,5)[OF r]
  have groups: "(\<forall>e \<in> set (plGroups ?p). groupMissing r e = []) \<longleftrightarrow> declaredGIDs ?p \<subseteq> Domain (assignment (gmGIDs g))"
    unfolding declaredGIDs_def same[symmetric] by (simp add: groupMissing_def coverageCheck_empty image_subset_iff case_prod_unfold Let_def)
  have users: "(\<forall>e \<in> set (plUsers ?p). userMissing (plGroups ?p) r e = []) \<longleftrightarrow> declaredUIDs ?p \<subseteq> Domain (assignment (gmUIDs g))"
    if "declaredGIDs ?p \<subseteq> Domain (assignment (gmGIDs g))"
  proof -
    have "userMissing (plGroups ?p) r e = [] \<longleftrightarrow> idNumber (puUID (snd e)) \<in> Domain (assignment (gmUIDs g))" if "e \<in> set (plUsers ?p)" for e
      using userMissing_empty[OF lockValid_policy, of lock "fst e" "snd e" r] True that
        \<open>declaredGIDs ?p \<subseteq> Domain (assignment (gmGIDs g))\<close> by (simp add: same)
    then show ?thesis by (simp add: declaredUIDs_def image_subset_iff)
  qed
  have "ValidateIdentityPolicyCoverageV1 (Some lock) g generation = None \<longleftrightarrow>
      (\<forall>e \<in> set (plUsers ?p). userMissing (plGroups ?p) r e = []) \<and> (\<forall>e \<in> set (plGroups ?p). groupMissing r e = [])"
    using True r by (auto simp: ValidateIdentityPolicyCoverageV1_def lockValid_def Let_def
      sort_key_const simp flip: set_empty)
  then show ?thesis using True groups users by blast
qed

section \<open>Plans\<close>

definition held :: "(Geometry \<Rightarrow> Interval list) \<Rightarrow> Geometry option \<Rightarrow> (nat \<times> nat) set" where
  "held domain pointer = (case pointer of None \<Rightarrow> {} | Some g \<Rightarrow> assignment (domain g))"

lemma held_simps [simp]: "held domain None = {}" "held domain (Some g) = assignment (domain g)"
  by (simp_all add: held_def)

lemma retained_all:
  assumes "RetainGeometry p r = Inr g"
  shows "denotes g (held gmUIDs r \<union> assignment (gmUIDs p)) (held gmGIDs r \<union> assignment (gmGIDs p)) \<and> gmProfile g = gmProfile p
    \<and> ValidateGeometry g = Inr g"
proof (cases r)
  case None
  then have v: "ValidateGeometry p = Inr g" using assms by (auto simp: RetainGeometry_def split: sum.splits)
  show ?thesis using None geometryOK_canonical[OF v] by (simp add: denotes_def canonical_fixpoint)
next
  case (Some q)
  then show ?thesis using assms RetainGeometry_extends(4) by (auto simp: RetainGeometry_Inr retainable_def)
qed

lemma retained:
  assumes "RetainGeometry p r = Inr g"
  shows "denotes g (held gmUIDs r \<union> assignment (gmUIDs p)) (held gmGIDs r \<union> assignment (gmGIDs p))" "gmProfile g = gmProfile p"
    "ValidateGeometry g = Inr g"
  using retained_all[OF assms] by blast+

lemma sameExecution_eq: "sameExecutionGeometryV1 a b \<longleftrightarrow> a = b"
  by (auto simp: sameExecutionGeometryV1_def intro: geometry_eq)

text \<open>A proposal that adds nothing to what it is retained over is contained in it.\<close>

lemma retained_subset:
  assumes "RetainGeometry p (Some r) = Inr r"
  shows "assignment (gmUIDs p) \<subseteq> assignment (gmUIDs r)" "assignment (gmGIDs p) \<subseteq> assignment (gmGIDs r)"
  using retained(1)[OF assms] by (auto simp: denotes_def)

lemma canonicalOf_Inr: "ValidateGeometry g = Inr c \<Longrightarrow> canonicalOf g = c"
  by (simp add: canonicalOf_def)

lemma acceptedHistory_Inr:
  assumes "acceptedHistory accepted res = Inr a"
  shows "held gmUIDs a = held gmUIDs accepted \<and> held gmGIDs a = held gmGIDs accepted
    \<and> held gmUIDs accepted \<subseteq> held gmUIDs res \<and> held gmGIDs accepted \<subseteq> held gmGIDs res"
proof (cases accepted)
  case None
  then show ?thesis
    using assms by (auto simp: acceptedHistory_def)
next
  case (Some history)
  then obtain r previous where r: "res = Some r" "ValidateGeometry r = Inr previous"
      "RetainGeometry history (Some previous) = Inr previous" "a = Some (canonicalOf history)"
    using assms by (auto simp: acceptedHistory_def sameExecution_eq split: option.splits sum.splits if_splits)
  obtain c where c: "ValidateGeometry history = Inr c" using r(3) by (auto simp: RetainGeometry_def split: sum.splits)
  show ?thesis
    using Some r geometryOK_canonical[OF c] geometryOK_canonical[OF r(2)] retained_subset[OF r(3)] by (simp add: canonicalOf_Inr[OF c])
qed

definition activeIDs :: "string \<Rightarrow> nat set \<Rightarrow> Interval list \<Rightarrow> (nat \<times> nat) set" where
  "activeIDs profile ids vs = (if profile = ''exact'' then restricted vs ids else assignment vs)"

lemma activeGeometry_spec:
  assumes "ValidateGeometry candidate = Inr candidate" "declaredUIDs policy \<subseteq> Domain (assignment (gmUIDs candidate))"
    "declaredGIDs policy \<subseteq> Domain (assignment (gmGIDs candidate))" "plUsers policy \<noteq> []" "plGroups policy \<noteq> []"
  obtains active where "activeGeometry policy candidate = Inr active" "ValidateGeometry active = Inr active"
    "gmProfile active = gmProfile candidate"
    "denotes active (activeIDs (gmProfile candidate) (declaredUIDs policy) (gmUIDs candidate))
       (activeIDs (gmProfile candidate) (declaredGIDs policy) (gmGIDs candidate))"
proof (cases "gmProfile candidate = ''exact''")
  case False
  then show ?thesis
    using assms(1) by (intro that[of candidate]) (auto simp: activeGeometry_def activeIDs_def ValidateGeometry_Inr)
next
  case True
  note c = geometryOK_canonical[OF assms(1)]
  have m: "mappingOK (assignment (gmUIDs candidate))" "mappingOK (assignment (gmGIDs candidate))"
    using c(1) by (auto simp: geometryOK_def domainOK_def)
  let ?us = "map (idNumber \<circ> puUID \<circ> snd) (plUsers policy)" and ?gs = "map (idNumber \<circ> snd) (plGroups policy)"
  have sets: "set ?us = declaredUIDs policy" "set ?gs = declaredGIDs policy"
    by (simp_all add: declaredUIDs_def declaredGIDs_def image_image)
  obtain us where us: "projectExecutionIDsV1 (gmUIDs candidate) ?us = Some us" "domainOK ''exact'' us"
      "assignment us = restricted (gmUIDs candidate) (declaredUIDs policy)"
    using project_spec[OF c(2) _ m(1), of ?us] assms(2,4) unfolding sets by auto
  obtain gs where gs: "projectExecutionIDsV1 (gmGIDs candidate) ?gs = Some gs" "domainOK ''exact'' gs"
      "assignment gs = restricted (gmGIDs candidate) (declaredGIDs policy)"
    using project_spec[OF c(3) _ m(2), of ?gs] assms(3,5) unfolding sets by auto
  let ?g = "\<lparr>gmProfile = ''exact'', gmUIDs = us, gmGIDs = gs\<rparr>"
  have "geometryOK ?g" using us gs by (simp add: geometryOK_def)
  then obtain active where a: "ValidateGeometry ?g = Inr active" by (rule geometry_accepted)
  note d = geometryOK_canonical[OF a]
  have "activeGeometry policy candidate = Inr active" using True us(1) gs(1) a by (simp add: activeGeometry_def Let_def)
  then show ?thesis
    using d us(3) gs(3) True by (intro that[of active]) (simp_all add: canonical_fixpoint denotes_def activeIDs_def)
qed

text \<open>
  What a plan promises of one ID domain: \<open>C\<close> the candidate, \<open>R\<close> the protected reservations, \<open>A\<close>
  the accepted history, \<open>D\<close> the declared IDs.
\<close>

definition domainPlan :: "string \<Rightarrow> nat set \<Rightarrow> Interval list \<Rightarrow> (nat \<times> nat) set \<Rightarrow> (nat \<times> nat) set \<Rightarrow>
    Interval list \<Rightarrow> Interval list \<Rightarrow> Interval list \<Rightarrow> Interval list \<Rightarrow> bool" where
  "domainPlan profile D candidate R A active reserved accepted dormant \<longleftrightarrow>
     (let C = assignment candidate; X = activeIDs profile D candidate
      in reservations active \<and> assignment active = X
         \<and> reservations reserved \<and> assignment reserved = R \<union> C
         \<and> reservations accepted \<and> assignment accepted = A \<union> X
         \<and> reservations dormant \<and> assignment dormant = A - X
         \<and> C \<subseteq> A \<union> X \<and> A \<subseteq> R)"

definition planFor :: "IdentityExecutionInputV1 \<Rightarrow> IdentityExecutionPlanV1 \<Rightarrow> bool" where
  "planFor input plan \<longleftrightarrow>
     (\<exists>lock. xiPolicy input = Some lock
        \<and> domainPlan (gmProfile (xiCandidate input)) (declaredUIDs (lkPolicy lock)) (gmUIDs (xiCandidate input))
            (held gmUIDs (xiReservations input)) (held gmUIDs (xiAccepted input))
            (gmUIDs (xpActive plan)) (gmUIDs (xpProspectiveReservations plan)) (gmUIDs (xpProspectiveAccepted plan)) (xpDormantUIDs plan)
        \<and> domainPlan (gmProfile (xiCandidate input)) (declaredGIDs (lkPolicy lock)) (gmGIDs (xiCandidate input))
            (held gmGIDs (xiReservations input)) (held gmGIDs (xiAccepted input))
            (gmGIDs (xpActive plan)) (gmGIDs (xpProspectiveReservations plan)) (gmGIDs (xpProspectiveAccepted plan)) (xpDormantGIDs plan))"

lemma dormant_difference:
  assumes "reservations accepted" "reservations active" "assignment active \<subseteq> assignment accepted"
  shows "reservations (subtractExecutionIntervalsV1 accepted active)
    \<and> assignment (subtractExecutionIntervalsV1 accepted active) = assignment accepted - assignment active"
proof -
  have "subtracted accepted active (subtractExecutionIntervalsV1 accepted active)"
    using assms(2) reservations_sorted by (intro subtract_spec[OF assms(1)]) (auto simp: reservations_def)
  moreover have "without accepted active = assignment accepted - assignment active"
    using reservations_single_valued[OF assms(1)] assms(3) unfolding without_def single_valued_def by blast
  ultimately show ?thesis by (simp add: subtracted_def)
qed

lemma restricted_subset: "activeIDs profile D vs \<subseteq> assignment vs"
  by (auto simp: activeIDs_def restricted_def)

lemma domainPlan_intro:
  assumes "reservations active" "assignment active = activeIDs profile D vs" "reservations reserved" "assignment reserved = R \<union> assignment vs"
    "reservations accepted" "assignment accepted = A \<union> assignment active" "assignment vs \<subseteq> assignment accepted" "A \<subseteq> R"
  shows "domainPlan profile D vs R A active reserved accepted (subtractExecutionIntervalsV1 accepted active)"
  using assms dormant_difference[OF assms(5,1)] by (auto simp: domainPlan_def Let_def)

lemma covered_candidate:
  assumes "ValidateIdentityPolicyCoverageV1 (Some lock) g generation = None"
  obtains active where "ValidateGeometry g = Inr (canonicalOf g)" "activeGeometry (lkPolicy lock) (canonicalOf g) = Inr active"
    "ValidateGeometry active = Inr active" "gmProfile active = gmProfile g"
    "denotes active (activeIDs (gmProfile g) (declaredUIDs (lkPolicy lock)) (gmUIDs g))
       (activeIDs (gmProfile g) (declaredGIDs (lkPolicy lock)) (gmGIDs g))"
proof -
  note c = assms[unfolded coverage_None]
  obtain r where r: "ValidateGeometry g = Inr r" using c geometry_accepted by blast
  note same = geometryOK_canonical[OF r]
  have canonical: "ValidateGeometry r = Inr r" using same by (intro canonical_fixpoint) simp_all
  have ne: "plUsers (lkPolicy lock) \<noteq> []" "plGroups (lkPolicy lock) \<noteq> []"
    using lockValid_policy[of lock] c by (auto simp: validatePolicy_def split: if_splits)
  have cov: "declaredUIDs (lkPolicy lock) \<subseteq> Domain (assignment (gmUIDs r))" "declaredGIDs (lkPolicy lock) \<subseteq> Domain (assignment (gmGIDs r))"
    using c same by simp_all
  have denote: "activeIDs p D (gmUIDs r) = activeIDs p D (gmUIDs g)" "activeIDs p D (gmGIDs r) = activeIDs p D (gmGIDs g)" for p D
    by (simp_all add: activeIDs_def restricted_def same)
  from canonical cov ne obtain active where "activeGeometry (lkPolicy lock) r = Inr active" "ValidateGeometry active = Inr active"
    "gmProfile active = gmProfile r"
    "denotes active (activeIDs (gmProfile r) (declaredUIDs (lkPolicy lock)) (gmUIDs r))
       (activeIDs (gmProfile r) (declaredGIDs (lkPolicy lock)) (gmGIDs r))" by (rule activeGeometry_spec)
  then show ?thesis using r same(6) unfolding denote by (intro that[of active]) (simp_all add: canonicalOf_Inr)
qed

lemma plan_parts:
  assumes "PlanIdentityExecutionV1 input = Inr plan"
  obtains lock active accepted where "xiPolicy input = Some lock"
    "ValidateIdentityPolicyCoverageV1 (Some lock) (xiCandidate input) (xiGeneration input) = None"
    "RetainGeometry (canonicalOf (xiCandidate input)) (xiReservations input) = Inr (xpProspectiveReservations plan)"
    "acceptedHistory (xiAccepted input) (xiReservations input) = Inr accepted"
    "activeGeometry (lkPolicy lock) (canonicalOf (xiCandidate input)) = Inr active" "xpActive plan = active"
    "RetainGeometry active accepted = Inr (xpProspectiveAccepted plan)"
    "RetainGeometry (canonicalOf (xiCandidate input)) (Some (xpProspectiveAccepted plan)) = Inr (xpProspectiveAccepted plan)"
    "xpDormantUIDs plan = subtractExecutionIntervalsV1 (gmUIDs (xpProspectiveAccepted plan)) (gmUIDs active)"
    "xpDormantGIDs plan = subtractExecutionIntervalsV1 (gmGIDs (xpProspectiveAccepted plan)) (gmGIDs active)"
    "set (xiRuntimeUsers input) \<subseteq> fst ` set (plUsers (lkPolicy lock))" "set (xiRuntimeGroups input) \<subseteq> fst ` set (plGroups (lkPolicy lock))"
proof -
  obtain lock where lock: "xiPolicy input = Some lock"
    using assms by (cases "xiPolicy input") (simp_all add: PlanIdentityExecutionV1_def ValidateIdentityPolicyCoverageV1_def)
  obtain reserved accepted active where p: "ValidateIdentityPolicyCoverageV1 (Some lock) (xiCandidate input) (xiGeneration input) = None"
    "RetainGeometry (canonicalOf (xiCandidate input)) (xiReservations input) = Inr reserved"
    "acceptedHistory (xiAccepted input) (xiReservations input) = Inr accepted"
    "activeGeometry (lkPolicy lock) (canonicalOf (xiCandidate input)) = Inr active"
    "partitionPlan (canonicalOf (xiCandidate input)) reserved active accepted = Inr plan"
    "list_all (\<lambda>n. lookup (plUsers (lkPolicy lock)) n \<noteq> None) (xiRuntimeUsers input)"
    "list_all (\<lambda>n. lookup (plGroups (lkPolicy lock)) n \<noteq> None) (xiRuntimeGroups input)"
    using assms lock by (auto simp: PlanIdentityExecutionV1_def Let_def split: option.splits sum.splits if_splits)
  have names: "set ns \<subseteq> fst ` set m" if "list_all (\<lambda>n. lookup m n \<noteq> None) ns" for ns and m :: "'v goMap"
    using that map_of_eq_None_iff[of m] by (fastforce simp: list_all_iff)
  show ?thesis
    using lock p(1-4) names[OF p(6)] names[OF p(7)] p(5)
    by (intro that[of lock accepted active]) (auto simp: partitionPlan_def sameExecution_eq split: sum.splits if_splits)
qed

lemma plan_correct:
  assumes "PlanIdentityExecutionV1 input = Inr plan"
  shows "planFor input plan"
proof -
  from assms obtain lock active accepted where p: "xiPolicy input = Some lock"
    "ValidateIdentityPolicyCoverageV1 (Some lock) (xiCandidate input) (xiGeneration input) = None"
    "RetainGeometry (canonicalOf (xiCandidate input)) (xiReservations input) = Inr (xpProspectiveReservations plan)"
    "acceptedHistory (xiAccepted input) (xiReservations input) = Inr accepted"
    "activeGeometry (lkPolicy lock) (canonicalOf (xiCandidate input)) = Inr active" "xpActive plan = active"
    "RetainGeometry active accepted = Inr (xpProspectiveAccepted plan)"
    "RetainGeometry (canonicalOf (xiCandidate input)) (Some (xpProspectiveAccepted plan)) = Inr (xpProspectiveAccepted plan)"
    "xpDormantUIDs plan = subtractExecutionIntervalsV1 (gmUIDs (xpProspectiveAccepted plan)) (gmUIDs active)"
    "xpDormantGIDs plan = subtractExecutionIntervalsV1 (gmGIDs (xpProspectiveAccepted plan)) (gmGIDs active)"
    by (rule plan_parts)
  from p(2) obtain a where a: "ValidateGeometry (xiCandidate input) = Inr (canonicalOf (xiCandidate input))"
    "activeGeometry (lkPolicy lock) (canonicalOf (xiCandidate input)) = Inr a"
    "denotes a (activeIDs (gmProfile (xiCandidate input)) (declaredUIDs (lkPolicy lock)) (gmUIDs (xiCandidate input)))
       (activeIDs (gmProfile (xiCandidate input)) (declaredGIDs (lkPolicy lock)) (gmGIDs (xiCandidate input)))"
    by (rule covered_candidate)
  note same = geometryOK_canonical(4,5)[OF a(1)]
  have active: "a = active" using a(2) p(5) by simp
  note facts = retained(1)[OF p(3)] retained(1)[OF p(7)] retained_subset[OF p(8)] acceptedHistory_Inr[OF p(4)] a(3)[unfolded active]
  show ?thesis
    unfolding planFor_def p(6,9,10)
    using p(1) facts same by (intro exI[of _ lock] conjI domainPlan_intro) (auto simp: denotes_def)
qed

text \<open>Once coverage holds, the projection neither runs past the intervals nor fails validation.\<close>

lemma plan_total:
  "PlanIdentityExecutionV1 input \<noteq> Inl PlanPanic" "PlanIdentityExecutionV1 input \<noteq> Inl (PlanActive e)"
proof -
  have "PlanIdentityExecutionV1 input \<noteq> Inl PlanPanic \<and> PlanIdentityExecutionV1 input \<noteq> Inl (PlanActive e)"
  proof (cases "ValidateIdentityPolicyCoverageV1 (xiPolicy input) (xiCandidate input) (xiGeneration input)")
    case None
    then obtain lock where lock: "xiPolicy input = Some lock"
      by (cases "xiPolicy input") (simp_all add: ValidateIdentityPolicyCoverageV1_def)
    obtain active where "activeGeometry (lkPolicy lock) (canonicalOf (xiCandidate input)) = Inr active"
      using None[unfolded lock] by (rule covered_candidate)
    then show ?thesis
      using None lock by (auto simp: PlanIdentityExecutionV1_def Let_def acceptedHistory_def partitionPlan_def
        split: option.splits sum.splits if_splits)
  qed (simp add: PlanIdentityExecutionV1_def)
  then show "PlanIdentityExecutionV1 input \<noteq> Inl PlanPanic" "PlanIdentityExecutionV1 input \<noteq> Inl (PlanActive e)" by blast+
qed

end
