(* ===== verification/IdentitySamples.thy ===== *)
theory IdentitySamples
  imports ExecutionPlanProofs IdentityGeometryProperties CanonicalSamples
begin

text \<open>
  A small identity policy with an image that satisfies it, evaluated by the validators, for the
  examples of the properties.
\<close>

section \<open>A policy\<close>

definition sampleUser :: IdentityPolicyUserV1 where
  "sampleUser = \<lparr>puUID = ''5'', puFullName = None, puPrimaryGroup = ''app'', puSupplementaryGroups = Some [''data'']\<rparr>"

definition samplePolicy :: IdentityPolicyV1 where
  "samplePolicy = \<lparr>plSchema = IdentityPolicySchemaV1, plUsers = [(''app'', sampleUser)],
     plGroups = [(''app'', ''5''), (''data'', ''7'')], plRoles = [(''main'', \<lparr>prUser = ''app'', prCapabilities = Some []\<rparr>)]\<rparr>"

lemma small_decimals: "formatUint 5 = ''5''" "formatUint 7 = ''7''" "parseUint 32 ''5'' = (5, True)" "parseUint 32 ''7'' = (7, True)"
  by (simp_all add: formatUint.simps char_of_def bit_0 parseUint_def isDigit_def)

lemma sample_policy_valid: "validatePolicy (Some samplePolicy) = None"
  by (simp add: validatePolicy_def samplePolicy_def sampleUser_def policyID_def small_decimals ValidateUserName_def isLower_def
    policyUser_def policyRole_def ValidateIdentityV1_def sortIDs_def canonicalUnsignedV1_def parseUint32_def
    credentialUnchangedSentinelV1_def isDigit_def)


section \<open>An image\<close>

definition emptyDigest :: string where
  "emptyDigest = ''sha256:'' @ hexEncode (sha256 [])"

lemma emptyDigest_valid: "validateDigest emptyDigest = None"
  by (simp only: validateDigest_def emptyDigest_def digest_grammar[OF sha256_length] sum.case)

definition sampleImage :: RealizedImageV1 where
  "sampleImage = \<lparr>riDigest = emptyDigest, riConfigDigest = emptyDigest, riRootFSSubject = emptyDigest\<rparr>"

definition linuxPlatform :: Platform where
  "linuxPlatform = \<lparr>pOS = ''linux'', pArchitecture = ''amd64'', pVariant = [], pCanonical = ''linux/amd64''\<rparr>"

lemma linuxPlatform_valid: "validatePlatform linuxPlatform = None"
  by (simp add: validatePlatform_def linuxPlatform_def platformText_def ParsePlatform_def trimSpace_plain plainText_def
    isCanonicalPlatformPart_def runes_plain Let_def)

definition policyDigest :: string where
  "policyDigest = (case Sum (policyHeap samplePolicy) ''identity-policy'' IdentityPolicySchemaV1 (PointerTo 1) of Inl _ \<Rightarrow> [] | Inr d \<Rightarrow> d)"

lemma policy_tokens: "validateIdentityToken ''kind'' ''identity-policy'' = None" "validateIdentityToken ''schema'' ''identity-policy-v1'' = None"
  by (simp_all add: validateIdentityToken_def rangeAll_def runes_plain plainText_def)

lemma sample_marshal_policy: "\<exists>bytes. Marshal (policyHeap samplePolicy) (PointerTo 1) = Inr bytes"
  by (simp add: policyHeap_def samplePolicy_def sampleUser_def policyUserValue_def policyRoleValue_def sliceAt_def marshal_eval parseJSONTag_def
    mapEntries_def IdentityPolicySchemaV1_def)

lemma sample_policy_sum: "Sum (policyHeap samplePolicy) ''identity-policy'' IdentityPolicySchemaV1 (PointerTo 1) = Inr policyDigest"
proof -
  obtain bytes where "Marshal (policyHeap samplePolicy) (PointerTo 1) = Inr bytes" using sample_marshal_policy by blast
  then have "Sum (policyHeap samplePolicy) ''identity-policy'' IdentityPolicySchemaV1 (PointerTo 1)
      = Inr (''sha256:'' @ hexEncode (sha256 (identityMessage ''identity-policy'' IdentityPolicySchemaV1 bytes)))"
    unfolding Sum_Inr IdentityPolicySchemaV1_def using policy_tokens by blast
  then show ?thesis by (simp add: policyDigest_def)
qed

lemma sample_inputs: "imageIdentityInputsV1 (Some samplePolicy) sampleImage linuxPlatform = Inr policyDigest"
proof -
  have "validateRealizedImage sampleImage = None" "pOS linuxPlatform = ''linux''"
    by (simp_all add: validateRealizedImage_def sampleImage_def emptyDigest_valid linuxPlatform_def)
  then show ?thesis
    unfolding imageIdentityInputsV1_def sample_policy_sum option.case by (simp add: sample_policy_valid linuxPlatform_valid)
qed


definition passwdText :: string where "passwdText = ''app:x:5:5::/:/bin/sh'' @ [CHR 0x0A]"
definition groupText :: string where "groupText = ''app:x:5:'' @ [CHR 0x0A] @ ''data:x:7:app'' @ [CHR 0x0A]"
definition nsswitchText :: string where "nsswitchText = ''passwd: files'' @ [CHR 0x0A] @ ''group: files'' @ [CHR 0x0A]"

definition accountFiles :: "string goMap" where
  "accountFiles = [(''etc/passwd'', passwdText), (''etc/group'', groupText), (''etc/nsswitch.conf'', nsswitchText)]"

lemma account_names: "imageAccountNameV1 ''app''" "imageAccountNameV1 ''data''" "imageAccountIDV1 ''5''" "imageAccountIDV1 ''7''"
  by (simp_all add: imageAccountNameV1_def rangeAll_def validString_plain runes_plain plainText_def hasPrefix_def imageAccountIDV1_def small_decimals)

lemma sample_accounts:
  "parseImageAccountsV1 accountFiles =
     Some ([(''app'', \<lparr>acUID = ''5'', acGID = ''5''\<rparr>)],
       [(''app'', \<lparr>igGID = ''5'', igMembers = []\<rparr>), (''data'', \<lparr>igGID = ''7'', igMembers = [''app'']\<rparr>)])"
proof -
  have p: "imageAccountLinesV1 passwdText passwdLine ([], []) = Some ([(''app'', \<lparr>acUID = ''5'', acGID = ''5''\<rparr>)], [''5''])"
    by (simp add: imageAccountLinesV1_def passwdText_def scanLines_def Let_def trimLeftSet_def separators_def hasPrefix_def
      imageIdentityLineLimitV1_def passwdLine_def account_names)
  have g: "imageAccountLinesV1 groupText (groupLine [(''app'', \<lparr>acUID = ''5'', acGID = ''5''\<rparr>)]) ([], []) =
      Some ([(''app'', \<lparr>igGID = ''5'', igMembers = []\<rparr>), (''data'', \<lparr>igGID = ''7'', igMembers = [''app'']\<rparr>)], [''7'', ''5''])"
    by (simp add: imageAccountLinesV1_def groupText_def scanLines_def Let_def trimLeftSet_def separators_def hasPrefix_def
      imageIdentityLineLimitV1_def groupLine_def account_names)
  have n: "imageAccountLinesV1 nsswitchText nsswitchLine ([], False) = Some ([''group'', ''passwd''], False)"
    by (simp add: imageAccountLinesV1_def nsswitchText_def scanLines_def Let_def trimLeftSet_def trimRightSet_def separators_def hasPrefix_def hasSuffix_def
      imageIdentityLineLimitV1_def nsswitchLine_def)
  show ?thesis by (simp add: parseImageAccountsV1_def bytesAt_def accountFiles_def p g n)
qed


definition fileEntry :: "string \<Rightarrow> ImageIdentityFileV1" where
  "fileEntry content = \<lparr>ifDigest = ''sha256:'' @ hexEncode (sha256 content), ifSize = formatUint (length content)\<rparr>"

lemma file_entry_ok:
  assumes "lookup files path = Some (fileEntry content)" "content \<noteq> []" "length content \<le> imageIdentityFileLimitV1"
  shows "evidenceFileOK files path"
proof -
  have "parseUint 32 (formatUint (length content)) = (length content, True)"
    using assms(3) by (intro parseUint_formatUint) (simp add: imageIdentityFileLimitV1_def)
  moreover have "validateDigest (''sha256:'' @ hexEncode (sha256 content)) = None"
    by (simp only: validateDigest_def digest_grammar[OF sha256_length] sum.case)
  ultimately show ?thesis
    unfolding evidenceFileOK_def assms(1) using assms(2,3) by (simp add: fileEntry_def)
qed

definition sampleEvidence :: ImageIdentityEvidenceV1 where
  "sampleEvidence = \<lparr>ieSchema = ImageIdentityEvidenceSchemaV1, ieImage = sampleImage, iePlatform = linuxPlatform, iePolicyDigest = policyDigest,
     ieFiles = [(''etc/passwd'', fileEntry passwdText), (''etc/group'', fileEntry groupText), (''etc/nsswitch.conf'', fileEntry nsswitchText)],
     ieUsers = [\<lparr>idUsername = ''app'', idUID = ''5'', idGID = ''5'', idSupplementaryGIDs = Some [''7'']\<rparr>],
     ieGroups = [(''app'', ''5''), (''data'', ''7'')]\<rparr>"

lemma sample_files_ok: "list_all (evidenceFileOK (ieFiles sampleEvidence)) imageIdentityPathsV1"
proof -
  have "length passwdText \<le> imageIdentityFileLimitV1" "length groupText \<le> imageIdentityFileLimitV1" "length nsswitchText \<le> imageIdentityFileLimitV1"
      "passwdText \<noteq> []" "groupText \<noteq> []" "nsswitchText \<noteq> []"
    by (simp_all add: passwdText_def groupText_def nsswitchText_def imageIdentityFileLimitV1_def)
  then show ?thesis
    by (auto simp: imageIdentityPathsV1_def sampleEvidence_def intro!: file_entry_ok)
qed

lemma sample_user_ok: "evidenceUsersLoop samplePolicy None (ieUsers sampleEvidence)"
  by (simp add: sampleEvidence_def evidenceUserOK_def samplePolicy_def sampleUser_def ValidateIdentityV1_def ValidateUserName_def isLower_def
    canonicalUnsignedV1_def parseUint32_def credentialUnchangedSentinelV1_def isDigit_def stringAt_def sortIDs_def)

lemma sample_evidence_valid: "ValidateImageIdentityEvidenceV1 sampleEvidence (Some samplePolicy) sampleImage linuxPlatform = None"
proof -
  have "sameMap (ieGroups sampleEvidence) (plGroups samplePolicy)" "length (ieUsers sampleEvidence) = length (plUsers samplePolicy)"
      "length (ieFiles sampleEvidence) = 3" "ieSchema sampleEvidence = ImageIdentityEvidenceSchemaV1" "ieImage sampleEvidence = sampleImage"
      "iePlatform sampleEvidence = linuxPlatform" "iePolicyDigest sampleEvidence = policyDigest"
    by (simp_all add: sampleEvidence_def samplePolicy_def sameMap_def)
  then show ?thesis
    by (simp add: ValidateImageIdentityEvidenceV1_def sample_inputs sample_files_ok sample_user_ok)
qed

lemma sample_verified: "VerifyImageIdentityFilesV1 (Some samplePolicy) sampleImage linuxPlatform accountFiles = Inr sampleEvidence"
proof -
  have files: "evidenceFiles accountFiles imageIdentityPathsV1 = Some (ieFiles sampleEvidence)"
    by (simp add: imageIdentityPathsV1_def accountFiles_def bytesAt_def sampleEvidence_def fileEntry_def Let_def passwdText_def groupText_def
      nsswitchText_def imageIdentityFileLimitV1_def)
  have evidence: "\<lparr>ieSchema = ImageIdentityEvidenceSchemaV1, ieImage = sampleImage, iePlatform = linuxPlatform, iePolicyDigest = policyDigest,
      ieFiles = ieFiles sampleEvidence, ieUsers = [\<lparr>idUsername = ''app'', idUID = ''5'', idGID = ''5'', idSupplementaryGIDs = Some [''7'']\<rparr>],
      ieGroups = [(''app'', ''5''), (''data'', ''7'')]\<rparr> = sampleEvidence" by (simp add: sampleEvidence_def)
  have "evidenceUsers [(''app'', \<lparr>acUID = ''5'', acGID = ''5''\<rparr>)]
      [(''app'', \<lparr>igGID = ''5'', igMembers = []\<rparr>), (''data'', \<lparr>igGID = ''7'', igMembers = [''app'']\<rparr>)] (plUsers samplePolicy)
      = Some [\<lparr>idUsername = ''app'', idUID = ''5'', idGID = ''5'', idSupplementaryGIDs = Some [''7'']\<rparr>]"
    by (simp add: samplePolicy_def evidenceIdentity_def sortIDs_def)
  moreover have "evidenceGroups [(''app'', \<lparr>igGID = ''5'', igMembers = []\<rparr>), (''data'', \<lparr>igGID = ''7'', igMembers = [''app'']\<rparr>)] (plGroups samplePolicy)
      = Some [(''app'', ''5''), (''data'', ''7'')]" by (simp add: samplePolicy_def)
  moreover have "length accountFiles = length imageIdentityPathsV1" by (simp add: accountFiles_def imageIdentityPathsV1_def)
  ultimately show ?thesis
    by (simp add: VerifyImageIdentityFilesV1_def sample_inputs files sample_accounts Let_def evidence sample_evidence_valid)
qed

definition lockSample :: IdentityPolicyLockV1 where
  "lockSample = \<lparr>lkSchema = IdentityPolicyLockSchemaV1, lkPolicy = samplePolicy, lkEvidence = sampleEvidence\<rparr>"

lemma sample_lock_valid: "lockValid lockSample"
proof -
  have "ieImage sampleEvidence = sampleImage" "iePlatform sampleEvidence = linuxPlatform" by (simp_all add: sampleEvidence_def)
  then show ?thesis
    by (simp add: lockValid_def ValidateIdentityPolicyLockV1_def lockSample_def sample_evidence_valid)
qed


section \<open>An execution plan\<close>

definition priorGeometry :: Geometry where
  "priorGeometry = \<lparr>gmProfile = ''exact'', gmUIDs = [sampleRange 3 3000 1], gmGIDs = [sampleRange 3 3000 1]\<rparr>"

definition nextGeometry :: Geometry where
  "nextGeometry = \<lparr>gmProfile = ''exact'', gmUIDs = [sampleRange 5 5000 1], gmGIDs = [sampleRange 5 5000 1, sampleRange 7 7000 1]\<rparr>"

definition bothGeometry :: Geometry where
  "bothGeometry = \<lparr>gmProfile = ''exact'', gmUIDs = [sampleRange 3 3000 1, sampleRange 5 5000 1],
     gmGIDs = [sampleRange 3 3000 1, sampleRange 5 5000 1, sampleRange 7 7000 1]\<rparr>"

lemmas plan_geometries = priorGeometry_def nextGeometry_def bothGeometry_def

lemma plan_geometries_valid:
  "ValidateGeometry priorGeometry = Inr priorGeometry" "ValidateGeometry nextGeometry = Inr nextGeometry" "ValidateGeometry bothGeometry = Inr bothGeometry"
  by (simp_all add: plan_geometries geometry_eval)

lemma plan_geometries_retained:
  "RetainGeometry nextGeometry (Some priorGeometry) = Inr bothGeometry" "RetainGeometry nextGeometry (Some bothGeometry) = Inr bothGeometry"
  "RetainGeometry priorGeometry (Some priorGeometry) = Inr priorGeometry"
  by (simp_all add: plan_geometries geometry_eval)

definition sampleInput :: IdentityExecutionInputV1 where
  "sampleInput = \<lparr>xiGeneration = emptyDigest, xiPolicy = Some lockSample, xiCandidate = nextGeometry, xiReservations = Some priorGeometry,
     xiAccepted = Some priorGeometry, xiRuntimeUsers = [''app''], xiRuntimeGroups = [''data'']\<rparr>"

definition sampleExecution :: IdentityExecutionPlanV1 where
  "sampleExecution = \<lparr>xpActive = nextGeometry, xpProspectiveReservations = bothGeometry, xpProspectiveAccepted = bothGeometry,
     xpDormantUIDs = [sampleRange 3 3000 1], xpDormantGIDs = [sampleRange 3 3000 1]\<rparr>"

lemma sample_declared: "declaredUIDs samplePolicy = {5}" "declaredGIDs samplePolicy = {5, 7}"
  by (simp_all add: declaredUIDs_def declaredGIDs_def samplePolicy_def sampleUser_def idNumber_def small_decimals)

lemma sample_coverage: "ValidateIdentityPolicyCoverageV1 (Some lockSample) nextGeometry emptyDigest = None"
proof -
  have "lkPolicy lockSample = samplePolicy" by (simp add: lockSample_def)
  moreover have "5 \<in> Domain (assignment (gmUIDs nextGeometry))" "5 \<in> Domain (assignment (gmGIDs nextGeometry))"
      "7 \<in> Domain (assignment (gmGIDs nextGeometry))"
    unfolding coveredBy_Domain[symmetric] by (simp_all add: coveredBy_def nextGeometry_def sampleRange_def containerEnd_def)
  moreover have "geometryOK nextGeometry" using plan_geometries_valid(2) by (simp add: ValidateGeometry_Inr)
  ultimately show ?thesis unfolding coverage_None by (simp add: sample_lock_valid emptyDigest_valid sample_declared)
qed

lemma next_active: "activeGeometry samplePolicy nextGeometry = Inr nextGeometry"
proof -
  have "projectExecutionIDsV1 (gmUIDs nextGeometry) [5] = Some (gmUIDs nextGeometry)"
      "projectExecutionIDsV1 (gmGIDs nextGeometry) [5, 7] = Some (gmGIDs nextGeometry)"
    by (simp_all add: projectExecutionIDsV1_def nextGeometry_def sampleRange_def containerEnd_def)
  moreover have "map (idNumber \<circ> puUID \<circ> snd) (plUsers samplePolicy) = [5]" "map (idNumber \<circ> snd) (plGroups samplePolicy) = [5, 7]"
    by (simp_all add: samplePolicy_def sampleUser_def idNumber_def small_decimals)
  moreover have "ValidateGeometry \<lparr>gmProfile = ''exact'', gmUIDs = gmUIDs nextGeometry, gmGIDs = gmGIDs nextGeometry\<rparr> = Inr nextGeometry"
    using plan_geometries_valid(2) by (simp add: nextGeometry_def)
  moreover have "gmProfile nextGeometry = ''exact''"
    by (simp add: nextGeometry_def)
  ultimately show ?thesis unfolding activeGeometry_def by (simp add: plan_geometries_valid Let_def)
qed

lemma sample_dormant:
  "subtractExecutionIntervalsV1 (gmUIDs bothGeometry) (gmUIDs nextGeometry) = [sampleRange 3 3000 1]"
  "subtractExecutionIntervalsV1 (gmGIDs bothGeometry) (gmGIDs nextGeometry) = [sampleRange 3 3000 1]"
  by (simp_all add: plan_geometries sampleRange_def containerEnd_def appendSpan_def Let_def)

lemma sample_execution: "PlanIdentityExecutionV1 sampleInput = Inr sampleExecution"
proof -
  have p: "partitionPlan nextGeometry bothGeometry nextGeometry (Some priorGeometry) = Inr sampleExecution"
    unfolding partitionPlan_def plan_geometries_retained sum.case by (simp add: sameExecution_eq sample_dormant sampleExecution_def)
  have a: "acceptedHistory (Some priorGeometry) (Some priorGeometry) = Inr (Some priorGeometry)"
    by (simp add: acceptedHistory_def plan_geometries_valid plan_geometries_retained sameExecution_eq canonicalOf_def)
  have "lkPolicy lockSample = samplePolicy" by (simp add: lockSample_def)
  moreover have "lookup (plUsers samplePolicy) ''app'' \<noteq> None" "lookup (plGroups samplePolicy) ''data'' \<noteq> None" by (simp_all add: samplePolicy_def)
  ultimately show ?thesis
    by (simp add: PlanIdentityExecutionV1_def sampleInput_def sample_coverage canonicalOf_def plan_geometries_valid plan_geometries_retained a
      next_active p Let_def)
qed

end
