(* ===== verification/IdentityPolicyProperties.thy ===== *)
theory IdentityPolicyProperties
  imports IdentitySamples
begin

text \<open>
  The properties of identity policies, image accounts and execution plans,
  \<open>src/internal/blueprint/identity_policy.go\<close>, \<open>src/internal/deploy/image_identity_evidence.go\<close>,
  \<open>image_identity_files.go\<close>, \<open>identity_policy_coverage.go\<close> and \<open>identity_execution_plan.go\<close>.
\<close>

text \<open>
  C23. An image whose account files were verified runs every declared user as declared. The
  account file has exactly one data line of that name; it carries the declared uid and the gid of
  the declared primary group. The group file lists the user in every declared supplementary group
  and, besides the primary group, in no other group at all.
\<close>

theorem verified_accounts:
  assumes "VerifyImageIdentityFilesV1 (Some policy) img platform files = Inr evidence" "lookup (plUsers policy) name = Some user"
  shows "(\<exists>!line. line \<in> set (dataLines (bytesAt files ''etc/passwd'')) \<and> field 0 line = name)
    \<and> (\<exists>line \<in> set (dataLines (bytesAt files ''etc/passwd'')). field 0 line = name \<and> field 2 line = puUID user
         \<and> field 3 line = stringAt (plGroups policy) (puPrimaryGroup user))
    \<and> set (elems (puSupplementaryGroups user)) \<subseteq> listedIn files name
    \<and> listedIn files name \<subseteq> insert (puPrimaryGroup user) (set (elems (puSupplementaryGroups user)))"
proof -
  from assms obtain l where l: "l \<in> set (dataLines (bytesAt files ''etc/passwd''))" "field 0 l = name" "field 2 l = puUID user"
    "field 3 l = stringAt (plGroups policy) (puPrimaryGroup user)" by (rule verified_user)
  from assms(1) obtain users groups where p: "parseImageAccountsV1 files = Some (users, groups)" by (rule evidence_parts)
  have "inj_on (field 0) (set (dataLines (bytesAt files ''etc/passwd'')))"
    using parsed_lines(3)[OF p] by (simp add: distinct_map)
  then have "\<exists>!line. line \<in> set (dataLines (bytesAt files ''etc/passwd'')) \<and> field 0 line = name"
    using l(1,2) by (intro ex1I[of _ l]) (auto dest: inj_onD)
  then show ?thesis using l verified_membership[OF assms] by blast
qed

theorem verified_accounts_witness:
  "(\<exists>line \<in> set (dataLines (bytesAt accountFiles ''etc/passwd'')). field 0 line = ''app'' \<and> field 2 line = ''5'' \<and> field 3 line = ''5'')
   \<and> ''data'' \<in> listedIn accountFiles ''app'' \<and> listedIn accountFiles ''app'' \<subseteq> {''app'', ''data''}"
proof -
  have u: "lookup (plUsers samplePolicy) ''app'' = Some sampleUser" by (simp add: samplePolicy_def)
  have "stringAt (plGroups samplePolicy) (puPrimaryGroup sampleUser) = ''5''" "puUID sampleUser = ''5''" "puPrimaryGroup sampleUser = ''app''"
      "elems (puSupplementaryGroups sampleUser) = [''data'']"
    by (simp_all add: samplePolicy_def sampleUser_def stringAt_def)
  then show ?thesis using verified_accounts[OF sample_verified u] by simp
qed

text \<open>
  C26. Coverage is decided exactly: a geometry covers the locked policy of a generation if and
  only if the generation is a digest, the lock is valid, the geometry is a mapping, and every uid
  of a declared user and every gid of a declared group is a container ID the geometry binds.
\<close>

theorem coverage_exact:
  "ValidateIdentityPolicyCoverageV1 (Some lock) g generation = None \<longleftrightarrow>
     validateDigest generation = None \<and> lockValid lock \<and> geometryOK g
     \<and> declaredUIDs (lkPolicy lock) \<subseteq> Domain (assignment (gmUIDs g)) \<and> declaredGIDs (lkPolicy lock) \<subseteq> Domain (assignment (gmGIDs g))"
  by (rule coverage_None)

text \<open>
  Subtracting sorted intervals from reservations is the set difference on container IDs:
  what is left is again a list of usable, ordered, disjoint intervals, it binds exactly the
  container IDs of the first list that no interval of the second one covers, each to the host ID
  it had, and every interval left lies within one of the first list.
\<close>

theorem subtract_exact:
  assumes "reservations from" "list_all usable remove" "sorted_wrt (\<lambda>u w. containerEnd u \<le> unat (ivContainerStart w)) remove"
  shows "reservations (subtractExecutionIntervalsV1 from remove)
    \<and> assignment (subtractExecutionIntervalsV1 from remove) = {(c, h) \<in> assignment from. c \<notin> Domain (assignment remove)}
    \<and> list_all (\<lambda>p. \<exists>v \<in> set from. pieceOf v p) (subtractExecutionIntervalsV1 from remove)"
  using subtract_spec[OF assms] by (simp add: subtracted_def without_def)

theorem subtract_exact_witness:
  "subtractExecutionIntervalsV1 [sampleRange 0 1000 10] [sampleRange 2 9 1, sampleRange 4 5 3] = [sampleRange 0 1000 2, sampleRange 3 1003 1, sampleRange 7 1007 3]
   \<and> (5, 1005) \<notin> assignment [sampleRange 0 1000 2, sampleRange 3 1003 1, sampleRange 7 1007 3]"
proof -
  have e: "subtractExecutionIntervalsV1 [sampleRange 0 1000 10] [sampleRange 2 9 1, sampleRange 4 5 3] = [sampleRange 0 1000 2, sampleRange 3 1003 1, sampleRange 7 1007 3]"
    by (simp add: sampleRange_def containerEnd_def appendSpan_def Let_def)
  have r: "reservations [sampleRange 0 1000 10]" using geometryOK_canonical(2)[OF sample_valid] by (simp add: sampleGeometry_def)
  have c: "list_all usable [sampleRange 2 9 1, sampleRange 4 5 3]" "sorted_wrt (\<lambda>u w. containerEnd u \<le> unat (ivContainerStart w)) [sampleRange 2 9 1, sampleRange 4 5 3]"
    by (simp_all add: usable_def geometry_eval)
  have "coveredBy 5 [sampleRange 2 9 1, sampleRange 4 5 3]" by (simp add: coveredBy_def sampleRange_def containerEnd_def)
  then show ?thesis using subtract_exact[OF r c] e by (simp add: coveredBy_Domain)
qed

text \<open>
  C24. An execution plan partitions identities, in the uid and in the gid domain alike. The
  active identities are those of the candidate (restricted to the declared IDs when the profile
  is exact), the prospective reservations are the old ones and the candidate, the prospective
  history is the old history and the active identities, the dormant identities are the old
  history without the active ones, the candidate brings nothing outside the prospective history,
  and the old history was reserved.
\<close>

theorem plan_partition:
  assumes "PlanIdentityExecutionV1 input = Inr plan"
  shows "planFor input plan"
  using assms by (rule plan_correct)

theorem plan_partition_witness:
  "PlanIdentityExecutionV1 sampleInput = Inr sampleExecution
   \<and> assignment (xpDormantUIDs sampleExecution) = assignment (gmUIDs priorGeometry) - assignment (gmUIDs nextGeometry)"
proof -
  have "planFor sampleInput sampleExecution" by (rule plan_partition[OF sample_execution])
  then have "assignment (xpDormantUIDs sampleExecution) = assignment (gmUIDs priorGeometry) - activeIDs ''exact'' {5} (gmUIDs nextGeometry)"
    by (auto simp: planFor_def domainPlan_def Let_def sampleInput_def lockSample_def sample_declared nextGeometry_def)
  moreover have "activeIDs ''exact'' {5} (gmUIDs nextGeometry) = assignment (gmUIDs nextGeometry)"
    by (auto simp: activeIDs_def restricted_def nextGeometry_def assigns_iff sampleRange_def containerEnd_def)
  ultimately show ?thesis using sample_execution by simp
qed

text \<open>
  C25. Planning is total: for no input does the projection run past the intervals of the
  candidate, which would be a run-time panic, and the active geometry it computes never fails
  its validation, so every refusal is one of the checks on the inputs.
\<close>

theorem plan_never_panics:
  "PlanIdentityExecutionV1 input \<noteq> Inl PlanPanic \<and> PlanIdentityExecutionV1 input \<noteq> Inl (PlanActive e)"
  using plan_total[of input] by blast

end
