(* ===== verification/MappingState.thy ===== *)
theory MappingState
  imports ExecutionPlan LiveRunQueue
begin

text \<open>
  The durable mapping authority of a deployment: the records and validators of
  \<open>src/internal/deploy/identity_mapping_state.go\<close> and \<open>identity_mapping_native_state.go\<close>, with the
  generation record of \<open>pending_build.go\<close>. A slice whose nil value the encoder distinguishes is a
  \<open>slice\<close>; a number that the state keeps as a decimal string is read at 64 bits, as the code
  reads it, and additions on it wrap.
\<close>

section \<open>Generations\<close>

record EnvironmentGenerationState =
  egReference :: string
  egImageDigest :: string
  egRootFSSubject :: string
  egBuildLockDigest :: string
  egPlatform :: Platform
  egRuntimePolicyDigest :: string

datatype generation_error =
    GenerationReference | GenerationImage canonical_error | GenerationRootFS canonical_error
  | GenerationLock canonical_error | GenerationPlatform platform_error | GenerationPolicy canonical_error

definition ValidateEnvironmentGenerationState :: "EnvironmentGenerationState \<Rightarrow> generation_error check" where
  "ValidateEnvironmentGenerationState generation =
     (if \<not> safeRecoveryIdentity (egReference generation) then Some GenerationReference
      else orElse (wrap GenerationImage (validateDigest (egImageDigest generation)))
          (orElse (wrap GenerationRootFS (validateDigest (egRootFSSubject generation)))
          (orElse (wrap GenerationLock (validateDigest (egBuildLockDigest generation)))
          (orElse (wrap GenerationPlatform (validatePlatform (egPlatform generation)))
             (wrap GenerationPolicy (validateDigest (egRuntimePolicyDigest generation)))))))"

section \<open>Records\<close>

record IdentityMappingIntervalV1 =
  wiContainerStart :: string
  wiHostStart :: string
  wiCount :: string

record IdentityMappingGeometryV1 =
  wgProfile :: string
  wgUIDs :: "IdentityMappingIntervalV1 slice"
  wgGIDs :: "IdentityMappingIntervalV1 slice"

record NativeIdentityOperationV1 =
  noActive :: IdentityMappingGeometryV1
  noEngine :: string
  noProcess :: string
  noRuntimeUsers :: "string slice"
  noRuntimeGroups :: "string slice"

record IdentityMappingOperationV1 =
  opOperationID :: string
  opKind :: string
  opExpectedRevision :: string
  opExpectedGeneration :: "EnvironmentGenerationState option"
  opCandidate :: IdentityMappingGeometryV1
  opPriorAccepted :: "EnvironmentGenerationState option"
  opOwnedObjects :: "string slice"
  opPhase :: string
  opInhibited :: bool
  opNative :: "NativeIdentityOperationV1 option"

record IdentityMappingStateV1 =
  msSchema :: string
  msInstallationID :: string
  msOwnerDir :: string
  msInstallationBinding :: "string option"
  msRevision :: string
  msOperatorUID :: string
  msOperatorGID :: string
  msProfile :: string
  msUIDAssignments :: "IdentityMappingIntervalV1 slice"
  msGIDAssignments :: "IdentityMappingIntervalV1 slice"
  msDormantUIDs :: "IdentityMappingIntervalV1 slice"
  msDormantGIDs :: "IdentityMappingIntervalV1 slice"
  msSupervisor :: "string option"
  msEngine :: "string option"
  msAdmittedGeneration :: "EnvironmentGenerationState option"
  msRetainedStorage :: "string slice"
  msRevoked :: bool
  msPendingOperation :: "IdentityMappingOperationV1 option"
  msProcessModel :: string
  msAcceptedUIDs :: "IdentityMappingIntervalV1 slice option"
  msAcceptedGIDs :: "IdentityMappingIntervalV1 slice option"
  msNativeProcess :: "string option"

definition IdentityMappingStateSchemaV1 :: string where
  "IdentityMappingStateSchemaV1 = ''identity-mapping-v1''"

definition IdentityMappingStateSchemaV2 :: string where
  "IdentityMappingStateSchemaV2 = ''identity-mapping-v2''"

definition IdentityMappingNativeProcessModelV1 :: string where
  "IdentityMappingNativeProcessModelV1 = ''native-master-v1''"

section \<open>Decimal strings\<close>

definition mappingDecimalV1 :: "string \<Rightarrow> 64 word" where
  "mappingDecimalV1 str = of_nat (fst (parseUint 64 str))"

definition validMappingDecimalV1 :: "string \<Rightarrow> nat \<Rightarrow> bool \<Rightarrow> bool" where
  "validMappingDecimalV1 str bits positive =
     (let (n, ok) = parseUint bits str
      in ok \<and> formatUint n = str \<and> (\<not> positive \<or> n > 0) \<and> (bits \<noteq> 32 \<or> n < maxUint32))"

text \<open>\<open>strconv.FormatUint(mappingDecimalV1(revision)+1, 10)\<close>\<close>

definition nextRevision :: "string \<Rightarrow> string" where
  "nextRevision revision = formatUint (unat (mappingDecimalV1 revision + 1))"

definition numericInterval :: "IdentityMappingIntervalV1 \<Rightarrow> Interval" where
  "numericInterval v =
     \<lparr>ivContainerStart = ucast (mappingDecimalV1 (wiContainerStart v)), ivHostStart = ucast (mappingDecimalV1 (wiHostStart v)),
      ivCount = ucast (mappingDecimalV1 (wiCount v))\<rparr>"

definition numeric :: "IdentityMappingGeometryV1 \<Rightarrow> Geometry" where
  "numeric g = \<lparr>gmProfile = wgProfile g, gmUIDs = map numericInterval (elems (wgUIDs g)), gmGIDs = map numericInterval (elems (wgGIDs g))\<rparr>"

definition wireInterval :: "Interval \<Rightarrow> IdentityMappingIntervalV1" where
  "wireInterval v =
     \<lparr>wiContainerStart = formatUint (unat (ivContainerStart v)), wiHostStart = formatUint (unat (ivHostStart v)),
      wiCount = formatUint (unat (ivCount v))\<rparr>"

text \<open>A slice that is only appended to stays nil when nothing is appended.\<close>

definition appended :: "'a list \<Rightarrow> 'a slice" where
  "appended xs = (if xs = [] then None else Some xs)"

definition mappingGeometryStateV1 :: "Geometry \<Rightarrow> IdentityMappingGeometryV1" where
  "mappingGeometryStateV1 geometry =
     \<lparr>wgProfile = gmProfile geometry, wgUIDs = appended (map wireInterval (gmUIDs geometry)), wgGIDs = appended (map wireInterval (gmGIDs geometry))\<rparr>"

section \<open>Validation\<close>

datatype mapping_error =
    MappingSchema | MappingOwnerDir | MappingOperator | MappingProfile | MappingAuthority | MappingStagedBinding
  | MappingInstalledBinding | MappingDomains | MappingDecimal | MappingGeometry "geometry_error option" | MappingBinding
  | MappingAdmitted generation_error | MappingAdmissionIncomplete | MappingDormantUnadmitted | MappingDormantForeign
  | MappingHandles | MappingPendingAuthority | MappingPendingProfile | MappingPendingRetain geometry_error
  | MappingPendingGeneration generation_error | MappingLegacyNative | MappingNativeModel | MappingNativeDomains
  | MappingEmptyAccepted | MappingNativeProvenance | MappingNativeActive | MappingNativeOperation | MappingNativeSubset
  | MappingRelease | MappingReleaseActive

definition decimalInterval :: "IdentityMappingIntervalV1 \<Rightarrow> bool" where
  "decimalInterval v \<longleftrightarrow> validMappingDecimalV1 (wiContainerStart v) 32 False \<and> validMappingDecimalV1 (wiHostStart v) 32 False
     \<and> validMappingDecimalV1 (wiCount v) 64 True \<and> \<not> unat (mappingDecimalV1 (wiCount v)) > maxUint32"

definition requireCanonicalMappingGeometryV1 :: "IdentityMappingGeometryV1 \<Rightarrow> mapping_error check" where
  "requireCanonicalMappingGeometryV1 g =
     (if \<not> list_all decimalInterval (elems (wgUIDs g)) \<or> \<not> list_all decimalInterval (elems (wgGIDs g)) then Some MappingDecimal
      else case ValidateGeometry (numeric g) of
        Inl e \<Rightarrow> Some (MappingGeometry (Some e))
      | Inr checked \<Rightarrow> if checked \<noteq> numeric g then Some (MappingGeometry None) else None)"

definition handlesOK :: "string list \<Rightarrow> bool" where
  "handlesOK handles \<longleftrightarrow> list_all safeRecoveryIdentity handles \<and> increasing (\<lambda>h. h) None handles"

definition validateMappingHandlesV1 :: "string slice \<Rightarrow> mapping_error check" where
  "validateMappingHandlesV1 handles = (if handlesOK (elems handles) then None else Some MappingHandles)"

definition geometry :: "IdentityMappingStateV1 \<Rightarrow> IdentityMappingGeometryV1" where
  "geometry m = \<lparr>wgProfile = msProfile m, wgUIDs = msUIDAssignments m, wgGIDs = msGIDAssignments m\<rparr>"

text \<open>\<open>if len(m.UIDAssignments) != 0 { protected = &m.geometry().numeric() }\<close>\<close>

definition protected :: "IdentityMappingStateV1 \<Rightarrow> Geometry option" where
  "protected m = (if elems (msUIDAssignments m) = [] then None else Some (numeric (geometry m)))"

definition acceptedGeometry :: "IdentityMappingStateV1 \<Rightarrow> Geometry option" where
  "acceptedGeometry m =
     (case (msAcceptedUIDs m, msAcceptedGIDs m) of
        (Some uids, Some gids) \<Rightarrow>
          (if elems uids = [] then None else Some (numeric \<lparr>wgProfile = msProfile m, wgUIDs = uids, wgGIDs = gids\<rparr>))
      | _ \<Rightarrow> None)"

definition containedIn :: "IdentityMappingIntervalV1 \<Rightarrow> IdentityMappingIntervalV1 \<Rightarrow> bool" where
  "containedIn v old \<longleftrightarrow>
     (let c = mappingDecimalV1 (wiContainerStart v); n = mappingDecimalV1 (wiCount v); h = mappingDecimalV1 (wiHostStart v);
          oc = mappingDecimalV1 (wiContainerStart old); on = mappingDecimalV1 (wiCount old); oh = mappingDecimalV1 (wiHostStart old)
      in c \<ge> oc \<and> c + n \<le> oc + on \<and> h - c = oh - oc)"

text \<open>One iteration of the loop over the two dormant lists.\<close>

definition validateDormant :: "IdentityMappingStateV1 \<Rightarrow> IdentityMappingIntervalV1 slice \<Rightarrow> IdentityMappingIntervalV1 slice \<Rightarrow>
    IdentityMappingIntervalV1 slice option \<Rightarrow> mapping_error check" where
  "validateDormant m dormant assignments accepted =
     (if elems dormant = [] then None
      else if msAdmittedGeneration m = None then Some MappingDormantUnadmitted
      else orElse (requireCanonicalMappingGeometryV1 \<lparr>wgProfile = ''exact'', wgUIDs = dormant, wgGIDs = dormant\<rparr>)
        (let associations =
               (case accepted of
                  Some intervals \<Rightarrow>
                    (if msSchema m = IdentityMappingStateSchemaV2 \<and> msAcceptedUIDs m \<noteq> None \<and> msAcceptedGIDs m \<noteq> None
                     then elems intervals else elems assignments)
                | None \<Rightarrow> elems assignments)
         in if list_all (\<lambda>v. list_ex (containedIn v) associations) (elems dormant) then None else Some MappingDormantForeign))"

definition optionalGeneration :: "(generation_error \<Rightarrow> mapping_error) \<Rightarrow> EnvironmentGenerationState option \<Rightarrow> mapping_error check" where
  "optionalGeneration f pointer = (case pointer of None \<Rightarrow> None | Some g \<Rightarrow> wrap f (ValidateEnvironmentGenerationState g))"

definition validatePending :: "IdentityMappingStateV1 \<Rightarrow> IdentityMappingOperationV1 \<Rightarrow> mapping_error check" where
  "validatePending m pending =
     (let nativeRelease = (msSchema m = IdentityMappingStateSchemaV2 \<and> opKind pending = ''native-execute'' \<and> opPhase pending = ''release-attempted'')
      in if \<not> safeRecoveryIdentity (opOperationID pending) \<or> \<not> safeRecoveryIdentity (opKind pending) \<or> \<not> opInhibited pending
            \<or> \<not> validMappingDecimalV1 (opExpectedRevision pending) 64 True
            \<or> mappingDecimalV1 (opExpectedRevision pending) > mappingDecimalV1 (msRevision m)
            \<or> (opPhase pending \<noteq> ''intent'' \<and> opPhase pending \<noteq> ''effects-pending'' \<and> opPhase pending \<noteq> ''verified'' \<and> \<not> nativeRelease)
         then Some MappingPendingAuthority
         else if wgProfile (opCandidate pending) \<noteq> msProfile m then Some MappingPendingProfile
         else orElse (requireCanonicalMappingGeometryV1 (opCandidate pending))
             (orElse (case protected m of
                        None \<Rightarrow> None
                      | Some p \<Rightarrow> (case RetainGeometry (numeric (opCandidate pending)) (Some p) of
                                     Inl e \<Rightarrow> Some (MappingPendingRetain e) | Inr _ \<Rightarrow> None))
             (orElse (optionalGeneration MappingPendingGeneration (opExpectedGeneration pending))
             (orElse (optionalGeneration MappingPendingGeneration (opPriorAccepted pending))
                (validateMappingHandlesV1 (opOwnedObjects pending))))))"

text \<open>The active geometry of an admission: the accepted intervals without the dormant ones.\<close>

definition admittedActive :: "IdentityMappingStateV1 \<Rightarrow> Geometry \<Rightarrow> Geometry" where
  "admittedActive m accepted =
     \<lparr>gmProfile = msProfile m,
      gmUIDs = subtractExecutionIntervalsV1 (gmUIDs accepted) (map numericInterval (elems (msDormantUIDs m))),
      gmGIDs = subtractExecutionIntervalsV1 (gmGIDs accepted) (map numericInterval (elems (msDormantGIDs m)))\<rparr>"

definition dormantCount :: "IdentityMappingStateV1 \<Rightarrow> nat" where
  "dormantCount m = length (elems (msDormantUIDs m)) + length (elems (msDormantGIDs m))"

definition validateProvenance :: "IdentityMappingStateV1 \<Rightarrow> IdentityMappingIntervalV1 slice \<Rightarrow> IdentityMappingIntervalV1 slice \<Rightarrow> mapping_error check" where
  "validateProvenance m uids gids =
     (case acceptedGeometry m of
        None \<Rightarrow>
          (if msAdmittedGeneration m \<noteq> None \<or> msEngine m \<noteq> None \<or> msNativeProcess m \<noteq> None \<or> dormantCount m \<noteq> 0
           then Some MappingEmptyAccepted else None)
      | Some accepted \<Rightarrow>
          orElse (requireCanonicalMappingGeometryV1 \<lparr>wgProfile = msProfile m, wgUIDs = uids, wgGIDs = gids\<rparr>)
            (let reserved = numeric (geometry m)
             in case RetainGeometry accepted (Some reserved) of
                  Inl e \<Rightarrow> Some MappingNativeProvenance
                | Inr both \<Rightarrow>
                    if \<not> sameExecutionGeometryV1 both reserved \<or> msAdmittedGeneration m = None
                       \<or> (case msNativeProcess m of None \<Rightarrow> True | Some p \<Rightarrow> \<not> safeRecoveryIdentity p)
                    then Some MappingNativeProvenance
                    else case ValidateGeometry (admittedActive m accepted) of
                      Inl e \<Rightarrow> Some MappingNativeActive
                    | Inr _ \<Rightarrow>
                        if msProfile m = ''bounded'' \<and> (dormantCount m \<noteq> 0 \<or> \<not> sameExecutionGeometryV1 accepted reserved)
                        then Some MappingNativeActive else None))"

definition validateNativeOperation :: "IdentityMappingStateV1 \<Rightarrow> IdentityMappingOperationV1 \<Rightarrow> mapping_error check" where
  "validateNativeOperation m p =
     (case opNative p of
        None \<Rightarrow> (if opKind p = ''configure'' then None else Some MappingNativeOperation)
      | Some native \<Rightarrow>
          if opKind p \<noteq> ''native-execute'' \<or> opExpectedGeneration p = None \<or> opExpectedRevision p \<noteq> msRevision m
             \<or> \<not> safeRecoveryIdentity (noEngine native) \<or> \<not> safeRecoveryIdentity (noProcess native) \<or> opPhase p = ''verified''
          then Some MappingNativeOperation
          else orElse (requireCanonicalMappingGeometryV1 (noActive native))
            (case RetainGeometry (numeric (noActive native)) (Some (numeric (opCandidate p))) of
               Inl e \<Rightarrow> Some MappingNativeSubset
             | Inr both \<Rightarrow>
                 if \<not> sameExecutionGeometryV1 both (numeric (opCandidate p)) then Some MappingNativeSubset
                 else if opPhase p = ''release-attempted'' then
                   (case acceptedGeometry m of
                      None \<Rightarrow> Some MappingRelease
                    | Some accepted \<Rightarrow>
                        if msAdmittedGeneration m \<noteq> opExpectedGeneration p \<or> msEngine m \<noteq> Some (noEngine native)
                           \<or> msNativeProcess m \<noteq> Some (noProcess native)
                        then Some MappingRelease
                        else if \<not> sameExecutionGeometryV1 (admittedActive m accepted) (numeric (noActive native))
                        then Some MappingReleaseActive else None)
                 else None))"

definition validateNativeMappingStateV1 :: "IdentityMappingStateV1 \<Rightarrow> mapping_error check" where
  "validateNativeMappingStateV1 m =
     (if msSchema m = IdentityMappingStateSchemaV1 then
        (if msProcessModel m \<noteq> [] \<or> msAcceptedUIDs m \<noteq> None \<or> msAcceptedGIDs m \<noteq> None \<or> msNativeProcess m \<noteq> None
            \<or> (case msPendingOperation m of None \<Rightarrow> False | Some p \<Rightarrow> opNative p \<noteq> None \<or> opKind p = ''native-execute'')
         then Some MappingLegacyNative else None)
      else case (msAcceptedUIDs m, msAcceptedGIDs m) of
        (Some (Some uids), Some (Some gids)) \<Rightarrow>
          (if msProcessModel m \<noteq> IdentityMappingNativeProcessModelV1 \<or> msSupervisor m \<noteq> None then Some MappingNativeModel
           else if (uids = []) \<noteq> (gids = []) then Some MappingNativeDomains
           else orElse (validateProvenance m (Some uids) (Some gids))
             (case msPendingOperation m of None \<Rightarrow> None | Some p \<Rightarrow> validateNativeOperation m p))
      | _ \<Rightarrow> Some MappingNativeModel)"

end
