(* ===== verification/DeployState.thy ===== *)
theory DeployState
  imports MappingState
begin

text \<open>
  The deployment state file: the records and validators of \<open>src/internal/deploy/state_v1.go\<close> and
  \<open>deployment_state_v1.go\<close>, the mapping part of them (\<open>identity_mapping_state.go\<close>), and the
  operations that replace the file under the operation lock (\<open>state_v1_file.go\<close>,
  \<open>deployment_state_v1.go\<close>, \<open>identity_mapping_state_file.go\<close>).

  Resolved documents and request overlays belong to other packages: their types are parameters
  of the state, and what the code asks of them (decoding, digest, overlay check) is in the
  record \<open>stateEnv\<close> together with the outcomes of the file system and of the lock (and the copy
  of a mapping through \<open>encoding/json\<close>, which fails or returns the copy). The file
  is the state it holds: \<open>DecodeStateV1\<close> accepts only the canonical encoding of a valid state, so
  the model keeps the state and validates it on every read. A replacement may fail before the
  rename, when the old file stays, or after it, when the new one is there although an error is
  reported.
\<close>

section \<open>Records\<close>

record InstallationPortBindingV1 =
  pbName :: string
  pbHostBind :: string
  pbHostPort :: string
  pbContainerPort :: string

record InstallationStateV1 =
  inSchema :: string
  inStatus :: string
  inTargetDir :: string
  inScope :: string
  inService :: string
  inUnitPath :: string
  inInstanceID :: string
  inComposeProject :: string
  inContainerName :: string
  inNetworkName :: string
  inPorts :: "InstallationPortBindingV1 slice"

record DeploymentStateV1 =
  dsSchema :: string
  dsInstallation :: InstallationStateV1

record StagingStateV1 =
  sgSchema :: string

record ('doc, 'ovl) StateV1 =
  stSchema :: string
  stBlueprint :: 'doc
  stBlueprintSource :: string
  stPlatform :: Platform
  stOverlay :: 'ovl
  stCurrent :: "EnvironmentGenerationState option"
  stStaging :: "StagingStateV1 option"
  stDeployment :: "DeploymentStateV1 option"
  stTerminalRemoval :: bool
  stIdentityMapping :: "IdentityMappingStateV1 option"

text \<open>What the code reads of a decoded document.\<close>

record DocumentView =
  dvPlatforms :: "Platform list"
  dvIdentityMapping :: bool
  dvIdentityPolicy :: "IdentityPolicyV1 option"

datatype write_outcome = Replaced | KeptOld | ReplacedUnsynced

record ('doc, 'ovl) stateEnv =
  decodeDocument :: "'doc \<Rightarrow> DocumentView option"
  documentDigest :: "'doc \<Rightarrow> string option"
  overlayOK :: "'ovl \<Rightarrow> bool"
  marshalOK :: "('doc, 'ovl) StateV1 \<Rightarrow> bool"
  jsonDetach :: "IdentityMappingStateV1 \<Rightarrow> IdentityMappingStateV1 option"
  lockNil :: bool
  lockHeld :: "nat \<Rightarrow> bool"
  lockWritable :: "nat \<Rightarrow> bool"
  readFails :: "nat \<Rightarrow> bool"
  ownerDirectory :: "string option"
  selectedDirectory :: string
  randomBytes :: "string option"
  writeOutcome :: "nat \<Rightarrow> write_outcome"

text \<open>
  The functions of a \<open>nat\<close> give the outcome of each check or write of one operation by its
  position in the code, so that a lock lost in the middle of an operation is a behaviour of the
  model.
\<close>

section \<open>Validation\<close>

definition StateSchemaV1 :: string where "StateSchemaV1 = ''state-v1''"
definition StagingStateSchemaV1 :: string where "StagingStateSchemaV1 = ''staging-v1''"
definition DeploymentStateSchemaV1 :: string where "DeploymentStateSchemaV1 = ''deployment-v1''"
definition InstallationSchemaV1 :: string where "InstallationSchemaV1 = ''installation-v1''"
definition InstallationStatusConfiguring :: string where "InstallationStatusConfiguring = ''configuring''"
definition InstallationStatusReady :: string where "InstallationStatusReady = ''ready''"

datatype state_error =
    StateSchema | StateTerminal | StateBlueprint | StatePlatform platform_error | StateOverlay | StateStagingSource
  | StateStaging | StateBoth | StateCurrent generation_error | DeploymentSchema | InstallationSchema | InstallationStatus
  | InstallationTarget | InstallationScope | InstallationText string | InstallationUnit | InstallationPorts
  | InstallationPort nat | InstallationPortRange string | InstallationPortOrder | StateMapping mapping_error

definition validInstallationPort :: "string \<Rightarrow> bool" where
  "validInstallationPort str \<longleftrightarrow> (let (port, ok) = parseUint 16 str in ok \<and> port \<noteq> 0 \<and> formatUint port = str)"

fun portsLoop :: "nat \<Rightarrow> string option \<Rightarrow> InstallationPortBindingV1 list \<Rightarrow> state_error check" where
  "portsLoop index previous [] = None"
| "portsLoop index previous (port # ports) =
     (if \<not> safeRecoveryIdentity (pbName port) \<or> \<not> safeRecoveryIdentity (pbHostBind port)
         \<or> \<not> safeRecoveryIdentity (pbHostPort port) \<or> \<not> safeRecoveryIdentity (pbContainerPort port) then Some (InstallationPort index)
      else if \<not> validInstallationPort (pbHostPort port) \<or> \<not> validInstallationPort (pbContainerPort port)
      then Some (InstallationPortRange (pbName port))
      else if (case previous of None \<Rightarrow> False | Some p \<Rightarrow> p \<ge> pbName port) then Some InstallationPortOrder
      else portsLoop (Suc index) (Some (pbName port)) ports)"

definition ValidateInstallationStateV1 :: "InstallationStateV1 \<Rightarrow> state_error check" where
  "ValidateInstallationStateV1 state =
     (if inSchema state \<noteq> InstallationSchemaV1 then Some InstallationSchema
      else if inStatus state \<noteq> InstallationStatusConfiguring \<and> inStatus state \<noteq> InstallationStatusReady then Some InstallationStatus
      else if \<not> cleanAbsolute (inTargetDir state) then Some InstallationTarget
      else if inScope state \<noteq> ''user'' \<and> inScope state \<noteq> ''system'' then Some InstallationScope
      else orElse (firstErr (\<lambda>_ (name, str). if safeRecoveryIdentity str then None else Some (InstallationText name)) 0
             [(''service'', inService state), (''instance ID'', inInstanceID state), (''Compose project'', inComposeProject state),
              (''container name'', inContainerName state), (''network name'', inNetworkName state)])
        (if inUnitPath state \<noteq> [] \<and> \<not> cleanAbsolute (inUnitPath state) then Some InstallationUnit
         else case inPorts state of None \<Rightarrow> Some InstallationPorts | Some ports \<Rightarrow> portsLoop 0 None ports))"

definition ValidateDeploymentStateV1 :: "DeploymentStateV1 \<Rightarrow> state_error check" where
  "ValidateDeploymentStateV1 state =
     (if dsSchema state \<noteq> DeploymentStateSchemaV1 then Some DeploymentSchema else ValidateInstallationStateV1 (dsInstallation state))"

definition ValidateStagingStateV1 :: "StagingStateV1 \<Rightarrow> state_error check" where
  "ValidateStagingStateV1 state = (if sgSchema state \<noteq> StagingStateSchemaV1 then Some StateStaging else None)"

definition bindingOK :: "string option \<Rightarrow> bool" where
  "bindingOK pointer = (case pointer of None \<Rightarrow> True | Some binding \<Rightarrow> safeRecoveryIdentity binding)"

definition validateAdmission :: "IdentityMappingStateV1 \<Rightarrow> mapping_error check" where
  "validateAdmission m =
     (case msAdmittedGeneration m of
        None \<Rightarrow> None
      | Some generation \<Rightarrow>
          orElse (wrap MappingAdmitted (ValidateEnvironmentGenerationState generation))
            (if elems (msUIDAssignments m) = [] \<or> msSchema m = IdentityMappingStateSchemaV1 \<and> msSupervisor m = None \<or> msEngine m = None
             then Some MappingAdmissionIncomplete else None))"

text \<open>The whole of \<open>validateIdentityMappingStateV1\<close> for a state that has a mapping.\<close>

definition validateMapping :: "StagingStateV1 option \<Rightarrow> DeploymentStateV1 option \<Rightarrow> IdentityMappingStateV1 \<Rightarrow> mapping_error check" where
  "validateMapping staging deployment m =
     (if (msSchema m \<noteq> IdentityMappingStateSchemaV1 \<and> msSchema m \<noteq> IdentityMappingStateSchemaV2)
         \<or> \<not> safeRecoveryIdentity (msInstallationID m) \<or> \<not> validMappingDecimalV1 (msRevision m) 64 True then Some MappingSchema
      else if \<not> isAbs (msOwnerDir m) \<or> cleanPath (msOwnerDir m) \<noteq> msOwnerDir m \<or> \<not> safeRecoveryIdentity (msOwnerDir m) then Some MappingOwnerDir
      else if \<not> validMappingDecimalV1 (msOperatorUID m) 32 True \<or> \<not> validMappingDecimalV1 (msOperatorGID m) 32 True then Some MappingOperator
      else if msProfile m \<noteq> ''exact'' \<and> msProfile m \<noteq> ''bounded'' then Some MappingProfile
      else if staging = None \<and> deployment = None then Some MappingAuthority
      else orElse (case deployment of
               None \<Rightarrow> (if msInstallationBinding m \<noteq> None then Some MappingStagedBinding else None)
             | Some d \<Rightarrow> (if msInstallationBinding m \<noteq> Some (inInstanceID (dsInstallation d)) then Some MappingInstalledBinding else None))
        (if (elems (msUIDAssignments m) = []) \<noteq> (elems (msGIDAssignments m) = []) then Some MappingDomains
         else orElse (if elems (msUIDAssignments m) \<noteq> [] then requireCanonicalMappingGeometryV1 (geometry m) else None)
             (if \<not> bindingOK (msSupervisor m) \<or> \<not> bindingOK (msEngine m) then Some MappingBinding
              else orElse (validateAdmission m)
                  (orElse (validateDormant m (msDormantUIDs m) (msUIDAssignments m) (msAcceptedUIDs m))
                  (orElse (validateDormant m (msDormantGIDs m) (msGIDAssignments m) (msAcceptedGIDs m))
                  (orElse (validateMappingHandlesV1 (msRetainedStorage m))
                  (orElse (case msPendingOperation m of None \<Rightarrow> None | Some p \<Rightarrow> validatePending m p)
                     (validateNativeMappingStateV1 m))))))))"

definition validateIdentityMappingStateV1 :: "('doc, 'ovl) StateV1 \<Rightarrow> mapping_error check" where
  "validateIdentityMappingStateV1 state =
     (case stIdentityMapping state of None \<Rightarrow> None | Some m \<Rightarrow> validateMapping (stStaging state) (stDeployment state) m)"

definition ValidateStateV1 :: "('doc, 'ovl) stateEnv \<Rightarrow> ('doc, 'ovl) StateV1 \<Rightarrow> state_error check" where
  "ValidateStateV1 env state =
     (if stSchema state \<noteq> StateSchemaV1 then Some StateSchema
      else if stTerminalRemoval state \<and> stStaging state = None \<and> stDeployment state = None then Some StateTerminal
      else case decodeDocument env (stBlueprint state) of
        None \<Rightarrow> Some StateBlueprint
      | Some document \<Rightarrow>
          orElse (wrap StatePlatform (ValidateSelectedPlatform (dvPlatforms document) (stPlatform state)))
          (if \<not> overlayOK env (stOverlay state) then Some StateOverlay
           else orElse (case stStaging state of
                          None \<Rightarrow> None
                        | Some staging \<Rightarrow>
                            if stBlueprintSource state = [] then Some StateStagingSource
                            else orElse (ValidateStagingStateV1 staging) (if stDeployment state \<noteq> None then Some StateBoth else None))
               (orElse (case stCurrent state of None \<Rightarrow> None | Some g \<Rightarrow> wrap StateCurrent (ValidateEnvironmentGenerationState g))
               (orElse (case stDeployment state of None \<Rightarrow> None | Some d \<Rightarrow> ValidateDeploymentStateV1 d)
                  (wrap StateMapping (validateIdentityMappingStateV1 state))))))"

section \<open>Reading and writing\<close>

datatype file_error =
    LockRequired | NotHeld | NotWritable | ReadFailed | ReadInvalid state_error | OwnerUnresolved | OwnerForeign
  | EncodeInvalid state_error | EncodeFailed | WriteFailed | GenerationChanged | IdentityChanged | PendingBlocks
  | InstallationInvalid state_error | InstallationRequired | TargetForeign | FactsChanged | StatusNotReady
  | SourceInvalid state_error | SourceUnbuilt | SourceMapped | DestinationMapped | SourceDeployed | DestinationGeneration generation_error
  | DestinationReference | DestinationPolicy | FirstMappingOwner | FirstMappingAuthority | RandomFailed random_error
  | OwnerChanged | TransitionUnchecked | UninstallPending | StagingInvalid state_error | DetachFailed

definition EncodeStateV1 :: "('doc, 'ovl) stateEnv \<Rightarrow> ('doc, 'ovl) StateV1 \<Rightarrow> file_error check" where
  "EncodeStateV1 env state =
     (case ValidateStateV1 env state of
        Some e \<Rightarrow> Some (EncodeInvalid e)
      | None \<Rightarrow> if marshalOK env state then None else Some EncodeFailed)"

definition validateMappingOwnerPathV1 :: "('doc, 'ovl) stateEnv \<Rightarrow> ('doc, 'ovl) StateV1 \<Rightarrow> file_error check" where
  "validateMappingOwnerPathV1 env state =
     (case stIdentityMapping state of
        None \<Rightarrow> None
      | Some m \<Rightarrow>
          (case ownerDirectory env of
             None \<Rightarrow> Some OwnerUnresolved
           | Some owner \<Rightarrow> if owner \<noteq> msOwnerDir m then Some OwnerForeign else None))"

text \<open>The state file; \<^const>\<open>None\<close> is a missing file, as a result it is \<open>found = false\<close>.\<close>

type_synonym ('doc, 'ovl) disk = "('doc, 'ovl) StateV1 option"

definition readStateV1Path :: "('doc, 'ovl) stateEnv \<Rightarrow> nat \<Rightarrow> ('doc, 'ovl) disk \<Rightarrow> file_error + ('doc, 'ovl) disk" where
  "readStateV1Path env k disk =
     (if readFails env k then Inl ReadFailed
      else case disk of
        None \<Rightarrow> Inr None
      | Some state \<Rightarrow>
          (case ValidateStateV1 env state of
             Some e \<Rightarrow> Inl (ReadInvalid e)
           | None \<Rightarrow> (case validateMappingOwnerPathV1 env state of Some e \<Rightarrow> Inl e | None \<Rightarrow> Inr (Some state))))"

definition ReadStateV1 :: "('doc, 'ovl) stateEnv \<Rightarrow> nat \<Rightarrow> ('doc, 'ovl) disk \<Rightarrow> file_error + ('doc, 'ovl) disk" where
  "ReadStateV1 env k disk =
     (if lockNil env then Inl LockRequired else if \<not> lockHeld env k then Inl NotHeld else readStateV1Path env k disk)"

definition writeStateFile :: "('doc, 'ovl) stateEnv \<Rightarrow> nat \<Rightarrow> ('doc, 'ovl) StateV1 \<Rightarrow> ('doc, 'ovl) disk \<Rightarrow> file_error check \<times> ('doc, 'ovl) disk" where
  "writeStateFile env k state disk =
     (case writeOutcome env k of
        Replaced \<Rightarrow> (None, Some state)
      | KeptOld \<Rightarrow> (Some WriteFailed, disk)
      | ReplacedUnsynced \<Rightarrow> (Some WriteFailed, Some state))"

definition compareIdentityObservationV1 :: "IdentityMappingStateV1 option \<Rightarrow> IdentityMappingStateV1 option list \<Rightarrow> bool" where
  "compareIdentityObservationV1 actual expected \<longleftrightarrow>
     \<not> (length expected > 1 \<or> length expected = 0 \<and> actual \<noteq> None \<or> length expected = 1 \<and> actual \<noteq> hd expected)"

definition writeInstalledStateV1 :: "('doc, 'ovl) stateEnv \<Rightarrow> ('doc, 'ovl) StateV1 \<Rightarrow> ('doc, 'ovl) disk \<Rightarrow> file_error check \<times> ('doc, 'ovl) disk" where
  "writeInstalledStateV1 env state disk =
     (case validateMappingOwnerPathV1 env state of
        Some e \<Rightarrow> (Some e, disk)
      | None \<Rightarrow> (case EncodeStateV1 env state of Some e \<Rightarrow> (Some e, disk) | None \<Rightarrow> writeStateFile env 0 state disk))"

text \<open>
  The common beginning of the operations on the file: the lock, that it is writable and held,
  and the state on disk.
\<close>

definition openState :: "('doc, 'ovl) stateEnv \<Rightarrow> ('doc, 'ovl) disk \<Rightarrow> file_error + ('doc, 'ovl) disk" where
  "openState env disk =
     (if \<not> lockWritable env 0 then Inl NotWritable else if \<not> lockHeld env 0 then Inl NotHeld else readStateV1Path env 0 disk)"

section \<open>Operations\<close>

definition CommitStateV1 :: "('doc, 'ovl) stateEnv \<Rightarrow> EnvironmentGenerationState option \<Rightarrow> ('doc, 'ovl) StateV1 \<Rightarrow> ('doc, 'ovl) disk \<Rightarrow>
    file_error check \<times> ('doc, 'ovl) disk" where
  "CommitStateV1 env expected state disk =
     (if lockNil env then (Some LockRequired, disk)
      else case openState env disk of
        Inl e \<Rightarrow> (Some e, disk)
      | Inr found \<Rightarrow>
          (let observed = (case found of None \<Rightarrow> None | Some current \<Rightarrow> stCurrent current);
               mapping = (case found of None \<Rightarrow> None | Some current \<Rightarrow> stIdentityMapping current)
           in if observed \<noteq> expected then (Some GenerationChanged, disk)
              else if mapping \<noteq> stIdentityMapping state then (Some IdentityChanged, disk)
              else if (case mapping of None \<Rightarrow> False | Some m \<Rightarrow> msPendingOperation m \<noteq> None \<and> observed \<noteq> stCurrent state)
              then (Some PendingBlocks, disk)
              else case validateMappingOwnerPathV1 env state of
                Some e \<Rightarrow> (Some e, disk)
              | None \<Rightarrow> (case EncodeStateV1 env state of Some e \<Rightarrow> (Some e, disk) | None \<Rightarrow> writeStateFile env 0 state disk)))"

type_synonym ('doc, 'ovl) outcome = "(file_error + ('doc, 'ovl) StateV1 \<times> bool) \<times> ('doc, 'ovl) disk"

text \<open>\<open>if err := writeInstalledStateV1(path, state); err != nil { return ... }; return state, true, nil\<close>\<close>

definition publishInstalled :: "('doc, 'ovl) stateEnv \<Rightarrow> ('doc, 'ovl) StateV1 \<Rightarrow> ('doc, 'ovl) disk \<Rightarrow> ('doc, 'ovl) outcome" where
  "publishInstalled env state disk =
     (case writeInstalledStateV1 env state disk of
        (Some e, disk') \<Rightarrow> (Inl e, disk')
      | (None, disk') \<Rightarrow> (Inr (state, True), disk'))"

definition MarkInstallationReadyV1 :: "('doc, 'ovl) stateEnv \<Rightarrow> InstallationStateV1 \<Rightarrow> IdentityMappingStateV1 option list \<Rightarrow>
    ('doc, 'ovl) disk \<Rightarrow> ('doc, 'ovl) outcome" where
  "MarkInstallationReadyV1 env ready expectedMapping disk =
     (if lockNil env then (Inl LockRequired, disk)
      else case ValidateInstallationStateV1 ready of
        Some e \<Rightarrow> (Inl (InstallationInvalid e), disk)
      | None \<Rightarrow>
          if inStatus ready \<noteq> InstallationStatusReady then (Inl StatusNotReady, disk)
          else case openState env disk of
            Inl e \<Rightarrow> (Inl e, disk)
          | Inr None \<Rightarrow> (Inl InstallationRequired, disk)
          | Inr (Some state) \<Rightarrow>
              (case (stCurrent state, stDeployment state) of
                 (Some _, Some deployment) \<Rightarrow>
                   if \<not> compareIdentityObservationV1 (stIdentityMapping state) expectedMapping then (Inl IdentityChanged, disk)
                   else if inTargetDir ready \<noteq> selectedDirectory env then (Inl TargetForeign, disk)
                   else if dsInstallation deployment = ready then (Inr (state, False), disk)
                   else if dsInstallation deployment \<noteq> ready\<lparr>inStatus := InstallationStatusConfiguring\<rparr> then (Inl FactsChanged, disk)
                   else publishInstalled env
                     (state\<lparr>stDeployment := Some \<lparr>dsSchema = DeploymentStateSchemaV1, dsInstallation = ready\<rparr>\<rparr>) disk
               | _ \<Rightarrow> (Inl InstallationRequired, disk)))"

definition SetInstallationStateV1 :: "('doc, 'ovl) stateEnv \<Rightarrow> InstallationStateV1 \<Rightarrow> IdentityMappingStateV1 option list \<Rightarrow>
    ('doc, 'ovl) disk \<Rightarrow> ('doc, 'ovl) outcome" where
  "SetInstallationStateV1 env installation expectedMapping disk =
     (if lockNil env then (Inl LockRequired, disk)
      else case ValidateInstallationStateV1 installation of
        Some e \<Rightarrow> (Inl (InstallationInvalid e), disk)
      | None \<Rightarrow>
          (case openState env disk of
             Inl e \<Rightarrow> (Inl e, disk)
           | Inr None \<Rightarrow> (Inl InstallationRequired, disk)
           | Inr (Some state) \<Rightarrow>
               if stCurrent state = None then (Inl InstallationRequired, disk)
               else if \<not> compareIdentityObservationV1 (stIdentityMapping state) expectedMapping then (Inl IdentityChanged, disk)
               else if inTargetDir installation \<noteq> selectedDirectory env then (Inl TargetForeign, disk)
               else let deployment = Some \<lparr>dsSchema = DeploymentStateSchemaV1, dsInstallation = installation\<rparr>
                    in if stDeployment state = deployment then (Inr (state, False), disk)
                       else publishInstalled env (state\<lparr>stDeployment := deployment\<rparr>) disk))"

definition RetainedStagingAfterUninstallV1 :: "('doc, 'ovl) stateEnv \<Rightarrow> ('doc, 'ovl) StateV1 \<Rightarrow> InstallationStateV1 \<Rightarrow>
    file_error + ('doc, 'ovl) StateV1" where
  "RetainedStagingAfterUninstallV1 env state expected =
     (case stDeployment state of
        None \<Rightarrow> Inl FactsChanged
      | Some deployment \<Rightarrow>
          if dsInstallation deployment \<noteq> expected then Inl FactsChanged
          else let removed = state\<lparr>stDeployment := None\<rparr>
               in case stIdentityMapping state of
                    None \<Rightarrow> (case ValidateStateV1 env removed of Some e \<Rightarrow> Inl (StagingInvalid e) | None \<Rightarrow> Inr removed)
                  | Some m \<Rightarrow>
                      if msPendingOperation m \<noteq> None \<or> mappingDecimalV1 (msRevision m) = - 1 then Inl UninstallPending
                      else let retained = removed\<lparr>stIdentityMapping := Some (m\<lparr>msInstallationBinding := None, msRevision := nextRevision (msRevision m)\<rparr>),
                                  stStaging := Some \<lparr>sgSchema = StagingStateSchemaV1\<rparr>\<rparr>
                           in case ValidateStateV1 env retained of Some e \<Rightarrow> Inl (StagingInvalid e) | None \<Rightarrow> Inr retained)"

definition ClearInstallationStateV1 :: "('doc, 'ovl) stateEnv \<Rightarrow> InstallationStateV1 \<Rightarrow> IdentityMappingStateV1 option list \<Rightarrow>
    ('doc, 'ovl) disk \<Rightarrow> ('doc, 'ovl) outcome" where
  "ClearInstallationStateV1 env expected expectedMapping disk =
     (if lockNil env then (Inl LockRequired, disk)
      else case ValidateInstallationStateV1 expected of
        Some e \<Rightarrow> (Inl (InstallationInvalid e), disk)
      | None \<Rightarrow>
          (case openState env disk of
             Inl e \<Rightarrow> (Inl e, disk)
           | Inr None \<Rightarrow> (Inl InstallationRequired, disk)
           | Inr (Some state) \<Rightarrow>
               (case (stCurrent state, stDeployment state) of
                  (Some _, Some deployment) \<Rightarrow>
                    if dsInstallation deployment \<noteq> expected then (Inl FactsChanged, disk)
                    else if \<not> compareIdentityObservationV1 (stIdentityMapping state) expectedMapping then (Inl IdentityChanged, disk)
                    else (case RetainedStagingAfterUninstallV1 env state expected of
                            Inl e \<Rightarrow> (Inl e, disk)
                          | Inr retained \<Rightarrow> publishInstalled env retained disk)
                | _ \<Rightarrow> (Inl InstallationRequired, disk))))"

definition validateInstalledDestinationGeneration :: "EnvironmentGenerationState \<Rightarrow> EnvironmentGenerationState \<Rightarrow> file_error check" where
  "validateInstalledDestinationGeneration source destination =
     (case ValidateEnvironmentGenerationState destination of
        Some e \<Rightarrow> Some (DestinationGeneration e)
      | None \<Rightarrow>
          if egReference destination = egReference source then Some DestinationReference
          else if egPlatform destination \<noteq> egPlatform source \<or> egRuntimePolicyDigest destination \<noteq> egRuntimePolicyDigest source
          then Some DestinationPolicy else None)"

definition CommitInstalledStateV1 :: "('doc, 'ovl) stateEnv \<Rightarrow> EnvironmentGenerationState option \<Rightarrow> ('doc, 'ovl) StateV1 \<Rightarrow>
    EnvironmentGenerationState \<Rightarrow> InstallationStateV1 \<Rightarrow> ('doc, 'ovl) disk \<Rightarrow> ('doc, 'ovl) outcome" where
  "CommitInstalledStateV1 env expected sourceState destinationGeneration installation disk =
     (if lockNil env then (Inl LockRequired, disk)
      else case ValidateStateV1 env sourceState of
        Some e \<Rightarrow> (Inl (SourceInvalid e), disk)
      | None \<Rightarrow>
          (case stCurrent sourceState of
             None \<Rightarrow> (Inl SourceUnbuilt, disk)
           | Some built \<Rightarrow>
               if stIdentityMapping sourceState \<noteq> None then (Inl SourceMapped, disk)
               else if stDeployment sourceState \<noteq> None then (Inl SourceDeployed, disk)
               else case orElse (validateInstalledDestinationGeneration built destinationGeneration)
                           (wrap InstallationInvalid (ValidateInstallationStateV1 installation)) of
                 Some e \<Rightarrow> (Inl e, disk)
               | None \<Rightarrow>
                   if \<not> lockWritable env 0 then (Inl NotWritable, disk)
                   else if \<not> lockHeld env 0 then (Inl NotHeld, disk)
                   else if inTargetDir installation \<noteq> selectedDirectory env then (Inl TargetForeign, disk)
                   else case readStateV1Path env 0 disk of
                     Inl e \<Rightarrow> (Inl e, disk)
                   | Inr found \<Rightarrow>
                       (let observed = (case found of None \<Rightarrow> None | Some current \<Rightarrow> stCurrent current);
                            candidate = sourceState\<lparr>stCurrent := Some destinationGeneration, stStaging := None,
                              stDeployment := Some \<lparr>dsSchema = DeploymentStateSchemaV1, dsInstallation = installation\<rparr>\<rparr>
                        in if (case found of None \<Rightarrow> False | Some current \<Rightarrow> stIdentityMapping current \<noteq> None) then (Inl DestinationMapped, disk)
                           else if observed \<noteq> expected then (Inl GenerationChanged, disk)
                           else if found = Some candidate then (Inr (candidate, False), disk)
                           else publishInstalled env candidate disk)))"

text \<open>A first mapping configuration: what the caller may supply.\<close>

definition firstMappingOK :: "IdentityMappingStateV1 \<Rightarrow> bool" where
  "firstMappingOK next \<longleftrightarrow> \<not> (msInstallationID next \<noteq> [] \<or> msOwnerDir next \<noteq> [] \<or> msRevision next \<noteq> [] \<or> msInstallationBinding next \<noteq> None
     \<or> length (elems (msUIDAssignments next)) + length (elems (msGIDAssignments next)) + length (elems (msDormantUIDs next))
       + length (elems (msDormantGIDs next)) + length (elems (msRetainedStorage next)) \<noteq> 0
     \<or> msAdmittedGeneration next \<noteq> None \<or> msSupervisor next \<noteq> None \<or> msEngine next \<noteq> None \<or> msRevoked next \<or> msPendingOperation next \<noteq> None
     \<or> msSchema next \<noteq> IdentityMappingStateSchemaV1 \<or> msProcessModel next \<noteq> [] \<or> msAcceptedUIDs next \<noteq> None
     \<or> msAcceptedGIDs next \<noteq> None \<or> msNativeProcess next \<noteq> None)"

definition nextMapping :: "('doc, 'ovl) stateEnv \<Rightarrow> ('doc, 'ovl) StateV1 \<Rightarrow> string \<Rightarrow> 64 word \<Rightarrow> IdentityMappingStateV1 \<Rightarrow>
    file_error + IdentityMappingStateV1" where
  "nextMapping env state expectedID expectedRevision next =
     (case stIdentityMapping state of
        None \<Rightarrow>
          if expectedID \<noteq> [] \<or> expectedRevision \<noteq> 0 \<or> stDeployment state \<noteq> None \<or> stStaging state = None then Inl FirstMappingOwner
          else if \<not> firstMappingOK next then Inl FirstMappingAuthority
          else (case newOpaqueAdmissionIDV1 (randomBytes env) ''mapping'' of
                  Inl e \<Rightarrow> Inl (RandomFailed e)
                | Inr mappingID \<Rightarrow>
                    (case ownerDirectory env of
                       None \<Rightarrow> Inl OwnerUnresolved
                     | Some owner \<Rightarrow> Inr (next\<lparr>msInstallationID := mappingID, msOwnerDir := owner, msRevision := ''1''\<rparr>)))
      | Some old \<Rightarrow>
          if msPendingOperation old \<noteq> None then Inl PendingBlocks
          else if msInstallationID old \<noteq> expectedID \<or> mappingDecimalV1 (msRevision old) \<noteq> expectedRevision \<or> expectedRevision = - 1
          then Inl OwnerChanged
          else if old \<noteq> next then Inl TransitionUnchecked
          else Inr (next\<lparr>msRevision := formatUint (unat (expectedRevision + 1))\<rparr>))"

definition CommitIdentityMappingV1 :: "('doc, 'ovl) stateEnv \<Rightarrow> EnvironmentGenerationState option \<Rightarrow> string \<Rightarrow> 64 word \<Rightarrow>
    IdentityMappingStateV1 \<Rightarrow> ('doc, 'ovl) disk \<Rightarrow> (file_error + ('doc, 'ovl) StateV1) \<times> ('doc, 'ovl) disk" where
  "CommitIdentityMappingV1 env expectedGeneration expectedID expectedRevision supplied disk =
     (if lockNil env then (Inl LockRequired, disk)
      else case openState env disk of
        Inl e \<Rightarrow> (Inl e, disk)
      | Inr None \<Rightarrow> (Inl GenerationChanged, disk)
      | Inr (Some state) \<Rightarrow>
          if stCurrent state \<noteq> expectedGeneration then (Inl GenerationChanged, disk)
          else case jsonDetach env supplied of
            None \<Rightarrow> (Inl DetachFailed, disk)
          | Some next \<Rightarrow>
              (case nextMapping env state expectedID expectedRevision next of
                 Inl e \<Rightarrow> (Inl e, disk)
               | Inr m \<Rightarrow>
                   (let state' = state\<lparr>stIdentityMapping := Some m\<rparr>
                    in case orElse (EncodeStateV1 env state') (validateMappingOwnerPathV1 env state') of
                         Some e \<Rightarrow> (Inl e, disk)
                       | None \<Rightarrow>
                           (case writeStateFile env 0 state' disk of
                              (Some e, disk') \<Rightarrow> (Inl e, disk')
                            | (None, disk') \<Rightarrow> (Inr state', disk')))))"

end
