(* ===== verification/MappingOperations.thy ===== *)
theory MappingOperations
  imports DeployState IdentityHost
begin

text \<open>
  The checked operations on mapping authority: \<open>src/internal/deploy/identity_mapping_operations.go\<close>,
  \<open>identity_mapping_geometry.go\<close>, \<open>identity_mapping_host.go\<close>, \<open>identity_mapping_effects.go\<close> and
  \<open>identity_mapping_native.go\<close>.

  The trusted effect owner (\<open>IdentityMappingEvidenceV1\<close>), the host check, the context, the build
  records of a generation and the file system are arguments, in the record \<open>opsEnv\<close>. The state
  file is passed in and the file after the operation is part of the result. An operation that
  runs to its end returns a state; one that fails returns the error and, where the code does,
  the state it had read. \<open>cloneMappingStateV1\<close> copies a state that was decoded before, or whose
  new parts were checked before, through JSON, which is the identity on such states.
\<close>

section \<open>The environment\<close>

record ('doc, 'ovl) IdentityMappingEvidenceV1 =
  evPlan :: "('doc, 'ovl) StateV1 \<Rightarrow> Geometry \<Rightarrow> string slice option"
  evUnused :: "('doc, 'ovl) StateV1 \<Rightarrow> bool"
  evVerify :: "('doc, 'ovl) StateV1 \<Rightarrow> bool"

text \<open>What the code reads of a validated build lock.\<close>

record BuildLockView =
  blBlueprintDigest :: string
  blImageDigest :: string
  blRootFSSubject :: string
  blPlatform :: Platform
  blRuntimePolicyDigest :: string
  blIdentityPolicy :: "IdentityPolicyLockV1 option"

record ('doc, 'ovl) opsEnv =
  stateOf :: "('doc, 'ovl) stateEnv"
  ctxNil :: bool
  ctxErr :: "nat \<Rightarrow> bool"
  hostCheck :: "nat \<Rightarrow> string \<Rightarrow> Interval list \<Rightarrow> Interval list \<Rightarrow> HostIdentity option"
  evidenceOf :: "('doc, 'ovl) IdentityMappingEvidenceV1 option"
  profileOwner :: bool
  pendingBuild :: "bool option"
  buildLock :: "string \<Rightarrow> BuildLockView option"

datatype ops_error =
    OpsFile file_error | OpsContext | OpsCancelled | OpsOwner | OpsDocument | OpsRetain geometry_error | OpsMapping mapping_error
  | OpsState state_error | OpsRevoked | OpsFirstInstalled | OpsScope | OpsTarget | OpsHost | OpsPendingHost | OpsOperator | OpsUnsafeID
  | OpsGeometry geometry_error | OpsKind | OpsEvidence | OpsInventory | OpsRandom random_error | OpsStale | OpsRecoveryNeeded | OpsUsed
  | OpsPending | OpsPhase | OpsVerify | OpsChanged | OpsExhausted | OpsUpgrade | OpsNativeState | OpsBuildPending | OpsBuildLock
  | OpsBuildEvidence | OpsPolicy | OpsPlan execution_error | OpsFresh | OpsActive | OpsPanic

section \<open>Geometry and host\<close>

definition RetainIdentityMappingGeometryV1 :: "('doc, 'ovl) StateV1 \<Rightarrow> Geometry \<Rightarrow> ops_error + Geometry" where
  "RetainIdentityMappingGeometryV1 state candidate =
     (case validateIdentityMappingStateV1 state of
        Some e \<Rightarrow> Inl (OpsMapping e)
      | None \<Rightarrow>
          if (case stIdentityMapping state of None \<Rightarrow> False | Some m \<Rightarrow> msRevoked m \<or> msProfile m \<noteq> gmProfile candidate) then Inl OpsRevoked
          else case RetainGeometry candidate (case stIdentityMapping state of None \<Rightarrow> None | Some m \<Rightarrow> protected m) of
            Inl e \<Rightarrow> Inl (OpsRetain e)
          | Inr reserved \<Rightarrow> Inr reserved)"

text \<open>\<open>k\<close> is the position of the call in its operation.\<close>

definition checkIdentityMappingHostV1 :: "('doc, 'ovl) opsEnv \<Rightarrow> nat \<Rightarrow> ('doc, 'ovl) disk \<Rightarrow> Geometry \<Rightarrow> ops_error + HostIdentity" where
  "checkIdentityMappingHostV1 env k disk reserved =
     (if ctxNil env then Inl OpsContext
      else case ReadStateV1 (stateOf env) k disk of
        Inl e \<Rightarrow> Inl (OpsFile e)
      | Inr None \<Rightarrow> Inl OpsOwner
      | Inr (Some state) \<Rightarrow>
          if stTerminalRemoval state \<or> stStaging state = None \<and> stDeployment state = None then Inl OpsOwner
          else if (case stDeployment state of None \<Rightarrow> False | Some d \<Rightarrow> inScope (dsInstallation d) \<noteq> ''user'') then Inl OpsScope
          else if \<not> lockHeld (stateOf env) (k + 1) then Inl (OpsFile NotHeld)
          else if (case stDeployment state of None \<Rightarrow> False | Some d \<Rightarrow> inTargetDir (dsInstallation d) \<noteq> selectedDirectory (stateOf env)) then Inl OpsTarget
          else case hostCheck env k (selectedDirectory (stateOf env)) (gmUIDs reserved) (gmGIDs reserved) of
            None \<Rightarrow> Inl OpsHost
          | Some identity \<Rightarrow> if \<not> lockHeld (stateOf env) (k + 2) then Inl (OpsFile NotHeld) else Inr identity)"

record ('doc, 'ovl) IdentityMappingStatusV1 =
  suState :: "('doc, 'ovl) StateV1"
  suStatus :: string
  suReservations :: "Geometry option"

definition Status :: "('doc, 'ovl) opsEnv \<Rightarrow> nat \<Rightarrow> ('doc, 'ovl) disk \<Rightarrow> ops_error + ('doc, 'ovl) IdentityMappingStatusV1" where
  "Status env k disk =
     (case ReadStateV1 (stateOf env) k disk of
        Inl e \<Rightarrow> Inl (OpsFile e)
      | Inr None \<Rightarrow> Inl OpsOwner
      | Inr (Some state) \<Rightarrow>
          if stTerminalRemoval state \<or> stStaging state = None \<and> stDeployment state = None then Inl OpsOwner
          else case stIdentityMapping state of
            None \<Rightarrow>
              (case decodeDocument (stateOf env) (stBlueprint state) of
                 None \<Rightarrow> Inl OpsDocument
               | Some document \<Rightarrow>
                   Inr \<lparr>suState = state, suStatus = (if dvIdentityMapping document then ''inhibited'' else ''ordinary''), suReservations = None\<rparr>)
          | Some m \<Rightarrow>
              (let status = (if msAdmittedGeneration m \<noteq> None then ''admitted'' else ''retained'')
               in case msPendingOperation m of
                    None \<Rightarrow> Inr \<lparr>suState = state, suStatus = (if msRevoked m then ''revoked'' else status), suReservations = protected m\<rparr>
                  | Some p \<Rightarrow>
                      (case RetainGeometry (numeric (opCandidate p)) (protected m) of
                         Inl e \<Rightarrow> Inl (OpsRetain e)
                       | Inr reserved \<Rightarrow>
                           Inr \<lparr>suState = state,
                             suStatus = (if msRevoked m then ''revoked'' else if opPhase p = ''intent'' then ''candidate'' else ''inhibited''),
                             suReservations = Some reserved\<rparr>)))"

definition checkCandidate :: "('doc, 'ovl) opsEnv \<Rightarrow> nat \<Rightarrow> ('doc, 'ovl) disk \<Rightarrow> ('doc, 'ovl) StateV1 \<Rightarrow> Geometry \<Rightarrow>
    ops_error + Geometry \<times> HostIdentity" where
  "checkCandidate env k disk state candidate =
     (if ctxNil env then Inl OpsContext
      else if ctxErr env k then Inl OpsCancelled
      else if stDeployment state \<noteq> None \<and> stIdentityMapping state = None then Inl OpsFirstInstalled
      else case RetainIdentityMappingGeometryV1 state candidate of
        Inl e \<Rightarrow> Inl e
      | Inr reserved \<Rightarrow>
          (case checkIdentityMappingHostV1 env k disk reserved of
             Inl e \<Rightarrow> Inl e
           | Inr identity \<Rightarrow>
               (case (case stIdentityMapping state of
                        None \<Rightarrow> None
                      | Some m \<Rightarrow>
                          (case msPendingOperation m of
                             None \<Rightarrow> None
                           | Some p \<Rightarrow>
                               (case RetainIdentityMappingGeometryV1 state (numeric (opCandidate p)) of
                                  Inl e \<Rightarrow> Some e
                                | Inr old \<Rightarrow>
                                    (case checkIdentityMappingHostV1 env (k + 5) disk old of
                                       Inl e \<Rightarrow> Some OpsPendingHost
                                     | Inr other \<Rightarrow> if other \<noteq> identity then Some OpsPendingHost else None)))) of
                  Some e \<Rightarrow> Inl e
                | None \<Rightarrow>
                    if (case stIdentityMapping state of
                          None \<Rightarrow> False
                        | Some m \<Rightarrow> msOperatorUID m \<noteq> formatUint (hiUID identity) \<or> msOperatorGID m \<noteq> formatUint (hiGID identity))
                    then Inl OpsOperator
                    else Inr (reserved, identity))))"

definition Check :: "('doc, 'ovl) opsEnv \<Rightarrow> ('doc, 'ovl) disk \<Rightarrow> Geometry \<Rightarrow> ops_error + ('doc, 'ovl) StateV1" where
  "Check env disk candidate =
     (case Status env 0 disk of
        Inl e \<Rightarrow> Inl e
      | Inr status \<Rightarrow> (case checkCandidate env 10 disk (suState status) candidate of Inl e \<Rightarrow> Inl e | Inr _ \<Rightarrow> Inr (suState status)))"

section \<open>Changes\<close>

text \<open>The result of an operation: the error with the state returned beside it, or the state; and the file.\<close>

type_synonym ('doc, 'ovl) opResult =
  "((ops_error \<times> ('doc, 'ovl) StateV1 option) + ('doc, 'ovl) StateV1) \<times> ('doc, 'ovl) disk"

definition commitChange :: "('doc, 'ovl) opsEnv \<Rightarrow> nat \<Rightarrow> ('doc, 'ovl) disk \<Rightarrow> ('doc, 'ovl) StateV1 \<Rightarrow> ('doc, 'ovl) StateV1 \<Rightarrow> ('doc, 'ovl) opResult" where
  "commitChange env k disk before state =
     (if before = state then (Inr state, disk)
      else case stIdentityMapping state of
        None \<Rightarrow> (Inl (OpsPanic, None), disk)
      | Some m \<Rightarrow>
          (let next = state\<lparr>stIdentityMapping := Some (m\<lparr>msRevision := nextRevision (msRevision m)\<rparr>)\<rparr>; b = stateOf env
           in case EncodeStateV1 b next of
                Some e \<Rightarrow> (Inl (OpsFile e, Some before), disk)
              | None \<Rightarrow>
                  if ctxErr env (k + 1) then (Inl (OpsCancelled, Some before), disk)
                  else if \<not> lockWritable b (k + 1) then (Inl (OpsFile NotWritable, Some before), disk)
                  else case validateMappingOwnerPathV1 b next of
                    Some e \<Rightarrow> (Inl (OpsFile e, Some before), disk)
                  | None \<Rightarrow>
                      (case writeStateFile b k next disk of
                         (Some e, disk') \<Rightarrow> (Inl (OpsFile e, Some before), disk')
                       | (None, disk') \<Rightarrow> (Inr next, disk'))))"

definition change :: "('doc, 'ovl) opsEnv \<Rightarrow> nat \<Rightarrow> ('doc, 'ovl) disk \<Rightarrow> ('doc, 'ovl) StateV1 \<Rightarrow>
    (('doc, 'ovl) StateV1 \<Rightarrow> ops_error + ('doc, 'ovl) StateV1) \<Rightarrow> ('doc, 'ovl) opResult" where
  "change env k disk expected update =
     (if lockNil (stateOf env) \<or> ctxNil env then (Inl (OpsContext, None), disk)
      else if \<not> lockWritable (stateOf env) k then (Inl (OpsFile NotWritable, None), disk)
      else if \<not> lockHeld (stateOf env) k then (Inl (OpsFile NotHeld, None), disk)
      else case readStateV1Path (stateOf env) k disk of
        Inl e \<Rightarrow> (Inl (OpsChanged, None), disk)
      | Inr None \<Rightarrow> (Inl (OpsChanged, None), disk)
      | Inr (Some state) \<Rightarrow>
          if state \<noteq> expected then (Inl (OpsChanged, None), disk)
          else if stTerminalRemoval state \<or> stStaging state = None \<and> stDeployment state = None then (Inl (OpsOwner, None), disk)
          else if (case stIdentityMapping state of None \<Rightarrow> False | Some m \<Rightarrow> msRevoked m \<or> mappingDecimalV1 (msRevision m) = - 1)
          then (Inl (OpsExhausted, None), disk)
          else case update state of
            Inl e \<Rightarrow> (Inl (e, Some state), disk)
          | Inr updated \<Rightarrow> commitChange env k disk state updated)"

section \<open>Configuration\<close>

definition mappingOf :: "('doc, 'ovl) StateV1 \<Rightarrow> ops_error + IdentityMappingStateV1" where
  "mappingOf state = (case stIdentityMapping state of None \<Rightarrow> Inl OpsPanic | Some m \<Rightarrow> Inr m)"

definition intentOf :: "string \<Rightarrow> string \<Rightarrow> EnvironmentGenerationState option \<Rightarrow> IdentityMappingStateV1 \<Rightarrow> Geometry \<Rightarrow> string slice \<Rightarrow>
    NativeIdentityOperationV1 option \<Rightarrow> IdentityMappingOperationV1" where
  "intentOf operationID kind current m canonical handles native =
     \<lparr>opOperationID = operationID, opKind = kind, opExpectedRevision = nextRevision (msRevision m), opExpectedGeneration = current,
      opCandidate = mappingGeometryStateV1 canonical, opPriorAccepted = msAdmittedGeneration m, opOwnedObjects = handles,
      opPhase = ''intent'', opInhibited = True, opNative = native\<rparr>"

definition firstMapping :: "('doc, 'ovl) opsEnv \<Rightarrow> ('doc, 'ovl) StateV1 \<Rightarrow> Geometry \<Rightarrow> HostIdentity \<Rightarrow> ops_error + IdentityMappingStateV1" where
  "firstMapping env state canonical operator =
     (if stStaging state = None then Inl OpsFirstInstalled
      else case newOpaqueAdmissionIDV1 (randomBytes (stateOf env)) ''mapping'' of
        Inl e \<Rightarrow> Inl (OpsRandom e)
      | Inr mappingID \<Rightarrow>
          (case ownerDirectory (stateOf env) of
             None \<Rightarrow> Inl (OpsFile OwnerUnresolved)
           | Some owner \<Rightarrow>
               Inr \<lparr>msSchema = IdentityMappingStateSchemaV1, msInstallationID = mappingID, msOwnerDir = owner, msInstallationBinding = None,
                 msRevision = ''0'', msOperatorUID = formatUint (hiUID operator), msOperatorGID = formatUint (hiGID operator),
                 msProfile = gmProfile canonical, msUIDAssignments = None, msGIDAssignments = None, msDormantUIDs = None, msDormantGIDs = None,
                 msSupervisor = None, msEngine = None, msAdmittedGeneration = None, msRetainedStorage = None, msRevoked = False,
                 msPendingOperation = None, msProcessModel = [], msAcceptedUIDs = None, msAcceptedGIDs = None, msNativeProcess = None\<rparr>))"

text \<open>
  The part of the update that meets a pending intent: keep it (an exact retry), replace it, or
  refuse.
\<close>

definition replaceIntent :: "('doc, 'ovl) IdentityMappingEvidenceV1 \<Rightarrow> ('doc, 'ovl) StateV1 \<Rightarrow> IdentityMappingStateV1 \<Rightarrow>
    IdentityMappingOperationV1 \<Rightarrow> string \<Rightarrow> Geometry \<Rightarrow> string slice \<Rightarrow> ops_error + bool" where
  "replaceIntent evidence state m p operationID canonical handles =
     (if opExpectedGeneration p \<noteq> stCurrent state \<or> opPriorAccepted p \<noteq> msAdmittedGeneration m
         \<or> opPhase p = ''intent'' \<and> opExpectedRevision p \<noteq> msRevision m then Inl OpsStale
      else if opOperationID p = operationID \<and> opPhase p = ''intent'' \<and> numeric (opCandidate p) = canonical \<and> opOwnedObjects p = handles
      then Inr False
      else if opOperationID p = operationID \<or> opPhase p \<noteq> ''intent'' then Inl OpsRecoveryNeeded
      else if \<not> evUnused evidence state then Inl OpsUsed
      else Inr True)"

definition configureUpdate :: "('doc, 'ovl) opsEnv \<Rightarrow> Geometry \<Rightarrow> string \<Rightarrow> HostIdentity \<Rightarrow> ('doc, 'ovl) StateV1 \<Rightarrow> ops_error + ('doc, 'ovl) StateV1" where
  "configureUpdate env canonical operationID operator state =
     (if (case stIdentityMapping state of None \<Rightarrow> False
          | Some m \<Rightarrow> (case msPendingOperation m of None \<Rightarrow> False | Some p \<Rightarrow> opKind p \<noteq> ''configure'')) then Inl OpsKind
      else case evidenceOf env of
        None \<Rightarrow> Inl OpsEvidence
      | Some evidence \<Rightarrow>
          (case evPlan evidence state (canonicalOf canonical) of
             None \<Rightarrow> Inl OpsInventory
           | Some planned \<Rightarrow>
               (let handles = appended (elems planned)
                in if validateMappingHandlesV1 handles \<noteq> None then Inl OpsInventory
                   else case stIdentityMapping state of
                     None \<Rightarrow>
                       (case firstMapping env state canonical operator of
                          Inl e \<Rightarrow> Inl e
                        | Inr m \<Rightarrow>
                            Inr (state\<lparr>stIdentityMapping := Some (m\<lparr>msPendingOperation :=
                              Some (intentOf operationID ''configure'' (stCurrent state) m canonical handles None)\<rparr>)\<rparr>))
                   | Some m \<Rightarrow>
                       (case (case msPendingOperation m of
                                None \<Rightarrow> Inr True
                              | Some p \<Rightarrow> replaceIntent evidence state m p operationID canonical handles) of
                          Inl e \<Rightarrow> Inl e
                        | Inr False \<Rightarrow> Inr state
                        | Inr True \<Rightarrow>
                            Inr (state\<lparr>stIdentityMapping := Some (m\<lparr>msPendingOperation :=
                              Some (intentOf operationID ''configure'' (stCurrent state) m canonical handles None)\<rparr>)\<rparr>)))))"

definition Configure :: "('doc, 'ovl) opsEnv \<Rightarrow> ('doc, 'ovl) disk \<Rightarrow> ('doc, 'ovl) StateV1 \<Rightarrow> Geometry \<Rightarrow> string \<Rightarrow> ('doc, 'ovl) opResult" where
  "Configure env disk expected candidate operationID =
     (if \<not> safeRecoveryIdentity operationID then (Inl (OpsUnsafeID, None), disk)
      else case ValidateGeometry candidate of
        Inl e \<Rightarrow> (Inl (OpsGeometry e, None), disk)
      | Inr canonical \<Rightarrow>
          (case checkCandidate env 0 disk expected canonical of
             Inl e \<Rightarrow> (Inl (e, None), disk)
           | Inr (_, operator) \<Rightarrow> change env 20 disk expected (configureUpdate env canonical operationID operator)))"

section \<open>Native plans\<close>

definition samePolicy :: "IdentityPolicyV1 option \<Rightarrow> IdentityPolicyV1 \<Rightarrow> bool" where
  "samePolicy pointer q \<longleftrightarrow>
     (case pointer of
        None \<Rightarrow> False
      | Some p \<Rightarrow> plSchema p = plSchema q \<and> sameMap (plUsers p) (plUsers q) \<and> sameMap (plGroups p) (plGroups q) \<and> sameMap (plRoles p) (plRoles q))"

definition nativePlan :: "('doc, 'ovl) opsEnv \<Rightarrow> nat \<Rightarrow> ('doc, 'ovl) disk \<Rightarrow> ('doc, 'ovl) StateV1 \<Rightarrow> Geometry \<Rightarrow> NativeIdentityOperationV1 \<Rightarrow>
    ops_error + IdentityExecutionPlanV1" where
  "nativePlan env k disk state candidate native =
     (if lockNil (stateOf env) \<or> \<not> lockHeld (stateOf env) k then Inl (OpsFile NotHeld)
      else case (stIdentityMapping state, stCurrent state) of
        (Some m, Some generation) \<Rightarrow>
          if msSchema m \<noteq> IdentityMappingStateSchemaV2 \<or> \<not> profileOwner env then Inl OpsNativeState
          else (case ValidateStateV1 (stateOf env) state of
            Some e \<Rightarrow> Inl (OpsState e)
          | None \<Rightarrow>
              if pendingBuild env \<noteq> Some False then Inl OpsBuildPending
              else case buildLock env (egBuildLockDigest generation) of
                None \<Rightarrow> Inl OpsBuildLock
              | Some lock \<Rightarrow>
                  if documentDigest (stateOf env) (stBlueprint state) \<noteq> Some (blBlueprintDigest lock)
                     \<or> egImageDigest generation \<noteq> blImageDigest lock \<or> egRootFSSubject generation \<noteq> blRootFSSubject lock
                     \<or> egPlatform generation \<noteq> blPlatform lock \<or> stPlatform state \<noteq> blPlatform lock
                     \<or> egRuntimePolicyDigest generation \<noteq> blRuntimePolicyDigest lock then Inl OpsBuildEvidence
                  else (case (decodeDocument (stateOf env) (stBlueprint state), blIdentityPolicy lock) of
                    (Some document, Some policyLock) \<Rightarrow>
                      if \<not> samePolicy (dvIdentityPolicy document) (lkPolicy policyLock) then Inl OpsPolicy
                      else (case checkCandidate env (k + 1) disk state candidate of
                        Inl e \<Rightarrow> Inl e
                      | Inr _ \<Rightarrow>
                          (case PlanIdentityExecutionV1 \<lparr>xiGeneration = egBuildLockDigest generation, xiPolicy = Some policyLock, xiCandidate = candidate,
                                 xiReservations = protected m, xiAccepted = acceptedGeometry m,
                                 xiRuntimeUsers = elems (noRuntimeUsers native), xiRuntimeGroups = elems (noRuntimeGroups native)\<rparr> of
                             Inl e \<Rightarrow> Inl (OpsPlan e)
                           | Inr plan \<Rightarrow> Inr plan))
                  | _ \<Rightarrow> Inl OpsPolicy))
      | _ \<Rightarrow> Inl OpsNativeState)"

text \<open>\<open>checkNativePending\<close>: the plan of a recorded native operation, whose active map it must reproduce.\<close>

definition checkNativePending :: "('doc, 'ovl) opsEnv \<Rightarrow> nat \<Rightarrow> ('doc, 'ovl) disk \<Rightarrow> ('doc, 'ovl) StateV1 \<Rightarrow> IdentityMappingOperationV1 \<Rightarrow>
    NativeIdentityOperationV1 \<Rightarrow> ops_error + IdentityExecutionPlanV1" where
  "checkNativePending env k disk expected p native =
     (case nativePlan env k disk expected (numeric (opCandidate p)) native of
        Inl e \<Rightarrow> Inl e
      | Inr plan \<Rightarrow> if \<not> sameExecutionGeometryV1 (xpActive plan) (numeric (noActive native)) then Inl OpsActive else Inr plan)"

definition checkPending :: "('doc, 'ovl) opsEnv \<Rightarrow> nat \<Rightarrow> ('doc, 'ovl) disk \<Rightarrow> ('doc, 'ovl) StateV1 \<Rightarrow> string \<Rightarrow> ops_error check" where
  "checkPending env k disk expected operationID =
     (case stIdentityMapping expected of
        None \<Rightarrow> Some OpsPending
      | Some m \<Rightarrow>
          (case msPendingOperation m of
             None \<Rightarrow> Some OpsPending
           | Some p \<Rightarrow>
               if (opKind p \<noteq> ''configure'' \<and> opKind p \<noteq> ''native-execute'') \<or> opOperationID p \<noteq> operationID
                  \<or> opExpectedGeneration p \<noteq> stCurrent expected \<or> opPhase p \<noteq> ''release-attempted'' \<and> opPriorAccepted p \<noteq> msAdmittedGeneration m
                  \<or> opPhase p = ''intent'' \<and> opExpectedRevision p \<noteq> msRevision m then Some OpsPending
               else if opKind p = ''native-execute'' then
                 (case opNative p of
                    None \<Rightarrow> Some OpsNativeState
                  | Some native \<Rightarrow> (case checkNativePending env k disk expected p native of Inl e \<Rightarrow> Some e | Inr _ \<Rightarrow> None))
               else (case checkCandidate env k disk expected (numeric (opCandidate p)) of Inl e \<Rightarrow> Some e | Inr _ \<Rightarrow> None)))"

section \<open>Effects and recovery\<close>

text \<open>An update that reads the mapping and its pending operation, which the caller has checked to be there.\<close>

definition onPending :: "(IdentityMappingStateV1 \<Rightarrow> IdentityMappingOperationV1 \<Rightarrow> ops_error + IdentityMappingStateV1) \<Rightarrow>
    ('doc, 'ovl) StateV1 \<Rightarrow> ops_error + ('doc, 'ovl) StateV1" where
  "onPending f state =
     (case stIdentityMapping state of
        None \<Rightarrow> Inl OpsPanic
      | Some m \<Rightarrow>
          (case msPendingOperation m of
             None \<Rightarrow> Inl OpsPanic
           | Some p \<Rightarrow> (case f m p of Inl e \<Rightarrow> Inl e | Inr m' \<Rightarrow> Inr (state\<lparr>stIdentityMapping := Some m'\<rparr>))))"

definition beginUpdate :: "('doc, 'ovl) opsEnv \<Rightarrow> ('doc, 'ovl) StateV1 \<Rightarrow> IdentityMappingStateV1 \<Rightarrow> IdentityMappingOperationV1 \<Rightarrow>
    ops_error + IdentityMappingStateV1" where
  "beginUpdate env state m p =
     (if opPhase p \<noteq> ''intent'' then Inl OpsPhase
      else case evidenceOf env of
        None \<Rightarrow> Inl OpsEvidence
      | Some evidence \<Rightarrow>
          (let active = (case opNative p of None \<Rightarrow> numeric (opCandidate p) | Some native \<Rightarrow> numeric (noActive native))
           in case evPlan evidence state active of
                None \<Rightarrow> Inl OpsInventory
              | Some planned \<Rightarrow>
                  if appended (elems planned) \<noteq> opOwnedObjects p then Inl OpsInventory
                  else let p' = p\<lparr>opPhase := ''effects-pending''\<rparr>;
                           p'' = (if opNative p \<noteq> None then p'\<lparr>opExpectedRevision := nextRevision (msRevision m)\<rparr> else p')
                       in Inr (m\<lparr>msPendingOperation := Some p''\<rparr>)))"

definition BeginEffects :: "('doc, 'ovl) opsEnv \<Rightarrow> ('doc, 'ovl) disk \<Rightarrow> ('doc, 'ovl) StateV1 \<Rightarrow> string \<Rightarrow> ('doc, 'ovl) opResult" where
  "BeginEffects env disk expected operationID =
     (case checkPending env 0 disk expected operationID of
        Some e \<Rightarrow> (Inl (e, None), disk)
      | None \<Rightarrow> change env 20 disk expected (\<lambda>state. onPending (beginUpdate env state) state))"

definition cancelUpdate :: "('doc, 'ovl) IdentityMappingEvidenceV1 \<Rightarrow> ('doc, 'ovl) StateV1 \<Rightarrow> IdentityMappingStateV1 \<Rightarrow> IdentityMappingOperationV1 \<Rightarrow>
    ops_error + IdentityMappingStateV1" where
  "cancelUpdate evidence state m p =
     (if opPhase p \<noteq> ''intent'' then Inl OpsPhase
      else if \<not> evUnused evidence state then Inl OpsUsed
      else Inr (m\<lparr>msPendingOperation := None\<rparr>))"

definition verifyUpdate :: "('doc, 'ovl) IdentityMappingEvidenceV1 \<Rightarrow> ('doc, 'ovl) StateV1 \<Rightarrow> IdentityMappingStateV1 \<Rightarrow> IdentityMappingOperationV1 \<Rightarrow>
    ops_error + IdentityMappingStateV1" where
  "verifyUpdate evidence state m p =
     (if \<not> evVerify evidence state then Inl OpsVerify else Inr (m\<lparr>msPendingOperation := Some (p\<lparr>opPhase := ''verified''\<rparr>)\<rparr>))"

text \<open>\<open>slices.Compact(slices.Sorted(slices.Values(append(retained, owned...))))\<close>\<close>

definition mergeHandles :: "string slice \<Rightarrow> string slice \<Rightarrow> string slice" where
  "mergeHandles retained owned = appended (remdups_adj (sort (elems retained @ elems owned)))"

definition retainUpdate :: "IdentityMappingStateV1 \<Rightarrow> IdentityMappingOperationV1 \<Rightarrow> ops_error + IdentityMappingStateV1" where
  "retainUpdate m p =
     (case RetainGeometry (numeric (opCandidate p)) (protected m) of
        Inl e \<Rightarrow> Inl (OpsRetain e)
      | Inr reserved \<Rightarrow>
          (let wire = mappingGeometryStateV1 reserved
           in Inr (m\<lparr>msUIDAssignments := wgUIDs wire, msGIDAssignments := wgGIDs wire,
                 msRetainedStorage := mergeHandles (msRetainedStorage m) (opOwnedObjects p), msPendingOperation := None\<rparr>)))"

definition recoverNative :: "('doc, 'ovl) opsEnv \<Rightarrow> ('doc, 'ovl) IdentityMappingEvidenceV1 \<Rightarrow> ('doc, 'ovl) disk \<Rightarrow> ('doc, 'ovl) StateV1 \<Rightarrow> ('doc, 'ovl) opResult" where
  "recoverNative env evidence disk expected =
     change env 20 disk expected (\<lambda>state. if \<not> evVerify evidence state then Inl OpsVerify else onPending retainUpdate state)"

definition Recover :: "('doc, 'ovl) opsEnv \<Rightarrow> ('doc, 'ovl) disk \<Rightarrow> ('doc, 'ovl) StateV1 \<Rightarrow> string \<Rightarrow> bool \<Rightarrow> ('doc, 'ovl) opResult" where
  "Recover env disk expected operationID cancel =
     (case checkPending env 0 disk expected operationID of
        Some e \<Rightarrow> (Inl (e, None), disk)
      | None \<Rightarrow>
          (case evidenceOf env of
             None \<Rightarrow> (Inl (OpsEvidence, None), disk)
           | Some evidence \<Rightarrow>
               if cancel then change env 20 disk expected (\<lambda>state. onPending (cancelUpdate evidence state) state)
               else (case mappingOf expected of
                 Inl e \<Rightarrow> (Inl (e, None), disk)
               | Inr m \<Rightarrow>
                   (case msPendingOperation m of
                      None \<Rightarrow> (Inl (OpsPanic, None), disk)
                    | Some p \<Rightarrow>
                        if opPhase p = ''intent'' then (Inl (OpsPhase, None), disk)
                        else if opKind p = ''native-execute'' then recoverNative env evidence disk expected
                        else (case change env 20 disk expected (\<lambda>state. onPending (verifyUpdate evidence state) state) of
                          (Inl e, disk') \<Rightarrow> (Inl e, disk')
                        | (Inr verified, disk') \<Rightarrow> change env 30 disk' verified (onPending retainUpdate))))))"

definition ObserveEffects :: "('doc, 'ovl) opsEnv \<Rightarrow> nat \<Rightarrow> ('doc, 'ovl) disk \<Rightarrow> ('doc, 'ovl) StateV1 \<Rightarrow> Geometry \<Rightarrow> string \<Rightarrow>
    ops_error + ('doc, 'ovl) StateV1" where
  "ObserveEffects env k disk expected active operationID =
     (if lockNil (stateOf env) \<or> \<not> lockHeld (stateOf env) k then Inl (OpsFile NotHeld)
      else case Status env (k + 1) disk of
        Inl e \<Rightarrow> Inl OpsChanged
      | Inr status \<Rightarrow>
          if suState status \<noteq> expected then Inl OpsChanged
          else (case (stCurrent expected, stIdentityMapping expected) of
            (Some _, Some m) \<Rightarrow>
              (case msPendingOperation m of
                 None \<Rightarrow> Inl OpsPhase
               | Some p \<Rightarrow>
                   if opPhase p \<noteq> ''effects-pending'' then Inl OpsPhase
                   else let wanted = (case opNative p of
                                        Some native \<Rightarrow> if opKind p = ''native-execute'' then numeric (noActive native) else numeric (opCandidate p)
                                      | None \<Rightarrow> numeric (opCandidate p))
                        in if ValidateGeometry active \<noteq> Inr wanted then Inl OpsActive
                           else (case checkPending env (k + 2) disk expected operationID of
                                   Some e \<Rightarrow> Inl e
                                 | None \<Rightarrow> if \<not> lockHeld (stateOf env) (k + 12) then Inl (OpsFile NotHeld) else Inr expected))
          | _ \<Rightarrow> Inl OpsPhase))"

section \<open>Native execution\<close>

definition upgradeUpdate :: "('doc, 'ovl) StateV1 \<Rightarrow> ops_error + ('doc, 'ovl) StateV1" where
  "upgradeUpdate state =
     (case stIdentityMapping state of
        None \<Rightarrow> Inl OpsUpgrade
      | Some m \<Rightarrow>
          if msSchema m \<noteq> IdentityMappingStateSchemaV1 \<or> msSupervisor m \<noteq> None \<or> msEngine m \<noteq> None \<or> msAdmittedGeneration m \<noteq> None
             \<or> dormantCount m \<noteq> 0 then Inl OpsUpgrade
          else let m' = m\<lparr>msSchema := IdentityMappingStateSchemaV2, msProcessModel := IdentityMappingNativeProcessModelV1,
                     msAcceptedUIDs := Some (Some []), msAcceptedGIDs := Some (Some [])\<rparr>
               in case msPendingOperation m of
                    None \<Rightarrow> Inr (state\<lparr>stIdentityMapping := Some m'\<rparr>)
                  | Some p \<Rightarrow>
                      if opKind p \<noteq> ''configure'' \<or> opPhase p = ''intent'' \<and> opExpectedRevision p \<noteq> msRevision m
                         \<or> opExpectedGeneration p \<noteq> stCurrent state \<or> opPriorAccepted p \<noteq> None then Inl OpsStale
                      else Inr (state\<lparr>stIdentityMapping := Some (m'\<lparr>msPendingOperation :=
                             Some (if opPhase p = ''intent'' then p\<lparr>opExpectedRevision := nextRevision (msRevision m)\<rparr> else p)\<rparr>)\<rparr>))"

definition UpgradeNativeMapping :: "('doc, 'ovl) opsEnv \<Rightarrow> ('doc, 'ovl) disk \<Rightarrow> ('doc, 'ovl) StateV1 \<Rightarrow> ('doc, 'ovl) opResult" where
  "UpgradeNativeMapping env disk expected = change env 20 disk expected upgradeUpdate"

definition prepareUpdate :: "('doc, 'ovl) opsEnv \<Rightarrow> Geometry \<Rightarrow> string \<Rightarrow> NativeIdentityOperationV1 \<Rightarrow> Geometry \<Rightarrow> ('doc, 'ovl) StateV1 \<Rightarrow>
    ops_error + ('doc, 'ovl) StateV1" where
  "prepareUpdate env canonical operationID native active state =
     (case mappingOf state of
        Inl e \<Rightarrow> Inl e
      | Inr m \<Rightarrow>
          (case evidenceOf env of
             None \<Rightarrow> Inl OpsFresh
           | Some evidence \<Rightarrow>
               if msPendingOperation m \<noteq> None \<or> msNativeProcess m = Some (noProcess native) \<and> msEngine m = Some (noEngine native) then Inl OpsFresh
               else case evPlan evidence state active of
                 None \<Rightarrow> Inl OpsInventory
               | Some planned \<Rightarrow>
                   if validateMappingHandlesV1 planned \<noteq> None then Inl OpsInventory
                   else Inr (state\<lparr>stIdentityMapping := Some (m\<lparr>msPendingOperation :=
                     Some (intentOf operationID ''native-execute'' (stCurrent state) m canonical (appended (elems planned)) (Some native))\<rparr>)\<rparr>)))"

definition PrepareNativeExecution :: "('doc, 'ovl) opsEnv \<Rightarrow> ('doc, 'ovl) disk \<Rightarrow> ('doc, 'ovl) StateV1 \<Rightarrow> Geometry \<Rightarrow> string \<Rightarrow>
    NativeIdentityOperationV1 \<Rightarrow> ('doc, 'ovl) opResult" where
  "PrepareNativeExecution env disk expected candidate operationID native =
     (if \<not> safeRecoveryIdentity operationID \<or> \<not> safeRecoveryIdentity (noEngine native) \<or> \<not> safeRecoveryIdentity (noProcess native)
      then (Inl (OpsUnsafeID, None), disk)
      else case ValidateGeometry candidate of
        Inl e \<Rightarrow> (Inl (OpsGeometry e, None), disk)
      | Inr canonical \<Rightarrow>
          (case nativePlan env 0 disk expected canonical native of
             Inl e \<Rightarrow> (Inl (e, None), disk)
           | Inr plan \<Rightarrow>
               change env 20 disk expected
                 (prepareUpdate env canonical operationID (native\<lparr>noActive := mappingGeometryStateV1 (xpActive plan)\<rparr>) (xpActive plan))))"

definition admitUpdate :: "('doc, 'ovl) opsEnv \<Rightarrow> IdentityExecutionPlanV1 \<Rightarrow> ('doc, 'ovl) StateV1 \<Rightarrow> IdentityMappingStateV1 \<Rightarrow>
    IdentityMappingOperationV1 \<Rightarrow> ops_error + IdentityMappingStateV1" where
  "admitUpdate env plan state m p =
     (case (evidenceOf env, opNative p) of
        (None, _) \<Rightarrow> Inl OpsEvidence
      | (Some evidence, native) \<Rightarrow>
          if \<not> evVerify evidence state then Inl OpsVerify
          else case native of
            None \<Rightarrow> Inl OpsPanic
          | Some n \<Rightarrow>
              (let reserved = mappingGeometryStateV1 (xpProspectiveReservations plan);
                   accepted = mappingGeometryStateV1 (xpProspectiveAccepted plan)
               in Inr (m\<lparr>msUIDAssignments := wgUIDs reserved, msGIDAssignments := wgGIDs reserved,
                    msAcceptedUIDs := Some (wgUIDs accepted), msAcceptedGIDs := Some (wgGIDs accepted),
                    msDormantUIDs := appended (map wireInterval (xpDormantUIDs plan)),
                    msDormantGIDs := appended (map wireInterval (xpDormantGIDs plan)),
                    msAdmittedGeneration := opExpectedGeneration p, msEngine := Some (noEngine n), msNativeProcess := Some (noProcess n),
                    msPendingOperation := Some (p\<lparr>opPhase := ''release-attempted'', opExpectedRevision := nextRevision (msRevision m)\<rparr>)\<rparr>)))"

definition AdmitNativeExecution :: "('doc, 'ovl) opsEnv \<Rightarrow> ('doc, 'ovl) disk \<Rightarrow> ('doc, 'ovl) StateV1 \<Rightarrow> string \<Rightarrow> ('doc, 'ovl) opResult" where
  "AdmitNativeExecution env disk expected operationID =
     (case (case stIdentityMapping expected of None \<Rightarrow> None | Some m \<Rightarrow> msPendingOperation m) of
        None \<Rightarrow> (Inl (OpsNativeState, None), disk)
      | Some p \<Rightarrow>
          (case opNative p of
             None \<Rightarrow> (Inl (OpsNativeState, None), disk)
           | Some native \<Rightarrow>
               if opKind p \<noteq> ''native-execute'' then (Inl (OpsNativeState, None), disk)
               else case ObserveEffects env 0 disk expected (numeric (noActive native)) operationID of
                 Inl e \<Rightarrow> (Inl (e, None), disk)
               | Inr _ \<Rightarrow>
                   (case checkNativePending env 40 disk expected p native of
                      Inl e \<Rightarrow> (Inl (e, None), disk)
                    | Inr plan \<Rightarrow> change env 60 disk expected (\<lambda>state. onPending (admitUpdate env plan state) state))))"

end
