(* ===== verification/MappingProofs.thy ===== *)
theory MappingProofs
  imports MappingOperations ExecutionPlanProofs
begin

text \<open>
  Lemmas on mapping operations: the decimal records are faithful copies of the numeric geometry,
  a change is an atomic compare-and-swap of the state file, and every operation moves a mapping
  forward.
\<close>

section \<open>Decimal records\<close>

lemma mappingDecimal_format: "n < 2 ^ 64 \<Longrightarrow> mappingDecimalV1 (formatUint n) = of_nat n"
  by (simp add: mappingDecimalV1_def parseUint_formatUint)

lemma mappingDecimal_word: "mappingDecimalV1 (formatUint (unat (w :: 64 word))) = w"
proof -
  have "unat w < 2 ^ 64" using unsigned_less[of w] by simp
  then show ?thesis by (simp add: mappingDecimal_format of_nat_unat)
qed

lemma mappingDecimal_small: "ucast (mappingDecimalV1 (formatUint (unat (w :: 32 word)))) = w"
proof -
  have "unat w < 2 ^ 32" using unsigned_less[of w] by simp
  then have "unat w < 2 ^ 64" by simp
  then have "mappingDecimalV1 (formatUint (unat w)) = ucast w" by (simp add: mappingDecimal_format of_nat_unat)
  moreover have "ucast (ucast w :: 64 word) = w" by (rule bit_word_eqI) (simp add: bit_simps)
  ultimately show ?thesis by simp
qed

lemma numeric_wire [simp]: "numericInterval (wireInterval v) = v"
  by (simp add: numericInterval_def wireInterval_def mappingDecimal_small)

lemma elems_appended [simp]: "elems (appended xs) = xs"
  by (simp add: appended_def)

lemma numeric_roundtrip [simp]: "numeric (mappingGeometryStateV1 g) = g"
  by (simp add: numeric_def mappingGeometryStateV1_def comp_def)

definition revisionOf :: "IdentityMappingStateV1 \<Rightarrow> nat" where
  "revisionOf m = unat (mappingDecimalV1 (msRevision m))"

lemma nextRevision_Suc:
  assumes "mappingDecimalV1 r \<noteq> - 1"
  shows "unat (mappingDecimalV1 (nextRevision r)) = Suc (unat (mappingDecimalV1 r))"
proof -
  have "mappingDecimalV1 r + 1 \<noteq> 0" using assms by (metis add.commute add_eq_0_iff add.inverse_inverse)
  then have "unat (mappingDecimalV1 r + 1) = Suc (unat (mappingDecimalV1 r))" by (metis add.commute unatSuc)
  then show ?thesis unfolding nextRevision_def mappingDecimal_word .
qed

section \<open>Reading and writing\<close>

lemma readStateV1Path_Some:
  "readStateV1Path env k disk = Inr (Some s) \<longleftrightarrow> \<not> readFails env k \<and> disk = Some s \<and> ValidateStateV1 env s = None
     \<and> validateMappingOwnerPathV1 env s = None"
  by (auto simp: readStateV1Path_def split: option.splits)

lemma openState_Inr: "openState env disk = Inr found \<Longrightarrow> found = disk"
  by (auto simp: openState_def readStateV1Path_def split: option.splits if_splits)

definition writable :: "('doc, 'ovl) stateEnv \<Rightarrow> ('doc, 'ovl) StateV1 \<Rightarrow> bool" where
  "writable env s \<longleftrightarrow> ValidateStateV1 env s = None \<and> marshalOK env s \<and> validateMappingOwnerPathV1 env s = None"

lemma EncodeStateV1_None: "EncodeStateV1 env s = None \<longleftrightarrow> ValidateStateV1 env s = None \<and> marshalOK env s"
  by (simp add: EncodeStateV1_def split: option.splits)

lemma writeStateFile_cases:
  assumes "writeStateFile env k s disk = (e, disk')"
  shows "disk' = disk \<and> e \<noteq> None \<or> disk' = Some s"
  using assms by (auto simp: writeStateFile_def split: write_outcome.splits)

lemma writeStateFile_ok: "writeStateFile env k s disk = (None, disk') \<Longrightarrow> disk' = Some s"
  by (auto simp: writeStateFile_def split: write_outcome.splits)

section \<open>Compare and swap\<close>

definition bumped :: "('doc, 'ovl) StateV1 \<Rightarrow> IdentityMappingStateV1 \<Rightarrow> ('doc, 'ovl) StateV1" where
  "bumped s m = s\<lparr>stIdentityMapping := Some (m\<lparr>msRevision := nextRevision (msRevision m)\<rparr>)\<rparr>"

text \<open>What a change that replaced the file did: \<open>m\<close> is the mapping after the update.\<close>

definition swapped :: "('doc, 'ovl) opsEnv \<Rightarrow> ('doc, 'ovl) StateV1 \<Rightarrow> (('doc, 'ovl) StateV1 \<Rightarrow> ops_error + ('doc, 'ovl) StateV1) \<Rightarrow>
    ('doc, 'ovl) disk \<Rightarrow> ('doc, 'ovl) disk \<Rightarrow> IdentityMappingStateV1 \<Rightarrow> ('doc, 'ovl) StateV1 \<Rightarrow> bool" where
  "swapped env expected update disk disk' m updated \<longleftrightarrow>
     disk = Some expected \<and> disk' = Some (bumped updated m) \<and> update expected = Inr updated \<and> updated \<noteq> expected
     \<and> stIdentityMapping updated = Some m \<and> writable (stateOf env) (bumped updated m) \<and> ValidateStateV1 (stateOf env) expected = None
     \<and> (\<forall>old. stIdentityMapping expected = Some old \<longrightarrow> \<not> msRevoked old \<and> mappingDecimalV1 (msRevision old) \<noteq> - 1)"

lemma commitChange_cases:
  assumes "commitChange env k disk s updated = (res, disk')"
  shows "disk' = disk \<and> (\<forall>t. res = Inr t \<longrightarrow> t = s \<and> updated = s)
    \<or> updated \<noteq> s \<and> (\<exists>m. stIdentityMapping updated = Some m \<and> disk' = Some (bumped updated m) \<and> writable (stateOf env) (bumped updated m)
         \<and> (\<forall>t. res = Inr t \<longrightarrow> t = bumped updated m))"
proof (cases "updated = s")
  case False
  show ?thesis
  proof (cases "stIdentityMapping updated")
    case (Some m)
    obtain e d where w: "writeStateFile (stateOf env) k (bumped updated m) disk = (e, d)" by fastforce
    show ?thesis
      using assms[unfolded commitChange_def Let_def bumped_def[symmetric]] False Some writeStateFile_cases[OF w] w
      by (auto simp: writable_def EncodeStateV1_None bumped_def[symmetric] split: option.splits if_splits)
  qed (use assms False in \<open>auto simp: commitChange_def\<close>)
qed (use assms in \<open>auto simp: commitChange_def\<close>)

lemma change_cases:
  assumes "change env k disk expected update = (res, disk')"
  shows "disk' = disk \<and> (\<forall>t. res = Inr t \<longrightarrow> disk = Some t \<and> t = expected \<and> update t = Inr t)
    \<or> (\<exists>m updated. swapped env expected update disk disk' m updated \<and> (\<forall>t. res = Inr t \<longrightarrow> t = bumped updated m))"
proof (cases "readStateV1Path (stateOf env) k disk = Inr (Some expected) \<and> (\<exists>updated. update expected = Inr updated
    \<and> change env k disk expected update = commitChange env k disk expected updated)
    \<and> (\<forall>old. stIdentityMapping expected = Some old \<longrightarrow> \<not> msRevoked old \<and> mappingDecimalV1 (msRevision old) \<noteq> - 1)")
  case True
  then obtain updated where u: "update expected = Inr updated" "commitChange env k disk expected updated = (res, disk')"
    using assms by auto
  then show ?thesis
    using commitChange_cases[OF u(2)] True unfolding swapped_def readStateV1Path_Some by blast
next
  case False
  then show ?thesis
    using assms by (auto simp: change_def split: if_splits sum.splits option.splits)
qed

section \<open>Authority\<close>

text \<open>
  The identities a mapping holds in one domain: the protected assignments, and the candidate of a
  pending operation once effects may have used it.
\<close>

definition authority :: "(Geometry \<Rightarrow> Interval list) \<Rightarrow> IdentityMappingStateV1 \<Rightarrow> (nat \<times> nat) set" where
  "authority domain m = held domain (protected m) \<union>
     (case msPendingOperation m of
        None \<Rightarrow> {}
      | Some p \<Rightarrow> if opPhase p = ''intent'' then {} else assignment (domain (numeric (opCandidate p))))"

definition sameOwner :: "IdentityMappingStateV1 \<Rightarrow> IdentityMappingStateV1 \<Rightarrow> bool" where
  "sameOwner m n \<longleftrightarrow> msInstallationID n = msInstallationID m \<and> msOwnerDir n = msOwnerDir m \<and> msOperatorUID n = msOperatorUID m
     \<and> msOperatorGID n = msOperatorGID m \<and> msProfile n = msProfile m \<and> msRevoked n = msRevoked m"

definition keeps :: "IdentityMappingStateV1 \<Rightarrow> IdentityMappingStateV1 \<Rightarrow> bool" where
  "keeps m n \<longleftrightarrow> sameOwner m n \<and> authority gmUIDs m \<subseteq> authority gmUIDs n \<and> authority gmGIDs m \<subseteq> authority gmGIDs n
     \<and> held gmUIDs (acceptedGeometry m) \<subseteq> held gmUIDs (acceptedGeometry n) \<and> held gmGIDs (acceptedGeometry m) \<subseteq> held gmGIDs (acceptedGeometry n)"

definition forward :: "IdentityMappingStateV1 \<Rightarrow> IdentityMappingStateV1 \<Rightarrow> bool" where
  "forward m n \<longleftrightarrow> keeps m n \<and> (n \<noteq> m \<longrightarrow> revisionOf m < revisionOf n)"

lemma keeps_refl: "keeps m m"
  by (simp add: keeps_def sameOwner_def)

lemma keeps_trans: "keeps l m \<Longrightarrow> keeps m n \<Longrightarrow> keeps l n"
  by (auto simp: keeps_def sameOwner_def)

lemma forward_refl: "forward m m"
  by (simp add: forward_def keeps_refl)

lemma forward_trans: "forward l m \<Longrightarrow> forward m n \<Longrightarrow> forward l n"
  unfolding forward_def using keeps_trans by (metis order.strict_trans)

lemma numeric_fields [simp]:
  "gmUIDs (numeric g) = map numericInterval (elems (wgUIDs g))" "gmGIDs (numeric g) = map numericInterval (elems (wgGIDs g))"
  "gmProfile (numeric g) = wgProfile g"
  by (simp_all add: numeric_def)

lemma wire_fields [simp]:
  "elems (wgUIDs (mappingGeometryStateV1 g)) = map wireInterval (gmUIDs g)"
  "elems (wgGIDs (mappingGeometryStateV1 g)) = map wireInterval (gmGIDs g)" "wgProfile (mappingGeometryStateV1 g) = gmProfile g"
  by (simp_all add: mappingGeometryStateV1_def)

lemma acceptedGeometry_cong:
  "msAcceptedUIDs n = msAcceptedUIDs m \<Longrightarrow> msAcceptedGIDs n = msAcceptedGIDs m \<Longrightarrow> msProfile n = msProfile m \<Longrightarrow>
   acceptedGeometry n = acceptedGeometry m"
  by (simp only: acceptedGeometry_def)

lemma protected_update [simp]:
  "protected (m\<lparr>msPendingOperation := p\<rparr>) = protected m" "protected (m\<lparr>msRevision := r\<rparr>) = protected m"
  "protected (m\<lparr>msInstallationBinding := b\<rparr>) = protected m"
  by (simp_all add: protected_def geometry_def)

lemma accepted_update [simp]:
  "acceptedGeometry (m\<lparr>msPendingOperation := p\<rparr>) = acceptedGeometry m" "acceptedGeometry (m\<lparr>msRevision := r\<rparr>) = acceptedGeometry m"
  "acceptedGeometry (m\<lparr>msInstallationBinding := b\<rparr>) = acceptedGeometry m"
  by (rule acceptedGeometry_cong; simp)+

lemma keeps_revision: "keeps m (n\<lparr>msRevision := r\<rparr>) \<longleftrightarrow> keeps m n"
  by (simp add: keeps_def sameOwner_def authority_def)

lemma keeps_binding: "keeps m (n\<lparr>msInstallationBinding := b\<rparr>) \<longleftrightarrow> keeps m n"
  by (simp add: keeps_def sameOwner_def authority_def)

lemma keeps_pending:
  assumes "\<And>q. msPendingOperation m = Some q \<Longrightarrow> opPhase q \<noteq> ''intent'' \<Longrightarrow>
      (\<exists>r. p = Some r \<and> opPhase r \<noteq> ''intent'' \<and> opCandidate r = opCandidate q)"
  shows "keeps m (m\<lparr>msPendingOperation := p\<rparr>)"
  using assms by (force simp: keeps_def sameOwner_def authority_def split: option.splits if_splits)

lemma authority_assigned:
  assumes "ValidateGeometry r = Inr r" "elems (msUIDAssignments n) = map wireInterval (gmUIDs r)" "elems (msGIDAssignments n) = map wireInterval (gmGIDs r)"
  shows "held gmUIDs (protected n) = assignment (gmUIDs r)" "held gmGIDs (protected n) = assignment (gmGIDs r)"
proof -
  have "gmUIDs r \<noteq> []" using assms(1) geometryOK_nonempty ValidateGeometry_Inr by blast
  then show "held gmUIDs (protected n) = assignment (gmUIDs r)" "held gmGIDs (protected n) = assignment (gmGIDs r)"
    using assms(2,3) by (simp_all add: protected_def geometry_def comp_def)
qed

lemma retainUpdate_keeps:
  assumes "retainUpdate m p = Inr n" "msPendingOperation m = Some p"
  shows "keeps m n"
proof -
  obtain r where r: "RetainGeometry (numeric (opCandidate p)) (protected m) = Inr r"
    "n = m\<lparr>msUIDAssignments := wgUIDs (mappingGeometryStateV1 r), msGIDAssignments := wgGIDs (mappingGeometryStateV1 r),
       msRetainedStorage := mergeHandles (msRetainedStorage m) (opOwnedObjects p), msPendingOperation := None\<rparr>"
    using assms(1) by (auto simp: retainUpdate_def Let_def split: sum.splits)
  have "held gmUIDs (protected n) = assignment (gmUIDs r)" "held gmGIDs (protected n) = assignment (gmGIDs r)"
    using retained(3)[OF r(1)] by (rule authority_assigned; simp add: r(2))+
  moreover have "acceptedGeometry n = acceptedGeometry m" by (rule acceptedGeometry_cong) (simp_all add: r(2))
  moreover have "sameOwner m n" "msPendingOperation n = None" by (simp_all add: sameOwner_def r(2))
  ultimately show ?thesis
    using retained(1)[OF r(1)] assms(2) unfolding keeps_def authority_def denotes_def by auto
qed

lemma retainUpdate_revision: "retainUpdate m p = Inr n \<Longrightarrow> msRevision n = msRevision m"
  by (auto simp: retainUpdate_def Let_def split: sum.splits)

section \<open>Every update keeps what a mapping holds\<close>

lemma configureUpdate_keeps:
  assumes "configureUpdate env c i o' s = Inr t" "stIdentityMapping s = Some m"
  shows "\<exists>n. stIdentityMapping t = Some n \<and> keeps m n \<and> msRevision n = msRevision m"
proof (cases "t = s")
  case True
  then show ?thesis using assms(2) keeps_refl by blast
next
  case False
  obtain e h where e: "evidenceOf env = Some e" "evPlan e s (canonicalOf c) = Some h"
    using assms by (auto simp: configureUpdate_def split: option.splits if_splits)
  have t: "t = s\<lparr>stIdentityMapping := Some (m\<lparr>msPendingOperation := Some (intentOf i ''configure'' (stCurrent s) m c (appended (elems h)) None)\<rparr>)\<rparr>"
      "\<And>p. msPendingOperation m = Some p \<Longrightarrow> replaceIntent e s m p i c (appended (elems h)) = Inr True"
    using assms e False by (auto simp: configureUpdate_def Let_def split: option.splits if_splits sum.splits bool.splits)
  have "opPhase p = ''intent''" if "msPendingOperation m = Some p" for p
    using t(2)[OF that] by (auto simp: replaceIntent_def split: if_splits)
  then show ?thesis using t(1) keeps_pending[of m "Some (intentOf i ''configure'' (stCurrent s) m c (appended (elems h)) None)"] by auto
qed

lemma onPending_Inr:
  assumes "onPending f s = Inr t"
  obtains m p n where "stIdentityMapping s = Some m" "msPendingOperation m = Some p" "f m p = Inr n" "t = s\<lparr>stIdentityMapping := Some n\<rparr>"
  using assms that by (auto simp: onPending_def split: option.splits sum.splits)

lemma beginUpdate_keeps: "beginUpdate env s m p = Inr n \<Longrightarrow> msPendingOperation m = Some p \<Longrightarrow> keeps m n \<and> msRevision n = msRevision m"
  by (auto simp: beginUpdate_def Let_def intro!: keeps_pending split: option.splits if_splits)

lemma cancelUpdate_keeps: "cancelUpdate e s m p = Inr n \<Longrightarrow> msPendingOperation m = Some p \<Longrightarrow> keeps m n \<and> msRevision n = msRevision m"
  by (auto simp: cancelUpdate_def intro!: keeps_pending split: if_splits)

lemma verifyUpdate_keeps: "verifyUpdate e s m p = Inr n \<Longrightarrow> msPendingOperation m = Some p \<Longrightarrow> keeps m n \<and> msRevision n = msRevision m"
  by (auto simp: verifyUpdate_def intro!: keeps_pending split: if_splits)

lemma prepareUpdate_keeps:
  assumes "prepareUpdate env c i n a s = Inr t" "stIdentityMapping s = Some m"
  shows "\<exists>n. stIdentityMapping t = Some n \<and> keeps m n \<and> msRevision n = msRevision m"
  using assms by (auto simp: prepareUpdate_def mappingOf_def intro!: keeps_pending split: option.splits if_splits)

definition nativeInput :: "IdentityMappingStateV1 \<Rightarrow> EnvironmentGenerationState \<Rightarrow> IdentityPolicyLockV1 \<Rightarrow> Geometry \<Rightarrow> NativeIdentityOperationV1 \<Rightarrow>
    IdentityExecutionInputV1" where
  "nativeInput m generation policyLock candidate native =
     \<lparr>xiGeneration = egBuildLockDigest generation, xiPolicy = Some policyLock, xiCandidate = candidate, xiReservations = protected m,
      xiAccepted = acceptedGeometry m, xiRuntimeUsers = elems (noRuntimeUsers native), xiRuntimeGroups = elems (noRuntimeGroups native)\<rparr>"

lemma nativePlan_Inr:
  assumes "nativePlan env k disk s candidate native = Inr plan"
  obtains m generation lock policyLock where "stIdentityMapping s = Some m" "stCurrent s = Some generation"
    "msSchema m = IdentityMappingStateSchemaV2" "buildLock env (egBuildLockDigest generation) = Some lock"
    "blIdentityPolicy lock = Some policyLock" "PlanIdentityExecutionV1 (nativeInput m generation policyLock candidate native) = Inr plan"
  using assms that unfolding nativePlan_def nativeInput_def by (auto split: if_splits option.splits sum.splits)

lemma plan_authority:
  assumes "PlanIdentityExecutionV1 (nativeInput m generation policyLock candidate native) = Inr plan"
  shows "ValidateGeometry (xpProspectiveReservations plan) = Inr (xpProspectiveReservations plan)"
    "ValidateGeometry (xpProspectiveAccepted plan) = Inr (xpProspectiveAccepted plan)"
    "assignment (gmUIDs (xpProspectiveReservations plan)) = held gmUIDs (protected m) \<union> assignment (gmUIDs candidate)"
    "assignment (gmGIDs (xpProspectiveReservations plan)) = held gmGIDs (protected m) \<union> assignment (gmGIDs candidate)"
    "held gmUIDs (acceptedGeometry m) \<subseteq> assignment (gmUIDs (xpProspectiveAccepted plan))"
    "held gmGIDs (acceptedGeometry m) \<subseteq> assignment (gmGIDs (xpProspectiveAccepted plan))"
proof -
  let ?in = "nativeInput m generation policyLock candidate native"
  obtain active accepted where
      r: "RetainGeometry (canonicalOf (xiCandidate ?in)) (xiReservations ?in) = Inr (xpProspectiveReservations plan)"
      and a: "RetainGeometry active accepted = Inr (xpProspectiveAccepted plan)"
    using assms by (rule plan_parts)
  show "ValidateGeometry (xpProspectiveReservations plan) = Inr (xpProspectiveReservations plan)" using r by (rule retained(3))
  show "ValidateGeometry (xpProspectiveAccepted plan) = Inr (xpProspectiveAccepted plan)" using a by (rule retained(3))
  show "assignment (gmUIDs (xpProspectiveReservations plan)) = held gmUIDs (protected m) \<union> assignment (gmUIDs candidate)"
    "assignment (gmGIDs (xpProspectiveReservations plan)) = held gmGIDs (protected m) \<union> assignment (gmGIDs candidate)"
    "held gmUIDs (acceptedGeometry m) \<subseteq> assignment (gmUIDs (xpProspectiveAccepted plan))"
    "held gmGIDs (acceptedGeometry m) \<subseteq> assignment (gmGIDs (xpProspectiveAccepted plan))"
    using plan_correct[OF assms] by (auto simp: planFor_def domainPlan_def Let_def nativeInput_def)
qed

definition admittedMapping :: "IdentityExecutionPlanV1 \<Rightarrow> IdentityMappingStateV1 \<Rightarrow> IdentityMappingOperationV1 \<Rightarrow> NativeIdentityOperationV1 \<Rightarrow>
    IdentityMappingStateV1" where
  "admittedMapping plan m p native =
     m\<lparr>msUIDAssignments := wgUIDs (mappingGeometryStateV1 (xpProspectiveReservations plan)),
       msGIDAssignments := wgGIDs (mappingGeometryStateV1 (xpProspectiveReservations plan)),
       msAcceptedUIDs := Some (wgUIDs (mappingGeometryStateV1 (xpProspectiveAccepted plan))),
       msAcceptedGIDs := Some (wgGIDs (mappingGeometryStateV1 (xpProspectiveAccepted plan))),
       msDormantUIDs := appended (map wireInterval (xpDormantUIDs plan)), msDormantGIDs := appended (map wireInterval (xpDormantGIDs plan)),
       msAdmittedGeneration := opExpectedGeneration p, msEngine := Some (noEngine native), msNativeProcess := Some (noProcess native),
       msPendingOperation := Some (p\<lparr>opPhase := ''release-attempted'', opExpectedRevision := nextRevision (msRevision m)\<rparr>)\<rparr>"

lemma admitUpdate_Inr:
  assumes "admitUpdate env plan s m p = Inr n"
  obtains evidence native where "evidenceOf env = Some evidence" "evVerify evidence s" "opNative p = Some native"
    "n = admittedMapping plan m p native"
  using assms that by (auto simp: admitUpdate_def admittedMapping_def Let_def split: option.splits if_splits)

lemma held_accepted:
  assumes "ValidateGeometry a = Inr a" "msAcceptedUIDs n = Some (wgUIDs (mappingGeometryStateV1 a))" "msAcceptedGIDs n = Some (wgGIDs (mappingGeometryStateV1 a))"
  shows "held gmUIDs (acceptedGeometry n) = assignment (gmUIDs a)" "held gmGIDs (acceptedGeometry n) = assignment (gmGIDs a)"
proof -
  have "gmUIDs a \<noteq> []" using assms(1) geometryOK_nonempty ValidateGeometry_Inr by blast
  then show "held gmUIDs (acceptedGeometry n) = assignment (gmUIDs a)" "held gmGIDs (acceptedGeometry n) = assignment (gmGIDs a)"
    using assms(2,3) by (simp_all add: acceptedGeometry_def comp_def)
qed

lemma admitUpdate_keeps:
  assumes "admitUpdate env plan s m p = Inr n" "msPendingOperation m = Some p"
    "PlanIdentityExecutionV1 (nativeInput m generation policyLock (numeric (opCandidate p)) native) = Inr plan"
  shows "keeps m n" "msRevision n = msRevision m"
proof -
  obtain evidence native' where n: "n = admittedMapping plan m p native'" "opNative p = Some native'"
    using assms(1) by (rule admitUpdate_Inr)
  note plan = plan_authority[OF assms(3)]
  have p: "held gmUIDs (protected n) = assignment (gmUIDs (xpProspectiveReservations plan))"
      "held gmGIDs (protected n) = assignment (gmGIDs (xpProspectiveReservations plan))"
    using plan(1) by (rule authority_assigned; simp add: n(1) admittedMapping_def)+
  have a: "held gmUIDs (acceptedGeometry n) = assignment (gmUIDs (xpProspectiveAccepted plan))"
      "held gmGIDs (acceptedGeometry n) = assignment (gmGIDs (xpProspectiveAccepted plan))"
    using plan(2) by (rule held_accepted; simp add: n(1) admittedMapping_def)+
  have o': "sameOwner m n" by (simp add: sameOwner_def n(1) admittedMapping_def)
  have q: "msPendingOperation n = Some (p\<lparr>opPhase := ''release-attempted'', opExpectedRevision := nextRevision (msRevision m)\<rparr>)" by (simp add: n(1) admittedMapping_def)
  show "keeps m n"
    unfolding keeps_def authority_def p a plan(3,4) q assms(2) using o' plan(5,6) by auto
  show "msRevision n = msRevision m" by (simp add: n(1) admittedMapping_def)
qed

lemma state_mapping:
  assumes "ValidateStateV1 env s = None"
  shows "validateIdentityMappingStateV1 s = None"
  using assms by (auto simp: ValidateStateV1_def split: if_splits option.splits)

lemma valid_native: "validateIdentityMappingStateV1 s = None \<Longrightarrow> stIdentityMapping s = Some m \<Longrightarrow> validateNativeMappingStateV1 m = None"
  by (auto simp: validateIdentityMappingStateV1_def validateMapping_def split: if_splits)

lemma upgradeUpdate_keeps:
  assumes "upgradeUpdate s = Inr t" "stIdentityMapping s = Some m" "ValidateStateV1 env s = None"
  shows "\<exists>n. stIdentityMapping t = Some n \<and> keeps m n \<and> msRevision n = msRevision m"
proof -
  let ?m = "m\<lparr>msSchema := IdentityMappingStateSchemaV2, msProcessModel := IdentityMappingNativeProcessModelV1,
    msAcceptedUIDs := Some (Some []), msAcceptedGIDs := Some (Some [])\<rparr>"
  have v1: "msSchema m = IdentityMappingStateSchemaV1" using assms(1,2) by (auto simp: upgradeUpdate_def split: if_splits)
  have "msAcceptedUIDs m = None"
    using valid_native[OF state_mapping[OF assms(3)] assms(2)] v1 by (auto simp: validateNativeMappingStateV1_def split: if_splits)
  then have "acceptedGeometry m = None" by (simp add: acceptedGeometry_def)
  moreover have "protected ?m = protected m" "authority f ?m = authority f m" for f
    by (simp_all add: protected_def geometry_def authority_def)
  ultimately have keep: "keeps m ?m" by (simp add: keeps_def sameOwner_def)
  show ?thesis
  proof (cases "msPendingOperation m")
    case None
    then show ?thesis using assms(1,2) keep by (auto simp: upgradeUpdate_def Let_def split: if_splits)
  next
    case (Some p)
    let ?p = "if opPhase p = ''intent'' then p\<lparr>opExpectedRevision := nextRevision (msRevision m)\<rparr> else p"
    have "keeps ?m (?m\<lparr>msPendingOperation := Some ?p\<rparr>)" using Some by (intro keeps_pending) auto
    then have "keeps m (?m\<lparr>msPendingOperation := Some ?p\<rparr>)" by (rule keeps_trans[OF keep])
    then show ?thesis using assms(1,2) Some by (auto simp: upgradeUpdate_def Let_def split: if_splits)
  qed
qed

section \<open>Progress of the state file\<close>

definition progress :: "('doc, 'ovl) disk \<Rightarrow> ('doc, 'ovl) disk \<Rightarrow> bool" where
  "progress disk disk' \<longleftrightarrow> (\<forall>s. disk = Some s \<longrightarrow> (\<exists>t. disk' = Some t \<and>
     (\<forall>m. stIdentityMapping s = Some m \<longrightarrow> (\<exists>n. stIdentityMapping t = Some n \<and> forward m n))))"

definition pendingCurrent :: "('doc, 'ovl) StateV1 \<Rightarrow> bool" where
  "pendingCurrent s \<longleftrightarrow> (\<forall>m p. stIdentityMapping s = Some m \<longrightarrow> msPendingOperation m = Some p \<longrightarrow> opExpectedGeneration p = stCurrent s)"

definition sound :: "('doc, 'ovl) disk \<Rightarrow> bool" where
  "sound disk \<longleftrightarrow> (\<forall>s. disk = Some s \<longrightarrow> validateIdentityMappingStateV1 s = None \<and> pendingCurrent s)"

lemma progress_refl: "progress disk disk"
  using forward_refl by (auto simp: progress_def)

lemma progress_trans: "progress a b \<Longrightarrow> progress b c \<Longrightarrow> progress a c"
  unfolding progress_def by (blast intro: forward_trans)

lemma forward_bumped:
  assumes "keeps m n" "msRevision n = msRevision m" "mappingDecimalV1 (msRevision m) \<noteq> - 1"
  shows "forward m (n\<lparr>msRevision := nextRevision (msRevision n)\<rparr>)"
  using assms nextRevision_Suc[OF assms(3)] by (simp add: forward_def keeps_revision revisionOf_def)

lemma bumped_mapping [simp]: "stIdentityMapping (bumped s m) = Some (m\<lparr>msRevision := nextRevision (msRevision m)\<rparr>)"
    "stCurrent (bumped s m) = stCurrent s"
  by (simp_all add: bumped_def)

lemma change_progress:
  assumes "\<And>t m. update expected = Inr t \<Longrightarrow> stIdentityMapping expected = Some m \<Longrightarrow> ValidateStateV1 (stateOf env) expected = None \<Longrightarrow>
      \<exists>n. stIdentityMapping t = Some n \<and> keeps m n \<and> msRevision n = msRevision m"
  shows "progress disk (snd (change env k disk expected update))"
proof -
  obtain res disk' where c: "change env k disk expected update = (res, disk')" by fastforce
  show ?thesis
    using change_cases[OF c]
  proof (elim disjE exE conjE)
    fix m updated assume s: "swapped env expected update disk disk' m updated"
    have "\<exists>n. Some (m\<lparr>msRevision := nextRevision (msRevision m)\<rparr>) = Some n \<and> forward old n" if "stIdentityMapping expected = Some old" for old
    proof -
      have "keeps old m" "msRevision m = msRevision old"
        using assms[OF _ that] s by (auto simp: swapped_def)
      then show ?thesis using forward_bumped[of old m] s that by (auto simp: swapped_def)
    qed
    then show ?thesis using s c by (auto simp: progress_def swapped_def)
  qed (use c progress_refl in auto)
qed

lemma change_sound:
  assumes "sound disk"
    and "\<And>t. update expected = Inr t \<Longrightarrow> pendingCurrent expected \<Longrightarrow> pendingCurrent t"
  shows "sound (snd (change env k disk expected update))"
proof -
  obtain res disk' where c: "change env k disk expected update = (res, disk')" by fastforce
  show ?thesis
    using change_cases[OF c]
  proof (elim disjE exE conjE)
    fix m updated assume s: "swapped env expected update disk disk' m updated"
    then have "pendingCurrent updated" using assms by (auto simp: swapped_def sound_def)
    then have "pendingCurrent (bumped updated m)" using s by (auto simp: pendingCurrent_def swapped_def)
    moreover have "validateIdentityMappingStateV1 (bumped updated m) = None"
      using s state_mapping by (auto simp: swapped_def writable_def)
    ultimately show ?thesis using s c by (auto simp: sound_def swapped_def)
  qed (use c assms(1) in auto)
qed

text \<open>The operations that pass through one or two changes.\<close>

lemma onPending_progress:
  assumes "\<And>m p n. stIdentityMapping expected = Some m \<Longrightarrow> msPendingOperation m = Some p \<Longrightarrow> f expected m p = Inr n \<Longrightarrow> keeps m n \<and> msRevision n = msRevision m"
  shows "progress disk (snd (change env k disk expected (\<lambda>s. onPending (f s) s)))"
proof (rule change_progress)
  fix t m assume t: "onPending (f expected) expected = Inr t" and m: "stIdentityMapping expected = Some m"
  from t obtain m' p n where n: "stIdentityMapping expected = Some m'" "msPendingOperation m' = Some p" "f expected m' p = Inr n"
      "t = expected\<lparr>stIdentityMapping := Some n\<rparr>" by (rule onPending_Inr)
  then show "\<exists>n. stIdentityMapping t = Some n \<and> keeps m n \<and> msRevision n = msRevision m"
    using assms[OF n(1-3)] m by simp
qed

lemma onPending_sound:
  assumes "sound disk"
    and "\<And>m p n q. stIdentityMapping expected = Some m \<Longrightarrow> msPendingOperation m = Some p \<Longrightarrow> f expected m p = Inr n \<Longrightarrow> msPendingOperation n = Some q \<Longrightarrow>
      opExpectedGeneration q = opExpectedGeneration p"
  shows "sound (snd (change env k disk expected (\<lambda>s. onPending (f s) s)))"
proof (rule change_sound[OF assms(1)])
  fix t assume t: "onPending (f expected) expected = Inr t" and cur: "pendingCurrent expected"
  from t obtain m p n where n: "stIdentityMapping expected = Some m" "msPendingOperation m = Some p" "f expected m p = Inr n"
      "t = expected\<lparr>stIdentityMapping := Some n\<rparr>" by (rule onPending_Inr)
  have "opExpectedGeneration p = stCurrent expected" using cur n(1,2) by (simp add: pendingCurrent_def)
  then show "pendingCurrent t" using assms(2)[OF n(1-3)] n(4) by (simp add: pendingCurrent_def)
qed

lemma configure_step:
  "progress disk (snd (Configure env disk expected c i))" "sound disk \<Longrightarrow> sound (snd (Configure env disk expected c i))"
proof -
  have p: "progress disk (snd (change env 20 disk expected (configureUpdate env g i h)))" for g h
    by (rule change_progress) (rule configureUpdate_keeps)
  have s: "sound (snd (change env 20 disk expected (configureUpdate env g i h)))" if "sound disk" for g h
  proof (rule change_sound[OF that])
    fix t assume "configureUpdate env g i h expected = Inr t" "pendingCurrent expected"
    then show "pendingCurrent t"
      by (auto simp: configureUpdate_def pendingCurrent_def intentOf_def firstMapping_def Let_def split: if_splits option.splits sum.splits bool.splits)
  qed
  show "progress disk (snd (Configure env disk expected c i))"
    using p progress_refl by (auto simp: Configure_def split: sum.splits)
  show "sound disk \<Longrightarrow> sound (snd (Configure env disk expected c i))"
    using s by (auto simp: Configure_def split: sum.splits)
qed

lemma begin_step:
  "progress disk (snd (BeginEffects env disk expected i))" "sound disk \<Longrightarrow> sound (snd (BeginEffects env disk expected i))"
proof -
  have "progress disk (snd (change env 20 disk expected (\<lambda>s. onPending (beginUpdate env s) s)))"
    by (rule onPending_progress) (rule beginUpdate_keeps)
  then show "progress disk (snd (BeginEffects env disk expected i))"
    using progress_refl by (auto simp: BeginEffects_def split: option.splits)
  have "sound (snd (change env 20 disk expected (\<lambda>s. onPending (beginUpdate env s) s)))" if "sound disk"
    using that by (rule onPending_sound) (auto simp: beginUpdate_def Let_def split: option.splits if_splits)
  then show "sound disk \<Longrightarrow> sound (snd (BeginEffects env disk expected i))"
    by (auto simp: BeginEffects_def split: option.splits)
qed

lemma retain_change:
  "progress disk (snd (change env k disk expected (onPending retainUpdate)))"
  "sound disk \<Longrightarrow> sound (snd (change env k disk expected (onPending retainUpdate)))"
proof -
  show "progress disk (snd (change env k disk expected (onPending retainUpdate)))"
    by (rule onPending_progress[of expected "\<lambda>_. retainUpdate"]) (simp add: retainUpdate_keeps retainUpdate_revision)
  show "sound disk \<Longrightarrow> sound (snd (change env k disk expected (onPending retainUpdate)))"
    by (rule onPending_sound[of disk expected "\<lambda>_. retainUpdate"]) (auto simp: retainUpdate_def Let_def split: sum.splits)
qed

lemma recoverNative_change:
  "progress disk (snd (recoverNative env e disk expected))" "sound disk \<Longrightarrow> sound (snd (recoverNative env e disk expected))"
proof -
  let ?u = "\<lambda>s. if \<not> evVerify e s then Inl OpsVerify else onPending retainUpdate s"
  have u: "?u s = Inr t \<Longrightarrow> onPending retainUpdate s = Inr t" for s t by (simp split: if_splits)
  have keep: "\<exists>n. stIdentityMapping t = Some n \<and> keeps m n \<and> msRevision n = msRevision m"
    if t: "?u expected = Inr t" and m: "stIdentityMapping expected = Some m" for t m
  proof -
    from u[OF t] obtain m' p n where n: "stIdentityMapping expected = Some m'" "msPendingOperation m' = Some p" "retainUpdate m' p = Inr n"
      "t = expected\<lparr>stIdentityMapping := Some n\<rparr>" by (rule onPending_Inr)
    then show ?thesis using m retainUpdate_keeps[OF n(3,2)] retainUpdate_revision[OF n(3)] by simp
  qed
  show "progress disk (snd (recoverNative env e disk expected))"
    unfolding recoverNative_def by (rule change_progress) (rule keep)
  have cur: "pendingCurrent t" if t: "?u expected = Inr t" for t
  proof -
    from u[OF t] obtain m' p n where n: "retainUpdate m' p = Inr n" "t = expected\<lparr>stIdentityMapping := Some n\<rparr>" by (rule onPending_Inr)
    have "msPendingOperation n = None" using n(1) by (auto simp: retainUpdate_def Let_def split: sum.splits)
    then show ?thesis using n(2) by (simp add: pendingCurrent_def)
  qed
  show "sound disk \<Longrightarrow> sound (snd (recoverNative env e disk expected))"
    unfolding recoverNative_def by (erule change_sound) (rule cur)
qed

lemma verify_change:
  "progress disk (snd (change env k disk expected (\<lambda>s. onPending (verifyUpdate e s) s)))"
  "sound disk \<Longrightarrow> sound (snd (change env k disk expected (\<lambda>s. onPending (verifyUpdate e s) s)))"
proof -
  show "progress disk (snd (change env k disk expected (\<lambda>s. onPending (verifyUpdate e s) s)))"
    by (rule onPending_progress) (rule verifyUpdate_keeps)
  show "sound disk \<Longrightarrow> sound (snd (change env k disk expected (\<lambda>s. onPending (verifyUpdate e s) s)))"
    by (erule onPending_sound) (auto simp: verifyUpdate_def split: if_splits)
qed

lemma cancel_change:
  "progress disk (snd (change env k disk expected (\<lambda>s. onPending (cancelUpdate e s) s)))"
  "sound disk \<Longrightarrow> sound (snd (change env k disk expected (\<lambda>s. onPending (cancelUpdate e s) s)))"
proof -
  show "progress disk (snd (change env k disk expected (\<lambda>s. onPending (cancelUpdate e s) s)))"
    by (rule onPending_progress) (rule cancelUpdate_keeps)
  show "sound disk \<Longrightarrow> sound (snd (change env k disk expected (\<lambda>s. onPending (cancelUpdate e s) s)))"
    by (erule onPending_sound) (auto simp: cancelUpdate_def split: if_splits)
qed

text \<open>The second change of a completed recovery starts from the file the first one left.\<close>

definition finishRecovery :: "('doc, 'ovl) opsEnv \<Rightarrow> ('doc, 'ovl) IdentityMappingEvidenceV1 \<Rightarrow> ('doc, 'ovl) disk \<Rightarrow> ('doc, 'ovl) StateV1 \<Rightarrow> ('doc, 'ovl) opResult" where
  "finishRecovery env e disk expected =
     (case change env 20 disk expected (\<lambda>s. onPending (verifyUpdate e s) s) of
        (Inl err, disk') \<Rightarrow> (Inl err, disk')
      | (Inr verified, disk') \<Rightarrow> change env 30 disk' verified (onPending retainUpdate))"

lemma finishRecovery_step:
  "progress disk (snd (finishRecovery env e disk expected))" "sound disk \<Longrightarrow> sound (snd (finishRecovery env e disk expected))"
proof -
  obtain res disk' where c: "change env 20 disk expected (\<lambda>s. onPending (verifyUpdate e s) s) = (res, disk')" by fastforce
  have p: "progress disk disk'" using verify_change(1)[of disk env 20 expected e] c by simp
  have s: "sound disk \<Longrightarrow> sound disk'" using verify_change(2)[of disk env 20 expected e] c by simp
  show "progress disk (snd (finishRecovery env e disk expected))"
    using p c progress_trans[OF p retain_change(1)] by (cases res) (simp_all add: finishRecovery_def)
  show "sound disk \<Longrightarrow> sound (snd (finishRecovery env e disk expected))"
    using s c retain_change(2) by (cases res) (simp_all add: finishRecovery_def)
qed

lemma Recover_cases:
  "snd (Recover env disk expected i b) = disk
   \<or> (\<exists>e. snd (Recover env disk expected i b) = snd (change env 20 disk expected (\<lambda>s. onPending (cancelUpdate e s) s)))
   \<or> (\<exists>e. snd (Recover env disk expected i b) = snd (recoverNative env e disk expected))
   \<or> (\<exists>e. snd (Recover env disk expected i b) = snd (finishRecovery env e disk expected))"
  unfolding Recover_def finishRecovery_def[symmetric] by (auto split: option.splits sum.splits)

lemma recover_step:
  "progress disk (snd (Recover env disk expected i b))" "sound disk \<Longrightarrow> sound (snd (Recover env disk expected i b))"
proof -
  have "progress disk (snd (Recover env disk expected i b)) \<and> (sound disk \<longrightarrow> sound (snd (Recover env disk expected i b)))"
    using Recover_cases[of env disk expected i b]
    by (elim disjE exE) (simp_all add: progress_refl cancel_change recoverNative_change finishRecovery_step)
  then show "progress disk (snd (Recover env disk expected i b))" "sound disk \<Longrightarrow> sound (snd (Recover env disk expected i b))"
    by blast+
qed

lemma upgrade_step:
  "progress disk (snd (UpgradeNativeMapping env disk expected))" "sound disk \<Longrightarrow> sound (snd (UpgradeNativeMapping env disk expected))"
proof -
  show "progress disk (snd (UpgradeNativeMapping env disk expected))"
    unfolding UpgradeNativeMapping_def by (rule change_progress) (rule upgradeUpdate_keeps)
  have cur: "pendingCurrent t" if "upgradeUpdate expected = Inr t" "pendingCurrent expected" for t
    using that by (auto simp: upgradeUpdate_def pendingCurrent_def Let_def split: option.splits if_splits)
  show "sound disk \<Longrightarrow> sound (snd (UpgradeNativeMapping env disk expected))"
    unfolding UpgradeNativeMapping_def by (erule change_sound) (rule cur)
qed

lemma prepare_step:
  "progress disk (snd (PrepareNativeExecution env disk expected c i n))" "sound disk \<Longrightarrow> sound (snd (PrepareNativeExecution env disk expected c i n))"
proof -
  have p: "progress disk (snd (change env 20 disk expected (prepareUpdate env g i h a)))" for g h a
    by (rule change_progress) (rule prepareUpdate_keeps)
  then show "progress disk (snd (PrepareNativeExecution env disk expected c i n))"
    using progress_refl by (auto simp: PrepareNativeExecution_def split: sum.splits)
  have cur: "pendingCurrent t" if "prepareUpdate env g i h a expected = Inr t" for g h a t
    using that by (auto simp: prepareUpdate_def mappingOf_def pendingCurrent_def intentOf_def split: option.splits if_splits)
  have "sound (snd (change env 20 disk expected (prepareUpdate env g i h a)))" if "sound disk" for g h a
    using that by (rule change_sound) (rule cur)
  then show "sound disk \<Longrightarrow> sound (snd (PrepareNativeExecution env disk expected c i n))"
    by (auto simp: PrepareNativeExecution_def split: sum.splits)
qed

text \<open>An admission that reaches its change has a plan for the mapping it read.\<close>

lemma Admit_cases:
  assumes "AdmitNativeExecution env disk expected i = (res, disk')"
  obtains (refused) err where "res = Inl err" "disk' = disk"
  | (changed) m p native generation policyLock plan where "stIdentityMapping expected = Some m" "msPendingOperation m = Some p" "opNative p = Some native"
      "ObserveEffects env 0 disk expected (numeric (noActive native)) i = Inr expected"
      "checkNativePending env 40 disk expected p native = Inr plan"
      "PlanIdentityExecutionV1 (nativeInput m generation policyLock (numeric (opCandidate p)) native) = Inr plan"
      "change env 60 disk expected (\<lambda>s. onPending (admitUpdate env plan s) s) = (res, disk')"
proof (cases "\<exists>err. res = Inl err \<and> disk' = disk")
  case True
  then show ?thesis using refused by blast
next
  case False
  obtain m p native plan u where r: "stIdentityMapping expected = Some m" "msPendingOperation m = Some p" "opNative p = Some native"
      "ObserveEffects env 0 disk expected (numeric (noActive native)) i = Inr u" "checkNativePending env 40 disk expected p native = Inr plan"
      "change env 60 disk expected (\<lambda>s. onPending (admitUpdate env plan s) s) = (res, disk')"
    using assms False by (auto simp: AdmitNativeExecution_def split: option.splits if_splits sum.splits)
  have u: "u = expected" using r(4) by (auto simp: ObserveEffects_def Let_def split: if_splits sum.splits option.splits)
  have "nativePlan env 40 disk expected (numeric (opCandidate p)) native = Inr plan"
    using r(5) by (auto simp: checkNativePending_def split: sum.splits if_splits)
  then obtain m' generation lock policyLock where "stIdentityMapping expected = Some m'"
      "PlanIdentityExecutionV1 (nativeInput m' generation policyLock (numeric (opCandidate p)) native) = Inr plan" by (rule nativePlan_Inr)
  then show ?thesis using r u changed by simp
qed

lemma admit_step:
  "progress disk (snd (AdmitNativeExecution env disk expected i))" "sound disk \<Longrightarrow> sound (snd (AdmitNativeExecution env disk expected i))"
proof -
  obtain res disk' where a: "AdmitNativeExecution env disk expected i = (res, disk')" by fastforce
  from a have "progress disk disk' \<and> (sound disk \<longrightarrow> sound disk')"
  proof (cases rule: Admit_cases)
    case refused
    then show ?thesis using progress_refl by simp
  next
    case (changed m p native generation policyLock plan)
    have "progress disk (snd (change env 60 disk expected (\<lambda>s. onPending (admitUpdate env plan s) s)))"
    proof (rule onPending_progress)
      fix m' p' n assume "stIdentityMapping expected = Some m'" "msPendingOperation m' = Some p'" "admitUpdate env plan expected m' p' = Inr n"
      then show "keeps m' n \<and> msRevision n = msRevision m'"
        using admitUpdate_keeps[OF _ _ changed(6), of env expected n] changed(1,2) by simp
    qed
    moreover have "sound (snd (change env 60 disk expected (\<lambda>s. onPending (admitUpdate env plan s) s)))" if "sound disk"
      using that by (rule onPending_sound) (erule admitUpdate_Inr, simp add: admittedMapping_def, auto)
    ultimately show ?thesis using changed(7) by simp
  qed
  then show "progress disk (snd (AdmitNativeExecution env disk expected i))" "sound disk \<Longrightarrow> sound (snd (AdmitNativeExecution env disk expected i))"
    using a by simp_all
qed

end
