(* ===== verification/MappingHistory.thy ===== *)
theory MappingHistory
  imports MappingProofs
begin

text \<open>
  Histories of the deployment state file: the operations that replace it, in any order and
  under any outcome of the file system, the lock, the host check and the effect owner. Two
  operations that replace the file are left out, \<open>BeginTerminalRemovalV1\<close>
  (\<open>terminal_removal_guard.go\<close>) and \<open>commitRecoveredStateV1\<close>
  (\<open>legacy_components_state_recovery.go\<close>): both refuse a file that retains a mapping.
\<close>

section \<open>Operations on the whole state\<close>

lemma written:
  assumes new: "x = disk \<or> x = Some t \<and> ValidateStateV1 env t = None"
    and forward: "\<And>s m. disk = Some s \<Longrightarrow> stIdentityMapping s = Some m \<Longrightarrow> \<exists>n. stIdentityMapping t = Some n \<and> forward m n"
    and pending: "sound disk \<Longrightarrow> pendingCurrent t"
  shows "progress disk x \<and> (sound disk \<longrightarrow> sound x)"
proof (cases "x = disk")
  case False
  then have t: "x = Some t" "validateIdentityMappingStateV1 t = None" using new state_mapping[of env t] by auto
  have "progress disk x" unfolding progress_def t(1) using forward by blast
  moreover have "sound disk \<longrightarrow> sound x" using t pending by (simp add: sound_def)
  ultimately show ?thesis by blast
qed (simp add: progress_refl)

lemma publishInstalled_cases:
  "snd (publishInstalled env t disk) = disk \<or> snd (publishInstalled env t disk) = Some t \<and> ValidateStateV1 env t = None"
  using writeStateFile_cases[of env 0 t disk]
  by (auto simp: publishInstalled_def writeInstalledStateV1_def EncodeStateV1_None split: option.splits prod.splits)

lemma commitState_cases:
  assumes "CommitStateV1 env expected t disk = (e, disk')"
  shows "disk' = disk \<or> disk' = Some t \<and> ValidateStateV1 env t = None
    \<and> (case disk of None \<Rightarrow> stIdentityMapping t = None
       | Some s \<Rightarrow> stIdentityMapping t = stIdentityMapping s
           \<and> (\<forall>m. stIdentityMapping s = Some m \<longrightarrow> msPendingOperation m \<noteq> None \<longrightarrow> stCurrent t = stCurrent s))"
proof (cases "openState env disk")
  case (Inl err)
  then show ?thesis using assms by (auto simp: CommitStateV1_def split: if_splits)
next
  case (Inr found)
  then have f: "found = disk" by (rule openState_Inr)
  show ?thesis
    using assms Inr[unfolded f] writeStateFile_cases[of env 0 t disk]
    by (auto simp: CommitStateV1_def Let_def EncodeStateV1_None split: if_splits option.splits)
qed

lemma commit_step:
  "progress disk (snd (CommitStateV1 env expected t disk))" "sound disk \<Longrightarrow> sound (snd (CommitStateV1 env expected t disk))"
proof -
  obtain e disk' where c: "CommitStateV1 env expected t disk = (e, disk')" by fastforce
  note cases = commitState_cases[OF c]
  show "progress disk (snd (CommitStateV1 env expected t disk))"
    using cases c progress_refl[of disk] forward_refl by (auto simp: progress_def split: option.splits)
  assume sound: "sound disk"
  show "sound (snd (CommitStateV1 env expected t disk))"
  proof (cases "disk' = disk")
    case False
    have "pendingCurrent t"
    proof (cases disk)
      case (Some s)
      have s: "pendingCurrent s" "stIdentityMapping t = stIdentityMapping s"
          "\<And>m. stIdentityMapping s = Some m \<Longrightarrow> msPendingOperation m \<noteq> None \<Longrightarrow> stCurrent t = stCurrent s"
        using sound cases False Some by (simp_all add: sound_def)
      then show ?thesis by (simp add: pendingCurrent_def)
    qed (use cases False in \<open>auto simp: pendingCurrent_def\<close>)
    then show ?thesis using cases False c state_mapping[of env t] by (simp add: sound_def)
  qed (use c sound in simp)
qed

text \<open>Replacing the installation facts leaves the mapping and the generation alone.\<close>

lemma installed_change:
  assumes "disk = Some s" "stIdentityMapping t = stIdentityMapping s" "stCurrent t = stCurrent s"
  shows "progress disk (snd (publishInstalled env t disk)) \<and> (sound disk \<longrightarrow> sound (snd (publishInstalled env t disk)))"
proof (rule written[OF publishInstalled_cases])
  fix s' m assume "disk = Some s'" "stIdentityMapping s' = Some m"
  then show "\<exists>n. stIdentityMapping t = Some n \<and> forward m n" using assms forward_refl by simp
next
  assume "sound disk"
  then show "pendingCurrent t" using assms by (simp add: sound_def pendingCurrent_def)
qed

lemma mark_cases:
  "snd (MarkInstallationReadyV1 env r x disk) = disk \<or> (\<exists>s t. disk = Some s \<and> stIdentityMapping t = stIdentityMapping s \<and> stCurrent t = stCurrent s
     \<and> snd (MarkInstallationReadyV1 env r x disk) = snd (publishInstalled env t disk))"
proof (cases "openState env disk")
  case (Inr found)
  then have f: "found = disk" by (rule openState_Inr)
  show ?thesis
  proof (cases disk)
    case (Some s)
    let ?t = "s\<lparr>stDeployment := Some \<lparr>dsSchema = DeploymentStateSchemaV1, dsInstallation = r\<rparr>\<rparr>"
    have "snd (MarkInstallationReadyV1 env r x disk) = disk \<or> snd (MarkInstallationReadyV1 env r x disk) = snd (publishInstalled env ?t disk)"
      using Inr[unfolded f] Some by (auto simp: MarkInstallationReadyV1_def Let_def split: option.splits)
    then show ?thesis using Some by (elim disjE) (simp_all, intro disjI2 exI[of _ ?t], simp)
  qed (use Inr f in \<open>auto simp: MarkInstallationReadyV1_def split: option.splits\<close>)
qed (auto simp: MarkInstallationReadyV1_def split: option.splits)

lemma set_cases:
  "snd (SetInstallationStateV1 env r x disk) = disk \<or> (\<exists>s t. disk = Some s \<and> stIdentityMapping t = stIdentityMapping s \<and> stCurrent t = stCurrent s
     \<and> snd (SetInstallationStateV1 env r x disk) = snd (publishInstalled env t disk))"
proof (cases "openState env disk")
  case (Inr found)
  then have f: "found = disk" by (rule openState_Inr)
  show ?thesis
  proof (cases disk)
    case (Some s)
    let ?t = "s\<lparr>stDeployment := Some \<lparr>dsSchema = DeploymentStateSchemaV1, dsInstallation = r\<rparr>\<rparr>"
    have "snd (SetInstallationStateV1 env r x disk) = disk \<or> snd (SetInstallationStateV1 env r x disk) = snd (publishInstalled env ?t disk)"
      using Inr[unfolded f] Some by (auto simp: SetInstallationStateV1_def Let_def split: option.splits)
    then show ?thesis using Some by (elim disjE) (simp_all, intro disjI2 exI[of _ ?t], simp)
  qed (use Inr f in \<open>auto simp: SetInstallationStateV1_def split: option.splits\<close>)
qed (auto simp: SetInstallationStateV1_def split: option.splits)

lemma mark_step:
  "progress disk (snd (MarkInstallationReadyV1 env r x disk))" "sound disk \<Longrightarrow> sound (snd (MarkInstallationReadyV1 env r x disk))"
  using mark_cases[of env r x disk] by (elim disjE exE conjE; simp add: progress_refl installed_change)+

lemma set_step:
  "progress disk (snd (SetInstallationStateV1 env r x disk))" "sound disk \<Longrightarrow> sound (snd (SetInstallationStateV1 env r x disk))"
  using set_cases[of env r x disk] by (elim disjE exE conjE; simp add: progress_refl installed_change)+

lemma retainedStaging_Inr:
  assumes "RetainedStagingAfterUninstallV1 env s expected = Inr t"
  shows "stCurrent t = stCurrent s" "\<And>m. stIdentityMapping s = Some m \<Longrightarrow> msPendingOperation m = None \<and> mappingDecimalV1 (msRevision m) \<noteq> - 1
      \<and> stIdentityMapping t = Some (m\<lparr>msInstallationBinding := None, msRevision := nextRevision (msRevision m)\<rparr>)"
    "stIdentityMapping s = None \<Longrightarrow> stIdentityMapping t = None"
  using assms by (auto simp: RetainedStagingAfterUninstallV1_def Let_def split: option.splits if_splits)

lemma clear_cases:
  "snd (ClearInstallationStateV1 env r x disk) = disk \<or> (\<exists>s t. disk = Some s \<and> RetainedStagingAfterUninstallV1 env s r = Inr t
     \<and> snd (ClearInstallationStateV1 env r x disk) = snd (publishInstalled env t disk))"
proof (cases "openState env disk")
  case (Inr found)
  then have f: "found = disk" by (rule openState_Inr)
  then show ?thesis using Inr[unfolded f]
    by (cases disk) (auto simp: ClearInstallationStateV1_def split: option.splits sum.splits)
qed (auto simp: ClearInstallationStateV1_def split: option.splits)

lemma clear_step:
  "progress disk (snd (ClearInstallationStateV1 env r x disk))" "sound disk \<Longrightarrow> sound (snd (ClearInstallationStateV1 env r x disk))"
proof -
  have "progress disk (snd (ClearInstallationStateV1 env r x disk)) \<and> (sound disk \<longrightarrow> sound (snd (ClearInstallationStateV1 env r x disk)))"
    using clear_cases[of env r x disk]
  proof (elim disjE exE conjE)
    fix s t assume d: "disk = Some s" and t: "RetainedStagingAfterUninstallV1 env s r = Inr t"
      and c: "snd (ClearInstallationStateV1 env r x disk) = snd (publishInstalled env t disk)"
    note facts = retainedStaging_Inr[OF t]
    have fwd: "\<exists>n. stIdentityMapping t = Some n \<and> forward m n" if "stIdentityMapping s = Some m" for m
    proof -
      have "forward m (m\<lparr>msInstallationBinding := None, msRevision := nextRevision (msRevision m)\<rparr>)"
        using facts(2)[OF that] forward_bumped[of m "m\<lparr>msInstallationBinding := None\<rparr>"] by (simp add: keeps_binding keeps_refl)
      then show ?thesis using facts(2)[OF that] by blast
    qed
    have "pendingCurrent t" using facts(2,3) by (cases "stIdentityMapping s") (auto simp: pendingCurrent_def)
    then show ?thesis unfolding c using d fwd by (intro written[OF publishInstalled_cases]) simp_all
  qed (simp add: progress_refl)
  then show "progress disk (snd (ClearInstallationStateV1 env r x disk))" "sound disk \<Longrightarrow> sound (snd (ClearInstallationStateV1 env r x disk))"
    by blast+
qed

lemma install_cases:
  "snd (CommitInstalledStateV1 env expected source g i disk) = disk
   \<or> (\<exists>t. (\<forall>s. disk = Some s \<longrightarrow> stIdentityMapping s = None) \<and> stIdentityMapping t = None
        \<and> snd (CommitInstalledStateV1 env expected source g i disk) = snd (publishInstalled env t disk))"
proof (cases "readStateV1Path env 0 disk")
  case (Inr found)
  then have f: "found = disk" by (auto simp: readStateV1Path_def split: option.splits if_splits)
  let ?t = "source\<lparr>stCurrent := Some g, stStaging := None, stDeployment := Some \<lparr>dsSchema = DeploymentStateSchemaV1, dsInstallation = i\<rparr>\<rparr>"
  have "snd (CommitInstalledStateV1 env expected source g i disk) = disk
      \<or> (\<forall>s. disk = Some s \<longrightarrow> stIdentityMapping s = None) \<and> stIdentityMapping source = None
         \<and> snd (CommitInstalledStateV1 env expected source g i disk) = snd (publishInstalled env ?t disk)"
    using Inr[unfolded f] by (cases disk) (auto simp: CommitInstalledStateV1_def Let_def split: option.splits)
  then show ?thesis by (elim disjE) (simp_all, intro disjI2 exI[of _ ?t], simp)
qed (auto simp: CommitInstalledStateV1_def split: option.splits)

lemma install_step:
  "progress disk (snd (CommitInstalledStateV1 env expected source g i disk))"
  "sound disk \<Longrightarrow> sound (snd (CommitInstalledStateV1 env expected source g i disk))"
proof -
  have "progress disk (snd (CommitInstalledStateV1 env expected source g i disk))
      \<and> (sound disk \<longrightarrow> sound (snd (CommitInstalledStateV1 env expected source g i disk)))"
    using install_cases[of env expected source g i disk]
  proof (elim disjE exE conjE)
    fix t assume d: "\<forall>s. disk = Some s \<longrightarrow> stIdentityMapping s = None" and t: "stIdentityMapping t = None"
      and c: "snd (CommitInstalledStateV1 env expected source g i disk) = snd (publishInstalled env t disk)"
    show ?thesis unfolding c using d t by (intro written[OF publishInstalled_cases]) (simp_all add: pendingCurrent_def)
  qed (simp add: progress_refl)
  then show "progress disk (snd (CommitInstalledStateV1 env expected source g i disk))"
    "sound disk \<Longrightarrow> sound (snd (CommitInstalledStateV1 env expected source g i disk))" by blast+
qed

lemma nextMapping_Inr:
  assumes "nextMapping env s x r next = Inr n"
  shows "msPendingOperation n = None" "\<And>m. stIdentityMapping s = Some m \<Longrightarrow> forward m n"
proof -
  show "msPendingOperation n = None"
    using assms by (auto simp: nextMapping_def firstMappingOK_def split: option.splits if_splits sum.splits)
  fix m assume m: "stIdentityMapping s = Some m"
  then have n: "n = m\<lparr>msRevision := formatUint (unat (r + 1))\<rparr>" "mappingDecimalV1 (msRevision m) = r" "r \<noteq> - 1"
    using assms by (auto simp: nextMapping_def split: if_splits)
  then have "n = m\<lparr>msRevision := nextRevision (msRevision m)\<rparr>" by (simp add: nextRevision_def)
  then show "forward m n" using forward_bumped[of m m] keeps_refl n(2,3) by simp
qed

lemma identity_cases:
  "snd (CommitIdentityMappingV1 env g x r supplied disk) = disk
   \<or> (\<exists>s next n. disk = Some s \<and> nextMapping env s x r next = Inr n \<and> ValidateStateV1 env (s\<lparr>stIdentityMapping := Some n\<rparr>) = None
        \<and> snd (CommitIdentityMappingV1 env g x r supplied disk) = Some (s\<lparr>stIdentityMapping := Some n\<rparr>))"
proof (cases "openState env disk")
  case (Inr found)
  then have f: "found = disk" by (rule openState_Inr)
  show ?thesis
  proof (cases disk)
    case (Some s)
    have o: "openState env (Some s) = Inr (Some s)" using Inr f Some by simp
    show ?thesis
      using o unfolding Some
      by (auto simp: CommitIdentityMappingV1_def Let_def EncodeStateV1_None split: option.splits sum.splits prod.splits)
        (fastforce dest: writeStateFile_cases)+
  qed (use Inr f in \<open>auto simp: CommitIdentityMappingV1_def\<close>)
qed (auto simp: CommitIdentityMappingV1_def)

lemma identity_step:
  "progress disk (snd (CommitIdentityMappingV1 env g x r supplied disk))" "sound disk \<Longrightarrow> sound (snd (CommitIdentityMappingV1 env g x r supplied disk))"
proof -
  have "progress disk (snd (CommitIdentityMappingV1 env g x r supplied disk))
      \<and> (sound disk \<longrightarrow> sound (snd (CommitIdentityMappingV1 env g x r supplied disk)))"
    using identity_cases[of env g x r supplied disk]
  proof (elim disjE exE conjE)
    fix s next' n assume d: "disk = Some s" and n: "nextMapping env s x r next' = Inr n"
      and v: "ValidateStateV1 env (s\<lparr>stIdentityMapping := Some n\<rparr>) = None"
      and c: "snd (CommitIdentityMappingV1 env g x r supplied disk) = Some (s\<lparr>stIdentityMapping := Some n\<rparr>)"
    have "progress disk (Some (s\<lparr>stIdentityMapping := Some n\<rparr>)) \<and> (sound disk \<longrightarrow> sound (Some (s\<lparr>stIdentityMapping := Some n\<rparr>)))"
    proof (rule written)
      show "Some (s\<lparr>stIdentityMapping := Some n\<rparr>) = disk \<or> Some (s\<lparr>stIdentityMapping := Some n\<rparr>) = Some (s\<lparr>stIdentityMapping := Some n\<rparr>)
          \<and> ValidateStateV1 env (s\<lparr>stIdentityMapping := Some n\<rparr>) = None" using v by simp
    qed (use d nextMapping_Inr[OF n] in \<open>simp_all add: pendingCurrent_def\<close>)
    then show ?thesis unfolding c .
  qed (simp add: progress_refl)
  then show "progress disk (snd (CommitIdentityMappingV1 env g x r supplied disk))"
    "sound disk \<Longrightarrow> sound (snd (CommitIdentityMappingV1 env g x r supplied disk))" by blast+
qed

section \<open>Calls and histories\<close>

text \<open>A call of an operation with its environment and arguments, and the file it leaves.\<close>

datatype ('doc, 'ovl) call =
    CallConfigure "('doc, 'ovl) opsEnv" "('doc, 'ovl) StateV1" Geometry string
  | CallBeginEffects "('doc, 'ovl) opsEnv" "('doc, 'ovl) StateV1" string
  | CallRecover "('doc, 'ovl) opsEnv" "('doc, 'ovl) StateV1" string bool
  | CallUpgrade "('doc, 'ovl) opsEnv" "('doc, 'ovl) StateV1"
  | CallPrepare "('doc, 'ovl) opsEnv" "('doc, 'ovl) StateV1" Geometry string NativeIdentityOperationV1
  | CallAdmit "('doc, 'ovl) opsEnv" "('doc, 'ovl) StateV1" string
  | CallCommitState "('doc, 'ovl) stateEnv" "EnvironmentGenerationState option" "('doc, 'ovl) StateV1"
  | CallCommitMapping "('doc, 'ovl) stateEnv" "EnvironmentGenerationState option" string "64 word" IdentityMappingStateV1
  | CallMarkReady "('doc, 'ovl) stateEnv" InstallationStateV1 "IdentityMappingStateV1 option list"
  | CallSetInstallation "('doc, 'ovl) stateEnv" InstallationStateV1 "IdentityMappingStateV1 option list"
  | CallClearInstallation "('doc, 'ovl) stateEnv" InstallationStateV1 "IdentityMappingStateV1 option list"
  | CallCommitInstalled "('doc, 'ovl) stateEnv" "EnvironmentGenerationState option" "('doc, 'ovl) StateV1" EnvironmentGenerationState InstallationStateV1

fun run :: "('doc, 'ovl) call \<Rightarrow> ('doc, 'ovl) disk \<Rightarrow> ('doc, 'ovl) disk" where
  "run (CallConfigure env expected candidate i) disk = snd (Configure env disk expected candidate i)"
| "run (CallBeginEffects env expected i) disk = snd (BeginEffects env disk expected i)"
| "run (CallRecover env expected i cancel) disk = snd (Recover env disk expected i cancel)"
| "run (CallUpgrade env expected) disk = snd (UpgradeNativeMapping env disk expected)"
| "run (CallPrepare env expected candidate i native) disk = snd (PrepareNativeExecution env disk expected candidate i native)"
| "run (CallAdmit env expected i) disk = snd (AdmitNativeExecution env disk expected i)"
| "run (CallCommitState env expected state) disk = snd (CommitStateV1 env expected state disk)"
| "run (CallCommitMapping env generation mappingID revision next) disk = snd (CommitIdentityMappingV1 env generation mappingID revision next disk)"
| "run (CallMarkReady env ready mapping) disk = snd (MarkInstallationReadyV1 env ready mapping disk)"
| "run (CallSetInstallation env installation mapping) disk = snd (SetInstallationStateV1 env installation mapping disk)"
| "run (CallClearInstallation env expected mapping) disk = snd (ClearInstallationStateV1 env expected mapping disk)"
| "run (CallCommitInstalled env expected source generation installation) disk =
     snd (CommitInstalledStateV1 env expected source generation installation disk)"

lemma run_step: "progress disk (run c disk)" "sound disk \<Longrightarrow> sound (run c disk)"
  by (cases c; simp add: configure_step begin_step recover_step upgrade_step prepare_step admit_step commit_step identity_step
    mark_step set_step clear_step install_step)+

text \<open>A store whose every step preserves an invariant and moves up in a preorder.\<close>

locale monotone_store =
  fixes act :: "'c \<Rightarrow> 's \<Rightarrow> 's" and inv :: "'s \<Rightarrow> bool" and below :: "'s \<Rightarrow> 's \<Rightarrow> bool"
  assumes below_refl: "below s s" and below_trans: "below s t \<Longrightarrow> below t u \<Longrightarrow> below s u"
    and act_inv: "inv s \<Longrightarrow> inv (act c s)" and act_below: "inv s \<Longrightarrow> below s (act c s)"
begin

lemma history: "inv s \<Longrightarrow> inv (fold act cs s) \<and> below s (fold act cs s)"
proof (induction cs arbitrary: s)
  case (Cons c cs)
  have "inv (fold act cs (act c s)) \<and> below (act c s) (fold act cs (act c s))"
    using Cons.prems by (intro Cons.IH act_inv)
  then show ?case using below_trans[OF act_below[OF Cons.prems, of c]] by simp
qed (simp add: below_refl)

end

interpretation mapping_store: monotone_store run sound progress
  by unfold_locales (rule progress_refl, erule (1) progress_trans, erule run_step, rule run_step)

section \<open>After a release attempt\<close>

definition released :: "('doc, 'ovl) StateV1 \<Rightarrow> IdentityMappingStateV1 \<Rightarrow> IdentityMappingOperationV1 \<Rightarrow> bool" where
  "released s m p \<longleftrightarrow> stIdentityMapping s = Some m \<and> msPendingOperation m = Some p \<and> opPhase p = ''release-attempted''"

lemma change_refused:
  assumes "\<And>t. update s \<noteq> Inr t"
  shows "snd (change env k (Some s) expected update) = Some s"
proof -
  obtain res disk' where c: "change env k (Some s) expected update = (res, disk')" by fastforce
  show ?thesis using change_cases[OF c] c assms by (auto simp: swapped_def)
qed

lemma released_valid:
  assumes "released s m p" "validateIdentityMappingStateV1 s = None"
  shows "msSchema m = IdentityMappingStateSchemaV2" "opKind p = ''native-execute''"
proof -
  have "validatePending m p = None"
    using assms by (auto simp: released_def validateIdentityMappingStateV1_def validateMapping_def split: if_splits)
  then show "msSchema m = IdentityMappingStateSchemaV2" "opKind p = ''native-execute''"
    using assms(1) by (auto simp: released_def validatePending_def Let_def split: if_splits)
qed

lemma released_updates:
  assumes "released s m p" "validateIdentityMappingStateV1 s = None"
  shows "configureUpdate env c i h s \<noteq> Inr t" "onPending (beginUpdate env s) s \<noteq> Inr t" "onPending (cancelUpdate e s) s \<noteq> Inr t"
    "upgradeUpdate s \<noteq> Inr t" "prepareUpdate env c i n a s \<noteq> Inr t"
proof -
  have r: "stIdentityMapping s = Some m" "msPendingOperation m = Some p" "opPhase p = ''release-attempted''"
    using assms(1) by (simp_all add: released_def)
  show "configureUpdate env c i h s \<noteq> Inr t"
    using r released_valid[OF assms] by (auto simp: configureUpdate_def)
  show "onPending (beginUpdate env s) s \<noteq> Inr t" "onPending (cancelUpdate e s) s \<noteq> Inr t"
    using r by (auto simp: onPending_def beginUpdate_def cancelUpdate_def)
  show "upgradeUpdate s \<noteq> Inr t"
    using r released_valid[OF assms] by (auto simp: upgradeUpdate_def IdentityMappingStateSchemaV1_def IdentityMappingStateSchemaV2_def)
  show "prepareUpdate env c i n a s \<noteq> Inr t"
    using r by (auto simp: prepareUpdate_def mappingOf_def split: option.splits)
qed

lemma released_admission:
  assumes "released s m p"
  shows "\<exists>e. AdmitNativeExecution env (Some s) expected i = (Inl e, Some s)"
proof -
  obtain res disk' where a: "AdmitNativeExecution env (Some s) expected i = (res, disk')" by fastforce
  from a show ?thesis
  proof (cases rule: Admit_cases)
    case (changed m' p' native generation policyLock plan)
    have "expected = s"
      using changed(4) by (auto simp: ObserveEffects_def Status_def ReadStateV1_def readStateV1Path_def Let_def
        split: if_splits sum.splits option.splits)
    then have "opPhase p' = ''release-attempted''" using changed(1,2) assms by (simp add: released_def)
    then have False using changed(1,2,4) by (auto simp: ObserveEffects_def Let_def split: if_splits sum.splits option.splits)
    then show ?thesis ..
  qed (use a in simp)
qed

lemma recoverNative_released:
  assumes "released s m p"
  shows "snd (recoverNative env e (Some s) expected) = Some s
    \<or> evVerify e s \<and> (\<exists>t n. snd (recoverNative env e (Some s) expected) = Some t \<and> stIdentityMapping t = Some n \<and> msPendingOperation n = None)"
proof -
  let ?u = "\<lambda>s. if \<not> evVerify e s then Inl OpsVerify else onPending retainUpdate s"
  obtain res disk' where c: "change env 20 (Some s) expected ?u = (res, disk')" by fastforce
  show ?thesis
    using change_cases[OF c]
  proof (elim disjE exE conjE)
    fix n updated assume w: "swapped env expected ?u (Some s) disk' n updated"
    then have s: "s = expected" and u: "?u expected = Inr updated" "stIdentityMapping updated = Some n" "disk' = Some (bumped updated n)"
      by (simp_all add: swapped_def)
    have v: "evVerify e s" and r: "onPending retainUpdate s = Inr updated"
      using u(1) unfolding s by (cases "evVerify e expected"; simp)+
    have "msPendingOperation n = None"
      using r u(2) by (elim onPending_Inr) (auto simp: retainUpdate_def Let_def split: sum.splits)
    then show ?thesis using v u(3) c by (simp add: recoverNative_def)
  qed (use c in \<open>simp add: recoverNative_def\<close>)
qed

lemma recover_released:
  assumes "released s m p" "validateIdentityMappingStateV1 s = None"
  shows "snd (Recover env (Some s) expected i b) = Some s
    \<or> \<not> b \<and> (\<exists>e. evidenceOf env = Some e \<and> evVerify e s)
      \<and> (\<exists>t n. snd (Recover env (Some s) expected i b) = Some t \<and> stIdentityMapping t = Some n \<and> msPendingOperation n = None)"
proof (cases "checkPending env 0 (Some s) expected i")
  case None
  show ?thesis
  proof (cases "evidenceOf env")
    case (Some e)
    show ?thesis
    proof (cases b)
      case True
      have "snd (change env 20 (Some s) expected (\<lambda>s. onPending (cancelUpdate e s) s)) = Some s"
        by (rule change_refused) (rule released_updates(3)[OF assms])
      then show ?thesis using None Some True by (simp add: Recover_def)
    next
      case False
      have finish: "snd (finishRecovery env e (Some s) expected) = Some s" if "expected \<noteq> s"
      proof -
        have "\<exists>err. change env 20 (Some s) expected (\<lambda>s. onPending (verifyUpdate e s) s) = (Inl err, Some s)"
          using that by (auto simp: change_def readStateV1Path_def split: option.splits if_splits)
        then show ?thesis by (auto simp: finishRecovery_def)
      qed
      have native: "opKind q = ''native-execute''" if "expected = s" "stIdentityMapping expected = Some n" "msPendingOperation n = Some q" for n q
        using that assms(1) released_valid(2)[OF assms] by (simp add: released_def)
      have "snd (Recover env (Some s) expected i b) = Some s \<or> snd (Recover env (Some s) expected i b) = snd (recoverNative env e (Some s) expected)
          \<or> expected \<noteq> s \<and> snd (Recover env (Some s) expected i b) = snd (finishRecovery env e (Some s) expected)"
        using None Some False native unfolding Recover_def finishRecovery_def[symmetric] mappingOf_def
        by (auto split: option.splits sum.splits)
      then show ?thesis
        using recoverNative_released[OF assms(1), of env e expected] finish False Some by auto
    qed
  qed (use None in \<open>simp add: Recover_def\<close>)
qed (simp add: Recover_def)

lemma released_calls:
  assumes "released s m p" "validateIdentityMappingStateV1 s = None"
  shows "(\<exists>t. run c (Some s) = Some t \<and> stIdentityMapping t = Some m)
    \<or> (\<exists>env expected i e t n. c = CallRecover env expected i False \<and> evidenceOf env = Some e \<and> evVerify e s
         \<and> run c (Some s) = Some t \<and> stIdentityMapping t = Some n \<and> msPendingOperation n = None)"
proof -
  note refused = released_updates[OF assms]
  have m: "stIdentityMapping s = Some m" "msPendingOperation m \<noteq> None" using assms(1) by (simp_all add: released_def)
  have same: "run c (Some s) = Some s \<Longrightarrow> ?thesis" using m by blast
  have published: "\<exists>u. snd (publishInstalled env t (Some s)) = Some u \<and> stIdentityMapping u = Some m" if "stIdentityMapping t = Some m" for env t
    using publishInstalled_cases[of env t "Some s"] that m(1) by auto
  show ?thesis
  proof (cases c)
    case (CallConfigure env expected g i)
    have "snd (change env 20 (Some s) expected (configureUpdate env h i j)) = Some s" for h j by (rule change_refused) (rule refused(1))
    then show ?thesis using CallConfigure by (intro same) (auto simp: Configure_def split: sum.splits)
  next
    case (CallBeginEffects env expected i)
    have "snd (change env 20 (Some s) expected (\<lambda>s. onPending (beginUpdate env s) s)) = Some s" by (rule change_refused) (rule refused(2))
    then show ?thesis using CallBeginEffects by (intro same) (auto simp: BeginEffects_def split: option.splits)
  next
    case (CallRecover env expected i b)
    then show ?thesis using recover_released[OF assms, of env expected i b] same by auto
  next
    case (CallUpgrade env expected)
    then show ?thesis using change_refused[of upgradeUpdate s env 20 expected] refused(4) by (intro same) (simp add: UpgradeNativeMapping_def)
  next
    case (CallPrepare env expected g i n)
    have "snd (change env 20 (Some s) expected (prepareUpdate env h i j a)) = Some s" for h j a by (rule change_refused) (rule refused(5))
    then show ?thesis using CallPrepare by (intro same) (auto simp: PrepareNativeExecution_def split: sum.splits)
  next
    case (CallAdmit env expected i)
    then show ?thesis using released_admission[OF assms(1), of env expected i] by (intro same) auto
  next
    case (CallCommitState env expected t)
    obtain e d where c: "CommitStateV1 env expected t (Some s) = (e, d)" by fastforce
    then show ?thesis using commitState_cases[OF c] m CallCommitState by auto
  next
    case (CallCommitMapping env g x r next')
    then show ?thesis using identity_cases[of env g x r next' "Some s"] m by (intro same) (auto simp: nextMapping_def)
  next
    case (CallMarkReady env r x)
    then show ?thesis using mark_cases[of env r x "Some s"] published m same by (auto simp: published)
  next
    case (CallSetInstallation env r x)
    then show ?thesis using set_cases[of env r x "Some s"] published m same by (auto simp: published)
  next
    case (CallClearInstallation env r x)
    then show ?thesis using clear_cases[of env r x "Some s"] retainedStaging_Inr(2)[of env s r _ m] m by (intro same) auto
  next
    case (CallCommitInstalled env expected source g i)
    then show ?thesis using install_cases[of env expected source g i "Some s"] m by (intro same) auto
  qed
qed

end
