(* ===== verification/MappingSamples.thy ===== *)
theory MappingSamples
  imports MappingHistory IdentitySamples
begin

text \<open>
  Records of geometries, and a deployment that admits a native execution, evaluated by the
  validators and operations, for the examples of the properties.
\<close>

section \<open>Records of geometries\<close>

lemma decimal_valid: "0 < n \<or> \<not> positive \<Longrightarrow> n < 2 ^ bits \<Longrightarrow> bits \<noteq> 32 \<or> n < maxUint32 \<Longrightarrow> validMappingDecimalV1 (formatUint n) bits positive"
  by (auto simp: validMappingDecimalV1_def parseUint_formatUint)

lemma mappingDecimal_unat: "n < 2 ^ 64 \<Longrightarrow> unat (mappingDecimalV1 (formatUint n)) = n"
  by (simp add: mappingDecimal_format unsigned_of_nat take_bit_nat_eq_self)

lemma decimal_wire:
  assumes "usable v"
  shows "decimalInterval (wireInterval v)"
proof -
  have b: "unat (ivContainerStart v) < maxUint32" "unat (ivHostStart v) < maxUint32" "0 < unat (ivCount v)" "unat (ivCount v) \<le> maxUint32"
    using assms by (simp_all add: usable_iff containerEnd_def)
  have "unat (ivCount v) < 2 ^ 64" using b(4) by (simp add: maxUint32_def)
  moreover from this have "unat (mappingDecimalV1 (formatUint (unat (ivCount v)))) = unat (ivCount v)"
    by (rule mappingDecimal_unat)
  moreover have "n < maxUint32 \<Longrightarrow> n < 2 ^ 32" for n by (simp add: maxUint32_def)
  ultimately show ?thesis
    using b unfolding decimalInterval_def wireInterval_def by (simp add: decimal_valid)
qed

lemma canonical_wire:
  assumes "ValidateGeometry g = Inr g"
  shows "requireCanonicalMappingGeometryV1 (mappingGeometryStateV1 g) = None"
proof -
  have "list_all usable (gmUIDs g)" "list_all usable (gmGIDs g)"
    using geometryOK_canonical(2,3)[OF assms] by (simp_all add: reservations_def)
  then have "list_all decimalInterval (map wireInterval (gmUIDs g))" "list_all decimalInterval (map wireInterval (gmGIDs g))"
    using decimal_wire by (auto simp: list_all_iff)
  moreover have "elems (wgUIDs (mappingGeometryStateV1 g)) = map wireInterval (gmUIDs g)" "elems (wgGIDs (mappingGeometryStateV1 g)) = map wireInterval (gmGIDs g)"
    by (simp_all add: mappingGeometryStateV1_def)
  ultimately show ?thesis using assms by (simp add: requireCanonicalMappingGeometryV1_def)
qed

lemma decimal_format:
  assumes "validMappingDecimalV1 s bits positive" "bits \<le> 64"
  shows "formatUint (unat (mappingDecimalV1 s)) = s"
proof -
  obtain n where n: "parseUint bits s = (n, True)" "formatUint n = s"
    using assms(1) by (auto simp: validMappingDecimalV1_def split: prod.splits)
  have "n < 2 ^ bits" using n(1) by (simp add: parseUint_ok)
  also have "(2 :: nat) ^ bits \<le> 2 ^ 64" using assms(2) by (intro power_increasing) simp_all
  finally have "n < 2 ^ 64" .
  then show ?thesis using mappingDecimal_unat n(2) by auto
qed

lemma decimal_bound:
  assumes "validMappingDecimalV1 s 32 positive"
  shows "unat (mappingDecimalV1 s) < maxUint32"
proof -
  obtain n where n: "parseUint 32 s = (n, True)" "formatUint n = s" "n < maxUint32"
    using assms by (auto simp: validMappingDecimalV1_def split: prod.splits)
  then show ?thesis using mappingDecimal_unat[of n] by (simp add: maxUint32_def)
qed

lemma unat_ucast_small: "unat (w :: 64 word) \<le> maxUint32 \<Longrightarrow> unat (ucast w :: 32 word) = unat w"
  by (simp add: unsigned_ucast_eq take_bit_nat_eq_self maxUint32_def)

lemma wire_numericInterval:
  assumes "decimalInterval v"
  shows "wireInterval (numericInterval v) = v"
proof -
  have v: "validMappingDecimalV1 (wiContainerStart v) 32 False" "validMappingDecimalV1 (wiHostStart v) 32 False"
      "validMappingDecimalV1 (wiCount v) 64 True" "unat (mappingDecimalV1 (wiCount v)) \<le> maxUint32"
    using assms by (simp_all add: decimalInterval_def)
  have "unat (ucast (mappingDecimalV1 (wiContainerStart v)) :: 32 word) = unat (mappingDecimalV1 (wiContainerStart v))"
      "unat (ucast (mappingDecimalV1 (wiHostStart v)) :: 32 word) = unat (mappingDecimalV1 (wiHostStart v))"
      "unat (ucast (mappingDecimalV1 (wiCount v)) :: 32 word) = unat (mappingDecimalV1 (wiCount v))"
    using decimal_bound[OF v(1)] decimal_bound[OF v(2)] v(4) by (simp_all add: unat_ucast_small)
  then show ?thesis
    using decimal_format[OF v(1)] decimal_format[OF v(2)] decimal_format[OF v(3)] by (simp add: wireInterval_def numericInterval_def)
qed


lemma wire_numeric:
  assumes "requireCanonicalMappingGeometryV1 g = None"
  shows "ValidateGeometry (numeric g) = Inr (numeric g)" "mappingGeometryStateV1 (numeric g) = g"
proof -
  have d: "list_all decimalInterval (elems (wgUIDs g))" "list_all decimalInterval (elems (wgGIDs g))"
    and v: "ValidateGeometry (numeric g) = Inr (numeric g)"
    using assms by (auto simp: requireCanonicalMappingGeometryV1_def split: if_splits sum.splits)
  show "ValidateGeometry (numeric g) = Inr (numeric g)" by (rule v)
  have "geometryOK (numeric g)" using geometryOK_canonical(1)[OF v] .
  then have "gmUIDs (numeric g) \<noteq> []" "gmGIDs (numeric g) \<noteq> []" by (auto simp: geometryOK_def domainOK_def)
  then have "elems (wgUIDs g) \<noteq> []" "elems (wgGIDs g) \<noteq> []" by (simp_all add: numeric_def)
  moreover have "map (wireInterval \<circ> numericInterval) (elems (wgUIDs g)) = elems (wgUIDs g)"
      "map (wireInterval \<circ> numericInterval) (elems (wgGIDs g)) = elems (wgGIDs g)"
    using d wire_numericInterval by (auto simp: list_all_iff intro: map_idI)
  ultimately show "mappingGeometryStateV1 (numeric g) = g"
    by (cases "wgUIDs g"; cases "wgGIDs g"; cases g) (simp_all add: mappingGeometryStateV1_def numeric_def appended_def)
qed

section \<open>A deployment\<close>

definition sampleGeneration :: EnvironmentGenerationState where
  "sampleGeneration = \<lparr>egReference = ''ref'', egImageDigest = emptyDigest, egRootFSSubject = emptyDigest, egBuildLockDigest = emptyDigest,
     egPlatform = linuxPlatform, egRuntimePolicyDigest = emptyDigest\<rparr>"

definition sampleNative :: NativeIdentityOperationV1 where
  "sampleNative = \<lparr>noActive = mappingGeometryStateV1 nextGeometry, noEngine = ''engine'', noProcess = ''process'',
     noRuntimeUsers = Some [''app''], noRuntimeGroups = Some [''data'']\<rparr>"

definition sampleOperation :: "string \<Rightarrow> string \<Rightarrow> IdentityMappingOperationV1" where
  "sampleOperation phase revision = \<lparr>opOperationID = ''op'', opKind = ''native-execute'', opExpectedRevision = revision,
     opExpectedGeneration = Some sampleGeneration, opCandidate = mappingGeometryStateV1 nextGeometry, opPriorAccepted = Some sampleGeneration,
     opOwnedObjects = None, opPhase = phase, opInhibited = True, opNative = Some sampleNative\<rparr>"

definition nativeMapping :: "string \<Rightarrow> Geometry \<Rightarrow> Interval list \<Rightarrow> Interval list \<Rightarrow> string \<Rightarrow> string \<Rightarrow> string \<Rightarrow> IdentityMappingStateV1" where
  "nativeMapping revision g dormantUIDs dormantGIDs engine process phase =
     \<lparr>msSchema = IdentityMappingStateSchemaV2, msInstallationID = ''m'', msOwnerDir = ''/srv'', msInstallationBinding = None, msRevision = revision,
      msOperatorUID = ''5'', msOperatorGID = ''5'', msProfile = ''exact'', msUIDAssignments = wgUIDs (mappingGeometryStateV1 g),
      msGIDAssignments = wgGIDs (mappingGeometryStateV1 g), msDormantUIDs = appended (map wireInterval dormantUIDs),
      msDormantGIDs = appended (map wireInterval dormantGIDs), msSupervisor = None, msEngine = Some engine,
      msAdmittedGeneration = Some sampleGeneration, msRetainedStorage = None, msRevoked = False,
      msPendingOperation = Some (sampleOperation phase revision), msProcessModel = IdentityMappingNativeProcessModelV1,
      msAcceptedUIDs = Some (wgUIDs (mappingGeometryStateV1 g)), msAcceptedGIDs = Some (wgGIDs (mappingGeometryStateV1 g)),
      msNativeProcess = Some process\<rparr>"

definition pendingMapping :: IdentityMappingStateV1 where
  "pendingMapping = nativeMapping ''5'' priorGeometry [] [] ''engine0'' ''process0'' ''effects-pending''"

definition admittedSample :: IdentityMappingStateV1 where
  "admittedSample = nativeMapping ''6'' bothGeometry [sampleRange 3 3000 1] [sampleRange 3 3000 1] ''engine'' ''process'' ''release-attempted''"

definition sampleState :: "IdentityMappingStateV1 \<Rightarrow> (unit, unit) StateV1" where
  "sampleState m = \<lparr>stSchema = StateSchemaV1, stBlueprint = (), stBlueprintSource = ''blueprint'', stPlatform = linuxPlatform, stOverlay = (),
     stCurrent = Some sampleGeneration, stStaging = Some \<lparr>sgSchema = StagingStateSchemaV1\<rparr>, stDeployment = None, stTerminalRemoval = False,
     stIdentityMapping = Some m\<rparr>"

lemma safe_samples:
  "safeRecoveryIdentity ''ref''" "safeRecoveryIdentity ''engine''" "safeRecoveryIdentity ''process''" "safeRecoveryIdentity ''engine0''"
  "safeRecoveryIdentity ''process0''" "safeRecoveryIdentity ''op''" "safeRecoveryIdentity ''native-execute''" "safeRecoveryIdentity ''m''"
  "safeRecoveryIdentity ''/srv''"
  by (rule safeRecoveryIdentity_plain; simp add: plainText_def hasPrefix_def)+

lemma sample_generation_valid: "ValidateEnvironmentGenerationState sampleGeneration = None"
  by (simp add: ValidateEnvironmentGenerationState_def sampleGeneration_def safe_samples emptyDigest_valid linuxPlatform_valid)


lemma retained_self:
  "RetainGeometry nextGeometry (Some nextGeometry) = Inr nextGeometry" "RetainGeometry bothGeometry (Some bothGeometry) = Inr bothGeometry"
  by (simp_all add: plan_geometries geometry_eval)

lemma sample_decimals:
  "validMappingDecimalV1 ''5'' 64 True" "validMappingDecimalV1 ''6'' 64 True" "validMappingDecimalV1 ''5'' 32 True"
  by (simp_all add: validMappingDecimalV1_def parseUint_def isDigit_def formatUint.simps char_of_def bit_0 maxUint32_def)

lemma sample_owner: "isAbs ''/srv''" "cleanPath ''/srv'' = ''/srv''"
  by (simp_all add: isAbs_def cleanPath_def hasPrefix_def Let_def)

text \<open>What the validator asks of a sample mapping beyond the parts that are the same in all of them.\<close>

lemma sample_mapping_fields [simp]:
  "geometry (nativeMapping r g du dg e p ph) = (mappingGeometryStateV1 g)\<lparr>wgProfile := ''exact''\<rparr>"
  by (simp add: geometry_def nativeMapping_def mappingGeometryStateV1_def)

lemma exact_record: "gmProfile g = ''exact'' \<Longrightarrow> (mappingGeometryStateV1 g)\<lparr>wgProfile := ''exact''\<rparr> = mappingGeometryStateV1 g"
  by (simp add: mappingGeometryStateV1_def)

lemma sample_protected:
  assumes "gmProfile g = ''exact''" "gmUIDs g \<noteq> []"
  shows "protected (nativeMapping r g du dg e p ph) = Some g" "acceptedGeometry (nativeMapping r g du dg e p ph) = Some g"
  using assms by (simp_all add: protected_def acceptedGeometry_def exact_record)
    (simp_all add: nativeMapping_def mappingGeometryStateV1_def numeric_def comp_def)

lemma plan_profiles: "gmProfile priorGeometry = ''exact''" "gmProfile nextGeometry = ''exact''" "gmProfile bothGeometry = ''exact''"
    "gmUIDs priorGeometry \<noteq> []" "gmUIDs nextGeometry \<noteq> []" "gmUIDs bothGeometry \<noteq> []"
    "gmGIDs priorGeometry \<noteq> []" "gmGIDs nextGeometry \<noteq> []" "gmGIDs bothGeometry \<noteq> []"
  by (simp_all add: plan_geometries)

lemma sample_pending_valid:
  assumes "gmProfile g = ''exact''" "gmUIDs g \<noteq> []" "RetainGeometry nextGeometry (Some g) = Inr h" "validMappingDecimalV1 r 64 True"
    "ph = ''effects-pending'' \<or> ph = ''release-attempted''"
  shows "validatePending (nativeMapping r g du dg e p ph) (sampleOperation ph r) = None"
proof -
  have "wgProfile (mappingGeometryStateV1 nextGeometry) = ''exact''" by (simp add: mappingGeometryStateV1_def plan_profiles)
  moreover have "msSchema (nativeMapping r g du dg e p ph) = IdentityMappingStateSchemaV2" "msRevision (nativeMapping r g du dg e p ph) = r"
      "msProfile (nativeMapping r g du dg e p ph) = ''exact''" by (simp_all add: nativeMapping_def)
  ultimately show ?thesis
    using assms sample_protected[OF assms(1,2)] canonical_wire[OF plan_geometries_valid(2)]
    by (auto simp: validatePending_def sampleOperation_def Let_def safe_samples optionalGeneration_def sample_generation_valid
      validateMappingHandlesV1_def handlesOK_def)
qed


lemma sample_actives:
  "admittedActive pendingMapping priorGeometry = priorGeometry" "admittedActive admittedSample bothGeometry = nextGeometry"
proof -
  have "msDormantUIDs pendingMapping = None" "msDormantGIDs pendingMapping = None" "msProfile pendingMapping = ''exact''"
    by (simp_all add: pendingMapping_def nativeMapping_def appended_def)
  then show "admittedActive pendingMapping priorGeometry = priorGeometry"
    by (simp add: admittedActive_def priorGeometry_def sampleRange_def containerEnd_def appendSpan_def Let_def)
  have "map numericInterval (elems (msDormantUIDs admittedSample)) = [sampleRange 3 3000 1]"
      "map numericInterval (elems (msDormantGIDs admittedSample)) = [sampleRange 3 3000 1]" "msProfile admittedSample = ''exact''"
    by (simp_all add: admittedSample_def nativeMapping_def)
  moreover have "subtractExecutionIntervalsV1 (gmUIDs bothGeometry) [sampleRange 3 3000 1] = gmUIDs nextGeometry"
      "subtractExecutionIntervalsV1 (gmGIDs bothGeometry) [sampleRange 3 3000 1] = gmGIDs nextGeometry"
    by (simp_all add: plan_geometries sampleRange_def containerEnd_def appendSpan_def Let_def)
  ultimately show "admittedActive admittedSample bothGeometry = nextGeometry"
    by (simp add: admittedActive_def) (simp add: nextGeometry_def)
qed

lemma sample_provenance_valid:
  assumes "m = nativeMapping r g du dg e p ph" "safeRecoveryIdentity p" "gmProfile g = ''exact''" "gmUIDs g \<noteq> []" "gmGIDs g \<noteq> []"
    "ValidateGeometry g = Inr g" "RetainGeometry g (Some g) = Inr g" "ValidateGeometry (admittedActive m g) = Inr a"
  shows "validateProvenance m (wgUIDs (mappingGeometryStateV1 g)) (wgGIDs (mappingGeometryStateV1 g)) = None"
proof -
  have f: "acceptedGeometry m = Some g" "geometry m = mappingGeometryStateV1 g" "msProfile m = ''exact''" "msNativeProcess m = Some p"
      "msAdmittedGeneration m \<noteq> None"
    using sample_protected[OF assms(3,4)] assms(3) by (simp_all add: assms(1) exact_record) (simp_all add: nativeMapping_def)
  have "\<lparr>wgProfile = ''exact'', wgUIDs = wgUIDs (mappingGeometryStateV1 g), wgGIDs = wgGIDs (mappingGeometryStateV1 g)\<rparr> = mappingGeometryStateV1 g"
    using assms(3) by (simp add: mappingGeometryStateV1_def)
  then show ?thesis
    using assms(2,7,8) canonical_wire[OF assms(6)] f by (simp add: validateProvenance_def Let_def sameExecution_eq)
qed

lemma sample_native_valid:
  assumes "m = nativeMapping r g du dg e p ph" "ph \<noteq> ''verified''" "gmProfile g = ''exact''" "gmUIDs g \<noteq> []"
    "ph = ''release-attempted'' \<Longrightarrow> e = ''engine'' \<and> p = ''process'' \<and> admittedActive m g = nextGeometry"
  shows "validateNativeOperation m (sampleOperation ph r) = None"
proof -
  have f: "acceptedGeometry m = Some g" "msRevision m = r" "msEngine m = Some e" "msNativeProcess m = Some p" "msAdmittedGeneration m = Some sampleGeneration"
    using sample_protected[OF assms(3,4)] by (simp_all add: assms(1)) (simp_all add: nativeMapping_def)
  show ?thesis
    using assms(2,5) canonical_wire[OF plan_geometries_valid(2)] f
    by (simp add: validateNativeOperation_def sampleOperation_def sampleNative_def safe_samples retained_self sameExecution_eq)
qed

lemma sample_dormant_valid:
  assumes "m = nativeMapping r g du dg e p ph" "wireInterval v \<in> set (elems intervals)" "ValidateGeometry \<lparr>gmProfile = ''exact'', gmUIDs = [v], gmGIDs = [v]\<rparr>
      = Inr \<lparr>gmProfile = ''exact'', gmUIDs = [v], gmGIDs = [v]\<rparr>"
  shows "validateDormant m (Some [wireInterval v]) assignments (Some intervals) = None"
proof -
  have "requireCanonicalMappingGeometryV1 \<lparr>wgProfile = ''exact'', wgUIDs = Some [wireInterval v], wgGIDs = Some [wireInterval v]\<rparr> = None"
    using canonical_wire[OF assms(3)] by (simp add: mappingGeometryStateV1_def appended_def)
  moreover have "list_ex (containedIn (wireInterval v)) (elems intervals)"
    using assms(2) by (auto simp: list_ex_iff containedIn_def Let_def)
  ultimately show ?thesis by (simp add: validateDormant_def assms(1) nativeMapping_def)
qed


lemma sample_mapping_valid:
  assumes m: "m = nativeMapping r g du dg e p ph" and g: "gmProfile g = ''exact''" "gmUIDs g \<noteq> []" "gmGIDs g \<noteq> []" "ValidateGeometry g = Inr g"
    and r: "validMappingDecimalV1 r 64 True" "safeRecoveryIdentity e"
    and dormant: "validateDormant m (msDormantUIDs m) (msUIDAssignments m) (msAcceptedUIDs m) = None"
      "validateDormant m (msDormantGIDs m) (msGIDAssignments m) (msAcceptedGIDs m) = None"
    and pending: "validatePending m (sampleOperation ph r) = None"
    and native: "validateProvenance m (wgUIDs (mappingGeometryStateV1 g)) (wgGIDs (mappingGeometryStateV1 g)) = None"
      "validateNativeOperation m (sampleOperation ph r) = None"
  shows "validateMapping (Some staging) None m = None"
proof -
  have f: "msSchema m = IdentityMappingStateSchemaV2" "msInstallationID m = ''m''" "msRevision m = r" "msOwnerDir m = ''/srv''" "msOperatorUID m = ''5''"
      "msOperatorGID m = ''5''" "msProfile m = ''exact''" "msInstallationBinding m = None" "msSupervisor m = None" "msEngine m = Some e"
      "msRetainedStorage m = None" "msPendingOperation m = Some (sampleOperation ph r)" "msProcessModel m = IdentityMappingNativeProcessModelV1"
      "msAcceptedUIDs m = Some (wgUIDs (mappingGeometryStateV1 g))" "msAcceptedGIDs m = Some (wgGIDs (mappingGeometryStateV1 g))"
      "msUIDAssignments m = wgUIDs (mappingGeometryStateV1 g)" "msGIDAssignments m = wgGIDs (mappingGeometryStateV1 g)"
      "msAdmittedGeneration m = Some sampleGeneration"
    by (simp_all add: m nativeMapping_def)
  have w: "wgUIDs (mappingGeometryStateV1 g) = Some (map wireInterval (gmUIDs g))" "wgGIDs (mappingGeometryStateV1 g) = Some (map wireInterval (gmGIDs g))"
    using g(2,3) by (simp_all add: mappingGeometryStateV1_def appended_def)
  have model: "validateNativeMappingStateV1 m = None"
    using g(2,3) native w by (simp add: validateNativeMappingStateV1_def f IdentityMappingStateSchemaV1_def IdentityMappingStateSchemaV2_def)
  have admission: "validateAdmission m = None"
    using g(2) w by (simp add: validateAdmission_def f sample_generation_valid IdentityMappingStateSchemaV1_def IdentityMappingStateSchemaV2_def)
  have canonical: "requireCanonicalMappingGeometryV1 (geometry m) = None"
    using canonical_wire[OF g(4)] g(1) by (simp add: m exact_record)
  have schema: "msSchema m = IdentityMappingStateSchemaV1 \<or> msSchema m = IdentityMappingStateSchemaV2" by (simp add: f)
  show ?thesis
    using r g(2,3) dormant pending
    unfolding validateMapping_def admission model canonical orElse_simps
    by (simp add: f w safe_samples sample_owner sample_decimals bindingOK_def validateMappingHandlesV1_def handlesOK_def)
qed

lemma pending_valid: "validateMapping (Some staging) None pendingMapping = None"
proof (rule sample_mapping_valid[OF pendingMapping_def plan_profiles(1,4,7) plan_geometries_valid(1)])
  show "validateDormant pendingMapping (msDormantUIDs pendingMapping) (msUIDAssignments pendingMapping) (msAcceptedUIDs pendingMapping) = None"
    "validateDormant pendingMapping (msDormantGIDs pendingMapping) (msGIDAssignments pendingMapping) (msAcceptedGIDs pendingMapping) = None"
    by (simp_all add: validateDormant_def pendingMapping_def nativeMapping_def)
  show "validatePending pendingMapping (sampleOperation ''effects-pending'' ''5'') = None"
    unfolding pendingMapping_def by (rule sample_pending_valid[OF plan_profiles(1,4) plan_geometries_retained(1) sample_decimals(1)]) simp
  show "validateProvenance pendingMapping (wgUIDs (mappingGeometryStateV1 priorGeometry)) (wgGIDs (mappingGeometryStateV1 priorGeometry)) = None"
    by (rule sample_provenance_valid[OF pendingMapping_def _ plan_profiles(1,4,7) plan_geometries_valid(1) plan_geometries_retained(3)])
      (simp_all add: safe_samples sample_actives plan_geometries_valid)
  show "validateNativeOperation pendingMapping (sampleOperation ''effects-pending'' ''5'') = None"
    by (rule sample_native_valid[OF pendingMapping_def _ plan_profiles(1,4)]) simp_all
qed (simp_all add: sample_decimals safe_samples)

lemma dormant_geometry: "ValidateGeometry \<lparr>gmProfile = ''exact'', gmUIDs = [sampleRange 3 3000 1], gmGIDs = [sampleRange 3 3000 1]\<rparr>
    = Inr \<lparr>gmProfile = ''exact'', gmUIDs = [sampleRange 3 3000 1], gmGIDs = [sampleRange 3 3000 1]\<rparr>"
  using plan_geometries_valid(1) by (simp add: priorGeometry_def)

lemma admitted_valid: "validateMapping (Some staging) None admittedSample = None"
proof (rule sample_mapping_valid[OF admittedSample_def plan_profiles(3,6,9) plan_geometries_valid(3)])
  have d: "msDormantUIDs admittedSample = Some [wireInterval (sampleRange 3 3000 1)]" "msDormantGIDs admittedSample = Some [wireInterval (sampleRange 3 3000 1)]"
      "msAcceptedUIDs admittedSample = Some (wgUIDs (mappingGeometryStateV1 bothGeometry))"
      "msAcceptedGIDs admittedSample = Some (wgGIDs (mappingGeometryStateV1 bothGeometry))"
    by (simp_all add: admittedSample_def nativeMapping_def appended_def)
  show "validateDormant admittedSample (msDormantUIDs admittedSample) (msUIDAssignments admittedSample) (msAcceptedUIDs admittedSample) = None"
    "validateDormant admittedSample (msDormantGIDs admittedSample) (msGIDAssignments admittedSample) (msAcceptedGIDs admittedSample) = None"
    unfolding d by (rule sample_dormant_valid[OF admittedSample_def _ dormant_geometry], simp add: mappingGeometryStateV1_def bothGeometry_def)+
  show "validatePending admittedSample (sampleOperation ''release-attempted'' ''6'') = None"
    unfolding admittedSample_def by (rule sample_pending_valid[OF plan_profiles(3,6) plan_geometries_retained(2) sample_decimals(2)]) simp
  show "validateProvenance admittedSample (wgUIDs (mappingGeometryStateV1 bothGeometry)) (wgGIDs (mappingGeometryStateV1 bothGeometry)) = None"
    by (rule sample_provenance_valid[OF admittedSample_def _ plan_profiles(3,6,9) plan_geometries_valid(3) retained_self(2)])
      (simp_all add: safe_samples sample_actives plan_geometries_valid)
  show "validateNativeOperation admittedSample (sampleOperation ''release-attempted'' ''6'') = None"
    by (rule sample_native_valid[OF admittedSample_def _ plan_profiles(3,6)]) (simp_all add: sample_actives)
qed (simp_all add: sample_decimals safe_samples)


section \<open>An admission\<close>

definition sampleStateEnv :: "(unit, unit) stateEnv" where
  "sampleStateEnv = \<lparr>decodeDocument = (\<lambda>_. Some \<lparr>dvPlatforms = [linuxPlatform], dvIdentityMapping = True, dvIdentityPolicy = Some samplePolicy\<rparr>),
     documentDigest = (\<lambda>_. Some emptyDigest), overlayOK = (\<lambda>_. True), marshalOK = (\<lambda>_. True), jsonDetach = Some, lockNil = False,
     lockHeld = (\<lambda>_. True), lockWritable = (\<lambda>_. True), readFails = (\<lambda>_. False), ownerDirectory = Some ''/srv'', selectedDirectory = ''/srv'',
     randomBytes = None, writeOutcome = (\<lambda>_. Replaced)\<rparr>"

definition sampleOps :: "(unit, unit) opsEnv" where
  "sampleOps = \<lparr>stateOf = sampleStateEnv, ctxNil = False, ctxErr = (\<lambda>_. False),
     hostCheck = (\<lambda>_ _ _ _. Some \<lparr>hiUsername = ''app'', hiUID = 5, hiGID = 5\<rparr>),
     evidenceOf = Some \<lparr>evPlan = (\<lambda>_ _. Some None), evUnused = (\<lambda>_. True), evVerify = (\<lambda>_. True)\<rparr>, profileOwner = True,
     pendingBuild = Some False,
     buildLock = (\<lambda>_. Some \<lparr>blBlueprintDigest = emptyDigest, blImageDigest = emptyDigest, blRootFSSubject = emptyDigest, blPlatform = linuxPlatform,
       blRuntimePolicyDigest = emptyDigest, blIdentityPolicy = Some lockSample\<rparr>)\<rparr>"

lemma linuxPlatform_selected: "ValidateSelectedPlatform [linuxPlatform] linuxPlatform = None"
  by (simp add: ValidateSelectedPlatform_def linuxPlatform_valid covers_def)

lemma sample_state_valid:
  assumes "\<And>staging. validateMapping (Some staging) None m = None"
  shows "ValidateStateV1 sampleStateEnv (sampleState m) = None" "validateIdentityMappingStateV1 (sampleState m) = None"
proof -
  show v: "validateIdentityMappingStateV1 (sampleState m) = None"
    using assms by (simp add: validateIdentityMappingStateV1_def sampleState_def)
  show "ValidateStateV1 sampleStateEnv (sampleState m) = None"
    unfolding ValidateStateV1_def v
    by (simp add: sampleStateEnv_def sampleState_def linuxPlatform_selected ValidateStagingStateV1_def sample_generation_valid)
qed

lemmas pending_state = sample_state_valid[OF pending_valid]
lemmas admitted_state = sample_state_valid[OF admitted_valid]

lemma sample_owner_path:
  "validateMappingOwnerPathV1 sampleStateEnv (sampleState pendingMapping) = None" "validateMappingOwnerPathV1 sampleStateEnv (sampleState admittedSample) = None"
  by (simp_all add: validateMappingOwnerPathV1_def sampleStateEnv_def sampleState_def pendingMapping_def admittedSample_def nativeMapping_def)

lemma sample_read: "readStateV1Path sampleStateEnv k (Some (sampleState pendingMapping)) = Inr (Some (sampleState pendingMapping))"
  unfolding readStateV1Path_def by (simp add: pending_state sample_owner_path) (simp add: sampleStateEnv_def)

lemma sample_env:
  "lockNil sampleStateEnv = False" "lockHeld sampleStateEnv k" "lockWritable sampleStateEnv k" "stateOf sampleOps = sampleStateEnv"
  "\<not> ctxNil sampleOps" "\<not> ctxErr sampleOps k" "hostCheck sampleOps k d us gs = Some \<lparr>hiUsername = ''app'', hiUID = 5, hiGID = 5\<rparr>"
  "profileOwner sampleOps" "pendingBuild sampleOps = Some False" "documentDigest sampleStateEnv d' = Some emptyDigest"
  "decodeDocument sampleStateEnv d' = Some \<lparr>dvPlatforms = [linuxPlatform], dvIdentityMapping = True, dvIdentityPolicy = Some samplePolicy\<rparr>"
  "buildLock sampleOps b = Some \<lparr>blBlueprintDigest = emptyDigest, blImageDigest = emptyDigest, blRootFSSubject = emptyDigest, blPlatform = linuxPlatform,
     blRuntimePolicyDigest = emptyDigest, blIdentityPolicy = Some lockSample\<rparr>" "marshalOK sampleStateEnv s" "writeOutcome sampleStateEnv k = Replaced"
  "evidenceOf sampleOps = Some \<lparr>evPlan = (\<lambda>_ _. Some None), evUnused = (\<lambda>_. True), evVerify = (\<lambda>_. True)\<rparr>"
  by (simp_all add: sampleStateEnv_def sampleOps_def)

lemma state_fields:
  "stIdentityMapping (sampleState m) = Some m" "stCurrent (sampleState m) = Some sampleGeneration" "stDeployment (sampleState m) = None"
  "stStaging (sampleState m) \<noteq> None" "\<not> stTerminalRemoval (sampleState m)" "stPlatform (sampleState m) = linuxPlatform"
  "protected pendingMapping = Some priorGeometry" "acceptedGeometry pendingMapping = Some priorGeometry"
  "msPendingOperation pendingMapping = Some (sampleOperation ''effects-pending'' ''5'')" "msSchema pendingMapping = IdentityMappingStateSchemaV2"
  "\<not> msRevoked pendingMapping" "msProfile pendingMapping = ''exact''" "msOperatorUID pendingMapping = ''5''" "msOperatorGID pendingMapping = ''5''"
  "msAdmittedGeneration pendingMapping = Some sampleGeneration" "msRevision pendingMapping = ''5''"
  unfolding pendingMapping_def by (simp_all add: sample_protected[OF plan_profiles(1,4)]) (simp_all add: sampleState_def nativeMapping_def)

lemma sample_candidate_check:
  "\<exists>r. checkCandidate sampleOps k (Some (sampleState pendingMapping)) (sampleState pendingMapping) nextGeometry = Inr r"
proof -
  have retain: "RetainIdentityMappingGeometryV1 (sampleState pendingMapping) nextGeometry = Inr bothGeometry"
    by (simp add: RetainIdentityMappingGeometryV1_def pending_state state_fields plan_profiles plan_geometries_retained)
  have host: "checkIdentityMappingHostV1 sampleOps j (Some (sampleState pendingMapping)) bothGeometry = Inr \<lparr>hiUsername = ''app'', hiUID = 5, hiGID = 5\<rparr>" for j
    by (simp add: checkIdentityMappingHostV1_def ReadStateV1_def sample_env sample_read state_fields)
  have "numeric (opCandidate (sampleOperation ''effects-pending'' ''5'')) = nextGeometry" by (simp add: sampleOperation_def)
  then show ?thesis
    by (simp add: checkCandidate_def sample_env state_fields retain host small_decimals)
qed

lemma sample_native_plan:
  "nativePlan sampleOps k (Some (sampleState pendingMapping)) (sampleState pendingMapping) nextGeometry sampleNative = Inr sampleExecution"
proof -
  obtain r where r: "checkCandidate sampleOps (k + 1) (Some (sampleState pendingMapping)) (sampleState pendingMapping) nextGeometry = Inr r"
    using sample_candidate_check by blast
  have policy: "samePolicy (Some samplePolicy) (lkPolicy lockSample)"
    by (simp add: samePolicy_def lockSample_def samplePolicy_def sameMap_def)
  have input: "\<lparr>xiGeneration = emptyDigest, xiPolicy = Some lockSample, xiCandidate = nextGeometry, xiReservations = Some priorGeometry,
      xiAccepted = Some priorGeometry, xiRuntimeUsers = [''app''], xiRuntimeGroups = [''data'']\<rparr> = sampleInput" by (simp add: sampleInput_def)
  show ?thesis
    using r policy by (simp add: nativePlan_def sample_env state_fields pending_state)
      (simp add: sampleGeneration_def sampleNative_def input sample_execution)
qed


lemma sample_pending_check:
  "checkNativePending sampleOps k (Some (sampleState pendingMapping)) (sampleState pendingMapping) (sampleOperation ''effects-pending'' ''5'') sampleNative
     = Inr sampleExecution"
  by (simp add: checkNativePending_def sampleOperation_def sample_native_plan sameExecution_eq) (simp add: sampleExecution_def sampleNative_def)

lemma sample_observed: "ObserveEffects sampleOps k (Some (sampleState pendingMapping)) (sampleState pendingMapping) nextGeometry ''op'' = Inr (sampleState pendingMapping)"
proof -
  have op: "numeric (opCandidate (sampleOperation ''effects-pending'' ''5'')) = nextGeometry" "opPhase (sampleOperation ''effects-pending'' ''5'') = ''effects-pending''"
      "opNative (sampleOperation ''effects-pending'' ''5'') = Some sampleNative" "opKind (sampleOperation ''effects-pending'' ''5'') = ''native-execute''"
      "opOperationID (sampleOperation ''effects-pending'' ''5'') = ''op''" "opExpectedGeneration (sampleOperation ''effects-pending'' ''5'') = Some sampleGeneration"
      "opPriorAccepted (sampleOperation ''effects-pending'' ''5'') = Some sampleGeneration" "numeric (noActive sampleNative) = nextGeometry"
    by (simp_all add: sampleOperation_def sampleNative_def)
  have "\<exists>st. Status sampleOps j (Some (sampleState pendingMapping)) = Inr st \<and> suState st = sampleState pendingMapping" for j
    by (simp add: Status_def ReadStateV1_def sample_env sample_read state_fields op plan_geometries_retained Let_def)
  then obtain st where st: "Status sampleOps (k + 1) (Some (sampleState pendingMapping)) = Inr st" "suState st = sampleState pendingMapping" by blast
  have "checkPending sampleOps (k + 2) (Some (sampleState pendingMapping)) (sampleState pendingMapping) ''op'' = None"
    by (simp add: checkPending_def state_fields op sample_pending_check)
  then show ?thesis
    using st by (simp add: ObserveEffects_def sample_env state_fields op Let_def plan_geometries_valid)
qed

lemma sample_next: "nextRevision ''5'' = ''6''" "mappingDecimalV1 ''5'' \<noteq> - 1"
  by (simp_all add: nextRevision_def mappingDecimalV1_def parseUint_def isDigit_def formatUint.simps char_of_def bit_0)

lemma sample_admission:
  "AdmitNativeExecution sampleOps (Some (sampleState pendingMapping)) (sampleState pendingMapping) ''op'' =
     (Inr (sampleState admittedSample), Some (sampleState admittedSample))"
proof -
  let ?p = "sampleOperation ''effects-pending'' ''5''" and ?s = "sampleState pendingMapping"
  have op: "opNative ?p = Some sampleNative" "opKind ?p = ''native-execute''" "numeric (noActive sampleNative) = nextGeometry"
    by (simp_all add: sampleOperation_def sampleNative_def)
  define n where "n = admittedMapping sampleExecution pendingMapping ?p sampleNative"
  have update: "onPending (admitUpdate sampleOps sampleExecution ?s) ?s = Inr (?s\<lparr>stIdentityMapping := Some n\<rparr>)"
    by (simp add: onPending_def state_fields admitUpdate_def sample_env op Let_def n_def admittedMapping_def)
  have "n\<lparr>msRevision := nextRevision (msRevision n)\<rparr> = admittedSample"
    by (simp add: n_def admittedMapping_def pendingMapping_def admittedSample_def nativeMapping_def sampleOperation_def sample_next sampleExecution_def)
      (simp add: sampleNative_def)
  then have next': "?s\<lparr>stIdentityMapping := Some n, stIdentityMapping := Some (n\<lparr>msRevision := nextRevision (msRevision n)\<rparr>)\<rparr> = sampleState admittedSample"
    by (simp add: sampleState_def)
  have "msRevision n = ''5''" by (simp add: n_def admittedMapping_def state_fields)
  then have ne: "?s \<noteq> ?s\<lparr>stIdentityMapping := Some n\<rparr>"
    by (simp add: sampleState_def n_def admittedMapping_def pendingMapping_def nativeMapping_def sampleOperation_def)
  have "change sampleOps 60 (Some ?s) ?s (\<lambda>s. onPending (admitUpdate sampleOps sampleExecution s) s) = (Inr (sampleState admittedSample), Some (sampleState admittedSample))"
    using ne next' by (simp add: change_def sample_env sample_read state_fields sample_next update commitChange_def Let_def EncodeStateV1_def
      admitted_state sample_owner_path writeStateFile_def)
  then show ?thesis
    by (simp add: AdmitNativeExecution_def state_fields op sample_observed sample_pending_check)
qed

end
