(* ===== verification/MappingProperties.thy ===== *)
theory MappingProperties
  imports MappingSamples
begin

text \<open>
  The properties of mapping authority and of the deployment state file that holds it,
  \<open>src/internal/deploy/identity_mapping_operations.go\<close>, \<open>identity_mapping_native.go\<close>,
  \<open>identity_mapping_state.go\<close>, \<open>identity_mapping_state_file.go\<close>, \<open>state_v1_file.go\<close> and
  \<open>deployment_state_v1.go\<close>.
\<close>

section \<open>Histories\<close>

text \<open>
  C19. Mapping authority is never lost. Take a valid state file with a mapping and let any
  sequence of the modelled operations run on it (the two that are not modelled refuse such a file), each with its own arguments, lock, host, effect owner and
  write outcomes. The file is still there, still valid, with a pending operation only of its
  current generation. The mapping keeps its owner, operator and profile; every identity that it
  reserved, that it once accepted for execution, or that effects may have used is still bound to
  the same host ID; and if the record changed at all its revision is larger.
\<close>

theorem mapping_history:
  assumes "validateIdentityMappingStateV1 s = None" "pendingCurrent s" "stIdentityMapping s = Some m"
  shows "\<exists>t n. fold run calls (Some s) = Some t \<and> validateIdentityMappingStateV1 t = None \<and> pendingCurrent t \<and> stIdentityMapping t = Some n
    \<and> sameOwner m n \<and> authority gmUIDs m \<subseteq> authority gmUIDs n \<and> authority gmGIDs m \<subseteq> authority gmGIDs n
    \<and> held gmUIDs (acceptedGeometry m) \<subseteq> held gmUIDs (acceptedGeometry n) \<and> held gmGIDs (acceptedGeometry m) \<subseteq> held gmGIDs (acceptedGeometry n)
    \<and> (n = m \<or> revisionOf m < revisionOf n)"
proof -
  have "sound (Some s)" using assms(1,2) by (simp add: sound_def)
  then have h: "sound (fold run calls (Some s))" "progress (Some s) (fold run calls (Some s))" using mapping_store.history by blast+
  obtain t n where t: "fold run calls (Some s) = Some t" "stIdentityMapping t = Some n" "forward m n"
    using h(2) assms(3) by (auto simp: progress_def)
  then show ?thesis using h(1) by (auto simp: sound_def forward_def keeps_def)
qed

theorem mapping_history_witness:
  "\<exists>t n. fold run [CallAdmit sampleOps (sampleState pendingMapping) ''op'', CallUpgrade sampleOps (sampleState pendingMapping)]
        (Some (sampleState pendingMapping)) = Some t
    \<and> stIdentityMapping t = Some n \<and> authority gmUIDs pendingMapping \<subseteq> authority gmUIDs n"
proof -
  have "pendingCurrent (sampleState pendingMapping)"
    by (simp add: pendingCurrent_def state_fields) (simp add: sampleOperation_def)
  from mapping_history[OF pending_state(2) this state_fields(1)] show ?thesis by blast
qed

text \<open>
  The state file that histories start from need not be assumed: without a file the first state
  that any history writes is valid, and so are all that follow.
\<close>

theorem mapping_file_invariant: "sound (fold run calls None)"
proof -
  have "sound None" by (simp add: sound_def)
  then show ?thesis using mapping_store.history by blast
qed

section \<open>Native execution\<close>

text \<open>An admission changes the phase of its operation, so it never leaves the state as it was.\<close>

lemma admit_differs:
  assumes "stIdentityMapping s = Some m" "msPendingOperation m = Some p" "opPhase p \<noteq> ''release-attempted''"
  shows "onPending (admitUpdate env plan s) s \<noteq> Inr s"
proof
  assume "onPending (admitUpdate env plan s) s = Inr s"
  then obtain n where n: "admitUpdate env plan s m p = Inr n" "s\<lparr>stIdentityMapping := Some n\<rparr> = s"
    using assms(1,2) by (auto simp: onPending_def split: sum.splits)
  let ?p = "p\<lparr>opPhase := ''release-attempted'', opExpectedRevision := nextRevision (msRevision m)\<rparr>"
  have m: "n = m" using arg_cong[OF n(2), of stIdentityMapping] assms(1) by simp
  from n(1) obtain native where "n = admittedMapping plan m p native" by (rule admitUpdate_Inr)
  then have "msPendingOperation n = Some ?p" by (simp only:) (simp add: admittedMapping_def)
  then have "?p = p" using assms(2) unfolding m by simp
  then have "opPhase ?p = opPhase p" by simp
  then show False using assms(3) by simp
qed

text \<open>
  C21. A successful admission records exactly the plan. The file held the expected state, whose
  mapping had the named operation pending with its effects in place and verified; a plan for the
  current generation reproduces the active map that the operation recorded; and the new file
  is the expected state whose mapping holds the prospective reservations, the prospective
  accepted history, the dormant identities, the engine and the process of the operation, the
  phase that marks the attempted release, and the next revision.
\<close>

theorem admission_exact:
  assumes "AdmitNativeExecution env disk expected i = (Inr t, disk')"
  shows "\<exists>m p native generation policyLock plan evidence.
      disk = Some expected \<and> stIdentityMapping expected = Some m \<and> msPendingOperation m = Some p \<and> opNative p = Some native
      \<and> opPhase p = ''effects-pending'' \<and> evidenceOf env = Some evidence \<and> evVerify evidence expected
      \<and> PlanIdentityExecutionV1 (nativeInput m generation policyLock (numeric (opCandidate p)) native) = Inr plan
      \<and> xpActive plan = numeric (noActive native)
      \<and> t = bumped (expected\<lparr>stIdentityMapping := Some (admittedMapping plan m p native)\<rparr>) (admittedMapping plan m p native) \<and> disk' = Some t"
  using assms
proof (cases rule: Admit_cases)
  case (changed m p native generation policyLock plan)
  let ?u = "\<lambda>s. onPending (admitUpdate env plan s) s"
  have phase: "opPhase p = ''effects-pending''"
    using changed(1,2,4) by (auto simp: ObserveEffects_def Let_def split: if_splits sum.splits option.splits)
  have active: "xpActive plan = numeric (noActive native)"
    using changed(5) by (auto simp: checkNativePending_def sameExecution_eq split: sum.splits if_splits)
  have differs: "?u expected \<noteq> Inr expected" using admit_differs[OF changed(1,2)] phase by simp
  obtain n updated where w: "swapped env expected ?u disk disk' n updated" "t = bumped updated n"
    using change_cases[OF changed(7)] differs by auto
  from w(1) have u: "disk = Some expected" "?u expected = Inr updated" "stIdentityMapping updated = Some n" "disk' = Some (bumped updated n)"
    by (simp_all add: swapped_def)
  have a: "admitUpdate env plan expected m p = Inr n" "updated = expected\<lparr>stIdentityMapping := Some n\<rparr>"
    using u(2,3) changed(1,2) by (auto simp: onPending_def split: sum.splits)
  from a(1) obtain evidence native' where e: "evidenceOf env = Some evidence" "evVerify evidence expected" "opNative p = Some native'"
    "n = admittedMapping plan m p native'" by (rule admitUpdate_Inr)
  have n: "n = admittedMapping plan m p native" using e(3,4) changed(3) by simp
  have t: "t = bumped (expected\<lparr>stIdentityMapping := Some (admittedMapping plan m p native)\<rparr>) (admittedMapping plan m p native)" "disk' = Some t"
    using w(2) u(4) a(2) n by simp_all
  show ?thesis using changed(1,2,3,6) phase active u(1) e(1,2) t by blast
qed simp

theorem admission_exact_witness:
  "\<exists>m p. stIdentityMapping (sampleState pendingMapping) = Some m \<and> msPendingOperation m = Some p \<and> opPhase p = ''effects-pending''
    \<and> (\<exists>plan native. sampleState admittedSample =
         bumped ((sampleState pendingMapping)\<lparr>stIdentityMapping := Some (admittedMapping plan m p native)\<rparr>) (admittedMapping plan m p native))"
  using admission_exact[OF sample_admission] by blast


text \<open>
  C20. A release is attempted once. While a mapping records an attempted release, a further
  admission is refused with the file unchanged, whatever it is given, and no operation changes
  the mapping record at all, with one exception: a recovery that does not cancel, whose effect
  owner verifies that state, and which then clears the pending operation.
\<close>

theorem release_one_shot:
  assumes "released s m p" "validateIdentityMappingStateV1 s = None"
  shows "(\<exists>e. AdmitNativeExecution env (Some s) expected i = (Inl e, Some s))
    \<and> ((\<exists>t. run c (Some s) = Some t \<and> stIdentityMapping t = Some m)
       \<or> (\<exists>env expected i e t n. c = CallRecover env expected i False \<and> evidenceOf env = Some e \<and> evVerify e s
            \<and> run c (Some s) = Some t \<and> stIdentityMapping t = Some n \<and> msPendingOperation n = None))"
  using released_admission[OF assms(1), of env expected i] released_calls[OF assms, of c] by blast

theorem release_one_shot_witness:
  "(\<exists>e. AdmitNativeExecution sampleOps (Some (sampleState admittedSample)) (sampleState admittedSample) ''op'' = (Inl e, Some (sampleState admittedSample)))
   \<and> (\<exists>t. run (CallConfigure sampleOps (sampleState admittedSample) nextGeometry ''next'') (Some (sampleState admittedSample)) = Some t
        \<and> stIdentityMapping t = Some admittedSample)"
proof -
  have "released (sampleState admittedSample) admittedSample (sampleOperation ''release-attempted'' ''6'')"
    by (simp add: released_def sampleState_def admittedSample_def nativeMapping_def) (simp add: sampleOperation_def)
  from release_one_shot[OF this admitted_state(2), of sampleOps "sampleState admittedSample" "''op''"
      "CallConfigure sampleOps (sampleState admittedSample) nextGeometry ''next''"]
  show ?thesis by simp
qed

section \<open>Single changes\<close>

text \<open>
  C22. Every change of mapping authority is one compare-and-swap. A change either fails with the
  file as it was, or finds that the update leaves the expected state alone, or replaces the file
  once: then the file held exactly the expected state, which is valid, not revoked and not at the
  last revision, and now holds the updated state with the next revision, which is valid, encodes,
  and belongs to the directory of the lock; this holds of the new file also when the write reports
  an error after the rename.
\<close>

theorem change_atomic:
  "(\<exists>e. change env k disk expected update = (Inl e, disk))
   \<or> (disk = Some expected \<and> update expected = Inr expected \<and> change env k disk expected update = (Inr expected, disk))
   \<or> (\<exists>m updated. swapped env expected update disk (Some (bumped updated m)) m updated
        \<and> (change env k disk expected update = (Inr (bumped updated m), Some (bumped updated m))
           \<or> (\<exists>e. change env k disk expected update = (Inl e, Some (bumped updated m)))))"
proof -
  obtain res disk' where c: "change env k disk expected update = (res, disk')" by fastforce
  show ?thesis
    using change_cases[OF c]
  proof (elim disjE exE conjE)
    assume "disk' = disk" "\<forall>t. res = Inr t \<longrightarrow> disk = Some t \<and> t = expected \<and> update t = Inr t"
    then show ?thesis using c by (cases res) auto
  next
    fix m updated assume w: "swapped env expected update disk disk' m updated" "\<forall>t. res = Inr t \<longrightarrow> t = bumped updated m"
    then have "disk' = Some (bumped updated m)" by (simp add: swapped_def)
    then show ?thesis using w c by (cases res) auto
  qed
qed

text \<open>
  C27. Records of geometries are faithful. Reading back the record of any geometry returns that
  geometry, and the validator accepts a record exactly when it is the record of a canonical
  geometry, so every accepted record has one reading and one spelling.
\<close>

theorem wire_roundtrip:
  "numeric (mappingGeometryStateV1 g) = g
   \<and> (requireCanonicalMappingGeometryV1 w = None \<longleftrightarrow> (\<exists>c. ValidateGeometry c = Inr c \<and> w = mappingGeometryStateV1 c))"
proof -
  have "requireCanonicalMappingGeometryV1 w = None \<longleftrightarrow> (\<exists>c. ValidateGeometry c = Inr c \<and> w = mappingGeometryStateV1 c)"
  proof
    assume "requireCanonicalMappingGeometryV1 w = None"
    from wire_numeric[OF this] show "\<exists>c. ValidateGeometry c = Inr c \<and> w = mappingGeometryStateV1 c" by metis
  next
    assume "\<exists>c. ValidateGeometry c = Inr c \<and> w = mappingGeometryStateV1 c"
    then obtain c where "ValidateGeometry c = Inr c" "w = mappingGeometryStateV1 c" by blast
    then show "requireCanonicalMappingGeometryV1 w = None" using canonical_wire by simp
  qed
  then show ?thesis by simp
qed

end
