(* ===== verification/Spec2Isabelle.thy ===== *)
theory Spec2Isabelle
  imports LiveRunStoreProperties SessionProperties IdentityGeometryProperties IdentityHostProperties PythonProperties
    CanonicalProperties ProviderProperties BlueprintProperties IdentityPolicyProperties MappingProperties
begin

text \<open>
  A verification development for Reploy, a tool that builds and runs deployments from
  blueprints: it resolves tools and Python interpreters, maps identities between host and
  containers, admits runs to a deployment and supervises sessions that control a workload.

  \<^bold>\<open>The parts modelled and how they interact.\<close>

  \<^item> \<^emph>\<open>The live-run queue\<close> (\<open>src/internal/deploy/live_run_queue.go\<close>) admits commands, sessions
    and control markers to one deployment; it is pure code on a value.
    \<^theory_text>\<open>LiveRunQueue\<close> has its records, every validator and every operation (admission,
    removal, activation, cancellation, promotion); \<^theory_text>\<open>LiveRunSpec\<close> has an abstract scheduler, the
    invariant and the refinement lemmas; \<^theory_text>\<open>LiveRunProperties\<close> has the properties.
  \<^item> \<^emph>\<open>The live-run store\<close> (\<open>live_run_queue_file.go\<close>, \<open>terminal_removal_guard.go\<close>,
    \<open>control_lease.go\<close>) runs the queue's operations under the operation lock: it reads the
    queue, applies one operation and commits the result, and it recovers entries whose owner
    is gone. \<^theory_text>\<open>LiveRunStore\<close> models the lock as a record that the operations thread, with a
    failure switch for reading and for committing; \<^theory_text>\<open>LiveRunStoreProofs\<close> and
    \<^theory_text>\<open>LiveRunStoreSafety\<close> lift the queue's laws to it through a locale, and
    \<^theory_text>\<open>LiveRunStoreProperties\<close> has the properties.
  \<^item> \<^emph>\<open>Controlled sessions\<close> (\<open>src/internal/controlledsession\<close>): \<^theory_text>\<open>SessionModel\<close> has the
    statuses, results, identities, endpoint names and authorizations with their validators,
    \<^theory_text>\<open>SessionProtocol\<close> the two framed protocols and partial writes, and \<^theory_text>\<open>SessionLifecycle\<close> the
    machine that observations and requests drive. \<^theory_text>\<open>SessionProtocolProofs\<close> states both wire
    formats as one locale with two interpretations; \<^theory_text>\<open>SessionLifecycleProofs\<close> and
    \<^theory_text>\<open>SessionLifecycleOrder\<close> prove invariants and order by induction over reachable machines;
    \<^theory_text>\<open>SessionNames\<close> relates the name automaton and the number checks to grammars;
    \<^theory_text>\<open>SessionProperties\<close> has the properties.
  \<^item> \<^emph>\<open>Identity mapping\<close> (\<open>src/internal/identitymapping\<close>): \<^theory_text>\<open>IdentityGeometry\<close> has intervals,
    validation and retention; \<^theory_text>\<open>IdentityGeometryProofs\<close> and \<^theory_text>\<open>IdentityGeometrySpec\<close> relate them
    to the assignments of IDs they denote, and \<^theory_text>\<open>IdentityGeometryProperties\<close> has the properties.
    \<^theory_text>\<open>IdentityHost\<close> has the host check that reads accounts and delegations before a geometry
    is used, with \<^theory_text>\<open>IdentityHostProofs\<close> and \<^theory_text>\<open>IdentityHostProperties\<close>.
  \<^item> \<^emph>\<open>Identity policies and execution plans\<close>: \<^theory_text>\<open>IdentityPolicy\<close> has the portable policy of a blueprint
    (\<open>blueprint/identity_policy.go\<close>), \<^theory_text>\<open>ImageAccounts\<close> the account files of an image, the evidence that
    they agree with the policy and the lock that binds both (\<open>deploy/image_identity_files.go\<close>,
    \<open>image_identity_evidence.go\<close>, \<open>identity_policy_lock.go\<close>), \<^theory_text>\<open>ExecutionPlan\<close> the check that a
    geometry covers a policy and the partition into active and dormant identities
    (\<open>identity_policy_coverage.go\<close>, \<open>identity_execution_plan.go\<close>). \<^theory_text>\<open>ImageAccountsProofs\<close> relates
    the parsers to data lines, \<^theory_text>\<open>ExecutionPlanProofs\<close> the interval arithmetic to assignments;
    \<^theory_text>\<open>IdentitySamples\<close> and \<^theory_text>\<open>IdentityPolicyProperties\<close> have an example and the properties.
    \<^theory_text>\<open>GoNumbers\<close> has the parser of decimal numbers.
  \<^item> \<^emph>\<open>Mapping authority and the deployment state\<close> (\<open>src/internal/deploy\<close>): \<^theory_text>\<open>MappingState\<close> has the
    durable mapping records with their validators, \<^theory_text>\<open>DeployState\<close> the state file that holds them
    and the operations that replace it (less two that refuse a file with a mapping,
    \<open>BeginTerminalRemovalV1\<close> and \<open>commitRecoveredStateV1\<close>), \<^theory_text>\<open>MappingOperations\<close> the checked operations on mapping
    authority (status, check, configure, effects, recovery, upgrade, native preparation and
    admission), which call the geometry, the host check and the execution plan. The lock, the
    outcomes of reads and writes, the effect owner and the build records are arguments.
    \<^theory_text>\<open>MappingProofs\<close> proves one compare-and-swap lemma and one step lemma per operation,
    \<^theory_text>\<open>MappingHistory\<close> interprets a locale of monotone stores with all of them,
    \<^theory_text>\<open>MappingSamples\<close> evaluates an admission and \<^theory_text>\<open>MappingProperties\<close> has the properties.
  \<^item> \<^emph>\<open>Python versions\<close> (\<open>src/internal/providers\<close>): \<^theory_text>\<open>PythonClaim\<close> has the claims of supported
    interpreters and \<^theory_text>\<open>PythonVersion\<close> the release constraints that are checked against them;
    \<^theory_text>\<open>PythonClaimProofs\<close>, \<^theory_text>\<open>PythonVersionProofs\<close> and \<^theory_text>\<open>PythonSeriesProofs\<close> relate them to sets of
    releases, \<^theory_text>\<open>PythonPackageProofs\<close> reads the texts of package releases, and \<^theory_text>\<open>PythonProperties\<close> has the properties.
  \<^item> \<^emph>\<open>Canonical encoding\<close> (\<open>src/internal/canonical/canonical.go\<close>): \<^theory_text>\<open>Canonical\<close> has \<open>Marshal\<close> over
    Go values whose pointers, slices and maps live in a heap, the digest grammar and the
    identities \<open>Sum\<close>; \<^theory_text>\<open>GoSha256\<close> defines SHA-256. \<^theory_text>\<open>CanonicalText\<close> proves UTF-8, UTF-16 and the
    string escapes to be prefix codes (one locale, several interpretations), \<^theory_text>\<open>CanonicalProofs\<close>
    relates Go values to JSON values and their encodings, \<^theory_text>\<open>CanonicalGrammar\<close> has the grammar of
    RFC 8259, \<^theory_text>\<open>CanonicalIdentity\<close> the identities, \<^theory_text>\<open>CanonicalSamples\<close> the evaluation of examples,
    and \<^theory_text>\<open>CanonicalProperties\<close> the properties.
  \<^item> \<^emph>\<open>Provider plans\<close> (\<open>src/internal/providers/plan.go\<close>, \<open>graph.go\<close>, \<open>profile.go\<close>), whose requests
    and evidence carry canonical data: \<^theory_text>\<open>ProviderGraph\<close> has the stable initialization order and
    \<^theory_text>\<open>ProviderGraphProofs\<close> its greedy specification; \<^theory_text>\<open>ProviderPlan\<close> has the plans and their
    validators, \<^theory_text>\<open>ProviderPlanProofs\<close> the cycle check, \<^theory_text>\<open>ProviderPlanSpec\<close> and \<^theory_text>\<open>ProviderSelection\<close>
    the specifications of valid plans and selections; \<^theory_text>\<open>ProviderEvidence\<close> has the evidence about
    executables and \<^theory_text>\<open>ProviderCandidates\<close> the choice among candidates; \<^theory_text>\<open>ProviderProperties\<close> has
    the properties.
  \<^item> \<^emph>\<open>Blueprint names and platforms\<close> (\<open>src/internal/blueprint\<close>): \<^theory_text>\<open>BlueprintNames\<close> has the names
    and ownership identifiers that plans use, \<^theory_text>\<open>BlueprintPlatform\<close> the target platforms, and
    \<^theory_text>\<open>BlueprintProperties\<close> their properties.

  \<^theory_text>\<open>Prelude\<close> has the shared vocabulary (checks, slices, first errors, strict sortedness, the
  locale of three-way comparisons) and \<^theory_text>\<open>GoText\<close> the part of Go's standard library on text that
  the code uses: UTF-8, trimming, splitting, decimal numbers, Unix paths.

  \<^bold>\<open>How code becomes definitions.\<close> A Go struct is a record, a string enumeration a datatype, an
  error result a sum or an option with one constructor per message, a method that changes its
  receiver a function that returns the new record, a loop a recursive function with the state
  of the loop as arguments. Strings are byte sequences. Machine integers are words where the
  code converts or may wrap (\<^typ>\<open>32 word\<close> for intervals and frame lengths, \<^typ>\<open>64 word\<close> for
  revisions); elsewhere an
  integer that the code only compares, or guards before it increments, is a natural number or
  an integer, and the theory says so. Maps are functions or lists of keys. Nothing needs fuel
  except the search over patches of a series, whose bound is the code's own.

  \<^bold>\<open>What is outside.\<close> Code outside the repository is an argument: the random source of
  identifiers, the clock and lease probes of recovery, the writer of a connection, the backend
  that reads host files and runs host commands, the trusted owner of identity effects, the
  outcomes of the lock and of file replacement, and the order of Go's map iteration. What the
  theorems need of them is stated as hypotheses that are met by an instance in the witnesses.

  \<^bold>\<open>What the theorems show.\<close> The queue refines a scheduler: exclusive entries run alone, later
  entries never overtake, and removals make progress; the store never commits an invalid
  queue, respects the terminal-removal guard and loses no container in recovery; a session
  moves forward only, keeps what it recorded, obeys its authorization, can always be brought to
  a finish, and its two protocols read exactly what they write; a mapping geometry is accepted
  exactly when it is one-to-one and free of host root, its canonical form is unique, and
  assignments are permanent; a mapping that passes the host check uses only IDs delegated to the
  deployment's owner and to nobody else; an image whose account files were verified gives every
  declared user exactly its declared IDs and groups; coverage of a policy is decided exactly, and
  an execution plan, which never panics, partitions the identities of a deployment; every change
  of mapping authority is one compare-and-swap of the state file, no sequence of operations loses
  or rebinds an identity that was reserved or may have been used, an admission records exactly
  its plan, and a release is attempted once; the decimal records of geometries read back
  unchanged; constraints mean the conjunction of their specifiers,
  coverage and overlap with claims are decided exactly, and claims are normalized and
  intersected as sets of releases; canonical bytes are JSON texts, one for each JSON value, do
  not depend on the order of maps, and identities separate kinds, schemas and values as far as
  SHA-256 does; a provider plan is accepted exactly when it meets a specification, has then a
  deterministic order with the base first and suppliers before consumers, and the executables
  chosen for a node are the first compatible ones of earlier nodes, with evidence that leads to
  files everyone may execute; platform texts and platforms correspond, and a selection is
  accepted exactly when one declared text covers it. One theorem records a deviation: the shared
  equality rule accepts a package release by its own text and by its prefixes, but by both
  together only if its components after the third are zero.

  \<^bold>\<open>Not modelled.\<close> The JSON encodings of queues, events and authorizations; the file system below
  the store; goroutines, sockets and terminals around a session; container engines; the
  command line and the editor; blueprint documents; the backends that execute provider plans;
  tool catalogs, portable tools and the provider store; pending builds, build locks and the
  request overlay of a deployment, of which the mapping operations only read a view; the YAML
  form of identity policies; the functions that only call the PEP 440 package. What is left with
  logic of its own are requirement profiles and resolved bundles of providers, the plans of
  portable tools and the candidate solver of the tool catalog.
\<close>

end
